(* ===== verification/Bellman_Prelude.thy ===== *)
theory Bellman_Prelude
  imports Main "HOL-Library.Monad_Syntax" "HOL-Library.Multiset"
begin

text \<open>
  What every component of the development shares: the computation types that stand for
  Rust's control flow (a panic, a \<open>Result\<close>), lists used as SQL tables, and the
  collections the component proofs draw on.
\<close>

section \<open>Panics\<close>

text \<open>
  A Rust call either returns or unwinds with a panic. A computation that may panic is a
  value of type \<open>'a exec\<close>: \<open>None\<close> is "the call unwound" and \<open>Some x\<close> is "it
  returned \<open>x\<close>". Sequencing is the \<open>do\<close> notation of \<open>HOL-Library.Monad_Syntax\<close>, whose
  bind on options stops at the first panic, as unwinding does.
\<close>

type_synonym 'a exec = "'a option"

abbreviation (input) panic :: "'a exec" where
  "panic \<equiv> None"

abbreviation (input) ret :: "'a \<Rightarrow> 'a exec" where
  "ret x \<equiv> Some x"

section \<open>Fixed-width bounds\<close>

abbreviation "i64_max \<equiv> (9223372036854775807 :: int)"
abbreviation "u64_max \<equiv> (18446744073709551615 :: nat)"
abbreviation "u32_max \<equiv> (4294967295 :: nat)"

text \<open>Rust's \<open>saturating_add(1)\<close> on \<open>u32\<close> and \<open>u64\<close> values kept as naturals.\<close>

definition sat_succ :: "nat \<Rightarrow> nat \<Rightarrow> nat" where
  "sat_succ m n = (if n < m then Suc n else m)"

lemma sat_succ_le: "sat_succ m n \<le> m"
  by (simp add: sat_succ_def)

lemma sat_succ_mono: "n \<le> m \<Longrightarrow> n \<le> sat_succ m n"
  by (simp add: sat_succ_def)

section \<open>Lemma collections\<close>

named_theorems exec_simps "equations of panicking computations"
named_theorems tbl_simps "lookups after writes on a table"

lemmas bind_Some [exec_simps] = Option.bind_eq_Some_conv

end
