(* ===== verification/Chrono_Lib.thy ===== *)
theory Chrono_Lib
  imports Bellman_Prelude
begin

text \<open>
  Time as the program uses it, and the third-party crates it relies on.

  Values. A \<open>DateTime\<close> is its instant, an integer number of nanoseconds since the Unix
  epoch (two zoned date-times compare by instant, so the zone is carried beside it). A
  \<open>NaiveDateTime\<close> is the same count on the local wall clock; a \<open>NaiveDate\<close> is a day number and
  a \<open>NaiveTime\<close> the nanoseconds since midnight. \<open>chrono\<close>'s leap-second representation
  (a nanosecond field above one second) is not modelled.

  Crates. \<open>chrono\<close>, \<open>chrono-tz\<close> and \<open>croner\<close> are not part of the repository: what
  the code calls of them is the parameter record \<open>lib\<close> of every definition below, and the
  documented facts the properties rest on are the named predicates of this theory.
\<close>

section \<open>Instants, wall-clock values, durations\<close>

type_synonym instant = int
type_synonym naive = int
type_synonym day = int
type_synonym tod = int
type_synonym duration = int

definition sec_ns :: int where "sec_ns = 1000000000"
definition min_ns :: int where "min_ns = 60000000000"
definition day_ns :: int where "day_ns = 86400000000000"

lemma unit_pos [simp]: "0 < sec_ns" "0 < min_ns" "0 < day_ns"
  by (simp_all add: sec_ns_def min_ns_def day_ns_def)

lemma unit_nonneg [simp]: "0 \<le> sec_ns" "0 \<le> min_ns" "0 \<le> day_ns"
  by (simp_all add: sec_ns_def min_ns_def day_ns_def)

lemma int_div_less: "0 < b \<Longrightarrow> a < c * b \<Longrightarrow> a div b < c" for a b c :: int
  by (metis div_mult_mod_eq le_add_same_cancel1 le_less_trans mult_less_cancel_right_pos
      pos_mod_sign)

lemma int_le_div: "0 < b \<Longrightarrow> c * b \<le> a \<Longrightarrow> c \<le> a div b" for a b c :: int
  using zdiv_mono1 [of "c * b" a b] by simp

lemma int_ceil_div:
  fixes x b :: int
  assumes "0 < b"
  shows "x \<le> (x + b - 1) div b * b" "(x + b - 1) div b * b < x + b"
  using assms div_mult_mod_eq [of "x + b - 1" b] pos_mod_bound [of b "x + b - 1"]
    pos_mod_sign [of b "x + b - 1"] by linarith+

lemma min_ns_secs: "min_ns = 60 * sec_ns"
  by (simp add: min_ns_def sec_ns_def)

text \<open>\<open>NaiveDateTime::date\<close>, \<open>NaiveDateTime::time\<close> and \<open>NaiveDateTime::new\<close>.\<close>

definition date_of :: "naive \<Rightarrow> day" where "date_of n = n div day_ns"
definition time_of :: "naive \<Rightarrow> tod" where "time_of n = n mod day_ns"
definition at_time :: "day \<Rightarrow> tod \<Rightarrow> naive" where "at_time d t = d * day_ns + t"

definition valid_tod :: "tod \<Rightarrow> bool" where
  "valid_tod t \<longleftrightarrow> 0 \<le> t \<and> t < day_ns"

lemma date_of_at_time [simp]: "valid_tod t \<Longrightarrow> date_of (at_time d t) = d"
  by (simp add: date_of_def at_time_def valid_tod_def div_pos_pos_trivial)

lemma time_of_at_time [simp]: "valid_tod t \<Longrightarrow> time_of (at_time d t) = t"
  by (simp add: time_of_def at_time_def valid_tod_def)

lemma at_time_date_time [simp]: "at_time (date_of n) (time_of n) = n"
  by (simp add: at_time_def date_of_def time_of_def)

lemma valid_time_of [simp]: "valid_tod (time_of n)"
  by (simp add: valid_tod_def time_of_def)

lemma date_of_eqI: "d * day_ns \<le> n \<Longrightarrow> n < (d + 1) * day_ns \<Longrightarrow> date_of n = d"
  unfolding date_of_def using int_le_div [of day_ns d n] int_div_less [of day_ns n "d + 1"] by simp

lemma date_of_mono: "a \<le> b \<Longrightarrow> date_of a \<le> date_of b"
  by (simp add: date_of_def zdiv_mono1)

lemma date_of_less_midnight: "n < at_time (date_of n + 1) 0"
  unfolding at_time_def date_of_def day_ns_def by presburger

lemma midnight_date_of_le: "at_time (date_of n) 0 \<le> n"
  unfolding at_time_def date_of_def day_ns_def by presburger

section \<open>The crates the program calls\<close>

text \<open>\<open>chrono::LocalResult\<close>: how many instants show a given wall-clock reading.\<close>

datatype local_result = Single instant | Ambiguous instant instant | NoLocal

text \<open>A \<open>chrono_tz::Tz\<close>: \<open>from_local_datetime\<close>, and \<open>naive_local\<close> of an instant in it.\<close>

record zone =
  from_local_datetime :: "naive \<Rightarrow> local_result"
  naive_local :: "instant \<Rightarrow> naive"

record lib =
  from_ymd_opt :: "int \<Rightarrow> nat \<Rightarrow> nat \<Rightarrow> day option"
  date_year :: "day \<Rightarrow> int"
  date_month :: "day \<Rightarrow> nat"
  date_day :: "day \<Rightarrow> nat"
  weekday_from_monday :: "day \<Rightarrow> nat"
  date_min :: day
  date_max :: day
  utc_min :: instant
  utc_max :: instant
  duration_max_secs :: int
  duration_max :: duration
  tz_from_str :: "string \<Rightarrow> zone option"
  cron_parses :: "string \<Rightarrow> bool"
  cron_next :: "string \<Rightarrow> zone \<Rightarrow> instant \<Rightarrow> instant option"

text \<open>
  \<open>NaiveDate::succ_opt\<close> and \<open>pred_opt\<close> stop at the ends of the calendar; the operators
  \<open>+\<close> and \<open>-\<close> on date-times panic there; \<open>checked_add_signed\<close> answers \<open>None\<close>.
\<close>

definition succ_opt :: "lib \<Rightarrow> day \<Rightarrow> day option" where
  "succ_opt L d = (if d < date_max L then Some (d + 1) else None)"

definition pred_opt :: "lib \<Rightarrow> day \<Rightarrow> day option" where
  "pred_opt L d = (if date_min L < d then Some (d - 1) else None)"

definition naive_add :: "lib \<Rightarrow> naive \<Rightarrow> duration \<Rightarrow> naive exec" where
  "naive_add L n d =
     (if date_min L \<le> date_of (n + d) \<and> date_of (n + d) \<le> date_max L then ret (n + d) else panic)"

definition instant_add :: "lib \<Rightarrow> instant \<Rightarrow> duration \<Rightarrow> instant exec" where
  "instant_add L t d = (if utc_min L \<le> t + d \<and> t + d \<le> utc_max L then ret (t + d) else panic)"

definition checked_add_signed :: "lib \<Rightarrow> instant \<Rightarrow> duration \<Rightarrow> instant option" where
  "checked_add_signed L t d = (if utc_min L \<le> t + d \<and> t + d \<le> utc_max L then Some (t + d) else None)"

text \<open>\<open>Duration::seconds\<close> panics outside the duration range; \<open>try_seconds\<close> answers \<open>None\<close>.\<close>

definition duration_seconds :: "lib \<Rightarrow> int \<Rightarrow> duration exec" where
  "duration_seconds L s = (if \<bar>s\<bar> \<le> duration_max_secs L then ret (s * sec_ns) else panic)"

definition try_seconds :: "lib \<Rightarrow> int \<Rightarrow> duration option" where
  "try_seconds L s = (if \<bar>s\<bar> \<le> duration_max_secs L then Some (s * sec_ns) else None)"

text \<open>
  A \<open>std::time::Duration\<close> is a natural number of nanoseconds. \<open>chrono::Duration::from_std\<close>
  answers \<open>None\<close> above \<open>Duration::MAX\<close>; \<open>num_milliseconds\<close> truncates towards zero.
\<close>

type_synonym span = nat

definition from_std :: "lib \<Rightarrow> span \<Rightarrow> duration option" where
  "from_std L d = (if int d \<le> duration_max L then Some (int d) else None)"

definition num_milliseconds :: "duration \<Rightarrow> int" where
  "num_milliseconds d = (if 0 \<le> d then d div 1000000 else - ((- d) div 1000000))"

definition num_seconds :: "duration \<Rightarrow> int" where
  "num_seconds d = (if 0 \<le> d then d div sec_ns else - ((- d) div sec_ns))"

lemma naive_add_Some [exec_simps]:
  "naive_add L n d = Some m \<longleftrightarrow> m = n + d \<and> date_min L \<le> date_of m \<and> date_of m \<le> date_max L"
  by (auto simp: naive_add_def)

lemma instant_add_Some [exec_simps]:
  "instant_add L t d = Some u \<longleftrightarrow> u = t + d \<and> utc_min L \<le> u \<and> u \<le> utc_max L"
  by (auto simp: instant_add_def)

section \<open>Documented behaviour the properties rest on\<close>

text \<open>
  The calendar: a date that exists has the year, month and day it was built from, months
  have at most 31 days, weekdays are numbered from Monday, a later date is not of an
  earlier month, and the day after a date is the next of its month or the first of the next
  month.
\<close>

definition calendar_ok :: "lib \<Rightarrow> bool" where
  "calendar_ok L \<longleftrightarrow>
     (\<forall>y m d x. from_ymd_opt L y m d = Some x \<longrightarrow>
        date_year L x = y \<and> date_month L x = m \<and> date_day L x = d \<and>
        date_min L \<le> x \<and> x \<le> date_max L \<and> 1 \<le> m \<and> m \<le> 12 \<and> 1 \<le> d \<and> d \<le> 31) \<and>
     (\<forall>x. date_min L \<le> x \<and> x \<le> date_max L \<longrightarrow>
        from_ymd_opt L (date_year L x) (date_month L x) (date_day L x) = Some x) \<and>
     (\<forall>x. weekday_from_monday L x < 7 \<and> 1 \<le> date_month L x \<and> date_month L x \<le> 12) \<and>
     (\<forall>x y. x \<le> y \<longrightarrow>
        12 * date_year L x + int (date_month L x) \<le> 12 * date_year L y + int (date_month L y)) \<and>
     (\<forall>x. date_day L (x + 1) = date_day L x + 1 \<and>
          date_year L (x + 1) = date_year L x \<and> date_month L (x + 1) = date_month L x \<or>
        date_day L (x + 1) = 1 \<and>
          12 * date_year L (x + 1) + int (date_month L (x + 1)) =
            12 * date_year L x + int (date_month L x) + 1)"

text \<open>
  A zone: an instant that is a reading's answer shows that reading, the first answer of an
  ambiguous reading is the earlier one, and a reading that some instant shows has an answer.
\<close>

definition zone_ok :: "zone \<Rightarrow> bool" where
  "zone_ok z \<longleftrightarrow>
     (\<forall>n t. from_local_datetime z n = Single t \<longrightarrow> naive_local z t = n) \<and>
     (\<forall>n a b. from_local_datetime z n = Ambiguous a b \<longrightarrow>
        naive_local z a = n \<and> naive_local z b = n \<and> a < b) \<and>
     (\<forall>t. from_local_datetime z (naive_local z t) \<noteq> NoLocal)"

text \<open>\<open>croner\<close>'s exclusive search answers an instant after the one it was asked about.\<close>

definition cron_exclusive :: "lib \<Rightarrow> bool" where
  "cron_exclusive L \<longleftrightarrow> (\<forall>e z a t. cron_next L e z a = Some t \<longrightarrow> a < t)"

end
