(* ===== verification/Occurrence_Kind.thy ===== *)
theory Occurrence_Kind
  imports Chrono_Lib "HOL-Library.Word"
begin

unbundle bit_operations_syntax

text \<open>
  \<open>occurrence/kind.rs\<close> and \<open>occurrence/policy.rs\<close>: the weekday set of a weekly schedule
  (a bit mask in one byte), the occurrence kinds with their validation, and the policies.
\<close>

section \<open>Weekday sets (\<open>Weekdays\<close>)\<close>

datatype weekday = Mon | Tue | Wed | Thu | Fri | Sat | Sun

fun num_days_from_monday :: "weekday \<Rightarrow> nat" where
  "num_days_from_monday Mon = 0"
| "num_days_from_monday Tue = 1"
| "num_days_from_monday Wed = 2"
| "num_days_from_monday Thu = 3"
| "num_days_from_monday Fri = 4"
| "num_days_from_monday Sat = 5"
| "num_days_from_monday Sun = 6"

definition ORDER :: "weekday list" where
  "ORDER = [Mon, Tue, Wed, Thu, Fri, Sat, Sun]"

text \<open>The tuple struct \<open>Weekdays(u8)\<close>; its one field is the mask.\<close>

datatype weekdays = Weekdays (as_u8: "8 word")

definition weekdays_new :: weekdays where
  "weekdays_new = Weekdays 0"

definition weekday_bit :: "weekday \<Rightarrow> 8 word" where
  "weekday_bit d = push_bit (num_days_from_monday d) 1"

definition weekdays_insert :: "weekdays \<Rightarrow> weekday \<Rightarrow> weekdays" where
  "weekdays_insert w d = Weekdays (as_u8 w OR weekday_bit d)"

definition from_slice :: "weekday list \<Rightarrow> weekdays" where
  "from_slice days = foldl weekdays_insert weekdays_new days"

definition weekdays_contains :: "weekdays \<Rightarrow> weekday \<Rightarrow> bool" where
  "weekdays_contains w d \<longleftrightarrow> as_u8 w AND weekday_bit d \<noteq> 0"

definition weekdays_is_empty :: "weekdays \<Rightarrow> bool" where
  "weekdays_is_empty w \<longleftrightarrow> as_u8 w = 0"

definition from_u8 :: "8 word \<Rightarrow> weekdays" where
  "from_u8 bits = Weekdays (bits AND 0b01111111)"

definition weekdays_iter :: "weekdays \<Rightarrow> weekday list" where
  "weekdays_iter w =
     List.map_filter (\<lambda>(i, d). if as_u8 w AND push_bit i 1 \<noteq> 0 then Some d else None)
       (enumerate 0 ORDER)"

subsection \<open>The mask as a set\<close>

lemma num_days_lt [simp]: "num_days_from_monday d < 7"
  by (cases d) simp_all

lemma num_days_inj [simp]: "num_days_from_monday d = num_days_from_monday e \<longleftrightarrow> d = e"
  by (cases d; cases e) simp_all

lemma contains_bit: "weekdays_contains w d \<longleftrightarrow> bit (as_u8 w) (num_days_from_monday d)"
  by (simp add: weekdays_contains_def weekday_bit_def bit_iff_and_push_bit_not_eq_0)

lemma num_days_lt8 [simp]: "num_days_from_monday d < 8"
  using num_days_lt [of d] by linarith

lemma bit_weekday_bit: "bit (weekday_bit d) n \<longleftrightarrow> n = num_days_from_monday d"
proof -
  have "num_days_from_monday d < LENGTH(8)" by simp
  then show ?thesis
    unfolding weekday_bit_def push_bit_eq_mult mult_1 bit_exp_iff by auto
qed

lemma contains_insert [simp]:
  "weekdays_contains (weekdays_insert w d) e \<longleftrightarrow> e = d \<or> weekdays_contains w e"
  by (auto simp: contains_bit weekdays_insert_def bit_or_iff bit_weekday_bit)

lemma contains_new [simp]: "\<not> weekdays_contains weekdays_new d"
  by (simp add: contains_bit weekdays_new_def)

lemma contains_foldl:
  "weekdays_contains (foldl weekdays_insert w days) d \<longleftrightarrow> d \<in> set days \<or> weekdays_contains w d"
  by (induction days arbitrary: w) auto

text \<open>The iterator is the filter of \<open>ORDER\<close>: its bit \<open>1u8 << i\<close> is the i-th day's.\<close>

lemma enumerate_ORDER: "enumerate 0 ORDER = map (\<lambda>d. (num_days_from_monday d, d)) ORDER"
  by (simp add: ORDER_def)

lemma map_filter_if: "List.map_filter (\<lambda>x. if P x then Some x else None) xs = filter P xs"
  by (induction xs) (simp_all add: map_filter_simps)

lemma iter_filter: "weekdays_iter w = filter (weekdays_contains w) ORDER"
proof -
  have "weekdays_iter w =
      List.map_filter (\<lambda>d. if weekdays_contains w d then Some d else None) ORDER"
    unfolding weekdays_iter_def enumerate_ORDER List.map_filter_def
    by (simp add: filter_map comp_def weekdays_contains_def weekday_bit_def)
  then show ?thesis by (simp add: map_filter_if)
qed

lemma set_ORDER: "d \<in> set ORDER"
  by (cases d) (simp_all add: ORDER_def)

lemma set_iter: "set (weekdays_iter w) = {d. weekdays_contains w d}"
  using set_ORDER by (auto simp: iter_filter)

lemma bit_mask7: "bit (0b01111111 :: 8 word) n \<longleftrightarrow> n < 7"
proof -
  have m: "(0b01111111 :: 8 word) = mask 7" by (simp add: mask_eq_exp_minus_1)
  show ?thesis unfolding m bit_mask_iff by auto
qed

lemma contains_from_u8: "weekdays_contains (from_u8 b) d \<longleftrightarrow> bit b (num_days_from_monday d)"
  unfolding contains_bit from_u8_def weekdays.sel bit_and_iff bit_mask7 by simp

lemma iter_sorted: "sorted (map num_days_from_monday (weekdays_iter w))"
  unfolding iter_filter by (rule sorted_filter) (simp add: ORDER_def)

lemma iter_distinct: "distinct (weekdays_iter w)"
  unfolding iter_filter by (rule distinct_filter) (simp add: ORDER_def)

text \<open>Each bit below seven is the bit of a day.\<close>

lemma day_of_bit: "n < 7 \<Longrightarrow> \<exists>d. num_days_from_monday d = n"
  by (rule exI [of _ "ORDER ! n"]) (auto simp: ORDER_def less_Suc_eq numeral_eq_Suc)

definition well_formed_days :: "weekdays \<Rightarrow> bool" where
  "well_formed_days w \<longleftrightarrow> as_u8 w AND 0b01111111 = as_u8 w"

lemma well_formed_bit: "well_formed_days w \<Longrightarrow> bit (as_u8 w) n \<Longrightarrow> n < 7"
  unfolding well_formed_days_def using bit_mask7 bit_and_iff by metis

lemma weekdays_eqI:
  assumes v: "well_formed_days v" and w: "well_formed_days w"
    and d: "\<And>d. weekdays_contains v d = weekdays_contains w d"
  shows "v = w"
proof -
  have "bit (as_u8 v) n = bit (as_u8 w) n" for n
    using d well_formed_bit [OF v, of n] well_formed_bit [OF w, of n] day_of_bit [of n]
    unfolding contains_bit by metis
  then have "as_u8 v = as_u8 w" by (simp add: bit_eq_iff)
  then show ?thesis by (cases v; cases w) simp
qed

lemma well_formed_from_u8: "well_formed_days (from_u8 b)"
  unfolding well_formed_days_def from_u8_def weekdays.sel by (simp add: and.assoc)

lemma well_formed_new: "well_formed_days weekdays_new"
  by (simp add: well_formed_days_def weekdays_new_def)

lemma well_formed_insert: "well_formed_days w \<Longrightarrow> well_formed_days (weekdays_insert w d)"
proof -
  assume w: "well_formed_days w"
  have "bit (as_u8 (weekdays_insert w d) AND 0b01111111) n = bit (as_u8 (weekdays_insert w d)) n" for n
    using well_formed_bit [OF w, of n] num_days_lt [of d]
    unfolding weekdays_insert_def weekdays.sel bit_and_iff bit_mask7 bit_or_iff bit_weekday_bit
    by auto
  then show ?thesis unfolding well_formed_days_def by (metis bit_eq_iff)
qed

lemma well_formed_foldl:
  "well_formed_days w \<Longrightarrow> well_formed_days (foldl weekdays_insert w days)"
  by (induction days arbitrary: w) (simp_all add: well_formed_insert)

lemma well_formed_is_empty:
  "well_formed_days w \<Longrightarrow> weekdays_is_empty w \<longleftrightarrow> (\<forall>d. \<not> weekdays_contains w d)"
proof -
  assume w: "well_formed_days w"
  have "w = weekdays_new" if "\<forall>d. \<not> weekdays_contains w d"
    by (rule weekdays_eqI [OF w well_formed_new]) (use that in simp)
  then show ?thesis
    by (auto simp: weekdays_is_empty_def weekdays_new_def weekdays_contains_def)
qed

section \<open>Occurrence kinds (\<open>OccurrenceKind\<close>)\<close>

text \<open>
  A kind is read in the schedule's zone, but for the interval, which counts seconds from a UTC
  anchor. The \<open>u8\<close> and \<open>u64\<close> fields are naturals (no operation on them wraps).
\<close>

datatype occurrence_kind =
    Once naive
  | Interval nat instant
  | Daily tod
  | Weekly weekdays tod
  | Monthly nat tod
  | Yearly nat nat tod
  | Cron string

definition MIN_INTERVAL_SECS :: nat where
  "MIN_INTERVAL_SECS = 1"

text \<open>The messages \<open>validate\<close> and \<open>Occurrence::new\<close> format, one constructor each.\<close>

datatype kind_error =
    IntervalTooShort | NoWeekday | BadMonthlyDay nat | BadYearlyMonth nat | BadYearlyDay nat
  | EmptyCron | UnknownTimezone string

text \<open>\<open>char::is_whitespace\<close> and \<open>str::trim\<close> on the code points a \<open>char\<close> holds.\<close>

definition is_whitespace :: "char \<Rightarrow> bool" where
  "is_whitespace c \<longleftrightarrow> (let n = of_char c :: nat in 9 \<le> n \<and> n \<le> 13 \<or> n = 32 \<or> n = 133 \<or> n = 160)"

definition trim :: "string \<Rightarrow> string" where
  "trim s = rev (dropWhile is_whitespace (rev (dropWhile is_whitespace s)))"

definition validate :: "occurrence_kind \<Rightarrow> kind_error + unit" where
  "validate k = (case k of
     Interval every a \<Rightarrow> if every < MIN_INTERVAL_SECS then Inl IntervalTooShort else Inr ()
   | Weekly days at \<Rightarrow> if weekdays_is_empty days then Inl NoWeekday else Inr ()
   | Monthly day at \<Rightarrow> if \<not> (1 \<le> day \<and> day \<le> 31) then Inl (BadMonthlyDay day) else Inr ()
   | Yearly month day at \<Rightarrow>
       if \<not> (1 \<le> month \<and> month \<le> 12) then Inl (BadYearlyMonth month)
       else if \<not> (1 \<le> day \<and> day \<le> 31) then Inl (BadYearlyDay day)
       else Inr ()
   | Cron expr \<Rightarrow> if trim expr = [] then Inl EmptyCron else Inr ()
   | Once at \<Rightarrow> Inr ()
   | Daily at \<Rightarrow> Inr ())"

definition is_elapsed_time :: "occurrence_kind \<Rightarrow> bool" where
  "is_elapsed_time k = (case k of Interval _ _ \<Rightarrow> True | _ \<Rightarrow> False)"

definition kind_label :: "occurrence_kind \<Rightarrow> string" where
  "kind_label k = (case k of
     Once _ \<Rightarrow> ''once'' | Interval _ _ \<Rightarrow> ''interval'' | Daily _ \<Rightarrow> ''daily''
   | Weekly _ _ \<Rightarrow> ''weekly'' | Monthly _ _ \<Rightarrow> ''monthly'' | Yearly _ _ _ \<Rightarrow> ''yearly''
   | Cron _ \<Rightarrow> ''cron'')"

text \<open>The last day of a month, found as the day before the first of the next one.\<close>

definition days_in_month :: "lib \<Rightarrow> int \<Rightarrow> nat \<Rightarrow> nat exec" where
  "days_in_month L year month =
     (let (y, m) = (if month = 12 then (year + 1, 1) else (year, month + 1)) in
      do { first \<leftarrow> from_ymd_opt L y m 1;
           last \<leftarrow> pred_opt L first;
           ret (date_day L last) })"

section \<open>Policies (\<open>policy.rs\<close>)\<close>

datatype dst_gap_policy = FirstValidAfterGap
datatype dst_fold_policy = FirstOccurrence
datatype invalid_month_day_policy = Clamp

section \<open>\<open>parse_weekdays\<close> (\<open>schedule.rs\<close>)\<close>

text \<open>\<open>str::to_ascii_lowercase\<close>.\<close>

definition to_ascii_lowercase :: "string \<Rightarrow> string" where
  "to_ascii_lowercase s =
     map (\<lambda>c. let n = of_char c :: nat in if 65 \<le> n \<and> n \<le> 90 then char_of (n + 32) else c) s"

definition weekday_of_name :: "string \<Rightarrow> weekday option" where
  "weekday_of_name s =
     (if s \<in> {''mon'', ''monday''} then Some Mon
      else if s \<in> {''tue'', ''tues'', ''tuesday''} then Some Tue
      else if s \<in> {''wed'', ''wednesday''} then Some Wed
      else if s \<in> {''thu'', ''thur'', ''thurs'', ''thursday''} then Some Thu
      else if s \<in> {''fri'', ''friday''} then Some Fri
      else if s \<in> {''sat'', ''saturday''} then Some Sat
      else if s \<in> {''sun'', ''sunday''} then Some Sun
      else None)"

fun parse_weekdays_from :: "weekdays \<Rightarrow> string list \<Rightarrow> string + weekdays" where
  "parse_weekdays_from w [] = Inr w"
| "parse_weekdays_from w (name # names) =
     (case weekday_of_name (to_ascii_lowercase name) of
        Some day \<Rightarrow> parse_weekdays_from (weekdays_insert w day) names
      | None \<Rightarrow> Inl (to_ascii_lowercase name))"

definition parse_weekdays :: "string list \<Rightarrow> string + weekdays" where
  "parse_weekdays names = parse_weekdays_from weekdays_new names"

lemma parse_weekdays_from_Inr:
  "parse_weekdays_from w names = Inr v \<longleftrightarrow>
     (\<forall>n\<in>set names. weekday_of_name (to_ascii_lowercase n) \<noteq> None) \<and>
     v = foldl weekdays_insert w (map (\<lambda>n. the (weekday_of_name (to_ascii_lowercase n))) names)"
  by (induction names arbitrary: w) (auto split: option.splits)

end
