(* ===== verification/Occurrence_Civil.thy ===== *)
theory Occurrence_Civil
  imports Occurrence_Kind
begin

text \<open>
  \<open>occurrence/civil.rs\<close>: from a wall-clock date and time in a zone to one instant. A reading
  that no instant shows (a spring-forward gap) moves to the first valid second after it; of a
  reading shown twice (a fall-back fold) the earlier instant is taken.
\<close>

definition clamp_month_day ::
  "lib \<Rightarrow> int \<Rightarrow> nat \<Rightarrow> nat \<Rightarrow> invalid_month_day_policy \<Rightarrow> day option exec" where
  "clamp_month_day L year month day policy =
     do { last \<leftarrow> days_in_month L year month;
          let use_day = (case policy of Clamp \<Rightarrow> min day last);
          ret (from_ymd_opt L year month use_day) }"

text \<open>\<open>first_second_in_window\<close>: the \<open>while probe <= end\<close> loop, then the function.\<close>

function window_scan :: "lib \<Rightarrow> zone \<Rightarrow> naive \<Rightarrow> naive \<Rightarrow> instant \<Rightarrow> instant exec" where
  "window_scan L z probe stop after_gap =
     (if probe \<le> stop then
        do { probe' \<leftarrow> naive_add L probe sec_ns;
             case from_local_datetime z probe' of
               Single dt \<Rightarrow> ret dt
             | Ambiguous earliest _ \<Rightarrow> ret earliest
             | NoLocal \<Rightarrow> window_scan L z probe' stop after_gap }
      else ret after_gap)"
  by pat_completeness auto

termination
  by (relation "measure (\<lambda>(L, z, probe, stop, a). nat (stop - probe + 1))")
    (auto simp: naive_add_Some nat_less_iff sec_ns_def)

declare window_scan.simps [simp del]

definition first_second_in_window :: "lib \<Rightarrow> zone \<Rightarrow> naive \<Rightarrow> instant \<Rightarrow> instant exec" where
  "first_second_in_window L z before_or_at_gap after_gap =
     do { stop \<leftarrow> naive_add L (naive_local z after_gap) sec_ns;
          window_scan L z before_or_at_gap stop after_gap }"

text \<open>\<open>first_valid_after_gap\<close>: 180 steps of a minute, then 10800 steps of a second.\<close>

fun gap_minutes :: "lib \<Rightarrow> zone \<Rightarrow> nat \<Rightarrow> naive \<Rightarrow> instant option exec" where
  "gap_minutes L z 0 probe = ret None"
| "gap_minutes L z (Suc n) probe =
     do { probe' \<leftarrow> naive_add L probe min_ns;
          case from_local_datetime z probe' of
            Single dt \<Rightarrow>
              do { before \<leftarrow> naive_add L probe' (- min_ns);
                   t \<leftarrow> first_second_in_window L z before dt;
                   ret (Some t) }
          | Ambiguous earliest _ \<Rightarrow> ret (Some earliest)
          | NoLocal \<Rightarrow> gap_minutes L z n probe' }"

fun gap_seconds :: "lib \<Rightarrow> zone \<Rightarrow> nat \<Rightarrow> naive \<Rightarrow> instant option exec" where
  "gap_seconds L z 0 probe = ret None"
| "gap_seconds L z (Suc n) probe =
     do { probe' \<leftarrow> naive_add L probe sec_ns;
          case from_local_datetime z probe' of
            Single dt \<Rightarrow> ret (Some dt)
          | Ambiguous earliest _ \<Rightarrow> ret (Some earliest)
          | NoLocal \<Rightarrow> gap_seconds L z n probe' }"

definition first_valid_after_gap :: "lib \<Rightarrow> zone \<Rightarrow> naive \<Rightarrow> instant option exec" where
  "first_valid_after_gap L z n =
     do { r \<leftarrow> gap_minutes L z 180 n;
          case r of Some t \<Rightarrow> ret (Some t) | None \<Rightarrow> gap_seconds L z (3 * 3600) n }"

definition resolve_naive ::
  "lib \<Rightarrow> zone \<Rightarrow> naive \<Rightarrow> dst_gap_policy \<Rightarrow> dst_fold_policy \<Rightarrow> instant option exec" where
  "resolve_naive L z n gap_p fold_p =
     (case from_local_datetime z n of
        Single dt \<Rightarrow> ret (Some dt)
      | Ambiguous earliest _ \<Rightarrow> (case fold_p of FirstOccurrence \<Rightarrow> ret (Some earliest))
      | NoLocal \<Rightarrow> (case gap_p of FirstValidAfterGap \<Rightarrow> first_valid_after_gap L z n))"

definition resolve_local ::
  "lib \<Rightarrow> zone \<Rightarrow> day \<Rightarrow> tod \<Rightarrow> dst_gap_policy \<Rightarrow> dst_fold_policy \<Rightarrow> instant option exec" where
  "resolve_local L z date time gap_p fold_p = resolve_naive L z (at_time date time) gap_p fold_p"

section \<open>What a resolved instant shows\<close>

text \<open>
  An instant answers a reading when it shows it and is not the later of a fold's two.
\<close>

definition answers :: "zone \<Rightarrow> naive \<Rightarrow> instant \<Rightarrow> bool" where
  "answers z n t \<longleftrightarrow>
     (case from_local_datetime z n of
        Single dt \<Rightarrow> t = dt | Ambiguous a b \<Rightarrow> t = a | NoLocal \<Rightarrow> False)"

lemma answers_naive_local: "zone_ok z \<Longrightarrow> answers z n t \<Longrightarrow> naive_local z t = n"
  by (auto simp: answers_def zone_ok_def split: local_result.splits)

lemma window_scan_answers:
  assumes "window_scan L z probe stop a = Some t"
  shows "t = a \<or> (\<exists>n. probe < n \<and> answers z n t)"
  using assms
proof (induction L z probe stop a rule: window_scan.induct)
  case (1 L z probe stop a)
  show ?case
  proof (cases "probe \<le> stop")
    case False
    then show ?thesis using "1.prems" by (simp add: window_scan.simps)
  next
    case True
    then obtain p where p: "naive_add L probe sec_ns = Some p" "probe < p"
      using "1.prems" unit_pos(1) by (auto simp: window_scan.simps bind_Some naive_add_Some)
    have r: "(case from_local_datetime z p of Single dt \<Rightarrow> ret dt | Ambiguous e _ \<Rightarrow> ret e
        | NoLocal \<Rightarrow> window_scan L z p stop a) = Some t"
      using "1.prems" True p by (simp add: window_scan.simps)
    show ?thesis
    proof (cases "from_local_datetime z p")
      case NoLocal
      with r "1.IH" [OF True p(1) NoLocal] p(2) show ?thesis by (auto dest: less_trans)
    qed (use r p(2) in \<open>auto simp: answers_def intro!: exI [of _ p]\<close>)
  qed
qed

lemma first_second_answers:
  assumes "first_second_in_window L z b a = Some t"
  shows "t = a \<or> (\<exists>n. b < n \<and> answers z n t)"
  using assms by (auto simp: first_second_in_window_def bind_Some dest!: window_scan_answers)

lemma gap_minutes_answers:
  "gap_minutes L z k n = Some (Some t) \<Longrightarrow> \<exists>m. n < m \<and> answers z m t"
proof (induction k arbitrary: n)
  case (Suc k)
  from Suc.prems obtain p where p: "naive_add L n min_ns = Some p" by (auto simp: bind_Some)
  then have pn: "p = n + min_ns" "n < p" by (auto simp: naive_add_Some)
  have r: "(case from_local_datetime z p of
      Single dt \<Rightarrow> do { before \<leftarrow> naive_add L p (- min_ns);
                        t \<leftarrow> first_second_in_window L z before dt; ret (Some t) }
    | Ambiguous e _ \<Rightarrow> ret (Some e) | NoLocal \<Rightarrow> gap_minutes L z k p) = Some (Some t)"
    using Suc.prems p by simp
  show ?case
  proof (cases "from_local_datetime z p")
    case (Single dt)
    with r pn have "first_second_in_window L z n dt = Some t"
      by (auto simp: bind_Some naive_add_Some)
    then show ?thesis using first_second_answers Single pn(2) by (force simp: answers_def)
  next
    case (Ambiguous a b)
    then show ?thesis using r pn(2) by (auto simp: answers_def intro!: exI [of _ p])
  next
    case NoLocal
    with r have "gap_minutes L z k p = Some (Some t)" by simp
    from Suc.IH [OF this] pn(2) show ?thesis by (meson less_trans)
  qed
qed simp

lemma gap_seconds_answers:
  "gap_seconds L z k n = Some (Some t) \<Longrightarrow> \<exists>m. n < m \<and> answers z m t"
proof (induction k arbitrary: n)
  case (Suc k)
  from Suc.prems obtain p where p: "naive_add L n sec_ns = Some p" by (auto simp: bind_Some)
  then have pn: "n < p" by (auto simp: naive_add_Some)
  show ?case
  proof (cases "from_local_datetime z p")
    case NoLocal
    with Suc.prems p have "gap_seconds L z k p = Some (Some t)" by simp
    from Suc.IH [OF this] pn show ?thesis by (meson less_trans)
  qed (use Suc.prems p pn in \<open>auto simp: answers_def intro!: exI [of _ p]\<close>)
qed simp

text \<open>Whatever the zone, a resolved instant answers a reading at or after the one asked for.\<close>

lemma resolve_naive_answers:
  assumes "resolve_naive L z n gap_p fold_p = Some (Some t)"
  shows "\<exists>m. n \<le> m \<and> answers z m t"
proof (cases "from_local_datetime z n")
  case NoLocal
  with assms have "first_valid_after_gap L z n = Some (Some t)"
    by (simp add: resolve_naive_def split: dst_gap_policy.splits)
  then consider "gap_minutes L z 180 n = Some (Some t)" | "gap_seconds L z 10800 n = Some (Some t)"
    by (auto simp: first_valid_after_gap_def bind_Some split: option.splits)
  then show ?thesis using gap_minutes_answers gap_seconds_answers less_imp_le by metis
qed (use assms in \<open>auto simp: resolve_naive_def answers_def split: dst_fold_policy.splits\<close>)

section \<open>The first valid second after a gap\<close>

text \<open>
  \<open>in_calendar L a b\<close>: every reading from \<open>a\<close> to \<open>b\<close> is a date \<open>chrono\<close> represents, so
  none of the additions below panics.
\<close>

definition in_calendar :: "lib \<Rightarrow> naive \<Rightarrow> naive \<Rightarrow> bool" where
  "in_calendar L a b \<longleftrightarrow> date_min L \<le> date_of a \<and> date_of b \<le> date_max L"

lemma naive_add_in_calendar:
  "in_calendar L a b \<Longrightarrow> a \<le> n + d \<Longrightarrow> n + d \<le> b \<Longrightarrow> naive_add L n d = Some (n + d)"
  using date_of_mono [of a "n + d"] date_of_mono [of "n + d" b]
  by (auto simp: in_calendar_def naive_add_def)

lemma window_scan_first:
  assumes cal: "in_calendar L b hi" and hi: "b + int m * sec_ns \<le> hi"
    and none: "\<And>j. 0 < j \<Longrightarrow> j < m \<Longrightarrow> from_local_datetime z (b + int j * sec_ns) = NoLocal"
    and m: "0 < m" "from_local_datetime z (b + int m * sec_ns) = Single t"
    and stop: "b + int (m - 1) * sec_ns \<le> stop"
  shows "window_scan L z b stop a = Some t"
  using assms
proof (induction m arbitrary: b)
  case (Suc m)
  have b: "b \<le> stop" using Suc.prems(6) by (simp add: sec_ns_def)
  have add: "naive_add L b sec_ns = Some (b + sec_ns)"
    by (rule naive_add_in_calendar [OF Suc.prems(1)])
      (use Suc.prems(2) in \<open>auto simp: sec_ns_def algebra_simps\<close>)
  show ?case
  proof (cases "m = 0")
    case True
    then show ?thesis using b add Suc.prems(5) by (simp add: window_scan.simps)
  next
    case False
    have shift: "b + sec_ns + int j * sec_ns = b + int (Suc j) * sec_ns" for j
      by (simp add: algebra_simps)
    have cal: "in_calendar L (b + sec_ns) hi"
      using Suc.prems(1) date_of_mono [of b "b + sec_ns"]
      by (auto simp: in_calendar_def sec_ns_def)
    have none1: "from_local_datetime z (b + sec_ns) = NoLocal"
      using Suc.prems(3) [of 1] False by simp
    have "window_scan L z (b + sec_ns) stop a = Some t"
    proof (rule Suc.IH [OF cal])
      show "b + sec_ns + int (m - 1) * sec_ns \<le> stop"
        using Suc.prems(6) False unfolding shift by simp
    qed (use Suc.prems(2,3,5) False in \<open>auto simp only: shift\<close>)
    then show ?thesis using b add none1 by (simp add: window_scan.simps)
  qed
qed simp

text \<open>
  A spring-forward gap around the reading \<open>n\<close>: its first valid second is \<open>g\<close> seconds on,
  where the instant is \<open>t\<close>, and for a minute from there every reading is shown once. The
  bound is the three hours the code allows.
\<close>

definition gap_of :: "zone \<Rightarrow> naive \<Rightarrow> nat \<Rightarrow> instant \<Rightarrow> bool" where
  "gap_of z n g t \<longleftrightarrow>
     0 < g \<and> g \<le> 10800 \<and>
     (\<forall>j<g. from_local_datetime z (n + int j * sec_ns) = NoLocal) \<and>
     from_local_datetime z (n + int g * sec_ns) = Single t \<and>
     (\<forall>j\<in>{g..<g + 60}. \<exists>u. from_local_datetime z (n + int j * sec_ns) = Single u)"

lemma gap_minutes_first:
  assumes z: "zone_ok z" and gap: "gap_of z n g t"
    and cal: "in_calendar L n (n + 10801 * sec_ns)"
  shows "60 * i < g \<Longrightarrow> k + i = 180 \<Longrightarrow>
    gap_minutes L z k (n + int i * min_ns) = Some (Some t)"
proof (induction k arbitrary: i)
  case 0
  then show ?case using gap by (simp add: gap_of_def)
next
  case (Suc k)
  let ?b = "n + int i * min_ns"
  let ?p = "n + int (60 * Suc i) * sec_ns"
  have p: "?b + min_ns = ?p" by (simp add: min_ns_secs algebra_simps)
  have bsec: "?b + int j * sec_ns = n + int (60 * i + j) * sec_ns" for j
    by (simp add: min_ns_secs algebra_simps)
  have i: "Suc i \<le> 180" using Suc.prems(2) by simp
  have add: "naive_add L ?b min_ns = Some ?p" unfolding p [symmetric]
    by (rule naive_add_in_calendar [OF cal], unfold p) (use i in \<open>auto simp: sec_ns_def\<close>)
  show ?case
  proof (cases "60 * Suc i < g")
    case True
    then have "from_local_datetime z ?p = NoLocal" using gap unfolding gap_of_def by blast
    moreover have "gap_minutes L z k (n + int (Suc i) * min_ns) = Some (Some t)"
      by (rule Suc.IH) (use True Suc.prems in auto)
    moreover have "n + int (Suc i) * min_ns = ?p" by (simp add: min_ns_secs)
    ultimately show ?thesis unfolding gap_minutes.simps add by simp
  next
    case False
    then obtain u where u: "from_local_datetime z ?p = Single u"
      using gap Suc.prems(1) unfolding gap_of_def
      by (metis atLeastLessThan_iff add.commute add_less_cancel_left mult_Suc_right not_less)
    have local: "naive_local z u = ?p" using z u unfolding zone_ok_def by blast
    have before: "naive_add L ?p (- min_ns) = Some ?b"
    proof -
      have "naive_add L ?p (- min_ns) = Some (?p + - min_ns)"
        by (rule naive_add_in_calendar [OF cal]) (use i in \<open>auto simp: sec_ns_def min_ns_def\<close>)
      then show ?thesis using p by simp
    qed
    have stop: "naive_add L ?p sec_ns = Some (?p + sec_ns)"
      by (rule naive_add_in_calendar [OF cal]) (use i in \<open>auto simp: sec_ns_def\<close>)
    have "window_scan L z ?b (?p + sec_ns) u = Some t"
    proof (rule window_scan_first [where m = "g - 60 * i" and hi = "n + 10801 * sec_ns"])
      show "in_calendar L ?b (n + 10801 * sec_ns)"
        using cal date_of_mono [of n ?b] by (auto simp: in_calendar_def min_ns_def)
      have g: "60 * i + (g - 60 * i) = g" using Suc.prems(1) by simp
      show "?b + int (g - 60 * i) * sec_ns \<le> n + 10801 * sec_ns"
        unfolding bsec g using gap by (simp add: gap_of_def sec_ns_def)
      show "from_local_datetime z (?b + int (g - 60 * i) * sec_ns) = Single t"
        unfolding bsec g using gap by (simp add: gap_of_def)
      show "?b + int (g - 60 * i - 1) * sec_ns \<le> ?p + sec_ns"
        unfolding bsec using False by (simp add: sec_ns_def)
      show "from_local_datetime z (?b + int j * sec_ns) = NoLocal" if "0 < j" "j < g - 60 * i" for j
      proof -
        have "60 * i + j < g" using that by simp
        then show ?thesis unfolding bsec using gap unfolding gap_of_def by blast
      qed
    qed (use Suc.prems in simp)
    then show ?thesis
      using add u before stop local by (simp add: first_second_in_window_def)
  qed
qed

lemma resolve_naive_gap:
  assumes "zone_ok z" "gap_of z n g t" "in_calendar L n (n + 10801 * sec_ns)"
  shows "resolve_naive L z n gap_p fold_p = Some (Some t)"
proof -
  have "from_local_datetime z n = NoLocal"
    using assms(2) by (auto simp: gap_of_def dest: spec [of _ 0])
  moreover have "gap_minutes L z 180 n = Some (Some t)"
    using gap_minutes_first [OF assms, of 0 180] assms(2) by (simp add: gap_of_def)
  ultimately show ?thesis
    by (cases gap_p) (simp add: resolve_naive_def first_valid_after_gap_def)
qed

end
