(* ===== verification/Occurrence_Schedule.thy ===== *)
theory Occurrence_Schedule
  imports Occurrence_Civil
begin

text \<open>
  \<open>occurrence/schedule.rs\<close>: a configured schedule, the candidate search of each kind, and
  \<open>next_fire\<close> with its validity window, run cap, exclusion dates and pending skips. A method
  that takes \<open>&mut self\<close> returns the updated record. The crates are the parameter \<open>L\<close>;
  \<open>exec\<close> is the panic of \<open>expect\<close> and of out-of-range date arithmetic.
\<close>

record occurrence =
  kind :: occurrence_kind
  tz :: string
  dst_gap :: dst_gap_policy
  dst_fold :: dst_fold_policy
  invalid_monthday :: invalid_month_day_policy
  valid_from :: "instant option"
  valid_until :: "instant option"
  max_runs :: "nat option"
  runs_done :: nat
  exclusions :: "day set"
  pending_skips :: nat

definition occurrence_new :: "lib \<Rightarrow> occurrence_kind \<Rightarrow> string \<Rightarrow> kind_error + occurrence" where
  "occurrence_new L k tz_name =
     (case validate k of
        Inl e \<Rightarrow> Inl e
      | Inr _ \<Rightarrow>
          (case tz_from_str L tz_name of
             None \<Rightarrow> Inl (UnknownTimezone tz_name)
           | Some _ \<Rightarrow> Inr \<lparr>
               kind = k, tz = tz_name, dst_gap = FirstValidAfterGap, dst_fold = FirstOccurrence,
               invalid_monthday = Clamp, valid_from = None, valid_until = None,
               max_runs = None, runs_done = 0, exclusions = {}, pending_skips = 0 \<rparr>))"

definition timezone :: "lib \<Rightarrow> occurrence \<Rightarrow> zone exec" where
  "timezone L oc = tz_from_str L (tz oc)"

definition exclude_date :: "occurrence \<Rightarrow> day \<Rightarrow> occurrence" where
  "exclude_date oc d = oc\<lparr>exclusions := insert d (exclusions oc)\<rparr>"

definition clear_exclusion :: "occurrence \<Rightarrow> day \<Rightarrow> occurrence" where
  "clear_exclusion oc d = oc\<lparr>exclusions := exclusions oc - {d}\<rparr>"

definition skip_next :: "occurrence \<Rightarrow> occurrence" where
  "skip_next oc = oc\<lparr>pending_skips := sat_succ u32_max (pending_skips oc)\<rparr>"

definition record_run :: "occurrence \<Rightarrow> occurrence" where
  "record_run oc = oc\<lparr>runs_done := sat_succ u64_max (runs_done oc)\<rparr>"

section \<open>Candidate generation\<close>

definition resolve :: "lib \<Rightarrow> occurrence \<Rightarrow> day \<Rightarrow> tod \<Rightarrow> instant option exec" where
  "resolve L oc date time =
     do { z \<leftarrow> timezone L oc; resolve_local L z date time (dst_gap oc) (dst_fold oc) }"

text \<open>\<open>if let Some(fire) = ... { if fire > after_local { return Some(fire) } }\<close>\<close>

fun fires_after :: "instant option \<Rightarrow> instant \<Rightarrow> bool" where
  "fires_after None after = False"
| "fires_after (Some fire) after = (after < fire)"

definition next_once :: "lib \<Rightarrow> occurrence \<Rightarrow> naive \<Rightarrow> instant \<Rightarrow> instant option exec" where
  "next_once L oc at after =
     do { r \<leftarrow> resolve L oc (date_of at) (time_of at);
          ret (if fires_after r after then r else None) }"

text \<open>
  \<open>num_seconds\<close> truncates, which is the floor here because \<open>after\<close> is not before the anchor;
  \<open>n\<close>, \<open>n + 1\<close> and the product are checked in \<open>i64\<close>.
\<close>

definition checked_i64 :: "int \<Rightarrow> int option" where
  "checked_i64 n = (if - i64_max - 1 \<le> n \<and> n \<le> i64_max then Some n else None)"

definition next_interval ::
  "lib \<Rightarrow> occurrence \<Rightarrow> nat \<Rightarrow> instant \<Rightarrow> instant \<Rightarrow> instant option exec" where
  "next_interval L oc every_secs anchor after =
     (if every_secs = 0 then ret None
      else if i64_max < int every_secs then ret None
      else do {
        next_utc \<leftarrow>
          (if after < anchor then ret (Some anchor)
           else
             let elapsed_secs = (after - anchor) div sec_ns;
                 n = elapsed_secs div int every_secs in
             case checked_i64 (n + 1) of
               None \<Rightarrow> ret None
             | Some next_n \<Rightarrow>
                 (case checked_i64 (next_n * int every_secs) of
                    None \<Rightarrow> ret None
                  | Some offset_secs \<Rightarrow>
                      do { d \<leftarrow> duration_seconds L offset_secs;
                           ret (checked_add_signed L anchor d) }));
        _ \<leftarrow> (case next_utc of None \<Rightarrow> ret () | Some _ \<Rightarrow> do { _ \<leftarrow> timezone L oc; ret () });
        ret next_utc })"

fun daily_scan :: "lib \<Rightarrow> occurrence \<Rightarrow> tod \<Rightarrow> instant \<Rightarrow> nat \<Rightarrow> day \<Rightarrow> instant option exec" where
  "daily_scan L oc at after 0 date = ret None"
| "daily_scan L oc at after (Suc n) date =
     do { r \<leftarrow> resolve L oc date at;
          if fires_after r after then ret r
          else (case succ_opt L date of
                  None \<Rightarrow> ret None
                | Some date' \<Rightarrow> daily_scan L oc at after n date') }"

definition next_daily :: "lib \<Rightarrow> occurrence \<Rightarrow> tod \<Rightarrow> instant \<Rightarrow> instant option exec" where
  "next_daily L oc at after =
     do { z \<leftarrow> timezone L oc;
          daily_scan L oc at after (366 * 5) (date_of (naive_local z after)) }"

definition weekday_of :: "lib \<Rightarrow> day \<Rightarrow> weekday" where
  "weekday_of L d = ORDER ! weekday_from_monday L d"

fun weekly_scan ::
  "lib \<Rightarrow> occurrence \<Rightarrow> weekdays \<Rightarrow> tod \<Rightarrow> instant \<Rightarrow> nat \<Rightarrow> day \<Rightarrow> instant option exec" where
  "weekly_scan L oc days at after 0 date = ret None"
| "weekly_scan L oc days at after (Suc n) date =
     do { r \<leftarrow> (if weekdays_contains days (weekday_of L date) then resolve L oc date at
                else ret None);
          if fires_after r after then ret r
          else (case succ_opt L date of
                  None \<Rightarrow> ret None
                | Some date' \<Rightarrow> weekly_scan L oc days at after n date') }"

definition next_weekly ::
  "lib \<Rightarrow> occurrence \<Rightarrow> weekdays \<Rightarrow> tod \<Rightarrow> instant \<Rightarrow> instant option exec" where
  "next_weekly L oc days at after =
     (if weekdays_is_empty days then ret None
      else do { z \<leftarrow> timezone L oc;
                weekly_scan L oc days at after (366 * 5) (date_of (naive_local z after)) })"

fun monthly_scan ::
  "lib \<Rightarrow> occurrence \<Rightarrow> nat \<Rightarrow> tod \<Rightarrow> instant \<Rightarrow> nat \<Rightarrow> int \<Rightarrow> nat \<Rightarrow> instant option exec" where
  "monthly_scan L oc day at after 0 year month = ret None"
| "monthly_scan L oc day at after (Suc n) year month =
     do { date \<leftarrow> clamp_month_day L year month day (invalid_monthday oc);
          case date of
            None \<Rightarrow> ret None
          | Some date \<Rightarrow>
              do { r \<leftarrow> resolve L oc date at;
                   if fires_after r after then ret r
                   else if month = 12 then monthly_scan L oc day at after n (year + 1) 1
                   else monthly_scan L oc day at after n year (month + 1) } }"

definition next_monthly :: "lib \<Rightarrow> occurrence \<Rightarrow> nat \<Rightarrow> tod \<Rightarrow> instant \<Rightarrow> instant option exec" where
  "next_monthly L oc day at after =
     do { z \<leftarrow> timezone L oc;
          let today = date_of (naive_local z after);
          monthly_scan L oc day at after (12 * 50) (date_year L today) (date_month L today) }"

fun yearly_scan ::
  "lib \<Rightarrow> occurrence \<Rightarrow> nat \<Rightarrow> nat \<Rightarrow> tod \<Rightarrow> instant \<Rightarrow> nat \<Rightarrow> int \<Rightarrow> instant option exec" where
  "yearly_scan L oc month day at after 0 year = ret None"
| "yearly_scan L oc month day at after (Suc n) year =
     do { date \<leftarrow> clamp_month_day L year month day (invalid_monthday oc);
          case date of
            None \<Rightarrow> ret None
          | Some date \<Rightarrow>
              do { r \<leftarrow> resolve L oc date at;
                   if fires_after r after then ret r
                   else yearly_scan L oc month day at after n (year + 1) } }"

definition next_yearly ::
  "lib \<Rightarrow> occurrence \<Rightarrow> nat \<Rightarrow> nat \<Rightarrow> tod \<Rightarrow> instant \<Rightarrow> instant option exec" where
  "next_yearly L oc month day at after =
     do { z \<leftarrow> timezone L oc;
          yearly_scan L oc month day at after 200 (date_year L (date_of (naive_local z after))) }"

definition next_cron :: "lib \<Rightarrow> occurrence \<Rightarrow> string \<Rightarrow> instant \<Rightarrow> instant option exec" where
  "next_cron L oc expr after =
     (if cron_parses L expr then do { z \<leftarrow> timezone L oc; ret (cron_next L expr z after) }
      else ret None)"

definition raw_next_after :: "lib \<Rightarrow> occurrence \<Rightarrow> instant \<Rightarrow> instant option exec" where
  "raw_next_after L oc after = (case kind oc of
     Once at \<Rightarrow> next_once L oc at after
   | Interval every anchor \<Rightarrow> next_interval L oc every anchor after
   | Daily at \<Rightarrow> next_daily L oc at after
   | Weekly days at \<Rightarrow> next_weekly L oc days at after
   | Monthly day at \<Rightarrow> next_monthly L oc day at after
   | Yearly month day at \<Rightarrow> next_yearly L oc month day at after
   | Cron expr \<Rightarrow> next_cron L oc expr after)"

section \<open>\<open>next_fire\<close>\<close>

definition MAX_CANDIDATES :: nat where
  "MAX_CANDIDATES = 10000"

definition jump_past_exclusion_day :: "lib \<Rightarrow> occurrence \<Rightarrow> instant \<Rightarrow> instant option exec" where
  "jump_past_exclusion_day L oc candidate =
     do { z \<leftarrow> timezone L oc;
          case succ_opt L (date_of (naive_local z candidate)) of
            None \<Rightarrow> ret None
          | Some next_day \<Rightarrow>
              (case from_local_datetime z (at_time next_day 0) of
                 Single dt \<Rightarrow> do { c \<leftarrow> instant_add L dt (- 1); ret (Some c) }
               | Ambiguous earliest _ \<Rightarrow> do { c \<leftarrow> instant_add L earliest (- 1); ret (Some c) }
               | NoLocal \<Rightarrow>
                   do { r \<leftarrow> resolve_local L z next_day 0 (dst_gap oc) (dst_fold oc);
                        case r of
                          None \<Rightarrow> ret None
                        | Some dt \<Rightarrow> do { c \<leftarrow> instant_add L dt (- 1); ret (Some c) } }) }"

text \<open>
  The candidate loop answers how many skips it applied, and the fire. Its fuel is
  \<open>MAX_CANDIDATES\<close>, the bound of the source's \<open>for\<close>.
\<close>

fun candidates :: "lib \<Rightarrow> occurrence \<Rightarrow> zone \<Rightarrow> nat \<Rightarrow> instant \<Rightarrow> nat \<Rightarrow> (nat \<times> instant option) exec" where
  "candidates L oc z 0 cursor skipped = ret (skipped, None)"
| "candidates L oc z (Suc n) cursor skipped =
     do { r \<leftarrow> raw_next_after L oc cursor;
          case r of
            None \<Rightarrow> ret (skipped, None)
          | Some candidate \<Rightarrow>
              if (case valid_until oc of None \<Rightarrow> False | Some until \<Rightarrow> until \<le> candidate)
              then ret (skipped, None)
              else if (case valid_from oc of None \<Rightarrow> False | Some from_utc \<Rightarrow> candidate < from_utc)
              then candidates L oc z n candidate skipped
              else if date_of (naive_local z candidate) \<in> exclusions oc then
                do { j \<leftarrow> jump_past_exclusion_day L oc candidate;
                     candidates L oc z n (case j of None \<Rightarrow> candidate | Some c \<Rightarrow> c) skipped }
              else if skipped < pending_skips oc
              then candidates L oc z n candidate (Suc skipped)
              else ret (skipped, Some candidate) }"

definition search_floor :: "lib \<Rightarrow> occurrence \<Rightarrow> instant \<Rightarrow> instant exec" where
  "search_floor L oc after =
     (case valid_from oc of
        None \<Rightarrow> ret after
      | Some from_utc \<Rightarrow> if after < from_utc then instant_add L from_utc (- 1) else ret after)"

definition runs_exhausted :: "occurrence \<Rightarrow> bool" where
  "runs_exhausted oc = (case max_runs oc of None \<Rightarrow> False | Some m \<Rightarrow> m \<le> runs_done oc)"

definition next_fire :: "lib \<Rightarrow> occurrence \<Rightarrow> instant \<Rightarrow> (occurrence \<times> instant option) exec" where
  "next_fire L oc after =
     (if runs_exhausted oc then ret (oc, None)
      else do {
        z \<leftarrow> timezone L oc;
        cursor \<leftarrow> search_floor L oc after;
        (skipped, r) \<leftarrow> candidates L oc z MAX_CANDIDATES cursor 0;
        ret (oc\<lparr>pending_skips := pending_skips oc - skipped\<rparr>, r) })"

definition peek_next_fire :: "lib \<Rightarrow> occurrence \<Rightarrow> instant \<Rightarrow> instant option exec" where
  "peek_next_fire L oc after = do { (_, r) \<leftarrow> next_fire L oc after; ret r }"

section \<open>\<open>preview\<close> and \<open>PreviewIter\<close>\<close>

fun preview :: "lib \<Rightarrow> occurrence \<Rightarrow> instant \<Rightarrow> nat \<Rightarrow> instant list exec" where
  "preview L working cursor 0 = ret []"
| "preview L working cursor (Suc n) =
     do { (working', r) \<leftarrow> next_fire L working cursor;
          case r of
            None \<Rightarrow> ret []
          | Some t \<Rightarrow> do { rest \<leftarrow> preview L (record_run working') t n; ret (t # rest) } }"

record preview_iter =
  working :: occurrence
  cursor :: instant
  iter_done :: bool

definition iter_after :: "occurrence \<Rightarrow> instant \<Rightarrow> preview_iter" where
  "iter_after oc after = \<lparr>working = oc, cursor = after, iter_done = False\<rparr>"

definition iter_next :: "lib \<Rightarrow> preview_iter \<Rightarrow> (preview_iter \<times> instant option) exec" where
  "iter_next L it =
     (if iter_done it then ret (it, None)
      else do {
        (w, r) \<leftarrow> next_fire L (working it) (cursor it);
        case r of
          Some t \<Rightarrow> ret (it\<lparr>working := record_run w, cursor := t\<rparr>, Some t)
        | None \<Rightarrow> ret (it\<lparr>working := w, iter_done := True\<rparr>, None) })"

end
