(* ===== verification/Occurrence_Laws.thy ===== *)
theory Occurrence_Laws
  imports Occurrence_Schedule
begin

text \<open>
  What \<open>occurrence/schedule.rs\<close> promises: the candidate of each kind is the first one after
  the cursor, a fire lies in the validity window and on no excluded date, pending skips are
  consumed one per skipped fire, and a preview is the iterated \<open>next_fire\<close>.
\<close>

section \<open>Intervals\<close>

text \<open>The abstract schedule of an interval: the anchor and every whole period after it.\<close>

definition interval_fire :: "nat \<Rightarrow> instant \<Rightarrow> instant \<Rightarrow> bool" where
  "interval_fire every anchor t \<longleftrightarrow> (\<exists>k::nat. t = anchor + int k * int every * sec_ns)"

lemma timezone_unit:
  "(case r of None \<Rightarrow> Some () | Some _ \<Rightarrow> do { _ \<leftarrow> timezone L oc; Some () }) = Some u \<longleftrightarrow>
     r = None \<or> timezone L oc \<noteq> None"
  by (auto simp: bind_Some split: option.splits)

definition interval_offset :: "nat \<Rightarrow> instant \<Rightarrow> instant \<Rightarrow> int" where
  "interval_offset every anchor after =
     ((after - anchor) div sec_ns div int every + 1) * int every"

lemma next_interval_cases:
  assumes "next_interval L oc every anchor after = Some (Some t)"
  obtains "0 < every" "after < anchor" "t = anchor"
  | "0 < every" "anchor \<le> after" "t = anchor + interval_offset every anchor after * sec_ns"
  using assms
  by (auto simp: next_interval_def bind_Some timezone_unit checked_i64_def duration_seconds_def
      checked_add_signed_def interval_offset_def Let_def split: if_splits)

lemma interval_offset_gt:
  assumes "0 < every"
  shows "after < anchor + interval_offset every anchor after * sec_ns"
proof -
  define e where "e = (after - anchor) div sec_ns"
  have "e < (e div int every + 1) * int every"
    using assms by (metis add.commute distrib_right div_mult_mod_eq add_strict_left_mono
        mult_1 of_nat_0_less_iff pos_mod_bound)
  then have "(e + 1) * sec_ns \<le> interval_offset every anchor after * sec_ns"
    by (intro mult_right_mono) (auto simp: interval_offset_def e_def)
  moreover have "after - anchor < (e + 1) * sec_ns"
    unfolding e_def by (metis add_strict_left_mono div_mult_mod_eq distrib_right mult_1
        pos_mod_bound unit_pos(1))
  ultimately show ?thesis by linarith
qed

lemma interval_offset_least:
  assumes e: "0 < every" and u: "after < anchor + int k * int every * sec_ns"
    and a: "anchor \<le> after"
  shows "anchor + interval_offset every anchor after * sec_ns \<le> anchor + int k * int every * sec_ns"
proof -
  have "(after - anchor) div sec_ns < int k * int every"
    using u by (intro int_div_less) (auto simp: algebra_simps)
  then have "(after - anchor) div sec_ns div int every < int k"
    using e by (simp add: int_div_less)
  then have "interval_offset every anchor after \<le> int k * int every"
    unfolding interval_offset_def by (intro mult_right_mono) auto
  then show ?thesis using unit_pos(1) by (simp add: mult_right_mono less_imp_le)
qed

section \<open>The first fire of a source\<close>

text \<open>
  The contract a kind's candidate search offers \<open>next_fire\<close>: an answer is a fire of the
  schedule, after the cursor, and no fire lies in between as far as the days of the zone are in
  order (\<open>ordered\<close>, trivial for a kind that does not scan civil days).
\<close>

locale least_source =
  fixes search :: "instant \<Rightarrow> instant option exec" and fires :: "instant \<Rightarrow> bool"
    and ordered :: "instant \<Rightarrow> instant \<Rightarrow> bool"
  assumes search_after: "search a = Some (Some t) \<Longrightarrow> a < t"
    and search_fires: "search a = Some (Some t) \<Longrightarrow> fires t"
    and search_least: "search a = Some (Some t) \<Longrightarrow> fires u \<Longrightarrow> a < u \<Longrightarrow> ordered a u \<Longrightarrow> t \<le> u"
begin

lemma search_mono:
  assumes "a \<le> b" "search a = Some (Some t)" "search b = Some (Some u)" "ordered a u"
  shows "t \<le> u"
  using assms search_after [OF assms(3)] search_fires [OF assms(3)] search_least by force

lemma search_again:
  assumes "search a = Some (Some t)" "search b = Some (Some u)" "a \<le> b" "b < t"
    and "ordered a u" "ordered b t"
  shows "u = t"
  using search_mono [OF assms(3,1,2,5)] search_least [OF assms(2) search_fires [OF assms(1)] assms(4,6)]
  by simp

end

interpretation interval: least_source "next_interval L oc every anchor" "interval_fire every anchor"
  "\<lambda>_ _. True"
  for L oc every anchor
proof
  show "a < t" if "next_interval L oc every anchor a = Some (Some t)" for a t
    using that by (cases rule: next_interval_cases) (auto simp: interval_offset_gt)
  show "interval_fire every anchor t" if "next_interval L oc every anchor a = Some (Some t)" for a t
    using that
  proof (cases rule: next_interval_cases)
    case 1
    then show ?thesis unfolding interval_fire_def by (intro exI [of _ 0]) simp
  next
    case 2
    then have "0 \<le> (a - anchor) div sec_ns div int every + 1"
      by (simp add: pos_imp_zdiv_nonneg_iff)
    then show ?thesis unfolding interval_fire_def 2(3) interval_offset_def
      by (intro exI [of _ "nat ((a - anchor) div sec_ns div int every + 1)"]) simp
  qed
  show "t \<le> u" if "next_interval L oc every anchor a = Some (Some t)"
    "interval_fire every anchor u" "a < u" for a t u
    using that(1)
  proof (cases rule: next_interval_cases)
    case 1
    then show ?thesis using that(2) by (auto simp: interval_fire_def intro!: mult_nonneg_nonneg)
  next
    case 2
    then show ?thesis using that(2,3) interval_offset_least by (auto simp: interval_fire_def)
  qed
qed

definition once_fire :: "lib \<Rightarrow> occurrence \<Rightarrow> naive \<Rightarrow> instant \<Rightarrow> bool" where
  "once_fire L oc at t \<longleftrightarrow> resolve L oc (date_of at) (time_of at) = Some (Some t)"

lemma fires_after_iff: "fires_after r after \<longleftrightarrow> (\<exists>t. r = Some t \<and> after < t)"
  by (cases r) auto

interpretation once: least_source "next_once L oc at" "once_fire L oc at" "\<lambda>_ _. True" for L oc at
  by unfold_locales
    (auto simp: next_once_def once_fire_def bind_Some fires_after_iff split: if_splits)

section \<open>Day scans\<close>

lemma succ_opt_Some [exec_simps]: "succ_opt L d = Some d' \<longleftrightarrow> d < date_max L \<and> d' = d + 1"
  by (auto simp: succ_opt_def)

lemma daily_scan_first:
  assumes "daily_scan L oc at after n date = Some (Some t)"
  shows "\<exists>i<n. resolve L oc (date + int i) at = Some (Some t) \<and> after < t \<and>
    (\<forall>j<i. \<exists>r. resolve L oc (date + int j) at = Some r \<and> \<not> fires_after r after)"
  using assms
proof (induction n arbitrary: date)
  case (Suc n)
  from Suc.prems obtain r where r: "resolve L oc date at = Some r" by (auto simp: bind_Some)
  show ?case
  proof (cases "fires_after r after")
    case True
    then show ?thesis using Suc.prems r by (intro exI [of _ 0]) (auto simp: fires_after_iff)
  next
    case False
    with Suc.prems r have "daily_scan L oc at after n (date + 1) = Some (Some t)"
      by (auto simp: succ_opt_def split: if_splits)
    from Suc.IH [OF this] obtain i where i: "i < n"
      "resolve L oc (date + 1 + int i) at = Some (Some t)" "after < t"
      "\<And>j. j < i \<Longrightarrow> \<exists>r. resolve L oc (date + 1 + int j) at = Some r \<and> \<not> fires_after r after"
      by blast
    have "\<exists>r. resolve L oc (date + int j) at = Some r \<and> \<not> fires_after r after" if "j < Suc i" for j
    proof (cases j)
      case 0
      then show ?thesis using r False by simp
    next
      case (Suc k)
      with i(4) [of k] that show ?thesis by (simp add: add.assoc)
    qed
    then show ?thesis using i by (intro exI [of _ "Suc i"]) (simp add: add.assoc)
  qed
qed simp

text \<open>A weekly search is the daily one on a schedule that only resolves the listed days.\<close>

lemma weekly_scan_first:
  assumes "weekly_scan L oc days at after n date = Some (Some t)"
  shows "\<exists>i<n. weekdays_contains days (weekday_of L (date + int i)) \<and>
    resolve L oc (date + int i) at = Some (Some t) \<and> after < t \<and>
    (\<forall>j<i. weekdays_contains days (weekday_of L (date + int j)) \<longrightarrow>
       (\<exists>r. resolve L oc (date + int j) at = Some r \<and> \<not> fires_after r after))"
  using assms
proof (induction n arbitrary: date)
  case (Suc n)
  let ?c = "weekdays_contains days (weekday_of L date)"
  from Suc.prems obtain r where r: "(if ?c then resolve L oc date at else ret None) = Some r"
    by (auto simp: bind_Some)
  show ?case
  proof (cases "fires_after r after")
    case True
    then show ?thesis using Suc.prems r
      by (intro exI [of _ 0]) (auto simp: fires_after_iff split: if_splits)
  next
    case False
    with Suc.prems r have "weekly_scan L oc days at after n (date + 1) = Some (Some t)"
      by (auto simp: succ_opt_def split: if_splits)
    from Suc.IH [OF this] obtain i where i: "i < n"
      "weekdays_contains days (weekday_of L (date + 1 + int i))"
      "resolve L oc (date + 1 + int i) at = Some (Some t)" "after < t"
      "\<And>j. j < i \<Longrightarrow> weekdays_contains days (weekday_of L (date + 1 + int j)) \<Longrightarrow>
         \<exists>r. resolve L oc (date + 1 + int j) at = Some r \<and> \<not> fires_after r after"
      by blast
    have "\<exists>r. resolve L oc (date + int j) at = Some r \<and> \<not> fires_after r after"
      if "j < Suc i" "weekdays_contains days (weekday_of L (date + int j))" for j
    proof (cases j)
      case 0
      then show ?thesis using r False that by simp
    next
      case (Suc k)
      with i(5) [of k] that show ?thesis by (simp add: add.assoc)
    qed
    then show ?thesis using i by (intro exI [of _ "Suc i"]) (simp add: add.assoc)
  qed
qed simp

lemma weekly_scan_all_days:
  "(\<And>d. weekdays_contains days d) \<Longrightarrow>
    weekly_scan L oc days at after n date = daily_scan L oc at after n date"
  by (induction n arbitrary: date) (auto intro!: arg_cong2 [where f = Option.bind] split: option.split)

text \<open>
  What the civil-day searches need of the zone between two instants: its local date does not go
  back there, and the dates are in order around every instant \<open>u\<close> of the range, that is a later date
  resolves after \<open>u\<close>, an earlier one not after \<open>u\<close>, and the midnight of \<open>u\<close>'s own date not after
  \<open>u\<close>. It holds wherever the clock does not fall back over a local midnight and no whole day is
  skipped or repeated; it fails around a transition like that of St. John's before 2011 (00:01 back
  to 23:01).
\<close>

abbreviation local_date :: "zone \<Rightarrow> instant \<Rightarrow> day" where
  "local_date z t \<equiv> date_of (naive_local z t)"

definition civil_days :: "lib \<Rightarrow> zone \<Rightarrow> instant \<Rightarrow> instant \<Rightarrow> bool" where
  "civil_days L z lo hi \<longleftrightarrow>
     (\<forall>u v. lo \<le> u \<longrightarrow> u \<le> v \<longrightarrow> v \<le> hi \<longrightarrow> local_date z u \<le> local_date z v) \<and>
     (\<forall>u d at t. lo \<le> u \<longrightarrow> u \<le> hi \<longrightarrow> valid_tod at \<longrightarrow>
        resolve_local L z d at FirstValidAfterGap FirstOccurrence = Some (Some t) \<longrightarrow>
        (local_date z u < d \<longrightarrow> u < t) \<and>
        (d < local_date z u \<or> d = local_date z u \<and> at = 0 \<longrightarrow> t \<le> u))"

text \<open>There is one policy of each sort, so every schedule resolves alike.\<close>

lemma resolve_local_policy:
  "resolve_local L z d at g f = resolve_local L z d at FirstValidAfterGap FirstOccurrence"
  by (cases g; cases f) simp

lemma civil_days_mono:
  "civil_days L z lo hi \<Longrightarrow> lo \<le> u \<Longrightarrow> u \<le> v \<Longrightarrow> v \<le> hi \<Longrightarrow> local_date z u \<le> local_date z v"
  unfolding civil_days_def by blast

lemma civil_days_part:
  assumes "civil_days L z lo hi" "lo \<le> lo'" "hi' \<le> hi"
  shows "civil_days L z lo' hi'"
  using assms(1) order_trans [OF assms(2)] order_trans [OF _ assms(3)] unfolding civil_days_def by blast

lemma civil_days_later:
  assumes "civil_days L z lo hi" "lo \<le> u" "u \<le> hi" "valid_tod at"
    and "resolve_local L z d at g f = Some (Some t)" "local_date z u < d"
  shows "u < t"
proof -
  have "resolve_local L z d at FirstValidAfterGap FirstOccurrence = Some (Some t)"
    using assms(5) unfolding resolve_local_policy [of L z d at g f] .
  then show ?thesis using assms unfolding civil_days_def by blast
qed

lemma civil_days_earlier:
  assumes "civil_days L z lo hi" "lo \<le> u" "u \<le> hi" "valid_tod at"
    and "resolve_local L z d at g f = Some (Some t)" "d < local_date z u"
  shows "t \<le> u"
proof -
  have "resolve_local L z d at FirstValidAfterGap FirstOccurrence = Some (Some t)"
    using assms(5) unfolding resolve_local_policy [of L z d at g f] .
  then show ?thesis using assms unfolding civil_days_def by blast
qed

lemma valid_midnight [simp]: "valid_tod 0"
  by (simp add: valid_tod_def)

lemma civil_days_midnight:
  assumes "civil_days L z lo hi" "lo \<le> u" "u \<le> hi" "resolve_local L z d 0 g f = Some (Some t)"
  shows "u < t \<longleftrightarrow> local_date z u < d"
proof
  have r: "resolve_local L z d 0 FirstValidAfterGap FirstOccurrence = Some (Some t)"
    using assms(4) unfolding resolve_local_policy [of L z d 0 g f] .
  show "local_date z u < d" if "u < t"
  proof (rule ccontr)
    assume "\<not> local_date z u < d"
    then have "d < local_date z u \<or> d = local_date z u" by linarith
    then have "t \<le> u" using assms(1-3) r valid_midnight unfolding civil_days_def by blast
    with that show False by simp
  qed
qed (use assms civil_days_later in \<open>auto intro: civil_days_later [OF assms(1-3) valid_midnight assms(4)]\<close>)

text \<open>Two resolved dates around the cursor: a fire after it is not on an earlier date, and a later
  date does not fire before an earlier one.\<close>

lemma resolved_from:
  assumes z: "civil_days L z a u" "timezone L oc = Some z" "valid_tod at"
    and "resolve L oc e at = Some (Some u)" "a < u"
  shows "local_date z a \<le> e"
proof (rule ccontr)
  assume "\<not> local_date z a \<le> e"
  then have "u \<le> a"
    using civil_days_earlier [OF z(1) _ _ z(3), of a e _ _ u] assms z(2) by (auto simp: resolve_def)
  with assms(5) show False by simp
qed

lemma resolved_order:
  assumes z: "civil_days L z a u" "timezone L oc = Some z" "valid_tod at"
    and t: "resolve L oc d at = Some (Some t)" and u: "resolve L oc e at = Some (Some u)" "a < u"
    and "d < e"
  shows "t \<le> u"
proof -
  have r: "resolve_local L z d at (dst_gap oc) (dst_fold oc) = Some (Some t)"
    "resolve_local L z e at (dst_gap oc) (dst_fold oc) = Some (Some u)"
    using t u z(2) by (auto simp: resolve_def)
  have "\<not> local_date z u < e" using civil_days_later [OF z(1) _ _ z(3) r(2), of u] u(2) by auto
  then show ?thesis using civil_days_earlier [OF z(1) _ _ z(3) r(1), of u] u(2) assms(7) by simp
qed

section \<open>The fires of each kind\<close>

definition daily_fire :: "lib \<Rightarrow> occurrence \<Rightarrow> tod \<Rightarrow> instant \<Rightarrow> bool" where
  "daily_fire L oc at t \<longleftrightarrow> (\<exists>d. resolve L oc d at = Some (Some t))"

definition weekly_fire :: "lib \<Rightarrow> occurrence \<Rightarrow> weekdays \<Rightarrow> tod \<Rightarrow> instant \<Rightarrow> bool" where
  "weekly_fire L oc days at t \<longleftrightarrow>
     (\<exists>d. weekdays_contains days (weekday_of L d) \<and> resolve L oc d at = Some (Some t))"

text \<open>A scan over consecutive dates that stops at the first resolved fire finds the least.\<close>

lemma day_scan_least:
  assumes z: "civil_days L z a u" "timezone L oc = Some z" "valid_tod at"
    and t: "resolve L oc (local_date z a + int i) at = Some (Some t)"
    and first: "\<And>j. j < i \<Longrightarrow> P (local_date z a + int j) \<Longrightarrow>
      \<exists>r. resolve L oc (local_date z a + int j) at = Some r \<and> \<not> fires_after r a"
    and u: "resolve L oc d at = Some (Some u)" "P d" "a < u"
  shows "t \<le> u"
proof -
  define j where "j = nat (d - local_date z a)"
  have d: "d = local_date z a + int j" using resolved_from [OF z u(1,3)] by (simp add: j_def)
  consider "j < i" | "j = i" | "i < j" by linarith
  then show ?thesis
  proof cases
    case 1
    from first [OF 1] u show ?thesis unfolding d by (auto simp: fires_after_iff)
  next
    case 2
    then show ?thesis using u(1) t d by simp
  next
    case 3
    then show ?thesis using resolved_order [OF z t u(1,3)] d by simp
  qed
qed

lemma least_daily:
  assumes z: "timezone L oc = Some z" "valid_tod at"
  shows "least_source (next_daily L oc at) (daily_fire L oc at) (civil_days L z)"
proof
  fix a t assume t: "next_daily L oc at a = Some (Some t)"
  then obtain i where i: "resolve L oc (local_date z a + int i) at = Some (Some t)" "a < t"
    "\<And>j. j < i \<Longrightarrow> \<exists>r. resolve L oc (local_date z a + int j) at = Some r \<and> \<not> fires_after r a"
    using daily_scan_first z(1) unfolding next_daily_def by fastforce
  show "a < t" by fact
  show "daily_fire L oc at t" using i by (auto simp: daily_fire_def)
  fix u assume "daily_fire L oc at u" "a < u" and c: "civil_days L z a u"
  then obtain d where "resolve L oc d at = Some (Some u)" by (auto simp: daily_fire_def)
  then show "t \<le> u"
    using day_scan_least [OF c z i(1), of "\<lambda>_. True" d] i(3) \<open>a < u\<close> by simp
qed

lemma least_weekly:
  assumes z: "timezone L oc = Some z" "valid_tod at"
  shows "least_source (next_weekly L oc days at) (weekly_fire L oc days at) (civil_days L z)"
proof
  fix a t assume t: "next_weekly L oc days at a = Some (Some t)"
  then have "weekly_scan L oc days at a 1830 (local_date z a) = Some (Some t)"
    using z(1) by (auto simp: next_weekly_def split: if_splits)
  then obtain i where i: "resolve L oc (local_date z a + int i) at = Some (Some t)" "a < t"
    "weekdays_contains days (weekday_of L (local_date z a + int i))"
    "\<And>j. j < i \<Longrightarrow> weekdays_contains days (weekday_of L (local_date z a + int j)) \<Longrightarrow>
       \<exists>r. resolve L oc (local_date z a + int j) at = Some r \<and> \<not> fires_after r a"
    using weekly_scan_first by meson
  show "a < t" by fact
  show "weekly_fire L oc days at t" using i by (auto simp: weekly_fire_def)
  fix u assume "weekly_fire L oc days at u" "a < u" and c: "civil_days L z a u"
  then obtain d where "resolve L oc d at = Some (Some u)" "weekdays_contains days (weekday_of L d)"
    by (auto simp: weekly_fire_def)
  then show "t \<le> u"
    using day_scan_least [OF c z i(1), of "\<lambda>d. weekdays_contains days (weekday_of L d)" d]
      i(4) \<open>a < u\<close> by simp
qed

section \<open>Month and year scans\<close>

text \<open>Months are numbered through: \<open>12 * year + month - 1\<close>.\<close>

definition year_at :: "int \<Rightarrow> int" where "year_at x = x div 12"
definition month_at :: "int \<Rightarrow> nat" where "month_at x = nat (x mod 12) + 1"

lemma month_at_step:
  "year_at (x + 1) = (if month_at x = 12 then year_at x + 1 else year_at x)"
  "month_at (x + 1) = (if month_at x = 12 then 1 else month_at x + 1)"
proof -
  have m: "0 \<le> x mod 12" "x mod 12 < 12" by simp_all
  then have q: "month_at x = 12 \<longleftrightarrow> x mod 12 = 11" by (auto simp: month_at_def)
  have x1: "x + 1 = (x mod 12 + 1) + 12 * (x div 12)" using mult_div_mod_eq [of 12 x] by linarith
  have r1: "(x mod 12 + 1) div 12 = (if x mod 12 = 11 then 1 else 0)"
    "(x mod 12 + 1) mod 12 = (if x mod 12 = 11 then 0 else x mod 12 + 1)"
    using m by (auto simp: div_pos_pos_trivial mod_pos_pos_trivial)
  have d: "(x + 1) div 12 = (if x mod 12 = 11 then x div 12 + 1 else x div 12)"
    by (subst x1) (simp only: div_mult_self2 r1 zero_neq_numeral [symmetric] simp_thms, simp)
  have r: "(x + 1) mod 12 = (if x mod 12 = 11 then 0 else x mod 12 + 1)"
    by (subst x1) (simp only: mod_mult_self2 r1)
  show "year_at (x + 1) = (if month_at x = 12 then year_at x + 1 else year_at x)"
    unfolding q by (simp add: year_at_def d)
  show "month_at (x + 1) = (if month_at x = 12 then 1 else month_at x + 1)"
    unfolding q using m by (simp add: month_at_def r nat_add_distrib)
qed

lemma year_month_at: "1 \<le> m \<Longrightarrow> m \<le> 12 \<Longrightarrow> year_at (12 * y + (int m - 1)) = y"
  "1 \<le> m \<Longrightarrow> m \<le> 12 \<Longrightarrow> month_at (12 * y + (int m - 1)) = m"
  by (simp_all add: year_at_def month_at_def)

definition monthly_date :: "lib \<Rightarrow> occurrence \<Rightarrow> nat \<Rightarrow> int \<Rightarrow> day option exec" where
  "monthly_date L oc day x = clamp_month_day L (year_at x) (month_at x) day (invalid_monthday oc)"

lemma monthly_scan_first:
  assumes "monthly_scan L oc day at after n (year_at x) (month_at x) = Some (Some t)"
  shows "\<exists>i<n. (\<exists>d. monthly_date L oc day (x + int i) = Some (Some d) \<and>
      resolve L oc d at = Some (Some t)) \<and> after < t \<and>
    (\<forall>j<i. \<exists>d r. monthly_date L oc day (x + int j) = Some (Some d) \<and>
      resolve L oc d at = Some r \<and> \<not> fires_after r after)"
  using assms
proof (induction n arbitrary: x)
  case (Suc n)
  from Suc.prems obtain d r where d: "monthly_date L oc day x = Some (Some d)"
    and r: "resolve L oc d at = Some r"
    by (auto simp: bind_Some monthly_date_def split: option.splits)
  show ?case
  proof (cases "fires_after r after")
    case True
    then show ?thesis using Suc.prems d r
      by (intro exI [of _ 0]) (auto simp: fires_after_iff monthly_date_def)
  next
    case False
    with Suc.prems d r have "monthly_scan L oc day at after n (year_at (x + 1)) (month_at (x + 1))
        = Some (Some t)"
      unfolding month_at_step by (auto simp: monthly_date_def split: if_splits)
    from Suc.IH [OF this] obtain i where i: "i < n" "after < t"
      "\<exists>d. monthly_date L oc day (x + 1 + int i) = Some (Some d) \<and> resolve L oc d at = Some (Some t)"
      "\<And>j. j < i \<Longrightarrow> \<exists>d r. monthly_date L oc day (x + 1 + int j) = Some (Some d) \<and>
        resolve L oc d at = Some r \<and> \<not> fires_after r after"
      by blast
    have "\<exists>d r. monthly_date L oc day (x + int j) = Some (Some d) \<and>
        resolve L oc d at = Some r \<and> \<not> fires_after r after" if "j < Suc i" for j
      using d r False that i(4) [of "j - 1"] by (cases j) (simp_all add: add.assoc)
    then show ?thesis using i(1-3) by (intro exI [of _ "Suc i"]) (simp add: add.assoc)
  qed
qed simp

lemma yearly_scan_first:
  assumes "yearly_scan L oc month day at after n year = Some (Some t)"
  shows "\<exists>i<n. (\<exists>d. clamp_month_day L (year + int i) month day (invalid_monthday oc) = Some (Some d) \<and>
      resolve L oc d at = Some (Some t)) \<and> after < t \<and>
    (\<forall>j<i. \<exists>d r. clamp_month_day L (year + int j) month day (invalid_monthday oc) = Some (Some d) \<and>
      resolve L oc d at = Some r \<and> \<not> fires_after r after)"
  using assms
proof (induction n arbitrary: year)
  case (Suc n)
  from Suc.prems obtain d r
    where d: "clamp_month_day L year month day (invalid_monthday oc) = Some (Some d)"
    and r: "resolve L oc d at = Some r"
    by (auto simp: bind_Some split: option.splits)
  show ?case
  proof (cases "fires_after r after")
    case True
    then show ?thesis using Suc.prems d r by (intro exI [of _ 0]) (auto simp: fires_after_iff)
  next
    case False
    with Suc.prems d r have "yearly_scan L oc month day at after n (year + 1) = Some (Some t)" by simp
    from Suc.IH [OF this] obtain i where i: "i < n" "after < t"
      "\<exists>d. clamp_month_day L (year + 1 + int i) month day (invalid_monthday oc) = Some (Some d) \<and>
        resolve L oc d at = Some (Some t)"
      "\<And>j. j < i \<Longrightarrow> \<exists>d r. clamp_month_day L (year + 1 + int j) month day (invalid_monthday oc)
        = Some (Some d) \<and> resolve L oc d at = Some r \<and> \<not> fires_after r after"
      by blast
    have "\<exists>d r. clamp_month_day L (year + int j) month day (invalid_monthday oc) = Some (Some d) \<and>
        resolve L oc d at = Some r \<and> \<not> fires_after r after" if "j < Suc i" for j
      using d r False that i(4) [of "j - 1"] by (cases j) (simp_all add: add.assoc)
    then show ?thesis using i(1-3) by (intro exI [of _ "Suc i"]) (simp add: add.assoc)
  qed
qed simp

text \<open>A clamped day is in the month it was asked for.\<close>

lemma clamp_month_day_in:
  assumes "calendar_ok L" "clamp_month_day L y m day p = Some (Some d)"
  shows "date_year L d = y" "date_month L d = m" "1 \<le> m" "m \<le> 12"
    "\<exists>last. days_in_month L y m = Some last \<and> date_day L d = min day last"
proof -
  obtain last where last: "days_in_month L y m = Some last"
    "from_ymd_opt L y m (min day last) = Some d"
    using assms(2) by (cases p) (auto simp: clamp_month_day_def bind_Some)
  with assms(1) show "date_year L d = y" "date_month L d = m" "1 \<le> m" "m \<le> 12"
    "\<exists>last. days_in_month L y m = Some last \<and> date_day L d = min day last"
    unfolding calendar_ok_def by auto
qed

definition month_index :: "lib \<Rightarrow> day \<Rightarrow> int" where
  "month_index L d = 12 * date_year L d + (int (date_month L d) - 1)"

lemma month_index_mono: "calendar_ok L \<Longrightarrow> x \<le> y \<Longrightarrow> month_index L x \<le> month_index L y"
  unfolding calendar_ok_def month_index_def by (simp add: algebra_simps)

lemma month_index_at:
  assumes "calendar_ok L"
  shows "year_at (month_index L d) = date_year L d" "month_at (month_index L d) = date_month L d"
  using assms year_month_at [of "date_month L d" "date_year L d"]
  unfolding calendar_ok_def month_index_def by auto

lemma month_index_monthly_date:
  assumes "calendar_ok L" "monthly_date L oc day x = Some (Some d)"
  shows "month_index L d = x"
proof -
  have "date_year L d = year_at x" "date_month L d = month_at x"
    using clamp_month_day_in [OF assms(1)] assms(2) unfolding monthly_date_def by metis+
  then show ?thesis by (simp add: month_index_def year_at_def month_at_def)
qed

definition monthly_fire :: "lib \<Rightarrow> occurrence \<Rightarrow> nat \<Rightarrow> tod \<Rightarrow> instant \<Rightarrow> bool" where
  "monthly_fire L oc day at t \<longleftrightarrow>
     (\<exists>x d. monthly_date L oc day x = Some (Some d) \<and> resolve L oc d at = Some (Some t))"

lemma least_monthly:
  assumes z: "timezone L oc = Some z" "valid_tod at" and c: "calendar_ok L"
  shows "least_source (next_monthly L oc day at) (monthly_fire L oc day at) (civil_days L z)"
proof
  fix a t assume t: "next_monthly L oc day at a = Some (Some t)"
  define x0 where "x0 = month_index L (local_date z a)"
  have "monthly_scan L oc day at a 600 (year_at x0) (month_at x0) = Some (Some t)"
    using t z(1) unfolding x0_def month_index_at [OF c] by (simp add: next_monthly_def Let_def)
  from monthly_scan_first [OF this] obtain i d where i: "a < t"
    "monthly_date L oc day (x0 + int i) = Some (Some d)" "resolve L oc d at = Some (Some t)"
    "\<And>j. j < i \<Longrightarrow> \<exists>d r. monthly_date L oc day (x0 + int j) = Some (Some d) \<and>
       resolve L oc d at = Some r \<and> \<not> fires_after r a"
    by blast
  show "a < t" by fact
  show "monthly_fire L oc day at t" using i by (auto simp: monthly_fire_def)
  fix u assume "monthly_fire L oc day at u" and au: "a < u" and cd: "civil_days L z a u"
  then obtain x e where e: "monthly_date L oc day x = Some (Some e)"
    "resolve L oc e at = Some (Some u)" by (auto simp: monthly_fire_def)
  have x: "month_index L e = x" "month_index L d = x0 + int i"
    using month_index_monthly_date [OF c] e(1) i(2) by auto
  have "x0 \<le> x"
    using month_index_mono [OF c resolved_from [OF cd z e(2) au]] x(1) x0_def by simp
  define j where "j = nat (x - x0)"
  have xj: "x = x0 + int j" using \<open>x0 \<le> x\<close> by (simp add: j_def)
  consider "j < i" | "j = i" | "i < j" by linarith
  then show "t \<le> u"
  proof cases
    case 1
    from i(4) [OF 1] show ?thesis using e au xj by (auto simp: fires_after_iff)
  next
    case 2
    then show ?thesis using e i xj by simp
  next
    case 3
    then have "d < e" using month_index_mono [OF c, of e d] x xj by force
    then show ?thesis by (rule resolved_order [OF cd z i(3) e(2) au])
  qed
qed

text \<open>\<open>days_in_month\<close> is the last day the month has.\<close>

lemma calendar_next:
  assumes "calendar_ok L"
  shows "date_day L (x + 1) = date_day L x + 1 \<and>
      date_year L (x + 1) = date_year L x \<and> date_month L (x + 1) = date_month L x \<or>
    date_day L (x + 1) = 1 \<and>
      12 * date_year L (x + 1) + int (date_month L (x + 1)) =
        12 * date_year L x + int (date_month L x) + 1"
  using assms unfolding calendar_ok_def by blast

lemma same_month_days:
  assumes c: "calendar_ok L"
  shows "month_index L x = month_index L (x + int n) \<Longrightarrow> date_day L (x + int n) = date_day L x + n"
proof (induction n)
  case (Suc n)
  have mono: "month_index L x \<le> month_index L (x + int n)"
    "month_index L (x + int n) \<le> month_index L (x + int n + 1)"
    by (intro month_index_mono [OF c]; simp)+
  have e: "x + int (Suc n) = x + int n + 1" by simp
  have eq: "month_index L x = month_index L (x + int n)"
    "month_index L (x + int n + 1) = month_index L (x + int n)"
    using Suc.prems mono unfolding e by linarith+
  have "date_day L (x + int n + 1) = date_day L (x + int n) + 1"
    using calendar_next [OF c, of "x + int n"] eq(2) unfolding month_index_def by auto
  then show ?case using Suc.IH [OF eq(1)] unfolding e by simp
qed simp

lemma days_in_month_last:
  assumes c: "calendar_ok L" and len: "days_in_month L y m = Some len"
    and x: "from_ymd_opt L y m d = Some x"
  shows "d \<le> len"
proof -
  have xf: "date_year L x = y" "date_month L x = m" "date_day L x = d" "1 \<le> m" "m \<le> 12"
    using c x unfolding calendar_ok_def by blast+
  obtain y' m' first where f: "from_ymd_opt L y' m' 1 = Some first" "pred_opt L first = Some (first - 1)"
    "len = date_day L (first - 1)" "(y', m') = (if m = 12 then (y + 1, 1) else (y, m + 1))"
    using len by (auto simp: days_in_month_def pred_opt_def bind_Some split: if_splits)
  have ff: "date_year L first = y'" "date_month L first = m'" "date_day L first = 1" "first \<le> date_max L"
    using c f(1) unfolding calendar_ok_def by blast+
  have "date_min L \<le> first - 1" "first - 1 \<le> date_max L"
    using f(2) ff(4) by (auto simp: pred_opt_def split: if_splits)
  then have "1 \<le> date_day L (first - 1)" using c unfolding calendar_ok_def by blast
  then have "12 * date_year L first + int (date_month L first) =
      12 * date_year L (first - 1) + int (date_month L (first - 1)) + 1"
    using calendar_next [OF c, of "first - 1"] ff(3) by simp
  then have idx: "month_index L (first - 1) = month_index L x" "month_index L x < month_index L first"
    using ff xf f(4) unfolding month_index_def by (auto split: if_splits)
  have "x < first" using month_index_mono [OF c, of first x] idx(2) by force
  then have "x + int (nat (first - 1 - x)) = first - 1" by simp
  then show ?thesis
    using same_month_days [OF c, of x "nat (first - 1 - x)"] idx(1) xf(3) f(3) by simp
qed

definition yearly_fire :: "lib \<Rightarrow> occurrence \<Rightarrow> nat \<Rightarrow> nat \<Rightarrow> tod \<Rightarrow> instant \<Rightarrow> bool" where
  "yearly_fire L oc month day at t \<longleftrightarrow>
     (\<exists>y d. clamp_month_day L y month day (invalid_monthday oc) = Some (Some d) \<and>
        resolve L oc d at = Some (Some t))"

lemma least_yearly:
  assumes z: "timezone L oc = Some z" "valid_tod at" and c: "calendar_ok L"
  shows "least_source (next_yearly L oc month day at) (yearly_fire L oc month day at) (civil_days L z)"
proof
  let ?clamp = "\<lambda>y. clamp_month_day L y month day (invalid_monthday oc)"
  fix a t assume t: "next_yearly L oc month day at a = Some (Some t)"
  define y0 where "y0 = date_year L (local_date z a)"
  have "yearly_scan L oc month day at a 200 y0 = Some (Some t)"
    using t z(1) by (simp add: next_yearly_def y0_def)
  from yearly_scan_first [OF this] obtain i d where i: "a < t"
    "?clamp (y0 + int i) = Some (Some d)" "resolve L oc d at = Some (Some t)"
    "\<And>j. j < i \<Longrightarrow> \<exists>d r. ?clamp (y0 + int j) = Some (Some d) \<and>
       resolve L oc d at = Some r \<and> \<not> fires_after r a"
    by blast
  show "a < t" by fact
  show "yearly_fire L oc month day at t" using i by (auto simp: yearly_fire_def)
  fix u assume "yearly_fire L oc month day at u" and au: "a < u" and cd: "civil_days L z a u"
  then obtain y e where e: "?clamp y = Some (Some e)" "resolve L oc e at = Some (Some u)"
    by (auto simp: yearly_fire_def)
  have year: "v \<le> w \<Longrightarrow> date_year L v \<le> date_year L w" for v w
  proof -
    assume "v \<le> w"
    then have "year_at (month_index L v) \<le> year_at (month_index L w)"
      using month_index_mono [OF c] by (simp add: year_at_def zdiv_mono1)
    then show ?thesis by (simp add: month_index_at [OF c])
  qed
  have y: "date_year L e = y" "date_year L d = y0 + int i"
    using clamp_month_day_in(1) [OF c] e(1) i(2) by auto
  have "y0 \<le> y" using year [OF resolved_from [OF cd z e(2) au]] y(1) y0_def by simp
  define j where "j = nat (y - y0)"
  have yj: "y = y0 + int j" using \<open>y0 \<le> y\<close> by (simp add: j_def)
  consider "j < i" | "j = i" | "i < j" by linarith
  then show "t \<le> u"
  proof cases
    case 1
    from i(4) [OF 1] show ?thesis using e au yj by (auto simp: fires_after_iff)
  next
    case 2
    then show ?thesis using e i yj by simp
  next
    case 3
    then have "d < e" using year [of e d] y yj by force
    then show ?thesis by (rule resolved_order [OF cd z i(3) e(2) au])
  qed
qed

section \<open>Well-formed schedules\<close>

text \<open>What \<open>Occurrence::new\<close> checks, and the widths of the two counters.\<close>

definition occurrence_wf :: "lib \<Rightarrow> occurrence \<Rightarrow> bool" where
  "occurrence_wf L oc \<longleftrightarrow> validate (kind oc) = Inr () \<and> tz_from_str L (tz oc) \<noteq> None \<and>
     runs_done oc \<le> u64_max \<and> pending_skips oc \<le> u32_max"

lemma occurrence_new_wf: "occurrence_new L k tzn = Inr oc \<Longrightarrow> occurrence_wf L oc"
  by (auto simp: occurrence_new_def occurrence_wf_def split: sum.splits option.splits)

lemma updates_wf:
  assumes "occurrence_wf L oc"
  shows "occurrence_wf L (exclude_date oc d)" "occurrence_wf L (clear_exclusion oc d)"
    "occurrence_wf L (skip_next oc)" "occurrence_wf L (record_run oc)"
  using assms sat_succ_le [of u64_max] sat_succ_le [of u32_max]
  by (simp_all add: occurrence_wf_def exclude_date_def clear_exclusion_def skip_next_def record_run_def)

section \<open>All kinds\<close>

text \<open>Put together: the fires of a schedule, and its search as a source of them.\<close>

definition schedule_fire :: "lib \<Rightarrow> (instant \<Rightarrow> bool) \<Rightarrow> occurrence \<Rightarrow> instant \<Rightarrow> bool" where
  "schedule_fire L cron_match oc t = (case kind oc of
     Once at \<Rightarrow> once_fire L oc at t
   | Interval every anchor \<Rightarrow> interval_fire every anchor t
   | Daily at \<Rightarrow> daily_fire L oc at t
   | Weekly days at \<Rightarrow> weekly_fire L oc days at t
   | Monthly day at \<Rightarrow> monthly_fire L oc day at t
   | Yearly month day at \<Rightarrow> yearly_fire L oc month day at t
   | Cron expr \<Rightarrow> cron_match t)"

definition kind_tod_ok :: "occurrence_kind \<Rightarrow> bool" where
  "kind_tod_ok k = (case k of
     Daily at \<Rightarrow> valid_tod at | Weekly _ at \<Rightarrow> valid_tod at | Monthly _ at \<Rightarrow> valid_tod at
   | Yearly _ _ at \<Rightarrow> valid_tod at | _ \<Rightarrow> True)"

text \<open>
  What the searches rest on: the zone is known, the calendar is a calendar, a time of day is one,
  and for a cron schedule \<open>croner\<close> answers the next match.
\<close>

definition searchable :: "lib \<Rightarrow> (instant \<Rightarrow> bool) \<Rightarrow> zone \<Rightarrow> occurrence \<Rightarrow> bool" where
  "searchable L cron_match z oc \<longleftrightarrow>
     timezone L oc = Some z \<and> calendar_ok L \<and> kind_tod_ok (kind oc) \<and>
     (\<forall>expr a t. kind oc = Cron expr \<longrightarrow> cron_next L expr z a = Some t \<longrightarrow>
        a < t \<and> cron_match t \<and> (\<forall>u. cron_match u \<longrightarrow> a < u \<longrightarrow> t \<le> u))"

text \<open>
  Only a schedule that goes by civil days depends on their order: a daily, weekly, monthly or yearly
  one, and any with excluded dates.
\<close>

definition goes_by_days :: "occurrence \<Rightarrow> bool" where
  "goes_by_days oc \<longleftrightarrow> exclusions oc \<noteq> {} \<or>
     (case kind oc of Daily _ \<Rightarrow> True | Weekly _ _ \<Rightarrow> True | Monthly _ _ \<Rightarrow> True
      | Yearly _ _ _ \<Rightarrow> True | _ \<Rightarrow> False)"

definition days_in_order :: "lib \<Rightarrow> occurrence \<Rightarrow> zone \<Rightarrow> instant \<Rightarrow> instant \<Rightarrow> bool" where
  "days_in_order L oc z lo hi \<longleftrightarrow> (goes_by_days oc \<longrightarrow> civil_days L z lo hi)"

lemma days_in_order_part:
  "days_in_order L oc z lo hi \<Longrightarrow> lo \<le> lo' \<Longrightarrow> hi' \<le> hi \<Longrightarrow> days_in_order L oc z lo' hi'"
  unfolding days_in_order_def using civil_days_part by blast

text \<open>The same search under a stronger condition.\<close>

lemma least_source_weaken:
  assumes "least_source search fires ordered" "search' = search" "fires' = fires"
    and "\<And>a u. ordered' a u \<Longrightarrow> ordered a u"
  shows "least_source search' fires' ordered'"
  using assms unfolding least_source_def by blast

lemma least_raw:
  assumes s: "searchable L cm z oc"
  shows "least_source (raw_next_after L oc) (schedule_fire L cm oc) (days_in_order L oc z)"
proof (cases "kind oc")
  case (Once at)
  then show ?thesis
    by (intro least_source_weaken [OF once.least_source_axioms])
      (simp_all add: raw_next_after_def [abs_def] schedule_fire_def [abs_def])
next
  case (Interval every anchor)
  then show ?thesis
    by (intro least_source_weaken [OF interval.least_source_axioms])
      (simp_all add: raw_next_after_def [abs_def] schedule_fire_def [abs_def])
next
  case (Daily at)
  then show ?thesis using s by (intro least_source_weaken [OF least_daily])
      (auto simp: raw_next_after_def [abs_def] schedule_fire_def [abs_def] searchable_def
        kind_tod_ok_def days_in_order_def goes_by_days_def)
next
  case (Weekly days at)
  then show ?thesis using s by (intro least_source_weaken [OF least_weekly])
      (auto simp: raw_next_after_def [abs_def] schedule_fire_def [abs_def] searchable_def
        kind_tod_ok_def days_in_order_def goes_by_days_def)
next
  case (Monthly day at)
  then show ?thesis using s by (intro least_source_weaken [OF least_monthly])
      (auto simp: raw_next_after_def [abs_def] schedule_fire_def [abs_def] searchable_def
        kind_tod_ok_def days_in_order_def goes_by_days_def)
next
  case (Yearly month day at)
  then show ?thesis using s by (intro least_source_weaken [OF least_yearly])
      (auto simp: raw_next_after_def [abs_def] schedule_fire_def [abs_def] searchable_def
        kind_tod_ok_def days_in_order_def goes_by_days_def)
next
  case (Cron e)
  then show ?thesis using s
    by unfold_locales
      (auto simp: raw_next_after_def [abs_def] schedule_fire_def [abs_def] searchable_def next_cron_def
        split: if_splits)
qed

end
