(* ===== verification/Occurrence_Next_Fire.thy ===== *)
theory Occurrence_Next_Fire
  imports Occurrence_Laws
begin

text \<open>
  The contract of \<open>next_fire\<close>: which of a schedule's fires it returns, what it consumes, and
  how \<open>preview\<close> and \<open>PreviewIter\<close> follow from it. The fires of a schedule are
  \<open>schedule_fire\<close>; the ones it lets through are the eligible ones below.
\<close>

definition in_window :: "occurrence \<Rightarrow> instant \<Rightarrow> bool" where
  "in_window oc t \<longleftrightarrow>
     (case valid_from oc of None \<Rightarrow> True | Some f \<Rightarrow> f \<le> t) \<and>
     (case valid_until oc of None \<Rightarrow> True | Some u \<Rightarrow> t < u)"

definition eligible :: "occurrence \<Rightarrow> zone \<Rightarrow> instant \<Rightarrow> bool" where
  "eligible oc z t \<longleftrightarrow> in_window oc t \<and> local_date z t \<notin> exclusions oc"

section \<open>The candidate loop\<close>

text \<open>One turn of the loop, by the branch it takes.\<close>

lemma candidates_step:
  assumes "candidates L oc z (Suc n) c sk = Some (sk', r)"
  obtains (stop) "raw_next_after L oc c = Some None" "sk' = sk" "r = None"
  | (late) t where "raw_next_after L oc c = Some (Some t)" "\<not> in_window oc t" "sk' = sk" "r = None"
  | (early) t where "raw_next_after L oc c = Some (Some t)" "\<not> in_window oc t"
      "candidates L oc z n t sk = Some (sk', r)"
  | (excluded) t d where "raw_next_after L oc c = Some (Some t)" "local_date z t \<in> exclusions oc"
      "d = t \<or> jump_past_exclusion_day L oc t = Some (Some d)"
      "candidates L oc z n d sk = Some (sk', r)"
  | (skip) t where "raw_next_after L oc c = Some (Some t)" "eligible oc z t"
      "sk < pending_skips oc" "candidates L oc z n t (Suc sk) = Some (sk', r)"
  | (fire) t where "raw_next_after L oc c = Some (Some t)" "eligible oc z t"
      "pending_skips oc \<le> sk" "sk' = sk" "r = Some t"
proof -
  from assms obtain raw where raw: "raw_next_after L oc c = Some raw" by (auto simp: bind_Some)
  show thesis
  proof (cases raw)
    case None
    then show thesis using assms raw stop by simp
  next
    case (Some t)
    let ?u = "case valid_until oc of None \<Rightarrow> False | Some until \<Rightarrow> until \<le> t"
    let ?f = "case valid_from oc of None \<Rightarrow> False | Some f \<Rightarrow> t < f"
    have w: "in_window oc t \<longleftrightarrow> \<not> ?u \<and> \<not> ?f" by (auto simp: in_window_def split: option.splits)
    consider "?u" | "\<not> ?u" "?f" | "\<not> ?u" "\<not> ?f" "local_date z t \<in> exclusions oc"
      | "\<not> ?u" "\<not> ?f" "local_date z t \<notin> exclusions oc" by blast
    then show thesis
    proof cases
      case 1
      then show thesis using late [of t] assms raw Some w by simp
    next
      case 2
      then show thesis using early [of t] assms raw Some w by simp
    next
      case 3
      then obtain j where "jump_past_exclusion_day L oc t = Some j"
        "candidates L oc z n (case j of None \<Rightarrow> t | Some c \<Rightarrow> c) sk = Some (sk', r)"
        using assms raw Some by (auto simp: bind_Some)
      then show thesis using excluded [of t "case j of None \<Rightarrow> t | Some c \<Rightarrow> c"] raw Some 3
        by (cases j) auto
    next
      case 4
      then show thesis using skip [of t] fire [of t] assms raw Some w
        by (cases "sk < pending_skips oc") (auto simp: eligible_def)
    qed
  qed
qed

lemma candidates_Some:
  "candidates L oc z n c sk = Some (sk', Some t) \<Longrightarrow> eligible oc z t \<and> pending_skips oc \<le> sk'"
proof (induction n arbitrary: c sk)
  case (Suc n)
  from Suc.prems show ?case by (cases rule: candidates_step) (auto dest: Suc.IH)
qed simp

lemma candidates_skipped:
  "candidates L oc z n c sk = Some (sk', r) \<Longrightarrow> sk \<le> pending_skips oc \<Longrightarrow>
    sk \<le> sk' \<and> sk' \<le> pending_skips oc"
proof (induction n arbitrary: c sk)
  case (Suc n)
  from Suc.prems(1) show ?case
    by (cases rule: candidates_step) (use Suc.prems(2) in \<open>auto dest!: Suc.IH\<close>)
qed simp

text \<open>The cursor jumps to the instant before the midnight that ends the excluded local day.\<close>

lemma jump_cases:
  assumes "timezone L oc = Some z" "jump_past_exclusion_day L oc t = Some (Some c)"
  shows "resolve_local L z (local_date z t + 1) 0 (dst_gap oc) (dst_fold oc) = Some (Some (c + 1))"
  using assms
  by (cases "dst_fold oc") (auto simp: jump_past_exclusion_day_def bind_Some succ_opt_def instant_add_Some
      resolve_local_def resolve_naive_def
      split: if_splits local_result.splits option.splits dst_fold_policy.splits)

lemma jump_forward:
  assumes z: "civil_days L z t t" "timezone L oc = Some z"
    and j: "jump_past_exclusion_day L oc t = Some (Some c)"
  shows "t \<le> c"
  using civil_days_later [OF z(1) _ _ valid_midnight jump_cases [OF z(2) j]] by simp

text \<open>Between the excluded fire and the cursor it is left for, every instant is on its date.\<close>

lemma jump_same_date:
  assumes z: "civil_days L z t u" "timezone L oc = Some z"
    and j: "jump_past_exclusion_day L oc t = Some (Some c)" and u: "t \<le> u" "u \<le> c"
  shows "local_date z u = local_date z t"
  using civil_days_midnight [OF z(1) u(1) order_refl jump_cases [OF z(2) j]] u(2)
    civil_days_mono [OF z(1) order_refl u(1) order_refl] by simp

text \<open>
  Whether such a jump goes forward is a matter of the zone: past a day that comes back after its
  end (a fall-back over midnight) it does not.
\<close>

definition jumps_forward :: "lib \<Rightarrow> occurrence \<Rightarrow> zone \<Rightarrow> instant \<Rightarrow> bool" where
  "jumps_forward L oc z after \<longleftrightarrow>
     (\<forall>t c. after < t \<longrightarrow> local_date z t \<in> exclusions oc \<longrightarrow>
        jump_past_exclusion_day L oc t = Some (Some c) \<longrightarrow> t \<le> c)"

lemma jumps_forward_later: "jumps_forward L oc z a \<Longrightarrow> a \<le> b \<Longrightarrow> jumps_forward L oc z b"
  by (simp add: jumps_forward_def)

lemma jumps_forward_no_exclusions: "exclusions oc = {} \<Longrightarrow> jumps_forward L oc z a"
  by (simp add: jumps_forward_def)

lemma jumps_forward_civil:
  "(\<And>t. civil_days L z t t) \<Longrightarrow> timezone L oc = Some z \<Longrightarrow> jumps_forward L oc z a"
  using jump_forward unfolding jumps_forward_def by blast

lemma not_in_window_of_candidate:
  "(case valid_from oc of None \<Rightarrow> False | Some f \<Rightarrow> t < f) \<Longrightarrow> \<not> in_window oc t"
  by (auto simp: in_window_def split: option.splits)

text \<open>The eligible fires between two instants.\<close>

definition between :: "(instant \<Rightarrow> bool) \<Rightarrow> instant \<Rightarrow> instant \<Rightarrow> instant set" where
  "between P a b = {u. P u \<and> a < u \<and> u < b}"

lemma between_skip:
  assumes "c \<le> d" "\<And>u. P u \<Longrightarrow> c < u \<Longrightarrow> u < t \<Longrightarrow> d < u"
  shows "between P c t = between P d t"
  using assms by (auto simp: between_def)

lemma between_insert:
  assumes "P d" "c < d" "d < t" "\<And>u. P u \<Longrightarrow> c < u \<Longrightarrow> u < t \<Longrightarrow> d \<le> u"
  shows "between P c t = insert d (between P d t)"
  using assms by (force simp: between_def)

text \<open>In every zone, what the loop returns is a fire; it is after the cursor when no jump goes back.\<close>

lemma candidates_fires:
  assumes s: "least_source (raw_next_after L oc) fires ordered"
  shows "candidates L oc z n c sk = Some (sk', Some t) \<Longrightarrow> fires t"
proof (induction n arbitrary: c sk)
  case (Suc n)
  from Suc.prems show ?case
    by (cases rule: candidates_step) (auto dest: Suc.IH least_source.search_fires [OF s])
qed simp

lemma candidates_after:
  assumes s: "least_source (raw_next_after L oc) fires ordered"
    and j: "jumps_forward L oc z a"
  shows "candidates L oc z n c sk = Some (sk', Some t) \<Longrightarrow> a \<le> c \<Longrightarrow> c < t"
proof (induction n arbitrary: c sk)
  case (Suc n)
  note after = least_source.search_after [OF s]
  from Suc.prems(1) show ?case
  proof (cases rule: candidates_step)
    case (early d)
    then show ?thesis using after [of c d] Suc.IH [of d] Suc.prems(2) by force
  next
    case (excluded d e)
    then have "c < d" "d \<le> e" using after [of c d] j Suc.prems(2) by (auto simp: jumps_forward_def)
    then show ?thesis using Suc.IH [of e] excluded(4) Suc.prems(2) by force
  next
    case (skip d)
    then show ?thesis using after [of c d] Suc.IH [of d] Suc.prems(2) by force
  qed (use after in simp_all)
qed simp

lemma candidates_count:
  assumes s: "least_source (raw_next_after L oc) fires (days_in_order L oc z)"
    and z: "timezone L oc = Some z" and j: "jumps_forward L oc z a" and o: "days_in_order L oc z a t"
  shows "candidates L oc z n c sk = Some (sk', Some t) \<Longrightarrow> sk \<le> pending_skips oc \<Longrightarrow> a \<le> c \<Longrightarrow>
    finite (between (\<lambda>u. fires u \<and> eligible oc z u) c t) \<and>
    card (between (\<lambda>u. fires u \<and> eligible oc z u) c t) = pending_skips oc - sk"
proof (induction n arbitrary: c sk)
  case (Suc n)
  let ?P = "\<lambda>u. fires u \<and> eligible oc z u"
  note after = least_source.search_after [OF s] and fires = least_source.search_fires [OF s]
  have ct: "c < t" and t: "?P t"
    using candidates_after [OF s j Suc.prems(1,3)] candidates_fires [OF s Suc.prems(1)]
      candidates_Some [OF Suc.prems(1)] by auto
  have least: "d \<le> u" if "raw_next_after L oc c = Some (Some d)" "?P u" "c < u" "u \<le> t" for d u
    using least_source.search_least [OF s that(1), of u] that(2-4)
      days_in_order_part [OF o Suc.prems(3) that(4)] by simp
  text \<open>A candidate that is not eligible moves the cursor past no eligible fire.\<close>
  have move: ?case if raw: "raw_next_after L oc c = Some (Some d)" and "d \<le> e"
    and no: "\<And>u. ?P u \<Longrightarrow> d \<le> u \<Longrightarrow> u \<le> t \<Longrightarrow> e < u" and rest: "candidates L oc z n e sk = Some (sk', Some t)"
    for d e
  proof -
    have ce: "c < e" using after [OF raw] \<open>d \<le> e\<close> by simp
    have "between ?P c t = between ?P e t"
      by (rule between_skip) (use ce no least [OF raw] in auto)
    with Suc.IH [OF rest Suc.prems(2)] ce Suc.prems(3) show ?thesis by simp
  qed
  from Suc.prems(1) show ?case
  proof (cases rule: candidates_step)
    case (early d)
    then show ?thesis by (intro move [of d d]) (auto simp: eligible_def order_le_less)
  next
    case (excluded d e)
    have d: "c < d" "d \<le> t" using after least [of d t] excluded(1) ct t by auto
    show ?thesis
    proof (rule move [OF excluded(1)])
      show "d \<le> e" using excluded(2,3) j d(1) Suc.prems(3) by (auto simp: jumps_forward_def)
      show "e < u" if "?P u" "d \<le> u" "u \<le> t" for u
      proof (rule ccontr)
        assume "\<not> e < u"
        have ne: "local_date z u \<noteq> local_date z d" using that(1) excluded(2) by (auto simp: eligible_def)
        then have "d \<noteq> u" by auto
        then have jump: "jump_past_exclusion_day L oc d = Some (Some e)"
          using excluded(3) that(2) \<open>\<not> e < u\<close> by auto
        have "exclusions oc \<noteq> {}" using excluded(2) by auto
        then have "civil_days L z a t" using o by (simp add: days_in_order_def goes_by_days_def)
        then have "civil_days L z d u"
          using d Suc.prems(3) that(3) by (auto intro: civil_days_part)
        with jump_same_date [OF this z jump that(2)] \<open>\<not> e < u\<close> ne show False by simp
      qed
    qed (rule excluded(4))
  next
    case (skip d)
    have d: "c < d" using after skip(1) by simp
    then have dt: "d < t" using candidates_after [OF s j skip(4)] Suc.prems(3) by simp
    have IH: "finite (between ?P d t)" "card (between ?P d t) = pending_skips oc - Suc sk"
      using Suc.IH [OF skip(4)] skip(3) d Suc.prems(3) by auto
    have "between ?P c t = insert d (between ?P d t)"
      by (rule between_insert) (use skip fires d dt least in auto)
    moreover have "d \<notin> between ?P d t" by (simp add: between_def)
    ultimately show ?thesis using IH skip(3) by simp
  next
    case (fire d)
    then have "between ?P c t = {}" using least [OF fire(1)] by (force simp: between_def)
    then show ?thesis using fire by simp
  qed simp_all
qed simp

section \<open>\<open>next_fire\<close>\<close>

abbreviation offered :: "lib \<Rightarrow> (instant \<Rightarrow> bool) \<Rightarrow> zone \<Rightarrow> occurrence \<Rightarrow> instant \<Rightarrow> bool" where
  "offered L cm z oc u \<equiv> schedule_fire L cm oc u \<and> eligible oc z u"

lemma search_floor_law:
  assumes "search_floor L oc after = Some c"
  shows "after \<le> c" "in_window oc u \<Longrightarrow> after < u \<Longrightarrow> c < u"
  using assms by (auto simp: search_floor_def instant_add_Some in_window_def split: option.splits if_splits)

lemma next_fire_cases:
  assumes "next_fire L oc after = Some (oc', r)"
  obtains (exhausted) "runs_exhausted oc" "oc' = oc" "r = None"
  | (searched) z c sk where "\<not> runs_exhausted oc" "timezone L oc = Some z"
      "search_floor L oc after = Some c" "candidates L oc z MAX_CANDIDATES c 0 = Some (sk, r)"
      "oc' = oc\<lparr>pending_skips := pending_skips oc - sk\<rparr>"
  using assms by (auto simp: next_fire_def bind_Some split: if_splits)

lemma next_fire_offered:
  assumes s: "searchable L cm z oc" and nf: "next_fire L oc after = Some (oc', Some t)"
  shows "offered L cm z oc t" "oc' = oc\<lparr>pending_skips := 0\<rparr>" "\<not> runs_exhausted oc"
    "jumps_forward L oc z after \<Longrightarrow> after < t"
    "jumps_forward L oc z after \<Longrightarrow> days_in_order L oc z after t \<Longrightarrow>
       finite (between (offered L cm z oc) after t) \<and>
       card (between (offered L cm z oc) after t) = pending_skips oc"
proof -
  have z: "timezone L oc = Some z" using s by (simp add: searchable_def)
  obtain c sk where nf': "\<not> runs_exhausted oc" "search_floor L oc after = Some c"
    "candidates L oc z MAX_CANDIDATES c 0 = Some (sk, Some t)"
    "oc' = oc\<lparr>pending_skips := pending_skips oc - sk\<rparr>"
    using nf z by (cases rule: next_fire_cases) auto
  have el: "eligible oc z t" "pending_skips oc \<le> sk" using candidates_Some [OF nf'(3)] by auto
  show "offered L cm z oc t" using el candidates_fires [OF least_raw [OF s] nf'(3)] by simp
  show "oc' = oc\<lparr>pending_skips := 0\<rparr>" "\<not> runs_exhausted oc" using nf' el by auto
  have floor: "after \<le> c" by (rule search_floor_law(1) [OF nf'(2)])
  show "after < t" if "jumps_forward L oc z after"
    using candidates_after [OF least_raw [OF s] that nf'(3) floor] floor by simp
  have eq: "between (offered L cm z oc) after t = between (offered L cm z oc) c t"
    by (rule between_skip)
      (use search_floor_law [OF nf'(2)] in \<open>auto simp: eligible_def\<close>)
  show "finite (between (offered L cm z oc) after t) \<and>
      card (between (offered L cm z oc) after t) = pending_skips oc"
    if "jumps_forward L oc z after" "days_in_order L oc z after t"
    using candidates_count [OF least_raw [OF s] z that nf'(3) _ floor] eq by simp
qed

lemma next_fire_frame:
  assumes "next_fire L oc after = Some (oc', r)"
  shows "\<exists>p \<le> pending_skips oc. oc' = oc\<lparr>pending_skips := p\<rparr>"
  using assms
proof (cases rule: next_fire_cases)
  case exhausted
  then show ?thesis by (intro exI [of _ "pending_skips oc"]) simp
next
  case (searched z c sk)
  then show ?thesis by (intro exI [of _ "pending_skips oc - sk"]) simp
qed

section \<open>\<open>preview\<close>\<close>

text \<open>The counters do not take part in the search.\<close>

lemma days_in_order_counters [simp]:
  "days_in_order L (oc\<lparr>pending_skips := p\<rparr>) = days_in_order L oc"
  "days_in_order L (oc\<lparr>runs_done := r\<rparr>) = days_in_order L oc"
  by (simp_all add: fun_eq_iff days_in_order_def goes_by_days_def)

lemma jump_counters [simp]:
  "jump_past_exclusion_day L (oc\<lparr>pending_skips := p\<rparr>) = jump_past_exclusion_day L oc"
  "jump_past_exclusion_day L (oc\<lparr>runs_done := r\<rparr>) = jump_past_exclusion_day L oc"
  by (simp_all add: fun_eq_iff jump_past_exclusion_day_def timezone_def cong: local_result.case_cong option.case_cong)

lemma jumps_forward_counters [simp]:
  "jumps_forward L (oc\<lparr>pending_skips := p\<rparr>) = jumps_forward L oc"
  "jumps_forward L (oc\<lparr>runs_done := r\<rparr>) = jumps_forward L oc"
  by (simp_all add: fun_eq_iff jumps_forward_def)

lemma resolve_counters [simp]:
  "resolve L (oc\<lparr>pending_skips := p\<rparr>) = resolve L oc"
  "resolve L (oc\<lparr>runs_done := r\<rparr>) = resolve L oc"
  by (simp_all add: resolve_def [abs_def] timezone_def)

lemma schedule_fire_counters [simp]:
  "schedule_fire L cm (oc\<lparr>pending_skips := p\<rparr>) = schedule_fire L cm oc"
  "schedule_fire L cm (oc\<lparr>runs_done := r\<rparr>) = schedule_fire L cm oc"
  by (auto simp: fun_eq_iff schedule_fire_def once_fire_def daily_fire_def weekly_fire_def
      monthly_fire_def monthly_date_def yearly_fire_def split: occurrence_kind.splits)

lemma eligible_counters [simp]:
  "eligible (oc\<lparr>pending_skips := p\<rparr>) = eligible oc"
  "eligible (oc\<lparr>runs_done := r\<rparr>) = eligible oc"
  by (simp_all add: fun_eq_iff eligible_def in_window_def)

lemma searchable_counters [simp]:
  "searchable L cm z (oc\<lparr>pending_skips := p\<rparr>) = searchable L cm z oc"
  "searchable L cm z (oc\<lparr>runs_done := r\<rparr>) = searchable L cm z oc"
  by (simp_all add: searchable_def timezone_def)

lemma between_split:
  assumes "P m" "a < m" "m < b" shows "between P a b = insert m (between P a m \<union> between P m b)"
  using assms by (auto simp: between_def)

lemma preview_offered:
  assumes "searchable L cm z oc" "preview L oc a n = Some ts" "k < length ts"
    "jumps_forward L oc z a" "days_in_order L oc z a (ts ! k)"
  shows "a < ts ! k \<and> offered L cm z oc (ts ! k) \<and> finite (between (offered L cm z oc) a (ts ! k)) \<and>
    card (between (offered L cm z oc) a (ts ! k)) = pending_skips oc + k"
  using assms
proof (induction n arbitrary: oc a ts k)
  case (Suc n)
  obtain oc' r where nf: "next_fire L oc a = Some (oc', r)"
    using Suc.prems(2) by (auto simp: bind_Some)
  show ?case
  proof (cases r)
    case None
    then show ?thesis using Suc.prems nf by simp
  next
    case (Some t)
    note f = next_fire_offered [OF Suc.prems(1) nf [unfolded Some]]
    have at: "a < t" by (rule f(4) [OF Suc.prems(4)])
    obtain us where us: "preview L (record_run oc') t n = Some us" "ts = t # us"
      using Suc.prems(2) nf Some by (auto simp: bind_Some)
    show ?thesis
    proof (cases k)
      case 0
      then show ?thesis using f(1) f(5) [OF Suc.prems(4)] at us Suc.prems(5) by simp
    next
      case (Suc j)
      have "searchable L cm z (record_run oc')" using Suc.prems(1) f(2) by (simp add: record_run_def)
      from Suc.IH [OF this us(1), of j] Suc us Suc.prems(3,4,5)
        jumps_forward_later [OF Suc.prems(4), of t] days_in_order_part [of L oc z a "us ! j" t] at
      have j: "t < us ! j" "offered L cm z oc (us ! j)"
        "finite (between (offered L cm z oc) t (us ! j))"
        "card (between (offered L cm z oc) t (us ! j)) = j"
        by (auto simp: f(2) record_run_def)
      have t: "finite (between (offered L cm z oc) a t)" "card (between (offered L cm z oc) a t) = pending_skips oc"
        using f(5) [OF Suc.prems(4)] days_in_order_part [of L oc z a "us ! j" a t] Suc.prems(5) Suc us j(1)
        by auto
      have "between (offered L cm z oc) a (us ! j) =
          insert t (between (offered L cm z oc) a t \<union> between (offered L cm z oc) t (us ! j))"
        by (rule between_split) (use f(1) at j in auto)
      moreover have "t \<notin> between (offered L cm z oc) a t \<union> between (offered L cm z oc) t (us ! j)"
        "between (offered L cm z oc) a t \<inter> between (offered L cm z oc) t (us ! j) = {}"
        by (auto simp: between_def)
      ultimately show ?thesis using f(1) at t j Suc us by (simp add: card_Un_disjoint)
    qed
  qed
qed simp

text \<open>The run cap bounds the preview's length.\<close>

lemma preview_length:
  assumes "preview L oc a n = Some ts"
  shows "length ts \<le> n" "max_runs oc = Some m \<Longrightarrow> m \<le> u64_max \<Longrightarrow> length ts \<le> m - runs_done oc"
proof -
  show "length ts \<le> n" using assms
    by (induction n arbitrary: oc a ts) (auto simp: bind_Some split: option.splits)
  show "length ts \<le> m - runs_done oc" if "max_runs oc = Some m" "m \<le> u64_max"
    using assms that
  proof (induction n arbitrary: oc a ts)
    case (Suc n)
    obtain oc' r where nf: "next_fire L oc a = Some (oc', r)"
      using Suc.prems(1) by (auto simp: bind_Some)
    show ?case
    proof (cases r)
      case None
      then show ?thesis using Suc.prems nf by simp
    next
      case (Some t)
      obtain us where us: "preview L (record_run oc') t n = Some us" "ts = t # us"
        using Suc.prems(1) nf Some by (auto simp: bind_Some)
      obtain p where oc': "oc' = oc\<lparr>pending_skips := p\<rparr>" using next_fire_frame [OF nf] by blast
      have "runs_done oc < m" using nf Some Suc.prems(2)
        by (cases rule: next_fire_cases) (auto simp: runs_exhausted_def)
      moreover have "length us \<le> m - runs_done (record_run oc')"
        by (rule Suc.IH [OF us(1)]) (use Suc.prems(2,3) oc' in \<open>auto simp: record_run_def\<close>)
      ultimately show ?thesis using us oc' Suc.prems(3) by (auto simp: record_run_def sat_succ_def split: if_splits)
    qed
  qed simp
qed

text \<open>\<open>iter_after(after).take(n).collect()\<close>\<close>

fun iter_take :: "lib \<Rightarrow> preview_iter \<Rightarrow> nat \<Rightarrow> instant list exec" where
  "iter_take L it 0 = ret []"
| "iter_take L it (Suc n) =
     do { (it', r) \<leftarrow> iter_next L it;
          case r of
            None \<Rightarrow> ret []
          | Some t \<Rightarrow> do { rest \<leftarrow> iter_take L it' n; ret (t # rest) } }"

lemma iter_take_preview:
  "\<not> iter_done it \<Longrightarrow> iter_take L it n = preview L (working it) (cursor it) n"
proof (induction n arbitrary: it)
  case (Suc n)
  show ?case
  proof (cases "next_fire L (working it) (cursor it)")
    case (Some p)
    then obtain w r where "next_fire L (working it) (cursor it) = Some (w, r)" by (cases p) simp
    with Suc show ?thesis by (cases r) (simp_all add: iter_next_def)
  qed (use Suc.prems in \<open>simp add: iter_next_def\<close>)
qed simp

end
