(* ===== verification/Sample_Zones.thy ===== *)
theory Sample_Zones
  imports Occurrence_Next_Fire
begin

text \<open>
  A concrete \<open>lib\<close> on which the properties are applied: the calendar of the years 2000 to
  2099 (every fourth year is a leap year there), the zone \<open>UTC\<close>, and \<open>Europe/Helsinki\<close>
  with its two transitions of 2026. It shows that the named hypotheses on the crates can hold
  together; no definition of the program depends on it.
\<close>

section \<open>A calendar of one century\<close>

definition c_leap :: "int \<Rightarrow> int" where
  "c_leap q = (if q = 0 then 1 else 0)"

definition c_start :: "int \<Rightarrow> nat \<Rightarrow> int" where
  "c_start l m = (if m \<le> 1 then 0 else if m = 2 then 31 else l +
     (if m = 3 then 59 else if m = 4 then 90 else if m = 5 then 120 else if m = 6 then 151
      else if m = 7 then 181 else if m = 8 then 212 else if m = 9 then 243 else if m = 10 then 273
      else if m = 11 then 304 else 334))"

definition c_len :: "int \<Rightarrow> nat \<Rightarrow> nat" where
  "c_len l m = (if m = 2 then 28 + nat l else if m \<in> {4, 6, 9, 11} then 30 else 31)"

definition c_month :: "int \<Rightarrow> int \<Rightarrow> nat" where
  "c_month l x = (if x < 31 then 1 else if x < 59 + l then 2 else if x < 90 + l then 3
     else if x < 120 + l then 4 else if x < 151 + l then 5 else if x < 181 + l then 6
     else if x < 212 + l then 7 else if x < 243 + l then 8 else if x < 273 + l then 9
     else if x < 304 + l then 10 else if x < 334 + l then 11 else 12)"

text \<open>Day \<open>x\<close> of a four-year cycle: its year in the cycle and its day of that year.\<close>

definition c_q :: "int \<Rightarrow> int" where
  "c_q r = (if r < 366 then 0 else if r < 731 then 1 else if r < 1096 then 2 else 3)"

definition c_first :: "int \<Rightarrow> int" where
  "c_first q = (if q = 0 then 0 else if q = 1 then 366 else if q = 2 then 731 else 1096)"

definition c_cycle :: "day \<Rightarrow> int" where "c_cycle d = (d - 10957) div 1461"
definition c_rest :: "day \<Rightarrow> int" where "c_rest d = (d - 10957) mod 1461"
definition c_doy :: "day \<Rightarrow> int" where "c_doy d = c_rest d - c_first (c_q (c_rest d))"

definition c_year :: "day \<Rightarrow> int" where
  "c_year d = 2000 + 4 * c_cycle d + c_q (c_rest d)"

definition c_mon :: "day \<Rightarrow> nat" where
  "c_mon d = c_month (c_leap (c_q (c_rest d))) (c_doy d)"

definition c_day :: "day \<Rightarrow> nat" where
  "c_day d = nat (c_doy d - c_start (c_leap (c_q (c_rest d))) (c_mon d)) + 1"

definition c_from_ymd :: "int \<Rightarrow> nat \<Rightarrow> nat \<Rightarrow> day option" where
  "c_from_ymd y m d =
     (let l = c_leap ((y - 2000) mod 4) in
      if 2000 \<le> y \<and> y \<le> 2099 \<and> 1 \<le> m \<and> m \<le> 12 \<and> 1 \<le> d \<and> d \<le> c_len l m
      then Some (10957 + 1461 * ((y - 2000) div 4) + c_first ((y - 2000) mod 4)
             + c_start l m + int (d - 1))
      else None)"

lemma c_rest_bounds: "0 \<le> c_rest d" "c_rest d < 1461"
  by (simp_all add: c_rest_def)

lemma c_cycle_rest: "d = 10957 + 1461 * c_cycle d + c_rest d"
  using mult_div_mod_eq [of 1461 "d - 10957"] by (simp add: c_cycle_def c_rest_def)

lemma c_cycle_rest_unique:
  assumes "0 \<le> r" "r < 1461"
  shows "c_cycle (10957 + 1461 * c + r) = c" "c_rest (10957 + 1461 * c + r) = r"
  using assms by (simp_all add: c_cycle_def c_rest_def)

lemma c_q_bounds: "0 \<le> r \<Longrightarrow> r < 1461 \<Longrightarrow> 0 \<le> c_q r \<and> c_q r \<le> 3 \<and> c_first (c_q r) \<le> r \<and>
    r < c_first (c_q r) + 365 + c_leap (c_q r)"
  by (auto simp: c_q_def c_first_def c_leap_def)

lemma c_q_unique: "0 \<le> q \<Longrightarrow> q \<le> 3 \<Longrightarrow> 0 \<le> x \<Longrightarrow> x < 365 + c_leap q \<Longrightarrow>
    c_q (c_first q + x) = q \<and> 0 \<le> c_first q + x \<and> c_first q + x < 1461"
  by (auto simp: c_q_def c_first_def c_leap_def split: if_splits)

lemma c_month_bounds: "1 \<le> c_month l x \<and> c_month l x \<le> 12"
  by (simp add: c_month_def)

lemma c_month_start: "0 \<le> l \<Longrightarrow> l \<le> 1 \<Longrightarrow> 0 \<le> x \<Longrightarrow> x < 365 + l \<Longrightarrow>
    c_start l (c_month l x) \<le> x \<and> x < c_start l (c_month l x) + int (c_len l (c_month l x))"
  by (simp add: c_month_def c_start_def c_len_def)

lemma c_month_unique:
  assumes "0 \<le> l" "l \<le> 1" "1 \<le> m" "m \<le> 12" "0 \<le> x" "x < int (c_len l m)"
  shows "c_month l (c_start l m + x) = m \<and> 0 \<le> c_start l m + x \<and> c_start l m + x < 365 + l"
proof -
  have "m \<in> {1, 2, 3, 4, 5, 6, 7, 8, 9, 10, 11, 12}" using assms(3,4) unfolding insert_iff empty_iff by presburger
  then show ?thesis using assms by (elim insertE) (auto simp: c_month_def c_start_def c_len_def)
qed

lemma c_month_mono: "0 \<le> l \<Longrightarrow> l \<le> 1 \<Longrightarrow> x \<le> y \<Longrightarrow> c_month l x \<le> c_month l y"
  by (simp add: c_month_def)

lemma c_leap_bounds: "0 \<le> c_leap q" "c_leap q \<le> 1"
  by (simp_all add: c_leap_def)

lemma c_doy_bounds: "0 \<le> c_doy d" "c_doy d < 365 + c_leap (c_q (c_rest d))"
  using c_q_bounds [OF c_rest_bounds, of d] by (auto simp: c_doy_def)

lemma c_from_ymd_inverse:
  assumes "c_from_ymd y m d = Some x"
  shows "c_year x = y" "c_mon x = m" "c_day x = d" "10957 \<le> x" "x \<le> 47481"
    "1 \<le> m" "m \<le> 12" "1 \<le> d" "d \<le> 31"
proof -
  define q where "q = (y - 2000) mod 4"
  define c where "c = (y - 2000) div 4"
  define l where "l = c_leap q"
  define e where "e = c_start l m + int (d - 1)"
  have b: "2000 \<le> y" "y \<le> 2099" "1 \<le> m" "m \<le> 12" "1 \<le> d" "d \<le> c_len l m"
    "x = 10957 + 1461 * c + (c_first q + e)"
    using assms unfolding c_from_ymd_def Let_def q_def c_def l_def e_def
    by (auto split: if_splits)
  have q: "0 \<le> q" "q \<le> 3" and y: "y = 2000 + 4 * c + q" and c: "0 \<le> c" "c \<le> 24"
    using b(1,2) mult_div_mod_eq [of 4 "y - 2000"] unfolding q_def c_def by auto
  have l: "0 \<le> l" "l \<le> 1" unfolding l_def by (simp_all add: c_leap_bounds)
  have m: "c_month l e = m" "0 \<le> e" "e < 365 + l"
    using c_month_unique [OF l b(3,4), of "int (d - 1)"] b(5,6) unfolding e_def by auto
  have r: "c_q (c_first q + e) = q" "0 \<le> c_first q + e" "c_first q + e < 1461"
    using c_q_unique [OF q m(2)] m(3) l_def by auto
  have xc: "c_cycle x = c" "c_rest x = c_first q + e"
    using c_cycle_rest_unique [OF r(2,3)] b(7) by auto
  show "c_year x = y" by (simp add: c_year_def xc r y)
  have doy: "c_doy x = e" by (simp add: c_doy_def xc r)
  show mon: "c_mon x = m" unfolding c_mon_def doy xc r using m by (simp add: l_def)
  show "c_day x = d" unfolding c_day_def doy mon xc r using b(5) by (simp add: l_def e_def)
  show "1 \<le> m" "m \<le> 12" "1 \<le> d" using b by auto
  show "d \<le> 31" using b(6) l by (simp add: c_len_def split: if_splits)
  show "10957 \<le> x" using b(7) c r by simp
  show "x \<le> 47481" using b(7) c r by simp
qed

lemma c_from_ymd_total:
  assumes "10957 \<le> x" "x \<le> 47481"
  shows "c_from_ymd (c_year x) (c_mon x) (c_day x) = Some x"
proof -
  let ?q = "c_q (c_rest x)" let ?l = "c_leap ?q"
  have q: "0 \<le> ?q" "?q \<le> 3" using c_q_bounds [OF c_rest_bounds, of x] by auto
  have ymod: "(c_year x - 2000) mod 4 = ?q" "(c_year x - 2000) div 4 = c_cycle x"
    using q by (simp_all add: c_year_def)
  have c: "0 \<le> c_cycle x" "c_cycle x \<le> 24" using assms by (auto simp: c_cycle_def)
  have y: "2000 \<le> c_year x" "c_year x \<le> 2099" using c q by (auto simp: c_year_def)
  have m: "c_start ?l (c_mon x) \<le> c_doy x"
    "c_doy x < c_start ?l (c_mon x) + int (c_len ?l (c_mon x))"
    using c_month_start [OF c_leap_bounds c_doy_bounds] unfolding c_mon_def by auto
  have d: "1 \<le> c_day x" "c_day x \<le> c_len ?l (c_mon x)"
    "c_start ?l (c_mon x) + int (c_day x - 1) = c_doy x"
    using m unfolding c_day_def by auto
  have "1 \<le> c_mon x" "c_mon x \<le> 12" using c_month_bounds unfolding c_mon_def by auto
  then have "c_from_ymd (c_year x) (c_mon x) (c_day x) =
      Some (10957 + 1461 * c_cycle x + c_first ?q + (c_start ?l (c_mon x) + int (c_day x - 1)))"
    unfolding c_from_ymd_def ymod Let_def using y d(1,2) by simp
  also have "\<dots> = Some x" unfolding d(3) c_doy_def using c_cycle_rest [of x] by simp
  finally show ?thesis .
qed

lemma month_key_le:
  "c + 1 \<le> c' \<Longrightarrow> q \<le> 3 \<Longrightarrow> m \<le> 12 \<Longrightarrow> 0 \<le> q' \<Longrightarrow> 0 \<le> m' \<Longrightarrow>
    12 * (2000 + 4 * c + q) + m \<le> 12 * (2000 + 4 * c' + q') + m'"
  "q + 1 \<le> q' \<Longrightarrow> m \<le> 12 \<Longrightarrow> 0 \<le> m' \<Longrightarrow>
    12 * (2000 + 4 * c + q) + m \<le> 12 * (2000 + 4 * c + q') + m'"
  for c c' q q' m m' :: int
  by (simp_all add: algebra_simps)

lemma c_month_index_mono:
  assumes "x \<le> y"
  shows "12 * c_year x + int (c_mon x) \<le> 12 * c_year y + int (c_mon y)"
proof -
  have xb: "int (c_mon x) \<le> 12" "0 \<le> c_q (c_rest x)" "c_q (c_rest x) \<le> 3" "0 \<le> int (c_mon y)"
    "0 \<le> c_q (c_rest y)" "c_q (c_rest y) \<le> 3"
    using c_month_bounds [of "c_leap (c_q (c_rest x))" "c_doy x"] c_q_bounds [OF c_rest_bounds]
    unfolding c_mon_def by auto
  have cyc: "c_cycle x \<le> c_cycle y" using assms by (simp add: c_cycle_def zdiv_mono1)
  consider "c_cycle x < c_cycle y" | "c_cycle x = c_cycle y" using cyc by linarith
  then show ?thesis
  proof cases
    case 1
    then show ?thesis using xb unfolding c_year_def by (intro month_key_le(1)) simp_all
  next
    case 2
    then have r: "c_rest x \<le> c_rest y" using assms c_cycle_rest [of x] c_cycle_rest [of y] by linarith
    have "c_q (c_rest x) \<le> c_q (c_rest y)" using r by (simp add: c_q_def)
    then consider "c_q (c_rest x) < c_q (c_rest y)" | "c_q (c_rest x) = c_q (c_rest y)" by linarith
    then show ?thesis
    proof cases
      case 1
      then show ?thesis using xb unfolding c_year_def 2 by (intro month_key_le(2)) simp_all
    next
      case q: 2
      then have "c_mon x \<le> c_mon y"
        unfolding c_mon_def using r q c_month_mono [OF c_leap_bounds] by (simp add: c_doy_def)
      then show ?thesis using 2 q unfolding c_year_def by simp
    qed
  qed
qed

text \<open>The next day, within a year, over a year's end and over a cycle's end.\<close>

lemma c_start_next:
  assumes "0 \<le> l" "1 \<le> m" "m < 12"
  shows "c_start l (m + 1) = c_start l m + int (c_len l m)"
proof -
  have "m \<in> {1, 2, 3, 4, 5, 6, 7, 8, 9, 10, 11}"
    using assms(2,3) unfolding insert_iff empty_iff by presburger
  then show ?thesis using assms(1) by (elim insertE) (auto simp: c_start_def c_len_def)
qed

lemma c_month_next:
  assumes l: "0 \<le> l" "l \<le> 1" and x: "0 \<le> x" "x + 1 < 365 + l"
  shows "c_month l (x + 1) = c_month l x \<or>
    c_month l (x + 1) = c_month l x + 1 \<and> c_start l (c_month l (x + 1)) = x + 1"
proof -
  let ?m = "c_month l x"
  have m: "1 \<le> ?m" "?m \<le> 12" using c_month_bounds by auto
  have s: "c_start l ?m \<le> x" "x < c_start l ?m + int (c_len l ?m)"
    using c_month_start [OF l x(1)] x(2) by auto
  show ?thesis
  proof (cases "x + 1 < c_start l ?m + int (c_len l ?m)")
    case True
    then show ?thesis using c_month_unique [OF l m, of "x + 1 - c_start l ?m"] s by simp
  next
    case False
    then have e: "x + 1 = c_start l ?m + int (c_len l ?m)" using s by simp
    have "?m \<noteq> 12"
    proof
      assume "?m = 12"
      then have "x + 1 = 365 + l" using e by (simp add: c_start_def c_len_def)
      then show False using x(2) by simp
    qed
    then have n: "?m < 12" using m by simp
    have "0 < int (c_len l (?m + 1))" by (simp add: c_len_def)
    then have "c_month l (c_start l (?m + 1) + 0) = ?m + 1"
      using c_month_unique [OF l, of "?m + 1" 0] n by auto
    then show ?thesis using e c_start_next [OF l(1) m(1) n] by simp
  qed
qed

lemma c_next_same_year:
  assumes "c_cycle (x + 1) = c_cycle x" "c_q (c_rest (x + 1)) = c_q (c_rest x)"
  shows "c_day (x + 1) = c_day x + 1 \<and> c_year (x + 1) = c_year x \<and> c_mon (x + 1) = c_mon x \<or>
    c_day (x + 1) = 1 \<and> 12 * c_year (x + 1) + int (c_mon (x + 1)) = 12 * c_year x + int (c_mon x) + 1"
proof -
  let ?l = "c_leap (c_q (c_rest x))"
  have r: "c_rest (x + 1) = c_rest x + 1"
    using c_cycle_rest [of x] c_cycle_rest [of "x + 1"] assms(1) by linarith
  have doy: "c_doy (x + 1) = c_doy x + 1" using r assms(2) by (simp add: c_doy_def)
  have y: "c_year (x + 1) = c_year x" using assms by (simp add: c_year_def)
  have b: "c_doy x + 1 < 365 + ?l" using c_doy_bounds(2) [of "x + 1"] unfolding doy assms(2) .
  have s: "c_start ?l (c_mon x) \<le> c_doy x"
    using c_month_start [OF c_leap_bounds c_doy_bounds] unfolding c_mon_def by auto
  show ?thesis
    using c_month_next [OF c_leap_bounds c_doy_bounds(1) b]
  proof
    assume "c_month ?l (c_doy x + 1) = c_month ?l (c_doy x)"
    then have "c_mon (x + 1) = c_mon x" by (simp add: c_mon_def doy assms(2))
    then show ?thesis using y s by (simp add: c_day_def doy assms(2) nat_diff_distrib' nat_add_distrib)
  next
    assume "c_month ?l (c_doy x + 1) = c_month ?l (c_doy x) + 1 \<and>
      c_start ?l (c_month ?l (c_doy x + 1)) = c_doy x + 1"
    then have "c_mon (x + 1) = c_mon x + 1" "c_start ?l (c_mon (x + 1)) = c_doy (x + 1)"
      by (auto simp: c_mon_def doy assms(2))
    then show ?thesis using y by (simp add: c_day_def assms(2))
  qed
qed

lemma c_next_new_year:
  assumes "c_year (x + 1) = c_year x + 1" "c_doy (x + 1) = 0"
    "c_doy x = 364 + c_leap (c_q (c_rest x))"
  shows "c_day (x + 1) = 1 \<and> 12 * c_year (x + 1) + int (c_mon (x + 1)) = 12 * c_year x + int (c_mon x) + 1"
proof -
  have "c_mon (x + 1) = 1" using assms(2) by (simp add: c_mon_def c_month_def)
  moreover have "c_mon x = 12" using assms(3) c_leap_bounds(1) [of "c_q (c_rest x)"] by (simp add: c_mon_def c_month_def)
  ultimately show ?thesis using assms by (simp add: c_day_def c_start_def)
qed

lemma c_next:
  "c_day (x + 1) = c_day x + 1 \<and> c_year (x + 1) = c_year x \<and> c_mon (x + 1) = c_mon x \<or>
    c_day (x + 1) = 1 \<and> 12 * c_year (x + 1) + int (c_mon (x + 1)) = 12 * c_year x + int (c_mon x) + 1"
proof (cases "c_rest x = 1460")
  case True
  have e: "x + 1 = 10957 + 1461 * (c_cycle x + 1) + 0" using c_cycle_rest [of x] True by simp
  have "c_cycle (x + 1) = c_cycle x + 1" "c_rest (x + 1) = 0"
    by (subst e, rule c_cycle_rest_unique, simp_all)+
  then show ?thesis using True
    by (intro disjI2 c_next_new_year) (simp_all add: c_year_def c_doy_def c_q_def c_first_def c_leap_def)
next
  case False
  with c_rest_bounds [of x] have b: "0 \<le> c_rest x + 1" "c_rest x + 1 < 1461" by auto
  have e: "x + 1 = 10957 + 1461 * c_cycle x + (c_rest x + 1)" using c_cycle_rest [of x] by simp
  have c: "c_cycle (x + 1) = c_cycle x" "c_rest (x + 1) = c_rest x + 1"
    by (subst e, rule c_cycle_rest_unique [OF b])+
  show ?thesis
  proof (cases "c_rest x = 365 \<or> c_rest x = 730 \<or> c_rest x = 1095")
    case True
    then show ?thesis using c
      by (intro disjI2 c_next_new_year)
        (auto simp: c_year_def c_doy_def c_q_def c_first_def c_leap_def)
  next
    case False
    then have "c_q (c_rest (x + 1)) = c_q (c_rest x)" unfolding c(2) by (auto simp: c_q_def)
    then show ?thesis by (rule c_next_same_year [OF c(1)])
  qed
qed

section \<open>Two zones\<close>

definition utc_zone :: zone where
  "utc_zone = \<lparr> from_local_datetime = Single, naive_local = (\<lambda>t. t) \<rparr>"

definition hour_ns :: int where "hour_ns = 3600000000000"

text \<open>2026-03-29 01:00 UTC and 2026-10-25 01:00 UTC.\<close>

definition spring :: instant where "spring = 20541 * day_ns + hour_ns"
definition autumn :: instant where "autumn = 20751 * day_ns + hour_ns"

definition helsinki :: zone where
  "helsinki = \<lparr>
     from_local_datetime = (\<lambda>n.
       if n < spring + 2 * hour_ns then Single (n - 2 * hour_ns)
       else if n < spring + 3 * hour_ns then NoLocal
       else if n < autumn + 2 * hour_ns then Single (n - 3 * hour_ns)
       else if n < autumn + 3 * hour_ns then Ambiguous (n - 3 * hour_ns) (n - 2 * hour_ns)
       else Single (n - 2 * hour_ns)),
     naive_local = (\<lambda>t. if spring \<le> t \<and> t < autumn then t + 3 * hour_ns else t + 2 * hour_ns) \<rparr>"

definition sample_tz :: "string \<Rightarrow> zone option" where
  "sample_tz name =
     (if name = ''UTC'' then Some utc_zone
      else if name = ''Europe/Helsinki'' then Some helsinki else None)"

definition sample_lib :: lib where
  "sample_lib = \<lparr>
     from_ymd_opt = c_from_ymd, date_year = c_year, date_month = c_mon, date_day = c_day,
     weekday_from_monday = (\<lambda>d. nat ((d + 3) mod 7)),
     date_min = 10957, date_max = 47481,
     utc_min = 10957 * day_ns, utc_max = 47482 * day_ns - 1,
     duration_max_secs = 9223372036854775, duration_max = 9223372036854775807000000,
     tz_from_str = sample_tz, cron_parses = (\<lambda>e. False), cron_next = (\<lambda>e z a. None) \<rparr>"

lemma calendar_sample: "calendar_ok sample_lib"
proof -
  have "weekday_from_monday sample_lib x < 7" for x
    by (simp add: sample_lib_def nat_less_iff)
  then show ?thesis
    unfolding calendar_ok_def
    using c_from_ymd_inverse c_from_ymd_total c_month_bounds c_month_index_mono c_next
    by (simp add: sample_lib_def c_mon_def)
qed

lemma zone_utc: "zone_ok utc_zone"
  by (auto simp: zone_ok_def utc_zone_def)

lemma zone_helsinki: "zone_ok helsinki"
  by (auto simp: zone_ok_def helsinki_def spring_def autumn_def hour_ns_def day_ns_def)

text \<open>
  A zone with civil days everywhere: the local date never goes back, a resolved date and time stays
  on its date, and a resolved midnight is the first instant of its date.
\<close>

lemma civil_days_everywhere:
  assumes mono: "\<And>u v. u \<le> v \<Longrightarrow> local_date z u \<le> local_date z v"
    and stay: "\<And>d at t. valid_tod at \<Longrightarrow>
      resolve_local L z d at FirstValidAfterGap FirstOccurrence = Some (Some t) \<Longrightarrow> local_date z t = d"
    and first: "\<And>d t u. resolve_local L z d 0 FirstValidAfterGap FirstOccurrence = Some (Some t) \<Longrightarrow>
      u < t \<Longrightarrow> local_date z u < d"
  shows "civil_days L z lo hi"
  unfolding civil_days_def
proof (intro conjI allI impI)
  fix u d at t
  assume at: "valid_tod at"
    and r: "resolve_local L z d at FirstValidAfterGap FirstOccurrence = Some (Some t)"
  have t: "local_date z t = d" by (rule stay [OF at r])
  show "u < t" if "local_date z u < d" using that mono [of t u] t by linarith
  show "t \<le> u" if "d < local_date z u \<or> d = local_date z u \<and> at = 0"
  proof (rule ccontr)
    assume ut: "\<not> t \<le> u"
    then have "local_date z u \<le> d" using mono [of u t] t by simp
    with that have "d = local_date z u" "at = 0" by auto
    with first [of d t u] r ut show False by simp
  qed
qed (rule mono)

lemma civil_utc: "civil_days L utc_zone lo hi"
proof (rule civil_days_everywhere)
  fix d at t
  assume at: "valid_tod at"
    and "resolve_local L utc_zone d at FirstValidAfterGap FirstOccurrence = Some (Some t)"
  then have "t = at_time d at" by (simp add: resolve_local_def resolve_naive_def utc_zone_def)
  then show "local_date utc_zone t = d" using at by (simp add: utc_zone_def)
next
  fix d t u
  assume "resolve_local L utc_zone d 0 FirstValidAfterGap FirstOccurrence = Some (Some t)" "u < t"
  then have "u < d * day_ns"
    by (simp add: resolve_local_def resolve_naive_def utc_zone_def at_time_def)
  then show "local_date utc_zone u < d" by (simp add: utc_zone_def date_of_def int_div_less)
qed (simp add: utc_zone_def date_of_mono)

text \<open>
  Helsinki's dates do not go back: the fold of 2026-10-25 stays within its day. Its gap of
  2026-03-29 resolves to 04:00 of the same day.
\<close>

lemma helsinki_mono:
  assumes "u \<le> v" shows "local_date helsinki u \<le> local_date helsinki v"
proof (cases "naive_local helsinki u \<le> naive_local helsinki v")
  case True
  then show ?thesis by (rule date_of_mono)
next
  case False
  with assms have "naive_local helsinki u < 20752 * day_ns" "20751 * day_ns \<le> naive_local helsinki v"
    by (auto simp: helsinki_def spring_def autumn_def hour_ns_def day_ns_def split: if_splits)
  then have "local_date helsinki u < 20752" "20751 \<le> local_date helsinki v"
    unfolding date_of_def by (auto intro: int_div_less int_le_div)
  then show ?thesis by simp
qed

lemma helsinki_gap:
  assumes n: "spring + 2 * hour_ns \<le> n" "n < spring + 3 * hour_ns"
  defines "g \<equiv> nat ((spring + 3 * hour_ns - n + sec_ns - 1) div sec_ns)"
  shows "gap_of helsinki n g (n + int g * sec_ns - 3 * hour_ns)"
    "spring + 3 * hour_ns \<le> n + int g * sec_ns" "n + int g * sec_ns < spring + 3 * hour_ns + sec_ns"
proof -
  define x where "x = spring + 3 * hour_ns - n"
  have x: "0 < x" "x \<le> 3600 * sec_ns" using n by (auto simp: x_def hour_ns_def sec_ns_def)
  define k where "k = (x + sec_ns - 1) div sec_ns"
  have k: "x \<le> k * sec_ns" "k * sec_ns < x + sec_ns"
    unfolding k_def by (rule int_ceil_div [OF unit_pos(1)])+
  then have k': "0 < k" "k \<le> 3600" using x by (auto simp: sec_ns_def)
  have g: "int g = k" using k'(1) unfolding g_def k_def x_def by (simp add: algebra_simps)
  show "spring + 3 * hour_ns \<le> n + int g * sec_ns" "n + int g * sec_ns < spring + 3 * hour_ns + sec_ns"
    using k(1,2) unfolding g x_def by auto
  then have at_g: "spring + 3 * hour_ns \<le> n + int j * sec_ns \<and> n + int j * sec_ns < autumn"
    if "g \<le> j" "j < g + 60" for j
  proof -
    have "int g * sec_ns \<le> int j * sec_ns" "int j * sec_ns \<le> int (g + 60) * sec_ns"
      using that by (auto simp del: of_nat_add)
    then show ?thesis
      using \<open>spring + 3 * hour_ns \<le> n + int g * sec_ns\<close>
        \<open>n + int g * sec_ns < spring + 3 * hour_ns + sec_ns\<close>
      by (auto simp: algebra_simps autumn_def spring_def day_ns_def sec_ns_def hour_ns_def)
  qed
  have before: "n + int j * sec_ns < spring + 3 * hour_ns \<and> spring + 2 * hour_ns \<le> n + int j * sec_ns"
    if "j < g" for j
  proof -
    have "int (Suc j) * sec_ns \<le> int g * sec_ns" using that by (intro mult_right_mono) auto
    then have "int j * sec_ns \<le> k * sec_ns - sec_ns" by (simp add: g algebra_simps)
    moreover have "0 \<le> int j * sec_ns" by simp
    ultimately show ?thesis using k(2) n unfolding x_def by linarith
  qed
  have none: "from_local_datetime helsinki (n + int j * sec_ns) = NoLocal" if "j < g" for j
    using before [OF that] by (auto simp: helsinki_def)
  have single: "from_local_datetime helsinki (n + int j * sec_ns) =
      Single (n + int j * sec_ns - 3 * hour_ns)" if "g \<le> j" "j < g + 60" for j
    using at_g [OF that] by (auto simp: helsinki_def hour_ns_def)
  have "0 < g" "g \<le> 10800" using g k' by auto
  then show "gap_of helsinki n g (n + int g * sec_ns - 3 * hour_ns)"
    unfolding gap_of_def using none single by auto
qed

lemma helsinki_calendar:
  "spring + 2 * hour_ns \<le> n \<Longrightarrow> n < spring + 3 * hour_ns \<Longrightarrow>
    in_calendar sample_lib n (n + 10801 * sec_ns)"
  unfolding in_calendar_def
  by (subst (1 2) date_of_eqI [of 20541])
    (auto simp: sample_lib_def spring_def hour_ns_def sec_ns_def day_ns_def)

lemma helsinki_resolve_date:
  assumes at: "valid_tod at"
    and r: "resolve_local sample_lib helsinki d at FirstValidAfterGap FirstOccurrence = Some (Some t)"
  shows "local_date helsinki t = d"
proof (cases "from_local_datetime helsinki (at_time d at)")
  case NoLocal
  let ?n = "at_time d at"
  have n: "spring + 2 * hour_ns \<le> ?n" "?n < spring + 3 * hour_ns"
    using NoLocal by (auto simp: helsinki_def split: if_splits)
  from resolve_naive_gap [OF zone_helsinki helsinki_gap(1) [OF n] helsinki_calendar [OF n]] r
  have t: "t = ?n + int (nat ((spring + 3 * hour_ns - ?n + sec_ns - 1) div sec_ns)) * sec_ns - 3 * hour_ns"
    unfolding resolve_local_def by auto
  have b: "spring \<le> t" "t < spring + sec_ns" using helsinki_gap(2,3) [OF n] unfolding t by auto
  then have "naive_local helsinki t = t + 3 * hour_ns"
    by (auto simp: helsinki_def autumn_def spring_def day_ns_def sec_ns_def hour_ns_def)
  moreover have "date_of (t + 3 * hour_ns) = 20541" using b
    by (intro date_of_eqI) (auto simp: spring_def sec_ns_def hour_ns_def day_ns_def)
  moreover have "d = 20541"
  proof -
    have "date_of ?n = 20541" using n
      by (intro date_of_eqI) (auto simp: spring_def hour_ns_def day_ns_def)
    then show ?thesis using at by simp
  qed
  ultimately show ?thesis by simp
qed (use at r zone_helsinki in \<open>auto simp: resolve_local_def resolve_naive_def zone_ok_def\<close>)

lemma civil_helsinki: "civil_days sample_lib helsinki lo hi"
proof (rule civil_days_everywhere)
  fix d t u
  assume r: "resolve_local sample_lib helsinki d 0 FirstValidAfterGap FirstOccurrence = Some (Some t)"
    and "u < t"
  have at: "at_time d 0 = d * day_ns" by (simp add: at_time_def)
  have "naive_local helsinki u < d * day_ns"
  proof (cases "d \<le> 20751")
    case True
    then show ?thesis using r \<open>u < t\<close> unfolding resolve_local_def resolve_naive_def at
      by (auto simp: helsinki_def spring_def autumn_def hour_ns_def day_ns_def split: if_splits)
  next
    case False
    then have "20752 \<le> d" by simp
    then show ?thesis using r \<open>u < t\<close> unfolding resolve_local_def resolve_naive_def at
      by (auto simp: helsinki_def spring_def autumn_def hour_ns_def day_ns_def split: if_splits)
  qed
  then show "local_date helsinki u < d" unfolding date_of_def by (intro int_div_less) auto
qed (use helsinki_mono helsinki_resolve_date in auto)

end
