(* ===== verification/Occurrence_Properties.thy ===== *)
theory Occurrence_Properties
  imports Sample_Zones
begin

text \<open>
  The properties of the occurrence engine (\<open>occurrence/*.rs\<close>), each with a witness on the
  sample calendar and zones where it has hypotheses.
\<close>

section \<open>Sample schedules\<close>

text \<open>Daily at 08:00 in Helsinki, 28 March 2026 excluded, one fire to be skipped.\<close>

definition sample_daily :: occurrence where
  "sample_daily = \<lparr>
     kind = Daily (8 * hour_ns), tz = ''Europe/Helsinki'', dst_gap = FirstValidAfterGap,
     dst_fold = FirstOccurrence, invalid_monthday = Clamp, valid_from = None, valid_until = None,
     max_runs = Some 5, runs_done = 2, exclusions = {20540}, pending_skips = 1 \<rparr>"

text \<open>2026-03-27 12:00 UTC, and 2026-03-30 08:00 in Helsinki (05:00 UTC).\<close>

definition sample_after :: instant where "sample_after = 20539 * day_ns + 12 * hour_ns"
definition sample_fire :: instant where "sample_fire = 20542 * day_ns + 5 * hour_ns"

lemmas candidates_numeral =
  candidates.simps(2) [where n = "pred_numeral k", folded numeral_eq_Suc] for k

lemmas daily_scan_numeral =
  daily_scan.simps(2) [where n = "pred_numeral k", folded numeral_eq_Suc] for k

lemma searchable_daily: "searchable sample_lib (\<lambda>_. False) helsinki sample_daily"
  by (simp add: searchable_def sample_daily_def timezone_def kind_tod_ok_def
      calendar_sample valid_tod_def hour_ns_def day_ns_def)
    (simp add: sample_lib_def sample_tz_def)

lemma helsinki_in_order: "days_in_order sample_lib oc helsinki lo hi"
  by (simp add: days_in_order_def civil_helsinki)

lemma helsinki_jumps: "jumps_forward sample_lib sample_daily helsinki lo"
  by (rule jumps_forward_civil [OF civil_helsinki])
    (simp add: sample_daily_def timezone_def sample_lib_def sample_tz_def)

lemmas sample_defs = sample_daily_def sample_after_def sample_fire_def sample_lib_def
  sample_tz_def helsinki_def spring_def autumn_def hour_ns_def day_ns_def

lemma next_fire_sample:
  "next_fire sample_lib sample_daily sample_after =
     Some (sample_daily\<lparr>pending_skips := 0\<rparr>, Some sample_fire)"
  by (simp add: next_fire_def runs_exhausted_def search_floor_def timezone_def MAX_CANDIDATES_def
      candidates_numeral raw_next_after_def next_daily_def daily_scan_numeral resolve_def
      resolve_local_def resolve_naive_def at_time_def date_of_def succ_opt_def
      jump_past_exclusion_day_def instant_add_def sample_defs)

section \<open>\<open>next_fire\<close> and \<open>preview\<close>\<close>

text \<open>C1: What \<open>next_fire\<close> answers. In every zone, the fire it returns is a fire of the
  schedule's kind, inside the validity window and on no excluded local date, the run cap was not
  reached, the pending skips are consumed and nothing else of the schedule changes. It lies strictly
  after the instant asked about, provided the jump past an excluded day never goes back (so always
  when no date is excluded). And exactly \<open>pending_skips\<close> fires that would also qualify lie before it,
  provided moreover that, for a schedule by civil days or with excluded dates, the zone keeps its
  local dates in order between the two instants: no fall-back over a local midnight there.\<close>

theorem next_fire_nth_fire:
  assumes "searchable L cron_match z oc"
    and "next_fire L oc after = Some (oc', Some t)"
  shows "schedule_fire L cron_match oc t \<and> eligible oc z t \<and>
    oc' = oc\<lparr>pending_skips := 0\<rparr> \<and> \<not> runs_exhausted oc \<and>
    (exclusions oc = {} \<or> jumps_forward L oc z after \<longrightarrow> after < t \<and>
      (days_in_order L oc z after t \<longrightarrow>
        card (between (\<lambda>u. schedule_fire L cron_match oc u \<and> eligible oc z u) after t) =
          pending_skips oc))"
  using next_fire_offered [OF assms] jumps_forward_no_exclusions by blast

theorem next_fire_nth_fire_witness:
  "sample_after < sample_fire \<and>
   card (between (\<lambda>u. schedule_fire sample_lib (\<lambda>_. False) sample_daily u \<and>
     eligible sample_daily helsinki u) sample_after sample_fire) = 1"
  using next_fire_nth_fire [OF searchable_daily next_fire_sample] helsinki_jumps helsinki_in_order
  by (simp add: sample_daily_def)

text \<open>A preview lists consecutive fires: its k-th entry is after the start, is let through by
  the schedule, and has exactly \<open>pending_skips + k\<close> qualifying fires before it, so no fire
  is left out, repeated or reordered, as long as the zone keeps its dates in order up to it.\<close>

theorem preview_consecutive:
  assumes "searchable L cron_match z oc"
    and "preview L oc after n = Some ts"
    and "k < length ts"
    and "jumps_forward L oc z after" "days_in_order L oc z after (ts ! k)"
  shows "after < ts ! k \<and> schedule_fire L cron_match oc (ts ! k) \<and> eligible oc z (ts ! k) \<and>
    card (between (\<lambda>u. schedule_fire L cron_match oc u \<and> eligible oc z u) after (ts ! k)) =
      pending_skips oc + k"
  using preview_offered [OF assms] by simp

lemma preview_sample:
  "preview sample_lib sample_daily sample_after 5 =
     Some [sample_fire, sample_fire + day_ns, sample_fire + 2 * day_ns]"
  by (simp add: numeral_eq_Suc)
    (simp add: next_fire_def record_run_def sat_succ_def runs_exhausted_def search_floor_def
      timezone_def MAX_CANDIDATES_def
      candidates_numeral raw_next_after_def next_daily_def daily_scan_numeral resolve_def
      resolve_local_def resolve_naive_def at_time_def date_of_def succ_opt_def
      jump_past_exclusion_day_def instant_add_def sample_defs)

theorem preview_consecutive_witness:
  "card (between (\<lambda>u. schedule_fire sample_lib (\<lambda>_. False) sample_daily u \<and>
     eligible sample_daily helsinki u) sample_after (sample_fire + 2 * day_ns)) = 3"
  using preview_consecutive [OF searchable_daily preview_sample _ helsinki_jumps helsinki_in_order, of 2]
  by (simp add: sample_daily_def)

text \<open>A preview is no longer than asked for, nor than the runs the cap has left.\<close>

theorem preview_within_cap:
  assumes "preview L oc after n = Some ts"
  shows "length ts \<le> n \<and>
    (case max_runs oc of None \<Rightarrow> True | Some m \<Rightarrow> m \<le> u64_max \<longrightarrow> length ts \<le> m - runs_done oc)"
  using preview_length [OF assms] by (auto split: option.splits)

theorem preview_within_cap_witness:
  "length [sample_fire, sample_fire + day_ns, sample_fire + 2 * day_ns] \<le> 5 - 2"
  using preview_within_cap [OF preview_sample] by (simp add: sample_daily_def)

text \<open>C3: Taking \<open>n\<close> items from the lazy iterator gives the same list, or the same panic, as
  \<open>preview\<close>.\<close>

theorem iterator_is_preview:
  "iter_take L (iter_after oc after) n = preview L oc after n"
  by (simp add: iter_take_preview iter_after_def)

section \<open>Intervals\<close>

text \<open>The interval search at or after its anchor, on every branch: \<open>None\<close> when the next
  offset leaves \<open>i64\<close>, a panic when it fits \<open>i64\<close> but not \<open>chrono\<close>'s duration, and otherwise
  the anchor plus the next whole number of periods, if that is a date-time.\<close>

theorem next_interval_branches:
  assumes "0 < every" "int every \<le> i64_max" "anchor \<le> after"
    and "timezone L oc = Some z" "0 \<le> duration_max_secs L" "duration_max_secs L < i64_max"
  shows "next_interval L oc every anchor after =
    (let offset = ((after - anchor) div sec_ns div int every + 1) * int every in
     if i64_max < offset then Some None
     else if duration_max_secs L < offset then None
     else Some (checked_add_signed L anchor (offset * sec_ns)))"
proof -
  define n where "n = (after - anchor) div sec_ns div int every + 1"
  define offset where "offset = n * int every"
  have n: "1 \<le> n" using assms(1,3) unfolding n_def by (simp add: pos_imp_zdiv_nonneg_iff)
  then have "n * 1 \<le> offset" using assms(1) unfolding offset_def by (intro mult_left_mono) auto
  then have le: "n \<le> offset" by simp
  have "next_interval L oc every anchor after =
    (if i64_max < offset then Some None
     else if duration_max_secs L < offset then None
     else Some (checked_add_signed L anchor (offset * sec_ns)))"
  proof (cases "i64_max < offset")
    case True
    then have "checked_i64 offset = None" by (simp add: checked_i64_def)
    then show ?thesis using assms(1-3) True unfolding next_interval_def Let_def
        n_def [symmetric] by (cases "checked_i64 n") (auto simp: offset_def checked_i64_def split: if_splits)
  next
    case False
    then have "checked_i64 n = Some n" "checked_i64 offset = Some offset"
      using n le by (auto simp: checked_i64_def)
    then show ?thesis using assms False n le unfolding next_interval_def Let_def
        n_def [symmetric] by (auto simp: offset_def [symmetric] duration_seconds_def split: option.splits)
  qed
  then show ?thesis by (simp add: Let_def n_def offset_def)
qed

definition sample_interval :: occurrence where
  "sample_interval = sample_daily\<lparr>kind := Interval 90 (20539 * day_ns), tz := ''UTC''\<rparr>"

theorem next_interval_branches_witness:
  "next_interval sample_lib sample_interval 90 (20539 * day_ns) (20539 * day_ns + 90 * sec_ns) =
     Some (Some (20539 * day_ns + 180 * sec_ns))"
  by (subst next_interval_branches [where z = utc_zone])
    (simp_all add: sample_interval_def timezone_def sample_lib_def sample_tz_def sec_ns_def
      day_ns_def checked_add_signed_def)

text \<open>
  A consequence of the second branch: a period that \<open>validate\<close> accepts makes \<open>next_fire\<close> panic.
\<close>

lemma long_interval_panics:
  "validate (Interval 9223372036854776 0) = Inr () \<and>
    next_interval sample_lib sample_interval 9223372036854776 0 0 = None"
  by (subst next_interval_branches [where z = utc_zone])
    (simp_all add: validate_def MIN_INTERVAL_SECS_def sample_interval_def timezone_def
      sample_lib_def sample_tz_def)

section \<open>Civil time\<close>

text \<open>C2: A wall-clock time in a spring-forward gap resolves to the first second after the gap that
  exists, counted on the second grid of the requested time, and the search neither panics
  nor gives up while the gap is at most three hours.\<close>

theorem gap_resolves_to_first_valid_second:
  assumes "zone_ok z" "gap_of z (at_time d at) g t"
    and "in_calendar L (at_time d at) (at_time d at + 10801 * sec_ns)"
  shows "resolve_local L z d at FirstValidAfterGap FirstOccurrence = Some (Some t) \<and>
    naive_local z t = at_time d at + int g * sec_ns"
proof
  show "resolve_local L z d at FirstValidAfterGap FirstOccurrence = Some (Some t)"
    unfolding resolve_local_def by (rule resolve_naive_gap [OF assms])
  have "from_local_datetime z (at_time d at + int g * sec_ns) = Single t"
    using assms(2) by (simp add: gap_of_def)
  then show "naive_local z t = at_time d at + int g * sec_ns"
    using assms(1) unfolding zone_ok_def by blast
qed

theorem gap_resolves_to_first_valid_second_witness:
  "resolve_local sample_lib helsinki 20541 (3 * hour_ns + hour_ns div 2)
     FirstValidAfterGap FirstOccurrence = Some (Some spring)"
proof -
  let ?n = "at_time 20541 (3 * hour_ns + hour_ns div 2)"
  have n: "spring + 2 * hour_ns \<le> ?n" "?n < spring + 3 * hour_ns"
    by (simp_all add: at_time_def spring_def hour_ns_def day_ns_def)
  show ?thesis
    using gap_resolves_to_first_valid_second [OF zone_helsinki helsinki_gap(1) [OF n]
        helsinki_calendar [OF n]]
    by (simp add: at_time_def spring_def hour_ns_def day_ns_def sec_ns_def)
qed

text \<open>A day the month lacks is clamped: the resulting date is in the requested month, its day
  is the requested one or the month's last, and no date of that month has a later day.\<close>

theorem clamp_month_day_exact:
  assumes "calendar_ok L" "clamp_month_day L y m day Clamp = Some (Some d)"
  shows "date_year L d = y \<and> date_month L d = m \<and>
    (\<exists>len. days_in_month L y m = Some len \<and> date_day L d = min day len \<and>
      (\<forall>k x. from_ymd_opt L y m k = Some x \<longrightarrow> k \<le> len))"
  using clamp_month_day_in [OF assms] days_in_month_last [OF assms(1)] by blast

theorem clamp_month_day_exact_witness:
  "date_day sample_lib (20453 + 59) = 28 \<and>
    clamp_month_day sample_lib 2026 2 31 Clamp = Some (Some (20453 + 59))"
proof -
  have c: "clamp_month_day sample_lib 2026 2 31 Clamp = Some (Some (20453 + 59))"
    and len: "days_in_month sample_lib 2026 2 = Some 28" by code_simp+
  show ?thesis using clamp_month_day_exact [OF calendar_sample c] c len by auto
qed

section \<open>Weekdays and construction\<close>

text \<open>A weekday set survives its list and its raw byte: listing the days gives them once each,
  Monday first, and building a set from that list, or from the byte, gives the set back.\<close>

theorem weekdays_roundtrip:
  assumes "well_formed_days w"
  shows "from_slice (weekdays_iter w) = w \<and> from_u8 (as_u8 w) = w \<and>
    distinct (weekdays_iter w) \<and> sorted (map num_days_from_monday (weekdays_iter w))"
proof -
  have "from_slice (weekdays_iter w) = w"
    by (rule weekdays_eqI)
      (simp_all add: assms from_slice_def well_formed_foldl well_formed_new contains_foldl set_iter)
  moreover have "from_u8 (as_u8 w) = w"
    using assms by (cases w) (simp add: from_u8_def well_formed_days_def)
  ultimately show ?thesis by (simp add: iter_distinct iter_sorted)
qed

theorem weekdays_roundtrip_witness:
  "from_slice (weekdays_iter (Weekdays 0b0010101)) = Weekdays 0b0010101"
  using weekdays_roundtrip [of "Weekdays 0b0010101"] by (simp add: well_formed_days_def)

text \<open>A weekly schedule on all seven days searches exactly as the daily one.\<close>

theorem weekly_all_days_is_daily:
  "next_weekly L oc (from_slice ORDER) at after = next_daily L oc at after"
proof -
  have all: "weekdays_contains (from_slice ORDER) d" for d
    by (cases d) (simp_all add: from_slice_def contains_foldl ORDER_def)
  then have "\<not> weekdays_is_empty (from_slice ORDER)"
    by (auto simp: weekdays_is_empty_def weekdays_contains_def)
  then show ?thesis by (simp add: next_weekly_def next_daily_def weekly_scan_all_days [OF all])
qed

text \<open>Every schedule \<open>Occurrence::new\<close> accepts is well formed (a valid kind, a known zone,
  counters in their width), and every operation keeps it so.\<close>

theorem occurrence_wf_invariant:
  assumes "occurrence_new L k name = Inr oc"
    and "next_fire L oc after = Some (oc', r)"
  shows "occurrence_wf L oc \<and> occurrence_wf L oc' \<and> occurrence_wf L (skip_next oc') \<and>
    occurrence_wf L (record_run oc') \<and> occurrence_wf L (exclude_date oc' d) \<and>
    occurrence_wf L (clear_exclusion oc' d)"
proof -
  have wf: "occurrence_wf L oc" by (rule occurrence_new_wf [OF assms(1)])
  obtain p where "p \<le> pending_skips oc" "oc' = oc\<lparr>pending_skips := p\<rparr>"
    using next_fire_frame [OF assms(2)] by blast
  with wf have "occurrence_wf L oc'" by (simp add: occurrence_wf_def)
  with wf show ?thesis using updates_wf by simp
qed

definition fresh_once :: occurrence where
  "fresh_once = \<lparr> kind = Once 0, tz = ''UTC'', dst_gap = FirstValidAfterGap,
     dst_fold = FirstOccurrence, invalid_monthday = Clamp, valid_from = None, valid_until = None,
     max_runs = None, runs_done = 0, exclusions = {}, pending_skips = 0 \<rparr>"

theorem occurrence_wf_invariant_witness:
  "occurrence_wf sample_lib (skip_next fresh_once)"
proof -
  have new: "occurrence_new sample_lib (Once 0) ''UTC'' = Inr fresh_once"
    by (simp add: occurrence_new_def validate_def sample_lib_def sample_tz_def fresh_once_def)
  have "next_fire sample_lib fresh_once 5 = Some (fresh_once, None)"
    by (simp add: next_fire_def runs_exhausted_def timezone_def search_floor_def MAX_CANDIDATES_def
        candidates_numeral raw_next_after_def next_once_def resolve_def resolve_local_def
        resolve_naive_def at_time_def date_of_def time_of_def fresh_once_def sample_lib_def
        sample_tz_def utc_zone_def)
  from occurrence_wf_invariant [OF new this] show ?thesis by simp
qed

text \<open>
  A mask with only its eighth bit set passes \<open>validate\<close>, yet contains no day.
\<close>

lemma eighth_bit_mask_is_no_day:
  "validate (Weekly (Weekdays 128) at) = Inr () \<and> \<not> weekdays_contains (Weekdays 128) d"
  by (cases d)
    (simp_all add: validate_def weekdays_is_empty_def weekdays_contains_def weekday_bit_def)

end
