(* ===== verification/Event_Record.thy ===== *)
theory Event_Record
  imports Chrono_Lib
begin

text \<open>
  \<open>events/record.rs\<close>: the run-state vocabulary and the event line. \<open>EventRecord::new\<close> takes
  its clock reading and its fresh id as arguments; the \<open>detail\<close> value is its JSON text.
  Constructors that the store's outcomes also use carry the suffix \<open>Ev\<close>.
\<close>

datatype run_state =
    Registered | Fired | FiredLate | SkippedMisfireEv | Coalesced | WakeDeliveredEv | WakeFailedEv
  | NoAck | Pruned | YearRecalibrate | WakeCapability | Acknowledged | Running | Completed | Failed
  | Cancelled | Superseded | ReplyRejected

definition is_terminal :: "run_state \<Rightarrow> bool" where
  "is_terminal s \<longleftrightarrow> s \<in> {Completed, Failed, NoAck, Cancelled, Superseded}"

definition is_app_writable :: "run_state \<Rightarrow> bool" where
  "is_app_writable s \<longleftrightarrow> s \<in> {Acknowledged, Running, Completed, Failed}"

definition as_str :: "run_state \<Rightarrow> string" where
  "as_str s = (case s of
     Registered \<Rightarrow> ''registered'' | Fired \<Rightarrow> ''fired'' | FiredLate \<Rightarrow> ''fired_late''
   | SkippedMisfireEv \<Rightarrow> ''skipped_misfire'' | Coalesced \<Rightarrow> ''coalesced''
   | WakeDeliveredEv \<Rightarrow> ''wake_delivered'' | WakeFailedEv \<Rightarrow> ''wake_failed''
   | NoAck \<Rightarrow> ''no_ack'' | Pruned \<Rightarrow> ''pruned'' | YearRecalibrate \<Rightarrow> ''year_recalibrate''
   | WakeCapability \<Rightarrow> ''wake_capability'' | Acknowledged \<Rightarrow> ''acknowledged''
   | Running \<Rightarrow> ''running'' | Completed \<Rightarrow> ''completed'' | Failed \<Rightarrow> ''failed''
   | Cancelled \<Rightarrow> ''cancelled'' | Superseded \<Rightarrow> ''superseded''
   | ReplyRejected \<Rightarrow> ''reply_rejected'')"

definition from_wire :: "string \<Rightarrow> run_state option" where
  "from_wire s =
     (if s = ''registered'' then Some Registered
      else if s = ''fired'' then Some Fired
      else if s = ''fired_late'' then Some FiredLate
      else if s = ''skipped_misfire'' then Some SkippedMisfireEv
      else if s = ''coalesced'' then Some Coalesced
      else if s = ''wake_delivered'' then Some WakeDeliveredEv
      else if s = ''wake_failed'' then Some WakeFailedEv
      else if s = ''no_ack'' then Some NoAck
      else if s = ''pruned'' then Some Pruned
      else if s = ''year_recalibrate'' then Some YearRecalibrate
      else if s = ''wake_capability'' then Some WakeCapability
      else if s = ''acknowledged'' then Some Acknowledged
      else if s = ''running'' then Some Running
      else if s = ''completed'' then Some Completed
      else if s = ''failed'' then Some Failed
      else if s = ''cancelled'' then Some Cancelled
      else if s = ''superseded'' then Some Superseded
      else if s = ''reply_rejected'' then Some ReplyRejected
      else None)"

lemma from_wire_as_str [simp]: "from_wire (as_str s) = Some s"
  by (cases s) (simp_all add: from_wire_def as_str_def)

lemma as_str_eq [simp]: "as_str s = as_str t \<longleftrightarrow> s = t"
  by (metis from_wire_as_str option.inject)

lemma from_wire_Some: "from_wire w = Some s \<longleftrightarrow> w = as_str s"
proof
  show "from_wire w = Some s \<Longrightarrow> w = as_str s"
    by (auto simp: from_wire_def as_str_def split: if_splits)
qed simp

section \<open>Event lines\<close>

record event =
  e_logged_at :: instant
  e_kind :: run_state
  e_id :: nat
  e_timer_id :: "nat option"
  e_run_id :: "nat option"
  e_timer_name :: "string option"
  e_scheduled_for :: "instant option"
  e_duration_ms :: "int option"
  e_count :: "nat option"
  e_message :: "string option"
  e_error :: "string option"
  e_detail :: "string option"

definition event_new :: "instant \<Rightarrow> nat \<Rightarrow> run_state \<Rightarrow> event" where
  "event_new now eid k = \<lparr>
     e_logged_at = now, e_kind = k, e_id = eid, e_timer_id = None, e_run_id = None,
     e_timer_name = None, e_scheduled_for = None, e_duration_ms = None, e_count = None,
     e_message = None, e_error = None, e_detail = None \<rparr>"

definition with_timer :: "event \<Rightarrow> nat \<Rightarrow> string \<Rightarrow> event" where
  "with_timer e i name = e\<lparr>e_timer_id := Some i, e_timer_name := Some name\<rparr>"

definition with_run :: "event \<Rightarrow> nat \<Rightarrow> event" where
  "with_run e i = e\<lparr>e_run_id := Some i\<rparr>"

definition with_scheduled_for :: "event \<Rightarrow> instant \<Rightarrow> event" where
  "with_scheduled_for e t = e\<lparr>e_scheduled_for := Some t\<rparr>"

definition with_message :: "event \<Rightarrow> string \<Rightarrow> event" where
  "with_message e m = e\<lparr>e_message := Some m\<rparr>"

definition with_error :: "event \<Rightarrow> string \<Rightarrow> event" where
  "with_error e m = e\<lparr>e_error := Some m\<rparr>"

definition with_count :: "event \<Rightarrow> nat \<Rightarrow> event" where
  "with_count e n = e\<lparr>e_count := Some n\<rparr>"

definition with_duration_ms :: "event \<Rightarrow> int \<Rightarrow> event" where
  "with_duration_ms e n = e\<lparr>e_duration_ms := Some n\<rparr>"

definition with_detail :: "event \<Rightarrow> string \<Rightarrow> event" where
  "with_detail e d = e\<lparr>e_detail := Some d\<rparr>"

definition with_logged_at :: "event \<Rightarrow> instant \<Rightarrow> event" where
  "with_logged_at e t = e\<lparr>e_logged_at := t\<rparr>"

lemmas event_defs = event_new_def with_timer_def with_run_def with_scheduled_for_def
  with_message_def with_error_def with_count_def with_duration_ms_def with_detail_def
  with_logged_at_def

section \<open>Decimal text\<close>

text \<open>\<open>u64::to_string\<close>, for the messages the code formats.\<close>

fun decimal :: "nat \<Rightarrow> string" where
  "decimal n = (if n < 10 then [char_of (48 + n)] else decimal (n div 10) @ [char_of (48 + n mod 10)])"

declare decimal.simps [simp del]

end
