(* ===== verification/Sql_Table.thy ===== *)
theory Sql_Table
  imports Bellman_Prelude "HOL-Library.List_Lexorder" "HOL-Library.Product_Lexorder"
    "HOL-Library.Char_ord"
begin

text \<open>
  A SQL table as the list of its rows, and the statements the store issues on one:
  \<open>SELECT ... WHERE key = ?\<close>, \<open>INSERT\<close>, \<open>UPDATE ... WHERE\<close>, \<open>DELETE ... WHERE\<close>,
  \<open>SELECT MAX\<close>. A primary key is \<open>keyed\<close>: no two rows share it. \<open>ORDER BY\<close> is
  \<open>sort_key\<close>; the text collation of SQLite is the lexicographic order of \<open>List_Lexorder\<close>.
\<close>

definition row_get :: "('r \<Rightarrow> 'k) \<Rightarrow> 'k \<Rightarrow> 'r list \<Rightarrow> 'r option" where
  "row_get key k rows = List.find (\<lambda>r. key r = k) rows"

definition row_set :: "('r \<Rightarrow> bool) \<Rightarrow> ('r \<Rightarrow> 'r) \<Rightarrow> 'r list \<Rightarrow> 'r list" where
  "row_set P f rows = map (\<lambda>r. if P r then f r else r) rows"

definition row_del :: "('r \<Rightarrow> bool) \<Rightarrow> 'r list \<Rightarrow> 'r list" where
  "row_del P rows = filter (\<lambda>r. \<not> P r) rows"

text \<open>The number of rows a statement affects, as \<open>rusqlite\<close>'s \<open>execute\<close> returns it.\<close>

definition row_count :: "('r \<Rightarrow> bool) \<Rightarrow> 'r list \<Rightarrow> nat" where
  "row_count P rows = length (filter P rows)"

text \<open>\<open>COALESCE(MAX(column), 0)\<close>\<close>

definition max_or_0 :: "nat list \<Rightarrow> nat" where
  "max_or_0 ns = foldr max ns 0"

definition keyed :: "('r \<Rightarrow> 'k) \<Rightarrow> 'r list \<Rightarrow> bool" where
  "keyed key rows \<longleftrightarrow> distinct (map key rows)"

section \<open>Lookups\<close>

lemma row_get_Some: "row_get key k rows = Some r \<Longrightarrow> r \<in> set rows \<and> key r = k"
  by (auto simp: row_get_def find_Some_iff)

lemma row_get_None: "row_get key k rows = None \<longleftrightarrow> k \<notin> key ` set rows"
  by (auto simp: row_get_def find_None_iff)

lemma row_get_in: "keyed key rows \<Longrightarrow> r \<in> set rows \<Longrightarrow> row_get key (key r) rows = Some r"
  unfolding keyed_def row_get_def
  by (induction rows) auto

lemma row_get_iff: "keyed key rows \<Longrightarrow> row_get key k rows = Some r \<longleftrightarrow> r \<in> set rows \<and> key r = k"
  using row_get_in [of key rows r] row_get_Some [of key k rows r] by auto

lemma row_get_append [tbl_simps]:
  "row_get key k (rows @ [r]) =
     (case row_get key k rows of Some x \<Rightarrow> Some x | None \<Rightarrow> if key r = k then Some r else None)"
  by (induction rows) (auto simp: row_get_def)

lemma keyed_append: "keyed key (rows @ [r]) \<longleftrightarrow> keyed key rows \<and> key r \<notin> key ` set rows"
  by (auto simp: keyed_def)

lemma keyed_del: "keyed key rows \<Longrightarrow> keyed key (row_del P rows)"
  by (simp add: keyed_def row_del_def distinct_map_filter)

lemma row_get_del [tbl_simps]:
  "row_get key k (row_del (\<lambda>r. key r = j) rows) = (if k = j then None else row_get key k rows)"
  by (induction rows) (auto simp: row_get_def row_del_def)

lemma row_del_none: "k \<notin> key ` set rows \<Longrightarrow> row_del (\<lambda>r. key r = k) rows = rows"
  by (auto simp: row_del_def filter_id_conv)

lemma set_row_set: "set (row_set P f rows) = (\<lambda>r. if P r then f r else r) ` set rows"
  by (simp add: row_set_def)

lemma set_row_del: "set (row_del P rows) = {r \<in> set rows. \<not> P r}"
  by (auto simp: row_del_def)

lemma length_row_set [simp]: "length (row_set P f rows) = length rows"
  by (simp add: row_set_def)

lemma row_count_0: "row_count P rows = 0 \<longleftrightarrow> (\<forall>r\<in>set rows. \<not> P r)"
  by (auto simp: row_count_def filter_empty_conv)

text \<open>A statement on one primary key affects at most one row.\<close>

lemma row_count_key:
  "keyed key rows \<Longrightarrow> row_count (\<lambda>r. key r = k \<and> Q r) rows =
     (case row_get key k rows of Some r \<Rightarrow> if Q r then 1 else 0 | None \<Rightarrow> 0)"
proof (induction rows)
  case (Cons a rows)
  show ?case
  proof (cases "key a = k")
    case True
    with Cons.prems have "row_get key k rows = None"
      by (auto simp: row_get_None keyed_def)
    with Cons True show ?thesis by (auto simp: row_count_def row_get_def keyed_def)
  next
    case False
    with Cons show ?thesis by (simp add: row_count_def row_get_def keyed_def)
  qed
qed (simp add: row_count_def row_get_def)

section \<open>Maxima\<close>

lemma max_or_0_ge: "n \<in> set ns \<Longrightarrow> n \<le> max_or_0 ns"
  by (induction ns) (auto simp: max_or_0_def le_max_iff_disj)

lemma max_or_0_in: "ns \<noteq> [] \<Longrightarrow> max_or_0 ns \<in> set ns"
  by (induction ns) (auto simp: max_or_0_def max_def split: if_splits,
    metis foldr.simps(1) id_apply le_zero_eq)

section \<open>Updates that keep the key\<close>

text \<open>
  The contract of an \<open>UPDATE\<close> that does not write its table's primary key: it leaves the
  table keyed, and a lookup sees the written row or the old one.
\<close>

locale key_kept =
  fixes key :: "'r \<Rightarrow> 'k" and f :: "'r \<Rightarrow> 'r"
  assumes key_f [simp]: "key (f r) = key r"
begin

lemma map_key_set [simp]: "map key (row_set P f rows) = map key rows"
  by (simp add: row_set_def)

lemma keyed_set [simp]: "keyed key (row_set P f rows) \<longleftrightarrow> keyed key rows"
  by (simp add: keyed_def)

lemma keyed_set_by: "(\<And>r. key' r = h (key r)) \<Longrightarrow> keyed key' (row_set P f rows) \<longleftrightarrow> keyed key' rows"
proof -
  assume "\<And>r. key' r = h (key r)"
  then have "key' = h \<circ> key" by (simp add: fun_eq_iff)
  then have "map key' (row_set P f rows) = map key' rows" by (simp flip: map_map)
  then show ?thesis by (simp add: keyed_def)
qed

lemma get_set:
  "row_get key k (row_set P f rows) =
     map_option (\<lambda>r. if P r then f r else r) (row_get key k rows)"
  by (induction rows) (auto simp: row_get_def row_set_def)

lemma get_set_key:
  "row_get key k (row_set (\<lambda>r. key r = j \<and> Q r) f rows) =
     (if k = j then map_option (\<lambda>r. if Q r then f r else r) (row_get key k rows)
      else row_get key k rows)"
proof -
  have "row_get key k rows = Some r \<Longrightarrow> key r = k" for r using row_get_Some by metis
  then show ?thesis unfolding get_set by (cases "row_get key k rows") auto
qed

end

end
