(* ===== verification/Store_Models.thy ===== *)
theory Store_Models
  imports Occurrence_Schedule Event_Record Sql_Table
begin

text \<open>
  \<open>store/models.rs\<close> and \<open>store/error.rs\<close>: the rows of the store. A \<open>Uuid\<close> is a natural
  number (its text form sorts as the number does); JSON texts and payloads are strings. The
  \<open>u32\<close> and \<open>u64\<close> fields are naturals; a row keeps what reading it back gives, so the
  conversions of the \<open>i64\<close> columns stand where a row is written.
\<close>

type_synonym uuid = nat

section \<open>Errors\<close>

datatype store_error =
    Sqlite string
  | Io string
  | NetworkFilesystem string
  | NotFound uuid
  | StaleRevision uuid int int
  | AlreadyClaimed uuid instant
  | RunNotFound uuid
  | InvalidOccurrence kind_error
  | Serde string
  | Internal string

section \<open>Policies and actions\<close>

datatype misfire_policy = MisfireSkip | Coalesce nat | CatchUp nat nat

definition CALENDAR_GRACE_SECS :: nat where "CALENDAR_GRACE_SECS = 3600"

definition default_calendar :: misfire_policy where
  "default_calendar = Coalesce CALENDAR_GRACE_SECS"

definition default_interval :: misfire_policy where
  "default_interval = MisfireSkip"

definition for_occurrence :: "occurrence \<Rightarrow> misfire_policy" where
  "for_occurrence oc = (if is_elapsed_time (kind oc) then default_interval else default_calendar)"

definition grace_secs :: "misfire_policy \<Rightarrow> nat option" where
  "grace_secs p = (case p of MisfireSkip \<Rightarrow> None | Coalesce g \<Rightarrow> Some g | CatchUp g _ \<Rightarrow> Some g)"

datatype overlap_policy = OverlapSkip | QueueOne | Parallel nat | Replace

record retry_policy =
  max_retries :: nat
  delay_secs :: nat

definition retry_default :: retry_policy where
  "retry_default = \<lparr>max_retries = 1, delay_secs = 30\<rparr>"

datatype action =
    Launch string "string list" "string option"
  | Notify string string
  | NoAction

datatype transport_mode = TJson | TIpc | TAuto

definition transport_as_str :: "transport_mode \<Rightarrow> string" where
  "transport_as_str m = (case m of TJson \<Rightarrow> ''json'' | TIpc \<Rightarrow> ''ipc'' | TAuto \<Rightarrow> ''auto'')"

definition transport_from_wire :: "string \<Rightarrow> transport_mode option" where
  "transport_from_wire s =
     (if s = ''json'' then Some TJson else if s = ''ipc'' then Some TIpc
      else if s = ''auto'' then Some TAuto else None)"

definition TRANSPORT_JSON :: string where "TRANSPORT_JSON = ''json''"
definition TRANSPORT_IPC :: string where "TRANSPORT_IPC = ''ipc''"
definition TRANSPORT_IPC_FALLBACK :: string where "TRANSPORT_IPC_FALLBACK = ''ipc_fallback''"

section \<open>Timers\<close>

record timer =
  t_id :: uuid
  t_name :: string
  t_enabled :: bool
  t_occurrence :: occurrence
  t_tz :: string
  t_next_fire :: "instant option"
  t_last_fired :: "instant option"
  t_misfire :: misfire_policy
  t_overlap :: overlap_policy
  t_retry :: retry_policy
  t_valid_from :: "instant option"
  t_valid_until :: "instant option"
  t_max_runs :: "nat option"
  t_tags :: "string list"
  t_action :: action
  t_revision :: int
  t_jitter_secs :: nat
  t_accuracy_slack_secs :: "nat option"
  t_wake_machine :: bool
  t_transport :: transport_mode

record new_timer =
  n_id :: "uuid option"
  n_name :: string
  n_enabled :: bool
  n_occurrence :: occurrence
  n_misfire :: misfire_policy
  n_overlap :: overlap_policy
  n_retry :: retry_policy
  n_tags :: "string list"
  n_action :: action
  n_last_fired :: "instant option"
  n_jitter_secs :: nat
  n_accuracy_slack_secs :: "nat option"
  n_wake_machine :: bool
  n_transport :: transport_mode

definition new_timer_new :: "string \<Rightarrow> occurrence \<Rightarrow> new_timer" where
  "new_timer_new name oc = \<lparr>
     n_id = None, n_name = name, n_enabled = True, n_occurrence = oc,
     n_misfire = for_occurrence oc, n_overlap = OverlapSkip, n_retry = retry_default,
     n_tags = [], n_action = NoAction, n_last_fired = None, n_jitter_secs = 0,
     n_accuracy_slack_secs = None, n_wake_machine = False, n_transport = TJson \<rparr>"

record timer_patch =
  u_name :: "string option"
  u_enabled :: "bool option"
  u_occurrence :: "occurrence option"
  u_misfire :: "misfire_policy option"
  u_overlap :: "overlap_policy option"
  u_retry :: "retry_policy option"
  u_tags :: "string list option"
  u_action :: "action option"
  u_last_fired :: "instant option option"
  u_jitter_secs :: "nat option"
  u_accuracy_slack_secs :: "nat option option"
  u_wake_machine :: "bool option"
  u_transport :: "transport_mode option"

definition empty_patch :: timer_patch where
  "empty_patch = \<lparr>u_name = None, u_enabled = None, u_occurrence = None, u_misfire = None,
     u_overlap = None, u_retry = None, u_tags = None, u_action = None, u_last_fired = None,
     u_jitter_secs = None, u_accuracy_slack_secs = None, u_wake_machine = None,
     u_transport = None\<rparr>"

record timer_update =
  up_id :: uuid
  up_expected_revision :: int
  up_patch :: timer_patch

section \<open>The claim ledger\<close>

datatype claim_status = Pending | Active | Finished

definition status_as_str :: "claim_status \<Rightarrow> string" where
  "status_as_str s = (case s of Pending \<Rightarrow> ''pending'' | Active \<Rightarrow> ''active'' | Finished \<Rightarrow> ''finished'')"

definition status_from_str :: "string \<Rightarrow> string + claim_status" where
  "status_from_str s =
     (if s = ''pending'' then Inr Pending else if s = ''active'' then Inr Active
      else if s = ''finished'' then Inr Finished
      else if s = ''claimed'' then Inr Pending
      else if s = ''completed'' \<or> s = ''wake_failed'' then Inr Finished
      else Inl s)"

datatype run_outcome = WakeDelivered | WakeFailed | SkippedMisfire

definition outcome_as_str :: "run_outcome \<Rightarrow> string" where
  "outcome_as_str r = (case r of
     WakeDelivered \<Rightarrow> ''wake_delivered'' | WakeFailed \<Rightarrow> ''wake_failed''
   | SkippedMisfire \<Rightarrow> ''skipped_misfire'')"

definition outcome_from_wire :: "string \<Rightarrow> run_outcome option" where
  "outcome_from_wire s =
     (if s = ''wake_delivered'' then Some WakeDelivered
      else if s = ''wake_failed'' then Some WakeFailed
      else if s = ''skipped_misfire'' then Some SkippedMisfire else None)"

record slot_request =
  q_request_id :: string
  q_slot_id :: string
  q_operation :: string
  q_app_name :: "string option"
  q_timer_id :: "uuid option"
  q_status :: string
  q_response_json :: string
  q_created_at :: instant

record run_claim =
  r_id :: uuid
  r_timer :: uuid
  r_scheduled_for :: instant
  r_status :: claim_status
  r_claimed_at :: instant
  r_completed_at :: "instant option"
  r_event_sequence :: nat
  r_outcome :: "run_outcome option"
  r_outcome_reason :: "string option"
  r_cancel_requested :: bool

definition is_unfinished :: "run_claim \<Rightarrow> bool" where
  "is_unfinished r \<longleftrightarrow> r_status r \<noteq> Finished"

section \<open>Transport projections\<close>

record transport_projection =
  p_run_id :: uuid
  p_timer_id :: uuid
  p_kind :: string
  p_target_path :: string
  p_payload :: string
  p_publication_order :: nat
  p_state :: string
  p_attempts :: nat
  p_next_attempt_at :: instant
  p_created_at :: instant
  p_published_at :: "instant option"

definition PENDING :: string where "PENDING = ''pending''"
definition PUBLISHED :: string where "PUBLISHED = ''published''"
definition OBSOLETE :: string where "OBSOLETE = ''obsolete''"
definition PICKED_UP :: string where "PICKED_UP = ''picked_up''"
definition KIND_FILE :: string where "KIND_FILE = ''file''"
definition KIND_IPC :: string where "KIND_IPC = ''ipc''"

lemma projection_states [simp]:
  "PENDING \<noteq> PUBLISHED" "PENDING \<noteq> OBSOLETE" "PENDING \<noteq> PICKED_UP" "PUBLISHED \<noteq> PENDING"
  "PUBLISHED \<noteq> OBSOLETE" "PUBLISHED \<noteq> PICKED_UP" "OBSOLETE \<noteq> PENDING" "OBSOLETE \<noteq> PUBLISHED"
  "OBSOLETE \<noteq> PICKED_UP" "PICKED_UP \<noteq> PENDING" "PICKED_UP \<noteq> PUBLISHED" "PICKED_UP \<noteq> OBSOLETE"
  by (simp_all add: PENDING_def PUBLISHED_def OBSOLETE_def PICKED_UP_def)

section \<open>Run states\<close>

datatype failure_kind = Reported | TimedOut

definition failure_as_str :: "failure_kind \<Rightarrow> string" where
  "failure_as_str k = (case k of Reported \<Rightarrow> ''reported'' | TimedOut \<Rightarrow> ''timed_out'')"

definition failure_from_wire :: "string \<Rightarrow> failure_kind option" where
  "failure_from_wire s =
     (if s = ''reported'' then Some Reported else if s = ''timed_out'' then Some TimedOut else None)"

record run_state_row =
  s_run_id :: uuid
  s_timer_id :: uuid
  s_app_name :: string
  s_state :: string
  s_fired_at :: instant
  s_pickup_deadline :: "instant option"
  s_acknowledged_at :: "instant option"
  s_expected_secs :: "nat option"
  s_error_detection :: "bool option"
  s_heartbeat_at :: "instant option"
  s_progress :: "string option"
  s_completed_at :: "instant option"
  s_failed_at :: "instant option"
  s_reason :: "string option"
  s_failure_kind :: "failure_kind option"
  s_result_json :: "string option"
  s_result_truncated :: bool
  s_watchdog_deadline :: "instant option"
  s_no_ack_at :: "instant option"
  s_reply_digest :: "string option"
  s_acknowledged_logged :: bool
  s_running_logged :: bool
  s_selected_transport :: "string option"
  s_transport :: "string option"

definition run_state_fired ::
  "uuid \<Rightarrow> uuid \<Rightarrow> string \<Rightarrow> string \<Rightarrow> instant \<Rightarrow> instant \<Rightarrow> run_state_row" where
  "run_state_fired run_id timer_id app_name fire_state fired_at pickup_deadline = \<lparr>
     s_run_id = run_id, s_timer_id = timer_id, s_app_name = app_name, s_state = fire_state,
     s_fired_at = fired_at, s_pickup_deadline = Some pickup_deadline, s_acknowledged_at = None,
     s_expected_secs = None, s_error_detection = None, s_heartbeat_at = None, s_progress = None,
     s_completed_at = None, s_failed_at = None, s_reason = None, s_failure_kind = None,
     s_result_json = None, s_result_truncated = False, s_watchdog_deadline = None,
     s_no_ack_at = None, s_reply_digest = None, s_acknowledged_logged = False,
     s_running_logged = False, s_selected_transport = None, s_transport = None \<rparr>"

definition run_state_with_transport :: "run_state_row \<Rightarrow> string \<Rightarrow> run_state_row" where
  "run_state_with_transport row selected =
     row\<lparr>s_selected_transport := Some selected, s_transport := Some selected\<rparr>"

definition row_run_state :: "run_state_row \<Rightarrow> run_state option" where
  "row_run_state row = from_wire (s_state row)"

definition row_is_terminal :: "run_state_row \<Rightarrow> bool" where
  "row_is_terminal row = (case row_run_state row of None \<Rightarrow> False | Some s \<Rightarrow> is_terminal s)"

definition is_app_authored_terminal :: "run_state_row \<Rightarrow> bool" where
  "is_app_authored_terminal row =
     (case row_run_state row of
        Some Completed \<Rightarrow> True
      | Some Failed \<Rightarrow> s_failure_kind row = Some Reported
      | _ \<Rightarrow> False)"

section \<open>Bookkeeping rows\<close>

record meta_row =
  schema_version :: int
  last_prune :: "instant option"
  last_recalibration :: "instant option"
  tzdata_version :: "string option"

datatype rotation_phase = Renamed | Finalized | SourceRemoved

definition phase_as_str :: "rotation_phase \<Rightarrow> string" where
  "phase_as_str p = (case p of
     Renamed \<Rightarrow> ''renamed'' | Finalized \<Rightarrow> ''finalized'' | SourceRemoved \<Rightarrow> ''source_removed'')"

definition phase_from_wire :: "string \<Rightarrow> rotation_phase option" where
  "phase_from_wire s =
     (if s = ''renamed'' then Some Renamed else if s = ''finalized'' then Some Finalized
      else if s = ''source_removed'' then Some SourceRemoved else None)"

record rotation_journal =
  j_source :: string
  j_rotating :: string
  j_gz_tmp :: string
  j_final_path :: string
  j_phase :: rotation_phase
  j_started_at :: instant

lemma wire_roundtrips [simp]:
  "transport_from_wire (transport_as_str m) = Some m"
  "status_from_str (status_as_str c) = Inr c"
  "outcome_from_wire (outcome_as_str r) = Some r"
  "failure_from_wire (failure_as_str k) = Some k"
  "phase_from_wire (phase_as_str p) = Some p"
  subgoal by (cases m) (simp_all add: transport_from_wire_def transport_as_str_def)
  subgoal by (cases c) (simp_all add: status_from_str_def status_as_str_def)
  subgoal by (cases r) (simp_all add: outcome_from_wire_def outcome_as_str_def)
  subgoal by (cases k) (simp_all add: failure_from_wire_def failure_as_str_def)
  subgoal by (cases p) (simp_all add: phase_from_wire_def phase_as_str_def)
  done

end
