(* ===== verification/Store_Timers.thy ===== *)
theory Store_Timers
  imports Store_Models
begin

text \<open>
  \<open>store/mod.rs\<close>, first part: the database as a record of tables, the timer operations, the
  slot-request ledger, ownership and bookkeeping. \<open>Utc::now()\<close> and \<open>Uuid::new_v4()\<close> are the
  arguments \<open>now\<close> and \<open>fresh\<close>. A statement either succeeds or answers a \<open>store_error\<close>; the
  failures of SQLite itself (I/O, a busy database, malformed stored JSON) are not modelled.
  A transaction that fails leaves the store as it was, so a fallible operation answers the
  new store only with its success. Instants are stored as RFC 3339 texts of nine decimals,
  whose order is the instants' for the years 0 to 9999.
\<close>

record outbox_row =
  o_event_id :: uuid
  o_payload :: event
  o_enqueued_at :: instant

record store =
  timers :: "timer list"
  runs :: "run_claim list"
  run_states :: "run_state_row list"
  slot_requests :: "slot_request list"
  timer_owners :: "(uuid \<times> string) list"
  slot_event_acks :: "(uuid \<times> nat) list"
  event_outbox :: "outbox_row list"
  rotation_journal_row :: "rotation_journal option"
  transport_projections :: "transport_projection list"
  target_cursors :: "(string \<times> nat) list"
  meta :: meta_row
  horizon_queries :: nat

text \<open>
  A store is threaded through \<open>store_error + 'a\<close> results; \<open>bindE\<close> is Rust's \<open>?\<close>. The
  exception is \<open>create_timer\<close> and \<open>update_timer\<close>, which can also panic (an unknown zone, a
  date out of range): their results are \<open>exec\<close>s.
\<close>

definition bindE :: "'e + 'a \<Rightarrow> ('a \<Rightarrow> 'e + 'b) \<Rightarrow> 'e + 'b" where
  "bindE r f = (case r of Inl e \<Rightarrow> Inl e | Inr a \<Rightarrow> f a)"

lemma bindE_simps [simp]: "bindE (Inl e) f = Inl e" "bindE (Inr a) f = f a"
  by (simp_all add: bindE_def)

lemma bindE_Inr: "bindE r f = Inr b \<longleftrightarrow> (\<exists>a. r = Inr a \<and> f a = Inr b)"
  by (cases r) auto

section \<open>Column conversions\<close>

definition max_runs_to_sql :: "nat option \<Rightarrow> int option" where
  "max_runs_to_sql m = map_option (\<lambda>n. if int n \<le> i64_max then int n else i64_max) m"

definition max_runs_from_sql :: "int option \<Rightarrow> nat option" where
  "max_runs_from_sql m = map_option (\<lambda>n. if 0 \<le> n then nat n else u64_max) m"

definition saturating_add_1 :: "int \<Rightarrow> int" where
  "saturating_add_1 r = (if r < i64_max then r + 1 else i64_max)"

section \<open>Timers\<close>

definition compute_next_fire ::
  "lib \<Rightarrow> occurrence \<Rightarrow> instant option \<Rightarrow> instant \<Rightarrow> (occurrence \<times> instant option) exec" where
  "compute_next_fire L oc last_fired now =
     do { _ \<leftarrow> timezone L oc;
          next_fire L oc (case last_fired of None \<Rightarrow> now | Some t \<Rightarrow> t) }"

definition get_timer :: "store \<Rightarrow> uuid \<Rightarrow> timer option" where
  "get_timer s i = row_get t_id i (timers s)"

definition patch_field :: "'a option \<Rightarrow> 'a \<Rightarrow> 'a" where
  "patch_field p old = (case p of None \<Rightarrow> old | Some v \<Rightarrow> v)"

lemma patch_field_simps [simp]: "patch_field None old = old" "patch_field (Some v) old = v"
  by (simp_all add: patch_field_def)

definition apply_patch :: "timer \<Rightarrow> timer_patch \<Rightarrow> store_error + timer" where
  "apply_patch t p =
     (let t1 = t\<lparr>t_name := patch_field (u_name p) (t_name t),
                 t_enabled := patch_field (u_enabled p) (t_enabled t)\<rparr> in
      bindE
        (case u_occurrence p of
           None \<Rightarrow> Inr t1
         | Some oc \<Rightarrow>
             (case validate (kind oc) of
                Inl e \<Rightarrow> Inl (InvalidOccurrence e)
              | Inr _ \<Rightarrow> Inr (t1\<lparr>t_occurrence := oc\<rparr>)))
        (\<lambda>t2. Inr (t2\<lparr>
           t_misfire := patch_field (u_misfire p) (t_misfire t2),
           t_overlap := patch_field (u_overlap p) (t_overlap t2),
           t_retry := patch_field (u_retry p) (t_retry t2),
           t_tags := patch_field (u_tags p) (t_tags t2),
           t_action := patch_field (u_action p) (t_action t2),
           t_last_fired := patch_field (u_last_fired p) (t_last_fired t2),
           t_jitter_secs := patch_field (u_jitter_secs p) (t_jitter_secs t2),
           t_accuracy_slack_secs := patch_field (u_accuracy_slack_secs p) (t_accuracy_slack_secs t2),
           t_wake_machine := patch_field (u_wake_machine p) (t_wake_machine t2),
           t_transport := patch_field (u_transport p) (t_transport t2)\<rparr>)))"

text \<open>The row a write stores, as reading it back gives it.\<close>

definition timer_row :: "timer \<Rightarrow> timer" where
  "timer_row t = t\<lparr>t_max_runs := max_runs_from_sql (max_runs_to_sql (t_max_runs t))\<rparr>"

definition new_timer_row :: "uuid \<Rightarrow> new_timer \<Rightarrow> occurrence \<Rightarrow> instant option \<Rightarrow> timer" where
  "new_timer_row i new oc nxt = timer_row \<lparr>
     t_id = i, t_name = n_name new, t_enabled = n_enabled new, t_occurrence = oc,
     t_tz = tz oc, t_next_fire = nxt, t_last_fired = n_last_fired new,
     t_misfire = n_misfire new, t_overlap = n_overlap new, t_retry = n_retry new,
     t_valid_from = valid_from oc, t_valid_until = valid_until oc,
     t_max_runs = max_runs oc, t_tags = n_tags new, t_action = n_action new,
     t_revision = 1, t_jitter_secs = n_jitter_secs new,
     t_accuracy_slack_secs = n_accuracy_slack_secs new,
     t_wake_machine = n_wake_machine new, t_transport = n_transport new \<rparr>"

definition create_timer_tx ::
  "lib \<Rightarrow> instant \<Rightarrow> uuid \<Rightarrow> new_timer \<Rightarrow> store \<Rightarrow> (store_error + timer \<times> store) exec" where
  "create_timer_tx L now fresh new s =
     (case validate (kind (n_occurrence new)) of
        Inl e \<Rightarrow> ret (Inl (InvalidOccurrence e))
      | Inr _ \<Rightarrow>
          do { let i = (case n_id new of None \<Rightarrow> fresh | Some j \<Rightarrow> j);
               (oc, nxt) \<leftarrow> compute_next_fire L (n_occurrence new) (n_last_fired new) now;
               if get_timer s i \<noteq> None
               then ret (Inl (Sqlite ''UNIQUE constraint failed: timers.id''))
               else
                 let s' = s\<lparr>timers := timers s @ [new_timer_row i new oc nxt]\<rparr> in
                 case get_timer s' i of
                   None \<Rightarrow> ret (Inl (Internal ''timer missing after insert''))
                 | Some t \<Rightarrow> ret (Inr (t, s')) })"

definition current_revision_tx :: "store \<Rightarrow> uuid \<Rightarrow> store_error + int" where
  "current_revision_tx s i =
     (case get_timer s i of None \<Rightarrow> Inl (NotFound i) | Some t \<Rightarrow> Inr (t_revision t))"

definition rescheduled_row :: "timer \<Rightarrow> occurrence \<Rightarrow> instant option \<Rightarrow> timer" where
  "rescheduled_row t oc fire = timer_row (t\<lparr>
     t_next_fire := fire, t_occurrence := oc, t_tz := tz oc, t_max_runs := max_runs oc,
     t_valid_from := valid_from oc, t_valid_until := valid_until oc,
     t_revision := saturating_add_1 (t_revision t)\<rparr>)"

definition update_timer_tx ::
  "lib \<Rightarrow> instant \<Rightarrow> timer_update \<Rightarrow> store \<Rightarrow> (store_error + timer \<times> store) exec" where
  "update_timer_tx L now up s =
     (case get_timer s (up_id up) of
        None \<Rightarrow> ret (Inl (NotFound (up_id up)))
      | Some current \<Rightarrow>
          if t_revision current \<noteq> up_expected_revision up
          then ret (Inl (StaleRevision (up_id up) (up_expected_revision up) (t_revision current)))
          else
            case apply_patch current (up_patch up) of
              Inl e \<Rightarrow> ret (Inl e)
            | Inr nxt \<Rightarrow>
                do { (oc, fire) \<leftarrow> compute_next_fire L (t_occurrence nxt) (t_last_fired nxt) now;
                     let hit = (\<lambda>t. t_id t = t_id nxt \<and> t_revision t = up_expected_revision up);
                     if row_count hit (timers s) \<noteq> 1
                     then ret (bindE (current_revision_tx s (up_id up)) (\<lambda>actual.
                            Inl (StaleRevision (up_id up) (up_expected_revision up) actual)))
                     else
                       let s' = s\<lparr>timers := row_set hit (\<lambda>_. rescheduled_row nxt oc fire) (timers s)\<rparr> in
                       case get_timer s' (up_id up) of
                         None \<Rightarrow> ret (Inl (Internal ''timer missing after update''))
                       | Some t \<Rightarrow> ret (Inr (t, s')) })"

lemma row_fields [simp]:
  "t_id (new_timer_row i new oc nxt) = i" "t_revision (new_timer_row i new oc nxt) = 1"
  "t_occurrence (new_timer_row i new oc nxt) = oc" "t_next_fire (new_timer_row i new oc nxt) = nxt"
  "t_last_fired (new_timer_row i new oc nxt) = n_last_fired new"
  "t_enabled (new_timer_row i new oc nxt) = n_enabled new" "t_tz (new_timer_row i new oc nxt) = tz oc"
  "t_id (rescheduled_row t oc fire) = t_id t"
  "t_revision (rescheduled_row t oc fire) = saturating_add_1 (t_revision t)"
  "t_occurrence (rescheduled_row t oc fire) = oc" "t_next_fire (rescheduled_row t oc fire) = fire"
  "t_last_fired (rescheduled_row t oc fire) = t_last_fired t"
  "t_enabled (rescheduled_row t oc fire) = t_enabled t" "t_tz (rescheduled_row t oc fire) = tz oc"
  by (simp_all add: new_timer_row_def rescheduled_row_def timer_row_def)

definition create_timer ::
  "lib \<Rightarrow> instant \<Rightarrow> uuid \<Rightarrow> new_timer \<Rightarrow> store \<Rightarrow> (store_error + timer \<times> store) exec" where
  "create_timer L now fresh new s = create_timer_tx L now fresh new s"

definition update_timer ::
  "lib \<Rightarrow> instant \<Rightarrow> timer_update \<Rightarrow> store \<Rightarrow> (store_error + timer \<times> store) exec" where
  "update_timer L now up s = update_timer_tx L now up s"

definition delete_timer :: "store \<Rightarrow> uuid \<Rightarrow> bool \<times> store" where
  "delete_timer s i =
     (row_count (\<lambda>t. t_id t = i) (timers s) > 0,
      s\<lparr>timers := row_del (\<lambda>t. t_id t = i) (timers s)\<rparr>)"

text \<open>\<open>ORDER BY name, id\<close> and \<open>ORDER BY next_fire_utc ASC, id ASC\<close>; both count a query.\<close>

definition list_timers :: "store \<Rightarrow> timer list \<times> store" where
  "list_timers s =
     (sort_key (\<lambda>t. (t_name t, t_id t)) (timers s),
      s\<lparr>horizon_queries := horizon_queries s + 1\<rparr>)"

definition due_by :: "instant \<Rightarrow> timer \<Rightarrow> bool" where
  "due_by horizon t \<longleftrightarrow>
     t_enabled t \<and> (case t_next_fire t of None \<Rightarrow> False | Some n \<Rightarrow> n \<le> horizon)"

definition timers_due_by :: "store \<Rightarrow> instant \<Rightarrow> timer list \<times> store" where
  "timers_due_by s horizon =
     (sort_key (\<lambda>t. (the (t_next_fire t), t_id t)) (filter (due_by horizon) (timers s)),
      s\<lparr>horizon_queries := horizon_queries s + 1\<rparr>)"

section \<open>Bookkeeping\<close>

definition set_last_prune :: "store \<Rightarrow> instant \<Rightarrow> store" where
  "set_last_prune s t = s\<lparr>meta := (meta s)\<lparr>last_prune := Some t\<rparr>\<rparr>"

definition set_last_recalibration :: "store \<Rightarrow> instant \<Rightarrow> store" where
  "set_last_recalibration s t = s\<lparr>meta := (meta s)\<lparr>last_recalibration := Some t\<rparr>\<rparr>"

definition set_rotation_journal :: "store \<Rightarrow> rotation_journal \<Rightarrow> store" where
  "set_rotation_journal s j = s\<lparr>rotation_journal_row := Some j\<rparr>"

definition clear_rotation_journal :: "store \<Rightarrow> store" where
  "clear_rotation_journal s = s\<lparr>rotation_journal_row := None\<rparr>"

section \<open>Slot requests and ownership\<close>

definition get_slot_request :: "store \<Rightarrow> string \<Rightarrow> slot_request option" where
  "get_slot_request s i = row_get q_request_id i (slot_requests s)"

text \<open>\<open>ORDER BY created_at DESC, request_id DESC LIMIT 1\<close>: the last of the ascending order.\<close>

definition latest_slot_request_for_timer :: "store \<Rightarrow> uuid \<Rightarrow> slot_request option" where
  "latest_slot_request_for_timer s i =
     (let rows = filter (\<lambda>q. q_timer_id q = Some i \<and> q_status q = ''ok'') (slot_requests s);
          ordered = sort_key (\<lambda>q. (q_created_at q, q_request_id q)) rows in
      if ordered = [] then None else Some (last ordered))"

text \<open>\<open>INSERT OR IGNORE\<close> and the plain \<open>INSERT\<close>.\<close>

definition put_slot_request :: "store \<Rightarrow> slot_request \<Rightarrow> bool \<times> store" where
  "put_slot_request s q =
     (if get_slot_request s (q_request_id q) \<noteq> None then (False, s)
      else (True, s\<lparr>slot_requests := slot_requests s @ [q]\<rparr>))"

definition insert_slot_request_tx :: "store \<Rightarrow> slot_request \<Rightarrow> store_error + store" where
  "insert_slot_request_tx s q =
     (if get_slot_request s (q_request_id q) \<noteq> None
      then Inl (Sqlite ''UNIQUE constraint failed: slot_requests.request_id'')
      else Inr (s\<lparr>slot_requests := slot_requests s @ [q]\<rparr>))"

text \<open>The closure \<open>apply\<close> runs inside the transaction: it answers a record and the store.\<close>

definition slot_execute_once ::
  "string \<Rightarrow> (store \<Rightarrow> store_error + slot_request \<times> store) \<Rightarrow> store \<Rightarrow>
     store_error + slot_request \<times> store" where
  "slot_execute_once request_id apply_fn s =
     (case get_slot_request s request_id of
        Some existing \<Rightarrow> Inr (existing, s)
      | None \<Rightarrow>
          bindE (apply_fn s) (\<lambda>(q, s1).
          bindE (insert_slot_request_tx s1 q) (\<lambda>s2.
          Inr (q, s2))))"

text \<open>\<open>ON CONFLICT DO UPDATE\<close> on a two-column table.\<close>

definition upsert :: "'k \<Rightarrow> 'v \<Rightarrow> ('v \<Rightarrow> 'v \<Rightarrow> 'v) \<Rightarrow> ('k \<times> 'v) list \<Rightarrow> ('k \<times> 'v) list" where
  "upsert k v merge rows =
     (if row_get fst k rows = None then rows @ [(k, v)]
      else row_set (\<lambda>r. fst r = k) (\<lambda>(j, old). (j, merge old v)) rows)"

definition set_timer_owner :: "store \<Rightarrow> uuid \<Rightarrow> string \<Rightarrow> store" where
  "set_timer_owner s i app = s\<lparr>timer_owners := upsert i app (\<lambda>_ new. new) (timer_owners s)\<rparr>"

definition get_timer_owner :: "store \<Rightarrow> uuid \<Rightarrow> string option" where
  "get_timer_owner s i = map_option snd (row_get fst i (timer_owners s))"

definition clear_timer_owner :: "store \<Rightarrow> uuid \<Rightarrow> store" where
  "clear_timer_owner s i = s\<lparr>timer_owners := row_del (\<lambda>r. fst r = i) (timer_owners s)\<rparr>"

end
