(* ===== verification/Store_Runs.thy ===== *)
theory Store_Runs
  imports Store_Timers
begin

text \<open>
  \<open>store/mod.rs\<close>, second part: the claim ledger, the overlap helpers of the fire
  transaction, the acknowledgement cursors, the run states, the event outbox and the
  transport projections.
\<close>

section \<open>The claim ledger\<close>

definition get_run :: "store \<Rightarrow> uuid \<Rightarrow> run_claim option" where
  "get_run s i = row_get r_id i (runs s)"

definition runs_of :: "store \<Rightarrow> uuid \<Rightarrow> run_claim list" where
  "runs_of s timer_id = filter (\<lambda>r. r_timer r = timer_id) (runs s)"

definition next_sequence :: "store \<Rightarrow> uuid \<Rightarrow> nat" where
  "next_sequence s timer_id = max_or_0 (map r_event_sequence (runs_of s timer_id)) + 1"

text \<open>
  The insert violates the primary key or the \<open>UNIQUE (timer_id, scheduled_for)\<close>; either is
  reported as \<open>AlreadyClaimed\<close>.
\<close>

definition claim_run_conn ::
  "instant \<Rightarrow> uuid \<Rightarrow> uuid \<Rightarrow> instant \<Rightarrow> store \<Rightarrow> store_error + run_claim \<times> store" where
  "claim_run_conn now fresh timer_id scheduled_for s =
     (let claim = \<lparr>
        r_id = fresh, r_timer = timer_id, r_scheduled_for = scheduled_for, r_status = Pending,
        r_claimed_at = now, r_completed_at = None, r_event_sequence = next_sequence s timer_id,
        r_outcome = None, r_outcome_reason = None, r_cancel_requested = False \<rparr> in
      if \<exists>r\<in>set (runs s). r_id r = fresh \<or> r_timer r = timer_id \<and> r_scheduled_for r = scheduled_for
      then Inl (AlreadyClaimed timer_id scheduled_for)
      else Inr (claim, s\<lparr>runs := runs s @ [claim]\<rparr>))"

definition claim_run ::
  "instant \<Rightarrow> uuid \<Rightarrow> uuid \<Rightarrow> instant \<Rightarrow> store \<Rightarrow> store_error + run_claim \<times> store" where
  "claim_run now fresh timer_id scheduled_for s = claim_run_conn now fresh timer_id scheduled_for s"

definition open_status :: "claim_status \<Rightarrow> bool" where
  "open_status st \<longleftrightarrow> st = Pending \<or> st = Active"

definition finish_row :: "instant \<Rightarrow> run_outcome \<Rightarrow> string option \<Rightarrow> run_claim \<Rightarrow> run_claim" where
  "finish_row now outcome reason r =
     r\<lparr>r_status := Finished, r_outcome := Some outcome, r_outcome_reason := reason,
       r_completed_at := Some now\<rparr>"

definition finish_run ::
  "instant \<Rightarrow> uuid \<Rightarrow> run_outcome \<Rightarrow> string option \<Rightarrow> store \<Rightarrow> store_error + run_claim \<times> store" where
  "finish_run now i outcome reason s =
     (let hit = (\<lambda>r. r_id r = i \<and> open_status (r_status r));
          s' = s\<lparr>runs := row_set hit (finish_row now outcome reason) (runs s)\<rparr> in
      if row_count hit (runs s) \<noteq> 1 then Inl (RunNotFound i)
      else case get_run s' i of None \<Rightarrow> Inl (RunNotFound i) | Some r \<Rightarrow> Inr (r, s'))"

definition complete_run :: "instant \<Rightarrow> uuid \<Rightarrow> store \<Rightarrow> store_error + run_claim \<times> store" where
  "complete_run now i s = finish_run now i WakeDelivered None s"

definition fail_run :: "instant \<Rightarrow> uuid \<Rightarrow> store \<Rightarrow> store_error + run_claim \<times> store" where
  "fail_run now i s = finish_run now i WakeFailed None s"

definition activate_run :: "uuid \<Rightarrow> store \<Rightarrow> bool \<times> store" where
  "activate_run i s =
     (let hit = (\<lambda>r. r_id r = i \<and> r_status r = Pending) in
      (row_count hit (runs s) = 1,
       s\<lparr>runs := row_set hit (r_status_update (\<lambda>_. Active)) (runs s)\<rparr>))"

definition repend_run :: "uuid \<Rightarrow> store \<Rightarrow> store" where
  "repend_run i s =
     s\<lparr>runs := row_set (\<lambda>r. r_id r = i \<and> r_status r = Active) (r_status_update (\<lambda>_. Pending)) (runs s)\<rparr>"

definition repend_all_active :: "store \<Rightarrow> nat \<times> store" where
  "repend_all_active s =
     (row_count (\<lambda>r. r_status r = Active) (runs s),
      s\<lparr>runs := row_set (\<lambda>r. r_status r = Active) (r_status_update (\<lambda>_. Pending)) (runs s)\<rparr>)"

definition cancel_requested_active :: "store \<Rightarrow> uuid list" where
  "cancel_requested_active s =
     sort (map r_id (filter (\<lambda>r. r_status r = Active \<and> r_cancel_requested r) (runs s)))"

definition pending_claims :: "store \<Rightarrow> run_claim list" where
  "pending_claims s =
     sort_key (\<lambda>r. (r_claimed_at r, r_id r)) (filter (\<lambda>r. r_status r = Pending) (runs s))"

definition get_claim_for :: "store \<Rightarrow> uuid \<Rightarrow> instant \<Rightarrow> run_claim option" where
  "get_claim_for s timer_id scheduled_for =
     row_get (\<lambda>r. (r_timer r, r_scheduled_for r)) (timer_id, scheduled_for) (runs s)"

definition runs_for_timer :: "store \<Rightarrow> uuid \<Rightarrow> run_claim list" where
  "runs_for_timer s timer_id =
     sort_key (\<lambda>r. (r_event_sequence r, r_scheduled_for r, r_id r)) (runs_of s timer_id)"

definition runs_in_range :: "store \<Rightarrow> instant \<Rightarrow> instant \<Rightarrow> run_claim list" where
  "runs_in_range s from_t to_t =
     sort_key (\<lambda>r. (r_scheduled_for r, r_id r))
       (filter (\<lambda>r. from_t \<le> r_scheduled_for r \<and> r_scheduled_for r < to_t) (runs s))"

section \<open>Acknowledgement cursors\<close>

text \<open>\<open>through_sequence as i64\<close> wraps above \<open>i64::MAX\<close>, to a value below every cursor.\<close>

definition as_i64 :: "nat \<Rightarrow> int" where
  "as_i64 n = (if int n \<le> i64_max then int n else int n - 18446744073709551616)"

definition last_acked_sequence :: "store \<Rightarrow> uuid \<Rightarrow> nat" where
  "last_acked_sequence s i = (case row_get fst i (slot_event_acks s) of None \<Rightarrow> 0 | Some r \<Rightarrow> snd r)"

definition ack_run_events :: "uuid \<Rightarrow> nat \<Rightarrow> store \<Rightarrow> nat \<times> store" where
  "ack_run_events timer_id through_sequence s =
     (let new = nat (max (int (last_acked_sequence s timer_id)) (as_i64 through_sequence)) in
      (new, s\<lparr>slot_event_acks := upsert timer_id new max (slot_event_acks s)\<rparr>))"

definition unacked_runs_for_timer :: "store \<Rightarrow> uuid \<Rightarrow> nat \<Rightarrow> run_claim list" where
  "unacked_runs_for_timer s timer_id limit =
     take limit (sort_key (\<lambda>r. (r_event_sequence r, r_id r))
       (filter (\<lambda>r. last_acked_sequence s timer_id < r_event_sequence r) (runs_of s timer_id)))"

section \<open>Overlap admission helpers\<close>

definition unfinished_claims_count :: "store \<Rightarrow> uuid \<Rightarrow> uuid \<Rightarrow> nat" where
  "unfinished_claims_count s timer_id exclude =
     row_count (\<lambda>r. r_timer r = timer_id \<and> r_id r \<noteq> exclude \<and> open_status (r_status r)) (runs s)"

definition finish_run_conn ::
  "instant \<Rightarrow> uuid \<Rightarrow> run_outcome \<Rightarrow> string \<Rightarrow> store \<Rightarrow> bool \<times> store" where
  "finish_run_conn now i outcome reason s =
     (let hit = (\<lambda>r. r_id r = i \<and> open_status (r_status r)) in
      (row_count hit (runs s) = 1,
       s\<lparr>runs := row_set hit (finish_row now outcome (Some reason)) (runs s)\<rparr>))"

definition pending_claims_for_timer :: "store \<Rightarrow> uuid \<Rightarrow> uuid \<Rightarrow> run_claim list" where
  "pending_claims_for_timer s timer_id exclude =
     sort_key (\<lambda>r. (r_event_sequence r, r_id r))
       (filter (\<lambda>r. r_timer r = timer_id \<and> r_id r \<noteq> exclude \<and> r_status r = Pending) (runs s))"

definition request_cancel_active :: "uuid \<Rightarrow> uuid \<Rightarrow> store \<Rightarrow> uuid list \<times> store" where
  "request_cancel_active timer_id exclude s =
     (let hit = (\<lambda>r. r_timer r = timer_id \<and> r_id r \<noteq> exclude \<and> r_status r = Active) in
      (map r_id (filter (\<lambda>r. hit r \<and> \<not> r_cancel_requested r) (runs s)),
       s\<lparr>runs := row_set hit (r_cancel_requested_update (\<lambda>_. True)) (runs s)\<rparr>))"

section \<open>Run states\<close>

definition get_run_state :: "store \<Rightarrow> uuid \<Rightarrow> run_state_row option" where
  "get_run_state s i = row_get s_run_id i (run_states s)"

text \<open>The newest run of the timer that has a state row: the join, descending, first row.\<close>

definition current_run_state :: "store \<Rightarrow> uuid \<Rightarrow> run_state_row option" where
  "current_run_state s timer_id =
     (let joined = List.map_filter
            (\<lambda>row. if s_timer_id row = timer_id
                   then map_option (\<lambda>r. (r, row)) (get_run s (s_run_id row)) else None)
            (run_states s);
          ordered = sort_key (\<lambda>(r, row). (r_event_sequence r, r_scheduled_for r, r_id r)) joined in
      if ordered = [] then None else Some (snd (last ordered)))"

text \<open>The insert writes eight columns and nulls the rest.\<close>

definition insert_run_state :: "run_state_row \<Rightarrow> store \<Rightarrow> store_error + store" where
  "insert_run_state row s =
     (if get_run_state s (s_run_id row) \<noteq> None
      then Inl (Sqlite ''UNIQUE constraint failed: run_states.run_id'')
      else Inr (s\<lparr>run_states := run_states s @
        [(run_state_fired (s_run_id row) (s_timer_id row) (s_app_name row) (s_state row)
            (s_fired_at row) 0)
         \<lparr>s_pickup_deadline := s_pickup_deadline row,
          s_selected_transport := s_selected_transport row, s_transport := s_transport row\<rparr>]\<rparr>))"

text \<open>
  The update writes every column but the identity, the owner, the fire instant and the
  selected transport; \<open>expected_secs\<close> goes through \<open>as i64\<close> and is read back with \<open>max(0)\<close>.
\<close>

definition write_run_state :: "run_state_row \<Rightarrow> run_state_row \<Rightarrow> run_state_row" where
  "write_run_state row old = old\<lparr>
     s_state := s_state row, s_pickup_deadline := s_pickup_deadline row,
     s_acknowledged_at := s_acknowledged_at row,
     s_expected_secs := map_option (\<lambda>n. nat (max 0 (as_i64 n))) (s_expected_secs row),
     s_error_detection := s_error_detection row, s_heartbeat_at := s_heartbeat_at row,
     s_progress := s_progress row, s_completed_at := s_completed_at row,
     s_failed_at := s_failed_at row, s_reason := s_reason row,
     s_failure_kind := s_failure_kind row, s_result_json := s_result_json row,
     s_result_truncated := s_result_truncated row, s_watchdog_deadline := s_watchdog_deadline row,
     s_no_ack_at := s_no_ack_at row, s_reply_digest := s_reply_digest row,
     s_acknowledged_logged := s_acknowledged_logged row, s_running_logged := s_running_logged row,
     s_transport := s_transport row \<rparr>"

definition update_run_state :: "run_state_row \<Rightarrow> store \<Rightarrow> store" where
  "update_run_state row s =
     s\<lparr>run_states := row_set (\<lambda>old. s_run_id old = s_run_id row) (write_run_state row) (run_states s)\<rparr>"

definition armed_deadlines :: "store \<Rightarrow> run_state_row list" where
  "armed_deadlines s =
     sort_key s_run_id
       (filter (\<lambda>row. s_pickup_deadline row \<noteq> None \<or> s_watchdog_deadline row \<noteq> None) (run_states s))"

definition set_run_transport :: "uuid \<Rightarrow> string \<Rightarrow> store \<Rightarrow> store" where
  "set_run_transport i transport s =
     s\<lparr>run_states := row_set (\<lambda>row. s_run_id row = i) (s_transport_update (\<lambda>_. Some transport)) (run_states s)\<rparr>"

section \<open>The event outbox\<close>

definition enqueue_event :: "event \<Rightarrow> store \<Rightarrow> store" where
  "enqueue_event e s =
     (if row_get o_event_id (e_id e) (event_outbox s) \<noteq> None then s
      else s\<lparr>event_outbox := event_outbox s @
        [\<lparr>o_event_id = e_id e, o_payload = e, o_enqueued_at = e_logged_at e\<rparr>]\<rparr>)"

definition pending_events :: "store \<Rightarrow> nat \<Rightarrow> (uuid \<times> event) list" where
  "pending_events s limit =
     map (\<lambda>x. (o_event_id x, o_payload x))
       (take limit (sort_key (\<lambda>x. (o_enqueued_at x, o_event_id x)) (event_outbox s)))"

definition count_pending_events :: "store \<Rightarrow> nat" where
  "count_pending_events s = length (event_outbox s)"

definition mark_event_published :: "uuid \<Rightarrow> store \<Rightarrow> store" where
  "mark_event_published i s = s\<lparr>event_outbox := row_del (\<lambda>x. o_event_id x = i) (event_outbox s)\<rparr>"

section \<open>Transport projections\<close>

definition next_publication_order :: "store \<Rightarrow> nat" where
  "next_publication_order s = max_or_0 (map p_publication_order (transport_projections s)) + 1"

text \<open>\<open>INSERT OR REPLACE\<close>, then the cursor of the target path.\<close>

definition insert_transport_projection :: "transport_projection \<Rightarrow> store \<Rightarrow> store" where
  "insert_transport_projection p s =
     s\<lparr>transport_projections :=
         row_del (\<lambda>q. p_run_id q = p_run_id p) (transport_projections s) @ [p],
       target_cursors := upsert (p_target_path p) (p_publication_order p) max (target_cursors s)\<rparr>"

definition transport_projection_of :: "store \<Rightarrow> uuid \<Rightarrow> transport_projection option" where
  "transport_projection_of s i = row_get p_run_id i (transport_projections s)"

definition due_transport_projections :: "store \<Rightarrow> instant \<Rightarrow> nat \<Rightarrow> transport_projection list" where
  "due_transport_projections s now limit =
     take limit (sort_key p_publication_order
       (filter (\<lambda>p. p_state p = PENDING \<and> p_next_attempt_at p \<le> now) (transport_projections s)))"

definition live_state :: "string \<Rightarrow> bool" where
  "live_state st \<longleftrightarrow> st = PENDING \<or> st = PUBLISHED"

definition set_projection ::
  "uuid \<Rightarrow> (string \<Rightarrow> bool) \<Rightarrow> (transport_projection \<Rightarrow> transport_projection) \<Rightarrow> store \<Rightarrow> store" where
  "set_projection i Q f s =
     s\<lparr>transport_projections :=
         row_set (\<lambda>p. p_run_id p = i \<and> Q (p_state p)) f (transport_projections s)\<rparr>"

definition mark_transport_published :: "instant \<Rightarrow> uuid \<Rightarrow> store \<Rightarrow> store" where
  "mark_transport_published now i s =
     set_projection i (\<lambda>st. st = PENDING) (\<lambda>p. p\<lparr>p_state := PUBLISHED, p_published_at := Some now\<rparr>) s"

definition mark_transport_obsolete :: "uuid \<Rightarrow> store \<Rightarrow> store" where
  "mark_transport_obsolete i s = set_projection i live_state (p_state_update (\<lambda>_. OBSOLETE)) s"

definition requeue_transport_projection :: "instant \<Rightarrow> uuid \<Rightarrow> store \<Rightarrow> store" where
  "requeue_transport_projection now i s =
     set_projection i (\<lambda>st. st = PUBLISHED) (\<lambda>p. p\<lparr>p_state := PENDING, p_next_attempt_at := now\<rparr>) s"

definition defer_transport_projection :: "uuid \<Rightarrow> nat \<Rightarrow> instant \<Rightarrow> store \<Rightarrow> store" where
  "defer_transport_projection i attempts next_at s =
     set_projection i (\<lambda>st. st = PENDING) (\<lambda>p. p\<lparr>p_attempts := attempts, p_next_attempt_at := next_at\<rparr>) s"

definition convert_projection_to_file :: "uuid \<Rightarrow> string \<Rightarrow> string \<Rightarrow> store \<Rightarrow> bool \<times> store" where
  "convert_projection_to_file i path payload s =
     (row_count (\<lambda>p. p_run_id p = i \<and> live_state (p_state p)) (transport_projections s) = 1,
      set_projection i live_state
        (\<lambda>p. p\<lparr>p_kind := KIND_FILE, p_target_path := path, p_payload := payload, p_state := PENDING\<rparr>) s)"

definition mark_transport_picked_up :: "uuid \<Rightarrow> store \<Rightarrow> store" where
  "mark_transport_picked_up i s = set_projection i live_state (p_state_update (\<lambda>_. PICKED_UP)) s"

definition live_transport_projections :: "store \<Rightarrow> nat \<Rightarrow> transport_projection list" where
  "live_transport_projections s limit =
     take limit (sort_key p_publication_order
       (filter (\<lambda>p. live_state (p_state p)) (transport_projections s)))"

definition target_cursor :: "store \<Rightarrow> string \<Rightarrow> nat" where
  "target_cursor s path = (case row_get fst path (target_cursors s) of None \<Rightarrow> 0 | Some r \<Rightarrow> snd r)"

definition prune_transport_for_timer :: "uuid \<Rightarrow> store \<Rightarrow> store" where
  "prune_transport_for_timer timer_id s =
     (let kept = row_del (\<lambda>p. p_timer_id p = timer_id) (transport_projections s) in
      s\<lparr>transport_projections := kept,
        target_cursors := row_del (\<lambda>c. \<not> (\<exists>p\<in>set kept. p_target_path p = fst c)) (target_cursors s)\<rparr>)"

end
