(* ===== verification/Store_Laws.thy ===== *)
theory Store_Laws
  imports Store_Runs
begin

text \<open>
  The invariants of the store: primary keys, the uniqueness of a claim, the sequence of a
  timer's runs, and the agreement of phase and outcome; each operation keeps them. Every
  \<open>UPDATE\<close> is an interpretation of \<open>key_kept\<close>.
\<close>

section \<open>Runs\<close>

definition run_identity :: "run_claim \<Rightarrow> uuid \<times> uuid \<times> instant \<times> nat" where
  "run_identity r = (r_id r, r_timer r, r_scheduled_for r, r_event_sequence r)"

definition run_row_ok :: "run_claim \<Rightarrow> bool" where
  "run_row_ok r \<longleftrightarrow> 1 \<le> r_event_sequence r \<and>
     (r_status r = Finished \<longleftrightarrow> r_outcome r \<noteq> None) \<and>
     (r_status r = Finished \<longleftrightarrow> r_completed_at r \<noteq> None)"

definition runs_ok :: "run_claim list \<Rightarrow> bool" where
  "runs_ok rows \<longleftrightarrow> keyed r_id rows \<and> keyed (\<lambda>r. (r_timer r, r_scheduled_for r)) rows \<and>
     keyed (\<lambda>r. (r_timer r, r_event_sequence r)) rows \<and> (\<forall>r\<in>set rows. run_row_ok r)"

interpretation finishing: key_kept run_identity "finish_row now outcome reason" for now outcome reason
  by unfold_locales (simp add: run_identity_def finish_row_def)

interpretation activating: key_kept run_identity "r_status_update (\<lambda>_. Active)"
  by unfold_locales (simp add: run_identity_def)

interpretation repending: key_kept run_identity "r_status_update (\<lambda>_. Pending)"
  by unfold_locales (simp add: run_identity_def)

interpretation cancelling: key_kept run_identity "r_cancel_requested_update (\<lambda>_. True)"
  by unfold_locales (simp add: run_identity_def)

lemma runs_ok_set:
  assumes "key_kept run_identity f" "runs_ok rows"
    and "\<And>r. r \<in> set rows \<Longrightarrow> P r \<Longrightarrow> run_row_ok r \<Longrightarrow> run_row_ok (f r)"
  shows "runs_ok (row_set P f rows)"
proof -
  note by_identity = key_kept.keyed_set_by [OF assms(1)]
  have "keyed r_id (row_set P f rows) = keyed r_id rows"
    by (rule by_identity [where h = fst]) (simp add: run_identity_def)
  moreover have "keyed (\<lambda>r. (r_timer r, r_scheduled_for r)) (row_set P f rows) =
      keyed (\<lambda>r. (r_timer r, r_scheduled_for r)) rows"
    by (rule by_identity [where h = "\<lambda>(i, t, s, n). (t, s)"]) (simp add: run_identity_def)
  moreover have "keyed (\<lambda>r. (r_timer r, r_event_sequence r)) (row_set P f rows) =
      keyed (\<lambda>r. (r_timer r, r_event_sequence r)) rows"
    by (rule by_identity [where h = "\<lambda>(i, t, s, n). (t, n)"]) (simp add: run_identity_def)
  ultimately show ?thesis using assms(2,3) by (auto simp: runs_ok_def set_row_set)
qed

lemma next_sequence_fresh:
  "r \<in> set (runs s) \<Longrightarrow> r_timer r = i \<Longrightarrow> r_event_sequence r < next_sequence s i"
  unfolding next_sequence_def runs_of_def
  using max_or_0_ge [of "r_event_sequence r"] by (force simp: less_Suc_eq_le)

lemma runs_ok_claim:
  assumes "runs_ok (runs s)" "claim_run_conn now fresh i t s = Inr (c, s')"
  shows "runs_ok (runs s')"
proof -
  have c: "\<forall>r\<in>set (runs s). r_id r \<noteq> fresh \<and> \<not> (r_timer r = i \<and> r_scheduled_for r = t)"
    and s': "runs s' = runs s @ [c]" "r_id c = fresh" "r_timer c = i" "r_scheduled_for c = t"
      "r_event_sequence c = next_sequence s i" "run_row_ok c"
    using assms(2)
    by (auto simp: claim_run_conn_def Let_def run_row_ok_def next_sequence_def split: if_splits)
  then show ?thesis using assms(1) next_sequence_fresh
    by (fastforce simp: runs_ok_def keyed_append)
qed

lemma runs_ok_ops:
  assumes "runs_ok rows"
  shows "runs_ok (row_set P (finish_row now outcome reason) rows)"
    "runs_ok (row_set (\<lambda>r. Q r \<and> r_status r = Pending) (r_status_update (\<lambda>_. Active)) rows)"
    "runs_ok (row_set (\<lambda>r. Q r \<and> r_status r = Active) (r_status_update (\<lambda>_. Pending)) rows)"
    "runs_ok (row_set (\<lambda>r. r_status r = Active) (r_status_update (\<lambda>_. Pending)) rows)"
    "runs_ok (row_set P (r_cancel_requested_update (\<lambda>_. True)) rows)"
  using assms
  by (auto intro!: runs_ok_set finishing.key_kept_axioms activating.key_kept_axioms
      repending.key_kept_axioms cancelling.key_kept_axioms simp: run_row_ok_def finish_row_def)

section \<open>The other tables\<close>

definition projections_ok :: "transport_projection list \<Rightarrow> bool" where
  "projections_ok rows \<longleftrightarrow> keyed p_run_id rows \<and> keyed p_publication_order rows \<and>
     (\<forall>p\<in>set rows. 1 \<le> p_publication_order p \<and>
        p_state p \<in> {PENDING, PUBLISHED, OBSOLETE, PICKED_UP})"

definition projection_identity :: "transport_projection \<Rightarrow> uuid \<times> nat" where
  "projection_identity p = (p_run_id p, p_publication_order p)"

definition store_ok :: "store \<Rightarrow> bool" where
  "store_ok s \<longleftrightarrow> keyed t_id (timers s) \<and> runs_ok (runs s) \<and> keyed s_run_id (run_states s) \<and>
     keyed q_request_id (slot_requests s) \<and> keyed fst (timer_owners s) \<and>
     keyed fst (slot_event_acks s) \<and> keyed o_event_id (event_outbox s) \<and>
     projections_ok (transport_projections s) \<and> keyed fst (target_cursors s)"

interpretation merging: key_kept fst "\<lambda>(j, old). (j, merge old v)" for merge v
  by unfold_locales auto

lemma keyed_upsert: "keyed fst rows \<Longrightarrow> keyed fst (upsert k v merge rows)"
  by (auto simp: upsert_def keyed_append row_get_None image_iff)

lemma upsert_get [tbl_simps]:
  "row_get fst j (upsert k v merge rows) =
     (if j = k then Some (k, case row_get fst k rows of None \<Rightarrow> v | Some r \<Rightarrow> merge (snd r) v)
      else row_get fst j rows)"
proof (cases "row_get fst k rows")
  case None
  then have e: "upsert k v merge rows = rows @ [(k, v)]" by (simp add: upsert_def)
  show ?thesis unfolding e row_get_append using None
    by (cases "j = k"; cases "row_get fst j rows") simp_all
next
  case (Some r)
  then have k: "fst r = k" by (auto dest: row_get_Some)
  have e: "upsert k v merge rows = row_set (\<lambda>r. fst r = k) (\<lambda>(j, old). (j, merge old v)) rows"
    using Some by (simp add: upsert_def)
  show ?thesis
  proof (cases "j = k")
    case True
    then show ?thesis unfolding e merging.get_set using Some k by (cases r) simp
  next
    case False
    then have "row_get fst j rows = Some x \<Longrightarrow> fst x \<noteq> k" for x using row_get_Some by metis
    then show ?thesis unfolding e merging.get_set using False by (cases "row_get fst j rows") auto
  qed
qed

interpretation writing_state: key_kept s_run_id "write_run_state row" for row
  by unfold_locales (simp add: write_run_state_def)

interpretation set_transport: key_kept s_run_id "s_transport_update (\<lambda>_. v)" for v
  by unfold_locales simp

lemma keyed_insert_run_state:
  "keyed s_run_id (run_states s) \<Longrightarrow> insert_run_state row s = Inr s' \<Longrightarrow> keyed s_run_id (run_states s')"
  by (auto simp: insert_run_state_def get_run_state_def row_get_None keyed_append run_state_fired_def
      split: if_splits)

lemma keyed_enqueue: "keyed o_event_id (event_outbox s) \<Longrightarrow> keyed o_event_id (event_outbox (enqueue_event e s))"
  by (auto simp: enqueue_event_def row_get_None keyed_append)

lemma projections_ok_set:
  assumes "key_kept projection_identity f" "projections_ok rows"
    and "\<And>p. p_state (f p) \<in> {PENDING, PUBLISHED, OBSOLETE, PICKED_UP} \<or> p_state (f p) = p_state p"
  shows "projections_ok (row_set P f rows)"
proof -
  note by_identity = key_kept.keyed_set_by [OF assms(1)]
  have "keyed p_run_id (row_set P f rows) = keyed p_run_id rows"
    by (rule by_identity [where h = fst]) (simp add: projection_identity_def)
  moreover have "keyed p_publication_order (row_set P f rows) = keyed p_publication_order rows"
    by (rule by_identity [where h = snd]) (simp add: projection_identity_def)
  moreover have "p_publication_order (f p) = p_publication_order p" for p
    using key_kept.key_f [OF assms(1), of p] by (simp add: projection_identity_def)
  ultimately show ?thesis using assms(2,3) by (auto simp: projections_ok_def set_row_set) metis
qed

lemma projections_ok_insert:
  assumes "projections_ok (transport_projections s)" "p_publication_order p = next_publication_order s"
    and "p_state p \<in> {PENDING, PUBLISHED, OBSOLETE, PICKED_UP}"
  shows "projections_ok (transport_projections (insert_transport_projection p s))"
proof -
  have "p_publication_order q < p_publication_order p" if "q \<in> set (transport_projections s)" for q
    unfolding assms(2) next_publication_order_def
    using max_or_0_ge [of "p_publication_order q"] that by (force simp: less_Suc_eq_le)
  then have fresh: "p_publication_order p \<notin> p_publication_order ` set (transport_projections s)"
    by (metis image_iff less_irrefl)
  have "p_run_id p \<notin> p_run_id ` set (row_del (\<lambda>q. p_run_id q = p_run_id p) (transport_projections s))"
    "p_publication_order p \<notin>
      p_publication_order ` set (row_del (\<lambda>q. p_run_id q = p_run_id p) (transport_projections s))"
    "1 \<le> p_publication_order p"
    using fresh by (auto simp: set_row_del assms(2) next_publication_order_def)
  then show ?thesis using assms(1,3)
    by (auto simp: projections_ok_def insert_transport_projection_def keyed_append keyed_del
        set_row_del)
qed

interpretation publishing: key_kept projection_identity "\<lambda>p. p\<lparr>p_state := st, p_published_at := t\<rparr>" for st t
  by unfold_locales (simp add: projection_identity_def)

interpretation restating: key_kept projection_identity "p_state_update (\<lambda>_. st)" for st
  by unfold_locales (simp add: projection_identity_def)

interpretation requeueing: key_kept projection_identity "\<lambda>p. p\<lparr>p_state := st, p_next_attempt_at := t\<rparr>" for st t
  by unfold_locales (simp add: projection_identity_def)

interpretation deferring: key_kept projection_identity "\<lambda>p. p\<lparr>p_attempts := n, p_next_attempt_at := t\<rparr>" for n t
  by unfold_locales (simp add: projection_identity_def)

interpretation converting: key_kept projection_identity
  "\<lambda>p. p\<lparr>p_kind := k, p_target_path := path, p_payload := pl, p_state := st\<rparr>" for k path pl st
  by unfold_locales (simp add: projection_identity_def)

lemma projections_ok_del: "projections_ok rows \<Longrightarrow> projections_ok (row_del P rows)"
  by (auto simp: projections_ok_def keyed_del set_row_del)

lemma projections_ok_set_projection:
  assumes "projections_ok (transport_projections s)" "key_kept projection_identity f"
    and "\<And>p. p_state (f p) \<in> {PENDING, PUBLISHED, OBSOLETE, PICKED_UP} \<or> p_state (f p) = p_state p"
  shows "projections_ok (transport_projections (set_projection i Q f s))"
  using projections_ok_set [OF assms(2,1,3)] by (simp add: set_projection_def)

section \<open>Steps of the store\<close>

text \<open>
  One call of the store's interface, whoever makes it: the scheduler, a worker, the reply
  engine, a slot request. The arguments are any; an operation that fails changes nothing.
\<close>

inductive store_step :: "lib \<Rightarrow> store \<Rightarrow> store \<Rightarrow> bool" for L where
  create: "create_timer L now fresh new s = Some (Inr (t, s')) \<Longrightarrow> store_step L s s'"
| update: "update_timer L now up s = Some (Inr (t, s')) \<Longrightarrow> store_step L s s'"
| delete: "store_step L s (snd (delete_timer s i))"
| listing: "store_step L s (snd (list_timers s))"
| horizon: "store_step L s (snd (timers_due_by s h))"
| slot: "store_step L s (snd (put_slot_request s q))"
| owner: "store_step L s (set_timer_owner s i app)"
| disown: "store_step L s (clear_timer_owner s i)"
| claim: "claim_run now fresh i t s = Inr (c, s') \<Longrightarrow> store_step L s s'"
| finish: "finish_run now i outcome reason s = Inr (c, s') \<Longrightarrow> store_step L s s'"
| finish_conn: "store_step L s (snd (finish_run_conn now i outcome why s))"
| activate: "store_step L s (snd (activate_run i s))"
| repend: "store_step L s (repend_run i s)"
| repend_all: "store_step L s (snd (repend_all_active s))"
| cancel: "store_step L s (snd (request_cancel_active i x s))"
| ack: "store_step L s (snd (ack_run_events i n s))"
| state_insert: "insert_run_state row s = Inr s' \<Longrightarrow> store_step L s s'"
| state_update: "store_step L s (update_run_state row s)"
| state_transport: "store_step L s (set_run_transport i st s)"
| enqueue: "store_step L s (enqueue_event e s)"
| event_published: "store_step L s (mark_event_published i s)"
| project: "p_publication_order p = next_publication_order s \<Longrightarrow> p_state p = PENDING \<Longrightarrow>
    store_step L s (insert_transport_projection p s)"
| published: "store_step L s (mark_transport_published now i s)"
| obsolete: "store_step L s (mark_transport_obsolete i s)"
| requeue: "store_step L s (requeue_transport_projection now i s)"
| defer_pub: "store_step L s (defer_transport_projection i n t s)"
| convert: "store_step L s (snd (convert_projection_to_file i path pl s))"
| pickup: "store_step L s (mark_transport_picked_up i s)"
| prune: "store_step L s (prune_transport_for_timer i s)"
| pruned: "store_step L s (set_last_prune s t)"
| recalibrated: "store_step L s (set_last_recalibration s t)"
| journal: "store_step L s (set_rotation_journal s j)"
| journal_done: "store_step L s (clear_rotation_journal s)"

inductive_cases store_stepE: "store_step L s s'"

subsection \<open>Frames\<close>

lemma create_timer_Some:
  assumes "create_timer L now fresh new s = Some (Inr (t, s'))"
  obtains i oc nxt where "i = (case n_id new of None \<Rightarrow> fresh | Some j \<Rightarrow> j)"
    "validate (kind (n_occurrence new)) = Inr ()"
    "compute_next_fire L (n_occurrence new) (n_last_fired new) now = Some (oc, nxt)"
    "get_timer s i = None" "t = new_timer_row i new oc nxt" "s' = s\<lparr>timers := timers s @ [t]\<rparr>"
proof -
  define i where "i = (case n_id new of None \<Rightarrow> fresh | Some j \<Rightarrow> j)"
  have v: "validate (kind (n_occurrence new)) = Inr ()"
    using assms by (auto simp: create_timer_def create_timer_tx_def split: sum.splits)
  have body: "create_timer L now fresh new s =
     do { (oc, nxt) \<leftarrow> compute_next_fire L (n_occurrence new) (n_last_fired new) now;
          if get_timer s i \<noteq> None
          then Some (Inl (Sqlite ''UNIQUE constraint failed: timers.id''))
          else case get_timer (s\<lparr>timers := timers s @ [new_timer_row i new oc nxt]\<rparr>) i of
                 None \<Rightarrow> Some (Inl (Internal ''timer missing after insert''))
               | Some t \<Rightarrow> Some (Inr (t, s\<lparr>timers := timers s @ [new_timer_row i new oc nxt]\<rparr>)) }"
    unfolding create_timer_def create_timer_tx_def v i_def [symmetric] Let_def by simp
  obtain oc nxt where c: "compute_next_fire L (n_occurrence new) (n_last_fired new) now = Some (oc, nxt)"
    using assms unfolding body by (auto simp: bind_Some)
  have none: "get_timer s i = None" using assms unfolding body c by (auto split: if_splits)
  then have "get_timer (s\<lparr>timers := timers s @ [new_timer_row i new oc nxt]\<rparr>) i =
      Some (new_timer_row i new oc nxt)"
    by (simp add: get_timer_def row_get_append)
  then have "t = new_timer_row i new oc nxt" "s' = s\<lparr>timers := timers s @ [t]\<rparr>"
    using assms none unfolding body c by auto
  then show thesis using that i_def v c none by metis
qed

lemma apply_patch_Inr:
  assumes "apply_patch t p = Inr t'"
  shows "t_id t' = t_id t" "t_revision t' = t_revision t"
    "t_enabled t' = patch_field (u_enabled p) (t_enabled t)"
    "t_last_fired t' = patch_field (u_last_fired p) (t_last_fired t)"
    "t_occurrence t' = patch_field (u_occurrence p) (t_occurrence t)"
    "u_occurrence p = Some oc \<Longrightarrow> validate (kind oc) = Inr ()"
  using assms
  by (cases "u_occurrence p"; auto simp: apply_patch_def Let_def bindE_def split: sum.splits; fail)+

lemma update_timer_Some:
  assumes "update_timer L now up s = Some (Inr (t, s'))"
  obtains old nxt oc fire where "get_timer s (up_id up) = Some old"
    "t_revision old = up_expected_revision up" "apply_patch old (up_patch up) = Inr nxt"
    "compute_next_fire L (t_occurrence nxt) (t_last_fired nxt) now = Some (oc, fire)"
    "t = rescheduled_row nxt oc fire"
    "s' = s\<lparr>timers := row_set (\<lambda>t. t_id t = up_id up \<and> t_revision t = up_expected_revision up)
        (\<lambda>_. t) (timers s)\<rparr>"
proof -
  obtain old where old: "get_timer s (up_id up) = Some old" "t_revision old = up_expected_revision up"
    using assms by (auto simp: update_timer_def update_timer_tx_def split: option.splits if_splits)
  obtain nxt where nxt: "apply_patch old (up_patch up) = Inr nxt"
    using assms old by (auto simp: update_timer_def update_timer_tx_def split: sum.splits)
  have ids: "t_id nxt = up_id up" "t_revision nxt = up_expected_revision up"
    using apply_patch_Inr(1,2) [OF nxt] row_get_Some old unfolding get_timer_def by metis+
  let ?hit = "\<lambda>t. t_id t = up_id up \<and> t_revision t = up_expected_revision up"
  have body: "update_timer L now up s =
     do { (oc, fire) \<leftarrow> compute_next_fire L (t_occurrence nxt) (t_last_fired nxt) now;
          if row_count ?hit (timers s) \<noteq> 1
          then Some (Inl (StaleRevision (up_id up) (up_expected_revision up) (t_revision old)))
          else case get_timer (s\<lparr>timers := row_set ?hit (\<lambda>_. rescheduled_row nxt oc fire) (timers s)\<rparr>)
                      (up_id up) of
                 None \<Rightarrow> Some (Inl (Internal ''timer missing after update''))
               | Some t \<Rightarrow> Some (Inr (t,
                   s\<lparr>timers := row_set ?hit (\<lambda>_. rescheduled_row nxt oc fire) (timers s)\<rparr>)) }"
    unfolding update_timer_def update_timer_tx_def current_revision_tx_def Let_def old(1)
      option.case old(2) simp_thms if_False nxt sum.case ids bindE_simps ..
  obtain oc fire where fire: "compute_next_fire L (t_occurrence nxt) (t_last_fired nxt) now = Some (oc, fire)"
    using assms unfolding body by (auto simp: bind_Some)
  let ?row = "rescheduled_row nxt oc fire"
  have res: "get_timer (s\<lparr>timers := row_set ?hit (\<lambda>_. ?row) (timers s)\<rparr>) (up_id up) = Some t"
    "s' = s\<lparr>timers := row_set ?hit (\<lambda>_. ?row) (timers s)\<rparr>"
    using assms unfolding body fire by (auto split: if_splits option.splits)
  have "row_get t_id (up_id up) (row_set ?hit (\<lambda>_. ?row) rows) = Some t \<Longrightarrow>
      row_get t_id (up_id up) rows = Some old \<Longrightarrow> t = ?row" for rows
    using old(2) ids by (induction rows) (auto simp: row_get_def row_set_def split: if_splits)
  then have "t = ?row" using res(1) old(1) by (simp add: get_timer_def)
  with that [OF old nxt fire] res(2) show thesis by simp
qed

lemma keyed_update_timer:
  assumes "update_timer L now up s = Some (Inr (t, s'))" "keyed t_id (timers s)"
  shows "keyed t_id (timers s')"
  using assms(1)
proof (cases rule: update_timer_Some)
  case (1 old nxt oc fire)
  have "t_id t = up_id up"
    using 1(5) apply_patch_Inr(1) [OF 1(3)] row_get_Some 1(1) unfolding get_timer_def by fastforce
  then have "map t_id (timers s') = map t_id (timers s)" by (simp add: 1(6) row_set_def)
  then show ?thesis using assms(2) by (simp add: keyed_def)
qed

text \<open>Both outcomes of an update, on the store's own terms.\<close>

lemma update_timer_ok:
  assumes "update_timer L now up s = Some (Inr (t, s'))"
  shows "\<exists>old. get_timer s (up_id up) = Some old \<and>
        t_revision old = up_expected_revision up \<and> t_id t = up_id up \<and>
        t_revision t = saturating_add_1 (t_revision old) \<and>
        (\<exists>oc. compute_next_fire L (patch_field (u_occurrence (up_patch up)) (t_occurrence old))
           (t_last_fired t) now = Some (oc, t_next_fire t) \<and> t_occurrence t = oc) \<and>
        (\<forall>j. get_timer s' j = (if j = up_id up then Some t else get_timer s j))"
  using assms
proof (cases rule: update_timer_Some)
  case (1 old nxt oc fire)
  note ap = apply_patch_Inr [OF 1(3)]
  have t: "t_id t = up_id up"
    using 1(5) ap(1) row_get_Some 1(1) unfolding get_timer_def by fastforce
  let ?hit = "\<lambda>t. t_id t = up_id up \<and> t_revision t = up_expected_revision up"
  have "row_get t_id j (row_set ?hit (\<lambda>_. t) rows) = row_get t_id j rows" if "j \<noteq> up_id up" for j rows
    using that t by (induction rows) (auto simp: row_get_def row_set_def)
  moreover have "row_get t_id (up_id up) (row_set ?hit (\<lambda>_. t) rows) = Some t"
    if "row_get t_id (up_id up) rows = Some old" for rows
    using that 1(2) t by (induction rows) (auto simp: row_get_def row_set_def split: if_splits)
  ultimately have look: "get_timer s' j = (if j = up_id up then Some t else get_timer s j)" for j
    using 1(1,6) by (simp add: get_timer_def)
  have "t_revision t = saturating_add_1 (t_revision old)"
    "compute_next_fire L (patch_field (u_occurrence (up_patch up)) (t_occurrence old))
       (t_last_fired t) now = Some (t_occurrence t, t_next_fire t)"
    using 1(4,5) ap(2,5) by simp_all
  then show ?thesis using 1(1,2) t look by blast
qed

lemma apply_patch_Inl:
  assumes "apply_patch t p = Inl e"
  shows "\<exists>oc k. u_occurrence p = Some oc \<and> validate (kind oc) = Inl k \<and> e = InvalidOccurrence k"
  using assms
  by (cases "u_occurrence p") (auto simp: apply_patch_def Let_def bindE_def split: sum.splits)

lemma update_timer_error:
  assumes ok: "store_ok s" and up: "update_timer L now up s = Some (Inl e)"
  shows "case get_timer s (up_id up) of
      None \<Rightarrow> e = NotFound (up_id up)
    | Some old \<Rightarrow> (if t_revision old \<noteq> up_expected_revision up
        then e = StaleRevision (up_id up) (up_expected_revision up) (t_revision old)
        else \<exists>oc k. u_occurrence (up_patch up) = Some oc \<and> validate (kind oc) = Inl k \<and>
               e = InvalidOccurrence k)"
proof (cases "get_timer s (up_id up)")
  case None
  then show ?thesis using up by (simp add: update_timer_def update_timer_tx_def)
next
  case (Some old)
  have id: "t_id old = up_id up" using row_get_Some Some unfolding get_timer_def by metis
  show ?thesis
  proof (cases "t_revision old = up_expected_revision up")
    case False
    then show ?thesis using up Some by (simp add: update_timer_def update_timer_tx_def)
  next
    case rev: True
    show ?thesis
    proof (cases "apply_patch old (up_patch up)")
      case (Inl e')
      then have "e' = e" using up Some rev by (simp add: update_timer_def update_timer_tx_def)
      then show ?thesis using apply_patch_Inl [OF Inl] Some rev by simp
    next
      case (Inr nxt)
      note ap = apply_patch_Inr(1,2) [OF Inr]
      let ?hit = "\<lambda>t. t_id t = up_id up \<and> t_revision t = up_expected_revision up"
      have k: "keyed t_id (timers s)" using ok by (simp add: store_ok_def)
      have count: "row_count ?hit (timers s) = 1"
        using row_count_key [OF k, of "up_id up" "\<lambda>t. t_revision t = up_expected_revision up"] Some rev
        by (simp add: get_timer_def)
      obtain oc fire where c: "compute_next_fire L (t_occurrence nxt) (t_last_fired nxt) now = Some (oc, fire)"
        using up Some rev Inr
        by (cases "compute_next_fire L (t_occurrence nxt) (t_last_fired nxt) now")
          (auto simp: update_timer_def update_timer_tx_def)
      have "row_get t_id (up_id up) (row_set ?hit (\<lambda>_. rescheduled_row nxt oc fire) rows) \<noteq> None"
        if "row_get t_id (up_id up) rows = Some old" for rows
        using that rev ap id by (induction rows) (auto simp: row_get_def row_set_def split: if_splits)
      then have "get_timer (s\<lparr>timers := row_set ?hit (\<lambda>_. rescheduled_row nxt oc fire) (timers s)\<rparr>)
          (up_id up) \<noteq> None"
        using Some by (simp add: get_timer_def)
      then have False using up Some rev Inr c count ap id
        by (simp add: update_timer_def update_timer_tx_def Let_def split: option.splits)
      then show ?thesis ..
    qed
  qed
qed

end
