(* ===== verification/Store_Steps.thy ===== *)
theory Store_Steps
  imports Store_Laws
begin

text \<open>
  What the store's interface as a whole keeps: every step preserves the invariant, a run
  keeps its identity and never leaves \<open>finished\<close>, a cursor never moves back, a settled
  projection stays settled. Histories are the reflexive transitive closure of the steps.
\<close>

section \<open>The invariant\<close>

lemmas update_defs = set_timer_owner_def clear_timer_owner_def delete_timer_def list_timers_def
  timers_due_by_def put_slot_request_def get_slot_request_def activate_run_def repend_run_def
  repend_all_active_def finish_run_conn_def request_cancel_active_def ack_run_events_def
  update_run_state_def set_run_transport_def mark_event_published_def prune_transport_for_timer_def
  set_last_prune_def set_last_recalibration_def set_rotation_journal_def clear_rotation_journal_def

lemma finish_run_Inr:
  assumes "finish_run now i outcome reason s = Inr (c, s')"
  shows "s' = s\<lparr>runs := row_set (\<lambda>r. r_id r = i \<and> open_status (r_status r))
      (finish_row now outcome reason) (runs s)\<rparr>" "get_run s' i = Some c"
    "row_count (\<lambda>r. r_id r = i \<and> open_status (r_status r)) (runs s) = 1"
  using assms by (auto simp: finish_run_def Let_def split: if_splits option.splits)

lemma claim_run_Inr:
  assumes "claim_run now fresh i t s = Inr (c, s')"
  shows "s' = s\<lparr>runs := runs s @ [c]\<rparr>" "get_claim_for s i t = None" "get_run s fresh = None"
    "r_id c = fresh" "r_timer c = i" "r_scheduled_for c = t" "r_status c = Pending"
    "r_event_sequence c = next_sequence s i" "r_outcome c = None"
  using assms
  by (auto simp: claim_run_def claim_run_conn_def Let_def get_claim_for_def get_run_def row_get_None
      split: if_splits)

lemma projection_ops_ok:
  assumes "projections_ok (transport_projections s)"
  shows "projections_ok (transport_projections (mark_transport_published now i s))"
    "projections_ok (transport_projections (mark_transport_obsolete i s))"
    "projections_ok (transport_projections (requeue_transport_projection now i s))"
    "projections_ok (transport_projections (defer_transport_projection i n t s))"
    "projections_ok (transport_projections (snd (convert_projection_to_file i path pl s)))"
    "projections_ok (transport_projections (mark_transport_picked_up i s))"
  unfolding mark_transport_published_def mark_transport_obsolete_def requeue_transport_projection_def
    defer_transport_projection_def convert_projection_to_file_def mark_transport_picked_up_def snd_conv
  by (rule projections_ok_set_projection [OF assms],
      (rule publishing.key_kept_axioms restating.key_kept_axioms requeueing.key_kept_axioms
        deferring.key_kept_axioms converting.key_kept_axioms), simp)+

lemma set_projection_other [simp]:
  "timers (set_projection i Q f s) = timers s" "runs (set_projection i Q f s) = runs s"
  "run_states (set_projection i Q f s) = run_states s"
  "slot_requests (set_projection i Q f s) = slot_requests s"
  "timer_owners (set_projection i Q f s) = timer_owners s"
  "slot_event_acks (set_projection i Q f s) = slot_event_acks s"
  "event_outbox (set_projection i Q f s) = event_outbox s"
  "target_cursors (set_projection i Q f s) = target_cursors s"
  by (simp_all add: set_projection_def)

lemmas projection_defs = mark_transport_published_def mark_transport_obsolete_def
  requeue_transport_projection_def defer_transport_projection_def convert_projection_to_file_def
  mark_transport_picked_up_def

lemma projection_op_ok:
  assumes "store_ok s" "projections_ok (transport_projections (set_projection i Q f s))"
  shows "store_ok (set_projection i Q f s)"
  using assms by (simp add: store_ok_def)

theorem store_step_ok: "store_step L s s' \<Longrightarrow> store_ok s \<Longrightarrow> store_ok s'"
proof (induction rule: store_step.induct)
  case (create now fresh new s t s')
  then show ?case
    by (elim create_timer_Some) (auto simp: store_ok_def keyed_append get_timer_def row_get_None)
next
  case (update now up s t s')
  have "keyed t_id (timers s')" using keyed_update_timer [OF update(1)] update(2)
    by (simp add: store_ok_def)
  then show ?case using update by (elim update_timer_Some) (simp add: store_ok_def)
next
  case (claim now fresh i t s c s')
  have "runs_ok (runs s')" using runs_ok_claim claim unfolding claim_run_def store_ok_def by blast
  then show ?case using claim_run_Inr(1) [OF claim(1)] claim(2) by (simp add: store_ok_def)
next
  case (finish now i outcome reason s c s')
  then show ?case using finish_run_Inr(1) [OF finish(1)]
    by (simp add: store_ok_def runs_ok_ops)
next
  case (state_insert row s s')
  have "keyed s_run_id (run_states s')"
    using keyed_insert_run_state state_insert by (auto simp: store_ok_def)
  then show ?case using state_insert
    by (auto simp: store_ok_def insert_run_state_def split: if_splits)
next
  case (enqueue s e)
  have "keyed o_event_id (event_outbox (enqueue_event e s))"
    using enqueue keyed_enqueue by (simp add: store_ok_def)
  then show ?case using enqueue by (simp add: store_ok_def enqueue_event_def)
next
  case (project p s)
  have "projections_ok (transport_projections (insert_transport_projection p s))"
    using projections_ok_insert project by (simp add: store_ok_def)
  then show ?case using project
    by (simp add: store_ok_def insert_transport_projection_def keyed_upsert)
next
  case (published s now i)
  then show ?case using projection_op_ok projection_ops_ok(1) unfolding projection_defs store_ok_def by simp
next
  case (obsolete s i)
  then show ?case using projection_op_ok projection_ops_ok(2) unfolding projection_defs store_ok_def by simp
next
  case (requeue s now i)
  then show ?case using projection_op_ok projection_ops_ok(3) unfolding projection_defs store_ok_def by simp
next
  case (defer_pub s i n t)
  then show ?case using projection_op_ok projection_ops_ok(4) unfolding projection_defs store_ok_def by simp
next
  case (convert s i path pl)
  then show ?case using projection_op_ok projection_ops_ok(5) unfolding projection_defs store_ok_def by simp
next
  case (pickup s i)
  then show ?case using projection_op_ok projection_ops_ok(6) unfolding projection_defs store_ok_def by simp
qed (auto simp: store_ok_def update_defs Let_def keyed_del keyed_append row_get_None keyed_upsert
    runs_ok_ops projections_ok_del)

section \<open>The life of a run\<close>

definition run_evolves :: "run_claim \<Rightarrow> run_claim \<Rightarrow> bool" where
  "run_evolves r r' \<longleftrightarrow> run_identity r' = run_identity r \<and> r_claimed_at r' = r_claimed_at r \<and>
     (r_status r = Finished \<longrightarrow> r' = r) \<and> (r_cancel_requested r \<longrightarrow> r_cancel_requested r')"

lemma run_evolves_refl [simp]: "run_evolves r r"
  by (simp add: run_evolves_def)

lemma run_evolves_trans: "run_evolves a b \<Longrightarrow> run_evolves b c \<Longrightarrow> run_evolves a c"
  unfolding run_evolves_def by metis

lemma row_get_evolves:
  assumes "\<And>r. P r \<Longrightarrow> run_evolves r (f r)" "row_get r_id i rows = Some r"
  shows "\<exists>r'. row_get r_id i (row_set P f rows) = Some r' \<and> run_evolves r r'"
proof -
  have same: "r_id (f r) = r_id r" if "P r" for r
    using assms(1) [OF that] by (simp add: run_evolves_def run_identity_def)
  show ?thesis using assms(2)
  proof (induction rows)
    case (Cons a rows)
    then show ?case using same assms(1) by (cases "r_id a = i"; cases "P a")
        (auto simp: row_get_def row_set_def)
  qed (simp add: row_get_def)
qed

lemma evolving_updates:
  "open_status (r_status r) \<Longrightarrow> run_evolves r (finish_row now outcome reason r)"
  "r_status r = Pending \<Longrightarrow> run_evolves r (r_status_update (\<lambda>_. Active) r)"
  "r_status r = Active \<Longrightarrow> run_evolves r (r_status_update (\<lambda>_. Pending) r)"
  "r_status r = Active \<Longrightarrow> run_evolves r (r_cancel_requested_update (\<lambda>_. True) r)"
  by (auto simp: run_evolves_def run_identity_def finish_row_def open_status_def)

lemma step_run_evolves:
  assumes "store_step L s s'" "get_run s i = Some r"
  shows "\<exists>r'. get_run s' i = Some r' \<and> run_evolves r r'"
  using assms
proof (induction rule: store_step.induct)
  case (create now fresh new s t s')
  then show ?case by (elim create_timer_Some) (simp add: get_run_def)
next
  case (update now up s t s')
  then show ?case by (elim update_timer_Some) (simp add: get_run_def)
next
  case (claim now fresh j t s c s')
  then show ?case using claim_run_Inr(1) [OF claim(1)]
    by (auto simp: get_run_def row_get_append)
next
  case (finish now j outcome reason s c s')
  then show ?case using finish_run_Inr(1) [OF finish(1)]
    by (auto simp: get_run_def intro!: row_get_evolves evolving_updates)
next
  case (state_insert row s s')
  then show ?case by (auto simp: insert_run_state_def get_run_def split: if_splits)
qed (auto simp: get_run_def update_defs Let_def enqueue_event_def insert_transport_projection_def
    projection_defs intro!: row_get_evolves evolving_updates)

lemma history_run_evolves:
  assumes "(store_step L)\<^sup>*\<^sup>* s s'" "get_run s i = Some r"
  shows "\<exists>r'. get_run s' i = Some r' \<and> run_evolves r r'"
  using assms
proof (induction rule: rtranclp_induct)
  case (step t u)
  then show ?case using step_run_evolves run_evolves_trans by blast
qed auto

section \<open>Cursors and settled projections\<close>

lemma step_ack_mono:
  assumes "store_step L s s'"
  shows "last_acked_sequence s i \<le> last_acked_sequence s' i"
  using assms
proof (induction rule: store_step.induct)
  case (create now fresh new s t s')
  then show ?case by (elim create_timer_Some) (simp add: last_acked_sequence_def)
next
  case (update now up s t s')
  then show ?case by (elim update_timer_Some) (simp add: last_acked_sequence_def)
next
  case (claim now fresh j t s c s')
  then show ?case using claim_run_Inr(1) [OF claim(1)] by (simp add: last_acked_sequence_def)
next
  case (finish now j outcome reason s c s')
  then show ?case using finish_run_Inr(1) [OF finish(1)] by (simp add: last_acked_sequence_def)
next
  case (state_insert row s s')
  then show ?case by (auto simp: insert_run_state_def last_acked_sequence_def split: if_splits)
next
  case (ack s j n)
  then show ?case by (auto simp: ack_run_events_def Let_def last_acked_sequence_def upsert_get
        split: option.splits)
qed (simp_all add: last_acked_sequence_def update_defs Let_def enqueue_event_def
    insert_transport_projection_def projection_defs)

definition settled :: "string \<Rightarrow> bool" where
  "settled st \<longleftrightarrow> st = OBSOLETE \<or> st = PICKED_UP"

lemma settled_not_live: "settled st \<Longrightarrow> \<not> live_state st \<and> st \<noteq> PENDING \<and> st \<noteq> PUBLISHED"
  by (auto simp: settled_def live_state_def)

lemma set_projection_settled:
  assumes "transport_projection_of s i = Some p" "\<not> Q (p_state p)" "key_kept projection_identity f"
  shows "transport_projection_of (set_projection j Q f s) i = Some p"
proof -
  have k: "p_run_id (f x) = p_run_id x" for x
    using key_kept.key_f [OF assms(3), of x] by (simp add: projection_identity_def)
  have "row_get p_run_id i rows = Some p \<Longrightarrow>
      row_get p_run_id i (row_set (\<lambda>p. p_run_id p = j \<and> Q (p_state p)) f rows) = Some p" for rows
    using assms(2) k by (induction rows) (auto simp: row_get_def row_set_def split: if_splits)
  then show ?thesis using assms(1) by (simp add: transport_projection_of_def set_projection_def)
qed

end
