(* ===== verification/Store_Properties.thy ===== *)
theory Store_Properties
  imports Store_Steps Occurrence_Properties
begin

text \<open>
  The properties of the store (\<open>store/mod.rs\<close>): its invariant over every history, the claim
  ledger, optimistic updates, the horizon query, idempotent slot requests, cursors.
\<close>

section \<open>A sample store\<close>

definition empty_store :: store where
  "empty_store = \<lparr> timers = [], runs = [], run_states = [], slot_requests = [], timer_owners = [],
     slot_event_acks = [], event_outbox = [], rotation_journal_row = None,
     transport_projections = [], target_cursors = [],
     meta = \<lparr>schema_version = 10, last_prune = None, last_recalibration = None, tzdata_version = None\<rparr>,
     horizon_queries = 0 \<rparr>"

lemma empty_store_ok: "store_ok empty_store"
  by (simp add: store_ok_def empty_store_def runs_ok_def projections_ok_def keyed_def)

definition sample_run :: run_claim where
  "sample_run = \<lparr> r_id = 7, r_timer = 1, r_scheduled_for = 100, r_status = Pending,
     r_claimed_at = 105, r_completed_at = None, r_event_sequence = 1, r_outcome = None,
     r_outcome_reason = None, r_cancel_requested = False \<rparr>"

definition claimed_store :: store where
  "claimed_store = empty_store\<lparr>runs := [sample_run]\<rparr>"

lemma claim_sample: "claim_run 105 7 1 100 empty_store = Inr (sample_run, claimed_store)"
  by (simp add: claim_run_def claim_run_conn_def next_sequence_def runs_of_def max_or_0_def Let_def
      empty_store_def claimed_store_def sample_run_def)

lemma claimed_store_ok: "store_ok claimed_store"
  by (rule store_step_ok [OF store_step.claim [OF claim_sample] empty_store_ok])

section \<open>The invariant and the claim ledger\<close>

text \<open>C4: Every history of store operations keeps the store's invariant: primary keys unique, one
  run per timer and scheduled instant, event sequences distinct within a timer and positive,
  a run finished exactly when it has an outcome and a completion instant, publication orders
  distinct, projections in one of the four states. Every other table has unique keys.\<close>

theorem store_invariant_history:
  assumes "(store_step L)\<^sup>*\<^sup>* s s'" and "store_ok s"
  shows "store_ok s'"
  using assms by (induction rule: rtranclp_induct) (auto intro: store_step_ok)

theorem store_invariant_history_witness: "store_ok (snd (activate_run 7 claimed_store))"
  by (rule store_invariant_history [of sample_lib empty_store])
    (auto intro: rtranclp.intros store_step.claim [OF claim_sample] store_step.activate empty_store_ok)

text \<open>Claiming a fire, on both branches: a claimed slot answers \<open>AlreadyClaimed\<close>; a free one,
  given a fresh id, answers a pending claim whose sequence is above every other of the timer,
  and afterwards exactly that slot has been added to the ledger.\<close>

theorem claim_run_spec:
  assumes "get_run s fresh = None"
  shows "case get_claim_for s i t of
      Some r \<Rightarrow> claim_run now fresh i t s = Inl (AlreadyClaimed i t)
    | None \<Rightarrow> \<exists>c s'. claim_run now fresh i t s = Inr (c, s') \<and> r_status c = Pending \<and>
        r_id c = fresh \<and> r_outcome c = None \<and>
        (\<forall>r\<in>set (runs s). r_timer r = i \<longrightarrow> r_event_sequence r < r_event_sequence c) \<and>
        (\<forall>j u. get_claim_for s' j u = (if (j, u) = (i, t) then Some c else get_claim_for s j u)) \<and>
        (\<forall>x. get_run s' x = (if x = fresh then Some c else get_run s x))"
proof (cases "get_claim_for s i t")
  case (Some r)
  then have "r \<in> set (runs s)" "r_timer r = i" "r_scheduled_for r = t"
    unfolding get_claim_for_def by (auto dest: row_get_Some)
  then show ?thesis using Some by (auto simp: claim_run_def claim_run_conn_def Let_def)
next
  case None
  then have "\<not> (\<exists>r\<in>set (runs s). r_id r = fresh \<or> r_timer r = i \<and> r_scheduled_for r = t)"
    using assms by (auto simp: get_claim_for_def get_run_def row_get_None image_iff)
  then obtain c s' where c: "claim_run now fresh i t s = Inr (c, s')"
    by (auto simp: claim_run_def claim_run_conn_def Let_def)
  note c' = claim_run_Inr [OF c]
  have "get_claim_for s' j u = (if (j, u) = (i, t) then Some c else get_claim_for s j u)" for j u
    using c' None by (auto simp: get_claim_for_def row_get_append split: option.splits)
  moreover have "get_run s' x = (if x = fresh then Some c else get_run s x)" for x
    using c' assms by (auto simp: get_run_def row_get_append split: option.splits)
  ultimately show ?thesis using None c c' next_sequence_fresh by auto
qed

theorem claim_run_spec_witness:
  "claim_run 110 8 1 100 claimed_store = Inl (AlreadyClaimed 1 100)"
  using claim_run_spec [where s = claimed_store and fresh = 8 and i = 1 and t = 100 and now = 110]
  by (simp add: get_run_def get_claim_for_def row_get_def claimed_store_def sample_run_def)

text \<open>C5: At-least-once, never twice: once a slot has been claimed, no later history of the store
  lets it be claimed again, whatever happened to the run.\<close>

theorem slot_claimed_once:
  assumes "claim_run now fresh i t s = Inr (c, s1)"
    and "(store_step L)\<^sup>*\<^sup>* s1 s2"
  shows "claim_run now' fresh' i t s2 = Inl (AlreadyClaimed i t)"
proof -
  note c = claim_run_Inr [OF assms(1)]
  have "get_run s1 fresh = Some c" using c by (simp add: get_run_def row_get_append)
  from history_run_evolves [OF assms(2) this] obtain r where
    r: "get_run s2 fresh = Some r" "run_evolves c r" by blast
  then have "r \<in> set (runs s2)" "r_timer r = i" "r_scheduled_for r = t"
    using c by (auto simp: get_run_def run_evolves_def run_identity_def dest: row_get_Some)
  then show ?thesis by (auto simp: claim_run_def claim_run_conn_def Let_def)
qed

theorem slot_claimed_once_witness:
  "claim_run 120 9 1 100 (snd (finish_run_conn 115 7 WakeDelivered ''done'' claimed_store)) =
     Inl (AlreadyClaimed 1 100)"
  by (rule slot_claimed_once [OF claim_sample, of sample_lib])
    (auto intro: rtranclp.intros store_step.finish_conn)

text \<open>C6: A finished run is never rewritten: through every later history it is the same row, so its
  outcome, reason and completion instant stand.\<close>

theorem finished_run_is_final:
  assumes "get_run s i = Some r" "r_status r = Finished" "(store_step L)\<^sup>*\<^sup>* s s'"
  shows "get_run s' i = Some r"
  using history_run_evolves [OF assms(3,1)] assms(2) by (auto simp: run_evolves_def)

theorem finished_run_is_final_witness:
  "get_run (snd (repend_all_active (snd (finish_run_conn 115 7 WakeFailed ''x'' claimed_store)))) 7 =
     Some (finish_row 115 WakeFailed (Some ''x'') sample_run)"
proof (rule finished_run_is_final [where L = sample_lib])
  show "get_run (snd (finish_run_conn 115 7 WakeFailed ''x'' claimed_store)) 7 =
      Some (finish_row 115 WakeFailed (Some ''x'') sample_run)"
    by (simp add: finish_run_conn_def get_run_def row_get_def row_set_def claimed_store_def
        sample_run_def open_status_def finish_row_def)
qed (auto simp: finish_row_def intro: rtranclp.intros store_step.repend_all)

text \<open>Activation is a compare-and-swap: it succeeds exactly on a pending run, which it makes
  active and nothing else, and a second activation of the same run fails.\<close>

theorem activate_run_cas:
  assumes "store_ok s"
  shows "(fst (activate_run i s) \<longleftrightarrow> (\<exists>r. get_run s i = Some r \<and> r_status r = Pending)) \<and>
    \<not> fst (activate_run i (snd (activate_run i s))) \<and>
    get_run (snd (activate_run i s)) j =
      map_option (\<lambda>r. if j = i \<and> r_status r = Pending then r\<lparr>r_status := Active\<rparr> else r) (get_run s j)"
proof -
  have k: "keyed r_id (runs s)" using assms by (simp add: store_ok_def runs_ok_def)
  have look: "get_run (snd (activate_run i s)) j =
      map_option (\<lambda>r. if j = i \<and> r_status r = Pending then r\<lparr>r_status := Active\<rparr> else r) (get_run s j)" for j
  proof -
    have "row_get r_id j (row_set (\<lambda>r. r_id r = i \<and> r_status r = Pending) (r_status_update (\<lambda>_. Active)) rows) =
        map_option (\<lambda>r. if j = i \<and> r_status r = Pending then r\<lparr>r_status := Active\<rparr> else r)
          (row_get r_id j rows)" for rows
      by (induction rows) (auto simp: row_get_def row_set_def)
    then show ?thesis by (simp add: get_run_def activate_run_def Let_def)
  qed
  have hit: "fst (activate_run i t) \<longleftrightarrow> (\<exists>r. get_run t i = Some r \<and> r_status r = Pending)"
    if "keyed r_id (runs t)" for t
    using row_count_key [OF that, of i "\<lambda>r. r_status r = Pending"]
    by (auto simp: activate_run_def Let_def get_run_def split: option.splits)
  have "store_ok (snd (activate_run i s))" by (rule store_step_ok [OF store_step.activate assms])
  then have "\<not> fst (activate_run i (snd (activate_run i s)))"
    by (subst hit) (auto simp: store_ok_def runs_ok_def look)
  with hit [OF k] look show ?thesis by simp
qed

theorem activate_run_cas_witness:
  "fst (activate_run 7 claimed_store) \<and> \<not> fst (activate_run 7 (snd (activate_run 7 claimed_store)))"
  using activate_run_cas [OF claimed_store_ok, of 7]
  by (simp add: get_run_def row_get_def claimed_store_def sample_run_def)

section \<open>Timers\<close>

text \<open>Optimistic updates: an unknown timer, a revision the caller did not read, or an invalid
  schedule is refused with its own error; a success advances the revision, schedules from the
  last fire, and leaves every other timer as it was.\<close>

theorem update_timer_branches:
  assumes "store_ok s" and "update_timer L now up s = Some res"
  shows "case res of
      Inl e \<Rightarrow> (case get_timer s (up_id up) of
          None \<Rightarrow> e = NotFound (up_id up)
        | Some old \<Rightarrow> (if t_revision old \<noteq> up_expected_revision up
            then e = StaleRevision (up_id up) (up_expected_revision up) (t_revision old)
            else \<exists>oc k. u_occurrence (up_patch up) = Some oc \<and> validate (kind oc) = Inl k \<and>
                   e = InvalidOccurrence k))
    | Inr (t, s') \<Rightarrow> \<exists>old. get_timer s (up_id up) = Some old \<and>
        t_revision old = up_expected_revision up \<and> t_id t = up_id up \<and>
        t_revision t = saturating_add_1 (t_revision old) \<and>
        (\<exists>oc. compute_next_fire L (patch_field (u_occurrence (up_patch up)) (t_occurrence old))
           (t_last_fired t) now = Some (oc, t_next_fire t) \<and> t_occurrence t = oc) \<and>
        (\<forall>j. get_timer s' j = (if j = up_id up then Some t else get_timer s j))"
proof (cases res)
  case (Inr p)
  then obtain t s' where p: "res = Inr (t, s')" by (cases p) auto
  show ?thesis using update_timer_ok [OF assms(2) [unfolded p]] unfolding p by auto
next
  case (Inl e)
  show ?thesis using update_timer_error [OF assms(1)] assms(2) unfolding Inl by simp
qed

lemma apply_empty_patch: "apply_patch t empty_patch = Inr t"
  by (cases t) (simp add: apply_patch_def empty_patch_def Let_def)

text \<open>The sample schedule in a timer, last fired at \<open>sample_after\<close>, one fire to be skipped.\<close>

definition sample_new :: new_timer where
  "sample_new = (new_timer_new ''t'' sample_daily)\<lparr>n_id := Some 3, n_last_fired := Some sample_after\<rparr>"

definition sample_timer :: timer where
  "sample_timer = new_timer_row 3 sample_new (sample_daily\<lparr>pending_skips := 0\<rparr>) (Some sample_fire)"

definition sample_store :: store where
  "sample_store = empty_store\<lparr>timers := [sample_timer]\<rparr>"

lemma timezone_sample: "timezone sample_lib sample_daily = Some helsinki"
  by (simp add: timezone_def sample_daily_def sample_lib_def sample_tz_def)

lemma create_sample: "create_timer sample_lib 0 9 sample_new empty_store = Some (Inr (sample_timer, sample_store))"
proof -
  have v: "validate (kind sample_daily) = Inr ()" by (simp add: sample_daily_def validate_def)
  have c: "compute_next_fire sample_lib sample_daily (Some sample_after) 0 =
      Some (sample_daily\<lparr>pending_skips := 0\<rparr>, Some sample_fire)"
    by (simp add: compute_next_fire_def timezone_sample next_fire_sample)
  have n: "n_occurrence sample_new = sample_daily" "n_id sample_new = Some 3"
    "n_last_fired sample_new = Some sample_after" by (simp_all add: sample_new_def new_timer_new_def)
  have e: "timers empty_store = []" by (simp add: empty_store_def)
  show ?thesis
    by (simp add: create_timer_def create_timer_tx_def n v c Let_def get_timer_def row_get_def e
        sample_timer_def sample_store_def)
qed

lemma sample_store_ok: "store_ok sample_store"
  by (rule store_step_ok [OF store_step.create [OF create_sample] empty_store_ok])

theorem update_timer_branches_witness:
  "update_timer sample_lib 0 \<lparr>up_id = 3, up_expected_revision = 4, up_patch = empty_patch\<rparr> sample_store =
     Some (Inl (StaleRevision 3 4 1))"
proof -
  let ?up = "\<lparr>up_id = 3, up_expected_revision = 4, up_patch = empty_patch\<rparr>"
  have get: "get_timer sample_store 3 = Some sample_timer"
    by (simp add: get_timer_def row_get_def sample_store_def sample_timer_def)
  obtain res where res: "update_timer sample_lib 0 ?up sample_store = Some res"
    by (simp add: update_timer_def update_timer_tx_def get sample_timer_def)
  from update_timer_branches [OF sample_store_ok res] get have "res = Inl (StaleRevision 3 4 1)"
    by (cases res) (auto simp: sample_timer_def)
  then show ?thesis using res by simp
qed

text \<open>A skipped fire comes back: when a timer was created with pending skips and then updated
  without touching its schedule, the update plans a fire before the one planned at creation,
  namely one that was to be skipped, in a zone that keeps its days in order there. (Scheduling consumes the skips, but an update schedules
  again from the last fire.)\<close>

theorem update_resurrects_skipped_fire:
  assumes "create_timer L now fresh new s = Some (Inr (t, s1))"
    and "n_last_fired new = Some lf" "searchable L cm z (n_occurrence new)"
    and "0 < pending_skips (n_occurrence new)" "t_next_fire t = Some a"
    and "update_timer L now' \<lparr>up_id = t_id t, up_expected_revision = 1, up_patch = empty_patch\<rparr> s1 =
      Some (Inr (t', s2))"
    and "t_next_fire t' = Some b"
    and "jumps_forward L (n_occurrence new) z lf" "\<And>hi. days_in_order L (n_occurrence new) z lf hi"
  shows "b < a"
proof -
  let ?oc = "n_occurrence new" and ?P = "offered L cm z (n_occurrence new)"
  obtain i oc where c: "compute_next_fire L ?oc (Some lf) now = Some (oc, Some a)"
    "t = new_timer_row i new oc (Some a)" "get_timer s i = None" "s1 = s\<lparr>timers := timers s @ [t]\<rparr>"
    using assms(1,2,5) by (elim create_timer_Some) auto
  have "next_fire L ?oc lf = Some (oc, Some a)" using c(1)
    by (auto simp: compute_next_fire_def bind_Some)
  note a = next_fire_offered(1,2) [OF assms(3) this]
    next_fire_offered(4) [OF assms(3) this assms(8)] next_fire_offered(5) [OF assms(3) this assms(8,9)]
  have cur: "get_timer s1 (t_id t) = Some t" using c by (simp add: get_timer_def row_get_append)
  obtain oc' where "compute_next_fire L (t_occurrence t) (Some lf) now' = Some (oc', Some b)"
    using assms(6)
  proof (cases rule: update_timer_Some)
    case (1 old nxt oc' fire)
    then have "nxt = t" using cur by (simp add: apply_empty_patch)
    then show thesis using that 1(4,5) c(2) assms(2,7) by simp
  qed
  then have "next_fire L (?oc\<lparr>pending_skips := 0\<rparr>) lf = Some (oc', Some b)"
    using c(2) a(2) by (auto simp: compute_next_fire_def bind_Some)
  note b = next_fire_offered [OF _ this]
  have "card (between ?P lf b) = 0" "finite (between ?P lf b)"
    using b(5) [of cm z] assms(3,8,9) by auto
  then have none: "between ?P lf b = {}" by simp
  show "b < a"
  proof (rule ccontr)
    assume "\<not> b < a"
    then have "between ?P lf a \<subseteq> between ?P lf b" by (auto simp: between_def)
    then show False using none a(4) assms(4) by simp
  qed
qed

definition sample_timer2 :: timer where
  "sample_timer2 = rescheduled_row sample_timer (sample_daily\<lparr>pending_skips := 0\<rparr>) (Some (sample_fire - day_ns))"

theorem update_resurrects_skipped_fire_witness:
  "\<exists>t' s2. update_timer sample_lib 0
       \<lparr>up_id = 3, up_expected_revision = 1, up_patch = empty_patch\<rparr> sample_store = Some (Inr (t', s2)) \<and>
     the (t_next_fire t') < the (t_next_fire sample_timer)"
proof -
  have nf: "next_fire sample_lib (sample_daily\<lparr>pending_skips := 0\<rparr>) sample_after =
      Some (sample_daily\<lparr>pending_skips := 0\<rparr>, Some (sample_fire - day_ns))"
    by (simp add: next_fire_def runs_exhausted_def search_floor_def timezone_def MAX_CANDIDATES_def
      candidates_numeral raw_next_after_def next_daily_def daily_scan_numeral resolve_def
      resolve_local_def resolve_naive_def at_time_def date_of_def succ_opt_def
      jump_past_exclusion_day_def instant_add_def sample_defs)
  have tzs: "timezone sample_lib (sample_daily\<lparr>pending_skips := 0\<rparr>) = Some helsinki"
    using timezone_sample by (simp add: timezone_def)
  let ?up = "\<lparr>up_id = t_id sample_timer, up_expected_revision = 1, up_patch = empty_patch\<rparr>"
  have up: "update_timer sample_lib 0 ?up sample_store =
      Some (Inr (sample_timer2, sample_store\<lparr>timers := [sample_timer2]\<rparr>))"
    using nf tzs
    by (simp add: update_timer_def update_timer_tx_def get_timer_def row_get_def sample_store_def
        sample_timer_def apply_empty_patch Let_def compute_next_fire_def
        row_count_def row_set_def sample_new_def sample_timer2_def)
  have "sample_fire - day_ns < sample_fire"
    using update_resurrects_skipped_fire [OF create_sample _ _ _ _ up, of sample_after "\<lambda>_. False" helsinki]
      searchable_daily helsinki_jumps helsinki_in_order
    by (simp add: sample_new_def new_timer_new_def sample_timer_def sample_timer2_def sample_daily_def)
  then show ?thesis using up by (auto simp: sample_timer_def sample_timer2_def)
qed

text \<open>The horizon query answers exactly the enabled timers whose next fire is at or before the
  horizon, each once, in the order of their fires and then of their ids.\<close>

theorem timers_due_by_exact:
  assumes "store_ok s"
  shows "set (fst (timers_due_by s h)) = {t \<in> set (timers s). t_enabled t \<and>
      (\<exists>n. t_next_fire t = Some n \<and> n \<le> h)} \<and>
    distinct (fst (timers_due_by s h)) \<and>
    sorted (map (\<lambda>t. (the (t_next_fire t), t_id t)) (fst (timers_due_by s h)))"
proof -
  have "distinct (timers s)" using assms by (simp add: store_ok_def keyed_def distinct_map)
  then show ?thesis
    by (auto simp: timers_due_by_def due_by_def distinct_sort split: option.splits)
qed

theorem timers_due_by_exact_witness:
  "set (fst (timers_due_by sample_store sample_fire)) = {sample_timer}"
  using timers_due_by_exact [OF sample_store_ok, of sample_fire]
  by (auto simp: sample_store_def sample_timer_def sample_new_def new_timer_new_def)

section \<open>Slot requests, cursors, projections\<close>

text \<open>A slot request is executed at most once: when it has been answered, asking again with the
  same id, with whatever operation, answers the stored record and changes nothing.\<close>

theorem slot_request_idempotent:
  assumes "slot_execute_once rid f s = Inr (q, s1)"
    and "\<And>q' s'. f s = Inr (q', s') \<Longrightarrow> q_request_id q' = rid \<and> get_slot_request s' rid = None"
  shows "slot_execute_once rid g s1 = Inr (q, s1)"
proof (cases "get_slot_request s rid")
  case (Some e)
  then show ?thesis using assms(1) by (simp add: slot_execute_once_def)
next
  case None
  then obtain s' where f: "f s = Inr (q, s')" "insert_slot_request_tx s' q = Inr s1"
    using assms(1) by (auto simp: slot_execute_once_def bindE_Inr)
  then have q: "q_request_id q = rid" "get_slot_request s' rid = None" using assms(2) by auto
  then have "get_slot_request s1 rid = Some q" using f(2)
    by (auto simp: insert_slot_request_tx_def get_slot_request_def row_get_append split: if_splits)
  then show ?thesis by (simp add: slot_execute_once_def)
qed

definition sample_request :: slot_request where
  "sample_request = \<lparr> q_request_id = ''r1'', q_slot_id = ''s'', q_operation = ''delete'',
     q_app_name = None, q_timer_id = Some 3, q_status = ''ok'', q_response_json = ''{}'',
     q_created_at = 5 \<rparr>"

text \<open>A delete request on the sample store, submitted twice.\<close>

definition delete_request :: "store \<Rightarrow> store_error + slot_request \<times> store" where
  "delete_request s = Inr (sample_request, snd (delete_timer s 3))"

theorem slot_request_idempotent_witness:
  "case slot_execute_once ''r1'' delete_request sample_store of
     Inr (q, s1) \<Rightarrow> q = sample_request \<and> timers s1 = [] \<and>
       slot_execute_once ''r1'' delete_request s1 = Inr (sample_request, s1)
   | Inl _ \<Rightarrow> False"
proof -
  have none: "get_slot_request (snd (delete_timer sample_store 3)) ''r1'' = None"
    "get_slot_request sample_store ''r1'' = None"
    by (simp_all add: get_slot_request_def row_get_def delete_timer_def sample_store_def empty_store_def)
  obtain q s1 where 1: "slot_execute_once ''r1'' delete_request sample_store = Inr (q, s1)"
    "q = sample_request" "timers s1 = []"
    using none
    by (auto simp: slot_execute_once_def delete_request_def insert_slot_request_tx_def bindE_Inr
        sample_request_def delete_timer_def row_del_def sample_store_def sample_timer_def)
  have "slot_execute_once ''r1'' delete_request s1 = Inr (q, s1)"
    by (rule slot_request_idempotent [OF 1(1)])
      (use none in \<open>auto simp: delete_request_def sample_request_def\<close>)
  then show ?thesis using 1 by simp
qed

text \<open>The acknowledgement cursor never moves back, in any history; and what the feed still
  offers is in sequence order and strictly above the cursor.\<close>

theorem ack_cursor_monotone:
  assumes "(store_step L)\<^sup>*\<^sup>* s s'"
  shows "last_acked_sequence s i \<le> last_acked_sequence s' i \<and>
    (\<forall>r\<in>set (unacked_runs_for_timer s' i n). last_acked_sequence s i < r_event_sequence r) \<and>
    sorted (map r_event_sequence (unacked_runs_for_timer s' i n))"
proof -
  have mono: "last_acked_sequence s i \<le> last_acked_sequence s' i"
    using assms by (induction rule: rtranclp_induct) (auto dest: step_ack_mono intro: order_trans)
  have "\<forall>r\<in>set (unacked_runs_for_timer s' i n). last_acked_sequence s' i < r_event_sequence r"
    by (auto simp: unacked_runs_for_timer_def dest: in_set_takeD)
  then have above: "\<forall>r\<in>set (unacked_runs_for_timer s' i n). last_acked_sequence s i < r_event_sequence r"
    using mono by fastforce
  have "sorted (map (\<lambda>r. (r_event_sequence r, r_id r)) (unacked_runs_for_timer s' i n))"
    unfolding unacked_runs_for_timer_def take_map [symmetric] by (intro sorted_wrt_take) simp
  then have "sorted (map r_event_sequence (unacked_runs_for_timer s' i n))"
    unfolding sorted_map by (rule sorted_wrt_mono_rel [rotated]) (auto simp: less_eq_prod_def)
  with mono above show ?thesis by blast
qed

theorem ack_cursor_monotone_witness:
  "last_acked_sequence (snd (ack_run_events 1 4 claimed_store)) 1 \<le>
     last_acked_sequence (snd (ack_run_events 1 2 (snd (ack_run_events 1 4 claimed_store)))) 1"
  using ack_cursor_monotone [where L = sample_lib and s = "snd (ack_run_events 1 4 claimed_store)"
      and s' = "snd (ack_run_events 1 2 (snd (ack_run_events 1 4 claimed_store)))" and i = 1 and n = 0]
  by (simp add: store_step.ack r_into_rtranclp)

text \<open>A settled notification stays settled: once a projection is obsolete or picked up, none of
  the publication, retry, fallback and pickup operations, on it or another, changes it.\<close>

theorem settled_projection_stays:
  assumes "transport_projection_of s i = Some p" and "settled (p_state p)"
  shows "transport_projection_of (mark_transport_published now j s) i = Some p \<and>
    transport_projection_of (mark_transport_obsolete j s) i = Some p \<and>
    transport_projection_of (requeue_transport_projection now j s) i = Some p \<and>
    transport_projection_of (defer_transport_projection j n at s) i = Some p \<and>
    transport_projection_of (snd (convert_projection_to_file j path pl s)) i = Some p \<and>
    transport_projection_of (mark_transport_picked_up j s) i = Some p"
  unfolding projection_defs snd_conv using settled_not_live [OF assms(2)]
  by (auto intro!: set_projection_settled [OF assms(1)] publishing.key_kept_axioms
      restating.key_kept_axioms requeueing.key_kept_axioms deferring.key_kept_axioms
      converting.key_kept_axioms)

definition sample_projection :: transport_projection where
  "sample_projection = \<lparr> p_run_id = 7, p_timer_id = 1, p_kind = KIND_FILE, p_target_path = ''f'',
     p_payload = ''{}'', p_publication_order = 1, p_state = PICKED_UP, p_attempts = 0,
     p_next_attempt_at = 0, p_created_at = 0, p_published_at = None \<rparr>"

theorem settled_projection_stays_witness:
  "transport_projection_of (requeue_transport_projection 9 7
     (empty_store\<lparr>transport_projections := [sample_projection]\<rparr>)) 7 = Some sample_projection"
  using settled_projection_stays [of "empty_store\<lparr>transport_projections := [sample_projection]\<rparr>" 7
      sample_projection 9 7]
  by (simp add: transport_projection_of_def row_get_def sample_projection_def settled_def)

text \<open>The run cap survives its \<open>i64\<close> column: it is read back as written up to \<open>i64::MAX\<close>, and a
  larger one as \<open>i64::MAX\<close>, so no cap is read back as a smaller one that would be exhausted
  earlier than \<open>i64::MAX\<close> runs.\<close>

theorem max_runs_column:
  "max_runs_from_sql (max_runs_to_sql m) = map_option (\<lambda>n. min n (nat i64_max)) m"
  by (cases m) (auto simp: max_runs_from_sql_def max_runs_to_sql_def min_def)

end
