(* ===== verification/Reply_Document.thy ===== *)
theory Reply_Document
  imports Event_Record
begin

text \<open>
  \<open>reply/document.rs\<close>: the parsed reply, the reasons a reply is refused, and the caps on what
  is stored. A string is its sequence of UTF-8 bytes; a JSON value is its serialization.
  Parsing the file is \<open>serde_json\<close>'s and not modelled.
\<close>

definition REPLY_SCHEMA_V1 :: string where "REPLY_SCHEMA_V1 = ''bellman-reply/1''"
definition MAX_RESULT_STATUS_BYTES :: nat where "MAX_RESULT_STATUS_BYTES = 32 * 1024"
definition MAX_RESULT_EVENT_BYTES :: nat where "MAX_RESULT_EVENT_BYTES = 2 * 1024"
definition MAX_FREE_TEXT_BYTES :: nat where "MAX_FREE_TEXT_BYTES = 1024"

record reply_document =
  d_schema :: "string option"
  d_run_id :: "nat option"
  d_app_name :: "string option"
  d_state :: "string option"
  d_acknowledged_at :: "instant option"
  d_expected_secs :: "nat option"
  d_error_detection :: "bool option"
  d_heartbeat_at :: "instant option"
  d_progress :: "string option"
  d_completed_at :: "instant option"
  d_result :: "string option"
  d_failed_at :: "instant option"
  d_reason :: "string option"
  d_hint :: "string option"

datatype reply_rejection =
    MissingSchema | BadSchema | MissingRunId | MissingAppName | WrongAppName | MissingState
  | ReservedState | ErrorDetectionWithoutEstimate | TerminalRegression | UnknownRun

definition rejection_as_str :: "reply_rejection \<Rightarrow> string" where
  "rejection_as_str r = (case r of
     MissingSchema \<Rightarrow> ''missing schema''
   | BadSchema \<Rightarrow> ''unexpected schema''
   | MissingRunId \<Rightarrow> ''missing run_id''
   | MissingAppName \<Rightarrow> ''missing app_name''
   | WrongAppName \<Rightarrow> ''app_name does not match the run's owner''
   | MissingState \<Rightarrow> ''missing state''
   | ReservedState \<Rightarrow> ''state is reserved to Bellman''
   | ErrorDetectionWithoutEstimate \<Rightarrow> ''error_detection requires a positive expected_secs''
   | TerminalRegression \<Rightarrow> ''terminal report cannot move back to non-terminal''
   | UnknownRun \<Rightarrow> ''unknown run_id'')"

section \<open>Truncation on character boundaries\<close>

text \<open>\<open>str::is_char_boundary\<close>: an end of the string, or a byte that does not continue a character.\<close>

definition is_char_boundary :: "string \<Rightarrow> nat \<Rightarrow> bool" where
  "is_char_boundary s i \<longleftrightarrow>
     i = 0 \<or> i = length s \<or>
     i < length s \<and> \<not> (128 \<le> (of_char (s ! i) :: nat) \<and> (of_char (s ! i) :: nat) < 192)"

fun boundary_from :: "string \<Rightarrow> nat \<Rightarrow> nat" where
  "boundary_from s 0 = 0"
| "boundary_from s (Suc n) = (if is_char_boundary s (Suc n) then Suc n else boundary_from s n)"

definition truncate_text :: "string \<Rightarrow> nat \<Rightarrow> string" where
  "truncate_text s cap = (if length s \<le> cap then s else take (boundary_from s cap) s)"

text \<open>\<open>quote\<close> is the serialization of a JSON string, \<open>serde_json\<close>'s.\<close>

definition cap_result :: "(string \<Rightarrow> string) \<Rightarrow> string \<Rightarrow> nat \<Rightarrow> string \<times> bool" where
  "cap_result quote value cap =
     (if length value \<le> cap then (value, False) else (quote (truncate_text value cap), True))"

lemma boundary_from_le: "boundary_from s n \<le> n"
  by (induction n) auto

lemma boundary_from_boundary: "is_char_boundary s (boundary_from s n)"
  by (induction n) (auto simp: is_char_boundary_def)

lemma boundary_from_greatest: "i \<le> n \<Longrightarrow> is_char_boundary s i \<Longrightarrow> i \<le> boundary_from s n"
  by (induction n) (auto simp: le_Suc_eq)

end
