(* ===== verification/Reply_World.thy ===== *)
theory Reply_World
  imports Store_Runs Reply_Document
begin

text \<open>
  What the reply lifecycle shares with the fire path (\<open>reply/engine.rs\<close>, "shared
  registries"): the store, the monotonic deadline book with its hint queue, the duration
  anchors. Registries keyed by run are \<open>HashMap\<close>s, here association lists with distinct keys;
  an iteration over one, whose order is unspecified, follows the list.

  Readings the code takes from outside are in the environment: the \<open>n\<close>th reading of
  \<open>Utc::now()\<close> and the \<open>n\<close>th \<open>Uuid::new_v4()\<close> (the world counts them), \<open>Instant::now()\<close>, the
  largest \<open>Instant\<close>, the serialization of JSON objects and strings, and the watchdog's
  floating-point product \<open>Duration::from_secs_f64((secs as f64 * factor).max(0.0))\<close>, which
  panics out of range.
\<close>

datatype json = JStr string | JNum int | JBool bool | JRaw string

record env =
  env_lib :: lib
  utc_now :: "nat \<Rightarrow> instant"
  new_uuid :: "nat \<Rightarrow> uuid"
  instant_now :: nat
  mono_max :: nat
  json_object :: "(string \<times> json) list \<Rightarrow> string"
  json_string :: "string \<Rightarrow> string"
  watchdog_span :: "nat \<Rightarrow> span exec"

datatype deadline_kind = Pickup | Watchdog

record mono_deadline =
  dl_kind :: deadline_kind
  dl_at :: nat

record world =
  db :: store
  draws :: nat
  book :: "(uuid \<times> mono_deadline) list"
  armed_hints :: "(uuid \<times> deadline_kind \<times> instant) list"
  anchors :: "(uuid \<times> nat) list"

section \<open>Hash maps\<close>

definition hm_get :: "'k \<Rightarrow> ('k \<times> 'v) list \<Rightarrow> 'v option" where
  "hm_get k m = map_option snd (row_get fst k m)"

definition hm_put :: "'k \<Rightarrow> 'v \<Rightarrow> ('k \<times> 'v) list \<Rightarrow> ('k \<times> 'v) list" where
  "hm_put k v m = upsert k v (\<lambda>_ new. new) m"

definition hm_remove :: "'k \<Rightarrow> ('k \<times> 'v) list \<Rightarrow> ('k \<times> 'v) list" where
  "hm_remove k m = row_del (\<lambda>r. fst r = k) m"

lemma hm_get_put [simp]: "hm_get k (hm_put j v m) = (if k = j then Some v else hm_get k m)"
  unfolding hm_get_def hm_put_def upsert_def
proof (cases "row_get fst j m")
  case None
  then show "map_option snd (row_get fst k (if row_get fst j m = None then m @ [(j, v)]
      else row_set (\<lambda>r. fst r = j) (\<lambda>(j, old). (j, v)) m)) =
    (if k = j then Some v else map_option snd (row_get fst k m))"
    by (auto simp: row_get_append split: option.splits)
next
  case (Some r)
  have "map_option snd (row_get fst k (row_set (\<lambda>r. fst r = j) (\<lambda>(j, old). (j, v)) rows)) =
      (if k = j \<and> row_get fst j rows \<noteq> None then Some v else map_option snd (row_get fst k rows))"
    for rows
    by (induction rows) (auto simp: row_get_def row_set_def)
  with Some show "map_option snd (row_get fst k (if row_get fst j m = None then m @ [(j, v)]
      else row_set (\<lambda>r. fst r = j) (\<lambda>(j, old). (j, v)) m)) =
    (if k = j then Some v else map_option snd (row_get fst k m))" by auto
qed

lemma hm_get_remove [simp]: "hm_get k (hm_remove j m) = (if k = j then None else hm_get k m)"
  by (simp add: hm_get_def hm_remove_def row_get_del)

lemma hm_get_Nil [simp]: "hm_get k [] = None"
  by (simp add: hm_get_def row_get_def)

section \<open>Event lines\<close>

text \<open>\<open>EventRecord::new(kind)\<close>, its builders, and \<open>enqueue_event\<close>.\<close>

definition emit :: "env \<Rightarrow> run_state \<Rightarrow> (event \<Rightarrow> event) \<Rightarrow> 'z world_scheme \<Rightarrow> 'z world_scheme" where
  "emit E k f w =
     w\<lparr>db := enqueue_event (f (event_new (utc_now E (draws w)) (new_uuid E (draws w)) k)) (db w),
       draws := draws w + 1\<rparr>"

definition set_row :: "run_state_row \<Rightarrow> 'z world_scheme \<Rightarrow> 'z world_scheme" where
  "set_row row w = w\<lparr>db := update_run_state row (db w)\<rparr>"

section \<open>The deadline book\<close>

text \<open>\<open>Instant + Duration\<close> panics past the largest \<open>Instant\<close>.\<close>

definition mono_add :: "env \<Rightarrow> nat \<Rightarrow> span \<Rightarrow> nat exec" where
  "mono_add E t d = (if t + d \<le> mono_max E then ret (t + d) else panic)"

definition arm_hint :: "uuid \<Rightarrow> deadline_kind \<Rightarrow> instant \<Rightarrow> 'z world_scheme \<Rightarrow> 'z world_scheme" where
  "arm_hint run_id k wall_at w = w\<lparr>armed_hints := armed_hints w @ [(run_id, k, wall_at)]\<rparr>"

definition book_put :: "uuid \<Rightarrow> mono_deadline \<Rightarrow> 'z world_scheme \<Rightarrow> 'z world_scheme" where
  "book_put run_id d w = w\<lparr>book := hm_put run_id d (book w)\<rparr>"

definition take_deadline_hints ::
  "'z world_scheme \<Rightarrow> (uuid \<times> deadline_kind \<times> instant) list \<times> 'z world_scheme" where
  "take_deadline_hints w = (armed_hints w, w\<lparr>armed_hints := []\<rparr>)"

definition clear_deadlines :: "uuid \<Rightarrow> 'z world_scheme \<Rightarrow> 'z world_scheme" where
  "clear_deadlines run_id w = w\<lparr>book := hm_remove run_id (book w)\<rparr>"

definition holds_kind :: "uuid \<Rightarrow> deadline_kind \<Rightarrow> 'z world_scheme \<Rightarrow> bool" where
  "holds_kind run_id k w = (case hm_get run_id (book w) of None \<Rightarrow> False | Some d \<Rightarrow> dl_kind d = k)"

definition clear_deadlines_kind :: "uuid \<Rightarrow> deadline_kind \<Rightarrow> 'z world_scheme \<Rightarrow> 'z world_scheme" where
  "clear_deadlines_kind run_id k w = (if holds_kind run_id k w then clear_deadlines run_id w else w)"

definition due_deadlines :: "deadline_kind \<Rightarrow> nat \<Rightarrow> 'z world_scheme \<Rightarrow> uuid list" where
  "due_deadlines k mono_now w = map fst (filter (\<lambda>(_, d). dl_kind d = k \<and> dl_at d \<le> mono_now) (book w))"

definition register_fire :: "env \<Rightarrow> span \<Rightarrow> uuid \<Rightarrow> instant \<Rightarrow> 'z world_scheme \<Rightarrow> 'z world_scheme exec" where
  "register_fire E pickup_grace run_id now_wall w =
     do { let now = instant_now E;
          let w1 = w\<lparr>anchors := hm_put run_id now (anchors w)\<rparr>;
          wall_at \<leftarrow> instant_add (env_lib E) now_wall
            (case from_std (env_lib E) pickup_grace of None \<Rightarrow> 60 * sec_ns | Some d \<Rightarrow> d);
          at \<leftarrow> mono_add E now pickup_grace;
          ret (arm_hint run_id Pickup wall_at (book_put run_id \<lparr>dl_kind = Pickup, dl_at = at\<rparr> w1)) }"

text \<open>The wall-clock remainder, clamped at zero: \<open>to_std\<close> fails on a negative duration.\<close>

definition remaining :: "instant \<Rightarrow> instant \<Rightarrow> span" where
  "remaining deadline now_wall = nat (deadline - now_wall)"

fun sync_rows ::
  "env \<Rightarrow> instant \<Rightarrow> nat \<Rightarrow> run_state_row list \<Rightarrow> nat \<Rightarrow> 'z world_scheme \<Rightarrow> (nat \<times> 'z world_scheme) exec" where
  "sync_rows E now_wall mono_now [] added w = ret (added, w)"
| "sync_rows E now_wall mono_now (row # rows) added w =
     (if hm_get (s_run_id row) (book w) \<noteq> None then sync_rows E now_wall mono_now rows added w
      else
        case (s_pickup_deadline row, s_watchdog_deadline row) of
          (Some deadline, _) \<Rightarrow>
            do { at \<leftarrow> mono_add E mono_now (remaining deadline now_wall);
                 sync_rows E now_wall mono_now rows (added + 1)
                   (book_put (s_run_id row) \<lparr>dl_kind = Pickup, dl_at = at\<rparr> w) }
        | (None, Some deadline) \<Rightarrow>
            do { at \<leftarrow> mono_add E mono_now (remaining deadline now_wall);
                 sync_rows E now_wall mono_now rows (added + 1)
                   (book_put (s_run_id row) \<lparr>dl_kind = Watchdog, dl_at = at\<rparr> w) }
        | (None, None) \<Rightarrow> sync_rows E now_wall mono_now rows added w)"

definition sync_deadline_book ::
  "env \<Rightarrow> instant \<Rightarrow> nat \<Rightarrow> 'z world_scheme \<Rightarrow> (nat \<times> 'z world_scheme) exec" where
  "sync_deadline_book E now_wall mono_now w = sync_rows E now_wall mono_now (armed_deadlines (db w)) 0 w"

section \<open>The watchdog span and the run's duration\<close>

definition watchdog_instant :: "env \<Rightarrow> nat \<Rightarrow> nat \<Rightarrow> nat exec" where
  "watchdog_instant E expected_secs mono_now =
     do { d \<leftarrow> watchdog_span E expected_secs; mono_add E mono_now d }"

definition watchdog_wall :: "env \<Rightarrow> nat \<Rightarrow> instant \<Rightarrow> instant exec" where
  "watchdog_wall E expected_secs now_wall =
     do { d \<leftarrow> watchdog_span E expected_secs;
          instant_add (env_lib E) now_wall
            (case from_std (env_lib E) d of None \<Rightarrow> 0 | Some c \<Rightarrow> c) }"

definition duration_ms ::
  "env \<Rightarrow> uuid \<Rightarrow> instant \<Rightarrow> instant \<Rightarrow> 'z world_scheme \<Rightarrow> (int \<times> string option) \<times> 'z world_scheme" where
  "duration_ms E run_id fired_at now_wall w =
     (case hm_get run_id (anchors w) of
        Some anchor \<Rightarrow>
          ((max 0 (min i64_max (int ((instant_now E - anchor) div 1000000))), None),
           w\<lparr>anchors := hm_remove run_id (anchors w)\<rparr>)
      | None \<Rightarrow> ((max 0 (num_milliseconds (now_wall - fired_at)), Some ''wall_clock''), w))"

end
