(* ===== verification/Reply_Engine.thy ===== *)
theory Reply_Engine
  imports Reply_World
begin

text \<open>
  \<open>reply/engine.rs\<close>: from a parsed reply to the run's new state. A reply is validated, matched
  to the timer's current run, and folded into its row; a slot-feed acknowledgement and the two
  deadlines are the other transitions. The store is the one under the open transaction, so an
  operation answers its outcome and the new world, or panics (an instant or a span out of
  range). \<open>reply_digest\<close> comparisons are on the digest the transport computed.
\<close>

datatype ingest_outcome = Applied | Duplicate | SupersededReply | Rejected reply_rejection

section \<open>Validation on sight\<close>

definition sight_check :: "reply_document \<Rightarrow> reply_rejection + uuid \<times> run_state" where
  "sight_check doc =
     (case d_schema doc of
        None \<Rightarrow> Inl MissingSchema
      | Some sc \<Rightarrow>
          if sc \<noteq> REPLY_SCHEMA_V1 then Inl BadSchema
          else
            case d_run_id doc of
              None \<Rightarrow> Inl MissingRunId
            | Some run_id \<Rightarrow>
                let state_str = (case d_state doc of None \<Rightarrow> '''' | Some st \<Rightarrow> st);
                    refused = (if d_state doc = None then MissingState else ReservedState) in
                case from_wire state_str of
                  None \<Rightarrow> Inl refused
                | Some st \<Rightarrow>
                    if \<not> is_app_writable st then Inl refused
                    else if d_app_name doc = None then Inl MissingAppName
                    else Inr (run_id, st))"

definition run_event :: "timer \<Rightarrow> uuid \<Rightarrow> instant \<Rightarrow> event \<Rightarrow> event" where
  "run_event t run_id scheduled_for e =
     with_scheduled_for (with_run (with_timer e (t_id t) (t_name t)) run_id) scheduled_for"

section \<open>Accepting a reply\<close>

text \<open>Omission retains; an explicit value replaces.\<close>

definition accumulate :: "reply_document \<Rightarrow> run_state \<Rightarrow> instant \<Rightarrow> run_state_row \<Rightarrow> run_state_row" where
  "accumulate doc new_state now_wall row =
     (let row1 = (case d_acknowledged_at doc of None \<Rightarrow> row | Some t \<Rightarrow> row\<lparr>s_acknowledged_at := Some t\<rparr>);
          row2 = (if s_acknowledged_at row1 = None \<and> new_state = Acknowledged
                  then row1\<lparr>s_acknowledged_at := Some now_wall\<rparr> else row1);
          row3 = (case d_expected_secs doc of None \<Rightarrow> row2 | Some secs \<Rightarrow> row2\<lparr>s_expected_secs := Some secs\<rparr>);
          row4 = (case d_error_detection doc of
                    None \<Rightarrow> row3
                  | Some detection \<Rightarrow>
                      let r = row3\<lparr>s_error_detection := Some detection\<rparr> in
                      if detection then r else r\<lparr>s_watchdog_deadline := None\<rparr>);
          row5 = (case d_heartbeat_at doc of None \<Rightarrow> row4 | Some t \<Rightarrow> row4\<lparr>s_heartbeat_at := Some t\<rparr>)
      in case d_progress doc of
           None \<Rightarrow> row5
         | Some p \<Rightarrow> row5\<lparr>s_progress := Some (truncate_text p MAX_FREE_TEXT_BYTES)\<rparr>)"

definition terminal_fields ::
  "env \<Rightarrow> reply_document \<Rightarrow> run_state \<Rightarrow> instant \<Rightarrow> run_state_row \<Rightarrow> run_state_row" where
  "terminal_fields E doc new_state now_wall row =
     (case new_state of
        Completed \<Rightarrow>
          let row1 = row\<lparr>s_completed_at :=
                Some (case d_completed_at doc of None \<Rightarrow> now_wall | Some t \<Rightarrow> t)\<rparr>;
              row2 = (case d_result doc of
                        None \<Rightarrow> row1
                      | Some result \<Rightarrow>
                          let (capped, truncated) =
                            cap_result (json_string E) result MAX_RESULT_STATUS_BYTES in
                          row1\<lparr>s_result_json := Some capped, s_result_truncated := truncated\<rparr>)
          in row2\<lparr>s_failed_at := None, s_reason := None, s_failure_kind := None\<rparr>
      | Failed \<Rightarrow>
          let row1 = row\<lparr>s_failed_at :=
                Some (case d_failed_at doc of None \<Rightarrow> now_wall | Some t \<Rightarrow> t)\<rparr>;
              row2 = (case d_reason doc of
                        None \<Rightarrow> row1
                      | Some r \<Rightarrow> row1\<lparr>s_reason := Some (truncate_text r MAX_FREE_TEXT_BYTES)\<rparr>)
          in row2\<lparr>s_failure_kind := Some Reported, s_completed_at := None, s_result_json := None,
               s_result_truncated := False\<rparr>
      | _ \<Rightarrow> row)"

definition arms_watchdog :: "run_state_row \<Rightarrow> bool" where
  "arms_watchdog row \<longleftrightarrow>
     s_error_detection row = Some True \<and> 0 < (case s_expected_secs row of None \<Rightarrow> 0 | Some n \<Rightarrow> n)"

definition rearm ::
  "env \<Rightarrow> run_state \<Rightarrow> instant \<Rightarrow> nat \<Rightarrow> run_state_row \<Rightarrow> 'z world_scheme \<Rightarrow>
     (run_state_row \<times> 'z world_scheme) exec" where
  "rearm E new_state now_wall mono_now row w =
     (let i = s_run_id row; w1 = clear_deadlines_kind i Pickup w in
      if is_terminal new_state then ret (row\<lparr>s_watchdog_deadline := None\<rparr>, clear_deadlines i w1)
      else if arms_watchdog row then
        do { at \<leftarrow> watchdog_instant E (the (s_expected_secs row)) mono_now;
             wall \<leftarrow> watchdog_wall E (the (s_expected_secs row)) now_wall;
             ret (row\<lparr>s_watchdog_deadline := Some wall\<rparr>,
                  arm_hint i Watchdog wall (book_put i \<lparr>dl_kind = Watchdog, dl_at = at\<rparr> w1)) }
      else ret (row, clear_deadlines_kind i Watchdog w1))"

text \<open>\<open>Option::unwrap_or\<close>\<close>

abbreviation or_else :: "'a option \<Rightarrow> 'a \<Rightarrow> 'a" where
  "or_else x d \<equiv> (case x of None \<Rightarrow> d | Some v \<Rightarrow> v)"

definition ack_line ::
  "env \<Rightarrow> timer \<Rightarrow> run_claim \<Rightarrow> instant \<Rightarrow> run_state_row \<Rightarrow> 'z world_scheme \<Rightarrow>
     run_state_row \<times> 'z world_scheme" where
  "ack_line E t claim now_wall row w =
     (if \<not> s_acknowledged_logged row \<and> s_acknowledged_at row \<noteq> None then
        let detail = [(''app_name'', JStr (s_app_name row))]
              @ (case s_expected_secs row of None \<Rightarrow> [] | Some secs \<Rightarrow> [(''expected_secs'', JNum (int secs))])
              @ (case s_error_detection row of None \<Rightarrow> [] | Some b \<Rightarrow> [(''error_detection'', JBool b)]) in
        (row\<lparr>s_acknowledged_logged := True\<rparr>,
         emit E Acknowledged (\<lambda>e. with_logged_at
           (with_detail (run_event t (s_run_id row) (r_scheduled_for claim) e) (json_object E detail))
           (or_else (s_acknowledged_at row) now_wall)) w)
      else (row, w))"

definition running_line ::
  "env \<Rightarrow> timer \<Rightarrow> run_claim \<Rightarrow> reply_document \<Rightarrow> run_state \<Rightarrow> instant \<Rightarrow> run_state_row \<Rightarrow>
     'z world_scheme \<Rightarrow> run_state_row \<times> 'z world_scheme" where
  "running_line E t claim doc new_state now_wall row w =
     (if new_state = Running \<and> \<not> s_running_logged row then
        (row\<lparr>s_running_logged := True\<rparr>,
         emit E Running (\<lambda>e. with_logged_at (run_event t (s_run_id row) (r_scheduled_for claim) e)
           (or_else (d_heartbeat_at doc) now_wall)) w)
      else (row, w))"

definition terminal_detail ::
  "env \<Rightarrow> reply_document \<Rightarrow> run_state \<Rightarrow> string option \<Rightarrow> (string \<times> json) list" where
  "terminal_detail E doc new_state source =
     (case source of None \<Rightarrow> [] | Some src \<Rightarrow> [(''duration_source'', JStr src)])
     @ (case new_state of
          Completed \<Rightarrow>
            (case d_result doc of
               None \<Rightarrow> []
             | Some result \<Rightarrow>
                 let (capped, truncated) = cap_result (json_string E) result MAX_RESULT_EVENT_BYTES in
                 (''result'', JRaw capped) # (if truncated then [(''result_truncated'', JBool True)] else []))
        | Failed \<Rightarrow> [(''failure_kind'', JStr (failure_as_str Reported))]
        | _ \<Rightarrow> [])"

definition terminal_line ::
  "env \<Rightarrow> timer \<Rightarrow> run_claim \<Rightarrow> reply_document \<Rightarrow> run_state option \<Rightarrow> run_state \<Rightarrow> instant \<Rightarrow>
     run_state_row \<Rightarrow> 'z world_scheme \<Rightarrow> 'z world_scheme" where
  "terminal_line E t claim doc cur_state new_state now_wall row w =
     (if is_terminal new_state \<and> cur_state \<noteq> Some new_state then
        let ((ms, source), w1) = duration_ms E (s_run_id row) (s_fired_at row) now_wall w;
            detail = terminal_detail E doc new_state source in
        emit E new_state (\<lambda>e.
          let rec0 = with_duration_ms (run_event t (s_run_id row) (r_scheduled_for claim) e) ms;
              rec1 = (case new_state of
                        Completed \<Rightarrow> with_logged_at rec0 (or_else (s_completed_at row) now_wall)
                      | Failed \<Rightarrow>
                          with_logged_at
                            (case s_reason row of None \<Rightarrow> rec0 | Some r \<Rightarrow> with_message rec0 r)
                            (or_else (s_failed_at row) now_wall)
                      | _ \<Rightarrow> rec0) in
          if detail = [] then rec1 else with_detail rec1 (json_object E detail)) w1
      else w)"

definition apply_reply ::
  "env \<Rightarrow> timer \<Rightarrow> run_claim \<Rightarrow> run_state_row \<Rightarrow> reply_document \<Rightarrow> run_state \<Rightarrow> string \<Rightarrow>
     instant \<Rightarrow> nat \<Rightarrow> 'z world_scheme \<Rightarrow> 'z world_scheme exec" where
  "apply_reply E t claim row doc new_state digest now_wall mono_now w =
     (let cur_state = row_run_state row;
          row1 = terminal_fields E doc new_state now_wall (accumulate doc new_state now_wall row);
          row2 = row1\<lparr>s_pickup_deadline := None, s_state := as_str new_state\<rparr> in
      do { (row3, w3) \<leftarrow> rearm E new_state now_wall mono_now row2 w;
           let (row4, w4) = ack_line E t claim now_wall row3 w3;
           let (row5, w5) = running_line E t claim doc new_state now_wall row4 w4;
           let w6 = terminal_line E t claim doc cur_state new_state now_wall row5 w5;
           ret (set_row (row5\<lparr>s_reply_digest := Some digest\<rparr>) w6) })"

section \<open>Ingest\<close>

definition current_of :: "store \<Rightarrow> uuid \<Rightarrow> uuid option" where
  "current_of s timer_id =
     (let rs = runs_for_timer s timer_id in if rs = [] then None else Some (r_id (last rs)))"

definition late_reply ::
  "env \<Rightarrow> timer \<Rightarrow> run_claim \<Rightarrow> uuid \<Rightarrow> string \<Rightarrow> 'z world_scheme \<Rightarrow> ingest_outcome \<times> 'z world_scheme" where
  "late_reply E t claim run_id digest w =
     (let row = get_run_state (db w) run_id in
      if Option.bind row s_reply_digest = Some digest then (SupersededReply, w)
      else
        let w1 = emit E Superseded (\<lambda>e. with_message (run_event t run_id (r_scheduled_for claim) e)
                   ''reply arrived for a run that is no longer current'') w in
        (SupersededReply,
         case row of None \<Rightarrow> w1 | Some r \<Rightarrow> set_row (r\<lparr>s_reply_digest := Some digest\<rparr>) w1))"

text \<open>The checks that need the current run's row, in the code's order.\<close>

definition current_check ::
  "reply_document \<Rightarrow> run_state \<Rightarrow> string \<Rightarrow> run_state_row \<Rightarrow> ingest_outcome option" where
  "current_check doc new_state digest row =
     (if d_app_name doc \<noteq> Some (s_app_name row) then Some (Rejected WrongAppName)
      else if is_app_authored_terminal row \<and> (new_state = Acknowledged \<or> new_state = Running)
      then Some (Rejected TerminalRegression)
      else if d_error_detection doc = Some True \<and>
        or_else (if d_expected_secs doc \<noteq> None then d_expected_secs doc else s_expected_secs row) 0 = 0
      then Some (Rejected ErrorDetectionWithoutEstimate)
      else if s_reply_digest row = Some digest then Some Duplicate
      else None)"

definition ingest_inner ::
  "env \<Rightarrow> timer \<Rightarrow> reply_document \<Rightarrow> string \<Rightarrow> instant \<Rightarrow> nat \<Rightarrow> uuid option \<Rightarrow>
     'z world_scheme \<Rightarrow> (ingest_outcome \<times> 'z world_scheme) exec" where
  "ingest_inner E t doc digest now_wall mono_now current_override w =
     (case sight_check doc of
        Inl e \<Rightarrow> ret (Rejected e, w)
      | Inr (run_id, new_state) \<Rightarrow>
          (case get_run (db w) run_id of
             None \<Rightarrow> ret (Rejected UnknownRun, w)
           | Some claim \<Rightarrow>
               if r_timer claim \<noteq> t_id t then ret (Rejected UnknownRun, w)
               else
                 let current = (case current_override of
                       Some i \<Rightarrow> Some i | None \<Rightarrow> current_of (db w) (t_id t)) in
                 if current \<noteq> Some run_id then ret (late_reply E t claim run_id digest w)
                 else
                   let row = (case get_run_state (db w) run_id of
                         Some r \<Rightarrow> r
                       | None \<Rightarrow> run_state_fired run_id (t_id t) (or_else (d_app_name doc) '''')
                                  (as_str Fired) (r_claimed_at claim) now_wall) in
                   case current_check doc new_state digest row of
                     Some out \<Rightarrow> ret (out, w)
                   | None \<Rightarrow>
                       do { w' \<leftarrow> apply_reply E t claim row doc new_state digest now_wall mono_now w;
                            ret (Applied, w') }))"

definition ingest ::
  "env \<Rightarrow> timer \<Rightarrow> reply_document \<Rightarrow> string \<Rightarrow> instant \<Rightarrow> nat \<Rightarrow> 'z world_scheme \<Rightarrow>
     (ingest_outcome \<times> 'z world_scheme) exec" where
  "ingest E t doc digest now_wall mono_now w = ingest_inner E t doc digest now_wall mono_now None w"

definition ingest_as_current ::
  "env \<Rightarrow> timer \<Rightarrow> reply_document \<Rightarrow> string \<Rightarrow> uuid \<Rightarrow> instant \<Rightarrow> nat \<Rightarrow> 'z world_scheme \<Rightarrow>
     (ingest_outcome \<times> 'z world_scheme) exec" where
  "ingest_as_current E t doc digest as_current now_wall mono_now w =
     ingest_inner E t doc digest now_wall mono_now (Some as_current) w"

definition log_rejection ::
  "env \<Rightarrow> timer \<Rightarrow> uuid option \<Rightarrow> string \<Rightarrow> 'z world_scheme \<Rightarrow> 'z world_scheme" where
  "log_rejection E t run_id reason w =
     emit E ReplyRejected (\<lambda>e.
       let r = with_message (with_timer e (t_id t) (t_name t)) reason in
       case run_id of None \<Rightarrow> r | Some i \<Rightarrow> with_run r i) w"

section \<open>Acknowledgement by the feed cursor\<close>

definition mark_acknowledged ::
  "env \<Rightarrow> timer \<Rightarrow> run_claim \<Rightarrow> run_state_row \<Rightarrow> instant \<Rightarrow> 'z world_scheme \<Rightarrow> 'z world_scheme" where
  "mark_acknowledged E t claim row now_wall w =
     (let row1 = row\<lparr>s_state := as_str Acknowledged, s_acknowledged_at := Some now_wall,
                     s_pickup_deadline := None\<rparr>;
          w1 = clear_deadlines_kind (s_run_id row) Pickup w;
          (row2, w2) =
            (if s_acknowledged_logged row1 then (row1, w1)
             else (row1\<lparr>s_acknowledged_logged := True\<rparr>,
               emit E Acknowledged (\<lambda>e. with_logged_at
                 (with_detail (run_event t (s_run_id row) (r_scheduled_for claim) e)
                   (json_object E [(''app_name'', JStr (s_app_name row)), (''via'', JStr ''ack_through'')]))
                 now_wall) w1))
      in set_row row2 w2)"

definition before_pickup :: "run_state_row \<Rightarrow> bool" where
  "before_pickup row \<longleftrightarrow> row_run_state row \<in> {Some Fired, Some FiredLate, Some Coalesced}"

definition on_ack_through ::
  "env \<Rightarrow> timer \<Rightarrow> nat \<Rightarrow> instant \<Rightarrow> 'z world_scheme \<Rightarrow> bool \<times> 'z world_scheme" where
  "on_ack_through E t through_sequence now_wall w =
     (case current_run_state (db w) (t_id t) of
        None \<Rightarrow> (False, w)
      | Some row \<Rightarrow>
          (case get_run (db w) (s_run_id row) of
             None \<Rightarrow> (False, w)
           | Some claim \<Rightarrow>
               if through_sequence < r_event_sequence claim then (False, w)
               else
                 let pickup_pending = (s_pickup_deadline row \<noteq> None \<and> before_pickup row);
                     revise_no_ack = (row_run_state row = Some NoAck) in
                 if \<not> pickup_pending \<and> \<not> revise_no_ack then (False, w)
                 else (True, mark_acknowledged E t claim row now_wall w)))"

section \<open>Deadlines\<close>

definition is_current_row :: "store \<Rightarrow> uuid \<Rightarrow> uuid \<Rightarrow> bool" where
  "is_current_row s timer_id run_id \<longleftrightarrow> map_option s_run_id (current_run_state s timer_id) = Some run_id"

definition expire_pickup_one ::
  "env \<Rightarrow> timer \<Rightarrow> uuid \<Rightarrow> instant \<Rightarrow> 'z world_scheme \<Rightarrow> bool \<times> 'z world_scheme" where
  "expire_pickup_one E t run_id now_wall w =
     (case get_run_state (db w) run_id of
        None \<Rightarrow> (False, w)
      | Some row \<Rightarrow>
          if s_pickup_deadline row = None then (False, w)
          else if \<not> is_current_row (db w) (t_id t) run_id then (False, w)
          else
            case get_run (db w) run_id of
              None \<Rightarrow> (False, w)
            | Some claim \<Rightarrow>
                if \<not> before_pickup row then (False, w)
                else if r_event_sequence claim \<le> last_acked_sequence (db w) (t_id t)
                then (True, mark_acknowledged E t claim row now_wall w)
                else
                  let row1 = row\<lparr>s_state := as_str NoAck, s_no_ack_at := Some now_wall,
                                 s_pickup_deadline := None\<rparr>;
                      w1 = emit E NoAck (\<lambda>e. with_logged_at
                             (with_message (run_event t run_id (r_scheduled_for claim) e)
                               ''no acknowledgement was received'') now_wall)
                             (clear_deadlines run_id w) in
                  (True, set_row row1 w1))"

definition expire_watchdog_one ::
  "env \<Rightarrow> timer \<Rightarrow> uuid \<Rightarrow> instant \<Rightarrow> 'z world_scheme \<Rightarrow> bool \<times> 'z world_scheme" where
  "expire_watchdog_one E t run_id now_wall w =
     (case get_run_state (db w) run_id of
        None \<Rightarrow> (False, w)
      | Some row \<Rightarrow>
          if s_watchdog_deadline row = None then (False, w)
          else if row_is_terminal row \<or> s_error_detection row \<noteq> Some True then (False, w)
          else if \<not> is_current_row (db w) (t_id t) run_id then (False, w)
          else
            case get_run (db w) run_id of
              None \<Rightarrow> (False, w)
            | Some claim \<Rightarrow>
                let row1 = row\<lparr>s_state := as_str Failed, s_failure_kind := Some TimedOut,
                               s_failed_at := Some now_wall, s_watchdog_deadline := None\<rparr>;
                    ((ms, source), w1) = duration_ms E run_id (s_fired_at row) now_wall
                                           (clear_deadlines run_id w);
                    detail = (''failure_kind'', JStr (failure_as_str TimedOut))
                      # (case source of None \<Rightarrow> [] | Some src \<Rightarrow> [(''duration_source'', JStr src)]);
                    w2 = emit E Failed (\<lambda>e. with_logged_at (with_message (with_detail (with_duration_ms
                           (run_event t run_id (r_scheduled_for claim) e) ms) (json_object E detail))
                           ''error_detection watchdog expired'') now_wall) w1 in
                (True, set_row row1 w2))"

text \<open>
  The two sweeps over the lapsed countdowns: a countdown whose run or timer is gone is dropped,
  any other is put to the transition above; the transitioned runs are answered.
\<close>

fun expire_each ::
  "(timer \<Rightarrow> uuid \<Rightarrow> 'z world_scheme \<Rightarrow> bool \<times> 'z world_scheme) \<Rightarrow> uuid list \<Rightarrow> 'z world_scheme \<Rightarrow>
     uuid list \<times> 'z world_scheme" where
  "expire_each step [] w = ([], w)"
| "expire_each step (run_id # due) w =
     (case get_run_state (db w) run_id of
        None \<Rightarrow> expire_each step due (clear_deadlines run_id w)
      | Some row \<Rightarrow>
          (case get_timer (db w) (s_timer_id row) of
             None \<Rightarrow> expire_each step due (clear_deadlines run_id w)
           | Some t \<Rightarrow>
               let (moved, w1) = step t run_id w; (rest, w2) = expire_each step due w1 in
               (if moved then run_id # rest else rest, w2)))"

definition expire_pickups :: "env \<Rightarrow> instant \<Rightarrow> nat \<Rightarrow> 'z world_scheme \<Rightarrow> uuid list \<times> 'z world_scheme" where
  "expire_pickups E now_wall mono_now w =
     expire_each (\<lambda>t i. expire_pickup_one E t i now_wall) (due_deadlines Pickup mono_now w) w"

definition expire_watchdogs :: "env \<Rightarrow> instant \<Rightarrow> nat \<Rightarrow> 'z world_scheme \<Rightarrow> uuid list \<times> 'z world_scheme" where
  "expire_watchdogs E now_wall mono_now w =
     expire_each (\<lambda>t i. expire_watchdog_one E t i now_wall) (due_deadlines Watchdog mono_now w) w"

end
