(* ===== verification/Reply_Laws.thy ===== *)
theory Reply_Laws
  imports Reply_Engine Store_Steps
begin

text \<open>
  Laws of the reply lifecycle: what a transition may do to a run's row (\<open>row_evolves\<close>), the
  well-formedness of rows, the step relation of the engine, and the counting of event lines.
\<close>

section \<open>Frames\<close>

lemma pair_SomeE: "x \<noteq> None \<Longrightarrow> (\<And>a b. x = Some (a, b) \<Longrightarrow> P) \<Longrightarrow> P"
  by (cases x) auto

lemma enqueue_event_frame [simp]:
  "run_states (enqueue_event e s) = run_states s" "runs (enqueue_event e s) = runs s"
  "timers (enqueue_event e s) = timers s" "slot_event_acks (enqueue_event e s) = slot_event_acks s"
  "timer_owners (enqueue_event e s) = timer_owners s"
  "transport_projections (enqueue_event e s) = transport_projections s"
  "target_cursors (enqueue_event e s) = target_cursors s"
  by (simp_all add: enqueue_event_def)

lemma update_run_state_frame [simp]:
  "runs (update_run_state row s) = runs s" "timers (update_run_state row s) = timers s"
  "event_outbox (update_run_state row s) = event_outbox s"
  "slot_event_acks (update_run_state row s) = slot_event_acks s"
  "timer_owners (update_run_state row s) = timer_owners s"
  by (simp_all add: update_run_state_def)

lemma get_run_state_update [tbl_simps]:
  "get_run_state (update_run_state row s) i =
     (if i = s_run_id row then map_option (write_run_state row) (get_run_state s i)
      else get_run_state s i)"
proof -
  have "get_run_state s i = Some r \<Longrightarrow> s_run_id r = i" for r
    by (auto simp: get_run_state_def dest: row_get_Some)
  then show ?thesis
    unfolding get_run_state_def update_run_state_def
    by (cases "row_get s_run_id i (run_states s)") (auto simp: writing_state.get_set)
qed

lemma get_run_state_cong: "run_states s = run_states s' \<Longrightarrow> get_run_state s i = get_run_state s' i"
  by (simp add: get_run_state_def)

lemma get_run_state_id: "get_run_state s i = Some row \<Longrightarrow> s_run_id row = i"
  by (auto simp: get_run_state_def dest: row_get_Some)

lemma emit_frame [simp]:
  "get_run_state (db (emit E k f w)) i = get_run_state (db w) i"
  "runs (db (emit E k f w)) = runs (db w)" "timers (db (emit E k f w)) = timers (db w)"
  "run_states (db (emit E k f w)) = run_states (db w)"
  "slot_event_acks (db (emit E k f w)) = slot_event_acks (db w)"
  "book (emit E k f w) = book w" "armed_hints (emit E k f w) = armed_hints w"
  "anchors (emit E k f w) = anchors w"
  by (simp_all add: emit_def get_run_state_def)

lemma book_frame [simp]:
  "db (book_put i d w) = db w" "db (arm_hint i k t w) = db w" "db (clear_deadlines i w) = db w"
  "db (clear_deadlines_kind i k w) = db w" "draws (book_put i d w) = draws w"
  "draws (arm_hint i k t w) = draws w" "draws (clear_deadlines i w) = draws w"
  "draws (clear_deadlines_kind i k w) = draws w"
  by (simp_all add: book_put_def arm_hint_def clear_deadlines_def clear_deadlines_kind_def)

lemma duration_ms_frame:
  "duration_ms E i t n w = (ms, w') \<Longrightarrow> db w' = db w \<and> draws w' = draws w \<and> book w' = book w"
  by (auto simp: duration_ms_def split: option.splits)

lemma db_set_row [simp]: "db (set_row row w) = update_run_state row (db w)"
  by (simp add: set_row_def)

lemma book_set_row [simp]: "book (set_row row w) = book w" "draws (set_row row w) = draws w"
  by (simp_all add: set_row_def)

lemma write_run_state_fields [simp]:
  "s_run_id (write_run_state row old) = s_run_id old" "s_timer_id (write_run_state row old) = s_timer_id old"
  "s_app_name (write_run_state row old) = s_app_name old"
  "s_fired_at (write_run_state row old) = s_fired_at old"
  "s_state (write_run_state row old) = s_state row"
  "s_pickup_deadline (write_run_state row old) = s_pickup_deadline row"
  "s_watchdog_deadline (write_run_state row old) = s_watchdog_deadline row"
  "s_error_detection (write_run_state row old) = s_error_detection row"
  "s_failure_kind (write_run_state row old) = s_failure_kind row"
  "s_completed_at (write_run_state row old) = s_completed_at row"
  "s_failed_at (write_run_state row old) = s_failed_at row"
  "s_reply_digest (write_run_state row old) = s_reply_digest row"
  "s_acknowledged_logged (write_run_state row old) = s_acknowledged_logged row"
  "s_running_logged (write_run_state row old) = s_running_logged row"
  "s_acknowledged_at (write_run_state row old) = s_acknowledged_at row"
  "s_expected_secs (write_run_state row old) =
     map_option (\<lambda>n. nat (max 0 (as_i64 n))) (s_expected_secs row)"
  by (simp_all add: write_run_state_def)

section \<open>What a transition may do to a row\<close>

definition row_wf :: "run_state_row \<Rightarrow> bool" where
  "row_wf row \<longleftrightarrow>
     (s_pickup_deadline row \<noteq> None \<longrightarrow> before_pickup row) \<and>
     (s_watchdog_deadline row \<noteq> None \<longrightarrow>
        row_run_state row \<in> {Some Acknowledged, Some Running} \<and> s_error_detection row = Some True) \<and>
     (row_run_state row = Some Completed \<longrightarrow>
        s_completed_at row \<noteq> None \<and> s_failed_at row = None \<and> s_failure_kind row = None) \<and>
     (row_run_state row = Some Failed \<longrightarrow> s_failed_at row \<noteq> None \<and> s_failure_kind row \<noteq> None)"

text \<open>
  The abstract lifecycle of a run: it waits for a pickup, falls silent, is worked on, is timed
  out, or has the application's verdict; \<open>Closed\<close> is Bellman's own end (cancelled, superseded).
\<close>

datatype phase = Waiting | Silent | Working | TimedOutPhase | Verdict | Closed

definition row_phase :: "run_state_row \<Rightarrow> phase" where
  "row_phase row =
     (case row_run_state row of
        None \<Rightarrow> Closed
      | Some st \<Rightarrow>
          if st \<in> {Fired, FiredLate, Coalesced} then Waiting
          else if st = NoAck then Silent
          else if st \<in> {Acknowledged, Running} then Working
          else if st = Completed then Verdict
          else if st = Failed then (if s_failure_kind row = Some Reported then Verdict else TimedOutPhase)
          else Closed)"

definition phase_to :: "phase \<Rightarrow> phase \<Rightarrow> bool" where
  "phase_to p q \<longleftrightarrow> q = p \<or> p = Waiting \<and> q \<noteq> Closed \<or>
     p \<in> {Silent, Working, TimedOutPhase, Closed} \<and> q \<in> {Working, TimedOutPhase, Verdict}"

lemma phase_to_trans: "phase_to p q \<Longrightarrow> phase_to q r \<Longrightarrow> phase_to p r"
  by (auto simp: phase_to_def)

definition row_evolves :: "run_state_row \<Rightarrow> run_state_row \<Rightarrow> bool" where
  "row_evolves row row' \<longleftrightarrow>
     s_run_id row' = s_run_id row \<and> s_timer_id row' = s_timer_id row \<and>
     s_app_name row' = s_app_name row \<and> s_fired_at row' = s_fired_at row \<and>
     (s_acknowledged_logged row \<longrightarrow> s_acknowledged_logged row') \<and>
     (s_running_logged row \<longrightarrow> s_running_logged row') \<and>
     (s_pickup_deadline row = None \<longrightarrow> s_pickup_deadline row' = None) \<and>
     (is_app_authored_terminal row \<longrightarrow> is_app_authored_terminal row') \<and>
     (\<not> before_pickup row \<longrightarrow> \<not> before_pickup row') \<and>
     phase_to (row_phase row) (row_phase row') \<and>
     (row_wf row \<longrightarrow> row_wf row')"

lemma row_evolves_refl: "row_evolves row row"
  by (simp add: row_evolves_def phase_to_def)

lemma row_evolves_trans: "row_evolves a b \<Longrightarrow> row_evolves b c \<Longrightarrow> row_evolves a c"
  unfolding row_evolves_def using phase_to_trans by metis

lemmas row_defs = row_wf_def row_phase_def before_pickup_def is_app_authored_terminal_def row_run_state_def
  row_is_terminal_def

text \<open>Writing a row back through its columns keeps what the laws are about.\<close>

lemma same_lifecycle:
  assumes "s_state b = s_state a" "s_failure_kind b = s_failure_kind a"
  shows "row_phase b = row_phase a" "is_app_authored_terminal b = is_app_authored_terminal a"
    "before_pickup b = before_pickup a" "row_run_state b = row_run_state a"
  unfolding row_defs assms by (rule refl)+

lemma write_lifecycle [simp]:
  "row_phase (write_run_state row old) = row_phase row"
  "is_app_authored_terminal (write_run_state row old) = is_app_authored_terminal row"
  "before_pickup (write_run_state row old) = before_pickup row"
  "row_wf (write_run_state row old) = row_wf row"
  unfolding row_wf_def by (simp_all add: same_lifecycle [of "write_run_state row old" row])

lemma row_evolves_write: "row_evolves old row \<Longrightarrow> row_evolves old (write_run_state row old)"
  by (simp add: row_evolves_def)

subsection \<open>The accept path\<close>

lemma accumulate_fields [simp]:
  "s_run_id (accumulate doc st now row) = s_run_id row"
  "s_timer_id (accumulate doc st now row) = s_timer_id row"
  "s_app_name (accumulate doc st now row) = s_app_name row"
  "s_fired_at (accumulate doc st now row) = s_fired_at row"
  "s_acknowledged_logged (accumulate doc st now row) = s_acknowledged_logged row"
  "s_running_logged (accumulate doc st now row) = s_running_logged row"
  "s_state (accumulate doc st now row) = s_state row"
  "s_completed_at (accumulate doc st now row) = s_completed_at row"
  "s_failed_at (accumulate doc st now row) = s_failed_at row"
  "s_failure_kind (accumulate doc st now row) = s_failure_kind row"
  "s_error_detection (accumulate doc st now row) =
     (if d_error_detection doc = None then s_error_detection row else d_error_detection doc)"
  "s_expected_secs (accumulate doc st now row) =
     (if d_expected_secs doc = None then s_expected_secs row else d_expected_secs doc)"
  "s_watchdog_deadline (accumulate doc st now row) =
     (if d_error_detection doc = Some False then None else s_watchdog_deadline row)"
  by (simp_all add: accumulate_def Let_def split: option.splits)

lemma terminal_fields_kept [simp]:
  "s_run_id (terminal_fields E doc st now row) = s_run_id row"
  "s_timer_id (terminal_fields E doc st now row) = s_timer_id row"
  "s_app_name (terminal_fields E doc st now row) = s_app_name row"
  "s_fired_at (terminal_fields E doc st now row) = s_fired_at row"
  "s_acknowledged_logged (terminal_fields E doc st now row) = s_acknowledged_logged row"
  "s_running_logged (terminal_fields E doc st now row) = s_running_logged row"
  "s_error_detection (terminal_fields E doc st now row) = s_error_detection row"
  "s_expected_secs (terminal_fields E doc st now row) = s_expected_secs row"
  "s_watchdog_deadline (terminal_fields E doc st now row) = s_watchdog_deadline row"
  "s_acknowledged_at (terminal_fields E doc st now row) = s_acknowledged_at row"
  by (simp_all add: terminal_fields_def Let_def split: run_state.splits option.splits prod.splits)

lemma terminal_fields_completed:
  "s_completed_at (terminal_fields E doc Completed now row) \<noteq> None"
  "s_failed_at (terminal_fields E doc Completed now row) = None"
  "s_failure_kind (terminal_fields E doc Completed now row) = None"
  by (simp_all add: terminal_fields_def Let_def split: option.splits prod.splits)

lemma terminal_fields_failed:
  "s_failed_at (terminal_fields E doc Failed now row) \<noteq> None"
  "s_failure_kind (terminal_fields E doc Failed now row) = Some Reported"
  by (simp_all add: terminal_fields_def Let_def split: option.splits prod.splits)


lemma rearm_Some:
  assumes "rearm E st now mono_now row w = Some (row', w')"
  shows "\<exists>wd. row' = row\<lparr>s_watchdog_deadline := wd\<rparr> \<and> db w' = db w \<and> draws w' = draws w \<and>
    (is_terminal st \<longrightarrow> wd = None) \<and>
    (wd \<noteq> None \<longrightarrow> wd = s_watchdog_deadline row \<or> s_error_detection row = Some True)"
proof (cases "is_terminal st \<or> \<not> arms_watchdog row")
  case True
  then show ?thesis using assms
    by (cases "is_terminal st") (auto simp: rearm_def Let_def intro!: exI [of _ "s_watchdog_deadline row"])
next
  case False
  then have body: "rearm E st now mono_now row w =
      do { at \<leftarrow> watchdog_instant E (the (s_expected_secs row)) mono_now;
           wall \<leftarrow> watchdog_wall E (the (s_expected_secs row)) now;
           Some (row\<lparr>s_watchdog_deadline := Some wall\<rparr>,
             arm_hint (s_run_id row) Watchdog wall (book_put (s_run_id row) \<lparr>dl_kind = Watchdog, dl_at = at\<rparr>
               (clear_deadlines_kind (s_run_id row) Pickup w))) }"
    by (simp add: rearm_def Let_def)
  have "\<exists>wall. row' = row\<lparr>s_watchdog_deadline := Some wall\<rparr> \<and> db w' = db w \<and> draws w' = draws w"
    using assms unfolding body
    by (cases "watchdog_instant E (the (s_expected_secs row)) mono_now";
        cases "watchdog_wall E (the (s_expected_secs row)) now") auto
  moreover have "s_error_detection row = Some True" using False by (simp add: arms_watchdog_def)
  ultimately show ?thesis using False by blast
qed

lemma rearmE:
  assumes "rearm E st now mono_now row w = Some (row', w')"
  obtains wd where "row' = row\<lparr>s_watchdog_deadline := wd\<rparr>" "db w' = db w"
    "is_terminal st \<longrightarrow> wd = None"
    "wd \<noteq> None \<longrightarrow> wd = s_watchdog_deadline row \<or> s_error_detection row = Some True"
  using rearm_Some [OF assms] by blast

text \<open>Event lines in the outbox of one kind about one run.\<close>

definition logged :: "run_state \<Rightarrow> uuid \<Rightarrow> 'z world_scheme \<Rightarrow> nat" where
  "logged k i w = length (filter (\<lambda>x. e_kind (o_payload x) = k \<and> e_run_id (o_payload x) = Some i)
     (event_outbox (db w)))"

lemma logged_cong: "event_outbox (db w) = event_outbox (db w') \<Longrightarrow> logged k i w = logged k i w'"
  by (simp add: logged_def)

lemma logged_emit:
  assumes "\<And>e. e_kind (f e) = e_kind e"
  shows "logged k i (emit E st f w) \<le> logged k i w + (if st = k then 1 else 0)"
  using assms by (auto simp: logged_def emit_def enqueue_event_def event_new_def)

lemma logged_emit_other:
  assumes "\<And>e. e_kind (f e) = e_kind e" "\<And>e. e_run_id (f e) = Some j" "st \<noteq> k \<or> j \<noteq> i"
  shows "logged k i (emit E st f w) = logged k i w"
  using assms by (auto simp: logged_def emit_def enqueue_event_def event_new_def)

lemma event_fields [simp]:
  "e_kind (run_event t i sf e) = e_kind e" "e_run_id (run_event t i sf e) = Some i"
  "e_kind (with_logged_at e d) = e_kind e" "e_run_id (with_logged_at e d) = e_run_id e"
  "e_kind (with_detail e x) = e_kind e" "e_run_id (with_detail e x) = e_run_id e"
  "e_kind (with_message e x) = e_kind e" "e_run_id (with_message e x) = e_run_id e"
  "e_kind (with_duration_ms e ms) = e_kind e" "e_run_id (with_duration_ms e ms) = e_run_id e"
  "e_kind (with_timer e n x) = e_kind e" "e_kind (with_run e n) = e_kind e"
  "e_run_id (with_timer e n x) = e_run_id e" "e_run_id (with_run e n) = Some n"
  "e_kind (with_count e c) = e_kind e" "e_run_id (with_count e c) = e_run_id e"
  by (simp_all add: run_event_def event_defs)

text \<open>
  The flag of a row allows at most one more line of its kind: a step spends the allowance of
  the row it sets.
\<close>

definition allowance :: "run_state \<Rightarrow> run_state_row \<Rightarrow> nat" where
  "allowance k row = (if (if k = Acknowledged then s_acknowledged_logged row else s_running_logged row)
     then 0 else 1)"

definition about :: "uuid \<Rightarrow> (event \<Rightarrow> event) \<Rightarrow> bool" where
  "about i f \<longleftrightarrow> (\<forall>e. e_kind (f e) = e_kind e \<and> e_run_id (f e) = Some i)"

lemma logged_about:
  "about j f \<Longrightarrow> logged k i (emit E st f w) \<le> logged k i w + (if st = k \<and> j = i then 1 else 0)"
  by (auto simp: about_def logged_def emit_def enqueue_event_def event_new_def)

lemma logged_about_other: "about j f \<Longrightarrow> st \<noteq> k \<or> j \<noteq> i \<Longrightarrow> logged k i (emit E st f w) = logged k i w"
  by (auto simp: about_def logged_def emit_def enqueue_event_def event_new_def)

lemma ack_line_eq:
  "\<exists>f. about (s_run_id row) f \<and>
     ack_line E t claim now row w =
       (if \<not> s_acknowledged_logged row \<and> s_acknowledged_at row \<noteq> None
        then (row\<lparr>s_acknowledged_logged := True\<rparr>, emit E Acknowledged f w) else (row, w))"
  unfolding ack_line_def Let_def by (rule exI, rule conjI [rotated], rule refl) (simp add: about_def)

lemma running_line_eq:
  "\<exists>f. about (s_run_id row) f \<and>
     running_line E t claim doc st now row w =
       (if st = Running \<and> \<not> s_running_logged row
        then (row\<lparr>s_running_logged := True\<rparr>, emit E Running f w) else (row, w))"
  unfolding running_line_def by (rule exI, rule conjI [rotated], rule refl) (simp add: about_def)

lemma terminal_line_eq:
  "\<exists>f w1. about (s_run_id row) f \<and> db w1 = db w \<and> draws w1 = draws w \<and> book w1 = book w \<and>
     terminal_line E t claim doc cur st now row w =
       (if is_terminal st \<and> cur \<noteq> Some st then emit E st f w1 else w)"
proof -
  obtain ms src w1 where d: "duration_ms E (s_run_id row) (s_fired_at row) now w = ((ms, src), w1)"
    by (metis surj_pair)
  define f where "f = (\<lambda>e.
      let rec0 = with_duration_ms (run_event t (s_run_id row) (r_scheduled_for claim) e) ms;
          rec1 = (case st of
                    Completed \<Rightarrow> with_logged_at rec0 (or_else (s_completed_at row) now)
                  | Failed \<Rightarrow> with_logged_at (case s_reason row of None \<Rightarrow> rec0 | Some r \<Rightarrow> with_message rec0 r)
                      (or_else (s_failed_at row) now)
                  | _ \<Rightarrow> rec0) in
      if terminal_detail E doc st src = [] then rec1
      else with_detail rec1 (json_object E (terminal_detail E doc st src)))"
  have "about (s_run_id row) f"
    by (simp add: about_def f_def Let_def split: run_state.split option.split)
  moreover have "terminal_line E t claim doc cur st now row w =
      (if is_terminal st \<and> cur \<noteq> Some st then emit E st f w1 else w)"
    unfolding terminal_line_def d Let_def prod.case f_def by (rule refl)
  ultimately show ?thesis using duration_ms_frame [OF d] by blast
qed


lemma logged_db: "db w = db w' \<Longrightarrow> logged k i w = logged k i w'"
  by (simp add: logged_def)

text \<open>What the accept path makes of a row.\<close>

definition row_accepted ::
  "env \<Rightarrow> reply_document \<Rightarrow> run_state \<Rightarrow> instant \<Rightarrow> string \<Rightarrow> instant option \<Rightarrow> run_state_row \<Rightarrow>
     run_state_row \<Rightarrow> bool" where
  "row_accepted E doc st now digest wd row row' \<longleftrightarrow>
     (let row1 = terminal_fields E doc st now (accumulate doc st now row) in
      s_run_id row' = s_run_id row \<and> s_timer_id row' = s_timer_id row \<and>
      s_app_name row' = s_app_name row \<and> s_fired_at row' = s_fired_at row \<and>
      s_state row' = as_str st \<and> s_pickup_deadline row' = None \<and> s_watchdog_deadline row' = wd \<and>
      s_reply_digest row' = Some digest \<and>
      s_error_detection row' = s_error_detection row1 \<and> s_expected_secs row' = s_expected_secs row1 \<and>
      s_completed_at row' = s_completed_at row1 \<and> s_failed_at row' = s_failed_at row1 \<and>
      s_failure_kind row' = s_failure_kind row1 \<and> s_acknowledged_at row' = s_acknowledged_at row1 \<and>
      (s_acknowledged_logged row' \<longleftrightarrow> s_acknowledged_logged row \<or> s_acknowledged_at row1 \<noteq> None) \<and>
      (s_running_logged row' \<longleftrightarrow> s_running_logged row \<or> st = Running))"

lemma apply_reply_Some:
  assumes "apply_reply E t claim row doc st digest now mono_now w = Some w'"
  obtains wd row' w6 row3 w3 where "w' = set_row row' w6"
    "row_accepted E doc st now digest wd row row'"
    "is_terminal st \<Longrightarrow> wd = None"
    "wd \<noteq> None \<Longrightarrow> s_error_detection row' = Some True \<or>
       wd = s_watchdog_deadline (accumulate doc st now row)"
    "runs (db w6) = runs (db w)" "run_states (db w6) = run_states (db w)"
    "timers (db w6) = timers (db w)" "slot_event_acks (db w6) = slot_event_acks (db w)"
    "\<And>k i. k \<in> {Acknowledged, Running} \<Longrightarrow>
       logged k i w6 + allowance k row' \<le> logged k i w + allowance k row"
    "\<And>k i. s_run_id row \<noteq> i \<Longrightarrow> logged k i w6 = logged k i w"
    "rearm E st now mono_now ((terminal_fields E doc st now (accumulate doc st now row))
       \<lparr>s_pickup_deadline := None, s_state := as_str st\<rparr>) w = Some (row3, w3)"
    "wd = s_watchdog_deadline row3" "book w6 = book w3"
proof -
  let ?row1 = "terminal_fields E doc st now (accumulate doc st now row)"
  define row2 where "row2 = ?row1\<lparr>s_pickup_deadline := None, s_state := as_str st\<rparr>"
  have "rearm E st now mono_now row2 w \<noteq> None"
  proof
    assume "rearm E st now mono_now row2 w = None"
    with assms show False unfolding apply_reply_def Let_def row2_def by (simp only: Option.bind.simps option.distinct)
  qed
  then obtain row3 w3 where 3: "rearm E st now mono_now row2 w = Some (row3, w3)" by (rule pair_SomeE)
  obtain wd where wd: "row3 = row2\<lparr>s_watchdog_deadline := wd\<rparr>"
    "db w3 = db w" "is_terminal st \<longrightarrow> wd = None"
    "wd \<noteq> None \<longrightarrow> wd = s_watchdog_deadline row2 \<or> s_error_detection row2 = Some True"
    by (rule rearmE [OF 3])
  obtain f where f0: "about (s_run_id row3) f \<and> ack_line E t claim now row3 w3 =
      (if \<not> s_acknowledged_logged row3 \<and> s_acknowledged_at row3 \<noteq> None
       then (row3\<lparr>s_acknowledged_logged := True\<rparr>, emit E Acknowledged f w3) else (row3, w3))"
    by (rule exE [OF ack_line_eq])
  note f = conjunct1 [OF f0] conjunct2 [OF f0]
  define ca where "ca \<longleftrightarrow> \<not> s_acknowledged_logged row3 \<and> s_acknowledged_at row3 \<noteq> None"
  define row4 where "row4 = (if ca then row3\<lparr>s_acknowledged_logged := True\<rparr> else row3)"
  define w4 where "w4 = (if ca then emit E Acknowledged f w3 else w3)"
  have 4: "ack_line E t claim now row3 w3 = (row4, w4)"
    unfolding f(2) ca_def [symmetric] row4_def w4_def by (cases ca) simp_all
  obtain g where g0: "about (s_run_id row4) g \<and> running_line E t claim doc st now row4 w4 =
      (if st = Running \<and> \<not> s_running_logged row4
       then (row4\<lparr>s_running_logged := True\<rparr>, emit E Running g w4) else (row4, w4))"
    by (rule exE [OF running_line_eq])
  note g = conjunct1 [OF g0] conjunct2 [OF g0]
  define cr where "cr \<longleftrightarrow> st = Running \<and> \<not> s_running_logged row4"
  define row5 where "row5 = (if cr then row4\<lparr>s_running_logged := True\<rparr> else row4)"
  define w5 where "w5 = (if cr then emit E Running g w4 else w4)"
  have 5: "running_line E t claim doc st now row4 w4 = (row5, w5)"
    unfolding g(2) cr_def [symmetric] row5_def w5_def by (cases cr) simp_all
  obtain h v where h0: "about (s_run_id row5) h \<and> db v = db w5 \<and> draws v = draws w5 \<and>
    book v = book w5 \<and> terminal_line E t claim doc (row_run_state row) st now row5 w5 =
       (if is_terminal st \<and> row_run_state row \<noteq> Some st then emit E st h v else w5)"
    by (rule exE [OF terminal_line_eq], erule exE)
  have bv: "book v = book w5" using h0 by (simp only:)
  have h: "about (s_run_id row5) h" "db v = db w5"
    "terminal_line E t claim doc (row_run_state row) st now row5 w5 =
       (if is_terminal st \<and> row_run_state row \<noteq> Some st then emit E st h v else w5)"
    using h0 by (simp_all only:)
  define w6 where "w6 = (if is_terminal st \<and> row_run_state row \<noteq> Some st then emit E st h v else w5)"
  have ca: "ca \<longleftrightarrow> \<not> s_acknowledged_logged row \<and> s_acknowledged_at (accumulate doc st now row) \<noteq> None"
    by (simp add: ca_def wd(1) row2_def)
  have cr: "cr \<longleftrightarrow> st = Running \<and> \<not> s_running_logged row"
    by (simp add: cr_def row4_def wd(1) row2_def)
  have w': "w' = set_row (row5\<lparr>s_reply_digest := Some digest\<rparr>) w6"
    using assms unfolding apply_reply_def Let_def row2_def [symmetric] 3
    by (simp only: Option.bind.simps prod.case 4 5 h(3) w6_def [symmetric] option.inject)
  have ids: "s_run_id row3 = s_run_id row" "s_run_id row4 = s_run_id row" "s_run_id row5 = s_run_id row"
    by (simp_all add: row5_def row4_def wd(1) row2_def)
  have db6: "db w6 = db w5 \<or> (\<exists>u. db u = db w5 \<and> w6 = emit E st h u)" using h(2) by (auto simp: w6_def)
  have frame6: "runs (db w6) = runs (db w)" "run_states (db w6) = run_states (db w)"
    "timers (db w6) = timers (db w)" "slot_event_acks (db w6) = slot_event_acks (db w)"
    using db6 by (auto simp: w5_def w4_def wd(2))
  have l3: "logged k i w3 = logged k i w" for k i using wd(2) by (rule logged_db)
  have lv: "logged k i v = logged k i w5" for k i using h(2) by (rule logged_db)
  have l6: "k \<in> {Acknowledged, Running} \<Longrightarrow> logged k i w6 = logged k i w5" for k i
    using logged_about_other [OF h(1), of st k i E v] lv by (auto simp: w6_def is_terminal_def)
  have lack: "logged Acknowledged i w5 \<le> logged Acknowledged i w + (if ca then 1 else 0)" for i
    using logged_about [OF f(1), of Acknowledged i E Acknowledged w3] l3
      logged_about_other [OF g(1), of Running Acknowledged i E w4]
    by (simp add: w5_def w4_def split: if_splits)
  have lrun: "logged Running i w5 \<le> logged Running i w + (if cr then 1 else 0)" for i
    using logged_about [OF g(1), of Running i E Running w4] l3
      logged_about_other [OF f(1), of Acknowledged Running i E w3]
    by (simp add: w5_def w4_def split: if_splits)
  show thesis
  proof (rule that [of "row5\<lparr>s_reply_digest := Some digest\<rparr>" w6 wd row3 w3])
    show "row_accepted E doc st now digest wd row (row5\<lparr>s_reply_digest := Some digest\<rparr>)"
      using ca cr by (cases ca; cases cr) (auto simp: row_accepted_def row5_def row4_def wd(1) row2_def)
  next
    fix k i assume "k \<in> {Acknowledged, Running}"
    then show "logged k i w6 + allowance k (row5\<lparr>s_reply_digest := Some digest\<rparr>) \<le>
        logged k i w + allowance k row"
      using l6 [of k i] lack [of i] lrun [of i]
        ca cr by (auto simp: allowance_def row5_def row4_def wd(1) row2_def split: if_splits)
  next
    show "book w6 = book w3" using bv by (simp add: w6_def w5_def w4_def)
    show "wd = s_watchdog_deadline row3" by (simp add: wd(1))
    show "rearm E st now mono_now (?row1\<lparr>s_pickup_deadline := None, s_state := as_str st\<rparr>) w =
        Some (row3, w3)" using 3 unfolding row2_def .
  next
    fix k i assume "s_run_id row \<noteq> i"
    then show "logged k i w6 = logged k i w"
      using logged_about_other [OF h(1), of st k i E v] lv l3
        logged_about_other [OF g(1), of Running k i E w4]
        logged_about_other [OF f(1), of Acknowledged k i E w3]
      by (simp add: w6_def w5_def w4_def ids)
  qed (use w' frame6 wd in \<open>auto simp: row5_def row4_def row2_def\<close>)
qed


text \<open>The accept path panics only on the arithmetic of an armed watchdog.\<close>

lemma apply_reply_returns:
  assumes "is_terminal st \<or> \<not> arms_watchdog (accumulate doc st now row)"
  shows "\<exists>w'. apply_reply E t claim row doc st digest now mono_now w = Some w'"
proof -
  define row2 where "row2 = (terminal_fields E doc st now (accumulate doc st now row))
    \<lparr>s_pickup_deadline := None, s_state := as_str st\<rparr>"
  have "arms_watchdog row2 = arms_watchdog (accumulate doc st now row)"
    unfolding arms_watchdog_def row2_def by simp
  then have "rearm E st now mono_now row2 w \<noteq> None"
    using assms by (auto simp: rearm_def Let_def)
  then obtain row3 w3 where 3: "rearm E st now mono_now row2 w = Some (row3, w3)" by (rule pair_SomeE)
  show ?thesis unfolding apply_reply_def Let_def row2_def [symmetric] 3 by (simp split: prod.split)
qed

lemma row_accepted_evolves:
  assumes "row_accepted E doc st now digest wd row row'" "is_app_writable st"
    and "is_app_authored_terminal row \<Longrightarrow> st = Completed \<or> st = Failed"
    and "is_terminal st \<Longrightarrow> wd = None"
    and "wd \<noteq> None \<Longrightarrow> s_error_detection row' = Some True \<or>
      wd = s_watchdog_deadline (accumulate doc st now row)"
  shows "row_evolves row row'"
proof -
  have st: "st \<in> {Acknowledged, Running, Completed, Failed}"
    using assms(2) by (simp add: is_app_writable_def)
  have f: "s_pickup_deadline row' = None" "row_run_state row' = Some st" "s_watchdog_deadline row' = wd"
    "s_error_detection row' = (if d_error_detection doc = None then s_error_detection row else d_error_detection doc)"
    using assms(1) by (simp_all add: row_accepted_def Let_def row_run_state_def)
  have wd: "st \<in> {Acknowledged, Running} \<and> s_error_detection row' = Some True"
    if "row_wf row" "wd \<noteq> None"
  proof -
    have "st \<in> {Acknowledged, Running}" using st assms(4) that(2) by (auto simp: is_terminal_def)
    moreover have "s_error_detection row' = Some True"
      using assms(5) [OF that(2)] that f(4) by (auto simp: row_wf_def split: if_splits)
    ultimately show ?thesis ..
  qed
  have done_ok: "s_completed_at row' \<noteq> None \<and> s_failed_at row' = None \<and> s_failure_kind row' = None"
    if "st = Completed"
    using assms(1) that terminal_fields_completed [of E doc now "accumulate doc Completed now row"]
    by (simp add: row_accepted_def Let_def)
  have failed_ok: "s_failed_at row' \<noteq> None \<and> s_failure_kind row' \<noteq> None" if "st = Failed"
    using assms(1) that terminal_fields_failed [of E doc now "accumulate doc Failed now row"]
    by (simp add: row_accepted_def Let_def)
  have "row_wf row \<Longrightarrow> row_wf row'"
    using f wd done_ok failed_ok unfolding row_wf_def by auto
  moreover have "is_app_authored_terminal row \<Longrightarrow> is_app_authored_terminal row'"
    using assms(1,3) terminal_fields_failed(2) [of E doc now "accumulate doc st now row"]
    by (auto simp: row_accepted_def Let_def is_app_authored_terminal_def row_run_state_def)
  moreover have "\<not> before_pickup row'"
    using st assms(1) by (auto simp: row_accepted_def Let_def before_pickup_def row_run_state_def)
  moreover have "phase_to (row_phase row) (row_phase row')"
  proof -
    have new: "row_phase row' = (if st \<in> {Acknowledged, Running} then Working else Verdict)"
      using f(2) st assms(1) terminal_fields_failed(2) [of E doc now "accumulate doc st now row"]
      by (auto simp: row_phase_def row_accepted_def Let_def)
    have "row_phase row = Verdict \<Longrightarrow> is_app_authored_terminal row"
      by (auto simp: row_phase_def is_app_authored_terminal_def split: option.splits if_splits)
    then show ?thesis unfolding new phase_to_def using assms(3) by (cases "row_phase row") auto
  qed
  ultimately show ?thesis using assms(1) by (simp add: row_evolves_def row_accepted_def Let_def)
qed

subsection \<open>The other transitions\<close>

lemma acknowledged_evolves:
  assumes "before_pickup row \<or> row_run_state row = Some NoAck"
  shows "row_evolves row (row\<lparr>s_state := as_str Acknowledged, s_acknowledged_at := at,
    s_pickup_deadline := None, s_acknowledged_logged := True\<rparr>)"
  using assms by (auto simp: row_evolves_def row_defs phase_to_def)

lemma no_ack_evolves:
  assumes "before_pickup row"
  shows "row_evolves row (row\<lparr>s_state := as_str NoAck, s_no_ack_at := at, s_pickup_deadline := None\<rparr>)"
  using assms by (auto simp: row_evolves_def row_defs phase_to_def)

lemma timed_out_evolves:
  assumes "\<not> row_is_terminal row" "s_watchdog_deadline row \<noteq> None"
  shows "row_evolves row (row\<lparr>s_state := as_str Failed, s_failure_kind := Some TimedOut,
    s_failed_at := Some at, s_watchdog_deadline := None\<rparr>)"
  using assms by (auto simp: row_evolves_def row_defs phase_to_def is_terminal_def split: option.splits run_state.splits)

section \<open>Steps of the engine\<close>

text \<open>One transition of the reply lifecycle, whichever transport or clock caused it.\<close>

inductive reply_step :: "env \<Rightarrow> world \<Rightarrow> world \<Rightarrow> bool" for E where
  ingest: "ingest_inner E t doc digest now mono_now cur w = Some (out, w') \<Longrightarrow> reply_step E w w'"
| ack: "reply_step E w (snd (on_ack_through E t n now w))"
| pickup: "reply_step E w (snd (expire_pickup_one E t i now w))"
| watchdog: "reply_step E w (snd (expire_watchdog_one E t i now w))"
| reject: "reply_step E w (log_rejection E t i reason w)"
| sync: "sync_deadline_book E now mono_now w = Some (n, w') \<Longrightarrow> reply_step E w w'"
| drop_deadline: "reply_step E w (clear_deadlines i w)"

inductive_cases reply_stepE: "reply_step E w w'"

text \<open>What every step does to the row of one run and to the lines logged about it.\<close>

definition run_advances :: "uuid \<Rightarrow> world \<Rightarrow> world \<Rightarrow> bool" where
  "run_advances i w w' \<longleftrightarrow>
     (\<forall>row. get_run_state (db w) i = Some row \<longrightarrow>
        (\<exists>row'. get_run_state (db w') i = Some row' \<and> row_evolves row row' \<and>
           (\<forall>k\<in>{Acknowledged, Running}.
              logged k i w' + allowance k row' \<le> logged k i w + allowance k row)))"

lemma run_advances_refl: "run_advances i w w"
  by (auto simp: run_advances_def row_evolves_refl)

lemma run_advances_trans: "run_advances i a b \<Longrightarrow> run_advances i b c \<Longrightarrow> run_advances i a c"
  unfolding run_advances_def by (meson order_trans row_evolves_trans)

lemma allowance_write [simp]: "allowance k (write_run_state row old) = allowance k row"
  by (simp add: allowance_def)

text \<open>A step that writes one row over the row it read, having logged lines about that run.\<close>

lemma run_advances_set_row:
  assumes "get_run_state (db w) j = Some row" "s_run_id row' = j"
    and "run_states (db w1) = run_states (db w)" "row_evolves row row'"
    and "\<And>k. k \<in> {Acknowledged, Running} \<Longrightarrow> logged k j w1 + allowance k row' \<le> logged k j w + allowance k row"
    and "\<And>k. i \<noteq> j \<Longrightarrow> logged k i w1 = logged k i w"
  shows "run_advances i w (set_row row' w1)"
proof -
  have same: "get_run_state (db w1) x = get_run_state (db w) x" for x
    using assms(3) by (rule get_run_state_cong)
  have log: "logged k x (set_row row' w1) = logged k x w1" for k x
    by (rule logged_cong) simp
  show ?thesis
  proof (cases "i = j")
    case True
    then show ?thesis using assms(1,2,4,5)
      by (auto simp: run_advances_def get_run_state_update same log row_evolves_write)
  next
    case False
    then show ?thesis using assms(2,6)
      by (auto simp: run_advances_def get_run_state_update same log row_evolves_refl)
  qed
qed

text \<open>A step that writes no row, having logged neither line.\<close>

lemma run_advances_frame:
  assumes "run_states (db w1) = run_states (db w)"
    and "\<And>k. k \<in> {Acknowledged, Running} \<Longrightarrow> logged k i w1 = logged k i w"
  shows "run_advances i w w1"
  using assms get_run_state_cong [of "db w1" "db w" i]
  by (auto simp: run_advances_def row_evolves_refl)


subsection \<open>Every step advances every run\<close>

lemma sight_check_writable: "sight_check doc = Inr (i, st) \<Longrightarrow> is_app_writable st"
  by (auto simp: sight_check_def Let_def split: option.splits if_splits)

lemma sight_check_run: "sight_check doc = Inr (i, st) \<Longrightarrow> d_run_id doc = Some i \<and> d_state doc = Some (as_str st)"
  by (auto simp: sight_check_def Let_def from_wire_Some split: option.splits if_splits;
      cases st; simp add: as_str_def)

lemma current_check_None:
  assumes "current_check doc st digest row = None" "is_app_writable st"
  shows "d_app_name doc = Some (s_app_name row)" "s_reply_digest row \<noteq> Some digest"
    "is_app_authored_terminal row \<Longrightarrow> st = Completed \<or> st = Failed"
  using assms by (auto simp: current_check_def is_app_writable_def split: if_splits)

text \<open>The outcomes of an ingest.\<close>

lemma ingest_inner_cases:
  assumes "ingest_inner E t doc digest now mono_now cur w = Some (out, w')"
  obtains (sight) e where "sight_check doc = Inl e" "out = Rejected e" "w' = w"
  | (unknown) i st where "sight_check doc = Inr (i, st)" "out = Rejected UnknownRun" "w' = w"
      "\<nexists>c. get_run (db w) i = Some c \<and> r_timer c = t_id t"
  | (late) i st c where "sight_check doc = Inr (i, st)" "get_run (db w) i = Some c" "r_timer c = t_id t"
      "(case cur of Some j \<Rightarrow> Some j | None \<Rightarrow> current_of (db w) (t_id t)) \<noteq> Some i"
      "(out, w') = late_reply E t c i digest w"
  | (refused) i st c row where "sight_check doc = Inr (i, st)" "get_run (db w) i = Some c"
      "r_timer c = t_id t" "(case cur of Some j \<Rightarrow> Some j | None \<Rightarrow> current_of (db w) (t_id t)) = Some i"
      "row = (case get_run_state (db w) i of Some r \<Rightarrow> r
         | None \<Rightarrow> run_state_fired i (t_id t) (or_else (d_app_name doc) '''') (as_str Fired) (r_claimed_at c) now)"
      "current_check doc st digest row = Some out" "w' = w"
  | (accepted) i st c row where "sight_check doc = Inr (i, st)" "get_run (db w) i = Some c"
      "r_timer c = t_id t" "(case cur of Some j \<Rightarrow> Some j | None \<Rightarrow> current_of (db w) (t_id t)) = Some i"
      "row = (case get_run_state (db w) i of Some r \<Rightarrow> r
         | None \<Rightarrow> run_state_fired i (t_id t) (or_else (d_app_name doc) '''') (as_str Fired) (r_claimed_at c) now)"
      "current_check doc st digest row = None" "out = Applied"
      "apply_reply E t c row doc st digest now mono_now w = Some w'"
proof (cases "sight_check doc")
  case (Inl e)
  then show thesis using assms by (intro sight) (auto simp: ingest_inner_def)
next
  case (Inr p)
  obtain i st where p: "sight_check doc = Inr (i, st)" using Inr by (cases p) auto
  let ?cur = "case cur of Some j \<Rightarrow> Some j | None \<Rightarrow> current_of (db w) (t_id t)"
  show thesis
  proof (cases "\<exists>c. get_run (db w) i = Some c \<and> r_timer c = t_id t")
    case False
    then show thesis using assms p
      by (intro unknown [of i st]) (auto simp: ingest_inner_def split: option.splits if_splits)
  next
    case True
    then obtain c where c: "get_run (db w) i = Some c" "r_timer c = t_id t" by blast
    define row where "row = (case get_run_state (db w) i of Some r \<Rightarrow> r
       | None \<Rightarrow> run_state_fired i (t_id t) (or_else (d_app_name doc) '''') (as_str Fired) (r_claimed_at c) now)"
    have body: "ingest_inner E t doc digest now mono_now cur w =
        (if ?cur \<noteq> Some i then Some (late_reply E t c i digest w)
         else case current_check doc st digest row of
             Some out \<Rightarrow> Some (out, w)
           | None \<Rightarrow> do { w' \<leftarrow> apply_reply E t c row doc st digest now mono_now w; Some (Applied, w') })"
      unfolding ingest_inner_def p sum.case prod.case c option.case Let_def row_def [symmetric]
      using c(2) by simp
    show thesis
    proof (cases "?cur = Some i")
      case False
      with assms late [OF p c] show thesis unfolding body by auto
    next
      case cur: True
      show thesis
      proof (cases "current_check doc st digest row")
        case (Some x)
        with assms cur refused [OF p c cur row_def] show thesis unfolding body by auto
      next
        case None
        with assms cur accepted [OF p c cur row_def] show thesis
          unfolding body by (cases "apply_reply E t c row doc st digest now mono_now w") auto
      qed
    qed
  qed
qed

lemma digest_evolves: "row_evolves row (row\<lparr>s_reply_digest := Some d\<rparr>)"
  unfolding row_evolves_def row_wf_def
  by (simp add: same_lifecycle [of "row\<lparr>s_reply_digest := Some d\<rparr>" row] phase_to_def)

lemma late_reply_advances:
  assumes "late_reply E t c j digest w = (out, w')"
  shows "run_advances i w w'"
proof (cases "Option.bind (get_run_state (db w) j) s_reply_digest = Some digest")
  case True
  then show ?thesis using assms by (simp add: late_reply_def run_advances_refl)
next
  case False
  define w1 where "w1 = emit E Superseded (\<lambda>e. with_message (run_event t j (r_scheduled_for c) e)
    ''reply arrived for a run that is no longer current'') w"
  have log: "logged k x w1 = logged k x w" if "k \<in> {Acknowledged, Running}" for k x
    using that unfolding w1_def by (intro logged_about_other [of j]) (auto simp: about_def)
  show ?thesis
  proof (cases "get_run_state (db w) j")
    case None
    then have "w' = w1" using False assms by (simp add: late_reply_def w1_def Let_def)
    then show ?thesis using log by (intro run_advances_frame) (simp_all add: w1_def)
  next
    case (Some row)
    then have w': "w' = set_row (row\<lparr>s_reply_digest := Some digest\<rparr>) w1"
      using False assms by (simp add: late_reply_def w1_def Let_def)
    have o: "logged k i w1 = logged k i w" if "i \<noteq> j" for k
      unfolding w1_def using that by (intro logged_about_other [of j]) (auto simp: about_def)
    show ?thesis unfolding w'
      by (rule run_advances_set_row [OF Some])
        (use Some log o in \<open>auto simp: get_run_state_id allowance_def w1_def digest_evolves\<close>)
  qed
qed


lemma apply_reply_advances:
  assumes "apply_reply E t c row doc st digest now mono_now w = Some w'" "is_app_writable st"
    and "is_app_authored_terminal row \<Longrightarrow> st = Completed \<or> st = Failed"
    and "get_run_state (db w) j = Some row \<or> get_run_state (db w) j = None \<and> s_run_id row = j"
  shows "run_advances i w w'"
  using assms(1)
proof (cases rule: apply_reply_Some)
  case (1 wd row' w6 row3 w3)
  have id: "s_run_id row = j" using assms(4) get_run_state_id by blast
  have id': "s_run_id row' = j" using 1(2) id by (simp add: row_accepted_def Let_def)
  have ev: "row_evolves row row'"
    by (rule row_accepted_evolves [OF 1(2) assms(2)]) (use assms(3) 1(3,4) in auto)
  show ?thesis
  proof (cases "get_run_state (db w) j")
    case (Some r)
    then have r: "r = row" using assms(4) by auto
    show ?thesis unfolding 1(1)
      by (rule run_advances_set_row [OF Some [unfolded r] id' 1(6) ev])
        (use 1(9,10) id in auto)
  next
    case None
    have same: "get_run_state (db w6) x = get_run_state (db w) x" for x
      using 1(6) by (rule get_run_state_cong)
    have log: "logged k x w' = logged k x w6" for k x
      unfolding 1(1) by (rule logged_cong) simp
    have get: "get_run_state (db w') i = get_run_state (db w) i" if "i \<noteq> j"
      using that id' unfolding 1(1) by (simp add: get_run_state_update same)
    show ?thesis
    proof (cases "i = j")
      case True
      then show ?thesis using None by (simp add: run_advances_def)
    next
      case False
      then have "logged k i w' = logged k i w" for k using 1(10) id log by simp
      then show ?thesis using get [OF False] by (auto simp: run_advances_def row_evolves_refl)
    qed
  qed
qed

lemma ingest_inner_advances:
  assumes "ingest_inner E t doc digest now mono_now cur w = Some (out, w')"
  shows "run_advances i w w'"
  using assms
proof (cases rule: ingest_inner_cases)
  case (late j st c)
  then show ?thesis using late_reply_advances by metis
next
  case (accepted j st c row)
  have "s_run_id row = j" using accepted(5)
    by (auto simp: run_state_fired_def get_run_state_id split: option.splits)
  moreover have "get_run_state (db w) j = Some row \<or> get_run_state (db w) j = None"
    using accepted(5) by (auto split: option.splits)
  ultimately show ?thesis
    using accepted(8) sight_check_writable [OF accepted(1)] current_check_None(3) [OF accepted(6)]
    by (intro apply_reply_advances [of E t c row doc st digest now mono_now w w' j]) auto
qed (simp_all add: run_advances_refl)

lemma acknowledged_flag: "s_acknowledged_logged row \<Longrightarrow> row\<lparr>s_acknowledged_logged := True\<rparr> = row"
  by (cases row) simp

lemma mark_acknowledged_advances:
  assumes "get_run_state (db w) j = Some row" "before_pickup row \<or> row_run_state row = Some NoAck"
  shows "run_advances i w (mark_acknowledged E t c row now w)"
proof -
  have id: "s_run_id row = j" using get_run_state_id [OF assms(1)] .
  define row' where "row' = row\<lparr>s_state := as_str Acknowledged, s_acknowledged_at := Some now,
    s_pickup_deadline := None, s_acknowledged_logged := True\<rparr>"
  define f where "f = (\<lambda>e. with_logged_at
     (with_detail (run_event t (s_run_id row) (r_scheduled_for c) e)
       (json_object E [(''app_name'', JStr (s_app_name row)), (''via'', JStr ''ack_through'')])) now)"
  define w1 where "w1 = clear_deadlines_kind (s_run_id row) Pickup w"
  define w2 where "w2 = (if s_acknowledged_logged row then w1 else emit E Acknowledged f w1)"
  have f: "about j f" by (simp add: about_def f_def id)
  have eq: "mark_acknowledged E t c row now w = set_row row' w2"
  proof (cases "s_acknowledged_logged row")
    case True
    have "row' = row\<lparr>s_state := as_str Acknowledged, s_acknowledged_at := Some now,
        s_pickup_deadline := None\<rparr>"
      unfolding row'_def by (rule acknowledged_flag) (simp add: True)
    then show ?thesis using True by (simp add: mark_acknowledged_def Let_def w1_def w2_def)
  qed (simp add: mark_acknowledged_def Let_def row'_def w1_def w2_def f_def [abs_def])
  have l1: "logged k x w1 = logged k x w" for k x unfolding w1_def by (rule logged_db) simp
  show ?thesis unfolding eq
  proof (rule run_advances_set_row [OF assms(1)])
    show "row_evolves row row'" unfolding row'_def by (rule acknowledged_evolves [OF assms(2)])
  next
    fix k assume "k \<in> {Acknowledged, Running}"
    then show "logged k j w2 + allowance k row' \<le> logged k j w + allowance k row"
      using logged_about [OF f, of k j E Acknowledged w1] l1 [of k j]
        logged_about_other [OF f, of Acknowledged k j E w1]
      by (auto simp: w2_def row'_def allowance_def)
  next
    fix k assume "i \<noteq> j"
    then show "logged k i w2 = logged k i w"
      using logged_about_other [OF f, of Acknowledged k i E w1] l1 [of k i] by (auto simp: w2_def)
  qed (simp_all add: row'_def id w2_def w1_def)
qed


lemma expire_pickup_cases:
  obtains (idle) "expire_pickup_one E t i now w = (False, w)"
  | (acked) row c where "get_run_state (db w) i = Some row" "s_pickup_deadline row \<noteq> None"
      "is_current_row (db w) (t_id t) i" "get_run (db w) i = Some c" "before_pickup row"
      "r_event_sequence c \<le> last_acked_sequence (db w) (t_id t)"
      "expire_pickup_one E t i now w = (True, mark_acknowledged E t c row now w)"
  | (lapsed) row c f where "get_run_state (db w) i = Some row" "s_pickup_deadline row \<noteq> None"
      "is_current_row (db w) (t_id t) i" "get_run (db w) i = Some c" "before_pickup row"
      "last_acked_sequence (db w) (t_id t) < r_event_sequence c" "about i f"
      "expire_pickup_one E t i now w = (True, set_row
         (row\<lparr>s_state := as_str NoAck, s_no_ack_at := Some now, s_pickup_deadline := None\<rparr>)
         (emit E NoAck f (clear_deadlines i w)))"
proof (cases "expire_pickup_one E t i now w = (False, w)")
  case False
  obtain row where row: "get_run_state (db w) i = Some row" "s_pickup_deadline row \<noteq> None"
    "is_current_row (db w) (t_id t) i"
    using False by (auto simp: expire_pickup_one_def split: option.splits if_splits)
  obtain c where c: "get_run (db w) i = Some c" "before_pickup row"
    using False row by (auto simp: expire_pickup_one_def split: option.splits if_splits)
  show thesis
  proof (cases "r_event_sequence c \<le> last_acked_sequence (db w) (t_id t)")
    case True
    with row c show thesis by (intro acked [OF row c]) (simp_all add: expire_pickup_one_def)
  next
    case False
    define f where "f = (\<lambda>e. with_logged_at (with_message (run_event t i (r_scheduled_for c) e)
      ''no acknowledgement was received'') now)"
    have "about i f" by (simp add: about_def f_def)
    with row c False show thesis
      by (intro lapsed [OF row c]) (simp_all add: expire_pickup_one_def Let_def f_def [abs_def])
  qed
qed (rule idle)

lemma expire_pickup_advances: "run_advances x w (snd (expire_pickup_one E t i now w))"
proof (cases rule: expire_pickup_cases [of E t i now w])
  case idle
  then show ?thesis by (simp add: run_advances_refl)
next
  case (acked row c)
  then show ?thesis by (simp add: mark_acknowledged_advances)
next
  case (lapsed row c f)
  let ?row = "row\<lparr>s_state := as_str NoAck, s_no_ack_at := Some now, s_pickup_deadline := None\<rparr>"
  let ?w1 = "emit E NoAck f (clear_deadlines i w)"
  have "logged k y (clear_deadlines i w) = logged k y w" for k y by (rule logged_db) simp
  then have l: "logged k y ?w1 = logged k y w" if "NoAck \<noteq> k \<or> i \<noteq> y" for k y
    by (rule trans [OF logged_about_other [OF lapsed(7) that]])
  have "run_advances x w (set_row ?row ?w1)"
  proof (rule run_advances_set_row [OF lapsed(1)])
    show "row_evolves row ?row" by (rule no_ack_evolves [OF lapsed(5)])
  qed (auto simp: get_run_state_id [OF lapsed(1)] allowance_def l)
  then show ?thesis using lapsed(8) by simp
qed

lemma expire_watchdog_cases:
  obtains (idle) "expire_watchdog_one E t i now w = (False, w)"
  | (lapsed) row c f w1 where "get_run_state (db w) i = Some row" "s_watchdog_deadline row \<noteq> None"
      "\<not> row_is_terminal row" "s_error_detection row = Some True" "is_current_row (db w) (t_id t) i"
      "get_run (db w) i = Some c" "about i f" "db w1 = db w"
      "expire_watchdog_one E t i now w = (True, set_row
         (row\<lparr>s_state := as_str Failed, s_failure_kind := Some TimedOut, s_failed_at := Some now,
            s_watchdog_deadline := None\<rparr>) (emit E Failed f w1))"
proof (cases "expire_watchdog_one E t i now w = (False, w)")
  case False
  obtain row where row: "get_run_state (db w) i = Some row" "s_watchdog_deadline row \<noteq> None"
    "\<not> row_is_terminal row" "s_error_detection row = Some True" "is_current_row (db w) (t_id t) i"
    using False by (auto simp: expire_watchdog_one_def split: option.splits if_splits)
  obtain c where c: "get_run (db w) i = Some c"
    using False row by (auto simp: expire_watchdog_one_def split: option.splits if_splits)
  obtain ms src w1 where d: "duration_ms E i (s_fired_at row) now (clear_deadlines i w) = ((ms, src), w1)"
    by (metis surj_pair)
  define f where "f = (\<lambda>e. with_logged_at (with_message (with_detail (with_duration_ms
     (run_event t i (r_scheduled_for c) e) ms)
     (json_object E ((''failure_kind'', JStr (failure_as_str TimedOut))
        # (case src of None \<Rightarrow> [] | Some x \<Rightarrow> [(''duration_source'', JStr x)]))))
     ''error_detection watchdog expired'') now)"
  have "about i f" by (simp add: about_def f_def)
  moreover have "db w1 = db w" using duration_ms_frame [OF d] by simp
  ultimately show thesis using row c d
    by (intro lapsed [OF row c]) (simp_all add: expire_watchdog_one_def Let_def f_def [abs_def])
qed (rule idle)

lemma expire_watchdog_advances: "run_advances x w (snd (expire_watchdog_one E t i now w))"
proof (cases rule: expire_watchdog_cases [of E t i now w])
  case idle
  then show ?thesis by (simp add: run_advances_refl)
next
  case (lapsed row c f w1)
  let ?row = "row\<lparr>s_state := as_str Failed, s_failure_kind := Some TimedOut, s_failed_at := Some now,
    s_watchdog_deadline := None\<rparr>"
  have "logged k y w1 = logged k y w" for k y using lapsed(8) by (rule logged_db)
  then have l: "logged k y (emit E Failed f w1) = logged k y w" if "Failed \<noteq> k \<or> i \<noteq> y" for k y
    by (rule trans [OF logged_about_other [OF lapsed(7) that]])
  have "run_advances x w (set_row ?row (emit E Failed f w1))"
  proof (rule run_advances_set_row [OF lapsed(1)])
    show "row_evolves row ?row" by (rule timed_out_evolves [OF lapsed(3,2)])
  qed (auto simp: get_run_state_id [OF lapsed(1)] lapsed(8) allowance_def l)
  then show ?thesis using lapsed(9) by simp
qed

lemma current_run_state_row:
  assumes "keyed s_run_id (run_states s)" "current_run_state s t = Some row"
  shows "get_run_state s (s_run_id row) = Some row" "s_timer_id row = t"
proof -
  let ?joined = "List.map_filter
    (\<lambda>row. if s_timer_id row = t then map_option (\<lambda>r. (r, row)) (get_run s (s_run_id row)) else None)
    (run_states s)"
  let ?ordered = "sort_key (\<lambda>(r, row). (r_event_sequence r, r_scheduled_for r, r_id r)) ?joined"
  have "?ordered \<noteq> []" "row = snd (last ?ordered)"
    using assms(2) by (auto simp: current_run_state_def Let_def split: if_splits)
  note o = this
  have "last ?ordered \<in> set ?ordered" by (rule last_in_set) (rule o(1))
  then have "last ?ordered \<in> set ?joined" by (simp only: set_sort)
  then have "row \<in> snd ` set ?joined" unfolding o(2) by (rule imageI)
  then have "row \<in> set (run_states s)" "s_timer_id row = t"
    by (auto simp: List.map_filter_def split: if_splits)
  then show "get_run_state s (s_run_id row) = Some row" "s_timer_id row = t"
    using row_get_in [OF assms(1)] by (simp_all add: get_run_state_def)
qed

lemma ack_through_cases:
  assumes "keyed s_run_id (run_states (db w))"
  obtains (idle) "on_ack_through E t n now w = (False, w)"
  | (acked) row c where "get_run_state (db w) (s_run_id row) = Some row"
      "before_pickup row \<or> row_run_state row = Some NoAck" "get_run (db w) (s_run_id row) = Some c"
      "r_event_sequence c \<le> n" "on_ack_through E t n now w = (True, mark_acknowledged E t c row now w)"
proof (cases "on_ack_through E t n now w = (False, w)")
  case False
  obtain row where row: "current_run_state (db w) (t_id t) = Some row"
    using False by (auto simp: on_ack_through_def split: option.splits)
  obtain c where c: "get_run (db w) (s_run_id row) = Some c"
    using False row by (auto simp: on_ack_through_def split: option.splits)
  show thesis
    using False row c current_run_state_row(1) [OF assms row]
    by (intro acked [of row c]) (auto simp: on_ack_through_def Let_def split: if_splits)
qed (rule idle)

lemma sync_rows_db: "sync_rows E now m rows n w = Some (k, w') \<Longrightarrow> db w' = db w"
proof (induction rows arbitrary: n w)
  case (Cons row rows)
  from Cons.prems show ?case
    by (auto simp: bind_Some dest!: Cons.IH split: if_splits option.splits)
qed simp

lemma reply_step_advances:
  assumes "reply_step E w w'" "keyed s_run_id (run_states (db w))"
  shows "run_advances i w w'"
  using assms(1)
proof cases
  case ingest
  then show ?thesis by (blast intro: ingest_inner_advances)
next
  case (ack t n now)
  then show ?thesis
    by (cases rule: ack_through_cases [OF assms(2), of E t n now])
      (simp_all add: run_advances_refl mark_acknowledged_advances)
next
  case (reject t j reason)
  show ?thesis unfolding reject log_rejection_def
    by (rule run_advances_frame) (auto simp: logged_def emit_def enqueue_event_def event_new_def Let_def split: option.splits)
next
  case sync
  then have "db w' = db w" unfolding sync_deadline_book_def by (blast dest: sync_rows_db)
  then show ?thesis by (intro run_advances_frame) (auto intro: logged_db)
next
  case drop_deadline
  then show ?thesis by (intro run_advances_frame) (auto intro: logged_db)
qed (simp_all add: expire_pickup_advances expire_watchdog_advances)

lemma reply_step_runs:
  assumes "reply_step E w w'"
  shows "map s_run_id (run_states (db w')) = map s_run_id (run_states (db w))"
proof -
  have u: "map s_run_id (run_states (update_run_state row s)) = map s_run_id (run_states s)" for row s
    by (simp add: update_run_state_def)
  have m: "map s_run_id (run_states (db (mark_acknowledged E t c row now w))) =
      map s_run_id (run_states (db w))" for t c row now
    by (auto simp: mark_acknowledged_def Let_def u)
  from assms show ?thesis
  proof cases
    case (ingest t doc digest now mono_now cur out)
    then show ?thesis
    proof (cases rule: ingest_inner_cases)
      case (late j st c)
      then show ?thesis
        by (auto simp: late_reply_def Let_def u split: if_splits option.splits)
    next
      case (accepted j st c row)
      from accepted(8) show ?thesis by (cases rule: apply_reply_Some) (simp add: u)
    qed simp_all
  next
    case (ack t n now)
    show ?thesis unfolding ack
      by (auto simp: on_ack_through_def Let_def m split: option.splits)
  next
    case (pickup t j now)
    show ?thesis unfolding pickup
      by (cases rule: expire_pickup_cases [of E t j now w]) (simp_all add: m u)
  next
    case (watchdog t j now)
    show ?thesis unfolding watchdog
      by (cases rule: expire_watchdog_cases [of E t j now w]) (simp_all add: u)
  next
    case sync
    then show ?thesis unfolding sync_deadline_book_def by (auto dest: sync_rows_db)
  qed (simp_all add: log_rejection_def)
qed

lemma reply_history_advances:
  assumes "(reply_step E)\<^sup>*\<^sup>* w w'" "keyed s_run_id (run_states (db w))"
  shows "run_advances i w w' \<and> keyed s_run_id (run_states (db w'))"
  using assms(1)
proof (induction rule: rtranclp_induct)
  case base
  then show ?case using assms(2) by (simp add: run_advances_refl)
next
  case (step u v)
  have "keyed s_run_id (run_states (db v))"
    using step.IH reply_step_runs [OF step.hyps(2)] by (simp add: keyed_def)
  then show ?case using step run_advances_trans reply_step_advances by blast
qed


section \<open>Rebuilding the book\<close>

lemma sync_rows_keeps:
  "sync_rows E now m rows n w = Some (k, w') \<Longrightarrow> hm_get i (book w) = Some e \<Longrightarrow> hm_get i (book w') = Some e"
proof (induction rows arbitrary: n w)
  case (Cons row rows)
  show ?case
  proof (cases "hm_get (s_run_id row) (book w) = None")
    case True
    then have ne: "s_run_id row \<noteq> i" using Cons.prems(2) by auto
    have kept: "hm_get i (book (book_put (s_run_id row) d w)) = Some e" for d
      using Cons.prems(2) ne by (simp add: book_put_def)
    show ?thesis using Cons.prems True kept
      by (auto simp: bind_Some intro: Cons.IH split: option.splits)
  next
    case False
    then show ?thesis using Cons by auto
  qed
qed simp

lemma sync_rows_Cons:
  assumes "sync_rows E now m (r # rows) n w = Some (k, w')"
  obtains n' u where "sync_rows E now m rows n' u = Some (k, w')"
    "u = w \<or> (\<exists>x. u = book_put (s_run_id r) x w)"
proof (cases "hm_get (s_run_id r) (book w) \<noteq> None \<or> s_pickup_deadline r = None \<and> s_watchdog_deadline r = None")
  case True
  then have "sync_rows E now m (r # rows) n w = sync_rows E now m rows n w" by auto
  then have "sync_rows E now m rows n w = Some (k, w')" using assms by (simp only:)
  then show thesis by (rule that) simp
next
  case False
  define dl where "dl = (case s_pickup_deadline r of Some t \<Rightarrow> t | None \<Rightarrow> the (s_watchdog_deadline r))"
  define kd where "kd = (if s_pickup_deadline r = None then Watchdog else Pickup)"
  have "sync_rows E now m (r # rows) n w =
      do { at \<leftarrow> mono_add E m (remaining dl now);
           sync_rows E now m rows (n + 1) (book_put (s_run_id r) \<lparr>dl_kind = kd, dl_at = at\<rparr> w) }"
    using False by (cases "s_pickup_deadline r"; cases "s_watchdog_deadline r")
      (simp_all add: dl_def kd_def)
  then obtain at where
    "sync_rows E now m rows (n + 1) (book_put (s_run_id r) \<lparr>dl_kind = kd, dl_at = at\<rparr> w) = Some (k, w')"
    using assms by (cases "mono_add E m (remaining dl now)") simp_all
  then show thesis by (rule that) blast
qed

lemma sync_rows_rearms:
  assumes "sync_rows E now m rows n w = Some (k, w')" "row \<in> set rows" "s_run_id row = i"
    and "\<And>r. r \<in> set rows \<Longrightarrow> s_run_id r = i \<Longrightarrow> r = row" "hm_get i (book w) = None"
    and "s_pickup_deadline row = None" "s_watchdog_deadline row = Some d"
  shows "\<exists>at. hm_get i (book w') = Some \<lparr>dl_kind = Watchdog, dl_at = at\<rparr>"
  using assms
proof (induction rows arbitrary: n w)
  case (Cons r rows)
  show ?case
  proof (cases "s_run_id r = i")
    case True
    then have "r = row" using Cons.prems(4) by simp
    then show ?thesis using Cons.prems(1,3,5-7)
      by (auto simp: bind_Some dest!: sync_rows_keeps [where i = i] simp: book_put_def)
  next
    case False
    then have mem: "row \<in> set rows" using Cons.prems(2,3) by auto
    have IH: "sync_rows E now m rows n' u = Some (k, w') \<Longrightarrow> hm_get i (book u) = None \<Longrightarrow>
        \<exists>at. hm_get i (book w') = Some \<lparr>dl_kind = Watchdog, dl_at = at\<rparr>" for n' u
      by (rule Cons.IH [OF _ mem Cons.prems(3) _ _ Cons.prems(6,7)])
        (assumption, rule Cons.prems(4), rule list.set_intros(2), assumption+)
    have put: "hm_get i (book (book_put (s_run_id r) x w)) = None" for x
      using False Cons.prems(5) by (simp add: book_put_def)
    obtain n' u where "sync_rows E now m rows n' u = Some (k, w')"
      "u = w \<or> (\<exists>x. u = book_put (s_run_id r) x w)"
      by (rule sync_rows_Cons [OF Cons.prems(1)])
    then show ?thesis using IH put Cons.prems(5) by blast
  qed
qed simp


text \<open>The rebuild panics only on the arithmetic of instants: from any late enough reading it returns.\<close>

lemma sync_rows_returns:
  fixes w :: "'z world_scheme"
  assumes "m \<le> mono_max E"
    and "\<forall>r\<in>set rows. \<forall>t. s_pickup_deadline r = Some t \<or> s_watchdog_deadline r = Some t \<longrightarrow> t \<le> now"
  shows "\<exists>k w'. sync_rows E now m rows n w = Some (k, w')"
  using assms(2)
proof (induction rows arbitrary: n w)
  case (Cons r rows)
  have IH: "\<exists>k w'. sync_rows E now m rows n' u = Some (k, w')"
    for n' and u :: "'z world_scheme"
    by (rule Cons.IH) (use Cons.prems in simp)
  have "mono_add E m (remaining t now) = Some m"
    if "s_pickup_deadline r = Some t \<or> s_watchdog_deadline r = Some t" for t
    using Cons.prems that assms(1) by (auto simp: mono_add_def remaining_def)
  then show ?case using IH by (simp split: option.split)
qed simp

lemma sync_returns:
  assumes "m \<le> mono_max E"
  shows "\<exists>now k w'. sync_deadline_book E now m w = Some (k, w')"
proof -
  let ?rows = "armed_deadlines (db w)"
  define T where "T = (\<lambda>r. case s_pickup_deadline r of None \<Rightarrow> 0 | Some t \<Rightarrow> t) ` set ?rows \<union>
    (\<lambda>r. case s_watchdog_deadline r of None \<Rightarrow> 0 | Some t \<Rightarrow> t) ` set ?rows"
  have "t \<le> Max T" if "r \<in> set ?rows" "s_pickup_deadline r = Some t \<or> s_watchdog_deadline r = Some t" for r t
  proof (rule Max_ge)
    show "t \<in> T" using that unfolding T_def by (force split: option.splits)
  qed (simp add: T_def)
  then show ?thesis
    using sync_rows_returns [OF assms, of ?rows "Max T" 0 w] unfolding sync_deadline_book_def by blast
qed

end
