(* ===== verification/Reply_Properties.thy ===== *)
theory Reply_Properties
  imports Reply_Laws Store_Properties
begin

text \<open>
  The properties of the reply lifecycle (\<open>reply/engine.rs\<close>, \<open>reply/document.rs\<close>): the
  outcomes of an ingest, the run's lifecycle over every history, the lines logged once, the
  deadlines, the caps.
\<close>

section \<open>A sample run awaiting its reply\<close>

definition sample_now :: instant where "sample_now = 20600 * day_ns"

definition sample_env :: env where
  "sample_env = \<lparr> env_lib = sample_lib, utc_now = (\<lambda>n. sample_now), new_uuid = (\<lambda>n. 500 + n),
     instant_now = 9000, mono_max = 18446744073709551615000000000,
     json_object = (\<lambda>_. ''{}''), json_string = (\<lambda>s. s),
     watchdog_span = (\<lambda>n. Some (2 * n * 1000000000)) \<rparr>"

definition owned_run :: run_claim where
  "owned_run = \<lparr> r_id = 7, r_timer = 3, r_scheduled_for = 100, r_status = Pending,
     r_claimed_at = 105, r_completed_at = None, r_event_sequence = 4, r_outcome = None,
     r_outcome_reason = None, r_cancel_requested = False \<rparr>"

definition fired_row :: run_state_row where
  "fired_row = run_state_fired 7 3 ''app'' ''fired'' 105 (sample_now + 60 * sec_ns)"

definition fired_world :: world where
  "fired_world = \<lparr> db = sample_store\<lparr>runs := [owned_run], run_states := [fired_row]\<rparr>, draws = 0,
     book = [(7, \<lparr>dl_kind = Pickup, dl_at = 60000009000\<rparr>)], armed_hints = [], anchors = [(7, 9000)] \<rparr>"

definition blank_reply :: "string \<Rightarrow> reply_document" where
  "blank_reply st = \<lparr> d_schema = Some REPLY_SCHEMA_V1, d_run_id = Some 7, d_app_name = Some ''app'',
     d_state = Some st, d_acknowledged_at = None, d_expected_secs = None, d_error_detection = None,
     d_heartbeat_at = None, d_progress = None, d_completed_at = None, d_result = None,
     d_failed_at = None, d_reason = None, d_hint = None \<rparr>"

lemma fired_world_lookups [simp]:
  "get_run (db fired_world) 7 = Some owned_run" "get_run_state (db fired_world) 7 = Some fired_row"
  "current_of (db fired_world) 3 = Some 7" "t_id sample_timer = 3"
  "keyed s_run_id (run_states (db fired_world))"
  by (simp_all add: get_run_def get_run_state_def row_get_def fired_world_def owned_run_def fired_row_def
      run_state_fired_def current_of_def runs_for_timer_def runs_of_def sample_timer_def keyed_def)

lemma sight_blank: "from_wire st = Some s \<Longrightarrow> is_app_writable s \<Longrightarrow> sight_check (blank_reply st) = Inr (7, s)"
  by (simp add: sight_check_def blank_reply_def)

section \<open>Ingest\<close>

lemma late_reply_row:
  assumes "late_reply E t c i digest w = (out, w')"
  shows "runs (db w') = runs (db w) \<and> book w' = book w \<and>
    (\<forall>j. j \<noteq> i \<longrightarrow> get_run_state (db w') j = get_run_state (db w) j) \<and>
    map_option s_state (get_run_state (db w') i) = map_option s_state (get_run_state (db w) i)"
  using assms
  by (auto simp: late_reply_def Let_def get_run_state_update get_run_state_id split: if_splits option.splits)

text \<open>C7: What an ingested reply does, by outcome. A rejected or duplicate reply changes nothing. A
  reply for a run that is not the timer's newest moves no run's state and no countdown. A reply
  is applied only to the timer's newest run, on the word of its owner, never to take an
  application's verdict back; the run then has the reported state, awaits no pickup, remembers
  the reply, and no other run's row is touched.\<close>

theorem ingest_outcomes:
  assumes "ingest E t doc digest now mono_now w = Some (out, w')"
  shows "case out of
      Rejected _ \<Rightarrow> w' = w
    | Duplicate \<Rightarrow> w' = w
    | SupersededReply \<Rightarrow> runs (db w') = runs (db w) \<and> book w' = book w \<and>
        (\<exists>i. d_run_id doc = Some i \<and> current_of (db w) (t_id t) \<noteq> Some i \<and>
          (\<forall>j. map_option s_state (get_run_state (db w') j) = map_option s_state (get_run_state (db w) j)))
    | Applied \<Rightarrow> \<exists>i st. d_run_id doc = Some i \<and> d_state doc = Some (as_str st) \<and> is_app_writable st \<and>
        current_of (db w) (t_id t) = Some i \<and> runs (db w') = runs (db w) \<and>
        (\<forall>j. j \<noteq> i \<longrightarrow> get_run_state (db w') j = get_run_state (db w) j) \<and>
        (\<forall>row. get_run_state (db w) i = Some row \<longrightarrow>
           d_app_name doc = Some (s_app_name row) \<and>
           (is_app_authored_terminal row \<longrightarrow> st = Completed \<or> st = Failed) \<and>
           (\<exists>row'. get_run_state (db w') i = Some row' \<and> s_state row' = as_str st \<and>
              s_pickup_deadline row' = None \<and> s_reply_digest row' = Some digest))"
  using assms unfolding ingest_def
proof (cases rule: ingest_inner_cases)
  case (late i st c)
  have out: "out = SupersededReply" using late(5) by (auto simp: late_reply_def Let_def split: if_splits)
  have *: "map_option s_state (get_run_state (db w') j) = map_option s_state (get_run_state (db w) j)" for j
    using late_reply_row [OF late(5) [symmetric]] by (cases "j = i") auto
  show ?thesis unfolding out ingest_outcome.case
    using late(4) sight_check_run [OF late(1)] late_reply_row [OF late(5) [symmetric]] * by auto
next
  case (refused i st c row)
  then have "w' = w" "out \<noteq> Applied" "out \<noteq> SupersededReply" by (auto simp: current_check_def split: if_splits)
  then show ?thesis by (cases out) auto
next
  case (accepted i st c row)
  note s = sight_check_run [OF accepted(1)] sight_check_writable [OF accepted(1)]
  note cc = current_check_None [OF accepted(6) s(2)]
  from accepted(8) show ?thesis
  proof (cases rule: apply_reply_Some)
    case (1 wd row' w6 row3 w3)
    have id: "s_run_id row' = i"
      using 1(2) accepted(5) by (auto simp: row_accepted_def Let_def run_state_fired_def get_run_state_id
          split: option.splits)
    have same: "get_run_state (db w6) x = get_run_state (db w) x" for x
      using 1(6) by (rule get_run_state_cong)
    have rows: "get_run_state (db w') j = (if j = i then map_option (write_run_state row') (get_run_state (db w) i)
        else get_run_state (db w) j)" for j
      by (simp add: 1(1) get_run_state_update same id)
    have fields: "s_state row' = as_str st" "s_pickup_deadline row' = None" "s_reply_digest row' = Some digest"
      using 1(2) by (simp_all add: row_accepted_def Let_def)
    have "runs (db w') = runs (db w)" by (simp add: 1(1,5))
    then show ?thesis unfolding accepted(7) ingest_outcome.case
      using accepted(4,5) s cc rows fields by (intro exI [of _ i] exI [of _ st]) auto
  qed
qed auto

theorem ingest_outcomes_witness:
  "\<exists>w'. ingest sample_env sample_timer (blank_reply ''fired'') ''d'' sample_now 0 fired_world = Some (Rejected ReservedState, w') \<and>
     w' = fired_world"
proof -
  have "ingest sample_env sample_timer (blank_reply ''fired'') ''d'' sample_now 0 fired_world =
      Some (Rejected ReservedState, fired_world)"
    by (simp add: ingest_def ingest_inner_def sight_check_def blank_reply_def from_wire_def is_app_writable_def)
  from this ingest_outcomes [OF this] show ?thesis by simp
qed

text \<open>C8: A reply counts once: when a reply has been applied to a run that had its row, whose stored
  estimate is an i64 (as the column is), ingesting the same content again, at any later instant, is
  a duplicate and changes nothing.\<close>

theorem reply_idempotent:
  assumes "ingest E t doc digest now mono_now w = Some (Applied, w')"
    and "d_run_id doc = Some i" "get_run_state (db w) i = Some row"
    and "\<And>n. s_expected_secs row = Some n \<Longrightarrow> int n \<le> i64_max"
  shows "ingest E t doc digest now2 mono2 w' = Some (Duplicate, w')"
proof -
  have "ingest_inner E t doc digest now mono_now None w = Some (Applied, w')"
    using assms(1) by (simp add: ingest_def)
  then show ?thesis
  proof (cases rule: ingest_inner_cases)
  case (late j st c)
  then show ?thesis by (simp add: late_reply_def Let_def split: if_splits)
next
  case (refused j st c row)
  then show ?thesis by (auto simp: current_check_def split: if_splits)
next
  case (accepted j st c r)
  note s = sight_check_run [OF accepted(1)] sight_check_writable [OF accepted(1)]
  have ji: "j = i" and r: "r = row" using s(1) assms(2,3) accepted(5) by auto
  note cc = current_check_None [OF accepted(6) s(2)]
  from accepted(8) show ?thesis
  proof (cases rule: apply_reply_Some)
    case (1 wd row' w6 row3 w3)
    have id: "s_run_id row' = i"
      using 1(2) assms(3) r by (simp add: row_accepted_def Let_def get_run_state_id)
    have get: "get_run_state (db w') i = Some (write_run_state row' row)"
      using assms(3) 1(6) get_run_state_cong [of "db w6" "db w" i]
      by (simp add: 1(1) get_run_state_update id)
    have runs: "get_run (db w') x = get_run (db w) x" "current_of (db w') x = current_of (db w) x" for x
      by (simp_all add: get_run_def current_of_def runs_for_timer_def runs_of_def 1(1,5))
    have f: "s_app_name row' = s_app_name row" "s_state row' = as_str st" "s_reply_digest row' = Some digest"
      "s_expected_secs row' = (if d_expected_secs doc = None then s_expected_secs row else d_expected_secs doc)"
      using 1(2) r by (simp_all add: row_accepted_def Let_def)
    have n: "s_expected_secs (write_run_state row' row) = s_expected_secs row" if "d_expected_secs doc = None"
      using that f(4) assms(4) by (cases "s_expected_secs row") (auto simp: as_i64_def)
    have "current_check doc st digest (write_run_state row' row) = Some Duplicate"
      using accepted(6) n f(2) s(2) r cc
      by (auto simp: current_check_def f(1,3) is_app_authored_terminal_def row_run_state_def split: if_splits)
    then show ?thesis using accepted(1-4) ji
      by (simp add: ingest_def ingest_inner_def runs get)
  qed
  qed simp_all
qed


lemma fired_row_fields [simp]:
  "s_app_name fired_row = ''app''" "s_reply_digest fired_row = None" "s_expected_secs fired_row = None"
  "s_error_detection fired_row = None" "row_run_state fired_row = Some Fired"
  "s_acknowledged_logged fired_row = False" "s_running_logged fired_row = False"
  "s_run_id fired_row = 7" "s_watchdog_deadline fired_row = None"
  "s_pickup_deadline fired_row = Some (sample_now + 60 * sec_ns)"
  by (simp_all add: fired_row_def run_state_fired_def row_run_state_def from_wire_def)

lemma ingest_blank:
  assumes "from_wire st = Some s" "is_app_writable s"
  shows "\<exists>w'. ingest sample_env sample_timer (blank_reply st) digest sample_now 0 fired_world =
    Some (Applied, w')"
proof -
  have c: "current_check (blank_reply st) s digest fired_row = None"
    by (simp add: current_check_def blank_reply_def is_app_authored_terminal_def)
  have "r_timer owned_run = 3" by (simp add: owned_run_def)
  have "\<not> arms_watchdog (accumulate (blank_reply st) s sample_now fired_row)"
    by (simp add: arms_watchdog_def blank_reply_def)
  then have "\<exists>w'. apply_reply sample_env sample_timer owned_run fired_row (blank_reply st) s digest
      sample_now 0 fired_world = Some w'"
    by (intro apply_reply_returns) blast
  with c \<open>r_timer owned_run = 3\<close> show ?thesis
    by (auto simp: ingest_def ingest_inner_def sight_blank [OF assms])
qed

theorem reply_idempotent_witness:
  "\<exists>w'. ingest sample_env sample_timer (blank_reply ''acknowledged'') ''d'' sample_now 0 fired_world =
      Some (Applied, w') \<and>
    ingest sample_env sample_timer (blank_reply ''acknowledged'') ''d'' (sample_now + 5) 40 w' =
      Some (Duplicate, w')"
proof -
  obtain w' where w': "ingest sample_env sample_timer (blank_reply ''acknowledged'') ''d'' sample_now 0
      fired_world = Some (Applied, w')"
    using ingest_blank [of "''acknowledged''" Acknowledged] by (auto simp: from_wire_def is_app_writable_def)
  have "d_run_id (blank_reply ''acknowledged'') = Some 7" by (simp add: blank_reply_def)
  from reply_idempotent [OF w' this fired_world_lookups(2)] w' show ?thesis by auto
qed


section \<open>The lifecycle over every history\<close>

text \<open>C9: The engine refines the abstract lifecycle: whatever a history of replies, acknowledgements
  and deadlines does, a run's row exists afterwards and its phase has moved only along
  \<open>phase_to\<close>: never back to waiting, silent only out of waiting, and out of the
  application's verdict to nothing.\<close>

theorem reply_refines_lifecycle:
  assumes "(reply_step E)\<^sup>*\<^sup>* w w'" "keyed s_run_id (run_states (db w))"
    and "get_run_state (db w) i = Some row"
  shows "\<exists>row'. get_run_state (db w') i = Some row' \<and> phase_to (row_phase row) (row_phase row')"
  using reply_history_advances [OF assms(1,2), of i] assms(3)
  by (auto simp: run_advances_def row_evolves_def)

theorem reply_refines_lifecycle_witness:
  "\<exists>row'. get_run_state (db (snd (expire_pickup_one sample_env sample_timer 7 sample_now fired_world))) 7 = Some row' \<and>
     phase_to (row_phase fired_row) (row_phase row')"
  by (rule reply_refines_lifecycle [of sample_env fired_world])
    (auto intro: rtranclp.intros reply_step.pickup simp del: row_get_append)

text \<open>C10: Rows stay well formed in every history: a pickup deadline only before the pickup, a watchdog
  deadline only on an acknowledged or running run that asked for error detection, completion
  and failure stamps as the state says; and a run keeps its owner and its fire instant, and its
  pickup, once satisfied, is never awaited again.\<close>

theorem reply_rows_well_formed:
  assumes "(reply_step E)\<^sup>*\<^sup>* w w'" "keyed s_run_id (run_states (db w))"
    and "get_run_state (db w) i = Some row" "row_wf row"
  shows "\<exists>row'. get_run_state (db w') i = Some row' \<and> row_wf row' \<and>
    s_app_name row' = s_app_name row \<and> s_fired_at row' = s_fired_at row \<and>
    (s_pickup_deadline row = None \<longrightarrow> s_pickup_deadline row' = None)"
  using reply_history_advances [OF assms(1,2), of i] assms(3,4)
  by (auto simp: run_advances_def row_evolves_def)

lemma fired_row_wf: "row_wf fired_row"
  by (simp add: row_wf_def before_pickup_def)

theorem reply_rows_well_formed_witness:
  "\<exists>row'. get_run_state (db (snd (expire_watchdog_one sample_env sample_timer 7 sample_now fired_world))) 7 = Some row' \<and>
     row_wf row' \<and> s_app_name row' = s_app_name fired_row \<and> s_fired_at row' = s_fired_at fired_row \<and>
     (s_pickup_deadline fired_row = None \<longrightarrow> s_pickup_deadline row' = None)"
  by (rule reply_rows_well_formed [of sample_env fired_world])
    (auto intro: rtranclp.intros reply_step.watchdog simp: fired_row_wf)

text \<open>The log records transitions, not reports: in any history, however many replies arrive,
  at most one \<open>acknowledged\<close> line and at most one \<open>running\<close> line is added for a run, and none
  once its row says it was logged.\<close>

theorem lines_logged_once:
  assumes "(reply_step E)\<^sup>*\<^sup>* w w'" "keyed s_run_id (run_states (db w))"
    and "get_run_state (db w) i = Some row" "k = Acknowledged \<or> k = Running"
  shows "logged k i w' \<le> logged k i w + 1 \<and>
    ((if k = Acknowledged then s_acknowledged_logged row else s_running_logged row) \<longrightarrow>
       logged k i w' \<le> logged k i w)"
proof -
  obtain row' where "logged k i w' + allowance k row' \<le> logged k i w + allowance k row"
    using reply_history_advances [OF assms(1,2), of i] assms(3,4) by (auto simp: run_advances_def)
  then show ?thesis by (auto simp: allowance_def split: if_splits)
qed

theorem lines_logged_once_witness:
  "\<exists>w'. ingest sample_env sample_timer (blank_reply ''running'') ''d'' sample_now 0 fired_world = Some (Applied, w') \<and>
     logged Running 7 w' \<le> logged Running 7 fired_world + 1"
proof -
  obtain w' where w': "ingest sample_env sample_timer (blank_reply ''running'') ''d'' sample_now 0
      fired_world = Some (Applied, w')"
    using ingest_blank [of "''running''" Running] by (auto simp: from_wire_def is_app_writable_def)
  then have "(reply_step sample_env)\<^sup>*\<^sup>* fired_world w'"
    unfolding ingest_def by (intro r_into_rtranclp reply_step.ingest)
  from lines_logged_once [OF this fired_world_lookups(5,2), of Running] w' show ?thesis by auto
qed

section \<open>Deadlines\<close>

text \<open>A lapsed pickup countdown moves exactly the timer's current run that still awaits its
  pickup: to \<open>acknowledged\<close> when the feed's cursor already covers it, to \<open>no_ack\<close> only when
  the cursor is below it; every other run, and every other row, is left alone.\<close>

theorem expire_pickup_exact:
  assumes "expire_pickup_one E t i now w = (moved, w')"
  shows "(moved \<longleftrightarrow> (\<exists>row c. get_run_state (db w) i = Some row \<and> s_pickup_deadline row \<noteq> None \<and>
        before_pickup row \<and> is_current_row (db w) (t_id t) i \<and> get_run (db w) i = Some c)) \<and>
    (\<not> moved \<longrightarrow> w' = w) \<and>
    (moved \<longrightarrow> (\<exists>row' c. get_run (db w) i = Some c \<and> get_run_state (db w') i = Some row' \<and>
        s_pickup_deadline row' = None \<and>
        s_state row' = as_str (if r_event_sequence c \<le> last_acked_sequence (db w) (t_id t)
          then Acknowledged else NoAck))) \<and>
    (\<forall>j. j \<noteq> i \<longrightarrow> get_run_state (db w') j = get_run_state (db w) j)"
proof (cases rule: expire_pickup_cases [of E t i now w])
  case idle
  then have "\<not> moved" "w' = w" using assms by auto
  moreover have "False" if "get_run_state (db w) i = Some row" "s_pickup_deadline row \<noteq> None"
    "before_pickup row" "is_current_row (db w) (t_id t) i" "get_run (db w) i = Some c" for row c
    using that idle by (auto simp: expire_pickup_one_def Let_def split: if_splits)
  ultimately show ?thesis by blast
next
  case (acked row c)
  then have "moved" "w' = mark_acknowledged E t c row now w" using assms by auto
  moreover have "\<exists>row'. get_run_state (db (mark_acknowledged E t c row now w)) i = Some row' \<and>
      s_pickup_deadline row' = None \<and> s_state row' = as_str Acknowledged"
    using acked(1) get_run_state_id [OF acked(1)]
    by (auto simp: mark_acknowledged_def Let_def get_run_state_update)
  moreover have "get_run_state (db (mark_acknowledged E t c row now w)) j = get_run_state (db w) j"
    if "j \<noteq> i" for j
    using that get_run_state_id [OF acked(1)]
    by (auto simp: mark_acknowledged_def Let_def get_run_state_update)
  ultimately show ?thesis using acked(1-6) by auto
next
  case (lapsed row c f)
  then have "moved" "w' = set_row (row\<lparr>s_state := as_str NoAck, s_no_ack_at := Some now,
      s_pickup_deadline := None\<rparr>) (emit E NoAck f (clear_deadlines i w))" using assms by auto
  then show ?thesis using lapsed(1-6) get_run_state_id [OF lapsed(1)]
    by (auto simp: get_run_state_update)
qed

theorem expire_pickup_exact_witness:
  "fst (expire_pickup_one sample_env sample_timer 7 sample_now fired_world) \<and>
   (\<exists>row'. get_run_state (db (snd (expire_pickup_one sample_env sample_timer 7 sample_now fired_world))) 7 = Some row' \<and>
      s_state row' = ''no_ack'')"
proof -
  have cur: "is_current_row (db fired_world) 3 7"
    by (simp add: is_current_row_def current_run_state_def fired_world_def get_run_def row_get_def
        owned_run_def List.map_filter_def fired_row_def run_state_fired_def)
  have "last_acked_sequence (db fired_world) 3 = 0"
    by (simp add: last_acked_sequence_def fired_world_def sample_store_def empty_store_def row_get_def)
  moreover have "r_event_sequence owned_run = 4" by (simp add: owned_run_def)
  moreover have "before_pickup fired_row" by (simp add: before_pickup_def)
  ultimately show ?thesis
    using cur expire_pickup_exact [of sample_env sample_timer 7 sample_now fired_world, OF surjective_pairing]
    by (auto simp: as_str_def)
qed


text \<open>A withdrawn estimate disarms only half: when a run under watch gets a reply that sets the
  estimate to zero and says nothing of error detection, its live countdown is dropped but the
  persisted deadline stays, so the next rebuild of the deadline book arms the watchdog again.\<close>

theorem zero_estimate_leaves_deadline:
  fixes w :: world
  assumes "ingest E t doc digest now mono_now w = Some (Applied, w')"
    and "d_run_id doc = Some i" "d_state doc = Some ''running''"
    and "d_expected_secs doc = Some 0" "d_error_detection doc = None"
    and "get_run_state (db w) i = Some row" "keyed s_run_id (run_states (db w))"
    and "s_error_detection row = Some True" "s_watchdog_deadline row = Some d"
    and "sync_deadline_book E now2 mono2 w' = Some (n, w'')"
  shows "hm_get i (book w') = None \<and>
    (\<exists>at. hm_get i (book w'') = Some \<lparr>dl_kind = Watchdog, dl_at = at\<rparr>)"
proof -
  have step: "reply_step E w w'" using assms(1) unfolding ingest_def by (rule reply_step.ingest)
  have "ingest_inner E t doc digest now mono_now None w = Some (Applied, w')"
    using assms(1) by (simp add: ingest_def)
  then obtain st c where acc: "sight_check doc = Inr (i, st)"
      "apply_reply E t c row doc st digest now mono_now w = Some w'"
  proof (cases rule: ingest_inner_cases)
    case (accepted j st c r)
    then have "j = i" using sight_check_run assms(2) by fastforce
    then show ?thesis using accepted(1,5,8) assms(6) that by simp
  qed (auto simp: late_reply_def Let_def current_check_def split: if_splits)
  have st: "st = Running" using sight_check_run [OF acc(1)] assms(3) as_str_eq [of st Running]
    by (simp add: as_str_def)
  have id: "s_run_id row = i" using assms(6) by (rule get_run_state_id)
  from acc(2) show ?thesis
  proof (cases rule: apply_reply_Some)
    case (1 wd row' w6 row3 w3)
    have kinds: "dl_kind e = Pickup \<or> dl_kind e = Watchdog" for e by (cases "dl_kind e") auto
    have b3: "book w3 = book (clear_deadlines_kind i Watchdog (clear_deadlines_kind i Pickup w))"
      and wd: "wd = Some d"
      using 1(11,12) assms(4,5,9) id st
      by (auto simp: rearm_def Let_def arms_watchdog_def is_terminal_def)
    have gone: "hm_get i (book w') = None"
      using kinds unfolding 1(1) book_set_row 1(13) b3
      by (auto simp: clear_deadlines_kind_def holds_kind_def clear_deadlines_def split: option.splits)
    have row': "s_run_id row' = i" "s_watchdog_deadline row' = Some d" "s_pickup_deadline row' = None"
      using 1(2) wd id by (simp_all add: row_accepted_def Let_def)
    define new where "new = write_run_state row' row"
    have new: "get_run_state (db w') i = Some new"
      using assms(6) 1(6) get_run_state_cong [of "db w6" "db w" i]
      by (simp add: 1(1) get_run_state_update row' new_def)
    have k: "keyed s_run_id (run_states (db w'))"
      using reply_step_runs [OF step] assms(7) by (simp add: keyed_def)
    have only: "r = new" if "r \<in> set (run_states (db w'))" "s_run_id r = i" for r
      using row_get_in [OF k that(1)] new that(2) by (simp add: get_run_state_def)
    have mem: "new \<in> set (armed_deadlines (db w'))"
      using row_get_Some new row'(2) by (fastforce simp: armed_deadlines_def get_run_state_def new_def)
    have "\<exists>at. hm_get i (book w'') = Some \<lparr>dl_kind = Watchdog, dl_at = at\<rparr>"
      by (rule sync_rows_rearms [OF assms(10) [unfolded sync_deadline_book_def] mem _ _ gone])
        (use only row' id in \<open>auto simp: new_def armed_deadlines_def\<close>)
    with gone show ?thesis ..
  qed
qed


definition watched_row :: run_state_row where
  "watched_row = fired_row\<lparr>s_state := ''running'', s_pickup_deadline := None,
     s_error_detection := Some True, s_expected_secs := Some 60,
     s_watchdog_deadline := Some (sample_now + 120 * sec_ns), s_running_logged := True\<rparr>"

definition watched_world :: world where
  "watched_world = \<lparr> db = sample_store\<lparr>runs := [owned_run], run_states := [watched_row]\<rparr>, draws = 0,
     book = [(7, \<lparr>dl_kind = Watchdog, dl_at = 120000009000\<rparr>)], armed_hints = [], anchors = [(7, 9000)] \<rparr>"

definition zero_estimate :: reply_document where
  "zero_estimate = (blank_reply ''running'')\<lparr>d_expected_secs := Some 0\<rparr>"

lemma watched_lookups [simp]:
  "get_run (db watched_world) 7 = Some owned_run" "get_run_state (db watched_world) 7 = Some watched_row"
  "current_of (db watched_world) 3 = Some 7" "keyed s_run_id (run_states (db watched_world))"
  by (simp_all add: get_run_def get_run_state_def row_get_def watched_world_def owned_run_def
      watched_row_def current_of_def runs_for_timer_def runs_of_def keyed_def)

theorem zero_estimate_leaves_deadline_witness:
  "\<exists>w' now2 n w'' at. ingest sample_env sample_timer zero_estimate ''d'' sample_now 5 watched_world = Some (Applied, w') \<and>
     sync_deadline_book sample_env now2 5 w' = Some (n, w'') \<and>
     hm_get 7 (book w') = None \<and> hm_get 7 (book w'') = Some \<lparr>dl_kind = Watchdog, dl_at = at\<rparr>"
proof -
  have "row_run_state watched_row = Some Running"
    by (simp add: row_run_state_def watched_row_def from_wire_def)
  then have c: "current_check zero_estimate Running ''d'' watched_row = None"
    by (simp add: current_check_def zero_estimate_def blank_reply_def is_app_authored_terminal_def watched_row_def)
  have s: "sight_check zero_estimate = Inr (7, Running)"
    by (simp add: zero_estimate_def sight_check_def blank_reply_def from_wire_def is_app_writable_def)
  have "\<not> arms_watchdog (accumulate zero_estimate Running sample_now watched_row)"
    by (simp add: arms_watchdog_def zero_estimate_def)
  then obtain w' where "apply_reply sample_env sample_timer owned_run watched_row zero_estimate Running
      ''d'' sample_now 5 watched_world = Some w'"
    using apply_reply_returns by blast
  moreover have "r_timer owned_run = 3" by (simp add: owned_run_def)
  ultimately have i: "ingest sample_env sample_timer zero_estimate ''d'' sample_now 5 watched_world = Some (Applied, w')"
    by (simp add: ingest_def ingest_inner_def s c)
  obtain now2 n w'' where y: "sync_deadline_book sample_env now2 5 w' = Some (n, w'')"
    using sync_returns [of 5 sample_env w'] by (auto simp: sample_env_def)
  have "d_run_id zero_estimate = Some 7" "d_state zero_estimate = Some ''running''"
    "d_expected_secs zero_estimate = Some 0" "d_error_detection zero_estimate = None"
    "s_error_detection watched_row = Some True"
    "s_watchdog_deadline watched_row = Some (sample_now + 120 * sec_ns)"
    by (simp_all add: zero_estimate_def blank_reply_def watched_row_def)
  from zero_estimate_leaves_deadline [OF i this(1-4) watched_lookups(2,4) this(5,6) y] i y
  show ?thesis by blast
qed

section \<open>Caps\<close>

text \<open>Truncation never splits a character: the text kept is the longest prefix within the cap that
  ends on a character boundary, the whole text when it fits.\<close>

theorem truncate_text_exact:
  "length (truncate_text s cap) \<le> cap \<and> (\<exists>rest. s = truncate_text s cap @ rest) \<and>
   is_char_boundary s (length (truncate_text s cap)) \<and>
   (\<forall>n. n \<le> cap \<and> n \<le> length s \<and> is_char_boundary s n \<longrightarrow> n \<le> length (truncate_text s cap))"
proof (cases "length s \<le> cap")
  case True
  then show ?thesis by (simp add: truncate_text_def is_char_boundary_def)
next
  case False
  then have len: "length (truncate_text s cap) = boundary_from s cap"
    using boundary_from_le [of s cap] by (simp add: truncate_text_def)
  have "s = truncate_text s cap @ drop (boundary_from s cap) s"
    using False by (simp add: truncate_text_def)
  then show ?thesis using len boundary_from_le boundary_from_boundary boundary_from_greatest by metis
qed

theorem truncate_text_exact_witness: "length (truncate_text ''ab'' 2) = 2"
  using truncate_text_exact [of "''ab''" 2] by (simp add: truncate_text_def)

end
