(* ===== verification/Fire_Notification.thy ===== *)
theory Fire_Notification
  imports Reply_Engine
begin

text \<open>
  What a fire is and how it is announced: \<open>FireKind\<close> (\<open>scheduler/action.rs\<close>), the fire
  notification (\<open>reply/notification.rs\<close>), the status mirror (\<open>tree/mod.rs\<close>), safe file names
  and atomic writes (\<open>slots/atomic.rs\<close>), the choice of a transport and the projection row
  (\<open>reply/publication.rs\<close>). A path is its Unix text and a file its bytes; the texts that
  \<open>serde_json\<close> and \<open>uuid\<close> produce are the parameter \<open>codec\<close>. The IPC server appears as the
  snapshot its handle answers.
\<close>

datatype fire_kind = OnTime | Late duration | CoalescedFire nat | CatchUpFire nat

definition fire_state :: "fire_kind \<Rightarrow> string" where
  "fire_state k = (case k of
     OnTime \<Rightarrow> as_str Fired | CatchUpFire _ \<Rightarrow> as_str Fired
   | Late _ \<Rightarrow> as_str FiredLate
   | CoalescedFire _ \<Rightarrow> as_str Coalesced)"

section \<open>Paths\<close>

definition path_join :: "string \<Rightarrow> string \<Rightarrow> string" where
  "path_join a b =
     (if b \<noteq> [] \<and> hd b = CHR ''/'' then b
      else if a = [] \<or> last a = CHR ''/'' then a @ b
      else a @ ''/'' @ b)"

text \<open>
  A \<open>Path\<close> compares by components: repeated separators and inner \<open>.\<close> components do not count.
\<close>

type_synonym path = "bool \<times> string list"

fun split_slash :: "string \<Rightarrow> string list" where
  "split_slash [] = [[]]"
| "split_slash (c # s) =
     (if c = CHR ''/'' then [] # split_slash s
      else case split_slash s of [] \<Rightarrow> [[c]] | p # ps \<Rightarrow> (c # p) # ps)"

definition path_of :: "string \<Rightarrow> path" where
  "path_of p =
     (let absolute = (p \<noteq> [] \<and> hd p = CHR ''/''); cs = split_slash p;
          inner = filter (\<lambda>c. c \<noteq> [] \<and> c \<noteq> ''.'') cs in
      (absolute, if \<not> absolute \<and> hd cs = ''.'' then ''.'' # inner else inner))"

fun join_slash :: "string list \<Rightarrow> string" where
  "join_slash [] = []"
| "join_slash [c] = c"
| "join_slash (c # cs) = c @ ''/'' @ join_slash cs"

definition path_text :: "path \<Rightarrow> string" where
  "path_text p = (if fst p then ''/'' else []) @ join_slash (snd p)"

definition path_parent :: "string \<Rightarrow> string option" where
  "path_parent p =
     (let (absolute, cs) = path_of p in
      if cs = [] then None else Some (path_text (absolute, butlast cs)))"

definition path_file_name :: "string \<Rightarrow> string option" where
  "path_file_name p =
     (let cs = snd (path_of p) in
      if cs = [] \<or> last cs = ''.'' \<or> last cs = ''..'' then None else Some (last cs))"

text \<open>\<open>str::contains\<close> of the two-character string \<open>..\<close>.\<close>

fun has_dots :: "string \<Rightarrow> bool" where
  "has_dots (a # b # s) \<longleftrightarrow> a = CHR ''.'' \<and> b = CHR ''.'' \<or> has_dots (b # s)"
| "has_dots _ \<longleftrightarrow> False"

datatype path_error = UnsafeSeparators string | UnsafeDots string | NotOneComponent string
  | EscapedDir string | WrongParent string

definition safe_child_path :: "string \<Rightarrow> string \<Rightarrow> path_error + string" where
  "safe_child_path dir name =
     (if name = [] \<or> CHR 0x00 \<in> set name \<or> CHR ''/'' \<in> set name \<or> CHR 0x5C \<in> set name
      then Inl (UnsafeSeparators name)
      else if name = ''.'' \<or> name = ''..'' \<or> has_dots name then Inl (UnsafeDots name)
      else if path_of name \<noteq> (False, [name]) then Inl (NotOneComponent name)
      else
        let final = path_join dir name in
        if path_file_name final \<noteq> Some name then Inl (EscapedDir name)
        else if map_option path_of (path_parent final) \<noteq> Some (path_of dir) then Inl (WrongParent name)
        else Inr final)"

section \<open>Notifications\<close>

record fire_notification =
  f_schema :: string
  f_kind :: string
  f_occurrence_kind :: string
  f_timer_id :: uuid
  f_timer_name :: string
  f_app_name :: string
  f_run_id :: uuid
  f_scheduled_for :: instant
  f_fired_at :: instant
  f_status_path :: string
  f_reply_path :: "string option"
  f_ipc :: "string option"

definition FIRE_SCHEMA_V1 :: string where "FIRE_SCHEMA_V1 = ''bellman-slot/1''"

definition notification_new ::
  "string \<Rightarrow> string \<Rightarrow> uuid \<Rightarrow> string \<Rightarrow> string \<Rightarrow> uuid \<Rightarrow> instant \<Rightarrow> instant \<Rightarrow> string \<Rightarrow>
     string option \<Rightarrow> string option \<Rightarrow> fire_notification" where
  "notification_new k occ timer_id timer_name app_name run_id scheduled_for fired_at status_path
     reply_path ipc = \<lparr>
     f_schema = FIRE_SCHEMA_V1, f_kind = k, f_occurrence_kind = occ, f_timer_id = timer_id,
     f_timer_name = timer_name, f_app_name = app_name, f_run_id = run_id,
     f_scheduled_for = scheduled_for, f_fired_at = fired_at, f_status_path = status_path,
     f_reply_path = reply_path, f_ipc = ipc \<rparr>"

record run_status =
  st_schema :: string
  st_state :: string
  st_run_id :: uuid
  st_timer_id :: uuid
  st_timer_name :: string
  st_occurrence_kind :: string
  st_scheduled_for :: instant
  st_fired_at :: instant
  st_app_name :: "string option"
  st_acknowledged_at :: "instant option"
  st_expected_secs :: "nat option"
  st_error_detection :: "bool option"
  st_heartbeat_at :: "instant option"
  st_progress :: "string option"
  st_completed_at :: "instant option"
  st_result :: "string option"
  st_result_truncated :: "bool option"
  st_failed_at :: "instant option"
  st_reason :: "string option"
  st_failure_kind :: "string option"
  st_no_ack_at :: "instant option"
  st_transport :: "string option"

text \<open>What \<open>timer.json\<close> shows; \<open>serde_json\<close> renders it, the occurrence in its view shape.\<close>

record timer_view =
  tv_schema :: string
  tv_timer_id :: uuid
  tv_name :: string
  tv_enabled :: bool
  tv_tz :: string
  tv_occurrence :: occurrence_kind
  tv_action :: action
  tv_mode :: string
  tv_note :: string
  tv_app_name :: "string option"
  tv_socket :: "string option"
  tv_next_fire_at :: "instant option"

text \<open>A quarantine sidecar: path, reason, digest of copied bytes, length, timer and run.\<close>

record sidecar =
  q_schema :: string
  q_reason :: string
  q_source_path :: string
  q_quarantined_at :: instant
  q_content_copied :: bool
  q_observed_len :: nat
  q_content_digest :: "string option"
  q_timer_id :: uuid
  q_run_id :: uuid

text \<open>
  The crates' renderings and parsers: \<open>uuid\<close> (hyphenated and simple form, \<open>parse_str\<close>),
  \<open>serde_json\<close> (one field per document type), \<open>sanitize-filename\<close>.
\<close>

record codec =
  uuid_text :: "uuid \<Rightarrow> string"
  uuid_simple :: "uuid \<Rightarrow> string"
  uuid_parse :: "string \<Rightarrow> uuid option"
  sanitize :: "string \<Rightarrow> string"
  notif_json :: "fire_notification \<Rightarrow> string"
  notif_pretty :: "fire_notification \<Rightarrow> string"
  notif_parse :: "string \<Rightarrow> fire_notification option"
  status_pretty :: "run_status \<Rightarrow> string"
  stub_bytes :: "uuid \<Rightarrow> string \<Rightarrow> string"
  timer_pretty :: "timer_view \<Rightarrow> string"
  timer_id_in :: "string \<Rightarrow> string option"
  reply_parse :: "string \<Rightarrow> reply_document option"
  sidecar_pretty :: "sidecar \<Rightarrow> string"
  content_copied_in :: "string \<Rightarrow> bool option"
  readme_text :: string

definition fires_dir :: "string \<Rightarrow> string" where
  "fires_dir slots_root = path_join slots_root ''fires''"

definition fire_notification_name :: "codec \<Rightarrow> uuid \<Rightarrow> string" where
  "fire_notification_name C run_id = ''fire-'' @ uuid_text C run_id @ ''.json''"

definition reply_file_name :: "codec \<Rightarrow> uuid \<Rightarrow> string" where
  "reply_file_name C run_id = ''reply-'' @ uuid_text C run_id @ ''.json''"

definition STATUS_FILE_NAME :: string where "STATUS_FILE_NAME = ''status.json''"

section \<open>The status mirror\<close>

definition RUN_SCHEMA_V1 :: string where "RUN_SCHEMA_V1 = ''bellman-run/1''"

definition status_fired ::
  "timer \<Rightarrow> run_claim \<Rightarrow> fire_kind \<Rightarrow> string option \<Rightarrow> string option \<Rightarrow> run_status" where
  "status_fired t claim k owner transport = \<lparr>
     st_schema = RUN_SCHEMA_V1, st_state = fire_state k, st_run_id = r_id claim,
     st_timer_id = t_id t, st_timer_name = t_name t,
     st_occurrence_kind = kind_label (kind (t_occurrence t)),
     st_scheduled_for = r_scheduled_for claim, st_fired_at = r_claimed_at claim,
     st_app_name = owner, st_acknowledged_at = None, st_expected_secs = None,
     st_error_detection = None, st_heartbeat_at = None, st_progress = None, st_completed_at = None,
     st_result = None, st_result_truncated = None, st_failed_at = None, st_reason = None,
     st_failure_kind = None, st_no_ack_at = None, st_transport = transport \<rparr>"

definition status_from_run_state :: "timer \<Rightarrow> run_claim \<Rightarrow> run_state_row \<Rightarrow> run_status" where
  "status_from_run_state t claim row = \<lparr>
     st_schema = RUN_SCHEMA_V1, st_state = s_state row, st_run_id = r_id claim,
     st_timer_id = t_id t, st_timer_name = t_name t,
     st_occurrence_kind = kind_label (kind (t_occurrence t)),
     st_scheduled_for = r_scheduled_for claim, st_fired_at = s_fired_at row,
     st_app_name = Some (s_app_name row), st_acknowledged_at = s_acknowledged_at row,
     st_expected_secs = s_expected_secs row, st_error_detection = s_error_detection row,
     st_heartbeat_at = s_heartbeat_at row, st_progress = s_progress row,
     st_completed_at = s_completed_at row, st_result = s_result_json row,
     st_result_truncated = (if s_result_truncated row then Some True else None),
     st_failed_at = s_failed_at row, st_reason = s_reason row,
     st_failure_kind = map_option failure_as_str (s_failure_kind row),
     st_no_ack_at = s_no_ack_at row, st_transport = s_transport row \<rparr>"

section \<open>Engine configuration and transport selection\<close>

datatype send_outcome = Queued | NoClient

record ipc_handle =
  socket_path :: string
  is_live :: bool
  has_client :: "uuid \<Rightarrow> bool"
  ipc_send :: "uuid \<Rightarrow> string \<Rightarrow> send_outcome"

record engine =
  data_dir :: string
  pickup_grace :: span
  fire_slot_file :: "string option"
  ipc :: "ipc_handle option"

datatype selected_transport = SelectedJson | SelectedIpc

definition selected_as_str :: "selected_transport \<Rightarrow> string" where
  "selected_as_str s = (case s of SelectedJson \<Rightarrow> TRANSPORT_JSON | SelectedIpc \<Rightarrow> TRANSPORT_IPC)"

definition select_transport :: "timer \<Rightarrow> engine \<Rightarrow> selected_transport" where
  "select_transport t eng = (case t_transport t of
     TJson \<Rightarrow> SelectedJson
   | TIpc \<Rightarrow>
       (case ipc eng of
          Some h \<Rightarrow> if is_live h then SelectedIpc else SelectedJson
        | None \<Rightarrow> SelectedJson)
   | TAuto \<Rightarrow>
       (case ipc eng of
          Some h \<Rightarrow> if is_live h \<and> has_client h (t_id t) then SelectedIpc else SelectedJson
        | None \<Rightarrow> SelectedJson))"

definition new_projection ::
  "codec \<Rightarrow> engine \<Rightarrow> timer \<Rightarrow> run_claim \<Rightarrow> string \<Rightarrow> string \<Rightarrow> string \<Rightarrow> nat \<Rightarrow> instant \<Rightarrow>
     selected_transport \<Rightarrow> transport_projection" where
  "new_projection C eng t claim fire_st folder app_name order now selected =
     (let ipc_endpoint = map_option socket_path (ipc eng);
          (reply_path, k, target) = (case selected of
             SelectedJson \<Rightarrow>
               (let fires = fires_dir (path_join (data_dir eng) ''slots'');
                    target = (case fire_slot_file eng of
                        Some name \<Rightarrow> path_join fires name
                      | None \<Rightarrow> path_join fires (fire_notification_name C (r_id claim)))
                in (Some (path_join folder (reply_file_name C (r_id claim))), KIND_FILE, target))
           | SelectedIpc \<Rightarrow> (None, KIND_IPC, ''ipc://'' @ uuid_text C (t_id t)));
          n = notification_new fire_st (kind_label (kind (t_occurrence t))) (t_id t) (t_name t)
                app_name (r_id claim) (r_scheduled_for claim) (r_claimed_at claim)
                (path_join folder STATUS_FILE_NAME) reply_path ipc_endpoint
      in \<lparr> p_run_id = r_id claim, p_timer_id = t_id t, p_kind = k, p_target_path = target,
           p_payload = notif_json C n, p_publication_order = order, p_state = PENDING,
           p_attempts = 0, p_next_attempt_at = now, p_created_at = now, p_published_at = None \<rparr>)"

text \<open>
  Documented behaviour of the crates: a simple id is 32 hexadecimal digits, an id reads back from
  its text, a written \<open>timer.json\<close> names its timer, a sanitized name has no separator.
\<close>

definition hex_digit :: "char \<Rightarrow> bool" where
  "hex_digit c \<longleftrightarrow> c \<in> set ''0123456789abcdefABCDEF''"

definition codec_ok :: "codec \<Rightarrow> bool" where
  "codec_ok C \<longleftrightarrow>
     (\<forall>i. uuid_parse C (uuid_text C i) = Some i) \<and>
     (\<forall>i. length (uuid_simple C i) = 32 \<and> (\<forall>c\<in>set (uuid_simple C i). hex_digit c)) \<and>
     (\<forall>v. timer_id_in C (timer_pretty C v) = Some (uuid_text C (tv_timer_id v))) \<and>
     (\<forall>s. CHR ''/'' \<notin> set (sanitize C s))"

end
