(* ===== verification/Timers_Tree.thy ===== *)
theory Timers_Tree
  imports Fire_Notification
begin

text \<open>
  The per-timer folders (\<open>tree/mod.rs\<close>): slugs, folder names, finding and allocating a timer's
  folder, \<open>timer.json\<close>, the reply stub, the status mirror, the orphan sweep. The state is the
  world with the regular files on disk and the names of the directories under the timers
  root, in \<open>read_dir\<close> order. Which file operations fail is the parameter \<open>faults\<close>; a failed
  operation leaves the files as they were. Temporary files, which an atomic write renames
  away, are not shown.
\<close>

record site = world +
  files :: "(path \<times> string) list"
  folders :: "string list"

record faults =
  gate_fails :: "uuid \<Rightarrow> bool"
  lock_fails :: "string \<Rightarrow> bool"
  quarantine_lock_fails :: bool
  read_fails :: "string \<Rightarrow> bool"
  write_fails :: "string \<Rightarrow> bool"
  mkdir_fails :: "string \<Rightarrow> bool"
  rmdir_fails :: "string \<Rightarrow> bool"
  list_fails :: "string \<Rightarrow> bool"
  special_file :: "string \<Rightarrow> string option"

definition no_faults :: faults where
  "no_faults = \<lparr> gate_fails = (\<lambda>_. False), lock_fails = (\<lambda>_. False), quarantine_lock_fails = False,
     read_fails = (\<lambda>_. False), write_fails = (\<lambda>_. False), mkdir_fails = (\<lambda>_. False),
     rmdir_fails = (\<lambda>_. False), list_fails = (\<lambda>_. False), special_file = (\<lambda>_. None) \<rparr>"

datatype tree_error = TreeIo string | TreeSerialize string | TreeStore store_error

section \<open>Files\<close>

definition file_at :: "'z site_scheme \<Rightarrow> path \<Rightarrow> string option" where
  "file_at w q = hm_get q (files w)"

definition file_exists :: "'z site_scheme \<Rightarrow> string \<Rightarrow> bool" where
  "file_exists w p \<longleftrightarrow> file_at w (path_of p) \<noteq> None"

definition file_put :: "string \<Rightarrow> string \<Rightarrow> 'z site_scheme \<Rightarrow> 'z site_scheme" where
  "file_put p bytes w = w\<lparr>files := hm_put (path_of p) bytes (files w)\<rparr>"

definition file_del :: "string \<Rightarrow> 'z site_scheme \<Rightarrow> 'z site_scheme" where
  "file_del p w = w\<lparr>files := hm_remove (path_of p) (files w)\<rparr>"

text \<open>The regular files directly in a directory, by name, and \<open>remove_dir_all\<close>.\<close>

definition names_in :: "'z site_scheme \<Rightarrow> string \<Rightarrow> string list" where
  "names_in w dir =
     (let (a, cs) = path_of dir in
      map (last \<circ> snd) (filter (\<lambda>(b, ds). b = a \<and> ds \<noteq> [] \<and> butlast ds = cs) (map fst (files w))))"

definition within :: "path \<Rightarrow> path \<Rightarrow> bool" where
  "within dir q \<longleftrightarrow> fst q = fst dir \<and> take (length (snd dir)) (snd q) = snd dir"

definition remove_dir_all :: "string \<Rightarrow> string \<Rightarrow> 'z site_scheme \<Rightarrow> 'z site_scheme" where
  "remove_dir_all root name w =
     w\<lparr>files := filter (\<lambda>f. \<not> within (path_of (path_join root name)) (fst f)) (files w),
       folders := filter (\<lambda>n. n \<noteq> name) (folders w)\<rparr>"

lemma file_at_put [simp]: "file_at (file_put p b w) q = (if q = path_of p then Some b else file_at w q)"
  by (simp add: file_at_def file_put_def)

lemma file_at_del [simp]: "file_at (file_del p w) q = (if q = path_of p then None else file_at w q)"
  by (simp add: file_at_def file_del_def)

lemma file_ops_frame [simp]:
  "db (file_put p b w) = db w" "draws (file_put p b w) = draws w" "folders (file_put p b w) = folders w"
  "db (file_del p w) = db w" "draws (file_del p w) = draws w" "folders (file_del p w) = folders w"
  by (simp_all add: file_put_def file_del_def)

section \<open>Slugs\<close>

text \<open>The stems of the reserved devices; the last of each group are the superscript digits in UTF-8.\<close>

definition RESERVED_STEMS :: "string list" where
  "RESERVED_STEMS =
     [''con'', ''prn'', ''aux'', ''nul'',
      ''com0'', ''com1'', ''com2'', ''com3'', ''com4'', ''com5'', ''com6'', ''com7'', ''com8'', ''com9'',
      ''com'' @ [CHR 0xC2, CHR 0xB9], ''com'' @ [CHR 0xC2, CHR 0xB2], ''com'' @ [CHR 0xC2, CHR 0xB3],
      ''lpt0'', ''lpt1'', ''lpt2'', ''lpt3'', ''lpt4'', ''lpt5'', ''lpt6'', ''lpt7'', ''lpt8'', ''lpt9'',
      ''lpt'' @ [CHR 0xC2, CHR 0xB9], ''lpt'' @ [CHR 0xC2, CHR 0xB2], ''lpt'' @ [CHR 0xC2, CHR 0xB3]]"

text \<open>
  Lower-casing the ASCII letters decides membership as \<open>to_lowercase\<close> does: no character
  outside ASCII lowers to a letter of a reserved stem.
\<close>

definition ascii_lower :: "char \<Rightarrow> char" where
  "ascii_lower c =
     (let n = (of_char c :: nat) in if 65 \<le> n \<and> n \<le> 90 then char_of (n + 32) else c)"

definition is_reserved_stem :: "string \<Rightarrow> bool" where
  "is_reserved_stem stem \<longleftrightarrow> map ascii_lower stem \<in> set RESERVED_STEMS"

definition trim_dots :: "string \<Rightarrow> string" where
  "trim_dots s = rev (dropWhile (\<lambda>c. c = CHR ''.'' \<or> c = CHR '' '') (rev s))"

definition slugify :: "codec \<Rightarrow> string \<Rightarrow> string" where
  "slugify C name =
     (let stripped = trim_dots (sanitize C name);
          slug = (if stripped = [] then ''timer'' else stripped);
          stem = takeWhile (\<lambda>c. c \<noteq> CHR ''.'') slug in
      if is_reserved_stem stem then ''_'' @ slug else slug)"

definition short_id :: "codec \<Rightarrow> uuid \<Rightarrow> string" where
  "short_id C i = take 4 (uuid_simple C i)"

definition folder_name :: "codec \<Rightarrow> string \<Rightarrow> uuid \<Rightarrow> string" where
  "folder_name C name i = slugify C name @ ''-'' @ short_id C i"

definition SUFFIX_LENS :: "nat list" where
  "SUFFIX_LENS = [4, 6, 8, 12, 16, 20, 28, 32]"

definition TIMER_FILE_NAME :: string where "TIMER_FILE_NAME = ''timer.json''"
definition TIMER_SCHEMA_V1 :: string where "TIMER_SCHEMA_V1 = ''bellman-timer/1''"

definition folder_timer_id :: "codec \<Rightarrow> faults \<Rightarrow> string \<Rightarrow> 'z site_scheme \<Rightarrow> string option" where
  "folder_timer_id C F folder w =
     (let p = path_join folder TIMER_FILE_NAME in
      if read_fails F p then None else Option.bind (file_at w (path_of p)) (timer_id_in C))"

text \<open>What follows the last dash; the whole name when there is none, which is then too long.\<close>

definition folder_suffix :: "string \<Rightarrow> string option" where
  "folder_suffix name =
     (let suffix = rev (takeWhile (\<lambda>c. c \<noteq> CHR ''-'') (rev name)) in
      if 4 \<le> length suffix \<and> length suffix \<le> 32 \<and> length suffix < length name \<and>
         (\<forall>c\<in>set suffix. hex_digit c)
      then Some suffix else None)"

definition starts_with :: "string \<Rightarrow> string \<Rightarrow> bool" where
  "starts_with s p \<longleftrightarrow> take (length p) s = p"

section \<open>The timer's folder\<close>

definition TREE_DIR_NAME :: string where "TREE_DIR_NAME = ''timers''"

definition tree_root :: "string \<Rightarrow> string" where
  "tree_root dir = path_join dir TREE_DIR_NAME"

definition folder_for ::
  "codec \<Rightarrow> faults \<Rightarrow> string \<Rightarrow> uuid \<Rightarrow> 'z site_scheme \<Rightarrow> string option" where
  "folder_for C F root i w =
     (if list_fails F root then None
      else
        let hex = uuid_simple C i;
            candidates = map (path_join root)
              (filter (\<lambda>n. case folder_suffix n of None \<Rightarrow> False | Some s \<Rightarrow> starts_with hex s) (folders w)) in
        case candidates of
          [] \<Rightarrow> None
        | [folder] \<Rightarrow>
            (case folder_timer_id C F folder w of
               Some tid \<Rightarrow> if tid \<noteq> uuid_text C i then None else Some folder
             | None \<Rightarrow> Some folder)
        | _ \<Rightarrow> List.find (\<lambda>p. folder_timer_id C F p w = Some (uuid_text C i)) candidates)"

fun allocate_try ::
  "codec \<Rightarrow> faults \<Rightarrow> string \<Rightarrow> string \<Rightarrow> uuid \<Rightarrow> nat list \<Rightarrow> 'z site_scheme \<Rightarrow>
     (tree_error + string) \<times> 'z site_scheme" where
  "allocate_try C F root slug i [] w =
     (Inl (TreeIo (''could not allocate a unique folder for timer '' @ uuid_text C i)), w)"
| "allocate_try C F root slug i (len # lens) w =
     (let name = slug @ ''-'' @ take len (uuid_simple C i); path = path_join root name in
      if mkdir_fails F path then (Inl (TreeIo path), w)
      else if name \<notin> set (folders w) then (Inr path, w\<lparr>folders := folders w @ [name]\<rparr>)
      else if folder_timer_id C F path w = Some (uuid_text C i) then (Inr path, w)
      else allocate_try C F root slug i lens w)"

definition allocate_folder ::
  "codec \<Rightarrow> faults \<Rightarrow> string \<Rightarrow> timer \<Rightarrow> 'z site_scheme \<Rightarrow> (tree_error + string) \<times> 'z site_scheme" where
  "allocate_folder C F root t w = allocate_try C F root (slugify C (t_name t)) (t_id t) SUFFIX_LENS w"

text \<open>\<open>atomic_write_json\<close>: the name is checked, then temp file and rename.\<close>

definition atomic_write ::
  "faults \<Rightarrow> string \<Rightarrow> string \<Rightarrow> string \<Rightarrow> 'z site_scheme \<Rightarrow> bool \<times> 'z site_scheme" where
  "atomic_write F dir name bytes w =
     (case safe_child_path dir name of
        Inl _ \<Rightarrow> (False, w)
      | Inr path \<Rightarrow> if write_fails F path then (False, w) else (True, file_put path bytes w))"

definition TIMER_NOTE :: string where
  "TIMER_NOTE = ''Written by Bellman. The database is the source of truth '' @
     [CHR 0xE2, CHR 0x80, CHR 0x94] @ '' editing this file has no effect.''"

definition timer_view_of :: "string option \<Rightarrow> timer \<Rightarrow> string option \<Rightarrow> timer_view" where
  "timer_view_of socket t owner = \<lparr>
     tv_schema = TIMER_SCHEMA_V1, tv_timer_id = t_id t, tv_name = t_name t, tv_enabled = t_enabled t,
     tv_tz = t_tz t, tv_occurrence = kind (t_occurrence t), tv_action = t_action t,
     tv_mode = transport_as_str (t_transport t), tv_note = TIMER_NOTE, tv_app_name = owner,
     tv_socket = socket, tv_next_fire_at = t_next_fire t \<rparr>"

definition write_timer_json ::
  "codec \<Rightarrow> faults \<Rightarrow> string option \<Rightarrow> string \<Rightarrow> timer \<Rightarrow> string option \<Rightarrow> 'z site_scheme \<Rightarrow>
     (tree_error + unit) \<times> 'z site_scheme" where
  "write_timer_json C F socket folder t owner w =
     (let (ok, w1) = atomic_write F folder TIMER_FILE_NAME (timer_pretty C (timer_view_of socket t owner)) w in
      (if ok then Inr () else Inl (TreeSerialize TIMER_FILE_NAME), w1))"

section \<open>Operations on the tree\<close>

definition README_FILE_NAME :: string where "README_FILE_NAME = ''README.txt''"

definition ensure_readme :: "codec \<Rightarrow> faults \<Rightarrow> string \<Rightarrow> 'z site_scheme \<Rightarrow> (tree_error + unit) \<times> 'z site_scheme" where
  "ensure_readme C F root w =
     (let path = path_join root README_FILE_NAME in
      if mkdir_fails F root then (Inl (TreeIo root), w)
      else if write_fails F path then (Inl (TreeIo path), w)
      else (Inr (), file_put path (readme_text C) w))"

text \<open>Sequencing of tree operations: the first error stops, the changes made stay.\<close>

definition bindT ::
  "('e + 'a) \<times> 's \<Rightarrow> ('a \<Rightarrow> 's \<Rightarrow> ('e + 'b) \<times> 's) \<Rightarrow> ('e + 'b) \<times> 's" where
  "bindT r f = (case fst r of Inl e \<Rightarrow> (Inl e, snd r) | Inr a \<Rightarrow> f a (snd r))"

definition create_for_timer ::
  "codec \<Rightarrow> faults \<Rightarrow> string option \<Rightarrow> string \<Rightarrow> timer \<Rightarrow> string option \<Rightarrow> 'z site_scheme \<Rightarrow>
     (tree_error + string) \<times> 'z site_scheme" where
  "create_for_timer C F socket root t owner w =
     bindT (ensure_readme C F root w) (\<lambda>_ w1.
     bindT (allocate_folder C F root t w1) (\<lambda>folder w2.
     bindT (write_timer_json C F socket folder t owner w2) (\<lambda>_ w3. (Inr folder, w3))))"

definition sync_timer_json ::
  "codec \<Rightarrow> faults \<Rightarrow> string option \<Rightarrow> string \<Rightarrow> timer \<Rightarrow> string option \<Rightarrow> 'z site_scheme \<Rightarrow>
     (tree_error + string) \<times> 'z site_scheme" where
  "sync_timer_json C F socket root t owner w =
     bindT (ensure_readme C F root w) (\<lambda>_ w1.
     bindT (case folder_for C F root (t_id t) w1 of
              Some folder \<Rightarrow> (Inr folder, w1)
            | None \<Rightarrow> allocate_folder C F root t w1) (\<lambda>folder w2.
     bindT (write_timer_json C F socket folder t owner w2) (\<lambda>_ w3. (Inr folder, w3))))"

text \<open>The last component of a folder's path is its name under the root.\<close>

definition base_name :: "string \<Rightarrow> string" where
  "base_name p = last (snd (path_of p))"

definition remove_for ::
  "codec \<Rightarrow> faults \<Rightarrow> string \<Rightarrow> uuid \<Rightarrow> 'z site_scheme \<Rightarrow> (tree_error + bool) \<times> 'z site_scheme" where
  "remove_for C F root i w =
     (case folder_for C F root i w of
        None \<Rightarrow> (Inr False, w)
      | Some folder \<Rightarrow>
          if rmdir_fails F folder then (Inl (TreeIo folder), w)
          else (Inr True, remove_dir_all root (base_name folder) w))"

text \<open>Create-only: an existing file is left as it is.\<close>

definition create_reply_stub ::
  "codec \<Rightarrow> faults \<Rightarrow> string \<Rightarrow> uuid \<Rightarrow> string \<Rightarrow> 'z site_scheme \<Rightarrow> (tree_error + string) \<times> 'z site_scheme" where
  "create_reply_stub C F folder run_id app_name w =
     (let path = path_join folder (reply_file_name C run_id) in
      if file_exists w path then (Inr path, w)
      else if write_fails F path then (Inl (TreeIo path), w)
      else (Inr path, file_put path (stub_bytes C run_id app_name) w))"

definition is_reply_name :: "string \<Rightarrow> bool" where
  "is_reply_name name \<longleftrightarrow> starts_with name ''reply-'' \<and> starts_with (rev name) (rev ''.json'')"

fun delete_names :: "string \<Rightarrow> string list \<Rightarrow> 'z site_scheme \<Rightarrow> 'z site_scheme" where
  "delete_names folder [] w = w"
| "delete_names folder (n # ns) w = delete_names folder ns (file_del (path_join folder n) w)"

definition remove_stale_replies ::
  "codec \<Rightarrow> faults \<Rightarrow> string \<Rightarrow> uuid \<Rightarrow> 'z site_scheme \<Rightarrow> (tree_error + unit) \<times> 'z site_scheme" where
  "remove_stale_replies C F folder keep_run w =
     (if list_fails F folder then (Inl (TreeIo folder), w)
      else (Inr (), delete_names folder
             (filter (\<lambda>n. is_reply_name n \<and> n \<noteq> reply_file_name C keep_run) (names_in w folder)) w))"

definition write_status ::
  "codec \<Rightarrow> faults \<Rightarrow> string \<Rightarrow> timer \<Rightarrow> run_status \<Rightarrow> 'z site_scheme \<Rightarrow> (tree_error + unit) \<times> 'z site_scheme" where
  "write_status C F root t status w =
     (case folder_for C F root (t_id t) w of
        None \<Rightarrow> (Inr (), w)
      | Some folder \<Rightarrow>
          let (ok, w1) = atomic_write F folder STATUS_FILE_NAME (status_pretty C status) w in
          (if ok then Inr () else Inl (TreeSerialize STATUS_FILE_NAME), w1))"

text \<open>
  The orphan sweep: a folder is kept when its \<open>timer.json\<close> names a live timer or, without a
  readable one, when some live id starts with its suffix.
\<close>

definition folder_alive :: "codec \<Rightarrow> faults \<Rightarrow> string \<Rightarrow> uuid list \<Rightarrow> string \<Rightarrow> string \<Rightarrow> 'z site_scheme \<Rightarrow> bool" where
  "folder_alive C F path live_ids suffix name w =
     (case folder_timer_id C F path w of
        Some tid \<Rightarrow> (\<exists>i\<in>set live_ids. uuid_text C i = tid)
      | None \<Rightarrow> (\<exists>i\<in>set live_ids. starts_with (uuid_simple C i) suffix))"

fun sweep_folders ::
  "codec \<Rightarrow> faults \<Rightarrow> string \<Rightarrow> uuid list \<Rightarrow> string list \<Rightarrow> string list \<Rightarrow> 'z site_scheme \<Rightarrow>
     (tree_error + string list) \<times> 'z site_scheme" where
  "sweep_folders C F root live_ids [] removed w = (Inr removed, w)"
| "sweep_folders C F root live_ids (name # names) removed w =
     (let path = path_join root name in
      case folder_suffix name of
        None \<Rightarrow> sweep_folders C F root live_ids names removed w
      | Some suffix \<Rightarrow>
          if folder_alive C F path live_ids suffix name w
          then sweep_folders C F root live_ids names removed w
          else if rmdir_fails F path then (Inl (TreeIo path), w)
          else sweep_folders C F root live_ids names (removed @ [path]) (remove_dir_all root name w))"

definition sweep_orphans ::
  "codec \<Rightarrow> faults \<Rightarrow> string \<Rightarrow> uuid list \<Rightarrow> 'z site_scheme \<Rightarrow> (tree_error + string list) \<times> 'z site_scheme" where
  "sweep_orphans C F root live_ids w =
     (if list_fails F root then (Inl (TreeIo root), w)
      else sweep_folders C F root live_ids (folders w) [] w)"

fun sync_each ::
  "codec \<Rightarrow> faults \<Rightarrow> string option \<Rightarrow> string \<Rightarrow> timer list \<Rightarrow> nat \<Rightarrow> 'z site_scheme \<Rightarrow>
     (tree_error + nat) \<times> 'z site_scheme" where
  "sync_each C F socket root [] synced w = (Inr synced, w)"
| "sync_each C F socket root (t # ts) synced w =
     bindT (sync_timer_json C F socket root t (get_timer_owner (db w) (t_id t)) w)
       (\<lambda>_ w1. sync_each C F socket root ts (synced + 1) w1)"

definition reconcile_folders ::
  "codec \<Rightarrow> faults \<Rightarrow> string option \<Rightarrow> string \<Rightarrow> 'z site_scheme \<Rightarrow> (tree_error + nat) \<times> 'z site_scheme" where
  "reconcile_folders C F socket root w =
     (let (ts, s) = list_timers (db w) in sync_each C F socket root ts 0 (w\<lparr>db := s\<rparr>))"

end
