(* ===== verification/Publication.thy ===== *)
theory Publication
  imports Timers_Tree
begin

text \<open>
  \<open>reply/publication.rs\<close>: delivering fire notifications, on the store and the files of
  \<open>Timers_Tree\<close>. An attempt answers its outcome and the new state.
\<close>

datatype attempt = Published | Deferred | ObsoleteHint

definition MAX_BACKOFF_SECS :: nat where "MAX_BACKOFF_SECS = 60"
definition MAX_ATTEMPTS :: nat where "MAX_ATTEMPTS = 16"

definition with_db :: "(store \<Rightarrow> store) \<Rightarrow> 'z world_scheme \<Rightarrow> 'z world_scheme" where
  "with_db f w = w\<lparr>db := f (db w)\<rparr>"

definition mark_obsolete :: "transport_projection \<Rightarrow> 'z world_scheme \<Rightarrow> attempt \<times> 'z world_scheme" where
  "mark_obsolete p w = (ObsoleteHint, with_db (mark_transport_obsolete (p_run_id p)) w)"

section \<open>Backoff\<close>

definition backoff_secs :: "nat \<Rightarrow> nat" where
  "backoff_secs attempts = min (2 ^ min attempts 6) MAX_BACKOFF_SECS"

definition defer_attempt ::
  "env \<Rightarrow> transport_projection \<Rightarrow> 'z world_scheme \<Rightarrow> (attempt \<times> 'z world_scheme) exec" where
  "defer_attempt E p w =
     (let attempts = sat_succ u32_max (p_attempts p) in
      if MAX_ATTEMPTS < attempts then ret (mark_obsolete p w)
      else
        do { nxt \<leftarrow> instant_add (env_lib E) (utc_now E (draws w)) (int (backoff_secs attempts) * sec_ns);
             ret (Deferred, with_db (defer_transport_projection (p_run_id p) attempts nxt)
               (w\<lparr>draws := draws w + 1\<rparr>)) })"

section \<open>The file adapter\<close>

definition mark_published :: "env \<Rightarrow> transport_projection \<Rightarrow> 'z world_scheme \<Rightarrow> attempt \<times> 'z world_scheme" where
  "mark_published E p w =
     (Published, with_db (mark_transport_published (utc_now E (draws w)) (p_run_id p))
       (w\<lparr>draws := draws w + 1\<rparr>))"

definition write_target ::
  "env \<Rightarrow> codec \<Rightarrow> faults \<Rightarrow> transport_projection \<Rightarrow> fire_notification \<Rightarrow> 'z site_scheme \<Rightarrow>
     (attempt \<times> 'z site_scheme) exec" where
  "write_target E C F p n w =
     (case path_parent (p_target_path p) of
        None \<Rightarrow> ret (mark_obsolete p w)
      | Some dir \<Rightarrow>
          (case path_file_name (p_target_path p) of
             None \<Rightarrow> ret (mark_obsolete p w)
           | Some name \<Rightarrow>
               (let (ok, w1) = atomic_write F dir name (notif_pretty C n) w in
                if ok then ret (mark_published E p w1) else defer_attempt E p w1)))"

text \<open>The part of \<open>attempt\<close> after the run files were found.\<close>

definition attempt_file ::
  "env \<Rightarrow> codec \<Rightarrow> faults \<Rightarrow> transport_projection \<Rightarrow> fire_notification \<Rightarrow> 'z site_scheme \<Rightarrow>
     (attempt \<times> 'z site_scheme) exec" where
  "attempt_file E C F p n w =
     (let reply_missing = (case f_reply_path n of None \<Rightarrow> True | Some q \<Rightarrow> \<not> file_exists w q) in
      if \<not> file_exists w (f_status_path n) \<or> reply_missing then defer_attempt E p w
      else if gate_fails F (p_timer_id p) then defer_attempt E p w
      else if lock_fails F (p_target_path p) then defer_attempt E p w
      else if read_fails F (p_target_path p) then defer_attempt E p w
      else
        case file_at w (path_of (p_target_path p)) of
          None \<Rightarrow> write_target E C F p n w
        | Some bytes \<Rightarrow>
            (case notif_parse C bytes of
               None \<Rightarrow> write_target E C F p n w
             | Some cur \<Rightarrow>
                 if f_run_id cur = p_run_id p then defer_attempt E p w
                 else
                   case transport_projection_of (db w) (f_run_id cur) of
                     Some newer \<Rightarrow>
                       if p_publication_order p < p_publication_order newer
                       then ret (mark_obsolete p w)
                       else write_target E C F p n w
                   | None \<Rightarrow> write_target E C F p n w))"

text \<open>\<open>attempt\<close> on a projection that is not for the socket: payload, cursor, file.\<close>

definition attempt_by_file ::
  "env \<Rightarrow> codec \<Rightarrow> faults \<Rightarrow> transport_projection \<Rightarrow> 'z site_scheme \<Rightarrow> (attempt \<times> 'z site_scheme) exec" where
  "attempt_by_file E C F p w =
     (case notif_parse C (p_payload p) of
        None \<Rightarrow> ret (mark_obsolete p w)
      | Some n \<Rightarrow>
          if p_publication_order p < target_cursor (db w) (p_target_path p) then ret (mark_obsolete p w)
          else attempt_file E C F p n w)"

section \<open>Pickup\<close>

definition has_pickup_signal :: "run_state_row \<Rightarrow> bool" where
  "has_pickup_signal row \<longleftrightarrow>
     s_acknowledged_at row \<noteq> None \<or> s_heartbeat_at row \<noteq> None \<or> s_completed_at row \<noteq> None \<or>
     s_failed_at row \<noteq> None \<or> s_progress row \<noteq> None"

text \<open>The file is deleted unless it now carries another run; an unreadable file is deleted.\<close>

definition record_pickup ::
  "codec \<Rightarrow> faults \<Rightarrow> transport_projection \<Rightarrow> 'z site_scheme \<Rightarrow> 'z site_scheme" where
  "record_pickup C F p w =
     (let w1 = with_db (mark_transport_picked_up (p_run_id p)) w;
          target = p_target_path p in
      if \<not> file_exists w1 target then w1
      else if gate_fails F (p_timer_id p) then w1
      else if lock_fails F target then w1
      else
        let keep = (if read_fails F target then False
                    else case Option.bind (file_at w1 (path_of target)) (notif_parse C) of
                           None \<Rightarrow> False | Some cur \<Rightarrow> f_run_id cur \<noteq> p_run_id p) in
        if keep then w1 else file_del target w1)"

definition record_run_pickup :: "codec \<Rightarrow> faults \<Rightarrow> uuid \<Rightarrow> 'z site_scheme \<Rightarrow> 'z site_scheme" where
  "record_run_pickup C F run_id w =
     (case transport_projection_of (db w) run_id of
        None \<Rightarrow> w
      | Some p \<Rightarrow> if p_state p = PENDING \<or> p_state p = PUBLISHED then record_pickup C F p w else w)"

definition record_no_ack :: "uuid \<Rightarrow> 'z world_scheme \<Rightarrow> 'z world_scheme" where
  "record_no_ack run_id w = with_db (mark_transport_obsolete run_id) w"

section \<open>The socket adapter and its fallback\<close>

text \<open>The failure of the projection is printed and otherwise ignored.\<close>

definition reproject_status ::
  "codec \<Rightarrow> faults \<Rightarrow> string \<Rightarrow> transport_projection \<Rightarrow> 'z site_scheme \<Rightarrow> 'z site_scheme" where
  "reproject_status C F dir p w =
     (case (get_timer (db w) (p_timer_id p), get_run_state (db w) (p_run_id p), get_run (db w) (p_run_id p)) of
        (Some t, Some row, Some claim) \<Rightarrow> snd (write_status C F (tree_root dir) t (status_from_run_state t claim row) w)
      | _ \<Rightarrow> w)"

definition ipc_fallback ::
  "env \<Rightarrow> codec \<Rightarrow> faults \<Rightarrow> string \<Rightarrow> transport_projection \<Rightarrow> fire_notification \<Rightarrow> 'z site_scheme \<Rightarrow>
     (attempt \<times> 'z site_scheme) exec" where
  "ipc_fallback E C F dir p n w =
     (case (folder_for C F (tree_root dir) (p_timer_id p) w, get_run_state (db w) (p_run_id p)) of
        (Some folder, Some row) \<Rightarrow>
          let (stub, w1) = create_reply_stub C F folder (p_run_id p) (s_app_name row) w in
          if (case stub of Inl _ \<Rightarrow> True | Inr _ \<Rightarrow> False) then defer_attempt E p w1
          else
            let m = n\<lparr>f_reply_path := Some (path_join folder (reply_file_name C (p_run_id p)))\<rparr>;
                payload = notif_json C m;
                target = path_join (fires_dir (path_join dir ''slots'')) (fire_notification_name C (p_run_id p));
                (converted, db2) = convert_projection_to_file (p_run_id p) target payload (db w1);
                w2 = w1\<lparr>db := db2\<rparr> in
            if \<not> converted then ret (Published, w2)
            else
              let w3 = with_db (set_run_transport (p_run_id p) TRANSPORT_IPC_FALLBACK) w2;
                  w4 = reproject_status C F dir p w3 in
              case transport_projection_of (db w4) (p_run_id p) of
                Some q \<Rightarrow> attempt_by_file E C F q w4
              | None \<Rightarrow> ret (Deferred, w4)
      | _ \<Rightarrow> defer_attempt E p w)"

definition is_auto :: "store \<Rightarrow> uuid \<Rightarrow> bool" where
  "is_auto s timer_id = (case get_timer s timer_id of None \<Rightarrow> False | Some t \<Rightarrow> t_transport t = TAuto)"

definition attempt_ipc ::
  "env \<Rightarrow> codec \<Rightarrow> faults \<Rightarrow> string \<Rightarrow> transport_projection \<Rightarrow> fire_notification \<Rightarrow> ipc_handle option \<Rightarrow>
     'z site_scheme \<Rightarrow> (attempt \<times> 'z site_scheme) exec" where
  "attempt_ipc E C F dir p n handle w =
     (if \<not> file_exists w (f_status_path n) then defer_attempt E p w
      else if (case get_run_state (db w) (p_run_id p) of None \<Rightarrow> False | Some row \<Rightarrow> has_pickup_signal row)
      then ret (Published, record_pickup C F p w)
      else
        case handle of
          None \<Rightarrow> defer_attempt E p w
        | Some h \<Rightarrow>
            (case ipc_send h (p_timer_id p) (p_payload p) of
               Queued \<Rightarrow> ret (mark_published E p w)
             | NoClient \<Rightarrow>
                 if is_auto (db w) (p_timer_id p) then ipc_fallback E C F dir p n w
                 else defer_attempt E p w))"

definition attempt_publication ::
  "env \<Rightarrow> codec \<Rightarrow> faults \<Rightarrow> string \<Rightarrow> transport_projection \<Rightarrow> ipc_handle option \<Rightarrow> 'z site_scheme \<Rightarrow>
     (attempt \<times> 'z site_scheme) exec" where
  "attempt_publication E C F dir p handle w =
     (case notif_parse C (p_payload p) of
        None \<Rightarrow> ret (mark_obsolete p w)
      | Some n \<Rightarrow>
          if p_publication_order p < target_cursor (db w) (p_target_path p) then ret (mark_obsolete p w)
          else if p_kind p = KIND_IPC then attempt_ipc E C F dir p n handle w
          else attempt_file E C F p n w)"

section \<open>The pump and the pickup sweep\<close>

definition sweep_one ::
  "env \<Rightarrow> codec \<Rightarrow> faults \<Rightarrow> string \<Rightarrow> ipc_handle option \<Rightarrow> transport_projection \<Rightarrow> 'z site_scheme \<Rightarrow>
     'z site_scheme exec" where
  "sweep_one E C F dir handle p w =
     (case get_run (db w) (p_run_id p) of
        None \<Rightarrow> ret w
      | Some claim \<Rightarrow>
          let row = get_run_state (db w) (p_run_id p);
              acked = (r_event_sequence claim \<le> last_acked_sequence (db w) (p_timer_id p));
              replied = (case row of None \<Rightarrow> False | Some r \<Rightarrow> has_pickup_signal r);
              no_ack = (case row of None \<Rightarrow> False | Some r \<Rightarrow> s_no_ack_at r \<noteq> None);
              gone = (case handle of None \<Rightarrow> True | Some h \<Rightarrow> \<not> has_client h (p_timer_id p)) in
          if acked \<or> replied then ret (record_pickup C F p w)
          else if no_ack then ret (record_no_ack (p_run_id p) w)
          else if p_kind p = KIND_IPC \<and> p_state p = PUBLISHED \<and> gone then
            (if is_auto (db w) (p_timer_id p) then
               (case notif_parse C (p_payload p) of
                  None \<Rightarrow> ret w
                | Some n \<Rightarrow> do { (_, w') \<leftarrow> ipc_fallback E C F dir p n w; ret w' })
             else ret (with_db (requeue_transport_projection (utc_now E (draws w)) (p_run_id p))
                    (w\<lparr>draws := draws w + 1\<rparr>)))
          else if p_kind p = KIND_FILE \<and> p_state p = PUBLISHED \<and> \<not> file_exists w (p_target_path p)
          then ret (with_db (requeue_transport_projection (utc_now E (draws w)) (p_run_id p))
                    (w\<lparr>draws := draws w + 1\<rparr>))
          else ret w)"

fun sweep_each ::
  "env \<Rightarrow> codec \<Rightarrow> faults \<Rightarrow> string \<Rightarrow> ipc_handle option \<Rightarrow> transport_projection list \<Rightarrow>
     'z site_scheme \<Rightarrow> 'z site_scheme exec" where
  "sweep_each E C F dir handle [] w = ret w"
| "sweep_each E C F dir handle (p # ps) w =
     do { w' \<leftarrow> sweep_one E C F dir handle p w; sweep_each E C F dir handle ps w' }"

definition sweep_pickups ::
  "env \<Rightarrow> codec \<Rightarrow> faults \<Rightarrow> string \<Rightarrow> nat \<Rightarrow> ipc_handle option \<Rightarrow> 'z site_scheme \<Rightarrow> 'z site_scheme exec" where
  "sweep_pickups E C F dir limit handle w =
     sweep_each E C F dir handle (live_transport_projections (db w) limit) w"

fun attempt_each ::
  "env \<Rightarrow> codec \<Rightarrow> faults \<Rightarrow> string \<Rightarrow> ipc_handle option \<Rightarrow> transport_projection list \<Rightarrow>
     'z site_scheme \<Rightarrow> 'z site_scheme exec" where
  "attempt_each E C F dir handle [] w = ret w"
| "attempt_each E C F dir handle (p # ps) w =
     do { (_, w') \<leftarrow> attempt_publication E C F dir p handle w; attempt_each E C F dir handle ps w' }"

definition pump ::
  "env \<Rightarrow> codec \<Rightarrow> faults \<Rightarrow> string \<Rightarrow> nat \<Rightarrow> ipc_handle option \<Rightarrow> 'z site_scheme \<Rightarrow> (nat \<times> 'z site_scheme) exec" where
  "pump E C F dir limit handle w =
     (let due = due_transport_projections (db w) (utc_now E (draws w)) limit in
      do { w1 \<leftarrow> attempt_each E C F dir handle due (w\<lparr>draws := draws w + 1\<rparr>);
           w2 \<leftarrow> sweep_pickups E C F dir limit handle w1;
           ret (length due, w2) })"

end
