(* ===== verification/Path_Laws.thy ===== *)
theory Path_Laws
  imports Fire_Notification
begin

text \<open>
  Laws of paths: splitting and joining, the path of a child of a directory, the parent of a
  path, the round trip from components to text.
\<close>

lemma split_slash_nonempty: "split_slash s \<noteq> []"
  by (induction s) (auto split: list.splits)

lemma split_slash_append: "split_slash (a @ CHR ''/'' # b) = split_slash a @ split_slash b"
  by (induction a) (auto split: list.splits simp: split_slash_nonempty)

lemma split_slash_plain: "CHR ''/'' \<notin> set s \<Longrightarrow> split_slash s = [s]"
  by (induction s) auto

definition ordinary :: "string \<Rightarrow> bool" where
  "ordinary name \<longleftrightarrow> name \<noteq> [] \<and> CHR ''/'' \<notin> set name \<and> name \<noteq> ''.''"

text \<open>The names \<open>safe_child_path\<close> accepts.\<close>

definition plain_name :: "string \<Rightarrow> bool" where
  "plain_name name \<longleftrightarrow>
     name \<noteq> [] \<and> CHR 0x00 \<notin> set name \<and> CHR ''/'' \<notin> set name \<and> CHR 0x5C \<notin> set name \<and>
     name \<noteq> ''.'' \<and> \<not> has_dots name"

lemma plain_ordinary: "plain_name name \<Longrightarrow> ordinary name"
  by (simp add: plain_name_def ordinary_def)

lemma ordinary_path:
  assumes "ordinary name" shows "path_of name = (False, [name])"
  using assms by (cases name) (auto simp: ordinary_def path_of_def split_slash_plain Let_def)

lemma path_of_append:
  assumes "CHR ''/'' \<notin> set name" "name \<noteq> []" "name \<noteq> ''.''" "dir \<noteq> []"
  shows "path_of (dir @ ''/'' @ name) = (fst (path_of dir), snd (path_of dir) @ [name])"
  using assms split_slash_nonempty [of dir]
  by (auto simp: path_of_def split_slash_append split_slash_plain Let_def)

lemma path_of_trailing:
  assumes "d \<noteq> []" shows "path_of (d @ ''/'') = path_of d"
  using assms split_slash_nonempty [of d]
  by (auto simp: path_of_def split_slash_append Let_def)

lemma path_of_join:
  assumes "ordinary name"
  shows "path_of (path_join dir name) = (fst (path_of dir), snd (path_of dir) @ [name])"
proof -
  from assms have n: "CHR ''/'' \<notin> set name" "name \<noteq> []" "name \<noteq> ''.''" by (auto simp: ordinary_def)
  then have hd: "hd name \<noteq> CHR ''/''" by (cases name) auto
  consider "dir = []" | d where "dir = d @ ''/''" | "dir \<noteq> []" "last dir \<noteq> CHR ''/''"
    by (metis append_butlast_last_id)
  then show ?thesis
  proof cases
    case 1
    with n hd assms show ?thesis by (simp add: path_join_def ordinary_path) (simp add: path_of_def)
  next
    case (2 d)
    show ?thesis
    proof (cases "d = []")
      case True
      with 2 n hd show ?thesis
        by (auto simp: path_join_def path_of_def split_slash_plain Let_def)
    next
      case False
      with 2 hd path_of_append [of name d] n show ?thesis
        by (simp add: path_join_def path_of_trailing)
    qed
  next
    case 3
    with hd path_of_append [of name dir] n show ?thesis by (simp add: path_join_def)
  qed
qed

definition canonical :: "path \<Rightarrow> bool" where
  "canonical p \<longleftrightarrow>
     (\<forall>c\<in>set (snd p). c \<noteq> [] \<and> CHR ''/'' \<notin> set c) \<and>
     (\<forall>c\<in>set (if fst p then snd p else tl (snd p)). c \<noteq> ''.'')"

lemma split_slash_pieces: "c \<in> set (split_slash s) \<Longrightarrow> CHR ''/'' \<notin> set c"
  by (induction s arbitrary: c) (auto split: if_splits list.splits)

lemma path_of_canonical: "canonical (path_of p)"
proof -
  define inner where "inner = filter (\<lambda>c. c \<noteq> [] \<and> c \<noteq> ''.'') (split_slash p)"
  have inner: "\<forall>c\<in>set inner. c \<noteq> [] \<and> CHR ''/'' \<notin> set c \<and> c \<noteq> ''.''"
    using split_slash_pieces by (auto simp: inner_def)
  then have "\<forall>c\<in>set (tl inner). c \<noteq> ''.''" by (cases inner) auto
  with inner show ?thesis
    by (simp add: canonical_def path_of_def Let_def flip: inner_def)
qed

lemma split_join_slash: "cs \<noteq> [] \<Longrightarrow> \<forall>c\<in>set cs. CHR ''/'' \<notin> set c \<Longrightarrow> split_slash (join_slash cs) = cs"
  by (induction cs rule: join_slash.induct) (auto simp: split_slash_plain split_slash_append)

lemma hd_join_slash: "cs \<noteq> [] \<Longrightarrow> hd cs \<noteq> [] \<Longrightarrow> join_slash cs \<noteq> [] \<and> hd (join_slash cs) = hd (hd cs)"
  by (induction cs rule: join_slash.induct) auto

lemma path_of_text:
  assumes "canonical p" shows "path_of (path_text p) = p"
proof -
  obtain a cs where p: "p = (a, cs)" by (cases p)
  from assms p have ok: "\<forall>c\<in>set cs. c \<noteq> [] \<and> CHR ''/'' \<notin> set c" by (simp add: canonical_def)
  show ?thesis
  proof (cases cs)
    case Nil
    with p show ?thesis by (cases a) (simp_all add: path_text_def path_of_def)
  next
    case (Cons c rest)
    with ok have split: "split_slash (join_slash cs) = cs" by (simp add: split_join_slash)
    from Cons ok have hd: "join_slash cs \<noteq> []" "hd (join_slash cs) \<noteq> CHR ''/''"
      using hd_join_slash [of cs] by (simp, metis hd_in_set hd_join_slash list.sel(1) list.set_intros(1) neq_Nil_conv)
    show ?thesis
    proof (cases a)
      case True
      with assms p ok have "filter (\<lambda>c. c \<noteq> [] \<and> c \<noteq> ''.'') cs = cs"
        by (auto simp: canonical_def filter_id_conv)
      with True p split show ?thesis by (simp add: path_text_def path_of_def)
    next
      case False
      with assms p ok Cons have "filter (\<lambda>c. c \<noteq> [] \<and> c \<noteq> ''.'') rest = rest"
        by (auto simp: canonical_def filter_id_conv)
      with False p ok split hd Cons show ?thesis by (auto simp: path_text_def path_of_def Let_def)
    qed
  qed
qed

lemma canonical_butlast: "canonical (a, cs) \<Longrightarrow> canonical (a, butlast cs)"
  by (cases a) (auto simp: canonical_def butlast_tl [symmetric] dest: in_set_butlastD)

lemma path_parent_of:
  assumes "path_of p = (a, cs @ [c])"
  shows "map_option path_of (path_parent p) = Some (a, cs)"
  using assms canonical_butlast [of a "cs @ [c]"] path_of_canonical [of p]
  by (simp add: path_parent_def path_of_text)

section \<open>Safe children\<close>

lemma safe_child_path_plain:
  assumes "plain_name name" shows "safe_child_path dir name = Inr (path_join dir name)"
proof -
  have j: "path_of (path_join dir name) = (fst (path_of dir), snd (path_of dir) @ [name])"
    by (rule path_of_join [OF plain_ordinary [OF assms]])
  from assms have n: "name \<noteq> ''..''" "name \<noteq> ''.''" by (auto simp: plain_name_def)
  then have "path_file_name (path_join dir name) = Some name"
    by (simp add: path_file_name_def j)
  moreover have "map_option path_of (path_parent (path_join dir name)) = Some (path_of dir)"
    using path_parent_of [OF j] by simp
  ultimately show ?thesis
    using assms n ordinary_path [OF plain_ordinary [OF assms]]
    by (simp add: safe_child_path_def plain_name_def Let_def)
qed

lemma safe_child_path_Inr:
  assumes "safe_child_path dir name = Inr p" shows "plain_name name" "p = path_join dir name"
proof -
  show "plain_name name"
    using assms by (auto simp: safe_child_path_def plain_name_def split: if_splits)
  with assms safe_child_path_plain [of name dir] show "p = path_join dir name" by simp
qed

end
