(* ===== verification/Tree_Properties.thy ===== *)
theory Tree_Properties
  imports Timers_Tree Path_Laws Reply_Properties
begin

text \<open>
  The properties of the per-timer folders (\<open>tree/mod.rs\<close>): portable slugs, one stable folder per
  timer, the orphan sweep.
\<close>

section \<open>Slugs\<close>

lemma trim_dots_set: "set (trim_dots s) \<subseteq> set s"
  using set_dropWhileD by (fastforce simp: trim_dots_def)

lemma trim_dots_last: "trim_dots s \<noteq> [] \<Longrightarrow> last (trim_dots s) \<noteq> CHR ''.'' \<and> last (trim_dots s) \<noteq> CHR '' ''"
  unfolding trim_dots_def using hd_dropWhile [of "\<lambda>c. c = CHR ''.'' \<or> c = CHR '' ''" "rev s"]
  by (auto simp: last_rev)

lemma reserved_head: "is_reserved_stem stem \<Longrightarrow> \<exists>c. hd stem = c \<and> ascii_lower c \<in> set ''cpanl''"
  by (cases stem) (auto simp: is_reserved_stem_def RESERVED_STEMS_def)

lemma underscore_free: "\<not> is_reserved_stem (CHR ''_'' # s)"
  using reserved_head [of "CHR ''_'' # s"] by (auto simp: ascii_lower_def Let_def)

text \<open>A slug is portable: it is not empty, does not end in a dot or a space, and its stem before
  the first dot is no reserved device name; its characters come from the sanitized name, the
  fallback \<open>timer\<close> or the escaping underscore.\<close>

theorem slug_portable:
  "slugify C name \<noteq> [] \<and>
   last (slugify C name) \<notin> {CHR ''.'', CHR '' ''} \<and>
   \<not> is_reserved_stem (takeWhile (\<lambda>c. c \<noteq> CHR ''.'') (slugify C name)) \<and>
   set (slugify C name) \<subseteq> set (sanitize C name) \<union> set ''timer'' \<union> {CHR ''_''}"
proof -
  define slug where "slug = (if trim_dots (sanitize C name) = [] then ''timer'' else trim_dots (sanitize C name))"
  have s: "slugify C name =
      (if is_reserved_stem (takeWhile (\<lambda>c. c \<noteq> CHR ''.'') slug) then CHR ''_'' # slug else slug)"
    by (simp add: slugify_def slug_def Let_def)
  have "slug \<noteq> []" "last slug \<notin> {CHR ''.'', CHR '' ''}"
      "set slug \<subseteq> set (sanitize C name) \<union> set ''timer''"
    using trim_dots_last [of "sanitize C name"] trim_dots_set [of "sanitize C name"]
    by (auto simp: slug_def)
  then show ?thesis unfolding s by (auto simp: underscore_free)
qed

section \<open>One folder per timer\<close>

text \<open>The id text a folder's \<open>timer.json\<close> carries, when the file can be read.\<close>

definition names_timer :: "codec \<Rightarrow> string \<Rightarrow> 'z site_scheme \<Rightarrow> string \<Rightarrow> string option" where
  "names_timer C root w n =
     Option.bind (file_at w (path_of (path_join (path_join root n) TIMER_FILE_NAME))) (timer_id_in C)"

definition tree_ok :: "codec \<Rightarrow> string \<Rightarrow> 'z site_scheme \<Rightarrow> bool" where
  "tree_ok C root w \<longleftrightarrow>
     distinct (folders w) \<and>
     (\<forall>n\<in>set (folders w). ordinary n) \<and>
     (\<forall>n. ordinary n \<longrightarrow> n \<notin> set (folders w) \<longrightarrow> names_timer C root w n = None) \<and>
     (\<forall>n\<in>set (folders w). \<forall>i. names_timer C root w n = Some (uuid_text C i) \<longrightarrow>
        (\<exists>s. folder_suffix n = Some s \<and> starts_with (uuid_simple C i) s)) \<and>
     (\<forall>n\<in>set (folders w). \<forall>m\<in>set (folders w). \<forall>x.
        names_timer C root w n = Some x \<longrightarrow> names_timer C root w m = Some x \<longrightarrow> n = m)"

definition readable :: "faults \<Rightarrow> bool" where
  "readable F \<longleftrightarrow> (\<forall>p. \<not> read_fails F p) \<and> (\<forall>p. \<not> list_fails F p)"

lemma folder_timer_readable:
  "readable F \<Longrightarrow> folder_timer_id C F (path_join root n) w = names_timer C root w n"
  by (simp add: readable_def folder_timer_id_def names_timer_def Let_def)

lemma timer_file_ordinary [simp]: "ordinary TIMER_FILE_NAME" "ordinary README_FILE_NAME" "TIMER_FILE_NAME \<noteq> README_FILE_NAME"
  by (simp_all add: ordinary_def TIMER_FILE_NAME_def README_FILE_NAME_def)

lemma timer_file_path:
  assumes "ordinary n"
  shows "path_of (path_join (path_join root n) TIMER_FILE_NAME) =
    (fst (path_of root), snd (path_of root) @ [n, TIMER_FILE_NAME])"
  using assms by (simp add: path_of_join)

lemma uuid_text_inj: "codec_ok C \<Longrightarrow> uuid_text C i = uuid_text C j \<longleftrightarrow> i = j"
  unfolding codec_ok_def by (metis option.inject)

text \<open>The candidates of an id, and what the lookup answers.\<close>

definition is_candidate :: "codec \<Rightarrow> uuid \<Rightarrow> string \<Rightarrow> bool" where
  "is_candidate C i n = (case folder_suffix n of None \<Rightarrow> False | Some s \<Rightarrow> starts_with (uuid_simple C i) s)"

lemma folder_for_eq:
  "readable F \<Longrightarrow> folder_for C F root i w =
    (let cs = filter (is_candidate C i) (folders w) in
     case cs of
       [] \<Rightarrow> None
     | [n] \<Rightarrow> (case names_timer C root w n of
                Some tid \<Rightarrow> if tid \<noteq> uuid_text C i then None else Some (path_join root n)
              | None \<Rightarrow> Some (path_join root n))
     | _ \<Rightarrow> map_option (path_join root) (List.find (\<lambda>n. names_timer C root w n = Some (uuid_text C i)) cs))"
proof -
  assume r: "readable F"
  then have l: "\<not> list_fails F root" by (simp add: readable_def)
  have f: "List.find (\<lambda>p. folder_timer_id C F p w = Some x) (map (path_join root) cs) =
      map_option (path_join root) (List.find (\<lambda>n. names_timer C root w n = Some x) cs)" for x cs
    by (induction cs) (auto simp: folder_timer_readable [OF r])
  show ?thesis
    unfolding folder_for_def Let_def if_not_P [OF l] is_candidate_def [symmetric]
    by (cases "filter (is_candidate C i) (folders w)" rule: remdups_adj.cases)
      (auto simp: folder_timer_readable [OF r] f split: option.splits)
qed

lemma find_Some_holds: "List.find P xs = Some x \<Longrightarrow> x \<in> set xs \<and> P x"
  by (induction xs) (auto split: if_splits)

lemma folder_for_owned:
  assumes "readable F" "tree_ok C root w" "n \<in> set (folders w)" "names_timer C root w n = Some (uuid_text C i)"
  shows "folder_for C F root i w = Some (path_join root n)"
proof -
  from assms have c: "n \<in> set (filter (is_candidate C i) (folders w))"
    by (fastforce simp: tree_ok_def is_candidate_def)
  have only: "m = n" if "m \<in> set (folders w)" "names_timer C root w m = Some (uuid_text C i)" for m
    using assms that unfolding tree_ok_def by metis
  define cs where "cs = filter (is_candidate C i) (folders w)"
  have find: "List.find (\<lambda>n. names_timer C root w n = Some (uuid_text C i)) cs = Some n"
  proof (cases "List.find (\<lambda>n. names_timer C root w n = Some (uuid_text C i)) cs")
    case None
    with c assms(4) show ?thesis by (auto simp: find_None_iff cs_def)
  next
    case (Some m)
    with find_Some_holds [OF Some] only show ?thesis by (auto simp: cs_def)
  qed
  show ?thesis
    unfolding folder_for_eq [OF assms(1)] Let_def cs_def [symmetric]
  proof (cases cs rule: remdups_adj.cases)
    case (3 x y xs)
    then show "(case cs of
       [] \<Rightarrow> None
     | [n] \<Rightarrow> (case names_timer C root w n of
                Some tid \<Rightarrow> if tid \<noteq> uuid_text C i then None else Some (path_join root n)
              | None \<Rightarrow> Some (path_join root n))
     | _ \<Rightarrow> map_option (path_join root) (List.find (\<lambda>n. names_timer C root w n = Some (uuid_text C i)) cs))
     = Some (path_join root n)" by (simp only: find [unfolded 3] list.case option.map)
  qed (use c assms(4) in \<open>auto simp: cs_def [symmetric]\<close>)
qed

lemma folder_for_Some:
  assumes "readable F" "folder_for C F root i w = Some p"
  obtains n where "p = path_join root n" "n \<in> set (folders w)" "is_candidate C i n"
    "names_timer C root w n = Some (uuid_text C i) \<or>
     names_timer C root w n = None \<and> filter (is_candidate C i) (folders w) = [n]"
proof -
  define cs where "cs = filter (is_candidate C i) (folders w)"
  from assms(2) have f: "(case cs of
       [] \<Rightarrow> None
     | [n] \<Rightarrow> (case names_timer C root w n of
                Some tid \<Rightarrow> if tid \<noteq> uuid_text C i then None else Some (path_join root n)
              | None \<Rightarrow> Some (path_join root n))
     | _ \<Rightarrow> map_option (path_join root) (List.find (\<lambda>n. names_timer C root w n = Some (uuid_text C i)) cs)) = Some p"
    unfolding folder_for_eq [OF assms(1)] Let_def cs_def [symmetric] .
  have "\<exists>n. p = path_join root n \<and> n \<in> set cs \<and>
      (names_timer C root w n = Some (uuid_text C i) \<or> names_timer C root w n = None \<and> cs = [n])"
  proof (cases cs rule: remdups_adj.cases)
    case (3 x y xs)
      with f have "map_option (path_join root) (List.find (\<lambda>n. names_timer C root w n = Some (uuid_text C i)) cs) = Some p"
      by simp
    then obtain n where n: "List.find (\<lambda>n. names_timer C root w n = Some (uuid_text C i)) cs = Some n"
        "p = path_join root n" by auto
    show ?thesis
      by (rule exI [of _ n]) (use find_Some_holds [OF n(1)] n(2) in simp)
  next
    case (2 x)
    with f have "p = path_join root x \<and>
        (names_timer C root w x = Some (uuid_text C i) \<or> names_timer C root w x = None)"
      by (simp split: option.splits if_splits)
    with 2 show ?thesis by (intro exI [of _ x]) auto
  next
    case 1
    with f show ?thesis by simp
  qed
  then obtain n where n: "p = path_join root n" "n \<in> set cs"
      "names_timer C root w n = Some (uuid_text C i) \<or> names_timer C root w n = None \<and> cs = [n]" by blast
  show ?thesis by (rule that [OF n(1)]) (use n in \<open>simp_all add: cs_def\<close>)
qed

lemma folder_for_None:
  assumes "readable F" "tree_ok C root w" "folder_for C F root i w = None" "n \<in> set (folders w)"
  shows "names_timer C root w n \<noteq> Some (uuid_text C i)"
  using folder_for_owned [OF assms(1,2,4)] assms(3) by auto

lemma names_timer_folders [simp]: "names_timer C root (w\<lparr>folders := ns\<rparr>) n = names_timer C root w n"
  by (simp add: names_timer_def file_at_def)

lemma names_timer_put:
  assumes "ordinary n" "ordinary m"
  shows "names_timer C root (file_put (path_join (path_join root m) TIMER_FILE_NAME) b w) n =
    (if n = m then timer_id_in C b else names_timer C root w n)"
  using assms by (simp add: names_timer_def timer_file_path)

lemma names_timer_readme:
  "ordinary n \<Longrightarrow> names_timer C root (file_put (path_join root README_FILE_NAME) b w) n = names_timer C root w n"
  by (simp add: names_timer_def timer_file_path path_of_join)

lemma tree_ok_cong:
  assumes "folders w' = folders w"
    and "\<And>n. ordinary n \<Longrightarrow> names_timer C root w' n = names_timer C root w n"
  shows "tree_ok C root w' = tree_ok C root w"
proof (cases "\<forall>n\<in>set (folders w). ordinary n")
  case True
  with assms(2) have eq: "\<forall>n\<in>set (folders w). names_timer C root w' n = names_timer C root w n" by blast
  have "(\<forall>n. ordinary n \<longrightarrow> n \<notin> set (folders w) \<longrightarrow> names_timer C root w' n = None) =
      (\<forall>n. ordinary n \<longrightarrow> n \<notin> set (folders w) \<longrightarrow> names_timer C root w n = None)"
    using assms(2) by auto
  with eq assms(1) show ?thesis unfolding tree_ok_def by (simp cong: conj_cong)
next
  case False
  then show ?thesis unfolding tree_ok_def assms(1) by blast
qed

lemma folder_for_cong:
  assumes "readable F" "tree_ok C root w" "folders w' = folders w"
    and "\<And>n. ordinary n \<Longrightarrow> names_timer C root w' n = names_timer C root w n"
  shows "folder_for C F root i w' = folder_for C F root i w"
proof -
  define cs where "cs = filter (is_candidate C i) (folders w)"
  have eq: "names_timer C root w' n = names_timer C root w n" if "n \<in> set cs" for n
    using that assms(2,4) by (auto simp: cs_def tree_ok_def)
  have find: "List.find (\<lambda>n. names_timer C root w' n = x) xs = List.find (\<lambda>n. names_timer C root w n = x) xs"
    if "set xs \<subseteq> set cs" for xs x
    using that eq by (induction xs) auto
  show ?thesis
    unfolding folder_for_eq [OF assms(1)] Let_def assms(3) cs_def [symmetric] find [OF subset_refl]
    using eq by (cases cs rule: remdups_adj.cases) auto
qed

text \<open>The name an allocation tries: its suffix is a prefix of the id.\<close>

lemma hex_no_dash:
  "codec_ok C \<Longrightarrow> CHR ''-'' \<notin> set (uuid_simple C i)"
  "codec_ok C \<Longrightarrow> CHR ''/'' \<notin> set (uuid_simple C i)"
  by (auto simp: codec_ok_def hex_digit_def)

lemma folder_suffix_dash:
  assumes "codec_ok C" "4 \<le> len" "len \<le> 32" "slug \<noteq> []"
  shows "folder_suffix (slug @ ''-'' @ take len (uuid_simple C i)) = Some (take len (uuid_simple C i))"
proof -
  define s where "s = take len (uuid_simple C i)"
  have d: "CHR ''-'' \<notin> set s" using hex_no_dash(1) [OF assms(1), of i] by (auto simp: s_def dest: in_set_takeD)
  have h: "\<forall>c\<in>set s. hex_digit c" using assms(1) by (auto simp: s_def codec_ok_def dest: in_set_takeD)
  have l: "length s = len" using assms(1,3) by (simp add: s_def codec_ok_def)
  have "takeWhile (\<lambda>c. c \<noteq> CHR ''-'') (rev (slug @ ''-'' @ s)) = rev s"
    using d takeWhile_append2 [of "rev s" "\<lambda>c. c \<noteq> CHR ''-''" "CHR ''-'' # rev slug"] by auto
  with h l assms(2,3,4) show ?thesis by (simp add: folder_suffix_def s_def [symmetric])
qed

lemma slugify_facts:
  assumes "codec_ok C" shows "slugify C name \<noteq> []" "CHR ''/'' \<notin> set (slugify C name)"
proof -
  have "CHR ''/'' \<notin> set (trim_dots (sanitize C name))"
    using assms trim_dots_set [of "sanitize C name"] by (auto simp: codec_ok_def)
  then show "slugify C name \<noteq> []" "CHR ''/'' \<notin> set (slugify C name)"
    by (auto simp: slugify_def Let_def)
qed

lemma allocate_fresh:
  assumes "readable F" "codec_ok C" "slug \<noteq> []" "CHR ''/'' \<notin> set slug" "set lens \<subseteq> {4..32}"
    and "\<forall>n\<in>set (folders w). names_timer C root w n \<noteq> Some (uuid_text C i)"
    and "allocate_try C F root slug i lens w = (Inr p, w')"
  shows "\<exists>n. p = path_join root n \<and> n \<notin> set (folders w) \<and> w' = w\<lparr>folders := folders w @ [n]\<rparr> \<and>
    ordinary n \<and> is_candidate C i n"
  using assms(5,7)
proof (induction lens)
  case (Cons len lens)
  define n where "n = slug @ ''-'' @ take len (uuid_simple C i)"
  have "CHR ''/'' \<notin> set (take len (uuid_simple C i))"
    using hex_no_dash(2) [OF assms(2)] by (auto dest: in_set_takeD)
  then have o: "ordinary n" using assms(3,4) by (cases slug) (auto simp: ordinary_def n_def)
  have s: "is_candidate C i n"
    using Cons.prems(1) assms(1-3) folder_suffix_dash [OF assms(2), of len slug i]
    by (auto simp: is_candidate_def n_def starts_with_def min_def)
  have step: "(if mkdir_fails F (path_join root n) then (Inl (TreeIo (path_join root n)), w)
      else if n \<notin> set (folders w) then (Inr (path_join root n), w\<lparr>folders := folders w @ [n]\<rparr>)
      else if folder_timer_id C F (path_join root n) w = Some (uuid_text C i) then (Inr (path_join root n), w)
      else allocate_try C F root slug i lens w) = (Inr p, w')"
    using Cons.prems(2) unfolding allocate_try.simps Let_def n_def [symmetric] .
  have no: "folder_timer_id C F (path_join root n) w \<noteq> Some (uuid_text C i)" if "n \<in> set (folders w)"
    using that assms(6) by (simp add: folder_timer_readable [OF assms(1)])
  show ?case
  proof (cases "n \<in> set (folders w)")
    case True
    with step no have "allocate_try C F root slug i lens w = (Inr p, w')" by (simp split: if_splits)
    with Cons show ?thesis by simp
  next
    case False
    with step have "p = path_join root n" "w' = w\<lparr>folders := folders w @ [n]\<rparr>" by (auto split: if_splits)
    with False o s show ?thesis by blast
  qed
qed simp

text \<open>Writing a timer's \<open>timer.json\<close> into a folder of its own keeps the tree well formed.\<close>

lemma claimed_folder_ok:
  assumes "codec_ok C" "tree_ok C root w" "ordinary n" "n \<in> set (folders w)" "is_candidate C i n"
    and "timer_id_in C b = Some (uuid_text C i)"
    and "\<forall>m\<in>set (folders w). m \<noteq> n \<longrightarrow> names_timer C root w m \<noteq> Some (uuid_text C i)"
  shows "tree_ok C root (file_put (path_join (path_join root n) TIMER_FILE_NAME) b w)"
proof -
  let ?w = "file_put (path_join (path_join root n) TIMER_FILE_NAME) b w"
  have o: "\<forall>m\<in>set (folders w). ordinary m" using assms(2) by (simp add: tree_ok_def)
  have nm: "names_timer C root ?w m = (if m = n then Some (uuid_text C i) else names_timer C root w m)"
    if "m \<in> set (folders w)" for m
    using that o assms(3,6) by (simp add: names_timer_put)
  have cand: "\<exists>s. folder_suffix n = Some s \<and> starts_with (uuid_simple C i) s"
    using assms(5) by (auto simp: is_candidate_def split: option.splits)
  show ?thesis
    unfolding tree_ok_def file_ops_frame
  proof (intro conjI ballI allI impI)
    show "distinct (folders w)" using assms(2) by (simp add: tree_ok_def)
    show "ordinary m" if "m \<in> set (folders w)" for m using that o by blast
    show "names_timer C root ?w m = None" if "ordinary m" "m \<notin> set (folders w)" for m
      using that assms(2,3,4) by (auto simp: names_timer_put tree_ok_def)
    show "\<exists>s. folder_suffix m = Some s \<and> starts_with (uuid_simple C j) s"
      if "m \<in> set (folders w)" "names_timer C root ?w m = Some (uuid_text C j)" for m j
      using that cand assms(2) by (auto simp: nm tree_ok_def uuid_text_inj [OF assms(1)] split: if_splits)
    show "m = m'" if "m \<in> set (folders w)" "m' \<in> set (folders w)"
      "names_timer C root ?w m = Some x" "names_timer C root ?w m' = Some x" for m m' x
      using that assms(2,7) unfolding nm [OF that(1)] nm [OF that(2)] tree_ok_def
      by (cases "m = n"; cases "m' = n") auto
  qed
qed

lemma bindT_Inr: "bindT r f = (Inr b, s') \<longleftrightarrow> (\<exists>a s. r = (Inr a, s) \<and> f a s = (Inr b, s'))"
  by (cases r) (auto simp: bindT_def split: sum.splits)

lemma ensure_readme_Inr:
  "ensure_readme C F root w = (Inr u, w') \<Longrightarrow> w' = file_put (path_join root README_FILE_NAME) (readme_text C) w"
  by (auto simp: ensure_readme_def Let_def split: if_splits)

lemma timer_file_plain: "plain_name TIMER_FILE_NAME" "plain_name STATUS_FILE_NAME"
  by (simp_all add: plain_name_def TIMER_FILE_NAME_def STATUS_FILE_NAME_def)

lemma write_timer_json_Inr:
  "write_timer_json C F socket folder t owner w = (Inr u, w') \<Longrightarrow>
   w' = file_put (path_join folder TIMER_FILE_NAME) (timer_pretty C (timer_view_of socket t owner)) w"
  using safe_child_path_plain [OF timer_file_plain(1), of folder]
  by (auto simp: write_timer_json_def atomic_write_def split: if_splits)

text \<open>The folder a synchronization settles on, before \<open>timer.json\<close> is written.\<close>

definition settles_on ::
  "codec \<Rightarrow> string \<Rightarrow> uuid \<Rightarrow> 'z site_scheme \<Rightarrow> 'z site_scheme \<Rightarrow> string \<Rightarrow> bool" where
  "settles_on C root i w w2 n \<longleftrightarrow>
     ordinary n \<and> is_candidate C i n \<and> tree_ok C root w2 \<and>
     n \<in> set (folders w2) \<and> set (folders w) \<subseteq> set (folders w2) \<and>
     (\<forall>m. names_timer C root w2 m = names_timer C root w m) \<and>
     (names_timer C root w n = None \<or> names_timer C root w n = Some (uuid_text C i)) \<and>
     (\<forall>m\<in>set (folders w2). m \<noteq> n \<longrightarrow> names_timer C root w m \<noteq> Some (uuid_text C i))"

lemma settled_folder:
  assumes "codec_ok C" "readable F" "tree_ok C root w"
    and "(case folder_for C F root (t_id t) w of Some f \<Rightarrow> (Inr f, w)
        | None \<Rightarrow> allocate_folder C F root t w) = (Inr folder, w2)"
  shows "\<exists>n. folder = path_join root n \<and> settles_on C root (t_id t) w w2 n"
proof (cases "folder_for C F root (t_id t) w")
  case None
  have other: "\<forall>n\<in>set (folders w). names_timer C root w n \<noteq> Some (uuid_text C (t_id t))"
    using folder_for_None [OF assms(2,3) None] by blast
  have lens: "set SUFFIX_LENS \<subseteq> {4..32}" by (simp add: SUFFIX_LENS_def)
  from None assms(4) have "allocate_try C F root (slugify C (t_name t)) (t_id t) SUFFIX_LENS w = (Inr folder, w2)"
    by (simp add: allocate_folder_def)
  then obtain n where n: "folder = path_join root n" "n \<notin> set (folders w)"
      "w2 = w\<lparr>folders := folders w @ [n]\<rparr>" "ordinary n" "is_candidate C (t_id t) n"
    using allocate_fresh [OF assms(2,1) slugify_facts [OF assms(1)] lens other] by blast
  have new: "names_timer C root w n = None" using n(2,4) assms(3) by (simp add: tree_ok_def)
  have "tree_ok C root w2"
    using assms(3) n(2,4) new unfolding n(3) tree_ok_def names_timer_folders by auto
  with n other new show ?thesis by (intro exI [of _ n]) (auto simp: settles_on_def)
next
  case (Some f)
  with assms(4) have f: "folder = f" "w2 = w" by simp_all
  show ?thesis
  proof (rule folder_for_Some [OF assms(2) Some])
    fix n assume n: "f = path_join root n" "n \<in> set (folders w)" "is_candidate C (t_id t) n"
      "names_timer C root w n = Some (uuid_text C (t_id t)) \<or>
       names_timer C root w n = None \<and> filter (is_candidate C (t_id t)) (folders w) = [n]"
    have "m = n" if m: "m \<in> set (folders w)" "names_timer C root w m = Some (uuid_text C (t_id t))" for m
    proof -
      from assms(3) m have "\<exists>s. folder_suffix m = Some s \<and> starts_with (uuid_simple C (t_id t)) s"
        by (simp add: tree_ok_def)
      then have c: "is_candidate C (t_id t) m" by (auto simp: is_candidate_def)
      from n(4) show ?thesis
      proof
        assume "names_timer C root w n = Some (uuid_text C (t_id t))"
        with assms(3) m n(2) show ?thesis by (simp add: tree_ok_def)
      next
        assume "names_timer C root w n = None \<and> filter (is_candidate C (t_id t)) (folders w) = [n]"
        then have "set (filter (is_candidate C (t_id t)) (folders w)) = {n}" by simp
        with c m(1) show ?thesis by auto
      qed
    qed
    moreover have "ordinary n" using n(2) assms(3) by (simp add: tree_ok_def)
    ultimately have "settles_on C root (t_id t) w w2 n"
      unfolding settles_on_def f(2) using n(2,3,4) assms(3) by blast
    with n(1) f(1) show ?thesis by blast
  qed
qed

text \<open>One stable folder per timer. When synchronizing a timer succeeds on a well-formed tree whose
  files can be read, the tree stays well formed, the timer's folder is from then on found by its
  id, a folder that was already the timer's is kept whatever the timer is now called, and every
  other timer keeps its folder.\<close>

theorem sync_keeps_folder:
  assumes "codec_ok C" "readable F" "tree_ok C root w"
    and "sync_timer_json C F socket root t owner w = (Inr folder, w')"
  shows "tree_ok C root w' \<and> folder_for C F root (t_id t) w' = Some folder \<and>
    (\<forall>n\<in>set (folders w). names_timer C root w n = Some (uuid_text C (t_id t)) \<longrightarrow>
       folder = path_join root n) \<and>
    (\<forall>n\<in>set (folders w). \<forall>i. i \<noteq> t_id t \<longrightarrow> names_timer C root w n = Some (uuid_text C i) \<longrightarrow>
       folder_for C F root i w' = Some (path_join root n))"
proof -
  let ?i = "t_id t"
  define w1 where "w1 = file_put (path_join root README_FILE_NAME) (readme_text C) w"
  define b where "b = timer_pretty C (timer_view_of socket t owner)"
  have fold1: "folders w1 = folders w" by (simp add: w1_def)
  have nm1: "names_timer C root w1 n = names_timer C root w n" if "ordinary n" for n
    using that by (simp add: w1_def names_timer_readme)
  have ok1: "tree_ok C root w1" using tree_ok_cong [OF fold1 nm1] assms(3) by simp
  obtain s1 w2 where s: "ensure_readme C F root w = (Inr (), s1)"
      "(case folder_for C F root ?i s1 of Some f \<Rightarrow> (Inr f, s1)
        | None \<Rightarrow> allocate_folder C F root t s1) = (Inr folder, w2)"
      "write_timer_json C F socket folder t owner w2 = (Inr (), w')"
    using assms(4) unfolding sync_timer_json_def bindT_Inr by auto
  have w1: "s1 = w1" unfolding w1_def by (rule ensure_readme_Inr [OF s(1)])
  have w': "w' = file_put (path_join folder TIMER_FILE_NAME) b w2"
    unfolding b_def by (rule write_timer_json_Inr [OF s(3)])
  obtain n where folder: "folder = path_join root n" and "settles_on C root ?i w1 w2 n"
    using settled_folder [OF assms(1,2) ok1 s(2) [unfolded w1]] by blast
  then have n: "ordinary n" "is_candidate C ?i n" "tree_ok C root w2" "n \<in> set (folders w2)"
      "set (folders w) \<subseteq> set (folders w2)"
      "\<And>m. names_timer C root w2 m = names_timer C root w1 m"
      "names_timer C root w1 n = None \<or> names_timer C root w1 n = Some (uuid_text C ?i)"
      "\<And>m. m \<in> set (folders w2) \<Longrightarrow> m \<noteq> n \<Longrightarrow> names_timer C root w1 m \<noteq> Some (uuid_text C ?i)"
    unfolding settles_on_def fold1 by auto
  have bid: "timer_id_in C b = Some (uuid_text C ?i)"
    using assms(1) by (simp add: codec_ok_def b_def timer_view_of_def)
  have ok': "tree_ok C root w'"
    unfolding w' folder using n(6,8)
    by (intro claimed_folder_ok [OF assms(1) n(3,1,4,2) bid]) auto
  have o: "\<And>m. m \<in> set (folders w) \<Longrightarrow> ordinary m" using assms(3) by (simp add: tree_ok_def)
  have o2: "\<And>m. m \<in> set (folders w2) \<Longrightarrow> ordinary m" using n(3) by (simp add: tree_ok_def)
  have nm: "names_timer C root w' m =
      (if m = n then Some (uuid_text C ?i) else names_timer C root w m)" if "m \<in> set (folders w2)" for m
    unfolding w' folder names_timer_put [OF o2 [OF that] n(1)] n(6) nm1 [OF o2 [OF that]] bid by (rule refl)
  have fold: "folders w' = folders w2" by (simp add: w')
  have own: "folder_for C F root j w' = Some (path_join root m)"
    if "m \<in> set (folders w2)" "names_timer C root w' m = Some (uuid_text C j)" for m j
    using folder_for_owned [OF assms(2) ok', of m j] that by (simp add: fold)
  show ?thesis
  proof (intro conjI ballI allI impI)
    show "tree_ok C root w'" by (rule ok')
    show "folder_for C F root ?i w' = Some folder" using own [OF n(4)] by (simp add: nm [OF n(4)] folder)
    show "folder = path_join root m" if "m \<in> set (folders w)" "names_timer C root w m = Some (uuid_text C ?i)" for m
      using that n(5) n(8) [of m] nm1 [OF o [OF that(1)]] folder by auto
    show "folder_for C F root j w' = Some (path_join root m)"
      if "m \<in> set (folders w)" "j \<noteq> ?i" "names_timer C root w m = Some (uuid_text C j)" for m j
    proof -
      have m: "m \<in> set (folders w2)" using that n(5) by blast
      have "m \<noteq> n"
        using n(7) that(2,3) nm1 [OF o [OF that(1)]] uuid_text_inj [OF assms(1), of j ?i] by auto
      with that own [OF m, of j] show ?thesis by (simp add: nm [OF m])
    qed
  qed
qed

definition sample_note :: fire_notification where
  "sample_note = notification_new ''fired'' ''daily'' 3 ''tea'' ''app'' 7 100 105 ''s'' (Some ''r'') None"

definition sample_codec :: codec where
  "sample_codec = \<lparr> uuid_text = (\<lambda>i. replicate i (CHR ''i'')), uuid_simple = (\<lambda>i. replicate 32 (CHR ''a'')),
     uuid_parse = (\<lambda>s. Some (length s)), sanitize = filter (\<lambda>c. c \<noteq> CHR ''/''), notif_json = (\<lambda>_. ''fire''),
     notif_pretty = (\<lambda>_. ''fire''), notif_parse = (\<lambda>s. if s = ''fire'' then Some sample_note else None),
     status_pretty = (\<lambda>_. ''status''), stub_bytes = (\<lambda>_ _. ''stub''),
     timer_pretty = (\<lambda>v. replicate (tv_timer_id v) (CHR ''i'')), timer_id_in = Some,
     reply_parse = (\<lambda>_. None), sidecar_pretty = (\<lambda>_. ''sidecar''),
     content_copied_in = (\<lambda>_. None), readme_text = ''readme'' \<rparr>"

lemma sample_codec_ok: "codec_ok sample_codec"
  by (auto simp: codec_ok_def sample_codec_def hex_digit_def)

definition bare_site :: site where
  "bare_site = \<lparr> db = empty_store, draws = 0, book = [], armed_hints = [], anchors = [], files = [],
     folders = [] \<rparr>"

theorem sync_keeps_folder_witness:
  "\<exists>folder w'. sync_timer_json sample_codec no_faults None ''t'' sample_timer None bare_site = (Inr folder, w') \<and>
     folder_for sample_codec no_faults ''t'' (t_id sample_timer) w' = Some folder"
proof -
  have r: "readable no_faults" by (simp add: readable_def no_faults_def)
  have ok: "tree_ok sample_codec ''t'' bare_site"
    by (simp add: tree_ok_def bare_site_def names_timer_def file_at_def)
  obtain folder w' where s: "sync_timer_json sample_codec no_faults None ''t'' sample_timer None bare_site = (Inr folder, w')"
    using safe_child_path_plain [OF timer_file_plain(1)]
    by (simp add: sync_timer_json_def ensure_readme_def bindT_def no_faults_def folder_for_def
        allocate_folder_def SUFFIX_LENS_def Let_def bare_site_def write_timer_json_def atomic_write_def)
  from s sync_keeps_folder [OF sample_codec_ok r ok s] show ?thesis by blast
qed

end
