(* ===== verification/Publication_Properties.thy ===== *)
theory Publication_Properties
  imports Publication Tree_Properties
begin

text \<open>
  The properties of the publication path (\<open>reply/publication.rs\<close>, \<open>slots/atomic.rs\<close>): where an
  atomic write can land, what an attempt does to the files, what a pickup removes.
\<close>

text \<open>\<open>safe_child_path\<close> accepts exactly the non-empty names without a separator, a NUL, a
  backslash or dots that could leave the directory, and the path it answers is the
  directory's own components followed by that one name: an atomic write never lands outside
  its directory.\<close>

theorem safe_child_path_exact:
  "case safe_child_path dir name of
     Inr p \<Rightarrow> plain_name name \<and> path_of p = (fst (path_of dir), snd (path_of dir) @ [name])
   | Inl _ \<Rightarrow> \<not> plain_name name"
  using safe_child_path_plain [of name dir] safe_child_path_Inr [of dir name]
    path_of_join [OF plain_ordinary, of name dir]
  by (cases "plain_name name"; cases "safe_child_path dir name") auto

section \<open>The wake hint at a fixed path\<close>

lemma with_db_frame [simp]:
  "files (with_db f w) = files w" "file_at (with_db f w) q = file_at w q" for w :: "'z site_scheme"
  by (simp_all add: with_db_def file_at_def)

lemma file_at_draws: "file_at (w\<lparr>draws := n\<rparr>) q = file_at w q"
  by (simp add: file_at_def)

lemma db_with_db [simp]: "db (with_db f w) = f (db w)" "draws (with_db f w) = draws w"
  by (simp_all add: with_db_def)

lemma mark_frame [simp]:
  "files (snd (mark_obsolete p w)) = files w" "files (snd (mark_published E p w)) = files w"
  for w :: "'z site_scheme"
  by (simp_all add: mark_obsolete_def mark_published_def)

lemma defer_files:
  "defer_attempt E p w = Some (out, w') \<Longrightarrow> files w' = files w" for w w' :: "'z site_scheme"
  by (auto simp: defer_attempt_def mark_obsolete_def Let_def bind_Some split: if_splits)

lemma path_of_target:
  assumes "path_parent t = Some d" "path_file_name t = Some n" "safe_child_path d n = Inr p"
  shows "path_of p = path_of t"
proof -
  obtain a cs where t: "path_of t = (a, cs)" by (cases "path_of t")
  with assms have cs: "cs \<noteq> []" "last cs = n"
    by (auto simp: path_file_name_def Let_def split: if_splits)
  then have t': "path_of t = (a, butlast cs @ [n])" using t append_butlast_last_id [of cs] by simp
  with assms path_parent_of [of t a "butlast cs" n] have "path_of d = (a, butlast cs)" by simp
  with assms safe_child_path_Inr [of d n p] path_of_join [OF plain_ordinary, of n d] t' show ?thesis by simp
qed

lemma write_target_files:
  assumes "write_target E C F p n w = Some (out, w')"
  shows "files w' = files w \<or>
    out = Published \<and> files w' = hm_put (path_of (p_target_path p)) (notif_pretty C n) (files w)"
  using assms path_of_target [of "p_target_path p"]
  by (auto simp: write_target_def atomic_write_def mark_published_def mark_obsolete_def defer_files file_put_def
      split: option.splits sum.splits if_splits)

definition shown_run :: "codec \<Rightarrow> 'z site_scheme \<Rightarrow> string \<Rightarrow> uuid option" where
  "shown_run C w target = map_option f_run_id (Option.bind (file_at w (path_of target)) (notif_parse C))"

lemma attempt_file_files:
  assumes "attempt_file E C F p n w = Some (out, w')"
  shows "files w' = files w \<or>
    out = Published \<and> files w' = hm_put (path_of (p_target_path p)) (notif_pretty C n) (files w) \<and>
    file_exists w (f_status_path n) \<and> (\<exists>r. f_reply_path n = Some r \<and> file_exists w r) \<and>
    \<not> gate_fails F (p_timer_id p) \<and> \<not> lock_fails F (p_target_path p) \<and>
    shown_run C w (p_target_path p) \<noteq> Some (p_run_id p) \<and>
    (\<forall>cur q. shown_run C w (p_target_path p) = Some cur \<longrightarrow>
       transport_projection_of (db w) cur = Some q \<longrightarrow> p_publication_order q \<le> p_publication_order p)"
proof (cases "files w' = files w")
  case False
  let ?ok = "file_exists w (f_status_path n) \<and> (\<exists>r. f_reply_path n = Some r \<and> file_exists w r) \<and>
    \<not> gate_fails F (p_timer_id p) \<and> \<not> lock_fails F (p_target_path p) \<and> \<not> read_fails F (p_target_path p)"
  have no_defer: "defer_attempt E p w \<noteq> Some (out, w')" using False defer_files by blast
  have no_obs: "mark_obsolete p w \<noteq> (out, w')" using False by (auto simp: mark_obsolete_def)
  from assms no_defer have ok: ?ok
    by (auto simp: attempt_file_def Let_def split: if_splits option.splits)
  have wr: "write_target E C F p n w = Some (out, w') \<and>
    shown_run C w (p_target_path p) \<noteq> Some (p_run_id p) \<and>
    (\<forall>cur q. shown_run C w (p_target_path p) = Some cur \<longrightarrow>
       transport_projection_of (db w) cur = Some q \<longrightarrow> p_publication_order q \<le> p_publication_order p)"
    using assms ok no_defer no_obs
    by (auto simp: attempt_file_def shown_run_def split: if_splits option.splits)
  with False write_target_files [of E C F p n w out w'] ok show ?thesis by blast
qed simp

text \<open>C15: What a delivery attempt through the file adapter may do to the files. It changes none but
  the projection's own target, and only when the attempt answers \<open>Published\<close>: then the target
  holds this firing's notification, the status file and the reply stub it names already existed,
  the target's cursor had not moved past this firing, and the notification it replaced belonged
  neither to this run nor to a known newer firing. A fixed path never goes back to an older
  firing.\<close>

theorem file_delivery_keeps_newest:
  assumes "p_kind p \<noteq> KIND_IPC"
    and "attempt_publication E C F dir p handle w = Some (out, w')"
    and "file_at w' q \<noteq> file_at w q"
  shows "q = path_of (p_target_path p) \<and> out = Published \<and>
    (\<exists>n r. notif_parse C (p_payload p) = Some n \<and> file_at w' q = Some (notif_pretty C n) \<and>
      file_exists w (f_status_path n) \<and> f_reply_path n = Some r \<and> file_exists w r) \<and>
    target_cursor (db w) (p_target_path p) \<le> p_publication_order p \<and>
    (\<forall>cur. shown_run C w (p_target_path p) = Some cur \<longrightarrow> cur \<noteq> p_run_id p \<and>
      (\<forall>known. transport_projection_of (db w) cur = Some known \<longrightarrow>
         p_publication_order known \<le> p_publication_order p))"
proof -
  from assms(3) have changed: "files w' \<noteq> files w" by (auto simp: file_at_def)
  then have no_obs: "mark_obsolete p w \<noteq> (out, w')" by (auto simp: mark_obsolete_def)
  obtain n where n: "notif_parse C (p_payload p) = Some n"
      "target_cursor (db w) (p_target_path p) \<le> p_publication_order p"
      "attempt_file E C F p n w = Some (out, w')"
    using assms(1,2) no_obs
    by (auto simp: attempt_publication_def split: option.splits if_splits)
  from attempt_file_files [OF n(3)] changed assms(3) n(1,2) show ?thesis
    by (auto simp: file_at_def split: if_splits)
qed

definition sample_projection :: transport_projection where
  "sample_projection = \<lparr> p_run_id = 7, p_timer_id = 3, p_kind = KIND_FILE, p_target_path = ''f/n'',
     p_payload = ''fire'', p_publication_order = 3, p_state = PENDING, p_attempts = 0,
     p_next_attempt_at = 105, p_created_at = 105, p_published_at = None \<rparr>"

definition sample_site :: site where
  "sample_site = \<lparr> db = empty_store\<lparr>transport_projections := [sample_projection]\<rparr>, draws = 0, book = [],
     armed_hints = [], anchors = [],
     files = [((False, [''s'']), ''status''), ((False, [''r'']), ''stub'')], folders = [] \<rparr>"

lemma sample_delivery:
  "attempt_publication sample_env sample_codec no_faults ''d'' sample_projection None sample_site =
     Some (mark_published sample_env sample_projection
       (file_put ''f/n'' ''fire'' sample_site))"
  by (simp add: attempt_publication_def attempt_file_def write_target_def atomic_write_def file_at_def hm_get_def sample_codec_def no_faults_def
      sample_projection_def sample_site_def empty_store_def target_cursor_def row_get_def file_exists_def
      sample_note_def notification_new_def path_of_def path_parent_def path_file_name_def path_text_def
      safe_child_path_def path_join_def KIND_FILE_def KIND_IPC_def)

theorem file_delivery_keeps_newest_witness:
  "(False, [''f'', ''n'']) = path_of ''f/n'' \<and>
   target_cursor (db sample_site) ''f/n'' \<le> 3"
proof -
  have "p_kind sample_projection \<noteq> KIND_IPC"
    by (simp add: sample_projection_def KIND_FILE_def KIND_IPC_def)
  moreover have "path_of ''f/n'' = (False, [''f'', ''n''])" by (simp add: path_of_def)
  moreover have "file_at sample_site (False, [''f'', ''n'']) = None"
    by (simp add: sample_site_def file_at_def hm_get_def row_get_def)
  ultimately have "(False, [''f'', ''n'']) = path_of (p_target_path sample_projection) \<and>
    target_cursor (db sample_site) (p_target_path sample_projection) \<le> p_publication_order sample_projection"
    using file_delivery_keeps_newest [OF _ sample_delivery [unfolded mark_published_def], of "(False, [''f'', ''n''])"]
    by (simp add: file_at_draws)
  then show ?thesis by (simp add: sample_projection_def)
qed

section \<open>Retries\<close>

lemma projection_after_set:
  assumes "transport_projection_of s i = Some p" "Q (p_state p)" "\<And>r. p_run_id (f r) = p_run_id r"
  shows "transport_projection_of (set_projection i Q f s) i = Some (f p)"
proof -
  have "row_get p_run_id i (row_set (\<lambda>p. p_run_id p = i \<and> Q (p_state p)) f rows) = Some (f p)"
    if "row_get p_run_id i rows = Some p" for rows
    using that assms(2,3) by (induction rows) (auto simp: row_get_def row_set_def split: if_splits)
  with assms(1) show ?thesis by (simp add: transport_projection_of_def set_projection_def)
qed

lemma backoff_range: "0 < n \<Longrightarrow> 2 \<le> backoff_secs n \<and> backoff_secs n \<le> 60"
proof -
  assume "0 < n"
  then have "(2::nat) ^ 1 \<le> 2 ^ min n 6" by (intro power_increasing) auto
  then show ?thesis by (simp add: backoff_secs_def MAX_BACKOFF_SECS_def)
qed

text \<open>Retries are bounded. Deferring a pending projection that has been deferred fewer than 16
  times counts one more and sets the next attempt between 2 and 60 seconds after the reading of
  the clock; from the 17th on the projection becomes obsolete, so no projection is deferred
  more than 16 times.\<close>

theorem retries_bounded:
  assumes "transport_projection_of (db w) (p_run_id p) = Some p" "p_state p = PENDING"
    and "defer_attempt E p w = Some (out, w')"
  shows "if p_attempts p < 16
    then out = Deferred \<and>
      (\<exists>nxt. transport_projection_of (db w') (p_run_id p) =
          Some (p\<lparr>p_attempts := p_attempts p + 1, p_next_attempt_at := nxt\<rparr>) \<and>
        utc_now E (draws w) + 2 * sec_ns \<le> nxt \<and> nxt \<le> utc_now E (draws w) + 60 * sec_ns)
    else out = ObsoleteHint \<and>
      transport_projection_of (db w') (p_run_id p) = Some (p\<lparr>p_state := OBSOLETE\<rparr>)"
proof (cases "p_attempts p < 16")
  case True
  then have a: "sat_succ u32_max (p_attempts p) = p_attempts p + 1" by (simp add: sat_succ_def)
  define nxt where "nxt = utc_now E (draws w) + int (backoff_secs (p_attempts p + 1)) * sec_ns"
  have out: "out = Deferred" "db w' = defer_transport_projection (p_run_id p) (p_attempts p + 1) nxt (db w)"
    using assms(3) True a
    by (auto simp: defer_attempt_def MAX_ATTEMPTS_def bind_Some instant_add_def nxt_def split: if_splits)
  have "transport_projection_of (db w') (p_run_id p) =
      Some (p\<lparr>p_attempts := p_attempts p + 1, p_next_attempt_at := nxt\<rparr>)"
    unfolding out(2) defer_transport_projection_def
    by (rule projection_after_set) (use assms in auto)
  moreover have "utc_now E (draws w) + 2 * sec_ns \<le> nxt \<and> nxt \<le> utc_now E (draws w) + 60 * sec_ns"
    using backoff_range [of "p_attempts p + 1"] by (simp add: nxt_def)
  ultimately show ?thesis using True out(1) by auto
next
  case False
  then have "MAX_ATTEMPTS < sat_succ u32_max (p_attempts p)" by (simp add: sat_succ_def MAX_ATTEMPTS_def)
  with assms(3) have out: "out = ObsoleteHint" "db w' = mark_transport_obsolete (p_run_id p) (db w)"
    by (auto simp: defer_attempt_def mark_obsolete_def)
  have "transport_projection_of (db w') (p_run_id p) = Some (p_state_update (\<lambda>_. OBSOLETE) p)"
    unfolding out(2) mark_transport_obsolete_def
    by (rule projection_after_set) (use assms in \<open>auto simp: live_state_def\<close>)
  with False out(1) show ?thesis by simp
qed

theorem retries_bounded_witness:
  "\<exists>w'. defer_attempt sample_env (sample_projection\<lparr>p_attempts := 16\<rparr>)
      (sample_site\<lparr>db := empty_store\<lparr>transport_projections := [sample_projection\<lparr>p_attempts := 16\<rparr>]\<rparr>\<rparr>) =
      Some (ObsoleteHint, w') \<and>
    transport_projection_of (db w') 7 = Some (sample_projection\<lparr>p_attempts := 16, p_state := OBSOLETE\<rparr>)"
proof -
  let ?p = "sample_projection\<lparr>p_attempts := 16\<rparr>"
  let ?w = "sample_site\<lparr>db := empty_store\<lparr>transport_projections := [?p]\<rparr>\<rparr>"
  have p: "p_run_id ?p = 7" "p_state ?p = PENDING" "p_attempts ?p = 16" by (simp_all add: sample_projection_def)
  have get: "transport_projection_of (db ?w) (p_run_id ?p) = Some ?p"
    by (simp add: transport_projection_of_def row_get_def)
  have d: "defer_attempt sample_env ?p ?w = Some (mark_obsolete ?p ?w)"
    by (simp add: defer_attempt_def p MAX_ATTEMPTS_def sat_succ_def)
  from retries_bounded [OF get p(2) d [unfolded mark_obsolete_def]] d show ?thesis
    by (auto simp: p mark_obsolete_def)
qed

end
