(* ===== verification/Quarantine.thy ===== *)
theory Quarantine
  imports Publication "HOL-Library.Word"
begin

text \<open>
  The quarantine of rejected replies (\<open>reply/quarantine.rs\<close>): the FNV digest, copying condemned
  bytes under a name made of the source path and the content, the metadata-only artifact, the
  startup sweep and the retention pruning. A directory listing with sizes and modification
  times is a list of entries.
\<close>

unbundle bit_operations_syntax

definition fnv_step :: "64 word \<Rightarrow> char \<Rightarrow> 64 word" where
  "fnv_step h b = (h XOR of_nat (of_char b)) * 0x100000001b3"

definition fnv1a64 :: "string \<Rightarrow> 64 word" where
  "fnv1a64 bytes = foldl fnv_step 0xcbf29ce484222325 bytes"

definition hex_char :: "nat \<Rightarrow> char" where
  "hex_char n = ''0123456789abcdef'' ! n"

text \<open>\<open>{hash:016x}\<close>: sixteen digits, the most significant first.\<close>

definition hex16 :: "64 word \<Rightarrow> string" where
  "hex16 h = map (\<lambda>k. hex_char (unat (drop_bit (4 * k) h AND 15))) (rev [0..<16])"

definition fnv1a64_hex :: "string \<Rightarrow> string" where
  "fnv1a64_hex bytes = hex16 (fnv1a64 bytes)"

definition QUARANTINE_SCHEMA_V1 :: string where "QUARANTINE_SCHEMA_V1 = ''bellman-quarantine/1''"

definition quarantine_dir :: "string \<Rightarrow> string" where
  "quarantine_dir timers_root = path_join timers_root ''bad''"

section \<open>Copying condemned bytes\<close>

definition sidecar_of ::
  "string \<Rightarrow> string \<Rightarrow> bool \<Rightarrow> nat \<Rightarrow> string option \<Rightarrow> uuid \<Rightarrow> uuid \<Rightarrow> instant \<Rightarrow> sidecar" where
  "sidecar_of source reason copied len digest timer_id run_id now = \<lparr>
     q_schema = QUARANTINE_SCHEMA_V1, q_reason = reason, q_source_path = source,
     q_quarantined_at = now, q_content_copied = copied, q_observed_len = len,
     q_content_digest = digest, q_timer_id = timer_id, q_run_id = run_id \<rparr>"

text \<open>Create-new, no-replace: answers whether the file was installed.\<close>

definition install_no_replace :: "string \<Rightarrow> string \<Rightarrow> 'z site_scheme \<Rightarrow> bool \<times> 'z site_scheme" where
  "install_no_replace path bytes w = (if file_exists w path then (False, w) else (True, file_put path bytes w))"

definition payload_name :: "string \<Rightarrow> string \<Rightarrow> string" where
  "payload_name source bytes = fnv1a64_hex source @ ''-'' @ fnv1a64_hex bytes @ ''.payload''"

definition sidecar_name :: "string \<Rightarrow> string \<Rightarrow> string" where
  "sidecar_name source bytes = fnv1a64_hex source @ ''-'' @ fnv1a64_hex bytes @ ''.sidecar.json''"

definition quarantine_bytes ::
  "env \<Rightarrow> codec \<Rightarrow> faults \<Rightarrow> string \<Rightarrow> string \<Rightarrow> string \<Rightarrow> string \<Rightarrow> uuid \<Rightarrow> uuid \<Rightarrow> 'z site_scheme \<Rightarrow>
     (string + bool) \<times> 'z site_scheme" where
  "quarantine_bytes E C F bad source bytes reason timer_id run_id w =
     (let payload = path_join bad (payload_name source bytes);
          side = path_join bad (sidecar_name source bytes);
          w1 = w\<lparr>draws := draws w + 1\<rparr>;
          text = sidecar_pretty C (sidecar_of source reason True (length bytes)
                   (Some (fnv1a64_hex bytes)) timer_id run_id (utc_now E (draws w))) in
      if mkdir_fails F bad then (Inl bad, w)
      else if write_fails F payload then (Inl payload, w)
      else if write_fails F side then (Inl side, w1)
      else
        let (installed, w2) = install_no_replace payload bytes w1 in
        if installed then (Inr True, snd (install_no_replace side text w2)) else (Inr False, w2))"

text \<open>\<open>observed_len.to_string()\<close>: the decimal digits.\<close>

fun decimal :: "nat \<Rightarrow> string" where
  "decimal n = (if n < 10 then [''0123456789'' ! n] else decimal (n div 10) @ [''0123456789'' ! (n mod 10)])"

declare decimal.simps [simp del]

definition unread_name :: "string \<Rightarrow> nat \<Rightarrow> string" where
  "unread_name source len =
     fnv1a64_hex source @ ''-unread-'' @ fnv1a64_hex (decimal len) @ ''.sidecar.json''"

definition quarantine_unread ::
  "env \<Rightarrow> codec \<Rightarrow> faults \<Rightarrow> string \<Rightarrow> string \<Rightarrow> nat \<Rightarrow> string \<Rightarrow> uuid \<Rightarrow> uuid \<Rightarrow> 'z site_scheme \<Rightarrow>
     (string + bool) \<times> 'z site_scheme" where
  "quarantine_unread E C F bad source observed_len reason timer_id run_id w =
     (let side = path_join bad (unread_name source observed_len);
          text = sidecar_pretty C (sidecar_of source reason False observed_len None timer_id run_id
                   (utc_now E (draws w))) in
      if mkdir_fails F bad then (Inl bad, w)
      else if write_fails F side then (Inl side, w\<lparr>draws := draws w + 1\<rparr>)
      else
        let (installed, w1) = install_no_replace side text (w\<lparr>draws := draws w + 1\<rparr>) in
        (Inr installed, w1))"

section \<open>Retention\<close>

record bad_entry =
  be_name :: string
  be_len :: nat
  be_mtime :: instant

record artifact =
  a_base :: string
  a_files :: "string list"
  a_bytes :: nat
  a_mtime :: instant

definition ends_with :: "string \<Rightarrow> string \<Rightarrow> bool" where
  "ends_with s suffix \<longleftrightarrow> starts_with (rev s) (rev suffix)"

definition strip_suffix :: "string \<Rightarrow> string \<Rightarrow> string option" where
  "strip_suffix s suffix = (if ends_with s suffix then Some (take (length s - length suffix) s) else None)"

definition artifact_base :: "string \<Rightarrow> string option" where
  "artifact_base name = (case strip_suffix name ''.payload'' of
       Some b \<Rightarrow> Some b | None \<Rightarrow> strip_suffix name ''.sidecar.json'')"

definition saturating_add :: "nat \<Rightarrow> nat \<Rightarrow> nat" where
  "saturating_add a b = min u64_max (a + b)"

definition add_entry :: "bad_entry \<Rightarrow> artifact \<Rightarrow> artifact" where
  "add_entry e a = a\<lparr>a_files := a_files a @ [be_name e], a_bytes := saturating_add (a_bytes a) (be_len e),
     a_mtime := min (a_mtime a) (be_mtime e)\<rparr>"

text \<open>The entries grouped by base name; the \<open>BTreeMap\<close> answers them in the order of their bases.\<close>

fun group_entries :: "bad_entry list \<Rightarrow> artifact list \<Rightarrow> artifact list" where
  "group_entries [] as = as"
| "group_entries (e # es) as =
     (case artifact_base (be_name e) of
        None \<Rightarrow> group_entries es as
      | Some base \<Rightarrow>
          group_entries es
            (if base \<in> a_base ` set as
             then map (\<lambda>a. if a_base a = base then add_entry e a else a) as
             else as @ [add_entry e \<lparr>a_base = base, a_files = [], a_bytes = 0, a_mtime = be_mtime e\<rparr>]))"

definition list_artifacts :: "bad_entry list \<Rightarrow> artifact list" where
  "list_artifacts es = sort_key a_base (group_entries es [])"

text \<open>Older than the retention; an artifact from the future has no age and is kept.\<close>

definition too_old :: "span \<Rightarrow> instant \<Rightarrow> artifact \<Rightarrow> bool" where
  "too_old retention now a \<longleftrightarrow> 0 \<le> now - a_mtime a \<and> int retention < now - a_mtime a"

fun over_budget :: "nat \<Rightarrow> nat \<Rightarrow> artifact list \<Rightarrow> artifact list" where
  "over_budget budget used [] = []"
| "over_budget budget used (a # as) =
     (if used \<le> budget then [] else a # over_budget budget (used - a_bytes a) as)"

text \<open>The artifacts a pruning removes, in removal order.\<close>

definition pruned :: "bad_entry list \<Rightarrow> span \<Rightarrow> nat \<Rightarrow> instant \<Rightarrow> artifact list" where
  "pruned es retention budget now =
     (let artifacts = sort_key a_mtime (list_artifacts es);
          old = filter (too_old retention now) artifacts;
          remaining = filter (\<lambda>a. \<not> too_old retention now a) artifacts in
      old @ over_budget budget (sum_list (map a_bytes remaining)) remaining)"

definition prune :: "bad_entry list \<Rightarrow> span \<Rightarrow> nat \<Rightarrow> instant \<Rightarrow> nat \<times> bad_entry list" where
  "prune es retention budget now =
     (let gone = pruned es retention budget now in
      (length gone, filter (\<lambda>e. be_name e \<notin> (\<Union>a\<in>set gone. set (a_files a))) es))"

section \<open>The startup sweep\<close>

text \<open>
  What the sweep deletes of a listing: temporaries, payloads without a sidecar, sidecars
  without a payload unless they are metadata-only. Each test is against the listing made at
  the start.
\<close>

definition sweep_removes :: "(string \<Rightarrow> bool) \<Rightarrow> string list \<Rightarrow> string \<Rightarrow> bool" where
  "sweep_removes metadata_only names name \<longleftrightarrow>
     ends_with name ''.tmp'' \<or>
     (case strip_suffix name ''.payload'' of
        Some base \<Rightarrow> base @ ''.sidecar.json'' \<notin> set names | None \<Rightarrow> False) \<or>
     (case strip_suffix name ''.sidecar.json'' of
        Some base \<Rightarrow> base @ ''.payload'' \<notin> set names \<and> \<not> metadata_only name | None \<Rightarrow> False)"

definition is_metadata_only :: "codec \<Rightarrow> string \<Rightarrow> 'z site_scheme \<Rightarrow> bool" where
  "is_metadata_only C path w =
     (Option.bind (file_at w (path_of path)) (content_copied_in C) = Some False)"

definition quarantine_sweep :: "codec \<Rightarrow> string \<Rightarrow> 'z site_scheme \<Rightarrow> nat \<times> 'z site_scheme" where
  "quarantine_sweep C bad w =
     (let names = names_in w bad;
          gone = filter (sweep_removes (\<lambda>n. is_metadata_only C (path_join bad n) w) names) names in
      (length gone, delete_names bad gone w))"

text \<open>The digest on the vectors of the source's own test.\<close>

lemma fnv1a64_hex_known_vectors:
  "fnv1a64_hex [] = ''cbf29ce484222325''" "fnv1a64_hex ''a'' = ''af63dc4c8601ec8c''"
  by code_simp+

end
