(* ===== verification/Reply_Watcher.thy ===== *)
theory Reply_Watcher
  imports Quarantine
begin

text \<open>
  The file transport of the reply channel (\<open>reply/watcher.rs\<close>): reading a reply file, the
  debounce of invalid bytes, the poll over every timer's folder, the deadline pass, the read
  before a fire, the reconciler. The watcher's own state is the tracker of invalid files and
  the counters of a pass. Timers hashed to one gate are all refused or none; a panic in the
  engine unwinds through the pass. Reads follow no link and are capped; what is not a regular
  file is \<open>special_file\<close>.
\<close>

definition MAX_REPLY_FILE_BYTES :: nat where "MAX_REPLY_FILE_BYTES = 64 * 1024"
definition DEFAULT_DEBOUNCE :: span where "DEFAULT_DEBOUNCE = 200000000"

datatype reply_read = ReadBytes string | Oversize nat | Special string | Missing | ReadError

definition read_reply_file :: "faults \<Rightarrow> string \<Rightarrow> 'z site_scheme \<Rightarrow> reply_read" where
  "read_reply_file F path w =
     (case special_file F path of
        Some k \<Rightarrow> Special k
      | None \<Rightarrow>
          if read_fails F path then ReadError
          else
            case file_at w (path_of path) of
              None \<Rightarrow> Missing
            | Some bytes \<Rightarrow>
                if MAX_REPLY_FILE_BYTES < length bytes then Oversize (length bytes) else ReadBytes bytes)"

record invalid_entry =
  iv_digest :: string
  iv_since :: instant
  iv_condemned :: bool

record poll_stats =
  applied :: nat
  duplicates :: nat
  superseded :: nat
  rejected :: nat
  deadline_transitions :: nat
  errors :: nat

definition no_stats :: poll_stats where
  "no_stats = \<lparr> applied = 0, duplicates = 0, superseded = 0, rejected = 0, deadline_transitions = 0, errors = 0 \<rparr>"

record watch = site +
  tracker :: "(path \<times> invalid_entry) list"
  stats :: poll_stats

definition count_stat :: "(poll_stats \<Rightarrow> poll_stats) \<Rightarrow> 'z watch_scheme \<Rightarrow> 'z watch_scheme" where
  "count_stat f w = w\<lparr>stats := f (stats w)\<rparr>"

definition strip_prefix :: "string \<Rightarrow> string \<Rightarrow> string option" where
  "strip_prefix s p = (if starts_with s p then Some (drop (length p) s) else None)"

definition reply_run_id_from_name :: "codec \<Rightarrow> string \<Rightarrow> uuid option" where
  "reply_run_id_from_name C name =
     Option.bind (Option.bind (strip_prefix name ''reply-'') (\<lambda>s. strip_suffix s ''.json'')) (uuid_parse C)"

definition expected_owner :: "store \<Rightarrow> uuid \<Rightarrow> uuid \<Rightarrow> string option" where
  "expected_owner s timer_id run_id =
     (case get_run_state s run_id of Some row \<Rightarrow> Some (s_app_name row) | None \<Rightarrow> get_timer_owner s timer_id)"

definition is_untouched_stub :: "reply_document \<Rightarrow> uuid \<Rightarrow> string option \<Rightarrow> bool" where
  "is_untouched_stub doc file_run_id owner \<longleftrightarrow>
     d_schema doc = Some REPLY_SCHEMA_V1 \<and> d_state doc = None \<and> d_hint doc \<noteq> None \<and>
     d_run_id doc = Some file_run_id \<and> owner \<noteq> None \<and> d_app_name doc = owner"

text \<open>The document names another run than its file does.\<close>

definition names_other_run :: "reply_document \<Rightarrow> uuid \<Rightarrow> bool" where
  "names_other_run doc file_run_id \<longleftrightarrow> d_run_id doc \<noteq> None \<and> d_run_id doc \<noteq> Some file_run_id"

section \<open>Condemning\<close>

definition condemn ::
  "env \<Rightarrow> faults \<Rightarrow> timer \<Rightarrow> uuid \<Rightarrow> string \<Rightarrow>
     ('z watch_scheme \<Rightarrow> (string + bool) \<times> 'z watch_scheme) \<Rightarrow> 'z watch_scheme \<Rightarrow> 'z watch_scheme" where
  "condemn E F t run_id reason quarantine w =
     (let (created, w1) = (if quarantine_lock_fails F then (Inl reason, w) else quarantine w) in
      case created of
        Inl _ \<Rightarrow> count_stat (errors_update Suc) w1
      | Inr True \<Rightarrow> count_stat (rejected_update Suc) (log_rejection E t (Some run_id) reason w1)
      | Inr False \<Rightarrow> w1)"

definition condemn_bytes ::
  "env \<Rightarrow> codec \<Rightarrow> faults \<Rightarrow> string \<Rightarrow> timer \<Rightarrow> string \<Rightarrow> uuid \<Rightarrow> string \<Rightarrow> string \<Rightarrow>
     'z watch_scheme \<Rightarrow> 'z watch_scheme" where
  "condemn_bytes E C F root t path run_id bytes reason w =
     condemn E F t run_id reason
       (quarantine_bytes E C F (quarantine_dir root) path bytes reason (t_id t) run_id) w"

definition condemn_unread ::
  "env \<Rightarrow> codec \<Rightarrow> faults \<Rightarrow> string \<Rightarrow> timer \<Rightarrow> string \<Rightarrow> uuid \<Rightarrow> nat \<Rightarrow> string \<Rightarrow>
     'z watch_scheme \<Rightarrow> 'z watch_scheme" where
  "condemn_unread E C F root t path run_id observed_len reason w =
     condemn E F t run_id reason
       (quarantine_unread E C F (quarantine_dir root) path observed_len reason (t_id t) run_id) w"

text \<open>Invalid bytes: condemned once they stayed the same for the debounce window.\<close>

definition track_invalid ::
  "env \<Rightarrow> codec \<Rightarrow> faults \<Rightarrow> string \<Rightarrow> timer \<Rightarrow> string \<Rightarrow> uuid \<Rightarrow> string \<Rightarrow> string \<Rightarrow> instant \<Rightarrow>
     'z watch_scheme \<Rightarrow> 'z watch_scheme" where
  "track_invalid E C F root t path run_id bytes digest now_wall w =
     (let key = path_of path;
          fresh = w\<lparr>tracker := hm_put key \<lparr>iv_digest = digest, iv_since = now_wall, iv_condemned = False\<rparr> (tracker w)\<rparr> in
      case hm_get key (tracker w) of
        None \<Rightarrow> fresh
      | Some entry \<Rightarrow>
          if iv_digest entry \<noteq> digest then fresh
          else if iv_condemned entry then w
          else if int DEFAULT_DEBOUNCE \<le> max 0 (now_wall - iv_since entry) then
            let w1 = condemn_bytes E C F root t path run_id bytes ''invalid JSON'' w in
            w1\<lparr>tracker := hm_put key (entry\<lparr>iv_condemned := True\<rparr>) (tracker w1)\<rparr>
          else w)"

section \<open>One reply file\<close>

text \<open>\<open>ReplyEngine::project_status\<close>; the listener it notifies holds no state.\<close>

definition project_status ::
  "codec \<Rightarrow> faults \<Rightarrow> string \<Rightarrow> timer \<Rightarrow> uuid \<Rightarrow> 'z site_scheme \<Rightarrow> (tree_error + unit) \<times> 'z site_scheme" where
  "project_status C F root t run_id w =
     (case (get_run (db w) run_id, get_run_state (db w) run_id) of
        (Some claim, Some row) \<Rightarrow> write_status C F root t (status_from_run_state t claim row) w
      | _ \<Rightarrow> (Inr (), w))"

definition project_counted ::
  "codec \<Rightarrow> faults \<Rightarrow> string \<Rightarrow> timer \<Rightarrow> uuid \<Rightarrow> 'z watch_scheme \<Rightarrow> 'z watch_scheme" where
  "project_counted C F root t run_id w =
     (let (r, w1) = project_status C F root t run_id w in
      case r of Inl _ \<Rightarrow> count_stat (errors_update Suc) w1 | Inr _ \<Rightarrow> w1)"

definition handle_bytes ::
  "env \<Rightarrow> codec \<Rightarrow> faults \<Rightarrow> string \<Rightarrow> timer \<Rightarrow> string \<Rightarrow> uuid \<Rightarrow> string \<Rightarrow> instant \<Rightarrow> nat \<Rightarrow>
     'z watch_scheme \<Rightarrow> 'z watch_scheme exec" where
  "handle_bytes E C F root t path file_run_id bytes now_wall mono_now w =
     (let digest = fnv1a64_hex bytes in
      case reply_parse C bytes of
        None \<Rightarrow> ret (track_invalid E C F root t path file_run_id bytes digest now_wall w)
      | Some doc \<Rightarrow>
          let w1 = w\<lparr>tracker := hm_remove (path_of path) (tracker w)\<rparr> in
          if is_untouched_stub doc file_run_id (expected_owner (db w1) (t_id t) file_run_id) then ret w1
          else if names_other_run doc file_run_id
          then ret (condemn_bytes E C F root t path file_run_id bytes
                      ''run_id does not match the reply filename'' w1)
          else
            do { (out, w2) \<leftarrow> ingest E t doc digest now_wall mono_now w1;
                 ret (case out of
                   Applied \<Rightarrow> project_counted C F root t file_run_id (count_stat (applied_update Suc) w2)
                 | Duplicate \<Rightarrow> count_stat (duplicates_update Suc) w2
                 | SupersededReply \<Rightarrow> count_stat (superseded_update Suc) (file_del path w2)
                 | Rejected reason \<Rightarrow>
                     condemn_bytes E C F root t path file_run_id bytes (rejection_as_str reason) w2) })"

fun poll_entries ::
  "env \<Rightarrow> codec \<Rightarrow> faults \<Rightarrow> string \<Rightarrow> timer \<Rightarrow> string \<Rightarrow> instant \<Rightarrow> nat \<Rightarrow> string list \<Rightarrow>
     'z watch_scheme \<Rightarrow> 'z watch_scheme exec" where
  "poll_entries E C F root t folder now_wall mono_now [] w = ret w"
| "poll_entries E C F root t folder now_wall mono_now (name # names) w =
     (case reply_run_id_from_name C name of
        None \<Rightarrow> poll_entries E C F root t folder now_wall mono_now names w
      | Some file_run_id \<Rightarrow>
          let path = path_join folder name in
          do { w1 \<leftarrow> (case read_reply_file F path w of
                    Missing \<Rightarrow> ret w
                  | Oversize len \<Rightarrow> ret (condemn_unread E C F root t path file_run_id len ''oversize'' w)
                  | Special k \<Rightarrow> ret (condemn_unread E C F root t path file_run_id 0 k w)
                  | ReadBytes bytes \<Rightarrow> handle_bytes E C F root t path file_run_id bytes now_wall mono_now w
                  | ReadError \<Rightarrow> ret (count_stat (errors_update Suc) w));
               poll_entries E C F root t folder now_wall mono_now names w1 })"

definition poll_timer ::
  "env \<Rightarrow> codec \<Rightarrow> faults \<Rightarrow> string \<Rightarrow> timer \<Rightarrow> instant \<Rightarrow> nat \<Rightarrow> 'z watch_scheme \<Rightarrow> 'z watch_scheme exec" where
  "poll_timer E C F root t now_wall mono_now w =
     (if gate_fails F (t_id t) then ret (count_stat (errors_update Suc) w)
      else
        case folder_for C F root (t_id t) w of
          None \<Rightarrow> ret w
        | Some folder \<Rightarrow>
            if list_fails F folder then ret w
            else poll_entries E C F root t folder now_wall mono_now (names_in w folder) w)"

section \<open>The deadline pass\<close>

text \<open>Due runs grouped by timer, in the order their timers first appear (a hash map's order is free).\<close>

fun collect_due ::
  "deadline_kind \<Rightarrow> uuid list \<Rightarrow> (uuid \<times> (uuid \<times> deadline_kind) list) list \<Rightarrow> 'z world_scheme \<Rightarrow>
     (uuid \<times> (uuid \<times> deadline_kind) list) list \<times> 'z world_scheme" where
  "collect_due k [] groups w = (groups, w)"
| "collect_due k (run_id # due) groups w =
     (case get_run_state (db w) run_id of
        None \<Rightarrow> collect_due k due groups (clear_deadlines run_id w)
      | Some row \<Rightarrow>
          collect_due k due
            (hm_put (s_timer_id row)
              ((case hm_get (s_timer_id row) groups of None \<Rightarrow> [] | Some rs \<Rightarrow> rs) @ [(run_id, k)]) groups) w)"

fun expire_runs ::
  "env \<Rightarrow> codec \<Rightarrow> faults \<Rightarrow> string \<Rightarrow> timer \<Rightarrow> instant \<Rightarrow> (uuid \<times> deadline_kind) list \<Rightarrow> nat \<Rightarrow>
     'z watch_scheme \<Rightarrow> nat \<times> 'z watch_scheme" where
  "expire_runs E C F root t now_wall [] n w = (n, w)"
| "expire_runs E C F root t now_wall ((run_id, k) # due) n w =
     (let (moved, w1) = (case k of
            Pickup \<Rightarrow> expire_pickup_one E t run_id now_wall w
          | Watchdog \<Rightarrow> expire_watchdog_one E t run_id now_wall w) in
      if moved then expire_runs E C F root t now_wall due (n + 1) (project_counted C F root t run_id w1)
      else expire_runs E C F root t now_wall due n (clear_deadlines run_id w1))"

fun expire_groups ::
  "env \<Rightarrow> codec \<Rightarrow> faults \<Rightarrow> string \<Rightarrow> instant \<Rightarrow> (uuid \<times> (uuid \<times> deadline_kind) list) list \<Rightarrow> nat \<Rightarrow>
     'z watch_scheme \<Rightarrow> nat \<times> 'z watch_scheme" where
  "expire_groups E C F root now_wall [] n w = (n, w)"
| "expire_groups E C F root now_wall ((timer_id, due) # groups) n w =
     (if gate_fails F timer_id then expire_groups E C F root now_wall groups n (count_stat (errors_update Suc) w)
      else
        case get_timer (db w) timer_id of
          None \<Rightarrow> expire_groups E C F root now_wall groups n w
        | Some t \<Rightarrow>
            let (m, w1) = expire_runs E C F root t now_wall due n w in
            expire_groups E C F root now_wall groups m w1)"

definition expire_all_deadlines ::
  "env \<Rightarrow> codec \<Rightarrow> faults \<Rightarrow> string \<Rightarrow> instant \<Rightarrow> nat \<Rightarrow> 'z watch_scheme \<Rightarrow> (nat \<times> 'z watch_scheme) exec" where
  "expire_all_deadlines E C F root now_wall mono_now w =
     do { (_, w1) \<leftarrow> sync_deadline_book E now_wall mono_now w;
          let (g1, w2) = collect_due Pickup (due_deadlines Pickup mono_now w1) [] w1;
          let (g2, w3) = collect_due Watchdog (due_deadlines Watchdog mono_now w2) g1 w2;
          ret (expire_groups E C F root now_wall g2 0 w3) }"

fun poll_timers ::
  "env \<Rightarrow> codec \<Rightarrow> faults \<Rightarrow> string \<Rightarrow> instant \<Rightarrow> nat \<Rightarrow> timer list \<Rightarrow> 'z watch_scheme \<Rightarrow> 'z watch_scheme exec" where
  "poll_timers E C F root now_wall mono_now [] w = ret w"
| "poll_timers E C F root now_wall mono_now (t # ts) w =
     do { w1 \<leftarrow> poll_timer E C F root t now_wall mono_now w;
          poll_timers E C F root now_wall mono_now ts w1 }"

definition poll_once ::
  "env \<Rightarrow> codec \<Rightarrow> faults \<Rightarrow> string \<Rightarrow> instant \<Rightarrow> nat \<Rightarrow> 'z watch_scheme \<Rightarrow> (poll_stats \<times> 'z watch_scheme) exec" where
  "poll_once E C F root now_wall mono_now w =
     (let (ts, s) = list_timers (db w) in
      do { w1 \<leftarrow> poll_timers E C F root now_wall mono_now ts (w\<lparr>db := s, stats := no_stats\<rparr>);
           (n, w2) \<leftarrow> expire_all_deadlines E C F root now_wall mono_now w1;
           let w3 = count_stat (deadline_transitions_update (\<lambda>d. d + n)) w2;
           ret (stats w3, w3) })"

section \<open>The read before a fire\<close>

datatype barrier = BarrierValid reply_document string string | BarrierRejected | BarrierNone

text \<open>
  A document naming another run is condemned; a valid one is handed to the fire transaction.
  Bytes that do not parse are read once more after the debounce (\<open>reread\<close> is what that second
  read finds) and condemned when they are still the same. The counters of this read are local.
\<close>

definition barrier_document ::
  "env \<Rightarrow> codec \<Rightarrow> faults \<Rightarrow> string \<Rightarrow> timer \<Rightarrow> string \<Rightarrow> uuid \<Rightarrow> reply_document \<Rightarrow> string \<Rightarrow>
     'z watch_scheme \<Rightarrow> barrier \<times> 'z watch_scheme" where
  "barrier_document E C F root t path prev_run_id doc bytes w =
     (if names_other_run doc prev_run_id
      then (BarrierRejected, condemn_bytes E C F root t path prev_run_id bytes
              ''run_id does not match the reply filename'' w)
      else (BarrierValid doc (fnv1a64_hex bytes) bytes, w))"

definition barrier_read ::
  "env \<Rightarrow> codec \<Rightarrow> faults \<Rightarrow> string \<Rightarrow> timer \<Rightarrow> string \<Rightarrow> uuid \<Rightarrow> reply_read \<Rightarrow> 'z watch_scheme \<Rightarrow>
     barrier \<times> 'z watch_scheme" where
  "barrier_read E C F root t folder prev_run_id reread w =
     (let path = path_join folder (reply_file_name C prev_run_id);
          (out, w1) =
            (case read_reply_file F path w of
               ReadBytes bytes \<Rightarrow>
                 (case reply_parse C bytes of
                    Some doc \<Rightarrow>
                      if is_untouched_stub doc prev_run_id (expected_owner (db w) (t_id t) prev_run_id)
                      then (BarrierNone, w)
                      else barrier_document E C F root t path prev_run_id doc bytes w
                  | None \<Rightarrow>
                      (case reread of
                         ReadBytes second \<Rightarrow>
                           (case reply_parse C second of
                              Some doc \<Rightarrow> barrier_document E C F root t path prev_run_id doc second w
                            | None \<Rightarrow>
                                if second = bytes
                                then (BarrierRejected, condemn_bytes E C F root t path prev_run_id second ''invalid JSON'' w)
                                else (BarrierNone, w))
                       | _ \<Rightarrow> (BarrierNone, w)))
             | _ \<Rightarrow> (BarrierNone, w))
      in (out, w1\<lparr>stats := stats w\<rparr>))"

definition quarantine_rejected_bytes ::
  "env \<Rightarrow> codec \<Rightarrow> faults \<Rightarrow> string \<Rightarrow> timer \<Rightarrow> string \<Rightarrow> uuid \<Rightarrow> string \<Rightarrow> string \<Rightarrow>
     'z site_scheme \<Rightarrow> 'z site_scheme" where
  "quarantine_rejected_bytes E C F root t path run_id bytes reason w =
     (if quarantine_lock_fails F then w
      else snd (quarantine_bytes E C F (quarantine_dir root) path bytes reason (t_id t) run_id w))"

section \<open>The reconciler\<close>

definition write_fire_notification ::
  "codec \<Rightarrow> faults \<Rightarrow> string \<Rightarrow> fire_notification \<Rightarrow> 'z site_scheme \<Rightarrow> bool \<times> 'z site_scheme" where
  "write_fire_notification C F slots_root n w =
     (let reply_ok = (case f_reply_path n of None \<Rightarrow> False | Some p \<Rightarrow> file_exists w p) in
      if \<not> file_exists w (f_status_path n) \<or> \<not> reply_ok then (False, w)
      else atomic_write F (fires_dir slots_root) (fire_notification_name C (f_run_id n)) (notif_pretty C n) w)"

definition publish_fire_notification ::
  "codec \<Rightarrow> faults \<Rightarrow> engine \<Rightarrow> timer \<Rightarrow> run_claim \<Rightarrow> string \<Rightarrow> string \<Rightarrow> string \<Rightarrow>
     'z site_scheme \<Rightarrow> bool \<times> 'z site_scheme" where
  "publish_fire_notification C F eng t claim fire_st folder app_name w =
     write_fire_notification C F (path_join (data_dir eng) ''slots'')
       (notification_new fire_st (kind_label (kind (t_occurrence t))) (t_id t) (t_name t) app_name
         (r_id claim) (r_scheduled_for claim) (r_claimed_at claim) (path_join folder STATUS_FILE_NAME)
         (Some (path_join folder (reply_file_name C (r_id claim)))) (map_option socket_path (ipc eng))) w"

definition current_claim :: "store \<Rightarrow> uuid \<Rightarrow> run_claim option" where
  "current_claim s timer_id =
     (let rs = runs_for_timer s timer_id in if rs = [] then None else Some (last rs))"

text \<open>
  The counter of repairs is threaded with the state: what was repaired before a failure stays
  counted.
\<close>

definition counting ::
  "('e + 'a) \<times> 's \<Rightarrow> nat \<Rightarrow> ('e + unit) \<times> (nat \<times> 's)" where
  "counting r n = (case fst r of Inl e \<Rightarrow> (Inl e, (n, snd r)) | Inr _ \<Rightarrow> (Inr (), (n + 1, snd r)))"

text \<open>The status mirror, then the stub.\<close>

definition repair_files ::
  "codec \<Rightarrow> faults \<Rightarrow> string \<Rightarrow> timer \<Rightarrow> string \<Rightarrow> run_claim \<Rightarrow> run_state_row \<Rightarrow> nat \<times> 'z site_scheme \<Rightarrow>
     (tree_error + unit) \<times> (nat \<times> 'z site_scheme)" where
  "repair_files C F root t folder claim row st =
     (let (n, w) = st;
          status_path = path_join folder STATUS_FILE_NAME;
          status = status_from_run_state t claim row;
          stale = read_fails F status_path \<or> file_at w (path_of status_path) \<noteq> Some (status_pretty C status) in
      bindT (if stale then counting (write_status C F root t status w) n else (Inr (), (n, w)))
        (\<lambda>_ (n1, w1).
          let stub_path = path_join folder (reply_file_name C (r_id claim)) in
          if s_selected_transport row \<noteq> Some TRANSPORT_IPC \<and> \<not> file_exists w1 stub_path
          then counting (create_reply_stub C F folder (r_id claim) (s_app_name row) w1) n1
          else (Inr (), (n1, w1))))"

text \<open>The notification: a projection to attempt after the gate is released, or the rewrite of old.\<close>

definition repair_notification ::
  "env \<Rightarrow> codec \<Rightarrow> faults \<Rightarrow> engine \<Rightarrow> timer \<Rightarrow> string \<Rightarrow> run_claim \<Rightarrow> run_state_row \<Rightarrow> nat \<times> 'z site_scheme \<Rightarrow>
     (tree_error + transport_projection option) \<times> (nat \<times> 'z site_scheme)" where
  "repair_notification E C F eng t folder claim row st =
     (let (n, w) = st in
      case transport_projection_of (db w) (r_id claim) of
        Some p \<Rightarrow>
          if p_state p = PENDING then
            (Inr (if p_next_attempt_at p \<le> utc_now E (draws w) then Some p else None),
             (n, w\<lparr>draws := draws w + 1\<rparr>))
          else if p_kind p = KIND_FILE \<and> p_state p = PUBLISHED \<and> \<not> file_exists w (p_target_path p)
          then (Inr (Some p),
            (n, with_db (requeue_transport_projection (utc_now E (draws w)) (p_run_id p))
              (w\<lparr>draws := draws w + 1\<rparr>)))
          else (Inr None, (n, w))
      | None \<Rightarrow>
          let fire_path = path_join (fires_dir (path_join (data_dir eng) ''slots''))
                (fire_notification_name C (r_id claim));
              stub_path = path_join folder (reply_file_name C (r_id claim)) in
          if \<not> file_exists w fire_path \<and> file_exists w stub_path then
            let (ok, w1) = publish_fire_notification C F eng t claim (s_state row) folder (s_app_name row) w in
            if ok then (Inr None, (n + 1, w1)) else (Inl (TreeIo fire_path), (n, w1))
          else (Inr None, (n, w)))"

definition reconcile_timer ::
  "env \<Rightarrow> codec \<Rightarrow> faults \<Rightarrow> engine \<Rightarrow> timer \<Rightarrow> nat \<times> 'z site_scheme \<Rightarrow>
     (tree_error + transport_projection option) \<times> (nat \<times> 'z site_scheme)" where
  "reconcile_timer E C F eng t st =
     (let (n, w) = st; root = tree_root (data_dir eng) in
      if gate_fails F (t_id t) then (Inl (TreeIo ''per-timer gate''), st)
      else
        case folder_for C F root (t_id t) w of
          None \<Rightarrow> (Inr None, st)
        | Some folder \<Rightarrow>
            (case current_claim (db w) (t_id t) of
               None \<Rightarrow> (Inr None, st)
             | Some claim \<Rightarrow>
                 (case get_run_state (db w) (r_id claim) of
                    None \<Rightarrow> (Inr None, st)
                  | Some row \<Rightarrow>
                      bindT (repair_files C F root t folder claim row st)
                        (\<lambda>_ st1. repair_notification E C F eng t folder claim row st1))))"

text \<open>A timer's failure is printed and the next one is taken.\<close>

fun reconcile_each ::
  "env \<Rightarrow> codec \<Rightarrow> faults \<Rightarrow> engine \<Rightarrow> timer list \<Rightarrow> nat \<times> 'z site_scheme \<Rightarrow> (nat \<times> 'z site_scheme) exec" where
  "reconcile_each E C F eng [] st = ret st"
| "reconcile_each E C F eng (t # ts) st =
     (let (r, (n, w)) = reconcile_timer E C F eng t st in
      case r of
        Inr (Some p) \<Rightarrow>
          do { (_, w1) \<leftarrow> attempt_publication E C F (data_dir eng) p (ipc eng) w;
               reconcile_each E C F eng ts (n, w1) }
      | _ \<Rightarrow> reconcile_each E C F eng ts (n, w))"

definition reconcile ::
  "env \<Rightarrow> codec \<Rightarrow> faults \<Rightarrow> engine \<Rightarrow> 'z site_scheme \<Rightarrow> (nat \<times> 'z site_scheme) exec" where
  "reconcile E C F eng w =
     (let (ts, s) = list_timers (db w) in reconcile_each E C F eng ts (0, w\<lparr>db := s\<rparr>))"

definition startup_scan ::
  "env \<Rightarrow> codec \<Rightarrow> faults \<Rightarrow> engine \<Rightarrow> instant \<Rightarrow> nat \<Rightarrow> 'z watch_scheme \<Rightarrow> 'z watch_scheme exec" where
  "startup_scan E C F eng now_wall mono_now w =
     (let root = tree_root (data_dir eng) in
      do { (_, w1) \<leftarrow> poll_once E C F root now_wall mono_now (w\<lparr>tracker := []\<rparr>);
           let w2 = (if quarantine_lock_fails F then w1
                     else snd (quarantine_sweep C (quarantine_dir root) w1));
           (_, w3) \<leftarrow> reconcile E C F eng (w2\<lparr>tracker := tracker w\<rparr>);
           ret w3 })"

end
