(* ===== verification/Fire_Tx.thy ===== *)
theory Fire_Tx
  imports Reply_Watcher
begin

text \<open>
  The fire transaction and the delete lifecycle (\<open>tree/mod.rs\<close>): a fire folds the previous run's
  last reply in, supersedes the previous run when it is still open, claims the slot, applies the
  overlap policy, and stores the new run's lifecycle row and wake hint; only then are the files
  projected and the hint attempted. When the transaction fails its store changes are undone,
  what it did to the deadline registries is not.
\<close>

definition run_unresolved :: "store \<Rightarrow> string option \<Rightarrow> run_claim \<Rightarrow> bool" where
  "run_unresolved s owner prev =
     (case get_run_state s (r_id prev) of
        Some row \<Rightarrow> \<not> row_is_terminal row
      | None \<Rightarrow> if owner \<noteq> None then True else is_unfinished prev)"

text \<open>The latest run of the timer, other than an excluded one, when it is unresolved.\<close>

definition current_unresolved_run :: "store \<Rightarrow> timer \<Rightarrow> uuid option \<Rightarrow> run_claim option" where
  "current_unresolved_run s t exclude_run =
     (case List.find (\<lambda>r. Some (r_id r) \<noteq> exclude_run) (rev (runs_for_timer s (t_id t))) of
        None \<Rightarrow> None
      | Some prev \<Rightarrow> if run_unresolved s (get_timer_owner s (t_id t)) prev then Some prev else None)"

text \<open>The run's row in a closing state: its deadlines are disarmed.\<close>

definition close_row :: "run_state \<Rightarrow> uuid \<Rightarrow> 'z world_scheme \<Rightarrow> 'z world_scheme" where
  "close_row st run_id w =
     (case get_run_state (db w) run_id of
        None \<Rightarrow> w
      | Some row \<Rightarrow>
          set_row (row\<lparr>s_state := as_str st, s_pickup_deadline := None, s_watchdog_deadline := None\<rparr>) w)"

definition close_run ::
  "env \<Rightarrow> timer \<Rightarrow> run_state \<Rightarrow> string \<Rightarrow> run_claim \<Rightarrow> 'z world_scheme \<Rightarrow> 'z world_scheme" where
  "close_run E t st message prev w =
     close_row st (r_id prev)
       (emit E st (\<lambda>e. with_message (run_event t (r_id prev) (r_scheduled_for prev) e) message) w)"

definition supersede_previous ::
  "env \<Rightarrow> timer \<Rightarrow> string option \<Rightarrow> run_claim option \<Rightarrow> 'z world_scheme \<Rightarrow> uuid option \<times> 'z world_scheme" where
  "supersede_previous E t owner prev w =
     (case prev of
        None \<Rightarrow> (None, w)
      | Some p \<Rightarrow>
          if run_unresolved (db w) owner p
          then (Some (r_id p), close_run E t Superseded ''superseded by a new firing while still unresolved'' p w)
          else (None, w))"

section \<open>The overlap policy\<close>

fun replace_pending :: "env \<Rightarrow> timer \<Rightarrow> run_claim list \<Rightarrow> 'z world_scheme \<Rightarrow> 'z world_scheme" where
  "replace_pending E t [] w = w"
| "replace_pending E t (p # ps) w =
     (let (hit, s) = finish_run_conn (utc_now E (draws w)) (r_id p) WakeFailed
                       ''overlap_replace_before_start'' (db w);
          w1 = w\<lparr>db := s, draws := draws w + 1\<rparr> in
      replace_pending E t ps
        (if hit then emit E WakeFailedEv (\<lambda>e. with_message
           (run_event t (r_id p) (r_scheduled_for p) e) ''overlap_replace_before_start'') w1
         else w1))"

definition skip_reason :: "overlap_policy \<Rightarrow> nat \<Rightarrow> string option" where
  "skip_reason policy unfinished = (case policy of
     OverlapSkip \<Rightarrow> if 1 \<le> unfinished then Some ''overlap_skip'' else None
   | QueueOne \<Rightarrow> if 2 \<le> unfinished then Some ''overlap_queue_full'' else None
   | Parallel cap \<Rightarrow> if cap \<le> unfinished then Some ''overlap_parallel_cap'' else None
   | Replace \<Rightarrow> None)"

definition apply_overlap_disposition ::
  "env \<Rightarrow> timer \<Rightarrow> run_claim \<Rightarrow> 'z world_scheme \<Rightarrow> run_claim \<times> 'z world_scheme" where
  "apply_overlap_disposition E t claim w =
     (case t_overlap t of
        Replace \<Rightarrow>
          let w1 = replace_pending E t (pending_claims_for_timer (db w) (t_id t) (r_id claim)) w;
              (_, s) = request_cancel_active (t_id t) (r_id claim) (db w1) in
          (claim, w1\<lparr>db := s\<rparr>)
      | policy \<Rightarrow>
          (case skip_reason policy (unfinished_claims_count (db w) (t_id t) (r_id claim)) of
             None \<Rightarrow> (claim, w)
           | Some reason \<Rightarrow>
               let (_, s) = finish_run_conn (utc_now E (draws w)) (r_id claim) SkippedMisfire reason (db w);
                   w1 = emit E SkippedMisfireEv (\<lambda>e. with_message
                          (run_event t (r_id claim) (r_scheduled_for claim) e) reason)
                          (w\<lparr>db := s, draws := draws w + 1\<rparr>) in
               (case get_run (db w1) (r_id claim) of None \<Rightarrow> claim | Some c \<Rightarrow> c, w1)))"

definition fire_line :: "env \<Rightarrow> fire_kind \<Rightarrow> timer \<Rightarrow> run_claim \<Rightarrow> 'z world_scheme \<Rightarrow> 'z world_scheme" where
  "fire_line E k t claim w =
     (let base = run_event t (r_id claim) (r_scheduled_for claim) in
      case k of
        OnTime \<Rightarrow> emit E Fired base w
      | Late lateness \<Rightarrow> emit E FiredLate (\<lambda>e. with_duration_ms (base e) (num_milliseconds lateness)) w
      | CoalescedFire missed \<Rightarrow> emit E Coalesced (\<lambda>e. with_count (base e) missed) w
      | CatchUpFire index \<Rightarrow> emit E Fired (\<lambda>e. with_message (with_count (base e) index) ''catch_up'') w)"

section \<open>The transaction\<close>

record fire_result =
  fr_claim :: run_claim
  fr_projection :: "transport_projection option"
  fr_superseded :: "uuid option"
  fr_quarantine :: "(string \<times> string) option"

text \<open>The previous run's last reply, read before; a semantic rejection is logged and kept for the quarantine.\<close>

definition barrier_ingest ::
  "env \<Rightarrow> timer \<Rightarrow> run_claim option \<Rightarrow> barrier \<Rightarrow> instant \<Rightarrow> 'z world_scheme \<Rightarrow>
     ((string \<times> string) option \<times> 'z world_scheme) exec" where
  "barrier_ingest E t prev barrier now w =
     (case (prev, barrier) of
        (Some p, BarrierValid doc digest bytes) \<Rightarrow>
          do { (out, w1) \<leftarrow> ingest_as_current E t doc digest (r_id p) now (instant_now E) w;
               ret (case out of
                 Rejected reason \<Rightarrow>
                   (Some (bytes, rejection_as_str reason),
                    log_rejection E t (Some (r_id p)) (rejection_as_str reason) w1)
               | _ \<Rightarrow> (None, w1)) }
      | _ \<Rightarrow> ret (None, w))"

text \<open>The lifecycle row and the wake hint of an owned timer's run.\<close>

definition open_lifecycle ::
  "env \<Rightarrow> codec \<Rightarrow> engine \<Rightarrow> timer \<Rightarrow> fire_kind \<Rightarrow> string \<Rightarrow> selected_transport \<Rightarrow> string \<Rightarrow> run_claim \<Rightarrow>
     instant \<Rightarrow> 'z world_scheme \<Rightarrow> ((store_error + transport_projection) \<times> 'z world_scheme) exec" where
  "open_lifecycle E C eng t k folder selected app_name claim now w =
     do { deadline \<leftarrow> instant_add (env_lib E) now
            (case from_std (env_lib E) (pickup_grace eng) of None \<Rightarrow> 60 * sec_ns | Some d \<Rightarrow> d);
          let row = run_state_with_transport
                (run_state_fired (r_id claim) (t_id t) app_name (fire_state k) (r_claimed_at claim) deadline)
                (selected_as_str selected);
          case insert_run_state row (db w) of
            Inl e \<Rightarrow> ret (Inl e, w)
          | Inr s \<Rightarrow>
              let p = new_projection C eng t claim (fire_state k) folder app_name
                        (next_publication_order s) now selected in
              ret (Inr p, w\<lparr>db := insert_transport_projection p s\<rparr>) }"

definition fire_tx ::
  "env \<Rightarrow> codec \<Rightarrow> engine \<Rightarrow> timer \<Rightarrow> instant \<Rightarrow> fire_kind \<Rightarrow> string option \<Rightarrow> selected_transport \<Rightarrow> string \<Rightarrow>
     run_claim option \<Rightarrow> barrier \<Rightarrow> instant \<Rightarrow> 'z world_scheme \<Rightarrow>
     ((store_error + fire_result) \<times> 'z world_scheme) exec" where
  "fire_tx E C eng t scheduled_for k owner selected folder prev barrier now w =
     do { (quar, w1) \<leftarrow> barrier_ingest E t prev barrier now w;
          let (superseded, w2) = supersede_previous E t owner prev w1;
          let w3 = w2\<lparr>draws := draws w2 + 1\<rparr>;
          case claim_run_conn (utc_now E (draws w2)) (new_uuid E (draws w2)) (t_id t) scheduled_for (db w2) of
            Inl e \<Rightarrow> ret (Inl e, w3)
          | Inr (claimed, s) \<Rightarrow>
              let w4 = fire_line E k t claimed (w3\<lparr>db := s\<rparr>);
                  (claim, w5) = apply_overlap_disposition E t claimed w4;
                  done = (\<lambda>p. \<lparr>fr_claim = claim, fr_projection = p, fr_superseded = superseded,
                              fr_quarantine = quar\<rparr>) in
              (case owner of
                 None \<Rightarrow> ret (Inr (done None), w5)
               | Some app_name \<Rightarrow>
                   do { (r, w6) \<leftarrow> open_lifecycle E C eng t k folder selected app_name claim now w5;
                        ret (case r of Inl e \<Rightarrow> Inl e | Inr p \<Rightarrow> Inr (done (Some p)), w6) }) }"

section \<open>The whole fire\<close>

text \<open>The files of the committed fire; the first failure ends them and is printed.\<close>

definition project_files ::
  "codec \<Rightarrow> faults \<Rightarrow> string \<Rightarrow> string \<Rightarrow> timer \<Rightarrow> run_claim \<Rightarrow> fire_kind \<Rightarrow> string option \<Rightarrow>
     selected_transport \<Rightarrow> 'z site_scheme \<Rightarrow> (tree_error + unit) \<times> 'z site_scheme" where
  "project_files C F root folder t claim k owner selected w =
     bindT (remove_stale_replies C F folder (r_id claim) w) (\<lambda>_ w1.
     bindT (write_status C F root t
              (status_fired t claim k owner (map_option (\<lambda>_. selected_as_str selected) owner)) w1) (\<lambda>_ w2.
     case owner of
       None \<Rightarrow> (Inr (), w2)
     | Some app_name \<Rightarrow>
         if selected = SelectedJson
         then bindT (create_reply_stub C F folder (r_id claim) app_name w2) (\<lambda>_ w3. (Inr (), w3))
         else (Inr (), w2)))"

definition after_commit ::
  "env \<Rightarrow> codec \<Rightarrow> faults \<Rightarrow> engine \<Rightarrow> timer \<Rightarrow> fire_kind \<Rightarrow> string option \<Rightarrow> selected_transport \<Rightarrow> string \<Rightarrow>
     run_claim option \<Rightarrow> instant \<Rightarrow> fire_result \<Rightarrow> 'z site_scheme \<Rightarrow> 'z site_scheme exec" where
  "after_commit E C F eng t k owner selected folder prev now fr w =
     (let claim = fr_claim fr; root = tree_root (data_dir eng) in
      do { w1 \<leftarrow> (if owner \<noteq> None then register_fire E (pickup_grace eng) (r_id claim) now w else ret w);
           let w2 = (case fr_superseded fr of None \<Rightarrow> w1 | Some i \<Rightarrow> clear_deadlines i w1);
           let w3 = (case (fr_quarantine fr, prev) of
                 (Some (bytes, reason), Some p) \<Rightarrow>
                   quarantine_rejected_bytes E C F root t (path_join folder (reply_file_name C (r_id p)))
                     (r_id p) bytes reason w2
               | _ \<Rightarrow> w2);
           let w4 = snd (project_files C F root folder t claim k owner selected w3);
           case fr_projection fr of
             None \<Rightarrow> ret w4
           | Some p \<Rightarrow> do { (_, w5) \<leftarrow> attempt_publication E C F (data_dir eng) p (ipc eng) w4; ret w5 } })"

definition project_fire ::
  "env \<Rightarrow> codec \<Rightarrow> faults \<Rightarrow> engine \<Rightarrow> string option \<Rightarrow> timer \<Rightarrow> instant \<Rightarrow> fire_kind \<Rightarrow> instant \<Rightarrow> reply_read \<Rightarrow>
     'z watch_scheme \<Rightarrow> ((tree_error + run_claim) \<times> 'z watch_scheme) exec" where
  "project_fire E C F eng socket t scheduled_for k now reread w =
     (let root = tree_root (data_dir eng); owner = get_timer_owner (db w) (t_id t) in
      if gate_fails F (t_id t) then ret (Inl (TreeIo ''per-timer gate''), w)
      else
        case sync_timer_json C F socket root t owner w of
          (Inl e, w1) \<Rightarrow> ret (Inl e, w1)
        | (Inr folder, w1) \<Rightarrow>
            let selected = select_transport t eng; prev = current_claim (db w1) (t_id t);
                (barrier, w2) = (case prev of
                    None \<Rightarrow> (BarrierNone, w1)
                  | Some p \<Rightarrow> barrier_read E C F root t folder (r_id p) reread w1) in
            do { (r, w3) \<leftarrow> fire_tx E C eng t scheduled_for k owner selected folder prev barrier now w2;
                 case r of
                   Inl e \<Rightarrow> ret (Inl (TreeStore e), w3\<lparr>db := db w2\<rparr>)
                 | Inr fr \<Rightarrow>
                     do { w4 \<leftarrow> after_commit E C F eng t k owner selected folder prev now fr w3;
                          ret (Inr (fr_claim fr), w4) } })"

section \<open>Deleting a timer\<close>

definition log_cancelled_for_open_runs :: "env \<Rightarrow> timer \<Rightarrow> 'z world_scheme \<Rightarrow> nat \<times> 'z world_scheme" where
  "log_cancelled_for_open_runs E t w =
     (case current_unresolved_run (db w) t None of
        None \<Rightarrow> (0, w)
      | Some run \<Rightarrow> (1, close_run E t Cancelled ''timer deleted while its run was open'' run w))"

text \<open>The cancelled event and the removal of everything the timer owns, in one transaction.\<close>

definition delete_timer_lifecycle :: "env \<Rightarrow> timer \<Rightarrow> 'z world_scheme \<Rightarrow> (bool \<times> nat) \<times> 'z world_scheme" where
  "delete_timer_lifecycle E t w =
     (let owner = get_timer_owner (db w) (t_id t);
          (cancelled, w1) = (case current_claim (db w) (t_id t) of
              None \<Rightarrow> (0, w)
            | Some prev \<Rightarrow>
                if run_unresolved (db w) owner prev
                then (1, close_run E t Cancelled ''timer deleted while its run was open'' prev w)
                else (0, w));
          (deleted, s1) = delete_timer (db w1) (t_id t);
          s2 = clear_timer_owner s1 (t_id t);
          s3 = s2\<lparr>slot_event_acks := row_del (\<lambda>r. fst r = t_id t) (slot_event_acks s2)\<rparr>
      in ((deleted, cancelled), w1\<lparr>db := prune_transport_for_timer (t_id t) s3\<rparr>))"

end
