(* ===== verification/Fire_Properties.thy ===== *)
theory Fire_Properties
  imports Fire_Tx Publication_Properties
begin

text \<open>
  The properties of the fire transaction (\<open>tree/mod.rs\<close>): the overlap policies, what a commit
  leaves behind, what a failed fire leaves as it was, the delete lifecycle.
\<close>

section \<open>The overlap policies\<close>

lemma get_run_set:
  assumes "\<And>r. r_id (f r) = r_id r"
  shows "get_run (s\<lparr>runs := row_set P f (runs s)\<rparr>) i = map_option (\<lambda>r. if P r then f r else r) (get_run s i)"
proof -
  have "row_get r_id i (row_set P f rows) = map_option (\<lambda>r. if P r then f r else r) (row_get r_id i rows)" for rows
    using assms by (induction rows) (auto simp: row_get_def row_set_def)
  then show ?thesis by (simp add: get_run_def)
qed

lemma get_run_id: "get_run s i = Some r \<Longrightarrow> r_id r = i"
  by (auto simp: get_run_def dest: row_get_Some)

lemma get_run_frame [simp]:
  "get_run (db (emit E k f w)) i = get_run (db w) i"
  "get_run (enqueue_event e s) i = get_run s i" "get_run (update_run_state row s) i = get_run s i"
  by (simp_all add: get_run_def)

lemma get_run_finish:
  "get_run (snd (finish_run_conn now j out reason s)) i =
     map_option (\<lambda>r. if r_id r = j \<and> open_status (r_status r) then finish_row now out (Some reason) r else r)
       (get_run s i)"
  by (simp add: finish_run_conn_def Let_def get_run_set finish_row_def)

lemma get_run_cancel:
  "get_run (snd (request_cancel_active t x s)) i =
     map_option (\<lambda>r. if r_timer r = t \<and> r_id r \<noteq> x \<and> r_status r = Active then r\<lparr>r_cancel_requested := True\<rparr> else r)
       (get_run s i)"
  by (simp add: request_cancel_active_def Let_def get_run_set)

lemma finished_not_open: "\<not> open_status (r_status (finish_row now out reason r))"
  by (simp add: finish_row_def open_status_def)

lemma replace_pending_run:
  "\<exists>now. get_run (db (replace_pending E t ps w)) i =
     map_option (\<lambda>r. if i \<in> r_id ` set ps \<and> open_status (r_status r)
       then finish_row now WakeFailed (Some ''overlap_replace_before_start'') r else r) (get_run (db w) i)"
proof (induction ps arbitrary: w)
  case (Cons p ps)
  obtain hit s where fs: "finish_run_conn (utc_now E (draws w)) (r_id p) WakeFailed
      ''overlap_replace_before_start'' (db w) = (hit, s)" by fastforce
  define w1 where "w1 = w\<lparr>db := s, draws := draws w + 1\<rparr>"
  define w2 where "w2 = (if hit then emit E WakeFailedEv (\<lambda>e. with_message
      (run_event t (r_id p) (r_scheduled_for p) e) ''overlap_replace_before_start'') w1 else w1)"
  have step: "replace_pending E t (p # ps) w = replace_pending E t ps w2"
    by (simp add: fs w1_def w2_def Let_def)
  have g: "get_run (db w2) i = map_option (\<lambda>r. if r_id r = r_id p \<and> open_status (r_status r)
      then finish_row (utc_now E (draws w)) WakeFailed (Some ''overlap_replace_before_start'') r else r)
      (get_run (db w) i)"
    using get_run_finish [of "utc_now E (draws w)" "r_id p" WakeFailed "''overlap_replace_before_start''" "db w" i]
    by (simp add: fs w2_def w1_def)
  obtain now where now: "get_run (db (replace_pending E t ps w2)) i =
      map_option (\<lambda>r. if i \<in> r_id ` set ps \<and> open_status (r_status r)
       then finish_row now WakeFailed (Some ''overlap_replace_before_start'') r else r) (get_run (db w2) i)"
    using Cons.IH by blast
  show ?case
  proof (cases "get_run (db w) i")
    case None
    then show ?thesis unfolding step now g by simp
  next
    case (Some r)
    show ?thesis
    proof (cases "r_id p = i \<and> open_status (r_status r)")
      case True
      with Some get_run_id [OF Some] show ?thesis
        unfolding step now g by (intro exI [of _ "utc_now E (draws w)"]) (simp add: finished_not_open)
    next
      case False
      with Some get_run_id [OF Some] show ?thesis
        unfolding step now g by (intro exI [of _ now]) auto
    qed
  qed
qed (simp add: option.map_ident)

text \<open>What a policy admits, given the number of older unfinished runs.\<close>

definition admitted :: "overlap_policy \<Rightarrow> nat \<Rightarrow> bool" where
  "admitted policy older = (case policy of
     OverlapSkip \<Rightarrow> older = 0 | QueueOne \<Rightarrow> older \<le> 1 | Parallel cap \<Rightarrow> older < cap | Replace \<Rightarrow> True)"

text \<open>What becomes of another run of the store when a run of timer \<open>i\<close> has been fired.\<close>

definition displaced :: "overlap_policy \<Rightarrow> uuid \<Rightarrow> instant \<Rightarrow> run_claim \<Rightarrow> run_claim" where
  "displaced policy i now r =
     (if policy = Replace \<and> r_timer r = i then
        case r_status r of
          Pending \<Rightarrow> finish_row now WakeFailed (Some ''overlap_replace_before_start'') r
        | Active \<Rightarrow> r\<lparr>r_cancel_requested := True\<rparr>
        | Finished \<Rightarrow> r
      else r)"

lemma overlap_disposition_cases:
  assumes "get_run (db w) (r_id claim) = Some claim" "r_timer claim = t_id t" "r_status claim = Pending"
    and "keyed r_id (runs (db w))"
    and "apply_overlap_disposition E t claim w = (c, w')"
  shows "get_run (db w') (r_id claim) = Some c \<and>
    (if admitted (t_overlap t) (unfinished_claims_count (db w) (t_id t) (r_id claim)) then c = claim
     else \<exists>now reason. c = finish_row now SkippedMisfire (Some reason) claim) \<and>
    (\<forall>i. i \<noteq> r_id claim \<longrightarrow> (\<exists>now. get_run (db w') i =
       map_option (displaced (t_overlap t) (t_id t) now) (get_run (db w) i)))"
proof (cases "t_overlap t = Replace")
  case True
  define ps where "ps = pending_claims_for_timer (db w) (t_id t) (r_id claim)"
  define w1 where "w1 = replace_pending E t ps w"
  have w': "c = claim" "db w' = snd (request_cancel_active (t_id t) (r_id claim) (db w1))"
    using assms(5) True by (auto simp: apply_overlap_disposition_def ps_def w1_def Let_def split: prod.splits)
  have ps: "i \<in> r_id ` set ps \<longleftrightarrow> (\<exists>r. get_run (db w) i = Some r \<and> r_timer r = t_id t \<and> i \<noteq> r_id claim \<and> r_status r = Pending)" for i
    using assms(4) by (auto simp: ps_def pending_claims_for_timer_def get_run_def row_get_iff image_iff)
  have g: "\<exists>now. get_run (db w') i = map_option (\<lambda>r. if i = r_id claim then r else displaced Replace (t_id t) now r)
      (get_run (db w) i)" for i
  proof -
    obtain now where now: "get_run (db w1) i = map_option (\<lambda>r. if i \<in> r_id ` set ps \<and> open_status (r_status r)
       then finish_row now WakeFailed (Some ''overlap_replace_before_start'') r else r) (get_run (db w) i)"
      unfolding w1_def using replace_pending_run by blast
    show ?thesis
    proof (rule exI [of _ now], cases "get_run (db w) i")
      case None
      then show "get_run (db w') i = map_option (\<lambda>r. if i = r_id claim then r else displaced Replace (t_id t) now r) (get_run (db w) i)"
        unfolding w'(2) get_run_cancel now by simp
    next
      case (Some r)
      then show "get_run (db w') i = map_option (\<lambda>r. if i = r_id claim then r else displaced Replace (t_id t) now r) (get_run (db w) i)"
        unfolding w'(2) get_run_cancel now ps using get_run_id [OF Some] assms(1,3)
        by (cases "r_status r") (auto simp: displaced_def open_status_def finish_row_def)
    qed
  qed
  obtain now where "get_run (db w') (r_id claim) = map_option (\<lambda>r. if r_id claim = r_id claim then r
      else displaced Replace (t_id t) now r) (get_run (db w) (r_id claim))" using g by blast
  then have "get_run (db w') (r_id claim) = Some claim" by (simp add: assms(1))
  moreover have "\<exists>now. get_run (db w') i = map_option (displaced (t_overlap t) (t_id t) now) (get_run (db w) i)"
    if "i \<noteq> r_id claim" for i
    using g [of i] that True by simp
  ultimately show ?thesis using w'(1) True by (simp add: admitted_def)
next
  case False
  define older where "older = unfinished_claims_count (db w) (t_id t) (r_id claim)"
  have adm: "skip_reason (t_overlap t) older = None \<longleftrightarrow> admitted (t_overlap t) older"
    using False by (cases "t_overlap t") (auto simp: skip_reason_def admitted_def)
  have disp: "displaced (t_overlap t) (t_id t) now = (\<lambda>r. r)" for now
    using False by (auto simp: displaced_def fun_eq_iff)
  show ?thesis
  proof (cases "skip_reason (t_overlap t) older")
    case None
    then have "c = claim" "w' = w"
      using assms(5) False by (auto simp: apply_overlap_disposition_def older_def split: overlap_policy.splits)
    with None adm assms(1) show ?thesis by (simp add: older_def [symmetric] disp option.map_ident)
  next
    case (Some reason)
    define s where "s = snd (finish_run_conn (utc_now E (draws w)) (r_id claim) SkippedMisfire reason (db w))"
    have "c = (case get_run (db w') (r_id claim) of None \<Rightarrow> claim | Some c \<Rightarrow> c)"
      "\<And>i. get_run (db w') i = get_run s i"
      using assms(5) False Some
      by (auto simp: apply_overlap_disposition_def older_def s_def Let_def split: overlap_policy.splits prod.splits)
    moreover have "get_run s (r_id claim) = Some (finish_row (utc_now E (draws w)) SkippedMisfire (Some reason) claim)"
      by (simp add: s_def get_run_finish assms(1,3) open_status_def)
    moreover have "get_run s i = get_run (db w) i" if "i \<noteq> r_id claim" for i
    proof (cases "get_run (db w) i")
      case (Some r)
      with that get_run_id [OF Some] show ?thesis by (simp add: s_def get_run_finish)
    qed (simp add: s_def get_run_finish)
    ultimately show ?thesis
      using Some adm by (simp add: older_def [symmetric] disp option.map_ident) blast
  qed
qed

text \<open>C13: The overlap policy decides exactly as documented. The new run stays pending when the timer
  has no older unfinished run (skip), at most one (queue one), fewer than the cap (parallel), or
  always (replace), and is otherwise finished as skipped. Under replace every older pending run
  of the timer is finished as failed before its start and every older active one is asked to
  cancel; no other run is touched.\<close>

theorem overlap_policy_exact:
  assumes "get_run (db w) (r_id claim) = Some claim" "r_timer claim = t_id t" "r_status claim = Pending"
    and "keyed r_id (runs (db w))"
    and "apply_overlap_disposition E t claim w = (c, w')"
  shows "get_run (db w') (r_id claim) = Some c \<and>
    (if admitted (t_overlap t) (unfinished_claims_count (db w) (t_id t) (r_id claim)) then c = claim
     else r_status c = Finished \<and> r_outcome c = Some SkippedMisfire \<and> r_id c = r_id claim) \<and>
    (\<forall>i. i \<noteq> r_id claim \<longrightarrow> (\<exists>now. get_run (db w') i =
       map_option (displaced (t_overlap t) (t_id t) now) (get_run (db w) i)))"
  using overlap_disposition_cases [OF assms] by (auto simp: finish_row_def)

section \<open>What a transaction leaves alone\<close>

text \<open>The tables a reply or a log line never writes.\<close>

definition ledger where
  "ledger s = (runs s, timers s, timer_owners s, slot_event_acks s, transport_projections s, target_cursors s,
     map s_run_id (run_states s))"

lemma ledger_update [simp]: "ledger (update_run_state row s) = ledger s" "ledger (enqueue_event e s) = ledger s"
  by (simp_all add: ledger_def update_run_state_def enqueue_event_def comp_def row_set_def)

lemma ledger_emit [simp]: "ledger (db (emit E k f w)) = ledger (db w)" "ledger (db (set_row row w)) = ledger (db w)"
  by (simp_all add: emit_def set_row_def)

lemma ledger_lines:
  "ledger (db (snd (ack_line E t c now row w))) = ledger (db w)"
  "ledger (db (snd (running_line E t c doc st now row w))) = ledger (db w)"
  "ledger (db (terminal_line E t c doc cur st now row w)) = ledger (db w)"
  by (simp_all add: ack_line_def running_line_def terminal_line_def Let_def duration_ms_def split: option.splits)

lemma ledger_apply:
  assumes "apply_reply E t c row doc st digest now mono_now w = Some w'"
  shows "ledger (db w') = ledger (db w)"
proof -
  define row2 where "row2 = (terminal_fields E doc st now (accumulate doc st now row))
    \<lparr>s_pickup_deadline := None, s_state := as_str st\<rparr>"
  have "rearm E st now mono_now row2 w \<noteq> None"
  proof
    assume "rearm E st now mono_now row2 w = None"
    with assms show False unfolding apply_reply_def Let_def row2_def by (simp only: Option.bind.simps option.distinct)
  qed
  then obtain row3 w3 where 3: "rearm E st now mono_now row2 w = Some (row3, w3)" by (rule pair_SomeE)
  have d3: "db w3 = db w" by (rule rearmE [OF 3])
  obtain row4 w4 where 4: "ack_line E t c now row3 w3 = (row4, w4)" by (rule prod.exhaust)
  obtain row5 w5 where 5: "running_line E t c doc st now row4 w4 = (row5, w5)" by (rule prod.exhaust)
  have w': "w' = set_row (row5\<lparr>s_reply_digest := Some digest\<rparr>)
      (terminal_line E t c doc (row_run_state row) st now row5 w5)"
    using assms unfolding apply_reply_def Let_def row2_def [symmetric] 3
    by (simp only: Option.bind.simps prod.case 4 5 option.inject)
  show ?thesis unfolding w' ledger_emit ledger_lines
    using ledger_lines(1) [of E t c now row3 w3] ledger_lines(2) [of E t c doc st now row4 w4] d3 4 5 by simp
qed

lemma ledger_ingest:
  assumes "ingest_inner E t doc digest now mono_now cur w = Some (out, w')"
  shows "ledger (db w') = ledger (db w)"
  using assms
proof (cases rule: ingest_inner_cases)
  case (late i st c)
  from late(5) show ?thesis
    unfolding late_reply_def Let_def by (simp split: if_splits option.splits)
next
  case (accepted i st c row)
  from ledger_apply [OF accepted(8)] show ?thesis .
qed simp_all

lemma bind_pairE:
  "Option.bind m f = Some b \<Longrightarrow> (\<And>x y. m = Some (x, y) \<Longrightarrow> f (x, y) = Some b \<Longrightarrow> P) \<Longrightarrow> P"
  by (cases m) auto

lemma ledger_log_rejection [simp]: "ledger (db (log_rejection E t i r w)) = ledger (db w)"
  by (simp add: log_rejection_def)

lemma ledger_barrier_ingest:
  assumes "barrier_ingest E t prev barrier now w = Some (quar, w')"
  shows "ledger (db w') = ledger (db w)"
proof (cases "\<exists>p doc digest bytes. prev = Some p \<and> barrier = BarrierValid doc digest bytes")
  case True
  then obtain p doc digest bytes where p: "prev = Some p" "barrier = BarrierValid doc digest bytes" by blast
  from assms have "do { (out, w1) \<leftarrow> ingest_as_current E t doc digest (r_id p) now (instant_now E) w;
      Some (case out of
        Rejected reason \<Rightarrow> (Some (bytes, rejection_as_str reason),
          log_rejection E t (Some (r_id p)) (rejection_as_str reason) w1)
      | _ \<Rightarrow> (None, w1)) } = Some (quar, w')"
    unfolding barrier_ingest_def p prod.case option.case barrier.case .
  then obtain out w1 where i: "ingest_as_current E t doc digest (r_id p) now (instant_now E) w = Some (out, w1)"
    by (rule bind_pairE)
  then have "ledger (db w1) = ledger (db w)" unfolding ingest_as_current_def by (rule ledger_ingest)
  with assms show ?thesis unfolding barrier_ingest_def p prod.case option.case barrier.case i
    by (cases out) auto
next
  case False
  with assms show ?thesis by (auto simp: barrier_ingest_def split: option.splits barrier.splits)
qed

lemma ledger_close [simp]: "ledger (db (close_run E t st m p w)) = ledger (db w)"
  by (simp add: close_run_def close_row_def split: option.splits)

lemma ledger_supersede:
  "supersede_previous E t owner prev w = (old, w') \<Longrightarrow> ledger (db w') = ledger (db w)"
  by (auto simp: supersede_previous_def split: option.splits if_splits)

lemma ledger_fire_line [simp]: "ledger (db (fire_line E k t c w)) = ledger (db w)"
  by (simp add: fire_line_def Let_def split: fire_kind.splits)

section \<open>The steps of a committed transaction\<close>

lemma fire_tx_steps:
  assumes "fire_tx E C eng t scheduled_for k owner selected folder prev barrier now w = Some (Inr fr, w')"
  obtains quar w1 old w2 claimed s w5 where
    "barrier_ingest E t prev barrier now w = Some (quar, w1)"
    "supersede_previous E t owner prev w1 = (old, w2)"
    "claim_run_conn (utc_now E (draws w2)) (new_uuid E (draws w2)) (t_id t) scheduled_for (db w2) = Inr (claimed, s)"
    "apply_overlap_disposition E t claimed
       (fire_line E k t claimed (w2\<lparr>draws := draws w2 + 1, db := s\<rparr>)) = (fr_claim fr, w5)"
    "fr_superseded fr = old" "fr_quarantine fr = quar"
    "owner = None \<Longrightarrow> w' = w5 \<and> fr_projection fr = None"
    "\<And>app. owner = Some app \<Longrightarrow> \<exists>p. fr_projection fr = Some p \<and>
       open_lifecycle E C eng t k folder selected app (fr_claim fr) now w5 = Some (Inr p, w')"
proof -
  from assms obtain quar w1 where 1: "barrier_ingest E t prev barrier now w = Some (quar, w1)"
    unfolding fire_tx_def by (rule bind_pairE)
  obtain old w2 where 2: "supersede_previous E t owner prev w1 = (old, w2)" by fastforce
  define cl where "cl = claim_run_conn (utc_now E (draws w2)) (new_uuid E (draws w2)) (t_id t) scheduled_for (db w2)"
  have tx: "(case cl of
        Inl e \<Rightarrow> Some (Inl e, w2\<lparr>draws := draws w2 + 1\<rparr>)
      | Inr (claimed, s) \<Rightarrow>
          let w4 = fire_line E k t claimed (w2\<lparr>draws := draws w2 + 1, db := s\<rparr>);
              (claim, w5) = apply_overlap_disposition E t claimed w4;
              done = (\<lambda>p. \<lparr>fr_claim = claim, fr_projection = p, fr_superseded = old, fr_quarantine = quar\<rparr>) in
          (case owner of
             None \<Rightarrow> Some (Inr (done None), w5)
           | Some app_name \<Rightarrow>
               do { (r, w6) \<leftarrow> open_lifecycle E C eng t k folder selected app_name claim now w5;
                    Some (case r of Inl e \<Rightarrow> Inl e | Inr p \<Rightarrow> Inr (done (Some p)), w6) }))
      = Some (Inr fr, w')"
    using assms unfolding fire_tx_def 1 Option.bind.simps prod.case Let_def 2 cl_def [symmetric] by simp
  obtain claimed s where 3: "cl = Inr (claimed, s)"
    using tx by (cases cl) (auto split: prod.splits)
  obtain claim w5 where 4: "apply_overlap_disposition E t claimed
      (fire_line E k t claimed (w2\<lparr>draws := draws w2 + 1, db := s\<rparr>)) = (claim, w5)" by fastforce
  show thesis
  proof (cases owner)
    case None
    with tx 3 4 have "fr = \<lparr>fr_claim = claim, fr_projection = None, fr_superseded = old, fr_quarantine = quar\<rparr>"
        "w' = w5" by (simp_all add: Let_def)
    with None that [OF 1 2 3 [unfolded cl_def]] 4 show thesis by simp
  next
    case (Some app)
    from tx have "do { (r, w6) \<leftarrow> open_lifecycle E C eng t k folder selected app claim now w5;
        Some (case r of Inl e \<Rightarrow> Inl e
          | Inr p \<Rightarrow> Inr \<lparr>fr_claim = claim, fr_projection = Some p, fr_superseded = old, fr_quarantine = quar\<rparr>, w6) }
      = Some (Inr fr, w')"
      unfolding 3 sum.case prod.case Let_def 4 Some option.case .
    then obtain r w6 where 5: "open_lifecycle E C eng t k folder selected app claim now w5 = Some (r, w6)"
      by (rule bind_pairE)
    obtain p where p: "r = Inr p"
      using tx 3 4 Some 5 by (cases r) (auto simp: Let_def)
    with tx 3 4 Some 5 have "fr = \<lparr>fr_claim = claim, fr_projection = Some p, fr_superseded = old, fr_quarantine = quar\<rparr>"
        "w' = w6" by (simp_all add: Let_def)
    with Some that [OF 1 2 3 [unfolded cl_def]] 4 5 p show thesis by simp
  qed
qed

lemma open_lifecycle_Inr:
  assumes "open_lifecycle E C eng t k folder selected app claim now w = Some (Inr p, w')"
  shows "runs (db w') = runs (db w)" "p_run_id p = r_id claim" "p_timer_id p = t_id t"
    "p_publication_order p = next_publication_order (db w)" "p_state p = PENDING"
    "transport_projection_of (db w') (r_id claim) = Some p"
    "get_run_state (db w) (r_id claim) = None"
    "\<And>i. i \<noteq> r_id claim \<Longrightarrow> get_run_state (db w') i = get_run_state (db w) i"
    "\<exists>row. get_run_state (db w') (r_id claim) = Some row \<and> s_timer_id row = t_id t \<and> s_app_name row = app \<and>
       s_state row = fire_state k \<and> s_pickup_deadline row \<noteq> None \<and>
       s_selected_transport row = Some (selected_as_str selected)"
proof -
  obtain deadline where d: "instant_add (env_lib E) now
      (case from_std (env_lib E) (pickup_grace eng) of None \<Rightarrow> 60 * sec_ns | Some d \<Rightarrow> d) = Some deadline"
    using assms by (auto simp: open_lifecycle_def bind_Some)
  define row where "row = run_state_with_transport
    (run_state_fired (r_id claim) (t_id t) app (fire_state k) (r_claimed_at claim) deadline) (selected_as_str selected)"
  obtain s where s: "insert_run_state row (db w) = Inr s"
      "p = new_projection C eng t claim (fire_state k) folder app (next_publication_order s) now selected"
      "w' = w\<lparr>db := insert_transport_projection p s\<rparr>"
    using assms unfolding open_lifecycle_def d row_def [symmetric] Let_def
    by (cases "insert_run_state row (db w)") (auto simp: row_def)
  have id: "s_run_id row = r_id claim" by (simp add: row_def run_state_with_transport_def run_state_fired_def)
  have fresh: "get_run_state (db w) (r_id claim) = None"
    and s': "s = (db w)\<lparr>run_states := run_states (db w) @
        [(run_state_fired (s_run_id row) (s_timer_id row) (s_app_name row) (s_state row)
            (s_fired_at row) 0)
         \<lparr>s_pickup_deadline := s_pickup_deadline row,
          s_selected_transport := s_selected_transport row, s_transport := s_transport row\<rparr>]\<rparr>"
    using s(1) by (auto simp: insert_run_state_def id split: if_splits)
  show "runs (db w') = runs (db w)" by (simp add: s(3) s' insert_transport_projection_def)
  show "p_run_id p = r_id claim" "p_timer_id p = t_id t" "p_state p = PENDING"
    by (simp_all add: s(2) new_projection_def Let_def split: selected_transport.splits)
  then show "transport_projection_of (db w') (r_id claim) = Some p"
    by (simp add: s(3) insert_transport_projection_def transport_projection_of_def row_get_append row_get_del)
  show "p_publication_order p = next_publication_order (db w)"
    by (simp add: s(2) s' new_projection_def next_publication_order_def Let_def split: selected_transport.splits)
  show "get_run_state (db w) (r_id claim) = None" by (rule fresh)
  have g: "get_run_state (db w') i = row_get s_run_id i (run_states s)" for i
    by (simp add: s(3) insert_transport_projection_def get_run_state_def)
  show "get_run_state (db w') i = get_run_state (db w) i" if "i \<noteq> r_id claim" for i
    using that unfolding g s'
    by (auto simp: row_get_append id get_run_state_def run_state_fired_def split: option.splits)
  show "\<exists>row. get_run_state (db w') (r_id claim) = Some row \<and> s_timer_id row = t_id t \<and> s_app_name row = app \<and>
       s_state row = fire_state k \<and> s_pickup_deadline row \<noteq> None \<and>
       s_selected_transport row = Some (selected_as_str selected)"
    using fresh unfolding g s'
    by (simp add: row_get_append id get_run_state_def)
      (simp add: row_def run_state_with_transport_def run_state_fired_def)
qed

section \<open>A committed fire\<close>

lemma ledger_runs: "ledger s = ledger s' \<Longrightarrow> runs s = runs s'"
  by (simp add: ledger_def)

lemma runs_fire_line [simp]: "runs (db (fire_line E k t c w)) = runs (db w)"
  by (rule ledger_runs) simp

lemma claimed_facts:
  assumes "claim_run_conn now fresh i slot s = Inr (c, s')"
  shows "\<not> (\<exists>r\<in>set (runs s). r_timer r = i \<and> r_scheduled_for r = slot)" "r_id c = fresh" "r_timer c = i"
    "r_scheduled_for c = slot" "r_status c = Pending" "r_event_sequence c = next_sequence s i"
    "s' = s\<lparr>runs := runs s @ [c]\<rparr>" "\<forall>r\<in>set (runs s). r_id r \<noteq> fresh"
  using assms by (auto simp: claim_run_conn_def Let_def split: if_splits)

lemma overlap_rows:
  assumes "apply_overlap_disposition E t c w = (c', w')"
  shows "run_states (db w') = run_states (db w)"
proof -
  have r: "run_states (db (replace_pending E t ps w)) = run_states (db w)" for ps and w :: "'z world_scheme"
  proof (induction ps arbitrary: w)
    case (Cons p ps)
    then show ?case by (simp add: Let_def finish_run_conn_def)
  qed simp
  from assms show ?thesis
    by (auto simp: apply_overlap_disposition_def Let_def r request_cancel_active_def finish_run_conn_def
        split: overlap_policy.splits option.splits)
qed

lemma supersede_closes:
  assumes "supersede_previous E t owner (Some p) w = (old, w')" "get_run_state (db w') (r_id p) = Some row"
  shows "row_is_terminal row"
proof (cases "run_unresolved (db w) owner p")
  case True
  define w1 where "w1 = emit E Superseded (\<lambda>e. with_message (run_event t (r_id p) (r_scheduled_for p) e)
      ''superseded by a new firing while still unresolved'') w"
  from assms(1) True have w': "w' = close_row Superseded (r_id p) w1"
    by (simp add: supersede_previous_def close_run_def w1_def)
  show ?thesis
  proof (cases "get_run_state (db w1) (r_id p)")
    case None
    with assms(2) show ?thesis by (simp add: w' close_row_def)
  next
    case (Some r)
    from get_run_state_id [OF Some] have "s_run_id r = r_id p" .
    with Some assms(2) show ?thesis
      by (auto simp: w' close_row_def get_run_state_update write_run_state_def row_is_terminal_def row_run_state_def
          is_terminal_def)
  qed
next
  case False
  with assms show ?thesis by (auto simp: supersede_previous_def run_unresolved_def)
qed

lemma next_sequence_above:
  "r \<in> set (runs s) \<Longrightarrow> r_timer r = i \<Longrightarrow> r_event_sequence r < next_sequence s i"
  using max_or_0_ge [of "r_event_sequence r" "map r_event_sequence (runs_of s i)"]
  by (auto simp: next_sequence_def runs_of_def)

text \<open>The run a transaction answers is the one it claimed, whatever the overlap policy made of it.\<close>

lemma fire_tx_claim:
  assumes "keyed r_id (runs (db w))"
    and "fire_tx E C eng t slot k owner selected folder prev barrier now w = Some (Inr fr, w')"
  shows "\<not> (\<exists>r\<in>set (runs (db w)). r_timer r = t_id t \<and> r_scheduled_for r = slot) \<and>
    get_run (db w') (r_id (fr_claim fr)) = Some (fr_claim fr) \<and>
    r_timer (fr_claim fr) = t_id t \<and> r_scheduled_for (fr_claim fr) = slot \<and>
    (\<forall>r\<in>set (runs (db w)). r_timer r = t_id t \<longrightarrow> r_event_sequence r < r_event_sequence (fr_claim fr)) \<and>
    (\<forall>r\<in>set (runs (db w)). r_id r \<noteq> r_id (fr_claim fr))"
  using assms(2)
proof (cases rule: fire_tx_steps)
  case (1 quar w1 old w2 claimed s w5)
  define w4 where "w4 = fire_line E k t claimed (w2\<lparr>draws := draws w2 + 1, db := s\<rparr>)"
  have runs2: "runs (db w2) = runs (db w)"
    by (rule ledger_runs) (simp add: ledger_supersede [OF 1(2)] ledger_barrier_ingest [OF 1(1)])
  note c = claimed_facts [OF 1(3)]
  have runs4: "runs (db w4) = runs (db w) @ [claimed]" by (simp add: w4_def c(7) runs2)
  have key: "keyed r_id (runs (db w4))"
    using assms(1) c(8) unfolding runs4 keyed_append runs2 by (auto simp: c(2))
  have get4: "get_run (db w4) (r_id claimed) = Some claimed"
    unfolding get_run_def using row_get_in [OF key, of claimed] by (simp add: runs4)
  note ov = overlap_disposition_cases [OF get4 c(3,5) key 1(4) [folded w4_def]]
  have ident: "r_id (fr_claim fr) = r_id claimed" "r_timer (fr_claim fr) = t_id t"
      "r_scheduled_for (fr_claim fr) = slot" "r_event_sequence (fr_claim fr) = r_event_sequence claimed"
    using ov c(3,4) by (auto simp: finish_row_def split: if_splits)
  have "runs (db w') = runs (db w5)"
    using 1(7,8) open_lifecycle_Inr(1) by (cases owner) auto
  then have "get_run (db w') (r_id (fr_claim fr)) = Some (fr_claim fr)"
    using ov by (simp add: get_run_def ident(1))
  moreover have "\<forall>r\<in>set (runs (db w)). r_timer r = t_id t \<longrightarrow> r_event_sequence r < r_event_sequence (fr_claim fr)"
    using next_sequence_above [of _ "db w2" "t_id t"] by (simp add: ident(4) c(6) runs2)
  ultimately show ?thesis using c(1,2,8) ident by (simp add: runs2)
qed

text \<open>The lifecycle rows of the runs there were before are those after the supersession.\<close>

lemma fire_tx_previous:
  assumes "keyed r_id (runs (db w))"
    and "fire_tx E C eng t slot k owner selected folder (Some p) barrier now w = Some (Inr fr, w')"
    and "p \<in> set (runs (db w))" "get_run_state (db w') (r_id p) = Some row"
  shows "row_is_terminal row"
  using assms(2)
proof (cases rule: fire_tx_steps)
  case (1 quar w1 old w2 claimed s w5)
  have ne: "r_id p \<noteq> r_id (fr_claim fr)" using fire_tx_claim [OF assms(1,2)] assms(3) by blast
  have "get_run_state (db w5) (r_id p) = get_run_state (db w2) (r_id p)"
    using overlap_rows [OF 1(4)] claimed_facts(7) [OF 1(3)]
    by (simp add: get_run_state_def fire_line_def Let_def split: fire_kind.splits)
  moreover have "get_run_state (db w') (r_id p) = get_run_state (db w5) (r_id p)"
  proof (cases owner)
    case (Some app)
    with 1(8) [OF Some] open_lifecycle_Inr(8) [OF _ ne] show ?thesis by blast
  qed (use 1(7) in simp)
  ultimately show ?thesis using assms(4) supersede_closes [OF 1(2)] by simp
qed

lemma fire_tx_lifecycle:
  assumes "fire_tx E C eng t slot k (Some app) selected folder prev barrier now w = Some (Inr fr, w')"
  shows "\<exists>row p. get_run_state (db w') (r_id (fr_claim fr)) = Some row \<and> s_app_name row = app \<and>
    s_state row = fire_state k \<and> s_pickup_deadline row \<noteq> None \<and> fr_projection fr = Some p \<and>
    transport_projection_of (db w') (r_id (fr_claim fr)) = Some p \<and> p_state p = PENDING"
  using assms
proof (cases rule: fire_tx_steps)
  case (1 quar w1 old w2 claimed s w5)
  then obtain p where p: "fr_projection fr = Some p"
      "open_lifecycle E C eng t k folder selected app (fr_claim fr) now w5 = Some (Inr p, w')"
    by blast
  note q = open_lifecycle_Inr [OF p(2)]
  from q(9) obtain row where "get_run_state (db w') (r_id (fr_claim fr)) = Some row" "s_app_name row = app"
      "s_state row = fire_state k" "s_pickup_deadline row \<noteq> None" by blast
  with p(1) q(5,6) show ?thesis by (simp del: not_None_eq)
qed

lemma fire_tx_unowned:
  assumes "fire_tx E C eng t slot k None selected folder prev barrier now w = Some (Inr fr, w')"
  shows "fr_projection fr = None"
  using assms by (cases rule: fire_tx_steps) blast

lemma current_claim_in: "current_claim s i = Some p \<Longrightarrow> p \<in> set (runs s)"
  using last_in_set [of "runs_for_timer s i"]
  by (auto simp: current_claim_def runs_for_timer_def runs_of_def Let_def split: if_splits)

text \<open>C11: What a committed fire leaves. The slot had no run before and the new run is the answer's,
  with a sequence above every earlier run of the timer; the previous run's lifecycle, when it has
  one, is closed (the app's own verdict if its last reply gave one, superseded otherwise); an
  owned timer has its new lifecycle row with the pickup deadline armed and a pending wake hint,
  an unowned one none.\<close>

theorem fire_commits:
  assumes "keyed r_id (runs (db w))"
    and "fire_tx E C eng t scheduled_for k owner selected folder (current_claim (db w) (t_id t)) barrier now w =
      Some (Inr fr, w')"
  shows "\<not> (\<exists>r\<in>set (runs (db w)). r_timer r = t_id t \<and> r_scheduled_for r = scheduled_for) \<and>
    get_run (db w') (r_id (fr_claim fr)) = Some (fr_claim fr) \<and>
    r_timer (fr_claim fr) = t_id t \<and> r_scheduled_for (fr_claim fr) = scheduled_for \<and>
    (\<forall>r\<in>set (runs (db w)). r_timer r = t_id t \<longrightarrow> r_event_sequence r < r_event_sequence (fr_claim fr)) \<and>
    (\<forall>p row. current_claim (db w) (t_id t) = Some p \<longrightarrow> get_run_state (db w') (r_id p) = Some row \<longrightarrow>
       row_is_terminal row) \<and>
    (case owner of
       None \<Rightarrow> fr_projection fr = None
     | Some app \<Rightarrow> \<exists>row p. get_run_state (db w') (r_id (fr_claim fr)) = Some row \<and> s_app_name row = app \<and>
         s_state row = fire_state k \<and> s_pickup_deadline row \<noteq> None \<and> fr_projection fr = Some p \<and>
         transport_projection_of (db w') (r_id (fr_claim fr)) = Some p \<and> p_state p = PENDING)"
proof -
  have prev: "row_is_terminal row"
    if "current_claim (db w) (t_id t) = Some p" "get_run_state (db w') (r_id p) = Some row" for p row
    using fire_tx_previous [OF assms(1) _ current_claim_in [OF that(1)] that(2)] assms(2) that(1) by metis
  have "case owner of
       None \<Rightarrow> fr_projection fr = None
     | Some app \<Rightarrow> \<exists>row p. get_run_state (db w') (r_id (fr_claim fr)) = Some row \<and> s_app_name row = app \<and>
         s_state row = fire_state k \<and> s_pickup_deadline row \<noteq> None \<and> fr_projection fr = Some p \<and>
         transport_projection_of (db w') (r_id (fr_claim fr)) = Some p \<and> p_state p = PENDING"
  proof (cases owner)
    case None
    show ?thesis unfolding None option.case using assms(2) unfolding None by (rule fire_tx_unowned)
  next
    case (Some app)
    show ?thesis unfolding Some option.case using assms(2) unfolding Some by (rule fire_tx_lifecycle)
  qed
  with fire_tx_claim [OF assms] prev show ?thesis by blast
qed

definition sample_engine :: engine where
  "sample_engine = \<lparr> data_dir = ''d'', pickup_grace = 60000000000, fire_slot_file = None, ipc = None \<rparr>"

definition quiet_world :: world where
  "quiet_world = \<lparr> db = empty_store, draws = 0, book = [], armed_hints = [], anchors = [] \<rparr>"

theorem overlap_policy_exact_witness:
  "\<exists>c w'. apply_overlap_disposition sample_env (sample_timer\<lparr>t_overlap := OverlapSkip\<rparr>)
       (owned_run\<lparr>r_id := 9, r_scheduled_for := 200\<rparr>)
       (quiet_world\<lparr>db := empty_store\<lparr>runs := [owned_run, owned_run\<lparr>r_id := 9, r_scheduled_for := 200\<rparr>]\<rparr>\<rparr>) = (c, w') \<and>
     get_run (db w') 9 = Some c \<and> r_status c = Finished \<and> r_outcome c = Some SkippedMisfire"
proof -
  let ?t = "sample_timer\<lparr>t_overlap := OverlapSkip\<rparr>"
  let ?c = "owned_run\<lparr>r_id := 9, r_scheduled_for := 200\<rparr>"
  let ?w = "quiet_world\<lparr>db := empty_store\<lparr>runs := [owned_run, ?c]\<rparr>\<rparr>"
  obtain c w' where r: "apply_overlap_disposition sample_env ?t ?c ?w = (c, w')" by fastforce
  have tid: "t_id ?t = 3" by (simp add: sample_timer_def new_timer_row_def timer_row_def)
  have 1: "get_run (db ?w) (r_id ?c) = Some ?c" "r_timer ?c = t_id ?t" "r_status ?c = Pending"
      "keyed r_id (runs (db ?w))"
    by (simp_all add: get_run_def row_get_def owned_run_def keyed_def tid)
  have "\<not> admitted (t_overlap ?t) (unfinished_claims_count (db ?w) (t_id ?t) (r_id ?c))"
    by (simp add: admitted_def unfinished_claims_count_def row_count_def owned_run_def open_status_def tid)
  with overlap_policy_exact [OF 1 r] have "get_run (db w') (r_id ?c) = Some c \<and> r_status c = Finished \<and> r_outcome c = Some SkippedMisfire"
    by (simp only: if_False)
  moreover have "r_id ?c = 9" by simp
  ultimately have "get_run (db w') 9 = Some c \<and> r_status c = Finished \<and> r_outcome c = Some SkippedMisfire"
    by (simp only:)
  with r show ?thesis by blast
qed

theorem fire_commits_witness:
  "\<exists>fr w'. fire_tx sample_env sample_codec sample_engine sample_timer 100 OnTime (Some ''app'') SelectedJson ''t/f''
       None BarrierNone sample_now quiet_world = Some (Inr fr, w') \<and>
     get_run (db w') (r_id (fr_claim fr)) = Some (fr_claim fr) \<and> fr_projection fr \<noteq> None"
proof -
  have prev: "current_claim (db quiet_world) (t_id sample_timer) = None"
    by (simp add: current_claim_def runs_for_timer_def runs_of_def quiet_world_def empty_store_def)
  have none: "get_run_state empty_store i = None" for i
    by (simp add: get_run_state_def empty_store_def row_get_def)
  obtain claimed s where cl: "claim_run_conn (utc_now sample_env 0) (new_uuid sample_env 0) (t_id sample_timer) 100
      (db quiet_world) = Inr (claimed, s)"
    by (simp add: claim_run_conn_def Let_def quiet_world_def empty_store_def)
  obtain claim w5 where ov: "apply_overlap_disposition sample_env sample_timer claimed
      (fire_line sample_env OnTime sample_timer claimed (quiet_world\<lparr>draws := 1, db := s\<rparr>)) = (claim, w5)" by fastforce
  have no_row: "get_run_state (db w5) i = None" for i
    using overlap_rows [OF ov] claimed_facts(7) [OF cl] none
    by (simp add: get_run_state_def fire_line_def quiet_world_def)
  obtain d where d: "instant_add (env_lib sample_env) sample_now
      (case from_std (env_lib sample_env) (pickup_grace sample_engine) of None \<Rightarrow> 60 * sec_ns | Some d \<Rightarrow> d) = Some d"
    by (simp add: instant_add_def sample_env_def sample_lib_def sample_engine_def from_std_def sample_now_def day_ns_def)
  obtain p w' where ol: "open_lifecycle sample_env sample_codec sample_engine sample_timer OnTime ''t/f'' SelectedJson
      ''app'' claim sample_now w5 = Some (Inr p, w')"
    unfolding open_lifecycle_def d Option.bind.simps Let_def insert_run_state_def no_row by simp
  have dr: "draws quiet_world = 0" by (simp add: quiet_world_def)
  obtain fr where r: "fire_tx sample_env sample_codec sample_engine sample_timer 100 OnTime (Some ''app'') SelectedJson ''t/f''
       None BarrierNone sample_now quiet_world = Some (Inr fr, w')"
    unfolding fire_tx_def barrier_ingest_def supersede_previous_def prod.case option.case Option.bind.simps Let_def
    using cl ov ol by (simp add: dr)
  have "keyed r_id (runs (db quiet_world))" by (simp add: quiet_world_def empty_store_def keyed_def)
  from fire_commits [OF this, of sample_env sample_codec sample_engine sample_timer 100 OnTime "Some ''app''"
      SelectedJson "''t/f''" BarrierNone sample_now fr w', unfolded prev, OF r] r
  show ?thesis by (intro exI [of _ fr] exI [of _ w']) auto
qed

section \<open>A fire that fails\<close>

lemma atomic_write_db [simp]: "db (snd (atomic_write F dir name b w)) = db w"
  by (simp add: atomic_write_def split: sum.splits)

lemma allocate_try_db: "db (snd (allocate_try C F root slug i lens w)) = db w"
  by (induction lens) (simp_all add: Let_def)

lemma bindT_db:
  assumes "db (snd r) = d" "\<And>a s. db s = d \<Longrightarrow> db (snd (f a s)) = d"
  shows "db (snd (bindT r f)) = d"
  using assms by (cases r) (auto simp: bindT_def split: sum.splits)

lemma sync_db: "sync_timer_json C F socket root t owner w = (r, w') \<Longrightarrow> db w' = db w"
proof -
  have "db (snd (sync_timer_json C F socket root t owner w)) = db w"
    unfolding sync_timer_json_def
  proof (rule bindT_db)
    show "db (snd (ensure_readme C F root w)) = db w" by (simp add: ensure_readme_def Let_def)
  next
    fix s :: "'a site_scheme" assume s: "db s = db w"
    show "db (snd (bindT (case folder_for C F root (t_id t) s of
              Some folder \<Rightarrow> (Inr folder, s) | None \<Rightarrow> allocate_folder C F root t s)
        (\<lambda>folder w2. bindT (write_timer_json C F socket folder t owner w2) (\<lambda>_ w3. (Inr folder, w3))))) = db w"
    proof (rule bindT_db)
      show "db (snd (case folder_for C F root (t_id t) s of
          Some folder \<Rightarrow> (Inr folder, s) | None \<Rightarrow> allocate_folder C F root t s)) = db w"
        using s by (simp add: allocate_folder_def allocate_try_db split: option.splits)
    next
      fix folder and u :: "'a site_scheme" assume "db u = db w"
      then show "db (snd (bindT (write_timer_json C F socket folder t owner u) (\<lambda>_ w3. (Inr folder, w3)))) = db w"
        by (intro bindT_db) (simp_all add: write_timer_json_def Let_def split: prod.splits,
            metis atomic_write_db snd_conv)
    qed
  qed
  then show "sync_timer_json C F socket root t owner w = (r, w') \<Longrightarrow> db w' = db w" by simp
qed

text \<open>The tree's own failures are not the store's.\<close>

definition tree_failure :: "tree_error + 'a \<Rightarrow> bool" where
  "tree_failure r \<longleftrightarrow> (\<forall>e. r \<noteq> Inl (TreeStore e))"

lemma tree_failure_simps [simp]:
  "tree_failure (Inl (TreeIo m))" "tree_failure (Inl (TreeSerialize m))" "tree_failure (Inr a)"
  "\<not> tree_failure (Inl (TreeStore e))"
  by (simp_all add: tree_failure_def)

lemma bindT_failure:
  assumes "tree_failure (fst r)" "\<And>a s. tree_failure (fst (f a s))"
  shows "tree_failure (fst (bindT r f))"
  using assms by (cases r; cases "fst r") (auto simp: bindT_def tree_failure_def)

lemma sync_failure: "tree_failure (fst (sync_timer_json C F socket root t owner w))"
proof -
  have a: "tree_failure (fst (allocate_try C F root slug i lens w))" for slug i lens and w :: "'a site_scheme"
    by (induction lens) (simp_all add: Let_def)
  show ?thesis unfolding sync_timer_json_def
    by (intro bindT_failure)
      (simp_all add: ensure_readme_def write_timer_json_def allocate_folder_def a Let_def split: option.split prod.split)
qed

text \<open>Only log lines were added.\<close>

definition lines_added :: "store \<Rightarrow> store \<Rightarrow> bool" where
  "lines_added s s' \<longleftrightarrow> s' = s\<lparr>event_outbox := event_outbox s'\<rparr> \<and> (\<exists>es. event_outbox s' = event_outbox s @ es)"

lemma lines_added_refl [simp]: "lines_added s s"
  by (simp add: lines_added_def)

lemma lines_added_emit: "lines_added (db w) (db (emit E k f w))"
  by (simp add: lines_added_def emit_def enqueue_event_def)

lemma quarantine_bytes_db: "db (snd (quarantine_bytes E C F bad src b reason t i w)) = db w"
  by (simp add: quarantine_bytes_def install_no_replace_def Let_def)

lemma condemn_bytes_lines: "lines_added (db w) (db (condemn_bytes E C F root t path i b reason w))"
proof (cases "quarantine_lock_fails F")
  case True
  then show ?thesis by (simp add: condemn_bytes_def condemn_def count_stat_def)
next
  case False
  obtain created w1 where q: "quarantine_bytes E C F (quarantine_dir root) path b reason (t_id t) i w = (created, w1)"
    by fastforce
  have d: "db w1 = db w" using quarantine_bytes_db [of E C F "quarantine_dir root" path b reason "t_id t" i w] q by simp
  have l: "lines_added (db w) (db (log_rejection E t (Some i) reason w1))"
    unfolding log_rejection_def d [symmetric] by (rule lines_added_emit)
  show ?thesis unfolding condemn_bytes_def condemn_def using False q d l
    by (simp add: count_stat_def split: sum.splits bool.splits)
qed

lemma barrier_document_lines:
  "lines_added (db w) (db (snd (barrier_document E C F root t path i doc b w)))"
  by (simp add: barrier_document_def condemn_bytes_lines)

lemma barrier_read_lines:
  assumes "barrier_read E C F root t folder i reread w = (out, w')"
  shows "lines_added (db w) (db w')"
proof -
  have "lines_added (db w) (db (snd (barrier_read E C F root t folder i reread w)))"
    unfolding barrier_read_def Let_def
    using barrier_document_lines [of w E C F root t] condemn_bytes_lines [of w E C F root t]
    by (simp add: split_beta split: reply_read.split option.split)
  with assms show ?thesis by simp
qed

lemma lines_added_runs: "lines_added s s' \<Longrightarrow> runs s' = runs s"
  unfolding lines_added_def by (metis store.surjective store.update_convs(7) store.select_convs(2))

text \<open>The run a transaction answers is of the timer and the slot, whatever the store's rows.\<close>

lemma overlap_identity:
  assumes "get_run (db w) (r_id claim) = Some claim" "apply_overlap_disposition E t claim w = (c, w')"
  shows "r_timer c = r_timer claim \<and> r_scheduled_for c = r_scheduled_for claim"
proof (cases "t_overlap t = Replace")
  case True
  with assms(2) show ?thesis by (auto simp: apply_overlap_disposition_def Let_def split: prod.splits)
next
  case False
  show ?thesis
  proof (cases "skip_reason (t_overlap t) (unfinished_claims_count (db w) (t_id t) (r_id claim))")
    case None
    with assms(2) False show ?thesis by (auto simp: apply_overlap_disposition_def split: overlap_policy.splits)
  next
    case (Some reason)
    have "c = (case get_run (snd (finish_run_conn (utc_now E (draws w)) (r_id claim) SkippedMisfire reason (db w))) (r_id claim) of
        None \<Rightarrow> claim | Some c \<Rightarrow> c)"
      using assms(2) False Some
      by (auto simp: apply_overlap_disposition_def Let_def split: overlap_policy.splits prod.splits)
    then show ?thesis by (simp add: get_run_finish assms(1) finish_row_def)
  qed
qed

lemma fire_tx_slot:
  assumes "fire_tx E C eng t slot k owner selected folder prev barrier now w = Some (Inr fr, w')"
  shows "\<not> (\<exists>r\<in>set (runs (db w)). r_timer r = t_id t \<and> r_scheduled_for r = slot) \<and>
    r_timer (fr_claim fr) = t_id t \<and> r_scheduled_for (fr_claim fr) = slot"
  using assms
proof (cases rule: fire_tx_steps)
  case (1 quar w1 old w2 claimed s w5)
  define w4 where "w4 = fire_line E k t claimed (w2\<lparr>draws := draws w2 + 1, db := s\<rparr>)"
  have runs2: "runs (db w2) = runs (db w)"
    by (rule ledger_runs) (simp add: ledger_supersede [OF 1(2)] ledger_barrier_ingest [OF 1(1)])
  note c = claimed_facts [OF 1(3)]
  have "row_get r_id (r_id claimed) (runs (db w2)) = None"
    using c(2,8) by (auto simp: row_get_None)
  then have "get_run (db w4) (r_id claimed) = Some claimed"
    by (simp add: get_run_def w4_def c(7) row_get_append)
  from overlap_identity [OF this 1(4) [folded w4_def]] c(1,3,4) show ?thesis by (simp add: runs2)
qed

lemma fire_tx_already:
  assumes "fire_tx E C eng t slot k owner selected folder prev barrier now w = Some (Inl (AlreadyClaimed i s), w')"
  shows "i = t_id t \<and> s = slot"
proof -
  from assms obtain quar w1 where 1: "barrier_ingest E t prev barrier now w = Some (quar, w1)"
    unfolding fire_tx_def by (rule bind_pairE)
  obtain old w2 where 2: "supersede_previous E t owner prev w1 = (old, w2)" by fastforce
  define cl where "cl = claim_run_conn (utc_now E (draws w2)) (new_uuid E (draws w2)) (t_id t) slot (db w2)"
  show ?thesis
  proof (cases cl)
    case (Inl e)
    then have "e = AlreadyClaimed (t_id t) slot" by (auto simp: cl_def claim_run_conn_def Let_def split: if_splits)
    moreover have "e = AlreadyClaimed i s"
      using assms Inl unfolding fire_tx_def 1 Option.bind.simps prod.case Let_def 2 cl_def [symmetric] by simp
    ultimately show ?thesis by simp
  next
    case (Inr p)
    obtain claimed st where p: "p = (claimed, st)" by fastforce
    obtain claim w5 where 4: "apply_overlap_disposition E t claimed
        (fire_line E k t claimed (w2\<lparr>draws := draws w2 + 1, db := st\<rparr>)) = (claim, w5)" by fastforce
    obtain app where own: "owner = Some app"
      using assms unfolding fire_tx_def 1 Option.bind.simps prod.case Let_def 2 cl_def [symmetric] Inr p sum.case 4
      by (cases owner) simp_all
    have "do { (r, w6) \<leftarrow> open_lifecycle E C eng t k folder selected app claim now w5;
        Some (case r of Inl e \<Rightarrow> Inl e
          | Inr p \<Rightarrow> Inr \<lparr>fr_claim = claim, fr_projection = Some p, fr_superseded = old, fr_quarantine = quar\<rparr>, w6) }
      = Some (Inl (AlreadyClaimed i s), w')"
      using assms unfolding fire_tx_def 1 Option.bind.simps prod.case Let_def 2 cl_def [symmetric] Inr p sum.case 4
      unfolding own option.case .
    then obtain r w6 where ol: "open_lifecycle E C eng t k folder selected app claim now w5 = Some (r, w6)"
        "r = Inl (AlreadyClaimed i s)"
      by (rule bind_pairE) (auto split: sum.splits)
    then show ?thesis
      by (auto simp: open_lifecycle_def Let_def insert_run_state_def bind_Some split: sum.splits if_splits)
  qed
qed

lemma project_fire_cases:
  assumes "project_fire E C F eng socket t slot k now reread w = Some (res, w')"
  shows "case res of
      Inl e \<Rightarrow> lines_added (db w) (db w') \<and>
        (\<forall>i s. e = TreeStore (AlreadyClaimed i s) \<longrightarrow> i = t_id t \<and> s = slot)
    | Inr c \<Rightarrow> \<not> (\<exists>r\<in>set (runs (db w)). r_timer r = t_id t \<and> r_scheduled_for r = slot) \<and>
        r_timer c = t_id t \<and> r_scheduled_for c = slot"
proof (cases "gate_fails F (t_id t)")
  case True
  with assms show ?thesis by (auto simp: project_fire_def)
next
  case False
  define root where "root = tree_root (data_dir eng)"
  define owner where "owner = get_timer_owner (db w) (t_id t)"
  obtain r1 w1 where s: "sync_timer_json C F socket root t owner w = (r1, w1)" by fastforce
  note d1 = sync_db [OF s]
  show ?thesis
  proof (cases r1)
    case (Inl e)
    have "e \<noteq> TreeStore x" for x
      using sync_failure [of C F socket root t owner w] by (auto simp: s Inl tree_failure_def)
    moreover have "res = Inl e" "w' = w1"
      using assms False s Inl by (auto simp: project_fire_def root_def owner_def Let_def)
    ultimately show ?thesis using d1 by auto
  next
    case (Inr folder)
    define prev where "prev = current_claim (db w1) (t_id t)"
    obtain barrier w2 where b: "(case prev of None \<Rightarrow> (BarrierNone, w1)
        | Some p \<Rightarrow> barrier_read E C F root t folder (r_id p) reread w1) = (barrier, w2)" by fastforce
    have l2: "lines_added (db w) (db w2)"
      using b barrier_read_lines [of E C F root t folder _ reread w1] d1 by (auto split: option.splits)
    have body: "do { (r, w3) \<leftarrow> fire_tx E C eng t slot k owner (select_transport t eng) folder prev barrier now w2;
           case r of
             Inl e \<Rightarrow> Some (Inl (TreeStore e), w3\<lparr>db := db w2\<rparr>)
           | Inr fr \<Rightarrow>
               do { w4 \<leftarrow> after_commit E C F eng t k owner (select_transport t eng) folder prev now fr w3;
                    Some (Inr (fr_claim fr), w4) } } = Some (res, w')"
      using assms False s Inr b unfolding project_fire_def Let_def root_def [symmetric] owner_def [symmetric] prev_def by simp
    then obtain r w3 where tx: "fire_tx E C eng t slot k owner (select_transport t eng) folder prev barrier now w2 = Some (r, w3)"
      by (rule bind_pairE)
    show ?thesis
    proof (cases r)
      case (Inl e)
      with body tx have "res = Inl (TreeStore e)" "db w' = db w2" by auto
      with l2 fire_tx_already [of E C eng t slot k owner "select_transport t eng" folder prev barrier now w2] tx Inl
      show ?thesis by auto
    next
      case (Inr fr)
      obtain w4 where res: "res = Inr (fr_claim fr)"
        using body unfolding tx Inr Option.bind.simps prod.case sum.case by (auto simp: bind_Some)
      have "runs (db w2) = runs (db w)" by (rule lines_added_runs [OF l2])
      with fire_tx_slot [OF tx [unfolded Inr]] show ?thesis by (simp add: res)
    qed
  qed
qed

text \<open>C12: A fire happens whole or not at all. When it answers an error the store is as before, log
  lines of a refused previous reply apart: no run, lifecycle row, projection or timer changed.
  When it answers a run, the slot had no run before and the run is for that timer and slot, so
  a slot already claimed never fires again.\<close>

theorem fire_whole_or_nothing:
  assumes "project_fire E C F eng socket t slot k now reread w = Some (res, w')"
  shows "case res of
      Inl _ \<Rightarrow> lines_added (db w) (db w')
    | Inr c \<Rightarrow> \<not> (\<exists>r\<in>set (runs (db w)). r_timer r = t_id t \<and> r_scheduled_for r = slot) \<and>
        r_timer c = t_id t \<and> r_scheduled_for c = slot"
  using project_fire_cases [OF assms] by (cases res) simp_all

definition idle_watch :: watch where
  "idle_watch = \<lparr> db = empty_store, draws = 0, book = [], armed_hints = [], anchors = [], files = [], folders = [],
     tracker = [], stats = no_stats \<rparr>"

theorem fire_whole_or_nothing_witness:
  "\<exists>c w'. project_fire sample_env sample_codec no_faults sample_engine None sample_timer 100 OnTime sample_now
       Missing idle_watch = Some (Inr c, w') \<and> r_timer c = t_id sample_timer \<and> r_scheduled_for c = 100"
proof -
  obtain folder w1 where s: "sync_timer_json sample_codec no_faults None (tree_root ''d'') sample_timer None idle_watch = (Inr folder, w1)"
    using safe_child_path_plain [OF timer_file_plain(1)]
    by (simp add: sync_timer_json_def ensure_readme_def bindT_def no_faults_def folder_for_def
        allocate_folder_def SUFFIX_LENS_def Let_def idle_watch_def write_timer_json_def atomic_write_def)
  have d1: "db w1 = empty_store" using sync_db [OF s] by (simp add: idle_watch_def)
  have own: "get_timer_owner (db idle_watch) (t_id sample_timer) = None"
    by (simp add: idle_watch_def empty_store_def get_timer_owner_def row_get_def)
  have prev: "current_claim (db w1) (t_id sample_timer) = None"
    by (simp add: d1 current_claim_def runs_for_timer_def runs_of_def empty_store_def)
  obtain claimed s where cl: "claim_run_conn (utc_now sample_env (draws w1)) (new_uuid sample_env (draws w1))
      (t_id sample_timer) 100 empty_store = Inr (claimed, s)"
    by (simp add: claim_run_conn_def Let_def empty_store_def)
  obtain claim w5 where ov: "apply_overlap_disposition sample_env sample_timer claimed
      (fire_line sample_env OnTime sample_timer claimed (w1\<lparr>draws := draws w1 + 1, db := s\<rparr>)) = (claim, w5)" by fastforce
  define fr where "fr = \<lparr>fr_claim = claim, fr_projection = None, fr_superseded = None, fr_quarantine = None\<rparr>"
  have tx: "fire_tx sample_env sample_codec sample_engine sample_timer 100 OnTime None sel folder None
      BarrierNone sample_now w1 = Some (Inr fr, w5)" for sel
    unfolding fire_tx_def barrier_ingest_def supersede_previous_def prod.case option.case Option.bind.simps Let_def
    using cl ov by (simp add: d1 fr_def)
  obtain w4 where ac: "after_commit sample_env sample_codec no_faults sample_engine sample_timer OnTime None
      (select_transport sample_timer sample_engine) folder None sample_now fr w5 = Some w4"
    by (simp add: after_commit_def fr_def Let_def)
  have gate: "\<not> gate_fails no_faults (t_id sample_timer)" and dir: "data_dir sample_engine = ''d''" and claim: "fr_claim fr = claim"
    by (simp_all add: no_faults_def sample_engine_def fr_def)
  have r: "project_fire sample_env sample_codec no_faults sample_engine None sample_timer 100 OnTime sample_now
       Missing idle_watch = Some (Inr claim, w4)"
    unfolding project_fire_def Let_def own dir s if_not_P [OF gate] prod.case sum.case prev option.case tx
      Option.bind.simps ac claim ..
  from fire_whole_or_nothing [OF r] r show ?thesis by simp
qed

section \<open>Deleting a timer\<close>

lemma get_run_state_close_row:
  "get_run_state (db (close_row st i w)) j =
     (if j = i then map_option (\<lambda>row. write_run_state
         (row\<lparr>s_state := as_str st, s_pickup_deadline := None, s_watchdog_deadline := None\<rparr>) row) (get_run_state (db w) j)
      else get_run_state (db w) j)"
  by (auto simp: close_row_def get_run_state_update dest: get_run_state_id split: option.split)

lemma close_run_frame [simp]:
  "timers (db (close_run E t st m p w)) = timers (db w)"
  "timer_owners (db (close_run E t st m p w)) = timer_owners (db w)"
  "slot_event_acks (db (close_run E t st m p w)) = slot_event_acks (db w)"
  "transport_projections (db (close_run E t st m p w)) = transport_projections (db w)"
  "target_cursors (db (close_run E t st m p w)) = target_cursors (db w)"
  "runs (db (close_run E t st m p w)) = runs (db w)"
  using ledger_close [of E t st m p w] by (simp_all add: ledger_def)

lemma get_run_state_close:
  "map_option s_state (get_run_state (db (close_run E t st m p w)) i) =
     (if i = r_id p then map_option (\<lambda>_. as_str st) (get_run_state (db w) i)
      else map_option s_state (get_run_state (db w) i))"
  by (simp add: close_run_def get_run_state_close_row write_run_state_def option.map_comp comp_def)

text \<open>C14: Deleting a timer removes exactly what belongs to it: its row, its owner, its acknowledgement
  cursor and its wake hints, with the cursors of files no hint names any more; other timers keep
  theirs, and the run history stays. It answers whether the timer existed, and the lifecycle of
  its last run is closed as cancelled exactly when that run was unresolved, no other lifecycle
  changing state.\<close>

theorem delete_takes_exactly_its_own:
  "case delete_timer_lifecycle E t w of ((deleted, n), w') \<Rightarrow>
     deleted = (get_timer (db w) (t_id t) \<noteq> None) \<and>
     timers (db w') = filter (\<lambda>r. t_id r \<noteq> t_id t) (timers (db w)) \<and>
     timer_owners (db w') = filter (\<lambda>r. fst r \<noteq> t_id t) (timer_owners (db w)) \<and>
     slot_event_acks (db w') = filter (\<lambda>r. fst r \<noteq> t_id t) (slot_event_acks (db w)) \<and>
     transport_projections (db w') = filter (\<lambda>p. p_timer_id p \<noteq> t_id t) (transport_projections (db w)) \<and>
     target_cursors (db w') =
       filter (\<lambda>c. fst c \<in> set (map p_target_path (transport_projections (db w')))) (target_cursors (db w)) \<and>
     runs (db w') = runs (db w) \<and>
     n = (case current_claim (db w) (t_id t) of None \<Rightarrow> 0
          | Some p \<Rightarrow> if run_unresolved (db w) (get_timer_owner (db w) (t_id t)) p then 1 else 0) \<and>
     (\<forall>i. map_option s_state (get_run_state (db w') i) =
        (if n = 1 \<and> map_option r_id (current_claim (db w) (t_id t)) = Some i
         then map_option (\<lambda>_. ''cancelled'') (get_run_state (db w) i)
         else map_option s_state (get_run_state (db w) i)))"
proof -
  define w1 where "w1 = (case current_claim (db w) (t_id t) of None \<Rightarrow> w
    | Some p \<Rightarrow> if run_unresolved (db w) (get_timer_owner (db w) (t_id t)) p
        then close_run E t Cancelled ''timer deleted while its run was open'' p w else w)"
  define n where "n = (case current_claim (db w) (t_id t) of None \<Rightarrow> 0
    | Some p \<Rightarrow> if run_unresolved (db w) (get_timer_owner (db w) (t_id t)) p then 1 else (0::nat))"
  define s' where "s' = prune_transport_for_timer (t_id t)
    ((clear_timer_owner (snd (delete_timer (db w1) (t_id t))) (t_id t))
       \<lparr>slot_event_acks := row_del (\<lambda>r. fst r = t_id t) (slot_event_acks (db w1))\<rparr>)"
  have eq: "delete_timer_lifecycle E t w = ((row_count (\<lambda>r. t_id r = t_id t) (timers (db w)) > 0, n), w1\<lparr>db := s'\<rparr>)"
    by (simp add: delete_timer_lifecycle_def Let_def w1_def n_def s'_def delete_timer_def clear_timer_owner_def
        split: option.split)
  have same: "timers (db w1) = timers (db w)" "timer_owners (db w1) = timer_owners (db w)"
      "slot_event_acks (db w1) = slot_event_acks (db w)"
      "transport_projections (db w1) = transport_projections (db w)" "target_cursors (db w1) = target_cursors (db w)"
      "runs (db w1) = runs (db w)"
    by (simp_all add: w1_def split: option.split)
  have rows: "get_run_state s' i = get_run_state (db w1) i" for i
    by (simp add: s'_def get_run_state_def prune_transport_for_timer_def delete_timer_def clear_timer_owner_def Let_def)
  have closed: "map_option s_state (get_run_state (db w1) i) =
        (if n = 1 \<and> map_option r_id (current_claim (db w) (t_id t)) = Some i
         then map_option (\<lambda>_. ''cancelled'') (get_run_state (db w) i)
         else map_option s_state (get_run_state (db w) i))" for i
    by (simp add: w1_def n_def get_run_state_close split: option.split) (simp add: as_str_def)
  have existed: "(row_count (\<lambda>r. t_id r = t_id t) (timers (db w)) > 0) = (get_timer (db w) (t_id t) \<noteq> None)"
    using row_count_0 [of "\<lambda>r. t_id r = t_id t" "timers (db w)"] row_get_None [of t_id "t_id t" "timers (db w)"]
    by (auto simp: get_timer_def image_iff)
  have tables: "timers s' = filter (\<lambda>r. t_id r \<noteq> t_id t) (timers (db w))"
      "timer_owners s' = filter (\<lambda>r. fst r \<noteq> t_id t) (timer_owners (db w))"
      "slot_event_acks s' = filter (\<lambda>r. fst r \<noteq> t_id t) (slot_event_acks (db w))"
      "transport_projections s' = filter (\<lambda>p. p_timer_id p \<noteq> t_id t) (transport_projections (db w))"
      "runs s' = runs (db w)"
    by (simp_all add: s'_def prune_transport_for_timer_def delete_timer_def clear_timer_owner_def row_del_def Let_def same)
  have cursors: "target_cursors s' = filter (\<lambda>c. fst c \<in> set (map p_target_path (transport_projections s'))) (target_cursors (db w))"
    by (simp add: s'_def prune_transport_for_timer_def delete_timer_def clear_timer_owner_def row_del_def Let_def same
        image_iff) (metis (mono_tags, lifting))
  show ?thesis unfolding eq prod.case
    using existed tables cursors closed rows by (simp add: n_def)
qed

end
