(* ===== verification/Quarantine_Properties.thy ===== *)
theory Quarantine_Properties
  imports Quarantine Tree_Properties
begin

text \<open>
  The quarantine keeps what it was given (\<open>reply/quarantine.rs\<close>): an installed copy is never
  replaced, the same content is quarantined once, and a pruning fits the budget.
\<close>

section \<open>Copies\<close>

text \<open>No file of the first state is missing or different in the second.\<close>

definition files_kept :: "'z site_scheme \<Rightarrow> 'z site_scheme \<Rightarrow> bool" where
  "files_kept w w' \<longleftrightarrow> (\<forall>p b. file_at w p = Some b \<longrightarrow> file_at w' p = Some b)"

lemma files_keptI: "(\<And>p b. file_at w p = Some b \<Longrightarrow> file_at w' p = Some b) \<Longrightarrow> files_kept w w'"
  by (simp add: files_kept_def)

lemma files_kept_refl [simp]: "files_kept w w" "files_kept w (w\<lparr>draws := n\<rparr>)"
  by (simp_all add: files_kept_def file_at_def)

lemma files_kept_trans: "files_kept u v \<Longrightarrow> files_kept v w \<Longrightarrow> files_kept u w"
  by (simp add: files_kept_def)

lemma install_kept: "install_no_replace p b w = (r, w') \<Longrightarrow> files_kept w w'"
  by (auto simp: install_no_replace_def files_kept_def file_exists_def file_put_def file_at_def split: if_splits)

lemma install_there:
  "install_no_replace p b w = (r, w') \<Longrightarrow> if r then file_at w' (path_of p) = Some b else w' = w \<and> file_exists w p"
  by (auto simp: install_no_replace_def file_put_def file_at_def split: if_splits)

lemma quarantine_bytes_cases:
  assumes "quarantine_bytes E C F bad source bytes reason t i w = (res, w')"
  obtains (failed) e where "res = Inl e" "files w' = files w"
    | (again) "res = Inr False" "files w' = files w" "file_exists w (path_join bad (payload_name source bytes))"
    | (copied) w2 r where "res = Inr True"
        "install_no_replace (path_join bad (payload_name source bytes)) bytes (w\<lparr>draws := draws w + 1\<rparr>) = (True, w2)"
        "\<exists>js. install_no_replace (path_join bad (sidecar_name source bytes)) js w2 = (r, w')"
proof (cases "mkdir_fails F bad \<or> write_fails F (path_join bad (payload_name source bytes)) \<or>
    write_fails F (path_join bad (sidecar_name source bytes))")
  case True
  with assms failed show thesis by (auto simp: quarantine_bytes_def Let_def split: if_splits)
next
  case False
  obtain b w2 where i: "install_no_replace (path_join bad (payload_name source bytes)) bytes (w\<lparr>draws := draws w + 1\<rparr>) = (b, w2)"
    by fastforce
  show thesis
  proof (cases b)
    case True
    with assms False i have "res = Inr True"
      "w' = snd (install_no_replace (path_join bad (sidecar_name source bytes)) (sidecar_pretty C
         (sidecar_of source reason True (length bytes) (Some (fnv1a64_hex bytes)) t i (utc_now E (draws w)))) w2)"
      by (simp_all add: quarantine_bytes_def Let_def)
    with copied [of w2] i True show thesis by (metis surjective_pairing)
  next
    case bF: False
    with assms False i have "res = Inr False" "w' = w2" by (simp_all add: quarantine_bytes_def Let_def)
    with again install_there [OF i] bF show thesis by (simp add: file_exists_def file_at_def)
  qed
qed

text \<open>C16: Quarantining keeps every file that was there, the payloads of earlier artifacts included; when it
  answers that it made a copy, the payload's file holds exactly the condemned bytes; and once a
  copy is made, quarantining the same bytes of the same source again, for whatever reason, makes
  no artifact and touches no file.\<close>

theorem quarantine_never_replaces:
  assumes "quarantine_bytes E C F bad source bytes reason t i w = (res, w')"
  shows "files_kept w w' \<and>
    (res = Inr True \<longrightarrow>
       file_at w' (path_of (path_join bad (payload_name source bytes))) = Some bytes \<and>
       (\<forall>reason' t' i'. case quarantine_bytes E C no_faults bad source bytes reason' t' i' w' of
          (res2, w2) \<Rightarrow> res2 = Inr False \<and> files w2 = files w'))"
  using assms
proof (cases rule: quarantine_bytes_cases)
  case (copied w2 r)
  from copied(3) obtain js where side: "install_no_replace (path_join bad (sidecar_name source bytes)) js w2 = (r, w')"
    by blast
  have kept: "files_kept w w'"
    using install_kept [OF copied(2)] install_kept [OF side]
    by (simp add: files_kept_def file_at_def)
  have there: "file_at w' (path_of (path_join bad (payload_name source bytes))) = Some bytes"
    using install_there [OF copied(2)] install_kept [OF side, unfolded files_kept_def] by (metis (full_types))
  have again: "quarantine_bytes E C no_faults bad source bytes reason' t' i' w' = (Inr False, w'\<lparr>draws := draws w' + 1\<rparr>)"
    for reason' t' i'
    using there by (simp add: quarantine_bytes_def Let_def no_faults_def install_no_replace_def file_exists_def file_at_def)
  show ?thesis using kept there by (simp add: again)
qed (simp_all add: files_kept_def file_at_def)

theorem quarantine_never_replaces_witness:
  "\<exists>w'. quarantine_bytes sample_env sample_codec no_faults ''t/bad'' ''t/f/reply'' ''{'' ''invalid JSON'' 3 7 bare_site =
       (Inr True, w') \<and>
     file_at w' (path_of (path_join ''t/bad'' (payload_name ''t/f/reply'' ''{''))) = Some ''{''"
proof -
  obtain w' where r: "quarantine_bytes sample_env sample_codec no_faults ''t/bad'' ''t/f/reply'' ''{'' ''invalid JSON'' 3 7
      bare_site = (Inr True, w')"
    by (simp add: quarantine_bytes_def Let_def no_faults_def install_no_replace_def file_exists_def file_at_def
        bare_site_def)
  from quarantine_never_replaces [OF r] r show ?thesis by blast
qed

end
