(* ===== verification/Scheduler_Time.thy ===== *)
theory Scheduler_Time
  imports Fire_Tx
begin

text \<open>
  The time arithmetic of the scheduler: execution jitter (\<open>scheduler/jitter.rs\<close>), the grace
  window of a misfire policy and the walk over missed instants (\<open>scheduler/engine/misfire.rs\<close>),
  the two walks that skip or collect a backlog. The hasher of the standard library, whose
  algorithm is unspecified, is the argument \<open>hash\<close>.
\<close>

definition HIGH_FREQ_PERIOD_SECS :: nat where "HIGH_FREQ_PERIOD_SECS = 5 * 60"

section \<open>Jitter\<close>

text \<open>\<open>timestamp_nanos_opt\<close> answers within \<open>i64\<close> only.\<close>

definition timestamp_nanos_opt :: "instant \<Rightarrow> int option" where
  "timestamp_nanos_opt t = (if - i64_max - 1 \<le> t \<and> t \<le> i64_max then Some t else None)"

definition jitter_offset_secs :: "(uuid \<Rightarrow> int \<Rightarrow> 64 word) \<Rightarrow> uuid \<Rightarrow> instant \<Rightarrow> nat \<Rightarrow> int" where
  "jitter_offset_secs hash timer_id scheduled_for jitter_secs =
     (if jitter_secs = 0 then 0
      else
        let raw = hash timer_id (case timestamp_nanos_opt scheduled_for of None \<Rightarrow> 0 | Some n \<Rightarrow> n);
            width = min i64_max (min i64_max (int jitter_secs * 2) + 1);
            rm = int (unat raw mod nat width) in
        rm - int jitter_secs)"

definition apply_execution_jitter ::
  "lib \<Rightarrow> (uuid \<Rightarrow> int \<Rightarrow> 64 word) \<Rightarrow> uuid \<Rightarrow> instant \<Rightarrow> nat \<Rightarrow> instant exec" where
  "apply_execution_jitter L hash timer_id fire_at jitter_secs =
     do { d \<leftarrow> duration_seconds L (jitter_offset_secs hash timer_id fire_at jitter_secs);
          instant_add L fire_at d }"

definition is_high_frequency :: "timer \<Rightarrow> bool" where
  "is_high_frequency t = (case kind (t_occurrence t) of
     Interval every_secs _ \<Rightarrow> every_secs < HIGH_FREQ_PERIOD_SECS | _ \<Rightarrow> False)"

definition accuracy_slack_for :: "timer \<Rightarrow> span \<Rightarrow> span" where
  "accuracy_slack_for t global_default =
     (case t_accuracy_slack_secs t of
        Some s \<Rightarrow> s * 1000000000
      | None \<Rightarrow> if is_high_frequency t then global_default else 0)"

definition is_due_with_accuracy :: "lib \<Rightarrow> instant \<Rightarrow> instant \<Rightarrow> span \<Rightarrow> bool exec" where
  "is_due_with_accuracy L fire_at now slack =
     do { t \<leftarrow> instant_add L now (case from_std L slack of None \<Rightarrow> 0 | Some d \<Rightarrow> d);
          ret (fire_at \<le> t) }"

section \<open>Grace\<close>

definition saturating_secs :: "lib \<Rightarrow> nat \<Rightarrow> duration" where
  "saturating_secs L secs =
     (case (if int secs \<le> i64_max then try_seconds L (int secs) else None) of
        None \<Rightarrow> duration_max L | Some d \<Rightarrow> d)"

definition grace_for :: "lib \<Rightarrow> timer \<Rightarrow> duration" where
  "grace_for L t = (case t_misfire t of
     MisfireSkip \<Rightarrow>
       (case kind (t_occurrence t) of Interval every_secs _ \<Rightarrow> saturating_secs L every_secs | _ \<Rightarrow> 0)
   | Coalesce g \<Rightarrow> saturating_secs L g
   | CatchUp g _ \<Rightarrow> saturating_secs L g)"

section \<open>Walking a backlog\<close>

fun missed_from :: "lib \<Rightarrow> nat \<Rightarrow> occurrence \<Rightarrow> instant \<Rightarrow> instant \<Rightarrow> instant list exec" where
  "missed_from L 0 oc cur now = ret []"
| "missed_from L (Suc n) oc cur now =
     do { (oc', r) \<leftarrow> next_fire L oc cur;
          case r of
            None \<Rightarrow> ret []
          | Some c \<Rightarrow>
              if now < c then ret []
              else do { rest \<leftarrow> missed_from L n oc' c now; ret (c # rest) } }"

definition walk_missed :: "lib \<Rightarrow> timer \<Rightarrow> instant \<Rightarrow> instant \<Rightarrow> instant list exec" where
  "walk_missed L t first_due now =
     (if now < first_due then ret []
      else
        do { _ \<leftarrow> timezone L (t_occurrence t);
             rest \<leftarrow> missed_from L 10000 (t_occurrence t) first_due now;
             ret (first_due # rest) })"

text \<open>The walk of the skip path: the schedule after it and the last instant skipped.\<close>

fun skip_walk ::
  "lib \<Rightarrow> nat \<Rightarrow> occurrence \<Rightarrow> instant \<Rightarrow> instant \<Rightarrow> instant option \<Rightarrow> (occurrence \<times> instant option) exec" where
  "skip_walk L 0 oc cur now skipped = ret (oc, skipped)"
| "skip_walk L (Suc n) oc cur now skipped =
     do { (oc', r) \<leftarrow> next_fire L oc cur;
          case r of
            None \<Rightarrow> ret (oc', skipped)
          | Some c \<Rightarrow>
              if now < c then ret (oc', skipped) else skip_walk L n oc' c now (Some c) }"

section \<open>The monotonic clock\<close>

text \<open>
  \<open>MonoTime::saturating_sub\<close>, and the divergence of the two clocks since the last reading, in
  milliseconds: \<open>i64::saturating_sub\<close> and \<open>unsigned_abs\<close>.
\<close>

definition mono_sub :: "span \<Rightarrow> span \<Rightarrow> span" where
  "mono_sub a b = a - b"

definition clocks_diverge :: "instant \<Rightarrow> instant \<Rightarrow> span \<Rightarrow> span \<Rightarrow> span \<Rightarrow> bool" where
  "clocks_diverge wall prev_wall mono_now prev_mono threshold =
     (let wall_ms = num_milliseconds (wall - prev_wall);
          mono_ms = min i64_max (int (mono_sub mono_now prev_mono div 1000000));
          divergence = nat \<bar>max (- i64_max - 1) (min i64_max (wall_ms - mono_ms))\<bar> in
      min u64_max (threshold div 1000000) < divergence)"

end
