(* ===== verification/Scheduler_Heap.thy ===== *)
theory Scheduler_Heap
  imports Reply_World
begin

text \<open>
  The near-horizon heap of the scheduler (\<open>scheduler/engine/types.rs\<close>): its entries, their
  order, and the standard library's \<open>BinaryHeap<Reverse<HeapEntry>>\<close> as the list of its entries
  in ascending order (an entry pushed goes after those that compare equal to it). The interface
  the scheduler relies on is the locale \<open>wake_queue\<close>.
\<close>

datatype heap_kind = FireOf uuid | DeadlineOf uuid deadline_kind

record heap_entry =
  he_fire_at :: instant
  he_kind :: heap_kind

text \<open>Earliest first; a fire before a deadline, then by the id's text.\<close>

definition heap_kind_key :: "heap_kind \<Rightarrow> nat \<times> uuid" where
  "heap_kind_key k = (case k of FireOf i \<Rightarrow> (0, i) | DeadlineOf i _ \<Rightarrow> (1, i))"

definition entry_key :: "heap_entry \<Rightarrow> instant \<times> nat \<times> uuid" where
  "entry_key e = (he_fire_at e, heap_kind_key (he_kind e))"

definition heap_fire :: "instant \<Rightarrow> uuid \<Rightarrow> heap_entry" where
  "heap_fire fire_at timer_id = \<lparr>he_fire_at = fire_at, he_kind = FireOf timer_id\<rparr>"

definition heap_deadline :: "instant \<Rightarrow> uuid \<Rightarrow> deadline_kind \<Rightarrow> heap_entry" where
  "heap_deadline wall_at run_id k = \<lparr>he_fire_at = wall_at, he_kind = DeadlineOf run_id k\<rparr>"

definition heap_push :: "heap_entry \<Rightarrow> heap_entry list \<Rightarrow> heap_entry list" where
  "heap_push e h = takeWhile (\<lambda>x. entry_key x \<le> entry_key e) h @ e # dropWhile (\<lambda>x. entry_key x \<le> entry_key e) h"

fun heap_pop :: "heap_entry list \<Rightarrow> (heap_entry \<times> heap_entry list) option" where
  "heap_pop [] = None"
| "heap_pop (e # h) = Some (e, h)"

definition heap_peek :: "heap_entry list \<Rightarrow> heap_entry option" where
  "heap_peek h = map_option fst (heap_pop h)"

definition heap_ok :: "heap_entry list \<Rightarrow> bool" where
  "heap_ok h \<longleftrightarrow> sorted (map entry_key h)"

section \<open>The interface\<close>

locale wake_queue =
  fixes key :: "'e \<Rightarrow> 'k::linorder"
    and push :: "'e \<Rightarrow> 'q \<Rightarrow> 'q"
    and pop :: "'q \<Rightarrow> ('e \<times> 'q) option"
    and entries :: "'q \<Rightarrow> 'e multiset"
    and invar :: "'q \<Rightarrow> bool"
  assumes push_entries: "invar q \<Longrightarrow> entries (push e q) = add_mset e (entries q)"
    and push_invar: "invar q \<Longrightarrow> invar (push e q)"
    and pop_None: "invar q \<Longrightarrow> pop q = None \<longleftrightarrow> entries q = {#}"
    and pop_entries: "invar q \<Longrightarrow> pop q = Some (e, q') \<Longrightarrow> entries q = add_mset e (entries q')"
    and pop_invar: "invar q \<Longrightarrow> pop q = Some (e, q') \<Longrightarrow> invar q'"
    and pop_least: "invar q \<Longrightarrow> pop q = Some (e, q') \<Longrightarrow> x \<in># entries q \<Longrightarrow> key e \<le> key x"
begin

text \<open>Popping until an entry is not due yet, as the drain of due entries does.\<close>

fun pop_until :: "nat \<Rightarrow> ('k \<Rightarrow> bool) \<Rightarrow> 'q \<Rightarrow> 'e list \<times> 'q" where
  "pop_until 0 stop q = ([], q)"
| "pop_until (Suc n) stop q =
     (case pop q of
        None \<Rightarrow> ([], q)
      | Some (e, q') \<Rightarrow>
          if stop (key e) then ([], q)
          else (case pop_until n stop q' of (es, r) \<Rightarrow> (e # es, r)))"

lemma pop_until_entries:
  "invar q \<Longrightarrow> pop_until n stop q = (es, r) \<Longrightarrow> entries q = mset es + entries r \<and> invar r"
proof (induction n arbitrary: q es)
  case (Suc n)
  show ?case
  proof (cases "pop q")
    case (Some p)
    obtain e q' where p: "pop q = Some (e, q')" using Some by (cases p) simp
    note q' = pop_entries [OF Suc.prems(1) p] pop_invar [OF Suc.prems(1) p]
    with Suc.IH [OF q'(2)] Suc.prems p show ?thesis by (auto split: prod.splits if_splits)
  qed (use Suc.prems in auto)
qed simp

lemma pop_until_ascending:
  "invar q \<Longrightarrow> pop_until n stop q = (es, r) \<Longrightarrow>
     sorted (map key es) \<and> (\<forall>e\<in>set es. \<not> stop (key e) \<and> (\<forall>x\<in>#entries r. key e \<le> key x))"
proof (induction n arbitrary: q es)
  case (Suc n)
  show ?case
  proof (cases "pop q")
    case (Some p)
    obtain e q' where p: "p = (e, q')" by fastforce
    show ?thesis
    proof (cases "stop (key e)")
      case False
      with Suc.prems Some p obtain es' where es': "es = e # es'" "pop_until n stop q' = (es', r)"
        by (auto split: prod.splits)
      have inv: "invar q'" using pop_invar Suc.prems(1) Some p by blast
      have "entries q' = mset es' + entries r" using pop_until_entries inv es'(2) by blast
      then have "\<forall>x\<in>set es'. key e \<le> key x" "\<forall>x\<in>#entries r. key e \<le> key x"
        using pop_least [OF Suc.prems(1), of e q'] pop_entries [OF Suc.prems(1), of e q'] Some p by auto
      with Suc.IH [OF inv es'(2)] es'(1) False show ?thesis by auto
    qed (use Suc.prems Some p in auto)
  qed (use Suc.prems in auto)
qed simp

text \<open>With enough steps nothing due is left.\<close>

lemma pop_until_complete:
  assumes "\<And>a b. a \<le> b \<Longrightarrow> stop a \<Longrightarrow> stop b"
  shows "invar q \<Longrightarrow> size (entries q) \<le> n \<Longrightarrow> pop_until n stop q = (es, r) \<Longrightarrow> x \<in># entries r \<Longrightarrow> stop (key x)"
proof (induction n arbitrary: q es)
  case 0
  then show ?case by simp
next
  case (Suc n)
  show ?case
  proof (cases "pop q")
    case None
    with Suc.prems show ?thesis by (auto simp: pop_None)
  next
    case (Some p)
    obtain e q' where p: "p = (e, q')" by fastforce
    show ?thesis
    proof (cases "stop (key e)")
      case True
      with Suc.prems Some p have "x \<in># entries q" by simp
      from pop_least [OF Suc.prems(1) Some [unfolded p] this] True show ?thesis by (rule assms)
    next
      case False
      with Suc.prems Some p obtain es' where "pop_until n stop q' = (es', r)" by (auto split: prod.splits)
      with Suc.IH [of q'] Suc.prems Some p pop_entries [OF Suc.prems(1), of e q'] pop_invar [OF Suc.prems(1), of e q']
      show ?thesis by simp
    qed
  qed
qed

end

section \<open>The heap provides it\<close>

lemma heap_push_mset: "mset (heap_push e h) = add_mset e (mset h)"
  unfolding heap_push_def by (metis mset.simps(2) mset_append takeWhile_dropWhile_id union_mset_add_mset_right)

lemma sorted_push:
  "sorted (map k h) \<Longrightarrow>
     sorted (map k (takeWhile (\<lambda>x. k x \<le> k e) h @ e # dropWhile (\<lambda>x. k x \<le> k e) h))"
  for k :: "'a \<Rightarrow> 'b::linorder"
proof (induction h)
  case (Cons x h)
  then show ?case
  proof (cases "k x \<le> k e")
    case True
    have "set (takeWhile (\<lambda>x. k x \<le> k e) h @ e # dropWhile (\<lambda>x. k x \<le> k e) h) = insert e (set h)"
      by (metis Un_insert_right list.simps(15) set_append takeWhile_dropWhile_id)
    then have "\<forall>y\<in>set (takeWhile (\<lambda>x. k x \<le> k e) h @ e # dropWhile (\<lambda>x. k x \<le> k e) h). k x \<le> k y"
      using Cons.prems True by auto
    with Cons True show ?thesis by (simp add: ball_Un)
  next
    case False
    with Cons.prems show ?thesis by auto
  qed
qed simp

interpretation hq: wake_queue entry_key heap_push heap_pop mset heap_ok
proof
  fix e :: heap_entry and q q' :: "heap_entry list"
  show "heap_ok q \<Longrightarrow> mset (heap_push e q) = add_mset e (mset q)" by (rule heap_push_mset)
  show "heap_ok q \<Longrightarrow> heap_ok (heap_push e q)" unfolding heap_ok_def heap_push_def by (rule sorted_push)
  show "heap_ok q \<Longrightarrow> heap_pop q = None \<longleftrightarrow> mset q = {#}" by (cases q) auto
  show "heap_ok q \<Longrightarrow> heap_pop q = Some (e, q') \<Longrightarrow> mset q = add_mset e (mset q')" by (cases q) auto
  show "heap_ok q \<Longrightarrow> heap_pop q = Some (e, q') \<Longrightarrow> heap_ok q'" by (cases q) (auto simp: heap_ok_def)
  show "heap_ok q \<Longrightarrow> heap_pop q = Some (e, q') \<Longrightarrow> x \<in># mset q \<Longrightarrow> entry_key e \<le> entry_key x" for x
    by (cases q) (auto simp: heap_ok_def)
qed

end
