(* ===== verification/Scheduler_Engine.thy ===== *)
theory Scheduler_Engine
  imports Scheduler_Time Scheduler_Heap
begin

text \<open>
  The scheduler (\<open>scheduler/engine/mod.rs\<close>, \<open>types.rs\<close>, \<open>config.rs\<close>, \<open>action.rs\<close>): its state,
  which extends the world of the reply watcher by the heap, the last clock readings, the control
  channel and the log of the contexts the action was called with. What it takes from outside is
  the record \<open>host\<close>: the clock's readings in order, the hasher behind jitter, the probes of the
  database's data version, the action's answers (the log so far stands for its state), the
  texts of a policy and of an instant, the socket of the timers tree, the second read of the pre-fire barrier, and the two entry points
  of the pruner (modelled in theory \<open>Pruner\<close>). A call that answers an error keeps what it had
  changed.
\<close>

section \<open>Configuration\<close>

record sched_config =
  c_horizon :: span
  c_max_sleep :: span
  c_external_rebuild_interval :: span
  c_jump_threshold :: span
  c_max_concurrent_actions :: nat
  c_accuracy_slack :: span
  c_data_dir :: "string option"
  c_retention :: span
  c_prune_interval :: span
  c_ack_grace :: span
  c_log_rotation_max_bytes :: nat
  c_log_retention_budget_bytes :: nat
  c_quarantine_budget_bytes :: nat
  c_pickup_grace :: span
  c_fire_slot_file :: "string option"
  c_ipc :: "ipc_handle option"

definition reply_engine :: "sched_config \<Rightarrow> engine option" where
  "reply_engine G = map_option (\<lambda>dir. \<lparr>data_dir = dir, pickup_grace = c_pickup_grace G,
     fire_slot_file = c_fire_slot_file G, ipc = c_ipc G\<rparr>) (c_data_dir G)"

section \<open>Values\<close>

datatype control_msg = Refill | Shutdown | SetPauseAll bool | ArmDeadline uuid deadline_kind instant

record delivered_fire =
  df_timer_id :: uuid
  df_scheduled_for :: instant
  df_run_id :: uuid
  df_kind :: fire_kind

record tick_result =
  tr_fires :: "delivered_fire list"
  tr_clock_jump :: bool
  tr_refilled :: bool
  tr_shutdown :: bool

datatype scheduler_error = SStore store_error | SAction string | SInternal string

record fire_context =
  fc_timer :: timer
  fc_scheduled_for :: instant
  fc_run_id :: uuid
  fc_kind :: fire_kind
  fc_claimed_at :: instant

definition from_claim :: "timer \<Rightarrow> run_claim \<Rightarrow> fire_kind \<Rightarrow> fire_context" where
  "from_claim t claim k = \<lparr>fc_timer = t, fc_scheduled_for = r_scheduled_for claim, fc_run_id = r_id claim,
     fc_kind = k, fc_claimed_at = r_claimed_at claim\<rparr>"

section \<open>State\<close>

record scheduler = watch +
  heap :: "heap_entry list"
  last_wall :: instant
  last_mono :: span
  control :: "control_msg list"
  booted :: bool
  pause_all :: bool
  last_data_version :: int
  last_rebuild_mono :: span
  readings :: nat
  acted :: "fire_context list"

record host =
  wall_reading :: "nat \<Rightarrow> instant"
  mono_reading :: "nat \<Rightarrow> span"
  data_version :: "nat \<Rightarrow> int option"
  jitter_hash :: "uuid \<Rightarrow> int \<Rightarrow> 64 word"
  on_fire :: "fire_context list \<Rightarrow> fire_context \<Rightarrow> string option"
  executes_inline :: bool
  boot_complete :: "store \<Rightarrow> store"
  policy_json :: "misfire_policy \<Rightarrow> string"
  rfc3339 :: "instant \<Rightarrow> string"
  tree_socket :: "string option"
  second_read :: "nat \<Rightarrow> reply_read"
  prune_pass :: "instant \<Rightarrow> watch \<Rightarrow> watch"
  startup_maintenance :: "instant \<Rightarrow> watch \<Rightarrow> watch"

section \<open>Steps\<close>

text \<open>A step may panic, answer an error or a value; \<open>andS\<close> is \<open>?\<close> and the semicolon.\<close>

type_synonym 'a step = "scheduler \<Rightarrow> ((scheduler_error + 'a) \<times> scheduler) exec"

definition okS :: "'a \<Rightarrow> 'a step" where "okS a w = ret (Inr a, w)"
definition failS :: "scheduler_error \<Rightarrow> 'a step" where "failS e w = ret (Inl e, w)"

definition andS :: "'a step \<Rightarrow> ('a \<Rightarrow> 'b step) \<Rightarrow> 'b step" where
  "andS m f w = (case m w of
     None \<Rightarrow> panic
   | Some (Inl e, w1) \<Rightarrow> ret (Inl e, w1)
   | Some (Inr a, w1) \<Rightarrow> f a w1)"

text \<open>A panicking computation, a read of the state, a total update.\<close>

definition execS :: "'a exec \<Rightarrow> 'a step" where
  "execS x w = (case x of None \<Rightarrow> panic | Some a \<Rightarrow> ret (Inr a, w))"

definition getS :: "(scheduler \<Rightarrow> 'a) \<Rightarrow> 'a step" where "getS f w = ret (Inr (f w), w)"
definition putS :: "(scheduler \<Rightarrow> scheduler) \<Rightarrow> unit step" where "putS f w = ret (Inr (), f w)"

text \<open>What the reply engine, the tree and the pruner do: they do not see the scheduler's own fields.\<close>

definition on_watch :: "(watch \<Rightarrow> ('a \<times> watch) exec) \<Rightarrow> scheduler \<Rightarrow> ('a \<times> scheduler) exec" where
  "on_watch f w = map_option (\<lambda>(a, v). (a, watch.extend v (watch.more w))) (f (watch.truncate w))"

definition watchS :: "(watch \<Rightarrow> watch) \<Rightarrow> unit step" where
  "watchS f = on_watch (\<lambda>v. ret (Inr (), f v))"

definition wall_now :: "host \<Rightarrow> instant step" where
  "wall_now H w = ret (Inr (wall_reading H (readings w)), w\<lparr>readings := readings w + 1\<rparr>)"

definition mono_clock :: "host \<Rightarrow> span step" where
  "mono_clock H w = ret (Inr (mono_reading H (readings w)), w\<lparr>readings := readings w + 1\<rparr>)"

definition push_heap :: "heap_entry \<Rightarrow> scheduler \<Rightarrow> scheduler" where
  "push_heap e w = w\<lparr>heap := heap_push e (heap w)\<rparr>"

text \<open>A store call that may fail, and \<open>update_timer\<close> with its own reading of the clock.\<close>

definition storeS :: "(store \<Rightarrow> store_error + 'a \<times> store) \<Rightarrow> 'a step" where
  "storeS f w = (case f (db w) of
     Inl e \<Rightarrow> ret (Inl (SStore e), w)
   | Inr (a, s) \<Rightarrow> ret (Inr a, w\<lparr>db := s\<rparr>))"

definition updateS :: "env \<Rightarrow> timer_update \<Rightarrow> unit step" where
  "updateS E up w =
     do { r \<leftarrow> update_timer (env_lib E) (utc_now E (draws w)) up (db w);
          ret (case r of
            Inl e \<Rightarrow> (Inl (SStore e), w\<lparr>draws := draws w + 1\<rparr>)
          | Inr (_, s) \<Rightarrow> (Inr (), w\<lparr>db := s, draws := draws w + 1\<rparr>)) }"

definition sched_new :: "host \<Rightarrow> bool \<Rightarrow> watch \<Rightarrow> scheduler" where
  "sched_new H paused v = watch.extend v
     \<lparr> heap = [], last_wall = wall_reading H 0, last_mono = mono_reading H 1, control = [],
       booted = False, pause_all = paused, last_data_version = 0, last_rebuild_mono = mono_reading H 1,
       readings = 2, acted = [] \<rparr>"

definition peek_next :: "scheduler \<Rightarrow> (instant \<times> uuid) option" where
  "peek_next w = map_option (\<lambda>e. (he_fire_at e, case he_kind e of FireOf i \<Rightarrow> i | DeadlineOf _ _ \<Rightarrow> 0)) (heap_peek (heap w))"

section \<open>The system timer\<close>

definition SYSTEM_PRUNE_NAME :: string where "SYSTEM_PRUNE_NAME = ''system.prune''"
definition SYSTEM_PRUNE_TAG :: string where "SYSTEM_PRUNE_TAG = ''system''"

text \<open>\<open>00000000-0000-4000-8000-000000000001\<close>\<close>

definition SYSTEM_PRUNE_ID :: uuid where "SYSTEM_PRUNE_ID = 0x00000000000040008000000000000001"

definition is_system_prune_timer :: "timer \<Rightarrow> bool" where
  "is_system_prune_timer t \<longleftrightarrow>
     t_id t = SYSTEM_PRUNE_ID \<or> (t_name t = SYSTEM_PRUNE_NAME \<and> SYSTEM_PRUNE_TAG \<in> set (t_tags t))"

end
