(* ===== verification/Scheduler_Delivery.thy ===== *)
theory Scheduler_Delivery
  imports Scheduler_Engine
begin

text \<open>
  The horizon (\<open>scheduler/engine/horizon.rs\<close>), the claim, act and record path
  (\<open>delivery.rs\<close>) and the overdue work (\<open>misfire.rs\<close>). The read locks and the printed
  diagnostics have no effect here; the reply engine exists when a data directory is configured.
\<close>

section \<open>The horizon\<close>

definition exec_instant :: "env \<Rightarrow> host \<Rightarrow> uuid \<Rightarrow> instant \<Rightarrow> nat \<Rightarrow> instant exec" where
  "exec_instant E H timer_id fire_at jitter_secs =
     apply_execution_jitter (env_lib E) (jitter_hash H) timer_id fire_at jitter_secs"

fun push_timers :: "env \<Rightarrow> host \<Rightarrow> timer list \<Rightarrow> scheduler \<Rightarrow> scheduler exec" where
  "push_timers E H [] w = ret w"
| "push_timers E H (t # ts) w =
     (case t_next_fire t of
        None \<Rightarrow> push_timers E H ts w
      | Some nf \<Rightarrow>
          do { at \<leftarrow> exec_instant E H (t_id t) nf (t_jitter_secs t);
               push_timers E H ts (push_heap (heap_fire at (t_id t)) w) })"

fun push_book :: "env \<Rightarrow> instant \<Rightarrow> (uuid \<times> mono_deadline) list \<Rightarrow> scheduler \<Rightarrow> scheduler exec" where
  "push_book E now [] w = ret w"
| "push_book E now ((run_id, d) # ds) w =
     do { at \<leftarrow> instant_add (env_lib E) now
            (case from_std (env_lib E) (dl_at d - instant_now E) of None \<Rightarrow> 0 | Some r \<Rightarrow> r);
          push_book E now ds (push_heap (heap_deadline at run_id (dl_kind d)) w) }"

text \<open>The enabled timers due within the horizon, then the high-frequency ones not among them.\<close>

definition rebuild_horizon :: "env \<Rightarrow> sched_config \<Rightarrow> host \<Rightarrow> unit step" where
  "rebuild_horizon E G H =
     andS (putS (\<lambda>w. case data_version H (readings w) of None \<Rightarrow> w | Some v \<Rightarrow> w\<lparr>last_data_version := v\<rparr>)) (\<lambda>_.
     andS (mono_clock H) (\<lambda>m.
     andS (putS (\<lambda>w. w\<lparr>last_rebuild_mono := m, heap := []\<rparr>)) (\<lambda>_.
     andS (wall_now H) (\<lambda>now.
     case from_std (env_lib E) (c_horizon G) of
       None \<Rightarrow> failS (SInternal ''horizon duration'')
     | Some h \<Rightarrow>
         andS (execS (instant_add (env_lib E) now h)) (\<lambda>limit w.
         let (due, s1) = timers_due_by (db w) limit;
             (all, s2) = list_timers s1;
             extra = filter (\<lambda>t. t_enabled t \<and> t_id t \<notin> t_id ` set due \<and> is_high_frequency t) all in
         do { w1 \<leftarrow> push_timers E H due (w\<lparr>db := s1\<rparr>);
              w2 \<leftarrow> push_timers E H extra (w1\<lparr>db := s2\<rparr>);
              w3 \<leftarrow> (case reply_engine G of None \<Rightarrow> ret w2 | Some _ \<Rightarrow> push_book E now (book w2) w2);
              ret (Inr (), w3) })))))"

definition push_deadline :: "uuid \<Rightarrow> deadline_kind \<Rightarrow> instant \<Rightarrow> scheduler \<Rightarrow> scheduler" where
  "push_deadline run_id k wall_at w = push_heap (heap_deadline wall_at run_id k) w"

text \<open>\<open>now + horizon\<close> is evaluated only when the horizon is a duration.\<close>

definition push_if_in_horizon :: "env \<Rightarrow> sched_config \<Rightarrow> host \<Rightarrow> instant \<Rightarrow> uuid \<Rightarrow> unit step" where
  "push_if_in_horizon E G H fire_at timer_id =
     andS (wall_now H) (\<lambda>now w.
       let t = get_timer (db w) timer_id;
           jitter = (case t of None \<Rightarrow> 0 | Some t \<Rightarrow> t_jitter_secs t);
           force = (case t of None \<Rightarrow> False | Some t \<Rightarrow> is_high_frequency t) in
       do { at \<leftarrow> exec_instant E H timer_id fire_at jitter;
            near \<leftarrow> (case from_std (env_lib E) (c_horizon G) of
                None \<Rightarrow> ret True
              | Some h \<Rightarrow> do { limit \<leftarrow> instant_add (env_lib E) now h; ret (at \<le> limit) });
            ret (Inr (), if near \<or> force then push_heap (heap_fire at timer_id) w else w) })"

definition requeue_timer :: "env \<Rightarrow> sched_config \<Rightarrow> host \<Rightarrow> uuid \<Rightarrow> unit step" where
  "requeue_timer E G H timer_id w =
     (case get_timer (db w) timer_id of
        None \<Rightarrow> okS () w
      | Some t \<Rightarrow>
          (case t_next_fire t of
             Some nf \<Rightarrow> if t_enabled t then push_if_in_horizon E G H nf timer_id w else okS () w
           | None \<Rightarrow> okS () w))"

definition missing_timer :: scheduler_error where "missing_timer = SInternal ''timer missing''"

definition existing_timer :: "uuid \<Rightarrow> timer step" where
  "existing_timer timer_id w =
     (case get_timer (db w) timer_id of None \<Rightarrow> failS missing_timer w | Some t \<Rightarrow> okS t w)"

definition ledger_update :: "timer \<Rightarrow> instant \<Rightarrow> occurrence option \<Rightarrow> timer_update" where
  "ledger_update t anchor oc = \<lparr>up_id = t_id t, up_expected_revision = t_revision t,
     up_patch = empty_patch\<lparr>u_last_fired := Some (Some anchor), u_occurrence := oc\<rparr>\<rparr>"

definition skip_cursor :: "lib \<Rightarrow> timer \<Rightarrow> instant \<Rightarrow> instant exec" where
  "skip_cursor L t now = (case t_last_fired t of
     Some f \<Rightarrow> ret f
   | None \<Rightarrow> (case t_next_fire t of None \<Rightarrow> ret now | Some nf \<Rightarrow> instant_add L nf (- 1)))"

definition advance_past_now :: "env \<Rightarrow> sched_config \<Rightarrow> host \<Rightarrow> uuid \<Rightarrow> instant \<Rightarrow> unit step" where
  "advance_past_now E G H timer_id now =
     andS (existing_timer timer_id) (\<lambda>t.
     andS (execS (timezone (env_lib E) (t_occurrence t))) (\<lambda>_.
     andS (execS (skip_cursor (env_lib E) t now)) (\<lambda>cur.
     andS (execS (skip_walk (env_lib E) 100000 (t_occurrence t) cur now (t_last_fired t))) (\<lambda>(oc, skipped).
     andS (updateS E (ledger_update t (case skipped of None \<Rightarrow> now | Some a \<Rightarrow> a) (Some oc))) (\<lambda>_.
     requeue_timer E G H timer_id)))))"

text \<open>The slot's ledger is bumped, and a timer that is still overdue jumps past now.\<close>

definition settle_timer :: "env \<Rightarrow> sched_config \<Rightarrow> host \<Rightarrow> uuid \<Rightarrow> instant \<Rightarrow> unit step" where
  "settle_timer E G H timer_id now w =
     (case get_timer (db w) timer_id of
        None \<Rightarrow> okS () w
      | Some t \<Rightarrow>
          (case t_next_fire t of
             Some nf \<Rightarrow> if nf \<le> now then advance_past_now E G H timer_id now w
               else requeue_timer E G H timer_id w
           | None \<Rightarrow> requeue_timer E G H timer_id w))"

definition bump_ledger :: "env \<Rightarrow> sched_config \<Rightarrow> host \<Rightarrow> timer \<Rightarrow> instant \<Rightarrow> unit step" where
  "bump_ledger E G H t scheduled_for =
     andS (updateS E (ledger_update t scheduled_for (Some (t_occurrence t)))) (\<lambda>_.
     andS (wall_now H) (\<lambda>now. settle_timer E G H (t_id t) now))"

definition ensure_advanced_past :: "env \<Rightarrow> sched_config \<Rightarrow> host \<Rightarrow> uuid \<Rightarrow> instant \<Rightarrow> unit step" where
  "ensure_advanced_past E G H timer_id scheduled_for w =
     (case get_timer (db w) timer_id of
        None \<Rightarrow> okS () w
      | Some t \<Rightarrow>
          (case t_next_fire t of
             Some nf \<Rightarrow> if scheduled_for < nf then push_if_in_horizon E G H nf timer_id w
               else bump_ledger E G H t scheduled_for w
           | None \<Rightarrow> bump_ledger E G H t scheduled_for w))"

section \<open>Acting on a claim\<close>

definition anchor_last_fired :: "env \<Rightarrow> uuid \<Rightarrow> instant \<Rightarrow> unit step" where
  "anchor_last_fired E timer_id anchor =
     andS (existing_timer timer_id) (\<lambda>t. updateS E (ledger_update t anchor None))"

definition mark_fired :: "env \<Rightarrow> uuid \<Rightarrow> instant \<Rightarrow> unit step" where
  "mark_fired E timer_id scheduled_for =
     andS (existing_timer timer_id)
       (\<lambda>t. updateS E (ledger_update t scheduled_for (Some (record_run (t_occurrence t)))))"

text \<open>The view refresh: its failure is printed.\<close>

definition refresh_timer_json ::
  "codec \<Rightarrow> faults \<Rightarrow> sched_config \<Rightarrow> host \<Rightarrow> uuid \<Rightarrow> watch \<Rightarrow> watch" where
  "refresh_timer_json C F G H timer_id w =
     (case c_data_dir G of
        None \<Rightarrow> w
      | Some dir \<Rightarrow>
          (case get_timer (db w) timer_id of
             None \<Rightarrow> w
           | Some t \<Rightarrow> snd (sync_timer_json C F (tree_socket H) (tree_root dir) t (get_timer_owner (db w) timer_id) w)))"

text \<open>The action's call, and the closing of the claim when it ran inline.\<close>

definition close_inline :: "env \<Rightarrow> run_claim \<Rightarrow> string option \<Rightarrow> unit step" where
  "close_inline E claim err =
     (if r_status claim = Pending then
        (\<lambda>w. storeS (\<lambda>s. (case err of None \<Rightarrow> complete_run | Some _ \<Rightarrow> fail_run)
               (utc_now E (draws w)) (r_id claim) s) (w\<lparr>draws := draws w + 1\<rparr>)
             \<bind> (\<lambda>(r, w1). ret (map_sum id (\<lambda>_. ()) r, w1)))
      else okS ())"

definition run_action :: "env \<Rightarrow> host \<Rightarrow> timer \<Rightarrow> run_claim \<Rightarrow> fire_kind \<Rightarrow> string option step" where
  "run_action E H t claim k w =
     (let ctx = from_claim t claim k;
          err = on_fire H (acted w) ctx;
          w1 = w\<lparr>acted := acted w @ [ctx]\<rparr> in
      if executes_inline H then andS (close_inline E claim err) (\<lambda>_. okS err) w1
      else okS None w1)"

definition prune_if_system :: "sched_config \<Rightarrow> host \<Rightarrow> timer \<Rightarrow> unit step" where
  "prune_if_system G H t =
     (if is_system_prune_timer t \<and> c_data_dir G \<noteq> None
      then andS (wall_now H) (\<lambda>now. watchS (prune_pass H now)) else okS ())"

text \<open>The ledger moves past the slot unless a crash already moved it.\<close>

definition record_fire :: "env \<Rightarrow> sched_config \<Rightarrow> host \<Rightarrow> uuid \<Rightarrow> instant \<Rightarrow> unit step" where
  "record_fire E G H timer_id scheduled_for w =
     (case get_timer (db w) timer_id of
        None \<Rightarrow> requeue_timer E G H timer_id w
      | Some t \<Rightarrow>
          (case t_last_fired t of
             None \<Rightarrow> mark_fired E timer_id scheduled_for w
           | Some lf \<Rightarrow> if lf < scheduled_for then mark_fired E timer_id scheduled_for w
                        else requeue_timer E G H timer_id w))"

definition act_and_close ::
  "env \<Rightarrow> codec \<Rightarrow> faults \<Rightarrow> sched_config \<Rightarrow> host \<Rightarrow> timer \<Rightarrow> run_claim \<Rightarrow> fire_kind \<Rightarrow>
     delivered_fire option step" where
  "act_and_close E C F G H t claim k =
     (if r_status claim = Finished \<and> r_completed_at claim \<noteq> None \<and> r_outcome claim = None
      then andS (ensure_advanced_past E G H (t_id t) (r_scheduled_for claim)) (\<lambda>_. okS None)
      else
        andS (if r_status claim = Finished then okS None else run_action E H t claim k) (\<lambda>err.
        andS (prune_if_system G H t) (\<lambda>_.
        andS (record_fire E G H (t_id t) (r_scheduled_for claim)) (\<lambda>_.
        andS (watchS (refresh_timer_json C F G H (t_id t))) (\<lambda>_.
        case err of
          Some e \<Rightarrow> failS (SAction e)
        | None \<Rightarrow> okS (Some \<lparr>df_timer_id = t_id t, df_scheduled_for = r_scheduled_for claim,
                           df_run_id = r_id claim, df_kind = k\<rparr>))))))"

section \<open>Delivering one slot\<close>

definition already_claimed ::
  "env \<Rightarrow> codec \<Rightarrow> faults \<Rightarrow> sched_config \<Rightarrow> host \<Rightarrow> timer \<Rightarrow> uuid \<Rightarrow> instant \<Rightarrow> fire_kind \<Rightarrow>
     delivered_fire option step" where
  "already_claimed E C F G H t timer_id scheduled_for k w =
     (case get_claim_for (db w) timer_id scheduled_for of
        Some existing \<Rightarrow>
          if is_unfinished existing then act_and_close E C F G H t existing k w
          else andS (ensure_advanced_past E G H (t_id t) scheduled_for) (\<lambda>_. okS None) w
      | None \<Rightarrow> failS (SInternal ''AlreadyClaimed but no row'') w)"

text \<open>The pickup deadline of an owned run goes on the heap.\<close>

definition arm_pickup :: "env \<Rightarrow> sched_config \<Rightarrow> run_claim \<Rightarrow> unit step" where
  "arm_pickup E G c w =
     (if get_run_state (db w) (r_id c) = None then okS () w
      else andS (execS (instant_add (env_lib E) (r_claimed_at c)
               (case from_std (env_lib E) (c_pickup_grace G) of None \<Rightarrow> 60 * sec_ns | Some d \<Rightarrow> d)))
             (\<lambda>wall_at. putS (push_deadline (r_id c) Pickup wall_at)) w)"

definition fire_with_engine ::
  "env \<Rightarrow> codec \<Rightarrow> faults \<Rightarrow> sched_config \<Rightarrow> host \<Rightarrow> engine \<Rightarrow> timer \<Rightarrow> instant \<Rightarrow> fire_kind \<Rightarrow>
     instant \<Rightarrow> delivered_fire option step" where
  "fire_with_engine E C F G H eng t scheduled_for k now w =
     (case on_watch (project_fire E C F eng (tree_socket H) t scheduled_for k now (second_read H (readings w))) w of
        None \<Rightarrow> panic
      | Some (Inr c, w1) \<Rightarrow> andS (arm_pickup E G c) (\<lambda>_. act_and_close E C F G H t c k) w1
      | Some (Inl (TreeStore (AlreadyClaimed timer_id slot)), w1) \<Rightarrow>
          already_claimed E C F G H t timer_id slot k w1
      | Some (Inl e, w1) \<Rightarrow> failS (SInternal ''fire transaction'') w1)"

definition fire_bare ::
  "env \<Rightarrow> codec \<Rightarrow> faults \<Rightarrow> sched_config \<Rightarrow> host \<Rightarrow> timer \<Rightarrow> instant \<Rightarrow> fire_kind \<Rightarrow> delivered_fire option step" where
  "fire_bare E C F G H t scheduled_for k w =
     (let w1 = w\<lparr>draws := draws w + 1\<rparr> in
      case claim_run (utc_now E (draws w)) (new_uuid E (draws w)) (t_id t) scheduled_for (db w) of
        Inr (c, s) \<Rightarrow> act_and_close E C F G H t c k (w1\<lparr>db := s\<rparr>)
      | Inl (AlreadyClaimed timer_id slot) \<Rightarrow> already_claimed E C F G H t timer_id slot k w1
      | Inl e \<Rightarrow> failS (SStore e) w1)"

definition deliver_one ::
  "env \<Rightarrow> codec \<Rightarrow> faults \<Rightarrow> sched_config \<Rightarrow> host \<Rightarrow> timer \<Rightarrow> instant \<Rightarrow> fire_kind \<Rightarrow> delivered_fire option step" where
  "deliver_one E C F G H t scheduled_for k =
     (case reply_engine G of
        Some eng \<Rightarrow> andS (wall_now H) (\<lambda>now. fire_with_engine E C F G H eng t scheduled_for k now)
      | None \<Rightarrow> fire_bare E C F G H t scheduled_for k)"

section \<open>The misfire policies\<close>

definition log_skipped_misfire ::
  "env \<Rightarrow> host \<Rightarrow> timer \<Rightarrow> instant \<Rightarrow> nat \<Rightarrow> instant \<Rightarrow> string \<Rightarrow> scheduler \<Rightarrow> scheduler" where
  "log_skipped_misfire E H t scheduled_for missed now reason w =
     emit E SkippedMisfireEv (\<lambda>e.
       with_detail (with_message (with_count (with_scheduled_for (with_timer (with_logged_at e now)
           (t_id t) (t_name t)) scheduled_for) (min u32_max missed)) reason)
         (json_object E [(''policy'', JRaw (policy_json H (t_misfire t))), (''missed_count'', JNum (int missed)),
            (''oldest_missed'', JStr (rfc3339 H scheduled_for)),
            (''lateness_secs'', JNum (num_seconds (now - scheduled_for)))])) w"

definition lateness_kind :: "duration \<Rightarrow> fire_kind" where
  "lateness_kind late = (if late \<le> sec_ns then OnTime else Late late)"

definition option_list :: "'a option \<Rightarrow> 'a list" where
  "option_list x = (case x of None \<Rightarrow> [] | Some a \<Rightarrow> [a])"

definition due_skip ::
  "env \<Rightarrow> codec \<Rightarrow> faults \<Rightarrow> sched_config \<Rightarrow> host \<Rightarrow> timer \<Rightarrow> instant \<Rightarrow> instant \<Rightarrow> delivered_fire list step" where
  "due_skip E C F G H t scheduled_for now =
     (let late = now - scheduled_for in
      if late \<le> grace_for (env_lib E) t then
        andS (deliver_one E C F G H t scheduled_for (lateness_kind late)) (\<lambda>d.
        andS (requeue_timer E G H (t_id t)) (\<lambda>_. okS (option_list d)))
      else
        andS (execS (walk_missed (env_lib E) t scheduled_for now)) (\<lambda>missed.
        andS (putS (log_skipped_misfire E H t scheduled_for (max 1 (length missed)) now ''misfire_skip_past_grace'')) (\<lambda>_.
        andS (advance_past_now E G H (t_id t) now) (\<lambda>_. okS []))))"

definition due_coalesce ::
  "env \<Rightarrow> codec \<Rightarrow> faults \<Rightarrow> sched_config \<Rightarrow> host \<Rightarrow> timer \<Rightarrow> instant \<Rightarrow> instant \<Rightarrow> delivered_fire list step" where
  "due_coalesce E C F G H t scheduled_for now =
     andS (execS (walk_missed (env_lib E) t scheduled_for now)) (\<lambda>walk.
     let in_grace = filter (\<lambda>m. now - m \<le> grace_for (env_lib E) t) walk in
     if in_grace = [] then
       andS (putS (log_skipped_misfire E H t scheduled_for (max 1 (length walk)) now
               ''misfire_coalesce_backlog_past_grace'')) (\<lambda>_.
       andS (advance_past_now E G H (t_id t) now) (\<lambda>_. okS []))
     else
       let fire_at = last in_grace; missed = min u32_max (length walk);
           k = (if 1 < missed \<or> 1 < length in_grace then CoalescedFire missed
                else lateness_kind (now - fire_at)) in
       andS (deliver_one E C F G H t fire_at k) (\<lambda>d.
       andS (advance_past_now E G H (t_id t) now) (\<lambda>_. okS (option_list d))))"

text \<open>
  The catch-up loop, at most 100000 slots: a slot past the grace is dropped from the ledger,
  another is delivered, and the next slot is read from the store.
\<close>

fun catch_up_loop ::
  "env \<Rightarrow> codec \<Rightarrow> faults \<Rightarrow> sched_config \<Rightarrow> host \<Rightarrow> uuid \<Rightarrow> duration \<Rightarrow> nat \<Rightarrow> instant \<Rightarrow> nat \<Rightarrow>
     instant \<Rightarrow> nat \<Rightarrow> delivered_fire list \<Rightarrow> delivered_fire list step" where
  "catch_up_loop E C F G H i grace bound now 0 scheduled index got = okS got"
| "catch_up_loop E C F G H i grace bound now (Suc n) scheduled index got =
     (if now < scheduled \<or> bound \<le> index then okS got
      else if grace < now - scheduled then
        andS (anchor_last_fired E i scheduled) (\<lambda>_ w.
        case Option.bind (get_timer (db w) i) t_next_fire of
          Some nf \<Rightarrow> if scheduled < nf then catch_up_loop E C F G H i grace bound now n nf index got w
            else okS got w
        | None \<Rightarrow> okS got w)
      else (\<lambda>w.
        case get_timer (db w) i of
          None \<Rightarrow> okS got w
        | Some t \<Rightarrow>
            andS (deliver_one E C F G H t scheduled (CatchUpFire index)) (\<lambda>d w.
            let got' = got @ option_list d in
            case get_timer (db w) i of
              None \<Rightarrow> okS got' w
            | Some t2 \<Rightarrow>
                (case t_next_fire t2 of
                   None \<Rightarrow> okS got' w
                 | Some nf \<Rightarrow>
                     if now < nf then andS (push_if_in_horizon E G H nf i) (\<lambda>_. okS got') w
                     else catch_up_loop E C F G H i grace bound now n nf (index + 1) got' w)) w))"

definition due_catch_up ::
  "env \<Rightarrow> codec \<Rightarrow> faults \<Rightarrow> sched_config \<Rightarrow> host \<Rightarrow> timer \<Rightarrow> nat \<Rightarrow> nat \<Rightarrow> instant \<Rightarrow> instant \<Rightarrow>
     delivered_fire list step" where
  "due_catch_up E C F G H t grace bound scheduled_for now =
     andS (catch_up_loop E C F G H (t_id t) (saturating_secs (env_lib E) grace) bound now 100000 scheduled_for 0 [])
       (\<lambda>got. andS (settle_timer E G H (t_id t) now) (\<lambda>_. okS got))"

definition handle_due_timer ::
  "env \<Rightarrow> codec \<Rightarrow> faults \<Rightarrow> sched_config \<Rightarrow> host \<Rightarrow> uuid \<Rightarrow> instant \<Rightarrow> delivered_fire list step" where
  "handle_due_timer E C F G H timer_id now w =
     (case get_timer (db w) timer_id of
        None \<Rightarrow> okS [] w
      | Some t \<Rightarrow>
          (case (t_enabled t, t_next_fire t) of
             (True, Some scheduled_for) \<Rightarrow>
               if now < scheduled_for
               then andS (push_if_in_horizon E G H scheduled_for timer_id) (\<lambda>_. okS []) w
               else
                 (case t_misfire t of
                    MisfireSkip \<Rightarrow> due_skip E C F G H t scheduled_for now w
                  | Coalesce _ \<Rightarrow> due_coalesce E C F G H t scheduled_for now w
                  | CatchUp grace bound \<Rightarrow> due_catch_up E C F G H t grace bound scheduled_for now w)
           | _ \<Rightarrow> okS [] w))"

end
