(* ===== verification/Scheduler_Loop.thy ===== *)
theory Scheduler_Loop
  imports Scheduler_Delivery
begin

text \<open>
  When work happens: the overdue pass and the drain of the heap (\<open>scheduler/engine/misfire.rs\<close>),
  the recovery of claims (\<open>delivery.rs\<close>), boot, tick, the sleep and the control messages
  (\<open>drive.rs\<close>). The two run helpers repeat \<open>tick\<close> with a real or simulated sleep in between and
  are not modelled.
\<close>

section \<open>Overdue work\<close>

fun misfire_each ::
  "env \<Rightarrow> codec \<Rightarrow> faults \<Rightarrow> sched_config \<Rightarrow> host \<Rightarrow> instant \<Rightarrow> timer list \<Rightarrow> delivered_fire list \<Rightarrow>
     delivered_fire list step" where
  "misfire_each E C F G H now [] got = okS got"
| "misfire_each E C F G H now (t # ts) got =
     (case (t_enabled t, t_next_fire t) of
        (True, Some nf) \<Rightarrow>
          if nf \<le> now
          then andS (handle_due_timer E C F G H (t_id t) now) (\<lambda>d. misfire_each E C F G H now ts (got @ d))
          else misfire_each E C F G H now ts got
      | _ \<Rightarrow> misfire_each E C F G H now ts got)"

definition misfire_pass :: "env \<Rightarrow> codec \<Rightarrow> faults \<Rightarrow> sched_config \<Rightarrow> host \<Rightarrow> delivered_fire list step" where
  "misfire_pass E C F G H =
     andS (wall_now H) (\<lambda>now w.
     let (ts, s) = list_timers (db w) in misfire_each E C F G H now ts [] (w\<lparr>db := s\<rparr>))"

text \<open>A lifecycle deadline woke: the monotonic book decides.\<close>

definition expire_due_row ::
  "env \<Rightarrow> codec \<Rightarrow> faults \<Rightarrow> engine \<Rightarrow> timer \<Rightarrow> uuid \<Rightarrow> deadline_kind \<Rightarrow> instant \<Rightarrow> watch \<Rightarrow>
     ((scheduler_error + unit) \<times> watch) exec" where
  "expire_due_row E C F eng t run_id k now w =
     (if gate_fails F (t_id t) then ret (Inl (SInternal ''per-timer gate''), w)
      else
        let (moved, w1) = (case k of
              Pickup \<Rightarrow> expire_pickup_one E t run_id now w
            | Watchdog \<Rightarrow> expire_watchdog_one E t run_id now w) in
        if moved then
          case project_status C F (tree_root (data_dir eng)) t run_id w1 of
            (Inl _, w2) \<Rightarrow> ret (Inl (SInternal ''deadline projection''), w2)
          | (Inr _, w2) \<Rightarrow> ret (Inr (), w2)
        else ret (Inr (), w1))"

definition handle_due_deadline ::
  "env \<Rightarrow> codec \<Rightarrow> faults \<Rightarrow> sched_config \<Rightarrow> uuid \<Rightarrow> deadline_kind \<Rightarrow> instant \<Rightarrow> unit step" where
  "handle_due_deadline E C F G run_id k now w =
     (case (reply_engine G, hm_get run_id (book w)) of
        (Some eng, Some entry) \<Rightarrow>
          if instant_now E < dl_at entry
          then andS (execS (instant_add (env_lib E) now
                   (case from_std (env_lib E) (dl_at entry - instant_now E) of None \<Rightarrow> sec_ns | Some r \<Rightarrow> r)))
                 (\<lambda>at. putS (push_deadline run_id k at)) w
          else
            (case Option.bind (get_run_state (db w) run_id) (\<lambda>row. get_timer (db w) (s_timer_id row)) of
               None \<Rightarrow> okS () w
             | Some t \<Rightarrow> on_watch (expire_due_row E C F eng t run_id k now) w)
      | _ \<Rightarrow> okS () w)"

text \<open>One popped fire entry: dropped, put back for its real instant, or handled.\<close>

definition drain_fire ::
  "env \<Rightarrow> codec \<Rightarrow> faults \<Rightarrow> sched_config \<Rightarrow> host \<Rightarrow> instant \<Rightarrow> uuid \<Rightarrow> delivered_fire list step" where
  "drain_fire E C F G H now timer_id w =
     (case get_timer (db w) timer_id of
        None \<Rightarrow> okS [] w
      | Some t \<Rightarrow>
          (case (t_enabled t, t_next_fire t) of
             (True, Some nf) \<Rightarrow>
               andS (execS (exec_instant E H (t_id t) nf (t_jitter_secs t))) (\<lambda>at w.
               if now < at then okS [] (push_heap (heap_fire at (t_id t)) w)
               else if now < nf then okS [] (push_heap (heap_fire nf (t_id t)) w)
               else handle_due_timer E C F G H (t_id t) now w) w
           | _ \<Rightarrow> okS [] w))"

text \<open>The drain, at most a thousand entries; \<open>resolved\<close> are the timers settled in it.\<close>

fun drain_loop ::
  "env \<Rightarrow> codec \<Rightarrow> faults \<Rightarrow> sched_config \<Rightarrow> host \<Rightarrow> instant \<Rightarrow> nat \<Rightarrow> uuid list \<Rightarrow> delivered_fire list \<Rightarrow>
     delivered_fire list step" where
  "drain_loop E C F G H now 0 resolved got w = okS got w"
| "drain_loop E C F G H now (Suc n) resolved got w =
     (case heap_pop (heap w) of
        None \<Rightarrow> okS got w
      | Some (e, rest) \<Rightarrow>
          let w1 = w\<lparr>heap := rest\<rparr> in
          if now < he_fire_at e then okS got (push_heap e w1)
          else
            (case he_kind e of
               DeadlineOf run_id k \<Rightarrow>
                 andS (handle_due_deadline E C F G run_id k now)
                   (\<lambda>_. drain_loop E C F G H now n resolved got) w1
             | FireOf timer_id \<Rightarrow>
                 if timer_id \<in> set resolved then drain_loop E C F G H now n resolved got w1
                 else andS (drain_fire E C F G H now timer_id)
                        (\<lambda>d. drain_loop E C F G H now n (timer_id # resolved) (got @ d)) w1))"

definition drain_due ::
  "env \<Rightarrow> codec \<Rightarrow> faults \<Rightarrow> sched_config \<Rightarrow> host \<Rightarrow> instant \<Rightarrow> delivered_fire list step" where
  "drain_due E C F G H now = drain_loop E C F G H now 1000 [] []"

section \<open>Recovery\<close>

text \<open>The claim of a timer that is gone is closed as failed, the failure of that ignored.\<close>

definition close_orphan :: "env \<Rightarrow> run_claim \<Rightarrow> scheduler \<Rightarrow> scheduler" where
  "close_orphan E claim w =
     (case fail_run (utc_now E (draws w)) (r_id claim) (db w) of
        Inl _ \<Rightarrow> w\<lparr>draws := draws w + 1\<rparr>
      | Inr (_, s) \<Rightarrow> w\<lparr>db := s, draws := draws w + 1\<rparr>)"

fun recover_each ::
  "env \<Rightarrow> codec \<Rightarrow> faults \<Rightarrow> sched_config \<Rightarrow> host \<Rightarrow> run_claim list \<Rightarrow> delivered_fire list \<Rightarrow>
     delivered_fire list step" where
  "recover_each E C F G H [] got = okS got"
| "recover_each E C F G H (claim # claims) got =
     (\<lambda>w. case get_timer (db w) (r_timer claim) of
        None \<Rightarrow> recover_each E C F G H claims got (close_orphan E claim w)
      | Some t \<Rightarrow>
          andS (wall_now H) (\<lambda>now.
          andS (act_and_close E C F G H t claim (Late (now - r_scheduled_for claim))) (\<lambda>d.
          recover_each E C F G H claims (got @ option_list d))) w)"

definition recover_pending_claims ::
  "env \<Rightarrow> codec \<Rightarrow> faults \<Rightarrow> sched_config \<Rightarrow> host \<Rightarrow> delivered_fire list step" where
  "recover_pending_claims E C F G H w =
     (if executes_inline H then recover_each E C F G H (pending_claims (db w)) [] w else okS [] w)"

section \<open>Boot and tick\<close>

definition reply_startup_scan :: "env \<Rightarrow> codec \<Rightarrow> faults \<Rightarrow> sched_config \<Rightarrow> host \<Rightarrow> unit step" where
  "reply_startup_scan E C F G H =
     (case reply_engine G of
        None \<Rightarrow> okS ()
      | Some eng \<Rightarrow>
          andS (wall_now H) (\<lambda>now. on_watch (\<lambda>v. do { v1 \<leftarrow> startup_scan E C F eng now (instant_now E) v; ret (Inr (), v1) })))"

text \<open>Maintenance never fails the boot: its error is printed.\<close>

definition run_startup_maintenance :: "sched_config \<Rightarrow> host \<Rightarrow> unit step" where
  "run_startup_maintenance G H =
     (if c_data_dir G = None then okS ()
      else andS (wall_now H) (\<lambda>now. watchS (startup_maintenance H now)))"

definition boot :: "env \<Rightarrow> codec \<Rightarrow> faults \<Rightarrow> sched_config \<Rightarrow> host \<Rightarrow> delivered_fire list step" where
  "boot E C F G H =
     andS (wall_now H) (\<lambda>wall.
     andS (mono_clock H) (\<lambda>m.
     andS (putS (\<lambda>w. w\<lparr>last_wall := wall, last_mono := m\<rparr>)) (\<lambda>_.
     andS (run_startup_maintenance G H) (\<lambda>_.
     andS (reply_startup_scan E C F G H) (\<lambda>_.
     andS (putS (\<lambda>w. w\<lparr>db := boot_complete H (db w)\<rparr>)) (\<lambda>_.
     andS (recover_pending_claims E C F G H) (\<lambda>recovered.
     andS (misfire_pass E C F G H) (\<lambda>overdue.
     andS (rebuild_horizon E G H) (\<lambda>_.
     andS (putS (\<lambda>w. w\<lparr>booted := True\<rparr>)) (\<lambda>_. okS (recovered @ overdue)))))))))))"

text \<open>The queued control messages, in order; whether a shutdown ended them, and a rebuild happened.\<close>

fun drain_control ::
  "env \<Rightarrow> sched_config \<Rightarrow> host \<Rightarrow> control_msg list \<Rightarrow> bool \<Rightarrow> (bool \<times> bool) step" where
  "drain_control E G H [] refilled w = okS (False, refilled) (w\<lparr>control := []\<rparr>)"
| "drain_control E G H (Refill # ms) refilled w =
     andS (rebuild_horizon E G H) (\<lambda>_. drain_control E G H ms True) (w\<lparr>control := ms\<rparr>)"
| "drain_control E G H (Shutdown # ms) refilled w = okS (True, refilled) (w\<lparr>control := ms\<rparr>)"
| "drain_control E G H (SetPauseAll b # ms) refilled w =
     drain_control E G H ms refilled (w\<lparr>control := ms, pause_all := b\<rparr>)"
| "drain_control E G H (ArmDeadline run_id k wall_at # ms) refilled w =
     drain_control E G H ms refilled (push_deadline run_id k wall_at (w\<lparr>control := ms\<rparr>))"

definition external_store_changed :: "sched_config \<Rightarrow> host \<Rightarrow> bool step" where
  "external_store_changed G H =
     andS (mono_clock H) (\<lambda>m w.
       okS (c_external_rebuild_interval G \<le> mono_sub m (last_rebuild_mono w) \<or>
            (case data_version H (readings w) of None \<Rightarrow> False | Some v \<Rightarrow> v \<noteq> last_data_version w)) w)"

definition is_clock_jump :: "sched_config \<Rightarrow> scheduler \<Rightarrow> instant \<Rightarrow> span \<Rightarrow> bool" where
  "is_clock_jump G w wall m = clocks_diverge wall (last_wall w) m (last_mono w) (c_jump_threshold G)"

text \<open>The work of a tick that is neither shut down nor paused.\<close>

definition tick_fires ::
  "env \<Rightarrow> codec \<Rightarrow> faults \<Rightarrow> sched_config \<Rightarrow> host \<Rightarrow> bool \<Rightarrow> tick_result step" where
  "tick_fires E C F G H refilled =
     andS (wall_now H) (\<lambda>wall.
     andS (mono_clock H) (\<lambda>m.
     andS (getS (\<lambda>w. is_clock_jump G w wall m)) (\<lambda>jump.
     andS (if jump then andS (misfire_pass E C F G H) (\<lambda>d. andS (rebuild_horizon E G H) (\<lambda>_. okS d)) else okS []) (\<lambda>jumped.
     andS (putS (\<lambda>w. w\<lparr>last_wall := wall, last_mono := m\<rparr>)) (\<lambda>_.
     andS (wall_now H) (\<lambda>now.
     andS (drain_due E C F G H now) (\<lambda>d.
     okS \<lparr>tr_fires = jumped @ d, tr_clock_jump = jump, tr_refilled = refilled \<or> jump, tr_shutdown = False\<rparr>)))))))"

definition tick :: "env \<Rightarrow> codec \<Rightarrow> faults \<Rightarrow> sched_config \<Rightarrow> host \<Rightarrow> tick_result step" where
  "tick E C F G H w =
     andS (if booted w then okS [] else boot E C F G H) (\<lambda>_ w.
     andS (drain_control E G H (control w) False) (\<lambda>(shut, refilled).
     if shut then okS \<lparr>tr_fires = [], tr_clock_jump = False, tr_refilled = refilled, tr_shutdown = True\<rparr>
     else
       andS (external_store_changed G H) (\<lambda>changed.
       andS (if changed then rebuild_horizon E G H else okS ()) (\<lambda>_ w.
       if pause_all w
       then okS \<lparr>tr_fires = [], tr_clock_jump = False, tr_refilled = refilled \<or> changed, tr_shutdown = False\<rparr> w
       else tick_fires E C F G H (refilled \<or> changed) w))) w) w"

definition next_sleep :: "sched_config \<Rightarrow> host \<Rightarrow> span step" where
  "next_sleep G H =
     andS (wall_now H) (\<lambda>now w.
       okS (case peek_next w of
         None \<Rightarrow> c_max_sleep G
       | Some (fire_at, _) \<Rightarrow>
           if fire_at \<le> now then 0 else min (nat (fire_at - now)) (c_max_sleep G)) w)"

text \<open>A message that woke the sleep, then those queued behind it; a shutdown no longer stops them.\<close>

fun drain_queued :: "env \<Rightarrow> sched_config \<Rightarrow> host \<Rightarrow> control_msg list \<Rightarrow> tick_result \<Rightarrow> tick_result step" where
  "drain_queued E G H [] acc w = okS acc (w\<lparr>control := []\<rparr>)"
| "drain_queued E G H (Refill # ms) acc w =
     andS (rebuild_horizon E G H) (\<lambda>_. drain_queued E G H ms (acc\<lparr>tr_refilled := True\<rparr>)) (w\<lparr>control := ms\<rparr>)"
| "drain_queued E G H (Shutdown # ms) acc w =
     drain_queued E G H ms (acc\<lparr>tr_shutdown := True\<rparr>) (w\<lparr>control := ms\<rparr>)"
| "drain_queued E G H (SetPauseAll b # ms) acc w =
     drain_queued E G H ms acc (w\<lparr>control := ms, pause_all := b\<rparr>)"
| "drain_queued E G H (ArmDeadline run_id k wall_at # ms) acc w =
     drain_queued E G H ms acc (push_deadline run_id k wall_at (w\<lparr>control := ms\<rparr>))"

definition apply_control_msg ::
  "env \<Rightarrow> sched_config \<Rightarrow> host \<Rightarrow> control_msg \<Rightarrow> tick_result \<Rightarrow> tick_result step" where
  "apply_control_msg E G H msg acc w = drain_queued E G H (msg # control w) acc w"

end
