(* ===== verification/Scheduler_Laws.thy ===== *)
theory Scheduler_Laws
  imports Scheduler_Loop Fire_Properties
begin

text \<open>
  What a step of the scheduler may do to the scheduler's own state: how often and with which
  contexts it calls the action, and that it keeps the pause flag and the heap's order. The
  bounds compose along \<open>andS\<close>, so each operation's bound follows from those of its parts.
\<close>

section \<open>Bounds on the action's calls\<close>

definition acts_within :: "(fire_context \<Rightarrow> bool) \<Rightarrow> nat \<Rightarrow> scheduler \<Rightarrow> scheduler \<Rightarrow> bool" where
  "acts_within P n w w' \<longleftrightarrow>
     (\<exists>cs. acted w' = acted w @ cs \<and> length cs \<le> n \<and> (\<forall>c\<in>set cs. P c)) \<and>
     pause_all w' = pause_all w \<and> booted w' = booted w \<and> (heap_ok (heap w) \<longrightarrow> heap_ok (heap w'))"

definition res_ok :: "(fire_context \<Rightarrow> bool) \<Rightarrow> nat \<Rightarrow> scheduler \<Rightarrow> ('r \<times> scheduler) exec \<Rightarrow> bool" where
  "res_ok P n w x \<longleftrightarrow> (\<forall>r w'. x = Some (r, w') \<longrightarrow> acts_within P n w w')"

named_theorems acts_intro "rules for res_ok goals"

lemma acts_within_same:
  "acted w' = acted w \<Longrightarrow> pause_all w' = pause_all w \<Longrightarrow> booted w' = booted w \<Longrightarrow>
     (heap_ok (heap w) \<Longrightarrow> heap_ok (heap w')) \<Longrightarrow> acts_within P n w w'"
  by (simp add: acts_within_def)

lemma acts_within_refl [simp]: "acts_within P n w w"
  by (rule acts_within_same) simp_all

lemma acts_within_trans:
  assumes "acts_within P n u v" "acts_within P k v w" "n + k \<le> l"
  shows "acts_within P l u w"
proof -
  obtain cs ds where "acted v = acted u @ cs" "length cs \<le> n" "\<forall>c\<in>set cs. P c"
      "acted w = acted v @ ds" "length ds \<le> k" "\<forall>c\<in>set ds. P c"
    using assms(1,2) unfolding acts_within_def by blast
  then have "acted w = acted u @ (cs @ ds) \<and> length (cs @ ds) \<le> l \<and> (\<forall>c\<in>set (cs @ ds). P c)"
    using assms(3) by auto
  then show ?thesis using assms(1,2) unfolding acts_within_def by blast
qed

lemma acts_within_mono:
  "acts_within P n w w' \<Longrightarrow> n \<le> k \<Longrightarrow> (\<And>c. P c \<Longrightarrow> Q c) \<Longrightarrow> acts_within Q k w w'"
  unfolding acts_within_def by (meson le_trans)

lemma res_ok_mono:
  "res_ok P n w x \<Longrightarrow> n \<le> k \<Longrightarrow> (\<And>c. P c \<Longrightarrow> Q c) \<Longrightarrow> res_ok Q k w x"
  unfolding res_ok_def using acts_within_mono by metis

lemma res_ok_after: "acts_within P n w w1 \<Longrightarrow> res_ok P k w1 x \<Longrightarrow> n + k \<le> l \<Longrightarrow> res_ok P l w x"
  unfolding res_ok_def using acts_within_trans by metis

lemma res_ok_None [simp]: "res_ok P n w None"
  by (simp add: res_ok_def)

lemma res_ok_Some [simp]: "res_ok P n w (Some (r, w')) \<longleftrightarrow> acts_within P n w w'"
  by (simp add: res_ok_def)

lemma res_ok_andS:
  assumes "res_ok P n w (m w)" "\<And>a w1. m w = Some (Inr a, w1) \<Longrightarrow> res_ok P k w1 (f a w1)" "n + k \<le> l"
  shows "res_ok P l w (andS m f w)"
proof (cases "m w")
  case (Some p)
  obtain r w1 where p: "m w = Some (r, w1)" using Some by (cases p) simp
  with assms(1) have a: "acts_within P n w w1" by simp
  show ?thesis
  proof (cases r)
    case (Inl e)
    then show ?thesis using p acts_within_mono [OF a] assms(3) by (simp add: andS_def)
  next
    case (Inr x)
    with res_ok_after [OF a assms(2) assms(3)] p show ?thesis by (simp add: andS_def)
  qed
qed (simp add: andS_def)

text \<open>The usual case: the first part makes no call.\<close>

lemma res_ok_then [acts_intro]:
  "res_ok P 0 w (m w) \<Longrightarrow> (\<And>a w1. res_ok P n w1 (f a w1)) \<Longrightarrow> res_ok P n w (andS m f w)"
  by (rule res_ok_andS) auto

lemma res_ok_first:
  "res_ok P n w (m w) \<Longrightarrow> (\<And>a w1. res_ok P 0 w1 (f a w1)) \<Longrightarrow> res_ok P n w (andS m f w)"
  by (rule res_ok_andS) auto

lemma heap_ok_push [simp]: "heap_ok h \<Longrightarrow> heap_ok (heap_push e h)"
  by (rule hq.push_invar)

lemma acts_within_push [simp]: "acts_within P n w (push_heap e w)"
  by (rule acts_within_same) (simp_all add: push_heap_def)

lemma acts_within_updates [simp]:
  "acts_within P n w (w\<lparr>db := s\<rparr>)" "acts_within P n w (w\<lparr>draws := d\<rparr>)" "acts_within P n w (w\<lparr>readings := d\<rparr>)"
  "acts_within P n w (w\<lparr>db := s, draws := d\<rparr>)" "acts_within P n w (w\<lparr>last_wall := a, last_mono := b\<rparr>)"
  "acts_within P n w (w\<lparr>last_data_version := v\<rparr>)" "acts_within P n w (w\<lparr>last_rebuild_mono := b, heap := []\<rparr>)"
  "acts_within P n w (w\<lparr>control := ms\<rparr>)"
  "acts_within P n w (w\<lparr>draws := d, db := s\<rparr>)"
  by (rule acts_within_same; simp add: heap_ok_def)+

lemma watch_frame [simp]:
  "acted (watch.extend v (watch.more w)) = acted w" "heap (watch.extend v (watch.more w)) = heap w"
  "pause_all (watch.extend v (watch.more w)) = pause_all w" "booted (watch.extend v (watch.more w)) = booted w"
  "readings (watch.extend v (watch.more w)) = readings w"
  "db (watch.extend v (watch.more w)) = db v" "db (watch.truncate w) = db w"
  for w :: scheduler
  by (cases w; simp add: watch.defs)+

lemma res_ok_basic [simp]:
  "res_ok P n w (okS a w)" "res_ok P n w (failS e w)" "res_ok P n w (execS x w)" "res_ok P n w (getS g w)"
  "res_ok P n w (wall_now H w)" "res_ok P n w (mono_clock H w)"
  by (simp_all add: okS_def failS_def execS_def getS_def wall_now_def mono_clock_def split: option.split)

lemma res_ok_watch [simp]: "res_ok P n w (on_watch f w)" "res_ok P n w (watchS g w)"
  by (auto simp: res_ok_def on_watch_def watchS_def intro!: acts_within_same)

lemma res_ok_put: "acts_within P n w (f w) \<Longrightarrow> res_ok P n w (putS f w)"
  by (simp add: putS_def)

lemma res_ok_update [simp]: "res_ok P n w (updateS E up w)"
  by (cases "update_timer (env_lib E) (utc_now E (draws w)) up (db w)")
    (auto simp: updateS_def split: sum.split)

section \<open>The horizon and the ledger never call the action\<close>

lemma push_timers_quiet: "push_timers E H ts w = Some w' \<Longrightarrow> acts_within P 0 w w'"
proof (induction ts arbitrary: w)
  case (Cons t ts)
  show ?case
  proof (cases "t_next_fire t")
    case None
    with Cons show ?thesis by simp
  next
    case (Some nf)
    with Cons.prems obtain at where
      "push_timers E H ts (push_heap (heap_fire at (t_id t)) w) = Some w'" by (auto simp: bind_Some)
    from acts_within_trans [OF acts_within_push Cons.IH [OF this], of 0] show ?thesis by simp
  qed
qed simp

lemma push_book_quiet: "push_book E now ds w = Some w' \<Longrightarrow> acts_within P 0 w w'"
proof (induction E now ds w rule: push_book.induct)
  case (2 E now run_id d ds w)
  then obtain at where at: "instant_add (env_lib E) now
        (case from_std (env_lib E) (dl_at d - instant_now E) of None \<Rightarrow> 0 | Some r \<Rightarrow> r) = Some at"
      "push_book E now ds (push_heap (heap_deadline at run_id (dl_kind d)) w) = Some w'"
    by (auto simp: Option.bind_eq_Some_conv)
  from acts_within_trans [OF acts_within_push "2.IH" [OF at], of 0] show ?case by simp
qed simp

lemma rebuild_quiet [simp]: "res_ok P n w (rebuild_horizon E G H w)"
proof -
  have tail: "res_ok P n w
      (let (due, s1) = timers_due_by (db w) limit; (all, s2) = list_timers s1;
             extra = filter (\<lambda>t. t_enabled t \<and> t_id t \<notin> t_id ` set due \<and> is_high_frequency t) all in
         do { w1 \<leftarrow> push_timers E H due (w\<lparr>db := s1\<rparr>);
              w2 \<leftarrow> push_timers E H extra (w1\<lparr>db := s2\<rparr>);
              w3 \<leftarrow> (case reply_engine G of None \<Rightarrow> ret w2 | Some _ \<Rightarrow> push_book E now (book w2) w2);
              ret (Inr (), w3) })" for w limit now
  proof -
    obtain due s1 where 1: "timers_due_by (db w) limit = (due, s1)" by fastforce
    obtain every s2 where 2: "list_timers s1 = (every, s2)" by fastforce
    define extra where "extra = filter (\<lambda>t. t_enabled t \<and> t_id t \<notin> t_id ` set due \<and> is_high_frequency t) every"
    have "acts_within P n w w3"
      if "push_timers E H due (w\<lparr>db := s1\<rparr>) = Some w1" "push_timers E H extra (w1\<lparr>db := s2\<rparr>) = Some w2"
        "(case reply_engine G of None \<Rightarrow> ret w2 | Some _ \<Rightarrow> push_book E now (book w2) w2) = Some w3" for w1 w2 w3
    proof -
      have a: "acts_within P 0 w w1"
        using acts_within_trans [OF acts_within_updates(1) push_timers_quiet [OF that(1)], of 0] by simp
      have b: "acts_within P 0 w1 w2"
        using acts_within_trans [OF acts_within_updates(1) push_timers_quiet [OF that(2)], of 0] by simp
      have c: "acts_within P 0 w2 w3"
        using that(3) push_book_quiet by (auto split: option.splits)
      have "acts_within P 0 w w2" by (rule acts_within_trans [OF a b]) simp
      then show ?thesis by (rule acts_within_trans [OF _ c]) simp
    qed
    then show ?thesis
      unfolding 1 2 Let_def prod.case extra_def [symmetric] res_ok_def by (auto simp: bind_Some)
  qed
  show ?thesis unfolding rebuild_horizon_def
    by (intro acts_intro res_ok_put res_ok_basic acts_within_updates)
      (auto split: option.split intro!: acts_intro tail [unfolded Let_def])
qed

lemma push_if_quiet [simp]: "res_ok P n w (push_if_in_horizon E G H at i w)"
  unfolding push_if_in_horizon_def
  by (intro acts_intro res_ok_basic) (auto simp: res_ok_def Let_def bind_Some)

lemma requeue_quiet [simp]: "res_ok P n w (requeue_timer E G H i w)"
  by (simp add: requeue_timer_def split: option.split)

lemma existing_quiet [simp]: "res_ok P n w (existing_timer i w)"
  by (simp add: existing_timer_def split: option.split)

lemma advance_quiet [simp]: "res_ok P n w (advance_past_now E G H i now w)"
  unfolding advance_past_now_def by (intro acts_intro) (auto split: prod.split intro!: acts_intro)

lemma settle_quiet [simp]: "res_ok P n w (settle_timer E G H i now w)"
  by (simp add: settle_timer_def split: option.split)

lemma bump_quiet [simp]: "res_ok P n w (bump_ledger E G H t slot w)"
  unfolding bump_ledger_def by (intro acts_intro) simp_all

lemma ensure_quiet [simp]: "res_ok P n w (ensure_advanced_past E G H i slot w)"
  by (simp add: ensure_advanced_past_def split: option.split)

lemma marks_quiet [simp]: "res_ok P n w (anchor_last_fired E i a w)" "res_ok P n w (mark_fired E i a w)"
  unfolding anchor_last_fired_def mark_fired_def by (intro acts_intro; simp)+

lemma record_quiet [simp]: "res_ok P n w (record_fire E G H i slot w)"
  by (simp add: record_fire_def split: option.split)

lemma prune_quiet [simp]: "res_ok P n w (prune_if_system G H t w)"
  by (auto simp: prune_if_system_def intro!: acts_intro)

section \<open>One slot\<close>

lemma close_inline_quiet [simp]: "res_ok P n w (close_inline E claim err w)"
  by (auto simp: close_inline_def storeS_def split: option.split sum.split)

lemma run_action_once:
  assumes "P (from_claim t claim k)"
  shows "res_ok P 1 w (run_action E H t claim k w)"
proof -
  have a: "acts_within P 1 w (w\<lparr>acted := acted w @ [from_claim t claim k]\<rparr>)"
    using assms by (simp add: acts_within_def)
  show ?thesis
    by (auto simp: run_action_def Let_def a intro!: res_ok_after [OF a, of 0] acts_intro)
qed

lemma act_once:
  assumes "P (from_claim t claim k)"
  shows "res_ok P 1 w (act_and_close E C F G H t claim k w)"
proof -
  have tail: "res_ok P 0 w (andS (prune_if_system G H t) (\<lambda>_.
        andS (record_fire E G H (t_id t) (r_scheduled_for claim)) (\<lambda>_.
        andS (watchS (refresh_timer_json C F G H (t_id t))) (\<lambda>_.
        case err of
          Some e \<Rightarrow> failS (SAction e)
        | None \<Rightarrow> okS (Some \<lparr>df_timer_id = t_id t, df_scheduled_for = r_scheduled_for claim,
                           df_run_id = r_id claim, df_kind = k\<rparr>)))) w)" for err w
    by (intro acts_intro) (auto split: option.split)
  show ?thesis
  proof (cases "r_status claim = Finished")
    case True
    then show ?thesis
      by (auto simp: act_and_close_def intro!: acts_intro res_ok_mono [OF tail])
  next
    case False
    then show ?thesis unfolding act_and_close_def
      by (auto intro!: res_ok_andS [OF run_action_once [where P = P, OF assms] tail])
  qed
qed

lemma on_watch_Some:
  assumes "on_watch f w = Some (a, w')"
  obtains v where "f (watch.truncate w) = Some (a, v)" "w' = watch.extend v (watch.more w)" "acts_within P n w w'"
proof -
  from assms obtain v where v: "f (watch.truncate w) = Some (a, v)" "w' = watch.extend v (watch.more w)"
    by (auto simp: on_watch_def)
  have "acts_within P n w w'" using res_ok_watch(1) [of P n w f] by (simp add: assms)
  with v that show thesis by blast
qed

lemma claim_of_slot:
  "get_claim_for s i slot = Some c \<Longrightarrow> r_timer c = i \<and> r_scheduled_for c = slot"
  by (auto simp: get_claim_for_def dest: row_get_Some)

lemma already_once:
  assumes "\<And>c. fc_timer c = t \<Longrightarrow> fc_scheduled_for c = slot \<Longrightarrow> P c"
  shows "res_ok P 1 w (already_claimed E C F G H t i slot k w)"
proof (cases "get_claim_for (db w) i slot")
  case (Some c)
  have "P (from_claim t c k)" using assms claim_of_slot [OF Some] by (simp add: from_claim_def)
  from act_once [of P, OF this] Some show ?thesis by (auto simp: already_claimed_def intro!: acts_intro)
qed (simp add: already_claimed_def)

lemma fire_with_engine_once:
  assumes "\<And>c. fc_timer c = t \<Longrightarrow> fc_scheduled_for c = slot \<Longrightarrow> P c"
  shows "res_ok P 1 w (fire_with_engine E C F G H eng t slot k now w)"
proof (cases "on_watch (project_fire E C F eng (tree_socket H) t slot k now (second_read H (readings w))) w")
  case (Some p)
  obtain r w1 where p: "on_watch (project_fire E C F eng (tree_socket H) t slot k now (second_read H (readings w))) w = Some (r, w1)"
    using Some by (cases p) simp
  from p obtain v where v: "project_fire E C F eng (tree_socket H) t slot k now (second_read H (readings w)) (watch.truncate w) = Some (r, v)"
    by (rule on_watch_Some)
  from p have a: "acts_within P 0 w w1" by (rule on_watch_Some)
  note pf = project_fire_cases [OF v]
  show ?thesis
  proof (cases r)
    case (Inr c)
    with pf assms have "P (from_claim t c k)" by (simp add: from_claim_def)
    then have "res_ok P 1 w1 (andS (arm_pickup E G c) (\<lambda>_. act_and_close E C F G H t c k) w1)"
      by (intro acts_intro act_once) (auto simp: arm_pickup_def push_deadline_def intro!: acts_intro res_ok_put)
    from res_ok_after [OF a this] p Inr show ?thesis by (simp add: fire_with_engine_def)
  next
    case (Inl e)
    show ?thesis
    proof (cases "\<exists>i s. e = TreeStore (AlreadyClaimed i s)")
      case True
      then obtain i s where e: "e = TreeStore (AlreadyClaimed i s)" by blast
      with pf Inl have "s = slot" by simp
      have "res_ok P 1 w1 (already_claimed E C F G H t i s k w1)"
        by (rule already_once) (simp add: assms \<open>s = slot\<close>)
      from res_ok_after [OF a this, of 1] show ?thesis
        unfolding fire_with_engine_def p Inl e option.case prod.case sum.case tree_error.case store_error.case by simp
    next
      case False
      then have "fire_with_engine E C F G H eng t slot k now w = failS (SInternal ''fire transaction'') w1"
      proof (cases e)
        case (TreeStore se)
        with False p Inl show ?thesis by (cases se) (simp_all add: fire_with_engine_def)
      qed (use p Inl in \<open>simp_all add: fire_with_engine_def\<close>)
      with res_ok_after [OF a, of 0 "failS (SInternal ''fire transaction'') w1"] show ?thesis by simp
    qed
  qed
qed (simp add: fire_with_engine_def)

lemma fire_bare_once:
  assumes "\<And>c. fc_timer c = t \<Longrightarrow> fc_scheduled_for c = slot \<Longrightarrow> P c"
  shows "res_ok P 1 w (fire_bare E C F G H t slot k w)"
proof (cases "claim_run (utc_now E (draws w)) (new_uuid E (draws w)) (t_id t) slot (db w)")
  case (Inl e)
  then have "e = AlreadyClaimed (t_id t) slot"
    by (auto simp: claim_run_def claim_run_conn_def Let_def split: if_splits)
  with Inl res_ok_after [OF acts_within_updates(2) already_once [of t slot P, OF assms], of 0] show ?thesis
    by (simp add: fire_bare_def Let_def)
next
  case (Inr p)
  obtain c s where p: "p = (c, s)" by fastforce
  have "P (from_claim t c k)"
    using assms claimed_facts(4) [of _ _ "t_id t" slot "db w" c s] Inr p by (simp add: from_claim_def claim_run_def)
  from res_ok_after [OF acts_within_updates(9) act_once [of P, OF this], of 0] Inr p show ?thesis
    by (simp add: fire_bare_def Let_def)
qed

lemma deliver_once:
  assumes "\<And>c. fc_timer c = t \<Longrightarrow> fc_scheduled_for c = slot \<Longrightarrow> P c"
  shows "res_ok P 1 w (deliver_one E C F G H t slot k w)"
proof (cases "reply_engine G")
  case None
  with fire_bare_once [of t slot P, OF assms] show ?thesis by (simp add: deliver_one_def)
next
  case (Some eng)
  show ?thesis unfolding deliver_one_def Some option.case
    by (intro acts_intro fire_with_engine_once res_ok_basic assms)
qed

section \<open>One due timer\<close>

lemma missed_from_due: "missed_from L n oc cur now = Some ms \<Longrightarrow> m \<in> set ms \<Longrightarrow> m \<le> now"
proof (induction L n oc cur now arbitrary: ms rule: missed_from.induct)
  case (2 L n oc cur now)
  then obtain oc' r where nf: "next_fire L oc cur = Some (oc', r)" by (auto simp: bind_Some)
  show ?case
  proof (cases r)
    case (Some c)
    show ?thesis
    proof (cases "now < c")
      case False
      with 2(2) nf Some obtain rest where "missed_from L n oc' c now = Some rest" "ms = c # rest"
        by (auto simp: bind_Some)
      with 2(3) "2.IH" [OF nf refl Some False] False show ?thesis by auto
    qed (use 2(2,3) nf Some in simp)
  qed (use 2(2,3) nf in simp)
qed simp

lemma walk_missed_due: "walk_missed L t first_due now = Some ms \<Longrightarrow> m \<in> set ms \<Longrightarrow> m \<le> now"
  using missed_from_due by (auto simp: walk_missed_def bind_Some split: if_splits)

text \<open>A call for the timer's own slot, due and within its grace.\<close>

definition within_grace :: "lib \<Rightarrow> timer \<Rightarrow> instant \<Rightarrow> fire_context \<Rightarrow> bool" where
  "within_grace L t now c \<longleftrightarrow>
     t_id (fc_timer c) = t_id t \<and> fc_scheduled_for c \<le> now \<and> now - fc_scheduled_for c \<le> grace_for L t"

text \<open>The number of calls the policy allows for one handling.\<close>

definition burst :: "lib \<Rightarrow> timer \<Rightarrow> instant \<Rightarrow> instant \<Rightarrow> nat" where
  "burst L t scheduled_for now = (case t_misfire t of
     MisfireSkip \<Rightarrow> if now - scheduled_for \<le> grace_for L t then 1 else 0
   | Coalesce _ \<Rightarrow> 1
   | CatchUp _ bound \<Rightarrow> bound)"

lemma skip_bound:
  assumes "scheduled_for \<le> now" "t_misfire t = MisfireSkip"
  shows "res_ok (within_grace (env_lib E) t now) (burst (env_lib E) t scheduled_for now) w
    (due_skip E C F G H t scheduled_for now w)"
proof (cases "now - scheduled_for \<le> grace_for (env_lib E) t")
  case True
  have "res_ok (within_grace (env_lib E) t now) 1 w
      (deliver_one E C F G H t scheduled_for (lateness_kind (now - scheduled_for)) w)"
    by (rule deliver_once) (use assms True in \<open>simp add: within_grace_def\<close>)
  then have "res_ok (within_grace (env_lib E) t now) 1 w
      (andS (deliver_one E C F G H t scheduled_for (lateness_kind (now - scheduled_for))) (\<lambda>d.
        andS (requeue_timer E G H (t_id t)) (\<lambda>_. okS (option_list d))) w)"
    by (rule res_ok_first) (intro acts_intro; simp)
  then show ?thesis using True assms(2) by (simp only: due_skip_def burst_def Let_def if_True misfire_policy.case)
next
  case False
  then show ?thesis using assms(2)
    by (auto simp: due_skip_def burst_def log_skipped_misfire_def emit_def intro!: acts_intro res_ok_put)
qed

lemma coalesce_bound:
  assumes "t_misfire t = Coalesce g"
  shows "res_ok (within_grace (env_lib E) t now) (burst (env_lib E) t scheduled_for now) w
    (due_coalesce E C F G H t scheduled_for now w)"
  unfolding due_coalesce_def
proof (rule res_ok_andS [where n = 0 and k = 1])
  fix walk w1 assume "execS (walk_missed (env_lib E) t scheduled_for now) w = Some (Inr walk, w1)"
  then have walk: "walk_missed (env_lib E) t scheduled_for now = Some walk" "w1 = w"
    by (auto simp: execS_def split: option.splits)
  define in_grace where "in_grace = filter (\<lambda>m. now - m \<le> grace_for (env_lib E) t) walk"
  show "res_ok (within_grace (env_lib E) t now) 1 w1 ((let in_grace = filter (\<lambda>m. now - m \<le> grace_for (env_lib E) t) walk in
     if in_grace = [] then
       andS (putS (log_skipped_misfire E H t scheduled_for (max 1 (length walk)) now
               ''misfire_coalesce_backlog_past_grace'')) (\<lambda>_.
       andS (advance_past_now E G H (t_id t) now) (\<lambda>_. okS []))
     else
       let fire_at = last in_grace; missed = min u32_max (length walk);
           k = (if 1 < missed \<or> 1 < length in_grace then CoalescedFire missed
                else lateness_kind (now - fire_at)) in
       andS (deliver_one E C F G H t fire_at k) (\<lambda>d.
       andS (advance_past_now E G H (t_id t) now) (\<lambda>_. okS (option_list d)))) w1)"
  proof (cases "in_grace = []")
    case True
    then show ?thesis unfolding Let_def in_grace_def [symmetric]
      by (auto simp: log_skipped_misfire_def emit_def intro!: acts_intro res_ok_put)
  next
    case False
    then have "last in_grace \<in> set in_grace" by simp
    then have "last in_grace \<le> now" "now - last in_grace \<le> grace_for (env_lib E) t"
      using walk_missed_due [OF walk(1)] by (auto simp: in_grace_def)
    then have "res_ok (within_grace (env_lib E) t now) 1 w1 (deliver_one E C F G H t (last in_grace) k w1)" for k
      by (intro deliver_once) (simp add: within_grace_def)
    then show ?thesis unfolding Let_def in_grace_def [symmetric] if_not_P [OF False]
      by (rule res_ok_first) (intro acts_intro; simp)
  qed
qed (simp_all add: burst_def assms)

lemma get_timer_id: "get_timer s i = Some t \<Longrightarrow> t_id t = i"
  by (auto simp: get_timer_def dest: row_get_Some)

lemma catch_up_bound:
  assumes "\<And>c. t_id (fc_timer c) = i \<Longrightarrow> fc_scheduled_for c \<le> now \<Longrightarrow> now - fc_scheduled_for c \<le> grace \<Longrightarrow> P c"
  shows "res_ok P (bound - index) w (catch_up_loop E C F G H i grace bound now n scheduled index got w)"
proof (induction n arbitrary: scheduled index got w)
  case (Suc n)
  show ?case
  proof (cases "now < scheduled \<or> bound \<le> index")
    case False
    show ?thesis
    proof (cases "grace < now - scheduled")
      case True
      with False Suc.IH show ?thesis
        by (auto intro!: acts_intro split: option.split)
    next
      case g: False
      show ?thesis
      proof (cases "get_timer (db w) i")
        case (Some t)
        have "res_ok P 1 w (deliver_one E C F G H t scheduled (CatchUpFire index) w)"
          by (rule deliver_once) (use assms False g get_timer_id [OF Some] in simp)
        then have "res_ok P (bound - index) w (andS (deliver_one E C F G H t scheduled (CatchUpFire index)) (\<lambda>d w.
            let got' = got @ option_list d in
            case get_timer (db w) i of
              None \<Rightarrow> okS got' w
            | Some t2 \<Rightarrow>
                (case t_next_fire t2 of
                   None \<Rightarrow> okS got' w
                 | Some nf \<Rightarrow>
                     if now < nf then andS (push_if_in_horizon E G H nf i) (\<lambda>_. okS got') w
                     else catch_up_loop E C F G H i grace bound now n nf (index + 1) got' w)) w)"
        proof (rule res_ok_andS)
          show "1 + (bound - (index + 1)) \<le> bound - index" using False by linarith
        next
          fix d w1
          show "res_ok P (bound - (index + 1)) w1 (let got' = got @ option_list d in
            case get_timer (db w1) i of
              None \<Rightarrow> okS got' w1
            | Some t2 \<Rightarrow>
                (case t_next_fire t2 of
                   None \<Rightarrow> okS got' w1
                 | Some nf \<Rightarrow>
                     if now < nf then andS (push_if_in_horizon E G H nf i) (\<lambda>_. okS got') w1
                     else catch_up_loop E C F G H i grace bound now n nf (index + 1) got' w1))"
            using Suc.IH by (auto simp: Let_def intro!: acts_intro split: option.split)
        qed
        with False g Some show ?thesis by simp
      qed (use False g in simp)
    qed
  qed simp
qed simp

lemma due_bound:
  assumes "get_timer (db w) i = Some t" "t_next_fire t = Some slot"
  shows "res_ok (within_grace (env_lib E) t now) (burst (env_lib E) t slot now) w (handle_due_timer E C F G H i now w)"
proof (cases "t_enabled t \<and> slot \<le> now")
  case True
  have i: "t_id t = i" using get_timer_id [OF assms(1)] .
  show ?thesis
  proof (cases "t_misfire t")
    case MisfireSkip
    with True assms skip_bound [of slot now t] show ?thesis by (simp add: handle_due_timer_def)
  next
    case (Coalesce g)
    with True assms coalesce_bound [OF Coalesce] show ?thesis by (simp add: handle_due_timer_def)
  next
    case (CatchUp g bound)
    have "res_ok (within_grace (env_lib E) t now) bound w
        (catch_up_loop E C F G H i (saturating_secs (env_lib E) g) bound now 100000 slot 0 [] w)"
      using catch_up_bound [of i now "saturating_secs (env_lib E) g" "within_grace (env_lib E) t now" bound 0]
      by (simp add: within_grace_def grace_for_def CatchUp i)
    then have "res_ok (within_grace (env_lib E) t now) bound w (due_catch_up E C F G H t g bound slot now w)"
      unfolding due_catch_up_def i by (rule res_ok_first) (intro acts_intro; simp)
    with CatchUp True assms show ?thesis by (simp add: handle_due_timer_def burst_def)
  qed
next
  case False
  then show ?thesis using assms by (auto simp: handle_due_timer_def intro!: acts_intro split: bool.split)
qed

section \<open>Passes, drains and ticks\<close>

text \<open>Any number of calls, each with a context of the given kind.\<close>

definition res_some :: "(fire_context \<Rightarrow> bool) \<Rightarrow> scheduler \<Rightarrow> ('r \<times> scheduler) exec \<Rightarrow> bool" where
  "res_some P w x \<longleftrightarrow> (\<forall>r w'. x = Some (r, w') \<longrightarrow> (\<exists>n. acts_within P n w w'))"

lemma res_some_ok: "res_ok P n w x \<Longrightarrow> res_some P w x"
  by (auto simp: res_some_def res_ok_def)

lemma res_some_after: "acts_within P n w w1 \<Longrightarrow> res_some P w1 x \<Longrightarrow> res_some P w x"
  unfolding res_some_def using acts_within_trans [OF _ _ order_refl] by metis

lemma res_some_andS:
  assumes "res_some P w (m w)" "\<And>a w1. res_some P w1 (f a w1)"
  shows "res_some P w (andS m f w)"
proof (cases "m w")
  case (Some p)
  obtain r w1 where p: "m w = Some (r, w1)" using Some by (cases p) simp
  with assms(1) obtain n where a: "acts_within P n w w1" by (auto simp: res_some_def)
  show ?thesis
    using p res_some_after [OF a assms(2)] a by (cases r) (auto simp: andS_def res_some_def)
qed (simp add: andS_def res_some_def)

lemma res_some_simps [simp]:
  "res_some P w (okS a w)" "res_some P w (failS e w)" "res_some P w (wall_now H w)" "res_some P w (mono_clock H w)"
  "res_some P w (getS g w)" "res_some P w (on_watch h w)" "res_some P w (watchS u w)" "res_some P w (execS x w)"
  "res_some P w (rebuild_horizon E G H w)"
  by (rule res_some_ok [where n = 0], simp)+

definition due_call :: "instant \<Rightarrow> fire_context \<Rightarrow> bool" where
  "due_call now c \<longleftrightarrow> fc_scheduled_for c \<le> now"

lemma handle_due_some: "res_some (due_call now) w (handle_due_timer E C F G H i now w)"
proof (cases "get_timer (db w) i")
  case (Some t)
  show ?thesis
  proof (cases "t_next_fire t")
    case (Some slot)
    from res_ok_mono [OF due_bound [OF \<open>get_timer (db w) i = Some t\<close> Some, of E now C F G H] order_refl, of "due_call now"]
    show ?thesis by (intro res_some_ok) (simp add: within_grace_def due_call_def)
  qed (use Some in \<open>simp add: handle_due_timer_def split: bool.split\<close>)
qed (simp add: handle_due_timer_def)

lemma misfire_each_some: "res_some (due_call now) w (misfire_each E C F G H now ts got w)"
proof (induction ts arbitrary: got w)
  case (Cons t ts)
  then show ?case
    by (auto simp: handle_due_some intro!: res_some_andS split: bool.split option.split)
qed simp

lemma misfire_pass_quiet:
  "misfire_pass E C F G H w = Some (r, w') \<Longrightarrow> \<exists>n. acts_within (due_call (wall_reading H (readings w))) n w w'"
proof -
  define w1 where "w1 = w\<lparr>readings := readings w + 1\<rparr>"
  define s where "s = snd (list_timers (db w1))"
  have "misfire_pass E C F G H w =
      misfire_each E C F G H (wall_reading H (readings w)) (fst (list_timers (db w1))) [] (w1\<lparr>db := s\<rparr>)"
    by (simp add: misfire_pass_def andS_def wall_now_def w1_def s_def split_beta Let_def)
  moreover have "acts_within P 0 w (w1\<lparr>db := s\<rparr>)" for P
    unfolding w1_def by (rule acts_within_same) simp_all
  ultimately show "misfire_pass E C F G H w = Some (r, w') \<Longrightarrow> ?thesis"
    using res_some_after misfire_each_some unfolding res_some_def by metis
qed

lemma drain_fire_some: "res_some (due_call now) w (drain_fire E C F G H now i w)"
proof (cases "get_timer (db w) i")
  case (Some t)
  have push: "res_some P w (okS a (push_heap e w))" for P w and a :: "delivered_fire list" and e
    using acts_within_push by (auto simp: res_some_def okS_def)
  from Some show ?thesis
    by (auto simp: drain_fire_def handle_due_some push intro!: res_some_andS split: option.split bool.split)
qed (simp add: drain_fire_def)

lemma deadline_some: "res_some P w (handle_due_deadline E C F G run_id k now w)"
  by (auto simp: handle_due_deadline_def push_deadline_def intro!: res_some_andS res_some_ok [OF res_ok_put, of _ 0]
      split: option.split)

lemma drain_loop_some: "res_some (due_call now) w (drain_loop E C F G H now n resolved got w)"
proof (induction n arbitrary: resolved got w)
  case (Suc n)
  show ?case
  proof (cases "heap w")
    case (Cons e rest)
    have rest: "acts_within (due_call now) 0 w (w\<lparr>heap := rest\<rparr>)"
      by (rule acts_within_same) (auto simp: Cons heap_ok_def)
    have put_back: "acts_within (due_call now) 0 w (push_heap e (w\<lparr>heap := rest\<rparr>))"
      using acts_within_trans [OF rest acts_within_push, of 0] by simp
    have step: "res_some (due_call now) (w\<lparr>heap := rest\<rparr>)
        (case he_kind e of
           DeadlineOf run_id k \<Rightarrow>
             andS (handle_due_deadline E C F G run_id k now) (\<lambda>_. drain_loop E C F G H now n resolved got) (w\<lparr>heap := rest\<rparr>)
         | FireOf i \<Rightarrow>
             if i \<in> set resolved then drain_loop E C F G H now n resolved got (w\<lparr>heap := rest\<rparr>)
             else andS (drain_fire E C F G H now i)
                    (\<lambda>d. drain_loop E C F G H now n (i # resolved) (got @ d)) (w\<lparr>heap := rest\<rparr>))"
      using Suc.IH by (auto intro!: res_some_andS simp: deadline_some drain_fire_some split: heap_kind.split)
    show ?thesis
    proof (cases "now < he_fire_at e")
      case True
      with Cons put_back show ?thesis by (auto simp: res_some_def okS_def)
    next
      case False
      with Cons res_some_after [OF rest step] show ?thesis by (simp add: Let_def)
    qed
  qed simp
qed simp

lemma drain_control_calm:
  "drain_control E G H ms refilled w = Some (r, w') \<Longrightarrow> acted w' = acted w \<and> booted w' = booted w"
proof (induction ms arbitrary: refilled w)
  case Nil
  then show ?case by (auto simp: okS_def)
next
  case (Cons m ms)
  show ?case
  proof (cases m)
    case Refill
    from Cons.prems Refill obtain x w1 where rb: "rebuild_horizon E G H (w\<lparr>control := ms\<rparr>) = Some (x, w1)"
      by (auto simp: andS_def split: option.splits)
    from rebuild_quiet [of "\<lambda>_. True" 0 "w\<lparr>control := ms\<rparr>" E G H] rb
    have "acted w1 = acted w" "booted w1 = booted w" by (auto simp: acts_within_def)
    with Cons Refill rb show ?thesis by (cases x) (auto simp: andS_def)
  next
    case Shutdown
    with Cons.prems show ?thesis by (auto simp: okS_def)
  next
    case (SetPauseAll b)
    from Cons.IH [of refilled "w\<lparr>control := ms, pause_all := b\<rparr>"] Cons.prems SetPauseAll show ?thesis by simp
  next
    case (ArmDeadline i k wall_at)
    from Cons.IH [of refilled "push_deadline i k wall_at (w\<lparr>control := ms\<rparr>)"] Cons.prems ArmDeadline
    show ?thesis by (simp add: push_deadline_def push_heap_def)
  qed
qed

text \<open>Whatever a tick does after its control messages, it keeps the pause flag.\<close>

lemma res_some_weaken: "res_some P w x \<Longrightarrow> res_some (\<lambda>_. True) w x"
  unfolding res_some_def using acts_within_mono [OF _ order_refl] by metis

lemma misfire_pass_some: "res_some (\<lambda>_. True) w (misfire_pass E C F G H w)"
  unfolding res_some_def using misfire_pass_quiet acts_within_mono [OF _ order_refl] by metis

lemma drain_due_some: "res_some (\<lambda>_. True) w (drain_due E C F G H now w)"
  unfolding drain_due_def by (rule res_some_weaken) (rule drain_loop_some)

lemma tick_fires_some: "res_some (\<lambda>_. True) w (tick_fires E C F G H refilled w)"
proof -
  have put: "res_some (\<lambda>_. True) w (putS (\<lambda>w. w\<lparr>last_wall := a, last_mono := b\<rparr>) w)" for w a b
    by (rule res_some_ok [where n = 0]) (simp add: res_ok_put)
  have jump: "res_some (\<lambda>_. True) w ((if jump then andS (misfire_pass E C F G H)
      (\<lambda>d. andS (rebuild_horizon E G H) (\<lambda>_. okS d)) else okS []) w)" for w jump
    by (simp add: misfire_pass_some res_some_andS)
  show ?thesis unfolding tick_fires_def
    by (intro res_some_andS res_some_simps put jump drain_due_some)
qed

end
