(* ===== verification/Scheduler_Properties.thy ===== *)
theory Scheduler_Properties
  imports Scheduler_Laws Publication_Properties
begin

text \<open>
  The properties of the scheduler (\<open>scheduler/\<close>): the misfire policies, no early and no double
  call of the action, the pause, the sleep, the clock jump and the skip past a backlog.
\<close>

section \<open>When the action is called\<close>

text \<open>C17: The misfire policies hold whatever the handling of a due timer answers, error or not: the
  action is called only for that timer, only for slots that are due and no older than the grace
  window, at most once under skip (and not at all when the slot is past the grace) and under
  coalesce, and at most the configured maximum of times under catch-up.\<close>

theorem misfire_policy_respected:
  assumes "get_timer (db w) i = Some t" "t_next_fire t = Some slot"
    and "handle_due_timer E C F G H i now w = Some (res, w')"
  shows "\<exists>cs. acted w' = acted w @ cs \<and> length cs \<le> burst (env_lib E) t slot now \<and>
    (\<forall>c\<in>set cs. t_id (fc_timer c) = i \<and> fc_scheduled_for c \<le> now \<and>
       now - fc_scheduled_for c \<le> grace_for (env_lib E) t)"
  using due_bound [OF assms(1,2), of E now C F G H] assms(3) get_timer_id [OF assms(1)]
  unfolding res_ok_def acts_within_def within_grace_def by fastforce

text \<open>C18: A drain of the heap never calls the action before its slot: every call it makes is for a
  slot at or before the wall reading of the drain, whatever jitter, policy or outcome. It leaves
  the heap ordered, so the next wake is still its earliest entry.\<close>

theorem drain_never_early:
  assumes "drain_due E C F G H now w = Some (res, w')"
  shows "(\<exists>cs. acted w' = acted w @ cs \<and> (\<forall>c\<in>set cs. fc_scheduled_for c \<le> now)) \<and>
    (heap_ok (heap w) \<longrightarrow> heap_ok (heap w'))"
  using drain_loop_some [of now w E C F G H 1000 "[]" "[]"] assms
  unfolding drain_due_def res_some_def acts_within_def due_call_def by fastforce

lemma finished_slot_quiet:
  assumes "get_claim_for (db w) (t_id t) slot = Some c" "r_status c = Finished"
  shows "res_ok P n w (already_claimed E C F G H t (t_id t) slot k w)"
  using assms by (auto simp: already_claimed_def is_unfinished_def intro!: acts_intro)

lemma get_claim_for_runs: "runs s = runs s' \<Longrightarrow> get_claim_for s i slot = get_claim_for s' i slot"
  by (simp add: get_claim_for_def)

lemma finished_engine_quiet:
  assumes c: "get_claim_for (db w) (t_id t) slot = Some c" "r_status c = Finished"
  shows "res_ok P n w (fire_with_engine E C F G H eng t slot k now w)"
proof (cases "on_watch (project_fire E C F eng (tree_socket H) t slot k now (second_read H (readings w))) w")
  case (Some p)
  obtain r w1 where p: "on_watch (project_fire E C F eng (tree_socket H) t slot k now (second_read H (readings w))) w = Some (r, w1)"
    using Some by (cases p) simp
  from p obtain v where v: "project_fire E C F eng (tree_socket H) t slot k now (second_read H (readings w)) (watch.truncate w) = Some (r, v)"
      "w1 = watch.extend v (watch.more w)"
    by (rule on_watch_Some)
  from p have a: "acts_within P 0 w w1" by (rule on_watch_Some)
  note pf = project_fire_cases [OF v(1)]
  have row: "c \<in> set (runs (db w))" "r_timer c = t_id t" "r_scheduled_for c = slot"
    using row_get_Some [OF c(1) [unfolded get_claim_for_def]] by auto
  with pf obtain e where e: "r = Inl e" by (cases r) auto
  with pf have same: "runs (db w1) = runs (db w)" using lines_added_runs by (simp add: v(2))
  show ?thesis
  proof (cases "\<exists>i s. e = TreeStore (AlreadyClaimed i s)")
    case True
    then obtain i s where s: "e = TreeStore (AlreadyClaimed i s)" by blast
    with pf e have "i = t_id t" "s = slot" by simp_all
    with finished_slot_quiet [of w1 t slot c] c get_claim_for_runs [OF same]
    have "res_ok P n w1 (already_claimed E C F G H t i s k w1)" by simp
    from res_ok_after [OF a this, of n] show ?thesis
      unfolding fire_with_engine_def p e s option.case prod.case sum.case tree_error.case store_error.case by simp
  next
    case False
    then have "fire_with_engine E C F G H eng t slot k now w = failS (SInternal ''fire transaction'') w1"
    proof (cases e)
      case (TreeStore se)
      with False p e show ?thesis by (cases se) (simp_all add: fire_with_engine_def)
    qed (use p e in \<open>simp_all add: fire_with_engine_def\<close>)
    with res_ok_after [OF a, of n "failS (SInternal ''fire transaction'') w1" n] show ?thesis by simp
  qed
qed (simp add: fire_with_engine_def)

text \<open>C19: A slot whose run has finished never fires again: delivering it anew, with or without a data
  directory, does not call the action, whether or not the delivery succeeds.\<close>

theorem finished_slot_never_refires:
  assumes "get_claim_for (db w) (t_id t) slot = Some c" "r_status c = Finished"
    and "deliver_one E C F G H t slot k w = Some (res, w')"
  shows "acted w' = acted w"
proof -
  have "res_ok (\<lambda>_. False) 0 w (deliver_one E C F G H t slot k w)"
  proof (cases "reply_engine G")
    case None
    have cl: "claim_run (utc_now E (draws w)) (new_uuid E (draws w)) (t_id t) slot (db w) = Inl (AlreadyClaimed (t_id t) slot)"
      using row_get_Some [OF assms(1) [unfolded get_claim_for_def]]
      by (auto simp: claim_run_def claim_run_conn_def Let_def)
    have "res_ok (\<lambda>_. False) 0 (w\<lparr>draws := draws w + 1\<rparr>)
        (already_claimed E C F G H t (t_id t) slot k (w\<lparr>draws := draws w + 1\<rparr>))"
      by (rule finished_slot_quiet [of _ t slot c]) (use assms(1,2) in simp_all)
    then show ?thesis
      unfolding deliver_one_def None option.case fire_bare_def cl Let_def sum.case store_error.case
      by (rule res_ok_after [OF acts_within_updates(2) [of _ 0]]) simp
  next
    case (Some eng)
    show ?thesis unfolding deliver_one_def Some option.case
    proof (rule res_ok_andS)
      fix now w1 assume "wall_now H w = Some (Inr now, w1)"
      then have "db w1 = db w" by (auto simp: wall_now_def)
      with assms(1,2) show "res_ok (\<lambda>_. False) 0 w1 (fire_with_engine E C F G H eng t slot k now w1)"
        by (intro finished_engine_quiet) simp_all
    qed simp_all
  qed
  with assms(3) show ?thesis by (auto simp: acts_within_def)
qed

section \<open>The pause\<close>

text \<open>C20: While the scheduler is paused a tick fires nothing: a tick of a booted scheduler that leaves
  it paused (it was paused before or a control message paused it) calls the action for no timer
  and answers no fire. The first tick of a scheduler that is not booted boots it, and the recovery
  and the misfire pass of the boot call the action whatever the pause says.\<close>

theorem pause_holds_fires:
  assumes "booted w" "tick E C F G H w = Some (Inr res, w')" "pause_all w'"
  shows "acted w' = acted w \<and> tr_fires res = []"
proof -
  from assms(2) have t: "andS (drain_control E G H (control w) False) (\<lambda>(shut, refilled).
     if shut then okS \<lparr>tr_fires = [], tr_clock_jump = False, tr_refilled = refilled, tr_shutdown = True\<rparr>
     else
       andS (external_store_changed G H) (\<lambda>changed.
       andS (if changed then rebuild_horizon E G H else okS ()) (\<lambda>_ w.
       if pause_all w
       then okS \<lparr>tr_fires = [], tr_clock_jump = False, tr_refilled = refilled \<or> changed, tr_shutdown = False\<rparr> w
       else tick_fires E C F G H (refilled \<or> changed) w))) w = Some (Inr res, w')"
    by (simp add: tick_def assms(1) andS_def okS_def)
  then obtain shut refilled w1 where 1: "drain_control E G H (control w) False w = Some (Inr (shut, refilled), w1)"
    by (auto simp: andS_def split: option.splits sum.splits prod.splits)
  note calm = drain_control_calm [OF 1]
  show ?thesis
  proof (cases shut)
    case True
    with t 1 calm show ?thesis by (auto simp: andS_def okS_def)
  next
    case False
    with t 1 have t2: "andS (external_store_changed G H) (\<lambda>changed.
       andS (if changed then rebuild_horizon E G H else okS ()) (\<lambda>_ w.
       if pause_all w
       then okS \<lparr>tr_fires = [], tr_clock_jump = False, tr_refilled = refilled \<or> changed, tr_shutdown = False\<rparr> w
       else tick_fires E C F G H (refilled \<or> changed) w)) w1 = Some (Inr res, w')"
      by (simp add: andS_def)
    then obtain changed w2 where 2: "external_store_changed G H w1 = Some (Inr changed, w2)"
      by (auto simp: andS_def split: option.splits sum.splits prod.splits)
    have q2: "acted w2 = acted w1 \<and> pause_all w2 = pause_all w1"
      using 2 by (auto simp: external_store_changed_def andS_def mono_clock_def okS_def)
    from t2 2 obtain w3 where 3: "(if changed then rebuild_horizon E G H else okS ()) w2 = Some (Inr (), w3)"
      by (auto simp: andS_def split: option.splits sum.splits prod.splits)
    have q3: "acted w3 = acted w2"
      using rebuild_quiet [of "\<lambda>_. False" 0 w2 E G H, unfolded res_ok_def] 3 by (auto simp: acts_within_def okS_def split: if_splits)
    have t3: "(if pause_all w3
       then okS \<lparr>tr_fires = [], tr_clock_jump = False, tr_refilled = refilled \<or> changed, tr_shutdown = False\<rparr> w3
       else tick_fires E C F G H (refilled \<or> changed) w3) = Some (Inr res, w')"
      using t2 2 3 by (simp add: andS_def)
    show ?thesis
    proof (cases "pause_all w3")
      case True
      with t3 q2 q3 calm show ?thesis by (auto simp: okS_def)
    next
      case False
      with t3 tick_fires_some [of w3 E C F G H "refilled \<or> changed"] assms(3) show ?thesis
        by (auto simp: res_some_def acts_within_def)
    qed
  qed
qed

section \<open>The sleep\<close>

text \<open>C21: The loop never oversleeps: the sleep is at most the configured maximum, it is zero exactly
  when an entry of the heap is due (or the maximum is zero), and it ends no later than the
  earliest entry.\<close>

theorem next_sleep_exact:
  assumes "heap_ok (heap w)" "next_sleep G H w = Some (Inr d, w')"
  shows "d \<le> c_max_sleep G \<and>
    (d = 0 \<longleftrightarrow> c_max_sleep G = 0 \<or> (\<exists>e\<in>set (heap w). he_fire_at e \<le> wall_reading H (readings w))) \<and>
    (\<forall>e\<in>set (heap w). wall_reading H (readings w) + int d \<le> max (wall_reading H (readings w)) (he_fire_at e))"
proof -
  define now where "now = wall_reading H (readings w)"
  have d: "d = (case peek_next (w\<lparr>readings := readings w + 1\<rparr>) of None \<Rightarrow> c_max_sleep G
      | Some (fire_at, _) \<Rightarrow> if fire_at \<le> now then 0 else min (nat (fire_at - now)) (c_max_sleep G))"
    using assms(2) unfolding now_def by (auto simp: next_sleep_def andS_def wall_now_def okS_def)
  show ?thesis
  proof (cases "heap w")
    case Nil
    with d show ?thesis by (simp add: peek_next_def heap_peek_def)
  next
    case (Cons e h)
    have least: "he_fire_at e \<le> he_fire_at x" if "x \<in> set (heap w)" for x
      using hq.pop_least [OF assms(1), of e h x] that Cons by (auto simp: entry_key_def)
    have d': "d = (if he_fire_at e \<le> now then 0 else min (nat (he_fire_at e - now)) (c_max_sleep G))"
      using d by (simp add: peek_next_def heap_peek_def Cons)
    have "e \<in> set (heap w)" using Cons by simp
    then show ?thesis using least d' unfolding now_def [symmetric]
      by (smt (verit, best) int_nat_eq min.cobounded1 min.cobounded2 min_0R nat_0_iff zero_le zle_int
          min.absorb_iff2 min_def of_nat_0 zero_less_nat_eq le_zero_eq)
  qed
qed

section \<open>The clock jump\<close>

text \<open>Within sixty-four-bit milliseconds the detector reports a jump exactly when the wall clock and
  the monotonic clock drifted apart by more than the threshold since the last reading, in
  either direction.\<close>

theorem clock_jump_exact:
  assumes "\<bar>num_milliseconds (wall - last_wall w)\<bar> \<le> 2 ^ 62" "last_mono w \<le> m" "(m - last_mono w) div 1000000 \<le> 2 ^ 62"
    and "c_jump_threshold G div 1000000 \<le> 2 ^ 63"
  shows "is_clock_jump G w wall m \<longleftrightarrow>
    int (c_jump_threshold G div 1000000) <
      \<bar>num_milliseconds (wall - last_wall w) - int ((m - last_mono w) div 1000000)\<bar>"
proof -
  define a where "a = num_milliseconds (wall - last_wall w)"
  define b where "b = int ((m - last_mono w) div 1000000)"
  define s where "s = c_jump_threshold G div 1000000"
  have "- (2 ^ 62) \<le> a" "a \<le> 2 ^ 62" "0 \<le> b" "b \<le> 2 ^ 62" "s \<le> 2 ^ 63"
    using assms by (auto simp: a_def b_def s_def)
  then show ?thesis
    unfolding is_clock_jump_def clocks_diverge_def Let_def mono_sub_def a_def [symmetric] b_def [symmetric] s_def [symmetric]
    by (auto simp: min_def max_def)
qed

section \<open>Skipping a backlog\<close>

lemma next_fire_same:
  "next_fire L oc cur = Some (oc', r) \<Longrightarrow> pending_skips oc = 0 \<Longrightarrow> oc' = oc"
  using next_fire_frame [of L oc cur oc' r] by (cases oc) auto

text \<open>When the walk ends before its cap, its last search answered nothing at or before now.\<close>

lemma skip_walk_end:
  assumes "pending_skips oc = 0" "skip_walk L n oc cur now sk = Some (oc', sk')"
    and "missed_from L n oc cur now = Some ms" "length ms < n"
  shows "oc' = oc \<and> sk' = (if ms = [] then sk else Some (last ms)) \<and>
    (\<exists>r. next_fire L oc (if ms = [] then cur else last ms) = Some (oc, r) \<and> (\<forall>c. r = Some c \<longrightarrow> now < c))"
  using assms
proof (induction L n oc cur now sk arbitrary: ms rule: skip_walk.induct)
  case (2 L n oc cur now sk)
  from "2.prems"(2) obtain oc1 r where nf: "next_fire L oc cur = Some (oc1, r)"
    by (cases "next_fire L oc cur") auto
  have same: "oc1 = oc" using next_fire_same [OF nf "2.prems"(1)] .
  show ?case
  proof (cases r)
    case None
    with "2.prems" nf same show ?thesis by auto
  next
    case (Some c)
    show ?thesis
    proof (cases "now < c")
      case True
      with "2.prems" nf same Some show ?thesis by auto
    next
      case False
      from "2.prems"(3) nf same Some False obtain rest where
        rest: "missed_from L n oc c now = Some rest" "ms = c # rest" by (auto simp: bind_Some)
      have "skip_walk L n oc c now (Some c) = Some (oc', sk')" using "2.prems"(2) nf same Some False by simp
      with "2.IH" [OF nf refl Some False, of rest] "2.prems"(1,4) rest same show ?thesis by auto
    qed
  qed
qed simp

lemma requeue_db:
  assumes "requeue_timer E G H i w = Some (r, w')"
  shows "db w' = db w"
proof -
  have "db w' = db w" if "push_if_in_horizon E G H nf i w = Some (r, w')" for nf
    using that by (auto simp: push_if_in_horizon_def andS_def wall_now_def Let_def bind_Some push_heap_def)
  with assms show ?thesis
    by (auto simp: requeue_timer_def okS_def split: option.splits if_splits)
qed

lemma updated_row:
  assumes "row_get t_id i rows = Some old" "t_revision old = v" "t_id t = i"
  shows "row_get t_id i (row_set (\<lambda>t. t_id t = i \<and> t_revision t = v) (\<lambda>_. t) rows) = Some t"
  using assms by (induction rows) (auto simp: row_get_def row_set_def split: if_splits)

lemma ledger_update_Some:
  assumes "updateS E (ledger_update t anchor (Some oc)) w = Some (Inr (), w')" "get_timer (db w) (t_id t) = Some t"
  shows "\<exists>t' oc' nf. get_timer (db w') (t_id t) = Some t' \<and>
    next_fire (env_lib E) oc anchor = Some (oc', nf) \<and> t_next_fire t' = nf"
proof -
  define up where "up = ledger_update t anchor (Some oc)"
  from assms(1) obtain t' s where u: "update_timer (env_lib E) (utc_now E (draws w)) up (db w) = Some (Inr (t', s))"
      "db w' = s"
    unfolding updateS_def up_def [symmetric]
    by (cases "update_timer (env_lib E) (utc_now E (draws w)) up (db w)") (auto split: sum.splits)
  from u(1) show ?thesis
  proof (cases rule: update_timer_Some)
    case (1 old nxt oc2 fire)
    have ids: "up_id up = t_id t" "up_expected_revision up = t_revision t"
      by (simp_all add: up_def ledger_update_def)
    have old: "old = t" using 1(1) assms(2) by (simp add: ids)
    have nxt: "t_occurrence nxt = oc" "t_last_fired nxt = Some anchor" "t_id nxt = t_id t"
      using 1(3) by (auto simp: old up_def ledger_update_def apply_patch_def empty_patch_def Let_def bindE_Inr
          split: sum.splits)
    have "next_fire (env_lib E) oc anchor = Some (oc2, fire)"
      using 1(4) by (auto simp: compute_next_fire_def nxt bind_Some)
    moreover have "get_timer (db w') (t_id t) = Some t'"
      using updated_row [of "t_id t" "timers (db w)" t "t_revision t" t'] assms(2) nxt(3)
      by (simp add: u(2) 1(5,6) ids get_timer_def)
    ultimately show ?thesis using 1(5) by auto
  qed
qed

text \<open>Skipping a backlog lands in the future: when a timer without pending skips is advanced past
  now over fewer than 100000 missed slots, and it has fired before or has a missed slot, then
  its stored next fire is either gone or strictly after now.\<close>

theorem skip_moves_past_now:
  assumes t: "get_timer (db w) i = Some t" "pending_skips (t_occurrence t) = 0"
    and adv: "advance_past_now E G H i now w = Some (Inr (), w')"
    and walk: "skip_cursor (env_lib E) t now = Some cur"
      "missed_from (env_lib E) 100000 (t_occurrence t) cur now = Some ms" "length ms < 100000"
    and anchored: "t_last_fired t \<noteq> None \<or> ms \<noteq> []"
  shows "\<exists>t'. get_timer (db w') i = Some t' \<and> (\<forall>nf. t_next_fire t' = Some nf \<longrightarrow> now < nf)"
proof -
  define L where "L = env_lib E"
  have i: "t_id t = i" by (rule get_timer_id [OF t(1)])
  from adv obtain z oc sk where z: "timezone L (t_occurrence t) = Some z"
      and sk: "skip_walk L 100000 (t_occurrence t) cur now (t_last_fired t) = Some (oc, sk)"
      and rest: "andS (updateS E (ledger_update t (case sk of None \<Rightarrow> now | Some a \<Rightarrow> a) (Some oc)))
        (\<lambda>_. requeue_timer E G H i) w = Some (Inr (), w')"
    unfolding advance_past_now_def L_def
    by (auto simp: andS_def execS_def existing_timer_def okS_def t(1) walk(1) split: option.splits)
  note e = skip_walk_end [OF t(2) sk walk(2) [folded L_def] walk(3)]
  define anchor where "anchor = (case sk of None \<Rightarrow> now | Some a \<Rightarrow> a)"
  have anchor: "anchor = (if ms = [] then cur else last ms)"
    using anchored e walk(1) by (auto simp: anchor_def skip_cursor_def split: option.splits)
  from rest obtain w2 where up: "updateS E (ledger_update t anchor (Some (t_occurrence t))) w = Some (Inr (), w2)"
      and rq: "requeue_timer E G H i w2 = Some (Inr (), w')"
    using e unfolding anchor_def by (auto simp: andS_def split: option.splits sum.splits)
  from ledger_update_Some [OF up] t(1) i obtain t' oc' nf where t': "get_timer (db w2) i = Some t'"
      "next_fire L (t_occurrence t) anchor = Some (oc', nf)" "t_next_fire t' = nf"
    by (auto simp: L_def)
  with e anchor have "\<forall>c. nf = Some c \<longrightarrow> now < c" by auto
  with t' requeue_db [OF rq] show ?thesis by auto
qed

section \<open>Witnesses\<close>

definition sample_config :: sched_config where
  "sample_config = \<lparr> c_horizon = 0, c_max_sleep = 30000000000, c_external_rebuild_interval = 60000000000,
     c_jump_threshold = 3000000000, c_max_concurrent_actions = 16, c_accuracy_slack = 1000000000,
     c_data_dir = None, c_retention = 0, c_prune_interval = 0, c_ack_grace = 0, c_log_rotation_max_bytes = 0,
     c_log_retention_budget_bytes = 0, c_quarantine_budget_bytes = 0, c_pickup_grace = 60000000000,
     c_fire_slot_file = None, c_ipc = None \<rparr>"

definition sample_host :: host where
  "sample_host = \<lparr> wall_reading = (\<lambda>_. sample_fire), mono_reading = (\<lambda>_. 0), data_version = (\<lambda>_. Some 0),
     jitter_hash = (\<lambda>_ _. 0), on_fire = (\<lambda>_ _. None), executes_inline = True, boot_complete = (\<lambda>s. s),
     policy_json = (\<lambda>_. ''{}''), rfc3339 = (\<lambda>_. ''t''), tree_socket = None, second_read = (\<lambda>_. Missing),
     prune_pass = (\<lambda>_ v. v), startup_maintenance = (\<lambda>_ v. v) \<rparr>"

text \<open>A daily timer with one run left, due exactly at the host's wall reading.\<close>

definition due_timer :: timer where
  "due_timer = sample_timer\<lparr>t_occurrence := sample_daily\<lparr>pending_skips := 0, runs_done := 4\<rparr>,
     t_last_fired := None, t_misfire := MisfireSkip\<rparr>"

definition sample_sched :: "store \<Rightarrow> heap_entry list \<Rightarrow> scheduler" where
  "sample_sched s h = \<lparr> db = s, draws = 0, book = [], armed_hints = [], anchors = [], files = [], folders = [],
     tracker = [], stats = no_stats, heap = h, last_wall = sample_fire, last_mono = 0, control = [], booted = True,
     pause_all = True, last_data_version = 0, last_rebuild_mono = 0, readings = 0, acted = [] \<rparr>"

lemma sample_sched_fields [simp]:
  "db (sample_sched s h) = s" "heap (sample_sched s h) = h" "acted (sample_sched s h) = []"
  "readings (sample_sched s h) = 0" "booted (sample_sched s h)" "pause_all (sample_sched s h)"
  "last_wall (sample_sched s h) = sample_fire" "last_mono (sample_sched s h) = 0" "control (sample_sched s h) = []"
  by (simp_all add: sample_sched_def)

theorem clock_jump_exact_witness:
  "is_clock_jump sample_config (sample_sched empty_store []) (sample_fire + 4 * sec_ns) 0"
proof -
  have "is_clock_jump sample_config (sample_sched empty_store []) (sample_fire + 4 * sec_ns) 0 \<longleftrightarrow>
      int (c_jump_threshold sample_config div 1000000) <
        \<bar>num_milliseconds (sample_fire + 4 * sec_ns - last_wall (sample_sched empty_store [])) -
          int ((0 - last_mono (sample_sched empty_store [])) div 1000000)\<bar>"
    by (rule clock_jump_exact) (simp_all add: num_milliseconds_def sec_ns_def sample_config_def)
  then show ?thesis by (simp add: num_milliseconds_def sec_ns_def sample_config_def)
qed

theorem next_sleep_exact_witness:
  "\<exists>d w'. next_sleep sample_config sample_host (sample_sched empty_store [heap_fire (sample_fire + 5) 3]) = Some (Inr d, w') \<and>
     0 < d \<and> d \<le> 30000000000"
proof -
  let ?w = "sample_sched empty_store [heap_fire (sample_fire + 5) 3]"
  have ok: "heap_ok (heap ?w)" by (simp add: heap_ok_def)
  obtain d w' where r: "next_sleep sample_config sample_host ?w = Some (Inr d, w')"
    by (simp add: next_sleep_def andS_def wall_now_def okS_def)
  have "d = 0 \<longleftrightarrow> c_max_sleep sample_config = 0 \<or> (\<exists>e\<in>set (heap ?w). he_fire_at e \<le> wall_reading sample_host (readings ?w))"
      "d \<le> c_max_sleep sample_config"
    using next_sleep_exact [OF ok r] by blast+
  then show ?thesis using r by (auto simp: sample_config_def sample_host_def heap_fire_def)
qed

theorem pause_holds_fires_witness:
  "\<exists>res w'. tick sample_env sample_codec no_faults sample_config sample_host (sample_sched sample_store [heap_fire sample_fire 3]) =
     Some (Inr res, w') \<and> acted w' = [] \<and> tr_fires res = []"
proof -
  let ?w = "sample_sched sample_store [heap_fire sample_fire 3]"
  obtain res w' where r: "tick sample_env sample_codec no_faults sample_config sample_host ?w = Some (Inr res, w')"
      "pause_all w'"
    by (simp add: tick_def andS_def okS_def external_store_changed_def mono_clock_def mono_sub_def sample_config_def
        sample_host_def sample_sched_def)
  from pause_holds_fires [OF _ r] r show ?thesis by simp
qed

theorem finished_slot_never_refires_witness:
  "\<exists>res w'. deliver_one sample_env sample_codec no_faults sample_config sample_host sample_timer 100 OnTime
     (sample_sched (empty_store\<lparr>runs := [finish_row 105 WakeDelivered None owned_run]\<rparr>) []) = Some (res, w') \<and> acted w' = []"
proof -
  let ?r = "finish_row 105 WakeDelivered None owned_run"
  let ?w = "sample_sched (empty_store\<lparr>runs := [?r]\<rparr>) []"
  have tid: "t_id sample_timer = 3" by (simp add: sample_timer_def)
  have c: "get_claim_for (db ?w) (t_id sample_timer) 100 = Some ?r" "r_status ?r = Finished"
    by (simp_all add: get_claim_for_def row_get_def finish_row_def owned_run_def tid)
  obtain res w' where r: "deliver_one sample_env sample_codec no_faults sample_config sample_host sample_timer 100 OnTime ?w = Some (res, w')"
    by (simp add: deliver_one_def reply_engine_def sample_config_def fire_bare_def claim_run_def claim_run_conn_def Let_def
        finish_row_def owned_run_def tid already_claimed_def get_claim_for_def row_get_def is_unfinished_def andS_def
        ensure_advanced_past_def get_timer_def empty_store_def okS_def)
  from finished_slot_never_refires [OF c r] r show ?thesis by simp
qed

lemma sample_daily_slot:
  "next_fire sample_lib (sample_daily\<lparr>pending_skips := 0\<rparr>) sample_after =
     Some (sample_daily\<lparr>pending_skips := 0\<rparr>, Some (sample_fire - day_ns))"
  by (simp add: next_fire_def runs_exhausted_def search_floor_def timezone_def MAX_CANDIDATES_def
    candidates_numeral raw_next_after_def next_daily_def daily_scan_numeral resolve_def
    resolve_local_def resolve_naive_def at_time_def date_of_def succ_opt_def
    jump_past_exclusion_day_def instant_add_def sample_defs)

lemma sample_zone: "timezone sample_lib (sample_daily\<lparr>pending_skips := k\<rparr>) = Some helsinki"
  using timezone_sample by (simp add: timezone_def)

lemma sample_timer_fields:
  "t_id sample_timer = 3" "t_occurrence sample_timer = sample_daily\<lparr>pending_skips := 0\<rparr>"
  "t_last_fired sample_timer = Some sample_after" "t_next_fire sample_timer = Some sample_fire"
  "t_revision sample_timer = 1" "t_enabled sample_timer" "t_jitter_secs sample_timer = 0"
  by (simp_all add: sample_timer_def sample_new_def new_timer_new_def new_timer_row_def timer_row_def)

lemma due_timer_fields:
  "t_id due_timer = 3" "t_occurrence due_timer = sample_daily\<lparr>pending_skips := 0, runs_done := 4\<rparr>"
  "t_last_fired due_timer = None" "t_next_fire due_timer = Some sample_fire" "t_enabled due_timer"
  "t_misfire due_timer = MisfireSkip" "t_jitter_secs due_timer = 0" "t_revision due_timer = 1" "t_name due_timer = ''t''"
  by (simp_all add: due_timer_def sample_timer_def sample_new_def new_timer_new_def new_timer_row_def timer_row_def)

lemma andS_Inr: "m w = Some (Inr a, w1) \<Longrightarrow> andS m f w = f a w1"
  by (simp add: andS_def)

lemma execS_Inr: "x = Some a \<Longrightarrow> andS (execS x) f w = f a w"
  by (simp add: andS_def execS_def)

lemma valid_sample: "validate (kind sample_daily) = Inr ()" by (simp add: sample_daily_def validate_def)

text \<open>The ledger update of the only row.\<close>

definition ledger_row :: "timer \<Rightarrow> instant \<Rightarrow> occurrence \<Rightarrow> occurrence \<Rightarrow> instant option \<Rightarrow> timer" where
  "ledger_row t anchor oc oc' nf = rescheduled_row (t\<lparr>t_last_fired := Some anchor, t_occurrence := oc\<rparr>) oc' nf"

lemma ledger_single:
  assumes "timers (db w) = [t]" "validate (kind oc) = Inr ()" "timezone (env_lib E) oc = Some z"
    and "next_fire (env_lib E) oc anchor = Some (oc', nf)"
  shows "updateS E (ledger_update t anchor (Some oc)) w =
    Some (Inr (), w\<lparr>db := (db w)\<lparr>timers := [ledger_row t anchor oc oc' nf]\<rparr>, draws := draws w + 1\<rparr>)"
proof -
  have "apply_patch t (empty_patch\<lparr>u_last_fired := Some (Some anchor), u_occurrence := Some oc\<rparr>) =
      Inr (t\<lparr>t_last_fired := Some anchor, t_occurrence := oc\<rparr>)"
    by (cases t) (simp add: apply_patch_def empty_patch_def Let_def assms(2) bindE_Inr)
  then show ?thesis
    by (simp add: updateS_def ledger_update_def update_timer_def update_timer_tx_def get_timer_def row_get_def
        assms compute_next_fire_def row_count_def row_set_def ledger_row_def)
qed

lemma ledger_row_jitter:
  "t_jitter_secs (ledger_row t anchor oc oc' nf) = t_jitter_secs t" "t_next_fire (ledger_row t anchor oc oc' nf) = nf"
  "t_enabled (ledger_row t anchor oc oc' nf) = t_enabled t" "t_id (ledger_row t anchor oc oc' nf) = t_id t"
  by (simp_all add: ledger_row_def rescheduled_row_def timer_row_def)

lemma sample_instants:
  "exec_instant sample_env sample_host i sample_fire 0 = Some sample_fire"
  "exec_instant sample_env sample_host i (sample_fire - day_ns) 0 = Some (sample_fire - day_ns)"
  "instant_add (env_lib sample_env) sample_fire 0 = Some sample_fire"
  "wall_reading sample_host n = sample_fire" "from_std (env_lib sample_env) (c_horizon sample_config) = Some 0"
  by (simp_all add: sample_host_def sample_config_def from_std_def exec_instant_def apply_execution_jitter_def jitter_offset_secs_def duration_seconds_def
      try_seconds_def instant_add_def sample_env_def sample_defs)

text \<open>Nothing was missed at \<open>sample_after\<close>: the timer goes back to its daily slot.\<close>

theorem skip_moves_past_now_witness:
  "\<exists>w' t'. advance_past_now sample_env sample_config sample_host 3 sample_after (sample_sched sample_store []) =
     Some (Inr (), w') \<and> get_timer (db w') 3 = Some t' \<and> (\<forall>nf. t_next_fire t' = Some nf \<longrightarrow> sample_after < nf)"
proof -
  let ?w = "sample_sched sample_store []"
  have later: "sample_after < sample_fire - day_ns" by (simp add: sample_defs)
  have t: "get_timer (db ?w) 3 = Some sample_timer"
    by (simp add: get_timer_def row_get_def sample_store_def sample_timer_fields)
  have cur: "skip_cursor (env_lib sample_env) sample_timer sample_after = Some sample_after"
    by (simp add: skip_cursor_def sample_timer_fields)
  have n: "(100000::nat) = Suc 99999" by simp
  have miss: "missed_from (env_lib sample_env) 100000 (t_occurrence sample_timer) sample_after sample_after = Some []"
    unfolding n missed_from.simps using later by (simp add: sample_timer_fields sample_env_def sample_daily_slot)
  have walk: "skip_walk (env_lib sample_env) 100000 (t_occurrence sample_timer) sample_after sample_after (Some sample_after) =
      Some (sample_daily\<lparr>pending_skips := 0\<rparr>, Some sample_after)"
    unfolding n skip_walk.simps using later by (simp add: sample_timer_fields sample_env_def sample_daily_slot)
  define t2 where "t2 = ledger_row sample_timer sample_after (sample_daily\<lparr>pending_skips := 0\<rparr>)
      (sample_daily\<lparr>pending_skips := 0\<rparr>) (Some (sample_fire - day_ns))"
  define w2 where "w2 = ?w\<lparr>db := sample_store\<lparr>timers := [t2]\<rparr>, draws := 1\<rparr>"
  have up: "updateS sample_env (ledger_update sample_timer sample_after (Some (sample_daily\<lparr>pending_skips := 0\<rparr>))) ?w =
      Some (Inr (), w2)"
    using ledger_single [of ?w sample_timer "sample_daily\<lparr>pending_skips := 0\<rparr>" sample_env helsinki sample_after]
    by (simp add: sample_store_def valid_sample sample_env_def sample_zone sample_daily_slot w2_def t2_def)
      (simp add: sample_sched_def sample_store_def)
  obtain w' where rq: "requeue_timer sample_env sample_config sample_host 3 w2 = Some (Inr (), w')"
    by (simp add: requeue_timer_def w2_def t2_def ledger_row_jitter get_timer_def row_get_def
        sample_timer_fields push_if_in_horizon_def andS_def wall_now_def okS_def Let_def sample_instants)
  have e1: "existing_timer 3 ?w = Some (Inr sample_timer, ?w)" using t by (simp add: existing_timer_def okS_def)
  have z: "timezone (env_lib sample_env) (sample_daily\<lparr>pending_skips := 0\<rparr>) = Some helsinki"
    by (simp add: sample_env_def sample_zone)
  have r: "advance_past_now sample_env sample_config sample_host 3 sample_after ?w = Some (Inr (), w')"
    unfolding advance_past_now_def
    by (simp add: andS_Inr [where m = "existing_timer 3", OF e1] execS_Inr [OF cur] execS_Inr [OF walk [unfolded sample_timer_fields]] execS_Inr [OF z] sample_timer_fields
        andS_Inr [where w = ?w and m = "updateS sample_env U" for U, OF up] rq)
  from skip_moves_past_now [OF t _ r cur miss] have "\<exists>t'. get_timer (db w') 3 = Some t' \<and> (\<forall>nf. t_next_fire t' = Some nf \<longrightarrow> sample_after < nf)"
    by (simp add: sample_timer_fields sample_daily_def)
  with r show ?thesis by blast
qed

text \<open>The only run the due timer has left: its claim, its closing, its ledger.\<close>

definition due_store :: store where "due_store = empty_store\<lparr>timers := [due_timer]\<rparr>"

definition due_claim :: run_claim where
  "due_claim = \<lparr> r_id = 500, r_timer = 3, r_scheduled_for = sample_fire, r_status = Pending,
     r_claimed_at = sample_now, r_completed_at = None, r_event_sequence = 1, r_outcome = None,
     r_outcome_reason = None, r_cancel_requested = False \<rparr>"

lemma due_claim_fields:
  "r_id due_claim = 500" "r_scheduled_for due_claim = sample_fire" "r_status due_claim = Pending"
  by (simp_all add: due_claim_def)

abbreviation due_done :: occurrence where
  "due_done \<equiv> sample_daily\<lparr>pending_skips := 0, runs_done := 5\<rparr>"

lemma due_claimed:
  "claim_run (utc_now sample_env 0) (new_uuid sample_env 0) (t_id due_timer) sample_fire due_store =
     Inr (due_claim, due_store\<lparr>runs := [due_claim]\<rparr>)"
  by (simp add: claim_run_def claim_run_conn_def next_sequence_def runs_of_def max_or_0_def Let_def
      due_store_def empty_store_def due_claim_def sample_env_def due_timer_fields)

lemma due_completed:
  "complete_run n 500 (due_store\<lparr>runs := [due_claim]\<rparr>) =
     Inr (finish_row n WakeDelivered None due_claim, due_store\<lparr>runs := [finish_row n WakeDelivered None due_claim]\<rparr>)"
  by (simp add: complete_run_def finish_run_def Let_def row_count_def row_set_def get_run_def row_get_def
      due_claim_def open_status_def finish_row_def)

lemma due_exhausted: "next_fire (env_lib E) due_done a = Some (due_done, None)"
  by (simp add: next_fire_def runs_exhausted_def sample_daily_def)

lemma watch_same: "watch.extend (watch.truncate w) (watch.more w) = w"
  by (cases w) (simp add: watch.defs)

lemma act_runs:
  assumes "r_status c = Pending" "run_action E H t c k w = Some (Inr None, w2)" "\<not> is_system_prune_timer t"
    and "record_fire E G H (t_id t) (r_scheduled_for c) w2 = Some (Inr (), w3)" "c_data_dir G = None"
  shows "act_and_close E C F G H t c k w =
    Some (Inr (Some \<lparr>df_timer_id = t_id t, df_scheduled_for = r_scheduled_for c, df_run_id = r_id c, df_kind = k\<rparr>), w3)"
  using assms
  by (simp add: act_and_close_def andS_def prune_if_system_def okS_def watchS_def on_watch_def
      refresh_timer_json_def watch_same)

lemma bare_claims:
  assumes "c_data_dir G = None"
    and "claim_run (utc_now E (draws w)) (new_uuid E (draws w)) (t_id t) slot (db w) = Inr (c, s)"
  shows "deliver_one E C F G H t slot k w = act_and_close E C F G H t c k (w\<lparr>draws := draws w + 1, db := s\<rparr>)"
  using assms by (simp add: deliver_one_def reply_engine_def fire_bare_def Let_def)

lemma due_acts:
  assumes "w = sample_sched due_store h"
  shows "\<exists>w' d. deliver_one sample_env sample_codec no_faults sample_config sample_host due_timer sample_fire k w =
      Some (Inr d, w') \<and> get_timer (db w') 3 = Some (ledger_row due_timer sample_fire due_done due_done None) \<and> heap w' = h"
proof -
  let ?w1 = "w\<lparr>draws := 1, db := due_store\<lparr>runs := [due_claim]\<rparr>, acted := [from_claim due_timer due_claim k]\<rparr>"
  let ?w2 = "?w1\<lparr>draws := 2, db := due_store\<lparr>runs := [finish_row sample_now WakeDelivered None due_claim]\<rparr>\<rparr>"
  let ?t = "ledger_row due_timer sample_fire due_done due_done None"
  let ?w3 = "?w2\<lparr>draws := 3, db := (db ?w2)\<lparr>timers := [?t]\<rparr>\<rparr>"
  have run: "run_action sample_env sample_host due_timer due_claim k (w\<lparr>draws := 1, db := due_store\<lparr>runs := [due_claim]\<rparr>\<rparr>) =
      Some (Inr None, ?w2)"
    using due_completed [of sample_now]
    by (simp add: run_action_def Let_def andS_def close_inline_def storeS_def assms sample_host_def sample_env_def
        okS_def due_claim_def)
  have "timezone (env_lib sample_env) due_done = Some helsinki"
    using timezone_sample by (simp add: timezone_def sample_env_def)
  then have "updateS sample_env (ledger_update due_timer sample_fire (Some due_done)) ?w2 = Some (Inr (), ?w3)"
    by (subst ledger_single [OF _ _ _ due_exhausted]) (simp_all add: due_store_def valid_sample)
  then have ledger: "record_fire sample_env sample_config sample_host 3 sample_fire ?w2 = Some (Inr (), ?w3)"
    by (simp add: record_fire_def get_timer_def row_get_def due_store_def due_timer_fields mark_fired_def andS_def
        existing_timer_def okS_def record_run_def sat_succ_def)
  have quiet: "\<not> is_system_prune_timer due_timer"
    by (simp add: is_system_prune_timer_def due_timer_fields SYSTEM_PRUNE_ID_def SYSTEM_PRUNE_NAME_def)
  have bare: "c_data_dir sample_config = None" by (simp add: sample_config_def)
  have "\<exists>d. act_and_close sample_env sample_codec no_faults sample_config sample_host due_timer due_claim k
      (w\<lparr>draws := 1, db := due_store\<lparr>runs := [due_claim]\<rparr>\<rparr>) = Some (Inr d, ?w3)"
    by (rule exI, rule act_runs [OF due_claim_fields(3) run quiet _ bare])
      (unfold due_timer_fields due_claim_fields, rule ledger)
  then obtain d where act: "act_and_close sample_env sample_codec no_faults sample_config sample_host due_timer due_claim k
      (w\<lparr>draws := 1, db := due_store\<lparr>runs := [due_claim]\<rparr>\<rparr>) = Some (Inr d, ?w3)" by blast
  have w: "w\<lparr>draws := draws w + 1, db := due_store\<lparr>runs := [due_claim]\<rparr>\<rparr> =
      w\<lparr>draws := 1, db := due_store\<lparr>runs := [due_claim]\<rparr>\<rparr>"
    "claim_run (utc_now sample_env (draws w)) (new_uuid sample_env (draws w)) (t_id due_timer) sample_fire (db w) =
       Inr (due_claim, due_store\<lparr>runs := [due_claim]\<rparr>)"
    using due_claimed by (simp_all add: assms sample_sched_def)
  have "deliver_one sample_env sample_codec no_faults sample_config sample_host due_timer sample_fire k w = Some (Inr d, ?w3)"
    using bare_claims [OF bare w(2), of sample_codec no_faults sample_host k] act unfolding w(1) by (rule trans)
  moreover have "get_timer (db ?w3) 3 = Some ?t \<and> heap ?w3 = h"
    by (simp add: assms get_timer_def row_get_def ledger_row_jitter due_timer_fields)
  ultimately show ?thesis by blast
qed

lemma due_handled:
  "\<exists>w' ds. handle_due_timer sample_env sample_codec no_faults sample_config sample_host 3 sample_fire (sample_sched due_store h) =
     Some (Inr ds, w') \<and> heap w' = h"
proof -
  let ?w = "sample_sched due_store h"
  have t: "get_timer (db ?w) 3 = Some due_timer"
    by (simp add: get_timer_def row_get_def due_store_def due_timer_fields)
  have g: "sample_fire - sample_fire \<le> grace_for (env_lib sample_env) due_timer"
    by (simp add: grace_for_def due_timer_fields sample_daily_def)
  obtain w' d where d: "deliver_one sample_env sample_codec no_faults sample_config sample_host due_timer sample_fire
        (lateness_kind (sample_fire - sample_fire)) ?w = Some (Inr d, w')"
      "get_timer (db w') 3 = Some (ledger_row due_timer sample_fire due_done due_done None)" "heap w' = h"
    using due_acts [OF refl] by blast
  have "due_skip sample_env sample_codec no_faults sample_config sample_host due_timer sample_fire sample_fire ?w =
      Some (Inr (option_list d), w')"
    using d g by (simp add: due_skip_def andS_def requeue_timer_def due_timer_fields ledger_row_jitter okS_def)
  with d(3) t show ?thesis by (simp add: handle_due_timer_def due_timer_fields)
qed

theorem misfire_policy_respected_witness:
  "\<exists>w'. (\<exists>cs. acted w' = cs \<and> length cs \<le> 1 \<and> (\<forall>c\<in>set cs. t_id (fc_timer c) = 3 \<and> fc_scheduled_for c = sample_fire)) \<and>
     (\<exists>r. handle_due_timer sample_env sample_codec no_faults sample_config sample_host 3 sample_fire (sample_sched due_store []) = Some (r, w'))"
proof -
  let ?w = "sample_sched due_store []"
  have t: "get_timer (db ?w) 3 = Some due_timer"
    by (simp add: get_timer_def row_get_def due_store_def due_timer_fields)
  obtain w' ds where r: "handle_due_timer sample_env sample_codec no_faults sample_config sample_host 3 sample_fire ?w = Some (Inr ds, w')"
    using due_handled [of "[]"] by blast
  from misfire_policy_respected [OF t due_timer_fields(4) r]
  have "\<exists>cs. acted w' = cs \<and> length cs \<le> 1 \<and> (\<forall>c\<in>set cs. t_id (fc_timer c) = 3 \<and> fc_scheduled_for c = sample_fire)"
    by (force simp: burst_def due_timer_fields grace_for_def sample_daily_def)
  with r show ?thesis by blast
qed

theorem drain_never_early_witness:
  "\<exists>r w'. drain_due sample_env sample_codec no_faults sample_config sample_host sample_fire
       (sample_sched due_store [heap_fire sample_fire 3]) = Some (r, w') \<and>
     (\<forall>c\<in>set (acted w'). fc_scheduled_for c \<le> sample_fire) \<and> heap_ok (heap w')"
proof -
  let ?w = "sample_sched due_store [heap_fire sample_fire 3]"
  have pop: "?w\<lparr>heap := []\<rparr> = sample_sched due_store []" by (simp add: sample_sched_def)
  obtain w' ds where h: "handle_due_timer sample_env sample_codec no_faults sample_config sample_host 3 sample_fire
        (sample_sched due_store []) = Some (Inr ds, w')" "heap w' = []"
    using due_handled [of "[]"] by blast
  have f: "drain_fire sample_env sample_codec no_faults sample_config sample_host sample_fire 3 (sample_sched due_store []) =
      Some (Inr ds, w')"
    using h by (simp add: drain_fire_def get_timer_def row_get_def due_store_def due_timer_fields execS_Inr sample_instants)
  have n: "(1000::nat) = Suc (Suc 998)" by simp
  have r: "drain_due sample_env sample_codec no_faults sample_config sample_host sample_fire ?w = Some (Inr ds, w')"
    unfolding drain_due_def n drain_loop.simps
    by (simp add: heap_fire_def Let_def pop [unfolded heap_fire_def] andS_def f h okS_def)
  have "(\<exists>cs. acted w' = acted ?w @ cs \<and> (\<forall>c\<in>set cs. fc_scheduled_for c \<le> sample_fire)) \<and>
      (heap_ok (heap ?w) \<longrightarrow> heap_ok (heap w'))"
    by (rule drain_never_early [OF r])
  then show ?thesis using r by (auto simp: heap_ok_def)
qed

end
