(* ===== verification/Action_Limiter.thy ===== *)
theory Action_Limiter
  imports Bellman_Prelude
begin

text \<open>
  The global limiter of wake actions (\<open>actions/concurrency.rs\<close>): its counters and operations, and
  the callers that share it as a step relation. A step is one critical section of the mutex; a
  caller of \<open>acquire\<close> that finds the cap reached parks on the condition variable, a wake-up
  (notified or spurious) makes it look again, and a release notifies one parked caller after it
  has left the critical section.
\<close>

section \<open>The counters\<close>

definition DEFAULT_MAX_CONCURRENT_ACTIONS :: nat where "DEFAULT_MAX_CONCURRENT_ACTIONS = 16"

record limiter =
  l_max :: nat
  in_flight :: nat
  peak_in_flight :: nat
  completed :: nat
  queue_waits :: nat
  waiters :: nat

record limiter_stats =
  st_peak_in_flight :: nat
  st_completed :: nat
  st_queue_waits :: nat

definition limiter_new :: "nat \<Rightarrow> limiter" where
  "limiter_new max_concurrent = \<lparr> l_max = max max_concurrent 1, in_flight = 0, peak_in_flight = 0,
     completed = 0, queue_waits = 0, waiters = 0 \<rparr>"

definition take_permit :: "limiter \<Rightarrow> limiter" where
  "take_permit l =
     (let n = sat_succ u64_max (in_flight l) in
      l\<lparr>in_flight := n, peak_in_flight := if peak_in_flight l < n then n else peak_in_flight l\<rparr>)"

text \<open>\<open>acquire\<close> up to its first wait, and each turn of its wait loop; the flag says that it got the permit.\<close>

definition acquire_start :: "limiter \<Rightarrow> bool \<times> limiter" where
  "acquire_start l =
     (if l_max l \<le> in_flight l
      then (False, l\<lparr>queue_waits := sat_succ u64_max (queue_waits l), waiters := sat_succ u64_max (waiters l)\<rparr>)
      else (True, take_permit l))"

definition acquire_resume :: "limiter \<Rightarrow> bool \<times> limiter" where
  "acquire_resume l =
     (if l_max l \<le> in_flight l then (False, l)
      else (True, take_permit (l\<lparr>waiters := waiters l - 1\<rparr>)))"

definition try_acquire :: "limiter \<Rightarrow> bool \<times> limiter" where
  "try_acquire l = (if l_max l \<le> in_flight l then (False, l) else (True, take_permit l))"

definition release_permit :: "limiter \<Rightarrow> limiter" where
  "release_permit l = l\<lparr>in_flight := in_flight l - 1, completed := sat_succ u64_max (completed l)\<rparr>"

definition limiter_stats_of :: "limiter \<Rightarrow> limiter_stats" where
  "limiter_stats_of l = \<lparr> st_peak_in_flight = peak_in_flight l, st_completed = completed l,
     st_queue_waits = queue_waits l \<rparr>"

definition reset_stats :: "limiter \<Rightarrow> limiter" where
  "reset_stats l = l\<lparr>peak_in_flight := in_flight l, completed := 0, queue_waits := 0\<rparr>"

section \<open>The callers\<close>

text \<open>
  \<open>Parked\<close> waits for a notification, \<open>Woken\<close> has one and is about to take the mutex again,
  \<open>Leaving\<close> has released its permit and is about to notify.
\<close>

datatype caller = Away | Parked | Woken | Running | Leaving

inductive limiter_step :: "limiter \<times> caller list \<Rightarrow> limiter \<times> caller list \<Rightarrow> bool" where
  enter: "i < length cs \<Longrightarrow> cs ! i = Away \<Longrightarrow> acquire_start l = (True, l') \<Longrightarrow>
    limiter_step (l, cs) (l', cs[i := Running])"
| park: "i < length cs \<Longrightarrow> cs ! i = Away \<Longrightarrow> acquire_start l = (False, l') \<Longrightarrow>
    limiter_step (l, cs) (l', cs[i := Parked])"
| attempt: "i < length cs \<Longrightarrow> cs ! i = Away \<Longrightarrow> try_acquire l = (got, l') \<Longrightarrow>
    limiter_step (l, cs) (l', if got then cs[i := Running] else cs)"
| spurious: "i < length cs \<Longrightarrow> cs ! i = Parked \<Longrightarrow> limiter_step (l, cs) (l, cs[i := Woken])"
| resume: "i < length cs \<Longrightarrow> cs ! i = Woken \<Longrightarrow> acquire_resume l = (got, l') \<Longrightarrow>
    limiter_step (l, cs) (l', cs[i := if got then Running else Parked])"
| leave: "i < length cs \<Longrightarrow> cs ! i = Running \<Longrightarrow>
    limiter_step (l, cs) (release_permit l, cs[i := Leaving])"
| notify: "i < length cs \<Longrightarrow> cs ! i = Leaving \<Longrightarrow> j < length cs \<Longrightarrow> cs ! j = Parked \<Longrightarrow>
    limiter_step (l, cs) (l, cs[i := Away, j := Woken])"
| notify_none: "i < length cs \<Longrightarrow> cs ! i = Leaving \<Longrightarrow> Parked \<notin> set cs \<Longrightarrow>
    limiter_step (l, cs) (l, cs[i := Away])"
| reset: "limiter_step (l, cs) (reset_stats l, cs)"

section \<open>The invariant\<close>

definition limiter_ok :: "limiter \<times> caller list \<Rightarrow> bool" where
  "limiter_ok s \<longleftrightarrow> (case s of (l, cs) \<Rightarrow>
     1 \<le> l_max l \<and> l_max l \<le> u64_max \<and> length cs \<le> u64_max \<and>
     in_flight l = count_list cs Running \<and> in_flight l \<le> l_max l \<and>
     in_flight l \<le> peak_in_flight l \<and> peak_in_flight l \<le> l_max l \<and>
     waiters l = count_list cs Parked + count_list cs Woken \<and>
     (Parked \<in> set cs \<longrightarrow> l_max l \<le> in_flight l + count_list cs Woken + count_list cs Leaving))"

lemma count_list_update:
  "i < length xs \<Longrightarrow> count_list (xs[i := x]) y =
     (count_list xs y - (if xs ! i = y then 1 else 0)) + (if x = y then 1 else 0)"
proof (induction xs arbitrary: i)
  case (Cons a xs)
  have "0 < count_list xs (xs ! j)" if "j < length xs" for j
    using that nth_mem [OF that] by (simp add: count_list_0_iff zero_less_iff_neq_zero)
  with Cons show ?case by (cases i) auto
qed simp

lemma count_list_pos: "i < length xs \<Longrightarrow> xs ! i = y \<Longrightarrow> 0 < count_list xs y"
  using nth_mem by (fastforce simp: count_list_0_iff zero_less_iff_neq_zero)

lemma count_le_length: "count_list xs x + count_list xs y \<le> length xs" if "x \<noteq> y"
  using that by (induction xs) auto

lemma update_mem: "y \<in> set (xs[i := x]) \<Longrightarrow> x = y \<or> y \<in> set xs"
  using set_update_subset_insert by fastforce

lemma limiter_new_ok:
  "n \<le> u64_max \<Longrightarrow> k \<le> u64_max \<Longrightarrow> limiter_ok (limiter_new n, replicate k Away)"
  by (simp add: limiter_ok_def limiter_new_def count_list_0_iff)

lemma limiter_step_max: "limiter_step s s' \<Longrightarrow> l_max (fst s') = l_max (fst s) \<and> length (snd s') = length (snd s)"
  by (induction rule: limiter_step.induct)
    (auto simp: acquire_start_def acquire_resume_def try_acquire_def take_permit_def release_permit_def
      reset_stats_def Let_def split: if_splits)

text \<open>The arithmetic of one step: what changes is one caller's phase and the counters.\<close>

lemma limiter_step_ok: "limiter_step s s' \<Longrightarrow> limiter_ok s \<Longrightarrow> limiter_ok s'"
proof (induction rule: limiter_step.induct)
  case (enter i cs l l')
  note pos = count_list_pos [OF enter(1,2)]
  from enter show ?case
    by (auto simp: limiter_ok_def acquire_start_def take_permit_def Let_def sat_succ_def count_list_update
        dest!: update_mem split: if_splits)
next
  case (park i cs l l')
  note pos = count_list_pos [OF park(1,2)]
  have "count_list cs Parked + count_list cs Woken + count_list cs Away \<le> length cs"
    by (induction cs) auto
  with park pos show ?case
    by (auto simp: limiter_ok_def acquire_start_def sat_succ_def count_list_update split: if_splits)
next
  case (attempt i cs l got l')
  from attempt show ?case
    by (auto simp: limiter_ok_def try_acquire_def take_permit_def Let_def sat_succ_def count_list_update
        dest!: update_mem split: if_splits)
next
  case (spurious i cs l)
  note pos = count_list_pos [OF spurious(1,2)]
  from spurious pos show ?case
    by (auto simp: limiter_ok_def count_list_update dest!: update_mem)
next
  case (resume i cs l got l')
  note pos = count_list_pos [OF resume(1,2)]
  from resume pos show ?case
    by (auto simp: limiter_ok_def acquire_resume_def take_permit_def Let_def sat_succ_def count_list_update
        dest!: update_mem split: if_splits)
next
  case (leave i cs l)
  note pos = count_list_pos [OF leave(1,2)]
  from leave pos show ?case
    by (auto simp: limiter_ok_def release_permit_def count_list_update dest!: update_mem)
next
  case (notify i cs j l)
  have ij: "i \<noteq> j" using notify by auto
  note pos = count_list_pos [OF notify(1,2)] count_list_pos [OF notify(3,4)]
  from notify pos ij show ?case
    by (auto simp: limiter_ok_def count_list_update dest!: update_mem)
next
  case (notify_none i cs l)
  note pos = count_list_pos [OF notify_none(1,2)]
  from notify_none pos show ?case
    by (auto simp: limiter_ok_def count_list_update dest!: update_mem)
next
  case (reset l cs)
  then show ?case by (auto simp: limiter_ok_def reset_stats_def)
qed

lemma limiter_steps_ok: "limiter_step\<^sup>*\<^sup>* s s' \<Longrightarrow> limiter_ok s \<Longrightarrow> limiter_ok s'"
  by (induction rule: rtranclp_induct) (auto intro: limiter_step_ok)

lemma limiter_steps_max: "limiter_step\<^sup>*\<^sup>* s s' \<Longrightarrow> l_max (fst s') = l_max (fst s) \<and> length (snd s') = length (snd s)"
  by (induction rule: rtranclp_induct) (use limiter_step_max in fastforce)+

section \<open>The properties\<close>

text \<open>C22: The cap holds in every interleaving: however many callers share a limiter, no more of them
  hold a permit at once than its maximum (at least one), the counter of actions in flight is exact, and
  the recorded peak is at least that and at most the maximum.\<close>

theorem permits_within_cap:
  assumes "limiter_step\<^sup>*\<^sup>* (limiter_new n, replicate k Away) (l, cs)" "n \<le> u64_max" "k \<le> u64_max"
  shows "in_flight l = count_list cs Running \<and> count_list cs Running \<le> max n 1 \<and>
    in_flight l \<le> peak_in_flight l \<and> peak_in_flight l \<le> max n 1"
  using limiter_steps_ok [OF assms(1) limiter_new_ok [OF assms(2,3)]] limiter_steps_max [OF assms(1)]
  by (simp add: limiter_ok_def limiter_new_def)

theorem permits_within_cap_witness:
  "\<exists>l cs. limiter_step\<^sup>*\<^sup>* (limiter_new 0, [Away, Away]) (l, cs) \<and> cs = [Running, Parked] \<and>
     count_list cs Running \<le> 1 \<and> peak_in_flight l \<le> 1"
proof -
  let ?l1 = "take_permit (limiter_new 0)"
  let ?l2 = "?l1\<lparr>queue_waits := 1, waiters := 1\<rparr>"
  have 1: "limiter_step (limiter_new 0, [Away, Away]) (?l1, [Away, Away][0 := Running])"
    by (rule limiter_step.enter) (simp_all add: acquire_start_def limiter_new_def)
  have 2: "limiter_step (?l1, [Running, Away]) (?l2, [Running, Away][1 := Parked])"
    by (rule limiter_step.park)
      (simp_all add: acquire_start_def limiter_new_def take_permit_def sat_succ_def Let_def)
  have r: "limiter_step\<^sup>*\<^sup>* (limiter_new 0, replicate 2 Away) (?l2, [Running, Parked])"
    using 1 2 by (auto simp: numeral_2_eq_2 intro: converse_rtranclp_into_rtranclp)
  from permits_within_cap [OF r] show ?thesis using r by (auto simp: numeral_2_eq_2)
qed

text \<open>C23: No wake-up is lost: in every reachable state in which a caller waits for a permit, a permit is
  held, or a release is about to notify, or a woken caller is about to look again and, if no permit is
  held, gets one. So a waiting caller is never left behind an idle limiter.\<close>

theorem waiting_caller_not_lost:
  assumes "limiter_step\<^sup>*\<^sup>* (limiter_new n, replicate k Away) (l, cs)" "n \<le> u64_max" "k \<le> u64_max"
    and "Parked \<in> set cs"
  shows "Running \<in> set cs \<or> Leaving \<in> set cs \<or>
    (\<exists>i l'. i < length cs \<and> cs ! i = Woken \<and> limiter_step (l, cs) (l', cs[i := Running]))"
proof -
  have ok: "limiter_ok (l, cs)"
    by (rule limiter_steps_ok [OF assms(1) limiter_new_ok [OF assms(2,3)]])
  show ?thesis
  proof (cases "Running \<in> set cs \<or> Leaving \<in> set cs")
    case False
    then have none: "count_list cs Running = 0" "count_list cs Leaving = 0" by (auto simp: count_list_0_iff)
    with ok assms(4) have w: "0 < count_list cs Woken" and free: "in_flight l < l_max l"
      by (auto simp: limiter_ok_def)
    then have "Woken \<in> set cs" by (metis count_list_0_iff less_numeral_extra(3))
    then obtain i where i: "i < length cs" "cs ! i = Woken" by (auto simp: in_set_conv_nth)
    have "acquire_resume l = (True, take_permit (l\<lparr>waiters := waiters l - 1\<rparr>))"
      using free by (simp add: acquire_resume_def)
    from limiter_step.resume [OF i this] i show ?thesis by auto
  qed auto
qed

theorem waiting_caller_not_lost_witness:
  "\<exists>l cs. limiter_step\<^sup>*\<^sup>* (limiter_new 1, [Away, Away]) (l, cs) \<and> Parked \<in> set cs \<and>
     (Running \<in> set cs \<or> Leaving \<in> set cs \<or>
       (\<exists>i l'. i < length cs \<and> cs ! i = Woken \<and> limiter_step (l, cs) (l', cs[i := Running])))"
proof -
  let ?l1 = "take_permit (limiter_new 1)"
  let ?l2 = "?l1\<lparr>queue_waits := 1, waiters := 1\<rparr>"
  have 1: "limiter_step (limiter_new 1, [Away, Away]) (?l1, [Away, Away][0 := Running])"
    by (rule limiter_step.enter) (simp_all add: acquire_start_def limiter_new_def)
  have 2: "limiter_step (?l1, [Running, Away]) (?l2, [Running, Away][1 := Parked])"
    by (rule limiter_step.park)
      (simp_all add: acquire_start_def limiter_new_def take_permit_def sat_succ_def Let_def)
  have r: "limiter_step\<^sup>*\<^sup>* (limiter_new 1, replicate 2 Away) (?l2, [Running, Parked])"
    using 1 2 by (auto simp: numeral_2_eq_2 intro: converse_rtranclp_into_rtranclp)
  have "Running \<in> set [Running, Parked] \<or> Leaving \<in> set [Running, Parked] \<or>
      (\<exists>i l'. i < length [Running, Parked] \<and> [Running, Parked] ! i = Woken \<and>
        limiter_step (?l2, [Running, Parked]) (l', [Running, Parked][i := Running]))"
    by (rule waiting_caller_not_lost [OF r]) simp_all
  moreover have "limiter_step\<^sup>*\<^sup>* (limiter_new 1, [Away, Away]) (?l2, [Running, Parked])"
    using r by (simp add: numeral_2_eq_2)
  ultimately show ?thesis by (intro exI [of _ ?l2] exI [of _ "[Running, Parked]"] conjI) simp_all
qed

end
