(* ===== verification/Action_Executor.thy ===== *)
theory Action_Executor
  imports Store_Properties Reply_Document Event_Record Action_Limiter
begin

text \<open>
  The execution of a wake action: \<open>actions/launch.rs\<close>, \<open>actions/executor.rs\<close>, \<open>cancel.rs\<close>,
  \<open>notify.rs\<close>. What a child process and the clock do is an argument: each look of a polling loop is
  numbered, and the records \<open>child\<close> and \<open>attempt_env\<close> say what the nth look sees. Strings are UTF-8
  bytes. A loop that may not end is a \<open>partial_function\<close>: \<open>None\<close> means that it does not return.
\<close>

section \<open>Captured output\<close>

definition DEFAULT_OUTPUT_CAP_BYTES :: nat where "DEFAULT_OUTPUT_CAP_BYTES = 64 * 1024"
definition DEFAULT_TIMEOUT :: span where "DEFAULT_TIMEOUT = 60 * 1000000000"

datatype pipe_read = Bytes string | Interrupted | ReadFailed

text \<open>
  What the nth read of a pipe answers; no bytes are its end, which comes when every process that
  holds the writing end has closed it. The reader goes on until then: what is over the cap is read
  and dropped. \<open>Some None\<close> is a failed read, \<open>None\<close> a pipe that does not end.
\<close>

type_synonym pipe = "nat \<Rightarrow> pipe_read"

partial_function (option) read_capped_from :: "nat \<Rightarrow> pipe \<Rightarrow> string \<Rightarrow> nat \<Rightarrow> string option option" where
  "read_capped_from cap rd buf n =
     (case rd n of
        Bytes chunk \<Rightarrow>
          if chunk = [] then Some (Some buf)
          else
            let room = cap - length buf in
            if room = 0 then read_capped_from cap rd buf (Suc n)
            else read_capped_from cap rd (buf @ take (min (length chunk) room) chunk) (Suc n)
      | Interrupted \<Rightarrow> read_capped_from cap rd buf (Suc n)
      | ReadFailed \<Rightarrow> Some None)"

definition read_capped_pipe :: "pipe option \<Rightarrow> nat \<Rightarrow> string option option" where
  "read_capped_pipe p cap = (case p of None \<Rightarrow> Some (Some []) | Some rd \<Rightarrow> read_capped_from cap rd [] 0)"

text \<open>\<open>lossy\<close> is \<open>String::from_utf8_lossy\<close>.\<close>

definition push_utf8_capped :: "(string \<Rightarrow> string) \<Rightarrow> string \<Rightarrow> string \<Rightarrow> nat \<Rightarrow> string" where
  "push_utf8_capped lossy dst bytes cap =
     (if cap = 0 \<or> bytes = [] then dst
      else
        let t = lossy bytes; room = cap - length dst in
        if length t \<le> room then dst @ t
        else dst @ take (boundary_from t (min room (length t))) t)"

definition combine_output :: "(string \<Rightarrow> string) \<Rightarrow> nat \<Rightarrow> string \<Rightarrow> string \<Rightarrow> string" where
  "combine_output lossy cap out err =
     (let c = push_utf8_capped lossy [] out cap in
      if err = [] then c
      else
        let c2 = (if c = [] then c else c @ [CHR 10]) in
        push_utf8_capped lossy c2 err (cap - length c2))"

section \<open>A launch\<close>

record launch_config =
  lc_command :: string
  lc_args :: "string list"
  lc_workdir :: "string option"
  lc_timeout :: span
  lc_output_cap :: nat
  lc_run_id :: uuid
  lc_cancel :: "(nat \<Rightarrow> bool) option"

record launch_outcome =
  lo_exit_code :: "int option"
  lo_timed_out :: bool
  lo_killed :: bool
  lo_cancelled :: bool
  lo_output :: string
  lo_duration :: span

datatype launch_error = Spawn string | LaunchIo string

definition launch_error_text :: "launch_error \<Rightarrow> string" where
  "launch_error_text e = (case e of Spawn s \<Rightarrow> s | LaunchIo s \<Rightarrow> s)"

datatype child_look = Exited "int option" | StillRunning | WaitFailed string

record child =
  spawn_error :: "string option"
  try_wait :: "nat \<Rightarrow> child_look"
  elapsed :: "nat \<Rightarrow> span"
  reaped :: "string + int option"
  stdout_pipe :: "pipe option"
  stderr_pipe :: "pipe option"
  lossy :: "string \<Rightarrow> string"
  ran_for :: span

text \<open>The wait loop from its nth look: the exit status and the flags timed out, killed, cancelled.\<close>

partial_function (option) launch_wait ::
  "launch_config \<Rightarrow> child \<Rightarrow> nat \<Rightarrow> (launch_error + int option \<times> bool \<times> bool \<times> bool) option" where
  "launch_wait cfg ch n =
     (case try_wait ch n of
        Exited status \<Rightarrow> Some (Inr (status, False, False, False))
      | WaitFailed e \<Rightarrow> Some (Inl (LaunchIo (''try_wait: '' @ e)))
      | StillRunning \<Rightarrow>
          if (case lc_cancel cfg of None \<Rightarrow> False | Some c \<Rightarrow> c n) then
            Some (case reaped ch of
                Inl e \<Rightarrow> Inl (LaunchIo (''wait after cancel kill: '' @ e))
              | Inr status \<Rightarrow> Inr (status, False, True, True))
          else if lc_timeout cfg \<le> elapsed ch n then
            Some (case reaped ch of
                Inl e \<Rightarrow> Inl (LaunchIo (''wait after kill: '' @ e))
              | Inr status \<Rightarrow> Inr (status, True, True, False))
          else launch_wait cfg ch (Suc n))"

text \<open>Joining a reader: an error counts as no output.\<close>

definition pipe_bytes :: "pipe option \<Rightarrow> nat \<Rightarrow> string option" where
  "pipe_bytes p cap = map_option (case_option [] (\<lambda>b. b)) (read_capped_pipe p cap)"

definition run_launch :: "launch_config \<Rightarrow> child \<Rightarrow> (launch_error + launch_outcome) option" where
  "run_launch cfg ch =
     (case spawn_error ch of
        Some e \<Rightarrow> Some (Inl (Spawn (''spawn '' @ [CHR 39] @ lc_command cfg @ [CHR 39] @ '': '' @ e)))
      | None \<Rightarrow>
          (case launch_wait cfg ch 0 of
             None \<Rightarrow> None
           | Some (Inl e) \<Rightarrow> Some (Inl e)
           | Some (Inr (status, timed_out, killed, cancelled)) \<Rightarrow>
               do { out \<leftarrow> pipe_bytes (stdout_pipe ch) (lc_output_cap cfg);
                    err \<leftarrow> pipe_bytes (stderr_pipe ch) (lc_output_cap cfg div 2);
                    Some (Inr \<lparr> lo_exit_code = status, lo_timed_out = timed_out, lo_killed = killed,
                      lo_cancelled = cancelled, lo_output = combine_output (lossy ch) (lc_output_cap cfg) out err,
                      lo_duration = ran_for ch \<rparr>) }))"

section \<open>One attempt\<close>

record executor_config =
  launch_timeout :: span
  output_cap :: nat
  skip_retry_sleep :: bool

definition executor_default :: executor_config where
  "executor_default = \<lparr> launch_timeout = DEFAULT_TIMEOUT, output_cap = DEFAULT_OUTPUT_CAP_BYTES,
     skip_retry_sleep = False \<rparr>"

datatype exec_outcome = ExecDelivered string nat | ExecFailed string nat | ExecCancelled

definition CANCELLED :: string where "CANCELLED = ''cancelled by overlap policy (replace)''"

text \<open>The three bytes of the ellipsis.\<close>

definition truncate_utf8 :: "string \<Rightarrow> nat \<Rightarrow> string" where
  "truncate_utf8 s cap =
     (if length s \<le> cap then s
      else take (boundary_from s (min cap (length s))) s @ [CHR 0xE2, CHR 0x80, CHR 0xA6])"

definition int_text :: "int \<Rightarrow> string" where
  "int_text i = (if i < 0 then CHR ''-'' # decimal (nat (- i)) else decimal (nat i))"

text \<open>\<open>Debug\<close> of a duration and of a string, the notification sink's answer and whether it is the stub.\<close>

record sink =
  debug_span :: "span \<Rightarrow> string"
  debug_str :: "string \<Rightarrow> string"
  shown_title :: "string \<Rightarrow> string \<Rightarrow> string"
  is_stub :: bool

definition bool_text :: "bool \<Rightarrow> string" where
  "bool_text b = (if b then ''true'' else ''false'')"

definition launch_result :: "sink \<Rightarrow> span \<Rightarrow> launch_outcome \<Rightarrow> string + string" where
  "launch_result K timeout o1 =
     (if lo_cancelled o1 then Inl CANCELLED
      else if lo_timed_out o1 then
        Inl (''launch timed out after '' @ debug_span K timeout @ '' (killed='' @ bool_text (lo_killed o1) @ '')'')
      else
        (case lo_exit_code o1 of
           None \<Rightarrow> Inl ''launch exited by signal''
         | Some code \<Rightarrow>
             if code = 0 then Inr (''launch ok exit=0 duration='' @ debug_span K (lo_duration o1))
             else Inl (''launch exit='' @ int_text code @ '' output='' @ truncate_utf8 (lo_output o1) 200)))"

text \<open>One attempt runs under a permit of the limiter.\<close>

definition execute_once ::
  "executor_config \<Rightarrow> sink \<Rightarrow> timer \<Rightarrow> uuid \<Rightarrow> (nat \<Rightarrow> bool) \<Rightarrow> child \<Rightarrow> (string + string) option" where
  "execute_once X K t run_id cancel ch =
     (case t_action t of
        NoAction \<Rightarrow> Some (Inr ''action=none'')
      | Launch command args workdir \<Rightarrow>
          (case run_launch \<lparr> lc_command = command, lc_args = args, lc_workdir = workdir,
              lc_timeout = launch_timeout X, lc_output_cap = output_cap X, lc_run_id = run_id,
              lc_cancel = Some cancel \<rparr> ch of
             None \<Rightarrow> None
           | Some (Inl e) \<Rightarrow> Some (Inl (launch_error_text e))
           | Some (Inr o1) \<Rightarrow> Some (launch_result K (launch_timeout X) o1))
      | Notify title body \<Rightarrow>
          Some (Inr ((if is_stub K then ''notify stub'' else ''notify'') @ '' title='' @
            debug_str K (shown_title K title body))))"

section \<open>Retries\<close>

text \<open>
  What the nth attempt meets: the token before it, the token at each look of the launch, the child,
  the clock and the token at each look of the backoff after it.
\<close>

record attempt_env =
  cancelled_before :: bool
  cancel_look :: "nat \<Rightarrow> bool"
  at_child :: child
  waited :: "nat \<Rightarrow> span"
  cancel_backoff :: "nat \<Rightarrow> bool"

text \<open>The cancellable backoff from its nth look: whether it was cancelled.\<close>

partial_function (option) backoff :: "span \<Rightarrow> (nat \<Rightarrow> span) \<Rightarrow> (nat \<Rightarrow> bool) \<Rightarrow> nat \<Rightarrow> bool option" where
  "backoff delay clock cancel n =
     (if delay \<le> clock n then Some False
      else if cancel n then Some True
      else backoff delay clock cancel (Suc n))"

text \<open>The attempts from number \<open>attempt\<close>, of which \<open>left\<close> may still fail and be retried.\<close>

fun execute_from ::
  "executor_config \<Rightarrow> sink \<Rightarrow> timer \<Rightarrow> uuid \<Rightarrow> (nat \<Rightarrow> attempt_env) \<Rightarrow> nat \<Rightarrow> nat \<Rightarrow> exec_outcome option" where
  "execute_from X K t run_id A attempt left =
     (let a = A attempt in
      if cancelled_before a then Some ExecCancelled
      else
        case execute_once X K t run_id (cancel_look a) (at_child a) of
          None \<Rightarrow> None
        | Some (Inr m) \<Rightarrow> Some (ExecDelivered m attempt)
        | Some (Inl e) \<Rightarrow>
            if e = CANCELLED then Some ExecCancelled
            else
              (case left of
                 0 \<Rightarrow> Some (ExecFailed e attempt)
               | Suc m \<Rightarrow>
                   let delay = delay_secs (t_retry t) * 1000000000 in
                   if \<not> skip_retry_sleep X \<and> delay \<noteq> 0 then
                     (case backoff delay (waited a) (cancel_backoff a) 0 of
                        None \<Rightarrow> None
                      | Some True \<Rightarrow> Some ExecCancelled
                      | Some False \<Rightarrow> execute_from X K t run_id A (Suc attempt) m)
                   else execute_from X K t run_id A (Suc attempt) m))"

declare execute_from.simps [simp del]

definition execute ::
  "executor_config \<Rightarrow> sink \<Rightarrow> timer \<Rightarrow> uuid \<Rightarrow> (nat \<Rightarrow> attempt_env) \<Rightarrow> exec_outcome option" where
  "execute X K t run_id A = execute_from X K t run_id A 0 (max_retries (t_retry t))"

section \<open>Output bounds\<close>

text \<open>A pipe ends when some read finds its end or fails; only then does its reader return.\<close>

definition ends_at :: "pipe \<Rightarrow> nat \<Rightarrow> bool" where
  "ends_at rd n \<longleftrightarrow> rd n = Bytes [] \<or> rd n = ReadFailed"

lemma read_capped_returns:
  assumes "ends_at rd m" "n \<le> m"
  shows "read_capped_from cap rd buf n \<noteq> None"
  using assms(2)
proof (induction n arbitrary: buf rule: inc_induct)
  case base
  then show ?case by (subst read_capped_from.simps) (use assms(1) in \<open>auto simp: ends_at_def\<close>)
next
  case (step n)
  then show ?case
    by (subst read_capped_from.simps) (auto simp: Let_def split: pipe_read.split)
qed

lemma read_capped_ended: "read_capped_from cap rd buf n = Some r \<Longrightarrow> \<exists>m. ends_at rd m"
proof (rule read_capped_from.raw_induct [where P = "\<lambda>_ rd _ _ _. \<exists>m. ends_at rd m"])
  fix f :: "nat \<Rightarrow> pipe \<Rightarrow> string \<Rightarrow> nat \<Rightarrow> string option option" and cap rd buf n r
  assume ih: "\<And>cap rd buf n r. f cap rd buf n = Some r \<Longrightarrow> \<exists>m. ends_at rd m"
    and step: "(case rd n of
        Bytes chunk \<Rightarrow>
          if chunk = [] then Some (Some buf)
          else
            let room = cap - length buf in
            if room = 0 then f cap rd buf (Suc n)
            else f cap rd (buf @ take (min (length chunk) room) chunk) (Suc n)
      | Interrupted \<Rightarrow> f cap rd buf (Suc n)
      | ReadFailed \<Rightarrow> Some None) = Some r"
  then show "\<exists>m. ends_at rd m"
    by (cases "rd n") (auto simp: Let_def ends_at_def split: if_splits)
qed

definition pipe_closed :: "pipe option \<Rightarrow> bool" where
  "pipe_closed p \<longleftrightarrow> (case p of None \<Rightarrow> True | Some rd \<Rightarrow> \<exists>n. ends_at rd n)"

lemma pipe_bytes_returns: "(\<exists>b. pipe_bytes p cap = Some b) \<longleftrightarrow> pipe_closed p"
  using read_capped_returns [of _ _ 0] read_capped_ended
  by (fastforce simp: pipe_bytes_def read_capped_pipe_def pipe_closed_def split: option.split)

lemma push_utf8_capped_length:
  "length (push_utf8_capped f dst bytes cap) \<le> max (length dst) cap"
proof -
  have "boundary_from (f bytes) (min (cap - length dst) (length (f bytes))) \<le> cap - length dst"
    using boundary_from_le [of "f bytes"] by (meson le_trans min.cobounded1)
  then show ?thesis by (auto simp: push_utf8_capped_def Let_def)
qed

lemma combine_output_length: "length (combine_output f cap out err) \<le> cap + 1"
proof -
  define c where "c = push_utf8_capped f [] out cap"
  have c: "length c \<le> cap" using push_utf8_capped_length [of f "[]" out cap] by (simp add: c_def)
  define c2 where "c2 = (if c = [] then c else c @ [CHR 10])"
  have "length c2 \<le> cap + 1" using c by (simp add: c2_def)
  then show ?thesis
    using push_utf8_capped_length [of f c2 err "cap - length c2"] c
    by (auto simp: combine_output_def Let_def c_def [symmetric] c2_def [symmetric])
qed

section \<open>The wait loop\<close>

lemma launch_wait_returns:
  assumes "lc_timeout cfg \<le> elapsed ch m" "n \<le> m"
  shows "launch_wait cfg ch n \<noteq> None"
  using assms(2)
proof (induction n rule: inc_induct)
  case base
  then show ?case by (subst launch_wait.simps) (use assms(1) in \<open>auto split: child_look.splits\<close>)
next
  case (step n)
  then show ?case by (subst launch_wait.simps) (auto split: child_look.splits)
qed

lemma backoff_returns:
  assumes "delay \<le> clock m" "n \<le> m"
  shows "backoff delay clock cancel n \<noteq> None"
  using assms(2)
proof (induction n rule: inc_induct)
  case base
  then show ?case by (subst backoff.simps) (use assms(1) in simp)
next
  case (step n)
  then show ?case by (subst backoff.simps) (auto intro: exI [of _ True] exI [of _ False])
qed

definition launch_flags :: "launch_error + int option \<times> bool \<times> bool \<times> bool \<Rightarrow> bool" where
  "launch_flags r \<longleftrightarrow> (case r of Inl _ \<Rightarrow> True | Inr (status, timed_out, killed, cancelled) \<Rightarrow>
     killed = (timed_out \<or> cancelled) \<and> \<not> (timed_out \<and> cancelled))"

lemma launch_wait_flags: "launch_wait cfg ch n = Some r \<Longrightarrow> launch_flags r"
proof (rule launch_wait.raw_induct [where P = "\<lambda>_ _ _. launch_flags"])
  fix f :: "launch_config \<Rightarrow> child \<Rightarrow> nat \<Rightarrow> (launch_error + int option \<times> bool \<times> bool \<times> bool) option"
    and cfg ch n r
  assume ih: "\<And>cfg ch n r. f cfg ch n = Some r \<Longrightarrow> launch_flags r"
    and step: "(case try_wait ch n of
        Exited status \<Rightarrow> Some (Inr (status, False, False, False))
      | WaitFailed e \<Rightarrow> Some (Inl (LaunchIo (''try_wait: '' @ e)))
      | StillRunning \<Rightarrow>
          if (case lc_cancel cfg of None \<Rightarrow> False | Some c \<Rightarrow> c n) then
            Some (case reaped ch of
                Inl e \<Rightarrow> Inl (LaunchIo (''wait after cancel kill: '' @ e))
              | Inr status \<Rightarrow> Inr (status, False, True, True))
          else if lc_timeout cfg \<le> elapsed ch n then
            Some (case reaped ch of
                Inl e \<Rightarrow> Inl (LaunchIo (''wait after kill: '' @ e))
              | Inr status \<Rightarrow> Inr (status, True, True, False))
          else f cfg ch (Suc n)) = Some r"
  then show "launch_flags r"
    by (cases "try_wait ch n"; cases "reaped ch")
      (auto simp: launch_flags_def [of "Inl _"] launch_flags_def [of "Inr (_, _, _, _)"] split: if_splits)
qed

section \<open>The properties\<close>

text \<open>C24: When a launch returns. Once the clock has reached the timeout at some look, the wait for the
  child is over, whatever the child does (a killed child can be reaped); the call then returns if and only if it failed in the wait or
  both captured pipes are closed by every process that holds them: a descendant that survives
  with a pipe open holds the call beyond its timeout. In an outcome the child was killed exactly
  when it ran into the timeout or was cancelled, never both, and the captured output is at
  most one byte longer than the cap (the separator that is added when the standard output filled it).\<close>

theorem launch_ends:
  assumes "lc_timeout cfg \<le> elapsed ch m"
  shows "(spawn_error ch = None \<longrightarrow> (\<exists>w. launch_wait cfg ch 0 = Some w \<and>
      ((\<exists>r. run_launch cfg ch = Some r) \<longleftrightarrow>
        (\<exists>e. w = Inl e) \<or> pipe_closed (stdout_pipe ch) \<and> pipe_closed (stderr_pipe ch)))) \<and>
    (spawn_error ch \<noteq> None \<longrightarrow> (\<exists>e. run_launch cfg ch = Some (Inl e))) \<and>
    (\<forall>o1. run_launch cfg ch = Some (Inr o1) \<longrightarrow>
       lo_killed o1 = (lo_timed_out o1 \<or> lo_cancelled o1) \<and>
       \<not> (lo_timed_out o1 \<and> lo_cancelled o1) \<and> length (lo_output o1) \<le> lc_output_cap cfg + 1)"
proof (cases "spawn_error ch")
  case None
  from launch_wait_returns [OF assms, of 0] obtain r where r: "launch_wait cfg ch 0 = Some r" by blast
  show ?thesis
  proof (cases r)
    case (Inr x)
    obtain status timed_out killed cancelled where x: "x = (status, timed_out, killed, cancelled)"
      by (cases x) auto
    have "(\<exists>r. run_launch cfg ch = Some r) \<longleftrightarrow> pipe_closed (stdout_pipe ch) \<and> pipe_closed (stderr_pipe ch)"
      unfolding pipe_bytes_returns [of "stdout_pipe ch" "lc_output_cap cfg", symmetric]
        pipe_bytes_returns [of "stderr_pipe ch" "lc_output_cap cfg div 2", symmetric]
      using r Inr x None by (auto simp: run_launch_def bind_Some pipe_bytes_def)
    with launch_wait_flags [OF r] r Inr x combine_output_length None
    show ?thesis by (auto simp: run_launch_def launch_flags_def bind_Some)
  qed (use r None in \<open>simp add: run_launch_def\<close>)
qed (simp add: run_launch_def)

text \<open>What the attempts before number \<open>n\<close> met: none was cancelled, each failed, each backoff ran out.\<close>

definition attempt_fails ::
  "executor_config \<Rightarrow> sink \<Rightarrow> timer \<Rightarrow> uuid \<Rightarrow> attempt_env \<Rightarrow> string \<Rightarrow> bool" where
  "attempt_fails X K t run_id a e \<longleftrightarrow> \<not> cancelled_before a \<and> e \<noteq> CANCELLED \<and>
     execute_once X K t run_id (cancel_look a) (at_child a) = Some (Inl e)"

lemma execute_from_outcome:
  assumes "execute_from X K t run_id A attempt left = Some r"
  shows "(\<forall>m n. r = ExecDelivered m n \<longrightarrow> attempt \<le> n \<and> n \<le> attempt + left \<and>
        (\<forall>i. attempt \<le> i \<and> i < n \<longrightarrow> (\<exists>e. attempt_fails X K t run_id (A i) e)) \<and>
        execute_once X K t run_id (cancel_look (A n)) (at_child (A n)) = Some (Inr m)) \<and>
     (\<forall>e n. r = ExecFailed e n \<longrightarrow> n = attempt + left \<and> attempt_fails X K t run_id (A n) e \<and>
        (\<forall>i. attempt \<le> i \<and> i < n \<longrightarrow> (\<exists>e. attempt_fails X K t run_id (A i) e)))"
  using assms
proof (induction left arbitrary: attempt rule: less_induct)
  case (less left attempt)
  define a where "a = A attempt"
  define delay where "delay = delay_secs (t_retry t) * 1000000000"
  note run = less.prems [unfolded execute_from.simps [of X K t run_id A attempt left] Let_def,
    folded a_def delay_def]
  show ?case
  proof (cases "cancelled_before a")
    case True
    with run show ?thesis by simp
  next
    case go: False
    then obtain once where once: "execute_once X K t run_id (cancel_look a) (at_child a) = Some once"
      using run by (cases "execute_once X K t run_id (cancel_look a) (at_child a)") auto
    show ?thesis
    proof (cases once)
      case (Inr m)
      with run go once show ?thesis by (auto simp: a_def)
    next
      case (Inl e)
      show ?thesis
      proof (cases "e = CANCELLED")
        case True
        with run go once Inl show ?thesis by simp
      next
        case False
        with go once Inl have f: "attempt_fails X K t run_id a e" by (simp add: attempt_fails_def)
        show ?thesis
        proof (cases left)
          case 0
          with run go once Inl False f show ?thesis by (auto simp: a_def)
        next
          case (Suc k)
          with run go once Inl False have "r = ExecCancelled \<or> execute_from X K t run_id A (Suc attempt) k = Some r"
            by (simp split: if_splits option.splits bool.splits)
          then show ?thesis
          proof
            assume rec: "execute_from X K t run_id A (Suc attempt) k = Some r"
            have earlier: "\<exists>e. attempt_fails X K t run_id (A i) e" if "attempt \<le> i" "i < n"
                "\<forall>i. Suc attempt \<le> i \<and> i < n \<longrightarrow> (\<exists>e. attempt_fails X K t run_id (A i) e)" for i n
              using that f by (cases "i = attempt") (auto simp: a_def)
            show ?thesis using less.IH [OF _ rec] Suc earlier by fastforce
          qed simp
        qed
      qed
    qed
  qed
qed

text \<open>The retries are exact: a run reported delivered after n retries had n failed attempts before the
  one that succeeded, and n is at most the timer's maximum; a run reported failed used up every retry,
  each attempt failed, and the error is that of the last one.\<close>

theorem execute_retries_exact:
  assumes "execute X K t run_id A = Some r"
  shows "(\<forall>m n. r = ExecDelivered m n \<longrightarrow> n \<le> max_retries (t_retry t) \<and>
        (\<forall>i<n. \<exists>e. attempt_fails X K t run_id (A i) e) \<and>
        execute_once X K t run_id (cancel_look (A n)) (at_child (A n)) = Some (Inr m)) \<and>
     (\<forall>e n. r = ExecFailed e n \<longrightarrow> n = max_retries (t_retry t) \<and> attempt_fails X K t run_id (A n) e \<and>
        (\<forall>i<n. \<exists>e. attempt_fails X K t run_id (A i) e))"
  using execute_from_outcome [OF assms [unfolded execute_def]] by auto

section \<open>Witnesses\<close>

text \<open>A child that is still running at its first look and exits with status 0 at the second.\<close>

definition sample_child :: child where
  "sample_child = \<lparr> spawn_error = None, try_wait = (\<lambda>n. if n = 0 then StillRunning else Exited (Some 0)),
     elapsed = (\<lambda>n. 20000000 * n), reaped = Inr None, stdout_pipe = Some (\<lambda>n. Bytes (if n = 0 then ''ok'' else [])),
     stderr_pipe = None, lossy = (\<lambda>b. b), ran_for = 25000000 \<rparr>"

theorem launch_ends_witness:
  "\<exists>r. run_launch \<lparr> lc_command = ''true'', lc_args = [], lc_workdir = None, lc_timeout = 40000000,
      lc_output_cap = 4, lc_run_id = 7, lc_cancel = None \<rparr> sample_child = Some r"
proof -
  let ?cfg = "\<lparr> lc_command = ''true'', lc_args = [], lc_workdir = None, lc_timeout = 40000000,
      lc_output_cap = 4, lc_run_id = 7, lc_cancel = None \<rparr>"
  have "lc_timeout ?cfg \<le> elapsed sample_child 2" by (simp add: sample_child_def)
  moreover have "spawn_error sample_child = None" "pipe_closed (stdout_pipe sample_child)"
    "pipe_closed (stderr_pipe sample_child)"
    by (auto simp: sample_child_def pipe_closed_def ends_at_def)
  ultimately show ?thesis using launch_ends [of ?cfg sample_child 2] by blast
qed

text \<open>A child that exits at once while a process it left behind keeps the output open: no return.\<close>

lemma survivor_blocks_launch:
  "run_launch cfg (sample_child\<lparr>try_wait := \<lambda>_. Exited (Some 0), stdout_pipe := Some (\<lambda>_. Interrupted)\<rparr>) = None"
proof -
  let ?ch = "sample_child\<lparr>try_wait := \<lambda>_. Exited (Some 0), stdout_pipe := Some (\<lambda>_. Interrupted)\<rparr>"
  have "\<not> pipe_closed (stdout_pipe ?ch)" by (simp add: pipe_closed_def ends_at_def)
  then have "pipe_bytes (stdout_pipe ?ch) n = None" for n
    using pipe_bytes_returns [of "stdout_pipe ?ch" n] by (cases "pipe_bytes (stdout_pipe ?ch) n") auto
  moreover have "launch_wait cfg ?ch 0 = Some (Inr (Some 0, False, False, False))"
    by (subst launch_wait.simps) simp
  moreover have "spawn_error ?ch = None" by (simp add: sample_child_def)
  ultimately show ?thesis by (simp add: run_launch_def)
qed

definition quiet_sink :: sink where
  "quiet_sink = \<lparr> debug_span = (\<lambda>_. ''1s''), debug_str = (\<lambda>s. s), shown_title = (\<lambda>t b. t), is_stub = True \<rparr>"

definition calm_attempt :: attempt_env where
  "calm_attempt = \<lparr> cancelled_before = False, cancel_look = (\<lambda>_. False), at_child = sample_child,
     waited = (\<lambda>n. 20000000 * n), cancel_backoff = (\<lambda>_. False) \<rparr>"

theorem execute_retries_exact_witness:
  "execute executor_default quiet_sink sample_timer 7 (\<lambda>_. calm_attempt) = Some (ExecDelivered ''action=none'' 0) \<and>
     execute_once executor_default quiet_sink sample_timer 7 (cancel_look calm_attempt) (at_child calm_attempt) = Some (Inr ''action=none'')"
proof -
  have r: "execute executor_default quiet_sink sample_timer 7 (\<lambda>_. calm_attempt) = Some (ExecDelivered ''action=none'' 0)"
    by (simp add: execute_def execute_from.simps calm_attempt_def execute_once_def
        sample_timer_def sample_new_def new_timer_new_def new_timer_row_def timer_row_def)
  from execute_retries_exact [OF r] r show ?thesis by simp
qed

end
