(* ===== verification/Dispatcher.thy ===== *)
theory Dispatcher
  imports Publication Action_Executor
begin

text \<open>
  The bounded fire dispatcher (\<open>actions/dispatcher.rs\<close>): the lanes of a timer's claims, the hint
  channel, the pump and the workers. The database is the site's store; a worker's job is cut where
  another thread can come between, at every store call and at every lock of the lanes, and the
  steps of all threads form the relation \<open>dispatch_step\<close>. The order in which a pass visits the
  timers is that of a hash map: any order. Every store call that may fail with a database error
  does so as a step of its own.
\<close>

section \<open>State\<close>

record dispatch_config =
  d_data_dir :: "string option"
  d_max_concurrent_actions :: nat
  d_ipc :: "ipc_handle option"

definition worker_count :: "dispatch_config \<Rightarrow> nat" where
  "worker_count D = max (d_max_concurrent_actions D) 1"

definition queue_cap :: "dispatch_config \<Rightarrow> nat" where
  "queue_cap D = max (2 * worker_count D) 1"

datatype dispatch_phase = Primed | Started | Stopping

text \<open>A lane: the hints sent, the runs a worker took, the address of each run's token.\<close>

record lane =
  queued :: "uuid list"
  active :: "uuid list"
  tokens :: "(uuid \<times> nat) list"

definition empty_lane :: lane where "empty_lane = \<lparr> queued = [], active = [], tokens = [] \<rparr>"

definition in_lane :: "lane \<Rightarrow> nat" where
  "in_lane l = length (queued l) + length (active l)"

text \<open>
  Where a worker is in its job: idle, holding a hint, having read a pending claim, having activated
  it, having entered the lane (with its token), executing, with a result to commit (the event it
  will enqueue is fixed by then), done and about to leave the lane, exited.
\<close>

datatype worker =
    Idle
  | Hinted uuid
  | Loaded run_claim
  | Activated run_claim
  | Entered run_claim nat
  | Executing run_claim nat timer
  | Reporting run_claim run_outcome string event
  | Finishing uuid uuid
  | Exited_worker

record dispatch = site +
  lanes :: "(uuid \<times> lane) list"
  channel :: "uuid list"
  channel_open :: bool
  phase :: dispatch_phase
  owns_lock :: bool
  flags :: "bool list"
  workers :: "worker list"
  scanned :: "(uuid \<times> run_claim list) list option"

definition lane_of :: "uuid \<Rightarrow> dispatch \<Rightarrow> lane" where
  "lane_of i d = (case hm_get i (lanes d) of None \<Rightarrow> empty_lane | Some l \<Rightarrow> l)"

definition put_lane :: "uuid \<Rightarrow> lane \<Rightarrow> dispatch \<Rightarrow> dispatch" where
  "put_lane i l d = d\<lparr>lanes := hm_put i l (lanes d)\<rparr>"

section \<open>Starting and stopping\<close>

text \<open>\<open>spawn\<close>; \<open>got\<close> is what the operating system's lock answered.\<close>

definition spawn_dispatcher :: "dispatch_config \<Rightarrow> bool \<Rightarrow> site \<Rightarrow> dispatch" where
  "spawn_dispatcher D got s = site.extend s \<lparr> lanes = [], channel = [], channel_open = True, phase = Primed,
     owns_lock = (d_data_dir D = None \<or> got), flags = [], workers = replicate (worker_count D) Idle,
     scanned = None \<rparr>"

text \<open>\<open>answer\<close> is the outcome of a try on the lock's file: an error, or whether it was free.\<close>

definition try_take_lock :: "dispatch_config \<Rightarrow> string + bool \<Rightarrow> dispatch \<Rightarrow> (string + bool) \<times> dispatch" where
  "try_take_lock D answer d =
     (if owns_lock d then (Inr True, d)
      else if d_data_dir D = None then (Inr True, d\<lparr>owns_lock := True\<rparr>)
      else
        (case answer of
           Inl e \<Rightarrow> (Inl e, d)
         | Inr got \<Rightarrow> (Inr got, if got then d\<lparr>owns_lock := True\<rparr> else d)))"

definition begin_startup :: "dispatch_config \<Rightarrow> string + bool \<Rightarrow> dispatch \<Rightarrow> dispatch" where
  "begin_startup D answer d =
     (case try_take_lock D answer d of
        (Inr True, d1) \<Rightarrow>
          (if d_data_dir D = None then d1 else d1\<lparr>db := snd (repend_all_active (db d1))\<rparr>)\<lparr>phase := Started\<rparr>
      | (_, d1) \<Rightarrow> d1)"

text \<open>The follower's turn of the pump loop: on the lock it recovers as a boot does.\<close>

definition follow_owner :: "dispatch_config \<Rightarrow> string + bool \<Rightarrow> dispatch \<Rightarrow> dispatch" where
  "follow_owner D answer d =
     (if d_data_dir D \<noteq> None \<and> \<not> owns_lock d then
        (case try_take_lock D answer d of
           (Inr True, d1) \<Rightarrow>
             if phase d1 \<noteq> Stopping
             then d1\<lparr>db := snd (repend_all_active (db d1)), phase := Started\<rparr> else d1
         | (_, d1) \<Rightarrow> d1)
      else d)"

text \<open>The first half of a shutdown: no new hints; the workers drain and exit.\<close>

definition stop_dispatcher :: "dispatch \<Rightarrow> dispatch" where
  "stop_dispatcher d = (if phase d = Stopping then d else d\<lparr>phase := Stopping, channel_open := False\<rparr>)"

section \<open>The pump\<close>

definition lane_limit :: "overlap_policy \<Rightarrow> nat" where
  "lane_limit p = (case p of OverlapSkip \<Rightarrow> 1 | QueueOne \<Rightarrow> 1 | Replace \<Rightarrow> 1 | Parallel cap \<Rightarrow> cap)"

text \<open>The tokens of the runs a replacing fire marked are signalled, in every lane.\<close>

definition cancel_tokens :: "uuid list \<Rightarrow> dispatch \<Rightarrow> dispatch" where
  "cancel_tokens ids d =
     d\<lparr>flags := map (\<lambda>(a, f). f \<or> (\<exists>(i, l)\<in>set (lanes d). \<exists>(r, a')\<in>set (tokens l). r \<in> set ids \<and> a' = a))
       (zip [0..<length (flags d)] (flags d))\<rparr>"

text \<open>\<open>tokens.entry(run_id).or_default()\<close>: the token's address.\<close>

definition token_entry :: "uuid \<Rightarrow> lane \<Rightarrow> dispatch \<Rightarrow> nat \<times> lane \<times> dispatch" where
  "token_entry run_id l d =
     (case hm_get run_id (tokens l) of
        Some a \<Rightarrow> (a, l, d)
      | None \<Rightarrow> (length (flags d), l\<lparr>tokens := hm_put run_id (length (flags d)) (tokens l)\<rparr>,
          d\<lparr>flags := flags d @ [False]\<rparr>))"

datatype scan_end = NextTimer | QueueFull | ChannelClosed

definition is_reserved :: "uuid \<Rightarrow> uuid \<Rightarrow> dispatch \<Rightarrow> bool" where
  "is_reserved timer_id run_id d \<longleftrightarrow>
     (case hm_get timer_id (lanes d) of None \<Rightarrow> False
      | Some l \<Rightarrow> run_id \<in> set (queued l) \<or> run_id \<in> set (active l))"

definition close_deleted :: "env \<Rightarrow> run_claim \<Rightarrow> dispatch \<Rightarrow> dispatch" where
  "close_deleted E c d =
     (let d1 = d\<lparr>draws := draws d + 1\<rparr> in
      case finish_run (utc_now E (draws d)) (r_id c) WakeFailed (Some ''timer_deleted'') (db d) of
        Inl _ \<Rightarrow> d1
      | Inr (_, s) \<Rightarrow> d1\<lparr>db := s\<rparr>)"

definition send_hint :: "uuid \<Rightarrow> uuid \<Rightarrow> lane \<Rightarrow> dispatch \<Rightarrow> dispatch" where
  "send_hint timer_id run_id l d =
     (let d1 = d\<lparr>channel := channel d @ [run_id]\<rparr>;
          (_, l1, d2) = token_entry run_id (l\<lparr>queued := queued l @ [run_id]\<rparr>) d1 in
      put_lane timer_id l1 d2)"

text \<open>The pending claims of one timer, oldest first.\<close>

fun dispatch_lane ::
  "env \<Rightarrow> dispatch_config \<Rightarrow> uuid \<Rightarrow> run_claim list \<Rightarrow> dispatch \<Rightarrow> scan_end \<times> dispatch" where
  "dispatch_lane E D timer_id [] d = (NextTimer, d)"
| "dispatch_lane E D timer_id (c # cs) d =
     (if is_reserved timer_id (r_id c) d then dispatch_lane E D timer_id cs d
      else
        case get_timer (db d) timer_id of
          None \<Rightarrow> dispatch_lane E D timer_id cs (close_deleted E c d)
        | Some t \<Rightarrow>
            let cap = lane_limit (t_overlap t) in
            if cap = 0 then dispatch_lane E D timer_id cs d
            else
              let l = lane_of timer_id d; d1 = put_lane timer_id l d in
              if cap \<le> in_lane l then (NextTimer, d1)
              else if \<not> channel_open d then (ChannelClosed, d1)
              else if length (channel d) < queue_cap D
              then dispatch_lane E D timer_id cs (send_hint timer_id (r_id c) l d1)
              else (QueueFull, d1))"

fun dispatch_timers ::
  "env \<Rightarrow> dispatch_config \<Rightarrow> (uuid \<times> run_claim list) list \<Rightarrow> dispatch \<Rightarrow> scan_end \<times> dispatch" where
  "dispatch_timers E D [] d = (NextTimer, d)"
| "dispatch_timers E D ((i, cs) # rest) d =
     (case dispatch_lane E D i cs d of
        (NextTimer, d1) \<Rightarrow> dispatch_timers E D rest d1
      | (stop, d1) \<Rightarrow> (stop, d1))"

text \<open>The claims grouped by timer, each group oldest event first; \<open>order\<close> is the map's.\<close>

definition grouped :: "uuid list \<Rightarrow> run_claim list \<Rightarrow> (uuid \<times> run_claim list) list" where
  "grouped order pending = map (\<lambda>i. (i, sort_key r_event_sequence (filter (\<lambda>c. r_timer c = i) pending))) order"

definition may_pump :: "dispatch_config \<Rightarrow> dispatch \<Rightarrow> bool" where
  "may_pump D d \<longleftrightarrow> owns_lock d \<or> d_data_dir D = None"

text \<open>The pass up to the scan of the pending claims.\<close>

definition pump_scan :: "dispatch_config \<Rightarrow> uuid list \<Rightarrow> dispatch \<Rightarrow> dispatch" where
  "pump_scan D order d =
     (if may_pump D d
      then (cancel_tokens (cancel_requested_active (db d)) d)\<lparr>scanned := Some (grouped order (pending_claims (db d)))\<rparr>
      else d)"

definition on_site :: "(site \<Rightarrow> ('a \<times> site) exec) \<Rightarrow> dispatch \<Rightarrow> ('a \<times> dispatch) exec" where
  "on_site f d = map_option (\<lambda>(a, s). (a, site.extend s (site.more d))) (f (site.truncate d))"

text \<open>The rest of the pass: the dispatch under the lock of the lanes, then the publication pump.\<close>

definition pump_dispatch ::
  "env \<Rightarrow> codec \<Rightarrow> faults \<Rightarrow> dispatch_config \<Rightarrow> dispatch \<Rightarrow> (scan_end \<times> dispatch) exec" where
  "pump_dispatch E C F D d =
     (case scanned d of
        None \<Rightarrow> ret (NextTimer, d)
      | Some groups \<Rightarrow>
          let (stop, d1) = dispatch_timers E D groups (d\<lparr>scanned := None\<rparr>) in
          if stop = ChannelClosed then ret (stop, d1)
          else
            (case d_data_dir D of
               None \<Rightarrow> ret (stop, d1)
             | Some dir \<Rightarrow>
                 do { (_, d2) \<leftarrow> on_site (pump E C F dir 8 (d_ipc D)) d1; ret (stop, d2) }))"

section \<open>The workers\<close>

definition retain_lane :: "uuid \<Rightarrow> lane \<Rightarrow> lane" where
  "retain_lane run_id l = l\<lparr>queued := filter (\<lambda>r. r \<noteq> run_id) (queued l)\<rparr>"

text \<open>The reservation of a stale hint goes from the first lane that queues it.\<close>

fun release_first :: "uuid \<Rightarrow> (uuid \<times> lane) list \<Rightarrow> (uuid \<times> lane) list" where
  "release_first run_id [] = []"
| "release_first run_id ((i, l) # ls) =
     (if run_id \<in> set (queued l)
      then (i, (retain_lane run_id l)\<lparr>tokens := hm_remove run_id (tokens l)\<rparr>) # ls
      else (i, l) # release_first run_id ls)"

definition release_queued :: "uuid \<Rightarrow> dispatch \<Rightarrow> dispatch" where
  "release_queued run_id d = d\<lparr>lanes := release_first run_id (lanes d)\<rparr>"

definition enter_lane :: "run_claim \<Rightarrow> dispatch \<Rightarrow> nat \<times> dispatch" where
  "enter_lane c d =
     (let l = lane_of (r_timer c) d;
          l1 = (retain_lane (r_id c) l)\<lparr>active := List.insert (r_id c) (active l)\<rparr>;
          (a, l2, d1) = token_entry (r_id c) l1 d in
      (a, put_lane (r_timer c) l2 d1))"

definition finish_lane :: "uuid \<Rightarrow> uuid \<Rightarrow> dispatch \<Rightarrow> dispatch" where
  "finish_lane timer_id run_id d =
     (case hm_get timer_id (lanes d) of
        None \<Rightarrow> d
      | Some l \<Rightarrow>
          let l1 = (retain_lane run_id l)\<lparr>active := filter (\<lambda>r. r \<noteq> run_id) (active l),
                     tokens := hm_remove run_id (tokens l)\<rparr> in
          if in_lane l1 = 0 then d\<lparr>lanes := hm_remove timer_id (lanes d)\<rparr> else put_lane timer_id l1 d)"

text \<open>The completion transaction: the claim's result with its event, unless it was finished before.\<close>

definition finish_claim :: "env \<Rightarrow> run_claim \<Rightarrow> run_outcome \<Rightarrow> string \<Rightarrow> event \<Rightarrow> dispatch \<Rightarrow> dispatch" where
  "finish_claim E c outcome reason e d =
     (let (hit, s) = finish_run_conn (utc_now E (draws d)) (r_id c) outcome reason (db d) in
      d\<lparr>draws := draws d + 1, db := if hit then enqueue_event e s else s\<rparr>)"

definition new_event :: "env \<Rightarrow> run_state \<Rightarrow> (event \<Rightarrow> event) \<Rightarrow> dispatch \<Rightarrow> event \<times> dispatch" where
  "new_event E k f d = (f (event_new (utc_now E (draws d)) (new_uuid E (draws d)) k), d\<lparr>draws := draws d + 1\<rparr>)"

text \<open>The claim is read: a missing one or one that is not pending is a stale hint.\<close>

definition job_load :: "uuid \<Rightarrow> dispatch \<Rightarrow> worker \<times> dispatch" where
  "job_load run_id d =
     (case get_run (db d) run_id of
        None \<Rightarrow> (Idle, release_queued run_id d)
      | Some c \<Rightarrow> if r_status c \<noteq> Pending then (Idle, release_queued run_id d) else (Loaded c, d))"

definition job_activate :: "run_claim \<Rightarrow> dispatch \<Rightarrow> worker \<times> dispatch" where
  "job_activate c d =
     (let (won, s) = activate_run (r_id c) (db d); d1 = d\<lparr>db := s\<rparr> in
      if won then (Activated c, d1) else (Idle, release_queued (r_id c) d1))"

definition job_enter :: "run_claim \<Rightarrow> dispatch \<Rightarrow> worker \<times> dispatch" where
  "job_enter c d = (let (a, d1) = enter_lane c d in (Entered c a, d1))"

text \<open>\<open>to_string\<close> of the timer's id names the timer of a claim whose row is gone.\<close>

definition job_timer :: "env \<Rightarrow> codec \<Rightarrow> run_claim \<Rightarrow> nat \<Rightarrow> dispatch \<Rightarrow> worker \<times> dispatch" where
  "job_timer E C c a d =
     (case get_timer (db d) (r_timer c) of
        Some t \<Rightarrow> (Executing c a t, d)
      | None \<Rightarrow>
          let (e, d1) = new_event E WakeFailedEv (\<lambda>e. with_message (with_scheduled_for (with_run
                (with_timer e (r_timer c) (uuid_text C (r_timer c))) (r_id c)) (r_scheduled_for c))
                ''timer_deleted'') d in
          (Reporting c WakeFailed ''timer_deleted'' e, d1))"

text \<open>What the executor answered; a panic returns the claim to pending.\<close>

definition job_executed ::
  "env \<Rightarrow> run_claim \<Rightarrow> timer \<Rightarrow> exec_outcome option \<Rightarrow> dispatch \<Rightarrow> worker \<times> dispatch" where
  "job_executed E c t outcome d =
     (let base = (\<lambda>e. with_scheduled_for (with_run (with_timer e (t_id t) (t_name t)) (r_id c)) (r_scheduled_for c)) in
      case outcome of
        None \<Rightarrow> (Finishing (r_timer c) (r_id c), d\<lparr>db := repend_run (r_id c) (db d)\<rparr>)
      | Some (ExecDelivered message attempts) \<Rightarrow>
          let (e, d1) = new_event E WakeDeliveredEv (\<lambda>e. with_count (with_message (base e) message) attempts) d in
          (Reporting c WakeDelivered message e, d1)
      | Some (ExecFailed err attempts) \<Rightarrow>
          let (e, d1) = new_event E WakeFailedEv (\<lambda>e. with_detail (with_count (with_message (with_error (base e) err)
                ''FAILED'') attempts) (json_object E [(''status'', JStr ''FAILED'')])) d in
          (Reporting c WakeFailed err e, d1)
      | Some ExecCancelled \<Rightarrow>
          let (e, d1) = new_event E WakeFailedEv (\<lambda>e. with_message (base e) ''overlap_replace'') d in
          (Reporting c WakeFailed ''overlap_replace'' e, d1))"

definition job_commit :: "env \<Rightarrow> run_claim \<Rightarrow> run_outcome \<Rightarrow> string \<Rightarrow> event \<Rightarrow> dispatch \<Rightarrow> worker \<times> dispatch" where
  "job_commit E c outcome reason e d =
     (Finishing (r_timer c) (r_id c), finish_claim E c outcome reason e d)"

definition job_timer_failed :: "run_claim \<Rightarrow> dispatch \<Rightarrow> worker \<times> dispatch" where
  "job_timer_failed c d = (Finishing (r_timer c) (r_id c), d\<lparr>db := repend_run (r_id c) (db d)\<rparr>)"

end
