(* ===== verification/Dispatcher_Laws.thy ===== *)
theory Dispatcher_Laws
  imports Dispatcher Publication_Properties
begin

text \<open>
  The threads of the dispatcher as a step relation, and the invariant that ties the lanes to the
  hint channel and the workers: each reservation stands for exactly one hint on its way or one
  worker, and no lane holds more than its timer's limit.
\<close>

section \<open>The steps\<close>

definition set_worker :: "nat \<Rightarrow> worker \<Rightarrow> dispatch \<Rightarrow> dispatch" where
  "set_worker i p d = d\<lparr>workers := (workers d)[i := p]\<rparr>"

text \<open>
  What every state of the database keeps while a dispatcher lives: a run belongs to one timer for
  ever, and no overlap policy the timer is given admits more than \<open>lim\<close> runs. A policy may be edited
  at any time below that.
\<close>

definition history_ok :: "(uuid \<Rightarrow> uuid) \<Rightarrow> (uuid \<Rightarrow> nat) \<Rightarrow> store \<Rightarrow> bool" where
  "history_ok tof lim s \<longleftrightarrow> (\<forall>c\<in>set (runs s). r_timer c = tof (r_id c)) \<and>
     (\<forall>t\<in>set (timers s). lane_limit (t_overlap t) \<le> lim (t_id t))"

inductive dispatch_step ::
  "env \<Rightarrow> codec \<Rightarrow> faults \<Rightarrow> dispatch_config \<Rightarrow> (uuid \<Rightarrow> uuid) \<Rightarrow> (uuid \<Rightarrow> nat) \<Rightarrow> dispatch \<Rightarrow> dispatch \<Rightarrow> bool"
  for E C F D tof lim where
  scan: "phase d = Started \<Longrightarrow> scanned d = None \<Longrightarrow> distinct order \<Longrightarrow>
    set order = r_timer ` set (pending_claims (db d)) \<Longrightarrow> dispatch_step E C F D tof lim d (pump_scan D order d)"
| pass: "pump_dispatch E C F D d = Some (stop, d') \<Longrightarrow> dispatch_step E C F D tof lim d d'"
| receive: "i < length (workers d) \<Longrightarrow> workers d ! i = Idle \<Longrightarrow> channel d = r # rest \<Longrightarrow>
    dispatch_step E C F D tof lim d (set_worker i (Hinted r) (d\<lparr>channel := rest\<rparr>))"
| leave: "i < length (workers d) \<Longrightarrow> workers d ! i = Idle \<Longrightarrow> channel d = [] \<Longrightarrow> \<not> channel_open d \<Longrightarrow>
    dispatch_step E C F D tof lim d (set_worker i Exited_worker d)"
| load: "i < length (workers d) \<Longrightarrow> workers d ! i = Hinted r \<Longrightarrow> job_load r d = (p, d') \<Longrightarrow>
    dispatch_step E C F D tof lim d (set_worker i p d')"
| load_failed: "i < length (workers d) \<Longrightarrow> workers d ! i = Hinted r \<Longrightarrow>
    dispatch_step E C F D tof lim d (set_worker i Idle (release_queued r d))"
| activate: "i < length (workers d) \<Longrightarrow> workers d ! i = Loaded c \<Longrightarrow> job_activate c d = (p, d') \<Longrightarrow>
    dispatch_step E C F D tof lim d (set_worker i p d')"
| activate_failed: "i < length (workers d) \<Longrightarrow> workers d ! i = Loaded c \<Longrightarrow>
    dispatch_step E C F D tof lim d (set_worker i Idle (release_queued (r_id c) d))"
| enter: "i < length (workers d) \<Longrightarrow> workers d ! i = Activated c \<Longrightarrow> job_enter c d = (p, d') \<Longrightarrow>
    dispatch_step E C F D tof lim d (set_worker i p d')"
| timer: "i < length (workers d) \<Longrightarrow> workers d ! i = Entered c a \<Longrightarrow> job_timer E C c a d = (p, d') \<Longrightarrow>
    dispatch_step E C F D tof lim d (set_worker i p d')"
| timer_failed: "i < length (workers d) \<Longrightarrow> workers d ! i = Entered c a \<Longrightarrow> job_timer_failed c d = (p, d') \<Longrightarrow>
    dispatch_step E C F D tof lim d (set_worker i p d')"
| executed: "i < length (workers d) \<Longrightarrow> workers d ! i = Executing c a t \<Longrightarrow> job_executed E c t outcome d = (p, d') \<Longrightarrow>
    dispatch_step E C F D tof lim d (set_worker i p d')"
| commit: "i < length (workers d) \<Longrightarrow> workers d ! i = Reporting c outcome reason e \<Longrightarrow>
    job_commit E c outcome reason e d = (p, d') \<Longrightarrow> dispatch_step E C F D tof lim d (set_worker i p d')"
| commit_failed: "i < length (workers d) \<Longrightarrow> workers d ! i = Reporting c outcome reason e \<Longrightarrow>
    dispatch_step E C F D tof lim d (set_worker i (Finishing (r_timer c) (r_id c)) d)"
| finish: "i < length (workers d) \<Longrightarrow> workers d ! i = Finishing timer_id run_id \<Longrightarrow>
    dispatch_step E C F D tof lim d (set_worker i Idle (finish_lane timer_id run_id d))"
| startup: "dispatch_step E C F D tof lim d (begin_startup D answer d)"
| follow: "dispatch_step E C F D tof lim d (follow_owner D answer d)"
| stop: "dispatch_step E C F D tof lim d (stop_dispatcher d)"
| outside: "history_ok tof lim s \<Longrightarrow> dispatch_step E C F D tof lim d (d\<lparr>db := s\<rparr>)"

section \<open>Hints and workers\<close>

fun hint_of :: "worker \<Rightarrow> uuid multiset" where
  "hint_of (Hinted r) = {#r#}"
| "hint_of (Loaded c) = {#r_id c#}"
| "hint_of (Activated c) = {#r_id c#}"
| "hint_of _ = {#}"

fun taken_of :: "worker \<Rightarrow> uuid multiset" where
  "taken_of (Entered c a) = {#r_id c#}"
| "taken_of (Executing c a t) = {#r_id c#}"
| "taken_of (Reporting c o1 reason e) = {#r_id c#}"
| "taken_of (Finishing i r) = {#r#}"
| "taken_of _ = {#}"

fun claim_known :: "(uuid \<Rightarrow> uuid) \<Rightarrow> worker \<Rightarrow> bool" where
  "claim_known tof (Loaded c) = (r_timer c = tof (r_id c))"
| "claim_known tof (Activated c) = (r_timer c = tof (r_id c))"
| "claim_known tof (Entered c a) = (r_timer c = tof (r_id c))"
| "claim_known tof (Executing c a t) = (r_timer c = tof (r_id c))"
| "claim_known tof (Reporting c o1 reason e) = (r_timer c = tof (r_id c))"
| "claim_known tof (Finishing i r) = (i = tof r)"
| "claim_known tof _ = True"

definition ids_of :: "(worker \<Rightarrow> uuid multiset) \<Rightarrow> worker list \<Rightarrow> uuid multiset" where
  "ids_of f ws = sum_list (map f ws)"

definition hints :: "dispatch \<Rightarrow> uuid multiset" where
  "hints d = mset (channel d) + ids_of hint_of (workers d)"

definition taken :: "dispatch \<Rightarrow> uuid multiset" where
  "taken d = ids_of taken_of (workers d)"

lemma ids_of_update:
  "i < length ws \<Longrightarrow> ids_of f (ws[i := p]) + f (ws ! i) = ids_of f ws + f p"
proof (induction ws arbitrary: i)
  case (Cons w ws)
  then show ?case by (cases i) (auto simp: ids_of_def union_ac)
qed simp

definition scan_known :: "(uuid \<Rightarrow> uuid) \<Rightarrow> (uuid \<times> run_claim list) list option \<Rightarrow> bool" where
  "scan_known tof scan \<longleftrightarrow> (\<forall>groups i cs c. scan = Some groups \<longrightarrow> (i, cs) \<in> set groups \<longrightarrow> c \<in> set cs \<longrightarrow>
     r_timer c = i \<and> tof (r_id c) = i)"

text \<open>The invariant of lanes, channel and workers.\<close>

definition lanes_ok :: "(uuid \<Rightarrow> uuid) \<Rightarrow> (uuid \<Rightarrow> nat) \<Rightarrow> dispatch \<Rightarrow> bool" where
  "lanes_ok tof lim d \<longleftrightarrow> distinct (map fst (lanes d)) \<and>
     (\<forall>i. mset (queued (lane_of i d)) = filter_mset (\<lambda>r. tof r = i) (hints d)) \<and>
     (\<forall>i. mset (active (lane_of i d)) = filter_mset (\<lambda>r. tof r = i) (taken d)) \<and>
     (\<forall>r. count (hints d + taken d) r \<le> 1) \<and>
     (\<forall>i. in_lane (lane_of i d) \<le> lim i) \<and>
     (\<forall>w\<in>set (workers d). claim_known tof w) \<and>
     scan_known tof (scanned d)"

section \<open>Lanes\<close>

lemma lane_of_put [simp]: "lane_of j (put_lane i l d) = (if j = i then l else lane_of j d)"
  by (simp add: lane_of_def put_lane_def)

lemma put_lane_fields [simp]:
  "channel (put_lane i l d) = channel d" "workers (put_lane i l d) = workers d" "db (put_lane i l d) = db d"
  "scanned (put_lane i l d) = scanned d" "channel_open (put_lane i l d) = channel_open d"
  "lanes (put_lane i l d) = hm_put i l (lanes d)"
  by (simp_all add: put_lane_def)

lemma hm_put_keys: "distinct (map fst m) \<Longrightarrow> distinct (map fst (hm_put i l m))"
proof -
  have "fst ` set m = fst ` set m" by simp
  have *: "map fst (row_set (\<lambda>r. fst r = i) (\<lambda>(k, old). (k, l)) m) = map fst m" for m :: "('a \<times> 'b) list"
    by (induction m) (auto simp: row_set_def)
  assume "distinct (map fst m)"
  then show ?thesis
    using * [of m] by (auto simp: hm_put_def upsert_def row_get_None)
qed

lemma hm_remove_keys: "distinct (map fst m) \<Longrightarrow> distinct (map fst (hm_remove i m))"
  by (induction m) (auto simp: hm_remove_def row_del_def)

lemma release_first_keys: "map fst (release_first r ls) = map fst ls"
  by (induction ls) auto

lemma hm_get_Cons: "hm_get k ((i, l) # ls) = (if k = i then Some l else hm_get k ls)"
  by (simp add: hm_get_def row_get_def)

text \<open>When only lane j queues r, releasing r takes it out of lane j and nowhere else.\<close>

lemma release_first_get:
  assumes "distinct (map fst ls)" "\<And>i l. hm_get i ls = Some l \<Longrightarrow> r \<in> set (queued l) \<Longrightarrow> i = j"
  shows "queued (case hm_get i (release_first r ls) of None \<Rightarrow> empty_lane | Some l \<Rightarrow> l) =
      filter (\<lambda>x. x \<noteq> r) (queued (case hm_get i ls of None \<Rightarrow> empty_lane | Some l \<Rightarrow> l)) \<and>
    active (case hm_get i (release_first r ls) of None \<Rightarrow> empty_lane | Some l \<Rightarrow> l) =
      active (case hm_get i ls of None \<Rightarrow> empty_lane | Some l \<Rightarrow> l)"
  using assms
proof (induction ls)
  case Nil
  then show ?case by (simp add: empty_lane_def)
next
  case (Cons kl ls)
  obtain k l where kl: "kl = (k, l)" by (cases kl)
  have notin: "r \<notin> set (queued l')" if "hm_get i' ls = Some l'" "r \<in> set (queued l)" for i' l'
  proof
    assume "r \<in> set (queued l')"
    have "k \<notin> fst ` set ls" using Cons.prems(1) kl by auto
    then have "hm_get k ls = None" by (simp add: hm_get_def row_get_None)
    with that have ne: "i' \<noteq> k" by auto
    with Cons.prems(2) [of i' l'] that \<open>r \<in> set (queued l')\<close> kl have "i' = j" by (simp add: hm_get_Cons)
    moreover have "k = j" using Cons.prems(2) [of k l] that kl by (simp add: hm_get_Cons)
    ultimately show False using ne by simp
  qed
  show ?case
  proof (cases "r \<in> set (queued l)")
    case True
    have "filter (\<lambda>x. x \<noteq> r) (queued l') = queued l'" if "hm_get i ls = Some l'" for l'
      using notin [OF that True] by (auto simp: filter_id_conv)
    with True show ?thesis
      by (auto simp: kl hm_get_Cons retain_lane_def empty_lane_def split: option.splits)
  next
    case False
    have "hm_get i' ls = Some l' \<Longrightarrow> r \<in> set (queued l') \<Longrightarrow> i' = j" for i' l'
    proof -
      assume g: "hm_get i' ls = Some l'" "r \<in> set (queued l')"
      have "k \<notin> fst ` set ls" using Cons.prems(1) kl by auto
      then have "hm_get k ls = None" by (simp add: hm_get_def row_get_None)
      with g have "i' \<noteq> k" by auto
      with Cons.prems(2) [of i' l'] g kl show ?thesis by (simp add: hm_get_Cons)
    qed
    moreover have "filter (\<lambda>x. x \<noteq> r) (queued l) = queued l" by (rule filter_True) (use False in auto)
    ultimately show ?thesis using Cons.IH Cons.prems(1) kl False
      by (auto simp: hm_get_Cons)
  qed
qed

lemma hints_set_worker:
  "i < length (workers d) \<Longrightarrow> hints (set_worker i p d) + hint_of (workers d ! i) = hints d + hint_of p"
  "i < length (workers d) \<Longrightarrow> taken (set_worker i p d) + taken_of (workers d ! i) = taken d + taken_of p"
  using ids_of_update [of i "workers d" hint_of p] ids_of_update [of i "workers d" taken_of p]
  by (simp_all add: hints_def taken_def set_worker_def union_ac)

lemma hints_worker_same:
  assumes "i < length (workers d)" "hint_of p = hint_of (workers d ! i)" "taken_of p = taken_of (workers d ! i)"
  shows "hints (set_worker i p d) = hints d" "taken (set_worker i p d) = taken d"
  using hints_set_worker [OF assms(1), of p] assms(2,3) by auto

lemma set_worker_fields [simp]:
  "lanes (set_worker i p d) = lanes d" "channel (set_worker i p d) = channel d" "scanned (set_worker i p d) = scanned d"
  "db (set_worker i p d) = db d" "workers (set_worker i p d) = (workers d)[i := p]"
  "lane_of j (set_worker i p d) = lane_of j d"
  by (simp_all add: set_worker_def lane_of_def)

lemma known_update:
  "\<forall>w\<in>set ws. claim_known tof w \<Longrightarrow> claim_known tof p \<Longrightarrow> \<forall>w\<in>set (ws[i := p]). claim_known tof w"
  using set_update_subset_insert by fastforce

lemma lanes_ok_worker:
  assumes "lanes_ok tof lim d" "i < length (workers d)" "lanes d' = lanes d" "channel d' = channel d"
    and "workers d' = workers d" "scanned d' = scanned d"
    and "hint_of p = hint_of (workers d ! i)" "taken_of p = taken_of (workers d ! i)" "claim_known tof p"
  shows "lanes_ok tof lim (set_worker i p d')"
proof -
  have "hints d' = hints d" "taken d' = taken d" "\<And>j. lane_of j d' = lane_of j d"
    using assms by (simp_all add: hints_def taken_def lane_of_def)
  then show ?thesis
    using assms hints_worker_same [of i d' p] known_update [of "workers d" tof p i]
    by (simp add: lanes_ok_def)
qed

section \<open>Each step keeps the invariant\<close>

lemma lanes_okD:
  assumes "lanes_ok tof lim d"
  shows "distinct (map fst (lanes d))" "mset (queued (lane_of i d)) = filter_mset (\<lambda>r. tof r = i) (hints d)"
    "mset (active (lane_of i d)) = filter_mset (\<lambda>r. tof r = i) (taken d)"
    "count (hints d) r + count (taken d) r \<le> 1" "in_lane (lane_of i d) \<le> lim i"
    "w \<in> set (workers d) \<Longrightarrow> claim_known tof w"
  using assms by (simp_all add: lanes_ok_def)

lemma lane_queued:
  assumes "lanes_ok tof lim d"
  shows "r \<in> set (queued (lane_of i d)) \<longleftrightarrow> r \<in># hints d \<and> tof r = i"
proof -
  have "r \<in># mset (queued (lane_of i d)) \<longleftrightarrow> r \<in># filter_mset (\<lambda>r. tof r = i) (hints d)"
    by (simp only: lanes_okD(2) [OF assms])
  then show ?thesis by simp
qed

lemma lane_active:
  assumes "lanes_ok tof lim d"
  shows "r \<in> set (active (lane_of i d)) \<longleftrightarrow> r \<in># taken d \<and> tof r = i"
proof -
  have "r \<in># mset (active (lane_of i d)) \<longleftrightarrow> r \<in># filter_mset (\<lambda>r. tof r = i) (taken d)"
    by (simp only: lanes_okD(3) [OF assms])
  then show ?thesis by simp
qed

lemma apart:
  assumes "lanes_ok tof lim d" "r \<in># hints d"
  shows "r \<notin># taken d" "count (hints d) r = 1"
proof -
  have "count (hints d) r + count (taken d) r \<le> 1" by (rule lanes_okD(4) [OF assms(1)])
  moreover have "0 < count (hints d) r" using assms(2) by (simp add: count_greater_zero_iff)
  ultimately have "count (taken d) r = 0" "count (hints d) r = 1" by linarith+
  then show "r \<notin># taken d" "count (hints d) r = 1" by (simp_all add: count_eq_zero_iff)
qed

lemma apart_taken:
  assumes "lanes_ok tof lim d" "r \<in># taken d"
  shows "count (taken d) r = 1" "r \<notin># hints d"
proof -
  have "count (hints d) r + count (taken d) r \<le> 1" by (rule lanes_okD(4) [OF assms(1)])
  moreover have "0 < count (taken d) r" using assms(2) by (simp add: count_greater_zero_iff)
  ultimately have "count (hints d) r = 0" "count (taken d) r = 1" by linarith+
  then show "count (taken d) r = 1" "r \<notin># hints d" by (simp_all add: count_eq_zero_iff)
qed

lemma filter_drop:
  assumes "count M r = 1"
  shows "filter_mset (\<lambda>x. x \<noteq> r) M = M - {#r#}"
  using assms by (intro multiset_eqI) auto

lemma lanes_ok_release:
  assumes ok: "lanes_ok tof lim d" and i: "i < length (workers d)"
    and old: "hint_of (workers d ! i) = {#r#}" "taken_of (workers d ! i) = {#}"
    and same: "lanes d' = lanes d" "channel d' = channel d" "workers d' = workers d" "scanned d' = scanned d"
  shows "lanes_ok tof lim (set_worker i Idle (release_queued r d'))"
proof -
  let ?e = "set_worker i Idle (release_queued r d')"
  have hd: "hints d' = hints d" "taken d' = taken d" using same by (simp_all add: hints_def taken_def)
  have "hints (release_queued r d') = hints d'" "taken (release_queued r d') = taken d'"
    "workers (release_queued r d') = workers d'"
    by (simp_all add: release_queued_def hints_def taken_def)
  with hints_set_worker [of i "release_queued r d'" Idle] i old same hd
  have h: "hints ?e + {#r#} = hints d" "taken ?e = taken d" by simp_all
  have r: "r \<in># hints d" unfolding h(1) [symmetric] by simp
  note ap = apart [OF ok r]
  have lanes: "queued (lane_of j ?e) = filter (\<lambda>x. x \<noteq> r) (queued (lane_of j d)) \<and>
      active (lane_of j ?e) = active (lane_of j d)" for j
  proof -
    have "l = lane_of i d" if "hm_get i (lanes d) = Some l" for i l using that by (simp add: lane_of_def)
    then have only: "i = tof r" if "hm_get i (lanes d) = Some l" "r \<in> set (queued l)" for i l
      using that lane_queued [OF ok, of r i] by simp
    show ?thesis
      using release_first_get [where ls = "lanes d" and r = r and j = "tof r" and i = j, OF lanes_okD(1) [OF ok] only] same
      by (simp add: lane_of_def release_queued_def)
  qed
  have q: "mset (queued (lane_of j ?e)) = filter_mset (\<lambda>x. tof x = j) (hints ?e)" for j
  proof -
    have "mset (queued (lane_of j ?e)) = filter_mset (\<lambda>x. x \<noteq> r) (filter_mset (\<lambda>x. tof x = j) (hints d))"
      using lanes [of j] ok by (simp add: lanes_ok_def mset_filter)
    also have "\<dots> = filter_mset (\<lambda>x. tof x = j) (filter_mset (\<lambda>x. x \<noteq> r) (hints d))"
      by (simp add: filter_filter_mset conj_commute)
    also have "filter_mset (\<lambda>x. x \<noteq> r) (hints d) = hints ?e"
      using filter_drop [of "hints d" r] ap(2) h(1) [symmetric] by simp
    finally show ?thesis .
  qed
  have len: "in_lane (lane_of j ?e) \<le> in_lane (lane_of j d)" for j
    using lanes [of j] by (simp add: in_lane_def)
  have cnt: "count (hints ?e + taken ?e) x \<le> count (hints d + taken d) x" for x
    by (simp add: h(1) [symmetric] h(2))
  show ?thesis
    unfolding lanes_ok_def
  proof (intro conjI)
    show "distinct (map fst (lanes ?e))"
      using ok same by (simp add: lanes_ok_def release_queued_def release_first_keys)
    show "\<forall>j. mset (queued (lane_of j ?e)) = filter_mset (\<lambda>x. tof x = j) (hints ?e)" using q by blast
    show "\<forall>j. mset (active (lane_of j ?e)) = filter_mset (\<lambda>x. tof x = j) (taken ?e)"
      using lanes ok by (simp add: h(2) lanes_ok_def)
    show "\<forall>x. count (hints ?e + taken ?e) x \<le> 1" using cnt ok unfolding lanes_ok_def by (meson le_trans)
    show "\<forall>j. in_lane (lane_of j ?e) \<le> lim j" using len ok unfolding lanes_ok_def by (meson le_trans)
    show "\<forall>w\<in>set (workers ?e). claim_known tof w"
      using known_update [of "workers d" tof Idle i] lanes_okD(6) [OF ok] same by (simp add: release_queued_def)
    show "scan_known tof (scanned ?e)"
      using ok same by (simp add: lanes_ok_def release_queued_def)
  qed
qed

lemma token_entry_fields:
  assumes "token_entry r l d = (a, l', d')"
  shows "queued l' = queued l" "active l' = active l" "lanes d' = lanes d" "channel d' = channel d"
    "workers d' = workers d" "scanned d' = scanned d" "db d' = db d" "channel_open d' = channel_open d"
  using assms by (auto simp: token_entry_def split: option.splits)

lemma filter_mset_drop:
  assumes "r \<in># M" "count M r = 1"
  shows "filter_mset (\<lambda>x. x \<noteq> r) (filter_mset (\<lambda>x. tof x = j) M) = filter_mset (\<lambda>x. tof x = j) (M - {#r#})"
  using assms(2) by (intro multiset_eqI) auto

lemma lanes_ok_enter:
  assumes ok: "lanes_ok tof lim d" and i: "i < length (workers d)" and old: "workers d ! i = Activated c"
    and job: "job_enter c d = (p, d')"
  shows "lanes_ok tof lim (set_worker i p d')"
proof -
  let ?r = "r_id c" and ?k = "r_timer c"
  define l1 where "l1 = (retain_lane ?r (lane_of ?k d))\<lparr>active := List.insert ?r (active (lane_of ?k d))\<rparr>"
  obtain a l2 d1 where tok: "token_entry ?r l1 d = (a, l2, d1)" by (cases "token_entry ?r l1 d")
  note tf = token_entry_fields [OF tok]
  have p: "p = Entered c a" "d' = put_lane ?k l2 d1"
    using job tok by (auto simp: job_enter_def enter_lane_def Let_def l1_def)
  let ?e = "set_worker i p d'"
  have known: "?k = tof ?r" using lanes_okD(6) [OF ok nth_mem [OF i]] old by simp
  have same: "hints d' = hints d" "taken d' = taken d" "workers d' = workers d"
    by (simp_all add: p(2) hints_def taken_def tf)
  with hints_set_worker [of i d' p] i old p(1)
  have h: "hints ?e + {#?r#} = hints d" and t: "taken ?e = taken d + {#?r#}" by simp_all
  have r: "?r \<in># hints d" unfolding h [symmetric] by simp
  note ap = apart [OF ok r]
  have notact: "?r \<notin> set (active (lane_of ?k d))" using lane_active [OF ok] ap(1) by simp
  have lane: "lane_of j d1 = lane_of j d" for j by (simp add: lane_of_def tf)
  have q: "queued (lane_of j ?e) = filter (\<lambda>x. x \<noteq> ?r) (queued (lane_of j d))" for j
  proof (cases "j = ?k")
    case False
    then have "?r \<notin> set (queued (lane_of j d))" using lane_queued [OF ok] known by simp
    then have "filter (\<lambda>x. x \<noteq> ?r) (queued (lane_of j d)) = queued (lane_of j d)"
      by (intro filter_True) auto
    with False show ?thesis by (simp add: p(2) lane)
  qed (simp add: p(2) tf l1_def retain_lane_def)
  have act: "mset (active (lane_of j ?e)) = mset (active (lane_of j d)) + (if j = ?k then {#?r#} else {#})" for j
    using notact by (simp add: p(2) lane tf l1_def)
  have he: "hints ?e = hints d - {#?r#}" using h by (metis add_diff_cancel_right')
  have mq: "mset (queued (lane_of j ?e)) = filter_mset (\<lambda>x. tof x = j) (hints ?e)" for j
    using q [of j] lanes_okD(2) [OF ok, of j] filter_mset_drop [OF r ap(2), of tof j] he
    by (simp add: mset_filter)
  have ma: "mset (active (lane_of j ?e)) = filter_mset (\<lambda>x. tof x = j) (taken ?e)" for j
    using act [of j] lanes_okD(3) [OF ok, of j] known t by simp
  have len: "in_lane (lane_of j ?e) \<le> in_lane (lane_of j d)" for j
  proof (cases "j = ?k")
    case True
    have "?r \<in> set (queued (lane_of j d))" using lane_queued [OF ok] r known True by simp
    then have "length (queued (lane_of j ?e)) < length (queued (lane_of j d))"
      unfolding q by (intro length_filter_less) auto
    moreover have "length (active (lane_of j ?e)) = length (active (lane_of j d)) + 1"
      using notact True by (simp add: p(2) lane tf l1_def)
    ultimately show ?thesis by (simp add: in_lane_def)
  next
    case False
    then show ?thesis by (simp add: p(2) lane)
  qed
  have cnt: "count (hints ?e + taken ?e) x = count (hints d + taken d) x" for x
    by (simp add: h [symmetric] t)
  show ?thesis
    unfolding lanes_ok_def
  proof (intro conjI)
    show "distinct (map fst (lanes ?e))"
      using lanes_okD(1) [OF ok] hm_put_keys by (simp add: p(2) tf)
    show "\<forall>x. count (hints ?e + taken ?e) x \<le> 1" unfolding cnt using lanes_okD(4) [OF ok] by simp
    show "\<forall>j. in_lane (lane_of j ?e) \<le> lim j" using len lanes_okD(5) [OF ok] le_trans by blast
    show "\<forall>w\<in>set (workers ?e). claim_known tof w"
      using known_update [of "workers d" tof p i] lanes_okD(6) [OF ok] same(3) known p(1) by simp
    show "scan_known tof (scanned ?e)"
      using ok by (simp add: lanes_ok_def p(2) tf)
  qed (use mq ma in blast)+
qed

lemma lanes_ok_finish:
  assumes ok: "lanes_ok tof lim d" and i: "i < length (workers d)" and old: "workers d ! i = Finishing k r"
  shows "lanes_ok tof lim (set_worker i Idle (finish_lane k r d))"
proof -
  let ?e = "set_worker i Idle (finish_lane k r d)"
  have known: "k = tof r" using lanes_okD(6) [OF ok nth_mem [OF i]] old by simp
  have same: "hints (finish_lane k r d) = hints d" "taken (finish_lane k r d) = taken d"
    "workers (finish_lane k r d) = workers d" "scanned (finish_lane k r d) = scanned d"
    by (auto simp: finish_lane_def hints_def taken_def Let_def split: option.splits)
  with hints_set_worker [of i "finish_lane k r d" Idle] i old
  have h: "hints ?e = hints d" and t: "taken ?e + {#r#} = taken d" by simp_all
  have r: "r \<in># taken d" unfolding t [symmetric] by simp
  then have tc: "count (taken d) r = 1" "r \<notin># hints d"
    using apart_taken [OF ok] by blast+
  have notq: "filter (\<lambda>x. x \<noteq> r) (queued (lane_of k d)) = queued (lane_of k d)"
    using lane_queued [OF ok, of r k] tc(2) by (intro filter_True) auto
  have la: "queued (lane_of j ?e) = queued (lane_of j d) \<and>
      active (lane_of j ?e) = filter (\<lambda>x. x \<noteq> r) (active (lane_of j d))" for j
  proof (cases "j = k")
    case True
    show ?thesis
    proof (cases "hm_get k (lanes d)")
      case None
      with True show ?thesis by (simp add: finish_lane_def lane_of_def empty_lane_def)
    next
      case (Some l)
      with True notq show ?thesis
        by (auto simp: finish_lane_def lane_of_def empty_lane_def Let_def put_lane_def retain_lane_def in_lane_def)
    qed
  next
    case False
    then have "r \<notin> set (active (lane_of j d))" using lane_active [OF ok] known by simp
    then have "filter (\<lambda>x. x \<noteq> r) (active (lane_of j d)) = active (lane_of j d)" by (intro filter_True) auto
    with False show ?thesis
      by (auto simp: finish_lane_def lane_of_def Let_def put_lane_def split: option.splits)
  qed
  have te: "taken ?e = taken d - {#r#}" using t by (metis add_diff_cancel_right')
  have ma: "mset (active (lane_of j ?e)) = filter_mset (\<lambda>x. tof x = j) (taken ?e)" for j
    using la [of j] lanes_okD(3) [OF ok, of j] filter_mset_drop [OF r tc(1), of tof j] te
    by (simp add: mset_filter)
  show ?thesis
    unfolding lanes_ok_def
  proof (intro conjI)
    show "distinct (map fst (lanes ?e))"
      using lanes_okD(1) [OF ok] hm_put_keys hm_remove_keys
      by (auto simp: finish_lane_def Let_def split: option.splits)
    show "\<forall>j. mset (queued (lane_of j ?e)) = filter_mset (\<lambda>x. tof x = j) (hints ?e)"
      using la lanes_okD(2) [OF ok] h by simp
    show "\<forall>x. count (hints ?e + taken ?e) x \<le> 1"
    proof
      fix x
      have "count (taken ?e) x \<le> count (taken d) x" by (simp add: t [symmetric])
      then show "count (hints ?e + taken ?e) x \<le> 1" using lanes_okD(4) [OF ok, of x] h by simp
    qed
    show "\<forall>j. in_lane (lane_of j ?e) \<le> lim j"
    proof
      fix j
      have "in_lane (lane_of j ?e) \<le> in_lane (lane_of j d)" using la [of j] by (simp add: in_lane_def)
      then show "in_lane (lane_of j ?e) \<le> lim j" using lanes_okD(5) [OF ok] le_trans by blast
    qed
    show "\<forall>w\<in>set (workers ?e). claim_known tof w"
      using known_update [of "workers d" tof Idle i] lanes_okD(6) [OF ok] same(3) by simp
    show "scan_known tof (scanned ?e)"
      using ok same(4) by (simp add: lanes_ok_def)
  qed (use ma in blast)+
qed

lemma lanes_ok_send:
  assumes ok: "lanes_ok tof lim d" and free: "\<not> is_reserved k r d" and k: "tof r = k"
    and room: "in_lane (lane_of k d) < lim k"
  shows "lanes_ok tof lim (send_hint k r (lane_of k d) d)"
proof -
  define d1 where "d1 = d\<lparr>channel := channel d @ [r]\<rparr>"
  define l1 where "l1 = (lane_of k d)\<lparr>queued := queued (lane_of k d) @ [r]\<rparr>"
  obtain a l2 d2 where tok: "token_entry r l1 d1 = (a, l2, d2)" by (cases "token_entry r l1 d1")
  note tf = token_entry_fields [OF tok]
  let ?e = "send_hint k r (lane_of k d) d"
  have e: "?e = put_lane k l2 d2" using tok by (simp add: send_hint_def d1_def l1_def Let_def)
  have f: "workers ?e = workers d" "scanned ?e = scanned d" "lanes ?e = hm_put k l2 (lanes d)"
    by (simp_all add: e tf d1_def)
  have lane: "lane_of j d2 = lane_of j d" for j by (simp add: lane_of_def tf d1_def)
  have h: "hints ?e = hints d + {#r#}" "taken ?e = taken d"
    by (simp_all add: e hints_def taken_def tf d1_def)
  have la: "queued (lane_of j ?e) = queued (lane_of j d) @ (if j = k then [r] else [])"
      "active (lane_of j ?e) = active (lane_of j d)" for j
    by (simp_all add: e lane tf l1_def)
  have new: "r \<notin># hints d" "r \<notin># taken d"
  proof -
    have "r \<notin> set (queued (lane_of k d))" "r \<notin> set (active (lane_of k d))"
      using free by (auto simp: is_reserved_def lane_of_def empty_lane_def split: option.splits)
    then show "r \<notin># hints d" "r \<notin># taken d" using lane_queued [OF ok] lane_active [OF ok] k by simp_all
  qed
  show ?thesis
    unfolding lanes_ok_def
  proof (intro conjI allI)
    show "distinct (map fst (lanes ?e))" using lanes_okD(1) [OF ok] hm_put_keys by (simp add: f)
    show "mset (queued (lane_of j ?e)) = filter_mset (\<lambda>x. tof x = j) (hints ?e)" for j
      using lanes_okD(2) [OF ok, of j] k by (simp add: la h)
    show "mset (active (lane_of j ?e)) = filter_mset (\<lambda>x. tof x = j) (taken ?e)" for j
      using lanes_okD(3) [OF ok, of j] by (simp add: la h)
    show "count (hints ?e + taken ?e) x \<le> 1" for x
      using lanes_okD(4) [OF ok, of x] new by (auto simp: h count_eq_zero_iff)
    show "in_lane (lane_of j ?e) \<le> lim j" for j
      using lanes_okD(5) [OF ok, of j] room by (simp add: la in_lane_def)
    show "\<forall>w\<in>set (workers ?e). claim_known tof w" using lanes_okD(6) [OF ok] by (simp add: f)
    show "scan_known tof (scanned ?e)"
      using ok by (simp add: f lanes_ok_def)
  qed
qed

lemma lanes_ok_cong:
  assumes "lanes_ok tof lim d" "distinct (map fst (lanes d'))" "\<And>j. lane_of j d' = lane_of j d"
    and "channel d' = channel d" "workers d' = workers d" "scanned d' = None \<or> scanned d' = scanned d"
  shows "lanes_ok tof lim d'"
proof -
  have "hints d' = hints d" "taken d' = taken d" using assms(4,5) by (simp_all add: hints_def taken_def)
  then show ?thesis using assms unfolding lanes_ok_def by (auto simp: scan_known_def)
qed

lemma lanes_ok_put_same: "lanes_ok tof lim d \<Longrightarrow> lanes_ok tof lim (put_lane k (lane_of k d) d)"
  by (rule lanes_ok_cong [of tof lim d]) (simp_all add: hm_put_keys lanes_okD(1))

text \<open>What a state of the dispatcher keeps: its lanes, and the history of the database.\<close>

definition dispatch_ok :: "(uuid \<Rightarrow> uuid) \<Rightarrow> (uuid \<Rightarrow> nat) \<Rightarrow> dispatch \<Rightarrow> bool" where
  "dispatch_ok tof lim d \<longleftrightarrow> lanes_ok tof lim d \<and> history_ok tof lim (db d)"

lemma history_ok_runs:
  assumes "history_ok tof lim s" "timers s' = timers s" "\<And>c. c \<in> set (runs s') \<Longrightarrow> \<exists>c0\<in>set (runs s). r_id c = r_id c0 \<and> r_timer c = r_timer c0"
  shows "history_ok tof lim s'"
  using assms unfolding history_ok_def by metis

lemma row_set_same:
  assumes "\<And>r. r_id (f r) = r_id r \<and> r_timer (f r) = r_timer r" "c \<in> set (row_set p f rows)"
  shows "\<exists>c0\<in>set rows. r_id c = r_id c0 \<and> r_timer c = r_timer c0"
  using assms(2) by (auto simp: row_set_def assms(1))

lemma history_ok_ops:
  assumes "history_ok tof lim s"
  shows "history_ok tof lim (snd (activate_run i s))" "history_ok tof lim (repend_run i s)"
    "history_ok tof lim (snd (repend_all_active s))" "history_ok tof lim (snd (finish_run_conn now i outcome reason s))"
    "history_ok tof lim (enqueue_event e s)" "finish_run now i outcome why s = Inr (c, s') \<Longrightarrow> history_ok tof lim s'"
  subgoal by (rule history_ok_runs [OF assms]) (auto simp: activate_run_def Let_def dest!: row_set_same [rotated])
  subgoal by (rule history_ok_runs [OF assms]) (auto simp: repend_run_def Let_def dest!: row_set_same [rotated])
  subgoal by (rule history_ok_runs [OF assms]) (auto simp: repend_all_active_def Let_def dest!: row_set_same [rotated])
  subgoal by (rule history_ok_runs [OF assms]) (auto simp: finish_run_conn_def finish_row_def Let_def dest!: row_set_same [rotated])
  subgoal by (rule history_ok_runs [OF assms]) (auto simp: enqueue_event_def split: if_splits)
  subgoal by (rule history_ok_runs [OF assms])
      (auto simp: finish_run_def finish_row_def Let_def split: if_splits option.splits dest!: row_set_same [rotated])
  done

lemma dispatch_okI: "lanes_ok tof lim d \<Longrightarrow> history_ok tof lim (db d) \<Longrightarrow> dispatch_ok tof lim d"
  by (simp add: dispatch_ok_def)

lemma dispatch_ok_db:
  assumes "dispatch_ok tof lim d" "history_ok tof lim s"
  shows "dispatch_ok tof lim (d\<lparr>db := s\<rparr>)" "dispatch_ok tof lim (d\<lparr>draws := n, db := s\<rparr>)"
  using assms lanes_ok_cong [of tof lim d "d\<lparr>db := s\<rparr>"] lanes_ok_cong [of tof lim d "d\<lparr>draws := n, db := s\<rparr>"]
  by (auto simp: dispatch_ok_def lane_of_def dest: lanes_okD(1))

lemma close_deleted_ok: "dispatch_ok tof lim d \<Longrightarrow> dispatch_ok tof lim (close_deleted E c d)"
proof -
  assume ok: "dispatch_ok tof lim d"
  then have h: "history_ok tof lim (db d)" by (simp add: dispatch_ok_def)
  show ?thesis
  proof (cases "finish_run (utc_now E (draws d)) (r_id c) WakeFailed (Some ''timer_deleted'') (db d)")
    case (Inl e)
    have "close_deleted E c d = d\<lparr>draws := draws d + 1, db := db d\<rparr>" by (simp add: close_deleted_def Let_def Inl)
    then show ?thesis using dispatch_ok_db(2) [OF ok h] by simp
  next
    case (Inr cs)
    then obtain c1 s where "finish_run (utc_now E (draws d)) (r_id c) WakeFailed (Some ''timer_deleted'') (db d) = Inr (c1, s)"
      by (cases cs) auto
    with history_ok_ops(6) [OF h this] dispatch_ok_db(2) [OF ok, of s "draws d + 1"] show ?thesis
      by (simp add: close_deleted_def Let_def)
  qed
qed

lemma send_hint_db [simp]: "db (send_hint k r l d) = db d"
proof -
  obtain a l2 d2 where "token_entry r (l\<lparr>queued := queued l @ [r]\<rparr>) (d\<lparr>channel := channel d @ [r]\<rparr>) = (a, l2, d2)"
    using prod_cases3 by blast
  with token_entry_fields(7) [OF this] show ?thesis by (simp add: send_hint_def Let_def)
qed

lemma put_same_reserved: "is_reserved k r (put_lane k (lane_of k d) d) = is_reserved k r d"
  by (auto simp: is_reserved_def lane_of_def empty_lane_def split: option.splits)

lemma dispatch_lane_ok:
  assumes "dispatch_ok tof lim d" "\<forall>c\<in>set cs. tof (r_id c) = k"
  shows "dispatch_ok tof lim (snd (dispatch_lane E D k cs d))"
  using assms
proof (induction E D k cs d rule: dispatch_lane.induct)
  case (2 E D k c cs d)
  let ?l = "lane_of k d"
  let ?d1 = "put_lane k ?l d"
  have ok1: "dispatch_ok tof lim ?d1"
    using "2.prems"(1) lanes_ok_put_same by (simp add: dispatch_ok_def)
  show ?case
  proof (cases "is_reserved k (r_id c) d")
    case True
    with "2.IH"(1) "2.prems" show ?thesis by simp
  next
    case free: False
    show ?thesis
    proof (cases "get_timer (db d) k")
      case None
      with "2.IH"(2) [OF free None close_deleted_ok] "2.prems" free show ?thesis by simp
    next
      case (Some t)
      have cap: "lane_limit (t_overlap t) \<le> lim k"
        using "2.prems"(1) row_get_Some [OF Some [unfolded get_timer_def]] by (auto simp: dispatch_ok_def history_ok_def)
      show ?thesis
      proof (cases "lane_limit (t_overlap t) = 0")
        case True
        with "2.IH"(3) [OF free Some refl] "2.prems" free Some show ?thesis by simp
      next
        case pos: False
        show ?thesis
        proof (cases "in_lane ?l < lane_limit (t_overlap t) \<and> channel_open d \<and> length (channel d) < queue_cap D")
          case True
          then have "in_lane ?l < lim k" using cap by simp
          then have "dispatch_ok tof lim (send_hint k (r_id c) (lane_of k ?d1) ?d1)"
            using ok1 lanes_ok_send [of tof lim ?d1 k "r_id c"] free "2.prems"(2)
            by (simp add: dispatch_ok_def put_same_reserved)
          then have s: "dispatch_ok tof lim (send_hint k (r_id c) ?l ?d1)" by simp
          have "dispatch_ok tof lim (snd (dispatch_lane E D k cs (send_hint k (r_id c) ?l ?d1)))"
            by (rule "2.IH"(4) [OF free Some refl _ refl refl]) (use True pos s "2.prems"(2) in auto)
          with free Some pos True show ?thesis by (simp add: Let_def)
        next
          case False
          with free Some pos ok1 show ?thesis by (auto simp: Let_def)
        qed
      qed
    qed
  qed
qed simp

section \<open>The publication pump leaves runs and timers alone\<close>

definition rows :: "'z world_scheme \<Rightarrow> run_claim list \<times> timer list" where
  "rows w = (runs (db w), timers (db w))"

lemma rows_projection [simp]: "rows (with_db (set_projection i p f) w) = rows w"
  by (simp add: rows_def with_db_def set_projection_def)

lemma rows_marks [simp]:
  "rows (snd (mark_obsolete p w)) = rows w" "rows (snd (mark_published E p w)) = rows w"
  "rows (with_db (mark_transport_picked_up i) w) = rows w" "rows (with_db (mark_transport_obsolete i) w) = rows w"
  "rows (with_db (requeue_transport_projection now i) w) = rows w"
  "rows (with_db (set_run_transport i m) w) = rows w" "rows (w\<lparr>draws := n\<rparr>) = rows w"
  "rows (with_db (defer_transport_projection i k at1) w) = rows w"
  "rows (file_put q b v) = rows v" "rows (file_del q v) = rows v"
  by (simp_all add: mark_obsolete_def mark_published_def rows_def with_db_def set_projection_def
      mark_transport_picked_up_def mark_transport_obsolete_def requeue_transport_projection_def
      mark_transport_published_def defer_transport_projection_def set_run_transport_def file_put_def file_del_def)

lemma rows_defer: "defer_attempt E p w = Some r \<Longrightarrow> rows (snd r) = rows w"
  by (auto simp: defer_attempt_def Let_def bind_Some split: if_splits)

lemma rows_atomic [simp]: "rows (snd (atomic_write F dir name bytes w)) = rows w"
  by (simp add: atomic_write_def split: sum.splits)

lemma rows_write_target: "write_target E C F p n w = Some r \<Longrightarrow> rows (snd r) = rows w"
proof -
  have "rows w1 = rows w" if "atomic_write F dir name b w = (ok, w1)" for dir name b ok w1
    using rows_atomic [of F dir name b w] that by simp
  then show "write_target E C F p n w = Some r \<Longrightarrow> rows (snd r) = rows w"
    by (auto simp: write_target_def Let_def dest!: rows_defer split: option.splits prod.splits if_splits)
qed

lemma rows_record_pickup [simp]: "rows (record_pickup C F p w) = rows w"
  by (simp add: record_pickup_def Let_def)

lemma rows_attempt_file: "attempt_file E C F p n w = Some r \<Longrightarrow> rows (snd r) = rows w"
  by (auto simp: attempt_file_def Let_def dest!: rows_defer rows_write_target split: option.splits if_splits)

lemma rows_attempt_by_file: "attempt_by_file E C F p w = Some r \<Longrightarrow> rows (snd r) = rows w"
  by (auto simp: attempt_by_file_def dest!: rows_attempt_file split: option.splits if_splits)

lemma rows_reproject [simp]: "rows (reproject_status C F dir p w) = rows w"
proof -
  have "rows (snd (write_status C F root t st w)) = rows w" for root t st
  proof (cases "folder_for C F root (t_id t) w")
    case (Some folder)
    then show ?thesis
      using rows_atomic [of F folder STATUS_FILE_NAME "status_pretty C st" w]
      by (cases "atomic_write F folder STATUS_FILE_NAME (status_pretty C st) w") (simp add: write_status_def Let_def)
  qed (simp add: write_status_def)
  then show ?thesis by (simp add: reproject_status_def split: option.splits)
qed

lemma rows_ipc_fallback:
  assumes "ipc_fallback E C F dir p n w = Some r"
  shows "rows (snd r) = rows w"
proof -
  have stub: "rows w1 = rows w" if "create_reply_stub C F folder i app w = (s, w1)" for folder i app s w1
    using that by (auto simp: create_reply_stub_def Let_def split: if_splits)
  have conv: "rows (v\<lparr>db := s\<rparr>) = rows v" if "convert_projection_to_file i t1 pl (db v) = (hit, s)" for v :: "'a site_scheme" and i t1 pl hit s
    using that by (auto simp: convert_projection_to_file_def rows_def set_projection_def)
  show ?thesis
    using assms
    by (auto simp: ipc_fallback_def Let_def stub conv dest!: rows_defer rows_attempt_by_file
        split: option.splits prod.splits if_splits)
qed

lemma rows_attempt: "attempt_publication E C F dir p h w = Some r \<Longrightarrow> rows (snd r) = rows w"
  by (auto simp: attempt_publication_def attempt_ipc_def dest!: rows_defer rows_attempt_file rows_ipc_fallback
      split: option.splits if_splits send_outcome.splits)

lemma rows_attempt_each: "attempt_each E C F dir h ps w = Some w' \<Longrightarrow> rows w' = rows w"
  by (induction ps arbitrary: w) (auto simp: bind_Some dest!: rows_attempt)

lemma rows_sweep_one: "sweep_one E C F dir h p w = Some w' \<Longrightarrow> rows w' = rows w"
  by (auto simp: sweep_one_def record_no_ack_def Let_def bind_Some dest!: rows_ipc_fallback split: option.splits if_splits)

lemma rows_sweep_each: "sweep_each E C F dir h ps w = Some w' \<Longrightarrow> rows w' = rows w"
  by (induction ps arbitrary: w) (auto simp: bind_Some dest!: rows_sweep_one)

lemma rows_pump: "pump E C F dir limit h w = Some (k, w') \<Longrightarrow> rows w' = rows w"
  by (auto simp: pump_def Let_def bind_Some sweep_pickups_def dest!: rows_attempt_each rows_sweep_each)

section \<open>The step lemma\<close>

lemma history_rows: "rows w' = rows w \<Longrightarrow> history_ok tof lim (db w) \<Longrightarrow> history_ok tof lim (db w')"
  by (simp add: rows_def history_ok_def)

lemma dispatch_timers_ok:
  assumes "dispatch_ok tof lim d" "\<forall>(i, cs)\<in>set groups. \<forall>c\<in>set cs. tof (r_id c) = i"
  shows "dispatch_ok tof lim (snd (dispatch_timers E D groups d))"
  using assms
proof (induction E D groups d rule: dispatch_timers.induct)
  case (2 E D i cs rest d)
  obtain stop d1 where l: "dispatch_lane E D i cs d = (stop, d1)" by (cases "dispatch_lane E D i cs d")
  have "dispatch_ok tof lim d1"
    using dispatch_lane_ok [of tof lim d cs i E D] "2.prems" l by simp
  then show ?case using "2.IH" l "2.prems" by (cases stop) auto
qed simp

lemma pump_dispatch_ok:
  assumes ok: "dispatch_ok tof lim d" and p: "pump_dispatch E C F D d = Some (stop, d')"
  shows "dispatch_ok tof lim d'"
proof (cases "scanned d")
  case (Some groups)
  let ?d0 = "d\<lparr>scanned := None\<rparr>"
  have ok0: "dispatch_ok tof lim ?d0"
    using ok lanes_ok_cong [of tof lim d ?d0] by (auto simp: dispatch_ok_def lane_of_def dest: lanes_okD(1))
  have "\<forall>(i, cs)\<in>set groups. \<forall>c\<in>set cs. tof (r_id c) = i"
    using ok Some by (auto simp: dispatch_ok_def lanes_ok_def scan_known_def)
  from dispatch_timers_ok [OF ok0 this, of E D]
  obtain st d1 where d1: "dispatch_timers E D groups ?d0 = (st, d1)" "dispatch_ok tof lim d1"
    by (cases "dispatch_timers E D groups ?d0") auto
  have site: "dispatch_ok tof lim (site.extend s (site.more d1))"
    if "pump E C F dir 8 h (site.truncate d1) = Some (k, s)" for dir h k s
  proof -
    have "rows s = rows (site.truncate d1)" by (rule rows_pump [OF that])
    then have "history_ok tof lim (db (site.extend s (site.more d1)))"
      using d1(2) by (cases d1, cases s) (simp add: site.defs rows_def dispatch_ok_def history_ok_def)
    moreover have "lanes_ok tof lim (site.extend s (site.more d1))"
      using d1(2) lanes_ok_cong [of tof lim d1 "site.extend s (site.more d1)"] lanes_okD(1) [of tof lim d1]
      by (cases d1, cases s) (auto simp: site.defs dispatch_ok_def lane_of_def)
    ultimately show ?thesis by (simp add: dispatch_ok_def)
  qed
  show ?thesis
    using p d1 site by (auto simp: pump_dispatch_def Some Let_def on_site_def bind_Some split: if_splits option.splits)
qed (use p ok in \<open>simp add: pump_dispatch_def\<close>)

lemma ok_worker:
  assumes "dispatch_ok tof lim d" "i < length (workers d)" "lanes d' = lanes d" "channel d' = channel d"
    and "workers d' = workers d" "scanned d' = scanned d"
    and "hint_of p = hint_of (workers d ! i)" "taken_of p = taken_of (workers d ! i)" "claim_known tof p"
    and "history_ok tof lim (db d')"
  shows "dispatch_ok tof lim (set_worker i p d')"
  using assms lanes_ok_worker [of tof lim d i d' p] by (simp add: dispatch_ok_def)

lemma ok_release:
  assumes "dispatch_ok tof lim d" "i < length (workers d)"
    and "hint_of (workers d ! i) = {#r#}" "taken_of (workers d ! i) = {#}"
    and "lanes d' = lanes d" "channel d' = channel d" "workers d' = workers d" "scanned d' = scanned d"
    and "history_ok tof lim (db d')"
  shows "dispatch_ok tof lim (set_worker i Idle (release_queued r d'))"
  using assms lanes_ok_release [of tof lim d i r d'] by (simp add: dispatch_ok_def release_queued_def)

lemma new_event_fields:
  assumes "new_event E k f d = (e, d')"
  shows "d' = d\<lparr>draws := draws d + 1\<rparr>"
  using assms by (auto simp: new_event_def)

lemma known_at: "dispatch_ok tof lim d \<Longrightarrow> i < length (workers d) \<Longrightarrow> claim_known tof (workers d ! i)"
  using lanes_okD(6) nth_mem by (fastforce simp: dispatch_ok_def)

lemma dispatch_step_ok:
  assumes "dispatch_step E C F D tof lim d d'" "dispatch_ok tof lim d"
  shows "dispatch_ok tof lim d'"
  using assms(1)
proof cases
  have h: "history_ok tof lim (db d)" using assms(2) by (simp add: dispatch_ok_def)
  note known = known_at [OF assms(2)]
  {
    case (scan order)
    have "r_timer c = tof (r_id c)" if "c \<in> set (pending_claims (db d))" for c
      using h that by (auto simp: pending_claims_def history_ok_def)
    then have "scan_known tof (Some (grouped order (pending_claims (db d))))"
      by (auto simp: scan_known_def grouped_def)
    then show ?thesis
      using assms(2) scan(1)
      by (auto simp: pump_scan_def cancel_tokens_def dispatch_ok_def lanes_ok_def lane_of_def hints_def taken_def)
  next
    case (pass stop)
    from pump_dispatch_ok [OF assms(2) pass] show ?thesis .
  next
    case (receive i r rest)
    have "hints d' = hints d" "taken d' = taken d"
      using hints_set_worker [of i "d\<lparr>channel := rest\<rparr>" "Hinted r"] receive
      by (simp_all add: hints_def taken_def add.commute)
    then show ?thesis
      using assms(2) receive known_update [of "workers d" tof "Hinted r" i]
      by (simp add: dispatch_ok_def lanes_ok_def lane_of_def)
  next
    case (leave i)
    show ?thesis unfolding leave(1) by (rule ok_worker [OF assms(2)]) (use leave h in simp_all)
  next
    case (load i r p d1)
    show ?thesis
    proof (cases "\<exists>c. get_run (db d) r = Some c \<and> r_status c = Pending")
      case True
      then obtain c where c: "get_run (db d) r = Some c" "r_status c = Pending" by blast
      with load have p: "p = Loaded c" "d1 = d" by (auto simp: job_load_def)
      have "r_id c = r" "r_timer c = tof (r_id c)"
        using row_get_Some [OF c(1) [unfolded get_run_def]] h by (auto simp: history_ok_def)
      then show ?thesis unfolding load(1) p by (intro ok_worker [OF assms(2)]) (use load h in simp_all)
    next
      case False
      with load have p: "p = Idle" "d1 = release_queued r d"
        by (auto simp: job_load_def split: option.splits if_splits)
      show ?thesis unfolding load(1) p by (rule ok_release [OF assms(2)]) (use load h in simp_all)
    qed
  next
    case (load_failed i r)
    show ?thesis unfolding load_failed(1) by (rule ok_release [OF assms(2)]) (use load_failed h in simp_all)
  next
    case (activate i c p d1)
    obtain won s where a: "activate_run (r_id c) (db d) = (won, s)" by (cases "activate_run (r_id c) (db d)")
    have hs: "history_ok tof lim s" using history_ok_ops(1) [OF h, of "r_id c"] a by simp
    show ?thesis
    proof (cases won)
      case True
      with activate a have p: "p = Activated c" "d1 = d\<lparr>db := s\<rparr>" by (auto simp: job_activate_def)
      show ?thesis unfolding activate(1) p
        by (rule ok_worker [OF assms(2)]) (use activate hs known [of i] in simp_all)
    next
      case False
      with activate a have p: "p = Idle" "d1 = release_queued (r_id c) (d\<lparr>db := s\<rparr>)" by (auto simp: job_activate_def)
      show ?thesis unfolding activate(1) p by (rule ok_release [OF assms(2)]) (use activate hs in simp_all)
    qed
  next
    case (activate_failed i c)
    show ?thesis unfolding activate_failed(1) by (rule ok_release [OF assms(2)]) (use activate_failed h in simp_all)
  next
    case (enter i c p d1)
    have "db d1 = db d"
    proof -
      obtain a l2 d2 where t: "token_entry (r_id c) ((retain_lane (r_id c) (lane_of (r_timer c) d))
          \<lparr>active := List.insert (r_id c) (active (lane_of (r_timer c) d))\<rparr>) d = (a, l2, d2)"
        using prod_cases3 by blast
      with enter token_entry_fields(7) [OF t] show ?thesis
        by (auto simp: job_enter_def enter_lane_def Let_def)
    qed
    with lanes_ok_enter [of tof lim d i c p d1] enter assms(2) show ?thesis by (simp add: dispatch_ok_def)
  next
    case (timer i c a p d1)
    show ?thesis
    proof (cases "get_timer (db d) (r_timer c)")
      case (Some t)
      with timer have p: "p = Executing c a t" "d1 = d" by (auto simp: job_timer_def)
      show ?thesis unfolding timer(1) p by (rule ok_worker [OF assms(2)]) (use timer h known [of i] in simp_all)
    next
      case None
      with timer obtain e where p: "p = Reporting c WakeFailed ''timer_deleted'' e" "d1 = d\<lparr>draws := draws d + 1\<rparr>"
        by (auto simp: job_timer_def split: prod.splits dest!: new_event_fields)
      show ?thesis unfolding timer(1) p by (rule ok_worker [OF assms(2)]) (use timer h known [of i] in simp_all)
    qed
  next
    case (timer_failed i c a p d1)
    then have p: "p = Finishing (r_timer c) (r_id c)" "d1 = d\<lparr>db := repend_run (r_id c) (db d)\<rparr>"
      by (auto simp: job_timer_failed_def)
    show ?thesis unfolding timer_failed(1) p
      by (rule ok_worker [OF assms(2)]) (use timer_failed history_ok_ops(2) [OF h] known [of i] in simp_all)
  next
    case (executed i c a t outcome p d1)
    from executed have "(\<exists>o1 reason e. p = Reporting c o1 reason e \<and> d1 = d\<lparr>draws := draws d + 1\<rparr>) \<or>
        (p = Finishing (r_timer c) (r_id c) \<and> d1 = d\<lparr>db := repend_run (r_id c) (db d)\<rparr>)"
      by (auto simp: job_executed_def Let_def split: option.splits exec_outcome.splits prod.splits dest!: new_event_fields)
    then show ?thesis
    proof (elim disjE exE conjE)
      fix o1 reason e assume p: "p = Reporting c o1 reason e" "d1 = d\<lparr>draws := draws d + 1\<rparr>"
      show ?thesis unfolding executed(1) p
        by (rule ok_worker [OF assms(2)]) (use executed h known [of i] in simp_all)
    next
      assume p: "p = Finishing (r_timer c) (r_id c)" "d1 = d\<lparr>db := repend_run (r_id c) (db d)\<rparr>"
      show ?thesis unfolding executed(1) p
        by (rule ok_worker [OF assms(2)]) (use executed history_ok_ops(2) [OF h] known [of i] in simp_all)
    qed
  next
    case (commit i c outcome reason e p d1)
    obtain hit s where f: "finish_run_conn (utc_now E (draws d)) (r_id c) outcome reason (db d) = (hit, s)"
      by (cases "finish_run_conn (utc_now E (draws d)) (r_id c) outcome reason (db d)")
    have hs: "history_ok tof lim s" using history_ok_ops(4) [OF h] f by (metis snd_conv)
    have p: "p = Finishing (r_timer c) (r_id c)"
        "d1 = d\<lparr>draws := draws d + 1, db := if hit then enqueue_event e s else s\<rparr>"
      using commit f by (auto simp: job_commit_def finish_claim_def)
    show ?thesis unfolding commit(1) p
      by (rule ok_worker [OF assms(2)]) (use commit hs history_ok_ops(5) [OF hs] known [of i] in simp_all)
  next
    case (commit_failed i c outcome reason e)
    show ?thesis unfolding commit_failed(1)
      by (rule ok_worker [OF assms(2)]) (use commit_failed h known [of i] in simp_all)
  next
    case (finish i k r)
    have "db (finish_lane k r d) = db d" by (auto simp: finish_lane_def Let_def split: option.splits)
    with lanes_ok_finish [of tof lim d i k r] finish assms(2) show ?thesis by (simp add: dispatch_ok_def)
  next
    case (startup answer)
    show ?thesis
      using assms(2) h history_ok_ops(3) [OF h]
      by (auto simp: startup begin_startup_def try_take_lock_def dispatch_ok_def lanes_ok_def lane_of_def hints_def taken_def
          split: sum.splits bool.splits)
  next
    case (follow answer)
    show ?thesis
      using assms(2) h history_ok_ops(3) [OF h]
      by (auto simp: follow follow_owner_def try_take_lock_def dispatch_ok_def lanes_ok_def lane_of_def hints_def taken_def
          split: sum.splits bool.splits)
  next
    case stop
    show ?thesis
      using assms(2) by (auto simp: stop stop_dispatcher_def dispatch_ok_def lanes_ok_def lane_of_def hints_def taken_def)
  next
    case (outside s)
    with dispatch_ok_db(1) [OF assms(2)] show ?thesis by simp
  }
qed

end
