(* ===== verification/Dispatcher_Properties.thy ===== *)
theory Dispatcher_Properties
  imports Dispatcher_Laws Scheduler_Properties
begin

text \<open>The properties of the dispatcher: lane order, and that no pending fire is stranded.\<close>

section \<open>Lane order\<close>

fun executing_for :: "uuid \<Rightarrow> worker \<Rightarrow> bool" where
  "executing_for i (Entered c a) = (r_timer c = i)"
| "executing_for i (Executing c a t) = (r_timer c = i)"
| "executing_for i (Reporting c o1 reason e) = (r_timer c = i)"
| "executing_for i (Finishing k r) = (k = i)"
| "executing_for i _ = False"

fun executing_run :: "worker \<Rightarrow> uuid list" where
  "executing_run (Entered c a) = [r_id c]"
| "executing_run (Executing c a t) = [r_id c]"
| "executing_run (Reporting c o1 reason e) = [r_id c]"
| "executing_run (Finishing k r) = [r]"
| "executing_run _ = []"

lemma executing_count:
  assumes "\<forall>w\<in>set ws. claim_known tof w"
  shows "length (filter (executing_for i) ws) = size (filter_mset (\<lambda>r. tof r = i) (ids_of taken_of ws))"
  using assms
proof (induction ws)
  case (Cons w ws)
  then show ?case by (cases w) (auto simp: ids_of_def)
qed (simp add: ids_of_def)

lemma executing_runs: "mset (concat (map executing_run ws)) = ids_of taken_of ws"
proof (induction ws)
  case (Cons w ws)
  then show ?case by (cases w) (auto simp: ids_of_def)
qed (simp add: ids_of_def)

lemma spawn_ok: "history_ok tof lim (db s) \<Longrightarrow> dispatch_ok tof lim (spawn_dispatcher D got s)"
proof -
  have "ids_of f (replicate n Idle) = {#}" if "f Idle = {#}" for f n
    using that by (induction n) (auto simp: ids_of_def)
  then show "history_ok tof lim (db s) \<Longrightarrow> dispatch_ok tof lim (spawn_dispatcher D got s)"
    by (cases s) (auto simp: spawn_dispatcher_def site.defs dispatch_ok_def lanes_ok_def lane_of_def hints_def taken_def
      empty_lane_def in_lane_def scan_known_def)
qed

lemma dispatch_steps_ok:
  "(dispatch_step E C F D tof lim)\<^sup>*\<^sup>* d d' \<Longrightarrow> dispatch_ok tof lim d \<Longrightarrow> dispatch_ok tof lim d'"
  by (induction rule: rtranclp_induct) (auto intro: dispatch_step_ok)

text \<open>C25: Per-timer order in every interleaving of the pump and the workers of one dispatcher with
  other processes that write the database: if \<open>lim\<close> bounds what the overlap policies a timer is ever
  given admit (one under skip, queue-one and replace, the cap under parallel; an edit below the bound
  is allowed at any time), and a run belongs to one timer for ever, then no more than \<open>lim\<close> of a timer's
  runs execute at once, and no run is executed by two workers.\<close>

theorem lanes_serialize:
  assumes "(dispatch_step E C F D tof lim)\<^sup>*\<^sup>* (spawn_dispatcher D got s) d" "history_ok tof lim (db s)"
  shows "length (filter (executing_for i) (workers d)) \<le> lim i \<and> distinct (concat (map executing_run (workers d)))"
proof -
  have ok: "lanes_ok tof lim d"
    using dispatch_steps_ok [OF assms(1) spawn_ok [OF assms(2)]] by (simp add: dispatch_ok_def)
  have "length (filter (executing_for i) (workers d)) = size (mset (active (lane_of i d)))"
    using executing_count [of "workers d" tof i] lanes_okD(3,6) [OF ok] by (simp add: taken_def)
  also have "\<dots> \<le> lim i" using lanes_okD(5) [OF ok, of i] by (simp add: in_lane_def)
  finally have n: "length (filter (executing_for i) (workers d)) \<le> lim i" .
  have "count (mset (concat (map executing_run (workers d)))) r \<le> 1" for r
    using lanes_okD(4) [OF ok, of r] executing_runs [of "workers d"] by (simp add: taken_def)
  then have "distinct (concat (map executing_run (workers d)))"
    unfolding distinct_count_atmost_1
    by (metis count_mset_0_iff le_antisym less_one linorder_not_less)
  with n show ?thesis by blast
qed

section \<open>No fire is stranded\<close>

lemma in_lane_send: "in_lane (lane_of j (send_hint k r (lane_of k d) d)) = in_lane (lane_of j d) + (if j = k then 1 else 0)"
proof -
  obtain a l2 d2 where t: "token_entry r ((lane_of k d)\<lparr>queued := queued (lane_of k d) @ [r]\<rparr>)
      (d\<lparr>channel := channel d @ [r]\<rparr>) = (a, l2, d2)"
    using prod_cases3 by blast
  note tf = token_entry_fields [OF t]
  have "lane_of j d2 = lane_of j d" by (simp add: lane_of_def tf)
  then show ?thesis using t by (simp add: send_hint_def Let_def tf in_lane_def)
qed

lemma send_hint_fields: "channel (send_hint k r l d) = channel d @ [r]" "channel_open (send_hint k r l d) = channel_open d"
proof -
  obtain a l2 d2 where t: "token_entry r (l\<lparr>queued := queued l @ [r]\<rparr>) (d\<lparr>channel := channel d @ [r]\<rparr>) = (a, l2, d2)"
    using prod_cases3 by blast
  note tf = token_entry_fields [OF t]
  then show "channel (send_hint k r l d) = channel d @ [r]" "channel_open (send_hint k r l d) = channel_open d"
    using t by (simp_all add: send_hint_def Let_def tf)
qed

lemma in_set_nonempty: "x \<in> set xs \<Longrightarrow> xs \<noteq> []"
  by auto

text \<open>
  What a pass may do to a row: nothing, or, to a pending row of a timer that is gone, close it as
  failed with the reason \<open>timer_deleted\<close>.
\<close>

definition closed_deleted :: "run_claim \<Rightarrow> bool" where
  "closed_deleted r \<longleftrightarrow> r_status r = Finished \<and> r_outcome r = Some WakeFailed \<and>
     r_outcome_reason r = Some ''timer_deleted''"

definition row_passed :: "timer list \<Rightarrow> run_claim \<Rightarrow> run_claim \<Rightarrow> bool" where
  "row_passed T r r' \<longleftrightarrow> r' = r \<or>
     row_get t_id (r_timer r) T = None \<and> r_status r = Pending \<and>
       (\<exists>now. r' = finish_row now WakeFailed (Some ''timer_deleted'') r)"

definition passed :: "dispatch \<Rightarrow> dispatch \<Rightarrow> bool" where
  "passed d d' \<longleftrightarrow> timers (db d') = timers (db d) \<and>
     list_all2 (row_passed (timers (db d))) (runs (db d)) (runs (db d'))"

lemma row_passed_refl [simp]: "row_passed T r r"
  by (simp add: row_passed_def)

lemma row_passed_trans: "row_passed T a b \<Longrightarrow> row_passed T b c \<Longrightarrow> row_passed T a c"
  by (auto simp: row_passed_def finish_row_def)

lemma row_passed_id: "row_passed T r r' \<Longrightarrow> r_id r' = r_id r \<and> r_timer r' = r_timer r"
  by (auto simp: row_passed_def finish_row_def)

lemma row_passed_closed: "row_passed T r r' \<Longrightarrow> r' = r \<or> closed_deleted r'"
  by (auto simp: row_passed_def finish_row_def closed_deleted_def)

lemma passed_same: "db d' = db d \<Longrightarrow> passed d d'"
  by (simp add: passed_def list.rel_refl)

lemma passed_trans: "passed a b \<Longrightarrow> passed b c \<Longrightarrow> passed a c"
  unfolding passed_def by (auto elim: list_all2_trans [rotated] intro: row_passed_trans)

lemma passed_keyed: "passed d d' \<Longrightarrow> keyed r_id (runs (db d)) \<Longrightarrow> keyed r_id (runs (db d'))"
proof -
  assume p: "passed d d'" and k: "keyed r_id (runs (db d))"
  have "list_all2 (\<lambda>a b. a = b) (map r_id (runs (db d))) (map r_id (runs (db d')))"
    using p row_passed_id by (auto simp: passed_def list_all2_map1 list_all2_map2 elim: list_all2_mono)
  then have "map r_id (runs (db d')) = map r_id (runs (db d))" by (simp add: list.rel_eq)
  with k show ?thesis by (simp add: keyed_def)
qed

lemma passed_row:
  assumes "passed d d'" "r \<in> set (runs (db d))"
  obtains r' where "r' \<in> set (runs (db d'))" "row_passed (timers (db d)) r r'"
proof -
  obtain n where "n < length (runs (db d))" "runs (db d) ! n = r" using assms(2) by (auto simp: in_set_conv_nth)
  with assms(1) have "runs (db d') ! n \<in> set (runs (db d'))" "row_passed (timers (db d)) r (runs (db d') ! n)"
    by (auto simp: passed_def list_all2_conv_all_nth)
  then show thesis by (rule that)
qed

lemma passed_timer: "passed d d' \<Longrightarrow> get_timer (db d') k = get_timer (db d) k"
  by (simp add: passed_def get_timer_def)

text \<open>Closing the pending claim of a timer that is gone.\<close>

lemma close_deleted_passed:
  assumes "keyed r_id (runs (db d))" "x \<in> set (runs (db d))" "r_id x = r_id c"
    and "r_status x = Pending \<or> closed_deleted x" "get_timer (db d) (r_timer x) = None"
  shows "passed d (close_deleted E c d)"
    "\<exists>x'\<in>set (runs (db (close_deleted E c d))). r_id x' = r_id c \<and> closed_deleted x'"
    "lanes (close_deleted E c d) = lanes d" "channel (close_deleted E c d) = channel d"
    "channel_open (close_deleted E c d) = channel_open d"
proof -
  let ?hit = "\<lambda>r. r_id r = r_id c \<and> open_status (r_status r)"
  let ?f = "finish_row (utc_now E (draws d)) WakeFailed (Some ''timer_deleted'')"
  let ?s = "(db d)\<lparr>runs := row_set ?hit ?f (runs (db d))\<rparr>"
  have uniq: "r = x" if "r \<in> set (runs (db d))" "r_id r = r_id c" for r
    using assms(1-3) that inj_onD [of r_id "set (runs (db d))" r x]
    by (auto simp: keyed_def distinct_map)
  have get: "row_get r_id (r_id c) (runs (db d)) = Some x"
    using row_get_in [OF assms(1,2)] assms(3) by simp
  have n: "row_count ?hit (runs (db d)) = (if open_status (r_status x) then 1 else 0)"
    using row_count_key [OF assms(1), of "r_id c" "\<lambda>r. open_status (r_status r)"] get by simp
  show fields: "lanes (close_deleted E c d) = lanes d" "channel (close_deleted E c d) = channel d"
    "channel_open (close_deleted E c d) = channel_open d"
    by (simp_all add: close_deleted_def Let_def split: sum.splits prod.splits)
  have "passed d (close_deleted E c d) \<and>
    (\<exists>x'\<in>set (runs (db (close_deleted E c d))). r_id x' = r_id c \<and> closed_deleted x')"
  proof (cases "open_status (r_status x)")
    case True
    then have pend: "r_status x = Pending" using assms(4) by (auto simp: open_status_def closed_deleted_def)
    have fx: "?f x \<in> set (runs ?s)" using True assms(2,3) by (force simp: set_row_set)
    have fid: "r_id (?f x) = r_id c" using assms(3) by (simp add: finish_row_def)
    have "r_id c \<in> r_id ` set (runs ?s)" using imageI [OF fx, of r_id] unfolding fid .
    then have "get_run ?s (r_id c) \<noteq> None" unfolding get_run_def row_get_None by simp
    then have db: "db (close_deleted E c d) = ?s"
      using n True by (auto simp: close_deleted_def finish_run_def Let_def)
    have "list_all2 (row_passed (timers (db d))) (runs (db d)) (row_set ?hit ?f (runs (db d)))"
      unfolding row_set_def list_all2_map2
    proof (rule list.rel_refl_strong)
      show "row_passed (timers (db d)) r (if ?hit r then ?f r else r)" if "r \<in> set (runs (db d))" for r
        using uniq [OF that] pend assms(5) by (auto simp: row_passed_def get_timer_def)
    qed
    then have "passed d (close_deleted E c d)" using db by (simp add: passed_def)
    then show ?thesis using fx db assms(3)
      by (intro conjI bexI [of _ "?f x"]) (simp_all add: finish_row_def closed_deleted_def)
  next
    case False
    then have "db (close_deleted E c d) = db d"
      using n by (auto simp: close_deleted_def finish_run_def Let_def)
    moreover have "closed_deleted x" using False assms(4) by (auto simp: open_status_def)
    ultimately show ?thesis using assms(2,3) passed_same [of "close_deleted E c d" d] by auto
  qed
  then show "passed d (close_deleted E c d)"
    "\<exists>x'\<in>set (runs (db (close_deleted E c d))). r_id x' = r_id c \<and> closed_deleted x'" by blast+
qed

text \<open>What one lane's turn of a pass leaves: the lane of a timer that exists.\<close>

lemma dispatch_lane_served:
  assumes "dispatch_lane E D k cs d = (stop, d')" "get_timer (db d) k = Some t"
  shows "db d' = db d \<and> (\<forall>j. in_lane (lane_of j d) \<le> in_lane (lane_of j d')) \<and>
    channel_open d' = channel_open d \<and>
    (stop = QueueFull \<longrightarrow> queue_cap D \<le> length (channel d')) \<and> (stop = ChannelClosed \<longrightarrow> \<not> channel_open d) \<and>
    (stop = NextTimer \<longrightarrow> cs \<noteq> [] \<longrightarrow> 0 < lane_limit (t_overlap t) \<longrightarrow> 0 < in_lane (lane_of k d'))"
  using assms
proof (induction E D k cs d arbitrary: stop d' rule: dispatch_lane.induct)
  case (2 E D k c cs d)
  let ?d1 = "put_lane k (lane_of k d) d"
  have res: "0 < in_lane (lane_of k d)" if "is_reserved k (r_id c) d"
    using that by (auto simp: is_reserved_def lane_of_def in_lane_def split: option.splits)
  consider (r) "is_reserved k (r_id c) d"
    | (z) "\<not> is_reserved k (r_id c) d" "lane_limit (t_overlap t) = 0"
    | (s) "\<not> is_reserved k (r_id c) d" "0 < lane_limit (t_overlap t)" "in_lane (lane_of k d) < lane_limit (t_overlap t)"
        "channel_open d" "length (channel d) < queue_cap D"
    | (b) "\<not> is_reserved k (r_id c) d" "0 < lane_limit (t_overlap t)"
        "\<not> (in_lane (lane_of k d) < lane_limit (t_overlap t) \<and> channel_open d \<and> length (channel d) < queue_cap D)"
    by blast
  then show ?case
  proof cases
    case r
    with "2.prems"(1) have rec: "dispatch_lane E D k cs d = (stop, d')" by simp
    from "2.IH"(1) [OF r rec "2.prems"(2)] res [OF r] show ?thesis by (meson less_le_trans)
  next
    case z
    with "2.prems" have rec: "dispatch_lane E D k cs d = (stop, d')" by simp
    from "2.IH"(3) [OF z(1) "2.prems"(2) refl z(2) rec "2.prems"(2)] z(2) show ?thesis by simp
  next
    case s
    let ?d2 = "send_hint k (r_id c) (lane_of k d) ?d1"
    have more: "in_lane (lane_of j d) + (if j = k then 1 else 0) = in_lane (lane_of j ?d2)" for j
      using in_lane_send [of j k "r_id c" ?d1] by simp
    from s "2.prems" have rec: "dispatch_lane E D k cs ?d2 = (stop, d')" by (simp add: Let_def)
    have ih: "db d' = db d \<and> (\<forall>j. in_lane (lane_of j ?d2) \<le> in_lane (lane_of j d')) \<and>
        channel_open d' = channel_open d \<and>
        (stop = QueueFull \<longrightarrow> queue_cap D \<le> length (channel d')) \<and> (stop = ChannelClosed \<longrightarrow> \<not> channel_open d)"
      using "2.IH"(4) [OF s(1) "2.prems"(2) refl _ refl refl _ _ s(5) rec] s "2.prems"(2)
      by (simp add: send_hint_fields)
    have "in_lane (lane_of j d) \<le> in_lane (lane_of j d')" for j
      using more [of j] spec [OF conjunct1 [OF conjunct2 [OF ih]], of j] by simp
    moreover have "0 < in_lane (lane_of k d')"
      using more [of k] spec [OF conjunct1 [OF conjunct2 [OF ih]], of k] by simp
    ultimately show ?thesis using ih by blast
  next
    case b
    with "2.prems" have "d' = ?d1" "stop = NextTimer \<longrightarrow> lane_limit (t_overlap t) \<le> in_lane (lane_of k d)"
        "stop = QueueFull \<longrightarrow> queue_cap D \<le> length (channel d)" "stop = ChannelClosed \<longrightarrow> \<not> channel_open d"
      by (auto simp: Let_def split: if_splits)
    with b(2) show ?thesis by auto
  qed
qed simp

text \<open>The lane of a timer that is gone: its claims are closed, but for one a worker has.\<close>

lemma dispatch_lane_gone:
  assumes "dispatch_lane E D k cs d = (stop, d')" "get_timer (db d) k = None"
    and "keyed r_id (runs (db d))"
    and "\<forall>c\<in>set cs. \<exists>x\<in>set (runs (db d)). r_id x = r_id c \<and> r_timer x = k \<and> (r_status x = Pending \<or> closed_deleted x)"
  shows "stop = NextTimer \<and> passed d d' \<and> lanes d' = lanes d \<and> channel_open d' = channel_open d \<and>
    (\<forall>c\<in>set cs. is_reserved k (r_id c) d \<or> (\<exists>x\<in>set (runs (db d')). r_id x = r_id c \<and> closed_deleted x))"
  using assms
proof (induction cs arbitrary: d)
  case Nil
  then show ?case by (simp add: passed_same)
next
  case (Cons c cs)
  show ?case
  proof (cases "is_reserved k (r_id c) d")
    case True
    then show ?thesis using Cons.IH [of d] Cons.prems by simp
  next
    case free: False
    let ?d1 = "close_deleted E c d"
    obtain x where x: "x \<in> set (runs (db d))" "r_id x = r_id c" "r_timer x = k"
      "r_status x = Pending \<or> closed_deleted x" using Cons.prems(4) by auto
    note cl = close_deleted_passed [OF Cons.prems(3) x(1,2,4), of E, unfolded x(3), OF Cons.prems(2)]
    have rec: "dispatch_lane E D k cs ?d1 = (stop, d')" using Cons.prems(1,2) free by simp
    have open1: "\<forall>c\<in>set cs. \<exists>x\<in>set (runs (db ?d1)). r_id x = r_id c \<and> r_timer x = k \<and>
        (r_status x = Pending \<or> closed_deleted x)"
    proof
      fix b assume "b \<in> set cs"
      then obtain y where y: "y \<in> set (runs (db d))" "r_id y = r_id b" "r_timer y = k"
        "r_status y = Pending \<or> closed_deleted y" using Cons.prems(4) by auto
      obtain y' where y': "y' \<in> set (runs (db ?d1))" "row_passed (timers (db d)) y y'"
        by (rule passed_row [OF cl(1) y(1)])
      with y row_passed_id [OF y'(2)] row_passed_closed [OF y'(2)]
      show "\<exists>x\<in>set (runs (db ?d1)). r_id x = r_id b \<and> r_timer x = k \<and> (r_status x = Pending \<or> closed_deleted x)"
        by metis
    qed
    have ih: "stop = NextTimer \<and> passed ?d1 d' \<and> lanes d' = lanes ?d1 \<and> channel_open d' = channel_open ?d1 \<and>
      (\<forall>c\<in>set cs. is_reserved k (r_id c) ?d1 \<or> (\<exists>x\<in>set (runs (db d')). r_id x = r_id c \<and> closed_deleted x))"
      by (rule Cons.IH [OF rec _ passed_keyed [OF cl(1) Cons.prems(3)] open1])
        (simp add: passed_timer [OF cl(1)] Cons.prems(2))
    obtain x1 where x1: "x1 \<in> set (runs (db ?d1))" "r_id x1 = r_id c" "closed_deleted x1" using cl(2) by blast
    obtain x2 where "x2 \<in> set (runs (db d'))" "row_passed (timers (db ?d1)) x1 x2"
      using passed_row [of ?d1 d' x1] ih x1(1) by blast
    with x1 have "\<exists>x\<in>set (runs (db d')). r_id x = r_id c \<and> closed_deleted x"
      using row_passed_id row_passed_closed by metis
    moreover have "is_reserved k r ?d1 = is_reserved k r d" for r by (simp add: is_reserved_def cl(3))
    ultimately show ?thesis using ih passed_trans [OF cl(1)] cl(3,5) by auto
  qed
qed

text \<open>How a claim is served by a pass that goes through.\<close>

definition served :: "timer option \<Rightarrow> run_claim \<Rightarrow> dispatch \<Rightarrow> bool" where
  "served found c d \<longleftrightarrow> (case found of
     Some t \<Rightarrow> 0 < lane_limit (t_overlap t) \<longrightarrow> 0 < in_lane (lane_of (r_timer c) d)
   | None \<Rightarrow> 0 < in_lane (lane_of (r_timer c) d) \<or> (\<exists>r\<in>set (runs (db d)). r_id r = r_id c \<and> closed_deleted r))"

lemma served_later:
  assumes "served found c d" "passed d d'" "\<forall>j. in_lane (lane_of j d) \<le> in_lane (lane_of j d')"
  shows "served found c d'"
proof -
  have lane: "0 < in_lane (lane_of (r_timer c) d) \<Longrightarrow> 0 < in_lane (lane_of (r_timer c) d')"
    using assms(3) less_le_trans by blast
  have "\<exists>r\<in>set (runs (db d')). r_id r = r_id c \<and> closed_deleted r"
    if "\<exists>r\<in>set (runs (db d)). r_id r = r_id c \<and> closed_deleted r"
  proof -
    from that obtain r where r: "r \<in> set (runs (db d))" "r_id r = r_id c" "closed_deleted r" by blast
    obtain r' where r': "r' \<in> set (runs (db d'))" "row_passed (timers (db d)) r r'"
      by (rule passed_row [OF assms(2) r(1)])
    with r row_passed_id [OF r'(2)] row_passed_closed [OF r'(2)] show ?thesis by metis
  qed
  with lane assms(1) show ?thesis by (auto simp: served_def split: option.splits)
qed

text \<open>One turn: a claim of the group is served, nothing that was served is undone.\<close>

lemma dispatch_lane_turn:
  assumes l: "dispatch_lane E D i cs d = (stop, d')" and k: "keyed r_id (runs (db d))"
    and cs: "\<forall>c\<in>set cs. r_timer c = i \<and> (\<exists>x\<in>set (runs (db d)). r_id x = r_id c \<and> r_timer x = i \<and>
      (r_status x = Pending \<or> closed_deleted x))"
  shows "passed d d'" "channel_open d' = channel_open d"
    "\<forall>j. in_lane (lane_of j d) \<le> in_lane (lane_of j d')"
    "stop = QueueFull \<Longrightarrow> queue_cap D \<le> length (channel d')" "stop = ChannelClosed \<Longrightarrow> \<not> channel_open d"
    "stop = NextTimer \<Longrightarrow> c \<in> set cs \<Longrightarrow> served (get_timer (db d) i) c d'"
proof -
  have "passed d d' \<and> channel_open d' = channel_open d \<and> (\<forall>j. in_lane (lane_of j d) \<le> in_lane (lane_of j d')) \<and>
    (stop = QueueFull \<longrightarrow> queue_cap D \<le> length (channel d')) \<and> (stop = ChannelClosed \<longrightarrow> \<not> channel_open d) \<and>
    (stop = NextTimer \<longrightarrow> c \<in> set cs \<longrightarrow> served (get_timer (db d) i) c d')"
  proof (cases "get_timer (db d) i")
    case (Some t)
    from dispatch_lane_served [OF l Some] passed_same [of d' d] cs show ?thesis
      by (auto simp: served_def Some dest: in_set_nonempty)
  next
    case None
    have res: "0 < in_lane (lane_of i d)" if "is_reserved i r d" for r
      using that by (auto simp: is_reserved_def lane_of_def in_lane_def split: option.splits)
    have same: "lane_of j d' = lane_of j d" if "lanes d' = lanes d" for j
      using that by (simp add: lane_of_def)
    from dispatch_lane_gone [OF l None k] cs same show ?thesis
      by (auto simp: served_def None dest: res)
  qed
  then show "passed d d'" "channel_open d' = channel_open d"
    "\<forall>j. in_lane (lane_of j d) \<le> in_lane (lane_of j d')"
    "stop = QueueFull \<Longrightarrow> queue_cap D \<le> length (channel d')" "stop = ChannelClosed \<Longrightarrow> \<not> channel_open d"
    "stop = NextTimer \<Longrightarrow> c \<in> set cs \<Longrightarrow> served (get_timer (db d) i) c d'" by blast+
qed

lemma dispatch_timers_served:
  assumes "dispatch_timers E D (grouped order P) d = (stop, d')" "keyed r_id (runs (db d))"
    and "\<And>c. c \<in> set P \<Longrightarrow> \<exists>x\<in>set (runs (db d)). r_id x = r_id c \<and> r_timer x = r_timer c \<and>
      (r_status x = Pending \<or> closed_deleted x)"
  shows "passed d d' \<and> (\<forall>j. in_lane (lane_of j d) \<le> in_lane (lane_of j d')) \<and>
    (stop = QueueFull \<longrightarrow> queue_cap D \<le> length (channel d')) \<and>
    (stop = ChannelClosed \<longrightarrow> \<not> channel_open d) \<and>
    (stop = NextTimer \<longrightarrow> (\<forall>c\<in>set P. r_timer c \<in> set order \<longrightarrow> served (get_timer (db d) (r_timer c)) c d'))"
  using assms
proof (induction order arbitrary: d)
  case Nil
  then show ?case by (simp add: grouped_def passed_same)
next
  case (Cons i order)
  let ?cs = "sort_key r_event_sequence (filter (\<lambda>c. r_timer c = i) P)"
  obtain st d1 where l: "dispatch_lane E D i ?cs d = (st, d1)" by (cases "dispatch_lane E D i ?cs d")
  have "\<forall>c\<in>set ?cs. r_timer c = i \<and> (\<exists>x\<in>set (runs (db d)). r_id x = r_id c \<and> r_timer x = i \<and>
      (r_status x = Pending \<or> closed_deleted x))" using Cons.prems(3) by auto
  note turn = dispatch_lane_turn [OF l Cons.prems(2) this]
  show ?case
  proof (cases "st = NextTimer")
    case False
    with Cons.prems(1) l have "stop = st" "d' = d1" by (cases st; simp add: grouped_def)+
    with turn False show ?thesis by blast
  next
    case True
    with Cons.prems(1) l have rest: "dispatch_timers E D (grouped order P) d1 = (stop, d')"
      by (simp add: grouped_def)
    have open1: "\<exists>x\<in>set (runs (db d1)). r_id x = r_id c \<and> r_timer x = r_timer c \<and>
      (r_status x = Pending \<or> closed_deleted x)" if "c \<in> set P" for c
    proof -
      obtain y where y: "y \<in> set (runs (db d))" "r_id y = r_id c" "r_timer y = r_timer c"
        "r_status y = Pending \<or> closed_deleted y" using Cons.prems(3) [of c] \<open>c \<in> set P\<close> by blast
      obtain y' where y': "y' \<in> set (runs (db d1))" "row_passed (timers (db d)) y y'"
        by (rule passed_row [OF turn(1) y(1)])
      with y row_passed_id [OF y'(2)] row_passed_closed [OF y'(2)] show ?thesis by metis
    qed
    note ih = Cons.IH [OF rest passed_keyed [OF turn(1) Cons.prems(2)] open1]
    have "served (get_timer (db d) (r_timer c)) c d'"
      if "stop = NextTimer" "c \<in> set P" "r_timer c \<in> set (i # order)" for c
    proof (cases "r_timer c = i")
      case own: True
      then have "served (get_timer (db d) i) c d1" using turn(6) [OF True, of c] that(2) by simp
      with own ih served_later show ?thesis by blast
    next
      case False
      with ih that show ?thesis using passed_timer [OF turn(1)] by auto
    qed
    moreover have "passed d d'" using ih passed_trans [OF turn(1)] by blast
    moreover have "\<forall>j. in_lane (lane_of j d) \<le> in_lane (lane_of j d')"
      using ih turn(3) le_trans by blast
    ultimately show ?thesis using ih turn(2) by blast
  qed
qed

text \<open>C26: No fire is stranded by the bounded queue. A pass over the pending claims it has just read
  leaves every timer and every run of an existing timer as it was; a run of a deleted timer is either
  the same row or was pending and is closed as failed with the reason \<open>timer_deleted\<close>. When the pass
  goes through, every existing timer with a pending claim and a limit above zero has a run in its
  lane, and every pending claim of a deleted timer is closed, unless a run of that timer is still in
  its lane. When it stops at a full queue, the queue does hold its capacity of hints, whose completion
  starts the next pass; when it stops at a closed channel, the dispatcher is shutting down.\<close>

theorem pass_strands_nothing:
  assumes "dispatch_timers E D (grouped order (pending_claims (db d))) d = (stop, d')"
    and "keyed r_id (runs (db d))"
  shows "timers (db d') = timers (db d) \<and>
    list_all2 (row_passed (timers (db d))) (runs (db d)) (runs (db d')) \<and>
    (stop = QueueFull \<longrightarrow> queue_cap D \<le> length (channel d')) \<and>
    (stop = ChannelClosed \<longrightarrow> \<not> channel_open d) \<and>
    (stop = NextTimer \<longrightarrow> (\<forall>c\<in>set (pending_claims (db d)). r_timer c \<in> set order \<longrightarrow>
       (case get_timer (db d) (r_timer c) of
          Some t \<Rightarrow> 0 < lane_limit (t_overlap t) \<longrightarrow> 0 < in_lane (lane_of (r_timer c) d')
        | None \<Rightarrow> 0 < in_lane (lane_of (r_timer c) d') \<or>
            (\<exists>r\<in>set (runs (db d')). r_id r = r_id c \<and> closed_deleted r))))"
proof -
  have pend: "\<exists>x\<in>set (runs (db d)). r_id x = r_id c \<and> r_timer x = r_timer c \<and> (r_status x = Pending \<or> closed_deleted x)"
    if "c \<in> set (pending_claims (db d))" for c
    using that by (auto simp: pending_claims_def)
  from dispatch_timers_served [OF assms pend] show ?thesis
    unfolding passed_def served_def by blast
qed

section \<open>Witnesses\<close>

text \<open>One pending run of the sample timer (which skips overlaps), two workers, no data directory.\<close>

definition lone_config :: dispatch_config where
  "lone_config = \<lparr> d_data_dir = None, d_max_concurrent_actions = 2, d_ipc = None \<rparr>"

definition waiting_run :: run_claim where
  "waiting_run = \<lparr> r_id = 7, r_timer = 3, r_scheduled_for = 100, r_status = Pending, r_claimed_at = 105,
     r_completed_at = None, r_event_sequence = 1, r_outcome = None, r_outcome_reason = None,
     r_cancel_requested = False \<rparr>"

definition waiting_site :: site where
  "waiting_site = \<lparr> db = sample_store\<lparr>runs := [waiting_run]\<rparr>, draws = 0, book = [], armed_hints = [],
     anchors = [], files = [], folders = [] \<rparr>"

definition ready :: dispatch where
  "ready = \<lparr> db = sample_store\<lparr>runs := [waiting_run]\<rparr>, draws = 0, book = [], armed_hints = [],
     anchors = [], files = [], folders = [], lanes = [], channel = [], channel_open = True, phase = Started,
     owns_lock = True, flags = [], workers = [Idle, Idle], scanned = None \<rparr>"

abbreviation "lane7 \<equiv> \<lparr> queued = [7], active = [], tokens = [(7, 0)] \<rparr>"

lemma waiting_fields:
  "r_id waiting_run = 7" "r_timer waiting_run = 3" "r_status waiting_run = Pending" "r_cancel_requested waiting_run = False"
  by (simp_all add: waiting_run_def)

lemma ready_pass:
  "dispatch_timers sample_env lone_config (grouped [3] (pending_claims (db ready))) ready =
     (NextTimer, ready\<lparr>lanes := [(3, lane7)], channel := [7], flags := [False]\<rparr>)"
proof -
  have pend: "pending_claims (db ready) = [waiting_run]"
    by (simp add: pending_claims_def ready_def waiting_fields)
  have get: "get_timer (db ready) 3 = Some sample_timer"
    by (simp add: get_timer_def row_get_def ready_def sample_store_def sample_timer_fields)
  have cap: "lane_limit (t_overlap sample_timer) = 1"
    by (simp add: sample_timer_def sample_new_def new_timer_new_def new_timer_row_def timer_row_def lane_limit_def)
  have l: "lanes ready = []" "channel ready = []" "channel_open ready" "flags ready = []"
    by (simp_all add: ready_def)
  show ?thesis
    by (simp add: grouped_def pend waiting_fields is_reserved_def l get cap lane_of_def empty_lane_def in_lane_def
        queue_cap_def lone_config_def worker_count_def send_hint_def token_entry_def put_lane_def Let_def hm_put_def
        upsert_def row_get_def row_set_def)
qed

theorem pass_strands_nothing_witness:
  "\<exists>d'. dispatch_timers sample_env lone_config (grouped [3] (pending_claims (db ready))) ready = (NextTimer, d') \<and>
     list_all2 (row_passed (timers (db ready))) (runs (db ready)) (runs (db d')) \<and> 0 < in_lane (lane_of 3 d')"
proof -
  let ?d = "ready\<lparr>lanes := [(3, lane7)], channel := [7], flags := [False]\<rparr>"
  have k: "keyed r_id (runs (db ready))" by (simp add: keyed_def ready_def)
  have c: "waiting_run \<in> set (pending_claims (db ready))"
    by (simp add: pending_claims_def ready_def waiting_fields)
  have get: "get_timer (db ready) (r_timer waiting_run) = Some sample_timer"
    by (simp add: get_timer_def row_get_def ready_def sample_store_def sample_timer_fields waiting_fields)
  have cap: "0 < lane_limit (t_overlap sample_timer)"
    by (simp add: sample_timer_def sample_new_def new_timer_new_def new_timer_row_def timer_row_def lane_limit_def)
  note all = pass_strands_nothing [OF ready_pass k]
  have "list_all2 (row_passed (timers (db ready))) (runs (db ready)) (runs (db ?d))" using all by blast
  moreover have "case get_timer (db ready) (r_timer waiting_run) of
      Some t \<Rightarrow> 0 < lane_limit (t_overlap t) \<longrightarrow> 0 < in_lane (lane_of (r_timer waiting_run) ?d)
    | None \<Rightarrow> 0 < in_lane (lane_of (r_timer waiting_run) ?d) \<or>
        (\<exists>r\<in>set (runs (db ?d)). r_id r = r_id waiting_run \<and> closed_deleted r)"
    using all c by (simp add: waiting_fields)
  then have "0 < in_lane (lane_of 3 ?d)" using cap unfolding get by (simp add: waiting_fields)
  ultimately show ?thesis using ready_pass by blast
qed

theorem lanes_serialize_witness:
  "\<exists>d. (dispatch_step sample_env sample_codec no_faults lone_config (\<lambda>_. 3) (\<lambda>_. 1))\<^sup>*\<^sup>*
       (spawn_dispatcher lone_config False waiting_site) d \<and>
     workers d = [Entered waiting_run 0, Idle] \<and> length (filter (executing_for 3) (workers d)) \<le> 1"
proof -
  let ?R = "dispatch_step sample_env sample_codec no_faults lone_config (\<lambda>_. 3) (\<lambda>_. 1)"
  let ?d0 = "spawn_dispatcher lone_config False waiting_site"
  let ?d2 = "ready\<lparr>scanned := Some (grouped [3] (pending_claims (db ready)))\<rparr>"
  let ?d3 = "ready\<lparr>lanes := [(3, lane7)], channel := [7], flags := [False]\<rparr>"
  let ?d4 = "set_worker 0 (Hinted 7) (?d3\<lparr>channel := []\<rparr>)"
  let ?d5 = "set_worker 0 (Loaded waiting_run) ?d4"
  let ?d6 = "set_worker 0 (Activated waiting_run) (?d5\<lparr>db := snd (activate_run 7 (db ready))\<rparr>)"
  have 1: "?R ?d0 ready"
  proof -
    have "begin_startup lone_config (Inr True) ?d0 = ready"
      by (simp add: begin_startup_def try_take_lock_def spawn_dispatcher_def lone_config_def waiting_site_def
          ready_def worker_count_def numeral_2_eq_2 site.defs)
    with dispatch_step.startup [of sample_env sample_codec no_faults lone_config "\<lambda>_. 3" "\<lambda>_. 1" ?d0 "Inr True"]
    show ?thesis by simp
  qed
  have 2: "?R ready ?d2"
  proof -
    have "pump_scan lone_config [3] ready = ?d2"
      by (simp add: pump_scan_def may_pump_def ready_def cancel_tokens_def)
    moreover have "set [3] = r_timer ` set (pending_claims (db ready))"
      by (simp add: pending_claims_def ready_def waiting_fields)
    ultimately show ?thesis
      using dispatch_step.scan [of ready "[3]" sample_env sample_codec no_faults lone_config "\<lambda>_. 3" "\<lambda>_. 1"]
      by (simp add: ready_def)
  qed
  have 3: "?R ?d2 ?d3"
  proof (rule dispatch_step.pass)
    have none: "?d2\<lparr>scanned := None\<rparr> = ready" by (simp add: ready_def)
    show "pump_dispatch sample_env sample_codec no_faults lone_config ?d2 = Some (NextTimer, ?d3)"
      using ready_pass unfolding pump_dispatch_def
      by (simp add: none) (simp add: lone_config_def)
  qed
  have 4: "?R ?d3 ?d4" by (rule dispatch_step.receive) (simp_all add: ready_def)
  have 5: "?R ?d4 ?d5"
    by (rule dispatch_step.load [where r = 7])
      (simp_all add: ready_def job_load_def get_run_def row_get_def waiting_fields)
  have 6: "?R ?d5 ?d6"
    by (rule dispatch_step.activate [where c = waiting_run])
      (simp_all add: ready_def job_activate_def waiting_fields activate_run_def row_count_def Let_def)
  let ?d7 = "set_worker 0 (Entered waiting_run 0) (?d6\<lparr>lanes := [(3, \<lparr> queued = [], active = [7], tokens = [(7, 0)] \<rparr>)]\<rparr>)"
  have 7: "?R ?d6 ?d7"
    by (rule dispatch_step.enter [where c = waiting_run])
      (simp_all add: ready_def job_enter_def enter_lane_def waiting_fields lane_of_def hm_get_Cons retain_lane_def
        token_entry_def put_lane_def hm_put_def upsert_def row_get_def row_set_def Let_def set_worker_def)
  from 1 2 3 4 5 6 7 have r: "?R\<^sup>*\<^sup>* ?d0 ?d7" by (meson converse_rtranclp_into_rtranclp rtranclp.rtrancl_refl)
  have h: "history_ok (\<lambda>_. 3) (\<lambda>_. 1) (db waiting_site)"
    by (simp add: history_ok_def waiting_site_def waiting_fields sample_store_def sample_timer_def sample_new_def
        new_timer_new_def new_timer_row_def timer_row_def lane_limit_def empty_store_def)
  from lanes_serialize [OF r h, of 3] r show ?thesis by (intro exI [of _ ?d7]) (simp add: ready_def)
qed

end
