(* ===== verification/Event_Log.thy ===== *)
theory Event_Log
  imports Quarantine
begin

text \<open>
  The JSONL event log (\<open>events/log.rs\<close>, \<open>events/reader.rs\<close>): the live file, the archive
  directory, rotation by rename and gzip, retention by age and by budget, the tolerant reader.

  A file is its bytes and its modification time; the log directory is an association list from
  paths. Every operation that can fail (a file system call, a statement on the database) is one
  numbered step of the world: the parameter \<open>op_fails\<close> says which steps fail, and a step that
  fails leaves behind what the parameter \<open>op_torn\<close> allows. A process that is killed before its
  \<open>n\<close>th step leaves the world a failing \<open>n\<close>th step leaves, so the same parameter covers crashes.
  The open append handle is not shown: a write re-anchors on the file the path names
  (\<open>ensure_fresh_handle\<close>), creating it when it is missing.

  The crates the code calls are the rest of the record \<open>log_env\<close>: \<open>flate2\<close>, \<open>serde_json\<close> on an
  event line, \<open>chrono\<close>'s ISO week, the advisory file lock.
\<close>

section \<open>Configuration and errors\<close>

record log_config =
  logs_dir :: string
  lc_retention :: span
  max_current_bytes :: nat
  budget_bytes :: nat

definition CURRENT_FILE_NAME :: string where "CURRENT_FILE_NAME = ''events.current.jsonl''"
definition DEFAULT_RETENTION_DAYS :: nat where "DEFAULT_RETENTION_DAYS = 30"
definition DEFAULT_MAX_CURRENT_BYTES :: nat where "DEFAULT_MAX_CURRENT_BYTES = 64 * 1024 * 1024"
definition DEFAULT_BUDGET_BYTES :: nat where "DEFAULT_BUDGET_BYTES = 1024 * 1024 * 1024"

definition log_config_new :: "string \<Rightarrow> log_config" where
  "log_config_new dir = \<lparr> logs_dir = dir,
     lc_retention = DEFAULT_RETENTION_DAYS * 24 * 60 * 60 * nat sec_ns,
     max_current_bytes = DEFAULT_MAX_CURRENT_BYTES, budget_bytes = DEFAULT_BUDGET_BYTES \<rparr>"

datatype event_log_error = LogIo string | LogSerialize string

record log_file =
  lf_bytes :: string
  lf_mtime :: instant

record log_env =
  op_fails :: "nat \<Rightarrow> bool"
  op_torn :: "nat \<Rightarrow> nat"
  journal_unreadable :: "nat \<Rightarrow> bool"
  outbox_unreadable :: "nat \<Rightarrow> bool"
  log_unreadable :: "string \<Rightarrow> bool"
  lease_free :: "nat \<Rightarrow> bool option"
  log_now :: "nat \<Rightarrow> instant"
  iso_week_of :: "instant \<Rightarrow> int \<times> nat"
  gzip :: "string \<Rightarrow> string"
  gunzip :: "string \<Rightarrow> string option"
  event_line :: "event \<Rightarrow> string"
  event_of_line :: "string \<Rightarrow> event option"
  valid_utf8 :: "string \<Rightarrow> bool"

text \<open>The publisher's own fields, beside the store and the files of the timers tree.\<close>

record publisher_health =
  ph_leader :: bool
  ph_pending_events :: nat
  ph_last_error :: "event_log_error option"
  ph_last_error_at :: "instant option"
  ph_last_ok_at :: "instant option"

record press = site +
  log_files :: "(string \<times> log_file) list"
  op_count :: nat
  leased :: bool
  p_last_error :: "event_log_error option"
  p_last_error_at :: "instant option"
  p_last_ok_at :: "instant option"
  p_last_written :: "(bool \<times> event_log_error option \<times> nat) option"
  health_doc :: "publisher_health option"
  bad_entries :: "bad_entry list"

section \<open>Steps that may fail\<close>

type_synonym ('z, 'a) logged = "'z press_scheme \<Rightarrow> (event_log_error + 'a) \<times> 'z press_scheme"

definition bindL :: "('z, 'a) logged \<Rightarrow> ('a \<Rightarrow> ('z, 'b) logged) \<Rightarrow> ('z, 'b) logged" where
  "bindL m f = (\<lambda>w. case m w of (Inl e, w1) \<Rightarrow> (Inl e, w1) | (Inr x, w1) \<Rightarrow> f x w1)"

definition retL :: "'a \<Rightarrow> ('z, 'a) logged" where
  "retL x = (\<lambda>w. (Inr x, w))"

definition bump :: "'z press_scheme \<Rightarrow> 'z press_scheme" where
  "bump w = w\<lparr>op_count := Suc (op_count w)\<rparr>"

definition attempt ::
  "log_env \<Rightarrow> ('z press_scheme \<Rightarrow> 'z press_scheme) \<Rightarrow> ('z press_scheme \<Rightarrow> 'z press_scheme) \<Rightarrow> ('z, unit) logged" where
  "attempt G partly fully w =
     (if op_fails G (op_count w) then (Inl (LogIo ''os error''), bump (partly w))
      else (Inr (), bump (fully w)))"

definition log_at :: "'z press_scheme \<Rightarrow> string \<Rightarrow> log_file option" where
  "log_at w p = hm_get p (log_files w)"

definition log_put :: "string \<Rightarrow> log_file \<Rightarrow> 'z press_scheme \<Rightarrow> 'z press_scheme" where
  "log_put p f w = w\<lparr>log_files := hm_put p f (log_files w)\<rparr>"

definition log_del :: "string \<Rightarrow> 'z press_scheme \<Rightarrow> 'z press_scheme" where
  "log_del p w = w\<lparr>log_files := hm_remove p (log_files w)\<rparr>"

definition log_exists :: "'z press_scheme \<Rightarrow> string \<Rightarrow> bool" where
  "log_exists w p \<longleftrightarrow> log_at w p \<noteq> None"

definition file_len :: "'z press_scheme \<Rightarrow> string \<Rightarrow> nat" where
  "file_len w p = (case log_at w p of None \<Rightarrow> 0 | Some f \<Rightarrow> length (lf_bytes f))"

text \<open>\<open>fs::rename\<close>, \<open>fs::remove_file\<close> (and the publisher's tolerant one), the directory sync.\<close>

definition fs_rename :: "log_env \<Rightarrow> string \<Rightarrow> string \<Rightarrow> ('z, unit) logged" where
  "fs_rename G a b w =
     (case log_at w a of
        None \<Rightarrow> (Inl (LogIo ''No such file or directory''), bump w)
      | Some f \<Rightarrow> attempt G id (log_put b f \<circ> log_del a) w)"

definition remove_file :: "log_env \<Rightarrow> string \<Rightarrow> ('z, unit) logged" where
  "remove_file G p w =
     (if log_exists w p then attempt G id (log_del p) w
      else (Inl (LogIo ''No such file or directory''), bump w))"

definition remove_if_exists :: "log_env \<Rightarrow> string \<Rightarrow> ('z, unit) logged" where
  "remove_if_exists G p w = (if log_exists w p then attempt G id (log_del p) w else (Inr (), bump w))"

definition sync_dir :: "log_env \<Rightarrow> ('z, unit) logged" where
  "sync_dir G = attempt G id id"

section \<open>Names\<close>

definition current_path :: "log_config \<Rightarrow> string" where
  "current_path c = path_join (logs_dir c) CURRENT_FILE_NAME"

definition archive_dir :: "log_config \<Rightarrow> string" where
  "archive_dir c = path_join (logs_dir c) ''archive''"

definition gz_path_for :: "string \<Rightarrow> string" where
  "gz_path_for plain = plain @ ''.gz''"

definition two_digits :: "nat \<Rightarrow> string" where
  "two_digits n = (if n < 10 then ''0'' @ Event_Record.decimal n else Event_Record.decimal n)"

definition year_text :: "int \<Rightarrow> string" where
  "year_text y = (if y < 0 then ''-'' @ Event_Record.decimal (nat (- y)) else Event_Record.decimal (nat y))"

definition archive_base :: "log_env \<Rightarrow> instant \<Rightarrow> string" where
  "archive_base G now =
     (let (y, n) = iso_week_of G now in ''events-'' @ year_text y @ ''-W'' @ two_digits n)"

definition name_taken :: "log_config \<Rightarrow> string \<Rightarrow> 'z press_scheme \<Rightarrow> bool" where
  "name_taken c name w \<longleftrightarrow>
     log_exists w (path_join (archive_dir c) name) \<or>
     log_exists w (path_join (archive_dir c) (gz_path_for name))"

definition archive_candidate :: "string \<Rightarrow> nat \<Rightarrow> string" where
  "archive_candidate base n =
     (if n < 2 then base @ ''.jsonl'' else base @ ''.'' @ Event_Record.decimal n @ ''.jsonl'')"

text \<open>The file name of \<open>unique_archive_path\<close>, the plain name; the archive is \<open>gz_path_for\<close> of it.\<close>

definition unique_archive_name ::
  "log_env \<Rightarrow> log_config \<Rightarrow> instant \<Rightarrow> 'z press_scheme \<Rightarrow> event_log_error + string" where
  "unique_archive_name G c now w =
     (let base = archive_base G now in
      case List.find (\<lambda>n. \<not> name_taken c (archive_candidate base n) w) [1..<10000] of
        Some n \<Rightarrow> Inr (archive_candidate base n)
      | None \<Rightarrow> Inl (LogIo (''could not allocate unique archive name under '' @ archive_dir c)))"

definition is_archive_name :: "string \<Rightarrow> bool" where
  "is_archive_name n \<longleftrightarrow>
     starts_with n ''events-'' \<and> (ends_with n ''.jsonl'' \<or> ends_with n ''.jsonl.gz'')"

section \<open>Appending\<close>

definition ensure_open :: "log_env \<Rightarrow> log_config \<Rightarrow> ('z, unit) logged" where
  "ensure_open G c w =
     attempt G id (\<lambda>w. if log_exists w (current_path c) then w
                       else log_put (current_path c) \<lparr>lf_bytes = [], lf_mtime = log_now G (op_count w)\<rparr> w) w"

definition append_bytes :: "log_env \<Rightarrow> string \<Rightarrow> string \<Rightarrow> 'z press_scheme \<Rightarrow> 'z press_scheme" where
  "append_bytes G p bytes w =
     (let old = (case log_at w p of None \<Rightarrow> [] | Some f \<Rightarrow> lf_bytes f) in
      log_put p \<lparr>lf_bytes = old @ bytes, lf_mtime = log_now G (op_count w)\<rparr> w)"

text \<open>\<open>write_all\<close> and \<open>sync_data\<close> as one step: a failure may have written a part of the line.\<close>

definition append_line_synced :: "log_env \<Rightarrow> log_config \<Rightarrow> string \<Rightarrow> ('z, unit) logged" where
  "append_line_synced G c line =
     bindL (ensure_open G c) (\<lambda>_ w.
       attempt G (append_bytes G (current_path c) (take (op_torn G (op_count w)) line))
                 (append_bytes G (current_path c) line) w)"

definition current_len :: "log_config \<Rightarrow> 'z press_scheme \<Rightarrow> nat" where
  "current_len c w = file_len w (current_path c)"

definition close_handle :: "log_env \<Rightarrow> ('z, unit) logged" where
  "close_handle G = attempt G id id"

definition reopen :: "log_env \<Rightarrow> log_config \<Rightarrow> ('z, unit) logged" where
  "reopen G c = ensure_open G c"

text \<open>\<open>gzip_file\<close>: a failure leaves a truncated output.\<close>

definition gzip_file :: "log_env \<Rightarrow> string \<Rightarrow> string \<Rightarrow> ('z, unit) logged" where
  "gzip_file G src dst w =
     (case log_at w src of
        None \<Rightarrow> (Inl (LogIo ''No such file or directory''), bump w)
      | Some f \<Rightarrow>
          let z = gzip G (lf_bytes f); t = log_now G (op_count w) in
          attempt G (log_put dst \<lparr>lf_bytes = take (op_torn G (op_count w)) z, lf_mtime = t\<rparr>)
                    (log_put dst \<lparr>lf_bytes = z, lf_mtime = t\<rparr>) w)"

section \<open>Retention\<close>

record archive_entry =
  ae_name :: string
  ae_len :: nat
  ae_mtime :: instant

text \<open>\<open>read_dir\<close> of the archive directory: the files whose path is the directory and one name.\<close>

definition strip_prefix :: "string \<Rightarrow> string \<Rightarrow> string option" where
  "strip_prefix s p = (if starts_with s p then Some (drop (length p) s) else None)"

definition in_archive :: "log_config \<Rightarrow> string \<Rightarrow> string option" where
  "in_archive c p =
     (case strip_prefix p (archive_dir c @ ''/'') of
        None \<Rightarrow> None | Some n \<Rightarrow> if n = [] \<or> CHR ''/'' \<in> set n then None else Some n)"

definition read_archive_dir :: "log_config \<Rightarrow> (string \<times> log_file) list \<Rightarrow> (string \<times> log_file) list" where
  "read_archive_dir c fs =
     List.map_filter (\<lambda>(p, f). map_option (\<lambda>n. (n, f)) (in_archive c p)) fs"

definition list_archives :: "log_config \<Rightarrow> 'z press_scheme \<Rightarrow> archive_entry list" where
  "list_archives c w =
     map (\<lambda>(n, f). \<lparr>ae_name = n, ae_len = length (lf_bytes f), ae_mtime = lf_mtime f\<rparr>)
       (filter (\<lambda>(n, f). is_archive_name n) (read_archive_dir c (log_files w)))"

record retain_report =
  rr_aged :: "string list"
  rr_budget :: "string list"
  rr_bytes_removed :: nat

definition empty_retain :: retain_report where
  "empty_retain = \<lparr>rr_aged = [], rr_budget = [], rr_bytes_removed = 0\<rparr>"

definition removed_count :: "retain_report \<Rightarrow> nat" where
  "removed_count r = length (rr_aged r) + length (rr_budget r)"

text \<open>
  Interrupted-rotation strays: gzip temporaries, and a plain archive whose compressed twin
  exists. Their deletion is best effort.
\<close>

definition is_stray :: "log_config \<Rightarrow> string \<Rightarrow> 'z press_scheme \<Rightarrow> bool" where
  "is_stray c n w \<longleftrightarrow>
     starts_with n ''.'' \<and> ends_with n ''.tmp'' \<or>
     starts_with n ''events-'' \<and> ends_with n ''.jsonl'' \<and>
       log_exists w (path_join (archive_dir c) (gz_path_for n))"

fun clean_strays :: "log_env \<Rightarrow> log_config \<Rightarrow> string list \<Rightarrow> 'z press_scheme \<Rightarrow> 'z press_scheme" where
  "clean_strays G c [] w = w"
| "clean_strays G c (n # ns) w =
     clean_strays G c ns
       (if is_stray c n w then snd (remove_file G (path_join (archive_dir c) n) w) else w)"

text \<open>The age pass and the budget pass; each stops at a deletion that fails.\<close>

fun retain_age ::
  "log_env \<Rightarrow> log_config \<Rightarrow> instant \<Rightarrow> archive_entry list \<Rightarrow> retain_report \<Rightarrow> ('z, retain_report) logged" where
  "retain_age G c cutoff [] r = retL r"
| "retain_age G c cutoff (e # es) r =
     (if ae_mtime e < cutoff
      then bindL (remove_file G (path_join (archive_dir c) (ae_name e))) (\<lambda>_.
             retain_age G c cutoff es
               (r\<lparr>rr_aged := rr_aged r @ [ae_name e], rr_bytes_removed := rr_bytes_removed r + ae_len e\<rparr>))
      else retain_age G c cutoff es r)"

fun retain_budget ::
  "log_env \<Rightarrow> log_config \<Rightarrow> nat \<Rightarrow> archive_entry list \<Rightarrow> retain_report \<Rightarrow> ('z, retain_report) logged" where
  "retain_budget G c used [] r = retL r"
| "retain_budget G c used (e # es) r =
     (if used \<le> budget_bytes c then retL r
      else bindL (remove_file G (path_join (archive_dir c) (ae_name e))) (\<lambda>_.
             retain_budget G c (used - ae_len e) es
               (r\<lparr>rr_budget := rr_budget r @ [ae_name e],
                  rr_bytes_removed := rr_bytes_removed r + ae_len e\<rparr>)))"

text \<open>\<open>SystemTime::now().checked_sub(retention)\<close>, the epoch when it is before the range.\<close>

definition retain_cutoff :: "log_env \<Rightarrow> log_config \<Rightarrow> 'z press_scheme \<Rightarrow> instant" where
  "retain_cutoff G c w = log_now G (op_count w) - int (lc_retention c)"

definition oldest_first :: "archive_entry list \<Rightarrow> archive_entry list" where
  "oldest_first es = sort_key (\<lambda>e. (ae_mtime e, ae_name e)) es"

definition retain :: "log_env \<Rightarrow> log_config \<Rightarrow> ('z, retain_report) logged" where
  "retain G c w =
     (let w1 = clean_strays G c (map fst (read_archive_dir c (log_files w))) w in
      bindL (retain_age G c (retain_cutoff G c w1) (list_archives c w1) empty_retain) (\<lambda>r w2.
        let archives = oldest_first (list_archives c w2) in
        retain_budget G c (sum_list (map ae_len archives) + current_len c w2) archives r w2) w1)"

section \<open>Reading lines\<close>

text \<open>\<open>str::lines\<close>: pieces ended by a newline, the last one possibly without, a final carriage
  return of a piece dropped.\<close>

definition NL :: char where "NL = char_of (10 :: nat)"
definition CR :: char where "CR = char_of (13 :: nat)"

fun raw_lines :: "string \<Rightarrow> string list" where
  "raw_lines [] = []"
| "raw_lines (x # xs) =
     (if x = NL then [] # raw_lines xs
      else case raw_lines xs of [] \<Rightarrow> [[x]] | l # ls \<Rightarrow> (x # l) # ls)"

definition chomp :: "string \<Rightarrow> string" where
  "chomp l = (if l \<noteq> [] \<and> last l = CR then butlast l else l)"

definition lines_of :: "string \<Rightarrow> string list" where
  "lines_of s = map chomp (raw_lines s)"

record read_stats =
  st_records :: nat
  st_skipped :: nat
  st_lines :: nat

fun read_lines :: "log_env \<Rightarrow> string list \<Rightarrow> event list \<Rightarrow> read_stats \<Rightarrow> event list \<times> read_stats" where
  "read_lines G [] out st = (out, st)"
| "read_lines G (l # ls) out st =
     (if \<not> valid_utf8 G l then read_lines G ls out (st\<lparr>st_skipped := st_skipped st + 1\<rparr>)
      else if trim l = [] then read_lines G ls out st
      else case event_of_line G (trim l) of
        Some e \<Rightarrow> read_lines G ls (out @ [e])
          (st\<lparr>st_lines := st_lines st + 1, st_records := st_records st + 1\<rparr>)
      | None \<Rightarrow> read_lines G ls out
          (st\<lparr>st_lines := st_lines st + 1, st_skipped := st_skipped st + 1\<rparr>))"

definition read_events_from :: "log_env \<Rightarrow> string \<Rightarrow> event list \<times> read_stats" where
  "read_events_from G bytes =
     read_lines G (lines_of bytes) [] \<lparr>st_records = 0, st_skipped = 0, st_lines = 0\<rparr>"

end
