(* ===== verification/Event_Publisher.thy ===== *)
theory Event_Publisher
  imports Event_Log
begin

text \<open>
  The elected publisher (\<open>events/publisher.rs\<close>) and the rotation journal: one cycle takes the
  lease, rolls an interrupted rotation forward, marks the rows whose line is already in the
  file, drains the outbox in enqueue order (append, sync, delete the row), rotates before an
  append would cross the size cap, and publishes its health.
\<close>

definition PUBLISHER_LEASE_NAME :: string where "PUBLISHER_LEASE_NAME = ''publisher.lock''"
definition ROTATING_FILE_NAME :: string where "ROTATING_FILE_NAME = ''events.rotating.jsonl''"
definition TAIL_SCAN_BYTES :: nat where "TAIL_SCAN_BYTES = 256 * 1024"

record publish_report =
  pr_leader :: bool
  pr_published :: nat
  pr_rotated :: "string option"
  pr_error :: "event_log_error option"

definition empty_report :: publish_report where
  "empty_report = \<lparr>pr_leader = False, pr_published = 0, pr_rotated = None, pr_error = None\<rparr>"

section \<open>The database calls\<close>

text \<open>A statement on the store is a step: it takes effect or it fails without one.\<close>

definition db_step :: "log_env \<Rightarrow> (store \<Rightarrow> store) \<Rightarrow> ('z, unit) logged" where
  "db_step G f = attempt G id (\<lambda>w. w\<lparr>db := f (db w)\<rparr>)"

definition pending :: "log_env \<Rightarrow> ('z, (uuid \<times> event) list) logged" where
  "pending G w =
     (if outbox_unreadable G (op_count w) then (Inl (LogIo ''read outbox''), bump w)
      else (Inr (pending_events (db w) 10000), bump w))"

text \<open>\<open>let Ok(Some(journal)) = store.rotation_journal()\<close>: a read error counts as no journal.\<close>

definition journal_of :: "log_env \<Rightarrow> 'z press_scheme \<Rightarrow> rotation_journal option" where
  "journal_of G w = (if journal_unreadable G (op_count w) then None else rotation_journal_row (db w))"

section \<open>What is already in a file\<close>

definition line_id :: "log_env \<Rightarrow> string \<Rightarrow> uuid option" where
  "line_id G l = map_option e_id (event_of_line G l)"

definition tail_lines :: "string \<Rightarrow> string list" where
  "tail_lines s =
     (let start = length s - TAIL_SCAN_BYTES; ls = lines_of (drop start s) in
      if 0 < start then tl ls else ls)"

definition tail_event_ids :: "log_env \<Rightarrow> string \<Rightarrow> 'z press_scheme \<Rightarrow> uuid list" where
  "tail_event_ids G p w =
     (case log_at w p of
        None \<Rightarrow> []
      | Some f \<Rightarrow> if log_unreadable G p then [] else List.map_filter (line_id G) (tail_lines (lf_bytes f)))"

definition verify_gzip :: "log_env \<Rightarrow> string \<Rightarrow> 'z press_scheme \<Rightarrow> bool" where
  "verify_gzip G p w =
     (case log_at w p of None \<Rightarrow> False | Some f \<Rightarrow> gunzip G (lf_bytes f) \<noteq> None)"

fun mark_present :: "log_env \<Rightarrow> uuid list \<Rightarrow> (uuid \<times> event) list \<Rightarrow> ('z, unit) logged" where
  "mark_present G present [] = retL ()"
| "mark_present G present ((i, e) # rows) =
     (if i \<in> set present
      then bindL (db_step G (mark_event_published i)) (\<lambda>_. mark_present G present rows)
      else mark_present G present rows)"

definition reconcile_tail :: "log_env \<Rightarrow> log_config \<Rightarrow> ('z, unit) logged" where
  "reconcile_tail G c w =
     (let present = tail_event_ids G (current_path c) w @
            (case journal_of G w of None \<Rightarrow> [] | Some j \<Rightarrow> tail_event_ids G (j_rotating j) w);
          w1 = bump w in
      if present = [] then (Inr (), w1)
      else bindL (pending G) (mark_present G present) w1)"

section \<open>Rotation\<close>

text \<open>
  The three outcomes recovery finds: the archive is in place, the plain source is, neither is.
\<close>

definition finish_archive :: "log_env \<Rightarrow> rotation_journal \<Rightarrow> ('z, unit) logged" where
  "finish_archive G j w =
     (if log_exists w (j_final_path j) \<and> verify_gzip G (j_final_path j) w
      then bindL (remove_if_exists G (j_gz_tmp j)) (\<lambda>_. remove_if_exists G (j_rotating j)) w
      else if log_exists w (j_rotating j)
      then bindL (remove_if_exists G (j_gz_tmp j)) (\<lambda>_.
           bindL (gzip_file G (j_rotating j) (j_gz_tmp j)) (\<lambda>_.
           bindL (fs_rename G (j_gz_tmp j) (j_final_path j)) (\<lambda>_.
           bindL (sync_dir G) (\<lambda>_.
           remove_if_exists G (j_rotating j))))) w
      else remove_if_exists G (j_gz_tmp j) w)"

definition recover_rotation :: "log_env \<Rightarrow> log_config \<Rightarrow> ('z, unit) logged" where
  "recover_rotation G c w =
     (case journal_of G w of
        None \<Rightarrow> (Inr (), bump w)
      | Some j \<Rightarrow>
          bindL (close_handle G) (\<lambda>_ w1.
            let present = tail_event_ids G (current_path c) w1 @ tail_event_ids G (j_rotating j) w1 in
            bindL (pending G) (\<lambda>rows.
            bindL (mark_present G present rows) (\<lambda>_.
            bindL (finish_archive G j) (\<lambda>_.
            bindL (sync_dir G) (\<lambda>_.
            bindL (sync_dir G) (\<lambda>_.
            bindL (reopen G c) (\<lambda>_.
            bindL (sync_dir G) (\<lambda>_.
            db_step G clear_rotation_journal))))))) w1) (bump w))"

definition journal_for :: "log_config \<Rightarrow> string \<Rightarrow> instant \<Rightarrow> rotation_journal" where
  "journal_for c name now =
     \<lparr> j_source = current_path c, j_rotating = path_join (logs_dir c) ROTATING_FILE_NAME,
       j_gz_tmp = path_join (archive_dir c) (''.'' @ gz_path_for name @ ''.tmp''),
       j_final_path = path_join (archive_dir c) (gz_path_for name), j_phase = Renamed,
       j_started_at = now \<rparr>"

text \<open>The four durable phases of a rotation under the journal \<open>j\<close>.\<close>

definition rotate_phases :: "log_env \<Rightarrow> log_config \<Rightarrow> rotation_journal \<Rightarrow> ('z, string option) logged" where
  "rotate_phases G c j =
     bindL (db_step G (\<lambda>s. set_rotation_journal s j)) (\<lambda>_.
     bindL (fs_rename G (current_path c) (j_rotating j)) (\<lambda>_.
     bindL (sync_dir G) (\<lambda>_.
     bindL (gzip_file G (j_rotating j) (j_gz_tmp j)) (\<lambda>_.
     bindL (fs_rename G (j_gz_tmp j) (j_final_path j)) (\<lambda>_.
     bindL (sync_dir G) (\<lambda>_.
     bindL (db_step G (\<lambda>s. set_rotation_journal s (j\<lparr>j_phase := Finalized\<rparr>))) (\<lambda>_.
     bindL (remove_file G (j_rotating j)) (\<lambda>_.
     bindL (sync_dir G) (\<lambda>_.
     bindL (db_step G (\<lambda>s. set_rotation_journal s (j\<lparr>j_phase := SourceRemoved\<rparr>))) (\<lambda>_.
     bindL (reopen G c) (\<lambda>_.
     bindL (sync_dir G) (\<lambda>_.
     bindL (db_step G clear_rotation_journal) (\<lambda>_.
     retL (Some (j_final_path j)))))))))))))))"

definition rotate_journaled :: "log_env \<Rightarrow> log_config \<Rightarrow> ('z, string option) logged" where
  "rotate_journaled G c =
     bindL (recover_rotation G c) (\<lambda>_.
     bindL (close_handle G) (\<lambda>_ w.
       if current_len c w = 0 then bindL (reopen G c) (\<lambda>_. retL None) w
       else case unique_archive_name G c (log_now G (op_count w)) w of
         Inl e \<Rightarrow> (Inl e, w)
       | Inr name \<Rightarrow> rotate_phases G c (journal_for c name (log_now G (op_count w))) w))"

section \<open>The drain\<close>

text \<open>The note that records a rotation; its detail names the archive.\<close>

definition rotation_note :: "string \<Rightarrow> log_config \<Rightarrow> string \<Rightarrow> nat \<Rightarrow> nat \<Rightarrow> event \<Rightarrow> event" where
  "rotation_note reason c archive removed bytes e =
     with_detail (with_message e ''log_rotation'')
       (''reason='' @ reason @ '' max='' @ Event_Record.decimal (max_current_bytes c) @
        '' archived='' @ archive @ '' removed='' @ Event_Record.decimal removed @
        '' bytes='' @ Event_Record.decimal bytes)"

definition enqueue_note :: "log_env \<Rightarrow> env \<Rightarrow> (event \<Rightarrow> event) \<Rightarrow> ('z, unit) logged" where
  "enqueue_note G E f = attempt G id (emit E Pruned f)"

definition must_rotate :: "log_config \<Rightarrow> nat \<Rightarrow> 'z press_scheme \<Rightarrow> bool" where
  "must_rotate c line_len w \<longleftrightarrow>
     0 < current_len c w \<and> max_current_bytes c < current_len c w + line_len"

definition rotate_before_append ::
  "log_env \<Rightarrow> env \<Rightarrow> log_config \<Rightarrow> nat \<Rightarrow> publish_report \<Rightarrow> ('z, publish_report) logged" where
  "rotate_before_append G E c line_len r w =
     (if must_rotate c line_len w
      then bindL (rotate_journaled G c) (\<lambda>a.
             case a of None \<Rightarrow> retL r
             | Some archive \<Rightarrow>
                 bindL (enqueue_note G E (rotation_note ''size_threshold'' c archive 0 0)) (\<lambda>_.
                 retL (r\<lparr>pr_rotated := Some archive\<rparr>))) w
      else (Inr r, w))"

text \<open>
  The report is written through a reference, so what was published before a failure stays in
  it: the drain answers the report with the error, not the error alone.
\<close>

fun drain_rows ::
  "log_env \<Rightarrow> env \<Rightarrow> log_config \<Rightarrow> (uuid \<times> event) list \<Rightarrow> publish_report \<Rightarrow> 'z press_scheme \<Rightarrow>
     (event_log_error option \<times> publish_report) \<times> 'z press_scheme" where
  "drain_rows G E c [] r w = ((None, r), w)"
| "drain_rows G E c ((i, e) # rows) r w =
     (let line = event_line G e @ [NL] in
      case rotate_before_append G E c (length line) r w of
        (Inl err, w1) \<Rightarrow> ((Some err, r), w1)
      | (Inr r1, w1) \<Rightarrow>
          case bindL (append_line_synced G c line) (\<lambda>_. db_step G (mark_event_published i)) w1 of
            (Inl err, w2) \<Rightarrow> ((Some err, r1), w2)
          | (Inr _, w2) \<Rightarrow> drain_rows G E c rows (r1\<lparr>pr_published := pr_published r1 + 1\<rparr>) w2)"

definition drain ::
  "log_env \<Rightarrow> env \<Rightarrow> log_config \<Rightarrow> publish_report \<Rightarrow> 'z press_scheme \<Rightarrow>
     (event_log_error option \<times> publish_report) \<times> 'z press_scheme" where
  "drain G E c r w =
     (case pending G w of
        (Inl e, w1) \<Rightarrow> ((Some e, r), w1)
      | (Inr rows, w1) \<Rightarrow> drain_rows G E c rows r w1)"

section \<open>Health\<close>

definition set_error :: "log_env \<Rightarrow> event_log_error \<Rightarrow> 'z press_scheme \<Rightarrow> 'z press_scheme" where
  "set_error G e w = w\<lparr>p_last_error := Some e, p_last_error_at := Some (log_now G (op_count w))\<rparr>"

definition health_reports_leader :: "'z press_scheme \<Rightarrow> bool" where
  "health_reports_leader w = (case health_doc w of None \<Rightarrow> False | Some h \<Rightarrow> ph_leader h)"

definition write_health ::
  "log_env \<Rightarrow> bool \<Rightarrow> event_log_error option \<Rightarrow> 'z press_scheme \<Rightarrow> 'z press_scheme" where
  "write_health G leader cycle_error w =
     (let n = count_pending_events (db w);
          err = (case cycle_error of None \<Rightarrow> p_last_error w | Some e \<Rightarrow> Some e);
          key = (leader, err, n) in
      if p_last_written w = Some key then w
      else if \<not> leader \<and> health_reports_leader w then w
      else if op_fails G (op_count w) then bump w
      else bump (w\<lparr>health_doc := Some \<lparr>ph_leader = leader, ph_pending_events = n, ph_last_error = err,
                      ph_last_error_at = p_last_error_at w, ph_last_ok_at = p_last_ok_at w\<rparr>,
                   p_last_written := Some key\<rparr>))"

section \<open>One cycle\<close>

definition ensure_leadership :: "log_env \<Rightarrow> ('z, bool) logged" where
  "ensure_leadership G w =
     (if leased w then (Inr True, w)
      else case lease_free G (op_count w) of
        Some True \<Rightarrow> (Inr True, bump (w\<lparr>leased := True\<rparr>))
      | Some False \<Rightarrow> (Inr False, bump w)
      | None \<Rightarrow> (Inl (LogIo ''publisher lease''), bump w))"

definition failed_cycle ::
  "log_env \<Rightarrow> bool \<Rightarrow> publish_report \<Rightarrow> event_log_error \<Rightarrow> 'z press_scheme \<Rightarrow> publish_report \<times> 'z press_scheme" where
  "failed_cycle G leader r e w =
     (r\<lparr>pr_error := Some e\<rparr>, write_health G leader (Some e) (set_error G e w))"

definition cycle_inner ::
  "log_env \<Rightarrow> env \<Rightarrow> log_config \<Rightarrow> 'z press_scheme \<Rightarrow> publish_report \<times> 'z press_scheme" where
  "cycle_inner G E c w =
     (case ensure_leadership G w of
        (Inl e, w1) \<Rightarrow> failed_cycle G False empty_report e w1
      | (Inr False, w1) \<Rightarrow> (empty_report, write_health G False None w1)
      | (Inr True, w1) \<Rightarrow>
          let r = empty_report\<lparr>pr_leader := True\<rparr> in
          case bindL (recover_rotation G c) (\<lambda>_. reconcile_tail G c) w1 of
            (Inl e, w2) \<Rightarrow> failed_cycle G True r e w2
          | (Inr _, w2) \<Rightarrow>
              case drain G E c r w2 of
                ((Some e, r1), w3) \<Rightarrow> failed_cycle G True r1 e w3
              | ((None, r1), w3) \<Rightarrow>
                  (r1, write_health G True None
                     (w3\<lparr>p_last_error := None, p_last_error_at := None,
                         p_last_ok_at := Some (log_now G (op_count w3))\<rparr>)))"

definition publish_cycle ::
  "log_env \<Rightarrow> env \<Rightarrow> log_config \<Rightarrow> 'z press_scheme \<Rightarrow> publish_report \<times> 'z press_scheme" where
  "publish_cycle G E c w = (let (r, w1) = cycle_inner G E c w in (r, w1\<lparr>leased := False\<rparr>))"

text \<open>The prune path: rotation and retention under the lease, or nothing at all.\<close>

definition rotate_and_retain ::
  "log_env \<Rightarrow> log_config \<Rightarrow> ('z, bool \<times> string option \<times> retain_report) logged" where
  "rotate_and_retain G c =
     bindL (ensure_leadership G) (\<lambda>leader.
       if \<not> leader then retL (False, None, empty_retain)
       else bindL (recover_rotation G c) (\<lambda>_.
            bindL (rotate_journaled G c) (\<lambda>archived.
            bindL (retain G c) (\<lambda>report.
            retL (True, archived, report)))))"

end
