(* ===== verification/Publisher_Laws.thy ===== *)
theory Publisher_Laws
  imports Event_Publisher Path_Laws
begin

text \<open>
  The laws of the publisher: weakest preconditions of the failing steps, the lines a reader can
  find, and the invariant of the rotation journal (\<open>rot_ok\<close>) that every step of a rotation and of
  a recovery keeps, whether it succeeds, fails or is where the process dies.
\<close>

section \<open>Weakest preconditions\<close>

text \<open>\<open>Q\<close> after a normal return, \<open>R\<close> after an error or a crash.\<close>

definition wp ::
  "('z, 'a) logged \<Rightarrow> ('a \<Rightarrow> 'z press_scheme \<Rightarrow> bool) \<Rightarrow> ('z press_scheme \<Rightarrow> bool) \<Rightarrow> 'z press_scheme \<Rightarrow> bool" where
  "wp m Q R w = (case m w of (Inl e, w1) \<Rightarrow> R w1 | (Inr x, w1) \<Rightarrow> Q x w1)"

lemma wp_bind: "wp (bindL m f) Q R w = wp m (\<lambda>x. wp (f x) Q R) R w"
  by (auto simp: wp_def bindL_def split: prod.splits sum.splits)

lemma wp_ret [simp]: "wp (retL x) Q R w = Q x w"
  by (simp add: wp_def retL_def)

lemma wp_Inr [simp]: "wp (\<lambda>w. (Inr (f w), g w)) Q R w = Q (f w) (g w)"
  by (simp add: wp_def)

lemma wp_mono:
  assumes "wp m Q R w" "\<And>x w1. Q x w1 \<Longrightarrow> Q' x w1" "\<And>w1. R w1 \<Longrightarrow> R' w1"
  shows "wp m Q' R' w"
  using assms by (auto simp: wp_def split: prod.splits sum.splits)

lemma wp_bindI:
  assumes "wp m P R w" "\<And>x w1. P x w1 \<Longrightarrow> wp (f x) Q R w1"
  shows "wp (bindL m f) Q R w"
  unfolding wp_bind by (rule wp_mono [OF assms(1) assms(2)])

text \<open>An error or a crash needs a cause: a step that fails, or an outbox that cannot be read.\<close>

definition faulty :: "log_env \<Rightarrow> bool" where
  "faulty G \<longleftrightarrow> (\<exists>n. op_fails G n \<or> outbox_unreadable G n)"

lemma wp_step:
  assumes "wp m P (\<lambda>w. R' w \<and> F) w" "\<And>w1. R' w1 \<Longrightarrow> R w1"
    "\<And>x w1. P x w1 \<Longrightarrow> wp (f x) Q (\<lambda>w. R w \<and> F) w1"
  shows "wp (bindL m f) Q (\<lambda>w. R w \<and> F) w"
  by (rule wp_bindI [OF wp_mono [OF assms(1)]]) (use assms(2,3) in auto)

lemma wp_last:
  assumes "wp m P (\<lambda>w. R' w \<and> F) w" "\<And>x w1. P x w1 \<Longrightarrow> Q x w1" "\<And>w1. R' w1 \<Longrightarrow> R w1"
  shows "wp m Q (\<lambda>w. R w \<and> F) w"
  by (rule wp_mono [OF assms(1)]) (use assms(2,3) in auto)

lemma wp_attempt:
  assumes "faulty G \<Longrightarrow> R (bump (partly w))" "Q () (bump (fully w))"
  shows "wp (attempt G partly fully) Q R w"
  using assms by (auto simp: wp_def attempt_def faulty_def)

lemma wp_D: "wp m Q R w \<Longrightarrow> m w = (Inr x, w1) \<Longrightarrow> Q x w1" "wp m Q R w \<Longrightarrow> m w = (Inl e, w1) \<Longrightarrow> R w1"
  by (simp_all add: wp_def)

lemma wp_both: "wp m (\<lambda>_. P) P w \<longleftrightarrow> P (snd (m w))"
  by (auto simp: wp_def split: prod.splits sum.splits)

section \<open>Files\<close>

lemma log_at_put [simp]: "log_at (log_put p f w) = (log_at w)(p := Some f)"
  by (auto simp: log_at_def log_put_def)

lemma log_at_del [simp]: "log_at (log_del p w) = (log_at w)(p := None)"
  by (auto simp: log_at_def log_del_def)

lemma log_at_bump [simp]: "log_at (bump w) = log_at w"
  by (auto simp: log_at_def bump_def)

lemma log_at_db [simp]: "log_at (w\<lparr>db := s\<rparr>) = log_at w"
  by (auto simp: log_at_def)

lemma log_frame [simp]:
  "db (log_put p f w) = db w" "db (log_del p w) = db w" "db (bump w) = db w"
  "op_count (log_put p f w) = op_count w" "op_count (log_del p w) = op_count w"
  by (simp_all add: log_put_def log_del_def bump_def)

lemma log_exists_iff: "log_exists w p \<longleftrightarrow> (\<exists>f. log_at w p = Some f)"
  by (simp add: log_exists_def)

section \<open>Names\<close>

definition dir_ok :: "log_config \<Rightarrow> bool" where
  "dir_ok c \<longleftrightarrow> logs_dir c \<noteq> [] \<and> last (logs_dir c) \<noteq> CHR ''/''"

abbreviation "rotating_path c \<equiv> path_join (logs_dir c) ROTATING_FILE_NAME"

lemma dir_paths:
  assumes "dir_ok c"
  shows "current_path c = logs_dir c @ ''/events.current.jsonl''"
    "rotating_path c = logs_dir c @ ''/events.rotating.jsonl''"
    "archive_dir c = logs_dir c @ ''/archive''"
  using assms
  by (auto simp: dir_ok_def current_path_def archive_dir_def path_join_def CURRENT_FILE_NAME_def
      ROTATING_FILE_NAME_def)

lemma archive_path:
  assumes "dir_ok c" "n = [] \<or> hd n \<noteq> CHR ''/''"
  shows "path_join (archive_dir c) n = logs_dir c @ ''/archive/'' @ n"
  using assms(2) by (auto simp: path_join_def dir_paths [OF assms(1)])

text \<open>An archive's plain name, as \<open>unique_archive_path\<close> makes it.\<close>

definition week_name :: "string \<Rightarrow> bool" where
  "week_name n \<longleftrightarrow> starts_with n ''events-'' \<and> ends_with n ''.jsonl'' \<and> CHR ''/'' \<notin> set n"

lemma starts_with_append: "starts_with s p \<longleftrightarrow> (\<exists>t. s = p @ t)"
  unfolding starts_with_def by (metis append_eq_conv_conj append_take_drop_id)

lemma ends_with_append: "ends_with s q \<longleftrightarrow> (\<exists>t. s = t @ q)"
  unfolding ends_with_def starts_with_append
  by (metis rev_append rev_rev_ident)

lemma week_name_hd: "week_name n \<Longrightarrow> n \<noteq> [] \<and> hd n = CHR ''e''"
  by (auto simp: week_name_def starts_with_append)

section \<open>The lines a reader finds\<close>

definition readable :: "log_config \<Rightarrow> string \<Rightarrow> bool" where
  "readable c p \<longleftrightarrow> p = current_path c \<or> p = rotating_path c \<or>
     (case in_archive c p of None \<Rightarrow> False | Some n \<Rightarrow> is_archive_name n)"

definition file_text :: "log_env \<Rightarrow> string \<Rightarrow> log_file \<Rightarrow> string option" where
  "file_text G p f = (if ends_with p ''.gz'' then gunzip G (lf_bytes f) else Some (lf_bytes f))"

definition lines_at :: "log_env \<Rightarrow> log_config \<Rightarrow> string \<Rightarrow> log_file option \<Rightarrow> string set" where
  "lines_at G c p x =
     (case x of None \<Rightarrow> {}
      | Some f \<Rightarrow> if readable c p then (case file_text G p f of None \<Rightarrow> {} | Some s \<Rightarrow> set (lines_of s)) else {})"

definition visible :: "log_env \<Rightarrow> log_config \<Rightarrow> (string \<Rightarrow> log_file option) \<Rightarrow> string set" where
  "visible G c m = (\<Union>p. lines_at G c p (m p))"

lemma visible_split: "visible G c m = lines_at G c p (m p) \<union> (\<Union>q\<in>-{p}. lines_at G c q (m q))"
proof -
  have "(UNIV :: string set) = insert p (-{p})" by auto
  then show ?thesis unfolding visible_def by (metis UN_insert)
qed

lemma visible_upd: "visible G c (m(p := x)) = lines_at G c p x \<union> (\<Union>q\<in>-{p}. lines_at G c q (m q))"
  unfolding visible_split [of G c "m(p := x)" p] by simp

lemma visible_upd_same: "lines_at G c p x = lines_at G c p (m p) \<Longrightarrow> visible G c (m(p := x)) = visible G c m"
  unfolding visible_upd visible_split [of G c m p] by simp

lemma visible_add: "lines_at G c p (m p) = {} \<Longrightarrow> visible G c (m(p := x)) = visible G c m \<union> lines_at G c p x"
  unfolding visible_upd visible_split [of G c m p] by auto

lemma visible_drop:
  "q \<noteq> p \<Longrightarrow> lines_at G c p (m p) \<subseteq> lines_at G c q (m q) \<Longrightarrow> visible G c (m(p := None)) = visible G c m"
proof -
  assume "q \<noteq> p" and sub: "lines_at G c p (m p) \<subseteq> lines_at G c q (m q)"
  then have "lines_at G c p (m p) \<subseteq> (\<Union>r\<in>-{p}. lines_at G c r (m r))" by auto
  moreover have "lines_at G c p None = {}" by (simp add: lines_at_def)
  ultimately show ?thesis unfolding visible_upd visible_split [of G c m p] by (simp add: Un_absorb1)
qed

lemma lines_at_None [simp]: "lines_at G c p None = {}"
  by (simp add: lines_at_def)

lemma lines_at_hidden: "\<not> readable c p \<Longrightarrow> lines_at G c p x = {}"
  by (simp add: lines_at_def split: option.split)

section \<open>The paths of a journal\<close>

definition journal_named :: "log_config \<Rightarrow> rotation_journal \<Rightarrow> string \<Rightarrow> bool" where
  "journal_named c j n \<longleftrightarrow> week_name n \<and> j_rotating j = rotating_path c \<and>
     j_gz_tmp j = path_join (archive_dir c) (''.'' @ gz_path_for n @ ''.tmp'') \<and>
     j_final_path j = path_join (archive_dir c) (gz_path_for n)"

lemma in_archive_name:
  assumes "dir_ok c" "n \<noteq> []" "CHR ''/'' \<notin> set n"
  shows "in_archive c (logs_dir c @ ''/archive/'' @ n) = Some n"
  using assms by (simp add: in_archive_def strip_prefix_def dir_paths starts_with_def)

lemma journal_paths:
  assumes "dir_ok c" "journal_named c j n"
  shows "readable c (current_path c)" "readable c (rotating_path c)"
    "j_rotating j = rotating_path c"
    "readable c (j_final_path j)" "\<not> readable c (j_gz_tmp j)"
    "distinct [current_path c, rotating_path c, j_gz_tmp j, j_final_path j]"
    "ends_with (j_final_path j) ''.gz''"
    "\<not> ends_with (current_path c) ''.gz''" "\<not> ends_with (rotating_path c) ''.gz''"
proof -
  have n: "week_name n" "n \<noteq> []" "hd n = CHR ''e''" "CHR ''/'' \<notin> set n"
    using assms(2) week_name_hd by (auto simp: journal_named_def week_name_def)
  have tmp: "j_gz_tmp j = logs_dir c @ ''/archive/'' @ ''.'' @ n @ ''.gz.tmp''"
    using assms archive_path [OF assms(1), of "''.'' @ gz_path_for n @ ''.tmp''"]
    by (simp add: journal_named_def gz_path_for_def)
  have fin: "j_final_path j = logs_dir c @ ''/archive/'' @ n @ ''.gz''"
    using assms n archive_path [OF assms(1), of "gz_path_for n"]
    by (simp add: journal_named_def gz_path_for_def)
  show "readable c (current_path c)" "readable c (rotating_path c)" by (simp_all add: readable_def)
  show "j_rotating j = rotating_path c" using assms by (simp add: journal_named_def)
  have "in_archive c (j_final_path j) = Some (n @ ''.gz'')"
    unfolding fin using in_archive_name [OF assms(1), of "n @ ''.gz''"] n by simp
  moreover have "is_archive_name (n @ ''.gz'')"
  proof -
    obtain t where t: "n = ''events-'' @ t" using n(1) by (auto simp: week_name_def starts_with_append)
    obtain u where "n = u @ ''.jsonl''" using n(1) by (auto simp: week_name_def ends_with_append)
    then have "ends_with (n @ ''.gz'') ''.jsonl.gz''" by (simp add: ends_with_append)
    moreover have "starts_with (n @ ''.gz'') ''events-''" by (simp add: t starts_with_def)
    ultimately show ?thesis by (simp add: is_archive_name_def)
  qed
  ultimately show "readable c (j_final_path j)" by (simp add: readable_def)
  have "in_archive c (j_gz_tmp j) = Some (''.'' @ n @ ''.gz.tmp'')"
    unfolding tmp using in_archive_name [OF assms(1), of "''.'' @ n @ ''.gz.tmp''"] n by simp
  moreover have "\<not> is_archive_name (''.'' @ n @ ''.gz.tmp'')"
    by (simp add: is_archive_name_def starts_with_def)
  ultimately show "\<not> readable c (j_gz_tmp j)"
    by (simp add: readable_def dir_paths(1,2) [OF assms(1)] tmp)
  show "distinct [current_path c, rotating_path c, j_gz_tmp j, j_final_path j]"
    using n by (auto simp: dir_paths(1,2) [OF assms(1)] tmp fin)
  show "ends_with (j_final_path j) ''.gz''" by (auto simp: fin ends_with_append)
  show "\<not> ends_with (current_path c) ''.gz''" "\<not> ends_with (rotating_path c) ''.gz''"
    by (simp_all add: dir_paths(1,2) [OF assms(1)] ends_with_def starts_with_def)
qed


section \<open>The invariant of the journal\<close>

text \<open>
  Without a journal there is no \<open>.rotating\<close> source. Under a journal, when both the archive and the
  source exist the archive holds the source: that is what makes deleting the source safe.
\<close>

definition source_held :: "log_env \<Rightarrow> log_config \<Rightarrow> rotation_journal \<Rightarrow> (string \<Rightarrow> log_file option) \<Rightarrow> bool" where
  "source_held G c j m \<longleftrightarrow> (\<forall>f s r. m (j_final_path j) = Some f \<and> gunzip G (lf_bytes f) = Some s \<and>
     m (rotating_path c) = Some r \<longrightarrow> lf_bytes r = s)"

lemma source_heldI:
  assumes "\<And>f s r. m (j_final_path j) = Some f \<Longrightarrow> gunzip G (lf_bytes f) = Some s \<Longrightarrow>
    m (rotating_path c) = Some r \<Longrightarrow> lf_bytes r = s"
  shows "source_held G c j m"
  unfolding source_held_def
proof (intro allI impI)
  fix f s r
  assume h: "m (j_final_path j) = Some f \<and> gunzip G (lf_bytes f) = Some s \<and> m (rotating_path c) = Some r"
  show "lf_bytes r = s" by (rule assms [of f s r]) (use h in simp_all)
qed

lemma source_heldD:
  "source_held G c j m \<Longrightarrow> m (j_final_path j) = Some f \<Longrightarrow> gunzip G (lf_bytes f) = Some s \<Longrightarrow>
    m (rotating_path c) = Some r \<Longrightarrow> lf_bytes r = s"
  unfolding source_held_def by simp

lemma source_held_cong:
  assumes "m' (j_final_path j) = m (j_final_path j)" "m' (rotating_path c) = m (rotating_path c)"
    "source_held G c j m"
  shows "source_held G c j m'"
  using assms(3) unfolding source_held_def assms(1,2) .

definition rot_ok :: "log_env \<Rightarrow> log_config \<Rightarrow> 'z press_scheme \<Rightarrow> bool" where
  "rot_ok G c w \<longleftrightarrow> (case rotation_journal_row (db w) of
       None \<Rightarrow> log_at w (rotating_path c) = None
     | Some j \<Rightarrow> (\<exists>n. journal_named c j n) \<and> source_held G c j (log_at w))"

text \<open>The live file ends with a newline: the next line starts on its own.\<close>

definition clean :: "log_config \<Rightarrow> (string \<Rightarrow> log_file option) \<Rightarrow> bool" where
  "clean c m \<longleftrightarrow> (case m (current_path c) of None \<Rightarrow> True
     | Some f \<Rightarrow> lf_bytes f = [] \<or> last (lf_bytes f) = NL)"

text \<open>
  What a rotation and a recovery keep at every step: the journal invariant, the lines a reader
  finds, a clean live file, and the outbox rows in a given set of stores.
\<close>

definition kept :: "log_env \<Rightarrow> log_config \<Rightarrow> string set \<Rightarrow> outbox_row list \<Rightarrow> 'z press_scheme \<Rightarrow> bool" where
  "kept G c S b w \<longleftrightarrow> rot_ok G c w \<and> visible G c (log_at w) = S \<and> clean c (log_at w) \<and>
     event_outbox (db w) = b"

lemma kept_bump [simp]: "kept G c S b (bump w) = kept G c S b w"
  by (simp add: kept_def rot_ok_def split: option.split)

definition gzip_ok :: "log_env \<Rightarrow> bool" where
  "gzip_ok G \<longleftrightarrow> (\<forall>s. gunzip G (gzip G s) = Some s)"

definition journal_readable :: "log_env \<Rightarrow> bool" where
  "journal_readable G \<longleftrightarrow> (\<forall>n. \<not> journal_unreadable G n)"

text \<open>A world whose log directory is \<open>m\<close>, whose journal is \<open>jr\<close> and whose outbox is \<open>b\<close>.\<close>

definition now_is ::
  "(string \<Rightarrow> log_file option) \<Rightarrow> rotation_journal option \<Rightarrow> outbox_row list \<Rightarrow> 'z press_scheme \<Rightarrow> bool" where
  "now_is m jr b w \<longleftrightarrow> log_at w = m \<and> rotation_journal_row (db w) = jr \<and> event_outbox (db w) = b"

lemma now_is_bump [simp]: "now_is m jr b (bump w) = now_is m jr b w"
  by (simp add: now_is_def)

lemma now_is_id: "now_is (log_at w) (rotation_journal_row (db w)) (event_outbox (db w)) w"
  by (simp add: now_is_def)

lemma wp_sync: "now_is m jr b w \<Longrightarrow> wp (sync_dir G) (\<lambda>_. now_is m jr b) (\<lambda>w. now_is m jr b w \<and> faulty G) w"
  unfolding sync_dir_def by (rule wp_attempt) simp_all

lemma wp_close: "now_is m jr b w \<Longrightarrow> wp (close_handle G) (\<lambda>_. now_is m jr b) (\<lambda>w. now_is m jr b w \<and> faulty G) w"
  unfolding close_handle_def by (rule wp_attempt) simp_all

lemma wp_rename:
  assumes "now_is m jr b w" "m p = Some f"
  shows "wp (fs_rename G p q) (\<lambda>_. now_is (m(p := None, q := Some f)) jr b) (\<lambda>w. now_is m jr b w \<and> faulty G) w"
proof -
  have e: "fs_rename G p q w = attempt G id (log_put q f \<circ> log_del p) w"
    using assms by (simp add: fs_rename_def now_is_def)
  have "wp (attempt G id (log_put q f \<circ> log_del p)) (\<lambda>_. now_is (m(p := None, q := Some f)) jr b)
      (\<lambda>w. now_is m jr b w \<and> faulty G) w"
    by (rule wp_attempt) (use assms in \<open>auto simp: now_is_def\<close>)
  then show ?thesis by (simp add: wp_def e)
qed

lemma wp_remove:
  assumes "now_is m jr b w"
  shows "m p \<noteq> None \<Longrightarrow> wp (remove_file G p) (\<lambda>_. now_is (m(p := None)) jr b) (\<lambda>w. now_is m jr b w \<and> faulty G) w"
    "wp (remove_if_exists G p) (\<lambda>_. now_is (m(p := None)) jr b) (\<lambda>w. now_is m jr b w \<and> faulty G) w"
  using assms
  by (auto simp: wp_def remove_file_def remove_if_exists_def attempt_def log_exists_def now_is_def faulty_def)

lemma wp_gzip:
  assumes "now_is m jr b w" "m p = Some f"
  shows "wp (gzip_file G p q)
    (\<lambda>_ w1. \<exists>z. lf_bytes z = gzip G (lf_bytes f) \<and> now_is (m(q := Some z)) jr b w1)
    (\<lambda>w1. (\<exists>z. now_is (m(q := Some z)) jr b w1) \<and> faulty G) w"
proof -
  define z where "z = \<lparr>lf_bytes = gzip G (lf_bytes f), lf_mtime = log_now G (op_count w)\<rparr>"
  define y where "y = z\<lparr>lf_bytes := take (op_torn G (op_count w)) (lf_bytes z)\<rparr>"
  have e: "gzip_file G p q w = attempt G (log_put q y) (log_put q z) w"
    using assms by (simp add: gzip_file_def now_is_def Let_def y_def z_def)
  have n: "now_is (m(q := Some x)) jr b (log_put q x w)" for x using assms(1) by (auto simp: now_is_def)
  have "wp (attempt G (log_put q y) (log_put q z))
    (\<lambda>_ w1. \<exists>z. lf_bytes z = gzip G (lf_bytes f) \<and> now_is (m(q := Some z)) jr b w1)
    (\<lambda>w1. (\<exists>z. now_is (m(q := Some z)) jr b w1) \<and> faulty G) w"
  proof (rule wp_attempt)
    show "faulty G \<Longrightarrow> (\<exists>x. now_is (m(q := Some x)) jr b (bump (log_put q y w))) \<and> faulty G" using n [of y] by (auto simp del: fun_upd_apply)
    show "\<exists>x. lf_bytes x = gzip G (lf_bytes f) \<and> now_is (m(q := Some x)) jr b (bump (log_put q z w))"
      by (rule exI [of _ z]) (simp add: n z_def [symmetric], simp add: z_def)
  qed
  then show ?thesis by (simp add: wp_def e)
qed

lemma wp_ensure_open:
  assumes "now_is m jr b w"
  shows "wp (ensure_open G c)
    (\<lambda>_ w1. \<exists>f. (if m (current_path c) = None then lf_bytes f = [] else m (current_path c) = Some f) \<and>
        now_is (m(current_path c := Some f)) jr b w1) (\<lambda>w. now_is m jr b w \<and> faulty G) w"
proof -
  define e where "e = \<lparr>lf_bytes = [], lf_mtime = log_now G (op_count w)\<rparr>"
  define x where "x = (case m (current_path c) of None \<Rightarrow> e | Some f \<Rightarrow> f)"
  have m: "m = log_at w" using assms by (simp add: now_is_def)
  have x: "if m (current_path c) = None then lf_bytes x = [] else m (current_path c) = Some x"
    by (auto simp: x_def e_def split: option.splits)
  have n: "now_is (m(current_path c := Some x)) jr b
      (if log_exists w (current_path c) then w else log_put (current_path c) e w)"
    using assms by (auto simp: now_is_def log_exists_def x_def fun_upd_idem split: option.splits)
  have "wp (attempt G id (\<lambda>w. if log_exists w (current_path c) then w
          else log_put (current_path c) \<lparr>lf_bytes = [], lf_mtime = log_now G (op_count w)\<rparr> w))
      (\<lambda>_ w1. \<exists>f. (if m (current_path c) = None then lf_bytes f = [] else m (current_path c) = Some f) \<and>
        now_is (m(current_path c := Some f)) jr b w1) (\<lambda>w. now_is m jr b w \<and> faulty G) w"
  proof (rule wp_attempt)
    show "faulty G \<Longrightarrow> now_is m jr b (bump (id w)) \<and> faulty G" using assms by simp
    show "\<exists>f. (if m (current_path c) = None then lf_bytes f = [] else m (current_path c) = Some f) \<and>
        now_is (m(current_path c := Some f)) jr b
         (bump (if log_exists w (current_path c) then w
          else log_put (current_path c) \<lparr>lf_bytes = [], lf_mtime = log_now G (op_count w)\<rparr> w))"
      by (rule exI [of _ x]) (use n x in \<open>simp only: now_is_bump e_def simp_thms\<close>)
  qed
  then show ?thesis by (simp add: wp_def ensure_open_def)
qed

lemma wp_journal:
  assumes "now_is m jr b w"
  shows "wp (db_step G (\<lambda>s. set_rotation_journal s j)) (\<lambda>_. now_is m (Some j) b) (\<lambda>w. now_is m jr b w \<and> faulty G) w"
    "wp (db_step G clear_rotation_journal) (\<lambda>_. now_is m None b) (\<lambda>w. now_is m jr b w \<and> faulty G) w"
  using assms
  by (auto simp: wp_def db_step_def attempt_def now_is_def set_rotation_journal_def
      clear_rotation_journal_def faulty_def)

lemma now_is_kept:
  assumes "now_is m jr b w" "clean c m"
    "case jr of None \<Rightarrow> m (rotating_path c) = None
     | Some j \<Rightarrow> (\<exists>n. journal_named c j n) \<and> source_held G c j m"
    "visible G c m = S"
  shows "kept G c S b w"
proof -
  have e: "log_at w = m" "rotation_journal_row (db w) = jr" "event_outbox (db w) = b"
    using assms(1) by (simp_all add: now_is_def)
  show ?thesis unfolding kept_def rot_ok_def e by (intro conjI assms(2-4) refl)
qed

section \<open>Rotation\<close>

lemma lines_at_subset: "m p = x \<Longrightarrow> lines_at G c p x \<subseteq> visible G c m"
  unfolding visible_def by auto

lemma visible_move:
  assumes "p \<noteq> q" "m p = Some f" "m q = None" "lines_at G c q (Some f) = lines_at G c p (Some f)"
  shows "visible G c (m(p := None, q := Some f)) = visible G c m"
proof -
  have "visible G c (m(q := Some f)) = visible G c m"
    using visible_add [of G c q m "Some f"] lines_at_subset [where m = m and p = p and x = "Some f" and G = G and c = c] assms by auto
  moreover have "visible G c ((m(q := Some f))(p := None)) = visible G c (m(q := Some f))"
    by (rule visible_drop [of q]) (use assms in auto)
  ultimately show ?thesis using assms(1) by (simp add: fun_upd_twist)
qed

lemma lines_plain:
  assumes "readable c p" "\<not> ends_with p ''.gz''"
  shows "lines_at G c p (Some f) = set (lines_of (lf_bytes f))"
  using assms by (simp add: lines_at_def file_text_def)

lemma lines_gz:
  assumes "readable c p" "ends_with p ''.gz''" "gunzip G (lf_bytes z) = Some s"
  shows "lines_at G c p (Some z) = set (lines_of s)"
  using assms by (simp add: lines_at_def file_text_def)

lemma lines_of_Nil [simp]: "lines_of [] = []"
  by (simp add: lines_of_def)

lemma visible_open:
  assumes "readable c (current_path c)" "\<not> ends_with (current_path c) ''.gz''"
    "if m (current_path c) = None then lf_bytes f = [] else m (current_path c) = Some f"
  shows "visible G c (m(current_path c := Some f)) = visible G c m"
  by (rule visible_upd_same) (use assms in \<open>auto simp: lines_plain split: if_splits\<close>)

lemma clean_open:
  assumes "clean c m" "if m (current_path c) = None then lf_bytes f = [] else m (current_path c) = Some f"
  shows "clean c (m(current_path c := Some f))"
  using assms by (auto simp: clean_def split: if_splits)

lemma clean_gone [simp]: "m (current_path c) = None \<Longrightarrow> clean c m"
  by (simp add: clean_def)

lemma clean_other [simp]: "p \<noteq> current_path c \<Longrightarrow> clean c (m(p := x)) = clean c m"
  by (simp add: clean_def)

lemma journal_named_phase [simp]: "journal_named c (j\<lparr>j_phase := x\<rparr>) n = journal_named c j n"
  by (simp add: journal_named_def)

lemma rotate_phases_kept:
  assumes d: "dir_ok c" "gzip_ok G" and j: "journal_named c j n"
    and w: "now_is m None b w" "m (current_path c) = Some f" "m (rotating_path c) = None"
      "m (j_final_path j) = None" "clean c m"
  shows "wp (rotate_phases G c j)
    (\<lambda>_ w1. kept G c (visible G c m) b w1 \<and> rotation_journal_row (db w1) = None)
    (\<lambda>w. kept G c (visible G c m) b w \<and> faulty G) w"
proof -
  let ?cur = "current_path c" and ?rot = "rotating_path c" and ?tmp = "j_gz_tmp j" and ?fin = "j_final_path j"
  let ?S = "visible G c m" and ?j2 = "j\<lparr>j_phase := Finalized\<rparr>" and ?j3 = "j\<lparr>j_phase := SourceRemoved\<rparr>"
  note P = journal_paths [OF d(1) j]
  have ne: "?cur \<noteq> ?rot" "?cur \<noteq> ?tmp" "?cur \<noteq> ?fin" "?rot \<noteq> ?tmp" "?rot \<noteq> ?fin" "?tmp \<noteq> ?fin"
    using P(6) by auto
  have pl: "lines_at G c ?cur (Some x) = set (lines_of (lf_bytes x))"
    "lines_at G c ?rot (Some x) = set (lines_of (lf_bytes x))" for x
    using P by (simp_all add: lines_plain)
  have hid: "visible G c (m'(?tmp := x)) = visible G c m'" for m' x
    by (rule visible_upd_same) (simp add: lines_at_hidden P(5))
  define m1 where "m1 = m(?cur := None, ?rot := Some f)"
  have v1: "visible G c m1 = ?S" unfolding m1_def by (rule visible_move) (use w ne pl in auto)
  have m1: "m1 ?cur = None" "m1 ?rot = Some f" "m1 ?fin = None" using w ne by (auto simp: m1_def)
  define m3 where "m3 z = m1(?tmp := None, ?fin := Some z)" for z
  define zok where "zok z \<longleftrightarrow> gunzip G (lf_bytes z) = Some (lf_bytes f)" for z :: log_file
  have v3: "visible G c (m3 z) = ?S" if "zok z" for z
  proof -
    have l: "lines_at G c ?fin (Some z) = set (lines_of (lf_bytes f))"
      using that P by (simp add: lines_gz zok_def)
    have "visible G c (m3 z) = visible G c (m1(?tmp := None)) \<union> lines_at G c ?fin (Some z)"
      unfolding m3_def by (rule visible_add) (use m1 ne in auto)
    also have "\<dots> = ?S" using hid [of m1 None] v1 l pl lines_at_subset [where m = m1 and p = ?rot and x = "Some f" and G = G and c = c] m1 by auto
    finally show ?thesis .
  qed
  have m3: "m3 z ?cur = None" "m3 z ?rot = Some f" "m3 z ?fin = Some z" for z
    using m1 ne by (auto simp: m3_def)
  define m4 where "m4 z = (m3 z)(?rot := None)" for z
  have v4: "visible G c (m4 z) = ?S" if "zok z" for z
  proof -
    have "visible G c (m4 z) = visible G c (m3 z)" unfolding m4_def
      by (rule visible_drop [of ?fin]) (use ne m3 pl P that in \<open>auto simp: lines_gz zok_def\<close>)
    then show ?thesis using v3 [OF that] by simp
  qed
  have m4: "m4 z ?cur = None" "m4 z ?rot = None" "m4 z ?fin = Some z" for z
    using m3 ne by (auto simp: m4_def)
  have k0: "kept G c ?S b x" if "now_is m (Some j) b x" for x
    by (rule now_is_kept [OF that]) (use w j in \<open>auto intro!: source_heldI\<close>)
  have k0n: "kept G c ?S b x" if "now_is m None b x" for x
    by (rule now_is_kept [OF that]) (use w in auto)
  have k1: "kept G c ?S b x" if "now_is m1 (Some j) b x" for x
    by (rule now_is_kept [OF that]) (use m1 j v1 in \<open>auto intro!: source_heldI\<close>)
  have k2: "kept G c ?S b x" if "now_is (m1(?tmp := Some y)) (Some j) b x" for x y
    by (rule now_is_kept [OF that]) (use m1 j v1 hid ne in \<open>auto intro!: source_heldI\<close>)
  have k3: "kept G c ?S b x" if "now_is (m3 z) (Some j') b x" "zok z" "j' = j \<or> j' = ?j2" for x z j'
    by (rule now_is_kept [OF that(1)]) (use m3 j v3 that in \<open>auto simp: zok_def intro!: source_heldI\<close>)
  have k4: "kept G c ?S b x" if "now_is (m4 z) (Some j') b x" "zok z" "j' = ?j2 \<or> j' = ?j3" for x z j'
    by (rule now_is_kept [OF that(1)]) (use m4 j v4 that in \<open>auto intro!: source_heldI\<close>)
  define m5 where "m5 z e = (m4 z)(?cur := Some e)" for z e
  have v5: "visible G c (m5 z e) = ?S" "clean c (m5 z e)" "m5 z e ?rot = None"
    if "zok z" "lf_bytes e = []" for z e
    using visible_open [OF P(1) P(8), of "m4 z" e] that v4 m4 ne by (auto simp: m5_def clean_def)
  have k5: "kept G c ?S b x" if "now_is (m5 z e) (Some ?j3) b x" "zok z" "lf_bytes e = []" for x z e
    by (rule now_is_kept [OF that(1)]) (use v5 [OF that(2,3)] j in \<open>auto intro!: source_heldI\<close>)
  have k6: "kept G c ?S b x" if "now_is (m5 z e) None b x" "zok z" "lf_bytes e = []" for x z e
    by (rule now_is_kept [OF that(1)]) (use v5 [OF that(2,3)] in auto)
  have tail: "wp (bindL (sync_dir G) (\<lambda>_. bindL (db_step G (\<lambda>s. set_rotation_journal s ?j3)) (\<lambda>_.
      bindL (reopen G c) (\<lambda>_. bindL (sync_dir G) (\<lambda>_. bindL (db_step G clear_rotation_journal) (\<lambda>_.
      retL (Some ?fin)))))))
      (\<lambda>_ w1. kept G c ?S b w1 \<and> rotation_journal_row (db w1) = None) (\<lambda>w. kept G c ?S b w \<and> faulty G) x"
    if x: "now_is (m4 z) (Some ?j2) b x" and z: "zok z" for x z
    apply (rule wp_step [OF wp_sync [OF x]], erule k4 [OF _ z], simp)
    apply (rule wp_step [OF wp_journal(1)], assumption, erule k4 [OF _ z], simp)
    unfolding reopen_def
    apply (rule wp_step [OF wp_ensure_open], assumption, erule k4 [OF _ z], simp)
    apply (simp only: m4 if_True simp_thms flip: m5_def, elim exE conjE)
    apply (rule wp_step [OF wp_sync], assumption, erule k5 [OF _ z], assumption)
    apply (rule wp_step [OF wp_journal(2)], assumption, erule k5 [OF _ z], assumption)
    by (simp, intro conjI, erule k6 [OF _ z], assumption, simp add: now_is_def)
  show ?thesis unfolding rotate_phases_def P(3)
    apply (rule wp_step [OF wp_journal(1) [OF w(1)]], erule k0n)
    apply (rule wp_step [OF wp_rename], assumption, rule w(2), erule k0, fold m1_def)
    apply (rule wp_step [OF wp_sync], assumption, erule k1)
    apply (rule wp_step [OF wp_gzip], assumption, rule m1(2), elim exE, erule k2)
    apply (elim exE conjE)
    subgoal for u1 w1 u2 w2 u3 w3 u4 w4 z
      apply (rule wp_step [OF wp_rename], assumption, rule fun_upd_same, erule k2)
      apply (simp only: fun_upd_upd flip: m3_def)
      apply (subgoal_tac "zok z")
       apply (rule wp_step [OF wp_sync], assumption, erule k3, assumption, simp)
       apply (rule wp_step [OF wp_journal(1)], assumption, erule k3, assumption, simp)
       apply (rule wp_step [OF wp_remove(1)], assumption, simp add: m3, erule k3, assumption, simp)
       apply (simp only: flip: m4_def)
       apply (erule tail, assumption)
      using d(2) by (simp add: zok_def gzip_ok_def)
    done
qed

section \<open>Recovery\<close>

lemma kept_journal:
  assumes "now_is m (Some j) b w" "clean c m" "journal_named c j n" "source_held G c j m"
    "visible G c m = S"
  shows "kept G c S b w"
  by (rule now_is_kept [OF assms(1,2)]) (use assms(3,4,5) in auto)

lemma rot_ok_journal:
  assumes "rot_ok G c w" "rotation_journal_row (db w) = Some j"
  obtains n where "journal_named c j n" "source_held G c j (log_at w)"
  using assms by (auto simp: rot_ok_def)

text \<open>A finished recovery: the source and the temporary are gone.\<close>

definition finished ::
  "log_env \<Rightarrow> log_config \<Rightarrow> rotation_journal \<Rightarrow> string set \<Rightarrow> outbox_row list \<Rightarrow> 'z press_scheme \<Rightarrow> bool" where
  "finished G c j S b w \<longleftrightarrow> (\<exists>m. now_is m (Some j) b w \<and> clean c m \<and> visible G c m = S \<and>
     m (rotating_path c) = None \<and> m (j_gz_tmp j) = None)"

lemma finish_archive_kept:
  assumes d: "dir_ok c" "gzip_ok G" and j: "journal_named c j n"
    and w: "now_is m (Some j) b w" "clean c m" "source_held G c j m"
  shows "wp (finish_archive G j) (\<lambda>_. finished G c j (visible G c m) b) (\<lambda>w. kept G c (visible G c m) b w \<and> faulty G) w"
proof -
  let ?cur = "current_path c" and ?rot = "rotating_path c" and ?tmp = "j_gz_tmp j" and ?fin = "j_final_path j"
  let ?S = "visible G c m"
  note P = journal_paths [OF d(1) j]
  have ne: "?cur \<noteq> ?rot" "?cur \<noteq> ?tmp" "?cur \<noteq> ?fin" "?rot \<noteq> ?tmp" "?rot \<noteq> ?fin" "?tmp \<noteq> ?fin"
    using P(6) by auto
  have hid: "visible G c (m'(?tmp := x)) = visible G c m'" for m' x
    by (rule visible_upd_same) (simp add: lines_at_hidden P(5))
  have rotl: "lines_at G c ?rot (Some x) = set (lines_of (lf_bytes x))" for x
    using P by (simp add: lines_plain)
  have e: "log_at w = m" using w(1) by (simp add: now_is_def)
  define m1 where "m1 = m(?tmp := None)"
  have m1: "visible G c m1 = ?S" "clean c m1" "source_held G c j m1" "m1 ?tmp = None"
    "m1 ?rot = m ?rot" "m1 ?fin = m ?fin" "m1 ?cur = m ?cur"
  proof -
    show eqs: "m1 ?tmp = None" "m1 ?rot = m ?rot" "m1 ?fin = m ?fin" "m1 ?cur = m ?cur"
      using ne by (simp_all add: m1_def)
    show "visible G c m1 = ?S" "clean c m1" using hid w(2) ne by (simp_all add: m1_def)
    show "source_held G c j m1" using w(3) unfolding source_held_def eqs .
  qed
  have m1_tmp: "m1(?tmp := None) = m1" using m1(4) by (simp add: fun_upd_idem)
  have k0: "kept G c ?S b x" if "now_is m (Some j) b x" for x
    by (rule kept_journal [OF that w(2) j w(3)]) simp
  have k1: "kept G c ?S b x" if "now_is m1 (Some j) b x" for x
    by (rule kept_journal [OF that m1(2) j m1(3) m1(1)])
  consider (archived) f s where "m ?fin = Some f" "gunzip G (lf_bytes f) = Some s"
    | (source) r where "m ?rot = Some r" "\<And>f. m ?fin = Some f \<Longrightarrow> gunzip G (lf_bytes f) = None"
    | (neither) "m ?rot = None" "\<And>f. m ?fin = Some f \<Longrightarrow> gunzip G (lf_bytes f) = None"
    by (cases "\<exists>f s. m ?fin = Some f \<and> gunzip G (lf_bytes f) = Some s"; cases "m ?rot") auto
  then show ?thesis
  proof cases
    case archived
    define m2 where "m2 = m1(?rot := None)"
    have "visible G c m2 = ?S"
    proof (cases "m ?rot")
      case None then show ?thesis using m1 by (simp add: m2_def fun_upd_idem)
    next
      case (Some r)
      have "lf_bytes r = s" by (rule source_heldD [OF w(3) archived Some])
      then have "visible G c m2 = visible G c m1" unfolding m2_def
        by (intro visible_drop [of ?fin]) (use ne m1 archived Some P rotl in \<open>auto simp: lines_gz\<close>)
      then show ?thesis using m1 by simp
    qed
    then have fin: "finished G c j ?S b x" if "now_is m2 (Some j) b x" for x
      using that m1 ne by (auto simp: finished_def m2_def intro!: exI [of _ m2])
    have r: "finish_archive G j w = bindL (remove_if_exists G ?tmp) (\<lambda>_. remove_if_exists G ?rot) w"
      using archived e P(3) by (simp add: finish_archive_def log_exists_def verify_gzip_def)
    have "wp (bindL (remove_if_exists G ?tmp) (\<lambda>_. remove_if_exists G ?rot))
        (\<lambda>_. finished G c j ?S b) (\<lambda>w. kept G c ?S b w \<and> faulty G) w"
      apply (rule wp_step [OF wp_remove(2) [OF w(1)]], erule k0, fold m1_def)
      apply (rule wp_last [OF wp_remove(2)], assumption, fold m2_def, erule fin, erule k1)
      done
    then show ?thesis by (simp add: wp_def r)
  next
    case (source r)
    have ex: "log_exists w ?rot" "\<not> (log_exists w ?fin \<and> verify_gzip G ?fin w)"
      using source e by (auto simp: log_exists_def verify_gzip_def split: option.splits)
    define zok where "zok z \<longleftrightarrow> gunzip G (lf_bytes z) = Some (lf_bytes r)" for z :: log_file
    define m3 where "m3 z = m1(?fin := Some z)" for z
    have finl: "lines_at G c ?fin (m ?fin) = {}"
      using source(2) P by (cases "m ?fin") (simp_all add: lines_at_def file_text_def)
    have v3: "visible G c (m3 z) = ?S" if "zok z" for z
    proof -
      have "visible G c (m3 z) = visible G c m1 \<union> lines_at G c ?fin (Some z)"
        unfolding m3_def by (rule visible_add) (use m1 finl in simp)
      moreover have "lines_at G c ?fin (Some z) = lines_at G c ?rot (Some r)"
        using that P rotl by (simp add: lines_gz zok_def)
      moreover have "lines_at G c ?rot (Some r) \<subseteq> ?S"
        using lines_at_subset [where m = m and p = ?rot and x = "Some r" and G = G and c = c] source by simp
      ultimately show ?thesis using m1(1) by auto
    qed
    have m3: "clean c (m3 z)" "m3 z ?rot = Some r" "m3 z ?tmp = None" "m3 z ?fin = Some z" for z
      using m1 source ne by (auto simp: m3_def)
    have k2: "kept G c ?S b x" if "now_is (m1(?tmp := Some y)) (Some j) b x" for x y
    proof (rule kept_journal [OF that _ j])
      show "clean c (m1(?tmp := Some y))" "visible G c (m1(?tmp := Some y)) = ?S"
        using m1(1,2) hid ne by simp_all
      show "source_held G c j (m1(?tmp := Some y))"
        by (rule source_held_cong [OF _ _ m1(3)]) (use ne in simp_all)
    qed
    have k3: "kept G c ?S b x" if "now_is (m3 z) (Some j) b x" "zok z" for x z
      by (rule kept_journal [OF that(1) _ j]) (use m3 v3 that in \<open>auto simp: zok_def intro!: source_heldI\<close>)
    define m4 where "m4 z = (m3 z)(?rot := None)" for z
    have fin: "finished G c j ?S b x" if "now_is (m4 z) (Some j) b x" "zok z" for x z
    proof -
      have "visible G c (m4 z) = visible G c (m3 z)" unfolding m4_def
        by (rule visible_drop [of ?fin]) (use ne m3 P rotl that in \<open>auto simp: lines_gz zok_def\<close>)
      then show ?thesis using that v3 m3 ne by (auto simp: finished_def m4_def intro!: exI [of _ "m4 z"])
    qed
    have q: "finish_archive G j w = bindL (remove_if_exists G ?tmp) (\<lambda>_.
           bindL (gzip_file G ?rot ?tmp) (\<lambda>_. bindL (fs_rename G ?tmp ?fin) (\<lambda>_.
           bindL (sync_dir G) (\<lambda>_. remove_if_exists G ?rot)))) w"
      unfolding finish_archive_def P(3) by (simp only: ex if_False if_True)
    have "wp (bindL (remove_if_exists G ?tmp) (\<lambda>_.
           bindL (gzip_file G ?rot ?tmp) (\<lambda>_. bindL (fs_rename G ?tmp ?fin) (\<lambda>_.
           bindL (sync_dir G) (\<lambda>_. remove_if_exists G ?rot)))))
        (\<lambda>_. finished G c j ?S b) (\<lambda>w. kept G c ?S b w \<and> faulty G) w"
      apply (rule wp_step [OF wp_remove(2) [OF w(1)]], erule k0, fold m1_def)
      apply (rule wp_step [OF wp_gzip], assumption, simp only: m1(5), rule source(1), elim exE, erule k2)
      apply (elim exE conjE)
      subgoal for u1 w1 u2 w2 z
        apply (rule wp_step [OF wp_rename], assumption, rule fun_upd_same, erule k2)
        apply (simp only: fun_upd_upd m1_tmp flip: m3_def)
        apply (subgoal_tac "zok z")
         apply (rule wp_step [OF wp_sync], assumption, erule k3, assumption)
         apply (rule wp_last [OF wp_remove(2)], assumption, fold m4_def, erule fin, assumption, erule k3, assumption)
        using d(2) by (simp add: zok_def gzip_ok_def)
      done
    then show ?thesis by (simp add: wp_def q)
  next
    case neither
    have q: "finish_archive G j w = remove_if_exists G ?tmp w"
      using neither e P(3) by (auto simp: finish_archive_def log_exists_def verify_gzip_def split: option.splits)
    have fin: "finished G c j ?S b x" if "now_is m1 (Some j) b x" for x
      using that m1 neither by (auto simp: finished_def intro!: exI [of _ m1])
    have "wp (remove_if_exists G ?tmp) (\<lambda>_. finished G c j ?S b) (\<lambda>w. kept G c ?S b w \<and> faulty G) w"
      by (rule wp_last [OF wp_remove(2) [OF w(1)]], fold m1_def, erule fin, erule k0)
    then show ?thesis by (simp add: wp_def q)
  qed
qed

end
