(* ===== verification/Publisher_Cycle.thy ===== *)
theory Publisher_Cycle
  imports Publisher_Laws
begin

text \<open>
  The laws of a whole publish cycle: an event that was in the outbox is, after any failure or
  crash, still in the outbox or on a line of the log.
\<close>

section \<open>Lines\<close>

lemma tl_raw_lines_drop: "set (tl (raw_lines (drop n s))) \<subseteq> set (tl (raw_lines s))"
proof (induction s arbitrary: n)
  case (Cons x xs)
  show ?case
  proof (cases n)
    case (Suc k)
    have "set (tl (raw_lines xs)) \<subseteq> set (tl (raw_lines (x # xs)))"
      by (cases "raw_lines xs") auto
    with Cons.IH [of k] Suc show ?thesis by auto
  qed simp
qed simp

lemma set_tl: "set (tl xs) \<subseteq> set xs"
  by (cases xs) auto

lemma tail_lines_subset: "set (tail_lines s) \<subseteq> set (lines_of s)"
proof (cases "0 < length s - TAIL_SCAN_BYTES")
  case True
  let ?n = "length s - TAIL_SCAN_BYTES"
  have "set (tl (map chomp (raw_lines (drop ?n s)))) \<subseteq> chomp ` set (tl (raw_lines s))"
    using tl_raw_lines_drop [of ?n s] by (auto simp flip: map_tl)
  also have "\<dots> \<subseteq> set (lines_of s)" using set_tl [of "raw_lines s"] by (auto simp: lines_of_def)
  finally show ?thesis using True by (simp add: tail_lines_def Let_def lines_of_def)
qed (simp add: tail_lines_def)

lemma raw_lines_append:
  "s = [] \<or> last s = NL \<Longrightarrow> raw_lines (s @ t) = raw_lines s @ raw_lines t"
proof (induction s)
  case (Cons x xs)
  show ?case
  proof (cases "xs = []")
    case False
    then have "raw_lines xs \<noteq> []" by (cases xs) (auto split: list.splits)
    moreover have "raw_lines (xs @ t) = raw_lines xs @ raw_lines t" using Cons False by auto
    ultimately show ?thesis by (auto split: list.splits)
  qed (use Cons in auto)
qed simp

lemma raw_lines_one: "NL \<notin> set l \<Longrightarrow> raw_lines (l @ [NL]) = [l]"
  by (induction l) auto

text \<open>Documented behaviour of \<open>serde_json\<close>: a record is one line, and its id reads back.\<close>

definition lines_ok :: "log_env \<Rightarrow> bool" where
  "lines_ok G \<longleftrightarrow> (\<forall>e. NL \<notin> set (event_line G e) \<and> chomp (event_line G e) = event_line G e \<and>
     line_id G (event_line G e) = Some (e_id e))"

lemma lines_of_append_line:
  assumes "lines_ok G" "s = [] \<or> last s = NL"
  shows "lines_of (s @ event_line G e @ [NL]) = lines_of s @ [event_line G e]"
  using assms raw_lines_append [OF assms(2)] raw_lines_one [of "event_line G e"]
  by (simp add: lines_of_def lines_ok_def)

section \<open>Accounted events\<close>

definition accounted :: "log_env \<Rightarrow> uuid set \<Rightarrow> string set \<Rightarrow> outbox_row list \<Rightarrow> bool" where
  "accounted G I S b \<longleftrightarrow> (\<forall>i\<in>I. i \<in> o_event_id ` set b \<or> (\<exists>l\<in>S. line_id G l = Some i)) \<and>
     (\<forall>r\<in>set b. o_event_id r = e_id (o_payload r))"

lemma accounted_mono:
  "accounted G I S b \<Longrightarrow> S \<subseteq> S' \<Longrightarrow> set b \<subseteq> set b' \<Longrightarrow>
    \<forall>r\<in>set b'. o_event_id r = e_id (o_payload r) \<Longrightarrow> accounted G I S' b'"
  unfolding accounted_def by blast

lemma accounted_mark:
  assumes "accounted G I S b" "\<exists>l\<in>S. line_id G l = Some i"
  shows "accounted G I S (row_del (\<lambda>x. o_event_id x = i) b)"
proof -
  have "j \<in> o_event_id ` set (row_del (\<lambda>x. o_event_id x = i) b)" if "j \<in> o_event_id ` set b" "j \<noteq> i" for j
    using that by (auto simp: row_del_def)
  then show ?thesis using assms unfolding accounted_def by (auto simp: row_del_def) blast
qed

text \<open>The invariant of a cycle: the journal, the clean live file, every event accounted for.\<close>

definition held ::
  "log_env \<Rightarrow> log_config \<Rightarrow> uuid set \<Rightarrow> string set \<Rightarrow> 'z press_scheme \<Rightarrow> bool" where
  "held G c I S w \<longleftrightarrow> rot_ok G c w \<and> clean c (log_at w) \<and> S \<subseteq> visible G c (log_at w) \<and>
     accounted G I (visible G c (log_at w)) (event_outbox (db w))"

lemma kept_held: "kept G c V b w \<Longrightarrow> accounted G I V b \<Longrightarrow> S \<subseteq> V \<Longrightarrow> held G c I S w"
  by (simp add: kept_def held_def)

lemma held_bump [simp]: "held G c I S (bump w) = held G c I S w"
  by (simp add: held_def rot_ok_def split: option.split)

section \<open>Marking what is present\<close>

lemma wp_mark_present:
  assumes "now_is m jr b w" "accounted G I V b" "\<And>i. i \<in> set present \<Longrightarrow> \<exists>l\<in>V. line_id G l = Some i"
  shows "wp (mark_present G present rows)
    (\<lambda>_ w1. \<exists>b'. now_is m jr b' w1 \<and> accounted G I V b' \<and>
       b' = row_del (\<lambda>x. o_event_id x \<in> set present \<and> o_event_id x \<in> fst ` set rows) b)
    (\<lambda>w1. (\<exists>b'. now_is m jr b' w1 \<and> accounted G I V b') \<and> faulty G) w"
  using assms(1,2)
proof (induction rows arbitrary: b w)
  case Nil
  then show ?case by (simp add: row_del_def)
next
  case (Cons x rows)
  obtain i e where x: "x = (i, e)" by (cases x)
  show ?case
  proof (cases "i \<in> set present")
    case True
    let ?b = "row_del (\<lambda>x. o_event_id x = i) b"
    have acc: "accounted G I V ?b" by (rule accounted_mark [OF Cons.prems(2) assms(3) [OF True]])
    have s: "wp (db_step G (mark_event_published i)) (\<lambda>_. now_is m jr ?b)
        (\<lambda>w1. (\<exists>b'. now_is m jr b' w1 \<and> accounted G I V b') \<and> faulty G) w"
      unfolding db_step_def
      by (rule wp_attempt) (use Cons.prems in \<open>auto simp: now_is_def mark_event_published_def\<close>)
    have del: "row_del (\<lambda>x. o_event_id x \<in> set present \<and> o_event_id x \<in> fst ` set rows) ?b =
        row_del (\<lambda>y. o_event_id y \<in> set present \<and> o_event_id y \<in> fst ` set (x # rows)) b"
      using True by (auto simp: row_del_def x intro: filter_cong)
    have "wp (bindL (db_step G (mark_event_published i)) (\<lambda>_. mark_present G present rows))
      (\<lambda>_ w1. \<exists>b'. now_is m jr b' w1 \<and> accounted G I V b' \<and>
         b' = row_del (\<lambda>x. o_event_id x \<in> set present \<and> o_event_id x \<in> fst ` set rows) ?b)
      (\<lambda>w1. (\<exists>b'. now_is m jr b' w1 \<and> accounted G I V b') \<and> faulty G) w"
      by (rule wp_bindI [OF s], rule Cons.IH [OF _ acc])
    then show ?thesis using True by (simp add: x del)
  next
    case False
    then have "row_del (\<lambda>y. o_event_id y \<in> set present \<and> o_event_id y \<in> fst ` set (x # rows)) b =
        row_del (\<lambda>y. o_event_id y \<in> set present \<and> o_event_id y \<in> fst ` set rows) b"
      by (auto simp: row_del_def x intro!: filter_cong)
    then show ?thesis using False Cons.IH [OF Cons.prems] by (simp add: x)
  qed
qed

lemma tail_ids_visible:
  assumes "i \<in> set (tail_event_ids G p w)" "readable c p" "\<not> ends_with p ''.gz''"
  shows "\<exists>l\<in>visible G c (log_at w). line_id G l = Some i"
proof -
  obtain f where f: "log_at w p = Some f" "i \<in> set (List.map_filter (line_id G) (tail_lines (lf_bytes f)))"
    using assms(1) by (cases "log_at w p") (auto simp: tail_event_ids_def split: if_splits)
  then obtain l where l: "l \<in> set (tail_lines (lf_bytes f))" "line_id G l = Some i"
    by (auto simp: List.map_filter_def)
  have "l \<in> lines_at G c p (log_at w p)"
    using tail_lines_subset [of "lf_bytes f"] l(1) f(1) assms(2,3) by (auto simp: lines_plain)
  then show ?thesis using l(2) unfolding visible_def by blast
qed

lemma wp_pending:
  assumes "now_is m jr b w"
  shows "wp (pending G) (\<lambda>rows w1. now_is m jr b w1 \<and> rows = pending_events (db w) 10000)
    (\<lambda>w1. now_is m jr b w1 \<and> faulty G) w"
  using assms by (auto simp: wp_def pending_def faulty_def)

section \<open>Recovery and rotation keep the invariant\<close>

lemma log_paths:
  assumes "dir_ok c"
  shows "readable c (current_path c)" "readable c (rotating_path c)"
    "\<not> ends_with (current_path c) ''.gz''" "\<not> ends_with (rotating_path c) ''.gz''"
    "current_path c \<noteq> rotating_path c"
  by (simp_all add: readable_def dir_paths(1,2) [OF assms] ends_with_def starts_with_def)

definition recovered ::
  "log_env \<Rightarrow> log_config \<Rightarrow> uuid set \<Rightarrow> string set \<Rightarrow> 'z press_scheme \<Rightarrow> bool" where
  "recovered G c I V w \<longleftrightarrow> (\<exists>m b. now_is m None b w \<and> clean c m \<and> m (rotating_path c) = None \<and>
     visible G c m = V \<and> accounted G I V b)"

lemma recovered_held: "recovered G c I V w \<Longrightarrow> S \<subseteq> V \<Longrightarrow> held G c I S w"
  by (auto simp: recovered_def held_def now_is_def rot_ok_def)

lemma wp_recover:
  fixes w :: "'z press_scheme"
  assumes d: "dir_ok c" "gzip_ok G" "journal_readable G"
    and w: "rot_ok G c w" "clean c (log_at w)" "V = visible G c (log_at w)"
      "accounted G I V (event_outbox (db w))"
  shows "wp (recover_rotation G c) (\<lambda>_. recovered G c I V)
    (\<lambda>w1. (\<exists>b. kept G c V b w1 \<and> accounted G I V b) \<and> faulty G) w"
proof (cases "rotation_journal_row (db w)")
  case None
  have "recovered G c I V (bump w)" unfolding recovered_def
    by (rule exI [of _ "log_at w"], rule exI [of _ "event_outbox (db w)"])
      (use None w in \<open>simp add: now_is_def rot_ok_def\<close>)
  then show ?thesis using None by (simp add: wp_def recover_rotation_def journal_of_def)
next
  case (Some j)
  obtain n where j: "journal_named c j n" "source_held G c j (log_at w)"
    by (rule rot_ok_journal [OF w(1) Some])
  let ?m = "log_at w" and ?b = "event_outbox (db w)" and ?cur = "current_path c"
  note P = journal_paths [OF d(1) j(1)]
  have k: "kept G c V b x" if "now_is ?m (Some j) b x" for x b
    by (rule kept_journal [OF that w(2) j w(3) [symmetric]])
  have kx: "\<exists>b. kept G c V b x \<and> accounted G I V b" if "now_is ?m (Some j) b x" "accounted G I V b" for x b
    using k [OF that(1)] that(2) by auto
  have kx': "\<exists>b. kept G c V b x \<and> accounted G I V b" if "\<exists>b. now_is ?m (Some j) b x \<and> accounted G I V b" for x
    using that kx by auto
  have n0: "now_is ?m (Some j) ?b (bump w)" using Some by (simp add: now_is_def)
  define rest where "rest = (\<lambda>_ :: unit. bindL (finish_archive G j) (\<lambda>_. bindL (sync_dir G) (\<lambda>_.
      bindL (sync_dir G) (\<lambda>_. bindL (reopen G c) (\<lambda>_. bindL (sync_dir G) (\<lambda>_.
      db_step G clear_rotation_journal))))) :: ('z, unit) logged)"
  have tail: "wp (rest u) (\<lambda>_. recovered G c I V)
      (\<lambda>w1. (\<exists>b. kept G c V b w1 \<and> accounted G I V b) \<and> faulty G) x"
    if x: "now_is ?m (Some j) b x" and acc: "accounted G I V b" for u x b
  proof -
    have kk: "\<exists>b. kept G c V b y \<and> accounted G I V b" if "kept G c V b y" for y
      using that acc by auto
    have ff: "\<exists>b. kept G c V b y \<and> accounted G I V b"
      if "now_is m2 (Some j) b y" "clean c m2" "visible G c m2 = V" "m2 (rotating_path c) = None" for y m2
    proof -
      have "source_held G c j m2" by (rule source_heldI) (use that(4) in simp)
      then show ?thesis by (intro kk kept_journal [OF that(1,2) j(1) _ that(3)])
    qed
    have open_ok: "clean c (m2(?cur := Some f))" "visible G c (m2(?cur := Some f)) = V"
        "(m2(?cur := Some f)) (rotating_path c) = None"
      if "clean c m2" "visible G c m2 = V" "m2 (rotating_path c) = None"
        "if m2 ?cur = None then lf_bytes f = [] else m2 ?cur = Some f" for m2 f
      using visible_open [where c = c and m = m2 and f = f and G = G]
        clean_open [where c = c and m = m2 and f = f] that P(1,8) log_paths(5) [OF d(1), THEN not_sym] by simp_all
    show ?thesis unfolding rest_def
      apply (rule wp_step [OF finish_archive_kept [OF d(1,2) j(1) x w(2) j(2)]], fold w(3), erule kk)
      apply (unfold finished_def, elim exE conjE)
      subgoal for u1 w1 m2
        apply (rule wp_step [OF wp_sync], assumption, erule ff, assumption+)
        apply (rule wp_step [OF wp_sync], assumption, erule ff, assumption+)
        unfolding reopen_def
        apply (rule wp_step [OF wp_ensure_open], assumption, erule ff, assumption+)
        apply (elim exE conjE)
        subgoal for u2 w2 u3 w3 u4 w4 f
          apply (frule (3) open_ok(1), frule (3) open_ok(2), frule (3) open_ok(3))
          apply (rule wp_step [OF wp_sync], assumption, erule ff, assumption+)
          apply (rule wp_last [OF wp_journal(2)], assumption)
           apply (unfold recovered_def, rule exI, rule exI [of _ b], intro conjI, assumption+, rule acc)
          apply (erule ff, assumption+)
          done
        done
      done
  qed
  have "wp (bindL (close_handle G) (\<lambda>_ w1.
      let present = tail_event_ids G ?cur w1 @ tail_event_ids G (j_rotating j) w1 in
      bindL (pending G) (\<lambda>rows. bindL (mark_present G present rows) rest) w1))
    (\<lambda>_. recovered G c I V) (\<lambda>w1. (\<exists>b. kept G c V b w1 \<and> accounted G I V b) \<and> faulty G) (bump w)"
  proof (rule wp_step [OF wp_close [OF n0]])
    fix x :: "'z press_scheme"
    assume "now_is ?m (Some j) ?b x"
    then show "\<exists>b. kept G c V b x \<and> accounted G I V b" using kx w(4) by blast
  next
    fix x :: "'z press_scheme" and u
    assume x: "now_is ?m (Some j) ?b x"
    let ?present = "tail_event_ids G ?cur x @ tail_event_ids G (j_rotating j) x"
    have seen: "\<exists>l\<in>V. line_id G l = Some i" if "i \<in> set ?present" for i
      using that tail_ids_visible [of i G ?cur x c] tail_ids_visible [of i G "j_rotating j" x c] P x w(3)
      by (auto simp: now_is_def)
    have "wp (bindL (pending G) (\<lambda>rows. bindL (mark_present G ?present rows) rest)) (\<lambda>_. recovered G c I V)
        (\<lambda>w1. (\<exists>b. kept G c V b w1 \<and> accounted G I V b) \<and> faulty G) x"
      apply (rule wp_step [OF wp_pending [OF x]], erule kx, rule w(4))
      apply (elim conjE)
      apply (rule wp_step [OF wp_mark_present [OF _ w(4) seen]], assumption, assumption, erule kx')
      apply (elim exE conjE)
      apply (erule tail, assumption)
      done
    then show "wp (\<lambda>w1. let present = tail_event_ids G ?cur w1 @ tail_event_ids G (j_rotating j) w1 in
        bindL (pending G) (\<lambda>rows. bindL (mark_present G present rows) rest) w1) (\<lambda>_. recovered G c I V)
      (\<lambda>w1. (\<exists>b. kept G c V b w1 \<and> accounted G I V b) \<and> faulty G) x"
      by (simp add: wp_def Let_def)
  qed
  then show ?thesis using Some d(3)
    by (simp add: wp_def recover_rotation_def journal_of_def journal_readable_def rest_def)
qed

section \<open>The name of an archive\<close>

lemma decimal_chars: "x \<in> set (Event_Record.decimal n) \<Longrightarrow> 48 \<le> (of_char x :: nat)"
proof (induction n rule: Event_Record.decimal.induct)
  case (1 n)
  have m: "48 \<le> (of_char (char_of (48 + k) :: char) :: nat)" if "k < 10" for k :: nat
    using that by simp
  show ?case
  proof (cases "n < 10")
    case True
    then show ?thesis using 1(2) m [of n] by (subst (asm) Event_Record.decimal.simps) auto
  next
    case False
    then show ?thesis using 1 m [of "n mod 10"] by (subst (asm) (2) Event_Record.decimal.simps) auto
  qed
qed

lemma decimal_slash: "CHR ''/'' \<notin> set (Event_Record.decimal n)"
  using decimal_chars [of "CHR ''/''" n] by auto

lemma archive_candidate_week: "week_name (archive_candidate (archive_base G now) n)"
proof -
  obtain y k where yk: "iso_week_of G now = (y, k)" by (cases "iso_week_of G now")
  obtain r where r: "archive_base G now = ''events-'' @ r" "CHR ''/'' \<notin> set r"
    using decimal_slash by (auto simp: archive_base_def yk year_text_def two_digits_def)
  obtain t where t: "archive_candidate (archive_base G now) n = ''events-'' @ t @ ''.jsonl''" "CHR ''/'' \<notin> set t"
  proof (cases "n < 2")
    case True
    then show ?thesis using that [of r] r by (simp add: archive_candidate_def)
  next
    case False
    then show ?thesis using that [of "r @ ''.'' @ Event_Record.decimal n"] r decimal_slash
      by (simp add: archive_candidate_def)
  qed
  have "ends_with (archive_candidate (archive_base G now) n) ''.jsonl''"
    unfolding ends_with_append by (rule exI [of _ "''events-'' @ t"]) (simp add: t)
  then show ?thesis using t by (simp add: week_name_def starts_with_def)
qed

lemma unique_archive_name_ok:
  assumes "unique_archive_name G c now w = Inr name"
  shows "journal_named c (journal_for c name t) name" "log_at w (j_final_path (journal_for c name t)) = None"
proof -
  obtain n where n: "name = archive_candidate (archive_base G now) n" "\<not> name_taken c name w"
    using assms by (auto simp: unique_archive_name_def Let_def find_Some_iff split: option.splits)
  show "journal_named c (journal_for c name t) name"
    using archive_candidate_week n by (simp add: journal_named_def journal_for_def)
  show "log_at w (j_final_path (journal_for c name t)) = None"
    using n by (simp add: name_taken_def journal_for_def log_exists_def)
qed

section \<open>A rotation keeps every line\<close>

lemma wp_rotate:
  assumes d: "dir_ok c" "gzip_ok G" "journal_readable G"
    and w: "rot_ok G c w" "clean c (log_at w)" "V = visible G c (log_at w)"
      "accounted G I V (event_outbox (db w))"
  shows "wp (rotate_journaled G c)
    (\<lambda>_ w1. \<exists>b. kept G c V b w1 \<and> accounted G I V b \<and> rotation_journal_row (db w1) = None)
    (\<lambda>w1. \<exists>b. kept G c V b w1 \<and> accounted G I V b) w"
  unfolding rotate_journaled_def
proof (rule wp_bindI [OF wp_mono [OF wp_recover [OF d w]]])
  fix x w1
  assume r: "recovered G c I V w1"
  then obtain m b where m: "now_is m None b w1" "clean c m" "m (rotating_path c) = None" "visible G c m = V"
      and acc: "accounted G I V b"
    by (auto simp: recovered_def)
  have k: "kept G c V b y" if "now_is m None b y" for y
    by (rule now_is_kept [OF that m(2) _ m(4)]) (simp add: m)
  have kx: "\<exists>b. kept G c V b y \<and> accounted G I V b" if "now_is m None b y" for y
    using k [OF that] acc by auto
  show "wp (bindL (close_handle G) (\<lambda>_ w.
       if current_len c w = 0 then bindL (reopen G c) (\<lambda>_. retL None) w
       else case unique_archive_name G c (log_now G (op_count w)) w of
         Inl e \<Rightarrow> (Inl e, w)
       | Inr name \<Rightarrow> rotate_phases G c (journal_for c name (log_now G (op_count w))) w))
    (\<lambda>_ w1. \<exists>b. kept G c V b w1 \<and> accounted G I V b \<and> rotation_journal_row (db w1) = None)
    (\<lambda>w1. \<exists>b. kept G c V b w1 \<and> accounted G I V b) w1"
  proof (rule wp_bindI [OF wp_mono [OF wp_close [OF m(1)]]])
    fix u y
    assume y: "now_is m None b y"
    show "wp (\<lambda>w. if current_len c w = 0 then bindL (reopen G c) (\<lambda>_. retL None) w
       else case unique_archive_name G c (log_now G (op_count w)) w of
         Inl e \<Rightarrow> (Inl e, w)
       | Inr name \<Rightarrow> rotate_phases G c (journal_for c name (log_now G (op_count w))) w)
      (\<lambda>_ w1. \<exists>b. kept G c V b w1 \<and> accounted G I V b \<and> rotation_journal_row (db w1) = None)
      (\<lambda>w1. \<exists>b. kept G c V b w1 \<and> accounted G I V b) y"
    proof (cases "current_len c y = 0")
      case True
      have "wp (bindL (reopen G c) (\<lambda>_. retL None))
        (\<lambda>_ w1. \<exists>b. kept G c V b w1 \<and> accounted G I V b \<and> rotation_journal_row (db w1) = None)
        (\<lambda>w1. \<exists>b. kept G c V b w1 \<and> accounted G I V b) y"
        unfolding reopen_def
      proof (rule wp_bindI [OF wp_mono [OF wp_ensure_open [OF y]]])
        fix z
        assume "\<exists>f. (if m (current_path c) = None then lf_bytes f = [] else m (current_path c) = Some f) \<and>
          now_is (m(current_path c := Some f)) None b z"
        then obtain f where f: "if m (current_path c) = None then lf_bytes f = [] else m (current_path c) = Some f"
          and z: "now_is (m(current_path c := Some f)) None b z" by blast
        have "kept G c V b z"
          by (rule now_is_kept [OF z clean_open [where m = m, OF m(2) f]])
            (use visible_open [where m = m and f = f and c = c and G = G] f m log_paths [OF d(1)] in auto)
        moreover have "rotation_journal_row (db z) = None" using z by (simp add: now_is_def)
        ultimately show "wp (retL None)
          (\<lambda>_ w1. \<exists>b. kept G c V b w1 \<and> accounted G I V b \<and> rotation_journal_row (db w1) = None)
          (\<lambda>w1. \<exists>b. kept G c V b w1 \<and> accounted G I V b) z" using acc by auto
      qed (use kx in auto)
      then show ?thesis using True by (simp add: wp_def)
    next
      case False
      show ?thesis
      proof (cases "unique_archive_name G c (log_now G (op_count y)) y")
        case (Inl e)
        then show ?thesis using False kx [OF y] by (simp add: wp_def)
      next
        case (Inr name)
        let ?j = "journal_for c name (log_now G (op_count y))"
        have at: "log_at y = m" using y by (simp add: now_is_def)
        obtain f where f: "m (current_path c) = Some f"
          using False at by (auto simp: current_len_def file_len_def split: option.splits)
        have "wp (rotate_phases G c ?j)
          (\<lambda>_ w1. kept G c V b w1 \<and> rotation_journal_row (db w1) = None) (\<lambda>w. kept G c V b w \<and> faulty G) y"
          using rotate_phases_kept [OF d(1,2) unique_archive_name_ok(1) [OF Inr] y f m(3) _ m(2)]
            unique_archive_name_ok(2) [OF Inr] at m(4) by simp
        then have "wp (rotate_phases G c ?j)
          (\<lambda>_ w1. \<exists>b. kept G c V b w1 \<and> accounted G I V b \<and> rotation_journal_row (db w1) = None)
          (\<lambda>w1. \<exists>b. kept G c V b w1 \<and> accounted G I V b) y"
          by (rule wp_mono) (use acc in auto)
        then show ?thesis using False Inr by (simp add: wp_def)
      qed
    qed
  qed (use kx in auto)
qed auto

section \<open>A drain loses nothing\<close>

text \<open>A write that fails has written nothing: the condition under which the live file stays clean.\<close>

definition whole_writes :: "log_env \<Rightarrow> bool" where
  "whole_writes G \<longleftrightarrow> (\<forall>n. op_fails G n \<longrightarrow> op_torn G n = 0)"

definition env_ok :: "log_env \<Rightarrow> log_config \<Rightarrow> bool" where
  "env_ok G c \<longleftrightarrow> dir_ok c \<and> gzip_ok G \<and> journal_readable G \<and> lines_ok G \<and> whole_writes G"

lemma held_cong:
  assumes "log_at w1 = log_at w" "rotation_journal_row (db w1) = rotation_journal_row (db w)"
    "event_outbox (db w1) = event_outbox (db w)"
  shows "held G c I S w1 = held G c I S w"
  by (simp add: held_def rot_ok_def assms split: option.split)

lemma accounted_self: "held G c I S w \<Longrightarrow> rot_ok G c w" "held G c I S w \<Longrightarrow> clean c (log_at w)"
  "held G c I S w \<Longrightarrow> accounted G I (visible G c (log_at w)) (event_outbox (db w))"
  by (simp_all add: held_def)

lemma held_write:
  assumes "env_ok G c" "held G c I S w" "log_at w1 = (log_at w)(current_path c := Some f)"
    "rotation_journal_row (db w1) = rotation_journal_row (db w)" "event_outbox (db w1) = event_outbox (db w)"
    "lf_bytes f = old \<or> lf_bytes f = old @ event_line G e @ [NL]"
    "case log_at w (current_path c) of None \<Rightarrow> old = [] | Some g \<Rightarrow> old = lf_bytes g"
  shows "held G c I S w1"
    "lf_bytes f = old @ event_line G e @ [NL] \<Longrightarrow> event_line G e \<in> visible G c (log_at w1)"
proof -
  let ?cur = "current_path c" and ?m = "log_at w"
  have d: "dir_ok c" and lo: "lines_ok G" using assms(1) by (simp_all add: env_ok_def)
  note P = log_paths [OF d]
  have cl: "old = [] \<or> last old = NL"
    using assms(2,7) by (auto simp: held_def clean_def split: option.splits)
  have l0: "lines_at G c ?cur (?m ?cur) = set (lines_of old)"
    using assms(7) P by (cases "?m ?cur") (simp_all add: lines_plain)
  have l1: "lines_at G c ?cur (Some f) = set (lines_of (lf_bytes f))" using P by (simp add: lines_plain)
  have sub: "set (lines_of old) \<subseteq> set (lines_of (lf_bytes f))"
    using assms(6) lines_of_append_line [OF lo cl, of e] by auto
  have vis: "visible G c (log_at w) \<subseteq> visible G c (log_at w1)"
    using sub unfolding assms(3) visible_upd visible_split [of G c "log_at w" ?cur] l0 l1 by auto
  have cl1: "clean c (log_at w1)"
    using assms(6) cl by (auto simp: clean_def assms(3))
  have rot: "rot_ok G c w1"
  proof (cases "rotation_journal_row (db w)")
    case None
    then show ?thesis using assms(2,3,4) P(5) by (simp add: held_def rot_ok_def)
  next
    case (Some j)
    obtain n where j: "journal_named c j n" "source_held G c j ?m"
      by (rule rot_ok_journal [of G c w j]) (use assms(2) Some in \<open>auto simp: held_def\<close>)
    have "source_held G c j (log_at w1)"
      by (rule source_held_cong [OF _ _ j(2)])
        (use journal_paths(6) [OF d j(1)] P(5) in \<open>auto simp: assms(3)\<close>)
    then show ?thesis using j Some assms(4) by (auto simp: rot_ok_def)
  qed
  show "held G c I S w1" using assms(2) vis rot cl1 accounted_mono [OF accounted_self(3) [OF assms(2)] vis subset_refl]
    by (auto simp: held_def assms(5) accounted_def)
  show "event_line G e \<in> visible G c (log_at w1)" if "lf_bytes f = old @ event_line G e @ [NL]"
    unfolding assms(3) visible_upd l1 using lines_of_append_line [OF lo cl, of e] that by auto
qed

lemma wp_append:
  assumes "env_ok G c" "held G c I S w"
  shows "wp (append_line_synced G c (event_line G e @ [NL]))
    (\<lambda>_ w1. held G c I S w1 \<and> event_line G e \<in> visible G c (log_at w1) \<and> op_count w1 = op_count w + 2 \<and> db w1 = db w)
    (held G c I S) w"
proof -
  let ?cur = "current_path c"
  define w1 where "w1 = (if log_exists w ?cur then w
     else log_put ?cur \<lparr>lf_bytes = [], lf_mtime = log_now G (op_count w)\<rparr> w)"
  define old where "old = (case log_at w ?cur of None \<Rightarrow> [] | Some g \<Rightarrow> lf_bytes g)"
  have h1: "held G c I S w1"
  proof (cases "log_at w ?cur")
    case None
    then show ?thesis
      by (intro held_write(1) [OF assms, where f = "\<lparr>lf_bytes = [], lf_mtime = log_now G (op_count w)\<rparr>" and old = "[]"])
        (simp_all add: w1_def log_exists_def)
  qed (use assms in \<open>simp add: w1_def log_exists_def\<close>)
  have w1: "log_at w1 ?cur \<noteq> None" "case log_at w1 ?cur of None \<Rightarrow> False | Some g \<Rightarrow> lf_bytes g = old"
    "op_count w1 = op_count w" "db w1 = db w"
    by (auto simp: w1_def log_exists_def old_def split: option.splits)
  have old1: "case log_at (bump w1) ?cur of None \<Rightarrow> old = [] | Some g \<Rightarrow> old = lf_bytes g"
    using w1 by (auto split: option.splits)
  define F where "F x = \<lparr>lf_bytes = old @ x, lf_mtime = log_now G (op_count (bump w1))\<rparr>" for x
  have F: "lf_bytes (F x) = old @ x" for x by (simp add: F_def)
  have app: "append_bytes G ?cur x (bump w1) = log_put ?cur (F x) (bump w1)" for x
    using w1 by (auto simp: append_bytes_def Let_def F_def split: option.splits)
  have hb: "held G c I S (bump w1)" using h1 by simp
  note W = held_write [OF assms(1) hb, where old = old and e = e, OF _ _ _ _ old1]
  have e1: "ensure_open G c w = (if op_fails G (op_count w) then (Inl (LogIo ''os error''), bump w) else (Inr (), bump w1))"
    by (simp add: ensure_open_def attempt_def w1_def)
  have full1: "held G c I S (append_bytes G ?cur (event_line G e @ [NL]) (bump w1))"
    unfolding app by (rule W(1) [where f = "F (event_line G e @ [NL])"]) (simp_all add: F)
  have full2: "event_line G e \<in> visible G c (log_at (append_bytes G ?cur (event_line G e @ [NL]) (bump w1)))"
    unfolding app by (rule W(2) [where f = "F (event_line G e @ [NL])"]) (simp_all add: F)
  have part: "held G c I S (append_bytes G ?cur [] (bump w1))"
    unfolding app by (rule W(1) [where f = "F []"]) (simp_all add: F)
  have torn: "op_fails G (op_count w + 1) \<Longrightarrow> op_torn G (op_count w + 1) = 0"
    using assms(1) by (simp add: env_ok_def whole_writes_def)
  have cnt: "op_count (bump x) = op_count x + 1" for x :: "'z press_scheme" by (simp add: bump_def)
  have fr: "op_count (append_bytes G ?cur x y) = op_count y" "db (append_bytes G ?cur x y) = db y" for x and y :: "'z press_scheme"
    by (simp_all add: append_bytes_def Let_def)
  show ?thesis
    using full1 full2 part torn assms(2) w1(3,4)
    by (auto simp: wp_def append_line_synced_def bindL_def e1 attempt_def cnt fr)
qed

lemma wp_mark:
  assumes "held G c I S w" "\<exists>l\<in>visible G c (log_at w). line_id G l = Some i"
  shows "wp (db_step G (mark_event_published i)) (\<lambda>_. held G c I S) (held G c I S) w"
  unfolding db_step_def
proof (rule wp_attempt)
  show "held G c I S (bump (w\<lparr>db := mark_event_published i (db w)\<rparr>))"
    using assms(1) accounted_mark [OF _ assms(2), of I]
    by (auto simp: held_def rot_ok_def mark_event_published_def split: option.splits)
qed (use assms in simp)

lemma held_rotate:
  assumes "env_ok G c" "held G c I S w"
  shows "wp (rotate_journaled G c) (\<lambda>_. held G c I S) (held G c I S) w"
proof -
  have v: "S \<subseteq> visible G c (log_at w)" using assms(2) by (simp add: held_def)
  show ?thesis
    by (rule wp_mono [OF wp_rotate [OF _ _ _ accounted_self(1,2) [OF assms(2)] refl accounted_self(3) [OF assms(2)]]])
      (use assms(1) v kept_held in \<open>auto simp: env_ok_def\<close>)
qed

lemma held_recover:
  assumes "env_ok G c" "held G c I S w"
  shows "wp (recover_rotation G c) (\<lambda>_ w1. held G c I S w1 \<and> rotation_journal_row (db w1) = None)
    (\<lambda>w1. held G c I S w1 \<and> faulty G) w"
proof -
  have v: "S \<subseteq> visible G c (log_at w)" using assms(2) by (simp add: held_def)
  show ?thesis
  proof (rule wp_mono [OF wp_recover [OF _ _ _ accounted_self(1,2) [OF assms(2)] refl accounted_self(3) [OF assms(2)]]])
    fix x w1
    assume "recovered G c I (visible G c (log_at w)) w1"
    then show "held G c I S w1 \<and> rotation_journal_row (db w1) = None"
      using recovered_held [OF _ v] by (auto simp: recovered_def now_is_def)
  qed (use assms(1) v kept_held in \<open>auto simp: env_ok_def\<close>)
qed

lemma held_emit:
  assumes "held G c I S w" shows "held G c I S (emit E k f w)"
proof -
  let ?e = "f (event_new (utc_now E (draws w)) (new_uuid E (draws w)) k)"
  have "set (event_outbox (db w)) \<subseteq> set (event_outbox (enqueue_event ?e (db w)))"
    "rotation_journal_row (enqueue_event ?e (db w)) = rotation_journal_row (db w)"
    by (auto simp: enqueue_event_def)
  then have a: "set (event_outbox (db w)) \<subseteq> set (event_outbox (db (emit E k f w)))"
    "rotation_journal_row (db (emit E k f w)) = rotation_journal_row (db w)" "log_at (emit E k f w) = log_at w"
    by (auto simp: emit_def log_at_def)
  have v: "S \<subseteq> visible G c (log_at w)" using assms by (simp add: held_def)
  have o: "\<forall>r\<in>set (event_outbox (db (emit E k f w))). o_event_id r = e_id (o_payload r)"
    using accounted_self(3) [OF assms] by (auto simp: accounted_def emit_def enqueue_event_def)
  show ?thesis
    using assms accounted_mono [OF accounted_self(3) [OF assms] subset_refl a(1) o] a(2,3)
    by (simp add: held_def rot_ok_def split: option.splits)
qed

lemma wp_note:
  assumes "held G c I S w"
  shows "wp (enqueue_note G E f) (\<lambda>_. held G c I S) (held G c I S) w"
  unfolding enqueue_note_def by (rule wp_attempt) (use assms held_emit in auto)

lemma held_rotate_before:
  assumes "env_ok G c" "held G c I S w"
  shows "wp (rotate_before_append G E c n r) (\<lambda>_. held G c I S) (held G c I S) w"
proof (cases "must_rotate c n w")
  case True
  have "wp (bindL (rotate_journaled G c) (\<lambda>a. case a of None \<Rightarrow> retL r
     | Some archive \<Rightarrow> bindL (enqueue_note G E (rotation_note ''size_threshold'' c archive 0 0)) (\<lambda>_.
         retL (r\<lparr>pr_rotated := Some archive\<rparr>)))) (\<lambda>_. held G c I S) (held G c I S) w"
  proof (rule wp_bindI [OF held_rotate [OF assms]])
    fix a w1
    assume h: "held G c I S w1"
    show "wp (case a of None \<Rightarrow> retL r
     | Some archive \<Rightarrow> bindL (enqueue_note G E (rotation_note ''size_threshold'' c archive 0 0)) (\<lambda>_.
         retL (r\<lparr>pr_rotated := Some archive\<rparr>))) (\<lambda>_. held G c I S) (held G c I S) w1"
      using h by (cases a) (auto intro: wp_bindI [OF wp_note [OF h]])
  qed
  then show ?thesis using True by (simp add: wp_def rotate_before_append_def)
qed (use assms in \<open>simp add: wp_def rotate_before_append_def\<close>)

lemma line_id_event: "lines_ok G \<Longrightarrow> line_id G (event_line G e) = Some (e_id e)"
  by (simp add: lines_ok_def)

text \<open>The rows of the outbox carry the id of the record they hold.\<close>

definition rows_ok :: "(uuid \<times> event) list \<Rightarrow> bool" where
  "rows_ok rows \<longleftrightarrow> (\<forall>(i, e)\<in>set rows. i = e_id e)"

lemma wp_publish_row:
  assumes "env_ok G c" "held G c I S w" "i = e_id e"
  shows "wp (bindL (append_line_synced G c (event_line G e @ [NL])) (\<lambda>_. db_step G (mark_event_published i)))
    (\<lambda>_. held G c I S) (held G c I S) w"
proof (rule wp_bindI [OF wp_append [OF assms(1,2)]])
  fix x w1
  assume h: "held G c I S w1 \<and> event_line G e \<in> visible G c (log_at w1) \<and> op_count w1 = op_count w + 2 \<and> db w1 = db w"
  have "lines_ok G" using assms(1) by (simp add: env_ok_def)
  with h assms(3) have "\<exists>l\<in>visible G c (log_at w1). line_id G l = Some i"
    by (intro bexI [of _ "event_line G e"]) (auto simp: line_id_event)
  then show "wp (db_step G (mark_event_published i)) (\<lambda>_. held G c I S) (held G c I S) w1"
    using h by (intro wp_mark) auto
qed

lemma held_drain_rows:
  assumes "env_ok G c" "held G c I S w" "rows_ok rows"
  shows "held G c I S (snd (drain_rows G E c rows r w))"
  using assms(2,3)
proof (induction rows arbitrary: r w)
  case (Cons x rows)
  obtain i e where x: "x = (i, e)" by (cases x)
  have i: "i = e_id e" "rows_ok rows" using Cons.prems(2) by (auto simp: rows_ok_def x)
  let ?line = "event_line G e @ [NL]"
  note A = held_rotate_before [OF assms(1) Cons.prems(1), where E = E and n = "length ?line" and r = r]
  show ?case
  proof (cases "rotate_before_append G E c (length ?line) r w")
    case (Pair res w1)
    show ?thesis
    proof (cases res)
      case (Inl err)
      then show ?thesis using wp_D(2) [OF A, of err w1] Pair by (simp add: x Let_def)
    next
      case (Inr r1)
      have h1: "held G c I S w1" using wp_D(1) [OF A, of r1 w1] Pair Inr by simp
      note B = wp_publish_row [OF assms(1) h1 i(1)]
      obtain res2 w2 where p2: "bindL (append_line_synced G c ?line) (\<lambda>_. db_step G (mark_event_published i)) w1 = (res2, w2)"
        by (cases "bindL (append_line_synced G c ?line) (\<lambda>_. db_step G (mark_event_published i)) w1")
      have h2: "held G c I S w2" using B p2 by (cases res2) (auto simp: wp_def)
      show ?thesis using Cons.IH [OF h2 i(2)] h2 p2 Pair Inr by (cases res2) (auto simp: x Let_def)
    qed
  qed
qed simp

definition outbox_ok :: "store \<Rightarrow> bool" where
  "outbox_ok s \<longleftrightarrow> (\<forall>r\<in>set (event_outbox s). o_event_id r = e_id (o_payload r))"

lemma pending_rows_ok: "outbox_ok s \<Longrightarrow> rows_ok (pending_events s n)"
  using set_take_subset by (fastforce simp: outbox_ok_def rows_ok_def pending_events_def)

lemma held_outbox_ok: "held G c I S w \<Longrightarrow> outbox_ok (db w)"
  by (simp add: held_def accounted_def outbox_ok_def)

lemma held_drain:
  assumes "env_ok G c" "held G c I S w"
  shows "held G c I S (snd (drain G E c r w))"
  using assms held_drain_rows [OF assms(1) _ pending_rows_ok [OF held_outbox_ok [OF assms(2)]], of I S "bump w"]
  by (simp add: drain_def pending_def)

section \<open>A whole cycle\<close>

lemma held_reconcile:
  assumes "env_ok G c" "held G c I S w"
  shows "wp (reconcile_tail G c) (\<lambda>_ w1. held G c I S w1 \<and>
      rotation_journal_row (db w1) = rotation_journal_row (db w) \<and> log_at w1 = log_at w \<and>
      (\<exists>P. event_outbox (db w1) = row_del P (event_outbox (db w))))
    (\<lambda>w1. held G c I S w1 \<and> faulty G) w"
proof -
  let ?V = "visible G c (log_at w)" and ?m = "log_at w" and ?jr = "rotation_journal_row (db w)"
    and ?b = "event_outbox (db w)"
  let ?present = "tail_event_ids G (current_path c) w @
            (case journal_of G w of None \<Rightarrow> [] | Some j \<Rightarrow> tail_event_ids G (j_rotating j) w)"
  have d: "dir_ok c" using assms(1) by (simp add: env_ok_def)
  note P = log_paths [OF d]
  have h: "rot_ok G c w" "clean c ?m" "S \<subseteq> ?V" "accounted G I ?V ?b" using assms(2) by (simp_all add: held_def)
  have nm: "j_rotating j = rotating_path c" if "?jr = Some j" for j
    using h(1) that by (auto simp: rot_ok_def journal_named_def)
  have seen: "\<exists>l\<in>?V. line_id G l = Some i" if "i \<in> set ?present" for i
    using that tail_ids_visible [of i G "current_path c" w c] tail_ids_visible [of i G "rotating_path c" w c] P nm
    by (auto simp: journal_of_def split: option.splits if_splits)
  have n0: "now_is ?m ?jr ?b (bump w)" by (simp add: now_is_def)
  have hold: "held G c I S x" if "now_is ?m ?jr b x" "accounted G I ?V b" for x b
    using that h by (simp add: held_def now_is_def rot_ok_def split: option.splits)
  have "wp (bindL (pending G) (mark_present G ?present)) (\<lambda>_ w1. held G c I S w1 \<and>
      rotation_journal_row (db w1) = ?jr \<and> log_at w1 = ?m \<and> (\<exists>P. event_outbox (db w1) = row_del P ?b))
    (\<lambda>w1. held G c I S w1 \<and> faulty G) (bump w)"
  proof (rule wp_step [OF wp_pending [OF n0]])
    fix rows x
    assume x: "now_is ?m ?jr ?b x \<and> rows = pending_events (db (bump w)) 10000"
    show "wp (mark_present G ?present rows) (\<lambda>_ w1. held G c I S w1 \<and>
        rotation_journal_row (db w1) = ?jr \<and> log_at w1 = ?m \<and> (\<exists>P. event_outbox (db w1) = row_del P ?b))
      (\<lambda>w1. held G c I S w1 \<and> faulty G) x"
    proof (rule wp_mono [OF wp_mark_present [OF _ h(4) seen]])
      show "now_is ?m ?jr ?b x" using x by simp
    next
      fix u y
      assume "\<exists>b'. now_is ?m ?jr b' y \<and> accounted G I ?V b' \<and>
         b' = row_del (\<lambda>x. o_event_id x \<in> set ?present \<and> o_event_id x \<in> fst ` set rows) ?b"
      then show "held G c I S y \<and> rotation_journal_row (db y) = ?jr \<and> log_at y = ?m \<and>
          (\<exists>P. event_outbox (db y) = row_del P ?b)"
        using hold by (auto simp: now_is_def)
    qed (use hold in auto)
  qed (use hold h(4) in auto)
  moreover have "held G c I S (bump w)" "\<exists>P. ?b = row_del P ?b"
    using assms(2) by (simp, intro exI [of _ "\<lambda>_. False"], simp add: row_del_def)
  ultimately show ?thesis by (simp add: wp_def reconcile_tail_def Let_def)
qed

lemma health_frame:
  "log_at (write_health G b x w) = log_at w" "db (write_health G b x w) = db w"
  "log_at (set_error G e w) = log_at w" "db (set_error G e w) = db w"
  "log_at (snd (failed_cycle G b r e w)) = log_at w" "db (snd (failed_cycle G b r e w)) = db w"
proof -
  show h: "log_at (write_health G b x w) = log_at w" "db (write_health G b x w) = db w" for b x and w :: "'z press_scheme"
    by (auto simp: write_health_def Let_def log_at_def bump_def)
  show s: "log_at (set_error G e w) = log_at w" "db (set_error G e w) = db w"
    by (auto simp: set_error_def log_at_def)
  show "log_at (snd (failed_cycle G b r e w)) = log_at w" "db (snd (failed_cycle G b r e w)) = db w"
    by (auto simp: failed_cycle_def h s)
qed

lemma held_frame: "log_at w1 = log_at w \<Longrightarrow> db w1 = db w \<Longrightarrow> held G c I S w1 = held G c I S w"
  by (rule held_cong) simp_all

lemma held_leadership: "held G c I S w \<Longrightarrow> held G c I S (snd (ensure_leadership G w))"
proof -
  assume h: "held G c I S w"
  have "log_at (snd (ensure_leadership G w)) = log_at w" "db (snd (ensure_leadership G w)) = db w"
    by (auto simp: ensure_leadership_def log_at_def bump_def split: option.splits bool.splits)
  then show ?thesis using h held_frame by blast
qed

lemma held_cycle:
  assumes "env_ok G c" "held G c I S w"
  shows "held G c I S (snd (publish_cycle G E c w))"
proof -
  obtain res w1 where l: "ensure_leadership G w = (res, w1)" by (cases "ensure_leadership G w")
  have h1: "held G c I S w1" using held_leadership [OF assms(2)] l by simp
  let ?r = "empty_report\<lparr>pr_leader := True\<rparr>"
  have body: "wp (bindL (recover_rotation G c) (\<lambda>_. reconcile_tail G c)) (\<lambda>_. held G c I S) (held G c I S) w1"
    by (rule wp_bindI [OF wp_mono [OF held_recover [OF assms(1) h1]]], assumption, simp)
      (auto intro: wp_mono [OF held_reconcile [OF assms(1)]])
  obtain res2 w2 where b: "bindL (recover_rotation G c) (\<lambda>_. reconcile_tail G c) w1 = (res2, w2)"
    by (cases "bindL (recover_rotation G c) (\<lambda>_. reconcile_tail G c) w1")
  have h2: "held G c I S w2" using body b by (cases res2) (auto simp: wp_def)
  obtain err r1 w3 where dr: "drain G E c ?r w2 = ((err, r1), w3)"
    by (cases "drain G E c ?r w2") auto
  have h3: "held G c I S w3" using held_drain [OF assms(1) h2, of E ?r] dr by simp
  have frame: "held G c I S (snd (failed_cycle G b r e x)) = held G c I S x"
    "held G c I S (write_health G b y x) = held G c I S x" for b r e x y
    by (rule held_frame; simp add: health_frame)+
  have ok: "held G c I S (w3\<lparr>p_last_error := None, p_last_error_at := None,
      p_last_ok_at := Some (log_now G (op_count w3))\<rparr>)"
    using h3 by (subst held_frame [of _ w3]) (auto simp: log_at_def fun_eq_iff)
  have "held G c I S (snd (cycle_inner G E c w))"
    using h1 h2 h3 ok
    by (cases res; cases res2; cases err)
      (auto simp: cycle_inner_def l b dr frame Let_def split: bool.splits)
  then show ?thesis
    by (subst held_frame [of _ "snd (cycle_inner G E c w)"])
      (auto simp: publish_cycle_def log_at_def fun_eq_iff split: prod.splits)
qed

end
