(* ===== verification/Publisher_Properties.thy ===== *)
theory Publisher_Properties
  imports Publisher_Cycle Publication_Properties
begin

text \<open>
  The properties of the event log and its publisher: what a rotation keeps under every failure,
  that recovery ends, that no event is lost, what a quiet cycle delivers, what retention removes;
  and the two situations in which lines are lost.
\<close>

section \<open>A quiet cycle\<close>

definition text_at :: "string \<Rightarrow> 'z press_scheme \<Rightarrow> string" where
  "text_at p w = (case log_at w p of None \<Rightarrow> [] | Some f \<Rightarrow> lf_bytes f)"

definition log_lines :: "log_env \<Rightarrow> (uuid \<times> event) list \<Rightarrow> string" where
  "log_lines G rows = concat (map (\<lambda>(i, e). event_line G e @ [NL]) rows)"

lemma current_len_text: "current_len c w = length (text_at (current_path c) w)"
  by (simp add: current_len_def file_len_def text_at_def split: option.split)

lemma publish_row_exact:
  assumes "\<not> faulty G"
  shows "\<exists>w2. bindL (append_line_synced G c line) (\<lambda>_. db_step G (mark_event_published i)) w = (Inr (), w2) \<and>
    text_at (current_path c) w2 = text_at (current_path c) w @ line \<and>
    db w2 = mark_event_published i (db w)"
  using assms
  by (auto simp: bindL_def append_line_synced_def ensure_open_def attempt_def faulty_def db_step_def
      text_at_def append_bytes_def Let_def log_exists_def log_at_def log_put_def bump_def)

lemma drain_rows_exact:
  assumes "\<not> faulty G"
    "length (text_at (current_path c) w) + length (log_lines G rows) \<le> max_current_bytes c"
  shows "\<exists>w1. drain_rows G E c rows r w = ((None, r\<lparr>pr_published := pr_published r + length rows\<rparr>), w1) \<and>
    text_at (current_path c) w1 = text_at (current_path c) w @ log_lines G rows \<and>
    db w1 = fold (\<lambda>(i, e). mark_event_published i) rows (db w)"
  using assms(2)
proof (induction rows arbitrary: r w)
  case (Cons x rows)
  obtain i e where x: "x = (i, e)" by (cases x)
  let ?line = "event_line G e @ [NL]"
  have ll: "log_lines G (x # rows) = ?line @ log_lines G rows" by (simp add: log_lines_def x)
  have nr: "rotate_before_append G E c (length ?line) r w = (Inr r, w)"
    using Cons.prems by (simp add: rotate_before_append_def must_rotate_def current_len_text ll)
  obtain w2 where w2: "bindL (append_line_synced G c ?line) (\<lambda>_. db_step G (mark_event_published i)) w = (Inr (), w2)"
    "text_at (current_path c) w2 = text_at (current_path c) w @ ?line" "db w2 = mark_event_published i (db w)"
    using publish_row_exact [OF assms(1)] by blast
  obtain w1 where "drain_rows G E c rows (r\<lparr>pr_published := pr_published r + 1\<rparr>) w2 =
      ((None, r\<lparr>pr_published := pr_published r + 1 + length rows\<rparr>), w1)"
    "text_at (current_path c) w1 = text_at (current_path c) w2 @ log_lines G rows"
    "db w1 = fold (\<lambda>(i, e). mark_event_published i) rows (db w2)"
    using Cons.IH [of w2 "r\<lparr>pr_published := pr_published r + 1\<rparr>"] Cons.prems w2(2) ll by auto
  then show ?case using nr w2 by (simp add: x Let_def ll [unfolded x])
qed (simp add: log_lines_def)

lemma fold_mark: "event_outbox (fold (\<lambda>(i, e). mark_event_published i) rows s) =
    filter (\<lambda>r. o_event_id r \<notin> fst ` set rows) (event_outbox s)"
proof (induction rows arbitrary: s)
  case (Cons x rows)
  then show ?case
    by (cases x) (auto simp: mark_event_published_def row_del_def intro!: filter_cong)
qed simp

lemma fold_mark_frame:
  "rotation_journal_row (fold (\<lambda>(i, e). mark_event_published i) rows s) = rotation_journal_row s"
  by (induction rows arbitrary: s) (auto simp: mark_event_published_def)

section \<open>The properties\<close>

text \<open>a rotation under any pattern of failing steps, which includes a crash before any step,
  leaves exactly the lines readers could find before, keeps the journal invariant that recovery
  relies on, and keeps every outbox event either pending or on a line. An error never leaves
  the directory in a state the next publisher cannot recover.\<close>

theorem rotation_survives_crashes:
  assumes "dir_ok c" "gzip_ok G" "journal_readable G" "rot_ok G c w" "clean c (log_at w)"
    "outbox_ok (db w)"
  shows "let w1 = snd (rotate_journaled G c w) in
    rot_ok G c w1 \<and> clean c (log_at w1) \<and> visible G c (log_at w1) = visible G c (log_at w) \<and>
    accounted G (o_event_id ` set (event_outbox (db w))) (visible G c (log_at w)) (event_outbox (db w1))"
proof -
  let ?I = "o_event_id ` set (event_outbox (db w))" and ?V = "visible G c (log_at w)"
  have "accounted G ?I ?V (event_outbox (db w))" using assms(6) by (simp add: accounted_def outbox_ok_def)
  from wp_rotate [OF assms(1-5) refl this]
  have "wp (rotate_journaled G c) (\<lambda>_ w1. \<exists>b. kept G c ?V b w1 \<and> accounted G ?I ?V b)
      (\<lambda>w1. \<exists>b. kept G c ?V b w1 \<and> accounted G ?I ?V b) w"
    by (rule wp_mono) auto
  then show ?thesis unfolding wp_both Let_def by (auto simp: kept_def)
qed

text \<open>from any state a crash can leave, a recovery in which no step fails succeeds: the journal
  is cleared, the \<open>.rotating\<close> source is gone, and readers find exactly the same lines.\<close>

theorem recovery_completes:
  assumes "dir_ok c" "gzip_ok G" "journal_readable G" "rot_ok G c w" "clean c (log_at w)"
    "outbox_ok (db w)" "\<not> faulty G"
  shows "\<exists>w1. recover_rotation G c w = (Inr (), w1) \<and> rotation_journal_row (db w1) = None \<and>
    log_at w1 (rotating_path c) = None \<and> visible G c (log_at w1) = visible G c (log_at w)"
proof -
  let ?V = "visible G c (log_at w)"
  have "accounted G {} ?V (event_outbox (db w))" using assms(6) by (simp add: accounted_def outbox_ok_def)
  from wp_recover [OF assms(1-5) refl this] assms(7)
  show ?thesis
    by (cases "recover_rotation G c w"; cases "fst (recover_rotation G c w)")
      (auto simp: wp_def recovered_def now_is_def)
qed

text \<open>C27: no event is lost, in the environments of \<open>env_ok\<close>: the rotation journal can be read, a failed
  write of the log has written nothing, and what was compressed or serialized reads back. Whatever else
  fails during a publish cycle, every line readers could find is still there, and every event that
  was in the outbox is still in it or is on a line of the log; the cycle keeps the conditions on the
  store and the live file. Where the journal cannot be read or a write is torn, events can be lost
  (\<open>unread_journal_loses_source\<close>, \<open>torn_write_loses_event\<close>).\<close>

theorem no_event_lost:
  assumes "env_ok G c" "rot_ok G c w" "clean c (log_at w)" "outbox_ok (db w)"
  shows "let w1 = snd (publish_cycle G E c w) in
    rot_ok G c w1 \<and> clean c (log_at w1) \<and> outbox_ok (db w1) \<and>
    visible G c (log_at w) \<subseteq> visible G c (log_at w1) \<and>
    (\<forall>r\<in>set (event_outbox (db w)). o_event_id r \<in> o_event_id ` set (event_outbox (db w1)) \<or>
       (\<exists>l\<in>visible G c (log_at w1). line_id G l = Some (o_event_id r)))"
proof -
  have "held G c (o_event_id ` set (event_outbox (db w))) (visible G c (log_at w)) w"
    using assms by (auto simp: held_def accounted_def outbox_ok_def)
  from held_cycle [OF assms(1) this, of E] show ?thesis
    by (auto simp: held_def accounted_def outbox_ok_def Let_def)
qed

lemma pending_all:
  "length (event_outbox s) \<le> 10000 \<Longrightarrow> set (pending_events s 10000) = (\<lambda>r. (o_event_id r, o_payload r)) ` set (event_outbox s)"
  by (simp add: pending_events_def)

lemma log_lines_length:
  "length (log_lines G rows) = sum_list (map (\<lambda>(i, e). length (event_line G e) + 1) rows)"
  by (induction rows) (auto simp: log_lines_def)

lemma pending_mset:
  "length (event_outbox s) \<le> 10000 \<Longrightarrow>
     mset (pending_events s 10000) = image_mset (\<lambda>r. (o_event_id r, o_payload r)) (mset (event_outbox s))"
  by (simp add: pending_events_def)

lemma pending_length:
  assumes "length (event_outbox s) \<le> 10000"
  shows "length (log_lines G (pending_events s 10000)) =
    sum_list (map (\<lambda>r. length (event_line G (o_payload r)) + 1) (event_outbox s))"
proof -
  have "sum_list (map f (pending_events s 10000)) = sum_mset (image_mset f (mset (pending_events s 10000)))" for f :: "_ \<Rightarrow> nat"
    by (simp flip: sum_mset_sum_list mset_map)
  then show ?thesis
    by (simp add: log_lines_length pending_mset [OF assms] image_mset.compositionality comp_def
        flip: sum_mset_sum_list mset_map)
qed

text \<open>a drain in which no step fails appends the pending events in enqueue order, one line each,
  after the bytes that were there, deletes exactly their rows and counts them.\<close>

theorem drain_exact:
  assumes "\<not> faulty G" "length (event_outbox (db w)) \<le> 10000"
    "current_len c w + sum_list (map (\<lambda>r. length (event_line G (o_payload r)) + 1) (event_outbox (db w)))
      \<le> max_current_bytes c"
  shows "\<exists>w1. drain G E c r w =
      ((None, r\<lparr>pr_published := pr_published r + length (event_outbox (db w))\<rparr>), w1) \<and>
    text_at (current_path c) w1 =
      text_at (current_path c) w @ log_lines G (pending_events (db w) 10000) \<and>
    event_outbox (db w1) = [] \<and> rotation_journal_row (db w1) = rotation_journal_row (db w)"
proof -
  let ?rows = "pending_events (db w) 10000"
  have t: "text_at p (bump w) = text_at p w" for p by (simp add: text_at_def)
  have "length (text_at (current_path c) (bump w)) + length (log_lines G ?rows) \<le> max_current_bytes c"
    using assms(3) by (simp add: t current_len_text pending_length [OF assms(2)])
  from drain_rows_exact [OF assms(1) this, of E r] obtain w1 where
    w1: "drain_rows G E c ?rows r (bump w) = ((None, r\<lparr>pr_published := pr_published r + length ?rows\<rparr>), w1)"
    "text_at (current_path c) w1 = text_at (current_path c) w @ log_lines G ?rows"
    "db w1 = fold (\<lambda>(i, e). mark_event_published i) ?rows (db w)"
    by (auto simp: t)
  have "length ?rows = length (event_outbox (db w))" using assms(2) by (simp add: pending_events_def)
  moreover have "event_outbox (db w1) = []"
    unfolding w1(3) fold_mark pending_all [OF assms(2)] by (auto simp: filter_empty_conv image_image)
  moreover have "rotation_journal_row (db w1) = rotation_journal_row (db w)"
    unfolding w1(3) fold_mark_frame ..
  moreover have "\<not> outbox_unreadable G (op_count w)" using assms(1) by (simp add: faulty_def)
  ultimately show ?thesis using w1 by (auto simp: drain_def pending_def)
qed

lemma quiet_cycle_body:
  assumes "env_ok G c" "held G c I S w" "\<not> faulty G" "rotation_journal_row (db w) = None"
  shows "\<exists>w2 P. bindL (recover_rotation G c) (\<lambda>_. reconcile_tail G c) w = (Inr (), w2) \<and>
    rotation_journal_row (db w2) = None \<and> log_at w2 = log_at w \<and>
    event_outbox (db w2) = row_del P (event_outbox (db w)) \<and> held G c I S w2"
proof -
  have r: "recover_rotation G c w = (Inr (), bump w)"
    using assms(4) by (simp add: recover_rotation_def journal_of_def)
  have "held G c I S (bump w)" using assms(2) by simp
  from held_reconcile [OF assms(1) this] assms(3)
  show ?thesis using assms(4)
    by (cases "reconcile_tail G c (bump w)"; cases "fst (reconcile_tail G c (bump w))")
      (auto simp: wp_def bindL_def r)
qed

text \<open>delivery. When no step fails, the lease is free, no rotation is outstanding and the live
  file has room, one cycle empties the outbox without an error: every pending event is on a
  line of the log afterwards.\<close>

theorem quiet_cycle_delivers:
  assumes "env_ok G c" "rot_ok G c w" "clean c (log_at w)" "outbox_ok (db w)"
    "\<not> faulty G" "lease_free G (op_count w) = Some True" "rotation_journal_row (db w) = None"
    "length (event_outbox (db w)) \<le> 10000"
    "current_len c w + sum_list (map (\<lambda>r. length (event_line G (o_payload r)) + 1) (event_outbox (db w)))
      \<le> max_current_bytes c"
  shows "\<exists>r w1. publish_cycle G E c w = (r, w1) \<and> pr_leader r \<and> pr_error r = None \<and>
    event_outbox (db w1) = [] \<and>
    (\<forall>x\<in>set (event_outbox (db w)). \<exists>l\<in>visible G c (log_at w1). line_id G l = Some (o_event_id x))"
proof -
  let ?I = "o_event_id ` set (event_outbox (db w))" and ?S = "visible G c (log_at w)"
  have h: "held G c ?I ?S w" using assms(2-4) by (auto simp: held_def accounted_def outbox_ok_def)
  obtain w0 where l: "ensure_leadership G w = (Inr True, w0)" "log_at w0 = log_at w" "db w0 = db w"
    using assms(6) by (cases "leased w") (auto simp: ensure_leadership_def log_at_def bump_def fun_eq_iff)
  have h0: "held G c ?I ?S w0" using h held_frame [of w0 w] l by simp
  obtain w2 P where b: "bindL (recover_rotation G c) (\<lambda>_. reconcile_tail G c) w0 = (Inr (), w2)"
    "rotation_journal_row (db w2) = None" "log_at w2 = log_at w" "held G c ?I ?S w2"
    "event_outbox (db w2) = row_del P (event_outbox (db w))"
    using quiet_cycle_body [OF assms(1) h0 assms(5)] assms(7) l by auto
  have sub: "length (filter P xs) \<le> length xs"
    "sum_list (map f (filter P xs)) \<le> sum_list (map f xs)" for P xs and f :: "outbox_row \<Rightarrow> nat"
    by (simp, induction xs) (auto intro: trans_le_add2)
  have cl: "current_len c w2 = current_len c w" using b(3) by (simp add: current_len_def file_len_def)
  have "\<exists>w3. drain G E c (empty_report\<lparr>pr_leader := True\<rparr>) w2 =
      ((None, empty_report\<lparr>pr_leader := True, pr_published := length (event_outbox (db w2))\<rparr>), w3) \<and>
    text_at (current_path c) w3 = text_at (current_path c) w2 @ log_lines G (pending_events (db w2) 10000) \<and>
    event_outbox (db w3) = [] \<and> rotation_journal_row (db w3) = rotation_journal_row (db w2)"
    using drain_exact [OF assms(5), of w2 c E "empty_report\<lparr>pr_leader := True\<rparr>"] assms(8,9) b(5) cl
      sub(1) [of "\<lambda>x. \<not> P x" "event_outbox (db w)"]
      sub(2) [of "\<lambda>r. length (event_line G (o_payload r)) + 1" "\<lambda>x. \<not> P x" "event_outbox (db w)"]
    by (simp add: row_del_def empty_report_def)
  then obtain w3 where d: "drain G E c (empty_report\<lparr>pr_leader := True\<rparr>) w2 =
      ((None, empty_report\<lparr>pr_leader := True, pr_published := length (event_outbox (db w2))\<rparr>), w3)"
    "event_outbox (db w3) = []" by blast
  define w4 where "w4 = snd (publish_cycle G E c w)"
  have e4: "publish_cycle G E c w = (empty_report\<lparr>pr_leader := True, pr_published := length (event_outbox (db w2))\<rparr>, w4)"
    by (simp add: w4_def publish_cycle_def cycle_inner_def l b(1) d(1) Let_def)
  have o4: "event_outbox (db w4) = []"
    by (simp add: w4_def publish_cycle_def cycle_inner_def l b(1) d(1) Let_def health_frame d(2))
  have "held G c ?I ?S w4" unfolding w4_def by (rule held_cycle [OF assms(1) h])
  then have "\<forall>i\<in>?I. \<exists>l\<in>visible G c (log_at w4). line_id G l = Some i"
    using o4 by (auto simp: held_def accounted_def)
  then show ?thesis using e4 o4 by (auto simp: empty_report_def)
qed

section \<open>Sample worlds\<close>

definition sample_log_env :: "(nat \<Rightarrow> bool) \<Rightarrow> (nat \<Rightarrow> nat) \<Rightarrow> log_env" where
  "sample_log_env fails torn = \<lparr> op_fails = fails, op_torn = torn, journal_unreadable = (\<lambda>_. False),
     outbox_unreadable = (\<lambda>_. False), log_unreadable = (\<lambda>_. False), lease_free = (\<lambda>_. Some True),
     log_now = (\<lambda>n. int n), iso_week_of = (\<lambda>_. (2026, 7)), gzip = (\<lambda>s. s), gunzip = Some,
     event_line = (\<lambda>e. replicate (Suc (e_id e)) CHR ''x''),
     event_of_line = (\<lambda>l. Some (event_new 0 (length l - 1) Fired)), valid_utf8 = (\<lambda>_. True) \<rparr>"

definition sample_log_config :: log_config where
  "sample_log_config = \<lparr>logs_dir = ''l'', lc_retention = 5, max_current_bytes = 100, budget_bytes = 4\<rparr>"

definition sample_event_row :: outbox_row where
  "sample_event_row = \<lparr>o_event_id = 2, o_payload = event_new 0 2 Fired, o_enqueued_at = 0\<rparr>"

definition sample_press :: "(string \<times> log_file) list \<Rightarrow> rotation_journal option \<Rightarrow> press" where
  "sample_press fs j = \<lparr> db = empty_store\<lparr>event_outbox := [sample_event_row], rotation_journal_row := j\<rparr>,
     draws = 0, book = [], armed_hints = [], anchors = [], files = [], folders = [],
     log_files = fs, op_count = 0, leased = False, p_last_error = None, p_last_error_at = None,
     p_last_ok_at = None, p_last_written = None, health_doc = None, bad_entries = [] \<rparr>"

lemma sample_dir: "dir_ok sample_log_config"
  by (simp add: dir_ok_def sample_log_config_def)

lemma x_chars: "CHR ''x'' \<noteq> NL" "CHR ''x'' \<noteq> CR"
proof -
  have "(of_char NL :: nat) = 10" "(of_char CR :: nat) = 13" "(of_char (CHR ''x'') :: nat) = 120"
    by (simp_all add: NL_def CR_def)
  then show "CHR ''x'' \<noteq> NL" "CHR ''x'' \<noteq> CR" by (metis numeral_eq_iff num.distinct semiring_norm(85,86,87,89,90))+
qed

lemma sample_env_ok:
  "gzip_ok (sample_log_env fails torn)" "journal_readable (sample_log_env fails torn)"
  "lines_ok (sample_log_env fails torn)" "whole_writes (sample_log_env fails (\<lambda>_. 0))"
  "env_ok (sample_log_env fails (\<lambda>_. 0)) sample_log_config"
  "\<not> faulty (sample_log_env (\<lambda>_. False) torn)"
proof -
  show a: "gzip_ok (sample_log_env fails torn)" "journal_readable (sample_log_env fails torn)"
    "lines_ok (sample_log_env fails torn)" "whole_writes (sample_log_env fails (\<lambda>_. 0))" for torn
    by (auto simp: gzip_ok_def journal_readable_def lines_ok_def whole_writes_def sample_log_env_def
        x_chars x_chars [symmetric] chomp_def line_id_def event_new_def)
  show "env_ok (sample_log_env fails (\<lambda>_. 0)) sample_log_config"
    using a sample_dir by (simp add: env_ok_def)
  show "\<not> faulty (sample_log_env (\<lambda>_. False) torn)" by (simp add: faulty_def sample_log_env_def)
qed

lemma sample_outbox: "outbox_ok (db (sample_press fs j))"
  by (simp add: outbox_ok_def sample_press_def sample_event_row_def event_new_def)

text \<open>The live file holds one line; the rotation dies at its sixth step, the compression.\<close>

definition full_press :: press where
  "full_press = sample_press [(''l/events.current.jsonl'', \<lparr>lf_bytes = ''xx'' @ [NL], lf_mtime = 0\<rparr>)] None"

lemma sample_paths [simp]:
  "current_path sample_log_config = ''l/events.current.jsonl''"
  "rotating_path sample_log_config = ''l/events.rotating.jsonl''"
  by (simp_all add: dir_paths [OF sample_dir]) (simp_all add: sample_log_config_def)

lemma full_press_ok: "rot_ok G sample_log_config full_press" "clean sample_log_config (log_at full_press)"
  by (simp_all add: rot_ok_def clean_def full_press_def sample_press_def empty_store_def log_at_def
      hm_get_def row_get_def)

lemma full_outbox: "outbox_ok (db full_press)"
  by (simp add: full_press_def sample_outbox)

theorem rotation_survives_crashes_witness:
  "let G = sample_log_env (\<lambda>n. n = 5) (\<lambda>_. 1); w1 = snd (rotate_journaled G sample_log_config full_press) in
    rot_ok G sample_log_config w1 \<and> visible G sample_log_config (log_at w1) = visible G sample_log_config (log_at full_press)"
  using rotation_survives_crashes [OF sample_dir sample_env_ok(1,2) full_press_ok full_outbox,
      of "\<lambda>n. n = 5" "\<lambda>_. 1"] 
  by (simp add: Let_def)

text \<open>The state that crash leaves: the source renamed away, a truncated temporary, the journal.\<close>

definition crashed_press :: press where
  "crashed_press = sample_press
     [(''l/events.rotating.jsonl'', \<lparr>lf_bytes = ''xx'' @ [NL], lf_mtime = 0\<rparr>),
      (''l/archive/.events-2026-W07.jsonl.gz.tmp'', \<lparr>lf_bytes = ''x'', lf_mtime = 0\<rparr>)]
     (Some (journal_for sample_log_config ''events-2026-W07.jsonl'' 3))"

lemma crashed_press_ok:
  "rot_ok G sample_log_config crashed_press" "clean sample_log_config (log_at crashed_press)"
proof -
  have j: "journal_named sample_log_config (journal_for sample_log_config ''events-2026-W07.jsonl'' 3) ''events-2026-W07.jsonl''"
    by (simp add: journal_named_def journal_for_def week_name_def starts_with_def ends_with_def)
  have "log_at crashed_press (j_final_path (journal_for sample_log_config ''events-2026-W07.jsonl'' 3)) = None"
    by (simp add: crashed_press_def sample_press_def log_at_def hm_get_def row_get_def journal_for_def
        gz_path_for_def archive_dir_def sample_log_config_def path_join_def)
  then have "source_held G sample_log_config (journal_for sample_log_config ''events-2026-W07.jsonl'' 3) (log_at crashed_press)"
    by (intro source_heldI) simp
  with j show "rot_ok G sample_log_config crashed_press"
    by (auto simp: rot_ok_def crashed_press_def sample_press_def)
  show "clean sample_log_config (log_at crashed_press)"
    by (simp add: clean_def crashed_press_def sample_press_def log_at_def hm_get_def row_get_def)
qed

lemma crashed_outbox: "outbox_ok (db crashed_press)"
  by (simp add: crashed_press_def sample_outbox)

theorem recovery_completes_witness:
  "let G = sample_log_env (\<lambda>_. False) (\<lambda>_. 0) in
   \<exists>w1. recover_rotation G sample_log_config crashed_press = (Inr (), w1) \<and> rotation_journal_row (db w1) = None \<and>
     log_at w1 (rotating_path sample_log_config) = None"
  using recovery_completes [OF sample_dir sample_env_ok(1,2) crashed_press_ok
      crashed_outbox sample_env_ok(6), of "\<lambda>_. 0"]
  by (auto simp: Let_def)

theorem no_event_lost_witness:
  "let G = sample_log_env (\<lambda>n. n = 9) (\<lambda>_. 0); w1 = snd (publish_cycle G sample_env sample_log_config crashed_press) in
    2 \<in> o_event_id ` set (event_outbox (db w1)) \<or> (\<exists>l\<in>visible G sample_log_config (log_at w1). line_id G l = Some 2)"
  using no_event_lost [OF sample_env_ok(5) crashed_press_ok crashed_outbox,
      of "\<lambda>n. n = 9" sample_env]
  by (simp add: Let_def crashed_press_def sample_press_def sample_event_row_def)

lemma full_press_room:
  "length (event_outbox (db full_press)) \<le> 10000"
  "current_len sample_log_config full_press +
     sum_list (map (\<lambda>r. length (event_line (sample_log_env fails torn) (o_payload r)) + 1) (event_outbox (db full_press)))
      \<le> max_current_bytes sample_log_config"
  by (simp_all add: full_press_def sample_press_def sample_event_row_def current_len_def file_len_def
      log_at_def hm_get_def row_get_def sample_log_env_def event_new_def)
    (simp add: sample_log_config_def)

theorem drain_exact_witness:
  "let G = sample_log_env (\<lambda>_. False) (\<lambda>_. 0) in
   \<exists>w1. drain G sample_env sample_log_config empty_report full_press =
      ((None, empty_report\<lparr>pr_published := 1\<rparr>), w1) \<and> event_outbox (db w1) = []"
  using drain_exact [OF sample_env_ok(6) [of "\<lambda>_. 0"] full_press_room, of sample_env empty_report]
  by (auto simp: Let_def empty_report_def full_press_def sample_press_def)

theorem quiet_cycle_delivers_witness:
  "let G = sample_log_env (\<lambda>_. False) (\<lambda>_. 0) in
   \<exists>r w1. publish_cycle G sample_env sample_log_config full_press = (r, w1) \<and> pr_error r = None \<and>
     event_outbox (db w1) = [] \<and> (\<exists>l\<in>visible G sample_log_config (log_at w1). line_id G l = Some 2)"
proof -
  let ?G = "sample_log_env (\<lambda>_. False) (\<lambda>_. 0)"
  have l: "lease_free ?G (op_count full_press) = Some True" by (simp add: sample_log_env_def)
  have j: "rotation_journal_row (db full_press) = None" by (simp add: full_press_def sample_press_def empty_store_def)
  have r: "sample_event_row \<in> set (event_outbox (db full_press))" "o_event_id sample_event_row = 2"
    by (simp_all add: full_press_def sample_press_def sample_event_row_def)
  show ?thesis
    using quiet_cycle_delivers [OF sample_env_ok(5) full_press_ok full_outbox
        sample_env_ok(6) l j full_press_room, of sample_env] r
    by (fastforce simp: Let_def)
qed

end
