(* ===== verification/Retention_Properties.thy ===== *)
theory Retention_Properties
  imports Publisher_Properties
begin

text \<open>
  What retention removes, exactly; and the two situations in which the log loses lines: a torn
  write followed by another, and a rotation over a journal that could not be read.
\<close>

section \<open>The archive listing\<close>

definition archives_in :: "log_config \<Rightarrow> (string \<times> log_file) list \<Rightarrow> archive_entry list" where
  "archives_in c fs =
     map (\<lambda>(n, f). \<lparr>ae_name = n, ae_len = length (lf_bytes f), ae_mtime = lf_mtime f\<rparr>)
       (filter (\<lambda>(n, f). is_archive_name n) (read_archive_dir c fs))"

lemma list_archives_in: "list_archives c w = archives_in c (log_files w)"
  by (simp add: list_archives_def archives_in_def)

abbreviation "archive_path_of c n \<equiv> path_join (archive_dir c) n"

definition entry_name :: "string \<Rightarrow> bool" where
  "entry_name n \<longleftrightarrow> n \<noteq> [] \<and> CHR ''/'' \<notin> set n"

lemma in_archive_Some:
  assumes "dir_ok c"
  shows "in_archive c p = Some n \<longleftrightarrow> entry_name n \<and> p = archive_path_of c n"
proof
  assume h: "in_archive c p = Some n"
  then have n: "starts_with p (archive_dir c @ ''/'')" "n = drop (length (archive_dir c @ ''/'')) p" "entry_name n"
    by (auto simp: in_archive_def strip_prefix_def entry_name_def split: option.splits if_splits)
  then have "p = archive_dir c @ ''/'' @ n" by (auto simp: starts_with_append)
  moreover have "archive_path_of c n = archive_dir c @ ''/'' @ n"
    using archive_path [OF assms, of n] n(3) dir_paths(3) [OF assms] by (cases n) (auto simp: entry_name_def)
  ultimately show "entry_name n \<and> p = archive_path_of c n" using n(3) by simp
next
  assume h: "entry_name n \<and> p = archive_path_of c n"
  then have "p = logs_dir c @ ''/archive/'' @ n"
    using archive_path [OF assms, of n] by (cases n) (auto simp: entry_name_def)
  then show "in_archive c p = Some n" using in_archive_name [OF assms, of n] h by (simp add: entry_name_def)
qed

lemma archive_path_inj:
  "dir_ok c \<Longrightarrow> entry_name n \<Longrightarrow> entry_name m \<Longrightarrow> archive_path_of c n = archive_path_of c m \<longleftrightarrow> n = m"
  by (metis in_archive_Some option.inject)

lemma archives_in_Cons:
  "archives_in c ((p, f) # fs) =
     (case in_archive c p of
        Some n \<Rightarrow> if is_archive_name n
          then \<lparr>ae_name = n, ae_len = length (lf_bytes f), ae_mtime = lf_mtime f\<rparr> # archives_in c fs
          else archives_in c fs
      | None \<Rightarrow> archives_in c fs)"
  by (simp add: archives_in_def read_archive_dir_def List.map_filter_simps split: option.split)

lemma archives_in_Nil [simp]: "archives_in c [] = []"
  by (simp add: archives_in_def read_archive_dir_def List.map_filter_simps)

lemma archives_named: "dir_ok c \<Longrightarrow> e \<in> set (archives_in c fs) \<Longrightarrow>
    entry_name (ae_name e) \<and> archive_path_of c (ae_name e) \<in> fst ` set fs"
  by (induction fs) (auto simp: archives_in_Cons in_archive_Some split: option.splits if_splits)

lemma archives_distinct:
  "dir_ok c \<Longrightarrow> distinct (map fst fs) \<Longrightarrow> distinct (map ae_name (archives_in c fs))"
proof (induction fs)
  case (Cons x fs)
  obtain p f where x: "x = (p, f)" by (cases x)
  have "n \<notin> ae_name ` set (archives_in c fs)" if "in_archive c p = Some n" for n
    using archives_named [OF Cons.prems(1)] Cons.prems(2) that
    by (auto simp: x in_archive_Some [OF Cons.prems(1)])
  then show ?case using Cons by (auto simp: x archives_in_Cons split: option.split)
qed simp

definition without :: "log_config \<Rightarrow> string set \<Rightarrow> (string \<times> log_file) list \<Rightarrow> (string \<times> log_file) list" where
  "without c N fs = filter (\<lambda>f. fst f \<notin> archive_path_of c ` N) fs"

lemma archives_without:
  assumes "dir_ok c" "\<And>n. n \<in> N \<Longrightarrow> entry_name n"
  shows "archives_in c (without c N fs) = filter (\<lambda>e. ae_name e \<notin> N) (archives_in c fs)"
proof (induction fs)
  case (Cons x fs)
  obtain p f where x: "x = (p, f)" by (cases x)
  have "p \<in> archive_path_of c ` N \<longleftrightarrow> n \<in> N" if "in_archive c p = Some n" for n
    using that archive_path_inj [OF assms(1)] assms(2) by (auto simp: in_archive_Some [OF assms(1)])
  moreover have "in_archive c p \<noteq> None" if "p \<in> archive_path_of c ` N"
    using that assms(2) in_archive_Some [OF assms(1)] by blast
  ultimately show ?case using Cons
    by (auto simp: x without_def archives_in_Cons split: option.splits)
qed (simp add: without_def)

lemma without_twice: "without c N (without c M fs) = without c (M \<union> N) fs"
  by (auto simp: without_def intro: filter_cong)

lemma without_empty [simp]: "without c {} fs = fs"
  by (simp add: without_def)

section \<open>The two passes\<close>

lemma remove_exact:
  assumes "\<not> faulty G" "archive_path_of c n \<in> fst ` set (log_files w)"
  shows "\<exists>w1. remove_file G (archive_path_of c n) w = (Inr (), w1) \<and>
    log_files w1 = without c {n} (log_files w) \<and> op_count w1 = op_count w + 1"
proof -
  have "log_at w (archive_path_of c n) \<noteq> None"
    using assms(2) by (simp add: log_at_def hm_get_def row_get_None)
  then have "remove_file G (archive_path_of c n) w = (Inr (), bump (log_del (archive_path_of c n) w))"
    using assms(1) by (simp add: remove_file_def log_exists_def attempt_def faulty_def)
  moreover have "log_files (bump (log_del (archive_path_of c n) w)) = without c {n} (log_files w)"
    by (simp add: bump_def log_del_def hm_remove_def row_del_def without_def)
  moreover have "op_count (bump (log_del (archive_path_of c n) w)) = op_count w + 1"
    by (simp add: bump_def)
  ultimately show ?thesis by blast
qed

lemma still_there:
  assumes "dir_ok c" "entry_name n" "entry_name m" "m \<noteq> n" "archive_path_of c m \<in> fst ` set fs"
  shows "archive_path_of c m \<in> fst ` set (without c {n} fs)"
  using assms archive_path_inj [OF assms(1)] by (auto simp: without_def)

definition listed :: "log_config \<Rightarrow> (string \<times> log_file) list \<Rightarrow> archive_entry list \<Rightarrow> bool" where
  "listed c fs es \<longleftrightarrow> distinct (map ae_name es) \<and>
     (\<forall>e\<in>set es. entry_name (ae_name e) \<and> archive_path_of c (ae_name e) \<in> fst ` set fs)"

lemma listed_Cons:
  assumes "dir_ok c" "listed c fs (e # es)"
  shows "entry_name (ae_name e)" "archive_path_of c (ae_name e) \<in> fst ` set fs" "listed c fs es"
    "listed c (without c {ae_name e} fs) es"
proof -
  show n: "entry_name (ae_name e)" "archive_path_of c (ae_name e) \<in> fst ` set fs" and l: "listed c fs es"
    using assms(2) by (simp_all add: listed_def)
  show "listed c (without c {ae_name e} fs) es" unfolding listed_def
  proof (intro conjI ballI)
    show "distinct (map ae_name es)" using l by (simp add: listed_def)
    fix x
    assume x: "x \<in> set es"
    show x1: "entry_name (ae_name x)" using l x by (simp add: listed_def)
    have "ae_name e \<notin> ae_name ` set es" using assms(2) by (simp add: listed_def)
    then have "ae_name x \<noteq> ae_name e" using x by (metis imageI)
    then show "archive_path_of c (ae_name x) \<in> fst ` set (without c {ae_name e} fs)"
      using still_there [OF assms(1) n(1) x1] l x by (simp add: listed_def)
  qed
qed

lemma age_exact:
  assumes "\<not> faulty G" "dir_ok c" "listed c (log_files w) es"
  shows "\<exists>w1. retain_age G c cutoff es r w =
      (Inr (r\<lparr>rr_aged := rr_aged r @ map ae_name (filter (\<lambda>e. ae_mtime e < cutoff) es),
             rr_bytes_removed := rr_bytes_removed r + sum_list (map ae_len (filter (\<lambda>e. ae_mtime e < cutoff) es))\<rparr>), w1) \<and>
    log_files w1 = without c (ae_name ` {e \<in> set es. ae_mtime e < cutoff}) (log_files w)"
  using assms(3)
proof (induction es arbitrary: r w)
  case Nil
  then show ?case by (simp add: retL_def)
next
  case (Cons e es)
  show ?case
  proof (cases "ae_mtime e < cutoff")
    case True
    obtain w2 where w2: "remove_file G (archive_path_of c (ae_name e)) w = (Inr (), w2)"
      "log_files w2 = without c {ae_name e} (log_files w)"
      using remove_exact [OF assms(1) listed_Cons(2) [OF assms(2) Cons.prems]] by blast
    have there: "listed c (log_files w2) es" using listed_Cons(4) [OF assms(2) Cons.prems] w2(2) by simp
    have n: "ae_name ` {x \<in> set (e # es). ae_mtime x < cutoff} = {ae_name e} \<union> ae_name ` {x \<in> set es. ae_mtime x < cutoff}"
      using True by auto
    show ?thesis
      using Cons.IH [of w2 "r\<lparr>rr_aged := rr_aged r @ [ae_name e], rr_bytes_removed := rr_bytes_removed r + ae_len e\<rparr>"]
        there True w2
      unfolding n without_twice [symmetric] by (simp add: bindL_def add.assoc)
  next
    case False
    have n: "ae_name ` {x \<in> set (e # es). ae_mtime x < cutoff} = ae_name ` {x \<in> set es. ae_mtime x < cutoff}"
      using False by auto
    show ?thesis unfolding n using Cons.IH [OF listed_Cons(3) [OF assms(2) Cons.prems]] False by simp
  qed
qed

fun victims :: "nat \<Rightarrow> nat \<Rightarrow> archive_entry list \<Rightarrow> nat" where
  "victims budget used [] = 0"
| "victims budget used (e # es) = (if used \<le> budget then 0 else Suc (victims budget (used - ae_len e) es))"

lemma victims_le: "victims budget used es \<le> length es"
  by (induction es arbitrary: used) auto

lemma budget_exact:
  assumes "\<not> faulty G" "dir_ok c" "listed c (log_files w) es"
  shows "\<exists>w1 b. retain_budget G c used es r w =
      (Inr (r\<lparr>rr_budget := rr_budget r @ map ae_name (take (victims (budget_bytes c) used es) es),
             rr_bytes_removed := b\<rparr>), w1) \<and>
    log_files w1 = without c (ae_name ` set (take (victims (budget_bytes c) used es) es)) (log_files w)"
  using assms(3)
proof (induction es arbitrary: used r w)
  case Nil
  then show ?case by (auto simp: retL_def intro!: exI [of _ "rr_bytes_removed r"])
next
  case (Cons e es)
  show ?case
  proof (cases "used \<le> budget_bytes c")
    case True
    then show ?thesis by (auto simp: retL_def intro!: exI [of _ "rr_bytes_removed r"])
  next
    case False
    obtain w2 where w2: "remove_file G (archive_path_of c (ae_name e)) w = (Inr (), w2)"
      "log_files w2 = without c {ae_name e} (log_files w)"
      using remove_exact [OF assms(1) listed_Cons(2) [OF assms(2) Cons.prems]] by blast
    have there: "listed c (log_files w2) es" using listed_Cons(4) [OF assms(2) Cons.prems] w2(2) by simp
    let ?r = "r\<lparr>rr_budget := rr_budget r @ [ae_name e], rr_bytes_removed := rr_bytes_removed r + ae_len e\<rparr>"
    obtain w1 b where "retain_budget G c (used - ae_len e) es ?r w2 =
        (Inr (?r\<lparr>rr_budget := rr_budget ?r @ map ae_name (take (victims (budget_bytes c) (used - ae_len e) es) es),
             rr_bytes_removed := b\<rparr>), w1)"
      "log_files w1 = without c (ae_name ` set (take (victims (budget_bytes c) (used - ae_len e) es) es)) (log_files w2)"
      using Cons.IH [OF there, of "used - ae_len e" ?r] by auto
    then show ?thesis using False w2 without_twice [of c _ "{ae_name e}" "log_files w"]
      by (auto simp: bindL_def)
  qed
qed

section \<open>Retention\<close>

lemma victims_bound:
  "sum_list (map ae_len (drop (victims b (sum_list (map ae_len es) + n) es) es)) + n \<le> b \<or>
   victims b (sum_list (map ae_len es) + n) es = length es"
  by (induction es) auto

lemma victims_needed:
  "i < victims b (sum_list (map ae_len es) + n) es \<Longrightarrow> b < sum_list (map ae_len (drop i es)) + n"
proof (induction es arbitrary: i)
  case (Cons e es)
  then show ?case by (cases i) (auto split: if_splits)
qed simp

lemma listed_archives:
  "dir_ok c \<Longrightarrow> distinct (map fst fs) \<Longrightarrow> listed c fs (archives_in c fs)"
  by (simp add: listed_def archives_distinct archives_named)

lemma listed_perm: "mset es = mset es' \<Longrightarrow> listed c fs es = listed c fs es'"
  unfolding listed_def by (metis mset_eq_imp_distinct_iff mset_map set_mset_mset)

lemma distinct_without: "distinct (map fst fs) \<Longrightarrow> distinct (map fst (without c N fs))"
  by (simp add: without_def distinct_map_filter)

lemma without_at: "p \<notin> archive_path_of c ` N \<Longrightarrow> hm_get p (without c N fs) = hm_get p fs"
  unfolding hm_get_def row_get_def without_def by (induction fs) auto

lemma current_not_archive: "dir_ok c \<Longrightarrow> entry_name n \<Longrightarrow> current_path c \<noteq> archive_path_of c n"
  using archive_path [of c n] by (cases n) (auto simp: dir_paths(1) entry_name_def)

lemma read_archive_names:
  assumes "dir_ok c" "n \<in> set (map fst (read_archive_dir c fs))"
  shows "entry_name n"
  using assms(2)
  by (induction fs) (auto simp: read_archive_dir_def List.map_filter_simps in_archive_Some [OF assms(1)]
      split: option.splits)

text \<open>
  What interrupted rotations leave in the archive directory: a compression's temporary, and a plain
  archive whose compressed twin exists.
\<close>

definition leftover :: "log_config \<Rightarrow> press \<Rightarrow> string \<Rightarrow> bool" where
  "leftover c w n \<longleftrightarrow> starts_with n ''.'' \<and> ends_with n ''.tmp'' \<or>
     starts_with n ''events-'' \<and> ends_with n ''.jsonl'' \<and> log_at w (archive_path_of c (n @ ''.gz'')) \<noteq> None"

lemma is_stray_leftover: "is_stray c n w = leftover c w n"
  by (auto simp: is_stray_def leftover_def log_exists_def gz_path_for_def)

text \<open>A stray's deletion takes no compressed twin away.\<close>

lemma twin_stays:
  assumes "dir_ok c" "entry_name n" "entry_name m" "leftover c w n"
  shows "archive_path_of c (m @ ''.gz'') \<noteq> archive_path_of c n"
proof -
  have "entry_name (m @ ''.gz'')" using assms(3) by (simp add: entry_name_def)
  moreover have "m @ ''.gz'' \<noteq> n" using assms(4) by (auto simp: leftover_def ends_with_def starts_with_def)
  ultimately show ?thesis using archive_path_inj [OF assms(1)] assms(2) by blast
qed

lemma clean_exact:
  fixes w :: press
  assumes "\<not> faulty G" "dir_ok c"
  shows "distinct ns \<Longrightarrow> (\<And>n. n \<in> set ns \<Longrightarrow> entry_name n \<and> archive_path_of c n \<in> fst ` set (log_files w)) \<Longrightarrow>
    log_files (clean_strays G c ns w) = without c (set (filter (leftover c w) ns)) (log_files w) \<and>
    op_count (clean_strays G c ns w) = op_count w + length (filter (leftover c w) ns)"
proof (induction ns arbitrary: w)
  case (Cons n ns)
  have n: "entry_name n" "archive_path_of c n \<in> fst ` set (log_files w)" using Cons.prems(2) by auto
  show ?case
  proof (cases "leftover c w n")
    case False
    then show ?thesis using Cons by (simp add: is_stray_leftover)
  next
    case True
    obtain w1 where w1: "remove_file G (archive_path_of c n) w = (Inr (), w1)"
      "log_files w1 = without c {n} (log_files w)" "op_count w1 = op_count w + 1"
      using remove_exact [OF assms(1) n(2)] by blast
    have same: "leftover c w1 m = leftover c w m" if "m \<in> set ns" for m
    proof -
      have "archive_path_of c (m @ ''.gz'') \<notin> archive_path_of c ` {n}"
        using twin_stays [OF assms(2) n(1) _ True, of m] Cons.prems(2) [of m] that by auto
      then show ?thesis by (simp add: leftover_def log_at_def w1(2) without_at)
    qed
    have "archive_path_of c m \<in> fst ` set (log_files w1)" if "m \<in> set ns" for m
      unfolding w1(2) using Cons.prems that by (intro still_there [OF assms(2) n(1)]) auto
    then have ih: "log_files (clean_strays G c ns w1) = without c (set (filter (leftover c w1) ns)) (log_files w1)"
      "op_count (clean_strays G c ns w1) = op_count w1 + length (filter (leftover c w1) ns)"
      using Cons.IH [of w1] Cons.prems by auto
    have fs: "filter (leftover c w1) ns = filter (leftover c w) ns" using same by (intro filter_cong) auto
    show ?thesis using ih True by (simp add: is_stray_leftover w1 fs without_twice)
  qed
qed simp

lemma read_archive_listed:
  assumes "dir_ok c" "distinct (map fst fs)"
  shows "distinct (map fst (read_archive_dir c fs))"
    "n \<in> set (map fst (read_archive_dir c fs)) \<Longrightarrow> archive_path_of c n \<in> fst ` set fs"
proof -
  have there: "n \<in> set (map fst (read_archive_dir c fs)) \<Longrightarrow> archive_path_of c n \<in> fst ` set fs" for n fs
    by (induction fs) (auto simp: read_archive_dir_def List.map_filter_simps in_archive_Some [OF assms(1)]
      split: option.splits)
  then show "n \<in> set (map fst (read_archive_dir c fs)) \<Longrightarrow> archive_path_of c n \<in> fst ` set fs" .
  show "distinct (map fst (read_archive_dir c fs))" using assms(2)
  proof (induction fs)
    case (Cons x fs)
    obtain p f where x: "x = (p, f)" by (cases x)
    have "n \<notin> set (map fst (read_archive_dir c fs))" if "in_archive c p = Some n" for n
      using there [of n fs] Cons.prems that by (auto simp: x in_archive_Some [OF assms(1)])
    then show ?case using Cons
      by (auto simp: x read_archive_dir_def List.map_filter_simps split: option.split)
  qed (simp add: read_archive_dir_def List.map_filter_simps)
qed

lemma without_in_archive:
  assumes "dir_ok c" "\<And>n. n \<in> N \<Longrightarrow> entry_name n"
  shows "without c N fs = filter (\<lambda>(p, f). \<forall>n. in_archive c p = Some n \<longrightarrow> n \<notin> N) fs"
  unfolding without_def
proof (intro filter_cong refl)
  fix x assume "x \<in> set fs"
  show "fst x \<notin> archive_path_of c ` N \<longleftrightarrow> (case x of (p, f) \<Rightarrow> \<forall>n. in_archive c p = Some n \<longrightarrow> n \<notin> N)"
    using in_archive_Some [OF assms(1), of "fst x"] assms(2) by (cases x) auto
qed

lemma current_without:
  fixes x y :: press
  assumes "dir_ok c" "log_files x = without c N (log_files y)" "\<And>n. n \<in> N \<Longrightarrow> entry_name n"
  shows "log_at x (current_path c) = log_at y (current_path c)"
  using assms(2,3) current_not_archive [OF assms(1)] by (auto simp: log_at_def intro!: without_at)

text \<open>The budget's victims are in front of the list, the others behind.\<close>

lemma filter_not_taken:
  assumes "distinct (map f xs)"
  shows "filter (\<lambda>x. f x \<notin> f ` set (take k xs)) xs = drop k xs"
proof -
  have d: "distinct (map f (take k xs @ drop k xs))" using assms by simp
  have "f x \<notin> f ` set (take k xs)" if "x \<in> set (drop k xs)" for x
    using d that by (auto simp del: append_take_drop_id)
  then have "filter (\<lambda>x. f x \<notin> f ` set (take k xs)) (take k xs @ drop k xs) = drop k xs"
    unfolding filter_append by (simp add: filter_empty_conv filter_True)
  then show ?thesis unfolding append_take_drop_id .
qed

text \<open>C28: Retention, when no step fails (and the log's directory is named without a trailing
  slash and no path is listed twice): first the leftovers of interrupted rotations go, then exactly
  the archives older than the window, then the oldest of the rest, no more than needed, until the
  archives and the live file fit the budget or no archive is left. Exactly these files are removed,
  every other file, the live one among them, is as it was.\<close>

theorem retain_exact:
  fixes w :: press
  assumes "\<not> faulty G" "dir_ok c" "distinct (map fst (log_files w))"
  defines "strays \<equiv> filter (leftover c w) (map fst (read_archive_dir c (log_files w)))"
  defines "cutoff \<equiv> log_now G (op_count w + length strays) - int (lc_retention c)"
  defines "archs \<equiv> filter (\<lambda>e. ae_name e \<notin> set strays) (list_archives c w)"
  defines "rest \<equiv> oldest_first (filter (\<lambda>e. \<not> ae_mtime e < cutoff) archs)"
  shows "\<exists>r w1 k. retain G c w = (Inr r, w1) \<and> log_at w1 (current_path c) = log_at w (current_path c) \<and>
    log_files w1 = filter (\<lambda>(p, f). \<forall>n. in_archive c p = Some n \<longrightarrow>
      n \<notin> set strays \<union> set (rr_aged r) \<union> set (rr_budget r)) (log_files w) \<and>
    rr_aged r = map ae_name (filter (\<lambda>e. ae_mtime e < cutoff) archs) \<and>
    rr_budget r = map ae_name (take k rest) \<and> mset (list_archives c w1) = mset (drop k rest) \<and>
    (sum_list (map ae_len (drop k rest)) + current_len c w \<le> budget_bytes c \<or> k = length rest) \<and>
    (\<forall>i<k. budget_bytes c < sum_list (map ae_len (drop i rest)) + current_len c w)"
proof -
  let ?ns = "map fst (read_archive_dir c (log_files w))"
  define w0 where "w0 = clean_strays G c ?ns w"
  have ns: "entry_name n \<and> archive_path_of c n \<in> fst ` set (log_files w)" if "n \<in> set ?ns" for n
    using read_archive_names [OF assms(2) that] read_archive_listed(2) [OF assms(2,3) that] by simp
  have w0: "log_files w0 = without c (set strays) (log_files w)" "op_count w0 = op_count w + length strays"
    using clean_exact [OF assms(1,2) read_archive_listed(1) [OF assms(2,3)] ns]
    by (simp_all add: w0_def strays_def)
  have sn: "entry_name n" if "n \<in> set strays" for n using that ns by (auto simp: strays_def)
  have d0: "distinct (map fst (log_files w0))" unfolding w0 by (rule distinct_without [OF assms(3)])
  have cut: "retain_cutoff G c w0 = cutoff" by (simp add: retain_cutoff_def cutoff_def w0(2))
  have as: "list_archives c w0 = archs"
    unfolding list_archives_in archs_def w0(1) using archives_without [OF assms(2) sn] by simp
  let ?old = "ae_name ` {e \<in> set archs. ae_mtime e < cutoff}"
  have l0: "listed c (log_files w0) archs" using listed_archives [OF assms(2) d0] as by (simp add: list_archives_in)
  obtain r2 w2 where a: "retain_age G c cutoff archs empty_retain w0 = (Inr r2, w2)"
    "rr_aged r2 = map ae_name (filter (\<lambda>e. ae_mtime e < cutoff) archs)" "rr_budget r2 = []"
    "log_files w2 = without c ?old (log_files w0)"
    using age_exact [OF assms(1,2) l0, of cutoff empty_retain] by (auto simp: empty_retain_def)
  have names: "entry_name (ae_name e)" if "e \<in> set archs" for e using l0 that by (simp add: listed_def)
  have la2: "list_archives c w2 = filter (\<lambda>e. \<not> ae_mtime e < cutoff) archs"
  proof -
    have "list_archives c w2 = filter (\<lambda>e. ae_name e \<notin> ?old) archs"
      unfolding list_archives_in a(4) as [unfolded list_archives_in, symmetric]
      by (rule archives_without [OF assms(2)]) (use names as in \<open>auto simp: list_archives_in\<close>)
    moreover have "ae_name e \<notin> ?old \<longleftrightarrow> \<not> ae_mtime e < cutoff" if "e \<in> set archs" for e
      using l0 that by (auto simp: listed_def distinct_map inj_on_def)
    ultimately show ?thesis by (auto intro: filter_cong)
  qed
  have rest: "oldest_first (list_archives c w2) = rest" by (simp add: rest_def la2)
  have mr: "mset rest = mset (list_archives c w2)" by (simp add: rest_def la2 oldest_first_def)
  have d2: "distinct (map fst (log_files w2))" unfolding a(4) by (rule distinct_without [OF d0])
  have l2: "listed c (log_files w2) rest"
    using listed_archives [OF assms(2) d2] listed_perm [OF mr] by (simp add: list_archives_in)
  have oldn: "entry_name n" if "n \<in> ?old" for n using that names by auto
  have c2: "log_at w2 (current_path c) = log_at w (current_path c)"
    using current_without [OF assms(2) a(4) oldn] current_without [OF assms(2) w0(1) sn] by simp
  then have cl: "current_len c w2 = current_len c w" by (simp add: current_len_def file_len_def)
  let ?used = "sum_list (map ae_len rest) + current_len c w"
  define k where "k = victims (budget_bytes c) ?used rest"
  let ?gone = "ae_name ` set (take k rest)"
  obtain w1 b where b: "retain_budget G c ?used rest r2 w2 =
      (Inr (r2\<lparr>rr_budget := rr_budget r2 @ map ae_name (take k rest), rr_bytes_removed := b\<rparr>), w1)"
    "log_files w1 = without c ?gone (log_files w2)"
    using budget_exact [OF assms(1,2) l2, of ?used r2] unfolding k_def by blast
  let ?r = "r2\<lparr>rr_budget := map ae_name (take k rest), rr_bytes_removed := b\<rparr>"
  have ret: "retain G c w = (Inr ?r, w1)"
    using a(1,3) b(1) by (simp add: retain_def Let_def bindL_def rest cl cut as flip: w0_def)
  have gonen: "entry_name n" if "n \<in> ?gone" for n
    using l2 that in_set_takeD by (fastforce simp: listed_def)
  have c1: "log_at w1 (current_path c) = log_at w (current_path c)"
    using current_without [OF assms(2) b(2) gonen] c2 by simp
  have files: "log_files w1 = without c (set strays \<union> ?old \<union> ?gone) (log_files w)"
    by (simp add: b(2) a(4) w0(1) without_twice Un_assoc)
  have "set (rr_aged ?r) = ?old" "set (rr_budget ?r) = ?gone" using a(2) by auto
  have exact: "log_files w1 = filter (\<lambda>(p, f). \<forall>n. in_archive c p = Some n \<longrightarrow>
      n \<notin> set strays \<union> set (rr_aged ?r) \<union> set (rr_budget ?r)) (log_files w)"
    unfolding \<open>set (rr_aged ?r) = ?old\<close> \<open>set (rr_budget ?r) = ?gone\<close> files
    by (rule without_in_archive [OF assms(2)]) (use sn oldn gonen in blast)
  have "list_archives c w1 = filter (\<lambda>e. ae_name e \<notin> ?gone) (list_archives c w2)"
    unfolding list_archives_in b(2) by (rule archives_without [OF assms(2) gonen])
  then have "mset (list_archives c w1) = mset (filter (\<lambda>e. ae_name e \<notin> ?gone) rest)" using mr by simp
  moreover have "distinct (map ae_name rest)" using l2 by (simp add: listed_def)
  ultimately have la1: "mset (list_archives c w1) = mset (drop k rest)"
    by (simp only: filter_not_taken)
  have kb: "sum_list (map ae_len (drop k rest)) + current_len c w \<le> budget_bytes c \<or> k = length rest"
    "\<forall>i<k. budget_bytes c < sum_list (map ae_len (drop i rest)) + current_len c w"
    using victims_bound [of "budget_bytes c" rest "current_len c w"]
      victims_needed [of _ "budget_bytes c" rest "current_len c w"] unfolding k_def by auto
  have ra: "rr_aged ?r = map ae_name (filter (\<lambda>e. ae_mtime e < cutoff) archs)" using a(2) by simp
  have rb: "rr_budget ?r = map ae_name (take k rest)" by simp
  show ?thesis
    by (intro exI conjI) (rule ret c1 exact ra rb la1 kb)+
qed

definition archive_press :: press where
  "archive_press = sample_press
     [(''l/events.current.jsonl'', \<lparr>lf_bytes = ''xx'', lf_mtime = 0\<rparr>),
      (''l/archive/events-2026-W01.jsonl.gz'', \<lparr>lf_bytes = ''x'', lf_mtime = - 100\<rparr>),
      (''l/archive/events-2026-W06.jsonl.gz'', \<lparr>lf_bytes = ''xx'', lf_mtime = 1\<rparr>),
      (''l/archive/events-2026-W05.jsonl.gz'', \<lparr>lf_bytes = ''xxx'', lf_mtime = 0\<rparr>)] None"

theorem retain_exact_witness:
  "\<exists>r w1. retain (sample_log_env (\<lambda>_. False) (\<lambda>_. 0)) sample_log_config archive_press = (Inr r, w1) \<and>
     log_at w1 ''l/events.current.jsonl'' = log_at archive_press ''l/events.current.jsonl''"
proof -
  have "distinct (map fst (log_files archive_press))" by (simp add: archive_press_def sample_press_def)
  from retain_exact [OF sample_env_ok(6) [of "\<lambda>_. 0"] sample_dir this] show ?thesis by auto
qed

section \<open>Two ways to lose a line\<close>

text \<open>An encoding in which a line is braced, so a line glued to a torn one does not parse.\<close>

definition braced_env :: "(nat \<Rightarrow> bool) \<Rightarrow> (nat \<Rightarrow> nat) \<Rightarrow> log_env" where
  "braced_env fails torn = (sample_log_env fails torn)
     \<lparr> event_line := (\<lambda>e. CHR ''['' # replicate (e_id e) CHR ''x'' @ '']''),
       event_of_line := (\<lambda>l. if l \<noteq> [] \<and> hd l = CHR ''['' \<and> CHR ''['' \<notin> set (tl l)
                             then Some (event_new 0 (length l - 2) Fired) else None) \<rparr>"

text \<open>
  The first drain fails after one byte of the line reached the file and leaves the row pending, as
  the code intends. The second drain, in which nothing fails, appends the whole line to that
  byte and deletes the row: the reader finds no event at all.
\<close>

lemma sample_pending:
  "event_outbox (db w) = [sample_event_row] \<Longrightarrow> pending_events (db w) 10000 = [(2, event_new 0 2 Fired)]"
  by (simp add: pending_events_def sample_event_row_def)

lemma braced_line: "event_line (braced_env f t) (event_new 0 2 Fired) = ''[xx]''"
  by (simp add: braced_env_def event_new_def numeral_2_eq_2)

lemmas drain_steps = drain_def pending_def rotate_before_append_def must_rotate_def current_len_def
  file_len_def log_at_def hm_get_def row_get_def append_line_synced_def ensure_open_def attempt_def
  bump_def log_put_def hm_put_def upsert_def row_set_def append_bytes_def log_exists_def bindL_def db_step_def
  mark_event_published_def row_del_def Let_def

lemma braced_fields [simp]:
  "op_fails (braced_env f t) = f" "op_torn (braced_env f t) = t" "log_now (braced_env f t) = int"
  "outbox_unreadable (braced_env f t) = (\<lambda>_. False)"
  "valid_utf8 (braced_env f t) = (\<lambda>_. True)"
  "event_of_line (braced_env f t) = (\<lambda>l. if l \<noteq> [] \<and> hd l = CHR ''['' \<and> CHR ''['' \<notin> set (tl l)
                             then Some (event_new 0 (length l - 2) Fired) else None)"
  by (simp_all add: braced_env_def sample_log_env_def fun_eq_iff)

definition torn_press :: press where
  "torn_press = (sample_press [(''l/events.current.jsonl'', \<lparr>lf_bytes = ''['', lf_mtime = 2\<rparr>)] None)\<lparr>op_count := 3\<rparr>"

lemma torn_drain:
  "drain (braced_env (\<lambda>n. n = 2) (\<lambda>_. 1)) sample_env sample_log_config empty_report (sample_press [] None) =
     ((Some (LogIo ''os error''), empty_report), torn_press)"
proof -
  have "pending_events (db (sample_press [] None)) 10000 = [(2, event_new 0 2 Fired)]"
    by (rule sample_pending) (simp add: sample_press_def)
  then show ?thesis
    by (simp add: drain_steps braced_line) (simp add: torn_press_def sample_press_def)
qed

definition glued_press :: press where
  "glued_press = (sample_press [(''l/events.current.jsonl'', \<lparr>lf_bytes = ''[[xx]'' @ [NL], lf_mtime = 5\<rparr>)] None)
     \<lparr>op_count := 7, db := empty_store\<rparr>"

lemma glued_drain:
  "drain (braced_env (\<lambda>_. False) (\<lambda>_. 0)) sample_env sample_log_config empty_report torn_press =
     ((None, empty_report\<lparr>pr_published := 1\<rparr>), glued_press)"
proof -
  have "pending_events (db torn_press) 10000 = [(2, event_new 0 2 Fired)]"
    by (rule sample_pending) (simp add: torn_press_def sample_press_def)
  then show ?thesis
    by (simp add: drain_steps braced_line)
      (simp add: torn_press_def sample_press_def glued_press_def sample_event_row_def sample_log_config_def
        empty_store_def empty_report_def)
qed

theorem torn_write_loses_event:
  "let G1 = braced_env (\<lambda>n. n = 2) (\<lambda>_. 1); G2 = braced_env (\<lambda>_. False) (\<lambda>_. 0);
       (r1, w1) = drain G1 sample_env sample_log_config empty_report (sample_press [] None);
       (r2, w2) = drain G2 sample_env sample_log_config empty_report w1 in
   event_outbox (db w1) = [sample_event_row] \<and> fst r2 = None \<and> event_outbox (db w2) = [] \<and>
   fst (read_events_from G2 (text_at (current_path sample_log_config) w2)) = []"
proof -
  have nl: "NL = CHR 0x0A" "CR = CHR 0x0D" by (simp_all add: NL_def CR_def char_of_eq_iff)
  have x: "raw_lines (''[[xx]'' @ [NL]) = [''[[xx]'']"
    by (rule raw_lines_one) (simp add: nl)
  have t: "text_at (current_path sample_log_config) glued_press = ''[[xx]'' @ [NL]"
    by (simp add: text_at_def log_at_def hm_get_def row_get_def glued_press_def sample_press_def)
  have "lines_of (''[[xx]'' @ [NL]) = [''[[xx]'']" unfolding lines_of_def x by (simp add: chomp_def nl)
  then have "fst (read_events_from (braced_env (\<lambda>_. False) (\<lambda>_. 0)) (''[[xx]'' @ [NL])) = []"
    by (simp add: read_events_from_def trim_def is_whitespace_def)
  then show ?thesis unfolding Let_def torn_drain glued_drain prod.case t
    by (simp) (simp add: torn_press_def glued_press_def sample_press_def empty_store_def)
qed

text \<open>
  A rotation that dies after its rename leaves the source and the journal. When the journal cannot be
  read (\<open>rotation_journal\<close> answers an error, taken for "no journal"), the next rotation renames the
  live file over that source: the bytes that were in it are in no file any more.
\<close>

definition unread_press :: press where
  "unread_press = sample_press
     [(''l/events.current.jsonl'', \<lparr>lf_bytes = ''new'', lf_mtime = 0\<rparr>),
      (''l/events.rotating.jsonl'', \<lparr>lf_bytes = ''old'', lf_mtime = 0\<rparr>)]
     (Some (journal_for sample_log_config ''events-2026-W06.jsonl'' 3))"

theorem unread_journal_loses_source:
  "let G = (sample_log_env (\<lambda>_. False) (\<lambda>_. 0))\<lparr>journal_unreadable := (\<lambda>_. True)\<rparr>;
       (r, w1) = rotate_journaled G sample_log_config unread_press in
   (\<exists>a. r = Inr a) \<and> (\<forall>f\<in>snd ` set (log_files unread_press). lf_bytes f = ''old'' \<or> lf_bytes f = ''new'') \<and>
   ''old'' \<notin> (lf_bytes \<circ> snd) ` set (log_files w1)"
proof -
  let ?G = "(sample_log_env (\<lambda>_. False) (\<lambda>_. 0))\<lparr>journal_unreadable := (\<lambda>_. True)\<rparr>"
  have r: "recover_rotation ?G sample_log_config unread_press = (Inr (), bump unread_press)"
    by (simp add: recover_rotation_def journal_of_def)
  have n: "archive_candidate (archive_base ?G t) 1 = ''events-2026-W07.jsonl''" for t
    by (simp add: archive_candidate_def archive_base_def sample_log_env_def two_digits_def year_text_def
        Event_Record.decimal.simps char_of_eq_iff)
  have "\<not> name_taken sample_log_config ''events-2026-W07.jsonl'' (bump (bump unread_press))"
    by (simp add: name_taken_def gz_path_for_def unread_press_def sample_press_def log_exists_def log_at_def
        hm_get_def row_get_def archive_dir_def sample_log_config_def path_join_def)
  then have k: "unique_archive_name ?G sample_log_config t (bump (bump unread_press)) = Inr ''events-2026-W07.jsonl''" for t
  proof -
    have up: "[1..<10000] = (1 :: nat) # [2..<10000]" by (subst upt_conv_Cons) (simp_all add: numeral_2_eq_2)
    show ?thesis unfolding unique_archive_name_def Let_def up find.simps n
      using \<open>\<not> name_taken _ _ _\<close> n [of t] by simp
  qed
  let ?j = "journal_for sample_log_config ''events-2026-W07.jsonl''"
  have len: "current_len sample_log_config (bump (bump unread_press)) = 3"
    by (simp add: current_len_def file_len_def) (simp add: unread_press_def sample_press_def log_at_def hm_get_def row_get_def)
  have c: "close_handle ?G (bump unread_press) = (Inr (), bump (bump unread_press))"
    by (simp add: close_handle_def attempt_def sample_log_env_def)
  have "\<exists>t. rotate_journaled ?G sample_log_config unread_press =
      rotate_phases ?G sample_log_config (?j t) (bump (bump unread_press))"
    unfolding rotate_journaled_def bindL_def r by (simp add: c len k) blast
  then obtain t where q: "rotate_journaled ?G sample_log_config unread_press =
      rotate_phases ?G sample_log_config (?j t) (bump (bump unread_press))" by blast
  have f: "log_files (bump (bump unread_press)) = log_files unread_press" by (simp add: bump_def)
  define w where "w = bump (bump unread_press)"
  have jr: "j_rotating (?j t) = ''l/events.rotating.jsonl''" "j_gz_tmp (?j t) = ''l/archive/.events-2026-W07.jsonl.gz.tmp''"
    "j_final_path (?j t) = ''l/archive/events-2026-W07.jsonl.gz''"
    by (simp_all add: journal_for_def gz_path_for_def archive_dir_def path_join_def ROTATING_FILE_NAME_def)
      (simp_all add: sample_log_config_def path_join_def)
  have w: "log_files w = [(''l/events.current.jsonl'', \<lparr>lf_bytes = ''new'', lf_mtime = 0\<rparr>),
      (''l/events.rotating.jsonl'', \<lparr>lf_bytes = ''old'', lf_mtime = 0\<rparr>)]"
    by (simp add: w_def f) (simp add: unread_press_def sample_press_def)
  have "\<exists>w1 a. rotate_phases ?G sample_log_config (?j t) w = (Inr a, w1) \<and> ''old'' \<notin> (lf_bytes \<circ> snd) ` set (log_files w1)"
    by (simp add: rotate_phases_def jr bindL_def db_step_def attempt_def sample_log_env_def fs_rename_def sync_dir_def
        gzip_file_def remove_file_def reopen_def ensure_open_def log_at_def log_put_def log_del_def log_exists_def
        hm_get_def hm_put_def hm_remove_def row_get_def row_set_def row_del_def upsert_def bump_def w Let_def retL_def)
  then show ?thesis unfolding q Let_def w_def
    by (auto simp: unread_press_def sample_press_def)
qed

end
