(* ===== verification/Pruner.thy ===== *)
theory Pruner
  imports Event_Publisher Scheduler_Engine
begin

text \<open>
  The weekly prune and the Jan-1 consistency pass (\<open>pruner/mod.rs\<close>, \<open>pruner/year.rs\<close>): the
  \<open>system.prune\<close> timer, when a pass is due, which one-shots are terminal, the pass itself (rotation
  through the publisher, deletions with their tombstones, the folder tree, the reply quarantine),
  the recalibration of every timer, and the startup sequence that composes them.

  Date arithmetic that leaves the range of \<open>chrono\<close> panics: the results are \<open>exec\<close>s. The store's
  statements that do not answer a store error are taken to succeed.
\<close>

section \<open>Configuration\<close>

record prune_config =
  pc_retention :: span
  pc_interval :: span
  pc_ack_grace :: span
  pc_max_current_bytes :: nat
  pc_budget_bytes :: nat
  pc_quarantine_budget :: nat

definition DEFAULT_PRUNE_INTERVAL :: span where "DEFAULT_PRUNE_INTERVAL = 7 * 24 * 60 * 60 * nat sec_ns"
definition DEFAULT_ACK_GRACE :: span where "DEFAULT_ACK_GRACE = 60 * nat sec_ns"
definition DEFAULT_QUARANTINE_BUDGET :: nat where "DEFAULT_QUARANTINE_BUDGET = 64 * 1024 * 1024"

definition prune_config_default :: prune_config where
  "prune_config_default = \<lparr> pc_retention = 30 * 24 * 60 * 60 * nat sec_ns,
     pc_interval = DEFAULT_PRUNE_INTERVAL, pc_ack_grace = DEFAULT_ACK_GRACE,
     pc_max_current_bytes = DEFAULT_MAX_CURRENT_BYTES, pc_budget_bytes = DEFAULT_BUDGET_BYTES,
     pc_quarantine_budget = DEFAULT_QUARANTINE_BUDGET \<rparr>"

record prune_report =
  pn_archived :: "string option"
  pn_archives_removed :: nat
  pn_timers_pruned :: nat
  pn_pruned_ids :: "uuid list"
  pn_orphans_removed :: nat
  pn_not_due :: bool
  pn_not_leader :: bool

definition prune_report_default :: prune_report where
  "prune_report_default = \<lparr> pn_archived = None, pn_archives_removed = 0, pn_timers_pruned = 0,
     pn_pruned_ids = [], pn_orphans_removed = 0, pn_not_due = False, pn_not_leader = False \<rparr>"

datatype prune_error = PruneStore store_error | PruneEventLog event_log_error | PruneInternal kind_error

text \<open>The folder tree the pass maintains, with what its operations need.\<close>

record tree_ctx =
  tc_codec :: codec
  tc_faults :: faults
  tc_root :: string
  tc_socket :: "string option"

section \<open>The system timer\<close>

text \<open>Its id, name and test are those of the scheduler.\<close>

text \<open>\<open>trim_start_matches('/')\<close>; a name the zone database cannot parse becomes \<open>UTC\<close>.\<close>

definition usable_tz_name :: "lib \<Rightarrow> string option \<Rightarrow> string" where
  "usable_tz_name L raw =
     (case map_option (\<lambda>s. dropWhile (\<lambda>x. x = CHR ''/'') (trim s)) raw of
        None \<Rightarrow> ''UTC''
      | Some s \<Rightarrow> if s \<noteq> [] \<and> tz_from_str L s \<noteq> None then s else ''UTC'')"

text \<open>Monday 03:17.\<close>

definition prune_kind :: occurrence_kind where
  "prune_kind = Weekly (from_slice [Mon]) (3 * 3600 * sec_ns + 17 * min_ns)"

definition prune_new_timer :: "occurrence \<Rightarrow> new_timer" where
  "prune_new_timer oc = \<lparr> n_id = Some SYSTEM_PRUNE_ID, n_name = SYSTEM_PRUNE_NAME, n_enabled = True,
     n_occurrence = oc, n_misfire = Coalesce 3600, n_overlap = OverlapSkip,
     n_retry = \<lparr>max_retries = 0, delay_secs = 0\<rparr>, n_tags = [SYSTEM_PRUNE_TAG, ''internal''],
     n_action = NoAction, n_last_fired = None, n_jitter_secs = 0, n_accuracy_slack_secs = None,
     n_wake_machine = False, n_transport = TJson \<rparr>"

definition ensure_system_prune_timer ::
  "lib \<Rightarrow> env \<Rightarrow> string option \<Rightarrow> 'z press_scheme \<Rightarrow> ((prune_error + timer) \<times> 'z press_scheme) exec" where
  "ensure_system_prune_timer L E raw_tz w =
     (case get_timer (db w) SYSTEM_PRUNE_ID of
        Some t \<Rightarrow> ret (Inr t, w)
      | None \<Rightarrow>
          let (ts, s) = list_timers (db w); w1 = w\<lparr>db := s\<rparr> in
          case List.find (\<lambda>t. t_name t = SYSTEM_PRUNE_NAME \<and> SYSTEM_PRUNE_TAG \<in> set (t_tags t)) ts of
            Some t \<Rightarrow> ret (Inr t, w1)
          | None \<Rightarrow>
              case occurrence_new L prune_kind (usable_tz_name L raw_tz) of
                Inl e \<Rightarrow> ret (Inl (PruneInternal e), w1)
              | Inr oc \<Rightarrow>
                  do { r \<leftarrow> create_timer L (utc_now E (draws w1)) 0 (prune_new_timer oc) s;
                       ret (case r of
                              Inl e \<Rightarrow> (Inl (PruneStore e), w1\<lparr>draws := draws w1 + 1\<rparr>)
                            | Inr (t, s2) \<Rightarrow> (Inr t, w1\<lparr>db := s2, draws := draws w1 + 1\<rparr>)) })"

section \<open>When a pass is due, which one-shots are terminal\<close>

definition prune_is_due :: "lib \<Rightarrow> instant option \<Rightarrow> instant \<Rightarrow> span \<Rightarrow> bool exec" where
  "prune_is_due L lst now interval =
     (case lst of
        None \<Rightarrow> ret True
      | Some lp \<Rightarrow>
          let iv = (case from_std L interval of Some d \<Rightarrow> d | None \<Rightarrow> 7 * day_ns) in
          do { due \<leftarrow> instant_add L lp iv; ret (due < now) })"

definition is_once :: "occurrence_kind \<Rightarrow> bool" where
  "is_once k = (case k of Once _ \<Rightarrow> True | _ \<Rightarrow> False)"

definition fired_out :: "timer \<Rightarrow> bool" where
  "fired_out t \<longleftrightarrow> t_last_fired t \<noteq> None \<and> t_next_fire t = None"

definition past_validity :: "timer \<Rightarrow> instant \<Rightarrow> bool" where
  "past_validity t now \<longleftrightarrow>
     (case t_valid_until t of None \<Rightarrow> False | Some u \<Rightarrow> u \<le> now) \<or>
     (case valid_until (t_occurrence t) of None \<Rightarrow> False | Some u \<Rightarrow> u \<le> now)"

definition skipped_exhausted :: "timer \<Rightarrow> instant \<Rightarrow> bool" where
  "skipped_exhausted t now \<longleftrightarrow> t_next_fire t = None \<and> (past_validity t now \<or> \<not> t_enabled t)"

text \<open>\<open>a.or(b)\<close> of two options.\<close>

definition or_else :: "'a option \<Rightarrow> 'a option \<Rightarrow> 'a option" where
  "or_else a b = (case a of None \<Rightarrow> b | Some x \<Rightarrow> Some x)"

definition terminal_at :: "timer \<Rightarrow> instant \<Rightarrow> instant" where
  "terminal_at t now =
     (case or_else (or_else (t_last_fired t) (t_valid_until t)) (valid_until (t_occurrence t)) of
        None \<Rightarrow> now | Some x \<Rightarrow> x)"

definition is_terminal_oneshot :: "lib \<Rightarrow> timer \<Rightarrow> store \<Rightarrow> instant \<Rightarrow> span \<Rightarrow> bool exec" where
  "is_terminal_oneshot L t s now ack_grace =
     (if \<not> is_once (kind (t_occurrence t)) then ret False
      else if list_ex is_unfinished (runs_for_timer s (t_id t)) then ret False
      else if (case t_next_fire t of None \<Rightarrow> False | Some nf \<Rightarrow> now < nf) then ret False
      else if \<not> fired_out t \<and> \<not> skipped_exhausted t now \<and> \<not> past_validity t now then ret False
      else
        let grace = (case from_std L ack_grace of Some d \<Rightarrow> d | None \<Rightarrow> 60 * sec_ns) in
        do { until \<leftarrow> instant_add L (terminal_at t now) grace; ret (until \<le> now) })"

section \<open>The pass\<close>

definition note_with :: "instant \<Rightarrow> string \<Rightarrow> string \<Rightarrow> event \<Rightarrow> event" where
  "note_with now msg detail e = with_detail (with_message (with_logged_at e now) msg) detail"

definition tombstone :: "instant \<Rightarrow> uuid \<Rightarrow> string \<Rightarrow> span \<Rightarrow> event \<Rightarrow> event" where
  "tombstone now i name grace e =
     with_detail (with_message (with_timer (with_logged_at e now) i name) ''elapsed_oneshot'')
       (''reason=terminal_oneshot ack_grace_secs='' @ Event_Record.decimal (grace div nat sec_ns))"

definition prune_timer ::
  "env \<Rightarrow> prune_config \<Rightarrow> instant \<Rightarrow> tree_ctx option \<Rightarrow> timer \<Rightarrow> prune_report \<Rightarrow> 'z press_scheme \<Rightarrow>
     prune_report \<times> 'z press_scheme" where
  "prune_timer E P now tree t r w =
     (let (deleted, s) = delete_timer (db w) (t_id t) in
      if \<not> deleted then (r, w\<lparr>db := s\<rparr>)
      else
        let w1 = w\<lparr>db := clear_timer_owner s (t_id t)\<rparr>;
            w2 = (case tree of None \<Rightarrow> w1
                  | Some T \<Rightarrow> snd (remove_for (tc_codec T) (tc_faults T) (tc_root T) (t_id t) w1)) in
        (r\<lparr>pn_timers_pruned := pn_timers_pruned r + 1, pn_pruned_ids := pn_pruned_ids r @ [t_id t]\<rparr>,
         emit E Pruned (tombstone now (t_id t) (t_name t) (pc_ack_grace P)) w2))"

fun prune_each ::
  "lib \<Rightarrow> env \<Rightarrow> prune_config \<Rightarrow> instant \<Rightarrow> tree_ctx option \<Rightarrow> timer list \<Rightarrow> prune_report \<Rightarrow> 'z press_scheme \<Rightarrow>
     (prune_report \<times> 'z press_scheme) exec" where
  "prune_each L E P now tree [] r w = ret (r, w)"
| "prune_each L E P now tree (t # ts) r w =
     (if is_system_prune_timer t then prune_each L E P now tree ts r w
      else do { terminal \<leftarrow> is_terminal_oneshot L t (db w) now (pc_ack_grace P);
                if \<not> terminal then prune_each L E P now tree ts r w
                else let (r1, w1) = prune_timer E P now tree t r w in
                  prune_each L E P now tree ts r1 w1 })"

fun note_folders :: "env \<Rightarrow> instant \<Rightarrow> string list \<Rightarrow> 'z press_scheme \<Rightarrow> 'z press_scheme" where
  "note_folders E now [] w = w"
| "note_folders E now (f # fs) w =
     note_folders E now fs
       (emit E Pruned (note_with now ''orphan_timer_folder'' (''reason=orphan_folder folder='' @ f)) w)"

text \<open>
  The tree part: a failed sweep is reported and changes the report nothing, a failed
  reconciliation likewise, the quarantine is pruned when its lock can be taken.
\<close>

definition prune_tree ::
  "env \<Rightarrow> prune_config \<Rightarrow> instant \<Rightarrow> tree_ctx \<Rightarrow> prune_report \<Rightarrow> 'z press_scheme \<Rightarrow> prune_report \<times> 'z press_scheme" where
  "prune_tree E P now T r w =
     (let (ts, s) = list_timers (db w);
          (r1, w1) = (case sweep_orphans (tc_codec T) (tc_faults T) (tc_root T) (map t_id ts) (w\<lparr>db := s\<rparr>) of
              (Inl e, w1) \<Rightarrow> (r, w1)
            | (Inr removed, w1) \<Rightarrow>
                (r\<lparr>pn_orphans_removed := length removed\<rparr>, note_folders E now removed w1));
          w2 = snd (reconcile_folders (tc_codec T) (tc_faults T) (tc_socket T) (tc_root T) w1) in
      if quarantine_lock_fails (tc_faults T) then (r1, w2)
      else let (n, es) = prune (bad_entries w2) (pc_retention P) (pc_quarantine_budget P) now;
               w3 = w2\<lparr>bad_entries := es\<rparr> in
        (r1, if n = 0 then w3
             else emit E Pruned (note_with now ''reply_quarantine_retention''
                    (''reason=quarantine_retention artifacts_removed='' @ Event_Record.decimal n)) w3))"

definition run_prune ::
  "log_env \<Rightarrow> lib \<Rightarrow> env \<Rightarrow> log_config \<Rightarrow> prune_config \<Rightarrow> instant \<Rightarrow> bool \<Rightarrow> tree_ctx option \<Rightarrow> 'z press_scheme \<Rightarrow>
     ((prune_error + prune_report) \<times> 'z press_scheme) exec" where
  "run_prune G L E c P now force tree w =
     do { due \<leftarrow> (if force then ret True else prune_is_due L (last_prune (meta (db w))) now (pc_interval P));
          if \<not> due then ret (Inr (prune_report_default\<lparr>pn_not_due := True\<rparr>), w)
          else
            case rotate_and_retain G c w of
              (Inl e, w1) \<Rightarrow> ret (Inl (PruneEventLog e), w1)
            | (Inr (leader, archived, retained), w1) \<Rightarrow>
                if \<not> leader then ret (Inr (prune_report_default\<lparr>pn_not_leader := True\<rparr>), w1)
                else
                  let w2 = (if 0 < removed_count retained
                            then emit E Pruned (note_with now ''log_retention''
                                   (''reason=log_retention aged_out='' @ Event_Record.decimal (length (rr_aged retained)) @
                                    '' budget_pruned='' @ Event_Record.decimal (length (rr_budget retained)) @
                                    '' bytes_removed='' @ Event_Record.decimal (rr_bytes_removed retained))) w1
                            else w1);
                      r = prune_report_default\<lparr>pn_archived := archived, pn_archives_removed := removed_count retained\<rparr>;
                      (ts, s) = list_timers (db w2) in
                  do { (r1, w3) \<leftarrow> prune_each L E P now tree ts r (w2\<lparr>db := s\<rparr>);
                       let (r2, w4) = (case tree of None \<Rightarrow> (r1, w3) | Some T \<Rightarrow> prune_tree E P now T r1 w3) in
                       ret (Inr r2, w4\<lparr>db := set_last_prune (db w4) now\<rparr>) } }"

text \<open>The publisher of a prune takes every knob from the prune configuration, and ends with it.\<close>

definition publisher_config :: "string \<Rightarrow> prune_config \<Rightarrow> log_config" where
  "publisher_config base_dir P = \<lparr> logs_dir = path_join base_dir ''logs'', lc_retention = pc_retention P,
     max_current_bytes = pc_max_current_bytes P, budget_bytes = pc_budget_bytes P \<rparr>"

definition run_prune_under ::
  "log_env \<Rightarrow> lib \<Rightarrow> env \<Rightarrow> string \<Rightarrow> prune_config \<Rightarrow> instant \<Rightarrow> bool \<Rightarrow> tree_ctx \<Rightarrow> 'z press_scheme \<Rightarrow>
     ((prune_error + prune_report) \<times> 'z press_scheme) exec" where
  "run_prune_under G L E base_dir P now force T w =
     (let c = publisher_config base_dir P in
      case ensure_open G c w of
        (Inl e, w1) \<Rightarrow> ret (Inl (PruneEventLog e), w1)
      | (Inr _, w1) \<Rightarrow>
          do { (r, w2) \<leftarrow> run_prune G L E c P now force (Some T) (w1\<lparr>leased := False\<rparr>);
               ret (r, w2\<lparr>leased := False\<rparr>) })"

section \<open>The Jan-1 pass\<close>

definition year_of :: "lib \<Rightarrow> instant \<Rightarrow> int" where
  "year_of L now = date_year L (date_of now)"

definition year_start :: "lib \<Rightarrow> instant \<Rightarrow> instant exec" where
  "year_start L now =
     (case from_ymd_opt L (year_of L now) 1 1 of None \<Rightarrow> panic | Some d \<Rightarrow> ret (at_time d 0))"

definition needs_year_recalibration :: "lib \<Rightarrow> store \<Rightarrow> instant \<Rightarrow> bool exec" where
  "needs_year_recalibration L s now =
     do { ys \<leftarrow> year_start L now;
          ret (case last_recalibration (meta s) of None \<Rightarrow> True | Some lr \<Rightarrow> lr < ys) }"

record year_report =
  yr_checked :: nat
  yr_updated :: nat
  yr_skipped :: bool
  yr_year :: int

fun recalibrate_each ::
  "lib \<Rightarrow> env \<Rightarrow> timer list \<Rightarrow> nat \<Rightarrow> 'z press_scheme \<Rightarrow> ((prune_error + nat) \<times> 'z press_scheme) exec" where
  "recalibrate_each L E [] updated w = ret (Inr updated, w)"
| "recalibrate_each L E (t # ts) updated w =
     do { r \<leftarrow> update_timer L (utc_now E (draws w))
                \<lparr>up_id = t_id t, up_expected_revision = t_revision t, up_patch = empty_patch\<rparr> (db w);
          case r of
            Inl e \<Rightarrow> ret (Inl (PruneStore e), w\<lparr>draws := draws w + 1\<rparr>)
          | Inr (after, s) \<Rightarrow>
              recalibrate_each L E ts
                (if t_next_fire after \<noteq> t_next_fire t then updated + 1 else updated)
                (w\<lparr>db := s, draws := draws w + 1\<rparr>) }"

definition year_note :: "instant \<Rightarrow> int \<Rightarrow> nat \<Rightarrow> nat \<Rightarrow> event \<Rightarrow> event" where
  "year_note now year checked updated e =
     with_detail (with_count (with_message (with_logged_at e now) (''year='' @ year_text year)) (min u32_max checked))
       (''year='' @ year_text year @ '' timers_checked='' @ Event_Record.decimal checked @
        '' timers_updated='' @ Event_Record.decimal updated)"

definition run_year_recalibration ::
  "lib \<Rightarrow> env \<Rightarrow> bool \<Rightarrow> instant \<Rightarrow> 'z press_scheme \<Rightarrow> ((prune_error + year_report) \<times> 'z press_scheme) exec" where
  "run_year_recalibration L E enqueue now w =
     do { ys \<leftarrow> year_start L now;
          needed \<leftarrow> needs_year_recalibration L (db w) now;
          if \<not> needed
          then ret (Inr \<lparr>yr_checked = 0, yr_updated = 0, yr_skipped = True, yr_year = year_of L now\<rparr>, w)
          else
            let (ts, s) = list_timers (db w) in
            do { (r, w1) \<leftarrow> recalibrate_each L E ts 0 (w\<lparr>db := s\<rparr>);
                 case r of
                   Inl e \<Rightarrow> ret (Inl e, w1)
                 | Inr updated \<Rightarrow>
                     let w2 = w1\<lparr>db := set_last_recalibration (db w1) now\<rparr>;
                         w3 = (if enqueue
                               then emit E YearRecalibrate (year_note now (year_of L now) (length ts) updated) w2
                               else w2) in
                     ret (Inr \<lparr>yr_checked = length ts, yr_updated = updated, yr_skipped = False,
                               yr_year = year_of L now\<rparr>, w3) } }"

section \<open>Startup\<close>

datatype startup_note =
    PruneReady uuid "instant option"
  | PruneCatchUp nat nat "string option"
  | YearNote nat nat

definition startup_maintenance ::
  "log_env \<Rightarrow> lib \<Rightarrow> env \<Rightarrow> string option \<Rightarrow> string \<Rightarrow> prune_config \<Rightarrow> instant \<Rightarrow> tree_ctx \<Rightarrow> 'z press_scheme \<Rightarrow>
     ((prune_error + startup_note list) \<times> 'z press_scheme) exec" where
  "startup_maintenance G L E raw_tz base_dir P now T w =
     do { (t, w1) \<leftarrow> ensure_system_prune_timer L E raw_tz w;
          case t of
            Inl e \<Rightarrow> ret (Inl e, w1)
          | Inr timer \<Rightarrow>
              let notes = [PruneReady (t_id timer) (t_next_fire timer)] in
              do { due \<leftarrow> prune_is_due L (last_prune (meta (db w1))) now (pc_interval P);
                   (pr, w2) \<leftarrow> (if due
                      then do { (r, w2) \<leftarrow> run_prune_under G L E base_dir P now True T w1;
                                ret (case r of Inl e \<Rightarrow> Inl e
                                     | Inr rep \<Rightarrow> Inr (notes @ [PruneCatchUp (pn_timers_pruned rep)
                                          (pn_archives_removed rep) (pn_archived rep)]), w2) }
                      else ret (Inr notes, w1));
                   case pr of
                     Inl e \<Rightarrow> ret (Inl e, w2)
                   | Inr notes1 \<Rightarrow>
                       do { needed \<leftarrow> needs_year_recalibration L (db w2) now;
                            if \<not> needed then ret (Inr notes1, w2)
                            else do { (yr, w3) \<leftarrow> run_year_recalibration L E True now w2;
                                      ret (case yr of Inl e \<Rightarrow> Inl e
                                           | Inr rep \<Rightarrow> Inr (notes1 @ [YearNote (yr_checked rep) (yr_updated rep)]), w3) } } } }"

end
