(* ===== verification/Pruner_Properties.thy ===== *)
theory Pruner_Properties
  imports Pruner Publisher_Properties Fire_Properties
begin

text \<open>
  The properties of the pruner: which timers a pass deletes and what it stamps, what the Jan-1 pass
  recomputes, that it runs once a year, and the missed one-shot it disarms.
\<close>

section \<open>The publisher leaves timers, runs and bookkeeping alone\<close>

definition core :: "store \<Rightarrow> timer list \<times> run_claim list \<times> meta_row" where
  "core s = (timers s, runs s, meta s)"

definition core_frame :: "('z, 'a) logged \<Rightarrow> bool" where
  "core_frame m \<longleftrightarrow> (\<forall>w. core (db (snd (m w))) = core (db w))"

named_theorems core_frames "operations that keep the timers, the runs and the bookkeeping"

lemma core_frameD: "core_frame m \<Longrightarrow> m w = (r, w1) \<Longrightarrow> core (db w1) = core (db w)"
  unfolding core_frame_def by (metis snd_conv)

lemma core_frame_snd: "core_frame m \<Longrightarrow> core (db (snd (m w))) = core (db w)"
  by (simp add: core_frame_def)

lemma core_bump: "core_frame m \<Longrightarrow> core_frame (\<lambda>w. m (bump w))"
  by (simp add: core_frame_def)

lemma core_bind [core_frames]:
  assumes "core_frame m" "\<And>x. core_frame (f x)"
  shows "core_frame (bindL m f)"
  unfolding core_frame_def
proof
  fix w
  obtain r w1 where m: "m w = (r, w1)" by (cases "m w")
  then show "core (db (snd (bindL m f w))) = core (db w)"
    using core_frameD [OF assms(1) m] assms(2) by (cases r) (auto simp: bindL_def core_frame_def)
qed

lemma core_ret [core_frames]: "core_frame (retL x)"
  by (simp add: core_frame_def retL_def)

lemma core_attempt [core_frames]:
  assumes "\<And>w. core (db (p w)) = core (db w)" "\<And>w. core (db (f w)) = core (db w)"
  shows "core_frame (attempt G p f)"
  using assms by (simp add: core_frame_def attempt_def)

lemma core_files [core_frames]:
  "core_frame (fs_rename G a b)" "core_frame (remove_file G p)" "core_frame (remove_if_exists G p)"
  "core_frame (gzip_file G a b)" "core_frame (ensure_open G c)" "core_frame (reopen G c)"
  "core_frame (close_handle G)" "core_frame (sync_dir G)"
  by (auto simp: core_frame_def fs_rename_def remove_file_def remove_if_exists_def gzip_file_def
      ensure_open_def reopen_def close_handle_def sync_dir_def attempt_def Let_def split: option.splits)

lemma core_db [core_frames]:
  "core_frame (db_step G (\<lambda>s. set_rotation_journal s j))" "core_frame (db_step G clear_rotation_journal)"
  "core_frame (db_step G (mark_event_published i))" "core_frame (pending G)" "core_frame (ensure_leadership G)"
  by (auto simp: core_frame_def db_step_def attempt_def core_def set_rotation_journal_def pending_def
      clear_rotation_journal_def mark_event_published_def ensure_leadership_def bump_def
      split: option.splits bool.splits)

lemma core_mark [core_frames]: "core_frame (mark_present G p rows)"
  by (induction rows) (auto intro!: core_frames)

lemma core_if [core_frames]:
  "core_frame a \<Longrightarrow> core_frame b \<Longrightarrow> core_frame (\<lambda>w. if P w then a w else b w)"
  by (simp add: core_frame_def)

lemma core_apply: "(\<And>x. core_frame (f x)) \<Longrightarrow> core_frame (\<lambda>w. f (g w) w)"
  by (simp add: core_frame_def)

lemma core_option: "core_frame a \<Longrightarrow> (\<And>x. core_frame (b x)) \<Longrightarrow>
    core_frame (\<lambda>w. case g w of None \<Rightarrow> a w | Some x \<Rightarrow> b x w)"
  by (simp add: core_frame_def split: option.split)

lemma core_finish [core_frames]: "core_frame (finish_archive G j)"
  unfolding finish_archive_def [abs_def] by (intro core_frames)

lemma core_here [core_frames]: "core_frame (\<lambda>w. (r w, bump w))" "core_frame (\<lambda>w. (r w, w))"
  by (simp_all add: core_frame_def)

lemma core_recover [core_frames]: "core_frame (recover_rotation G c)"
  unfolding recover_rotation_def [abs_def] Let_def
proof (rule core_option)
  fix j
  show "core_frame (\<lambda>w. bindL (close_handle G) (\<lambda>_ w1. bindL (pending G) (\<lambda>rows.
      bindL (mark_present G (tail_event_ids G (current_path c) w1 @ tail_event_ids G (j_rotating j) w1) rows) (\<lambda>_.
      bindL (finish_archive G j) (\<lambda>_. bindL (sync_dir G) (\<lambda>_. bindL (sync_dir G) (\<lambda>_.
      bindL (reopen G c) (\<lambda>_. bindL (sync_dir G) (\<lambda>_. db_step G clear_rotation_journal))))))) w1) (bump w))"
    by (rule core_bump, rule core_bind, rule core_files, rule core_apply) (intro core_frames)
qed (rule core_here)

lemma core_phases [core_frames]: "core_frame (rotate_phases G c j)"
  unfolding rotate_phases_def by (intro core_frames)

lemma core_sum: "(\<And>e. core_frame (a e)) \<Longrightarrow> (\<And>x. core_frame (b x)) \<Longrightarrow>
    core_frame (\<lambda>w. case g w of Inl e \<Rightarrow> a e w | Inr x \<Rightarrow> b x w)"
  by (simp add: core_frame_def split: sum.split)

lemma core_rotate [core_frames]: "core_frame (rotate_journaled G c)"
proof -
  have "core_frame (\<lambda>w. case unique_archive_name G c (log_now G (op_count w)) w of
         Inl e \<Rightarrow> (Inl e, w)
       | Inr name \<Rightarrow> rotate_phases G c (journal_for c name (log_now G (op_count w))) w)"
    unfolding core_frame_def by (auto simp: core_frame_snd [OF core_phases] split: sum.split)
  then show ?thesis unfolding rotate_journaled_def by (intro core_bind core_if core_frames)
qed

lemma core_retain [core_frames]: "core_frame (retain G c)"
proof -
  have s: "core (db (clean_strays G c ns w)) = core (db w)" for ns w
  proof (induction ns arbitrary: w)
    case (Cons n ns)
    have "core (db (snd (remove_file G (path_join (archive_dir c) n) w))) = core (db w)"
      by (rule core_frame_snd, rule core_files)
    then show ?case using Cons by simp
  qed simp
  have a: "core_frame (retain_age G c cutoff es r)" for cutoff es r
    by (induction es arbitrary: r) (auto intro!: core_frames)
  have b: "core_frame (retain_budget G c used es r)" for used es r
    by (induction es arbitrary: used r) (auto intro!: core_frames)
  have ab: "core_frame (bindL (retain_age G c cutoff es r0) (\<lambda>r w2.
        retain_budget G c (sum_list (map ae_len (oldest_first (list_archives c w2))) + current_len c w2)
          (oldest_first (list_archives c w2)) r w2))" for cutoff es r0
    by (rule core_bind [OF a]) (unfold core_frame_def, auto simp: core_frame_snd [OF b])
  show ?thesis unfolding core_frame_def
  proof
    fix w :: "'a press_scheme"
    let ?w = "clean_strays G c (map fst (read_archive_dir c (log_files w))) w"
    have "core (db (snd (retain G c w))) = core (db ?w)"
      using ab unfolding retain_def Let_def core_frame_def by blast
    then show "core (db (snd (retain G c w))) = core (db w)" using s by simp
  qed
qed

lemma core_rotate_and_retain: "core_frame (rotate_and_retain G c)"
proof -
  have "core_frame (if \<not> l then retL (False, None, empty_retain)
       else bindL (recover_rotation G c) (\<lambda>_.
            bindL (rotate_journaled G c) (\<lambda>archived.
            bindL (retain G c) (\<lambda>report.
            retL (True, archived, report)))))" for l
    by (cases l) (auto intro!: core_frames)
  then show ?thesis unfolding rotate_and_retain_def by (intro core_bind core_frames)
qed

section \<open>What a pass deletes\<close>

lemma core_emit [simp]: "core (db (emit E k f w)) = core (db w)"
  by (simp add: core_def emit_def enqueue_event_def)

lemma core_list: "core (snd (list_timers s)) = core s"
  by (simp add: core_def list_timers_def)

lemma terminal_cong: "runs s = runs s' \<Longrightarrow> is_terminal_oneshot L t s now g = is_terminal_oneshot L t s' now g"
  by (simp add: is_terminal_oneshot_def runs_for_timer_def runs_of_def)

definition prunable :: "lib \<Rightarrow> store \<Rightarrow> instant \<Rightarrow> span \<Rightarrow> timer \<Rightarrow> bool" where
  "prunable L s now grace t \<longleftrightarrow>
     \<not> is_system_prune_timer t \<and> is_terminal_oneshot L t s now grace = Some True"

lemma remove_for_db [simp]: "db (snd (remove_for C F root i w)) = db w"
  by (auto simp: remove_for_def remove_dir_all_def split: option.splits)

lemma prune_timer_db:
  assumes "t \<in> set (timers (db w))" "prune_timer E P now tree t r w = (r1, w1)"
  shows "timers (db w1) = filter (\<lambda>x. t_id x \<noteq> t_id t) (timers (db w))" "runs (db w1) = runs (db w)"
    "meta (db w1) = meta (db w)" "pn_pruned_ids r1 = pn_pruned_ids r @ [t_id t]"
    "pn_timers_pruned r1 = pn_timers_pruned r + 1" "pn_not_due r1 = pn_not_due r" "pn_not_leader r1 = pn_not_leader r"
proof -
  have "row_count (\<lambda>x. t_id x = t_id t) (timers (db w)) > 0"
    using assms(1) by (auto simp: row_count_def filter_empty_conv)
  then show "timers (db w1) = filter (\<lambda>x. t_id x \<noteq> t_id t) (timers (db w))" "runs (db w1) = runs (db w)"
    "meta (db w1) = meta (db w)" "pn_pruned_ids r1 = pn_pruned_ids r @ [t_id t]"
    "pn_timers_pruned r1 = pn_timers_pruned r + 1" "pn_not_due r1 = pn_not_due r" "pn_not_leader r1 = pn_not_leader r"
    using assms(2)
    by (auto simp: prune_timer_def delete_timer_def Let_def emit_def enqueue_event_def clear_timer_owner_def
        row_del_def split: option.splits)
qed

lemma prune_each_exact:
  assumes "prune_each L E P now tree ts r w = Some (r1, w1)" "distinct (map t_id ts)"
    "set ts \<subseteq> set (timers (db w))"
  shows "pn_pruned_ids r1 = pn_pruned_ids r @ map t_id (filter (prunable L (db w) now (pc_ack_grace P)) ts) \<and>
    timers (db w1) = filter (\<lambda>x. t_id x \<notin> t_id ` set (filter (prunable L (db w) now (pc_ack_grace P)) ts)) (timers (db w)) \<and>
    runs (db w1) = runs (db w) \<and> meta (db w1) = meta (db w) \<and>
    pn_timers_pruned r1 = pn_timers_pruned r + length (filter (prunable L (db w) now (pc_ack_grace P)) ts) \<and>
    pn_not_due r1 = pn_not_due r \<and> pn_not_leader r1 = pn_not_leader r"
  using assms
proof (induction ts arbitrary: r w)
  case (Cons t ts)
  have sub: "distinct (map t_id ts)" "set ts \<subseteq> set (timers (db w))" "t \<in> set (timers (db w))"
    using Cons.prems(2,3) by simp_all
  let ?g = "pc_ack_grace P"
  show ?case
  proof (cases "prunable L (db w) now ?g t")
    case False
    have "prune_each L E P now tree ts r w = Some (r1, w1)"
      using Cons.prems(1) False by (auto simp: prunable_def bind_Some split: if_splits)
    from Cons.IH [OF this sub(1,2)] False show ?thesis by simp
  next
    case True
    obtain r2 w2 where p: "prune_timer E P now tree t r w = (r2, w2)" by (cases "prune_timer E P now tree t r w")
    have rest: "prune_each L E P now tree ts r2 w2 = Some (r1, w1)"
      using Cons.prems(1) True p by (auto simp: prunable_def bind_Some split: if_splits)
    note D = prune_timer_db [OF sub(3) p]
    have sub2: "set ts \<subseteq> set (timers (db w2))"
    proof
      fix x
      assume x: "x \<in> set ts"
      have "t_id t \<notin> t_id ` set ts" using Cons.prems(2) by simp
      then have "t_id x \<noteq> t_id t" using x by (metis imageI)
      then show "x \<in> set (timers (db w2))" using x sub(2) unfolding D(1) by auto
    qed
    have pr: "prunable L (db w2) now ?g = prunable L (db w) now ?g"
      using terminal_cong [OF D(2)] by (auto simp: prunable_def fun_eq_iff)
    from Cons.IH [OF rest sub(1) sub2] True show ?thesis
      unfolding pr D by (auto intro!: filter_cong)
  qed
qed simp

text \<open>A pass that goes through has judged every timer but the system one.\<close>

lemma prune_each_judged:
  assumes "prune_each L E P now tree ts r w = Some (r1, w1)" "t \<in> set ts" "\<not> is_system_prune_timer t"
  shows "is_terminal_oneshot L t (db w) now (pc_ack_grace P) \<noteq> None"
  using assms(1,2)
proof (induction ts arbitrary: r w)
  case (Cons x ts)
  show ?case
  proof (cases "t = x")
    case True
    then show ?thesis using Cons.prems(1) assms(3) by (auto simp: bind_Some split: if_splits)
  next
    case False
    then have t: "t \<in> set ts" using Cons.prems(2) by simp
    have runs: "runs (db (snd (prune_timer E P now tree x r w))) = runs (db w)"
      by (auto simp: prune_timer_def delete_timer_def Let_def emit_def enqueue_event_def clear_timer_owner_def
          split: option.splits prod.splits)
    have "\<exists>r2 w2. prune_each L E P now tree ts r2 w2 = Some (r1, w1) \<and> runs (db w2) = runs (db w)"
      using Cons.prems(1) runs by (auto simp: bind_Some case_prod_unfold Let_def split: if_splits)
    then show ?thesis using Cons.IH [OF _ t] terminal_cong by metis
  qed
qed simp

text \<open>
  Which one-shots are over: fired with nothing planned, past a validity end, or disabled with nothing
  planned; no run of theirs unfinished, nothing planned in the future, and the grace for a late
  acknowledgement gone by since the fire or, if they never fired, since their end.
\<close>

definition grace_span :: "lib \<Rightarrow> span \<Rightarrow> int" where
  "grace_span L g = (if int g \<le> duration_max L then int g else 60 * sec_ns)"

definition elapsed_oneshot :: "lib \<Rightarrow> store \<Rightarrow> instant \<Rightarrow> span \<Rightarrow> timer \<Rightarrow> bool" where
  "elapsed_oneshot L s now g t \<longleftrightarrow>
     (\<exists>at. kind (t_occurrence t) = Once at) \<and>
     (\<forall>r\<in>set (runs s). r_timer r = t_id t \<longrightarrow> r_status r = Finished) \<and>
     (\<forall>nf. t_next_fire t = Some nf \<longrightarrow> nf \<le> now) \<and>
     (t_next_fire t = None \<and> (t_last_fired t \<noteq> None \<or> \<not> t_enabled t) \<or>
      (\<exists>u. (t_valid_until t = Some u \<or> valid_until (t_occurrence t) = Some u) \<and> u \<le> now)) \<and>
     (case (t_last_fired t, t_valid_until t, valid_until (t_occurrence t)) of
        (Some fired, _, _) \<Rightarrow> fired + grace_span L g \<le> now
      | (None, Some u, _) \<Rightarrow> u + grace_span L g \<le> now
      | (None, None, Some u) \<Rightarrow> u + grace_span L g \<le> now
      | (None, None, None) \<Rightarrow> grace_span L g \<le> 0)"

lemma elapsed_terminal_iff:
  assumes "is_terminal_oneshot L t s now g \<noteq> None"
  shows "is_terminal_oneshot L t s now g = Some True \<longleftrightarrow> elapsed_oneshot L s now g t"
proof -
  have once: "is_once (kind (t_occurrence t)) \<longleftrightarrow> (\<exists>at. kind (t_occurrence t) = Once at)"
    by (auto simp: is_once_def split: occurrence_kind.splits)
  have open1: "list_ex is_unfinished (runs_for_timer s (t_id t)) \<longleftrightarrow>
      \<not> (\<forall>r\<in>set (runs s). r_timer r = t_id t \<longrightarrow> r_status r = Finished)"
    by (auto simp: list_ex_iff is_unfinished_def runs_for_timer_def runs_of_def)
  have future: "(case t_next_fire t of None \<Rightarrow> False | Some nf \<Rightarrow> now < nf) \<longleftrightarrow>
      \<not> (\<forall>nf. t_next_fire t = Some nf \<longrightarrow> nf \<le> now)"
    by (auto split: option.splits)
  have past: "past_validity t now \<longleftrightarrow>
      (\<exists>u. (t_valid_until t = Some u \<or> valid_until (t_occurrence t) = Some u) \<and> u \<le> now)"
    by (auto simp: past_validity_def split: option.splits)
  let ?over = "t_next_fire t = None \<and> (t_last_fired t \<noteq> None \<or> \<not> t_enabled t) \<or> past_validity t now"
  have over: "\<not> fired_out t \<and> \<not> skipped_exhausted t now \<and> \<not> past_validity t now \<longleftrightarrow> \<not> ?over"
    by (auto simp: fired_out_def skipped_exhausted_def)
  have grace: "(case from_std L g of Some d \<Rightarrow> d | None \<Rightarrow> 60 * sec_ns) = grace_span L g"
    by (simp add: from_std_def grace_span_def)
  have due: "terminal_at t now + grace_span L g \<le> now \<longleftrightarrow>
     (case (t_last_fired t, t_valid_until t, valid_until (t_occurrence t)) of
        (Some fired, _, _) \<Rightarrow> fired + grace_span L g \<le> now
      | (None, Some u, _) \<Rightarrow> u + grace_span L g \<le> now
      | (None, None, Some u) \<Rightarrow> u + grace_span L g \<le> now
      | (None, None, None) \<Rightarrow> grace_span L g \<le> 0)"
    by (auto simp: terminal_at_def or_else_def split: option.splits)
  show ?thesis
    using assms unfolding is_terminal_oneshot_def grace Let_def elapsed_oneshot_def due [symmetric]
      past [symmetric] over once open1 future
    by (cases ?over) (auto simp: bind_Some instant_add_def split: if_splits)
qed

lemma core_folders: "core (db (note_folders E now fs w)) = core (db w)"
  by (induction fs arbitrary: w) simp_all

lemma sweep_db: "db (snd (sweep_folders C F root ids ns removed w)) = db w"
  by (induction ns arbitrary: removed w) (auto simp: Let_def remove_dir_all_def split: option.split)

lemma sweep_orphans_db: "db (snd (sweep_orphans C F root ids y)) = db y"
  by (simp add: sweep_orphans_def sweep_db)

lemma sync_each_db: "db (snd (sync_each C F socket root ts n w)) = db w"
proof (induction ts arbitrary: n w)
  case (Cons t ts)
  show ?case
    by (cases "sync_timer_json C F socket root t (get_timer_owner (db w) (t_id t)) w")
      (use Cons sync_db in \<open>auto simp: bindT_def split: sum.split\<close>)
qed simp

lemma core_reconcile: "core (db (snd (reconcile_folders C F socket root w))) = core (db w)"
  by (simp add: reconcile_folders_def sync_each_db core_list [unfolded list_timers_def, simplified] list_timers_def)

lemma core_prune_tree:
  assumes "prune_tree E P now T r w = (r1, w1)"
  shows "core (db w1) = core (db w)" "pn_pruned_ids r1 = pn_pruned_ids r"
    "pn_timers_pruned r1 = pn_timers_pruned r" "pn_not_due r1 = pn_not_due r" "pn_not_leader r1 = pn_not_leader r"
proof -
  obtain res x where sw: "sweep_orphans (tc_codec T) (tc_faults T) (tc_root T) (map t_id (fst (list_timers (db w))))
      (w\<lparr>db := snd (list_timers (db w))\<rparr>) = (res, x)"
    by (cases "sweep_orphans (tc_codec T) (tc_faults T) (tc_root T) (map t_id (fst (list_timers (db w))))
      (w\<lparr>db := snd (list_timers (db w))\<rparr>)")
  have "db x = snd (list_timers (db w))"
    using sweep_orphans_db [of "tc_codec T" "tc_faults T" "tc_root T" "map t_id (fst (list_timers (db w)))"
      "w\<lparr>db := snd (list_timers (db w))\<rparr>"] unfolding sw by simp
  then have cx: "core (db x) = core (db w)" by (simp add: core_list)
  define y where "y = (case res of Inl e \<Rightarrow> x | Inr removed \<Rightarrow> note_folders E now removed x)"
  have cy: "core (db y) = core (db w)" using cx by (cases res) (simp_all add: y_def core_folders)
  have cz: "core (db (snd (reconcile_folders (tc_codec T) (tc_faults T) (tc_socket T) (tc_root T) y))) = core (db w)"
    using cy by (simp add: core_reconcile)
  define z where "z = snd (reconcile_folders (tc_codec T) (tc_faults T) (tc_socket T) (tc_root T) y)"
  define q where "q = (case res of Inl e \<Rightarrow> r | Inr removed \<Rightarrow> r\<lparr>pn_orphans_removed := length removed\<rparr>)"
  define n where "n = prune (bad_entries z) (pc_retention P) (pc_quarantine_budget P) now"
  have "prune_tree E P now T r w = (q, if quarantine_lock_fails (tc_faults T) then z
      else if fst n = 0 then z\<lparr>bad_entries := snd n\<rparr>
      else emit E Pruned (note_with now ''reply_quarantine_retention''
        (''reason=quarantine_retention artifacts_removed='' @ Event_Record.decimal (fst n))) (z\<lparr>bad_entries := snd n\<rparr>))"
    by (cases res) (simp_all add: prune_tree_def case_prod_unfold Let_def sw y_def z_def q_def n_def)
  then have e: "r1 = q" "w1 = (if quarantine_lock_fails (tc_faults T) then z
      else if fst n = 0 then z\<lparr>bad_entries := snd n\<rparr>
      else emit E Pruned (note_with now ''reply_quarantine_retention''
        (''reason=quarantine_retention artifacts_removed='' @ Event_Record.decimal (fst n))) (z\<lparr>bad_entries := snd n\<rparr>))"
    using assms by simp_all
  have "core (db (z\<lparr>bad_entries := snd n\<rparr>)) = core (db w)" "core (db z) = core (db w)" using cz by (simp_all add: z_def)
  then show "core (db w1) = core (db w)" unfolding e(2) by simp
  show "pn_pruned_ids r1 = pn_pruned_ids r" "pn_timers_pruned r1 = pn_timers_pruned r"
    "pn_not_due r1 = pn_not_due r" "pn_not_leader r1 = pn_not_leader r"
    by (cases res; simp add: e(1) q_def)+
qed

lemma core_tree_part:
  assumes "(case tree of None \<Rightarrow> (r, w) | Some T \<Rightarrow> prune_tree E P now T r w) = (r1, w1)"
  shows "core (db w1) = core (db w)" "pn_pruned_ids r1 = pn_pruned_ids r"
    "pn_timers_pruned r1 = pn_timers_pruned r" "pn_not_due r1 = pn_not_due r" "pn_not_leader r1 = pn_not_leader r"
proof -
  have "core (db w1) = core (db w) \<and> pn_pruned_ids r1 = pn_pruned_ids r \<and>
    pn_timers_pruned r1 = pn_timers_pruned r \<and> pn_not_due r1 = pn_not_due r \<and> pn_not_leader r1 = pn_not_leader r"
  proof (cases tree)
    case None
    then show ?thesis using assms by simp
  next
    case (Some T)
    then have "prune_tree E P now T r w = (r1, w1)" using assms by simp
    from core_prune_tree [OF this] show ?thesis by simp
  qed
  then show "core (db w1) = core (db w)" "pn_pruned_ids r1 = pn_pruned_ids r"
    "pn_timers_pruned r1 = pn_timers_pruned r" "pn_not_due r1 = pn_not_due r" "pn_not_leader r1 = pn_not_leader r"
    by blast+
qed

lemma run_prune_deletes:
  fixes w w1 :: "'z press_scheme"
  assumes "run_prune G L E c P now force tree w = Some (Inr r, w1)" "distinct (map t_id (timers (db w)))"
  defines "victims \<equiv> filter (prunable L (db w) now (pc_ack_grace P)) (fst (list_timers (db w)))"
  shows "(pn_not_due r \<longleftrightarrow>
      (if force then ret True else prune_is_due L (last_prune (meta (db w))) now (pc_interval P)) = Some False) \<and>
    (if pn_not_due r \<or> pn_not_leader r then core (db w1) = core (db w)
    else pn_pruned_ids r = map t_id victims \<and> pn_timers_pruned r = length victims \<and>
      timers (db w1) = filter (\<lambda>t. \<not> prunable L (db w) now (pc_ack_grace P) t) (timers (db w)) \<and>
      runs (db w1) = runs (db w) \<and> last_prune (meta (db w1)) = Some now \<and>
      (\<forall>t\<in>set (timers (db w)). \<not> is_system_prune_timer t \<longrightarrow>
         is_terminal_oneshot L t (db w) now (pc_ack_grace P) \<noteq> None))"
proof -
  obtain due where due: "(if force then ret True else prune_is_due L (last_prune (meta (db w))) now (pc_interval P)) = Some due"
    using assms(1) by (auto simp: run_prune_def bind_Some)
  show ?thesis
  proof (cases due)
    case False
    then show ?thesis using assms(1) unfolding run_prune_def due by (auto simp: prune_report_default_def)
  next
    case True
    obtain res wr where rr: "rotate_and_retain G c w = (res, wr)" by (cases "rotate_and_retain G c w")
    have cr: "core (db wr) = core (db w)" by (rule core_frameD [OF core_rotate_and_retain rr])
    obtain leader archived retained where res: "res = Inr (leader, archived, retained)"
      using assms(1) True rr by (cases res) (auto simp: run_prune_def due)
    show ?thesis
    proof (cases leader)
      case False
      then show ?thesis using assms(1) True rr cr unfolding run_prune_def due
        by (auto simp: res prune_report_default_def)
    next
      case leader: True
      define w2 where "w2 = (if 0 < removed_count retained
                            then emit E Pruned (note_with now ''log_retention''
                                   (''reason=log_retention aged_out='' @ Event_Record.decimal (length (rr_aged retained)) @
                                    '' budget_pruned='' @ Event_Record.decimal (length (rr_budget retained)) @
                                    '' bytes_removed='' @ Event_Record.decimal (rr_bytes_removed retained))) wr
                            else wr)"
      define r0 where "r0 = prune_report_default\<lparr>pn_archived := archived, pn_archives_removed := removed_count retained\<rparr>"
      define ts where "ts = fst (list_timers (db w2))"
      define w3 where "w3 = w2\<lparr>db := snd (list_timers (db w2))\<rparr>"
      have c2: "core (db w2) = core (db w)" using cr by (simp add: w2_def)
      have c3: "core (db w3) = core (db w)" using c2 by (simp add: w3_def core_list)
      have ts: "ts = fst (list_timers (db w))" using c2 by (simp add: ts_def list_timers_def core_def)
      define fin where "fin = (\<lambda>(r1, w4 :: 'z press_scheme). let (r2, w5) = (case tree of None \<Rightarrow> (r1, w4) | Some T \<Rightarrow> prune_tree E P now T r1 w4) in
            Some (Inr r2 :: prune_error + prune_report, w5\<lparr>db := set_last_prune (db w5) now\<rparr>))"
      have eq: "run_prune G L E c P now force tree w = Option.bind (prune_each L E P now tree ts r0 w3) fin"
        using True leader unfolding run_prune_def due
        by (simp add: rr res case_prod_unfold Let_def w2_def r0_def ts_def w3_def fin_def)
      obtain x where "prune_each L E P now tree ts r0 w3 = Some x" "fin x = Some (Inr r, w1)"
        using assms(1) unfolding eq bind_eq_Some_conv by blast
      then obtain r1 w4 where pe: "prune_each L E P now tree ts r0 w3 = Some (r1, w4)"
        and fin: "fin (r1, w4) = Some (Inr r, w1)" by (cases x) blast
      obtain r2 w5 where t5: "(case tree of None \<Rightarrow> (r1, w4) | Some T \<Rightarrow> prune_tree E P now T r1 w4) = (r2, w5)"
        by (cases "case tree of None \<Rightarrow> (r1, w4) | Some T \<Rightarrow> prune_tree E P now T r1 w4")
      have e: "r = r2" "w1 = w5\<lparr>db := set_last_prune (db w5) now\<rparr>" using fin t5 by (simp_all add: fin_def)
      have k5: "core (db w5) = core (db w4)" "pn_pruned_ids r2 = pn_pruned_ids r1"
        "pn_timers_pruned r2 = pn_timers_pruned r1" "pn_not_due r2 = pn_not_due r1" "pn_not_leader r2 = pn_not_leader r1"
        using core_tree_part [OF t5] by simp_all
      have r0: "pn_pruned_ids r0 = []" "pn_timers_pruned r0 = 0" "\<not> pn_not_due r0" "\<not> pn_not_leader r0"
        by (simp_all add: r0_def prune_report_default_def)
      have s3: "timers (db w3) = timers (db w)" "runs (db w3) = runs (db w)" using c3 by (simp_all add: core_def)
      have set_ts: "mset ts = mset (timers (db w))" by (simp add: ts list_timers_def)
      have d: "distinct (map t_id ts)"
        using assms(2) set_ts by (metis mset_eq_imp_distinct_iff mset_map)
      have sub: "set ts \<subseteq> set (timers (db w3))" using set_ts s3 by (metis set_mset_mset subset_refl)
      have pr: "prunable L (db w3) now (pc_ack_grace P) = prunable L (db w) now (pc_ack_grace P)"
        using terminal_cong [OF s3(2)] by (auto simp: prunable_def fun_eq_iff)
      note X = prune_each_exact [OF pe d sub, unfolded pr]
      have same: "t_id t \<notin> t_id ` set (filter (prunable L (db w) now (pc_ack_grace P)) ts) \<longleftrightarrow>
          \<not> prunable L (db w) now (pc_ack_grace P) t" if "t \<in> set (timers (db w))" for t
      proof -
        have t: "t \<in> set ts" using that set_ts by (metis set_mset_mset)
        then show ?thesis using d by (auto simp: distinct_map inj_on_def)
      qed
      have tm: "timers (db w1) = filter (\<lambda>t. \<not> prunable L (db w) now (pc_ack_grace P) t) (timers (db w))"
        using X k5(1) s3 same by (auto simp: e set_last_prune_def core_def intro!: filter_cong)
      have judged: "is_terminal_oneshot L t (db w) now (pc_ack_grace P) \<noteq> None"
        if "t \<in> set (timers (db w))" "\<not> is_system_prune_timer t" for t
      proof -
        have "t \<in> set ts" using that(1) set_ts by (metis set_mset_mset)
        from prune_each_judged [OF pe this that(2)] show ?thesis using terminal_cong [OF s3(2)] by metis
      qed
      show ?thesis
        unfolding due using True X k5 s3 r0 tm judged by (simp add: e victims_def set_last_prune_def core_def flip: ts)
    qed
  qed
qed

text \<open>C29: What a prune pass does when it answers. It is not due exactly when it is not forced and the
  last one is no longer ago than the interval; then, and without the lease of the log, timers, runs
  and the stamp stay as they were. Otherwise the timers deleted, in listing order, are exactly the
  elapsed one-shots other than the system timer: of kind once; fired with nothing planned, or
  disabled with nothing planned, or past a validity end; with no unfinished run and nothing planned
  ahead; and the acknowledgement grace gone by since the fire (since the validity end for one that
  never fired). Every other timer stays, no run is touched, and \<open>last_prune\<close> is stamped. A fired
  one-shot whose validity end is still ahead counts as elapsed, though the module's documentation
  asks for the end to be past.\<close>

theorem run_prune_exact:
  fixes w w1 :: "'z press_scheme"
  assumes "run_prune G L E c P now force tree w = Some (Inr r, w1)" "distinct (map t_id (timers (db w)))"
  defines "victim \<equiv> (\<lambda>t. \<not> is_system_prune_timer t \<and> elapsed_oneshot L (db w) now (pc_ack_grace P) t)"
  shows "(pn_not_due r \<longleftrightarrow> \<not> force \<and>
      (\<exists>lp. last_prune (meta (db w)) = Some lp \<and>
         now \<le> lp + (if int (pc_interval P) \<le> duration_max L then int (pc_interval P) else 7 * day_ns))) \<and>
    (if pn_not_due r \<or> pn_not_leader r then core (db w1) = core (db w)
     else pn_pruned_ids r = map t_id (filter victim (fst (list_timers (db w)))) \<and>
       pn_timers_pruned r = length (filter victim (timers (db w))) \<and>
       timers (db w1) = filter (\<lambda>t. \<not> victim t) (timers (db w)) \<and>
       runs (db w1) = runs (db w) \<and> last_prune (meta (db w1)) = Some now)"
proof
  obtain due where due: "(if force then ret True else prune_is_due L (last_prune (meta (db w))) now (pc_interval P)) = Some due"
    using assms(1) by (auto simp: run_prune_def bind_Some)
  show "pn_not_due r \<longleftrightarrow> \<not> force \<and>
      (\<exists>lp. last_prune (meta (db w)) = Some lp \<and>
         now \<le> lp + (if int (pc_interval P) \<le> duration_max L then int (pc_interval P) else 7 * day_ns))"
    using due conjunct1 [OF run_prune_deletes [OF assms(1,2)]]
    by (auto simp: prune_is_due_def from_std_def instant_add_def bind_Some Let_def split: option.splits if_splits)
  show "if pn_not_due r \<or> pn_not_leader r then core (db w1) = core (db w)
     else pn_pruned_ids r = map t_id (filter victim (fst (list_timers (db w)))) \<and>
       pn_timers_pruned r = length (filter victim (timers (db w))) \<and>
       timers (db w1) = filter (\<lambda>t. \<not> victim t) (timers (db w)) \<and>
       runs (db w1) = runs (db w) \<and> last_prune (meta (db w1)) = Some now"
  proof (cases "pn_not_due r \<or> pn_not_leader r")
    case True
    then show ?thesis using run_prune_deletes [OF assms(1,2)] by simp
  next
    case False
    note D = conjunct2 [OF run_prune_deletes [OF assms(1,2)], unfolded if_not_P [OF False]]
    have v: "prunable L (db w) now (pc_ack_grace P) t = victim t" if "t \<in> set (timers (db w))" for t
      using D that elapsed_terminal_iff by (auto simp: prunable_def victim_def)
    have f: "filter (prunable L (db w) now (pc_ack_grace P)) (fst (list_timers (db w))) =
        filter victim (fst (list_timers (db w)))"
      using v by (intro filter_cong) (auto simp: list_timers_def)
    have "mset (fst (list_timers (db w))) = mset (timers (db w))" by (simp add: list_timers_def)
    then have "mset (filter victim (fst (list_timers (db w)))) = mset (filter victim (timers (db w)))" by simp
    then have n: "length (filter victim (fst (list_timers (db w)))) = length (filter victim (timers (db w)))"
      by (metis size_mset)
    have t: "filter (\<lambda>t. \<not> prunable L (db w) now (pc_ack_grace P) t) (timers (db w)) =
        filter (\<lambda>t. \<not> victim t) (timers (db w))"
      using v by (intro filter_cong) auto
    show ?thesis using D unfolding if_not_P [OF False] f t n by blast
  qed
qed

section \<open>A world with an elapsed one-shot\<close>

text \<open>The one-shot fired long ago; the other timer is recurring.\<close>

definition elapsed_once :: timer where
  "elapsed_once = sample_timer\<lparr>t_id := 8, t_occurrence := sample_daily\<lparr>kind := Once sample_after, tz := ''UTC''\<rparr>,
     t_last_fired := Some sample_after, t_next_fire := None\<rparr>"

definition elapsed_press :: press where
  "elapsed_press = (sample_press [] None)\<lparr>db := sample_store\<lparr>timers := [elapsed_once, sample_timer]\<rparr>\<rparr>"

abbreviation sample_quiet :: log_env where "sample_quiet \<equiv> sample_log_env (\<lambda>_. False) (\<lambda>_. 0)"

lemma quiet_steps: "lease_free sample_quiet n = Some True" "\<not> op_fails sample_quiet n" "\<not> journal_unreadable sample_quiet n"
  by (simp_all add: sample_log_env_def)

lemma current_not_archived: "in_archive sample_log_config ''l/events.current.jsonl'' = None"
  by code_simp

lemma quiet_retain:
  assumes "log_files w = [(''l/events.current.jsonl'', f)]" "lf_bytes f = []"
  shows "retain sample_quiet sample_log_config w = (Inr empty_retain, w)"
  using assms
  by (simp add: retain_def bindL_def retL_def read_archive_dir_def list_archives_def List.map_filter_def
      current_not_archived oldest_first_def current_len_def file_len_def log_at_def hm_get_def row_get_def)

lemma quiet_rotate:
  assumes "log_files w = []" "rotation_journal_row (db w) = None"
  shows "\<exists>f w1. rotate_journaled sample_quiet sample_log_config w = (Inr None, w1) \<and>
    log_files w1 = [(''l/events.current.jsonl'', f)] \<and> lf_bytes f = []"
  using assms
  by (simp add: rotate_journaled_def recover_rotation_def journal_of_def bindL_def retL_def quiet_steps
      close_handle_def reopen_def ensure_open_def attempt_def bump_def current_len_def file_len_def log_at_def
      hm_get_def row_get_def log_exists_def log_put_def hm_put_def upsert_def)

lemma quiet_rotation:
  assumes "log_files w = []" "rotation_journal_row (db w) = None" "\<not> leased w"
  shows "\<exists>w1. rotate_and_retain sample_quiet sample_log_config w = (Inr (True, None, empty_retain), w1)"
proof -
  let ?w = "bump (bump (w\<lparr>leased := True\<rparr>))"
  obtain f w1 where r: "rotate_journaled sample_quiet sample_log_config ?w = (Inr None, w1)"
    "log_files w1 = [(''l/events.current.jsonl'', f)]" "lf_bytes f = []"
    using quiet_rotate [of ?w] assms(1,2) by (auto simp: bump_def)
  show ?thesis
    using assms
    by (simp add: rotate_and_retain_def bindL_def ensure_leadership_def retL_def recover_rotation_def journal_of_def
        quiet_steps r(1) quiet_retain [OF r(2,3)])
qed

lemma elapsed_terminal: "is_terminal_oneshot sample_lib elapsed_once (db elapsed_press) sample_now DEFAULT_ACK_GRACE = Some True"
  by (simp add: elapsed_once_def is_terminal_oneshot_def is_once_def runs_for_timer_def runs_of_def elapsed_press_def
      sample_store_def empty_store_def fired_out_def terminal_at_def or_else_def from_std_def DEFAULT_ACK_GRACE_def
      instant_add_def sample_defs sample_now_def day_ns_def sec_ns_def)

lemma elapsed_prunable:
  "prunable sample_lib (db elapsed_press) sample_now DEFAULT_ACK_GRACE elapsed_once"
  "\<not> prunable sample_lib (db elapsed_press) sample_now DEFAULT_ACK_GRACE sample_timer"
proof -
  have "\<not> is_system_prune_timer elapsed_once"
    by (simp add: is_system_prune_timer_def elapsed_once_def SYSTEM_PRUNE_ID_def sample_timer_def new_timer_row_def
        timer_row_def sample_new_def new_timer_new_def)
  then show "prunable sample_lib (db elapsed_press) sample_now DEFAULT_ACK_GRACE elapsed_once"
    by (simp add: prunable_def elapsed_terminal)
  show "\<not> prunable sample_lib (db elapsed_press) sample_now DEFAULT_ACK_GRACE sample_timer"
    by (simp add: prunable_def is_terminal_oneshot_def is_once_def sample_timer_def sample_daily_def)
qed

lemma elapsed_runs: "\<exists>r w1. run_prune sample_quiet sample_lib sample_env sample_log_config prune_config_default
    sample_now True None elapsed_press = Some (Inr r, w1) \<and> \<not> pn_not_due r \<and> \<not> pn_not_leader r"
proof -
  have p: "log_files elapsed_press = []" "rotation_journal_row (db elapsed_press) = None" "\<not> leased elapsed_press"
    by (simp_all add: elapsed_press_def sample_press_def sample_store_def empty_store_def)
  obtain w1 where w1: "rotate_and_retain sample_quiet sample_log_config elapsed_press = (Inr (True, None, empty_retain), w1)"
    using quiet_rotation [OF p] by blast
  have "core (db w1) = core (db elapsed_press)" by (rule core_frameD [OF core_rotate_and_retain w1])
  then have c: "timers (db w1) = [elapsed_once, sample_timer]" "runs (db w1) = []"
    by (simp_all add: core_def elapsed_press_def sample_store_def empty_store_def)
  have k: "t_name elapsed_once = t_name sample_timer" "t_id elapsed_once = 8" "t_id sample_timer = 3"
    by (simp_all add: elapsed_once_def sample_timer_def new_timer_row_def timer_row_def)
  obtain s1 where l: "list_timers (db w1) = ([sample_timer, elapsed_once], s1)" "runs s1 = []"
    using c k by (simp add: list_timers_def)
  have t: "is_terminal_oneshot sample_lib elapsed_once s sample_now DEFAULT_ACK_GRACE = Some True" if "runs s = []" for s
    using elapsed_terminal that by (auto simp: terminal_cong [of s "db elapsed_press"] elapsed_press_def sample_store_def empty_store_def)
  have n: "is_terminal_oneshot sample_lib sample_timer s sample_now DEFAULT_ACK_GRACE = Some False" for s
    by (simp add: is_terminal_oneshot_def is_once_def sample_timer_def sample_daily_def)
  show ?thesis
    using l t n elapsed_prunable
    by (auto simp: run_prune_def w1 empty_retain_def removed_count_def prune_config_default_def prune_timer_def
        prunable_def prune_report_default_def split: prod.splits)
qed

lemma elapsed_victim:
  "elapsed_oneshot sample_lib (db elapsed_press) sample_now DEFAULT_ACK_GRACE elapsed_once"
  "\<not> elapsed_oneshot sample_lib (db elapsed_press) sample_now DEFAULT_ACK_GRACE sample_timer"
  "\<not> is_system_prune_timer elapsed_once"
proof -
  show "elapsed_oneshot sample_lib (db elapsed_press) sample_now DEFAULT_ACK_GRACE elapsed_once"
    using elapsed_terminal_iff [of sample_lib elapsed_once "db elapsed_press" sample_now DEFAULT_ACK_GRACE]
      elapsed_terminal by simp
  show "\<not> elapsed_oneshot sample_lib (db elapsed_press) sample_now DEFAULT_ACK_GRACE sample_timer"
    by (simp add: elapsed_oneshot_def sample_timer_def sample_daily_def)
  show "\<not> is_system_prune_timer elapsed_once" using elapsed_prunable(1) by (simp add: prunable_def)
qed

theorem run_prune_exact_witness:
  "\<exists>r w1. run_prune sample_quiet sample_lib sample_env sample_log_config prune_config_default
      sample_now True None elapsed_press = Some (Inr r, w1) \<and> pn_timers_pruned r = 1 \<and>
    timers (db w1) = [sample_timer] \<and> last_prune (meta (db w1)) = Some sample_now"
proof -
  obtain r w1 where r: "run_prune sample_quiet sample_lib sample_env sample_log_config prune_config_default
      sample_now True None elapsed_press = Some (Inr r, w1)" "\<not> pn_not_due r" "\<not> pn_not_leader r"
    using elapsed_runs by blast
  have d: "distinct (map t_id (timers (db elapsed_press)))" "timers (db elapsed_press) = [elapsed_once, sample_timer]"
    by (simp_all add: elapsed_press_def elapsed_once_def sample_timer_def new_timer_row_def timer_row_def)
  have g: "pc_ack_grace prune_config_default = DEFAULT_ACK_GRACE" by (simp add: prune_config_default_def)
  show ?thesis
    using run_prune_exact [OF r(1) d(1)] r elapsed_victim by (auto simp: d(2) g)
qed

end
