(* ===== verification/Recalibration_Properties.thy ===== *)
theory Recalibration_Properties
  imports Pruner_Properties
begin

text \<open>
  The Jan-1 pass (\<open>pruner/year.rs\<close>): what it writes to every timer, that it runs once a year,
  and the missed one-shot it disarms.
\<close>

section \<open>What the pass writes\<close>

text \<open>The row an empty patch writes: the schedule planned again from the last fire, or from the
  clock reading when there was none.\<close>

definition recomputed :: "lib \<Rightarrow> env \<Rightarrow> timer \<Rightarrow> timer \<Rightarrow> bool" where
  "recomputed L E t t' \<longleftrightarrow>
     (\<exists>k oc nf. compute_next_fire L (t_occurrence t) (t_last_fired t) (utc_now E k) = Some (oc, nf) \<and>
        t' = rescheduled_row t oc nf)"

lemma recomputed_id: "recomputed L E t t' \<Longrightarrow> t_id t' = t_id t"
  by (auto simp: recomputed_def rescheduled_row_def timer_row_def)

lemma rescheduled_fire: "t_next_fire (rescheduled_row t oc nf) = nf"
  by (simp add: rescheduled_row_def timer_row_def)

lemma distinct_idD: "distinct (map t_id ts) \<Longrightarrow> t \<in> set ts \<Longrightarrow> u \<in> set ts \<Longrightarrow> t_id t = t_id u \<Longrightarrow> t = u"
  by (auto simp: distinct_map inj_on_def)

lemma touch_timer:
  assumes "update_timer L now \<lparr>up_id = t_id t, up_expected_revision = t_revision t, up_patch = empty_patch\<rparr> s =
      Some (Inr (t', s'))" "distinct (map t_id (timers s))" "t \<in> set (timers s)"
  shows "\<exists>oc nf. compute_next_fire L (t_occurrence t) (t_last_fired t) now = Some (oc, nf) \<and>
      t' = rescheduled_row t oc nf"
    "s' = s\<lparr>timers := map (\<lambda>x. if x = t then t' else x) (timers s)\<rparr>"
proof -
  have g: "get_timer s (t_id t) = Some t"
    using row_get_in [of t_id "timers s" t] assms(2,3) by (simp add: get_timer_def keyed_def)
  have "(\<exists>oc nf. compute_next_fire L (t_occurrence t) (t_last_fired t) now = Some (oc, nf) \<and>
      t' = rescheduled_row t oc nf) \<and> s' = s\<lparr>timers := map (\<lambda>x. if x = t then t' else x) (timers s)\<rparr>"
    using assms(1)
  proof (cases rule: update_timer_Some)
    case (1 old nxt oc fire)
    then have n: "nxt = t" using g by (simp add: apply_empty_patch)
    have "row_set (\<lambda>x. t_id x = t_id t \<and> t_revision x = t_revision t) (\<lambda>_. t') (timers s) =
        map (\<lambda>x. if x = t then t' else x) (timers s)"
      using distinct_idD [OF assms(2) _ assms(3)] by (auto simp: row_set_def)
    then show ?thesis using 1 n by auto
  qed
  then show "\<exists>oc nf. compute_next_fire L (t_occurrence t) (t_last_fired t) now = Some (oc, nf) \<and>
      t' = rescheduled_row t oc nf"
    "s' = s\<lparr>timers := map (\<lambda>x. if x = t then t' else x) (timers s)\<rparr>" by blast+
qed

lemma recalibrate_each_exact:
  assumes "recalibrate_each L E ts u w = Some (Inr u', w1)" "distinct (map t_id (timers (db w)))"
    "set ts \<subseteq> set (timers (db w))" "distinct ts"
  shows "\<exists>f. (\<forall>t\<in>set ts. recomputed L E t (f t)) \<and>
    timers (db w1) = map (\<lambda>t. if t \<in> set ts then f t else t) (timers (db w)) \<and>
    u' = u + length (filter (\<lambda>t. t_next_fire (f t) \<noteq> t_next_fire t) ts) \<and> meta (db w1) = meta (db w)"
  using assms
proof (induction ts arbitrary: u w)
  case Nil
  then show ?case by simp
next
  case (Cons t ts)
  let ?up = "update_timer L (utc_now E (draws w))
      \<lparr>up_id = t_id t, up_expected_revision = t_revision t, up_patch = empty_patch\<rparr> (db w)"
  obtain res where res: "?up = Some res" using Cons.prems(1) by (cases "?up") simp_all
  obtain p where p: "res = Inr p" using Cons.prems(1) res by (cases res) simp_all
  obtain t' s where ts: "p = (t', s)" by (cases p)
  have up: "?up = Some (Inr (t', s))" using res p ts by simp
  have rest: "recalibrate_each L E ts (if t_next_fire t' \<noteq> t_next_fire t then u + 1 else u)
      (w\<lparr>db := s, draws := draws w + 1\<rparr>) = Some (Inr u', w1)"
    using Cons.prems(1) unfolding recalibrate_each.simps up by simp
  note T = touch_timer [OF up Cons.prems(2)]
  have t: "t \<in> set (timers (db w))" "t \<notin> set ts" using Cons.prems by auto
  have rc: "recomputed L E t t'" using T(1) t(1) by (auto simp: recomputed_def)
  have s: "s = db w\<lparr>timers := map (\<lambda>x. if x = t then t' else x) (timers (db w))\<rparr>" using T(2) t(1) by simp
  have ids: "map t_id (timers s) = map t_id (timers (db w))" using recomputed_id [OF rc] by (auto simp: s)
  have no: "t' \<notin> set ts"
    using distinct_idD [OF Cons.prems(2) t(1), of t'] Cons.prems(3,4) recomputed_id [OF rc] by auto
  have sub: "set ts \<subseteq> set (timers s)" using Cons.prems(3) t(2) by (auto simp: s image_iff)
  obtain f where f: "\<forall>t\<in>set ts. recomputed L E t (f t)"
    "timers (db w1) = map (\<lambda>t. if t \<in> set ts then f t else t) (timers s)"
    "u' = (if t_next_fire t' \<noteq> t_next_fire t then u + 1 else u) +
       length (filter (\<lambda>t. t_next_fire (f t) \<noteq> t_next_fire t) ts)" "meta (db w1) = meta s"
    using Cons.IH [OF rest] ids sub Cons.prems(2,4) by auto
  have fl: "filter (\<lambda>x. t_next_fire ((f(t := t')) x) \<noteq> t_next_fire x) ts =
      filter (\<lambda>x. t_next_fire (f x) \<noteq> t_next_fire x) ts"
    using t(2) by (intro filter_cong) auto
  show ?case
  proof (intro exI [of _ "f(t := t')"] conjI)
    show "\<forall>x\<in>set (t # ts). recomputed L E x ((f(t := t')) x)" using f(1) rc t(2) by auto
    show "timers (db w1) = map (\<lambda>x. if x \<in> set (t # ts) then (f(t := t')) x else x) (timers (db w))"
      using t(2) no by (auto simp: f(2) s)
    show "u' = u + length (filter (\<lambda>x. t_next_fire ((f(t := t')) x) \<noteq> t_next_fire x) (t # ts))"
      using f(3) fl by simp
    show "meta (db w1) = meta (db w)" using f(4) by (simp add: s)
  qed
qed

lemma run_year_cases:
  assumes "run_year_recalibration L E enq now w = Some (Inr r, w1)"
  obtains (skipped) "needs_year_recalibration L (db w) now = Some False" "w1 = w" "yr_skipped r"
  | (ran) u x where "needs_year_recalibration L (db w) now = Some True" "\<not> yr_skipped r" "yr_updated r = u"
      "yr_checked r = length (timers (db w))"
      "recalibrate_each L E (fst (list_timers (db w))) 0 (w\<lparr>db := snd (list_timers (db w))\<rparr>) = Some (Inr u, x)"
      "core (db w1) = core (set_last_recalibration (db x) now)"
proof -
  obtain ys where ys: "year_start L now = Some ys"
    using assms by (auto simp: run_year_recalibration_def bind_Some)
  obtain needed where n: "needs_year_recalibration L (db w) now = Some needed"
    using assms by (auto simp: run_year_recalibration_def bind_Some)
  show thesis
  proof (cases needed)
    case False
    have run: "run_year_recalibration L E enq now w =
        Some (Inr \<lparr>yr_checked = 0, yr_updated = 0, yr_skipped = True, yr_year = year_of L now\<rparr>, w)"
      unfolding run_year_recalibration_def ys n by (simp add: False)
    show thesis by (rule skipped) (use run n False assms in simp_all)
  next
    case True
    let ?l = "list_timers (db w)"
    have l: "length (fst ?l) = length (timers (db w))" by (simp add: list_timers_def)
    let ?each = "recalibrate_each L E (fst ?l) 0 (w\<lparr>db := snd ?l\<rparr>)"
    note run = assms [unfolded run_year_recalibration_def ys n, simplified True case_prod_unfold Let_def, simplified]
    obtain y where y: "?each = Some y" using run by (cases ?each) simp_all
    obtain res x where p: "y = (res, x)" by (cases y)
    obtain u where u: "res = Inr u" using run y p by (cases res) simp_all
    have e: "r = \<lparr>yr_checked = length (fst ?l), yr_updated = u, yr_skipped = False, yr_year = year_of L now\<rparr>"
      "w1 = (if enq then emit E YearRecalibrate (year_note now (year_of L now) (length (fst ?l)) u)
          (x\<lparr>db := set_last_recalibration (db x) now\<rparr>) else x\<lparr>db := set_last_recalibration (db x) now\<rparr>)"
      using run unfolding y p u by auto
    show thesis
    proof (rule ran [of u x])
      show "needs_year_recalibration L (db w) now = Some True" using n True by simp
      show "?each = Some (Inr u, x)" by (simp only: y p u)
      show "core (db w1) = core (set_last_recalibration (db x) now)" unfolding e(2) by simp
    qed (simp_all add: e(1) l)
  qed
qed

lemma recalibrated_rows:
  assumes "run_year_recalibration L E enq now w = Some (Inr r, w1)" "\<not> yr_skipped r"
    and "distinct (map t_id (timers (db w)))"
  shows "\<exists>f. (\<forall>t\<in>set (timers (db w)). recomputed L E t (f t)) \<and>
    timers (db w1) = map f (timers (db w)) \<and> yr_checked r = length (timers (db w)) \<and>
    yr_updated r = length (filter (\<lambda>t. t_next_fire (f t) \<noteq> t_next_fire t) (timers (db w))) \<and>
    last_recalibration (meta (db w1)) = Some now"
  using assms(1)
proof (cases rule: run_year_cases)
  case skipped
  then show ?thesis using assms(2) by simp
next
  case (ran u x)
  let ?ts = "fst (list_timers (db w))" and ?w = "w\<lparr>db := snd (list_timers (db w))\<rparr>"
  have m: "mset ?ts = mset (timers (db w))" by (simp add: list_timers_def)
  then have st: "set ?ts = set (timers (db w))" by (metis set_mset_mset)
  have tw: "timers (db ?w) = timers (db w)" using core_list [of "db w"] by (simp add: core_def)
  have d: "distinct ?ts" using assms(3) m by (metis distinct_map mset_eq_imp_distinct_iff)
  obtain f where f: "\<forall>t\<in>set ?ts. recomputed L E t (f t)"
    "timers (db x) = map (\<lambda>t. if t \<in> set ?ts then f t else t) (timers (db w))"
    "u = length (filter (\<lambda>t. t_next_fire (f t) \<noteq> t_next_fire t) ?ts)"
    using recalibrate_each_exact [OF ran(5)] assms(3) d st tw by auto
  have "length (filter P ?ts) = length (filter P (timers (db w)))" for P
    using m by (metis mset_filter size_mset)
  then show ?thesis
    using f st ran by (intro exI [of _ f]) (auto simp: core_def set_last_recalibration_def intro!: map_cong)
qed

text \<open>a recalibration that is not skipped writes every timer again, each planned from its last
  fire (or from a clock reading when it never fired), in place and none lost; its report counts the
  timers and those whose next fire changed, and it stamps the year's pass.\<close>

theorem recalibration_exact:
  assumes "run_year_recalibration L E enq now w = Some (Inr r, w1)" "\<not> yr_skipped r"
    and "distinct (map t_id (timers (db w)))"
  shows "\<exists>f. (\<forall>t\<in>set (timers (db w)). recomputed L E t (f t)) \<and>
    timers (db w1) = map f (timers (db w)) \<and> yr_checked r = length (timers (db w)) \<and>
    yr_updated r = length (filter (\<lambda>t. t_next_fire (f t) \<noteq> t_next_fire t) (timers (db w))) \<and>
    last_recalibration (meta (db w1)) = Some now"
  by (rule recalibrated_rows [OF assms])

section \<open>Once a year\<close>

lemma year_start_le:
  assumes c: "calendar_ok L" and ys: "year_start L now = Some ys" and lo: "date_min L \<le> date_of now"
    and hi: "date_of now \<le> date_max L"
  shows "ys \<le> now"
proof -
  let ?d = "date_of now"
  obtain x where x: "from_ymd_opt L (date_year L ?d) 1 1 = Some x" "ys = at_time x 0"
    using ys by (auto simp: year_start_def year_of_def split: option.splits)
  have xf: "date_year L x = date_year L ?d" "date_month L x = 1" "date_day L x = 1"
    using c x(1) unfolding calendar_ok_def by blast+
  have "from_ymd_opt L (date_year L ?d) (date_month L ?d) (date_day L ?d) = Some ?d"
    using c lo hi unfolding calendar_ok_def by blast
  then have df: "1 \<le> date_month L ?d" "1 \<le> date_day L ?d" using c unfolding calendar_ok_def by blast+
  have "x \<le> ?d"
  proof (rule ccontr)
    assume "\<not> x \<le> ?d"
    then obtain n where n: "x = ?d + int n" "0 < n" using that [of "nat (x - ?d)"] by simp
    have "month_index L ?d \<le> month_index L x" using month_index_mono [OF c] n(1) by simp
    then have "month_index L ?d = month_index L (?d + int n)"
      using xf df(1) unfolding n(1) [symmetric] month_index_def by simp
    from same_month_days [OF c this] show False using xf(3) df(2) n by simp
  qed
  then have "x * day_ns \<le> now div day_ns * day_ns"
    by (intro mult_right_mono) (simp_all add: date_of_def day_ns_def sec_ns_def)
  also have "\<dots> \<le> now" by (simp add: day_ns_def sec_ns_def)
  finally show ?thesis by (simp add: x(2) at_time_def)
qed

text \<open>the Jan-1 pass runs once a year: after a recalibration at one instant, every recalibration
  in the same year is skipped and changes nothing, whatever happened to the timers in between, as
  long as the stamp stayed.\<close>

theorem recalibration_once_a_year:
  assumes "calendar_ok L" "run_year_recalibration L E enq now w = Some (Inr r, w1)"
    and "date_min L \<le> date_of now" "date_of now \<le> date_max L" "year_of L later = year_of L now"
    and "last_recalibration (meta (db w2)) = last_recalibration (meta (db w1))"
  shows "run_year_recalibration L E enq' later w2 =
    Some (Inr \<lparr>yr_checked = 0, yr_updated = 0, yr_skipped = True, yr_year = year_of L now\<rparr>, w2)"
proof -
  obtain ys where ys: "year_start L now = Some ys"
    using assms(2) by (auto simp: run_year_recalibration_def bind_Some)
  have ys': "year_start L later = Some ys" using ys assms(5) by (simp add: year_start_def)
  have le: "ys \<le> now" by (rule year_start_le [OF assms(1) ys assms(3,4)])
  have "\<exists>lr. last_recalibration (meta (db w1)) = Some lr \<and> ys \<le> lr"
    using assms(2)
  proof (cases rule: run_year_cases)
    case skipped
    then show ?thesis using ys by (auto simp: needs_year_recalibration_def split: option.splits)
  next
    case (ran u x)
    then show ?thesis using le by (simp add: core_def set_last_recalibration_def)
  qed
  then have "needs_year_recalibration L (db w2) later = Some False"
    using assms(6) ys' by (auto simp: needs_year_recalibration_def)
  then show ?thesis using assms(5) ys' by (simp add: run_year_recalibration_def)
qed

section \<open>A missed one-shot\<close>

lemma candidates_none:
  "candidates L oc z (Suc n) c sk = Some (sk', r) \<Longrightarrow> raw_next_after L oc c = Some None \<Longrightarrow> r = None"
  by simp

lemma missed_once_no_fire:
  assumes "compute_next_fire L oc None now = Some (oc', nf)" "kind oc = Once reading" "valid_from oc = None"
    and "resolve L oc (date_of reading) (time_of reading) = Some (Some f)" "f \<le> now"
  shows "nf = None"
proof -
  have "next_fire L oc now = Some (oc', nf)" using assms(1) by (auto simp: compute_next_fire_def bind_Some)
  then show ?thesis
  proof (cases rule: next_fire_cases)
    case (searched z c sk)
    have "c = now" using searched(3) assms(3) by (simp add: search_floor_def)
    moreover have "raw_next_after L oc now = Some None"
      using assms(2,4,5) by (simp add: raw_next_after_def next_once_def fires_after_iff)
    moreover have "MAX_CANDIDATES = Suc 9999" by (simp add: MAX_CANDIDATES_def)
    ultimately have "candidates L oc z (Suc 9999) now 0 = Some (sk, nf)" "raw_next_after L oc now = Some None"
      using searched(4) by (simp_all only:)
    then show ?thesis by (blast dest: candidates_none)
  qed
qed

text \<open>recalibration disarms a missed one-shot: a timer that was due while nothing ran and never
  fired has no next fire after the Jan-1 pass, because the pass plans it again from the clock
  reading. Startup runs the pass before the overdue timers are looked at, so the misfire policy
  of that timer never applies.\<close>

theorem recalibration_disarms_missed_oneshot:
  assumes "run_year_recalibration L E enq now w = Some (Inr r, w1)" "\<not> yr_skipped r"
    and "distinct (map t_id (timers (db w)))" "t \<in> set (timers (db w))"
    and "kind (t_occurrence t) = Once reading" "valid_from (t_occurrence t) = None" "t_last_fired t = None"
    and "resolve L (t_occurrence t) (date_of reading) (time_of reading) = Some (Some f)" "\<And>k. f \<le> utc_now E k"
  shows "\<exists>t'\<in>set (timers (db w1)). t_id t' = t_id t \<and> t_next_fire t' = None"
proof -
  have "\<exists>g. (\<forall>t\<in>set (timers (db w)). recomputed L E t (g t)) \<and> timers (db w1) = map g (timers (db w))"
    using recalibrated_rows [OF assms(1,2,3)] by blast
  then obtain g where g: "recomputed L E t (g t)" "g t \<in> set (timers (db w1))" using assms(4) by auto
  then obtain k oc nf where k: "compute_next_fire L (t_occurrence t) None (utc_now E k) = Some (oc, nf)"
    "g t = rescheduled_row t oc nf" using assms(7) by (auto simp: recomputed_def)
  have "nf = None" by (rule missed_once_no_fire [OF k(1) assms(5,6,8,9)])
  then show ?thesis using g(2) k(2) by (auto simp: rescheduled_fire intro!: bexI [of _ "g t"])
qed

section \<open>A world with a missed one-shot\<close>

definition missed_once :: timer where
  "missed_once = sample_timer\<lparr>t_occurrence := sample_daily\<lparr>kind := Once 5, tz := ''UTC''\<rparr>,
     t_last_fired := None, t_next_fire := Some 5\<rparr>"

definition missed_press :: press where
  "missed_press = (sample_press [] None)\<lparr>db := sample_store\<lparr>timers := [missed_once]\<rparr>\<rparr>"

lemma sample_year: "year_start sample_lib sample_now = Some (20454 * day_ns)"
  by code_simp

definition disarmed_once :: timer where
  "disarmed_once = rescheduled_row missed_once (t_occurrence missed_once) None"

definition disarmed_press :: press where
  "disarmed_press = missed_press\<lparr>draws := 1, db := set_last_recalibration
     (snd (list_timers (db missed_press))\<lparr>timers := [disarmed_once]\<rparr>) sample_now\<rparr>"

lemma missed_fire: "compute_next_fire sample_lib (t_occurrence missed_once) None sample_now =
    Some (t_occurrence missed_once, None)"
  by (simp add: compute_next_fire_def next_fire_def missed_once_def runs_exhausted_def search_floor_def
      timezone_def MAX_CANDIDATES_def candidates_numeral raw_next_after_def next_once_def resolve_def
      resolve_local_def resolve_naive_def at_time_def date_of_def time_of_def fires_after_iff
      sample_now_def sample_defs utc_zone_def day_ns_def sec_ns_def)

lemma missed_touch:
  assumes "timers s = [missed_once]"
  shows "update_timer sample_lib sample_now
    \<lparr>up_id = t_id missed_once, up_expected_revision = t_revision missed_once, up_patch = empty_patch\<rparr> s =
    Some (Inr (disarmed_once, s\<lparr>timers := [disarmed_once]\<rparr>))"
proof -
  have l: "t_last_fired missed_once = None" by (simp add: missed_once_def)
  show ?thesis
    using missed_fire
    by (simp add: update_timer_def update_timer_tx_def get_timer_def row_get_def apply_empty_patch
        row_count_def row_set_def l disarmed_once_def assms)
qed

lemma missed_run: "run_year_recalibration sample_lib sample_env False sample_now missed_press =
    Some (Inr \<lparr>yr_checked = 1, yr_updated = 1, yr_skipped = False, yr_year = 2026\<rparr>, disarmed_press)"
proof -
  have y: "year_of sample_lib sample_now = 2026" by code_simp
  have m: "last_recalibration (meta (db missed_press)) = None"
    by (simp add: missed_press_def sample_store_def empty_store_def)
  obtain s1 where s1: "list_timers (db missed_press) = ([missed_once], s1)" "timers s1 = [missed_once]"
    by (simp add: missed_press_def list_timers_def)
  have d: "draws missed_press = 0" "utc_now sample_env 0 = sample_now"
    by (simp_all add: missed_press_def sample_press_def sample_env_def)
  have f: "t_next_fire disarmed_once \<noteq> t_next_fire missed_once"
    by (simp add: disarmed_once_def missed_once_def rescheduled_fire)
  show ?thesis
    using missed_touch [OF s1(2)] f
    by (simp add: run_year_recalibration_def sample_year needs_year_recalibration_def m s1(1) d y disarmed_press_def)
qed

lemma missed_timers: "timers (db missed_press) = [missed_once]" "timers (db disarmed_press) = [disarmed_once]"
  by (simp_all add: missed_press_def disarmed_press_def set_last_recalibration_def)

theorem recalibration_exact_witness:
  "recomputed sample_lib sample_env missed_once disarmed_once \<and>
    last_recalibration (meta (db disarmed_press)) = Some sample_now"
  using recalibration_exact [OF missed_run] by (auto simp: missed_timers)

theorem recalibration_once_a_year_witness:
  "run_year_recalibration sample_lib sample_env True (sample_now + 5 * day_ns) disarmed_press =
    Some (Inr \<lparr>yr_checked = 0, yr_updated = 0, yr_skipped = True, yr_year = 2026\<rparr>, disarmed_press)"
proof -
  have "year_of sample_lib sample_now = 2026" "year_of sample_lib (sample_now + 5 * day_ns) = 2026" by code_simp+
  moreover have "date_min sample_lib \<le> date_of sample_now" "date_of sample_now \<le> date_max sample_lib" by code_simp+
  ultimately show ?thesis
    using recalibration_once_a_year [OF calendar_sample missed_run, of "sample_now + 5 * day_ns" disarmed_press] by simp
qed

theorem recalibration_disarms_missed_oneshot_witness:
  "t_next_fire missed_once = Some 5 \<and> (\<exists>t'\<in>set (timers (db disarmed_press)). t_id t' = t_id missed_once \<and> t_next_fire t' = None)"
proof -
  have r: "resolve sample_lib (t_occurrence missed_once) (date_of 5) (time_of 5) = Some (Some 5)"
    by (simp add: missed_once_def timezone_def resolve_def resolve_local_def resolve_naive_def at_time_def
        date_of_def time_of_def sample_defs utc_zone_def day_ns_def sec_ns_def)
  have k: "kind (t_occurrence missed_once) = Once 5" "valid_from (t_occurrence missed_once) = None"
    "t_last_fired missed_once = None" "t_next_fire missed_once = Some 5"
    by (simp_all add: missed_once_def sample_daily_def)
  have u: "5 \<le> utc_now sample_env n" for n
    by (simp add: sample_env_def sample_now_def day_ns_def sec_ns_def)
  show ?thesis
    using recalibration_disarms_missed_oneshot [OF missed_run _ _ _ k(1,2,3) r u] k(4) by (simp add: missed_timers)
qed

end
