(* ===== verification/Slot_Envelope.thy ===== *)
theory Slot_Envelope
  imports Fire_Tx
begin

text \<open>
  The request and response documents of the slot channel (\<open>slots/envelope.rs\<close>, \<open>slots/error.rs\<close>)
  and the timers built from a request (\<open>slots/payload.rs\<close>).

  A \<open>serde_json::Value\<close> is the datatype \<open>json_value\<close>. What the crates derive or parse is the parameter
  record \<open>slot_codec\<close>: reading a document from text and a typed value from JSON (\<open>serde\<close>),
  reading a clock time or a date (\<open>chrono\<close>). An error text is a string or the kind error it
  wraps; the crates' own words inside a message are left out.
\<close>

section \<open>Requests\<close>

datatype json_value = VNull | VBool bool | VInt int | VFloat string | VStr string
  | VArr "json_value list" | VObj "(string \<times> json_value) list"

definition SLOT_SCHEMA_V1 :: string where "SLOT_SCHEMA_V1 = ''bellman-slot/1''"

datatype slot_operation = SlotAdd | SlotModify | SlotDelete

definition operation_as_str :: "slot_operation \<Rightarrow> string" where
  "operation_as_str p = (case p of SlotAdd \<Rightarrow> ''add'' | SlotModify \<Rightarrow> ''modify'' | SlotDelete \<Rightarrow> ''delete'')"

record slot_message =
  m_schema :: string
  m_slot_id :: string
  m_request_id :: "string option"
  m_logged_at :: "instant option"
  m_operation :: "slot_operation option"
  m_payload :: "json_value option"

definition free_stub :: "string \<Rightarrow> slot_message" where
  "free_stub i = \<lparr> m_schema = SLOT_SCHEMA_V1, m_slot_id = i, m_request_id = None, m_logged_at = None,
     m_operation = None,
     m_payload = Some (VObj [(''app_name'', VNull), (''timer_name'', VNull), (''timer_id'', VNull),
       (''occurrence'', VNull), (''tz'', VNull), (''action'', VNull)]) \<rparr>"

definition is_free_stub :: "slot_message \<Rightarrow> bool" where
  "is_free_stub m \<longleftrightarrow> m_request_id m = None \<or> m_operation m = None"

text \<open>The major version between the first two slashes, up to its first dot.\<close>

definition schema_major :: "string \<Rightarrow> string option" where
  "schema_major s = (case split_slash s of _ # v # _ \<Rightarrow> Some (takeWhile (\<lambda>c. c \<noteq> CHR ''.'') v) | _ \<Rightarrow> None)"

definition schema_supported :: "slot_message \<Rightarrow> bool" where
  "schema_supported m \<longleftrightarrow>
     m_schema m = SLOT_SCHEMA_V1 \<or> starts_with (m_schema m) ''bellman-slot/1'' \<or>
     starts_with (m_schema m) ''bellman-slot/'' \<and> schema_major (m_schema m) = Some ''1''"

record slot_payload =
  sp_app_name :: "string option"
  sp_timer_name :: "string option"
  sp_timer_id :: "uuid option"
  sp_id :: "uuid option"
  sp_occurrence :: "json_value option"
  sp_tz :: "string option"
  sp_action :: "json_value option"
  sp_launch_command :: "string option"
  sp_args :: "string list option"
  sp_workdir :: "string option"
  sp_misfire_policy :: "json_value option"
  sp_time :: "string option"
  sp_every_secs :: "nat option"
  sp_days :: "json_value option"
  sp_day :: "nat option"
  sp_month :: "nat option"
  sp_cron :: "string option"
  sp_ack_through :: "nat option"
  sp_transport :: "json_value option"

definition or_opt :: "'a option \<Rightarrow> 'a option \<Rightarrow> 'a option" where
  "or_opt a b = (case a of None \<Rightarrow> b | Some x \<Rightarrow> Some x)"

definition resolved_timer_id :: "slot_payload \<Rightarrow> uuid option" where
  "resolved_timer_id p = or_opt (sp_timer_id p) (sp_id p)"

section \<open>Responses\<close>

datatype slot_status = SlotOk | SlotFailed

definition slot_status_as_str :: "slot_status \<Rightarrow> string" where
  "slot_status_as_str s = (case s of SlotOk \<Rightarrow> ''ok'' | SlotFailed \<Rightarrow> ''error'')"

record slot_run_event =
  se_sequence :: nat
  se_run_id :: uuid
  se_timer_id :: uuid
  se_scheduled_for :: instant
  se_status :: run_state
  se_claimed_at :: instant
  se_completed_at :: "instant option"

text \<open>A finished row without a recorded outcome is never success.\<close>

definition wire_state :: "claim_status \<Rightarrow> run_outcome option \<Rightarrow> run_state" where
  "wire_state s r = (case (s, r) of
     (Finished, Some WakeDelivered) \<Rightarrow> WakeDeliveredEv
   | (Finished, Some SkippedMisfire) \<Rightarrow> SkippedMisfireEv
   | (Finished, Some WakeFailed) \<Rightarrow> WakeFailedEv
   | (Finished, None) \<Rightarrow> WakeFailedEv
   | _ \<Rightarrow> Fired)"

definition from_claim :: "run_claim \<Rightarrow> slot_run_event" where
  "from_claim r = \<lparr> se_sequence = r_event_sequence r, se_run_id = r_id r, se_timer_id = r_timer r,
     se_scheduled_for = r_scheduled_for r, se_status = wire_state (r_status r) (r_outcome r),
     se_claimed_at = r_claimed_at r, se_completed_at = r_completed_at r \<rparr>"

datatype reason = Msg string | KindMsg kind_error

datatype slot_error =
    SlotIo string
  | SlotSymlink
  | SlotOversized nat nat
  | SlotInvalid reason
  | NoFreeSlot
  | SlotStore store_error
  | SlotInternal string

record slot_response =
  sr_schema :: string
  sr_slot_id :: string
  sr_request_id :: string
  sr_status :: slot_status
  sr_timer_id :: "uuid option"
  sr_next_fire_at :: "instant option"
  sr_error :: "reason option"
  sr_events :: "slot_run_event list"

definition response_ok ::
  "string \<Rightarrow> string \<Rightarrow> uuid option \<Rightarrow> instant option \<Rightarrow> slot_run_event list \<Rightarrow> slot_response" where
  "response_ok i rid t nf es = \<lparr> sr_schema = SLOT_SCHEMA_V1, sr_slot_id = i, sr_request_id = rid,
     sr_status = SlotOk, sr_timer_id = t, sr_next_fire_at = nf, sr_error = None, sr_events = es \<rparr>"

definition response_err :: "string \<Rightarrow> string \<Rightarrow> reason \<Rightarrow> slot_response" where
  "response_err i rid why = \<lparr> sr_schema = SLOT_SCHEMA_V1, sr_slot_id = i, sr_request_id = rid,
     sr_status = SlotFailed, sr_timer_id = None, sr_next_fire_at = None, sr_error = Some why, sr_events = [] \<rparr>"

record slot_sidecar =
  sc_slot_id :: "string option"
  sc_reason :: slot_error
  sc_logged_at :: instant
  sc_source_name :: "string option"

section \<open>The crates\<close>

record slot_codec =
  request_of :: "string \<Rightarrow> slot_message option"
  request_text :: "slot_message \<Rightarrow> string"
  response_text :: "slot_response \<Rightarrow> string"
  response_of :: "string \<Rightarrow> slot_response option"
  slot_sidecar_text :: "slot_sidecar \<Rightarrow> string"
  payload_of :: "json_value \<Rightarrow> slot_payload option"
  kind_of_value :: "json_value \<Rightarrow> occurrence_kind option"
  occurrence_of_value :: "json_value \<Rightarrow> occurrence option"
  action_of_value :: "json_value \<Rightarrow> action option"
  misfire_of_value :: "json_value \<Rightarrow> misfire_policy option"
  clock_hms :: "string \<Rightarrow> tod option"
  clock_hm :: "string \<Rightarrow> tod option"
  datetime_t :: "string \<Rightarrow> naive option"
  datetime_space :: "string \<Rightarrow> naive option"
  date_only :: "string \<Rightarrow> day option"

section \<open>A timer from a payload\<close>

definition need :: "string \<Rightarrow> 'a option \<Rightarrow> reason + 'a" where
  "need msg x = (case x of None \<Rightarrow> Inl (Msg msg) | Some v \<Rightarrow> Inr v)"

definition value_str :: "json_value \<Rightarrow> string option" where
  "value_str v = (case v of VStr s \<Rightarrow> Some s | _ \<Rightarrow> None)"

definition value_u64 :: "json_value \<Rightarrow> nat option" where
  "value_u64 v = (case v of VInt n \<Rightarrow> if 0 \<le> n \<and> n \<le> int u64_max then Some (nat n) else None | _ \<Rightarrow> None)"

definition non_empty :: "string option \<Rightarrow> string option" where
  "non_empty s = (case s of Some (c # cs) \<Rightarrow> s | _ \<Rightarrow> None)"

definition transport_from_value :: "json_value \<Rightarrow> reason + transport_mode" where
  "transport_from_value v =
     bindE (case v of
         VStr s \<Rightarrow> Inr s
       | VObj kvs \<Rightarrow> need ''payload.transport.mode is required (auto | json | ipc)''
           (Option.bind (map_of kvs ''mode'') value_str)
       | _ \<Rightarrow> Inl (Msg ''payload.transport must be {mode} or a string'')) (\<lambda>mode.
       need (''invalid transport mode '' @ mode) (transport_from_wire mode))"

definition parse_clock :: "slot_codec \<Rightarrow> string \<Rightarrow> reason + tod" where
  "parse_clock Q s = need (''invalid clock time '' @ s) (or_opt (clock_hms Q s) (clock_hm Q s))"

definition parse_once_at :: "slot_codec \<Rightarrow> string \<Rightarrow> reason + naive" where
  "parse_once_at Q s =
     need (''invalid once datetime '' @ s)
       (or_opt (datetime_t Q s) (or_opt (datetime_space Q s) (map_option (\<lambda>d. at_time d 0) (date_only Q s))))"

text \<open>Names between commas and white space.\<close>

fun split_names :: "string \<Rightarrow> string list" where
  "split_names [] = [[]]"
| "split_names (c # s) =
     (if c = CHR '','' \<or> is_whitespace c then [] # split_names s
      else case split_names s of [] \<Rightarrow> [[c]] | p # ps \<Rightarrow> (c # p) # ps)"

definition weekdays_result :: "string + weekdays \<Rightarrow> reason + weekdays" where
  "weekdays_result r = (case r of Inl e \<Rightarrow> Inl (Msg e) | Inr d \<Rightarrow> Inr d)"

definition parse_days_value :: "json_value option \<Rightarrow> reason + weekdays" where
  "parse_days_value v =
     bindE (need ''weekly requires days'' v) (\<lambda>v.
       case v of
         VArr xs \<Rightarrow> weekdays_result (parse_weekdays (List.map_filter value_str xs))
       | VStr s \<Rightarrow> weekdays_result (parse_weekdays (filter (\<lambda>p. p \<noteq> []) (split_names s)))
       | _ \<Rightarrow> Inl (Msg ''days must be a string or array of weekday names''))"

record simplified_occ =
  so_time :: "string option"
  so_every_secs :: "nat option"
  so_days :: "json_value option"
  so_day :: "nat option"
  so_month :: "nat option"
  so_cron :: "string option"

definition simple_kind :: "slot_codec \<Rightarrow> instant \<Rightarrow> string \<Rightarrow> simplified_occ \<Rightarrow> reason + occurrence_kind" where
  "simple_kind Q now name s =
     (let k = to_ascii_lowercase name in
      if k = ''once'' then
        bindE (need ''once requires time'' (so_time s)) (\<lambda>t. bindE (parse_once_at Q t) (\<lambda>a. Inr (Once a)))
      else if k = ''interval'' then
        bindE (need ''interval requires every_secs'' (so_every_secs s)) (\<lambda>e. Inr (Interval e now))
      else if k = ''daily'' then
        bindE (need ''daily requires time'' (so_time s)) (\<lambda>t. bindE (parse_clock Q t) (\<lambda>a. Inr (Daily a)))
      else if k = ''weekly'' then
        bindE (need ''weekly requires time'' (so_time s)) (\<lambda>t.
        bindE (parse_days_value (so_days s)) (\<lambda>ds. bindE (parse_clock Q t) (\<lambda>a. Inr (Weekly ds a))))
      else if k = ''monthly'' then
        bindE (need ''monthly requires time'' (so_time s)) (\<lambda>t.
        bindE (need ''monthly requires day'' (so_day s)) (\<lambda>d. bindE (parse_clock Q t) (\<lambda>a. Inr (Monthly d a))))
      else if k = ''yearly'' then
        bindE (need ''yearly requires time'' (so_time s)) (\<lambda>t.
        bindE (need ''yearly requires month'' (so_month s)) (\<lambda>m.
        bindE (need ''yearly requires day'' (so_day s)) (\<lambda>d.
        bindE (parse_clock Q t) (\<lambda>a. Inr (Yearly m d a)))))
      else if k = ''cron'' then
        bindE (need ''cron requires cron expression'' (so_cron s)) (\<lambda>e. Inr (Cron e))
      else Inl (Msg (''unknown occurrence kind '' @ k)))"

definition kind_occurrence :: "lib \<Rightarrow> occurrence_kind \<Rightarrow> string \<Rightarrow> reason + occurrence" where
  "kind_occurrence L k z = (case occurrence_new L k z of Inl e \<Rightarrow> Inl (KindMsg e) | Inr oc \<Rightarrow> Inr oc)"

definition build_kind ::
  "slot_codec \<Rightarrow> lib \<Rightarrow> instant \<Rightarrow> string \<Rightarrow> simplified_occ \<Rightarrow> string \<Rightarrow> reason + occurrence" where
  "build_kind Q L now name s z = bindE (simple_kind Q now name s) (\<lambda>k. kind_occurrence L k z)"

text \<open>\<open>n as u8\<close> keeps the low eight bits.\<close>

definition as_u8_nat :: "nat \<Rightarrow> nat" where
  "as_u8_nat n = n mod 256"

definition simplified_of :: "(string \<times> json_value) list \<Rightarrow> slot_payload \<Rightarrow> simplified_occ" where
  "simplified_of kvs p =
     \<lparr> so_time = or_opt (Option.bind (or_opt (map_of kvs ''time'') (map_of kvs ''at'')) value_str) (sp_time p),
       so_every_secs = or_opt (Option.bind (map_of kvs ''every_secs'') value_u64) (sp_every_secs p),
       so_days = or_opt (map_of kvs ''days'') (sp_days p),
       so_day = or_opt (map_option as_u8_nat (Option.bind (map_of kvs ''day'') value_u64)) (sp_day p),
       so_month = or_opt (map_option as_u8_nat (Option.bind (map_of kvs ''month'') value_u64)) (sp_month p),
       so_cron = or_opt (Option.bind (or_opt (map_of kvs ''cron'') (map_of kvs ''expr'')) value_str) (sp_cron p) \<rparr>"

definition top_level_occ :: "nat option \<Rightarrow> string option \<Rightarrow> slot_payload \<Rightarrow> simplified_occ" where
  "top_level_occ every cron p = \<lparr> so_time = sp_time p, so_every_secs = every, so_days = sp_days p,
     so_day = sp_day p, so_month = sp_month p, so_cron = cron \<rparr>"

definition occurrence_from_payload :: "slot_codec \<Rightarrow> lib \<Rightarrow> instant \<Rightarrow> slot_payload \<Rightarrow> reason + occurrence" where
  "occurrence_from_payload Q L now p =
     (let z = (case sp_tz p of None \<Rightarrow> ''UTC'' | Some z \<Rightarrow> z) in
      case sp_occurrence p of
        Some v \<Rightarrow>
          (case kind_of_value Q v of
             Some k \<Rightarrow> kind_occurrence L k z
           | None \<Rightarrow>
               case occurrence_of_value Q v of
                 Some oc \<Rightarrow> Inr oc
               | None \<Rightarrow>
                   case v of
                     VObj kvs \<Rightarrow>
                       bindE (need ''occurrence.kind is required''
                           (Option.bind (or_opt (map_of kvs ''kind'') (map_of kvs ''occ'')) value_str)) (\<lambda>k.
                         build_kind Q L now k (simplified_of kvs p) z)
                   | _ \<Rightarrow> Inl (Msg ''could not parse occurrence''))
      | None \<Rightarrow>
          if sp_every_secs p \<noteq> None
          then build_kind Q L now ''interval'' (top_level_occ (sp_every_secs p) (sp_cron p) p) z
          else if sp_cron p \<noteq> None then build_kind Q L now ''cron'' (top_level_occ None (sp_cron p) p) z
          else if sp_time p \<noteq> None then build_kind Q L now ''daily'' (top_level_occ None None p) z
          else Inl (Msg ''payload must include occurrence (or time / every_secs / cron)''))"

definition action_from_payload :: "slot_codec \<Rightarrow> slot_payload \<Rightarrow> reason + action" where
  "action_from_payload Q p =
     (case sp_action p of
        Some a \<Rightarrow> need ''invalid action'' (action_of_value Q a)
      | None \<Rightarrow>
          (case sp_launch_command p of
             Some cmd \<Rightarrow> Inr (Launch cmd (case sp_args p of None \<Rightarrow> [] | Some a \<Rightarrow> a) (sp_workdir p))
           | None \<Rightarrow> Inr NoAction))"

definition misfire_from_value :: "slot_codec \<Rightarrow> json_value \<Rightarrow> reason + misfire_policy" where
  "misfire_from_value Q v =
     (case misfire_of_value Q v of
        Some p \<Rightarrow> Inr p
      | None \<Rightarrow>
          (case v of
             VStr s \<Rightarrow>
               let k = to_ascii_lowercase s in
               if k = ''skip'' then Inr MisfireSkip
               else if k = ''coalesce'' then Inr default_calendar
               else Inl (Msg (''unknown misfire_policy '' @ k))
           | _ \<Rightarrow> Inl (Msg ''invalid misfire_policy'')))"

text \<open>\<open>if let Some(x) = field { target = f(x)? }\<close>.\<close>

definition optional :: "'a option \<Rightarrow> ('a \<Rightarrow> 'e + 'b) \<Rightarrow> ('b \<Rightarrow> 'c \<Rightarrow> 'c) \<Rightarrow> 'c \<Rightarrow> 'e + 'c" where
  "optional x f upd c = (case x of None \<Rightarrow> Inr c | Some v \<Rightarrow> bindE (f v) (\<lambda>r. Inr (upd r c)))"

definition new_timer_from_payload :: "slot_codec \<Rightarrow> lib \<Rightarrow> instant \<Rightarrow> slot_payload \<Rightarrow> reason + new_timer" where
  "new_timer_from_payload Q L now p =
     bindE (need ''payload.timer_name is required for add'' (non_empty (sp_timer_name p))) (\<lambda>name.
     bindE (occurrence_from_payload Q L now p) (\<lambda>oc.
     let new = new_timer_new name oc;
         new1 = (case resolved_timer_id p of None \<Rightarrow> new | Some i \<Rightarrow> new\<lparr>n_id := Some i\<rparr>) in
     bindE (action_from_payload Q p) (\<lambda>a.
     bindE (optional (sp_misfire_policy p) (misfire_from_value Q) (\<lambda>m n. n\<lparr>n_misfire := m\<rparr>)
             (new1\<lparr>n_action := a\<rparr>))
       (optional (sp_transport p) transport_from_value (\<lambda>t n. n\<lparr>n_transport := t\<rparr>)))))"

definition patch_from_payload :: "slot_codec \<Rightarrow> lib \<Rightarrow> instant \<Rightarrow> slot_payload \<Rightarrow> reason + timer_patch" where
  "patch_from_payload Q L now p =
     (let p0 = (case non_empty (sp_timer_name p) of None \<Rightarrow> empty_patch | Some n \<Rightarrow> empty_patch\<lparr>u_name := Some n\<rparr>) in
      bindE (if sp_occurrence p \<noteq> None \<or> sp_time p \<noteq> None \<or> sp_every_secs p \<noteq> None \<or> sp_cron p \<noteq> None
             then bindE (occurrence_from_payload Q L now p) (\<lambda>oc. Inr (p0\<lparr>u_occurrence := Some oc\<rparr>))
             else Inr p0) (\<lambda>p1.
      bindE (if sp_action p \<noteq> None \<or> sp_launch_command p \<noteq> None
             then bindE (action_from_payload Q p) (\<lambda>a. Inr (p1\<lparr>u_action := Some a\<rparr>))
             else Inr p1) (\<lambda>p2.
      bindE (optional (sp_misfire_policy p) (misfire_from_value Q) (\<lambda>m n. n\<lparr>u_misfire := Some m\<rparr>) p2)
        (optional (sp_transport p) transport_from_value (\<lambda>t n. n\<lparr>u_transport := Some t\<rparr>)))))"

end
