(* ===== verification/Slot_Layout.thy ===== *)
theory Slot_Layout
  imports Slot_Envelope
begin

text \<open>
  The slot directories (\<open>slots/layout.rs\<close>, the readers and writers of \<open>slots/atomic.rs\<close> they
  use): free stubs and their replenishment, slot ids, the claim of a file by rename, the
  quarantine, the collection of old answers.

  The four directories are one map from a directory and a file name to an entry: a regular file
  with its bytes and modification time, or a symbolic link (and whether its target exists).
  Which file operations fail is the parameter \<open>slot_faults\<close>; a failed one leaves the entries as
  they were. The replenishing loop has no bound of its own: its value is \<open>None\<close> when it never ends.
\<close>

section \<open>The directories\<close>

datatype slot_dir = FreeDir | WorkDir | DoneDir | BadDir

datatype slot_entry = Plain string instant | Link bool instant

record slots = site +
  slot_files :: "((slot_dir \<times> string) \<times> slot_entry) list"

record slot_faults =
  slot_list_fails :: "slot_dir \<Rightarrow> bool"
  slot_read_fails :: "slot_dir \<times> string \<Rightarrow> bool"
  slot_write_fails :: "slot_dir \<times> string \<Rightarrow> bool"
  slot_rename_fails :: "slot_dir \<times> string \<Rightarrow> bool"
  slot_remove_fails :: "slot_dir \<times> string \<Rightarrow> bool"
  claim_lock_free :: "nat \<Rightarrow> bool option"

definition MIN_FREE_SLOTS :: nat where "MIN_FREE_SLOTS = 5"
definition DEFAULT_ORPHAN_AGE :: span where "DEFAULT_ORPHAN_AGE = 5 * 60 * nat sec_ns"
definition DEFAULT_DONE_RETENTION :: span where "DEFAULT_DONE_RETENTION = 24 * 60 * 60 * nat sec_ns"
definition DEFAULT_MAX_READ_BYTES :: nat where "DEFAULT_MAX_READ_BYTES = 256 * 1024"

type_synonym ('z, 'a) slotted = "'z slots_scheme \<Rightarrow> (slot_error + 'a) \<times> 'z slots_scheme"

definition bindS :: "('z, 'a) slotted \<Rightarrow> ('a \<Rightarrow> ('z, 'b) slotted) \<Rightarrow> ('z, 'b) slotted" where
  "bindS m f = (\<lambda>w. case m w of (Inl e, w1) \<Rightarrow> (Inl e, w1) | (Inr x, w1) \<Rightarrow> f x w1)"

definition entry_at :: "'z slots_scheme \<Rightarrow> slot_dir \<times> string \<Rightarrow> slot_entry option" where
  "entry_at w p = hm_get p (slot_files w)"

definition entry_put :: "slot_dir \<times> string \<Rightarrow> slot_entry \<Rightarrow> 'z slots_scheme \<Rightarrow> 'z slots_scheme" where
  "entry_put p e w = w\<lparr>slot_files := hm_put p e (slot_files w)\<rparr>"

definition entry_del :: "slot_dir \<times> string \<Rightarrow> 'z slots_scheme \<Rightarrow> 'z slots_scheme" where
  "entry_del p w = w\<lparr>slot_files := hm_remove p (slot_files w)\<rparr>"

text \<open>\<open>Path::exists\<close> follows a link.\<close>

definition path_exists :: "'z slots_scheme \<Rightarrow> slot_dir \<times> string \<Rightarrow> bool" where
  "path_exists w p = (case entry_at w p of None \<Rightarrow> False | Some (Plain _ _) \<Rightarrow> True | Some (Link live _) \<Rightarrow> live)"

definition refuse_symlink :: "slot_dir \<times> string \<Rightarrow> ('z, unit) slotted" where
  "refuse_symlink p w = (case entry_at w p of Some (Link _ _) \<Rightarrow> (Inl SlotSymlink, w) | _ \<Rightarrow> (Inr (), w))"

definition slot_read_capped :: "slot_faults \<Rightarrow> slot_dir \<times> string \<Rightarrow> nat \<Rightarrow> ('z, string) slotted" where
  "slot_read_capped F p cap w =
     (case entry_at w p of
        None \<Rightarrow> (Inl (SlotIo ''metadata''), w)
      | Some (Link _ _) \<Rightarrow> (Inl SlotSymlink, w)
      | Some (Plain bytes _) \<Rightarrow>
          if cap < length bytes then (Inl (SlotOversized (length bytes) cap), w)
          else if slot_read_fails F p then (Inl (SlotIo ''read''), w)
          else (Inr bytes, w))"

definition slot_atomic_write :: "slot_faults \<Rightarrow> instant \<Rightarrow> slot_dir \<times> string \<Rightarrow> string \<Rightarrow> ('z, unit) slotted" where
  "slot_atomic_write F now p bytes w =
     (if slot_write_fails F p then (Inl (SlotIo ''write''), w) else (Inr (), entry_put p (Plain bytes now) w))"

text \<open>Exclusive creation by a hard link: a name that is taken, by whatever, is left alone.\<close>

definition create_new :: "slot_faults \<Rightarrow> instant \<Rightarrow> slot_dir \<times> string \<Rightarrow> string \<Rightarrow> ('z, bool) slotted" where
  "create_new F now p bytes w =
     (if slot_write_fails F p then (Inl (SlotIo ''write''), w)
      else if entry_at w p \<noteq> None then (Inr False, w)
      else (Inr True, entry_put p (Plain bytes now) w))"

section \<open>Names\<close>

definition names_of_dir :: "slot_dir \<Rightarrow> 'z slots_scheme \<Rightarrow> string list" where
  "names_of_dir d w = map (snd \<circ> fst) (filter (\<lambda>((d', n), e). d' = d) (slot_files w))"

definition is_json_name :: "string \<Rightarrow> bool" where
  "is_json_name n \<longleftrightarrow> \<not> starts_with n ''.'' \<and> ends_with n ''.json'' \<and> \<not> ends_with n ''.err.json''"

definition list_json_files :: "slot_faults \<Rightarrow> slot_dir \<Rightarrow> ('z, string list) slotted" where
  "list_json_files F d w =
     (if slot_list_fails F d then (Inl (SlotIo ''read_dir''), w)
      else (Inr (sort (filter is_json_name (names_of_dir d w))), w))"

definition count_regular_json :: "slot_faults \<Rightarrow> slot_dir \<Rightarrow> ('z, nat) slotted" where
  "count_regular_json F d = bindS (list_json_files F d) (\<lambda>ns w. (Inr (length ns), w))"

definition free_count :: "slot_faults \<Rightarrow> ('z, nat) slotted" where
  "free_count F = count_regular_json F FreeDir"

text \<open>\<open>u32::from_str\<close>: decimal digits, possibly after a plus sign.\<close>

definition digit_value :: "char \<Rightarrow> nat option" where
  "digit_value c = (let n = of_char c :: nat in if 48 \<le> n \<and> n \<le> 57 then Some (n - 48) else None)"

fun digits_from :: "nat \<Rightarrow> string \<Rightarrow> nat option" where
  "digits_from acc [] = Some acc"
| "digits_from acc (c # cs) =
     (case digit_value c of
        None \<Rightarrow> None
      | Some d \<Rightarrow> if acc * 10 + d \<le> u32_max then digits_from (acc * 10 + d) cs else None)"

definition parse_u32 :: "string \<Rightarrow> nat option" where
  "parse_u32 s =
     (let ds = (case s of c # cs \<Rightarrow> if c = CHR ''+'' then cs else s | [] \<Rightarrow> []) in
      if ds = [] then None else digits_from 0 ds)"

definition strip_start :: "string \<Rightarrow> string \<Rightarrow> string option" where
  "strip_start s p = (if starts_with s p then Some (drop (length p) s) else None)"

definition parse_slot_id_from_name :: "string \<Rightarrow> nat option" where
  "parse_slot_id_from_name name =
     Option.bind (or_opt (strip_suffix name ''.err.json'') (strip_suffix name ''.json'')) (\<lambda>stem.
     Option.bind (strip_start stem ''slot-'') parse_u32)"

text \<open>\<open>rest.rfind(p).map(|i| &rest[i..])\<close>.\<close>

fun rfind_from :: "string \<Rightarrow> string \<Rightarrow> string option" where
  "rfind_from p [] = (if p = [] then Some [] else None)"
| "rfind_from p (c # s) =
     (case rfind_from p s of Some r \<Rightarrow> Some r | None \<Rightarrow> if starts_with (c # s) p then Some (c # s) else None)"

definition unclaimed_name :: "string \<Rightarrow> string" where
  "unclaimed_name n =
     (case Option.bind (strip_start n ''.claim-'') (rfind_from ''slot-'') of None \<Rightarrow> n | Some s \<Rightarrow> s)"

definition slot_ids :: "'z slots_scheme \<Rightarrow> nat list" where
  "slot_ids w = List.map_filter (\<lambda>((d, n), e). parse_slot_id_from_name (unclaimed_name n)) (slot_files w)"

definition next_slot_id :: "slot_faults \<Rightarrow> ('z, nat) slotted" where
  "next_slot_id F w =
     (if \<exists>d\<in>{FreeDir, WorkDir, DoneDir, BadDir}. slot_list_fails F d then (Inl (SlotIo ''read_dir''), w)
      else (Inr (max 1 (sat_succ u32_max (fold max (slot_ids w) 0))), w))"

definition pad4 :: "nat \<Rightarrow> string" where
  "pad4 n = (let s = Event_Record.decimal n in replicate (4 - length s) (CHR ''0'') @ s)"

definition slot_file_name :: "string \<Rightarrow> string" where
  "slot_file_name i = ''slot-'' @ i @ ''.json''"

section \<open>Replenishing\<close>

definition is_stub_file :: "slot_codec \<Rightarrow> slot_faults \<Rightarrow> 'z slots_scheme \<Rightarrow> string \<Rightarrow> bool" where
  "is_stub_file Q F w n =
     (case fst (slot_read_capped F (FreeDir, n) DEFAULT_MAX_READ_BYTES w) of
        Inl _ \<Rightarrow> False
      | Inr bytes \<Rightarrow> (case request_of Q bytes of None \<Rightarrow> False | Some m \<Rightarrow> is_free_stub m))"

definition list_free_stubs :: "slot_codec \<Rightarrow> slot_faults \<Rightarrow> ('z, string list) slotted" where
  "list_free_stubs Q F = bindS (list_json_files F FreeDir) (\<lambda>ns w. (Inr (filter (is_stub_file Q F w) ns), w))"

definition create_stub :: "slot_codec \<Rightarrow> slot_faults \<Rightarrow> instant \<Rightarrow> nat \<Rightarrow> ('z, bool) slotted" where
  "create_stub Q F now i =
     create_new F now (FreeDir, slot_file_name (pad4 i)) (request_text Q (free_stub (pad4 i)))"

partial_function (option) replenish_loop ::
  "slot_codec \<Rightarrow> slot_faults \<Rightarrow> instant \<Rightarrow> nat \<Rightarrow> nat \<Rightarrow> nat \<Rightarrow> 'z slots_scheme \<Rightarrow>
     ((slot_error + nat) \<times> 'z slots_scheme) option" where
  "replenish_loop Q F now missing i created w =
     (if missing = 0 then Some (Inr created, w)
      else case create_stub Q F now i w of
        (Inl e, w1) \<Rightarrow> Some (Inl e, w1)
      | (Inr made, w1) \<Rightarrow>
          if made then replenish_loop Q F now (missing - 1) (sat_succ u32_max i) (created + 1) w1
          else replenish_loop Q F now missing (sat_succ u32_max i) created w1)"

definition replenish ::
  "slot_codec \<Rightarrow> slot_faults \<Rightarrow> instant \<Rightarrow> nat \<Rightarrow> 'z slots_scheme \<Rightarrow> ((slot_error + nat) \<times> 'z slots_scheme) exec" where
  "replenish Q F now min_free w =
     (case list_free_stubs Q F w of
        (Inl e, w1) \<Rightarrow> ret (Inl e, w1)
      | (Inr stubs, w1) \<Rightarrow>
          (case next_slot_id F w1 of
             (Inl e, w2) \<Rightarrow> ret (Inl e, w2)
           | (Inr i, w2) \<Rightarrow> replenish_loop Q F now (min_free - length stubs) i 0 w2))"

section \<open>Claim, quarantine, collection\<close>

definition move_entry :: "slot_dir \<times> string \<Rightarrow> slot_dir \<times> string \<Rightarrow> 'z slots_scheme \<Rightarrow> 'z slots_scheme" where
  "move_entry a b w = (case entry_at w a of None \<Rightarrow> w | Some e \<Rightarrow> entry_put b e (entry_del a w))"

text \<open>\<open>None\<close>: the race for the name was lost.\<close>

definition claim_file :: "slot_faults \<Rightarrow> string \<Rightarrow> ('z, string option) slotted" where
  "claim_file F n =
     bindS (refuse_symlink (FreeDir, n)) (\<lambda>_ w.
       if entry_at w (FreeDir, n) = None then (Inr None, w)
       else if slot_rename_fails F (FreeDir, n) then (Inl (SlotIo ''claim rename''), w)
       else (Inr (Some n), move_entry (FreeDir, n) (WorkDir, n) w))"

definition unique_dest :: "slot_dir \<Rightarrow> string \<Rightarrow> ('z, string) slotted" where
  "unique_dest d n w =
     (if \<not> path_exists w (d, n) then (Inr n, w)
      else case List.find (\<lambda>i. \<not> path_exists w (d, n @ ''.'' @ Event_Record.decimal i)) [1..<10000] of
        Some i \<Rightarrow> (Inr (n @ ''.'' @ Event_Record.decimal i), w)
      | None \<Rightarrow> (Inl (SlotInternal (''could not find unique name for '' @ n)), w))"

text \<open>A rename that fails falls back to a copy and a removal, a link is only removed.\<close>

definition move_to_bad :: "slot_faults \<Rightarrow> instant \<Rightarrow> slot_dir \<times> string \<Rightarrow> string \<Rightarrow> 'z slots_scheme \<Rightarrow> 'z slots_scheme" where
  "move_to_bad F now p dest w =
     (let remove = (\<lambda>w. if slot_remove_fails F p then w else entry_del p w) in
      if \<not> slot_rename_fails F p then move_entry p (BadDir, dest) w
      else case entry_at w p of
        Some (Plain bytes _) \<Rightarrow>
          remove (if slot_write_fails F (BadDir, dest) then w else entry_put (BadDir, dest) (Plain bytes now) w)
      | _ \<Rightarrow> remove w)"

definition quarantine_slot ::
  "slot_codec \<Rightarrow> slot_faults \<Rightarrow> instant \<Rightarrow> slot_dir \<times> string \<Rightarrow> slot_error \<Rightarrow> ('z, string) slotted" where
  "quarantine_slot Q F now p why =
     bindS (unique_dest BadDir (snd p)) (\<lambda>dest w.
       let w1 = (if entry_at w p \<noteq> None then move_to_bad F now p dest w else w);
           sc = \<lparr>sc_slot_id = None, sc_reason = why, sc_logged_at = now, sc_source_name = Some (snd p)\<rparr> in
       bindS (slot_atomic_write F now (BadDir, dest @ ''.err.json'') (slot_sidecar_text Q sc))
         (\<lambda>_ w. (Inr dest, w)) w1)"

definition entry_mtime :: "slot_entry \<Rightarrow> instant" where
  "entry_mtime e = (case e of Plain _ t \<Rightarrow> t | Link _ t \<Rightarrow> t)"

fun gc_each :: "slot_faults \<Rightarrow> slot_dir \<Rightarrow> instant \<Rightarrow> string list \<Rightarrow> nat \<Rightarrow> 'z slots_scheme \<Rightarrow> nat \<times> 'z slots_scheme" where
  "gc_each F d cutoff [] removed w = (removed, w)"
| "gc_each F d cutoff (n # ns) removed w =
     (case entry_at w (d, n) of
        None \<Rightarrow> gc_each F d cutoff ns removed w
      | Some e \<Rightarrow>
          if entry_mtime e \<le> cutoff then
            let gone = \<not> slot_remove_fails F (d, n);
                w1 = (if gone then entry_del (d, n) w else w);
                side = (d, n @ ''.err.json'');
                w2 = (if slot_remove_fails F side then w1 else entry_del side w1) in
            gc_each F d cutoff ns (if gone then removed + 1 else removed) w2
          else gc_each F d cutoff ns removed w)"

definition gc_dir_older_than :: "slot_faults \<Rightarrow> instant \<Rightarrow> slot_dir \<Rightarrow> span \<Rightarrow> ('z, nat) slotted" where
  "gc_dir_older_than F now d retention =
     bindS (list_json_files F d) (\<lambda>ns w.
       let (n, w1) = gc_each F d (now - int retention) ns 0 w in (Inr n, w1))"

definition gc_done :: "slot_faults \<Rightarrow> instant \<Rightarrow> span \<Rightarrow> ('z, nat) slotted" where
  "gc_done F now retention = gc_dir_older_than F now DoneDir retention"

definition list_orphan_work :: "slot_faults \<Rightarrow> instant \<Rightarrow> span \<Rightarrow> ('z, string list) slotted" where
  "list_orphan_work F now max_age =
     bindS (list_json_files F WorkDir) (\<lambda>ns w.
       (Inr (filter (\<lambda>n. case entry_at w (WorkDir, n) of
               Some (Plain _ t) \<Rightarrow> t \<le> now - int max_age | _ \<Rightarrow> False) ns), w))"

definition open_layout ::
  "slot_codec \<Rightarrow> slot_faults \<Rightarrow> instant \<Rightarrow> nat \<Rightarrow> 'z slots_scheme \<Rightarrow> ((slot_error + nat) \<times> 'z slots_scheme) exec" where
  "open_layout Q F now min_free w = replenish Q F now min_free w"

end
