(* ===== verification/Slot_Service.thy ===== *)
theory Slot_Service
  imports Slot_Layout
begin

text \<open>
  The slot service (\<open>slots/service.rs\<close>): publishing a request onto a free stub, the poll that
  claims requests, applies each exactly once against the store and answers it, the ownership of
  timers, the quarantine of garbage.

  The locals of a request's transaction are the store of the world; an error of the store undoes
  it. A lock that is not free is \<open>claim_lock_free\<close>; the reading of a lock that fails is its \<open>None\<close>.
\<close>

record slot_config =
  sv_min_free :: nat
  sv_max_read_bytes :: nat
  sv_orphan_age :: span
  sv_done_retention :: span
  sv_max_events :: nat
  sv_tree :: "string option"

definition slot_config_default :: slot_config where
  "slot_config_default = \<lparr> sv_min_free = MIN_FREE_SLOTS, sv_max_read_bytes = DEFAULT_MAX_READ_BYTES,
     sv_orphan_age = DEFAULT_ORPHAN_AGE, sv_done_retention = DEFAULT_DONE_RETENTION,
     sv_max_events = 64, sv_tree = None \<rparr>"

definition CLAIM_LOCK_SHARDS :: nat where "CLAIM_LOCK_SHARDS = 64"

text \<open>\<open>Utc::now()\<close>.\<close>

definition reading :: "env \<Rightarrow> 'z world_scheme \<Rightarrow> instant \<times> 'z world_scheme" where
  "reading E w = (utc_now E (draws w), w\<lparr>draws := draws w + 1\<rparr>)"

section \<open>Slot ids\<close>

definition ascii_alphanumeric :: "char \<Rightarrow> bool" where
  "ascii_alphanumeric c \<longleftrightarrow> (let n = of_char c :: nat in
     48 \<le> n \<and> n \<le> 57 \<or> 65 \<le> n \<and> n \<le> 90 \<or> 97 \<le> n \<and> n \<le> 122)"

fun contains :: "string \<Rightarrow> string \<Rightarrow> bool" where
  "contains [] p = (p = [])"
| "contains (c # s) p = (starts_with (c # s) p \<or> contains s p)"

definition validate_slot_id_grammar :: "string \<Rightarrow> slot_error + unit" where
  "validate_slot_id_grammar i =
     (if i = [] then Inl (SlotInvalid (Msg ''empty slot_id''))
      else if contains i ''/'' \<or> contains i [char_of (92 :: nat)] \<or> contains i [char_of (0 :: nat)] \<or> contains i ''..''
      then Inl (SlotInvalid (Msg (''slot_id contains forbidden path characters: '' @ i)))
      else if \<not> (\<forall>c\<in>set i. ascii_alphanumeric c \<or> c = CHR ''_'' \<or> c = CHR ''-'')
      then Inl (SlotInvalid (Msg (''slot_id has invalid characters (allowed: A-Za-z0-9_-): '' @ i)))
      else Inr ())"

definition reserved_slot_id :: "string \<Rightarrow> slot_error + string" where
  "reserved_slot_id n =
     (case strip_suffix n ''.json'' of
        None \<Rightarrow> Inl (SlotInvalid (Msg (''not a .json slot file: '' @ n)))
      | Some stem \<Rightarrow>
          (case strip_start stem ''slot-'' of
             None \<Rightarrow> Inl (SlotInvalid (Msg (''slot file must be named slot-<id>.json: '' @ n)))
           | Some i \<Rightarrow> bindE (validate_slot_id_grammar i) (\<lambda>_. Inr i)))"

definition normalize_slot_id_arg :: "string \<Rightarrow> slot_error + string" where
  "normalize_slot_id_arg s =
     (let i = (case strip_start s ''slot-'' of None \<Rightarrow> s | Some i \<Rightarrow> i) in
      bindE (validate_slot_id_grammar i) (\<lambda>_. Inr i))"

section \<open>Applying a request\<close>

definition check_ownership :: "store \<Rightarrow> uuid \<Rightarrow> string \<Rightarrow> slot_error + unit" where
  "check_ownership s i app =
     (case get_timer_owner s i of
        Some owner \<Rightarrow>
          if owner = app then Inr ()
          else Inl (SlotInvalid (Msg (''ownership denied: timer owned by '' @ owner @ '', not '' @ app)))
      | None \<Rightarrow> Inl (SlotInvalid (Msg ''ownership denied: timer has no slot owner (not created via slots)'')))"

definition events_for :: "store \<Rightarrow> uuid \<Rightarrow> nat \<Rightarrow> slot_run_event list" where
  "events_for s i max_events = map from_claim (unacked_runs_for_timer s i max_events)"

definition apply_ack :: "slot_payload \<Rightarrow> string \<Rightarrow> store \<Rightarrow> (slot_error + unit) \<times> store" where
  "apply_ack p app s =
     (case (sp_ack_through p, resolved_timer_id p) of
        (Some ack, Some i) \<Rightarrow>
          (case check_ownership s i app of
             Inl e \<Rightarrow> (Inl e, s)
           | Inr _ \<Rightarrow> (Inr (), snd (ack_run_events i ack s)))
      | _ \<Rightarrow> (Inr (), s))"

definition apply_add ::
  "env \<Rightarrow> slot_codec \<Rightarrow> slot_payload \<Rightarrow> string \<Rightarrow> string \<Rightarrow> string \<Rightarrow> nat \<Rightarrow> 'z world_scheme \<Rightarrow>
     ((slot_error + slot_response) \<times> 'z world_scheme) exec" where
  "apply_add E Q p app slot_id rid max_events w =
     (let (now, w1) = reading E w in
      case new_timer_from_payload Q (env_lib E) now p of
        Inl why \<Rightarrow> ret (Inl (SlotInvalid why), w1)
      | Inr new \<Rightarrow>
          let fresh = new_uuid E (draws w1); (now2, w2) = reading E w1 in
          do { r \<leftarrow> create_timer (env_lib E) now2 fresh new (db w2);
               case r of
                 Inl e \<Rightarrow> ret (Inl (SlotStore e), w2)
               | Inr (t, s) \<Rightarrow>
                   let s1 = set_timer_owner s (t_id t) app;
                       s2 = (case sp_ack_through p of None \<Rightarrow> s1 | Some a \<Rightarrow> snd (ack_run_events (t_id t) a s1)) in
                   ret (Inr (response_ok slot_id rid (Some (t_id t)) (t_next_fire t) (events_for s2 (t_id t) max_events)),
                        w2\<lparr>db := s2\<rparr>) })"

definition apply_modify ::
  "env \<Rightarrow> slot_codec \<Rightarrow> slot_payload \<Rightarrow> string \<Rightarrow> string \<Rightarrow> string \<Rightarrow> nat \<Rightarrow> 'z world_scheme \<Rightarrow>
     ((slot_error + slot_response) \<times> 'z world_scheme) exec" where
  "apply_modify E Q p app slot_id rid max_events w =
     (case resolved_timer_id p of
        None \<Rightarrow> ret (Inl (SlotInvalid (Msg ''modify requires payload.timer_id (or id)'')), w)
      | Some i \<Rightarrow>
          (case check_ownership (db w) i app of
             Inl e \<Rightarrow> ret (Inl e, w)
           | Inr _ \<Rightarrow>
               (case get_timer (db w) i of
                  None \<Rightarrow> ret (Inl (SlotInvalid (Msg ''timer not found'')), w)
                | Some current \<Rightarrow>
                    let (now, w1) = reading E w in
                    case patch_from_payload Q (env_lib E) now p of
                      Inl why \<Rightarrow> ret (Inl (SlotInvalid why), w1)
                    | Inr patch \<Rightarrow>
                        let (now2, w2) = reading E w1 in
                        do { r \<leftarrow> update_timer_tx (env_lib E) now2
                               \<lparr>up_id = i, up_expected_revision = t_revision current, up_patch = patch\<rparr> (db w2);
                             case r of
                               Inl e \<Rightarrow> ret (Inl (SlotStore e), w2)
                             | Inr (t, s) \<Rightarrow>
                                 ret (Inr (response_ok slot_id rid (Some (t_id t)) (t_next_fire t)
                                        (events_for s (t_id t) max_events)), w2\<lparr>db := s\<rparr>) })))"

text \<open>The open run is cancelled inside the transaction of the delete.\<close>

definition cancel_open_run :: "env \<Rightarrow> timer \<Rightarrow> string \<Rightarrow> 'z world_scheme \<Rightarrow> 'z world_scheme" where
  "cancel_open_run E t app w =
     (case current_claim (db w) (t_id t) of
        None \<Rightarrow> w
      | Some prev \<Rightarrow>
          if run_unresolved (db w) (Some app) prev
          then close_run E t Cancelled ''timer deleted while its run was open'' prev w else w)"

definition apply_delete ::
  "env \<Rightarrow> slot_payload \<Rightarrow> string \<Rightarrow> string \<Rightarrow> string \<Rightarrow> nat \<Rightarrow> 'z world_scheme \<Rightarrow>
     (slot_error + slot_response) \<times> 'z world_scheme" where
  "apply_delete E p app slot_id rid max_events w =
     (case resolved_timer_id p of
        None \<Rightarrow> (Inl (SlotInvalid (Msg ''delete requires payload.timer_id (or id)'')), w)
      | Some i \<Rightarrow>
          (case check_ownership (db w) i app of
             Inl e \<Rightarrow> (Inl e, w)
           | Inr _ \<Rightarrow>
               let events = events_for (db w) i max_events;
                   w1 = (case get_timer (db w) i of None \<Rightarrow> w | Some t \<Rightarrow> cancel_open_run E t app w);
                   (existed, s1) = delete_timer (db w1) i;
                   s2 = clear_timer_owner s1 i;
                   s3 = s2\<lparr>slot_event_acks := row_del (\<lambda>r. fst r = i) (slot_event_acks s2)\<rparr>;
                   w2 = w1\<lparr>db := s3\<rparr> in
               if existed then (Inr (response_ok slot_id rid (Some i) None events), w2)
               else (Inr (response_err slot_id rid (Msg ''timer not found'')), w2)))"

definition apply_request_tx ::
  "env \<Rightarrow> slot_codec \<Rightarrow> slot_message \<Rightarrow> slot_operation \<Rightarrow> string \<Rightarrow> nat \<Rightarrow> 'z world_scheme \<Rightarrow>
     ((slot_error + slot_response) \<times> 'z world_scheme) exec" where
  "apply_request_tx E Q m oper rid max_events w =
     (case m_payload m of
        None \<Rightarrow> ret (Inl (SlotInvalid (Msg ''missing payload'')), w)
      | Some v \<Rightarrow>
          (case payload_of Q v of
             None \<Rightarrow> ret (Inl (SlotInvalid (Msg ''payload'')), w)
           | Some p \<Rightarrow>
               (case non_empty (sp_app_name p) of
                  None \<Rightarrow> ret (Inl (SlotInvalid (Msg ''payload.app_name is required'')), w)
                | Some app \<Rightarrow>
                    (case apply_ack p app (db w) of
                       (Inl e, s) \<Rightarrow> ret (Inl e, w)
                     | (Inr _, s) \<Rightarrow>
                         let w1 = w\<lparr>db := s\<rparr> in
                         case oper of
                           SlotAdd \<Rightarrow> apply_add E Q p app (m_slot_id m) rid max_events w1
                         | SlotModify \<Rightarrow> apply_modify E Q p app (m_slot_id m) rid max_events w1
                         | SlotDelete \<Rightarrow> ret (apply_delete E p app (m_slot_id m) rid max_events w1)))))"

text \<open>
  The closure of the transaction: a logical error becomes a durable answer and keeps what the
  request did before it, an error of the store undoes everything. A request id already in the
  ledger gets its recorded answer.
\<close>

definition app_name_in :: "slot_message \<Rightarrow> string option" where
  "app_name_in m = (case m_payload m of Some (VObj kvs) \<Rightarrow> Option.bind (map_of kvs ''app_name'') value_str | _ \<Rightarrow> None)"

definition ledger_row ::
  "slot_codec \<Rightarrow> slot_message \<Rightarrow> slot_operation \<Rightarrow> string \<Rightarrow> string \<Rightarrow> slot_response \<Rightarrow> instant \<Rightarrow> slot_request" where
  "ledger_row Q m oper rid reserved resp now = \<lparr> q_request_id = rid, q_slot_id = reserved,
     q_operation = operation_as_str oper, q_app_name = app_name_in m, q_timer_id = sr_timer_id resp,
     q_status = slot_status_as_str (sr_status resp), q_response_json = response_text Q resp, q_created_at = now \<rparr>"

definition execute_request ::
  "env \<Rightarrow> slot_codec \<Rightarrow> slot_message \<Rightarrow> slot_operation \<Rightarrow> string \<Rightarrow> string \<Rightarrow> nat \<Rightarrow> 'z world_scheme \<Rightarrow>
     ((slot_error + slot_request) \<times> 'z world_scheme) exec" where
  "execute_request E Q m oper rid reserved max_events w =
     (case get_slot_request (db w) rid of
        Some q \<Rightarrow> ret (Inr q, w)
      | None \<Rightarrow>
          do { (r, w1) \<leftarrow> apply_request_tx E Q m oper rid max_events w;
               let answer = (case r of
                   Inr resp \<Rightarrow> Inr resp
                 | Inl (SlotInvalid why) \<Rightarrow> Inr (response_err reserved rid why)
                 | Inl e \<Rightarrow> Inl e);
               case answer of
                 Inl e \<Rightarrow> ret (Inl e, w1\<lparr>db := db w\<rparr>)
               | Inr resp \<Rightarrow>
                   let (now, w2) = reading E w1; q = ledger_row Q m oper rid reserved resp now in
                   case slot_execute_once rid (\<lambda>s. Inr (q, db w2)) (db w) of
                     Inl e \<Rightarrow> ret (Inl (SlotStore e), w2\<lparr>db := db w\<rparr>)
                   | Inr (q1, s) \<Rightarrow> ret (Inr q1, w2\<lparr>db := s\<rparr>) })"

section \<open>One request\<close>

text \<open>
  The hook has an engine of its own: a fresh deadline book and fresh anchors, dropped with it.
\<close>

definition reply_ack_hook ::
  "env \<Rightarrow> codec \<Rightarrow> faults \<Rightarrow> string \<Rightarrow> uuid \<Rightarrow> nat \<Rightarrow> 'z site_scheme \<Rightarrow> 'z site_scheme" where
  "reply_ack_hook E C F root i through w =
     (case get_timer (db w) i of
        None \<Rightarrow> w
      | Some t \<Rightarrow>
          if gate_fails F i then w
          else
            let (now, w1) = reading E w;
                (moved, w2) = on_ack_through E t through now (w1\<lparr>book := [], armed_hints := [], anchors := []\<rparr>);
                w3 = (if moved then
                        (case current_run_state (db w2) i of
                           None \<Rightarrow> w2
                         | Some row \<Rightarrow> snd (project_status C F root t (s_run_id row) w2))
                      else w2) in
            w3\<lparr>book := book w, armed_hints := armed_hints w, anchors := anchors w\<rparr>)"

definition message_payload :: "slot_codec \<Rightarrow> slot_message \<Rightarrow> slot_payload option" where
  "message_payload Q m = Option.bind (m_payload m) (payload_of Q)"

definition ack_feed ::
  "env \<Rightarrow> slot_codec \<Rightarrow> codec \<Rightarrow> faults \<Rightarrow> string option \<Rightarrow> slot_message \<Rightarrow> 'z site_scheme \<Rightarrow> 'z site_scheme" where
  "ack_feed E Q C F tree m w =
     (case (tree, message_payload Q m) of
        (Some root, Some p) \<Rightarrow>
          (case (sp_ack_through p, resolved_timer_id p) of
             (Some ack, Some i) \<Rightarrow> reply_ack_hook E C F root i ack w
           | _ \<Rightarrow> w)
      | _ \<Rightarrow> w)"

definition project_request ::
  "codec \<Rightarrow> faults \<Rightarrow> string option \<Rightarrow> string option \<Rightarrow> slot_operation \<Rightarrow> slot_response \<Rightarrow> timer option \<Rightarrow>
     'z site_scheme \<Rightarrow> 'z site_scheme" where
  "project_request C F socket tree oper resp pre w =
     (case tree of
        None \<Rightarrow> w
      | Some root \<Rightarrow>
          if oper = SlotDelete then
            (case pre of None \<Rightarrow> w | Some t \<Rightarrow> snd (remove_for C F root (t_id t) w))
          else
            (case Option.bind (sr_timer_id resp) (get_timer (db w)) of
               None \<Rightarrow> w
             | Some t \<Rightarrow> snd (sync_timer_json C F socket root t (get_timer_owner (db w) (t_id t)) w)))"

definition checked_request ::
  "slot_codec \<Rightarrow> string \<Rightarrow> string \<Rightarrow> slot_error + slot_message \<times> string \<times> slot_operation \<times> string" where
  "checked_request Q n bytes =
     (case request_of Q bytes of
        None \<Rightarrow> Inl (SlotInvalid (Msg (''parse work '' @ n)))
      | Some m \<Rightarrow>
          if is_free_stub m then Inl (SlotInvalid (Msg ''empty stub found in work/ (not a request)''))
          else bindE (reserved_slot_id n) (\<lambda>reserved.
            if m_slot_id m \<noteq> reserved
            then Inl (SlotInvalid (Msg (''envelope slot_id does not match reserved id '' @ reserved)))
            else case (non_empty (m_request_id m), m_operation m) of
              (None, _) \<Rightarrow> Inl (SlotInvalid (Msg ''missing request_id''))
            | (_, None) \<Rightarrow> Inl (SlotInvalid (Msg ''missing operation''))
            | (Some rid, Some oper) \<Rightarrow> Inr (m\<lparr>m_slot_id := reserved\<rparr>, rid, oper, reserved)))"

definition write_done ::
  "env \<Rightarrow> slot_codec \<Rightarrow> slot_faults \<Rightarrow> string \<Rightarrow> slot_response \<Rightarrow> ('z, unit) slotted" where
  "write_done E Q S reserved resp w =
     slot_atomic_write S (utc_now E (draws w)) (DoneDir, slot_file_name reserved) (response_text Q resp) w"

definition answer_request ::
  "env \<Rightarrow> slot_codec \<Rightarrow> slot_faults \<Rightarrow> slot_config \<Rightarrow> string \<Rightarrow> string \<Rightarrow> slot_response \<Rightarrow> 'z slots_scheme \<Rightarrow>
     ((slot_error + unit) \<times> 'z slots_scheme) exec" where
  "answer_request E Q S G n reserved resp w =
     (case write_done E Q S reserved resp w of
        (Inl e, w1) \<Rightarrow> ret (Inl e, w1)
      | (Inr _, w1) \<Rightarrow>
          do { (r, w2) \<leftarrow> replenish Q S (utc_now E (draws w1)) (sv_min_free G)
                 (if slot_remove_fails S (WorkDir, n) then w1 else entry_del (WorkDir, n) w1);
               ret (case r of Inl e \<Rightarrow> Inl e | Inr _ \<Rightarrow> Inr (), w2) })"

definition process_work_file ::
  "env \<Rightarrow> slot_codec \<Rightarrow> codec \<Rightarrow> faults \<Rightarrow> slot_faults \<Rightarrow> slot_config \<Rightarrow> string option \<Rightarrow> string \<Rightarrow> 'z slots_scheme \<Rightarrow>
     ((slot_error + unit) \<times> 'z slots_scheme) exec" where
  "process_work_file E Q C F S G socket n w =
     (case fst (bindS (refuse_symlink (WorkDir, n)) (\<lambda>_. slot_read_capped S (WorkDir, n) (sv_max_read_bytes G)) w) of
        Inl e \<Rightarrow> ret (Inl e, w)
      | Inr bytes \<Rightarrow>
          (case checked_request Q n bytes of
             Inl e \<Rightarrow> ret (Inl e, w)
           | Inr (m, rid, oper, reserved) \<Rightarrow>
               let pre = (if sv_tree G \<noteq> None \<and> oper = SlotDelete
                          then Option.bind (Option.bind (message_payload Q m) resolved_timer_id) (get_timer (db w))
                          else None) in
               if (case pre of None \<Rightarrow> False | Some t \<Rightarrow> gate_fails F (t_id t))
               then ret (Inl (SlotInternal ''per-timer gate''), w)
               else do { (r, w1) \<leftarrow> execute_request E Q m oper rid reserved (sv_max_events G) w;
                         case r of
                           Inl e \<Rightarrow> ret (Inl e, w1)
                         | Inr q \<Rightarrow>
                             (case response_of Q (q_response_json q) of
                                None \<Rightarrow> ret (Inl (SlotInternal ''stored response corrupt''), w1)
                              | Some resp \<Rightarrow>
                                  answer_request E Q S G n reserved resp
                                    (if sr_status resp = SlotOk
                                     then project_request C F socket (sv_tree G) oper resp pre
                                            (ack_feed E Q C F (sv_tree G) m w1)
                                     else w1)) }))"

section \<open>The poll\<close>

definition try_claim_and_queue ::
  "slot_codec \<Rightarrow> slot_faults \<Rightarrow> slot_config \<Rightarrow> instant \<Rightarrow> string \<Rightarrow> 'z slots_scheme \<Rightarrow>
     ((slot_error + bool) \<times> 'z slots_scheme) exec" where
  "try_claim_and_queue Q S G now n w =
     (case fst (bindS (refuse_symlink (FreeDir, n)) (\<lambda>_. slot_read_capped S (FreeDir, n) (sv_max_read_bytes G)) w) of
        Inl e \<Rightarrow> ret (Inl e, w)
      | Inr bytes \<Rightarrow>
          (case request_of Q bytes of
             None \<Rightarrow> ret (Inl (SlotInvalid (Msg (''parse '' @ n))), w)
           | Some m \<Rightarrow>
               if is_free_stub m then ret (Inr False, w)
               else if \<not> schema_supported m
               then ret (Inl (SlotInvalid (Msg (''unsupported schema '' @ m_schema m))), w)
               else case claim_file S n w of
                 (Inl e, w1) \<Rightarrow> ret (Inl e, w1)
               | (Inr None, w1) \<Rightarrow> ret (Inr False, w1)
               | (Inr (Some _), w1) \<Rightarrow>
                   do { (r, w2) \<leftarrow> replenish Q S now (sv_min_free G) w1;
                        ret (case r of Inl e \<Rightarrow> Inl e | Inr _ \<Rightarrow> Inr True, w2) }))"

text \<open>What a pass does with a file that cannot be used: quarantine, best effort, then stubs again.\<close>

definition reject_file ::
  "slot_codec \<Rightarrow> slot_faults \<Rightarrow> slot_config \<Rightarrow> instant \<Rightarrow> slot_dir \<times> string \<Rightarrow> slot_error \<Rightarrow> 'z slots_scheme \<Rightarrow>
     ((slot_error + nat) \<times> 'z slots_scheme) exec" where
  "reject_file Q S G now p why w = replenish Q S now (sv_min_free G) (snd (quarantine_slot Q S now p why w))"

fun claim_each ::
  "slot_codec \<Rightarrow> slot_faults \<Rightarrow> slot_config \<Rightarrow> instant \<Rightarrow> string list \<Rightarrow> 'z slots_scheme \<Rightarrow>
     ((slot_error + unit) \<times> 'z slots_scheme) exec" where
  "claim_each Q S G now [] w = ret (Inr (), w)"
| "claim_each Q S G now (n # ns) w =
     do { (r, w1) \<leftarrow> try_claim_and_queue Q S G now n w;
          case r of
            Inr _ \<Rightarrow> claim_each Q S G now ns w1
          | Inl e \<Rightarrow>
              do { (r2, w2) \<leftarrow> reject_file Q S G now (FreeDir, n) e w1;
                   case r2 of Inl e2 \<Rightarrow> ret (Inl e2, w2) | Inr _ \<Rightarrow> claim_each Q S G now ns w2 } }"

fun process_each ::
  "env \<Rightarrow> slot_codec \<Rightarrow> codec \<Rightarrow> faults \<Rightarrow> slot_faults \<Rightarrow> slot_config \<Rightarrow> string option \<Rightarrow> string list \<Rightarrow> nat \<Rightarrow>
     'z slots_scheme \<Rightarrow> ((slot_error + nat) \<times> 'z slots_scheme) exec" where
  "process_each E Q C F S G socket [] n w = ret (Inr n, w)"
| "process_each E Q C F S G socket (f # fs) n w =
     do { (r, w1) \<leftarrow> process_work_file E Q C F S G socket f w;
          case r of
            Inr _ \<Rightarrow> process_each E Q C F S G socket fs (n + 1) w1
          | Inl e \<Rightarrow>
              do { (r2, w2) \<leftarrow> reject_file Q S G (utc_now E (draws w1)) (WorkDir, f) e w1;
                   case r2 of Inl e2 \<Rightarrow> ret (Inl e2, w2)
                   | Inr _ \<Rightarrow> process_each E Q C F S G socket fs n w2 } }"

definition poll ::
  "env \<Rightarrow> slot_codec \<Rightarrow> codec \<Rightarrow> faults \<Rightarrow> slot_faults \<Rightarrow> slot_config \<Rightarrow> string option \<Rightarrow> 'z slots_scheme \<Rightarrow>
     ((slot_error + nat) \<times> 'z slots_scheme) exec" where
  "poll E Q C F S G socket w =
     (let now = (\<lambda>w. utc_now E (draws w)) in
      case list_json_files S FreeDir w of
        (Inl e, w1) \<Rightarrow> ret (Inl e, w1)
      | (Inr frees, w1) \<Rightarrow>
          do { (r, w2) \<leftarrow> claim_each Q S G (now w1) frees w1;
               case bindS (\<lambda>w. (r, w)) (\<lambda>_. list_json_files S WorkDir) w2 of
                 (Inl e, w3) \<Rightarrow> ret (Inl e, w3)
               | (Inr works, w3) \<Rightarrow>
                   do { (r4, w4) \<leftarrow> process_each E Q C F S G socket works 0 w3;
                        case bindS (\<lambda>w. (r4, w)) (\<lambda>n. bindS (gc_done S (now w4) (sv_done_retention G)) (\<lambda>_ w. (Inr n, w))) w4 of
                          (Inl e, w5) \<Rightarrow> ret (Inl e, w5)
                        | (Inr n, w5) \<Rightarrow>
                            do { (r6, w6) \<leftarrow> replenish Q S (now w5) (sv_min_free G) w5;
                                 ret (case r6 of Inl e \<Rightarrow> Inl e | Inr _ \<Rightarrow> Inr n, w6) } } })"

section \<open>Publishing\<close>

definition claim_shard :: "string \<Rightarrow> nat" where
  "claim_shard n = (case parse_slot_id_from_name n of None \<Rightarrow> 0 | Some i \<Rightarrow> i) mod CLAIM_LOCK_SHARDS"

definition stub_in :: "slot_codec \<Rightarrow> slot_faults \<Rightarrow> nat \<Rightarrow> string \<Rightarrow> 'z slots_scheme \<Rightarrow> slot_message option" where
  "stub_in Q S cap n w =
     (case fst (slot_read_capped S (FreeDir, n) cap w) of
        Inl _ \<Rightarrow> None
      | Inr bytes \<Rightarrow> (case request_of Q bytes of None \<Rightarrow> None | Some m \<Rightarrow> if is_free_stub m then Some m else None))"

text \<open>
  The search for a stub: lock, read, rename onto a claim name, read again; a claim that is not the
  stub any more is put back. The answer is the claim's name, the slot id and the file name.
\<close>

fun pick_stub ::
  "env \<Rightarrow> slot_codec \<Rightarrow> codec \<Rightarrow> slot_faults \<Rightarrow> nat \<Rightarrow> string list \<Rightarrow> 'z slots_scheme \<Rightarrow>
     (slot_error + string \<times> string \<times> string) \<times> 'z slots_scheme" where
  "pick_stub E Q C S cap [] w = (Inl NoFreeSlot, w)"
| "pick_stub E Q C S cap (n # ns) w =
     (if fst (refuse_symlink (FreeDir, n) w) \<noteq> Inr () then pick_stub E Q C S cap ns w
      else case claim_lock_free S (claim_shard n) of
        None \<Rightarrow> (Inl (SlotIo ''claim lock''), w)
      | Some False \<Rightarrow> pick_stub E Q C S cap ns w
      | Some True \<Rightarrow>
          (case stub_in Q S cap n w of
             None \<Rightarrow> pick_stub E Q C S cap ns w
           | Some stub \<Rightarrow>
               let claim = ''.claim-'' @ uuid_text C (new_uuid E (draws w)) @ ''-'' @ n;
                   w1 = w\<lparr>draws := draws w + 1\<rparr> in
               if entry_at w1 (FreeDir, n) = None \<or> slot_rename_fails S (FreeDir, n) then pick_stub E Q C S cap ns w1
               else
                 let w2 = move_entry (FreeDir, n) (FreeDir, claim) w1 in
                 if (case stub_in Q S cap claim w2 of None \<Rightarrow> False | Some m \<Rightarrow> m_slot_id m = m_slot_id stub)
                 then (Inr (claim, m_slot_id stub, n), w2)
                 else pick_stub E Q C S cap ns
                        (if slot_rename_fails S (FreeDir, claim) then w2
                         else move_entry (FreeDir, claim) (FreeDir, n) w2)))"

definition completed_request :: "env \<Rightarrow> codec \<Rightarrow> slot_message \<Rightarrow> 'z world_scheme \<Rightarrow> slot_message \<times> 'z world_scheme" where
  "completed_request E C m w =
     (let w1 = w\<lparr>draws := draws w + 1\<rparr>;
          m1 = (if non_empty (m_request_id m) = None
                then m\<lparr>m_request_id := Some (uuid_text C (new_uuid E (draws w)))\<rparr> else m);
          m2 = (if m_logged_at m1 = None then m1\<lparr>m_logged_at := Some (utc_now E (draws w))\<rparr> else m1) in
      (if m_schema m2 = [] then m2\<lparr>m_schema := SLOT_SCHEMA_V1\<rparr> else m2, w1))"

definition publish ::
  "env \<Rightarrow> slot_codec \<Rightarrow> codec \<Rightarrow> slot_faults \<Rightarrow> slot_config \<Rightarrow> slot_message \<Rightarrow> 'z slots_scheme \<Rightarrow>
     ((slot_error + string) \<times> 'z slots_scheme) exec" where
  "publish E Q C S G m w =
     (if m_operation m = None
      then ret (Inl (SlotInvalid (Msg ''publish requires operation (add|modify|delete)'')), w)
      else
        let (m1, w1) = completed_request E C m w in
        case bindS (list_json_files S FreeDir) (pick_stub E Q C S (sv_max_read_bytes G)) w1 of
          (Inl e, w2) \<Rightarrow> ret (Inl e, w2)
        | (Inr (claim, slot_id, n), w2) \<Rightarrow>
            let now = utc_now E (draws w2);
                (wr, w3) = slot_atomic_write S now (FreeDir, n) (request_text Q (m1\<lparr>m_slot_id := slot_id\<rparr>)) w2;
                w4 = (if slot_remove_fails S (FreeDir, claim) then w3 else entry_del (FreeDir, claim) w3) in
            case wr of
              Inl e \<Rightarrow> ret (Inl e, w4)
            | Inr _ \<Rightarrow>
                do { (r, w5) \<leftarrow> replenish Q S now (sv_min_free G) w4;
                     ret (case r of Inl e \<Rightarrow> Inl e | Inr _ \<Rightarrow> Inr n, w5) })"

definition read_done :: "slot_codec \<Rightarrow> slot_faults \<Rightarrow> slot_config \<Rightarrow> string \<Rightarrow> ('z, slot_response option) slotted" where
  "read_done Q S G i w =
     (case normalize_slot_id_arg i of
        Inl e \<Rightarrow> (Inl e, w)
      | Inr reserved \<Rightarrow>
          let p = (DoneDir, slot_file_name reserved) in
          if \<not> path_exists w p then (Inr None, w)
          else bindS (slot_read_capped S p (sv_max_read_bytes G)) (\<lambda>bytes w.
            case response_of Q bytes of
              None \<Rightarrow> (Inl (SlotInvalid (Msg ''response'')), w)
            | Some resp \<Rightarrow> (Inr (Some resp), w)) w)"

definition orphan_work_paths :: "slot_faults \<Rightarrow> slot_config \<Rightarrow> instant \<Rightarrow> ('z, string list) slotted" where
  "orphan_work_paths S G now = list_orphan_work S now (sv_orphan_age G)"

end
