(* ===== verification/Slot_Properties.thy ===== *)
theory Slot_Properties
  imports Slot_Service Fire_Properties
begin

text \<open>
  The properties of the slot channel: only the owner of a timer can touch it, a request takes
  effect once or not at all, free stubs never run out, a request is published onto a stub and onto
  nothing else.
\<close>

section \<open>Ownership\<close>

text \<open>What the store holds of one timer: its row, its owner, its acknowledgement cursor.\<close>

definition timer_view :: "store \<Rightarrow> uuid \<Rightarrow> timer option \<times> (uuid \<times> string) option \<times> (uuid \<times> nat) option" where
  "timer_view s i = (row_get t_id i (timers s), row_get fst i (timer_owners s), row_get fst i (slot_event_acks s))"

lemma row_get_upsert: "i \<noteq> j \<Longrightarrow> row_get fst i (upsert j v f rows) = row_get fst i rows"
proof -
  assume "i \<noteq> j"
  moreover from this have "row_get fst i (map (\<lambda>r. if fst r = j then (fst r, g r) else r) rows) = row_get fst i rows" for g
    by (induction rows) (auto simp: row_get_def)
  ultimately show ?thesis
    by (auto simp: upsert_def row_get_append row_set_def case_prod_unfold split: option.split)
qed

lemma view_ack: "i \<noteq> j \<Longrightarrow> timer_view (snd (ack_run_events j a s)) i = timer_view s i"
  by (simp add: timer_view_def ack_run_events_def Let_def row_get_upsert)

lemma view_owner: "i \<noteq> j \<Longrightarrow> timer_view (set_timer_owner s j app) i = timer_view s i"
  by (simp add: timer_view_def set_timer_owner_def row_get_upsert)

lemma check_ownership_Inr: "check_ownership s i app = Inr u \<longleftrightarrow> get_timer_owner s i = Some app"
  by (auto simp: check_ownership_def split: option.splits)

lemma check_ownership_view: "timer_view s i = timer_view s' i \<Longrightarrow> check_ownership s i app = check_ownership s' i app"
  by (simp add: check_ownership_def get_timer_owner_def timer_view_def)

lemma view_reading [simp]: "db (snd (reading E w)) = db w"
  by (simp add: reading_def)

lemma view_apply_ack:
  assumes "apply_ack p app s = (r, s1)" "get_timer_owner s i = Some owner" "owner \<noteq> app"
  shows "timer_view s1 i = timer_view s i"
  using assms by (auto simp: apply_ack_def check_ownership_Inr split: option.splits sum.splits intro!: view_ack)

lemma view_apply_add:
  assumes "apply_add E Q p app sid rid n w = Some (r, w1)" "get_timer (db w) i = Some t"
  shows "timer_view (db w1) i = timer_view (db w) i"
proof -
  let ?w2 = "snd (reading E (snd (reading E w)))"
  have d: "db ?w2 = db w" by simp
  show ?thesis
  proof (cases "new_timer_from_payload Q (env_lib E) (fst (reading E w)) p")
    case (Inl why)
    then show ?thesis using assms(1) by (auto simp: apply_add_def case_prod_unfold Let_def)
  next
    case (Inr new)
    define now where "now = fst (reading E (snd (reading E w)))"
    define fresh where "fresh = new_uuid E (draws (snd (reading E w)))"
    obtain res where c: "create_timer (env_lib E) now fresh new (db w) = Some res"
      using assms(1) Inr by (cases "create_timer (env_lib E) now fresh new (db w)")
        (auto simp: apply_add_def case_prod_unfold Let_def now_def fresh_def)
    show ?thesis
    proof (cases res)
      case (Inl e)
      then show ?thesis using assms(1) Inr c by (auto simp: apply_add_def case_prod_unfold Let_def now_def fresh_def)
    next
      case res: (Inr q)
      obtain t' s where q: "q = (t', s)" by (cases q)
      have cr: "create_timer (env_lib E) now fresh new (db w) = Some (Inr (t', s))" using c res q by simp
      have n: "t_id t' \<noteq> i \<and> timer_view s i = timer_view (db w) i"
        using cr
      proof (cases rule: create_timer_Some)
        case (1 j oc nxt)
        then have "t_id t' = j" by simp
        then have "t_id t' \<noteq> i" using 1(4) assms(2) by auto
        then show ?thesis using 1(6) by (auto simp: timer_view_def row_get_append split: option.split)
      qed
      have "w1 = ?w2\<lparr>db := (case sp_ack_through p of None \<Rightarrow> set_timer_owner s (t_id t') app
          | Some a \<Rightarrow> snd (ack_run_events (t_id t') a (set_timer_owner s (t_id t') app)))\<rparr>"
        using assms(1) Inr cr by (auto simp: apply_add_def case_prod_unfold Let_def now_def fresh_def split: option.splits)
      then show ?thesis using n by (auto simp: view_ack view_owner split: option.split)
    qed
  qed
qed

lemma bind_sum_Some:
  "Option.bind m (\<lambda>r. case r of Inl e \<Rightarrow> f e | Inr (a, b) \<Rightarrow> g a b) = Some z \<longleftrightarrow>
     (\<exists>e. m = Some (Inl e) \<and> f e = Some z) \<or> (\<exists>a b. m = Some (Inr (a, b)) \<and> g a b = Some z)"
  by (cases m) (auto split: sum.splits)

lemma view_apply_modify:
  assumes "apply_modify E Q p app sid rid n w = Some (r, w1)" "get_timer_owner (db w) i = Some owner" "owner \<noteq> app"
  shows "timer_view (db w1) i = timer_view (db w) i"
proof -
  have upd: "timer_view s' i = timer_view s i"
    if "update_timer_tx L now \<lparr>up_id = j, up_expected_revision = v, up_patch = pa\<rparr> s = Some (Inr (t, s'))" "j \<noteq> i"
    for L now j v pa s t s'
  proof -
    have "update_timer L now \<lparr>up_id = j, up_expected_revision = v, up_patch = pa\<rparr> s = Some (Inr (t, s'))"
      using that(1) by (simp add: update_timer_def)
    then show ?thesis
    proof (cases rule: update_timer_Some)
      case (1 old nxt oc fire)
      have "row_get t_id i (row_set (\<lambda>x. t_id x = j \<and> t_revision x = v) (\<lambda>_. t) rows) = row_get t_id i rows" for rows
        using that(2) apply_patch_Inr(1) [OF 1(3)] row_get_Some [OF 1(1) [unfolded get_timer_def]] 1(5)
        by (induction rows) (auto simp: row_get_def row_set_def)
      then show ?thesis by (simp add: 1(6) timer_view_def)
    qed
  qed
  show ?thesis
    using assms
    by (auto simp: apply_modify_def check_ownership_Inr reading_def Let_def bind_sum_Some upd
        split: option.splits sum.splits dest: upd)
qed

lemma view_cancel: "timer_view (db (cancel_open_run E t app w)) i = timer_view (db w) i"
  by (simp add: cancel_open_run_def timer_view_def close_run_def close_row_def emit_def enqueue_event_def set_row_def
      update_run_state_def split: option.split)

lemma view_apply_delete:
  assumes "apply_delete E p app sid rid n w = (r, w1)" "get_timer_owner (db w) i = Some owner" "owner \<noteq> app"
  shows "timer_view (db w1) i = timer_view (db w) i"
proof (cases "resolved_timer_id p")
  case None
  then show ?thesis using assms(1) by (simp add: apply_delete_def)
next
  case (Some j)
  show ?thesis
  proof (cases "check_ownership (db w) j app")
    case (Inl e)
    then show ?thesis using assms(1) Some by (simp add: apply_delete_def)
  next
    case (Inr u)
    then have "i \<noteq> j" using assms(2,3) by (auto simp: check_ownership_Inr)
    then have del: "timer_view ((clear_timer_owner (snd (delete_timer s j)) j)
        \<lparr>slot_event_acks := row_del (\<lambda>r. fst r = j) (slot_event_acks (clear_timer_owner (snd (delete_timer s j)) j))\<rparr>) i
        = timer_view s i" for s
      by (simp add: timer_view_def delete_timer_def clear_timer_owner_def row_get_del)
    define w0 where "w0 = (case get_timer (db w) j of None \<Rightarrow> w | Some t \<Rightarrow> cancel_open_run E t app w)"
    have "timer_view (db w1) i = timer_view (db w0) i"
      using assms(1) Some Inr del by (auto simp: apply_delete_def case_prod_unfold Let_def w0_def split: if_splits)
    then show ?thesis by (simp add: w0_def view_cancel split: option.split)
  qed
qed

lemma foreign_view:
  assumes "apply_request_tx E Q m oper rid n w = Some (r, w1)"
    and "get_timer (db w) i = Some t" "get_timer_owner (db w) i = Some owner"
    and "\<And>p. message_payload Q m = Some p \<Longrightarrow> sp_app_name p \<noteq> Some owner"
  shows "timer_view (db w1) i = timer_view (db w) i"
proof (cases "Option.bind (message_payload Q m) (\<lambda>p. map_option (Pair p) (non_empty (sp_app_name p)))")
  case None
  then show ?thesis using assms(1)
    by (auto simp: apply_request_tx_def message_payload_def split: option.splits)
next
  case (Some pa)
  obtain p app where pa: "message_payload Q m = Some p" "non_empty (sp_app_name p) = Some app"
    using Some by (auto simp: bind_eq_Some_conv)
  then obtain v where v: "m_payload m = Some v" "payload_of Q v = Some p"
    by (auto simp: message_payload_def bind_eq_Some_conv)
  have "sp_app_name p = Some app" using pa(2) by (auto simp: non_empty_def split: option.splits list.splits)
  then have ne: "owner \<noteq> app" using assms(4) [OF pa(1)] by auto
  obtain a s where ack: "apply_ack p app (db w) = (a, s)" by (cases "apply_ack p app (db w)")
  have vs: "timer_view s i = timer_view (db w) i" by (rule view_apply_ack [OF ack assms(3) ne])
  then have keep: "get_timer s i = Some t" "get_timer_owner s i = Some owner"
    using assms(2,3) by (simp_all add: timer_view_def get_timer_def get_timer_owner_def)
  note run = assms(1) [unfolded apply_request_tx_def, simplified v pa(2) ack option.case prod.case Let_def, simplified]
  show ?thesis
  proof (cases a)
    case (Inl e)
    then show ?thesis using run by simp
  next
    case (Inr u)
    let ?w = "w\<lparr>db := s\<rparr>"
    have d: "get_timer (db ?w) i = Some t" "get_timer_owner (db ?w) i = Some owner" using keep by simp_all
    have "timer_view (db w1) i = timer_view (db ?w) i"
    proof (cases oper)
      case SlotAdd
      then have "apply_add E Q p app (m_slot_id m) rid n ?w = Some (r, w1)" using run Inr by simp
      from view_apply_add [OF this d(1)] show ?thesis .
    next
      case SlotModify
      then have "apply_modify E Q p app (m_slot_id m) rid n ?w = Some (r, w1)" using run Inr by simp
      from view_apply_modify [OF this d(2) ne] show ?thesis .
    next
      case SlotDelete
      then have "apply_delete E p app (m_slot_id m) rid n ?w = (r, w1)" using run Inr by simp
      from view_apply_delete [OF this d(2) ne] show ?thesis .
    qed
    then show ?thesis using vs by simp
  qed
qed

section \<open>Once or not at all\<close>

text \<open>The answer of the transaction's closure.\<close>

lemma execute_cases:
  assumes "execute_request E Q m oper rid reserved n w = Some (res, w1)"
  obtains (known) q where "get_slot_request (db w) rid = Some q" "res = Inr q" "w1 = w"
  | (undone) e where "get_slot_request (db w) rid = None" "res = Inl e" "db w1 = db w"
  | (done_now) r wa resp now where "get_slot_request (db w) rid = None"
      "apply_request_tx E Q m oper rid n w = Some (r, wa)"
      "resp = (case r of Inr resp \<Rightarrow> resp | Inl (SlotInvalid why) \<Rightarrow> response_err reserved rid why)"
      "r = Inr resp \<or> (\<exists>why. r = Inl (SlotInvalid why))"
      "res = Inr (ledger_row Q m oper rid reserved resp now)"
      "db w1 = (db wa)\<lparr>slot_requests := slot_requests (db wa) @ [ledger_row Q m oper rid reserved resp now]\<rparr>"
      "get_slot_request (db wa) rid = None"
proof (cases "get_slot_request (db w) rid")
  case (Some q)
  then show thesis using assms by (intro known) (auto simp: execute_request_def)
next
  case None
  obtain r wa where a: "apply_request_tx E Q m oper rid n w = Some (r, wa)"
    using assms None by (auto simp: execute_request_def bind_Some)
  note run = assms [unfolded execute_request_def None option.case a, simplified bind.bind_lunit prod.case]
  show thesis
  proof (cases "\<exists>resp. (r = Inr resp \<or> (\<exists>why. r = Inl (SlotInvalid why) \<and> resp = response_err reserved rid why))")
    case False
    then obtain e where e: "r = Inl e" "\<forall>why. e \<noteq> SlotInvalid why" by (cases r) auto
    have "res = Inl e" "w1 = wa\<lparr>db := db w\<rparr>"
      using run e by (cases e; simp)+
    then show thesis by (intro undone [OF None, of e]) simp_all
  next
    case True
    then obtain resp where resp: "r = Inr resp \<or> (\<exists>why. r = Inl (SlotInvalid why) \<and> resp = response_err reserved rid why)"
      by blast
    define now where "now = fst (reading E wa)"
    let ?q = "ledger_row Q m oper rid reserved resp now"
    have x: "slot_execute_once rid (\<lambda>s. Inr (?q, db wa)) (db w) =
        (if get_slot_request (db wa) rid = None
         then Inr (?q, (db wa)\<lparr>slot_requests := slot_requests (db wa) @ [?q]\<rparr>)
         else Inl (Sqlite ''UNIQUE constraint failed: slot_requests.request_id''))"
      using None by (simp add: slot_execute_once_def insert_slot_request_tx_def bindE_def ledger_row_def)
    have e: "Some (res, w1) = (case slot_execute_once rid (\<lambda>s. Inr (?q, db wa)) (db w) of
        Inl e \<Rightarrow> Some (Inl (SlotStore e), (snd (reading E wa))\<lparr>db := db w\<rparr>)
      | Inr (q1, s) \<Rightarrow> Some (Inr q1, (snd (reading E wa))\<lparr>db := s\<rparr>))"
      using run resp by (auto simp: Let_def now_def case_prod_unfold)
    show thesis
    proof (cases "get_slot_request (db wa) rid")
      case (Some q)
      then have "res = Inl (SlotStore (Sqlite ''UNIQUE constraint failed: slot_requests.request_id''))"
        "w1 = (snd (reading E wa))\<lparr>db := db w\<rparr>" using e x by simp_all
      then show thesis by (intro undone [OF None]) simp_all
    next
      case fresh: None
      show thesis
      proof (rule done_now [OF None a])
        show "resp = (case r of Inr resp \<Rightarrow> resp | Inl (SlotInvalid why) \<Rightarrow> response_err reserved rid why)"
          using resp by auto
        show "r = Inr resp \<or> (\<exists>why. r = Inl (SlotInvalid why))" using resp by blast
        show "res = Inr ?q" "db w1 = (db wa)\<lparr>slot_requests := slot_requests (db wa) @ [?q]\<rparr>"
          using e x fresh by simp_all
      qed (rule fresh)
    qed
  qed
qed

text \<open>C30: only the owner touches a timer: executing a request of any other application leaves an
  existing timer's row, its owner and its acknowledgement cursor as they were, whatever the
  request asks for and whatever it answers.\<close>

theorem foreign_timer_untouched:
  assumes "execute_request E Q m oper rid reserved n w = Some (res, w1)"
    and "get_timer (db w) i = Some t" "get_timer_owner (db w) i = Some owner"
    and "\<And>p. message_payload Q m = Some p \<Longrightarrow> sp_app_name p \<noteq> Some owner"
  shows "get_timer (db w1) i = Some t \<and> get_timer_owner (db w1) i = Some owner \<and>
    last_acked_sequence (db w1) i = last_acked_sequence (db w) i"
proof -
  have "timer_view (db w1) i = timer_view (db w) i"
    using assms(1)
  proof (cases rule: execute_cases)
    case (done_now r wa resp now)
    from foreign_view [OF done_now(2) assms(2-4)] show ?thesis
      by (simp add: done_now(6) timer_view_def)
  qed simp_all
  then show ?thesis using assms(2,3)
    by (simp add: timer_view_def get_timer_def get_timer_owner_def last_acked_sequence_def)
qed

text \<open>C31: the transaction of a request takes effect once or not at all: one that fails leaves the store
  as it was, and one that answers leaves its answer in the ledger, so that every later transaction with
  the same id, whatever it asks for, gets the same answer and changes nothing. What the service does
  after the commit (the acknowledgement hook, the timer's folder, the done file) is not part of it.\<close>

theorem request_takes_effect_once:
  assumes "execute_request E Q m oper rid reserved n w = Some (res, w1)"
  shows "(\<forall>e. res = Inl e \<longrightarrow> db w1 = db w) \<and>
    (\<forall>q. res = Inr q \<longrightarrow> get_slot_request (db w1) rid = Some q \<and>
      (\<forall>w2 m' oper' reserved'. get_slot_request (db w2) rid = Some q \<longrightarrow>
        execute_request E Q m' oper' rid reserved' n w2 = Some (Inr q, w2)))"
  using assms
proof (cases rule: execute_cases)
  case (done_now r wa resp now)
  have "get_slot_request (db w1) rid = Some (ledger_row Q m oper rid reserved resp now)"
    using done_now(7) by (simp add: done_now(6) get_slot_request_def row_get_append ledger_row_def)
  then show ?thesis by (auto simp: done_now(5) execute_request_def)
qed (auto simp: execute_request_def)

text \<open>Another application asks for a timer to be deleted.\<close>

definition blank_payload :: slot_payload where
  "blank_payload = \<lparr> sp_app_name = Some ''other'', sp_timer_name = None, sp_timer_id = Some 3, sp_id = None,
     sp_occurrence = None, sp_tz = None, sp_action = None, sp_launch_command = None, sp_args = None,
     sp_workdir = None, sp_misfire_policy = None, sp_time = None, sp_every_secs = None, sp_days = None,
     sp_day = None, sp_month = None, sp_cron = None, sp_ack_through = None, sp_transport = None \<rparr>"

definition sample_slot_codec :: slot_codec where
  "sample_slot_codec = \<lparr> request_of = (\<lambda>s. Some (free_stub s)), request_text = m_slot_id,
     response_text = sr_request_id, response_of = (\<lambda>s. None), slot_sidecar_text = (\<lambda>_. ''sidecar''),
     payload_of = (\<lambda>v. Some (blank_payload\<lparr>sp_app_name := value_str v\<rparr>)), kind_of_value = (\<lambda>_. None),
     occurrence_of_value = (\<lambda>_. None), action_of_value = (\<lambda>_. None), misfire_of_value = (\<lambda>_. None),
     clock_hms = (\<lambda>_. None), clock_hm = (\<lambda>_. None), datetime_t = (\<lambda>_. None),
     datetime_space = (\<lambda>_. None), date_only = (\<lambda>_. None) \<rparr>"

definition delete_message :: "string \<Rightarrow> slot_message" where
  "delete_message app = \<lparr> m_schema = SLOT_SCHEMA_V1, m_slot_id = ''0001'', m_request_id = Some ''r1'',
     m_logged_at = None, m_operation = Some SlotDelete, m_payload = Some (VStr app) \<rparr>"

definition owned_world :: world where
  "owned_world = fired_world\<lparr>db := sample_store\<lparr>timer_owners := [(3, ''app'')]\<rparr>\<rparr>"

lemma owned_lookups:
  "get_timer (db owned_world) 3 = Some sample_timer" "get_timer_owner (db owned_world) 3 = Some ''app''"
  "get_slot_request (db owned_world) rid = None"
  by (simp_all add: owned_world_def fired_world_def get_timer_def get_timer_owner_def get_slot_request_def
      row_get_def sample_store_def sample_timer_def new_timer_row_def timer_row_def empty_store_def)

lemma delete_message_payload:
  "message_payload sample_slot_codec (delete_message app) = Some (blank_payload\<lparr>sp_app_name := Some app\<rparr>)"
  by (simp add: message_payload_def sample_slot_codec_def delete_message_def value_str_def)

lemma delete_denied:
  "apply_request_tx sample_env sample_slot_codec (delete_message ''other'') SlotDelete ''r1'' 8 owned_world =
     Some (Inl (SlotInvalid (Msg ''ownership denied: timer owned by app, not other'')), owned_world)"
proof -
  have "check_ownership (db owned_world) 3 ''other'' = Inl (SlotInvalid (Msg ''ownership denied: timer owned by app, not other''))"
    by (simp add: check_ownership_def owned_lookups)
  then show ?thesis
    by (simp add: apply_request_tx_def delete_message_def sample_slot_codec_def blank_payload_def value_str_def
        non_empty_def apply_ack_def apply_delete_def resolved_timer_id_def or_opt_def)
qed

lemma execute_denied:
  "\<exists>q w1. execute_request sample_env sample_slot_codec (delete_message ''other'') SlotDelete ''r1'' ''0001'' 8 owned_world =
     Some (Inr q, w1)"
  by (simp add: execute_request_def owned_lookups delete_denied case_prod_unfold Let_def slot_execute_once_def
      insert_slot_request_tx_def ledger_row_def bindE_def)

theorem foreign_timer_untouched_witness:
  "\<exists>q w1. execute_request sample_env sample_slot_codec (delete_message ''other'') SlotDelete ''r1'' ''0001'' 8 owned_world =
       Some (Inr q, w1) \<and> get_timer (db w1) 3 = Some sample_timer"
proof -
  obtain q w1 where e: "execute_request sample_env sample_slot_codec (delete_message ''other'') SlotDelete ''r1'' ''0001'' 8
      owned_world = Some (Inr q, w1)" using execute_denied by blast
  have "sp_app_name p \<noteq> Some ''app''" if "message_payload sample_slot_codec (delete_message ''other'') = Some p" for p
    using that by (auto simp: delete_message_payload)
  from foreign_timer_untouched [OF e owned_lookups(1,2) this] e show ?thesis by blast
qed

theorem request_takes_effect_once_witness:
  "\<exists>q w1. execute_request sample_env sample_slot_codec (delete_message ''other'') SlotDelete ''r1'' ''0001'' 8 owned_world =
       Some (Inr q, w1) \<and>
     execute_request sample_env sample_slot_codec (delete_message ''app'') SlotDelete ''r1'' ''0001'' 8 w1 = Some (Inr q, w1)"
proof -
  obtain q w1 where e: "execute_request sample_env sample_slot_codec (delete_message ''other'') SlotDelete ''r1'' ''0001'' 8
      owned_world = Some (Inr q, w1)" using execute_denied by blast
  from request_takes_effect_once [OF e] e show ?thesis by blast
qed

section \<open>Slot ids\<close>

lemma digit_value_of: "d < 10 \<Longrightarrow> digit_value (char_of (48 + d)) = Some d"
  by (simp add: digit_value_def)

lemma digits_append: "digits_from a (xs @ ys) = Option.bind (digits_from a xs) (\<lambda>b. digits_from b ys)"
  by (induction xs arbitrary: a) (auto split: option.split)

lemma digits_zeros: "digits_from 0 (replicate k (CHR ''0'') @ s) = digits_from 0 s"
proof (induction k)
  case (Suc k)
  have "digit_value (CHR ''0'') = Some 0" by (simp add: digit_value_def)
  then show ?case using Suc by simp
qed simp

lemma digits_decimal: "n \<le> u32_max \<Longrightarrow> digits_from 0 (Event_Record.decimal n) = Some n"
proof (induction n rule: Event_Record.decimal.induct)
  case (1 n)
  show ?case
  proof (cases "n < 10")
    case True
    then show ?thesis using 1(2) by (simp add: Event_Record.decimal.simps [of n] digit_value_of)
  next
    case False
    then have "digits_from 0 (Event_Record.decimal (n div 10)) = Some (n div 10)" using 1 by simp
    moreover have "n div 10 * 10 + n mod 10 = n" by simp
    ultimately show ?thesis
      using False 1(2) by (simp add: Event_Record.decimal.simps [of n] digits_append digit_value_of del: div_mult_mod_eq)
  qed
qed

lemma decimal_digits: "c \<in> set (Event_Record.decimal n) \<Longrightarrow> digit_value c \<noteq> None"
proof (induction n rule: Event_Record.decimal.induct)
  case (1 n)
  show ?case
  proof (cases "n < 10")
    case True
    then show ?thesis using 1(2) by (simp add: Event_Record.decimal.simps [of n] digit_value_of)
  next
    case False
    have "digit_value (char_of (48 + n mod 10)) \<noteq> None" using digit_value_of [of "n mod 10"] by simp
    then show ?thesis using 1 False by (auto simp: Event_Record.decimal.simps [of n])
  qed
qed

lemma decimal_nonempty: "Event_Record.decimal n \<noteq> []"
  by (subst Event_Record.decimal.simps) simp

lemma pad4_digits: "c \<in> set (pad4 n) \<Longrightarrow> digit_value c \<noteq> None" "pad4 n \<noteq> []"
proof -
  have "digit_value (CHR ''0'') \<noteq> None" by (simp add: digit_value_def)
  then show "c \<in> set (pad4 n) \<Longrightarrow> digit_value c \<noteq> None"
    by (auto simp: pad4_def Let_def dest: decimal_digits)
  show "pad4 n \<noteq> []" by (simp add: pad4_def Let_def decimal_nonempty)
qed

lemma parse_pad4: "n \<le> u32_max \<Longrightarrow> parse_u32 (pad4 n) = Some n"
proof -
  assume n: "n \<le> u32_max"
  obtain c cs where p: "pad4 n = c # cs" using pad4_digits(2) by (cases "pad4 n") auto
  have "c \<noteq> CHR ''+''" using pad4_digits(1) [of c n] by (auto simp: p digit_value_def)
  moreover have "digits_from 0 (pad4 n) = Some n" using n by (simp add: pad4_def Let_def digits_zeros digits_decimal)
  ultimately show ?thesis by (simp add: parse_u32_def p del: digits_from.simps)
qed

lemma slot_name_end:
  "strip_suffix (slot_file_name (pad4 n)) ''.json'' = Some (''slot-'' @ pad4 n)"
  "\<not> ends_with (slot_file_name (pad4 n)) ''.err.json''"
  "\<not> starts_with (slot_file_name (pad4 n)) ''.''"
  "strip_suffix (slot_file_name (pad4 n)) ''.err.json'' = None"
proof -
  show "strip_suffix (slot_file_name (pad4 n)) ''.json'' = Some (''slot-'' @ pad4 n)"
    by (simp add: strip_suffix_def slot_file_name_def ends_with_def starts_with_def)
  obtain c cs where r: "rev (pad4 n) = c # cs" using pad4_digits(2) [of n] by (cases "rev (pad4 n)") auto
  have "c \<in> set (pad4 n)" using r by (metis list.set_intros(1) set_rev)
  then have "c \<noteq> CHR ''r''" using pad4_digits(1) [of c n] by (auto simp: digit_value_def)
  then show e: "\<not> ends_with (slot_file_name (pad4 n)) ''.err.json''"
    by (simp add: slot_file_name_def ends_with_def starts_with_def r)
  show "\<not> starts_with (slot_file_name (pad4 n)) ''.''" by (simp add: slot_file_name_def starts_with_def)
  show "strip_suffix (slot_file_name (pad4 n)) ''.err.json'' = None" using e by (simp add: strip_suffix_def)
qed

lemma parsed_slot_name: "n \<le> u32_max \<Longrightarrow> parse_slot_id_from_name (slot_file_name (pad4 n)) = Some n"
  using slot_name_end [of n] parse_pad4 [of n]
  by (simp add: parse_slot_id_from_name_def or_opt_def strip_start_def starts_with_def)

lemma contains_not: "x \<notin> set s \<Longrightarrow> \<not> contains s (x # xs)"
  by (induction s) (auto simp: starts_with_def)

lemma pad4_grammar: "validate_slot_id_grammar (pad4 n) = Inr ()"
proof -
  have g: "ascii_alphanumeric c" "c \<noteq> CHR ''/''" "c \<noteq> CHR ''.''" "c \<noteq> char_of (92 :: nat)" "c \<noteq> char_of (0 :: nat)"
    if "c \<in> set (pad4 n)" for c
    using pad4_digits(1) [OF that] by (auto simp: digit_value_def ascii_alphanumeric_def Let_def)
  have "\<not> contains (pad4 n) ''/''" by (rule contains_not) (use g(2) in blast)
  moreover have "\<not> contains (pad4 n) ''..''" by (rule contains_not) (use g(3) in blast)
  moreover have "\<not> contains (pad4 n) [char_of (92 :: nat)]" by (rule contains_not) (use g(4) in blast)
  moreover have "\<not> contains (pad4 n) [char_of (0 :: nat)]" by (rule contains_not) (use g(5) in blast)
  moreover have "\<forall>c\<in>set (pad4 n). ascii_alphanumeric c \<or> c = CHR ''_'' \<or> c = CHR ''-''" using g(1) by blast
  ultimately show ?thesis using pad4_digits(2) by (simp add: validate_slot_id_grammar_def)
qed

text \<open>C34: the id a stub's file name carries is read back from the name, for every 32-bit id.\<close>

theorem slot_id_roundtrip:
  assumes "n \<le> u32_max"
  shows "parse_slot_id_from_name (slot_file_name (pad4 n)) = Some n \<and>
    reserved_slot_id (slot_file_name (pad4 n)) = Inr (pad4 n)"
  using parsed_slot_name [OF assms] slot_name_end [of n] pad4_grammar [of n]
  by (simp add: reserved_slot_id_def strip_start_def starts_with_def bindE_def)

theorem slot_id_roundtrip_witness: "parse_slot_id_from_name (slot_file_name (pad4 42)) = Some 42"
  using slot_id_roundtrip [of 42] by simp

section \<open>Free stubs never run out\<close>

definition stub_texts_ok :: "slot_codec \<Rightarrow> bool" where
  "stub_texts_ok Q \<longleftrightarrow> (\<forall>n\<le>u32_max. let m = free_stub (pad4 n) in
     request_of Q (request_text Q m) = Some m \<and> length (request_text Q m) \<le> DEFAULT_MAX_READ_BYTES)"

definition quiet_slots :: "slot_faults \<Rightarrow> bool" where
  "quiet_slots F \<longleftrightarrow> (\<forall>p. \<not> slot_write_fails F p \<and> \<not> slot_read_fails F p) \<and> (\<forall>d. \<not> slot_list_fails F d)"

abbreviation stub_path :: "nat \<Rightarrow> slot_dir \<times> string" where "stub_path i \<equiv> (FreeDir, slot_file_name (pad4 i))"

lemma stub_path_inj: "i \<le> u32_max \<Longrightarrow> j \<le> u32_max \<Longrightarrow> stub_path i = stub_path j \<longleftrightarrow> i = j"
proof -
  assume a: "i \<le> u32_max" "j \<le> u32_max"
  have "i = j" if "slot_file_name (pad4 i) = slot_file_name (pad4 j)"
  proof -
    have "Some i = parse_slot_id_from_name (slot_file_name (pad4 j))"
      using parsed_slot_name [OF a(1)] unfolding that by simp
    then show ?thesis using parsed_slot_name [OF a(2)] by simp
  qed
  then show ?thesis by auto
qed

lemma entry_put_at: "entry_at (entry_put p e w) q = (if q = p then Some e else entry_at w q)"
  by (simp add: entry_at_def entry_put_def)

definition stub_file :: "slot_codec \<Rightarrow> instant \<Rightarrow> nat \<Rightarrow> slot_entry" where
  "stub_file Q now i = Plain (request_text Q (free_stub (pad4 i))) now"

lemma replenish_loop_runs:
  assumes "quiet_slots F" "i + k \<le> u32_max" "\<And>j. i \<le> j \<Longrightarrow> j < i + k \<Longrightarrow> entry_at w (stub_path j) = None"
  shows "\<exists>w1. replenish_loop Q F now k i c w = Some (Inr (c + k), w1) \<and>
    (\<forall>j. i \<le> j \<longrightarrow> j < i + k \<longrightarrow> entry_at w1 (stub_path j) = Some (stub_file Q now j)) \<and>
    (\<forall>p. (\<forall>j. i \<le> j \<longrightarrow> j < i + k \<longrightarrow> p \<noteq> stub_path j) \<longrightarrow> entry_at w1 p = entry_at w p)"
  using assms
proof (induction k arbitrary: i c w)
  case 0
  show ?case by (subst replenish_loop.simps) auto
next
  case (Suc k)
  let ?w = "entry_put (stub_path i) (stub_file Q now i) w"
  have new: "entry_at w (stub_path i) = None" using Suc.prems(3) [of i] by simp
  then have cr: "create_stub Q F now i w = (Inr True, ?w)"
    using Suc.prems(1) by (simp add: create_stub_def create_new_def quiet_slots_def stub_file_def)
  have ne: "stub_path j \<noteq> stub_path i" if "Suc i \<le> j" "j < Suc i + k" for j
    using stub_path_inj [of j i] that Suc.prems(2) by simp
  have free: "entry_at ?w (stub_path j) = None" if "Suc i \<le> j" "j < Suc i + k" for j
    using Suc.prems(3) [of j] ne [OF that] that by (simp add: entry_put_at)
  obtain w1 where w1: "replenish_loop Q F now k (Suc i) (c + 1) ?w = Some (Inr (c + 1 + k), w1)"
    "\<forall>j. Suc i \<le> j \<longrightarrow> j < Suc i + k \<longrightarrow> entry_at w1 (stub_path j) = Some (stub_file Q now j)"
    "\<forall>p. (\<forall>j. Suc i \<le> j \<longrightarrow> j < Suc i + k \<longrightarrow> p \<noteq> stub_path j) \<longrightarrow> entry_at w1 p = entry_at ?w p"
    using Suc.IH [OF Suc.prems(1), of "Suc i" ?w "c + 1"] free Suc.prems(2) by auto
  have run: "replenish_loop Q F now (Suc k) i c w = Some (Inr (c + Suc k), w1)"
    using w1(1) cr Suc.prems(2) by (subst replenish_loop.simps) (simp add: sat_succ_def)
  have at_i: "entry_at w1 (stub_path i) = Some (stub_file Q now i)"
    using spec [OF w1(3), of "stub_path i"] ne by (metis entry_put_at)
  have "entry_at w1 (stub_path j) = Some (stub_file Q now j)" if "i \<le> j" "j < i + Suc k" for j
    using w1(2) at_i that by (cases "j = i") auto
  moreover have "entry_at w1 p = entry_at w p" if "\<forall>j. i \<le> j \<longrightarrow> j < i + Suc k \<longrightarrow> p \<noteq> stub_path j" for p
  proof -
    have "p \<noteq> stub_path i" "\<forall>j. Suc i \<le> j \<longrightarrow> j < Suc i + k \<longrightarrow> p \<noteq> stub_path j" using that by auto
    then show ?thesis using w1(3) by (metis entry_put_at)
  qed
  ultimately show ?case using run by blast
qed

text \<open>A name that is taken at the largest id is tried for ever.\<close>

lemma replenish_loop_stuck:
  assumes "entry_at w (stub_path u32_max) \<noteq> None" "\<not> slot_write_fails F (stub_path u32_max)" "0 < k"
  shows "replenish_loop Q F now k u32_max c w = None"
proof -
  have stuck: "k' = 0 \<or> i' \<noteq> u32_max \<or> entry_at w' (stub_path u32_max) = None \<or> slot_write_fails F' (stub_path u32_max)"
    if "replenish_loop Q' F' now' k' i' c' w' = Some y" for Q' F' now' k' i' c' w' y
  proof (rule replenish_loop.raw_induct [where P = "\<lambda>Q F now k i c w y. k = 0 \<or> i \<noteq> u32_max \<or>
      entry_at w (stub_path u32_max) = None \<or> slot_write_fails F (stub_path u32_max)", OF _ that], rule ccontr)
    fix loop and Q :: slot_codec and G :: slot_faults and n :: instant and k i c w y
    assume step: "\<And>Q F now k i c w y. loop Q F now k i c w = Some y \<Longrightarrow>
        k = 0 \<or> i \<noteq> u32_max \<or> entry_at w (stub_path u32_max) = None \<or> slot_write_fails F (stub_path u32_max)"
      and run: "(if k = 0 then Some (Inr c, w)
        else case create_stub Q G n i w of
          (Inl e, w1) \<Rightarrow> Some (Inl e, w1)
        | (Inr made, w1) \<Rightarrow>
            if made then loop Q G n (k - 1) (sat_succ u32_max i) (c + 1) w1
            else loop Q G n k (sat_succ u32_max i) c w1) = Some y"
      and neg: "\<not> (k = 0 \<or> i \<noteq> u32_max \<or> entry_at w (stub_path u32_max) = None \<or> slot_write_fails G (stub_path u32_max))"
    then have "create_stub Q G n i w = (Inr False, w)" by (simp add: create_stub_def create_new_def)
    then have "loop Q G n k i c w = Some y" using run neg by (simp add: sat_succ_def)
    then show False using step neg by blast
  qed
  show ?thesis
  proof (cases "replenish_loop Q F now k u32_max c w")
    case (Some y)
    then show ?thesis using stuck [OF Some] assms by simp
  qed
qed

lemma hm_get_map_of: "hm_get k m = map_of m k"
  by (induction m) (auto simp: hm_get_def row_get_def)

lemma map_filter_set: "y \<in> set (List.map_filter f xs) \<longleftrightarrow> (\<exists>x\<in>set xs. f x = Some y)"
  by (induction xs) (auto simp: List.map_filter_def)

lemma entry_at_names: "n \<in> set (names_of_dir d w) \<longleftrightarrow> entry_at w (d, n) \<noteq> None"
proof -
  have "n \<in> snd ` fst ` {x \<in> set fs. fst (fst x) = d} \<longleftrightarrow> map_of fs (d, n) \<noteq> None"
    for fs :: "((slot_dir \<times> string) \<times> slot_entry) list"
    by (induction fs) (auto simp: image_iff)
  then show ?thesis
    by (simp add: names_of_dir_def entry_at_def hm_get_map_of image_comp case_prod_unfold comp_def)
qed

lemma names_distinct: "distinct (map fst (slot_files w)) \<Longrightarrow> distinct (names_of_dir d w)"
proof -
  have "distinct (map fst fs) \<Longrightarrow> distinct (map (snd \<circ> fst) (filter (\<lambda>((d', n), e). d' = d) fs))"
    for fs :: "((slot_dir \<times> string) \<times> slot_entry) list"
    by (induction fs) (auto simp: image_iff)
  then show "distinct (map fst (slot_files w)) \<Longrightarrow> ?thesis" by (simp add: names_of_dir_def)
qed

lemma unclaimed_stub: "unclaimed_name (slot_file_name i) = slot_file_name i"
  by (simp add: unclaimed_name_def strip_start_def slot_file_name_def starts_with_def)

lemma slot_ids_stub: "j \<le> u32_max \<Longrightarrow> entry_at w (stub_path j) \<noteq> None \<Longrightarrow> j \<in> set (slot_ids w)"
proof -
  assume j: "j \<le> u32_max" and e: "entry_at w (stub_path j) \<noteq> None"
  then obtain x where "(stub_path j, x) \<in> set (slot_files w)"
    by (auto simp: entry_at_def hm_get_map_of dest: map_of_SomeD)
  then show ?thesis
    by (force simp: slot_ids_def map_filter_set unclaimed_stub parsed_slot_name [OF j])
qed

lemma digits_bound: "digits_from a s = Some n \<Longrightarrow> a \<le> u32_max \<Longrightarrow> n \<le> u32_max"
  by (induction s arbitrary: a) (auto split: option.splits if_splits)

lemma slot_ids_bound: "j \<in> set (slot_ids w) \<Longrightarrow> j \<le> u32_max"
  by (auto simp: slot_ids_def map_filter_set parse_slot_id_from_name_def parse_u32_def bind_eq_Some_conv Let_def
      split: if_splits dest: digits_bound)

lemma fold_max_ge: "a \<le> fold max xs a" "x \<in> set xs \<Longrightarrow> x \<le> fold max xs (a :: nat)"
proof (induction xs arbitrary: a)
  case (Cons y ys)
  { case 1 then show ?case using Cons(1) [of "max y a"] by simp
  next case 2 then show ?case using Cons(1) [of "max y a"] Cons(2) by auto }
qed simp_all

lemma fold_max_le: "a \<le> b \<Longrightarrow> (\<And>x. x \<in> set xs \<Longrightarrow> x \<le> b) \<Longrightarrow> fold max xs a \<le> (b :: nat)"
  by (induction xs arbitrary: a) auto

lemma stub_listed:
  assumes "stub_texts_ok Q" "quiet_slots F" "j \<le> u32_max" "entry_at w (stub_path j) = Some (stub_file Q now j)"
  shows "is_stub_file Q F w (slot_file_name (pad4 j))"
  using assms
  by (auto simp: is_stub_file_def slot_read_capped_def stub_file_def stub_texts_ok_def Let_def quiet_slots_def
      is_free_stub_def free_stub_def)

lemma stub_file_same: "entry_at w1 (FreeDir, n) = entry_at w (FreeDir, n) \<Longrightarrow> is_stub_file Q F w1 n = is_stub_file Q F w n"
  by (auto simp: is_stub_file_def slot_read_capped_def split: option.split slot_entry.split)

text \<open>The stubs a listing finds.\<close>

definition stub_names :: "slot_codec \<Rightarrow> slot_faults \<Rightarrow> 'z slots_scheme \<Rightarrow> string list" where
  "stub_names Q F w = filter (is_stub_file Q F w) (sort (filter is_json_name (names_of_dir FreeDir w)))"

lemma list_free_stubs_ok: "\<not> slot_list_fails F FreeDir \<Longrightarrow> list_free_stubs Q F w = (Inr (stub_names Q F w), w)"
  by (simp add: list_free_stubs_def bindS_def list_json_files_def stub_names_def)

lemma stub_is_json: "is_json_name (slot_file_name (pad4 j))"
  using slot_name_end [of j] by (simp add: is_json_name_def strip_suffix_def split: if_splits)

lemma replenish_ok:
  assumes "\<forall>d. \<not> slot_list_fails F d"
  shows "replenish Q F now k w =
    replenish_loop Q F now (k - length (stub_names Q F w)) (max 1 (sat_succ u32_max (fold max (slot_ids w) 0))) 0 w"
  using assms by (simp add: replenish_def list_free_stubs_ok next_slot_id_def)

text \<open>C32: after a replenishment at least \<open>min_free\<close> free stubs are there, and no file that was there has
  changed, as long as the ids do not run out and the file system works.\<close>

theorem replenish_keeps_floor:
  assumes "quiet_slots F" "stub_texts_ok Q" "distinct (map fst (slot_files w))"
    and "\<And>j. j \<in> set (slot_ids w) \<Longrightarrow> j + k < u32_max" "k < u32_max"
  shows "\<exists>n w1. replenish Q F now k w = Some (Inr n, w1) \<and>
    k \<le> length (stub_names Q F w1) \<and> (\<forall>p e. entry_at w p = Some e \<longrightarrow> entry_at w1 p = Some e)"
proof -
  define stubs where "stubs = stub_names Q F w"
  define i where "i = max 1 (sat_succ u32_max (fold max (slot_ids w) 0))"
  define m where "m = k - length stubs"
  have top: "fold max (slot_ids w) 0 < u32_max - k"
    using fold_max_le [of 0 "u32_max - k - 1" "slot_ids w"] assms(4,5) by fastforce
  then have i: "i = Suc (fold max (slot_ids w) 0)" "i + m \<le> u32_max" by (auto simp: i_def m_def sat_succ_def)
  have new: "entry_at w (stub_path j) = None" if "i \<le> j" "j < i + m" for j
    using slot_ids_stub [of j w] fold_max_ge(2) [of j "slot_ids w" 0] that i by force
  obtain w1 where w1: "replenish_loop Q F now m i 0 w = Some (Inr m, w1)"
    "\<And>j. i \<le> j \<Longrightarrow> j < i + m \<Longrightarrow> entry_at w1 (stub_path j) = Some (stub_file Q now j)"
    "\<And>p. (\<And>j. i \<le> j \<Longrightarrow> j < i + m \<Longrightarrow> p \<noteq> stub_path j) \<Longrightarrow> entry_at w1 p = entry_at w p"
    using replenish_loop_runs [OF assms(1) i(2) new, of Q now 0] by auto
  have kept: "entry_at w1 p = Some e" if "entry_at w p = Some e" for p e
    using w1(3) [of p] new that by (metis option.distinct(1))
  let ?fresh = "(\<lambda>j. slot_file_name (pad4 j)) ` {i..<i + m}"
  have old: "set stubs \<subseteq> set (stub_names Q F w1)"
  proof
    fix n assume "n \<in> set stubs"
    then have n: "is_stub_file Q F w n" "is_json_name n" "entry_at w (FreeDir, n) \<noteq> None"
      by (auto simp: stubs_def stub_names_def entry_at_names)
    then have "entry_at w1 (FreeDir, n) = entry_at w (FreeDir, n)" using kept by fastforce
    then show "n \<in> set (stub_names Q F w1)" using n stub_file_same [of w1 n w Q F]
      by (simp add: stub_names_def entry_at_names)
  qed
  have fresh: "?fresh \<subseteq> set (stub_names Q F w1)"
    using stub_listed [OF assms(2,1), of _ w1 now] w1(2) i(2)
    by (auto simp: stub_names_def entry_at_names stub_is_json)
  have disj: "set stubs \<inter> ?fresh = {}" using new by (auto simp: stubs_def stub_names_def entry_at_names)
  have "inj_on (\<lambda>j. slot_file_name (pad4 j)) {i..<i + m}"
    using stub_path_inj i(2) by (auto simp: inj_on_def)
  then have "card ?fresh = m" by (simp add: card_image)
  moreover have "card (set stubs) = length stubs"
    using names_distinct [OF assms(3)] by (simp add: stubs_def stub_names_def distinct_card del: set_filter)
  ultimately have "card (set stubs \<union> ?fresh) = length stubs + m" using disj by (simp add: card_Un_disjoint)
  moreover have "card (set stubs \<union> ?fresh) \<le> length (stub_names Q F w1)"
    using old fresh by (meson Un_least card_length card_mono finite_set order.trans)
  ultimately have "k \<le> length (stub_names Q F w1)" by (simp add: m_def)
  then show ?thesis using w1(1) kept assms(1)
    by (auto simp: replenish_ok quiet_slots_def i_def m_def stubs_def)
qed

lemma decimal_length: "n < 10 ^ k \<Longrightarrow> 0 < k \<Longrightarrow> length (Event_Record.decimal n) \<le> k"
proof (induction k arbitrary: n)
  case (Suc k)
  show ?case
  proof (cases "n < 10")
    case False
    then have "0 < k" using Suc.prems(1) by (cases k) auto
    moreover have "n div 10 < 10 ^ k" using Suc.prems(1) by (simp add: less_mult_imp_div_less)
    ultimately show ?thesis using Suc.IH [of "n div 10"] False by (simp add: Event_Record.decimal.simps [of n])
  qed (simp add: Event_Record.decimal.simps [of n])
qed simp

lemma sample_stubs_ok: "stub_texts_ok sample_slot_codec"
proof -
  have "length (pad4 n) \<le> DEFAULT_MAX_READ_BYTES" if "n \<le> u32_max" for n
    using decimal_length [of n 10] that by (simp add: pad4_def Let_def DEFAULT_MAX_READ_BYTES_def)
  then show ?thesis by (simp add: stub_texts_ok_def sample_slot_codec_def free_stub_def)
qed

definition no_slot_faults :: slot_faults where
  "no_slot_faults = \<lparr> slot_list_fails = (\<lambda>_. False), slot_read_fails = (\<lambda>_. False), slot_write_fails = (\<lambda>_. False),
     slot_rename_fails = (\<lambda>_. False), slot_remove_fails = (\<lambda>_. False), claim_lock_free = (\<lambda>_. Some True) \<rparr>"

definition sample_slots :: "((slot_dir \<times> string) \<times> slot_entry) list \<Rightarrow> slots" where
  "sample_slots fs = \<lparr> db = empty_store, draws = 0, book = [], armed_hints = [], anchors = [], files = [],
     folders = [], slot_files = fs \<rparr>"

theorem replenish_keeps_floor_witness:
  "\<exists>n w1. replenish sample_slot_codec no_slot_faults 0 5 (sample_slots []) = Some (Inr n, w1) \<and>
     5 \<le> length (stub_names sample_slot_codec no_slot_faults w1)"
proof -
  have "quiet_slots no_slot_faults" by (simp add: quiet_slots_def no_slot_faults_def)
  moreover have "slot_ids (sample_slots []) = []" by (simp add: slot_ids_def sample_slots_def List.map_filter_def)
  ultimately show ?thesis
    using replenish_keeps_floor [OF _ sample_stubs_ok, of no_slot_faults "sample_slots []" 5 0]
    by (auto simp: sample_slots_def)
qed

text \<open>C33: a file that takes the largest slot id stops replenishment for good: the search for a new name
  never ends, whatever the file holds.\<close>

theorem replenish_never_returns:
  assumes "entry_at w (stub_path u32_max) \<noteq> None" "\<forall>d. \<not> slot_list_fails F d"
    and "\<not> slot_write_fails F (stub_path u32_max)" "length (stub_names Q F w) < k"
  shows "replenish Q F now k w = None"
proof -
  have "u32_max \<in> set (slot_ids w)" using slot_ids_stub assms(1) by blast
  then have "fold max (slot_ids w) 0 = u32_max"
    using fold_max_ge(2) [of u32_max "slot_ids w" 0] fold_max_le [of 0 u32_max "slot_ids w"] slot_ids_bound
    by (meson antisym zero_le)
  then show ?thesis
    using replenish_loop_stuck [OF assms(1,3), of "k - length (stub_names Q F w)"] assms(4)
    by (simp add: replenish_ok [OF assms(2)] sat_succ_def)
qed

theorem replenish_never_returns_witness:
  "replenish sample_slot_codec no_slot_faults 0 5 (sample_slots [(stub_path u32_max, Plain ''x'' 0)]) = None"
proof (rule replenish_never_returns)
  let ?w = "sample_slots [(stub_path u32_max, Plain ''x'' 0)]"
  show "entry_at ?w (stub_path u32_max) \<noteq> None" by (simp add: entry_at_def hm_get_map_of sample_slots_def)
  have "length (names_of_dir FreeDir ?w) \<le> 1" by (simp add: names_of_dir_def sample_slots_def)
  moreover have "length (stub_names sample_slot_codec no_slot_faults ?w) \<le> length (names_of_dir FreeDir ?w)"
    unfolding stub_names_def by (rule order.trans [OF length_filter_le]) simp
  ultimately show "length (stub_names sample_slot_codec no_slot_faults ?w) < 5" by linarith
qed (simp_all add: no_slot_faults_def)

section \<open>Publishing\<close>

lemma create_stub_keeps: "entry_at w p = Some e \<Longrightarrow> entry_at (snd (create_stub Q F now i w)) p = Some e"
  by (auto simp: create_stub_def create_new_def entry_put_at)

lemma replenish_loop_keeps:
  assumes "replenish_loop Q F now k i c w = Some y" "entry_at w p = Some e"
  shows "entry_at (snd y) p = Some e"
proof -
  have "entry_at w p = Some e \<longrightarrow> entry_at (snd y) p = Some e"
  proof (rule replenish_loop.raw_induct [where P = "\<lambda>Q F now k i c w y. entry_at w p = Some e \<longrightarrow>
      entry_at (snd y) p = Some e", OF _ assms(1)], rule impI)
    fix loop and Q :: slot_codec and G :: slot_faults and n :: instant and k i c w y
    assume step: "\<And>Q F now k i c w y. loop Q F now k i c w = Some y \<Longrightarrow>
        entry_at w p = Some e \<longrightarrow> entry_at (snd y) p = Some e"
      and run: "(if k = 0 then Some (Inr c, w)
        else case create_stub Q G n i w of
          (Inl e, w1) \<Rightarrow> Some (Inl e, w1)
        | (Inr made, w1) \<Rightarrow>
            if made then loop Q G n (k - 1) (sat_succ u32_max i) (c + 1) w1
            else loop Q G n k (sat_succ u32_max i) c w1) = Some y"
      and there: "entry_at w p = Some e"
    obtain r w1 where cr: "create_stub Q G n i w = (r, w1)" by (cases "create_stub Q G n i w")
    then have "entry_at w1 p = Some e" using create_stub_keeps [OF there, of Q G n i] by simp
    then show "entry_at (snd y) p = Some e"
      using run cr there step by (auto split: if_splits sum.splits)
  qed
  then show ?thesis using assms(2) by blast
qed

lemma replenish_keeps:
  assumes "replenish Q F now k w = Some (r, w1)" "entry_at w p = Some e"
  shows "entry_at w1 p = Some e"
  using assms replenish_loop_keeps [of Q F now _ _ _ w "(r, w1)" p e]
  by (auto simp: replenish_def list_free_stubs_def bindS_def list_json_files_def next_slot_id_def split: if_splits)

text \<open>A file that is not a stub, nor some producer's claim.\<close>

definition bystander :: "slot_codec \<Rightarrow> slot_faults \<Rightarrow> nat \<Rightarrow> slot_dir \<times> string \<Rightarrow> 'z slots_scheme \<Rightarrow> bool" where
  "bystander Q S cap p w \<longleftrightarrow>
     fst p \<noteq> FreeDir \<or> \<not> starts_with (snd p) ''.claim-'' \<and> stub_in Q S cap (snd p) w = None"

lemma bystander_same: "entry_at w1 p = entry_at w p \<Longrightarrow> bystander Q S cap p w1 = bystander Q S cap p w"
  by (cases p) (auto simp: bystander_def stub_in_def slot_read_capped_def split: option.split slot_entry.split)

lemma bystander_ne:
  "bystander Q S cap p w \<Longrightarrow> stub_in Q S cap n w \<noteq> None \<Longrightarrow> p \<noteq> (FreeDir, n)"
  "bystander Q S cap p w \<Longrightarrow> p \<noteq> (FreeDir, ''.claim-'' @ s)"
  by (auto simp: bystander_def starts_with_def)

lemma entry_move:
  "p \<noteq> a \<Longrightarrow> p \<noteq> b \<Longrightarrow> entry_at (move_entry a b w) p = entry_at w p"
  by (auto simp: move_entry_def entry_put_at entry_del_def split: option.split) (simp_all add: entry_at_def)

lemma pick_stub_spares:
  assumes "pick_stub E Q C S cap ns w = (r, w1)" "bystander Q S cap p w"
  shows "entry_at w1 p = entry_at w p \<and>
    (\<forall>claim i n. r = Inr (claim, i, n) \<longrightarrow> p \<noteq> (FreeDir, n) \<and> p \<noteq> (FreeDir, claim))"
  using assms
proof (induction ns arbitrary: w)
  case (Cons n ns)
  have next_same: "entry_at w1 p = entry_at w p \<and>
      (\<forall>claim i n. r = Inr (claim, i, n) \<longrightarrow> p \<noteq> (FreeDir, n) \<and> p \<noteq> (FreeDir, claim))"
    if "pick_stub E Q C S cap ns w' = (r, w1)" "entry_at w' p = entry_at w p" for w'
    using Cons.IH [OF that(1)] that(2) Cons.prems(2) bystander_same [OF that(2)] by metis
  show ?case
  proof (cases "fst (refuse_symlink (FreeDir, n) w) = Inr () \<and> claim_lock_free S (claim_shard n) = Some True \<and>
      stub_in Q S cap n w \<noteq> None")
    case False
    then show ?thesis
      using Cons.prems(1) next_same [of w] by (auto split: option.splits bool.splits if_splits)
  next
    case True
    then obtain stub where stub: "stub_in Q S cap n w = Some stub" by blast
    define claim where "claim = ''.claim-'' @ uuid_text C (new_uuid E (draws w)) @ ''-'' @ n"
    define wa where "wa = w\<lparr>draws := draws w + 1\<rparr>"
    define wb where "wb = move_entry (FreeDir, n) (FreeDir, claim) wa"
    define wc where "wc = move_entry (FreeDir, claim) (FreeDir, n) wb"
    have ne: "p \<noteq> (FreeDir, n)" "p \<noteq> (FreeDir, claim)"
      using bystander_ne [OF Cons.prems(2)] stub unfolding claim_def by auto
    have wa: "entry_at wa p = entry_at w p" by (simp add: entry_at_def wa_def)
    have wb: "entry_at wb p = entry_at w p" using entry_move [OF ne, of wa] wa by (simp add: wb_def)
    have wc: "entry_at wc p = entry_at w p" using entry_move [OF ne(2,1), of wb] wb by (simp add: wc_def)
    define again where "again \<longleftrightarrow> (case stub_in Q S cap claim wb of None \<Rightarrow> False | Some m \<Rightarrow> m_slot_id m = m_slot_id stub)"
    have "pick_stub E Q C S cap (n # ns) w =
        (if entry_at wa (FreeDir, n) = None \<or> slot_rename_fails S (FreeDir, n) then pick_stub E Q C S cap ns wa
         else if again then (Inr (claim, m_slot_id stub, n), wb)
         else pick_stub E Q C S cap ns (if slot_rename_fails S (FreeDir, claim) then wb else wc))"
      unfolding pick_stub.simps again_def wa_def wb_def wc_def claim_def using True stub by (simp only: Let_def) simp
    then show ?thesis
      using Cons.prems(1) ne next_same [of wa] next_same [of wb] next_same [of wc] wa wb wc by (auto split: if_splits)
  qed
qed auto

text \<open>publishing takes a free stub and nothing else: whatever publish answers, every file of the four
  directories that is neither a free stub nor a producer's own claim is as it was, other
  producers' requests included.\<close>

theorem publish_spares_requests:
  assumes "publish E Q C S G m w = Some (r, w1)" "entry_at w p = Some e"
    and "bystander Q S (sv_max_read_bytes G) p w"
  shows "entry_at w1 p = Some e"
proof (cases "m_operation m = None \<or> slot_list_fails S FreeDir")
  case True
  then show ?thesis using assms(1,2)
    by (auto simp: publish_def case_prod_unfold Let_def bindS_def list_json_files_def completed_request_def entry_at_def split: if_splits)
next
  case False
  define ns where "ns = sort (filter is_json_name (names_of_dir FreeDir w))"
  obtain m1 w0 where c: "completed_request E C m w = (m1, w0)" by (cases "completed_request E C m w")
  then have w0: "w0 = w\<lparr>draws := draws w + 1\<rparr>" by (simp add: completed_request_def Let_def)
  obtain x w2 where pick: "pick_stub E Q C S (sv_max_read_bytes G) ns w0 = (x, w2)"
    by (cases "pick_stub E Q C S (sv_max_read_bytes G) ns w0")
  have same: "entry_at w0 p = entry_at w p" by (simp add: entry_at_def w0)
  note spare = pick_stub_spares [OF pick, of p] assms(3) bystander_same [OF same]
  have l: "list_json_files S FreeDir w0 = (Inr ns, w0)"
    using False by (simp add: list_json_files_def ns_def names_of_dir_def w0)
  have run: "(case x of Inl err \<Rightarrow> ret (Inl err, w2)
    | Inr (claim, i, n) \<Rightarrow>
        let now = utc_now E (draws w2);
            (wr, w3) = slot_atomic_write S now (FreeDir, n) (request_text Q (m1\<lparr>m_slot_id := i\<rparr>)) w2;
            w4 = (if slot_remove_fails S (FreeDir, claim) then w3 else entry_del (FreeDir, claim) w3) in
        case wr of Inl e \<Rightarrow> ret (Inl e, w4)
        | Inr _ \<Rightarrow> do { (r, w5) \<leftarrow> replenish Q S now (sv_min_free G) w4;
                     ret (case r of Inl e \<Rightarrow> Inl e | Inr _ \<Rightarrow> Inr n, w5) }) = Some (r, w1)"
    using assms(1) False by (auto simp add: publish_def c bindS_def l pick)
  show ?thesis
  proof (cases x)
    case (Inl err)
    then show ?thesis using run spare same assms(2) by auto
  next
    case (Inr y)
    obtain claim i n where y: "y = (claim, i, n)" by (cases y)
    obtain wr w3 where wr: "slot_atomic_write S (utc_now E (draws w2)) (FreeDir, n)
        (request_text Q (m1\<lparr>m_slot_id := i\<rparr>)) w2 = (wr, w3)"
      by (cases "slot_atomic_write S (utc_now E (draws w2)) (FreeDir, n) (request_text Q (m1\<lparr>m_slot_id := i\<rparr>)) w2")
    define w4 where "w4 = (if slot_remove_fails S (FreeDir, claim) then w3 else entry_del (FreeDir, claim) w3)"
    have ne: "p \<noteq> (FreeDir, n)" "p \<noteq> (FreeDir, claim)" "entry_at w2 p = Some e"
      using spare Inr y same assms(2) by auto
    have w3: "entry_at w3 p = Some e" using wr ne by (auto simp: slot_atomic_write_def entry_put_at split: if_splits)
    have w4: "entry_at w4 p = Some e" using w3 ne by (simp add: w4_def entry_del_def entry_at_def)
    have run4: "(case wr of Inl e \<Rightarrow> ret (Inl e, w4)
        | Inr _ \<Rightarrow> do { (r, w5) \<leftarrow> replenish Q S (utc_now E (draws w2)) (sv_min_free G) w4;
                     ret (case r of Inl e \<Rightarrow> Inl e | Inr _ \<Rightarrow> Inr n, w5) }) = Some (r, w1)"
      using run unfolding w4_def by (simp add: Inr y wr Let_def)
    show ?thesis
    proof (cases wr)
      case (Inl err)
      then show ?thesis using run4 w4 by simp
    next
      case (Inr u)
      then show ?thesis using run4 replenish_keeps [OF _ w4] by (auto simp: bind_Some)
    qed
  qed
qed

text \<open>Publishing where no stub is left: the answer is \<open>NoFreeSlot\<close>.\<close>

lemma publish_none_left:
  assumes "m_operation m = Some oper" "names_of_dir FreeDir w = []"
  shows "publish E Q C no_slot_faults G m w = Some (Inl NoFreeSlot, snd (completed_request E C m w))"
proof -
  have "names_of_dir FreeDir (snd (completed_request E C m w)) = []"
    using assms(2) by (simp add: completed_request_def Let_def names_of_dir_def)
  then show ?thesis
    using assms(1) by (simp add: publish_def bindS_def list_json_files_def no_slot_faults_def case_prod_unfold Let_def)
qed

theorem publish_spares_requests_witness:
  "\<exists>w1. publish sample_env sample_slot_codec sample_codec no_slot_faults slot_config_default (delete_message ''app'')
       (sample_slots [((WorkDir, ''slot-0001.json''), Plain ''busy'' 0)]) = Some (Inl NoFreeSlot, w1) \<and>
     entry_at w1 (WorkDir, ''slot-0001.json'') = Some (Plain ''busy'' 0)"
proof -
  let ?w = "sample_slots [((WorkDir, ''slot-0001.json''), Plain ''busy'' 0)]"
  have r: "publish sample_env sample_slot_codec sample_codec no_slot_faults slot_config_default (delete_message ''app'') ?w =
      Some (Inl NoFreeSlot, snd (completed_request sample_env sample_codec (delete_message ''app'') ?w))"
    by (rule publish_none_left) (simp_all add: delete_message_def names_of_dir_def sample_slots_def)
  have e: "entry_at ?w (WorkDir, ''slot-0001.json'') = Some (Plain ''busy'' 0)"
    by (simp add: entry_at_def hm_get_map_of sample_slots_def)
  have b: "bystander sample_slot_codec no_slot_faults (sv_max_read_bytes slot_config_default) (WorkDir, ''slot-0001.json'') ?w"
    by (simp add: bystander_def)
  show ?thesis using publish_spares_requests [OF r e b] r by blast
qed

section \<open>What the documents let through\<close>

text \<open>A schema of another major version that starts with the digit one is accepted.\<close>

lemma schema_ten_supported: "schema_supported ((free_stub i)\<lparr>m_schema := ''bellman-slot/10''\<rparr>)"
  by (simp add: schema_supported_def starts_with_def)

text \<open>A day that does not fit a byte is taken modulo 256.\<close>

lemma day_wraps: "so_day (simplified_of [(''day'', VInt 257)] p) = Some 1"
  by (simp add: simplified_of_def or_opt_def value_u64_def as_u8_nat_def)

end
