(* ===== verification/Machine_Wake.thy ===== *)
theory Machine_Wake
  imports Event_Record
begin

text \<open>
  Waking the machine (\<open>platform/wake/mod.rs\<close>, \<open>single_next_wake.rs\<close> and the pure decisions of
  \<open>linux.rs\<close>, \<open>windows_decision.rs\<close>, \<open>macos_decision.rs\<close>): what a platform can do, the sentence
  shown for it, the election of the next wake and the bridge that keeps one wake armed.

  The trait \<open>MachineWake\<close> is a record of operations on the platform's state. Dates are far from
  the ends of chrono's range, where its subtraction would panic.
\<close>

section \<open>Capabilities\<close>

datatype wake_mechanism = LinuxAlarmTimerfd | LinuxWakealarmSysfs | WindowsWaitableTimer | MacPmDaemon

definition mechanism_as_str :: "wake_mechanism \<Rightarrow> string" where
  "mechanism_as_str m = (case m of
     LinuxAlarmTimerfd \<Rightarrow> ''Linux timerfd (CLOCK_REALTIME_ALARM)''
   | LinuxWakealarmSysfs \<Rightarrow> ''Linux sysfs wakealarm''
   | WindowsWaitableTimer \<Rightarrow> ''Windows waitable timer''
   | MacPmDaemon \<Rightarrow> ''macOS power-management daemon'')"

datatype caveat = ModernStandbyScreenOff | AppleSiliconBestEffort | BatteryRailExcluded | HibernateNotGuaranteed

definition caveat_note :: "caveat \<Rightarrow> string" where
  "caveat_note c = (case c of
     ModernStandbyScreenOff \<Rightarrow> ''wake runs screen-off (Modern Standby)''
   | AppleSiliconBestEffort \<Rightarrow> ''Apple Silicon best-effort''
   | BatteryRailExcluded \<Rightarrow> ''battery rail excludes wake timers''
   | HibernateNotGuaranteed \<Rightarrow> ''hibernate not guaranteed'')"

datatype power_rail = RailAc | RailDc

definition rail_as_str :: "power_rail \<Rightarrow> string" where
  "rail_as_str r = (case r of RailAc \<Rightarrow> ''AC'' | RailDc \<Rightarrow> ''battery'')"

datatype disabled_reason =
    UnsupportedOs | NoRtc | RtcNotWakeCapable
  | NoPermission string
  | WakeTimersDisabledByPolicy power_rail nat
  | ResumeTimersUnsupported | HelperNotInstalled | HelperAwaitingApproval
  | ProbeFailed string
  | MasterDisabled

text \<open>The bytes of the characters outside ASCII.\<close>

definition utf8 :: "nat list \<Rightarrow> string" where "utf8 = map char_of"

abbreviation "em_dash \<equiv> utf8 [226, 128, 148]"

definition sentence :: "disabled_reason \<Rightarrow> string" where
  "sentence r = (case r of
     UnsupportedOs \<Rightarrow> ''this OS build does not support machine wake''
   | NoRtc \<Rightarrow> ''no RTC device found''
   | RtcNotWakeCapable \<Rightarrow> ''RTC is present but not wake-capable''
   | NoPermission hint \<Rightarrow> ''no permission to arm a wake timer ('' @ hint @ '')''
   | WakeTimersDisabledByPolicy rail value \<Rightarrow>
       ''wake timers disabled by power policy on '' @ rail_as_str rail @ '' rail (RTCWAKE='' @
       Event_Record.decimal value @ '')''
   | ResumeTimersUnsupported \<Rightarrow> ''this machine does not support resume timers (ERROR_NOT_SUPPORTED)''
   | HelperNotInstalled \<Rightarrow> ''macOS wake helper is not installed '' @ em_dash @ '' enroll from Settings''
   | HelperAwaitingApproval \<Rightarrow> ''macOS wake helper is waiting for Login Items approval''
   | ProbeFailed detail \<Rightarrow> ''wake probe failed: '' @ detail
   | MasterDisabled \<Rightarrow> ''wake from sleep is turned off in Settings'')"

definition fix_hint :: "disabled_reason \<Rightarrow> string option" where
  "fix_hint r = (case r of
     NoPermission _ \<Rightarrow> Some (''timerfd needs CAP_WAKE_ALARM in this process. Options: (1) setcap '' @ utf8 [39] @
       ''cap_wake_alarm+eip'' @ utf8 [39] @ '' on the bellman-app binary, (2) run under a systemd user unit with AmbientCapabilities=CAP_WAKE_ALARM, or (3) install the udev rule below so the sysfs wakealarm fallback is group-writable. Plain XDG desktop autostart does not grant this capability on many desktops.'')
   | WakeTimersDisabledByPolicy _ _ \<Rightarrow> Some ''powercfg /setacvalueindex SCHEME_CURRENT SUB_SLEEP RTCWAKE 1  (and setdcvalueindex for battery), then powercfg /setactive SCHEME_CURRENT''
   | HelperNotInstalled \<Rightarrow> Some (''Enroll the Bellman wake daemon and approve it under System Settings '' @ utf8 [226, 134, 146] @ '' Login Items.'')
   | HelperAwaitingApproval \<Rightarrow> Some (''Enroll the Bellman wake daemon and approve it under System Settings '' @ utf8 [226, 134, 146] @ '' Login Items.'')
   | MasterDisabled \<Rightarrow> Some (''Enable '' @ utf8 [226, 128, 156] @ ''Allow Bellman to wake this machine'' @ utf8 [226, 128, 157] @ '' in Settings.'')
   | _ \<Rightarrow> None)"

definition fix_action :: "disabled_reason \<Rightarrow> string option" where
  "fix_action r = (case r of
     NoPermission _ \<Rightarrow> Some ''linux_udev''
   | WakeTimersDisabledByPolicy _ _ \<Rightarrow> Some ''windows_powercfg''
   | HelperNotInstalled \<Rightarrow> Some ''macos_enroll''
   | HelperAwaitingApproval \<Rightarrow> Some ''macos_login_items''
   | _ \<Rightarrow> None)"

datatype wake_capability = WakeOn wake_mechanism "caveat list" | WakeOff disabled_reason

definition wake_enabled :: "wake_capability \<Rightarrow> bool" where
  "wake_enabled c = (case c of WakeOn _ _ \<Rightarrow> True | WakeOff _ \<Rightarrow> False)"

fun joined :: "string \<Rightarrow> string list \<Rightarrow> string" where
  "joined sep [] = []"
| "joined sep [s] = s"
| "joined sep (s # ss) = s @ sep @ joined sep ss"

definition status_line :: "wake_capability \<Rightarrow> string" where
  "status_line c = (case c of
     WakeOn m caveats \<Rightarrow>
       if caveats = [] then ''Wake from sleep: ON via '' @ mechanism_as_str m
       else ''Wake from sleep: ON via '' @ mechanism_as_str m @ '' ('' @ joined ''; '' (map caveat_note caveats) @ '')''
   | WakeOff reason \<Rightarrow> ''Wake from sleep: OFF '' @ em_dash @ '' '' @ sentence reason)"

datatype wake_error = WakeDisabledError | WakeIo string | WakeUnsupported

definition wake_error_text :: "wake_error \<Rightarrow> string" where
  "wake_error_text e = (case e of
     WakeDisabledError \<Rightarrow> ''wake capability disabled''
   | WakeIo s \<Rightarrow> ''wake io: '' @ s
   | WakeUnsupported \<Rightarrow> ''wake unsupported on this build'')"

datatype power_event = Suspending | Resumed | PowerSourceChanged

section \<open>The platform's operations\<close>

record 'm machine_wake =
  mw_capability :: "'m \<Rightarrow> wake_capability"
  mw_re_probe :: "'m \<Rightarrow> wake_capability \<times> 'm"
  mw_program :: "instant \<Rightarrow> 'm \<Rightarrow> (wake_error + unit) \<times> 'm"
  mw_cancel :: "'m \<Rightarrow> (wake_error + unit) \<times> 'm"
  mw_on_resumed :: "'m \<Rightarrow> 'm"

definition unsupported_wake :: "unit machine_wake" where
  "unsupported_wake = \<lparr> mw_capability = (\<lambda>_. WakeOff UnsupportedOs), mw_re_probe = (\<lambda>m. (WakeOff UnsupportedOs, m)),
     mw_program = (\<lambda>t m. (Inl WakeUnsupported, m)), mw_cancel = (\<lambda>m. (Inr (), m)), mw_on_resumed = (\<lambda>m. m) \<rparr>"

definition ARM_SLACK_SECS :: int where "ARM_SLACK_SECS = 45"

definition arm_instant :: "instant \<Rightarrow> instant \<Rightarrow> instant" where
  "arm_instant wake now =
     (let target = wake - ARM_SLACK_SECS * sec_ns; floor = now + sec_ns in
      if target < floor then floor else target)"

section \<open>The bridge\<close>

record wake_candidate =
  wc_enabled :: bool
  wc_wake_machine :: bool
  wc_next_fire :: "instant option"

definition elect_next_wake :: "wake_candidate list \<Rightarrow> instant option" where
  "elect_next_wake cs =
     (case List.map_filter wc_next_fire (filter (\<lambda>t. wc_enabled t \<and> wc_wake_machine t) cs) of
        [] \<Rightarrow> None
      | t # ts \<Rightarrow> Some (fold min ts t))"

record 'm bridge =
  b_wake :: 'm
  b_master :: bool
  b_last_target :: "instant option"
  b_last_capability :: wake_capability
  b_last_line :: string

definition effective_cap :: "wake_capability \<Rightarrow> bool \<Rightarrow> wake_capability" where
  "effective_cap platform master = (if master then platform else WakeOff MasterDisabled)"

definition bridge_new :: "'m machine_wake \<Rightarrow> 'm \<Rightarrow> bool \<Rightarrow> 'm bridge" where
  "bridge_new M m master = \<lparr> b_wake = m, b_master = master, b_last_target = None,
     b_last_capability = mw_capability M m, b_last_line = status_line (mw_capability M m) \<rparr>"

definition set_master_enabled :: "bool \<Rightarrow> 'm bridge \<Rightarrow> 'm bridge" where
  "set_master_enabled on b = b\<lparr>b_master := on\<rparr>"

definition bridge_capability :: "'m machine_wake \<Rightarrow> 'm bridge \<Rightarrow> wake_capability" where
  "bridge_capability M b = effective_cap (mw_capability M (b_wake b)) (b_master b)"

definition bridge_re_probe :: "'m machine_wake \<Rightarrow> 'm bridge \<Rightarrow> wake_capability \<times> 'm bridge" where
  "bridge_re_probe M b =
     (let (cap, m) = mw_re_probe M (b_wake b) in
      (effective_cap cap (b_master b), b\<lparr>b_wake := m, b_last_capability := cap\<rparr>))"

definition bridge_status_line :: "'m machine_wake \<Rightarrow> 'm bridge \<Rightarrow> string" where
  "bridge_status_line M b = status_line (bridge_capability M b)"

definition take_status_transition :: "'m machine_wake \<Rightarrow> 'm bridge \<Rightarrow> (string \<times> wake_capability) option \<times> 'm bridge" where
  "take_status_transition M b =
     (let eff = bridge_capability M b; line = status_line eff in
      if line \<noteq> b_last_line b then (Some (line, eff), b\<lparr>b_last_line := line, b_last_capability := eff\<rparr>)
      else (None, b))"

definition mark_status_emitted :: "'m machine_wake \<Rightarrow> 'm bridge \<Rightarrow> 'm bridge" where
  "mark_status_emitted M b =
     (let eff = bridge_capability M b in b\<lparr>b_last_line := status_line eff, b_last_capability := eff\<rparr>)"

definition rearm :: "'m machine_wake \<Rightarrow> instant option \<Rightarrow> instant \<Rightarrow> 'm bridge \<Rightarrow> (wake_error + unit) \<times> 'm bridge" where
  "rearm M next_due now b =
     (if \<not> wake_enabled (bridge_capability M b)
      then (Inr (), b\<lparr>b_wake := snd (mw_cancel M (b_wake b)), b_last_target := None\<rparr>)
      else case next_due of
        None \<Rightarrow>
          (case mw_cancel M (b_wake b) of
             (Inl e, m) \<Rightarrow> (Inl e, b\<lparr>b_wake := m\<rparr>)
           | (Inr _, m) \<Rightarrow> (Inr (), b\<lparr>b_wake := m, b_last_target := None\<rparr>))
      | Some due \<Rightarrow>
          let target = arm_instant due now in
          if b_last_target b = Some target then (Inr (), b)
          else case mw_cancel M (b_wake b) of
            (Inl e, m) \<Rightarrow> (Inl e, b\<lparr>b_wake := m\<rparr>)
          | (Inr _, m) \<Rightarrow>
              (case mw_program M target m of
                 (Inr _, m1) \<Rightarrow> (Inr (), b\<lparr>b_wake := m1, b_last_target := Some target\<rparr>)
               | (Inl e, m1) \<Rightarrow>
                   let (cap, m2) = mw_re_probe M m1 in
                   (Inl e, b\<lparr>b_wake := m2, b_last_capability := cap, b_last_target := None\<rparr>)))"

definition rearm_from_candidates ::
  "'m machine_wake \<Rightarrow> wake_candidate list \<Rightarrow> instant \<Rightarrow> 'm bridge \<Rightarrow> (wake_error + unit) \<times> 'm bridge" where
  "rearm_from_candidates M cs now b = rearm M (elect_next_wake cs) now b"

definition bridge_cancel :: "'m machine_wake \<Rightarrow> 'm bridge \<Rightarrow> (wake_error + unit) \<times> 'm bridge" where
  "bridge_cancel M b = (let (r, m) = mw_cancel M (b_wake b) in (r, b\<lparr>b_wake := m, b_last_target := None\<rparr>))"

definition on_power_event ::
  "'m machine_wake \<Rightarrow> power_event \<Rightarrow> wake_candidate list \<Rightarrow> instant \<Rightarrow> 'm bridge \<Rightarrow> 'm bridge" where
  "on_power_event M ev cs now b = (case ev of
     Suspending \<Rightarrow> snd (rearm_from_candidates M cs now b)
   | Resumed \<Rightarrow>
       snd (rearm_from_candidates M cs now
         (b\<lparr>b_wake := snd (mw_re_probe M (mw_on_resumed M (b_wake b)))\<rparr>))
   | PowerSourceChanged \<Rightarrow> snd (rearm_from_candidates M cs now (snd (bridge_re_probe M b))))"

end
