(* ===== verification/Linux_Wake.thy ===== *)
theory Linux_Wake
  imports Machine_Wake
begin

text \<open>
  The Linux wake controller (\<open>platform/wake/linux.rs\<close>): the ordered probe, the alarm timerfd, and
  the cooperative use of the one wake alarm register in sysfs.

  The register holds an epoch second, or nothing. What the kernel answers to the \<open>k\<close>-th call is
  the parameter \<open>linux_os\<close>; the number of the next call is part of the state.
\<close>

record linux_os =
  rtc_exists :: "nat \<Rightarrow> bool"
  wakeup_node :: "nat \<Rightarrow> string option"
  timerfd_errno :: "nat \<Rightarrow> nat option"
  errno_text :: "nat \<Rightarrow> string"
  alarm_writable :: "nat \<Rightarrow> bool"
  alarm_exists :: "nat \<Rightarrow> bool"
  alarm_read_fails :: "nat \<Rightarrow> bool"
  alarm_write_fails :: "nat \<Rightarrow> bool"
  settime_fails :: "nat \<Rightarrow> bool"

record linux_wake =
  lw_capability :: wake_capability
  lw_timerfd :: "instant option option"
  lw_armed_epoch :: "int option"
  lw_displaced :: "int option"
  lw_owned :: bool
  lw_register :: "int option"
  lw_calls :: nat

definition NO_PERM_HINT :: string where
  "NO_PERM_HINT = ''systemd '' @ utf8 [226, 137, 165] @
     ''254 local session / AmbientCapabilities=CAP_WAKE_ALARM / setcap / udev rule''"

text \<open>\<open>EPERM\<close> and \<open>EACCES\<close> are the error kind \<open>PermissionDenied\<close>.\<close>

definition permission_denied :: "nat \<Rightarrow> bool" where
  "permission_denied errno \<longleftrightarrow> errno = 1 \<or> errno = 13"

definition timerfd_capability :: wake_capability where
  "timerfd_capability = WakeOn LinuxAlarmTimerfd [HibernateNotGuaranteed]"

definition sysfs_capability :: wake_capability where
  "sysfs_capability = WakeOn LinuxWakealarmSysfs [HibernateNotGuaranteed]"

text \<open>The capability and, where the timerfd could be created, a fresh one that is not set.\<close>

definition probe_inner :: "linux_os \<Rightarrow> nat \<Rightarrow> wake_capability \<times> instant option option" where
  "probe_inner K k =
     (if \<not> rtc_exists K k then (WakeOff NoRtc, None)
      else if wakeup_node K k \<noteq> None \<and> wakeup_node K k \<noteq> Some ''enabled'' then (WakeOff RtcNotWakeCapable, None)
      else case timerfd_errno K k of
        None \<Rightarrow> (timerfd_capability, Some None)
      | Some errno \<Rightarrow>
          if permission_denied errno
          then (if alarm_writable K k then sysfs_capability else WakeOff (NoPermission NO_PERM_HINT), None)
          else (WakeOff (ProbeFailed (''timerfd_create: '' @ errno_text K errno)), None))"

record linux_facts =
  lf_rtc_present :: bool
  lf_wakeup_enabled :: "bool option"
  lf_timerfd :: "nat option"
  lf_writable :: bool

definition decide_from_facts :: "linux_facts \<Rightarrow> wake_capability" where
  "decide_from_facts f =
     (if \<not> lf_rtc_present f then WakeOff NoRtc
      else if lf_wakeup_enabled f = Some False then WakeOff RtcNotWakeCapable
      else case lf_timerfd f of
        None \<Rightarrow> timerfd_capability
      | Some errno \<Rightarrow>
          if errno = 1 \<or> errno = 13
          then if lf_writable f then sysfs_capability else WakeOff (NoPermission NO_PERM_HINT)
          else WakeOff (ProbeFailed (''timerfd_create errno '' @ Event_Record.decimal errno)))"

definition epoch_secs :: "instant \<Rightarrow> int" where
  "epoch_secs t = t div sec_ns"

definition linux_probe :: "linux_os \<Rightarrow> int option \<Rightarrow> linux_wake" where
  "linux_probe K register = \<lparr> lw_capability = fst (probe_inner K 0), lw_timerfd = snd (probe_inner K 0),
     lw_armed_epoch = None, lw_displaced = None, lw_owned = False, lw_register = register, lw_calls = 1 \<rparr>"

definition linux_re_probe :: "linux_os \<Rightarrow> linux_wake \<Rightarrow> wake_capability \<times> linux_wake" where
  "linux_re_probe K m =
     (let (cap, fd) = probe_inner K (lw_calls m);
          m1 = m\<lparr>lw_calls := lw_calls m + 1, lw_capability := cap\<rparr> in
      (cap,
       case cap of
         WakeOn LinuxAlarmTimerfd _ \<Rightarrow> if lw_timerfd m = None then m1\<lparr>lw_timerfd := fd\<rparr> else m1
       | _ \<Rightarrow> m1\<lparr>lw_timerfd := fd, lw_armed_epoch := None\<rparr>))"

section \<open>The register in sysfs\<close>

record sysfs_plan =
  write_epoch :: "int option"
  displace_foreign :: "int option"
  own_slot :: bool

definition plan_sysfs_program :: "int option \<Rightarrow> int \<Rightarrow> sysfs_plan" where
  "plan_sysfs_program current ours =
     (case current of
        Some foreign \<Rightarrow>
          if 0 < foreign \<and> foreign \<le> ours
          then \<lparr>write_epoch = None, displace_foreign = None, own_slot = False\<rparr>
          else if 0 < foreign \<and> ours < foreign
          then \<lparr>write_epoch = Some ours, displace_foreign = Some foreign, own_slot = True\<rparr>
          else \<lparr>write_epoch = Some ours, displace_foreign = None, own_slot = True\<rparr>
      | None \<Rightarrow> \<lparr>write_epoch = Some ours, displace_foreign = None, own_slot = True\<rparr>)"

definition plan_sysfs_restore :: "bool \<Rightarrow> int option \<Rightarrow> int option" where
  "plan_sysfs_restore owned displaced = (if \<not> owned \<and> displaced = None then None else displaced)"

definition read_wakealarm_epoch :: "linux_os \<Rightarrow> linux_wake \<Rightarrow> (wake_error + int option) \<times> linux_wake" where
  "read_wakealarm_epoch K m =
     (let k = lw_calls m; m1 = m\<lparr>lw_calls := k + 1\<rparr> in
      if \<not> alarm_exists K k then (Inr None, m1)
      else if alarm_read_fails K k then (Inl (WakeIo ''read wakealarm''), m1)
      else (Inr (if lw_register m = Some 0 then None else lw_register m), m1))"

text \<open>First the register is cleared, best effort, then it is set.\<close>

definition write_wakealarm_clear_set :: "linux_os \<Rightarrow> int option \<Rightarrow> linux_wake \<Rightarrow> (wake_error + unit) \<times> linux_wake" where
  "write_wakealarm_clear_set K epoch m =
     (let k = lw_calls m;
          m1 = m\<lparr>lw_calls := k + 1, lw_register := (if alarm_write_fails K k then lw_register m else None)\<rparr> in
      case epoch of
        None \<Rightarrow> (Inr (), m1)
      | Some e \<Rightarrow>
          if alarm_write_fails K (k + 1) then (Inl (WakeIo ''write wakealarm''), m1\<lparr>lw_calls := k + 2\<rparr>)
          else (Inr (), m1\<lparr>lw_calls := k + 2, lw_register := Some e\<rparr>))"

definition program_sysfs :: "linux_os \<Rightarrow> instant \<Rightarrow> linux_wake \<Rightarrow> (wake_error + unit) \<times> linux_wake" where
  "program_sysfs K t m =
     (case read_wakealarm_epoch K m of
        (Inl e, m1) \<Rightarrow> (Inl e, m1)
      | (Inr current, m1) \<Rightarrow>
          let plan = plan_sysfs_program current (epoch_secs t) in
          case (case write_epoch plan of
                  None \<Rightarrow> (Inr (), m1)
                | Some e \<Rightarrow> write_wakealarm_clear_set K (Some e) m1) of
            (Inl e, m2) \<Rightarrow> (Inl e, m2)
          | (Inr _, m2) \<Rightarrow>
              (Inr (), m2\<lparr>lw_armed_epoch := write_epoch plan, lw_owned := own_slot plan,
                 lw_displaced := displace_foreign plan\<rparr>))"

definition cancel_sysfs :: "linux_os \<Rightarrow> linux_wake \<Rightarrow> (wake_error + unit) \<times> linux_wake" where
  "cancel_sysfs K m =
     (if lw_owned m then
        (case write_wakealarm_clear_set K (lw_displaced m) (m\<lparr>lw_displaced := None\<rparr>) of
           (Inl e, m1) \<Rightarrow> (Inl e, m1)
         | (Inr _, m1) \<Rightarrow> (Inr (), m1\<lparr>lw_owned := False, lw_armed_epoch := None\<rparr>))
      else (Inr (), m\<lparr>lw_armed_epoch := None\<rparr>))"

section \<open>The controller\<close>

definition set_timerfd :: "linux_os \<Rightarrow> instant option \<Rightarrow> linux_wake \<Rightarrow> (wake_error + unit) \<times> linux_wake" where
  "set_timerfd K alarm m =
     (if settime_fails K (lw_calls m) then (Inl (WakeIo ''timerfd_settime''), m\<lparr>lw_calls := lw_calls m + 1\<rparr>)
      else (Inr (), m\<lparr>lw_calls := lw_calls m + 1, lw_timerfd := Some alarm\<rparr>))"

definition linux_program :: "linux_os \<Rightarrow> instant \<Rightarrow> linux_wake \<Rightarrow> (wake_error + unit) \<times> linux_wake" where
  "linux_program K t m =
     (case lw_capability m of
        WakeOff _ \<Rightarrow> (Inr (), m)
      | WakeOn LinuxAlarmTimerfd _ \<Rightarrow>
          if lw_timerfd m = None then (Inl (WakeIo ''timerfd missing despite Enabled''), m)
          else (case set_timerfd K (Some t) m of
                  (Inl e, m1) \<Rightarrow> (Inl e, m1)
                | (Inr _, m1) \<Rightarrow> (Inr (), m1\<lparr>lw_armed_epoch := Some (epoch_secs t)\<rparr>))
      | WakeOn LinuxWakealarmSysfs _ \<Rightarrow> program_sysfs K t m
      | WakeOn mech _ \<Rightarrow> (Inl (WakeIo (''linux controller cannot arm via '' @ mechanism_as_str mech)), m))"

definition linux_cancel :: "linux_os \<Rightarrow> linux_wake \<Rightarrow> (wake_error + unit) \<times> linux_wake" where
  "linux_cancel K m =
     (case lw_capability m of
        WakeOn LinuxAlarmTimerfd _ \<Rightarrow>
          (case (if lw_timerfd m = None then (Inr (), m) else set_timerfd K None m) of
             (Inl e, m1) \<Rightarrow> (Inl e, m1)
           | (Inr _, m1) \<Rightarrow> (Inr (), m1\<lparr>lw_armed_epoch := None\<rparr>))
      | WakeOn LinuxWakealarmSysfs _ \<Rightarrow> cancel_sysfs K m
      | _ \<Rightarrow> (Inr (), m\<lparr>lw_armed_epoch := None\<rparr>))"

definition linux_on_resumed :: "linux_os \<Rightarrow> linux_wake \<Rightarrow> linux_wake" where
  "linux_on_resumed K m =
     (if lw_owned m \<or> lw_displaced m \<noteq> None then
        (snd (write_wakealarm_clear_set K (plan_sysfs_restore (lw_owned m) (lw_displaced m)) m))
          \<lparr>lw_displaced := None, lw_owned := False, lw_armed_epoch := None\<rparr>
      else m)"

definition linux_machine :: "linux_os \<Rightarrow> linux_wake machine_wake" where
  "linux_machine K = \<lparr> mw_capability = lw_capability, mw_re_probe = linux_re_probe K,
     mw_program = linux_program K, mw_cancel = linux_cancel K, mw_on_resumed = linux_on_resumed K \<rparr>"

end
