(* ===== verification/Desktop_Wake.thy ===== *)
theory Desktop_Wake
  imports Machine_Wake
begin

text \<open>
  The wake controllers of Windows (\<open>platform/wake/windows.rs\<close>, \<open>windows_decision.rs\<close>) and macOS
  (\<open>macos.rs\<close>, \<open>macos_decision.rs\<close>) with the macOS helper daemon they talk to
  (\<open>helpers/macos-wake-daemon/src/main.rs\<close>).

  What the systems answer to the \<open>k\<close>-th call are the parameters \<open>windows_os\<close> and \<open>mac_os\<close>. An
  exchange with the daemon that fails has not reached it; cancelling a power event does not fail.
\<close>

section \<open>Windows\<close>

record windows_facts =
  wf_ao_ac :: bool
  wf_rtc_wake_ok :: bool
  wf_ac_rtcwake :: nat
  wf_dc_rtcwake :: nat
  wf_ac_line :: nat
  wf_arm_test :: "bool + unit"

definition windows_decide :: "windows_facts \<Rightarrow> wake_capability" where
  "windows_decide f =
     (if \<not> wf_rtc_wake_ok f then WakeOff ResumeTimersUnsupported
      else let (rail, value) = (if wf_ac_line f = 0 then (RailDc, wf_dc_rtcwake f) else (RailAc, wf_ac_rtcwake f)) in
      if value = 0 \<or> value = 2 then WakeOff (WakeTimersDisabledByPolicy rail value)
      else case wf_arm_test f of
        Inl True \<Rightarrow> WakeOff ResumeTimersUnsupported
      | Inl False \<Rightarrow> WakeOff (ProbeFailed ''SetWaitableTimer arm test failed'')
      | Inr _ \<Rightarrow> WakeOn WindowsWaitableTimer
          (HibernateNotGuaranteed # (if wf_ao_ac f then [ModernStandbyScreenOff] else [])))"

record windows_os =
  wo_facts :: "nat \<Rightarrow> windows_facts"
  wo_create_fails :: "nat \<Rightarrow> string option"
  wo_set_fails :: "nat \<Rightarrow> string option"

text \<open>The timer: no handle, or a handle and the due time it is set to.\<close>

record windows_wake =
  ww_capability :: wake_capability
  ww_timer :: "int option option"
  ww_armed :: "instant option"
  ww_hold :: bool
  ww_calls :: nat

text \<open>Ticks of 100 ns since 1601.\<close>

definition utc_to_due_time :: "instant \<Rightarrow> int" where
  "utc_to_due_time t = (t div sec_ns + 11644473600) * 10000000 + (t mod sec_ns) div 100"

definition windows_probe :: "windows_os \<Rightarrow> windows_wake" where
  "windows_probe O1 = \<lparr> ww_capability = windows_decide (wo_facts O1 0), ww_timer = None, ww_armed = None,
     ww_hold = False, ww_calls = 1 \<rparr>"

definition windows_re_probe :: "windows_os \<Rightarrow> windows_wake \<Rightarrow> wake_capability \<times> windows_wake" where
  "windows_re_probe O1 m =
     (let cap = windows_decide (wo_facts O1 (ww_calls m)) in
      (cap, m\<lparr>ww_capability := cap, ww_calls := ww_calls m + 1\<rparr>))"

definition arm_timer :: "windows_os \<Rightarrow> instant \<Rightarrow> windows_wake \<Rightarrow> (wake_error + unit) \<times> windows_wake" where
  "arm_timer O1 t m =
     (let k = ww_calls m; m1 = m\<lparr>ww_calls := k + 1\<rparr> in
      case (if ww_timer m = None then wo_create_fails O1 k else None) of
        Some e \<Rightarrow> (Inl (WakeIo (''CreateWaitableTimerExW: '' @ e)), m1)
      | None \<Rightarrow>
          let m2 = (if ww_timer m = None then m1\<lparr>ww_timer := Some None\<rparr> else m1) in
          (case wo_set_fails O1 k of
             Some e \<Rightarrow> (Inl (WakeIo (''SetWaitableTimer: '' @ e)), m2)
           | None \<Rightarrow> (Inr (), m2\<lparr>ww_timer := Some (Some (utc_to_due_time t))\<rparr>)))"

definition windows_program :: "windows_os \<Rightarrow> instant \<Rightarrow> windows_wake \<Rightarrow> (wake_error + unit) \<times> windows_wake" where
  "windows_program O1 t m =
     (if \<not> wake_enabled (ww_capability m) then (Inr (), m)
      else case arm_timer O1 t m of
        (Inl e, m1) \<Rightarrow> (Inl e, m1)
      | (Inr _, m1) \<Rightarrow> (Inr (), m1\<lparr>ww_armed := Some t\<rparr>))"

definition windows_cancel :: "windows_wake \<Rightarrow> (wake_error + unit) \<times> windows_wake" where
  "windows_cancel m = (Inr (), m\<lparr>ww_timer := None, ww_armed := None\<rparr>)"

definition hold_system_awake :: "bool \<Rightarrow> windows_wake \<Rightarrow> windows_wake" where
  "hold_system_awake hold m = m\<lparr>ww_hold := hold\<rparr>"

definition windows_machine :: "windows_os \<Rightarrow> windows_wake machine_wake" where
  "windows_machine O1 = \<lparr> mw_capability = ww_capability, mw_re_probe = windows_re_probe O1,
     mw_program = windows_program O1, mw_cancel = windows_cancel, mw_on_resumed = (\<lambda>m. m) \<rparr>"

definition powercfg_fix_command :: "power_rail \<Rightarrow> string" where
  "powercfg_fix_command r = (case r of
     RailAc \<Rightarrow> ''powercfg /setacvalueindex SCHEME_CURRENT SUB_SLEEP RTCWAKE 1 && powercfg /setactive SCHEME_CURRENT''
   | RailDc \<Rightarrow> ''powercfg /setdcvalueindex SCHEME_CURRENT SUB_SLEEP RTCWAKE 1 && powercfg /setactive SCHEME_CURRENT'')"

section \<open>The macOS daemon\<close>

text \<open>
  The daemon's ledger and the power events the system holds under the daemon's tag. The ledger is
  a set; it is answered sorted.
\<close>

definition OWN_TAG :: string where "OWN_TAG = ''com.bellman.wake''"

record daemon =
  dm_ledger :: "int list"
  dm_events :: "int list"

record daemon_request =
  dr_op :: string
  dr_epoch :: "int option"
  dr_tag :: "string option"

record daemon_response =
  dr_ok :: bool
  dr_error :: "string option"
  dr_armed :: "int list option"

definition refusal :: "string \<Rightarrow> daemon_response" where
  "refusal e = \<lparr>dr_ok = False, dr_error = Some e, dr_armed = None\<rparr>"

definition armed_epochs :: "daemon \<Rightarrow> int list" where
  "armed_epochs d = sort (remdups (dm_ledger d))"

definition schedule_wake :: "string option \<Rightarrow> int \<Rightarrow> daemon \<Rightarrow> (string + unit) \<times> daemon" where
  "schedule_wake iopm_fails epoch d =
     (case iopm_fails of
        Some e \<Rightarrow> (Inl e, d)
      | None \<Rightarrow> (Inr (), d\<lparr>dm_ledger := List.insert epoch (dm_ledger d), dm_events := List.insert epoch (dm_events d)\<rparr>))"

definition cancel_my_wakes :: "daemon \<Rightarrow> daemon" where
  "cancel_my_wakes d = d\<lparr>dm_ledger := [], dm_events := filter (\<lambda>e. e \<notin> set (dm_ledger d)) (dm_events d)\<rparr>"

definition daemon_dispatch :: "string option \<Rightarrow> daemon_request \<Rightarrow> daemon \<Rightarrow> daemon_response \<times> daemon" where
  "daemon_dispatch iopm_fails q d =
     (let tag = (case dr_tag q of None \<Rightarrow> OWN_TAG | Some t \<Rightarrow> t) in
      if tag \<noteq> OWN_TAG \<and> dr_op q \<noteq> ''ping'' then (refusal ''foreign tag refused'', d)
      else if dr_op q = ''ping'' then (\<lparr>dr_ok = True, dr_error = None, dr_armed = Some (armed_epochs d)\<rparr>, d)
      else if dr_op q = ''schedule'' then
        (case dr_epoch q of
           Some epoch \<Rightarrow>
             if 0 < epoch then
               (case schedule_wake iopm_fails epoch d of
                  (Inr _, d1) \<Rightarrow> (\<lparr>dr_ok = True, dr_error = None, dr_armed = Some (armed_epochs d1)\<rparr>, d1)
                | (Inl e, d1) \<Rightarrow> (refusal e, d1))
             else (refusal ''schedule requires positive epoch'', d)
         | None \<Rightarrow> (refusal ''schedule requires positive epoch'', d))
      else if dr_op q = ''cancel_my_wakes'' then
        (\<lparr>dr_ok = True, dr_error = None, dr_armed = Some []\<rparr>, cancel_my_wakes d)
      else (refusal (''unknown op '' @ dr_op q), d))"

text \<open>The line the daemon writes: the field \<open>ok\<close>, then what is present of the others.\<close>

definition quoted :: "string \<Rightarrow> string" where
  "quoted s = [char_of (34 :: nat)] @ s @ [char_of (34 :: nat)]"

definition response_line :: "(string \<Rightarrow> string) \<Rightarrow> (int list \<Rightarrow> string) \<Rightarrow> daemon_response \<Rightarrow> string" where
  "response_line string_json list_json r =
     ''{'' @ quoted ''ok'' @ '':'' @ (if dr_ok r then ''true'' else ''false'') @
     (case dr_error r of None \<Rightarrow> [] | Some e \<Rightarrow> '','' @ quoted ''error'' @ '':'' @ string_json e) @
     (case dr_armed r of None \<Rightarrow> [] | Some es \<Rightarrow> '','' @ quoted ''armed'' @ '':'' @ list_json es) @ ''}'' @ [char_of (10 :: nat)]"

section \<open>macOS\<close>

datatype helper_status = HelperEnabled | RequiresApproval | NotRegistered | NotFound

record mac_facts =
  mf_helper :: helper_status
  mf_sentinel_ok :: bool
  mf_apple_silicon :: bool
  mf_sentinel_error :: "string option"

definition mac_decide :: "mac_facts \<Rightarrow> wake_capability" where
  "mac_decide f = (case mf_helper f of
     RequiresApproval \<Rightarrow> WakeOff HelperAwaitingApproval
   | NotRegistered \<Rightarrow> WakeOff HelperNotInstalled
   | NotFound \<Rightarrow> WakeOff HelperNotInstalled
   | HelperEnabled \<Rightarrow>
       if \<not> mf_sentinel_ok f
       then WakeOff (ProbeFailed (case mf_sentinel_error f of None \<Rightarrow> ''daemon sentinel schedule/cancel failed'' | Some e \<Rightarrow> e))
       else WakeOn MacPmDaemon (HibernateNotGuaranteed # (if mf_apple_silicon f then [AppleSiliconBestEffort] else [])))"

record mac_os =
  mo_launchctl :: "nat \<Rightarrow> (bool \<times> string) option"
  mo_silicon :: bool
  mo_socket :: "nat \<Rightarrow> bool"
  mo_talk_fails :: "nat \<Rightarrow> string option"
  mo_client_rejected :: "nat \<Rightarrow> string option"
  mo_iopm_fails :: "nat \<Rightarrow> string option"
  mo_string_json :: "string \<Rightarrow> string"
  mo_list_json :: "int list \<Rightarrow> string"
  mo_now :: "nat \<Rightarrow> instant"

record mac_wake =
  mm_capability :: wake_capability
  mm_armed :: "(instant \<times> string) option"
  mm_daemon :: daemon
  mm_calls :: nat

fun has_text :: "string \<Rightarrow> string \<Rightarrow> bool" where
  "has_text [] p = (p = [])"
| "has_text (c # s) p = (take (length p) (c # s) = p \<or> has_text s p)"

definition smapp_helper_status :: "mac_os \<Rightarrow> nat \<Rightarrow> helper_status" where
  "smapp_helper_status O1 k = (case mo_launchctl O1 k of
     None \<Rightarrow> NotRegistered
   | Some (success, stderr) \<Rightarrow>
       if success then HelperEnabled
       else if has_text stderr ''Could not find'' \<or> has_text stderr ''no such process'' then NotRegistered
       else RequiresApproval)"

text \<open>One exchange over the socket: an error, or the line that was read.\<close>

definition daemon_talk :: "mac_os \<Rightarrow> daemon_request \<Rightarrow> mac_wake \<Rightarrow> (string + string) \<times> mac_wake" where
  "daemon_talk O1 q m =
     (let k = mm_calls m; m1 = m\<lparr>mm_calls := k + 1\<rparr> in
      case mo_talk_fails O1 k of
        Some e \<Rightarrow> (Inl e, m1)
      | None \<Rightarrow>
          (case mo_client_rejected O1 k of
             Some e \<Rightarrow> (Inr (response_line (mo_string_json O1) (mo_list_json O1) (refusal (''client rejected: '' @ e))), m1)
           | None \<Rightarrow>
               let (r, d) = daemon_dispatch (mo_iopm_fails O1 k) q (mm_daemon m) in
               (Inr (response_line (mo_string_json O1) (mo_list_json O1) r), m1\<lparr>mm_daemon := d\<rparr>)))"

definition xpc_schedule :: "mac_os \<Rightarrow> instant \<Rightarrow> mac_wake \<Rightarrow> (string + unit) \<times> mac_wake" where
  "xpc_schedule O1 t m =
     (if \<not> mo_socket O1 (mm_calls m) then (Inl ''wake daemon socket not present'', m)
      else case daemon_talk O1 \<lparr>dr_op = ''schedule'', dr_epoch = Some (t div sec_ns), dr_tag = Some OWN_TAG\<rparr> m of
        (Inl e, m1) \<Rightarrow> (Inl e, m1)
      | (Inr line, m1) \<Rightarrow>
          if has_text line (quoted ''ok'') then (Inr (), m1) else (Inl (''daemon schedule failed: '' @ line), m1))"

definition xpc_cancel_mine :: "mac_os \<Rightarrow> mac_wake \<Rightarrow> (string + unit) \<times> mac_wake" where
  "xpc_cancel_mine O1 m =
     (if \<not> mo_socket O1 (mm_calls m) then (Inr (), m)
      else case daemon_talk O1 \<lparr>dr_op = ''cancel_my_wakes'', dr_epoch = None, dr_tag = Some OWN_TAG\<rparr> m of
        (Inl e, m1) \<Rightarrow> (Inl e, m1)
      | (Inr _, m1) \<Rightarrow> (Inr (), m1))"

definition daemon_sentinel_roundtrip :: "mac_os \<Rightarrow> mac_wake \<Rightarrow> (string + unit) \<times> mac_wake" where
  "daemon_sentinel_roundtrip O1 m =
     (case xpc_schedule O1 (mo_now O1 (mm_calls m) + 30 * 24 * 60 * 60 * sec_ns) m of
        (Inl e, m1) \<Rightarrow> (Inl e, m1)
      | (Inr _, m1) \<Rightarrow> xpc_cancel_mine O1 m1)"

definition mac_collect_facts :: "mac_os \<Rightarrow> mac_wake \<Rightarrow> mac_facts \<times> mac_wake" where
  "mac_collect_facts O1 m =
     (let helper = smapp_helper_status O1 (mm_calls m);
          (ok, err, m1) = (if helper = HelperEnabled then
              (case daemon_sentinel_roundtrip O1 m of
                 (Inr _, m1) \<Rightarrow> (True, None, m1)
               | (Inl e, m1) \<Rightarrow> (False, Some e, m1))
            else (False, None, m)) in
      (\<lparr>mf_helper = helper, mf_sentinel_ok = ok, mf_apple_silicon = mo_silicon O1, mf_sentinel_error = err\<rparr>, m1))"

definition mac_re_probe :: "mac_os \<Rightarrow> mac_wake \<Rightarrow> wake_capability \<times> mac_wake" where
  "mac_re_probe O1 m =
     (let (f, m1) = mac_collect_facts O1 m in (mac_decide f, m1\<lparr>mm_capability := mac_decide f\<rparr>))"

definition mac_program :: "mac_os \<Rightarrow> instant \<Rightarrow> mac_wake \<Rightarrow> (wake_error + unit) \<times> mac_wake" where
  "mac_program O1 t m =
     (if \<not> wake_enabled (mm_capability m) then (Inr (), m)
      else case xpc_schedule O1 t m of
        (Inl e, m1) \<Rightarrow> (Inl (WakeIo e), m1)
      | (Inr _, m1) \<Rightarrow> (Inr (), m1\<lparr>mm_armed := Some (t, OWN_TAG)\<rparr>))"

definition mac_cancel :: "mac_os \<Rightarrow> mac_wake \<Rightarrow> (wake_error + unit) \<times> mac_wake" where
  "mac_cancel O1 m =
     (Inr (), (if mm_armed m = None then m else snd (xpc_cancel_mine O1 m))\<lparr>mm_armed := None\<rparr>)"

definition mac_machine :: "mac_os \<Rightarrow> mac_wake machine_wake" where
  "mac_machine O1 = \<lparr> mw_capability = mm_capability, mw_re_probe = mac_re_probe O1,
     mw_program = mac_program O1, mw_cancel = mac_cancel O1, mw_on_resumed = (\<lambda>m. m) \<rparr>"

end
