(* ===== verification/Wake_Properties.thy ===== *)
theory Wake_Properties
  imports Linux_Wake Desktop_Wake
begin

text \<open>
  The properties of machine wake: what the bridge relies on is the locale \<open>wake_contract\<close>, kept by
  the controllers of Linux and Windows and by the stub of other systems; the macOS client does not
  keep it. A foreign alarm in the Linux register survives every history of the bridge.
\<close>

section \<open>The contract of a controller\<close>

text \<open>The last target the bridge remembers is really armed.\<close>

definition coherent :: "('m \<Rightarrow> instant \<Rightarrow> bool) \<Rightarrow> 'm bridge \<Rightarrow> bool" where
  "coherent armed b \<longleftrightarrow> (\<forall>t. b_last_target b = Some t \<longrightarrow> armed (b_wake b) t)"

locale wake_contract =
  fixes M :: "'m machine_wake" and armed :: "'m \<Rightarrow> instant \<Rightarrow> bool"
  assumes program_arms: "wake_enabled (mw_capability M m) \<Longrightarrow> mw_program M t m = (Inr (), m1) \<Longrightarrow> armed m1 t"
    and cancel_capability: "mw_capability M (snd (mw_cancel M m)) = mw_capability M m"
begin

lemma rearm_arms:
  assumes "coherent armed b" "wake_enabled (bridge_capability M b)" "rearm M (Some due) now b = (Inr (), b1)"
  shows "armed (b_wake b1) (arm_instant due now) \<and> b_last_target b1 = Some (arm_instant due now)"
proof (cases "b_last_target b = Some (arm_instant due now)")
  case True
  then show ?thesis using assms by (simp add: rearm_def coherent_def)
next
  case False
  obtain r m where c: "mw_cancel M (b_wake b) = (r, m)" by (cases "mw_cancel M (b_wake b)")
  have "wake_enabled (mw_capability M m)"
    using assms(2) cancel_capability [of "b_wake b"]
    by (auto simp: bridge_capability_def effective_cap_def c wake_enabled_def split: if_splits)
  with program_arms [of m "arm_instant due now"] show ?thesis
    using assms(2,3) False
    by (cases "mw_program M (arm_instant due now) m") (auto simp: rearm_def c Let_def split: sum.splits prod.splits)
qed

end

section \<open>The controllers that keep it\<close>

lemma linux_machine_fields [simp]:
  "mw_capability (linux_machine K) = lw_capability" "mw_re_probe (linux_machine K) = linux_re_probe K"
  "mw_program (linux_machine K) = linux_program K" "mw_cancel (linux_machine K) = linux_cancel K"
  "mw_on_resumed (linux_machine K) = linux_on_resumed K"
  by (simp_all add: linux_machine_def)

definition linux_armed :: "linux_wake \<Rightarrow> instant \<Rightarrow> bool" where
  "linux_armed m t \<longleftrightarrow> (case lw_capability m of
     WakeOn LinuxAlarmTimerfd _ \<Rightarrow> lw_timerfd m = Some (Some t)
   | WakeOn LinuxWakealarmSysfs _ \<Rightarrow> (\<exists>e. lw_register m = Some e \<and> e \<le> epoch_secs t)
   | _ \<Rightarrow> False)"

lemma write_register:
  assumes "write_wakealarm_clear_set K epoch m = (r, m1)"
  shows "lw_capability m1 = lw_capability m" "r = Inr () \<Longrightarrow> epoch = Some e \<Longrightarrow> lw_register m1 = Some e"
    "lw_owned m1 = lw_owned m" "lw_displaced m1 = lw_displaced m"
  using assms by (auto simp: write_wakealarm_clear_set_def Let_def split: option.splits if_splits)

lemma read_register:
  assumes "read_wakealarm_epoch K m = (r, m1)"
  shows "lw_capability m1 = lw_capability m" "lw_register m1 = lw_register m"
    "r = Inr (Some e) \<Longrightarrow> lw_register m = Some e"
  using assms by (auto simp: read_wakealarm_epoch_def Let_def split: if_splits)

text \<open>What programming the register does: an alarm that is early enough is left alone, a later one is
  displaced, and our own is written.\<close>

lemma program_sysfs_cases:
  assumes "program_sysfs K t m = (Inr (), m1)"
  obtains (leave) e where "lw_register m = Some e" "0 < e" "e \<le> epoch_secs t" "lw_register m1 = Some e"
      "\<not> lw_owned m1" "lw_displaced m1 = None" "lw_capability m1 = lw_capability m"
  | (displace) e where "lw_register m = Some e" "epoch_secs t < e" "lw_register m1 = Some (epoch_secs t)"
      "lw_owned m1" "lw_displaced m1 = Some e" "lw_capability m1 = lw_capability m"
  | (take) "lw_register m1 = Some (epoch_secs t)" "lw_owned m1" "lw_displaced m1 = None"
      "lw_capability m1 = lw_capability m" "\<not> alarm_exists K (lw_calls m) \<or> lw_register m = None \<or> (\<exists>e\<le>0. lw_register m = Some e)"
proof -
  obtain r m0 where rd: "read_wakealarm_epoch K m = (r, m0)" by (cases "read_wakealarm_epoch K m")
  then obtain current where r: "r = Inr current" using assms by (cases r) (auto simp: program_sysfs_def)
  obtain x m2 where w: "write_wakealarm_clear_set K (Some (epoch_secs t)) m0 = (x, m2)"
    by (cases "write_wakealarm_clear_set K (Some (epoch_secs t)) m0")
  note reg = read_register [OF rd] and wr = write_register [OF w]
  note run = assms [unfolded program_sysfs_def rd prod.case r sum.case Let_def plan_sysfs_program_def]
  consider (early) e where "current = Some e" "0 < e" "e \<le> epoch_secs t"
    | (late) e where "current = Some e" "0 < e" "epoch_secs t < e"
    | (none) "current = None \<or> (\<exists>e\<le>0. current = Some e)"
    by (cases current) (force simp: not_less not_le)+
  then show thesis
  proof cases
    case early
    then show thesis using run reg r by (intro leave [of e]) auto
  next
    case late
    then have "x = Inr ()" using run w by (cases x) auto
    with late show thesis using run w wr reg r by (intro displace [of e]) auto
  next
    case none
    then have "x = Inr ()" using run w by (cases x; cases current) (auto split: if_splits)
    moreover have "\<not> alarm_exists K (lw_calls m) \<or> lw_register m = None \<or> (\<exists>e\<le>0. lw_register m = Some e)"
      using rd r none by (auto simp: read_wakealarm_epoch_def Let_def split: if_splits)
    ultimately show thesis using none run w wr reg by (intro take) (auto split: if_splits)
  qed
qed

lemma program_sysfs_arms:
  assumes "program_sysfs K t m = (Inr (), m1)"
  shows "(\<exists>e. lw_register m1 = Some e \<and> e \<le> epoch_secs t) \<and> lw_capability m1 = lw_capability m"
  using assms by (cases rule: program_sysfs_cases) auto

lemma linux_cancel_capability: "lw_capability (snd (linux_cancel K m)) = lw_capability m"
proof -
  have "lw_capability (snd (cancel_sysfs K m)) = lw_capability m"
    using write_register(1) [of K "lw_displaced m" "m\<lparr>lw_displaced := None\<rparr>"]
    by (cases "write_wakealarm_clear_set K (lw_displaced m) (m\<lparr>lw_displaced := None\<rparr>)")
      (auto simp: cancel_sysfs_def split: sum.split)
  then show ?thesis
    by (auto simp: linux_cancel_def set_timerfd_def split: wake_capability.split wake_mechanism.split sum.split prod.split)
qed

interpretation lin: wake_contract "linux_machine K" linux_armed for K
proof
  fix m t m1
  assume en: "wake_enabled (mw_capability (linux_machine K) m)" and p: "mw_program (linux_machine K) t m = (Inr (), m1)"
  show "linux_armed m1 t"
  proof (cases "lw_capability m")
    case (WakeOn mech cs)
    show ?thesis
    proof (cases mech)
      case LinuxAlarmTimerfd
      then show ?thesis using p WakeOn
        by (auto simp: linux_program_def set_timerfd_def linux_armed_def split: if_splits)
    next
      case LinuxWakealarmSysfs
      then have "program_sysfs K t m = (Inr (), m1)" using p WakeOn by (simp add: linux_program_def)
      from program_sysfs_arms [OF this] show ?thesis using WakeOn LinuxWakealarmSysfs by (simp add: linux_armed_def)
    qed (use p WakeOn in \<open>simp_all add: linux_program_def\<close>)
  qed (use en in \<open>simp add: wake_enabled_def\<close>)
qed (simp add: linux_cancel_capability)

definition windows_armed :: "windows_wake \<Rightarrow> instant \<Rightarrow> bool" where
  "windows_armed m t \<longleftrightarrow> ww_timer m = Some (Some (utc_to_due_time t))"

interpretation win: wake_contract "windows_machine W" windows_armed for W
  by unfold_locales
    (auto simp: windows_machine_def windows_program_def windows_cancel_def arm_timer_def Let_def windows_armed_def
      split: option.splits if_splits)

interpretation stub: wake_contract unsupported_wake "\<lambda>_ _. False"
  by unfold_locales (simp_all add: unsupported_wake_def)

section \<open>Every wake timer is covered\<close>

lemma fold_min_le: "fold min ts t \<le> (t :: int)" "x \<in> set ts \<Longrightarrow> fold min ts t \<le> (x :: int)"
proof (induction ts arbitrary: t)
  case (Cons y ys)
  { case 1 then show ?case using Cons(1) [of "min y t"] by simp
  next case 2 then show ?case using Cons(1) [of "min y t"] Cons(2) by auto }
qed simp_all

lemma elected_le:
  assumes "c \<in> set cs" "wc_enabled c" "wc_wake_machine c" "wc_next_fire c = Some due"
  shows "\<exists>t. elect_next_wake cs = Some t \<and> t \<le> due"
proof -
  have "due \<in> set (List.map_filter wc_next_fire (filter (\<lambda>t. wc_enabled t \<and> wc_wake_machine t) cs))"
    using assms by (force simp: List.map_filter_def image_iff)
  then show ?thesis
    by (auto simp: elect_next_wake_def fold_min_le split: list.split)
qed

lemma arm_instant_mono: "s \<le> t \<Longrightarrow> arm_instant s now \<le> arm_instant t now"
  by (simp add: arm_instant_def Let_def)

text \<open>The quiet life of a bridge: re-armings, the probes of a changed power source that find the same
  mechanism, cancellations, the master switch and the status line. A re-arming either succeeds or
  forgets its target (it fails in programming, not in the cancellation before it). Nobody else
  writes the register meanwhile and no alarm in it goes off.\<close>

inductive quiet_step :: "linux_os \<Rightarrow> linux_wake bridge \<Rightarrow> linux_wake bridge \<Rightarrow> bool" for K where
  quiet_rearm: "fst (rearm (linux_machine K) due now b) = Inr () \<or> b_last_target b1 = None \<Longrightarrow>
     b1 = snd (rearm (linux_machine K) due now b) \<Longrightarrow> quiet_step K b b1"
| quiet_probe: "fst (linux_re_probe K (b_wake b)) = lw_capability (b_wake b) \<Longrightarrow>
     quiet_step K b (snd (bridge_re_probe (linux_machine K) b))"
| quiet_cancel: "quiet_step K b (snd (bridge_cancel (linux_machine K) b))"
| quiet_master: "quiet_step K b (set_master_enabled on b)"
| quiet_status: "quiet_step K b (snd (take_status_transition (linux_machine K) b))"
| quiet_mark: "quiet_step K b (mark_status_emitted (linux_machine K) b)"

lemma armed_same_probe:
  assumes "fst (linux_re_probe K m) = lw_capability m" "linux_armed m t"
  shows "linux_armed (snd (linux_re_probe K m)) t"
  using assms
  by (auto simp: linux_re_probe_def case_prod_unfold Let_def linux_armed_def
      split: wake_capability.splits wake_mechanism.splits)

text \<open>A re-arming that answers success keeps what the bridge remembers true.\<close>

lemma rearm_coherent:
  assumes "coherent linux_armed b" "fst (rearm (linux_machine K) due now b) = Inr ()"
  shows "coherent linux_armed (snd (rearm (linux_machine K) due now b))"
proof (cases "wake_enabled (bridge_capability (linux_machine K) b)")
  case False
  then show ?thesis by (simp add: rearm_def coherent_def)
next
  case True
  show ?thesis
  proof (cases due)
    case None
    then show ?thesis using True assms by (auto simp: rearm_def coherent_def split: sum.splits prod.splits)
  next
    case (Some d)
    have "rearm (linux_machine K) (Some d) now b = (Inr (), snd (rearm (linux_machine K) due now b))"
      using assms(2) Some by (metis prod.collapse)
    from lin.rearm_arms [OF assms(1) True this] show ?thesis by (simp add: coherent_def)
  qed
qed

lemma quiet_coherent:
  assumes "quiet_step K b b1" "coherent linux_armed b"
  shows "coherent linux_armed b1"
  using assms
proof (cases rule: quiet_step.cases)
  case (quiet_rearm due now)
  then show ?thesis using rearm_coherent [OF assms(2)] by (auto simp: coherent_def)
next
  case quiet_probe
  then show ?thesis using assms(2)
    by (auto simp: coherent_def bridge_re_probe_def case_prod_unfold Let_def intro: armed_same_probe)
qed (auto simp: coherent_def bridge_cancel_def set_master_enabled_def take_status_transition_def
    mark_status_emitted_def case_prod_unfold Let_def)

lemma quiet_history_coherent:
  assumes "(quiet_step K)\<^sup>*\<^sup>* b0 b" "b_last_target b0 = None"
  shows "coherent linux_armed b"
  using assms(1)
proof (induction rule: rtranclp_induct)
  case base
  then show ?case using assms(2) by (simp add: coherent_def)
qed (rule quiet_coherent)

text \<open>A re-arming of another target programs it, whatever was remembered.\<close>

lemma rearm_programs:
  assumes "wake_enabled (bridge_capability (linux_machine K) b)" "rearm (linux_machine K) (Some due) now b = (Inr (), b1)"
    and "b_last_target b \<noteq> Some (arm_instant due now)"
  shows "linux_armed (b_wake b1) (arm_instant due now)"
proof -
  let ?b = "b\<lparr>b_last_target := None\<rparr>"
  have "rearm (linux_machine K) (Some due) now ?b = (Inr (), b1)"
    using assms(1-3) by (auto simp: rearm_def bridge_capability_def Let_def split: sum.splits prod.splits)
  then show ?thesis
    using lin.rearm_arms [of ?b K due now b1] assms(1) by (simp add: coherent_def bridge_capability_def)
qed

text \<open>C36: a re-arming on Linux that succeeds while wake is enabled computes one target no later than 45
  seconds before the next fire of every enabled timer that may wake the machine (or a second from
  now), and the bridge remembers it. Where the target is not the one remembered before, the machine
  is armed for it or earlier when the re-arming returns, from any state of the bridge. Where the
  target is the one remembered, nothing is programmed; the machine is still armed if the bridge was
  made with nothing armed and has since lived quietly (\<open>quiet_step\<close>). A resume, a probe that finds
  another mechanism, a cancellation that fails inside a re-arming and an alarm of another program
  that has gone off are outside that life, and the timer may then be missed.\<close>

theorem rearm_covers_every_timer:
  assumes "wake_enabled (bridge_capability (linux_machine K) b)"
    and "rearm_from_candidates (linux_machine K) cs now b = (Inr (), b1)"
    and "c \<in> set cs" "wc_enabled c" "wc_wake_machine c" "wc_next_fire c = Some due"
  shows "\<exists>t. b_last_target b1 = Some t \<and> t \<le> max (due - 45 * sec_ns) (now + sec_ns) \<and>
    (b_last_target b \<noteq> Some t \<or> (\<exists>b0. b_last_target b0 = None \<and> (quiet_step K)\<^sup>*\<^sup>* b0 b) \<longrightarrow>
       linux_armed (b_wake b1) t)"
proof -
  obtain e where e: "elect_next_wake cs = Some e" "e \<le> due" using elected_le [OF assms(3-6)] by blast
  then have r: "rearm (linux_machine K) (Some e) now b = (Inr (), b1)"
    using assms(2) by (simp add: rearm_from_candidates_def)
  have l: "b_last_target b1 = Some (arm_instant e now)"
    using r assms(1) by (auto simp: rearm_def Let_def split: if_splits sum.splits prod.splits)
  have "arm_instant e now \<le> max (due - 45 * sec_ns) (now + sec_ns)"
    using e(2) by (auto simp: arm_instant_def Let_def ARM_SLACK_SECS_def)
  with l rearm_programs [OF assms(1) r] lin.rearm_arms [OF quiet_history_coherent assms(1) r] show ?thesis
    by blast
qed

text \<open>A machine whose kernel refuses the timerfd and lets the register be written.\<close>

definition sample_linux :: linux_os where
  "sample_linux = \<lparr> rtc_exists = (\<lambda>_. True), wakeup_node = (\<lambda>_. None), timerfd_errno = (\<lambda>_. Some 1),
     errno_text = (\<lambda>_. ''denied''), alarm_writable = (\<lambda>_. True), alarm_exists = (\<lambda>_. True),
     alarm_read_fails = (\<lambda>_. False), alarm_write_fails = (\<lambda>_. False), settime_fails = (\<lambda>_. False) \<rparr>"

definition sample_bridge :: "int option \<Rightarrow> linux_wake bridge" where
  "sample_bridge r = bridge_new (linux_machine sample_linux) (linux_probe sample_linux r) True"

definition sample_candidate :: wake_candidate where
  "sample_candidate = \<lparr>wc_enabled = True, wc_wake_machine = True, wc_next_fire = Some (1000 * sec_ns)\<rparr>"

lemma sample_probe: "fst (probe_inner sample_linux k) = sysfs_capability"
  by (simp add: probe_inner_def sample_linux_def permission_denied_def)

lemma sample_reads:
  "alarm_exists sample_linux k" "\<not> alarm_read_fails sample_linux k" "\<not> alarm_write_fails sample_linux k"
  by (simp_all add: sample_linux_def)

lemma sample_elect: "elect_next_wake [sample_candidate] = Some (1000 * sec_ns)"
  by (simp add: elect_next_wake_def sample_candidate_def List.map_filter_def)

lemma sample_bridge_fields:
  "b_last_target (sample_bridge r) = None" "b_master (sample_bridge r)"
  "b_wake (sample_bridge r) = linux_probe sample_linux r"
  "bridge_capability (linux_machine sample_linux) (sample_bridge r) = sysfs_capability"
  by (simp_all add: sample_bridge_def bridge_new_def bridge_capability_def effective_cap_def linux_probe_def sample_probe)

theorem rearm_covers_every_timer_witness:
  "\<exists>b1 t. rearm_from_candidates (linux_machine sample_linux) [sample_candidate] 0 (sample_bridge None) = (Inr (), b1) \<and>
     linux_armed (b_wake b1) t"
proof -
  obtain b1 where r: "rearm_from_candidates (linux_machine sample_linux) [sample_candidate] 0 (sample_bridge None) = (Inr (), b1)"
    by (simp add: rearm_from_candidates_def sample_elect rearm_def sample_bridge_fields sysfs_capability_def
        wake_enabled_def linux_probe_def sample_probe linux_cancel_def cancel_sysfs_def linux_program_def
        program_sysfs_def read_wakealarm_epoch_def sample_reads plan_sysfs_program_def
        write_wakealarm_clear_set_def Let_def)
  have "wake_enabled (bridge_capability (linux_machine sample_linux) (sample_bridge None))"
    by (simp add: sample_bridge_fields sysfs_capability_def wake_enabled_def)
  then obtain t where "linux_armed (b_wake b1) t"
    using rearm_covers_every_timer [OF _ r, of sample_candidate "1000 * sec_ns"]
    by (auto simp: sample_candidate_def sample_bridge_fields)
  with r show ?thesis by blast
qed

section \<open>Another program's alarm survives\<close>

text \<open>The system calls on the register succeed.\<close>

definition calm :: "linux_os \<Rightarrow> bool" where
  "calm K \<longleftrightarrow> (\<forall>k. alarm_exists K k \<and> \<not> alarm_read_fails K k \<and> \<not> alarm_write_fails K k)"

text \<open>The alarm of another program at second \<open>f\<close> is in the register, or the controller owns the
  register and remembers it.\<close>

definition foreign_kept :: "int \<Rightarrow> linux_wake \<Rightarrow> bool" where
  "foreign_kept f m \<longleftrightarrow>
     (if lw_owned m then lw_displaced m = Some f else lw_displaced m = None \<and> lw_register m = Some f)"

inductive bridge_step :: "linux_os \<Rightarrow> linux_wake bridge \<Rightarrow> linux_wake bridge \<Rightarrow> bool" for K where
  step_rearm: "bridge_step K b (snd (rearm (linux_machine K) due now b))"
| step_event: "bridge_step K b (on_power_event (linux_machine K) ev cs now b)"
| step_probe: "bridge_step K b (snd (bridge_re_probe (linux_machine K) b))"
| step_cancel: "bridge_step K b (snd (bridge_cancel (linux_machine K) b))"
| step_master: "bridge_step K b (set_master_enabled on b)"
| step_status: "bridge_step K b (snd (take_status_transition (linux_machine K) b))"
| step_mark: "bridge_step K b (mark_status_emitted (linux_machine K) b)"

lemma calm_write: "calm K \<Longrightarrow> write_wakealarm_clear_set K epoch m = (Inr (),
    m\<lparr>lw_register := epoch, lw_calls := lw_calls m + (if epoch = None then 1 else 2)\<rparr>)"
  by (cases epoch) (simp_all add: write_wakealarm_clear_set_def calm_def Let_def)

lemma kept_cancel:
  assumes "calm K" "foreign_kept f m"
  shows "foreign_kept f (snd (linux_cancel K m))"
    and "lw_capability m = WakeOn LinuxWakealarmSysfs cs \<Longrightarrow> \<not> lw_owned (snd (linux_cancel K m))"
proof -
  have c: "foreign_kept f (snd (cancel_sysfs K m)) \<and> \<not> lw_owned (snd (cancel_sysfs K m))"
    using assms by (auto simp: cancel_sysfs_def calm_write foreign_kept_def)
  show "foreign_kept f (snd (linux_cancel K m))"
    using assms(2) c
    by (auto simp: linux_cancel_def set_timerfd_def foreign_kept_def
        split: wake_capability.split wake_mechanism.split sum.split prod.split)
  show "lw_capability m = WakeOn LinuxWakealarmSysfs cs \<Longrightarrow> \<not> lw_owned (snd (linux_cancel K m))"
    using c by (simp add: linux_cancel_def)
qed

lemma kept_program:
  assumes "calm K" "0 < f" "foreign_kept f m" "\<And>cs. lw_capability m = WakeOn LinuxWakealarmSysfs cs \<Longrightarrow> \<not> lw_owned m"
  shows "foreign_kept f (snd (linux_program K t m))"
proof -
  have "foreign_kept f (snd (program_sysfs K t m))" if "\<not> lw_owned m"
  proof -
    have "fst (program_sysfs K t m) = Inr ()"
      using calm_write [OF assms(1)] assms(1)
      by (simp add: program_sysfs_def read_wakealarm_epoch_def Let_def calm_def split: option.split)
    then obtain m1 where p: "program_sysfs K t m = (Inr (), m1)" by (cases "program_sysfs K t m") auto
    have "lw_register m = Some f" "\<exists>k. alarm_exists K k \<and> k = lw_calls m"
      using that assms(1,3) by (auto simp: foreign_kept_def calm_def)
    then show ?thesis using p by (cases rule: program_sysfs_cases [OF p]) (use assms(2) in \<open>auto simp: foreign_kept_def\<close>)
  qed
  then show ?thesis using assms(3,4)
    by (auto simp: linux_program_def set_timerfd_def foreign_kept_def
        split: wake_capability.split wake_mechanism.split sum.split prod.split)
qed

lemma kept_probe: "foreign_kept f m \<Longrightarrow> foreign_kept f (snd (linux_re_probe K m))"
  by (auto simp: linux_re_probe_def case_prod_unfold Let_def foreign_kept_def
      split: wake_capability.split wake_mechanism.split)

lemma kept_resumed: "calm K \<Longrightarrow> foreign_kept f m \<Longrightarrow> foreign_kept f (linux_on_resumed K m)"
  by (cases "lw_owned m") (auto simp: linux_on_resumed_def calm_write plan_sysfs_restore_def foreign_kept_def)

lemma kept_rearm:
  assumes "calm K" "0 < f" "foreign_kept f (b_wake b)"
  shows "foreign_kept f (b_wake (snd (rearm (linux_machine K) due now b)))"
proof -
  let ?m = "snd (linux_cancel K (b_wake b))"
  have c: "foreign_kept f ?m" by (rule kept_cancel(1) [OF assms(1,3)])
  have p: "foreign_kept f (snd (linux_program K t ?m))" for t
    using kept_program [OF assms(1,2) c] kept_cancel(2) [OF assms(1,3)] linux_cancel_capability [of K "b_wake b"] by metis
  obtain r m where cm: "linux_cancel K (b_wake b) = (r, m)" by (cases "linux_cancel K (b_wake b)")
  then have m: "?m = m" by simp
  have p1: "foreign_kept f (snd (linux_program K t m))" for t using p [of t] unfolding m .
  show ?thesis
    using c [unfolded m] assms(3)
    by (auto simp: rearm_def cm Let_def case_prod_unfold
        split: option.split sum.split prod.split intro: p1 intro!: kept_probe)
qed

lemma kept_step:
  assumes "bridge_step K b b1" "calm K" "0 < f" "foreign_kept f (b_wake b)"
  shows "foreign_kept f (b_wake b1)"
  using assms
proof (cases rule: bridge_step.cases)
  case (step_event ev cs now)
  have "foreign_kept f (b_wake (snd (bridge_re_probe (linux_machine K) b)))"
    using kept_probe [OF assms(4), of K] by (simp add: bridge_re_probe_def case_prod_unfold Let_def)
  moreover have "foreign_kept f (snd (linux_re_probe K (linux_on_resumed K (b_wake b))))"
    by (rule kept_probe [OF kept_resumed [OF assms(2,4)]])
  ultimately show ?thesis using assms(4) unfolding step_event
    by (cases ev) (simp_all add: on_power_event_def rearm_from_candidates_def kept_rearm [OF assms(2,3)])
next
  case step_probe
  then show ?thesis using kept_probe [OF assms(4), of K]
    by (simp add: bridge_re_probe_def case_prod_unfold Let_def)
next
  case step_cancel
  then show ?thesis using kept_cancel(1) [OF assms(2,4)]
    by (simp add: bridge_cancel_def case_prod_unfold Let_def)
qed (auto simp: kept_rearm set_master_enabled_def take_status_transition_def mark_status_emitted_def Let_def)

text \<open>C35: while every read and write of the wake register succeeds (\<open>calm\<close>), an alarm that another
  program has put there is not lost: in every history of the bridge (re-arming, power events, probes
  with any outcome, the master switch), during which nobody else writes the register and the alarm
  does not go off, it is in the register or remembered; a cancellation while the capability is the
  register puts it back. Where a write fails it can be lost (\<open>failed_write_loses_alarm\<close>).\<close>

theorem foreign_alarm_never_lost:
  assumes "(bridge_step K)\<^sup>*\<^sup>* b b1" "calm K" "0 < f" "foreign_kept f (b_wake b)"
  shows "foreign_kept f (b_wake b1) \<and>
    (lw_capability (b_wake b1) = sysfs_capability \<longrightarrow>
      lw_register (b_wake (snd (bridge_cancel (linux_machine K) b1))) = Some f)"
proof -
  have k: "foreign_kept f (b_wake b1)"
    using assms(1) by (induction rule: rtranclp_induct) (auto intro: kept_step assms(2-4))
  moreover have "lw_register (b_wake (snd (bridge_cancel (linux_machine K) b1))) = Some f"
    if "lw_capability (b_wake b1) = sysfs_capability"
    using kept_cancel [OF assms(2) k] that
    by (simp add: bridge_cancel_def case_prod_unfold Let_def foreign_kept_def sysfs_capability_def)
  ultimately show ?thesis by blast
qed

text \<open>A cancellation takes the remembered alarm before it writes: when the write fails after the
  clearing, the register is empty and nothing remembers the alarm.\<close>

lemma failed_write_loses_alarm:
  assumes "lw_capability m = sysfs_capability" "lw_owned m" "lw_displaced m = Some f"
    and "\<not> alarm_write_fails K (lw_calls m)" "alarm_write_fails K (lw_calls m + 1)"
  shows "\<exists>e m1. linux_cancel K m = (Inl e, m1) \<and> lw_register m1 = None \<and> lw_displaced m1 = None"
  using assms by (simp add: linux_cancel_def sysfs_capability_def cancel_sysfs_def write_wakealarm_clear_set_def Let_def)

text \<open>A re-arming whose cancellation fails keeps the target it remembers, while the register has
  been cleared: the next re-arming of that target is skipped.\<close>

lemma failed_cancel_keeps_target:
  assumes "lw_capability (b_wake b) = sysfs_capability" "b_master b" "lw_owned (b_wake b)" "lw_displaced (b_wake b) = Some f"
    and "\<not> alarm_write_fails K (lw_calls (b_wake b))" "alarm_write_fails K (lw_calls (b_wake b) + 1)"
    and "b_last_target b = Some (arm_instant due now)"
  shows "let b1 = snd (rearm (linux_machine K) None now b) in
    lw_register (b_wake b1) = None \<and> rearm (linux_machine K) (Some due) now b1 = (Inr (), b1)"
proof -
  obtain e m1 where c: "linux_cancel K (b_wake b) = (Inl e, m1)" "lw_register m1 = None"
    using failed_write_loses_alarm [OF assms(1,3-6)] by blast
  have "lw_capability m1 = sysfs_capability"
    using linux_cancel_capability [of K "b_wake b"] assms(1) by (simp add: c)
  then show ?thesis using c assms(1,2,7)
    by (simp add: rearm_def bridge_capability_def effective_cap_def sysfs_capability_def wake_enabled_def)
qed

section \<open>Resuming early\<close>

text \<open>after an early resume the wake is gone: where the register was used, a resume with the same next
  fire puts back the other program's alarm (or nothing) and arms none of its own, while the bridge
  still takes its target for armed.\<close>

theorem resume_forgets_wake:
  assumes "calm K" "\<And>k. fst (probe_inner K k) = sysfs_capability" "lw_capability (b_wake b) = sysfs_capability"
    and "b_master b" "lw_owned (b_wake b)" "elect_next_wake cs = Some due"
    and "b_last_target b = Some (arm_instant due now)"
  shows "let b1 = on_power_event (linux_machine K) Resumed cs now b in
    b_last_target b1 = Some (arm_instant due now) \<and>
    lw_register (b_wake b1) = lw_displaced (b_wake b) \<and> \<not> lw_owned (b_wake b1)"
proof -
  define m where "m = snd (linux_re_probe K (linux_on_resumed K (b_wake b)))"
  have m: "lw_register m = lw_displaced (b_wake b) \<and> \<not> lw_owned m \<and> lw_capability m = sysfs_capability"
    using assms(1,2,5)
    by (auto simp: m_def linux_re_probe_def linux_on_resumed_def calm_write plan_sysfs_restore_def case_prod_unfold
        Let_def sysfs_capability_def)
  then have "rearm (linux_machine K) (Some due) now (b\<lparr>b_wake := m\<rparr>) = (Inr (), b\<lparr>b_wake := m\<rparr>)"
    using assms(4,7)
    by (simp add: rearm_def bridge_capability_def effective_cap_def sysfs_capability_def wake_enabled_def)
  then show ?thesis using m assms(6,7)
    by (simp add: on_power_event_def rearm_from_candidates_def m_def [symmetric])
qed

text \<open>An earlier alarm of another program was left in the register and has gone off: the resume and the
  re-arming that follow arm nothing for the target the bridge remembers.\<close>

lemma spent_foreign_alarm:
  assumes "\<And>k. fst (probe_inner K k) = sysfs_capability" "b_master b" "\<not> lw_owned (b_wake b)"
    and "lw_displaced (b_wake b) = None" "lw_register (b_wake b) = None" "elect_next_wake cs = Some due"
    and "b_last_target b = Some (arm_instant due now)"
  shows "let b1 = on_power_event (linux_machine K) Resumed cs now b in
    b_last_target b1 = Some (arm_instant due now) \<and> lw_register (b_wake b1) = None"
proof -
  define m where "m = snd (linux_re_probe K (linux_on_resumed K (b_wake b)))"
  have m: "lw_register m = None \<and> lw_capability m = sysfs_capability"
    using assms(1,3-5)
    by (auto simp: m_def linux_re_probe_def linux_on_resumed_def case_prod_unfold Let_def sysfs_capability_def)
  then have "rearm (linux_machine K) (Some due) now (b\<lparr>b_wake := m\<rparr>) = (Inr (), b\<lparr>b_wake := m\<rparr>)"
    using assms(2,7)
    by (simp add: rearm_def bridge_capability_def effective_cap_def sysfs_capability_def wake_enabled_def)
  then show ?thesis using m assms(6,7)
    by (simp add: on_power_event_def rearm_from_candidates_def m_def [symmetric])
qed

lemma sample_calm: "calm sample_linux"
  by (simp add: calm_def sample_reads)

theorem foreign_alarm_never_lost_witness:
  "foreign_kept 5000 (b_wake (snd (rearm (linux_machine sample_linux) (Some (1000 * sec_ns)) 0 (sample_bridge (Some 5000)))))"
proof -
  have "(bridge_step sample_linux)\<^sup>*\<^sup>* (sample_bridge (Some 5000))
      (snd (rearm (linux_machine sample_linux) (Some (1000 * sec_ns)) 0 (sample_bridge (Some 5000))))"
    by (rule r_into_rtranclp [of "bridge_step sample_linux"]) (rule step_rearm)
  moreover have "foreign_kept 5000 (b_wake (sample_bridge (Some 5000)))"
    by (simp add: foreign_kept_def sample_bridge_fields linux_probe_def)
  ultimately show ?thesis using foreign_alarm_never_lost [OF _ sample_calm, of _ _ 5000] by simp
qed

definition armed_bridge :: "linux_wake bridge" where
  "armed_bridge = (sample_bridge None)\<lparr>b_last_target := Some (955 * sec_ns),
     b_wake := (linux_probe sample_linux (Some 955))\<lparr>lw_owned := True\<rparr>\<rparr>"

theorem resume_forgets_wake_witness:
  "let b1 = on_power_event (linux_machine sample_linux) Resumed [sample_candidate] 0 armed_bridge in
     b_last_target b1 = Some (955 * sec_ns) \<and> lw_register (b_wake b1) = None"
proof -
  have a: "arm_instant (1000 * sec_ns) 0 = 955 * sec_ns" by (simp add: arm_instant_def ARM_SLACK_SECS_def sec_ns_def)
  show ?thesis
    using resume_forgets_wake [OF sample_calm sample_probe, of armed_bridge "[sample_candidate]" "1000 * sec_ns" 0]
    by (simp add: armed_bridge_def sample_bridge_fields sample_elect a linux_probe_def sample_probe Let_def)
qed

section \<open>The probe\<close>

text \<open>the decision written as a pure function of the probe's facts is the probe: for what the kernel
  answers, both come to the same capability, up to the words of a failed probe.\<close>

theorem probe_is_decision:
  "\<exists>d d'. fst (probe_inner K k) = decide_from_facts
       \<lparr>lf_rtc_present = rtc_exists K k, lf_wakeup_enabled = map_option (\<lambda>s. s = ''enabled'') (wakeup_node K k),
        lf_timerfd = timerfd_errno K k, lf_writable = alarm_writable K k\<rparr> \<or>
     fst (probe_inner K k) = WakeOff (ProbeFailed d) \<and>
     decide_from_facts
       \<lparr>lf_rtc_present = rtc_exists K k, lf_wakeup_enabled = map_option (\<lambda>s. s = ''enabled'') (wakeup_node K k),
        lf_timerfd = timerfd_errno K k, lf_writable = alarm_writable K k\<rparr> = WakeOff (ProbeFailed d')"
  by (auto simp: probe_inner_def decide_from_facts_def permission_denied_def split: option.split)

section \<open>macOS\<close>

lemma has_text_in: "has_text (xs @ p @ ys) p"
proof (induction xs)
  case Nil
  then show ?case by (cases "p @ ys") (auto, metis append_eq_conv_conj)
qed simp

text \<open>The client takes every line with the field \<open>ok\<close> for success, a refusal included.\<close>

lemma refusal_reads_ok: "has_text (response_line f g r) (quoted ''ok'')"
proof -
  have "\<exists>ys. response_line f g r = ''{'' @ quoted ''ok'' @ ys" by (simp add: response_line_def)
  then show ?thesis using has_text_in [of "''{''" "quoted ''ok''"] by metis
qed

text \<open>on macOS a wake that the daemon refused counts as armed: when the daemon rejects the client, or
  the system rejects the power event, programming a wake answers success, no event is scheduled,
  and the client holds the wake for armed.\<close>

theorem refused_wake_counts_as_armed:
  assumes "wake_enabled (mm_capability m)" "mo_socket S (mm_calls m)" "mo_talk_fails S (mm_calls m) = None"
    and "mo_client_rejected S (mm_calls m) \<noteq> None \<or> mo_iopm_fails S (mm_calls m) \<noteq> None"
  shows "\<exists>m1. mac_program S t m = (Inr (), m1) \<and> mm_armed m1 = Some (t, OWN_TAG) \<and> mm_daemon m1 = mm_daemon m"
proof -
  have "\<exists>m1. xpc_schedule S t m = (Inr (), m1) \<and> mm_daemon m1 = mm_daemon m"
  proof (cases "mo_client_rejected S (mm_calls m)")
    case (Some e)
    then show ?thesis using assms(2,3) by (simp add: xpc_schedule_def daemon_talk_def refusal_reads_ok)
  next
    case None
    then obtain e where "mo_iopm_fails S (mm_calls m) = Some e" using assms(4) by blast
    then have "\<exists>r. daemon_dispatch (mo_iopm_fails S (mm_calls m))
        \<lparr>dr_op = ''schedule'', dr_epoch = Some (t div sec_ns), dr_tag = Some OWN_TAG\<rparr> (mm_daemon m) = (r, mm_daemon m)"
      by (simp add: daemon_dispatch_def schedule_wake_def)
    then show ?thesis using assms(2,3) None by (auto simp: xpc_schedule_def daemon_talk_def refusal_reads_ok)
  qed
  then show ?thesis using assms(1) by (auto simp: mac_program_def)
qed

lemma daemon_schedule:
  assumes "mo_socket S (mm_calls m)" "mo_talk_fails S (mm_calls m) = None" "mo_client_rejected S (mm_calls m) = None"
    "mo_iopm_fails S (mm_calls m) = None" "0 < t div sec_ns"
  shows "xpc_schedule S t m = (Inr (), m\<lparr>mm_calls := mm_calls m + 1,
    mm_daemon := snd (schedule_wake None (t div sec_ns) (mm_daemon m))\<rparr>)"
  using assms by (simp add: xpc_schedule_def daemon_talk_def daemon_dispatch_def schedule_wake_def refusal_reads_ok)

lemma daemon_cancel:
  assumes "mo_socket S (mm_calls m)" "mo_talk_fails S (mm_calls m) = None" "mo_client_rejected S (mm_calls m) = None"
  shows "xpc_cancel_mine S m = (Inr (), m\<lparr>mm_calls := mm_calls m + 1, mm_daemon := cancel_my_wakes (mm_daemon m)\<rparr>)"
  using assms by (simp add: xpc_cancel_mine_def daemon_talk_def daemon_dispatch_def)

text \<open>on macOS a probe takes the armed wake away: its sentinel cancels every event of the daemon's
  ledger, so after a resume with the same next fire nothing is scheduled, while the bridge still takes
  its target for armed.\<close>

theorem probe_drops_armed_wake:
  assumes "\<And>k. mo_socket S k \<and> mo_talk_fails S k = None \<and> mo_client_rejected S k = None \<and> mo_iopm_fails S k = None"
    and "\<And>k. smapp_helper_status S k = HelperEnabled" "b_master b"
    and "elect_next_wake cs = Some due" "b_last_target b = Some (arm_instant due now)"
    and "set (dm_events (mm_daemon (b_wake b))) \<subseteq> set (dm_ledger (mm_daemon (b_wake b)))"
    and "0 < mo_now S (mm_calls (b_wake b))"
  shows "let b1 = on_power_event (mac_machine S) Resumed cs now b in
    b_last_target b1 = Some (arm_instant due now) \<and> dm_events (mm_daemon (b_wake b1)) = []"
proof -
  define far where "far = mo_now S (mm_calls (b_wake b)) + 30 * 24 * 60 * 60 * sec_ns"
  have "30 * 24 * 60 * 60 \<le> far div sec_ns"
    using assms(7) zdiv_mono1 [of "30 * 24 * 60 * 60 * sec_ns" far sec_ns] by (simp add: far_def sec_ns_def)
  then have "0 < far div sec_ns" by simp
  then have rt: "\<exists>m. daemon_sentinel_roundtrip S (b_wake b) = (Inr (), m) \<and> dm_events (mm_daemon m) = []"
    using assms(1,6)
    unfolding daemon_sentinel_roundtrip_def far_def [symmetric]
    by (auto simp: daemon_schedule daemon_cancel schedule_wake_def cancel_my_wakes_def filter_empty_conv)
  let ?cap = "mac_decide \<lparr>mf_helper = HelperEnabled, mf_sentinel_ok = True, mf_apple_silicon = mo_silicon S,
    mf_sentinel_error = None\<rparr>"
  obtain m where p: "mac_re_probe S (b_wake b) = (?cap, m)" "dm_events (mm_daemon m) = []" "mm_capability m = ?cap"
    using rt assms(2) by (auto simp: mac_re_probe_def mac_collect_facts_def Let_def)
  define b2 where "b2 = b\<lparr>b_wake := m\<rparr>"
  have "rearm (mac_machine S) (Some due) now b2 = (Inr (), b2)"
    using assms(3,5) p
    by (simp add: rearm_def b2_def bridge_capability_def effective_cap_def mac_machine_def mac_decide_def wake_enabled_def)
  then show ?thesis using p assms(4,5)
    by (simp add: on_power_event_def rearm_from_candidates_def mac_machine_def b2_def)
qed

definition sample_mac :: "string option \<Rightarrow> mac_os" where
  "sample_mac rejected = \<lparr> mo_launchctl = (\<lambda>_. Some (True, [])), mo_silicon = True, mo_socket = (\<lambda>_. True),
     mo_talk_fails = (\<lambda>_. None), mo_client_rejected = (\<lambda>_. rejected), mo_iopm_fails = (\<lambda>_. None),
     mo_string_json = quoted, mo_list_json = (\<lambda>_. ''[]''), mo_now = (\<lambda>_. 1) \<rparr>"

definition sample_mac_wake :: "int list \<Rightarrow> mac_wake" where
  "sample_mac_wake es = \<lparr> mm_capability = WakeOn MacPmDaemon [], mm_armed = None,
     mm_daemon = \<lparr>dm_ledger = es, dm_events = es\<rparr>, mm_calls = 0 \<rparr>"

theorem refused_wake_counts_as_armed_witness:
  "\<exists>m1. mac_program (sample_mac (Some ''unsigned'')) (955 * sec_ns) (sample_mac_wake []) = (Inr (), m1) \<and>
     mm_armed m1 = Some (955 * sec_ns, OWN_TAG) \<and> dm_events (mm_daemon m1) = []"
  using refused_wake_counts_as_armed [of "sample_mac_wake []" "sample_mac (Some ''unsigned'')" "955 * sec_ns"]
  by (auto simp: sample_mac_wake_def sample_mac_def wake_enabled_def)

definition sample_mac_bridge :: "mac_wake bridge" where
  "sample_mac_bridge = \<lparr> b_wake = sample_mac_wake [955], b_master = True, b_last_target = Some (955 * sec_ns),
     b_last_capability = WakeOn MacPmDaemon [], b_last_line = [] \<rparr>"

theorem probe_drops_armed_wake_witness:
  "let b1 = on_power_event (mac_machine (sample_mac None)) Resumed [sample_candidate] 0 sample_mac_bridge in
     b_last_target b1 = Some (955 * sec_ns) \<and> dm_events (mm_daemon (b_wake b1)) = []"
proof -
  have a: "arm_instant (1000 * sec_ns) 0 = 955 * sec_ns" by (simp add: arm_instant_def ARM_SLACK_SECS_def sec_ns_def)
  have "smapp_helper_status (sample_mac None) k = HelperEnabled" for k by (simp add: smapp_helper_status_def sample_mac_def)
  then show ?thesis
    using probe_drops_armed_wake [of "sample_mac None" sample_mac_bridge "[sample_candidate]" "1000 * sec_ns" 0]
    by (simp add: sample_elect a sample_mac_bridge_def sample_mac_wake_def sample_mac_def)
qed

end
