(* ===== verification/Visible_Types.thy ===== *)
theory Visible_Types
  imports Slot_Service
begin

text \<open>
  The tasks of other schedulers (\<open>visible/types.rs\<close>): where a task comes from, the filter of a
  listing, what is known of its last run, the task itself.
\<close>

datatype source_filter = FilterAll | FilterCron | FilterCronD | FilterSystemd | FilterAt | FilterBellman
  | FilterAnacron | FilterRunParts

definition source_filter_parse :: "string \<Rightarrow> string + source_filter" where
  "source_filter_parse s =
     (let k = to_ascii_lowercase (trim s) in
      if k \<in> {''all'', ''''} then Inr FilterAll
      else if k = ''cron'' then Inr FilterCron
      else if k \<in> {''cron.d'', ''crond'', ''cron_d''} then Inr FilterCronD
      else if k = ''systemd'' then Inr FilterSystemd
      else if k = ''at'' then Inr FilterAt
      else if k = ''bellman'' then Inr FilterBellman
      else if k = ''anacron'' then Inr FilterAnacron
      else if k \<in> {''run-parts'', ''runparts'', ''run_parts''} then Inr FilterRunParts
      else Inl (''unknown source filter '' @ k))"

datatype source_kind = CronUser | CronSystem | CronD | CronRunParts | Anacron | SystemdSystem | SystemdUser
  | AtJob | BellmanTimer | Unsupported

definition source_kind_as_str :: "source_kind \<Rightarrow> string" where
  "source_kind_as_str k = (case k of
     CronUser \<Rightarrow> ''cron_user'' | CronSystem \<Rightarrow> ''cron_system'' | CronD \<Rightarrow> ''cron_d''
   | CronRunParts \<Rightarrow> ''cron_run_parts'' | Anacron \<Rightarrow> ''anacron'' | SystemdSystem \<Rightarrow> ''systemd_system''
   | SystemdUser \<Rightarrow> ''systemd_user'' | AtJob \<Rightarrow> ''at'' | BellmanTimer \<Rightarrow> ''bellman'' | Unsupported \<Rightarrow> ''unsupported'')"

definition matches_filter :: "source_kind \<Rightarrow> source_filter \<Rightarrow> bool" where
  "matches_filter k f = (case f of
     FilterAll \<Rightarrow> k \<noteq> Unsupported
   | FilterCron \<Rightarrow> k \<in> {CronUser, CronSystem, CronD, CronRunParts}
   | FilterCronD \<Rightarrow> k = CronD
   | FilterSystemd \<Rightarrow> k \<in> {SystemdSystem, SystemdUser}
   | FilterAt \<Rightarrow> k = AtJob
   | FilterBellman \<Rightarrow> k = BellmanTimer
   | FilterAnacron \<Rightarrow> k = Anacron
   | FilterRunParts \<Rightarrow> k = CronRunParts)"

definition is_system_readonly :: "source_kind \<Rightarrow> bool" where
  "is_system_readonly k \<longleftrightarrow> k \<in> {CronSystem, CronD, CronRunParts, Anacron, SystemdSystem, Unsupported}"

datatype last_result = LastNever | LastUnknown | LastOk int | LastFailed int

definition is_unknown_or_never :: "last_result \<Rightarrow> bool" where
  "is_unknown_or_never r \<longleftrightarrow> r = LastUnknown \<or> r = LastNever"

record discovered_task =
  dt_id :: string
  dt_source_kind :: source_kind
  dt_source :: string
  dt_owner :: string
  dt_command :: string
  dt_stdin :: "string option"
  dt_schedule :: string
  dt_explanation :: string
  dt_next_run :: "instant option"
  dt_last_run :: "instant option"
  dt_last_result :: last_result
  dt_enabled :: bool
  dt_writable :: bool
  dt_block_reason :: "string option"
  dt_timezone :: "string option"
  dt_line_no :: "nat option"
  dt_raw_line :: "string option"
  dt_disabled_original :: "string option"
  dt_platform_note :: "string option"

end
