(* ===== verification/Calendar_Build.thy ===== *)
theory Calendar_Build
  imports Visible_Types
begin

text \<open>
  The calendar (\<open>calendar/types.rs\<close>, \<open>period.rs\<close>, \<open>build.rs\<close>): which days a phrase names, the fires
  of every task in a range of days, the grid of a month.

  A date that leaves chrono's calendar is a panic. Reading a date from text (\<open>chrono\<close>) is the
  parameter \<open>ymd\<close>. Texts are UTF-8 bytes; where the code counts characters, continuation bytes do
  not count.
\<close>

section \<open>Types\<close>

datatype week_start = WeekMon | WeekSun

definition week_start_parse :: "string \<Rightarrow> string + week_start" where
  "week_start_parse s =
     (let k = to_ascii_lowercase (trim s) in
      if k \<in> {''mon'', ''monday''} then Inr WeekMon
      else if k \<in> {''sun'', ''sunday''} then Inr WeekSun
      else Inl (''unknown week-start '' @ k))"

definition week_column :: "week_start \<Rightarrow> nat \<Rightarrow> nat" where
  "week_column w monday_based = (case w of WeekMon \<Rightarrow> monday_based mod 7 | WeekSun \<Rightarrow> (monday_based + 1) mod 7)"

datatype calendar_status = StUpcoming | StOk | StFailed | StDisabled | StUnknown

definition calendar_status_as_str :: "calendar_status \<Rightarrow> string" where
  "calendar_status_as_str s = (case s of StUpcoming \<Rightarrow> ''upcoming'' | StOk \<Rightarrow> ''ok'' | StFailed \<Rightarrow> ''failed''
   | StDisabled \<Rightarrow> ''disabled'' | StUnknown \<Rightarrow> ''unknown'')"

definition calendar_color :: "calendar_status \<Rightarrow> string" where
  "calendar_color s = (case s of StUpcoming \<Rightarrow> ''#3b82f6'' | StOk \<Rightarrow> ''#22c55e'' | StFailed \<Rightarrow> ''#ef4444''
   | StDisabled \<Rightarrow> ''#9ca3af'' | StUnknown \<Rightarrow> ''#a855f7'')"

record calendar_entry =
  ce_task :: string
  ce_name :: string
  ce_time :: string
  ce_secs :: nat
  ce_date :: string
  ce_repeats :: bool
  ce_status :: calendar_status
  ce_command :: "string option"
  ce_source :: string

record calendar_day =
  cd_date :: string
  cd_day :: nat
  cd_in_month :: bool
  cd_entries :: "calendar_entry list"
  cd_overflow :: nat
  cd_total :: nat

record calendar_caps =
  max_per_cell :: nat
  max_fires_per_task :: nat
  max_total_entries :: nat
  max_tasks :: nat

definition default_caps :: calendar_caps where
  "default_caps = \<lparr>max_per_cell = 5, max_fires_per_task = 500, max_total_entries = 5000, max_tasks = 2000\<rparr>"

record calendar_options =
  co_from :: day
  co_to :: day
  co_month :: "(int \<times> nat) option"
  co_timezone :: string
  co_week_start :: week_start
  co_show_commands :: bool
  co_now :: instant
  co_caps :: calendar_caps

record calendar_snapshot =
  cs_from :: string
  cs_to :: string
  cs_month :: "(int \<times> nat) option"
  cs_timezone :: string
  cs_week_start :: week_start
  cs_show_commands :: bool
  cs_days :: "calendar_day list"
  cs_entries :: "calendar_entry list"
  cs_caps :: calendar_caps
  cs_warnings :: "string list"

datatype calendar_format = FormatSvg | FormatPng | FormatJson

definition calendar_format_parse :: "string \<Rightarrow> string + calendar_format" where
  "calendar_format_parse s =
     (let k = to_ascii_lowercase (trim s) in
      if k = ''svg'' then Inr FormatSvg else if k = ''png'' then Inr FormatPng
      else if k = ''json'' then Inr FormatJson else Inl (''unknown format '' @ k))"

definition calendar_format_as_str :: "calendar_format \<Rightarrow> string" where
  "calendar_format_as_str f = (case f of FormatSvg \<Rightarrow> ''svg'' | FormatPng \<Rightarrow> ''png'' | FormatJson \<Rightarrow> ''json'')"

definition MONTH_NAMES :: "string list" where
  "MONTH_NAMES = [''January'', ''February'', ''March'', ''April'', ''May'', ''June'', ''July'', ''August'',
     ''September'', ''October'', ''November'', ''December'']"

definition MONTH_ABBREV :: "string list" where
  "MONTH_ABBREV = [''Jan'', ''Feb'', ''Mar'', ''Apr'', ''May'', ''Jun'', ''Jul'', ''Aug'', ''Sep'', ''Oct'', ''Nov'', ''Dec'']"

section \<open>Days\<close>

definition day_add :: "lib \<Rightarrow> day \<Rightarrow> int \<Rightarrow> day exec" where
  "day_add L d n = (if date_min L \<le> d + n \<and> d + n \<le> date_max L then ret (d + n) else panic)"

definition padded :: "nat \<Rightarrow> string \<Rightarrow> string" where
  "padded k s = replicate (k - length s) (CHR ''0'') @ s"

text \<open>\<open>%Y-%m-%d\<close>.\<close>

definition iso_date :: "lib \<Rightarrow> day \<Rightarrow> string" where
  "iso_date L d =
     (let y = date_year L d; digits = padded 4 (Event_Record.decimal (nat \<bar>y\<bar>)) in
      (if y < 0 then ''-'' @ digits else if 9999 < y then ''+'' @ digits else digits) @ ''-'' @
      padded 2 (Event_Record.decimal (date_month L d)) @ ''-'' @ padded 2 (Event_Record.decimal (date_day L d)))"

definition secs_of_day :: "naive \<Rightarrow> nat" where
  "secs_of_day n = nat (time_of n div sec_ns)"

definition clock_text :: "bool \<Rightarrow> nat \<Rightarrow> string" where
  "clock_text with_secs s =
     padded 2 (Event_Record.decimal (s div 3600)) @ '':'' @ padded 2 (Event_Record.decimal (s div 60 mod 60)) @
     (if with_secs then '':'' @ padded 2 (Event_Record.decimal (s mod 60)) else [])"

section \<open>Phrases\<close>

fun split_on :: "char \<Rightarrow> string \<Rightarrow> string list" where
  "split_on x [] = [[]]"
| "split_on x (c # s) =
     (if c = x then [] # split_on x s else case split_on x s of [] \<Rightarrow> [[c]] | p # ps \<Rightarrow> (c # p) # ps)"

definition parse_i32 :: "string \<Rightarrow> int option" where
  "parse_i32 s =
     (case s of
        c # cs \<Rightarrow>
          if c = CHR ''-'' then
            (if cs = [] then None
             else Option.bind (digits_from 0 cs) (\<lambda>n. if n \<le> 2147483648 then Some (- int n) else None))
          else Option.bind (parse_u32 s) (\<lambda>n. if n \<le> 2147483647 then Some (int n) else None)
      | [] \<Rightarrow> None)"

definition parse_year_month :: "lib \<Rightarrow> string \<Rightarrow> (int \<times> nat) option" where
  "parse_year_month L s =
     (case split_on (CHR ''-'') s of
        [a, b] \<Rightarrow>
          Option.bind (parse_i32 a) (\<lambda>y. Option.bind (parse_u32 b) (\<lambda>m.
            if m < 1 \<or> 12 < m then None else map_option (\<lambda>_. (y, m)) (from_ymd_opt L y m 1)))
      | _ \<Rightarrow> None)"

definition name_index :: "string list \<Rightarrow> string \<Rightarrow> nat option" where
  "name_index names k = map_option (\<lambda>i. i + 1) (List.find (\<lambda>i. k = to_ascii_lowercase (names ! i)) [0..<length names])"

definition parse_month_name :: "string \<Rightarrow> nat option" where
  "parse_month_name s =
     (let k = to_ascii_lowercase (trim s) in or_opt (name_index MONTH_NAMES k) (name_index MONTH_ABBREV k))"

definition resolve_month :: "lib \<Rightarrow> string \<Rightarrow> day \<Rightarrow> string + int \<times> nat" where
  "resolve_month L spec now =
     (let s = trim spec; k = to_ascii_lowercase s in
      if k \<in> {''this'', ''this month'', ''current''} then Inr (date_year L now, date_month L now)
      else if k \<in> {''next'', ''next month''} then
        Inr (if date_month L now = 12 then (date_year L now + 1, 1) else (date_year L now, date_month L now + 1))
      else case parse_year_month L s of
        Some ym \<Rightarrow> Inr ym
      | None \<Rightarrow>
          (case parse_month_name s of
             Some m \<Rightarrow> Inr (date_year L now, m)
           | None \<Rightarrow> Inl (''unrecognized month '' @ spec)))"

definition month_bounds :: "lib \<Rightarrow> int \<Rightarrow> nat \<Rightarrow> string + day \<times> day" where
  "month_bounds L year month =
     (case from_ymd_opt L year month 1 of
        None \<Rightarrow> Inl ''invalid month''
      | Some start \<Rightarrow>
          (case (if month = 12 then from_ymd_opt L (year + 1) 1 1 else from_ymd_opt L year (month + 1) 1) of
             None \<Rightarrow> Inl ''invalid next month''
           | Some after \<Rightarrow>
               (case pred_opt L after of None \<Rightarrow> Inl ''date underflow'' | Some end \<Rightarrow> Inr (start, end))))"

definition parse_date :: "(string \<Rightarrow> day option) \<Rightarrow> string \<Rightarrow> string + day" where
  "parse_date ymd s = (case ymd (trim s) of None \<Rightarrow> Inl (''invalid date '' @ s) | Some d \<Rightarrow> Inr d)"

definition calendar_weekday :: "string \<Rightarrow> string + weekday" where
  "calendar_weekday s =
     (let k = to_ascii_lowercase (trim s) in
      if k \<in> {''mon'', ''monday''} then Inr Mon
      else if k \<in> {''tue'', ''tues'', ''tuesday''} then Inr Tue
      else if k \<in> {''wed'', ''wednesday''} then Inr Wed
      else if k \<in> {''thu'', ''thur'', ''thurs'', ''thursday''} then Inr Thu
      else if k \<in> {''fri'', ''friday''} then Inr Fri
      else if k \<in> {''sat'', ''saturday''} then Inr Sat
      else if k \<in> {''sun'', ''sunday''} then Inr Sun
      else Inl (''unknown weekday '' @ k))"

fun weekday_search :: "lib \<Rightarrow> day \<Rightarrow> weekday \<Rightarrow> nat \<Rightarrow> day \<Rightarrow> day exec" where
  "weekday_search L from wd 0 d = ret from"
| "weekday_search L from wd (Suc n) d =
     (if weekday_of L d = wd then ret d else do { d1 \<leftarrow> day_add L d 1; weekday_search L from wd n d1 })"

definition next_weekday :: "lib \<Rightarrow> day \<Rightarrow> weekday \<Rightarrow> bool \<Rightarrow> day exec" where
  "next_weekday L from wd strict =
     do { d \<leftarrow> (if strict then day_add L from 1 else ret from); weekday_search L from wd 8 d }"

definition resolve_day_phrase :: "lib \<Rightarrow> (string \<Rightarrow> day option) \<Rightarrow> string \<Rightarrow> day \<Rightarrow> (string + day) exec" where
  "resolve_day_phrase L ymd phrase now =
     (let s = trim phrase; k = to_ascii_lowercase s in
      if k = ''today'' then ret (Inr now)
      else if k = ''tomorrow'' then do { d \<leftarrow> day_add L now 1; ret (Inr d) }
      else case parse_date ymd s of
        Inr d \<Rightarrow> ret (Inr d)
      | Inl _ \<Rightarrow>
          (case strip_start k ''next '' of
             Some rest \<Rightarrow>
               (case calendar_weekday (trim rest) of
                  Inl e \<Rightarrow> ret (Inl e)
                | Inr wd \<Rightarrow> do { d \<leftarrow> next_weekday L now wd True; ret (Inr d) })
           | None \<Rightarrow>
               (case calendar_weekday k of
                  Inr wd \<Rightarrow> do { d \<leftarrow> next_weekday L now wd False; ret (Inr d) }
                | Inl _ \<Rightarrow> ret (Inl (''unrecognized day phrase '' @ phrase)))))"

definition calendar_local_date :: "instant \<Rightarrow> zone \<Rightarrow> day" where
  "calendar_local_date now z = date_of (naive_local z now)"

section \<open>Tasks\<close>

record expandable =
  x_id :: string
  x_name :: string
  x_enabled :: bool
  x_occurrence :: occurrence
  x_past_status :: calendar_status
  x_command :: "string option"
  x_source :: string

fun words_joined :: "string list \<Rightarrow> string" where
  "words_joined [] = []"
| "words_joined [s] = s"
| "words_joined (s # ss) = s @ '' '' @ words_joined ss"

definition task_from_timer :: "codec \<Rightarrow> timer \<Rightarrow> expandable" where
  "task_from_timer C t =
     \<lparr> x_id = uuid_text C (t_id t), x_name = t_name t, x_enabled = t_enabled t, x_occurrence = t_occurrence t,
       x_past_status = StUnknown,
       x_command = (case t_action t of
           Launch command args _ \<Rightarrow> Some (if args = [] then command else command @ '' '' @ words_joined args)
         | Notify title body \<Rightarrow>
             Some (if body = [] then ''notify: '' @ title
                   else ''notify: '' @ title @ '' '' @ map char_of [226, 128, 148 :: nat] @ '' '' @ body)
         | NoAction \<Rightarrow> None),
       x_source = ''bellman'' \<rparr>"

lemma dropWhile_shorter [termination_simp]: "length (dropWhile P s) < Suc (length s)"
  by (simp add: less_Suc_eq_le length_dropWhile_le)

fun split_whitespace :: "string \<Rightarrow> string list" where
  "split_whitespace [] = []"
| "split_whitespace (c # s) =
     (if is_whitespace c then split_whitespace s
      else (c # takeWhile (\<lambda>c. \<not> is_whitespace c) s) # split_whitespace (dropWhile (\<lambda>c. \<not> is_whitespace c) s))"

text \<open>Slicing inside a character panics.\<close>

definition slice_to :: "string \<Rightarrow> nat \<Rightarrow> string exec" where
  "slice_to s n = (if is_char_boundary s n then ret (take n s) else panic)"

definition ELLIPSIS :: string where "ELLIPSIS = map char_of [226, 128, 166 :: nat]"

definition short_name :: "discovered_task \<Rightarrow> string exec" where
  "short_name t =
     (let cmd = trim (dt_command t) in
      if cmd = [] \<or> cmd = ''(no action)'' then ret (dt_source t)
      else let first = (case split_whitespace cmd of [] \<Rightarrow> cmd | w # _ \<Rightarrow> w);
               base = hd (rev (split_on (CHR ''/'') first)) in
        if 28 < length base then do { s \<leftarrow> slice_to base 27; ret (s @ ELLIPSIS) } else ret base)"

definition occurrence_from_discovered :: "lib \<Rightarrow> discovered_task \<Rightarrow> string \<Rightarrow> occurrence option" where
  "occurrence_from_discovered L t z =
     (let expr = trim (dt_schedule t) in
      if 5 \<le> length (split_whitespace expr) \<and> \<not> starts_with expr ''once '' then
        if \<exists>p\<in>{''daily '', ''weekly '', ''monthly '', ''yearly '', ''every ''}. starts_with expr p then None
        else if starts_with expr ''@'' \<and> contains (to_ascii_lowercase expr) ''reboot'' then None
        else case occurrence_new L (Cron expr) z of Inr oc \<Rightarrow> Some oc | Inl _ \<Rightarrow> None
      else None)"

definition try_from_discovered :: "lib \<Rightarrow> discovered_task \<Rightarrow> expandable option exec" where
  "try_from_discovered L t =
     (case occurrence_from_discovered L t (case dt_timezone t of None \<Rightarrow> ''UTC'' | Some z \<Rightarrow> z) of
        None \<Rightarrow> ret None
      | Some oc \<Rightarrow>
          do { name \<leftarrow> short_name t;
               ret (Some \<lparr> x_id = dt_id t, x_name = name, x_enabled = dt_enabled t, x_occurrence = oc,
                 x_past_status = (case dt_last_result t of LastOk _ \<Rightarrow> StOk | LastFailed _ \<Rightarrow> StFailed | _ \<Rightarrow> StUnknown),
                 x_command = Some (dt_command t), x_source = source_kind_as_str (dt_source_kind t) \<rparr>) })"

definition task_repeats :: "expandable \<Rightarrow> bool" where
  "task_repeats t = (case kind (x_occurrence t) of Once _ \<Rightarrow> False | _ \<Rightarrow> True)"

definition tasks_from_store :: "codec \<Rightarrow> store \<Rightarrow> expandable list \<times> store" where
  "tasks_from_store C s = (let (ts, s1) = list_timers s in (map (task_from_timer C) ts, s1))"

section \<open>The snapshot\<close>

text \<open>The instant of a day's midnight; a midnight in a gap has none.\<close>

definition local_midnight :: "zone \<Rightarrow> day \<Rightarrow> instant option" where
  "local_midnight z d = (case from_local_datetime z (at_time d 0) of
     Single t \<Rightarrow> Some t | Ambiguous a b \<Rightarrow> Some a | NoLocal \<Rightarrow> None)"

definition classify_status :: "expandable \<Rightarrow> instant \<Rightarrow> instant \<Rightarrow> calendar_status" where
  "classify_status t fire now =
     (if \<not> x_enabled t then StDisabled else if now < fire then StUpcoming else x_past_status t)"

definition is_continuation :: "char \<Rightarrow> bool" where
  "is_continuation c \<longleftrightarrow> (let n = of_char c :: nat in 128 \<le> n \<and> n < 192)"

definition char_count :: "string \<Rightarrow> nat" where
  "char_count s = length (filter (\<lambda>c. \<not> is_continuation c) s)"

fun take_chars :: "nat \<Rightarrow> string \<Rightarrow> string" where
  "take_chars n [] = []"
| "take_chars n (c # s) =
     (if is_continuation c then c # take_chars n s
      else case n of 0 \<Rightarrow> [] | Suc m \<Rightarrow> c # take_chars m s)"

definition truncate_name :: "string \<Rightarrow> nat \<Rightarrow> string" where
  "truncate_name name cap = (if char_count name \<le> cap then name else take_chars (cap - 1) name @ ELLIPSIS)"

definition snapshot_entry :: "lib \<Rightarrow> calendar_options \<Rightarrow> zone \<Rightarrow> expandable \<Rightarrow> instant \<Rightarrow> calendar_entry" where
  "snapshot_entry L opts z t fire =
     (let n = naive_local z fire; s = secs_of_day n in
      \<lparr> ce_task = x_id t, ce_name = truncate_name (x_name t) 40, ce_time = clock_text False s, ce_secs = s,
        ce_date = iso_date L (date_of n), ce_repeats = task_repeats t,
        ce_status = classify_status t fire (co_now opts),
        ce_command = (if co_show_commands opts then x_command t else None), ce_source = x_source t \<rparr>)"

text \<open>The fires of one task that land in the range, at most \<open>room\<close> of them.\<close>

fun place_fires :: "calendar_options \<Rightarrow> zone \<Rightarrow> instant \<Rightarrow> instant \<Rightarrow> nat \<Rightarrow> instant list \<Rightarrow> instant list" where
  "place_fires opts z start stop room [] = []"
| "place_fires opts z start stop room (fire # fires) =
     (let d = date_of (naive_local z fire) in
      if stop \<le> fire then []
      else if fire < start \<or> d < co_from opts \<or> co_to opts < d then place_fires opts z start stop room fires
      else fire # (if room \<le> 1 then [] else place_fires opts z start stop (room - 1) fires))"

definition truncated_note :: "string \<Rightarrow> nat \<Rightarrow> string" where
  "truncated_note i n = ''task '' @ i @ '' truncated at '' @ Event_Record.decimal n @ '' fires''"

fun expand_tasks ::
  "lib \<Rightarrow> calendar_options \<Rightarrow> zone \<Rightarrow> instant \<Rightarrow> instant \<Rightarrow> instant \<Rightarrow> expandable list \<Rightarrow>
     calendar_entry list \<Rightarrow> string list \<Rightarrow> (calendar_entry list \<times> string list) exec" where
  "expand_tasks L opts z begin_at start stop [] entries warnings = ret (entries, warnings)"
| "expand_tasks L opts z begin_at start stop (t # ts) entries warnings =
     (let caps = co_caps opts in
      if max_total_entries caps \<le> length entries
      then ret (entries, warnings @ [''capped total entries at '' @ Event_Record.decimal (max_total_entries caps)])
      else
        let cap = min (max_fires_per_task caps) (max_total_entries caps - length entries) in
        do { _ \<leftarrow> timezone L (x_occurrence t);
             fires \<leftarrow> preview L (x_occurrence t) begin_at cap;
             let placed = place_fires opts z start stop cap fires;
             expand_tasks L opts z begin_at start stop ts (entries @ map (snapshot_entry L opts z t) placed)
               (if placed \<noteq> [] \<and> cap \<le> length placed \<and> cap = max_fires_per_task caps
                then warnings @ [truncated_note (x_id t) cap] else warnings) })"

definition start_of_week :: "lib \<Rightarrow> day \<Rightarrow> week_start \<Rightarrow> day exec" where
  "start_of_week L d w = day_add L d (- int (week_column w (weekday_from_monday L d)))"

definition end_of_week :: "lib \<Rightarrow> day \<Rightarrow> week_start \<Rightarrow> day exec" where
  "end_of_week L d w = day_add L d (int (6 - week_column w (weekday_from_monday L d)))"

definition grid_day :: "lib \<Rightarrow> (day \<Rightarrow> bool) \<Rightarrow> calendar_entry list \<Rightarrow> nat \<Rightarrow> day \<Rightarrow> calendar_day" where
  "grid_day L in_month entries per_cell d =
     (let key = iso_date L d; here = filter (\<lambda>e. ce_date e = key) entries in
      \<lparr> cd_date = key, cd_day = date_day L d, cd_in_month = in_month d, cd_entries = take per_cell here,
        cd_overflow = length here - per_cell, cd_total = length here \<rparr>)"

definition build_grid ::
  "lib \<Rightarrow> day \<Rightarrow> day \<Rightarrow> (int \<times> nat) option \<Rightarrow> week_start \<Rightarrow> calendar_entry list \<Rightarrow> nat \<Rightarrow> calendar_day list exec" where
  "build_grid L from to month w entries per_cell =
     (let (first, final, in_month) = (case month of
          Some (y, m) \<Rightarrow>
            (case from_ymd_opt L y m 1 of None \<Rightarrow> from | Some d \<Rightarrow> d,
             case month_bounds L y m of Inl _ \<Rightarrow> to | Inr (_, e) \<Rightarrow> e,
             \<lambda>d. date_year L d = y \<and> date_month L d = m)
        | None \<Rightarrow> (from, to, \<lambda>d. from \<le> d \<and> d \<le> to)) in
      do { a \<leftarrow> start_of_week L first w;
           b \<leftarrow> end_of_week L final w;
           _ \<leftarrow> (if a \<le> b then day_add L b 1 else ret b);
           ret (map (\<lambda>i. grid_day L in_month entries per_cell (a + int i)) [0..<nat (b + 1 - a)]) })"

definition tasks_capped :: "nat \<Rightarrow> nat \<Rightarrow> string list" where
  "tasks_capped cap n = (if cap < n then [''capped tasks at '' @ Event_Record.decimal cap @ '' (source had '' @
     Event_Record.decimal n @ '')''] else [])"

definition build_snapshot :: "lib \<Rightarrow> expandable list \<Rightarrow> calendar_options \<Rightarrow> (string + calendar_snapshot) exec" where
  "build_snapshot L tasks opts =
     (if co_to opts < co_from opts then ret (Inl ''range end is before start'')
      else case tz_from_str L (co_timezone opts) of
        None \<Rightarrow> ret (Inl (''unknown timezone '' @ co_timezone opts))
      | Some z \<Rightarrow>
          (case local_midnight z (co_from opts) of
             None \<Rightarrow> ret (Inl ''cannot resolve local midnight'')
           | Some start \<Rightarrow>
               do { begin_at \<leftarrow> instant_add L start (-1);
                    next_day \<leftarrow> day_add L (co_to opts) 1;
                    case local_midnight z next_day of
                      None \<Rightarrow> ret (Inl ''cannot resolve local end'')
                    | Some stop \<Rightarrow>
                        let caps = co_caps opts in
                        do { (es, warnings) \<leftarrow> expand_tasks L opts z begin_at start stop (take (max_tasks caps) tasks) []
                               (tasks_capped (max_tasks caps) (length tasks));
                             let sorted = sort_key (\<lambda>e. (ce_date e, ce_time e, ce_secs e, ce_name e, ce_task e)) es;
                             days \<leftarrow> build_grid L (co_from opts) (co_to opts) (co_month opts) (co_week_start opts) sorted
                               (max_per_cell caps);
                             ret (Inr \<lparr> cs_from = iso_date L (co_from opts), cs_to = iso_date L (co_to opts),
                               cs_month = co_month opts, cs_timezone = co_timezone opts,
                               cs_week_start = co_week_start opts, cs_show_commands = co_show_commands opts,
                               cs_days = days, cs_entries = sorted, cs_caps = caps, cs_warnings = warnings \<rparr>) } }))"

definition snapshot_month_from_store ::
  "lib \<Rightarrow> codec \<Rightarrow> store \<Rightarrow> int \<Rightarrow> nat \<Rightarrow> string \<Rightarrow> week_start \<Rightarrow> bool \<Rightarrow> instant \<Rightarrow> calendar_caps \<Rightarrow>
     (string + calendar_snapshot) exec" where
  "snapshot_month_from_store L C s year month z w show_commands now caps =
     (case month_bounds L year month of
        Inl e \<Rightarrow> ret (Inl e)
      | Inr (from, to) \<Rightarrow>
          build_snapshot L (fst (tasks_from_store C s))
            \<lparr> co_from = from, co_to = to, co_month = Some (year, month), co_timezone = z, co_week_start = w,
              co_show_commands = show_commands, co_now = now, co_caps = caps \<rparr>)"

end
