(* ===== verification/Calendar_Truth.thy ===== *)
theory Calendar_Truth
  imports Calendar_Build Action_Executor "HOL-Library.AList"
begin

text \<open>
  \<open>calendar/truth.rs\<close>: the week and month views. The past shows what events and the run ledger
  record, the future what the schedules project.

  The buckets of recorded runs are a \<open>HashMap\<close>; the order it is drained in is the parameter
  \<open>drain\<close>. The two indexes name buckets by key; a key without its bucket is a panic.
\<close>

section \<open>Types\<close>

datatype truth_source = Recorded | Upcoming

definition truth_source_as_str :: "truth_source \<Rightarrow> string" where
  "truth_source_as_str s = (case s of Recorded \<Rightarrow> ''recorded'' | Upcoming \<Rightarrow> ''upcoming'')"

datatype outcome_label = OutDelivered | OutFailed | OutSkipped | OutLate | OutCoalesced | OutUnknown | OutUpcoming

definition outcome_label_as_str :: "outcome_label \<Rightarrow> string" where
  "outcome_label_as_str o1 = (case o1 of OutDelivered \<Rightarrow> ''delivered'' | OutFailed \<Rightarrow> ''failed''
   | OutSkipped \<Rightarrow> ''skipped'' | OutLate \<Rightarrow> ''late'' | OutCoalesced \<Rightarrow> ''coalesced''
   | OutUnknown \<Rightarrow> ''unknown'' | OutUpcoming \<Rightarrow> ''upcoming'')"

record truth_entry =
  te_timer :: "string option"
  te_run :: "string option"
  te_name :: string
  te_scheduled :: instant
  te_date :: string
  te_time :: string
  te_secs :: nat
  te_source :: truth_source
  te_outcome :: outcome_label
  te_kind :: "string option"
  te_enabled :: "bool option"

record truth_window =
  tw_from :: string
  tw_to :: string
  tw_timezone :: string
  tw_now :: instant
  tw_entries :: "truth_entry list"
  tw_warnings :: "string list"

record truth_options =
  to_from :: day
  to_to :: day
  to_timezone :: string
  to_now :: instant
  to_caps :: calendar_caps

section \<open>Recorded runs\<close>

record record_bucket =
  rb_timer :: "string option"
  rb_run :: "string option"
  rb_scheduled :: instant
  rb_name :: "string option"
  rb_kinds :: "run_state list"
  rb_has_events :: bool

record truth_index =
  ti_buckets :: "(string \<times> record_bucket) list"
  ti_by_run :: "string \<rightharpoonup> string"
  ti_by_sec :: "string \<times> int \<rightharpoonup> string"

definition empty_index :: truth_index where
  "empty_index = \<lparr>ti_buckets = [], ti_by_run = Map.empty, ti_by_sec = Map.empty\<rparr>"

definition second_of :: "instant \<Rightarrow> int" where "second_of t = t div sec_ns"

definition nanos_opt :: "instant \<Rightarrow> int option" where
  "nanos_opt t = (if - i64_max - 1 \<le> t \<and> t \<le> i64_max then Some t else None)"

definition nanos_or_zero :: "instant \<Rightarrow> int" where
  "nanos_or_zero t = (case nanos_opt t of None \<Rightarrow> 0 | Some n \<Rightarrow> n)"

definition link_run :: "string option \<Rightarrow> string \<Rightarrow> truth_index \<Rightarrow> truth_index" where
  "link_run rid bid i = (case rid of None \<Rightarrow> i | Some r \<Rightarrow> i\<lparr>ti_by_run := (ti_by_run i)(r \<mapsto> bid)\<rparr>)"

definition link_sec :: "string option \<Rightarrow> int \<Rightarrow> string \<Rightarrow> truth_index \<Rightarrow> truth_index" where
  "link_sec tid sec bid i = (case tid of None \<Rightarrow> i | Some t \<Rightarrow> i\<lparr>ti_by_sec := (ti_by_sec i)((t, sec) \<mapsto> bid)\<rparr>)"

definition put_bucket :: "string \<Rightarrow> record_bucket \<Rightarrow> truth_index \<Rightarrow> truth_index" where
  "put_bucket bid b i = i\<lparr>ti_buckets := AList.update bid b (ti_buckets i)\<rparr>"

definition new_bucket :: "string option \<Rightarrow> string option \<Rightarrow> instant \<Rightarrow> record_bucket" where
  "new_bucket tid rid t = \<lparr>rb_timer = tid, rb_run = rid, rb_scheduled = t, rb_name = None, rb_kinds = [], rb_has_events = False\<rparr>"

definition bucket_id :: "string option \<Rightarrow> string option \<Rightarrow> instant \<Rightarrow> string" where
  "bucket_id tid rid t = (case rid of
     Some r \<Rightarrow> ''run:'' @ r
   | None \<Rightarrow> (case tid of
        Some i \<Rightarrow> ''ts:'' @ i @ '':'' @ int_text (second_of t)
      | None \<Rightarrow> ''anon:'' @ int_text (case nanos_opt t of Some n \<Rightarrow> n | None \<Rightarrow> second_of t)))"

definition promote :: "string option \<Rightarrow> string \<Rightarrow> truth_index \<Rightarrow> truth_index" where
  "promote rid bid i = (case rid of
     None \<Rightarrow> i
   | Some r \<Rightarrow>
       let i1 = i\<lparr>ti_by_run := (ti_by_run i)(r \<mapsto> bid)\<rparr> in
       (case map_of (ti_buckets i1) bid of
          None \<Rightarrow> i1
        | Some b \<Rightarrow> if rb_run b = None then put_bucket bid (b\<lparr>rb_run := Some r\<rparr>) i1 else i1))"

definition create_bucket :: "truth_index \<Rightarrow> string option \<Rightarrow> string option \<Rightarrow> instant \<Rightarrow> string \<times> truth_index" where
  "create_bucket i tid rid t =
     (let bid = bucket_id tid rid t in
      (bid, link_sec tid (second_of t) bid (link_run rid bid (put_bucket bid (new_bucket tid rid t) i))))"

definition resolve_or_create_bucket ::
  "truth_index \<Rightarrow> string option \<Rightarrow> string option \<Rightarrow> instant \<Rightarrow> string \<times> truth_index" where
  "resolve_or_create_bucket i tid rid t =
     (case Option.bind rid (ti_by_run i) of
        Some bid \<Rightarrow> (bid, link_sec tid (second_of t) bid i)
      | None \<Rightarrow>
          (case Option.bind tid (\<lambda>x. ti_by_sec i (x, second_of t)) of
             Some bid \<Rightarrow> (bid, promote rid bid i)
           | None \<Rightarrow> create_bucket i tid rid t))"

definition is_outcome_event :: "run_state \<Rightarrow> bool" where
  "is_outcome_event k \<longleftrightarrow> k \<in> {Fired, FiredLate, SkippedMisfireEv, Coalesced, WakeDeliveredEv, WakeFailedEv, NoAck}"

definition outcome_from_kinds :: "run_state list \<Rightarrow> outcome_label" where
  "outcome_from_kinds ks =
     (if \<exists>k\<in>set ks. k = WakeFailedEv \<or> k = NoAck then OutFailed
      else if SkippedMisfireEv \<in> set ks then OutSkipped
      else if Coalesced \<in> set ks then OutCoalesced
      else if FiredLate \<in> set ks then OutLate
      else OutDelivered)"

definition outcome_from_bucket :: "record_bucket \<Rightarrow> outcome_label" where
  "outcome_from_bucket b =
     (if \<not> rb_has_events b \<or> rb_kinds b = [] then OutUnknown else outcome_from_kinds (rb_kinds b))"

definition event_when :: "event \<Rightarrow> instant" where
  "event_when e = (case e_scheduled_for e of None \<Rightarrow> e_logged_at e | Some t \<Rightarrow> t)"

definition absorb_event :: "codec \<Rightarrow> event \<Rightarrow> record_bucket \<Rightarrow> record_bucket" where
  "absorb_event C e b =
     b\<lparr> rb_run := (case rb_run b of None \<Rightarrow> map_option (uuid_text C) (e_run_id e) | r \<Rightarrow> r),
        rb_timer := (case rb_timer b of None \<Rightarrow> map_option (uuid_text C) (e_timer_id e) | t \<Rightarrow> t),
        rb_name := (case rb_name b of None \<Rightarrow> (if e_timer_name e = Some [] then None else e_timer_name e) | n \<Rightarrow> n),
        rb_scheduled := min (event_when e) (rb_scheduled b),
        rb_kinds := rb_kinds b @ [e_kind e],
        rb_has_events := True \<rparr>"

text \<open>Both passes take only what happened before now, inside the range.\<close>

definition past_in_range :: "instant \<Rightarrow> instant \<Rightarrow> instant \<Rightarrow> instant \<Rightarrow> bool" where
  "past_in_range now start stop t \<longleftrightarrow> t < now \<and> start \<le> t \<and> t < stop"

definition record_event :: "codec \<Rightarrow> instant \<Rightarrow> instant \<Rightarrow> instant \<Rightarrow> event \<Rightarrow> truth_index \<Rightarrow> truth_index exec" where
  "record_event C now start stop e i =
     (if \<not> is_outcome_event (e_kind e) then ret i
      else if \<not> past_in_range now start stop (event_when e) then ret i
      else
        let (bid, i1) = resolve_or_create_bucket i (map_option (uuid_text C) (e_timer_id e))
              (map_option (uuid_text C) (e_run_id e)) (event_when e) in
        (case map_of (ti_buckets i1) bid of
           None \<Rightarrow> panic
         | Some b \<Rightarrow> ret (put_bucket bid (absorb_event C e b) i1)))"

fun record_events :: "codec \<Rightarrow> instant \<Rightarrow> instant \<Rightarrow> instant \<Rightarrow> event list \<Rightarrow> truth_index \<Rightarrow> truth_index exec" where
  "record_events C now start stop [] i = ret i"
| "record_events C now start stop (e # es) i =
     do { i1 \<leftarrow> record_event C now start stop e i; record_events C now start stop es i1 }"

text \<open>A claim joins the bucket of its run or of its timer and second, or is a bucket of its own.\<close>

definition record_claim :: "codec \<Rightarrow> instant \<Rightarrow> instant \<Rightarrow> instant \<Rightarrow> run_claim \<Rightarrow> truth_index \<Rightarrow> truth_index exec" where
  "record_claim C now start stop c i =
     (if r_outcome c \<noteq> Some WakeDelivered then ret i
      else if \<not> past_in_range now start stop (r_scheduled_for c) then ret i
      else
        let run_s = uuid_text C (r_id c); tid = uuid_text C (r_timer c); sec = second_of (r_scheduled_for c) in
        (case or_opt (ti_by_run i run_s) (ti_by_sec i (tid, sec)) of
           Some bid \<Rightarrow>
             (case map_of (ti_buckets i) bid of
                None \<Rightarrow> panic
              | Some b \<Rightarrow>
                  let i1 = (if rb_run b = None then link_run (Some run_s) bid i else i);
                      b1 = b\<lparr>rb_run := (if rb_run b = None then Some run_s else rb_run b),
                             rb_timer := (if rb_timer b = None then Some tid else rb_timer b)\<rparr> in
                  ret (link_sec (Some tid) sec bid (put_bucket bid b1 i1)))
         | None \<Rightarrow>
             ret (snd (create_bucket i (Some tid) (Some run_s) (r_scheduled_for c)))))"

fun record_claims :: "codec \<Rightarrow> instant \<Rightarrow> instant \<Rightarrow> instant \<Rightarrow> run_claim list \<Rightarrow> truth_index \<Rightarrow> truth_index exec" where
  "record_claims C now start stop [] i = ret i"
| "record_claims C now start stop (c # cs) i =
     do { i1 \<leftarrow> record_claim C now start stop c i; record_claims C now start stop cs i1 }"

section \<open>Entries\<close>

type_synonym dedupe_key = "string \<times> int"

definition short_id :: "string \<Rightarrow> string exec" where
  "short_id i = (if 8 < length i then do { s \<leftarrow> slice_to i 8; ret (s @ ELLIPSIS) } else ret i)"

definition recorded_name :: "record_bucket \<Rightarrow> string exec" where
  "recorded_name b = (case rb_name b of
     Some n \<Rightarrow> ret n
   | None \<Rightarrow> (case rb_timer b of None \<Rightarrow> ret ''(unknown)'' | Some i \<Rightarrow> short_id i))"

definition in_days :: "truth_options \<Rightarrow> zone \<Rightarrow> instant \<Rightarrow> bool" where
  "in_days opts z t \<longleftrightarrow> to_from opts \<le> date_of (naive_local z t) \<and> date_of (naive_local z t) \<le> to_to opts"

definition recorded_entry :: "lib \<Rightarrow> zone \<Rightarrow> record_bucket \<Rightarrow> string \<Rightarrow> truth_entry" where
  "recorded_entry L z b name =
     (let n = naive_local z (rb_scheduled b); s = secs_of_day n in
      \<lparr> te_timer = rb_timer b, te_run = rb_run b, te_name = name, te_scheduled = rb_scheduled b,
        te_date = iso_date L (date_of n), te_time = clock_text True s, te_secs = s, te_source = Recorded,
        te_outcome = outcome_from_bucket b, te_kind = None, te_enabled = None \<rparr>)"

fun recorded_entries ::
  "lib \<Rightarrow> truth_options \<Rightarrow> zone \<Rightarrow> record_bucket list \<Rightarrow> (truth_entry list \<times> dedupe_key list) exec" where
  "recorded_entries L opts z [] = ret ([], [])"
| "recorded_entries L opts z (b # bs) =
     (if \<not> in_days opts z (rb_scheduled b) then recorded_entries L opts z bs
      else do { name \<leftarrow> recorded_name b;
                (es, ks) \<leftarrow> recorded_entries L opts z bs;
                ret (recorded_entry L z b name # es,
                  (case rb_timer b of None \<Rightarrow> ks | Some i \<Rightarrow> (i, nanos_or_zero (rb_scheduled b)) # ks)) })"

definition occurrence_kind_str :: "occurrence \<Rightarrow> string" where
  "occurrence_kind_str oc = (case kind oc of
     Once _ \<Rightarrow> ''once'' | Interval _ _ \<Rightarrow> ''interval'' | Daily _ \<Rightarrow> ''daily'' | Weekly _ _ \<Rightarrow> ''weekly''
   | Monthly _ _ \<Rightarrow> ''monthly'' | Yearly _ _ _ \<Rightarrow> ''yearly'' | Cron _ \<Rightarrow> ''cron'')"

text \<open>A projection gives way to a recorded run of its timer in the same second.\<close>

definition suppressed :: "dedupe_key list \<Rightarrow> string \<Rightarrow> instant \<Rightarrow> bool" where
  "suppressed keys i t \<longleftrightarrow>
     (i, nanos_or_zero t) \<in> set keys \<or> (\<exists>(j, n)\<in>set keys. j = i \<and> num_seconds n = num_seconds (nanos_or_zero t))"

fun project_fires ::
  "truth_options \<Rightarrow> zone \<Rightarrow> instant \<Rightarrow> instant \<Rightarrow> dedupe_key list \<Rightarrow> string \<Rightarrow> nat \<Rightarrow> instant list \<Rightarrow> instant list" where
  "project_fires opts z start stop keys i room [] = []"
| "project_fires opts z start stop keys i room (t # ts) =
     (if t \<le> to_now opts then project_fires opts z start stop keys i room ts
      else if stop \<le> t then []
      else if t < start \<or> \<not> in_days opts z t \<or> suppressed keys i t then project_fires opts z start stop keys i room ts
      else t # (if room \<le> 1 then [] else project_fires opts z start stop keys i (room - 1) ts))"

definition upcoming_entry :: "lib \<Rightarrow> zone \<Rightarrow> expandable \<Rightarrow> instant \<Rightarrow> truth_entry" where
  "upcoming_entry L z x t =
     (let n = naive_local z t; s = secs_of_day n in
      \<lparr> te_timer = Some (x_id x), te_run = None, te_name = x_name x, te_scheduled = t,
        te_date = iso_date L (date_of n), te_time = clock_text True s, te_secs = s, te_source = Upcoming,
        te_outcome = OutUpcoming, te_kind = Some (occurrence_kind_str (x_occurrence x)),
        te_enabled = Some (x_enabled x) \<rparr>)"

fun project_tasks ::
  "lib \<Rightarrow> truth_options \<Rightarrow> zone \<Rightarrow> instant \<Rightarrow> instant \<Rightarrow> dedupe_key list \<Rightarrow> expandable list \<Rightarrow>
     truth_entry list \<Rightarrow> string list \<Rightarrow> (truth_entry list \<times> string list) exec" where
  "project_tasks L opts z start stop keys [] entries warnings = ret (entries, warnings)"
| "project_tasks L opts z start stop keys (x # xs) entries warnings =
     (let caps = to_caps opts in
      if max_total_entries caps \<le> length entries
      then ret (entries, warnings @ [''capped total entries at '' @ Event_Record.decimal (max_total_entries caps)])
      else
        let cap = min (max_fires_per_task caps) (max_total_entries caps - length entries) in
        do { _ \<leftarrow> timezone L (x_occurrence x);
             fires \<leftarrow> preview L (x_occurrence x) (to_now opts) cap;
             let placed = project_fires opts z start stop keys (x_id x) cap fires;
             project_tasks L opts z start stop keys xs (entries @ map (upcoming_entry L z x) placed)
               (if placed \<noteq> [] \<and> cap \<le> length placed \<and> cap = max_fires_per_task caps
                then warnings @ [truncated_note (x_id x) cap] else warnings) })"

section \<open>The window\<close>

definition local_range_bounds :: "lib \<Rightarrow> day \<Rightarrow> day \<Rightarrow> zone \<Rightarrow> (string + instant \<times> instant) exec" where
  "local_range_bounds L from to z =
     (case local_midnight z from of
        None \<Rightarrow> ret (Inl ''cannot resolve local midnight'')
      | Some start \<Rightarrow>
          do { next_day \<leftarrow> day_add L to 1;
               ret (case local_midnight z next_day of
                  None \<Rightarrow> Inl ''cannot resolve local end''
                | Some stop \<Rightarrow> Inr (start, stop)) })"

definition truth_key :: "truth_entry \<Rightarrow> string \<times> nat \<times> string \<times> string \<times> string" where
  "truth_key e = (te_date e, te_secs e, te_name e, (case te_timer e of None \<Rightarrow> [] | Some i \<Rightarrow> i),
     truth_source_as_str (te_source e))"

definition truth_entries ::
  "lib \<Rightarrow> codec \<Rightarrow> ((string \<times> record_bucket) list \<Rightarrow> record_bucket list) \<Rightarrow> truth_options \<Rightarrow> zone \<Rightarrow>
     instant \<Rightarrow> instant \<Rightarrow> expandable list \<Rightarrow> event list \<Rightarrow> run_claim list \<Rightarrow>
     (truth_entry list \<times> string list) exec" where
  "truth_entries L C drain opts z start stop tasks events claims =
     do { i1 \<leftarrow> record_events C (to_now opts) start stop events empty_index;
          i2 \<leftarrow> record_claims C (to_now opts) start stop claims i1;
          (recorded, keys) \<leftarrow> recorded_entries L opts z (drain (ti_buckets i2));
          let caps = to_caps opts;
          (es, warnings) \<leftarrow> project_tasks L opts z start stop keys (take (max_tasks caps) tasks) recorded
            (tasks_capped (max_tasks caps) (length tasks));
          ret (sort_key truth_key es, warnings) }"

definition build_truth_window ::
  "lib \<Rightarrow> codec \<Rightarrow> ((string \<times> record_bucket) list \<Rightarrow> record_bucket list) \<Rightarrow> expandable list \<Rightarrow> event list \<Rightarrow>
     run_claim list \<Rightarrow> truth_options \<Rightarrow> (string + truth_window) exec" where
  "build_truth_window L C drain tasks events claims opts =
     (if to_to opts < to_from opts then ret (Inl ''range end is before start'')
      else case tz_from_str L (to_timezone opts) of
        None \<Rightarrow> ret (Inl (''unknown timezone '' @ to_timezone opts))
      | Some z \<Rightarrow>
          do { bounds \<leftarrow> local_range_bounds L (to_from opts) (to_to opts) z;
               case bounds of
                 Inl e \<Rightarrow> ret (Inl e)
               | Inr (start, stop) \<Rightarrow>
                   do { (es, warnings) \<leftarrow> truth_entries L C drain opts z start stop tasks events claims;
                        ret (Inr \<lparr> tw_from = iso_date L (to_from opts), tw_to = iso_date L (to_to opts),
                          tw_timezone = to_timezone opts, tw_now = to_now opts, tw_entries = es,
                          tw_warnings = warnings \<rparr>) } })"

end
