(* ===== verification/Calendar_Evidence.thy ===== *)
theory Calendar_Evidence
  imports Calendar_Truth Tree_Properties
begin

text \<open>
  What the recorded entries of the truth window rest on: the index of buckets keeps one bucket for a
  run, and each bucket is the events of one fire, chained by run or by timer and second, or a claim
  of the ledger.
\<close>

section \<open>The index of recorded runs\<close>

definition idx_ok :: "truth_index \<Rightarrow> bool" where
  "idx_ok i \<longleftrightarrow> distinct (map fst (ti_buckets i)) \<and>
     (\<forall>r bid. ti_by_run i r = Some bid \<longrightarrow> map_of (ti_buckets i) bid \<noteq> None) \<and>
     (\<forall>k bid. ti_by_sec i k = Some bid \<longrightarrow> map_of (ti_buckets i) bid \<noteq> None) \<and>
     (\<forall>bid b r. map_of (ti_buckets i) bid = Some b \<longrightarrow> rb_run b = Some r \<longrightarrow> ti_by_run i r = Some bid)"

lemma idx_empty: "idx_ok empty_index"
  by (simp add: idx_ok_def empty_index_def)

lemma idx_run: "idx_ok i \<Longrightarrow> ti_by_run i r = Some bid \<Longrightarrow> \<exists>b. map_of (ti_buckets i) bid = Some b"
  and idx_sec: "idx_ok i \<Longrightarrow> ti_by_sec i k = Some bid \<Longrightarrow> \<exists>b. map_of (ti_buckets i) bid = Some b"
  and idx_own: "idx_ok i \<Longrightarrow> map_of (ti_buckets i) bid = Some b \<Longrightarrow> rb_run b = Some r \<Longrightarrow> ti_by_run i r = Some bid"
  unfolding idx_ok_def by blast+

lemma idx_link_sec:
  "idx_ok i \<Longrightarrow> map_of (ti_buckets i) bid \<noteq> None \<Longrightarrow> idx_ok (link_sec tid sec bid i)"
  by (auto simp: idx_ok_def link_sec_def split: option.splits)

lemma buckets_linked [simp]:
  "ti_buckets (link_sec tid sec bid i) = ti_buckets i" "ti_by_run (link_sec tid sec bid i) = ti_by_run i"
  "ti_buckets (link_run rid bid i) = ti_buckets i" "ti_by_sec (link_run rid bid i) = ti_by_sec i"
  by (simp_all add: link_sec_def link_run_def split: option.splits)

lemma map_of_put [simp]: "map_of (ti_buckets (put_bucket bid b i)) = (map_of (ti_buckets i))(bid \<mapsto> b)"
  by (simp add: put_bucket_def update_conv')

lemma put_frame [simp]:
  "ti_by_run (put_bucket bid b i) = ti_by_run i" "ti_by_sec (put_bucket bid b i) = ti_by_sec i"
  by (simp_all add: put_bucket_def)

lemma by_run_link: "ti_by_run (link_run rid bid i) r = (if rid = Some r then Some bid else ti_by_run i r)"
  by (simp add: link_run_def split: option.splits)

text \<open>A bucket may carry a run that its index names, or one that no bucket has.\<close>

lemma idx_put_link:
  assumes "idx_ok i" "rb_run b = None \<or> rb_run b = rid \<or> Option.bind (rb_run b) (ti_by_run i) = Some bid"
    "\<And>r. rid = Some r \<Longrightarrow> ti_by_run i r \<in> {None, Some bid}"
  shows "idx_ok (link_run rid bid (put_bucket bid b i))"
  unfolding idx_ok_def
proof (intro conjI allI impI)
  show "distinct (map fst (ti_buckets (link_run rid bid (put_bucket bid b i))))"
    using assms(1) by (simp add: idx_ok_def put_bucket_def distinct_update)
next
  fix c d r
  assume a: "map_of (ti_buckets (link_run rid bid (put_bucket bid b i))) c = Some d" "rb_run d = Some r"
  show "ti_by_run (link_run rid bid (put_bucket bid b i)) r = Some c"
  proof (cases "c = bid")
    case True
    then show ?thesis using a assms(2) by (auto simp: by_run_link)
  next
    case False
    then have "ti_by_run i r = Some c" using a idx_own [OF assms(1)] by simp
    then show ?thesis using False assms(3) by (auto simp: by_run_link)
  qed
qed (use assms(1) in \<open>auto simp: idx_ok_def by_run_link split: if_splits\<close>)

lemma link_run_None [simp]: "link_run None bid i = i"
  by (simp add: link_run_def)

lemmas idx_put = idx_put_link [where rid = None, simplified]

text \<open>The bucket answered exists, and every other bucket is as it was.\<close>

lemma promote_swap:
  "map_of (ti_buckets i) bid = Some b \<Longrightarrow>
   promote (Some r) bid i = link_run (Some r) bid (put_bucket bid (if rb_run b = None then b\<lparr>rb_run := Some r\<rparr> else b) i) \<or>
   promote (Some r) bid i = link_run (Some r) bid i \<and> rb_run b \<noteq> None"
  by (simp add: promote_def link_run_def put_bucket_def Let_def)

lemma idx_link_run:
  "idx_ok i \<Longrightarrow> map_of (ti_buckets i) bid \<noteq> None \<Longrightarrow> ti_by_run i r = None \<Longrightarrow> idx_ok (link_run (Some r) bid i)"
  unfolding idx_ok_def by_run_link buckets_linked
  by (smt (verit, ccfv_threshold) option.distinct(1) option.inject)

lemma resolve_cases [consumes 1, case_names run sec new]:
  assumes "resolve_or_create_bucket i tid rid t = (bid, i1)"
  obtains r where "rid = Some r" "ti_by_run i r = Some bid" "i1 = link_sec tid (second_of t) bid i"
  | x where "Option.bind rid (ti_by_run i) = None" "tid = Some x" "ti_by_sec i (x, second_of t) = Some bid"
      "i1 = promote rid bid i"
  | "Option.bind rid (ti_by_run i) = None" "Option.bind tid (\<lambda>x. ti_by_sec i (x, second_of t)) = None"
      "(bid, i1) = create_bucket i tid rid t"
  using assms by (auto simp: resolve_or_create_bucket_def split: option.splits Option.bind_splits)

lemma resolve_index:
  assumes ok: "idx_ok i" and r: "resolve_or_create_bucket i tid rid t = (bid, i1)"
  shows "idx_ok i1 \<and>
    (\<exists>b. map_of (ti_buckets i1) bid = Some b \<and>
       (rb_run b = None \<longrightarrow> rid = None \<or> Option.bind rid (ti_by_run i1) = Some bid) \<and>
       map_of (ti_buckets i1) = (map_of (ti_buckets i))(bid \<mapsto> b) \<and>
       (b = new_bucket tid rid t \<or>
        (\<exists>b0. map_of (ti_buckets i) bid = Some b0 \<and> b = b0\<lparr>rb_run := rb_run b\<rparr>)))"
  using r
proof (cases rule: resolve_cases)
  case (run r)
  then obtain b where b: "map_of (ti_buckets i) bid = Some b" using idx_run [OF ok] by blast
  then have "idx_ok i1" using run ok by (simp add: idx_link_sec)
  then show ?thesis using run b by (auto intro!: exI [of _ b])
next
  case (sec x)
  then obtain b where b: "map_of (ti_buckets i) bid = Some b" using idx_sec [OF ok] by blast
  show ?thesis
  proof (cases rid)
    case None
    then have "i1 = i" using sec by (simp add: promote_def)
    then show ?thesis using None b ok by (auto intro!: exI [of _ b])
  next
    case (Some r)
    then have n: "ti_by_run i r = None" using sec by simp
    let ?b = "if rb_run b = None then b\<lparr>rb_run := Some r\<rparr> else b"
    have run: "rb_run ?b = Some r \<or> Option.bind (rb_run ?b) (ti_by_run i) = Some bid"
      using idx_own [OF ok b] by (cases "rb_run b") auto
    from promote_swap [OF b, of r] show ?thesis
    proof
      assume p: "promote (Some r) bid i = link_run (Some r) bid (put_bucket bid ?b i)"
      have "idx_ok i1" unfolding sec(4) Some p by (rule idx_put_link) (use ok run n in auto)
      then show ?thesis using p sec Some b by (auto intro!: exI [of _ ?b])
    next
      assume p: "promote (Some r) bid i = link_run (Some r) bid i \<and> rb_run b \<noteq> None"
      then have "idx_ok i1" using sec Some ok n b by (simp add: idx_link_run)
      then show ?thesis using p sec Some b by (auto intro!: exI [of _ b])
    qed
  qed
next
  case new
  let ?b = "new_bucket tid rid t"
  have i1: "bid = bucket_id tid rid t" "i1 = link_sec tid (second_of t) bid (link_run rid bid (put_bucket bid ?b i))"
    using new by (simp_all add: create_bucket_def Let_def)
  have "idx_ok (link_run rid bid (put_bucket bid ?b i))"
    by (rule idx_put_link) (use ok new in \<open>auto simp: new_bucket_def\<close>)
  then have "idx_ok i1" unfolding i1(2) by (rule idx_link_sec) simp
  then show ?thesis using i1 by (auto simp: new_bucket_def)
qed

section \<open>Evidence\<close>

definition ev_run :: "codec \<Rightarrow> event \<Rightarrow> string option" where
  "ev_run C e = map_option (uuid_text C) (e_run_id e)"

definition ev_timer :: "codec \<Rightarrow> event \<Rightarrow> string option" where
  "ev_timer C e = map_option (uuid_text C) (e_timer_id e)"

abbreviation ev_second :: "event \<Rightarrow> int" where
  "ev_second e \<equiv> second_of (event_when e)"

text \<open>Two events are of one fire when they name the same run, or the same timer in the same second;
  a list of events is chained when each is of one fire with an earlier one.\<close>

definition same_fire :: "codec \<Rightarrow> event \<Rightarrow> event \<Rightarrow> bool" where
  "same_fire C v u \<longleftrightarrow> ev_run C v \<noteq> None \<and> ev_run C v = ev_run C u \<or>
     ev_timer C v \<noteq> None \<and> ev_timer C v = ev_timer C u \<and> ev_second v = ev_second u"

definition chained :: "codec \<Rightarrow> event list \<Rightarrow> bool" where
  "chained C vs \<longleftrightarrow> (\<forall>k<length vs. 0 < k \<longrightarrow> (\<exists>j<k. same_fire C (vs ! k) (vs ! j)))"

lemma chained_one [simp]: "chained C [v]"
  by (simp add: chained_def)

lemma chained_snoc:
  assumes "chained C vs" "u \<in> set vs" "same_fire C v u"
  shows "chained C (vs @ [v])"
  unfolding chained_def
proof (intro allI impI)
  fix k assume k: "k < length (vs @ [v])" "0 < k"
  obtain n where n: "n < length vs" "vs ! n = u" using assms(2) by (auto simp: in_set_conv_nth)
  show "\<exists>j<k. same_fire C ((vs @ [v]) ! k) ((vs @ [v]) ! j)"
  proof (cases "k = length vs")
    case True
    then show ?thesis using n assms(3) by (intro exI [of _ n]) (simp add: nth_append)
  next
    case False
    then have "k < length vs" using k by simp
    moreover from this obtain j where "j < k" "same_fire C (vs ! k) (vs ! j)"
      using assms(1) k(2) unfolding chained_def by blast
    ultimately show ?thesis by (intro exI [of _ j]) (simp add: nth_append)
  qed
qed

lemma chained_nameless:
  assumes "chained C vs" "vs \<noteq> []" "ev_run C (hd vs) = None" "ev_timer C (hd vs) = None"
  shows "vs = [hd vs]"
proof (rule ccontr)
  assume "vs \<noteq> [hd vs]"
  then have "1 < length vs" using assms(2) by (cases vs) (auto simp: neq_Nil_conv)
  then have "same_fire C (vs ! 1) (vs ! 0)" using assms(1) unfolding chained_def by fastforce
  then show False using assms(2-4) by (auto simp: same_fire_def hd_conv_nth)
qed

text \<open>
  What a bucket rests on: the events \<open>vs\<close> it took up, or a claim of the ledger alone. Its run and its
  timer are those of its events; when none of them names one, a delivered claim that meets them in
  the other name may.
\<close>

definition delivered_in :: "(instant \<Rightarrow> bool) \<Rightarrow> run_claim set \<Rightarrow> run_claim \<Rightarrow> bool" where
  "delivered_in P D c \<longleftrightarrow> c \<in> D \<and> r_outcome c = Some WakeDelivered \<and> P (r_scheduled_for c)"

definition run_known :: "codec \<Rightarrow> (instant \<Rightarrow> bool) \<Rightarrow> run_claim set \<Rightarrow> event list \<Rightarrow> string option \<Rightarrow> bool" where
  "run_known C P D vs x = (case x of
     None \<Rightarrow> \<forall>v\<in>set vs. ev_run C v = None
   | Some r \<Rightarrow> (\<exists>v\<in>set vs. ev_run C v = Some r) \<or> (\<forall>v\<in>set vs. ev_run C v = None) \<and>
       (\<exists>c. delivered_in P D c \<and> r = uuid_text C (r_id c) \<and>
          (\<exists>v\<in>set vs. ev_timer C v = Some (uuid_text C (r_timer c)) \<and> ev_second v = second_of (r_scheduled_for c))))"

definition timer_known :: "codec \<Rightarrow> (instant \<Rightarrow> bool) \<Rightarrow> run_claim set \<Rightarrow> event list \<Rightarrow> string option \<Rightarrow> bool" where
  "timer_known C P D vs x = (case x of
     None \<Rightarrow> \<forall>v\<in>set vs. ev_timer C v = None
   | Some i \<Rightarrow> (\<exists>v\<in>set vs. ev_timer C v = Some i) \<or> (\<forall>v\<in>set vs. ev_timer C v = None) \<and>
       (\<exists>c. delivered_in P D c \<and> i = uuid_text C (r_timer c) \<and>
          (\<exists>v\<in>set vs. ev_run C v = Some (uuid_text C (r_id c)))))"

definition rests_on :: "codec \<Rightarrow> (instant \<Rightarrow> bool) \<Rightarrow> run_claim set \<Rightarrow> event list \<Rightarrow> record_bucket \<Rightarrow> bool" where
  "rests_on C P D vs b \<longleftrightarrow> rb_kinds b = map e_kind vs \<and> (rb_has_events b \<longleftrightarrow> vs \<noteq> []) \<and>
     (if vs = [] then \<exists>c. delivered_in P D c \<and> rb_scheduled b = r_scheduled_for c \<and>
         rb_run b = Some (uuid_text C (r_id c)) \<and> rb_timer b = Some (uuid_text C (r_timer c))
      else (\<forall>v\<in>set vs. is_outcome_event (e_kind v) \<and> P (event_when v)) \<and> chained C vs \<and>
         rb_scheduled b = Min (event_when ` set vs) \<and> run_known C P D vs (rb_run b) \<and> timer_known C P D vs (rb_timer b))"

text \<open>Taking up an event.\<close>

lemma absorb_sel:
  "rb_kinds (absorb_event C e b) = rb_kinds b @ [e_kind e]" "rb_has_events (absorb_event C e b)"
  "rb_scheduled (absorb_event C e b) = min (event_when e) (rb_scheduled b)"
  "rb_run (absorb_event C e b) = or_opt (rb_run b) (ev_run C e)"
  "rb_timer (absorb_event C e b) = or_opt (rb_timer b) (ev_timer C e)"
  by (simp_all add: absorb_event_def or_opt_def ev_run_def ev_timer_def split: option.split)

lemma run_known_snoc:
  "run_known C P {} vs x \<Longrightarrow> run_known C P {} (vs @ [e]) (or_opt x (ev_run C e))"
  by (cases "ev_run C e") (auto simp: run_known_def or_opt_def delivered_in_def split: option.splits)

lemma timer_known_snoc:
  "timer_known C P {} vs x \<Longrightarrow> timer_known C P {} (vs @ [e]) (or_opt x (ev_timer C e))"
  by (cases "ev_timer C e") (auto simp: timer_known_def or_opt_def delivered_in_def split: option.splits)

lemma rests_on_join:
  assumes "rests_on C P {} vs b" "u \<in> set vs" "same_fire C e u" "is_outcome_event (e_kind e)" "P (event_when e)"
  shows "rests_on C P {} (vs @ [e]) (absorb_event C e b)"
proof -
  have v: "vs \<noteq> []" using assms(2) by auto
  then have "Min (event_when ` set (vs @ [e])) = min (event_when e) (Min (event_when ` set vs))" by simp
  then show ?thesis using assms v chained_snoc [of C vs u e] run_known_snoc timer_known_snoc
    by (auto simp: rests_on_def absorb_sel)
qed

lemma rests_on_new:
  assumes "is_outcome_event (e_kind e)" "P (event_when e)"
  shows "rests_on C P {} [e] (absorb_event C e (new_bucket (ev_timer C e) (ev_run C e) (event_when e)))"
  using assms
  by (auto simp: rests_on_def absorb_sel new_bucket_def run_known_def timer_known_def or_opt_def split: option.splits)

section \<open>Bucket names\<close>

lemma decimal_text_nonempty: "Event_Record.decimal n \<noteq> []"
  by (subst Event_Record.decimal.simps) simp

lemma decimal_text_inj: "Event_Record.decimal m = Event_Record.decimal n \<longleftrightarrow> m = n"
proof
  show "Event_Record.decimal m = Event_Record.decimal n \<Longrightarrow> m = n"
  proof (induction m arbitrary: n rule: less_induct)
    case (less m)
    have c: "char_of (48 + i) = (char_of (48 + j) :: char) \<longleftrightarrow> i = j" if "i < 10" "j < 10" for i j :: nat
      using that by (simp add: char_of_eq_iff take_bit_eq_mod)
    show ?case
    proof (cases "m < 10 \<or> n < 10")
      case True
      then have "m < 10 \<and> n < 10"
        using less.prems decimal_text_nonempty [of "m div 10"] decimal_text_nonempty [of "n div 10"]
        by (subst (asm) (1 2) Event_Record.decimal.simps) (auto split: if_splits)
      then show ?thesis using less.prems c by (subst (asm) (1 2) Event_Record.decimal.simps) simp
    next
      case False
      then have "Event_Record.decimal (m div 10) = Event_Record.decimal (n div 10)" "m mod 10 = n mod 10"
        using less.prems c [of "m mod 10" "n mod 10"]
        by (subst (asm) (1 2) Event_Record.decimal.simps, simp)+
      moreover have "m div 10 < m" using False by simp
      ultimately have "m div 10 = n div 10" "m mod 10 = n mod 10" using less.IH by blast+
      then show ?thesis by (metis div_mult_mod_eq)
    qed
  qed
qed simp

lemma decimal_text_chars: "x \<in> set (Event_Record.decimal n) \<Longrightarrow> \<exists>i<10. x = char_of (48 + i :: nat)"
proof (induction n rule: less_induct)
  case (less n)
  show ?case
  proof (cases "n < 10")
    case True
    then show ?thesis using less.prems by (subst (asm) Event_Record.decimal.simps) auto
  next
    case False
    then show ?thesis using less.prems less.IH [of "n div 10"]
      by (subst (asm) Event_Record.decimal.simps) (auto intro: exI [of _ "n mod 10"])
  qed
qed

lemma decimal_text_plain: "CHR '':'' \<notin> set (Event_Record.decimal n)" "CHR ''-'' \<notin> set (Event_Record.decimal n)"
proof -
  have "char_of (48 + i :: nat) \<noteq> CHR '':''" "char_of (48 + i :: nat) \<noteq> CHR ''-''" if "i < 10" for i
    using that by (auto simp: char_of_eq_iff take_bit_eq_mod)
  then show "CHR '':'' \<notin> set (Event_Record.decimal n)" "CHR ''-'' \<notin> set (Event_Record.decimal n)"
    using decimal_text_chars [of _ n] by metis+
qed

lemma int_text_plain: "CHR '':'' \<notin> set (int_text i)"
  using decimal_text_plain(1) by (auto simp: int_text_def)

lemma int_text_inj: "int_text i = int_text j \<longleftrightarrow> i = j"
proof
  assume e: "int_text i = int_text j"
  have h: "hd (Event_Record.decimal n) \<noteq> CHR ''-''" for n
    using decimal_text_plain(2) [of n] decimal_text_nonempty [of n] by (metis hd_in_set)
  then have h': "CHR ''-'' \<noteq> hd (Event_Record.decimal n)" for n by metis
  show "i = j"
  proof (cases "i < 0 \<longleftrightarrow> j < 0")
    case True
    then show ?thesis using e by (auto simp: int_text_def decimal_text_inj split: if_splits)
  next
    case False
    then have "hd (int_text i) \<noteq> hd (int_text j)" using h h' by (cases "i < 0") (simp_all add: int_text_def)
    with e show ?thesis by simp
  qed
qed simp

text \<open>The last colon ends the timer's text.\<close>

lemma last_colon:
  assumes "t @ CHR '':'' # a = t' @ CHR '':'' # b" "CHR '':'' \<notin> set a" "CHR '':'' \<notin> set b"
  shows "t = t' \<and> a = b"
proof -
  have "rev a @ CHR '':'' # rev t = rev b @ CHR '':'' # rev t'"
    using arg_cong [OF assms(1), of rev] by simp
  moreover have "takeWhile (\<lambda>x. x \<noteq> CHR '':'') (rev a @ CHR '':'' # xs) = rev a" for xs
    using assms(2) by (subst takeWhile_append2) auto
  moreover have "takeWhile (\<lambda>x. x \<noteq> CHR '':'') (rev b @ CHR '':'' # xs) = rev b" for xs
    using assms(3) by (subst takeWhile_append2) auto
  ultimately have "rev a = rev b" by metis
  with assms(1) show ?thesis by simp
qed

lemma bucket_id_eq:
  assumes "bucket_id t r n = bucket_id t' r' n'"
  shows "r = r' \<and> (r = None \<longrightarrow> t = t' \<and> (t \<noteq> None \<longrightarrow> second_of n = second_of n'))"
  using assms
  by (auto simp: bucket_id_def int_text_inj split: option.splits dest: last_colon [OF _ int_text_plain int_text_plain])

section \<open>The events\<close>

text \<open>
  The state of the events' pass: \<open>V\<close> lists what each bucket took up. A name that is linked is the name
  of an event in the bucket it is linked to, and every event's names are linked.
\<close>

definition gathered :: "codec \<Rightarrow> (instant \<Rightarrow> bool) \<Rightarrow> event set \<Rightarrow> (string \<Rightarrow> event list) \<Rightarrow> truth_index \<Rightarrow> bool" where
  "gathered C P E V i \<longleftrightarrow> idx_ok i \<and>
     (\<forall>bid b. map_of (ti_buckets i) bid = Some b \<longrightarrow> V bid \<noteq> [] \<and> set (V bid) \<subseteq> E \<and> rests_on C P {} (V bid) b \<and>
        bid = bucket_id (ev_timer C (hd (V bid))) (ev_run C (hd (V bid))) (event_when (hd (V bid)))) \<and>
     (\<forall>r bid. ti_by_run i r = Some bid \<longrightarrow> (\<exists>v\<in>set (V bid). ev_run C v = Some r)) \<and>
     (\<forall>x s bid. ti_by_sec i (x, s) = Some bid \<longrightarrow> (\<exists>v\<in>set (V bid). ev_timer C v = Some x \<and> ev_second v = s)) \<and>
     (\<forall>v\<in>E. is_outcome_event (e_kind v) \<longrightarrow> P (event_when v) \<longrightarrow>
        (\<forall>r. ev_run C v = Some r \<longrightarrow> (\<exists>bid. ti_by_run i r = Some bid \<and> v \<in> set (V bid))) \<and>
        (\<forall>x. ev_timer C v = Some x \<longrightarrow> ti_by_sec i (x, ev_second v) \<noteq> None))"

lemma gatheredD:
  assumes "gathered C P E V i"
  shows "idx_ok i"
    "map_of (ti_buckets i) bid = Some b \<Longrightarrow> V bid \<noteq> []"
    "map_of (ti_buckets i) bid = Some b \<Longrightarrow> set (V bid) \<subseteq> E"
    "map_of (ti_buckets i) bid = Some b \<Longrightarrow> rests_on C P {} (V bid) b"
    "map_of (ti_buckets i) bid = Some b \<Longrightarrow>
       bid = bucket_id (ev_timer C (hd (V bid))) (ev_run C (hd (V bid))) (event_when (hd (V bid)))"
    "ti_by_run i r = Some bid \<Longrightarrow> \<exists>v\<in>set (V bid). ev_run C v = Some r"
    "ti_by_sec i (x, s) = Some bid \<Longrightarrow> \<exists>v\<in>set (V bid). ev_timer C v = Some x \<and> ev_second v = s"
    "v \<in> E \<Longrightarrow> is_outcome_event (e_kind v) \<Longrightarrow> P (event_when v) \<Longrightarrow> ev_run C v = Some r \<Longrightarrow>
       \<exists>bid. ti_by_run i r = Some bid \<and> v \<in> set (V bid)"
    "v \<in> E \<Longrightarrow> is_outcome_event (e_kind v) \<Longrightarrow> P (event_when v) \<Longrightarrow> ev_timer C v = Some x \<Longrightarrow>
       ti_by_sec i (x, ev_second v) \<noteq> None"
  using assms unfolding gathered_def by blast+

text \<open>What recording an event does: it joins the bucket of its run, or of its timer and second, or
  starts one; its names are linked to it.\<close>

lemma record_event_shape:
  assumes ok: "idx_ok i" and e: "is_outcome_event (e_kind e)" "past_in_range now start stop (event_when e)"
  obtains bid b i2 where "record_event C now start stop e i = Some i2" "idx_ok i2"
    "map_of (ti_buckets i2) = (map_of (ti_buckets i))(bid \<mapsto> absorb_event C e b)"
    "ti_by_run i2 = (case ev_run C e of None \<Rightarrow> ti_by_run i | Some r \<Rightarrow> (ti_by_run i)(r \<mapsto> bid))"
    "ti_by_sec i2 = (case ev_timer C e of None \<Rightarrow> ti_by_sec i | Some x \<Rightarrow> (ti_by_sec i)((x, ev_second e) \<mapsto> bid))"
    "map_of (ti_buckets i) bid = Some b \<and> ((\<exists>r. ev_run C e = Some r \<and> ti_by_run i r = Some bid) \<or>
       Option.bind (ev_run C e) (ti_by_run i) = None \<and> (\<exists>x. ev_timer C e = Some x \<and> ti_by_sec i (x, ev_second e) = Some bid)) \<or>
     b = new_bucket (ev_timer C e) (ev_run C e) (event_when e) \<and>
       bid = bucket_id (ev_timer C e) (ev_run C e) (event_when e) \<and>
       Option.bind (ev_run C e) (ti_by_run i) = None \<and>
       Option.bind (ev_timer C e) (\<lambda>x. ti_by_sec i (x, ev_second e)) = None"
proof -
  let ?tid = "ev_timer C e" and ?rid = "ev_run C e"
  obtain bid i1 where r: "resolve_or_create_bucket i ?tid ?rid (event_when e) = (bid, i1)" by (metis surj_pair)
  from resolve_index [OF ok r] obtain b where b: "idx_ok i1" "map_of (ti_buckets i1) bid = Some b"
    "rb_run b = None \<longrightarrow> ?rid = None \<or> Option.bind ?rid (ti_by_run i1) = Some bid"
    "map_of (ti_buckets i1) = (map_of (ti_buckets i))(bid \<mapsto> b)"
    by (elim conjE exE) (rule that; assumption)
  have rec: "record_event C now start stop e i = Some (put_bucket bid (absorb_event C e b) i1)"
    using e r b(2) by (simp add: record_event_def flip: ev_run_def ev_timer_def)
  have "rb_run (absorb_event C e b) = None \<or> Option.bind (rb_run (absorb_event C e b)) (ti_by_run i1) = Some bid"
    using b(3) idx_own [OF b(1,2)] by (cases "rb_run b") (auto simp: absorb_sel or_opt_def)
  then have ok2: "idx_ok (put_bucket bid (absorb_event C e b) i1)" by (intro idx_put b(1)) auto
  have m: "map_of (ti_buckets (put_bucket bid (absorb_event C e b) i1)) =
      (map_of (ti_buckets i))(bid \<mapsto> absorb_event C e b)" by (simp add: b(4))
  from r show thesis
  proof (cases rule: resolve_cases)
    case (run x)
    then have "map_of (ti_buckets i) bid = Some b" using b(2) by simp
    with run show ?thesis
      by (intro that [OF rec ok2 m]) (auto simp: link_sec_def fun_upd_idem split: option.split)
  next
    case (sec x)
    obtain b0 where b0: "map_of (ti_buckets i) bid = Some b0" using idx_sec [OF ok sec(3)] by blast
    have ab: "absorb_event C e b = absorb_event C e b0"
    proof (cases ?rid)
      case None
      then show ?thesis using sec b0 b(2) by (simp add: promote_def)
    next
      case (Some y)
      then have "b = (if rb_run b0 = None then b0\<lparr>rb_run := Some y\<rparr> else b0)"
        using sec b0 b(2) by (auto simp: promote_def Let_def put_bucket_def update_conv' split: if_splits)
      then show ?thesis using Some by (auto simp: absorb_event_def ev_run_def split: option.split)
    qed
    have "ti_by_run i1 = (case ?rid of None \<Rightarrow> ti_by_run i | Some r \<Rightarrow> (ti_by_run i)(r \<mapsto> bid))"
      "ti_by_sec i1 = ti_by_sec i"
      using sec(4) b0 by (auto simp: promote_def Let_def put_bucket_def split: option.split)
    then show ?thesis using sec b0 m
      by (intro that [OF rec [unfolded ab] ok2 [unfolded ab] m [unfolded ab]]) (auto simp: fun_upd_idem split: option.split)
  next
    case new
    then have i1: "bid = bucket_id ?tid ?rid (event_when e)"
      "i1 = link_sec ?tid (ev_second e) bid (link_run ?rid bid (put_bucket bid (new_bucket ?tid ?rid (event_when e)) i))"
      by (simp_all add: create_bucket_def Let_def)
    have nb: "b = new_bucket ?tid ?rid (event_when e)" using b(2) unfolding i1(2) by simp
    show ?thesis
      by (rule that [OF rec ok2 m]) (use new i1 nb in \<open>auto simp: link_sec_def link_run_def split: option.split\<close>)
  qed
qed

text \<open>A new bucket's name is linked to nothing: the bucket it would replace, if any, took up one event
  that names neither a run nor a timer.\<close>

lemma new_bucket_unlinked:
  assumes g: "gathered C P E V i" and bid: "bid = bucket_id (ev_timer C e) (ev_run C e) (event_when e)"
    and none: "Option.bind (ev_run C e) (ti_by_run i) = None"
      "Option.bind (ev_timer C e) (\<lambda>x. ti_by_sec i (x, ev_second e)) = None"
  shows "ti_by_run i r \<noteq> Some bid" "ti_by_sec i k \<noteq> Some bid"
proof -
  have "\<exists>v. V bid = [v] \<and> ev_run C v = None \<and> ev_timer C v = None"
    if b0: "map_of (ti_buckets i) bid = Some b0" for b0
  proof -
    define v where "v = hd (V bid)"
    have v: "v \<in> set (V bid)" "v \<in> E" and name: "bid = bucket_id (ev_timer C v) (ev_run C v) (event_when v)"
      using gatheredD(2,3,5) [OF g b0] by (auto simp: v_def)
    have rest: "is_outcome_event (e_kind v)" "P (event_when v)" "chained C (V bid)"
      using gatheredD(2,4) [OF g b0] v(1) by (auto simp: rests_on_def)
    note eq = bucket_id_eq [OF name [unfolded bid, symmetric]]
    have r0: "ev_run C v = None"
    proof (rule ccontr)
      assume "ev_run C v \<noteq> None"
      then obtain r where r: "ev_run C v = Some r" by blast
      then have "ev_run C e = Some r" using eq by simp
      then show False using gatheredD(8) [OF g v(2) rest(1,2) r] none(1) by auto
    qed
    moreover have "ev_timer C v = None"
    proof (rule ccontr)
      assume "ev_timer C v \<noteq> None"
      then obtain x where x: "ev_timer C v = Some x" by blast
      then have "ev_timer C e = Some x" "ev_second e = ev_second v" using eq r0 by auto
      then show False using gatheredD(9) [OF g v(2) rest(1,2) x] none(2) by auto
    qed
    ultimately show ?thesis
      using chained_nameless [OF rest(3) gatheredD(2) [OF g b0]] by (metis v_def)
  qed
  note nameless = this
  show "ti_by_run i r \<noteq> Some bid"
  proof
    assume l: "ti_by_run i r = Some bid"
    then obtain b0 where "map_of (ti_buckets i) bid = Some b0" using idx_run [OF gatheredD(1) [OF g]] by blast
    then show False using nameless gatheredD(6) [OF g l] by fastforce
  qed
  show "ti_by_sec i k \<noteq> Some bid"
  proof
    assume l: "ti_by_sec i k = Some bid"
    obtain x s where k: "k = (x, s)" by (cases k)
    obtain b0 where "map_of (ti_buckets i) bid = Some b0" using idx_sec [OF gatheredD(1) [OF g] l] by blast
    then show False using nameless gatheredD(7) [OF g l [unfolded k]] by fastforce
  qed
qed

lemma gathered_step:
  assumes g: "gathered C P E V i" and e: "is_outcome_event (e_kind e)" "P (event_when e)" and ok: "idx_ok i2"
    and m: "map_of (ti_buckets i2) = (map_of (ti_buckets i))(bid \<mapsto> b)"
    and r: "ti_by_run i2 = (case ev_run C e of None \<Rightarrow> ti_by_run i | Some r \<Rightarrow> (ti_by_run i)(r \<mapsto> bid))"
    and s: "ti_by_sec i2 = (case ev_timer C e of None \<Rightarrow> ti_by_sec i | Some x \<Rightarrow> (ti_by_sec i)((x, ev_second e) \<mapsto> bid))"
    and vs: "e \<in> set vs" "set vs \<subseteq> insert e E" "rests_on C P {} vs b"
      "bid = bucket_id (ev_timer C (hd vs)) (ev_run C (hd vs)) (event_when (hd vs))"
    and old: "set (V bid) \<subseteq> set vs \<or> (\<forall>r. ti_by_run i r \<noteq> Some bid) \<and> (\<forall>k. ti_by_sec i k \<noteq> Some bid)"
    and run: "\<And>r x. ev_run C e = Some r \<Longrightarrow> ti_by_run i r = Some x \<Longrightarrow> x = bid"
  shows "gathered C P (insert e E) (V(bid := vs)) i2"
  unfolding gathered_def
proof (intro conjI allI impI ballI)
  let ?V = "V(bid := vs)"
  show "idx_ok i2" by fact
  show "?V c \<noteq> []" "set (?V c) \<subseteq> insert e E" "rests_on C P {} (?V c) d"
    "c = bucket_id (ev_timer C (hd (?V c))) (ev_run C (hd (?V c))) (event_when (hd (?V c)))"
    if "map_of (ti_buckets i2) c = Some d" for c d
    using that gatheredD(2-5) [OF g, of c d] vs unfolding m by (cases "c = bid"; force)+
  have kept: "v \<in> set (?V c)" if "v \<in> set (V c)" "ti_by_run i q = Some c \<or> ti_by_sec i k = Some c" for v c q k
  proof (cases "c = bid")
    case True
    with that(2) old have "set (V bid) \<subseteq> set vs" by blast
    then show ?thesis using that(1) True by auto
  qed (use that(1) in simp)
  show "\<exists>v\<in>set (?V c). ev_run C v = Some q" if "ti_by_run i2 q = Some c" for q c
  proof (cases "ev_run C e = Some q")
    case True
    then show ?thesis using that vs(1) unfolding r by (auto intro!: bexI [of _ e])
  next
    case False
    then have l: "ti_by_run i q = Some c" using that unfolding r by (auto split: option.splits if_splits)
    then show ?thesis using gatheredD(6) [OF g l] kept by blast
  qed
  show "\<exists>v\<in>set (?V c). ev_timer C v = Some x \<and> ev_second v = n" if "ti_by_sec i2 (x, n) = Some c" for x n c
  proof (cases "ev_timer C e = Some x \<and> n = ev_second e")
    case True
    then show ?thesis using that vs(1) unfolding s by (auto intro!: bexI [of _ e])
  next
    case False
    then have l: "ti_by_sec i (x, n) = Some c" using that unfolding s by (auto split: option.splits if_splits)
    then show ?thesis using gatheredD(7) [OF g l] kept by blast
  qed
  fix v assume v: "v \<in> insert e E" "is_outcome_event (e_kind v)" "P (event_when v)"
  show "\<exists>c. ti_by_run i2 q = Some c \<and> v \<in> set (?V c)" if q: "ev_run C v = Some q" for q
  proof (cases "v = e")
    case True
    then show ?thesis using q vs(1) unfolding r by auto
  next
    case False
    then obtain c where c: "ti_by_run i q = Some c" "v \<in> set (V c)" using gatheredD(8) [OF g] v q by blast
    moreover have "ti_by_run i2 q = Some c" using c(1) run unfolding r by (auto split: option.split)
    ultimately show ?thesis using kept by blast
  qed
  show "ti_by_sec i2 (x, ev_second v) \<noteq> None" if x: "ev_timer C v = Some x" for x
  proof (cases "v = e")
    case True
    then show ?thesis using x unfolding s by auto
  next
    case False
    then show ?thesis using gatheredD(9) [OF g] v x unfolding s by (auto split: option.split)
  qed
qed

lemma record_event_gathered:
  assumes g: "gathered C (past_in_range now start stop) E V i"
  shows "\<exists>i2 V2. record_event C now start stop e i = Some i2 \<and> gathered C (past_in_range now start stop) (insert e E) V2 i2"
proof (cases "is_outcome_event (e_kind e) \<and> past_in_range now start stop (event_when e)")
  case True
  then have e: "is_outcome_event (e_kind e)" "past_in_range now start stop (event_when e)" by blast+
  obtain bid b i2 where s: "record_event C now start stop e i = Some i2" "idx_ok i2"
    "map_of (ti_buckets i2) = (map_of (ti_buckets i))(bid \<mapsto> absorb_event C e b)"
    "ti_by_run i2 = (case ev_run C e of None \<Rightarrow> ti_by_run i | Some r \<Rightarrow> (ti_by_run i)(r \<mapsto> bid))"
    "ti_by_sec i2 = (case ev_timer C e of None \<Rightarrow> ti_by_sec i | Some x \<Rightarrow> (ti_by_sec i)((x, ev_second e) \<mapsto> bid))"
    and how: "map_of (ti_buckets i) bid = Some b \<and> ((\<exists>r. ev_run C e = Some r \<and> ti_by_run i r = Some bid) \<or>
       Option.bind (ev_run C e) (ti_by_run i) = None \<and> (\<exists>x. ev_timer C e = Some x \<and> ti_by_sec i (x, ev_second e) = Some bid)) \<or>
     b = new_bucket (ev_timer C e) (ev_run C e) (event_when e) \<and>
       bid = bucket_id (ev_timer C e) (ev_run C e) (event_when e) \<and>
       Option.bind (ev_run C e) (ti_by_run i) = None \<and>
       Option.bind (ev_timer C e) (\<lambda>x. ti_by_sec i (x, ev_second e)) = None"
    by (rule record_event_shape [OF gatheredD(1) [OF g] e, where C = C])
  have run: "ev_run C e = Some r \<Longrightarrow> ti_by_run i r = Some x \<Longrightarrow> x = bid" for r x using how by auto
  note step = gathered_step [OF g e s(2-5)]
  from how show ?thesis
  proof
    assume j: "map_of (ti_buckets i) bid = Some b \<and> ((\<exists>r. ev_run C e = Some r \<and> ti_by_run i r = Some bid) \<or>
       Option.bind (ev_run C e) (ti_by_run i) = None \<and> (\<exists>x. ev_timer C e = Some x \<and> ti_by_sec i (x, ev_second e) = Some bid))"
    then have b: "map_of (ti_buckets i) bid = Some b" by blast
    from j obtain u where u: "u \<in> set (V bid)" "same_fire C e u"
    proof (elim conjE disjE exE)
      fix r assume r: "ev_run C e = Some r" "ti_by_run i r = Some bid"
      obtain u where "u \<in> set (V bid)" "ev_run C u = Some r" using gatheredD(6) [OF g r(2)] by blast
      then show thesis using r(1) by (intro that) (auto simp: same_fire_def)
    next
      fix x assume x: "ev_timer C e = Some x" "ti_by_sec i (x, ev_second e) = Some bid"
      obtain u where "u \<in> set (V bid)" "ev_timer C u = Some x" "ev_second u = ev_second e"
        using gatheredD(7) [OF g x(2)] by blast
      then show thesis using x(1) by (intro that) (auto simp: same_fire_def)
    qed
    have "gathered C (past_in_range now start stop) (insert e E) (V(bid := V bid @ [e])) i2"
    proof (rule step)
      show "rests_on C (past_in_range now start stop) {} (V bid @ [e]) (absorb_event C e b)"
        by (rule rests_on_join [OF gatheredD(4) [OF g b] u e])
      show "bid = bucket_id (ev_timer C (hd (V bid @ [e]))) (ev_run C (hd (V bid @ [e]))) (event_when (hd (V bid @ [e])))"
        using gatheredD(2,5) [OF g b] by simp
    qed (use gatheredD(3) [OF g b] run in auto)
    with s(1) show ?thesis by blast
  next
    assume n: "b = new_bucket (ev_timer C e) (ev_run C e) (event_when e) \<and>
       bid = bucket_id (ev_timer C e) (ev_run C e) (event_when e) \<and>
       Option.bind (ev_run C e) (ti_by_run i) = None \<and>
       Option.bind (ev_timer C e) (\<lambda>x. ti_by_sec i (x, ev_second e)) = None"
    then have "\<forall>r. ti_by_run i r \<noteq> Some bid" "\<forall>k. ti_by_sec i k \<noteq> Some bid"
      using new_bucket_unlinked [OF g] by blast+
    then have "gathered C (past_in_range now start stop) (insert e E) (V(bid := [e])) i2"
      using rests_on_new [of e "past_in_range now start stop" C] e n run by (intro step) auto
    with s(1) show ?thesis by blast
  qed
next
  case False
  then have "record_event C now start stop e i = Some i" by (auto simp: record_event_def)
  moreover have "gathered C (past_in_range now start stop) (insert e E) V i"
    using g False unfolding gathered_def by blast
  ultimately show ?thesis by blast
qed

lemma record_events_gathered:
  assumes "gathered C (past_in_range now start stop) E V i"
  shows "\<exists>i2 V2. record_events C now start stop es i = Some i2 \<and>
    gathered C (past_in_range now start stop) (set es \<union> E) V2 i2"
  using assms
proof (induction es arbitrary: i E V)
  case (Cons e es)
  obtain i1 V1 where 1: "record_event C now start stop e i = Some i1"
    "gathered C (past_in_range now start stop) (insert e E) V1 i1"
    using record_event_gathered [OF Cons.prems, of e] by blast
  from Cons.IH [OF 1(2)] 1(1) show ?case by simp
qed auto

section \<open>The claims\<close>

text \<open>
  The state of the claims' pass. The events of the buckets stay; a bucket that a run is linked to has a
  run, one that a timer's second is linked to has a timer, and as long as the other name is missing,
  the link comes from one of its events.
\<close>

definition settled :: "codec \<Rightarrow> (instant \<Rightarrow> bool) \<Rightarrow> event set \<Rightarrow> run_claim set \<Rightarrow> (string \<Rightarrow> event list) \<Rightarrow> truth_index \<Rightarrow> bool" where
  "settled C P E D V i \<longleftrightarrow> idx_ok i \<and>
     (\<forall>bid b. map_of (ti_buckets i) bid = Some b \<longrightarrow> set (V bid) \<subseteq> E \<and> rests_on C P D (V bid) b \<and>
        (if V bid = [] then \<exists>r. rb_run b = Some r \<and> bid = ''run:'' @ r
         else bid = bucket_id (ev_timer C (hd (V bid))) (ev_run C (hd (V bid))) (event_when (hd (V bid))))) \<and>
     (\<forall>r bid b. ti_by_run i r = Some bid \<longrightarrow> map_of (ti_buckets i) bid = Some b \<longrightarrow>
        rb_run b \<noteq> None \<and> (rb_timer b = None \<longrightarrow> (\<exists>v\<in>set (V bid). ev_run C v = Some r))) \<and>
     (\<forall>x s bid b. ti_by_sec i (x, s) = Some bid \<longrightarrow> map_of (ti_buckets i) bid = Some b \<longrightarrow>
        rb_timer b \<noteq> None \<and> (rb_run b = None \<longrightarrow> (\<exists>v\<in>set (V bid). ev_timer C v = Some x \<and> ev_second v = s))) \<and>
     (\<forall>v\<in>E. is_outcome_event (e_kind v) \<longrightarrow> P (event_when v) \<longrightarrow>
        (\<forall>r. ev_run C v = Some r \<longrightarrow> (\<exists>bid. ti_by_run i r = Some bid \<and> v \<in> set (V bid))))"

lemma settledD:
  assumes "settled C P E D V i"
  shows "idx_ok i"
    "map_of (ti_buckets i) bid = Some b \<Longrightarrow> set (V bid) \<subseteq> E"
    "map_of (ti_buckets i) bid = Some b \<Longrightarrow> rests_on C P D (V bid) b"
    "map_of (ti_buckets i) bid = Some b \<Longrightarrow> V bid = [] \<Longrightarrow> \<exists>r. rb_run b = Some r \<and> bid = ''run:'' @ r"
    "map_of (ti_buckets i) bid = Some b \<Longrightarrow> V bid \<noteq> [] \<Longrightarrow>
       bid = bucket_id (ev_timer C (hd (V bid))) (ev_run C (hd (V bid))) (event_when (hd (V bid)))"
    "ti_by_run i r = Some bid \<Longrightarrow> map_of (ti_buckets i) bid = Some b \<Longrightarrow> rb_run b \<noteq> None"
    "ti_by_run i r = Some bid \<Longrightarrow> map_of (ti_buckets i) bid = Some b \<Longrightarrow> rb_timer b = None \<Longrightarrow>
       \<exists>v\<in>set (V bid). ev_run C v = Some r"
    "ti_by_sec i (x, s) = Some bid \<Longrightarrow> map_of (ti_buckets i) bid = Some b \<Longrightarrow> rb_timer b \<noteq> None"
    "ti_by_sec i (x, s) = Some bid \<Longrightarrow> map_of (ti_buckets i) bid = Some b \<Longrightarrow> rb_run b = None \<Longrightarrow>
       \<exists>v\<in>set (V bid). ev_timer C v = Some x \<and> ev_second v = s"
    "v \<in> E \<Longrightarrow> is_outcome_event (e_kind v) \<Longrightarrow> P (event_when v) \<Longrightarrow> ev_run C v = Some r \<Longrightarrow>
       \<exists>bid. ti_by_run i r = Some bid \<and> v \<in> set (V bid)"
  using assms unfolding settled_def by (blast | metis)+

lemma rests_on_more: "rests_on C P {} vs b \<Longrightarrow> vs \<noteq> [] \<Longrightarrow> rests_on C P D vs b"
  by (auto simp: rests_on_def run_known_def timer_known_def delivered_in_def split: option.splits)

lemma gathered_settled:
  assumes g: "gathered C P E V i" shows "settled C P E D V i"
  unfolding settled_def
proof (intro conjI allI impI ballI)
  show "rests_on C P D (V bid) b" if "map_of (ti_buckets i) bid = Some b" for bid b
    using rests_on_more gatheredD(2,4) [OF g that] by blast
  show "rb_run b \<noteq> None" "\<exists>v\<in>set (V bid). ev_run C v = Some r"
    if "ti_by_run i r = Some bid" "map_of (ti_buckets i) bid = Some b" for r bid b
    using gatheredD(2,4) [OF g that(2)] gatheredD(6) [OF g that(1)]
    by (auto simp: rests_on_def run_known_def split: option.splits)
  show "rb_timer b \<noteq> None" "\<exists>v\<in>set (V bid). ev_timer C v = Some x \<and> ev_second v = s"
    if "ti_by_sec i (x, s) = Some bid" "map_of (ti_buckets i) bid = Some b" for x s bid b
    using gatheredD(2,4) [OF g that(2)] gatheredD(7) [OF g that(1)]
    by (auto simp: rests_on_def timer_known_def split: option.splits)
  show "if V bid = [] then \<exists>r. rb_run b = Some r \<and> bid = ''run:'' @ r
      else bid = bucket_id (ev_timer C (hd (V bid))) (ev_run C (hd (V bid))) (event_when (hd (V bid)))"
    if "map_of (ti_buckets i) bid = Some b" for bid b
    using gatheredD(2,5) [OF g that] by simp
qed (use gatheredD(1,3,8) [OF g] in blast)+

lemma settled_put:
  assumes st: "settled C P E D V i" and ok: "idx_ok j"
    and m: "map_of (ti_buckets j) = (map_of (ti_buckets i))(bid \<mapsto> nb)"
    and r: "\<And>q c. ti_by_run j q = Some c \<Longrightarrow> ti_by_run i q = Some c \<or> c = bid"
      "\<And>q c. ti_by_run i q = Some c \<Longrightarrow> ti_by_run j q = Some c"
    and s: "\<And>k c. ti_by_sec j k = Some c \<Longrightarrow> ti_by_sec i k = Some c \<or> c = bid"
    and b1: "rb_run nb \<noteq> None" "rb_timer nb \<noteq> None" "set vs \<subseteq> E" "rests_on C P D vs nb"
      "if vs = [] then \<exists>r. rb_run nb = Some r \<and> bid = ''run:'' @ r
       else bid = bucket_id (ev_timer C (hd vs)) (ev_run C (hd vs)) (event_when (hd vs))"
    and old: "vs = V bid \<or> (\<forall>q. ti_by_run i q \<noteq> Some bid)"
  shows "settled C P E D (V(bid := vs)) j"
  unfolding settled_def
proof (intro conjI allI impI ballI)
  let ?V = "V(bid := vs)"
  show "idx_ok j" by fact
  show "set (?V c) \<subseteq> E" "rests_on C P D (?V c) d"
    "if ?V c = [] then \<exists>r. rb_run d = Some r \<and> c = ''run:'' @ r
     else c = bucket_id (ev_timer C (hd (?V c))) (ev_run C (hd (?V c))) (event_when (hd (?V c)))"
    if "map_of (ti_buckets j) c = Some d" for c d
    using that settledD(2-5) [OF st, of c d] b1 unfolding m by (cases "c = bid"; force)+
  show "rb_run d \<noteq> None" if "ti_by_run j q = Some c" "map_of (ti_buckets j) c = Some d" for q c d
    using that r(1) [OF that(1)] settledD(6) [OF st] b1(1) unfolding m by (cases "c = bid") auto
  show "\<exists>v\<in>set (?V c). ev_run C v = Some q"
    if "ti_by_run j q = Some c" "map_of (ti_buckets j) c = Some d" "rb_timer d = None" for q c d
    using that r(1) [OF that(1)] settledD(7) [OF st] b1(2) unfolding m by (cases "c = bid") auto
  show "rb_timer d \<noteq> None" if "ti_by_sec j (x, n) = Some c" "map_of (ti_buckets j) c = Some d" for x n c d
    using that s [OF that(1)] settledD(8) [OF st] b1(2) unfolding m by (cases "c = bid") auto
  show "\<exists>v\<in>set (?V c). ev_timer C v = Some x \<and> ev_second v = n"
    if "ti_by_sec j (x, n) = Some c" "map_of (ti_buckets j) c = Some d" "rb_run d = None" for x n c d
    using that s [OF that(1)] settledD(9) [OF st] b1(1) unfolding m by (cases "c = bid") auto
  fix v q assume "v \<in> E" "is_outcome_event (e_kind v)" "P (event_when v)" "ev_run C v = Some q"
  then obtain c where c: "ti_by_run i q = Some c" "v \<in> set (V c)" using settledD(10) [OF st] by blast
  moreover have "v \<in> set (?V c)" using c old by (cases "c = bid") auto
  ultimately show "\<exists>c. ti_by_run j q = Some c \<and> v \<in> set (?V c)" using r(2) by blast
qed

text \<open>A claim that joins a bucket gives it the names it misses.\<close>

lemma rests_on_claim:
  assumes b: "rests_on C P D vs b" and c: "delivered_in P D c"
    and run: "rb_run b = None \<Longrightarrow> \<exists>v\<in>set vs. ev_timer C v = Some (uuid_text C (r_timer c)) \<and> ev_second v = second_of (r_scheduled_for c)"
    and timer: "rb_timer b = None \<Longrightarrow> \<exists>v\<in>set vs. ev_run C v = Some (uuid_text C (r_id c))"
  shows "rests_on C P D vs (b\<lparr>rb_run := (if rb_run b = None then Some (uuid_text C (r_id c)) else rb_run b),
    rb_timer := (if rb_timer b = None then Some (uuid_text C (r_timer c)) else rb_timer b)\<rparr>)"
proof (cases "vs = []")
  case True
  then have "rb_run b \<noteq> None" "rb_timer b \<noteq> None" using b by (auto simp: rests_on_def)
  then show ?thesis using b True by (auto simp: rests_on_def)
next
  case False
  have "run_known C P D vs (Some (uuid_text C (r_id c)))" if "rb_run b = None"
    using b False that run [OF that] c by (auto simp: rests_on_def run_known_def)
  moreover have "timer_known C P D vs (Some (uuid_text C (r_timer c)))" if "rb_timer b = None"
    using b False that timer [OF that] c by (auto simp: rests_on_def timer_known_def)
  ultimately show ?thesis using b False by (simp add: rests_on_def)
qed

lemma record_claim_settled:
  assumes st: "settled C (past_in_range now start stop) E D V i" and cD: "c \<in> D"
  shows "\<exists>i1 V1. record_claim C now start stop c i = Some i1 \<and> settled C (past_in_range now start stop) E D V1 i1"
proof (cases "r_outcome c = Some WakeDelivered \<and> past_in_range now start stop (r_scheduled_for c)")
  case True
  let ?P = "past_in_range now start stop"
  let ?r = "uuid_text C (r_id c)" and ?x = "uuid_text C (r_timer c)" and ?s = "second_of (r_scheduled_for c)"
  have c: "delivered_in ?P D c" using True cD by (simp add: delivered_in_def)
  have ok: "idx_ok i" by (rule settledD(1) [OF st])
  show ?thesis
  proof (cases "or_opt (ti_by_run i ?r) (ti_by_sec i (?x, ?s))")
    case None
    let ?b = "new_bucket (Some ?x) (Some ?r) (r_scheduled_for c)" and ?bid = "''run:'' @ ?r"
    have n: "ti_by_run i ?r = None" using None by (auto simp: or_opt_def split: option.splits)
    let ?i = "link_sec (Some ?x) ?s ?bid (link_run (Some ?r) ?bid (put_bucket ?bid ?b i))"
    have "idx_ok (link_run (Some ?r) ?bid (put_bucket ?bid ?b i))"
      by (rule idx_put_link) (use ok n in \<open>auto simp: new_bucket_def\<close>)
    then have ok1: "idx_ok ?i" by (rule idx_link_sec) simp
    have fresh: "map_of (ti_buckets i) ?bid = None"
    proof (rule ccontr)
      assume "map_of (ti_buckets i) ?bid \<noteq> None"
      then obtain b0 where b0: "map_of (ti_buckets i) ?bid = Some b0" by blast
      show False
      proof (cases "V ?bid = []")
        case True
        then have "rb_run b0 = Some ?r" using settledD(4) [OF st b0] by auto
        then show False using idx_own [OF ok b0] n by simp
      next
        case False
        define v where "v = hd (V ?bid)"
        have v: "v \<in> set (V ?bid)" using False by (simp add: v_def)
        have "?bid = bucket_id (ev_timer C v) (ev_run C v) (event_when v)"
          using settledD(5) [OF st b0 False] by (simp add: v_def)
        moreover have "?bid = bucket_id None (Some ?r) 0" by (simp add: bucket_id_def)
        ultimately have "ev_run C v = Some ?r" using bucket_id_eq by metis
        moreover have "v \<in> E" "is_outcome_event (e_kind v)" "?P (event_when v)"
          using settledD(2,3) [OF st b0] v False by (auto simp: rests_on_def)
        ultimately show False using settledD(10) [OF st] n by fastforce
      qed
    qed
    have "settled C ?P E D (V(?bid := [])) ?i"
    proof (rule settled_put [OF st ok1, where nb = ?b])
      show "[] = V ?bid \<or> (\<forall>q. ti_by_run i q \<noteq> Some ?bid)"
        using idx_run [OF ok] fresh by fastforce
    qed (use n c in \<open>auto simp: by_run_link link_sec_def new_bucket_def rests_on_def split: if_splits\<close>)
    moreover have "record_claim C now start stop c i = Some ?i"
      using True None by (simp add: record_claim_def create_bucket_def bucket_id_def Let_def)
    ultimately show ?thesis by blast
  next
    case (Some bid)
    then have named: "ti_by_run i ?r = Some bid \<or> ti_by_run i ?r = None \<and> ti_by_sec i (?x, ?s) = Some bid"
      by (auto simp: or_opt_def split: option.splits)
    then obtain b where b: "map_of (ti_buckets i) bid = Some b" using idx_run [OF ok] idx_sec [OF ok] by blast
    let ?rid = "if rb_run b = None then Some ?r else None"
    let ?b = "b\<lparr>rb_run := (if rb_run b = None then Some ?r else rb_run b),
      rb_timer := (if rb_timer b = None then Some ?x else rb_timer b)\<rparr>"
    let ?i = "link_sec (Some ?x) ?s bid (link_run ?rid bid (put_bucket bid ?b i))"
    have "Option.bind (rb_run b) (ti_by_run i) = Some bid" if "rb_run b \<noteq> None"
      using that idx_own [OF ok b] by auto
    then have "idx_ok (link_run ?rid bid (put_bucket bid ?b i))"
      by (intro idx_put_link) (use ok named in \<open>auto split: if_splits\<close>)
    then have ok1: "idx_ok ?i" by (rule idx_link_sec) simp
    have "rests_on C ?P D (V bid) ?b"
    proof (rule rests_on_claim [OF settledD(3) [OF st b] c])
      show "\<exists>v\<in>set (V bid). ev_timer C v = Some ?x \<and> ev_second v = ?s" if "rb_run b = None"
        using named that settledD(6) [OF st _ b] settledD(9) [OF st _ b that] by blast
      show "\<exists>v\<in>set (V bid). ev_run C v = Some ?r" if "rb_timer b = None"
        using named that settledD(8) [OF st _ b] settledD(7) [OF st _ b that] by blast
    qed
    then have "settled C ?P E D (V(bid := V bid)) ?i"
    proof (intro settled_put [OF st ok1, where nb = ?b])
      show "if V bid = [] then \<exists>r. rb_run ?b = Some r \<and> bid = ''run:'' @ r
          else bid = bucket_id (ev_timer C (hd (V bid))) (ev_run C (hd (V bid))) (event_when (hd (V bid)))"
        using settledD(4,5) [OF st b] by auto
    qed (use named settledD(2) [OF st b] in \<open>auto simp: by_run_link link_sec_def split: if_splits\<close>)
    moreover have "put_bucket bid ?b (if rb_run b = None then link_run (Some ?r) bid i else i) =
        link_run ?rid bid (put_bucket bid ?b i)"
      by (simp add: put_bucket_def link_run_def)
    then have "record_claim C now start stop c i = Some ?i" using True Some b by (simp add: record_claim_def Let_def)
    ultimately show ?thesis by (simp only: fun_upd_triv) blast
  qed
next
  case False
  then have "record_claim C now start stop c i = Some i" by (auto simp: record_claim_def)
  with st show ?thesis by blast
qed

lemma record_claims_settled:
  assumes "settled C (past_in_range now start stop) E D V i" "set cs \<subseteq> D"
  shows "\<exists>i1 V1. record_claims C now start stop cs i = Some i1 \<and> settled C (past_in_range now start stop) E D V1 i1"
  using assms
proof (induction cs arbitrary: i V)
  case (Cons c cs)
  obtain i1 V1 where 1: "record_claim C now start stop c i = Some i1"
    "settled C (past_in_range now start stop) E D V1 i1"
    using record_claim_settled [OF Cons.prems(1), of c] Cons.prems(2) by auto
  from Cons.IH [OF 1(2)] Cons.prems(2) 1(1) show ?case by simp
qed auto

text \<open>No lookup of a bucket fails: the two passes always answer, with evidence for every bucket.\<close>

lemma recorded_index:
  obtains i1 i2 V where "record_events C now start stop events empty_index = Some i1"
    "record_claims C now start stop claims i1 = Some i2"
    "settled C (past_in_range now start stop) (set events) (set claims) V i2"
proof -
  have "gathered C (past_in_range now start stop) {} (\<lambda>_. []) empty_index"
    by (simp add: gathered_def idx_empty) (simp add: empty_index_def)
  from record_events_gathered [OF this, of events] obtain i1 V1 where
    i1: "record_events C now start stop events empty_index = Some i1"
    "gathered C (past_in_range now start stop) (set events) V1 i1" by auto
  with record_claims_settled [OF gathered_settled [OF i1(2)] subset_refl, of claims] that show ?thesis by blast
qed

end
