(* ===== verification/Calendar_Properties.thy ===== *)
theory Calendar_Properties
  imports Calendar_Evidence
begin

text \<open>
  What the calendar shows. The past of the truth window is evidence and its future projection, and
  no run is shown twice; the grid of the plain calendar is whole weeks and hides nothing it does not
  count; the caps bound the snapshot; a weekday phrase names the first such day.
\<close>

section \<open>Entries\<close>

lemma recorded_entry_sel [simp]:
  "te_run (recorded_entry L z b name) = rb_run b" "te_timer (recorded_entry L z b name) = rb_timer b"
  "te_scheduled (recorded_entry L z b name) = rb_scheduled b" "te_source (recorded_entry L z b name) = Recorded"
  "te_outcome (recorded_entry L z b name) = outcome_from_bucket b"
  by (simp_all add: recorded_entry_def Let_def)

lemma upcoming_entry_sel [simp]:
  "te_run (upcoming_entry L z x t) = None" "te_timer (upcoming_entry L z x t) = Some (x_id x)"
  "te_scheduled (upcoming_entry L z x t) = t" "te_source (upcoming_entry L z x t) = Upcoming"
  "te_outcome (upcoming_entry L z x t) = OutUpcoming"
  by (simp_all add: upcoming_entry_def Let_def)

lemma recorded_entries_from:
  "recorded_entries L opts z bs = Some (es, ks) \<Longrightarrow>
     map te_run es = map rb_run (filter (\<lambda>b. in_days opts z (rb_scheduled b)) bs) \<and>
     (\<forall>e\<in>set es. (\<exists>b\<in>set bs. \<exists>name. e = recorded_entry L z b name) \<and>
        (\<forall>i. te_timer e = Some i \<longrightarrow> (i, nanos_or_zero (te_scheduled e)) \<in> set ks))"
proof (induction bs arbitrary: es ks)
  case (Cons b bs)
  show ?case
  proof (cases "in_days opts z (rb_scheduled b)")
    case True
    then obtain name es0 ks0 where "recorded_entries L opts z bs = Some (es0, ks0)"
      "es = recorded_entry L z b name # es0"
      "ks = (case rb_timer b of None \<Rightarrow> ks0 | Some i \<Rightarrow> (i, nanos_or_zero (rb_scheduled b)) # ks0)"
      using Cons.prems by (auto simp: bind_Some)
    with Cons.IH [OF this(1)] True show ?thesis by (cases "rb_timer b") auto
  qed (use Cons in auto)
qed simp

lemma project_fires_from:
  "t \<in> set (project_fires opts z start stop keys i room ts) \<Longrightarrow>
   t \<in> set ts \<and> to_now opts < t \<and> \<not> suppressed keys i t"
  by (induction ts arbitrary: room) (auto simp: Let_def split: if_splits)

definition projection :: "lib \<Rightarrow> truth_options \<Rightarrow> zone \<Rightarrow> dedupe_key list \<Rightarrow> expandable set \<Rightarrow> truth_entry \<Rightarrow> bool" where
  "projection L opts z keys X u \<longleftrightarrow>
     (\<exists>x\<in>X. \<exists>t n ts. u = upcoming_entry L z x t \<and> to_now opts < t \<and> \<not> suppressed keys (x_id x) t \<and>
        preview L (x_occurrence x) (to_now opts) n = Some ts \<and> t \<in> set ts)"

lemma projection_shape: "projection L opts z keys X u \<Longrightarrow> te_run u = None \<and> te_source u = Upcoming"
  by (auto simp: projection_def)

lemma projection_more: "projection L opts z keys X u \<Longrightarrow> X \<subseteq> Y \<Longrightarrow> projection L opts z keys Y u"
  unfolding projection_def by blast

lemma project_tasks_from:
  assumes "project_tasks L opts z start stop keys xs es ws = Some (es', ws')"
  shows "\<exists>us. es' = es @ us \<and> (\<forall>u\<in>set us. projection L opts z keys (set xs) u)"
  using assms
proof (induction xs arbitrary: es ws)
  case (Cons x xs)
  show ?case
  proof (cases "max_total_entries (to_caps opts) \<le> length es")
    case False
    let ?cap = "min (max_fires_per_task (to_caps opts)) (max_total_entries (to_caps opts) - length es)"
    obtain ts where ts: "preview L (x_occurrence x) (to_now opts) ?cap = Some ts"
      using Cons.prems False by (auto simp: bind_Some Let_def)
    let ?p = "project_fires opts z start stop keys (x_id x) ?cap ts"
    from Cons.prems False ts obtain ws1 where
      "project_tasks L opts z start stop keys xs (es @ map (upcoming_entry L z x) ?p) ws1 = Some (es', ws')"
      by (auto simp: bind_Some Let_def)
    from Cons.IH [OF this] obtain us where us: "es' = es @ map (upcoming_entry L z x) ?p @ us"
      "\<forall>u\<in>set us. projection L opts z keys (set xs) u" by auto
    have "projection L opts z keys (set (x # xs)) (upcoming_entry L z x t)" if "t \<in> set ?p" for t
      unfolding projection_def using project_fires_from [OF that] ts by (metis list.set_intros(1))
    then show ?thesis using us projection_more [of L opts z keys "set xs" _ "set (x # xs)"]
      by (intro exI [of _ "map (upcoming_entry L z x) ?p @ us"]) auto
  qed (use Cons.prems in auto)
qed simp

lemma owned_runs_distinct:
  assumes "distinct (map fst bs)" "\<And>k b r. (k, b) \<in> set bs \<Longrightarrow> rb_run b = Some r \<Longrightarrow> f r = Some k"
  shows "distinct (map rb_run (filter (\<lambda>b. rb_run b \<noteq> None \<and> Q b) (map snd bs)))"
  using assms
proof (induction bs)
  case (Cons p bs)
  obtain k b where p: "p = (k, b)" by (cases p)
  have "rb_run c \<noteq> rb_run b" if c: "c \<in> snd ` set bs" and b: "rb_run b \<noteq> None" for c
  proof
    assume "rb_run c = rb_run b"
    moreover obtain r where "rb_run b = Some r" using b by blast
    moreover obtain k' where "(k', c) \<in> set bs" using c by auto
    ultimately have "rb_run b = Some r" "rb_run c = Some r" "(k', c) \<in> set bs" by simp_all
    then have "k' = k" using Cons.prems(2) [of k b r] Cons.prems(2) [of k' c r] p by simp
    then show False using Cons.prems(1) p \<open>(k', c) \<in> set bs\<close> by (force simp: image_iff)
  qed
  moreover have "distinct (map rb_run (filter (\<lambda>b. rb_run b \<noteq> None \<and> Q b) (map snd bs)))"
    by (rule Cons.IH) (use Cons.prems in auto)
  ultimately show ?case using p by (fastforce simp: image_iff)
qed simp

lemma distinct_mset_eq: "mset xs = mset ys \<Longrightarrow> distinct xs = distinct ys"
  by (rule mset_eq_imp_distinct_iff)

definition drains :: "((string \<times> record_bucket) list \<Rightarrow> record_bucket list) \<Rightarrow> bool" where
  "drains drain \<longleftrightarrow> (\<forall>bs. mset (drain bs) = mset (map snd bs))"

text \<open>What a window is made of.\<close>

lemma window_parts:
  assumes "build_truth_window L C drain tasks events claims opts = Some (Inr w)" "drains drain"
  obtains z start stop i V recorded keys us where
    "tz_from_str L (to_timezone opts) = Some z"
    "local_range_bounds L (to_from opts) (to_to opts) z = Some (Inr (start, stop))"
    "settled C (past_in_range (to_now opts) start stop) (set events) (set claims) V i"
    "recorded_entries L opts z (drain (ti_buckets i)) = Some (recorded, keys)"
    "tw_entries w = sort_key truth_key (recorded @ us)"
    "\<And>u. u \<in> set us \<Longrightarrow> projection L opts z keys (set tasks) u"
proof -
  obtain z bounds where z: "local_range_bounds L (to_from opts) (to_to opts) z = Some bounds"
    "tz_from_str L (to_timezone opts) = Some z"
    using assms(1) by (auto simp: build_truth_window_def bind_Some split: if_splits option.split_asm)
  then obtain start stop es warnings where sb: "bounds = Inr (start, stop)" and
    te: "truth_entries L C drain opts z start stop tasks events claims = Some (es, warnings)" "tw_entries w = es"
    using assms(1) by (cases bounds) (auto simp: build_truth_window_def bind_Some split: if_splits)
  obtain i1 i2 V where i: "record_events C (to_now opts) start stop events empty_index = Some i1"
    "record_claims C (to_now opts) start stop claims i1 = Some i2"
    "settled C (past_in_range (to_now opts) start stop) (set events) (set claims) V i2" by (rule recorded_index)
  obtain recorded keys where r: "recorded_entries L opts z (drain (ti_buckets i2)) = Some (recorded, keys)"
    using te i by (auto simp: truth_entries_def bind_Some)
  obtain es0 ws where p: "project_tasks L opts z start stop keys (take (max_tasks (to_caps opts)) tasks) recorded
      (tasks_capped (max_tasks (to_caps opts)) (length tasks)) = Some (es0, ws)" "es = sort_key truth_key es0"
    using te i r by (auto simp: truth_entries_def bind_Some Let_def)
  obtain us where us: "es0 = recorded @ us"
    "\<forall>u\<in>set us. projection L opts z keys (set (take (max_tasks (to_caps opts)) tasks)) u"
    using project_tasks_from [OF p(1)] by blast
  show ?thesis
    by (rule that [OF z(2) z(1) [unfolded sb] i(3) r, of us])
      (use te p us in \<open>auto intro: projection_more dest: set_take_subset [THEN subsetD]\<close>)
qed

section \<open>The truth window\<close>

text \<open>The label that a set of event kinds stands for: the worst wins.\<close>

definition labelled :: "run_state set \<Rightarrow> outcome_label \<Rightarrow> bool" where
  "labelled K l = (case l of
     OutFailed \<Rightarrow> WakeFailedEv \<in> K \<or> NoAck \<in> K
   | OutSkipped \<Rightarrow> SkippedMisfireEv \<in> K \<and> WakeFailedEv \<notin> K \<and> NoAck \<notin> K
   | OutCoalesced \<Rightarrow> Coalesced \<in> K \<and> K \<subseteq> {Coalesced, FiredLate, Fired, WakeDeliveredEv}
   | OutLate \<Rightarrow> FiredLate \<in> K \<and> K \<subseteq> {FiredLate, Fired, WakeDeliveredEv}
   | OutDelivered \<Rightarrow> K \<noteq> {} \<and> K \<subseteq> {Fired, WakeDeliveredEv}
   | OutUnknown \<Rightarrow> False
   | OutUpcoming \<Rightarrow> False)"

lemma outcome_labelled:
  assumes "ks \<noteq> []" "\<forall>k\<in>set ks. is_outcome_event k"
  shows "labelled (set ks) (outcome_from_kinds ks)"
proof -
  have K: "set ks \<subseteq> {Fired, FiredLate, SkippedMisfireEv, Coalesced, WakeDeliveredEv, WakeFailedEv, NoAck}"
    using assms(2) unfolding is_outcome_event_def by blast
  consider "\<exists>k\<in>set ks. k = WakeFailedEv \<or> k = NoAck"
    | "WakeFailedEv \<notin> set ks" "NoAck \<notin> set ks" by blast
  then show ?thesis
  proof cases
    case 1
    then have "outcome_from_kinds ks = OutFailed" by (simp add: outcome_from_kinds_def)
    then show ?thesis using 1 by (auto simp: labelled_def)
  next
    case 2
    then have n: "\<not> (\<exists>k\<in>set ks. k = WakeFailedEv \<or> k = NoAck)" by blast
    show ?thesis using 2 K assms(1) unfolding outcome_from_kinds_def if_not_P [OF n]
      by (auto simp: labelled_def)
  qed
qed

text \<open>
  What a recorded entry rests on: the events \<open>vs\<close>, whose earliest instant, run, timer and label it
  shows, or, without an event, a delivered claim of the ledger.
\<close>

definition evidence_of :: "codec \<Rightarrow> (instant \<Rightarrow> bool) \<Rightarrow> run_claim set \<Rightarrow> event list \<Rightarrow> truth_entry \<Rightarrow> bool" where
  "evidence_of C P D vs e \<longleftrightarrow>
     (if vs = [] then te_outcome e = OutUnknown \<and>
        (\<exists>c. delivered_in P D c \<and> te_scheduled e = r_scheduled_for c \<and>
           te_run e = Some (uuid_text C (r_id c)) \<and> te_timer e = Some (uuid_text C (r_timer c)))
      else (\<forall>v\<in>set vs. is_outcome_event (e_kind v) \<and> P (event_when v)) \<and> chained C vs \<and>
        te_scheduled e = Min (event_when ` set vs) \<and> labelled (e_kind ` set vs) (te_outcome e) \<and>
        run_known C P D vs (te_run e) \<and> timer_known C P D vs (te_timer e))"

lemma rests_evidence:
  assumes "rests_on C P D vs b" shows "evidence_of C P D vs (recorded_entry L z b name)"
proof (cases "vs = []")
  case True
  then show ?thesis using assms by (auto simp: rests_on_def evidence_of_def outcome_from_bucket_def)
next
  case False
  then have k: "rb_kinds b = map e_kind vs" "rb_has_events b" using assms by (simp_all add: rests_on_def)
  then have "outcome_from_bucket b = outcome_from_kinds (map e_kind vs)"
    using False by (simp add: outcome_from_bucket_def)
  moreover have "labelled (set (map e_kind vs)) (outcome_from_kinds (map e_kind vs))"
    by (rule outcome_labelled) (use assms False in \<open>auto simp: rests_on_def\<close>)
  ultimately show ?thesis using assms False by (simp add: rests_on_def evidence_of_def)
qed

lemma rests_before:
  assumes "rests_on C (past_in_range now start stop) D vs b"
  shows "rb_scheduled b < now"
proof (cases "vs = []")
  case True
  then show ?thesis using assms by (auto simp: rests_on_def delivered_in_def past_in_range_def)
next
  case False
  then have "rb_scheduled b = Min (event_when ` set vs)" "\<forall>v\<in>set vs. event_when v < now"
    using assms by (auto simp: rests_on_def past_in_range_def)
  moreover have "Min (event_when ` set vs) \<in> event_when ` set vs" using False by (intro Min_in) auto
  ultimately show ?thesis by auto
qed

text \<open>C37: The calendar's past is evidence and its future is projection. An entry of a truth window
  either lies strictly before now and rests on events of the log, or, without one, on a delivered
  claim of the ledger, all in the past part of the range. The events are outcome events, each of one
  fire with an earlier one of them (it names the same run, or the same timer in the same second);
  the entry's instant is the earliest of theirs; its label is the one their kinds stand for (failed
  before skipped before coalesced before late before delivered); its run and its timer are named by
  one of them, or, when none names one, by a delivered claim that shares the other name; and no outcome
  event of the entry's run in the past part of the range is left out. An entry from a claim alone is
  labelled unknown and has the claim's instant, run and timer. Or the entry lies strictly after now
  and is a fire its task's schedule previews.\<close>

theorem past_is_evidence:
  assumes w: "build_truth_window L C drain tasks events claims opts = Some (Inr w)"
    and d: "drains drain" and e: "e \<in> set (tw_entries w)"
  shows "te_source e = Recorded \<and> te_scheduled e < to_now opts \<and>
      (\<exists>z start stop vs. tz_from_str L (to_timezone opts) = Some z \<and>
         local_range_bounds L (to_from opts) (to_to opts) z = Some (Inr (start, stop)) \<and>
         set vs \<subseteq> set events \<and>
         evidence_of C (past_in_range (to_now opts) start stop) (set claims) vs e \<and>
         (\<forall>v\<in>set events. is_outcome_event (e_kind v) \<longrightarrow> past_in_range (to_now opts) start stop (event_when v) \<longrightarrow>
            ev_run C v \<noteq> None \<longrightarrow> ev_run C v = te_run e \<longrightarrow> v \<in> set vs)) \<or>
    te_source e = Upcoming \<and> to_now opts < te_scheduled e \<and> te_outcome e = OutUpcoming \<and>
      (\<exists>x\<in>set tasks. \<exists>n ts. te_timer e = Some (x_id x) \<and>
         preview L (x_occurrence x) (to_now opts) n = Some ts \<and> te_scheduled e \<in> set ts)"
proof -
  obtain z start stop i V recorded keys us where
    p: "tz_from_str L (to_timezone opts) = Some z"
    "local_range_bounds L (to_from opts) (to_to opts) z = Some (Inr (start, stop))"
    "settled C (past_in_range (to_now opts) start stop) (set events) (set claims) V i"
    "recorded_entries L opts z (drain (ti_buckets i)) = Some (recorded, keys)"
    "tw_entries w = sort_key truth_key (recorded @ us)"
    "\<And>u. u \<in> set us \<Longrightarrow> projection L opts z keys (set tasks) u" using window_parts [OF w d] by metis
  from e p(5) consider "e \<in> set recorded" | "e \<in> set us" by auto
  then show ?thesis
  proof cases
    case 1
    then obtain b name where b: "b \<in> set (drain (ti_buckets i))" "e = recorded_entry L z b name"
      using recorded_entries_from [OF p(4)] by blast
    have "b \<in> snd ` set (ti_buckets i)"
      using b(1) d unfolding drains_def by (metis set_map set_mset_mset)
    then obtain bid where bid: "map_of (ti_buckets i) bid = Some b"
      using settledD(1) [OF p(3)] by (auto simp: idx_ok_def)
    note rest = settledD(3) [OF p(3) bid]
    have all: "v \<in> set (V bid)" if "v \<in> set events" "is_outcome_event (e_kind v)"
      "past_in_range (to_now opts) start stop (event_when v)" "ev_run C v \<noteq> None" "ev_run C v = te_run e" for v
    proof -
      note h = that
      obtain r where r: "ev_run C v = Some r" using h(4) by blast
      obtain c where c: "ti_by_run i r = Some c" "v \<in> set (V c)"
        using settledD(10) [OF p(3) h(1-3) r] by blast
      have "rb_run b = Some r" using r h(5) b(2) by simp
      then have "ti_by_run i r = Some bid" by (rule idx_own [OF settledD(1) [OF p(3)] bid])
      with c show ?thesis by simp
    qed
    have "te_source e = Recorded \<and> te_scheduled e < to_now opts"
      using rests_before [OF rest] by (simp add: b(2))
    moreover have "evidence_of C (past_in_range (to_now opts) start stop) (set claims) (V bid) e"
      unfolding b(2) by (rule rests_evidence [OF rest])
    ultimately show ?thesis using p(1,2) settledD(2) [OF p(3) bid] all by blast
  next
    case 2
    then obtain x t n ts where "x \<in> set tasks" "e = upcoming_entry L z x t" "to_now opts < t"
      "preview L (x_occurrence x) (to_now opts) n = Some ts" "t \<in> set ts"
      using p(6) [OF 2] unfolding projection_def by blast
    then show ?thesis by simp blast
  qed
qed

text \<open>C38: The truth window shows nothing twice: no two entries carry the same run, and no
projection shares its timer and its second with a recorded entry (for instants within chrono's
64-bit nanoseconds).\<close>

theorem shown_once:
  assumes w: "build_truth_window L C drain tasks events claims opts = Some (Inr w)" and d: "drains drain"
  shows "distinct (map te_run (filter (\<lambda>e. te_run e \<noteq> None) (tw_entries w))) \<and>
    (\<forall>e\<in>set (tw_entries w). \<forall>u\<in>set (tw_entries w). te_source e = Recorded \<longrightarrow> te_source u = Upcoming \<longrightarrow>
       te_timer e \<noteq> None \<longrightarrow> te_timer u = te_timer e \<longrightarrow>
       nanos_opt (te_scheduled e) \<noteq> None \<longrightarrow> nanos_opt (te_scheduled u) \<noteq> None \<longrightarrow>
       num_seconds (te_scheduled u) \<noteq> num_seconds (te_scheduled e))"
proof
  obtain i recorded keys us z where
    p: "idx_ok i"
    "recorded_entries L opts z (drain (ti_buckets i)) = Some (recorded, keys)"
    "tw_entries w = sort_key truth_key (recorded @ us)"
    "\<And>u. u \<in> set us \<Longrightarrow> projection L opts z keys (set tasks) u" using window_parts [OF w d] settledD(1) by metis
  note r = recorded_entries_from [OF p(2)]
  let ?f = "\<lambda>es. map te_run (filter (\<lambda>e. te_run e \<noteq> None) es)"
  have "mset (?f (tw_entries w)) = mset (?f (recorded @ us))" by (simp add: p(3))
  also have "?f (recorded @ us) = ?f recorded"
    using projection_shape [OF p(4)] by (auto simp: filter_empty_conv)
  also have "?f recorded = filter (\<lambda>r. r \<noteq> None) (map te_run recorded)" by (simp add: filter_map o_def)
  also have "\<dots> = map rb_run (filter (\<lambda>b. rb_run b \<noteq> None \<and> in_days opts z (rb_scheduled b)) (drain (ti_buckets i)))"
    using r by (simp add: filter_map o_def conj_commute)
  also have "mset \<dots> = mset (map rb_run (filter (\<lambda>b. rb_run b \<noteq> None \<and> in_days opts z (rb_scheduled b)) (map snd (ti_buckets i))))"
    using d by (simp add: drains_def)
  finally show "distinct (?f (tw_entries w))"
    using owned_runs_distinct [of "ti_buckets i" "ti_by_run i" "\<lambda>b. in_days opts z (rb_scheduled b)"] p(1)
    by (subst distinct_mset_eq) (auto simp: idx_ok_def)
  show "\<forall>e\<in>set (tw_entries w). \<forall>u\<in>set (tw_entries w). te_source e = Recorded \<longrightarrow> te_source u = Upcoming \<longrightarrow>
       te_timer e \<noteq> None \<longrightarrow> te_timer u = te_timer e \<longrightarrow>
       nanos_opt (te_scheduled e) \<noteq> None \<longrightarrow> nanos_opt (te_scheduled u) \<noteq> None \<longrightarrow>
       num_seconds (te_scheduled u) \<noteq> num_seconds (te_scheduled e)"
  proof (intro ballI impI)
    fix e u
    assume a: "e \<in> set (tw_entries w)" "u \<in> set (tw_entries w)" "te_source e = Recorded" "te_source u = Upcoming"
      "te_timer e \<noteq> None" "te_timer u = te_timer e" "nanos_opt (te_scheduled e) \<noteq> None" "nanos_opt (te_scheduled u) \<noteq> None"
    have "e \<in> set recorded" using a(1,3) p(3) projection_shape [OF p(4), of e] by auto
    moreover have "u \<in> set us" using a(2,4) p(3) r by force
    ultimately obtain x t where "u = upcoming_entry L z x t" "\<not> suppressed keys (x_id x) t"
      "(x_id x, nanos_or_zero (te_scheduled e)) \<in> set keys"
      using p(4) [of u] r a(6) by (fastforce simp: projection_def)
    then show "num_seconds (te_scheduled u) \<noteq> num_seconds (te_scheduled e)"
      using a(7,8) by (auto simp: suppressed_def nanos_or_zero_def nanos_opt_def split: if_splits)
  qed
qed

text \<open>A window with one failure on record and the next fire of a schedule.\<close>

definition evening_task :: expandable where
  "evening_task = \<lparr>x_id = ''t'', x_name = ''Evening'', x_enabled = True, x_occurrence = sample_daily,
     x_past_status = StUnknown, x_command = None, x_source = ''bellman''\<rparr>"

definition morning_event :: event where
  "morning_event = with_scheduled_for (with_run (event_new sample_after 1 WakeFailedEv) 2) (sample_after - hour_ns)"

definition day_options :: truth_options where
  "day_options = \<lparr>to_from = 20539, to_to = 20542, to_timezone = ''UTC'', to_now = sample_after,
     to_caps = \<lparr>max_per_cell = 5, max_fires_per_task = 5, max_total_entries = 10, max_tasks = 3\<rparr>\<rparr>"

definition morning_bucket :: record_bucket where
  "morning_bucket = \<lparr>rb_timer = None, rb_run = Some ''ii'', rb_scheduled = sample_after - hour_ns, rb_name = None,
     rb_kinds = [WakeFailedEv], rb_has_events = True\<rparr>"

lemma drains_snd: "drains (map snd)"
  by (simp add: drains_def)

lemma day_index:
  "map_option (\<lambda>i. map snd (ti_buckets i)) (record_events sample_codec sample_after (20539 * day_ns) (20543 * day_ns)
     [morning_event] empty_index) = Some [morning_bucket]"
  by code_simp

lemma day_window:
  "\<exists>w. build_truth_window sample_lib sample_codec (map snd) [evening_task] [morning_event] [] day_options = Some (Inr w) \<and>
     set (tw_entries w) = {recorded_entry sample_lib utc_zone morning_bucket ''(unknown)'',
       upcoming_entry sample_lib utc_zone evening_task sample_fire}"
proof -
  obtain i where i: "record_events sample_codec sample_after (20539 * day_ns) (20543 * day_ns) [morning_event] empty_index = Some i"
    "map snd (ti_buckets i) = [morning_bucket]" using day_index by auto
  have r: "recorded_entries sample_lib day_options utc_zone [morning_bucket] =
      Some ([recorded_entry sample_lib utc_zone morning_bucket ''(unknown)''], [])"
    by (simp add: in_days_def day_options_def utc_zone_def morning_bucket_def date_of_def sample_after_def
        hour_ns_def day_ns_def recorded_name_def)
  have b: "local_range_bounds sample_lib 20539 20542 utc_zone = Some (Inr (20539 * day_ns, 20543 * day_ns))"
    by code_simp
  have p: "project_tasks sample_lib day_options utc_zone (20539 * day_ns) (20543 * day_ns) [] [evening_task]
      [recorded_entry sample_lib utc_zone morning_bucket ''(unknown)''] [] =
    Some ([recorded_entry sample_lib utc_zone morning_bucket ''(unknown)'',
       upcoming_entry sample_lib utc_zone evening_task sample_fire], [])"
    using preview_sample
    by (simp add: day_options_def default_caps_def evening_task_def timezone_def)
      (simp add: suppressed_def in_days_def utc_zone_def date_of_def sample_defs)
  let ?es = "[recorded_entry sample_lib utc_zone morning_bucket ''(unknown)'',
       upcoming_entry sample_lib utc_zone evening_task sample_fire]"
  have o1: "to_now day_options = sample_after" "to_from day_options = 20539" "to_to day_options = 20542"
    "to_timezone day_options = ''UTC''" "max_tasks (to_caps day_options) = 3" by (simp_all add: day_options_def)
  have t: "truth_entries sample_lib sample_codec (map snd) day_options utc_zone (20539 * day_ns) (20543 * day_ns)
      [evening_task] [morning_event] [] = Some (sort_key truth_key ?es, [])"
    unfolding truth_entries_def o1 i(1) record_claims.simps bind.bind_lunit i(2) r Let_def tasks_capped_def
    using p by simp
  have "tz_from_str sample_lib ''UTC'' = Some utc_zone" by (simp add: sample_lib_def sample_tz_def)
  with t b show ?thesis by (simp add: build_truth_window_def o1 insert_commute)
qed

lemma morning_outcome: "outcome_from_bucket morning_bucket = OutFailed"
  by (simp add: morning_bucket_def outcome_from_bucket_def outcome_from_kinds_def)

theorem past_is_evidence_witness:
  "\<exists>w. build_truth_window sample_lib sample_codec (map snd) [evening_task] [morning_event] [] day_options = Some (Inr w) \<and>
     (\<forall>e\<in>set (tw_entries w). te_source e = Recorded \<longrightarrow> te_outcome e = OutFailed \<and>
        te_scheduled e = event_when morning_event \<and> te_run e = ev_run sample_codec morning_event)"
proof -
  obtain w where w: "build_truth_window sample_lib sample_codec (map snd) [evening_task] [morning_event] [] day_options = Some (Inr w)"
    "set (tw_entries w) = {recorded_entry sample_lib utc_zone morning_bucket ''(unknown)'',
       upcoming_entry sample_lib utc_zone evening_task sample_fire}" using day_window by blast
  let ?e = "recorded_entry sample_lib utc_zone morning_bucket ''(unknown)''"
  have e: "?e \<in> set (tw_entries w)" "te_source ?e = Recorded" "te_run ?e = Some ''ii''"
    by (simp_all add: w(2)) (simp add: morning_bucket_def)
  from past_is_evidence [OF w(1) drains_snd e(1)] e(2) obtain P vs where
    vs: "set vs \<subseteq> {morning_event}" "evidence_of sample_codec P {} vs ?e" by auto
  then have ne: "vs \<noteq> []" by (auto simp: evidence_of_def delivered_in_def)
  then have one: "set vs = {morning_event}" using vs(1) by (cases vs) auto
  have "te_scheduled ?e = event_when morning_event" "labelled {WakeFailedEv} (te_outcome ?e)"
    "run_known sample_codec P {} vs (te_run ?e)"
    using vs(2) ne one by (auto simp: evidence_of_def morning_event_def event_new_def with_run_def with_scheduled_for_def)
  moreover from this(2) have "te_outcome ?e = OutFailed"
    by (auto simp: labelled_def split: outcome_label.splits)
  moreover have "te_run ?e = ev_run sample_codec morning_event"
    using \<open>run_known _ _ _ _ _\<close> one e(3) by (auto simp: run_known_def delivered_in_def)
  ultimately have "te_outcome ?e = OutFailed \<and> te_scheduled ?e = event_when morning_event \<and>
      te_run ?e = ev_run sample_codec morning_event" by blast
  then show ?thesis using w by (intro exI [of _ w]) auto
qed

theorem shown_once_witness:
  "\<exists>w. build_truth_window sample_lib sample_codec (map snd) [evening_task] [morning_event] [] day_options = Some (Inr w) \<and>
     distinct (map te_run (filter (\<lambda>e. te_run e \<noteq> None) (tw_entries w))) \<and> card (set (tw_entries w)) = 2"
proof -
  obtain w where w: "build_truth_window sample_lib sample_codec (map snd) [evening_task] [morning_event] [] day_options = Some (Inr w)"
    "set (tw_entries w) = {recorded_entry sample_lib utc_zone morning_bucket ''(unknown)'',
       upcoming_entry sample_lib utc_zone evening_task sample_fire}" using day_window by blast
  have "recorded_entry sample_lib utc_zone morning_bucket ''(unknown)'' \<noteq>
      upcoming_entry sample_lib utc_zone evening_task sample_fire"
    by (metis recorded_entry_sel(4) truth_source.distinct(1) upcoming_entry_sel(4))
  then show ?thesis using shown_once [OF w(1) drains_snd] w by auto
qed

section \<open>The plain calendar\<close>

definition on_days :: "calendar_options \<Rightarrow> zone \<Rightarrow> instant \<Rightarrow> bool" where
  "on_days opts z t \<longleftrightarrow> co_from opts \<le> date_of (naive_local z t) \<and> date_of (naive_local z t) \<le> co_to opts"

lemma place_fires_exact:
  "length ts \<le> room \<Longrightarrow>
   place_fires opts z start stop room ts = filter (\<lambda>t. start \<le> t \<and> on_days opts z t) (takeWhile (\<lambda>t. t < stop) ts)"
proof (induction ts arbitrary: room)
  case (Cons t ts)
  show ?case
  proof (cases "room \<le> 1")
    case True
    then have "ts = []" using Cons.prems by (cases ts) auto
    then show ?thesis by (auto simp: Let_def on_days_def)
  next
    case False
    then show ?thesis using Cons.IH [of room] Cons.IH [of "room - 1"] Cons.prems
      by (auto simp: Let_def on_days_def)
  qed
qed simp

text \<open>
  The fires of one task that a snapshot shows when \<open>used\<close> entries are placed already: of the next
  fires from just before the range, no more than the task's cap and the room left, those that are in
  the range.
\<close>

definition task_fires ::
  "lib \<Rightarrow> calendar_options \<Rightarrow> zone \<Rightarrow> instant \<Rightarrow> instant \<Rightarrow> nat \<Rightarrow> expandable \<Rightarrow> instant list \<Rightarrow> bool" where
  "task_fires L opts z start stop used x fs \<longleftrightarrow>
     (if max_total_entries (co_caps opts) \<le> used then fs = []
      else \<exists>ts. preview L (x_occurrence x) (start - 1)
             (min (max_fires_per_task (co_caps opts)) (max_total_entries (co_caps opts) - used)) = Some ts \<and>
           fs = filter (\<lambda>t. start \<le> t \<and> on_days opts z t) (takeWhile (\<lambda>t. t < stop) ts))"

lemma task_fires_bounds:
  assumes "task_fires L opts z start stop used x fs"
  shows "length fs \<le> max_fires_per_task (co_caps opts)"
    "used \<le> max_total_entries (co_caps opts) \<Longrightarrow> used + length fs \<le> max_total_entries (co_caps opts)"
    "t \<in> set fs \<Longrightarrow> on_days opts z t"
proof -
  have "length fs \<le> max_fires_per_task (co_caps opts) \<and>
    (used \<le> max_total_entries (co_caps opts) \<longrightarrow> used + length fs \<le> max_total_entries (co_caps opts)) \<and>
    (t \<in> set fs \<longrightarrow> on_days opts z t)"
  proof (cases "max_total_entries (co_caps opts) \<le> used")
    case True
    then show ?thesis using assms by (simp add: task_fires_def)
  next
    case False
    then obtain ts where ts: "preview L (x_occurrence x) (start - 1)
        (min (max_fires_per_task (co_caps opts)) (max_total_entries (co_caps opts) - used)) = Some ts"
      "fs = filter (\<lambda>t. start \<le> t \<and> on_days opts z t) (takeWhile (\<lambda>t. t < stop) ts)"
      using assms by (auto simp: task_fires_def)
    have "length fs \<le> length ts" unfolding ts(2) using length_filter_le length_takeWhile_le order_trans by blast
    then show ?thesis using preview_length(1) [OF ts(1)] ts(2) by auto
  qed
  then show "length fs \<le> max_fires_per_task (co_caps opts)"
    "used \<le> max_total_entries (co_caps opts) \<Longrightarrow> used + length fs \<le> max_total_entries (co_caps opts)"
    "t \<in> set fs \<Longrightarrow> on_days opts z t" by blast+
qed

abbreviation task_entries :: "lib \<Rightarrow> calendar_options \<Rightarrow> zone \<Rightarrow> expandable list \<Rightarrow> instant list list \<Rightarrow> calendar_entry list" where
  "task_entries L opts z xs fss \<equiv> concat (map2 (\<lambda>x. map (snapshot_entry L opts z x)) xs fss)"

lemma no_entries: "task_entries L opts z xs (replicate (length xs) []) = []"
  by (induction xs) auto

lemma expand_tasks_exact:
  assumes "expand_tasks L opts z (start - 1) start stop xs es ws = Some (es', ws')"
  shows "\<exists>fss. length fss = length xs \<and> es' = es @ task_entries L opts z xs fss \<and>
    (\<forall>k<length xs. task_fires L opts z start stop (length es + length (concat (take k fss))) (xs ! k) (fss ! k))"
  using assms
proof (induction xs arbitrary: es ws)
  case (Cons x xs)
  let ?caps = "co_caps opts"
  show ?case
  proof (cases "max_total_entries ?caps \<le> length es")
    case True
    have "concat (take k (replicate n [])) = []" for k n by (simp add: take_replicate)
    then show ?thesis using True Cons.prems no_entries [of L opts z "x # xs"]
      by (intro exI [of _ "replicate (length (x # xs)) []"])
        (simp add: task_fires_def del: replicate.simps concat_eq_Nil_conv)
  next
    case False
    let ?cap = "min (max_fires_per_task ?caps) (max_total_entries ?caps - length es)"
    obtain ts where ts: "preview L (x_occurrence x) (start - 1) ?cap = Some ts"
      using Cons.prems False by (auto simp: bind_Some Let_def)
    let ?p = "place_fires opts z start stop ?cap ts"
    from Cons.prems False ts obtain ws1 where
      "expand_tasks L opts z (start - 1) start stop xs (es @ map (snapshot_entry L opts z x) ?p) ws1 = Some (es', ws')"
      by (auto simp: bind_Some Let_def)
    from Cons.IH [OF this] obtain fss where fss: "length fss = length xs"
      "es' = es @ map (snapshot_entry L opts z x) ?p @ task_entries L opts z xs fss"
      "\<forall>k<length xs. task_fires L opts z start stop (length es + length ?p + length (concat (take k fss))) (xs ! k) (fss ! k)"
      by auto
    have first: "task_fires L opts z start stop (length es) x ?p"
      using False ts place_fires_exact [OF preview_length(1) [OF ts], of opts z start stop]
      by (simp add: task_fires_def)
    have "task_fires L opts z start stop (length es + length (concat (take k (?p # fss)))) ((x # xs) ! k) ((?p # fss) ! k)"
      if "k < length (x # xs)" for k
      using that first fss(3) by (cases k) (simp_all add: add.assoc)
    then show ?thesis using fss(1,2) by (intro exI [of _ "?p # fss"]) simp
  qed
qed simp

lemma fires_total:
  assumes "length fss = length xs"
    "\<forall>k<length xs. task_fires L opts z start stop (length (concat (take k fss))) (xs ! k) (fss ! k)"
  shows "k \<le> length xs \<Longrightarrow> length (concat (take k fss)) \<le> max_total_entries (co_caps opts)"
proof (induction k)
  case (Suc k)
  then have k: "k < length fss" using assms(1) by simp
  then show ?case
    using Suc task_fires_bounds(2) [OF assms(2) [rule_format, of k]] assms(1)
    by (simp add: take_Suc_conv_app_nth)
qed simp

lemma task_entries_length: "length fss = length xs \<Longrightarrow> length (task_entries L opts z xs fss) = length (concat fss)"
proof (induction fss arbitrary: xs)
  case (Cons fs fss)
  then obtain y ys where "xs = y # ys" "length fss = length ys" by (cases xs) auto
  then show ?case using Cons.IH [of ys] by simp
qed simp

lemma task_entries_in:
  "e \<in> set (task_entries L opts z xs fss) \<Longrightarrow>
    \<exists>k<length xs. k < length fss \<and> (\<exists>t\<in>set (fss ! k). e = snapshot_entry L opts z (xs ! k) t)"
proof (induction xs arbitrary: fss)
  case (Cons x xs)
  then obtain fs gss where fss: "fss = fs # gss" by (cases fss) auto
  from Cons.prems consider "\<exists>t\<in>set fs. e = snapshot_entry L opts z x t" | "e \<in> set (task_entries L opts z xs gss)"
    by (auto simp: fss)
  then show ?case
  proof cases
    case 1
    then show ?thesis by (intro exI [of _ 0]) (simp add: fss)
  next
    case 2
    from Cons.IH [OF this] obtain k where "k < length xs" "k < length gss"
      "\<exists>t\<in>set (gss ! k). e = snapshot_entry L opts z (xs ! k) t" by blast
    then show ?thesis by (intro exI [of _ "Suc k"]) (simp add: fss)
  qed
qed simp

lemma grid_day_counts:
  "length (cd_entries (grid_day L f es k d)) \<le> k"
  "cd_total (grid_day L f es k d) = length (cd_entries (grid_day L f es k d)) + cd_overflow (grid_day L f es k d)"
  "cd_total (grid_day L f es k d) = length (filter (\<lambda>e. ce_date e = cd_date (grid_day L f es k d)) es)"
  by (auto simp: grid_day_def Let_def)

lemma build_grid_days:
  "build_grid L from to month w es k = Some days \<Longrightarrow> d \<in> set days \<Longrightarrow> \<exists>f x. d = grid_day L f es k x"
  by (auto simp: build_grid_def bind_Some split: option.splits prod.splits) blast+

lemma snapshot_exact:
  assumes "build_snapshot L tasks opts = Some (Inr s)"
  defines "shown \<equiv> take (max_tasks (co_caps opts)) tasks"
  shows "\<exists>z start stop fss. tz_from_str L (co_timezone opts) = Some z \<and>
      local_midnight z (co_from opts) = Some start \<and>
      Option.bind (day_add L (co_to opts) 1) (local_midnight z) = Some stop \<and> length fss = length shown \<and>
      mset (cs_entries s) = mset (task_entries L opts z shown fss) \<and>
      (\<forall>k<length shown. length (fss ! k) \<le> max_fires_per_task (co_caps opts) \<and>
         task_fires L opts z start stop (length (concat (take k fss))) (shown ! k) (fss ! k)) \<and>
      (\<forall>e\<in>set (cs_entries s). \<exists>x\<in>set shown. \<exists>t. e = snapshot_entry L opts z x t \<and> on_days opts z t)"
    and "length (cs_entries s) \<le> max_total_entries (co_caps opts)"
    and "\<forall>d\<in>set (cs_days s). length (cd_entries d) \<le> max_per_cell (co_caps opts) \<and>
       length (cd_entries d) + cd_overflow d = length (filter (\<lambda>e. ce_date e = cd_date d) (cs_entries s))"
proof -
  obtain z start next_day where z: "tz_from_str L (co_timezone opts) = Some z"
    "local_midnight z (co_from opts) = Some start" "day_add L (co_to opts) 1 = Some next_day"
    using assms(1) by (auto simp: build_snapshot_def bind_Some split: if_splits option.split_asm)
  then obtain stop where stop: "local_midnight z next_day = Some stop"
    using assms(1) by (cases "local_midnight z next_day") (auto simp: build_snapshot_def bind_Some split: if_splits)
  obtain es ws days where
    e: "expand_tasks L opts z (start - 1) start stop shown [] (tasks_capped (max_tasks (co_caps opts)) (length tasks)) = Some (es, ws)"
    "build_grid L (co_from opts) (co_to opts) (co_month opts) (co_week_start opts) (cs_entries s)
       (max_per_cell (co_caps opts)) = Some days"
    "cs_days s = days" "mset (cs_entries s) = mset es"
    using assms(1) z stop unfolding shown_def
    by (auto simp: build_snapshot_def bind_Some instant_add_Some Let_def split: if_splits)
  obtain fss where fss: "length fss = length shown" "es = task_entries L opts z shown fss"
    "\<forall>k<length shown. task_fires L opts z start stop (length (concat (take k fss))) (shown ! k) (fss ! k)"
    using expand_tasks_exact [OF e(1)] by auto
  have on: "\<exists>x\<in>set shown. \<exists>t. c = snapshot_entry L opts z x t \<and> on_days opts z t" if c: "c \<in> set (cs_entries s)" for c
  proof -
    have "c \<in> set es" using c e(4) by (metis set_mset_mset)
    then obtain k t where k: "k < length shown" "t \<in> set (fss ! k)" "c = snapshot_entry L opts z (shown ! k) t"
      using task_entries_in unfolding fss(2) by blast
    then have "on_days opts z t" using task_fires_bounds(3) fss(3) by blast
    then show ?thesis using k nth_mem by blast
  qed
  have "length (cs_entries s) = length es" using e(4) by (metis size_mset)
  also have "\<dots> \<le> max_total_entries (co_caps opts)"
    unfolding fss(2) task_entries_length [OF fss(1)] using fires_total [OF fss(1,3), of "length shown"] fss(1) by simp
  finally show "length (cs_entries s) \<le> max_total_entries (co_caps opts)" .
  show "\<forall>d\<in>set (cs_days s). length (cd_entries d) \<le> max_per_cell (co_caps opts) \<and>
       length (cd_entries d) + cd_overflow d = length (filter (\<lambda>e. ce_date e = cd_date d) (cs_entries s))"
    using e(3) build_grid_days [OF e(2)] grid_day_counts by fastforce
  show "\<exists>z start stop fss. tz_from_str L (co_timezone opts) = Some z \<and>
      local_midnight z (co_from opts) = Some start \<and>
      Option.bind (day_add L (co_to opts) 1) (local_midnight z) = Some stop \<and> length fss = length shown \<and>
      mset (cs_entries s) = mset (task_entries L opts z shown fss) \<and>
      (\<forall>k<length shown. length (fss ! k) \<le> max_fires_per_task (co_caps opts) \<and>
         task_fires L opts z start stop (length (concat (take k fss))) (shown ! k) (fss ! k)) \<and>
      (\<forall>e\<in>set (cs_entries s). \<exists>x\<in>set shown. \<exists>t. e = snapshot_entry L opts z x t \<and> on_days opts z t)"
    using z stop fss e(4) on task_fires_bounds(1)
    by (intro exI [of _ z] exI [of _ start] exI [of _ stop] exI [of _ fss] conjI) auto
qed

text \<open>C39: The calendar stays within its caps and hides nothing it does not count. The entries of a
  snapshot are exactly the fires of the first \<open>max_tasks\<close> tasks, task by task: of a task, as long as
  fewer than the total cap are placed, those of its next fires from just before the range (as many as
  its schedule previews within the cap per task and the room left) that lie in the range and on its
  days, each with the status that instant has. So a task has at most its cap of entries, the
  snapshot at most the total cap; a cell shows at most the cell cap, and what it shows plus what it
  counts as overflow are exactly the entries of its date.\<close>

theorem snapshot_bounded:
  assumes "build_snapshot L tasks opts = Some (Inr s)"
  defines "shown \<equiv> take (max_tasks (co_caps opts)) tasks"
  shows "(\<exists>z start stop fss. tz_from_str L (co_timezone opts) = Some z \<and>
      local_midnight z (co_from opts) = Some start \<and>
      Option.bind (day_add L (co_to opts) 1) (local_midnight z) = Some stop \<and> length fss = length shown \<and>
      mset (cs_entries s) = mset (task_entries L opts z shown fss) \<and>
      (\<forall>k<length shown. length (fss ! k) \<le> max_fires_per_task (co_caps opts) \<and>
         task_fires L opts z start stop (length (concat (take k fss))) (shown ! k) (fss ! k)) \<and>
      (\<forall>e\<in>set (cs_entries s). \<exists>x\<in>set shown. \<exists>t. e = snapshot_entry L opts z x t \<and> on_days opts z t)) \<and>
    length (cs_entries s) \<le> max_total_entries (co_caps opts) \<and>
    (\<forall>d\<in>set (cs_days s). length (cd_entries d) \<le> max_per_cell (co_caps opts) \<and>
       length (cd_entries d) + cd_overflow d = length (filter (\<lambda>e. ce_date e = cd_date d) (cs_entries s)))"
  unfolding shown_def by (intro conjI snapshot_exact [OF assms(1)])

text \<open>
  Weekdays follow one another: what chrono documents of \<open>num_days_from_monday\<close>.
\<close>

definition weekdays_cycle :: "lib \<Rightarrow> bool" where
  "weekdays_cycle L \<longleftrightarrow> (\<forall>d. weekday_from_monday L (d + 1) = (weekday_from_monday L d + 1) mod 7) \<and>
     (\<forall>d. weekday_from_monday L d < 7)"

lemma weekday_after:
  assumes "weekdays_cycle L"
  shows "weekday_from_monday L (d + int n) = (weekday_from_monday L d + n) mod 7"
proof (induction n)
  case (Suc n)
  have "weekday_from_monday L (d + int (Suc n)) = (weekday_from_monday L (d + int n) + 1) mod 7"
    using assms unfolding weekdays_cycle_def by (metis add.assoc of_nat_Suc add.commute)
  then show ?case using Suc by (simp add: mod_Suc_eq)
qed (use assms in \<open>simp add: weekdays_cycle_def\<close>)

lemma week_column_after:
  assumes "weekdays_cycle L"
  shows "week_column w (weekday_from_monday L (d + int n)) = (week_column w (weekday_from_monday L d) + n) mod 7"
  unfolding weekday_after [OF assms] week_column_def
  by (cases w; simp; presburger)

lemma week_column_less: "week_column w n < 7"
  by (simp add: week_column_def split: week_start.split)

text \<open>C40: The calendar's grid is whole weeks: for a range of days the cells run, a day each, from a
first day in the first column to a last day in the last column, they include every day of the
range, and less than a week is added before and after it.\<close>

theorem grid_whole_weeks:
  assumes "weekdays_cycle L" "from \<le> to" "build_grid L from to None w es k = Some days"
  shows "\<exists>a. days = map (\<lambda>i. grid_day L (\<lambda>d. from \<le> d \<and> d \<le> to) es k (a + int i)) [0..<length days] \<and>
    week_column w (weekday_from_monday L a) = 0 \<and> length days mod 7 = 0 \<and>
    a \<le> from \<and> from < a + 7 \<and> to < a + int (length days) \<and> a + int (length days) \<le> to + 7"
proof -
  let ?c = "\<lambda>d. week_column w (weekday_from_monday L d)"
  obtain a b where ab: "a = from - int (?c from)" "b = to + int (6 - ?c to)"
    "days = map (\<lambda>i. grid_day L (\<lambda>d. from \<le> d \<and> d \<le> to) es k (a + int i)) [0..<nat (b + 1 - a)]"
    using assms(3) by (auto simp: build_grid_def bind_Some start_of_week_def end_of_week_def day_add_def split: if_splits)
  note lt = week_column_less [of w]
  have a: "?c a = 0"
  proof -
    have "?c from = (?c a + ?c from) mod 7" using week_column_after [OF assms(1), of w a "?c from"] ab(1) by simp
    then show ?thesis using lt [of "weekday_from_monday L a"] lt [of "weekday_from_monday L from"] by presburger
  qed
  have "?c to = nat (to - a) mod 7"
    using week_column_after [OF assms(1), of w a "nat (to - a)"] a assms(2) ab(1) by simp
  moreover have "(n + 7 - n mod 7) mod 7 = 0" for n :: nat by presburger
  ultimately have "(nat (to - a) + 7 - ?c to) mod 7 = 0" by metis
  moreover have "nat (b + 1 - a) = nat (to - a) + 7 - ?c to"
    using ab assms(2) lt [of "weekday_from_monday L to"] by linarith
  moreover have len: "length days = nat (b + 1 - a)" by (simp add: ab(3))
  moreover have "a \<le> from" "from < a + 7" "to < b + 1" "b + 1 \<le> to + 7" "a \<le> b + 1"
    using ab assms(2) lt [of "weekday_from_monday L to"] lt [of "weekday_from_monday L from"] by linarith+
  moreover from this len have "int (length days) = b + 1 - a" by simp
  ultimately have "length days mod 7 = 0 \<and> a \<le> from \<and> from < a + 7 \<and> to < a + int (length days) \<and>
    a + int (length days) \<le> to + 7" by (metis add_diff_cancel_left' add.commute diff_add_cancel)
  then show ?thesis using a ab(3) len by (intro exI [of _ a]) simp
qed

lemma weekdays_sample: "weekdays_cycle sample_lib"
proof -
  have "(d + 1 + 3) mod 7 = ((d + 3) mod 7 + 1) mod 7" for d :: int by presburger
  then have "nat ((d + 1 + 3) mod 7) = (nat ((d + 3) mod 7) + 1) mod 7" for d :: int
    by (simp only:) (simp add: nat_mod_distrib nat_add_distrib)
  then show ?thesis by (simp add: weekdays_cycle_def sample_lib_def nat_less_iff)
qed

text \<open>April 2026 in a range view with weeks from Sunday: five weeks, from 29 March to 2 May.\<close>

lemma april_grid: "\<exists>days. build_grid sample_lib 20544 20573 None WeekSun [] 5 = Some days \<and> length days = 35"
proof -
  have "start_of_week sample_lib 20544 WeekSun = Some 20541" "end_of_week sample_lib 20573 WeekSun = Some 20575"
    "day_add sample_lib 20575 1 = Some 20576"
    by (simp_all add: start_of_week_def end_of_week_def day_add_def week_column_def sample_lib_def)
  then show ?thesis unfolding build_grid_def by simp
qed

theorem grid_whole_weeks_witness:
  "\<exists>days. build_grid sample_lib 20544 20573 None WeekSun [] 5 = Some days \<and> length days = 35 \<and> length days mod 7 = 0"
proof -
  obtain days where d: "build_grid sample_lib 20544 20573 None WeekSun [] 5 = Some days" "length days = 35"
    using april_grid by blast
  have "(20544 :: int) \<le> 20573" by simp
  from grid_whole_weeks [OF weekdays_sample this d(1)] have "length days mod 7 = 0"
    by (elim exE conjE)
  with d show ?thesis by (intro exI [of _ days] conjI)
qed

definition range_options :: calendar_options where
  "range_options = \<lparr>co_from = 20542, co_to = 20543, co_month = None, co_timezone = ''UTC'', co_week_start = WeekMon,
     co_show_commands = False, co_now = sample_after,
     co_caps = \<lparr>max_per_cell = 1, max_fires_per_task = 5, max_total_entries = 2, max_tasks = 3\<rparr>\<rparr>"

lemma range_snapshot:
  "\<exists>s. build_snapshot sample_lib [evening_task] range_options = Some (Inr s) \<and>
     (\<exists>e. cs_entries s = [e]) \<and> length (cs_days s) = 7"
proof -
  have z: "tz_from_str sample_lib ''UTC'' = Some utc_zone" by (simp add: sample_lib_def sample_tz_def)
  have m: "local_midnight utc_zone d = Some (d * day_ns)" for d
    by (simp add: local_midnight_def utc_zone_def at_time_def)
  have c: "instant_add sample_lib (20542 * day_ns) (- 1) = Some (20542 * day_ns - 1)" "day_add sample_lib 20543 1 = Some 20544"
    by (simp_all add: instant_add_def day_add_def sample_lib_def day_ns_def)
  have g: "start_of_week sample_lib 20542 WeekMon = Some 20542" "end_of_week sample_lib 20543 WeekMon = Some 20548"
    "day_add sample_lib 20548 1 = Some 20549"
    by (simp_all add: start_of_week_def end_of_week_def day_add_def week_column_def sample_lib_def)
  have days: "\<exists>days. build_grid sample_lib 20542 20543 None WeekMon es 1 = Some days \<and> length days = 7" for es
    unfolding build_grid_def using g by simp
  have p: "preview sample_lib sample_daily (20542 * day_ns - 1) 2 = Some [sample_fire + day_ns, sample_fire + 2 * day_ns]"
    by (simp add: numeral_eq_Suc)
      (simp add: next_fire_def record_run_def sat_succ_def runs_exhausted_def search_floor_def
        timezone_def MAX_CANDIDATES_def candidates_numeral raw_next_after_def next_daily_def daily_scan_numeral
        resolve_def resolve_local_def resolve_naive_def at_time_def date_of_def succ_opt_def
        jump_past_exclusion_day_def instant_add_def sample_defs)
  have caps: "x_occurrence evening_task = sample_daily" "max_fires_per_task (co_caps range_options) = 5"
    "max_total_entries (co_caps range_options) = 2" by (simp_all add: evening_task_def range_options_def)
  have "timezone sample_lib sample_daily = Some helsinki" by (simp add: timezone_def sample_daily_def sample_lib_def sample_tz_def)
  moreover have "place_fires range_options utc_zone (20542 * day_ns) (20544 * day_ns) 2
      [sample_fire + day_ns, sample_fire + 2 * day_ns] = [sample_fire + day_ns]"
    by (simp add: range_options_def utc_zone_def date_of_def sample_fire_def hour_ns_def day_ns_def)
  ultimately have e: "expand_tasks sample_lib range_options utc_zone (20542 * day_ns - 1) (20542 * day_ns) (20544 * day_ns)
      [evening_task] [] [] = Some ([snapshot_entry sample_lib range_options utc_zone evening_task (sample_fire + day_ns)], [])"
    using p caps by (simp add: Let_def del: place_fires.simps)
  have o1: "co_from range_options = 20542" "co_to range_options = 20543" "co_timezone range_options = ''UTC''"
    "co_month range_options = None" "co_week_start range_options = WeekMon" "max_tasks (co_caps range_options) = 3"
    "max_per_cell (co_caps range_options) = 1"
    by (simp_all add: range_options_def)
  show ?thesis using days [of "[snapshot_entry sample_lib range_options utc_zone evening_task (sample_fire + day_ns)]"]
    by (auto simp: build_snapshot_def o1 z m c e tasks_capped_def Let_def simp del: expand_tasks.simps)
qed

theorem snapshot_bounded_witness:
  "\<exists>s. build_snapshot sample_lib [evening_task] range_options = Some (Inr s) \<and> length (cs_entries s) = 1 \<and>
     length (cs_entries s) \<le> max_total_entries (co_caps range_options)"
proof -
  obtain s e where s: "build_snapshot sample_lib [evening_task] range_options = Some (Inr s)" "cs_entries s = [e]"
    using range_snapshot by blast
  from snapshot_bounded [OF s(1)] have "length (cs_entries s) \<le> max_total_entries (co_caps range_options)" by blast
  then show ?thesis using s by auto
qed

end
