(* ===== verification/Spec2Isabelle.thy ===== *)
theory Spec2Isabelle
  imports Occurrence_Properties Store_Properties Reply_Properties Publication_Properties Fire_Properties
    Quarantine_Properties Scheduler_Properties Dispatcher_Properties Retention_Properties
    Recalibration_Properties Slot_Properties Wake_Properties Calendar_Properties
begin

text \<open>
  Bellman is a timer service: schedules say when timers fire, a durable store holds timers and
  their runs, a scheduler turns due timers into fires, and a reply engine follows what the
  woken application reports back.

  \<^bold>\<open>Theories and the code they model\<close> (paths under \<open>src/crates/bellman-core/src/\<close>)

  \<^item> \<open>Bellman_Prelude\<close>: panics as \<open>exec\<close>, saturating counters, lemma collections.
  \<^item> \<open>Chrono_Lib\<close>: instants, wall-clock values and durations as integers of nanoseconds; the
    crates \<open>chrono\<close>, \<open>chrono-tz\<close> and \<open>croner\<close> as the parameter record \<open>lib\<close>, with the
    documented facts about them as named predicates.
  \<^item> \<open>Occurrence_Kind\<close> (\<open>occurrence/kind.rs\<close>, \<open>policy.rs\<close>): weekday masks, schedule kinds,
    their validation.
  \<^item> \<open>Occurrence_Civil\<close> (\<open>occurrence/civil.rs\<close>): from wall-clock readings to instants.
  \<^item> \<open>Occurrence_Schedule\<close> (\<open>occurrence/schedule.rs\<close>): the schedule record, the candidate
    search of each kind, \<open>next_fire\<close>, \<open>preview\<close> and its iterator.
  \<^item> \<open>Occurrence_Laws\<close>, \<open>Occurrence_Next_Fire\<close>: the fires of each kind as an abstract
    predicate, the locale \<open>least_source\<close> (an answer is the next fire after the cursor, as long as the
    zone keeps its local dates in order between the two) with its interpretations, and the laws of
    \<open>next_fire\<close> and \<open>preview\<close>. No zone is asked to keep its dates in order everywhere: a fall-back
    over midnight breaks that order, and the properties say what then remains.
  \<^item> \<open>Sample_Zones\<close>: a concrete \<open>lib\<close> on which every hypothesis on the crates holds.
  \<^item> \<open>Occurrence_Properties\<close>: the properties of the occurrence engine.
  \<^item> \<open>Event_Record\<close> (\<open>events/record.rs\<close>): run states and event lines.
  \<^item> \<open>Sql_Table\<close>: a SQL table as a list of rows, with the locale of key-keeping updates.
  \<^item> \<open>Store_Models\<close> (\<open>store/models.rs\<close>, \<open>store/error.rs\<close>): the rows of the store.
  \<^item> \<open>Store_Timers\<close>, \<open>Store_Runs\<close> (\<open>store/mod.rs\<close>): the store's operations, on a record of
    tables.
  \<^item> \<open>Store_Laws\<close>, \<open>Store_Steps\<close>: the store invariant, the step relation of the store's
    operations, what every history keeps.
  \<^item> \<open>Store_Properties\<close>: the properties of the store.
  \<^item> \<open>Reply_World\<close>, \<open>Reply_Document\<close>, \<open>Reply_Engine\<close> (\<open>reply/engine.rs\<close>, \<open>document.rs\<close>,
    \<open>deadlines.rs\<close>): the world of the reply engine (store, deadline book, anchors), the reply
    document and its validation, ingesting a reply, pickup and watchdog deadlines.
  \<^item> \<open>Reply_Laws\<close>, \<open>Reply_Properties\<close>: the lifecycle of a run as an abstract machine of phases,
    the refinement of it, and the properties of the engine.
  \<^item> \<open>Fire_Notification\<close> (\<open>reply/notification.rs\<close>, \<open>slots/atomic.rs\<close>), \<open>Timers_Tree\<close>
    (\<open>tree/mod.rs\<close>), \<open>Publication\<close> (\<open>reply/publication.rs\<close>), \<open>Quarantine\<close>
    (\<open>reply/quarantine.rs\<close>), \<open>Reply_Watcher\<close> (\<open>reply/watcher.rs\<close>): files as a map from paths
    to texts, the folder of a timer, wake hints, condemned replies and the poll of the folders.
  \<^item> \<open>Fire_Tx\<close> (\<open>tree/mod.rs\<close>): the fire transaction, overlap policies and the delete.
  \<^item> \<open>Path_Laws\<close>, \<open>Tree_Properties\<close>, \<open>Publication_Properties\<close>, \<open>Quarantine_Properties\<close>,
    \<open>Fire_Properties\<close>: their laws and properties.
  \<^item> \<open>Scheduler_Time\<close> (\<open>scheduler/jitter.rs\<close>, \<open>engine/misfire.rs\<close>), \<open>Scheduler_Heap\<close>
    (\<open>engine/types.rs\<close>; the locale \<open>wake_queue\<close>), \<open>Scheduler_Engine\<close> (\<open>config.rs\<close>,
    \<open>engine/mod.rs\<close>, \<open>action.rs\<close>), \<open>Scheduler_Delivery\<close> (\<open>engine/horizon.rs\<close>,
    \<open>delivery.rs\<close>), \<open>Scheduler_Loop\<close> (\<open>engine/misfire.rs\<close>, \<open>drive.rs\<close>): the scheduler, whose
    state extends that of the reply watcher by the heap and the clocks.
  \<^item> \<open>Scheduler_Laws\<close>, \<open>Scheduler_Properties\<close>: which actions each operation may call, and the
    properties of the scheduler.

  \<^item> \<open>Action_Limiter\<close> (\<open>actions/concurrency.rs\<close>), \<open>Action_Executor\<close> (\<open>actions/executor.rs\<close>,
    \<open>launch.rs\<close>, \<open>cancel.rs\<close>): the permits as a step relation over critical sections, one run of
    an action with its retries. A captured pipe answers one read after another and may never end.
  \<^item> \<open>Dispatcher\<close>, \<open>Dispatcher_Laws\<close>, \<open>Dispatcher_Properties\<close> (\<open>actions/dispatcher.rs\<close>): lanes,
    the pump and the workers as one step relation, the invariant of its interleavings.
  \<^item> \<open>Event_Log\<close> (\<open>events/log.rs\<close>, \<open>reader.rs\<close>), \<open>Event_Publisher\<close> (\<open>events/publisher.rs\<close>): the log
    files, rotation and its recovery, the drain of the outbox; every file operation is a numbered
    step that may fail. \<open>Publisher_Laws\<close>, \<open>Publisher_Cycle\<close>, \<open>Publisher_Properties\<close>: what each
    step keeps of the recorded events. \<open>Retention_Properties\<close>: which archives retention removes.
  \<^item> \<open>Pruner\<close> (\<open>pruner/mod.rs\<close>, \<open>year.rs\<close>), \<open>Pruner_Properties\<close>, \<open>Recalibration_Properties\<close>: the
    prune pass, the Jan-1 recalibration, the startup sequence.
  \<^item> \<open>Slot_Envelope\<close> (\<open>slots/envelope.rs\<close>, \<open>payload.rs\<close>, \<open>error.rs\<close>), \<open>Slot_Layout\<close>
    (\<open>slots/layout.rs\<close>, \<open>atomic.rs\<close>), \<open>Slot_Service\<close> (\<open>slots/service.rs\<close>), \<open>Slot_Properties\<close>: the
    file channel through which applications add, modify and delete timers.
  \<^item> \<open>Machine_Wake\<close> (\<open>platform/wake/mod.rs\<close>, \<open>single_next_wake.rs\<close>), \<open>Linux_Wake\<close>
    (\<open>linux.rs\<close>), \<open>Desktop_Wake\<close> (\<open>windows.rs\<close>, \<open>macos.rs\<close>, their decisions, and
    \<open>src/helpers/macos-wake-daemon\<close>), \<open>Wake_Properties\<close>: waking the machine for the next fire; the
    locale \<open>wake_contract\<close> is what the bridge needs of a platform, \<open>bridge_step\<close> its histories and
    \<open>quiet_step\<close> those in which what it remembers stays armed.
  \<^item> \<open>Visible_Types\<close> (\<open>visible/types.rs\<close>), \<open>Calendar_Build\<close> (\<open>calendar/types.rs\<close>, \<open>period.rs\<close>,
    \<open>build.rs\<close>), \<open>Calendar_Truth\<close> (\<open>calendar/truth.rs\<close>), \<open>Calendar_Evidence\<close>, \<open>Calendar_Properties\<close>: the grid of
    a range of days, the window of recorded runs and projected fires, and which events and claims
    each recorded entry is made of.

  \<^bold>\<open>Bounds\<close>. The counts 100000 (backlog walks), 10000 (missed instants) and 1000 (entries of a
  drain) are the code's own caps, so the models need no fuel beyond them; likewise the caps of the
  candidate searches.

  \<^bold>\<open>Parameters\<close>. Code not under \<open>src/\<close> or outside the model is an argument: \<open>lib\<close> (the date
  crates), \<open>env\<close> (clock readings, fresh ids), \<open>codec\<close> (JSON, Unicode tables), \<open>faults\<close> (which file
  operations fail), \<open>host\<close> (clocks, the action, the pruner, the hasher), \<open>log_env\<close> (which step of
  the publisher fails and how far a write got, compression), \<open>slot_codec\<close> and \<open>slot_faults\<close> (the
  slot documents, which operations on the slot directories fail), \<open>linux_os\<close>, \<open>windows_os\<close>, \<open>mac_os\<close> (what
  the system answers to each wake call), \<open>drain\<close> (the order a hash map is emptied in).

  \<^bold>\<open>Not modelled\<close>. Threads, sockets and file notification around the modelled operations
  (\<open>ipc/\<close>, \<open>slots/watcher.rs\<close>, the locks of \<open>reply/gate.rs\<close>), SQL text and migrations
  (\<open>store/schema.rs\<close>), the discovery and editing of other schedulers' tasks (\<open>visible/\<close> beyond its
  types), drawing (\<open>calendar/svg.rs\<close>, \<open>png.rs\<close>), the configuration file, and the command line and desktop
  programs, which parse input and call the modelled operations.
\<close>

end
